(* ===== verification/Dext_Prelude.thy ===== *)
theory Dext_Prelude
  imports Complex_Main "HOL-Library.Sublist" "HOL-Library.Char_ord"
    "HOL-Library.List_Lexorder" "HOL-Library.Product_Lexorder"
begin

text \<open>
  Shared vocabulary of the development: Python strings and the handful of \<open>str\<close>
  operations the sources use, JSON values and dicts, results of fallible code, and the
  relational-table operations (a table is the list of its rows in rowid order) that the
  SQL statements of \<open>src/src/dext/storage\<close> denote.

  A Python \<open>str\<close> is the list of its UTF-8 bytes. Equality, concatenation, prefix,
  suffix and substring tests and the code-point order of \<open>sorted\<close> agree with those on
  the bytes (UTF-8 is self-synchronising and order preserving); \<open>len\<close> counts the
  non-continuation bytes (\<open>py_len\<close>) and \<open>strip\<close> knows the encodings of every
  code point for which \<open>str.isspace\<close> holds. Case folding acts on the ASCII letters.
\<close>

section \<open>Collections of rewrite rules\<close>

named_theorems tbl_simps \<open>rewrite rules for the table operations\<close>
named_theorems res_simps \<open>rewrite rules for results of fallible code\<close>

section \<open>Results of fallible code\<close>

type_synonym ('e, 'a) result = "'e + 'a"

definition res_bind :: "('e, 'a) result \<Rightarrow> ('a \<Rightarrow> ('e, 'b) result) \<Rightarrow> ('e, 'b) result" where
  "res_bind r f = (case r of Inl e \<Rightarrow> Inl e | Inr a \<Rightarrow> f a)"

lemma res_bind_Inl [simp, res_simps]: "res_bind (Inl e) f = Inl e"
  by (simp add: res_bind_def)

lemma res_bind_Inr [simp, res_simps]: "res_bind (Inr a) f = f a"
  by (simp add: res_bind_def)

lemma res_bind_eq_Inr: "res_bind r f = Inr b \<longleftrightarrow> (\<exists>a. r = Inr a \<and> f a = Inr b)"
  by (cases r) auto

lemma res_bind_InrE:
  assumes "res_bind r f = Inr b"
  obtains a where "r = Inr a" and "f a = Inr b"
  using assms by (auto simp: res_bind_eq_Inr)

text \<open>A loop whose body may raise: the first error stops it.\<close>

primrec res_fold :: "('a \<Rightarrow> 's \<Rightarrow> ('e, 's) result) \<Rightarrow> 'a list \<Rightarrow> 's \<Rightarrow> ('e, 's) result" where
  "res_fold f [] s = Inr s"
| "res_fold f (x # xs) s = res_bind (f x s) (res_fold f xs)"

lemma res_fold_inv:
  assumes "\<And>x s s'. x \<in> set xs \<Longrightarrow> I s \<Longrightarrow> f x s = Inr s' \<Longrightarrow> I s'"
    and "I s" and "res_fold f xs s = Inr s'"
  shows "I s'"
  using assms
proof (induction xs arbitrary: s)
  case (Cons x xs)
  from Cons.prems(3) obtain s1 where "f x s = Inr s1" "res_fold f xs s1 = Inr s'"
    by (auto elim: res_bind_InrE)
  with Cons.IH [of s1] Cons.prems(1,2) show ?case by (metis list.set_intros)
qed simp

section \<open>Python strings\<close>

definition startswith :: "string \<Rightarrow> string \<Rightarrow> bool" where
  "startswith s p = (take (length p) s = p)"

definition endswith :: "string \<Rightarrow> string \<Rightarrow> bool" where
  "endswith s p = (length p \<le> length s \<and> drop (length s - length p) s = p)"

fun py_in :: "string \<Rightarrow> string \<Rightarrow> bool" where
  "py_in sub [] = (sub = [])"
| "py_in sub (c # cs) = (startswith (c # cs) sub \<or> py_in sub cs)"

definition is_cont_byte :: "char \<Rightarrow> bool" where
  "is_cont_byte c = (128 \<le> (of_char c :: nat) \<and> (of_char c :: nat) < 192)"

definition py_len :: "string \<Rightarrow> nat" where
  "py_len s = length (filter (\<lambda>c. \<not> is_cont_byte c) s)"

definition lower_char :: "char \<Rightarrow> char" where
  "lower_char c =
     (let n = (of_char c :: nat) in if 65 \<le> n \<and> n \<le> 90 then char_of (n + 32) else c)"

definition py_lower :: "string \<Rightarrow> string" where
  "py_lower s = map lower_char s"

definition ws_codes :: "string list" where
  "ws_codes =
     [[CHR 0x20], [CHR 0x09], [CHR 0x0A], [CHR 0x0B], [CHR 0x0C], [CHR 0x0D],
      [CHR 0x1C], [CHR 0x1D], [CHR 0x1E], [CHR 0x1F],
      [CHR 0xC2, CHR 0x85], [CHR 0xC2, CHR 0xA0], [CHR 0xE1, CHR 0x9A, CHR 0x80],
      [CHR 0xE2, CHR 0x80, CHR 0x80], [CHR 0xE2, CHR 0x80, CHR 0x81],
      [CHR 0xE2, CHR 0x80, CHR 0x82], [CHR 0xE2, CHR 0x80, CHR 0x83],
      [CHR 0xE2, CHR 0x80, CHR 0x84], [CHR 0xE2, CHR 0x80, CHR 0x85],
      [CHR 0xE2, CHR 0x80, CHR 0x86], [CHR 0xE2, CHR 0x80, CHR 0x87],
      [CHR 0xE2, CHR 0x80, CHR 0x88], [CHR 0xE2, CHR 0x80, CHR 0x89],
      [CHR 0xE2, CHR 0x80, CHR 0x8A], [CHR 0xE2, CHR 0x80, CHR 0xA8],
      [CHR 0xE2, CHR 0x80, CHR 0xA9], [CHR 0xE2, CHR 0x80, CHR 0xAF],
      [CHR 0xE2, CHR 0x81, CHR 0x9F], [CHR 0xE3, CHR 0x80, CHR 0x80]]"

text \<open>\<open>lstrip_toks\<close> drops leading whitespace code points, one encoding at a time.\<close>

function lstrip_toks :: "string list \<Rightarrow> string \<Rightarrow> string" where
  "lstrip_toks toks s =
     (case find (\<lambda>t. t \<noteq> [] \<and> startswith s t) toks of
        None \<Rightarrow> s
      | Some t \<Rightarrow> lstrip_toks toks (drop (length t) s))"
  by pat_completeness auto
termination
proof (relation "measure (\<lambda>(toks, s). length s)")
  show "wf (measure (\<lambda>(toks, s :: string). length s))" by simp
next
  fix toks :: "string list" and s t
  assume "find (\<lambda>t. t \<noteq> [] \<and> startswith s t) toks = Some t"
  then have "t \<noteq> []" and "startswith s t"
    by (auto simp: find_Some_iff)
  then have "s \<noteq> []"
    by (auto simp: startswith_def)
  with \<open>t \<noteq> []\<close> show "((toks, drop (length t) s), (toks, s)) \<in> measure (\<lambda>(toks, s). length s)"
    by simp
qed

declare lstrip_toks.simps [simp del]

definition py_lstrip :: "string \<Rightarrow> string" where
  "py_lstrip s = lstrip_toks ws_codes s"

definition py_rstrip :: "string \<Rightarrow> string" where
  "py_rstrip s = rev (lstrip_toks (map rev ws_codes) (rev s))"

definition py_strip :: "string \<Rightarrow> string" where
  "py_strip s = py_rstrip (py_lstrip s)"

text \<open>\<open>x or y\<close> on an optional string: \<open>None\<close> and the empty string are falsy.\<close>

text \<open>The UTF-8 encodings of the six decorative dots (U+00B7, U+2022, U+2219, U+30FB, U+FF65,
  U+2027).\<close>

definition decorative_dots :: "string list" where
  "decorative_dots =
     [[CHR 0xC2, CHR 0xB7], [CHR 0xE2, CHR 0x80, CHR 0xA2], [CHR 0xE2, CHR 0x88, CHR 0x99],
      [CHR 0xE3, CHR 0x83, CHR 0xBB], [CHR 0xEF, CHR 0xBD, CHR 0xA5], [CHR 0xE2, CHR 0x80, CHR 0xA7]]"

function drop_tokens :: "string list \<Rightarrow> string \<Rightarrow> string" where
  "drop_tokens toks [] = []"
| "drop_tokens toks (c # cs) =
     (case find (\<lambda>t. t \<noteq> [] \<and> startswith (c # cs) t) toks of
        None \<Rightarrow> c # drop_tokens toks cs
      | Some t \<Rightarrow> drop_tokens toks (drop (length t) (c # cs)))"
  by pat_completeness auto
termination
proof (relation "measure (\<lambda>(toks, s). length s)")
  fix toks :: "string list" and c cs t
  assume "find (\<lambda>t. t \<noteq> [] \<and> startswith (c # cs) t) toks = Some t"
  then have "t \<noteq> []" by (auto simp: find_Some_iff)
  then show "((toks, drop (length t) (c # cs)), (toks, c # cs)) \<in> measure (\<lambda>(toks, s). length s)"
    by (cases t) auto
qed auto

definition str_or :: "string option \<Rightarrow> string \<Rightarrow> string" where
  "str_or x y = (case x of None \<Rightarrow> y | Some s \<Rightarrow> if s = [] then y else s)"

definition truthy_str :: "string option \<Rightarrow> bool" where
  "truthy_str x = (x \<noteq> None \<and> x \<noteq> Some [])"

text \<open>\<open>str(n)\<close> of a non-negative integer.\<close>

function nat_str :: "nat \<Rightarrow> string" where
  "nat_str n = (if n < 10 then [char_of (48 + n)] else nat_str (n div 10) @ [char_of (48 + n mod 10)])"
  by pat_completeness auto
termination
  by (relation "measure id") auto

declare nat_str.simps [simp del]

definition int_str :: "int \<Rightarrow> string" where
  "int_str i = (if i < 0 then CHR ''-'' # nat_str (nat (- i)) else nat_str (nat i))"

definition read_digits :: "string \<Rightarrow> nat" where
  "read_digits s = fold (\<lambda>c n. 10 * n + (of_char c - 48)) s 0"

lemma read_digits_snoc: "read_digits (s @ [c]) = 10 * read_digits s + (of_char c - 48)"
  by (simp add: read_digits_def)

lemma of_char_digit: "n < 10 \<Longrightarrow> of_char (char_of (48 + n) :: char) - 48 = (n :: nat)"
  by (simp add: of_char_of)

lemma read_digits_nat_str: "read_digits (nat_str n) = n"
proof (induction n rule: nat_str.induct)
  case (1 n)
  show ?case
  proof (cases "n < 10")
    case True
    then show ?thesis
      using read_digits_snoc [of "[]" "char_of (48 + n)"]
      by (simp add: nat_str.simps [of n] of_char_digit read_digits_def)
  next
    case False
    with "1.IH" show ?thesis
      by (simp add: nat_str.simps [of n] read_digits_snoc of_char_digit)
  qed
qed

lemma nat_str_inject [simp]: "nat_str m = nat_str n \<longleftrightarrow> m = n"
  by (metis read_digits_nat_str)

lemma startswith_append [simp]: "startswith (p @ s) p"
  by (simp add: startswith_def)

lemma startswith_iff: "startswith s p \<longleftrightarrow> (\<exists>r. s = p @ r)"
  by (metis append_take_drop_id startswith_append startswith_def)

lemma endswith_iff: "endswith s p \<longleftrightarrow> (\<exists>r. s = r @ p)"
proof
  assume "endswith s p"
  then show "\<exists>r. s = r @ p"
    by (metis append_take_drop_id endswith_def)
next
  assume "\<exists>r. s = r @ p"
  then show "endswith s p"
    by (auto simp: endswith_def)
qed

lemma lower_char_idem [simp]: "lower_char (lower_char c) = lower_char c"
  by (auto simp: lower_char_def Let_def of_char_of)

lemma py_lower_idem [simp]: "py_lower (py_lower s) = py_lower s"
  by (simp add: py_lower_def)

section \<open>JSON values and dicts\<close>

datatype json =
    JNull
  | JBool bool
  | JInt int
  | JFloat rat
  | JStr string
  | JList "json list"
  | JDict "(string \<times> json) list"

text \<open>A Python dict is the association list of its items in insertion order.\<close>

type_synonym ('k, 'v) dict = "('k \<times> 'v) list"
type_synonym metadata = "(string, json) dict"

definition dict_get :: "('k, 'v) dict \<Rightarrow> 'k \<Rightarrow> 'v option" where
  "dict_get d k = map_of d k"

definition dict_setdefault :: "'k \<Rightarrow> 'v \<Rightarrow> ('k, 'v) dict \<Rightarrow> ('k, 'v) dict" where
  "dict_setdefault k v d = (if k \<in> fst ` set d then d else d @ [(k, v)])"

definition dict_set :: "'k \<Rightarrow> 'v \<Rightarrow> ('k, 'v) dict \<Rightarrow> ('k, 'v) dict" where
  "dict_set k v d =
     (if k \<in> fst ` set d then map (\<lambda>(k', v'). if k' = k then (k', v) else (k', v')) d
      else d @ [(k, v)])"

definition dict_pop :: "'k \<Rightarrow> ('k, 'v) dict \<Rightarrow> ('k, 'v) dict" where
  "dict_pop k d = filter (\<lambda>(k', v'). k' \<noteq> k) d"

definition dict_keys :: "('k, 'v) dict \<Rightarrow> 'k list" where
  "dict_keys d = map fst d"

lemma map_of_upd_pairs:
  "map_of (map (\<lambda>(k', v'). if k' = k then (k', v) else (k', v')) d) k' =
     (if k' = k \<and> k \<in> fst ` set d then Some v else map_of d k')"
proof (induction d)
  case (Cons p d)
  then show ?case
    by (cases p; cases "k' = k"; cases "fst p = k") simp_all
qed simp

lemma dict_get_setdefault:
  "dict_get (dict_setdefault k v d) k' =
     (if k' = k \<and> dict_get d k = None then Some v else dict_get d k')"
proof (cases "k \<in> fst ` set d")
  case True
  then have "map_of d k \<noteq> None" by (metis map_of_eq_None_iff)
  with True show ?thesis by (simp add: dict_get_def dict_setdefault_def)
next
  case False
  then have "map_of d k = None" by (metis map_of_eq_None_iff)
  with False show ?thesis
    by (simp add: dict_get_def dict_setdefault_def map_add_def split: option.split)
qed

lemma dict_get_set: "dict_get (dict_set k v d) k' = (if k' = k then Some v else dict_get d k')"
proof (cases "k \<in> fst ` set d")
  case True
  then show ?thesis by (simp add: dict_get_def dict_set_def map_of_upd_pairs)
next
  case False
  then have "map_of d k = None" by (metis map_of_eq_None_iff)
  with False show ?thesis
    by (simp add: dict_get_def dict_set_def map_add_def split: option.split)
qed

lemma dict_get_pop: "dict_get (dict_pop k d) k' = (if k' = k then None else dict_get d k')"
  by (induction d) (auto simp: dict_get_def dict_pop_def)

lemma dict_keys_upd_pairs:
  "map fst (map (\<lambda>(k', v'). if k' = k then (k', v) else (k', v')) d) = map fst d"
  by (induction d) auto

lemma dict_set_keys_distinct:
  assumes "distinct (dict_keys d)"
  shows "distinct (dict_keys (dict_set k v d))"
proof (cases "k \<in> fst ` set d")
  case True
  with assms show ?thesis by (simp add: dict_keys_def dict_set_def dict_keys_upd_pairs del: map_map)
next
  case False
  with assms show ?thesis by (simp add: dict_keys_def dict_set_def)
qed

section \<open>Relational tables\<close>

text \<open>
  \<open>next_id\<close> is SQLite's rowid rule for an \<open>INTEGER PRIMARY KEY\<close> column: one more than
  the largest rowid in use.
\<close>

definition next_id :: "('r \<Rightarrow> nat) \<Rightarrow> 'r list \<Rightarrow> nat" where
  "next_id rid rows = Suc (fold max (map rid rows) 0)"

definition update_where :: "('r \<Rightarrow> bool) \<Rightarrow> ('r \<Rightarrow> 'r) \<Rightarrow> 'r list \<Rightarrow> 'r list" where
  "update_where P f rows = map (\<lambda>r. if P r then f r else r) rows"

definition delete_where :: "('r \<Rightarrow> bool) \<Rightarrow> 'r list \<Rightarrow> 'r list" where
  "delete_where P rows = filter (\<lambda>r. \<not> P r) rows"

lemma fold_max_ge: "(x :: nat) \<le> fold max xs x"
  by (induction xs arbitrary: x) (auto intro: order_trans [OF max.cobounded2])

lemma fold_max_mem: "y \<in> set xs \<Longrightarrow> (y :: nat) \<le> fold max xs x"
proof (induction xs arbitrary: x)
  case (Cons a xs)
  then show ?case
    by (auto intro: order_trans [OF max.cobounded1 fold_max_ge])
qed simp

lemma next_id_greater: "r \<in> set rows \<Longrightarrow> rid r < next_id rid rows"
  by (auto simp: next_id_def less_Suc_eq_le intro!: fold_max_mem)

lemma next_id_fresh: "next_id rid rows \<notin> rid ` set rows"
  using next_id_greater [of _ rows rid] by force

lemma next_id_pos [simp]: "0 < next_id rid rows"
  by (simp add: next_id_def)

lemma distinct_snoc_next_id:
  "distinct (map rid rows) \<Longrightarrow> rid r = next_id rid rows \<Longrightarrow> distinct (map rid (rows @ [r]))"
  using next_id_fresh [of rid rows] by auto

lemma map_update_where [tbl_simps]:
  "(\<And>r. g (f r) = g r) \<Longrightarrow> map g (update_where P f rows) = map g rows"
  by (simp add: update_where_def)

lemma image_update_where [tbl_simps]:
  "(\<And>r. g (f r) = g r) \<Longrightarrow> g ` set (update_where P f rows) = g ` set rows"
  by (metis map_update_where set_map)

lemma set_delete_where [tbl_simps]: "set (delete_where P rows) = {r \<in> set rows. \<not> P r}"
  by (simp add: delete_where_def)

lemma distinct_delete_where [tbl_simps]:
  "distinct (map g rows) \<Longrightarrow> distinct (map g (delete_where P rows))"
  by (simp add: delete_where_def distinct_map_filter)

lemma length_update_where [simp]: "length (update_where P f rows) = length rows"
  by (simp add: update_where_def)

lemma mem_update_whereE:
  assumes "r \<in> set (update_where P f rows)"
  obtains r0 where "r0 \<in> set rows" and "r = (if P r0 then f r0 else r0)"
  using assms by (auto simp: update_where_def)

lemma find_in_set: "find P xs = Some x \<Longrightarrow> x \<in> set xs \<and> P x"
  by (auto simp: find_Some_iff)

lemma find_unique:
  assumes "distinct (map g rows)" and "r \<in> set rows"
  shows "find (\<lambda>x. g x = g r) rows = Some r"
proof (cases "find (\<lambda>x. g x = g r) rows")
  case None
  with assms(2) show ?thesis by (auto simp: find_None_iff)
next
  case (Some x)
  then have "x \<in> set rows" "g x = g r" by (auto dest: find_in_set)
  with assms have "x = r" by (auto simp: distinct_map dest: inj_onD)
  with Some show ?thesis by simp
qed

lemma find_update_pred:
  assumes "\<And>r. P (f r) = P r"
  shows "find P (update_where Q f rows) = map_option (\<lambda>r. if Q r then f r else r) (find P rows)"
  using assms by (induction rows) (auto simp: update_where_def)

lemma find_append: "find P (xs @ ys) = (case find P xs of None \<Rightarrow> find P ys | Some x \<Rightarrow> Some x)"
  by (induction xs) auto

lemma find_snoc: "find P (xs @ [r]) = (case find P xs of None \<Rightarrow> if P r then Some r else None | Some x \<Rightarrow> Some x)"
  by (induction xs) auto

end
