(* ===== verification/Dext_Types.thy ===== *)
theory Dext_Types
  imports Dext_Prelude
begin

text \<open>
  The value objects shared by the crawler's layers: the graph enums of
  \<open>src/src/dext/storage/models.py\<close>, the dataclasses of \<open>src/src/dext/types.py\<close>, the
  page snapshot of \<open>src/src/dext/page/links.py\<close>, the tunables of
  \<open>src/src/dext/config.py\<close> and the exclusion vocabulary of
  \<open>src/src/dext/exclusions.py\<close>.

  A Python float (a score, a confidence, a clock reading) is a rational number.
\<close>

section \<open>Graph enums (storage/models.py)\<close>

datatype node_type =
    Org_listing_url | Org_unit | Faculty_list_url | Pagination_url | Faculty_followup_url | Detail_url

datatype edge_type =
    Seeded_from_manifest | Discovered_on_page | Belongs_to_org_unit | Pagination_of
  | Detail_candidate_of | Blocked_by

datatype node_status = Pending | In_progress | Retry | Done | Failed | Skipped

fun node_type_value :: "node_type \<Rightarrow> string" where
  "node_type_value Org_listing_url = ''org_listing_url''"
| "node_type_value Org_unit = ''org_unit''"
| "node_type_value Faculty_list_url = ''faculty_list_url''"
| "node_type_value Pagination_url = ''pagination_url''"
| "node_type_value Faculty_followup_url = ''faculty_followup_url''"
| "node_type_value Detail_url = ''detail_url''"

fun node_status_value :: "node_status \<Rightarrow> string" where
  "node_status_value Pending = ''pending''"
| "node_status_value In_progress = ''in_progress''"
| "node_status_value Retry = ''retry''"
| "node_status_value Done = ''done''"
| "node_status_value Failed = ''failed''"
| "node_status_value Skipped = ''skipped''"

definition terminal_statuses :: "node_status list" where
  "terminal_statuses = [Done, Failed, Skipped]"

definition is_terminal :: "node_status \<Rightarrow> bool" where
  "is_terminal st = (st \<in> set terminal_statuses)"

section \<open>Shared value objects (types.py)\<close>

record professor_payload =
  pp_name :: string
  pp_title :: "string option"
  pp_research_areas :: "string option"
  pp_email :: "string option"
  pp_phone :: "string option"
  pp_homepage :: "string option"
  pp_external_link :: "string option"
  pp_bio :: "string option"
  pp_enrollment_pref :: "string option"
  pp_publications :: "string option"

definition payload_named :: "string \<Rightarrow> professor_payload" where
  "payload_named n =
     \<lparr>pp_name = n, pp_title = None, pp_research_areas = None, pp_email = None, pp_phone = None,
      pp_homepage = None, pp_external_link = None, pp_bio = None, pp_enrollment_pref = None,
      pp_publications = None\<rparr>"

record fetch_action =
  fa_kind :: string
  fa_form_name :: "string option"
  fa_fields :: "(string, string) dict option"
  fa_submit :: "bool option"
  fa_synthetic_url :: "string option"
  fa_label :: "string option"
  fa_page_index :: "int option"
  fa_state_id :: "string option"

record pagination_state =
  ps_kind :: string
  ps_state_id :: string
  ps_label :: string
  ps_page_index :: int
  ps_form_name :: string
  ps_fields :: "(string, string) dict"
  ps_submit :: bool
  ps_synthetic_url :: string
  ps_url :: string
  ps_total_pages :: "int option"

record fetch_result =
  fr_identity_url :: string
  fr_requested_url :: string
  fr_final_url :: string
  fr_status_code :: "int option"
  fr_html :: string
  fr_title :: string
  fr_pagination_states :: "pagination_state list"
  fr_block_reason :: "string option"

section \<open>Page snapshots (page/links.py)\<close>

record link_signal =
  ls_href :: string
  ls_url :: string
  ls_anchor_text :: string
  ls_heading :: "string option"
  ls_parent_class :: "string option"
  ls_path_segments :: "string list"
  ls_same_site :: bool

record page_snapshot =
  sn_url :: string
  sn_final_url :: string
  sn_title :: string
  sn_text :: string
  sn_links :: "string list"
  sn_signals :: "link_signal list"
  sn_content_hash :: string

section \<open>Tunables (config.py)\<close>

record settings =
  cf_fetch_timeout_seconds :: int
  cf_decision_workers :: int
  cf_extract_workers :: int
  cf_invalid_json_max_retry :: int
  cf_max_depth :: int
  cf_max_attempts :: int
  cf_followup_page_limit :: int
  cf_facet_node_budget :: int
  cf_attempt_penalty :: rat

definition default_settings :: settings where
  "default_settings =
     \<lparr>cf_fetch_timeout_seconds = 60, cf_decision_workers = 3, cf_extract_workers = 3,
      cf_invalid_json_max_retry = 2, cf_max_depth = 4, cf_max_attempts = 3,
      cf_followup_page_limit = 36, cf_facet_node_budget = 150, cf_attempt_penalty = 5\<rparr>"

section \<open>Exclusion vocabulary (exclusions.py)\<close>

datatype exclusion_axis = Axis_org | Axis_unit

definition exclusion_categories :: "(string \<times> exclusion_axis) list" where
  "exclusion_categories =
     [(''sino_foreign_joint'', Axis_org), (''arts'', Axis_org), (''sports'', Axis_org),
      (''continuing_education'', Axis_org), (''basic_education_center'', Axis_org),
      (''experiment_center'', Axis_org), (''under_construction'', Axis_org),
      (''excellence_engineer'', Axis_org), (''academy'', Axis_org),
      (''namesake_college'', Axis_org), (''freshman_college'', Axis_org),
      (''postdoc'', Axis_unit), (''retired'', Axis_unit), (''administration'', Axis_unit),
      (''support_role'', Axis_unit), (''personnel_work'', Axis_unit),
      (''party_building'', Axis_unit), (''student_affairs'', Axis_unit),
      (''finance_admin'', Axis_unit), (''lecture_event'', Axis_unit),
      (''visiting_professor'', Axis_unit), (''industry_mentor'', Axis_unit),
      (''foreign_faculty'', Axis_unit), (''adjunct_mentor'', Axis_unit)]"

definition is_valid_exclusion_reason :: "string option \<Rightarrow> bool" where
  "is_valid_exclusion_reason code =
     (case code of None \<Rightarrow> False | Some c \<Rightarrow> c \<noteq> [] \<and> c \<in> set (map fst exclusion_categories))"

definition valid_reason :: "string option \<Rightarrow> string option" where
  "valid_reason code = (if is_valid_exclusion_reason code then code else None)"

lemma valid_reason_valid: "valid_reason code = Some c \<Longrightarrow> is_valid_exclusion_reason (Some c)"
  by (auto simp: valid_reason_def split: if_splits)

end
