(* ===== verification/Dext_Url.thy ===== *)
theory Dext_Url
  imports Dext_Prelude
begin

text \<open>
  URLs: the parts of \<open>urllib.parse\<close> the crawler calls (\<open>urlsplit\<close>, \<open>urlunsplit\<close>,
  \<open>urljoin\<close>, the \<open>hostname\<close> property), the fetch policy of
  \<open>src/src/dext/url_policy.py\<close> and the normalisation and site comparison of
  \<open>src/src/dext/page/urls.py\<close>.

  \<open>urlsplit\<close> raises \<open>ValueError\<close> on unbalanced brackets in the authority, which is
  the result \<open>Inl InvalidIPv6\<close>; the additional checks of an IP literal between balanced
  brackets and of the NFKC form of a non-ASCII authority are left out.
\<close>

section \<open>Splitting strings at characters\<close>

definition before_char :: "char \<Rightarrow> string \<Rightarrow> string" where
  "before_char c s = takeWhile (\<lambda>x. x \<noteq> c) s"

definition after_char :: "char \<Rightarrow> string \<Rightarrow> string" where
  "after_char c s = drop 1 (dropWhile (\<lambda>x. x \<noteq> c) s)"

text \<open>\<open>after_last c s\<close> is \<open>s.rsplit(c, 1)[-1]\<close>, also \<open>s.rpartition(c)[2]\<close>.\<close>

definition after_last :: "char \<Rightarrow> string \<Rightarrow> string" where
  "after_last c s = rev (takeWhile (\<lambda>x. x \<noteq> c) (rev s))"

fun split_on :: "char \<Rightarrow> string \<Rightarrow> string list" where
  "split_on c [] = [[]]"
| "split_on c (x # xs) =
     (if x = c then [] # split_on c xs
      else (case split_on c xs of [] \<Rightarrow> [[x]] | w # ws \<Rightarrow> (x # w) # ws))"

fun join_with :: "string \<Rightarrow> string list \<Rightarrow> string" where
  "join_with sep [] = []"
| "join_with sep [w] = w"
| "join_with sep (w # ws) = w @ sep @ join_with sep ws"

section \<open>urllib.parse\<close>

datatype url_error = InvalidIPv6

record split_result =
  sr_scheme :: string
  sr_netloc :: string
  sr_path :: string
  sr_query :: string
  sr_fragment :: string

definition is_alpha :: "char \<Rightarrow> bool" where
  "is_alpha c =
     (let n = (of_char c :: nat) in (65 \<le> n \<and> n \<le> 90) \<or> (97 \<le> n \<and> n \<le> 122))"

definition is_digit :: "char \<Rightarrow> bool" where
  "is_digit c = (let n = (of_char c :: nat) in 48 \<le> n \<and> n \<le> 57)"

definition is_scheme_char :: "char \<Rightarrow> bool" where
  "is_scheme_char c = (is_alpha c \<or> is_digit c \<or> c \<in> {CHR ''+'', CHR ''-'', CHR ''.''})"

definition clean_url :: "string \<Rightarrow> string" where
  "clean_url s =
     filter (\<lambda>c. c \<noteq> CHR 0x09 \<and> c \<noteq> CHR 0x0D \<and> c \<noteq> CHR 0x0A)
       (dropWhile (\<lambda>c. (of_char c :: nat) \<le> 32) s)"

definition split_scheme :: "string \<Rightarrow> string \<Rightarrow> string \<times> string" where
  "split_scheme dflt s =
     (let h = before_char (CHR '':'') s
      in if CHR '':'' \<in> set s \<and> h \<noteq> [] \<and> is_alpha (hd h) \<and> list_all is_scheme_char h
         then (py_lower h, after_char (CHR '':'') s)
         else (dflt, s))"

definition split_netloc :: "string \<Rightarrow> string \<times> string" where
  "split_netloc s =
     (if startswith s ''//'' then
        (let r = drop 2 s; stop = (\<lambda>c. c \<in> {CHR ''/'', CHR ''?'', CHR ''#''})
         in (takeWhile (\<lambda>c. \<not> stop c) r, dropWhile (\<lambda>c. \<not> stop c) r))
      else ([], s))"

definition urlsplit_dflt :: "string \<Rightarrow> string \<Rightarrow> (url_error, split_result) result" where
  "urlsplit_dflt dflt url0 =
     (let (scheme, url1) = split_scheme dflt (clean_url url0);
          (netloc, url2) = split_netloc url1
      in if (CHR ''['' \<in> set netloc) \<noteq> (CHR '']'' \<in> set netloc) then Inl InvalidIPv6
         else
           (let (url3, fragment) =
                  (if CHR ''#'' \<in> set url2
                   then (before_char (CHR ''#'') url2, after_char (CHR ''#'') url2)
                   else (url2, []));
                (path, query) =
                  (if CHR ''?'' \<in> set url3
                   then (before_char (CHR ''?'') url3, after_char (CHR ''?'') url3)
                   else (url3, []))
            in Inr \<lparr>sr_scheme = scheme, sr_netloc = netloc, sr_path = path,
                    sr_query = query, sr_fragment = fragment\<rparr>))"

definition urlsplit :: "string \<Rightarrow> (url_error, split_result) result" where
  "urlsplit url = urlsplit_dflt [] url"

text \<open>The \<open>hostname\<close> property, with \<open>None\<close> (no host) as the empty string, since every
  caller writes \<open>hostname or ""\<close>.\<close>

definition sr_hostname :: "split_result \<Rightarrow> string" where
  "sr_hostname p =
     (let hostinfo = after_last (CHR ''@'') (sr_netloc p);
          raw = (if CHR ''['' \<in> set hostinfo
                 then before_char (CHR '']'') (after_char (CHR ''['') hostinfo)
                 else before_char (CHR '':'') hostinfo)
      in py_lower (before_char (CHR ''%'') raw) @ dropWhile (\<lambda>c. c \<noteq> CHR ''%'') raw)"

definition uses_netloc :: "string list" where
  "uses_netloc =
     [[], ''ftp'', ''http'', ''gopher'', ''nntp'', ''telnet'', ''imap'', ''wais'', ''file'',
      ''mms'', ''https'', ''shttp'', ''snews'', ''prospero'', ''rtsp'', ''rtspu'', ''rsync'',
      ''svn'', ''svn+ssh'', ''sftp'', ''nfs'', ''git'', ''git+ssh'', ''ws'', ''wss'']"

definition uses_relative :: "string list" where
  "uses_relative =
     [[], ''ftp'', ''http'', ''gopher'', ''nntp'', ''imap'', ''wais'', ''file'', ''https'',
      ''shttp'', ''mms'', ''prospero'', ''rtsp'', ''rtspu'', ''sftp'', ''svn'', ''svn+ssh'',
      ''ws'', ''wss'']"

definition uses_params :: "string list" where
  "uses_params =
     [[], ''ftp'', ''hdl'', ''prospero'', ''http'', ''imap'', ''https'', ''shttp'', ''rtsp'',
      ''rtspu'', ''sip'', ''sips'', ''mms'', ''sftp'', ''tel'']"

definition urlunsplit :: "split_result \<Rightarrow> string" where
  "urlunsplit p =
     (let u0 = sr_path p;
          u1 = (if sr_netloc p \<noteq> [] \<or>
                   (sr_scheme p \<noteq> [] \<and> sr_scheme p \<in> set uses_netloc \<and> \<not> startswith u0 ''//'')
                then ''//'' @ sr_netloc p @
                     (if u0 \<noteq> [] \<and> hd u0 \<noteq> CHR ''/'' then CHR ''/'' # u0 else u0)
                else u0);
          u2 = (if sr_scheme p \<noteq> [] then sr_scheme p @ '':'' @ u1 else u1);
          u3 = (if sr_query p \<noteq> [] then u2 @ ''?'' @ sr_query p else u2)
      in if sr_fragment p \<noteq> [] then u3 @ ''#'' @ sr_fragment p else u3)"

definition split_params :: "string \<Rightarrow> string \<Rightarrow> string \<times> string" where
  "split_params scheme path =
     (if scheme \<in> set uses_params \<and> CHR '';'' \<in> set path then
        (let seg = after_last (CHR ''/'') path; hd_part = take (length path - length seg) path
         in if CHR '';'' \<in> set seg
            then (hd_part @ before_char (CHR '';'') seg, after_char (CHR '';'') seg)
            else (path, []))
      else (path, []))"

definition urlunparse :: "split_result \<Rightarrow> string \<Rightarrow> string" where
  "urlunparse p params =
     urlunsplit (if params \<noteq> [] then p\<lparr>sr_path := sr_path p @ '';'' @ params\<rparr> else p)"

fun resolve_dots :: "string list \<Rightarrow> string list \<Rightarrow> string list" where
  "resolve_dots acc [] = acc"
| "resolve_dots acc (seg # segs) =
     (if seg = ''..'' then resolve_dots (butlast acc) segs
      else if seg = ''.'' then resolve_dots acc segs
      else resolve_dots (acc @ [seg]) segs)"

definition join_segments :: "string \<Rightarrow> string \<Rightarrow> string list" where
  "join_segments bpath path =
     (let base0 = split_on (CHR ''/'') bpath;
          base_parts = (if last base0 \<noteq> [] then butlast base0 else base0)
      in if startswith path ''/'' then split_on (CHR ''/'') path
         else
           (let segs = base_parts @ split_on (CHR ''/'') path
            in if length segs \<le> 1 then segs
               else hd segs # filter (\<lambda>w. w \<noteq> []) (butlast (tl segs)) @ [last segs]))"

definition urljoin :: "string \<Rightarrow> string \<Rightarrow> (url_error, string) result" where
  "urljoin base url =
     (if base = [] then Inr url
      else if url = [] then Inr base
      else
        res_bind (urlsplit_dflt [] base) (\<lambda>b.
        res_bind (urlsplit_dflt (sr_scheme b) url) (\<lambda>u.
          let (bpath, bparams) = split_params (sr_scheme b) (sr_path b);
              (path, params) = split_params (sr_scheme u) (sr_path u)
          in if sr_scheme u \<noteq> sr_scheme b \<or> sr_scheme u \<notin> set uses_relative then Inr url
             else if sr_scheme u \<in> set uses_netloc \<and> sr_netloc u \<noteq> []
             then Inr (urlunparse (u\<lparr>sr_path := path\<rparr>) params)
             else
               (let netloc = (if sr_scheme u \<in> set uses_netloc then sr_netloc b else sr_netloc u)
                in if path = [] \<and> params = []
                   then Inr (urlunparse
                          (u\<lparr>sr_netloc := netloc, sr_path := bpath,
                             sr_query := (if sr_query u = [] then sr_query b else sr_query u)\<rparr>)
                          bparams)
                   else
                     (let segs = join_segments bpath path;
                          r0 = resolve_dots [] segs;
                          r1 = (if last segs \<in> {''.'', ''..''} then r0 @ [[]] else r0);
                          p = join_with ''/'' r1
                      in Inr (urlunparse
                           (u\<lparr>sr_netloc := netloc, sr_path := (if p = [] then ''/'' else p)\<rparr>)
                           params))))))"

section \<open>Fetch policy (url_policy.py)\<close>

definition allowed_host :: "string \<Rightarrow> bool" where
  "allowed_host host =
     (host = ''edu.cn'' \<or> endswith host ''.edu.cn'' \<or>
      host = ''github.io'' \<or> endswith host ''.github.io'')"

definition is_allowed_fetch_host :: "string \<Rightarrow> (url_error, bool) result" where
  "is_allowed_fetch_host url =
     res_bind (urlsplit url) (\<lambda>parts.
       if sr_scheme parts \<notin> {''http'', ''https''} then Inr True
       else
         (let host = py_lower (sr_hostname parts)
          in if host = [] then Inr False else Inr (allowed_host host)))"

definition has_explicit_port_parts :: "split_result \<Rightarrow> bool" where
  "has_explicit_port_parts parts =
     (let hostport = after_last (CHR ''@'') (sr_netloc parts)
      in if hostport = [] then False
         else if startswith hostport ''[''
         then CHR '']'' \<in> set hostport \<and> startswith (after_char (CHR '']'') hostport) '':''
         else CHR '':'' \<in> set hostport)"

definition has_explicit_port :: "string \<Rightarrow> bool" where
  "has_explicit_port url =
     (case urlsplit url of Inl _ \<Rightarrow> False | Inr parts \<Rightarrow> has_explicit_port_parts parts)"

section \<open>Normalisation and site comparison (page/urls.py)\<close>

definition multi_suffixes :: "string list" where
  "multi_suffixes =
     [''edu.cn'', ''com.cn'', ''org.cn'', ''net.cn'', ''gov.cn'', ''ac.cn'',
      ''edu.hk'', ''edu.tw'', ''edu.mo'', ''com.hk'', ''com.tw'']"

definition rstrip_char :: "char \<Rightarrow> string \<Rightarrow> string" where
  "rstrip_char c s = rev (dropWhile (\<lambda>x. x = c) (rev s))"

definition normalize_parts :: "split_result \<Rightarrow> string option" where
  "normalize_parts parts =
     (let scheme = py_lower (sr_scheme parts); host = py_lower (sr_hostname parts)
      in if scheme \<notin> {''http'', ''https''} then None
         else if has_explicit_port_parts parts then None
         else if host = [] then None
         else
           (let path = sr_path parts;
                path' = (if py_len path > 1 \<and> endswith path ''/'' then rstrip_char (CHR ''/'') path
                         else path)
            in Some (urlunsplit \<lparr>sr_scheme = scheme, sr_netloc = host, sr_path = path',
                                 sr_query = sr_query parts, sr_fragment = []\<rparr>)))"

definition normalize_url :: "string option \<Rightarrow> string \<Rightarrow> (url_error, string option) result" where
  "normalize_url href base_url =
     (case href of
        None \<Rightarrow> Inr None
      | Some h \<Rightarrow>
          (let raw = py_strip h
           in if raw = [] then Inr None
              else res_bind (urljoin base_url raw) (\<lambda>absolute.
                   res_bind (urlsplit absolute) (\<lambda>parts. Inr (normalize_parts parts)))))"

definition host_of :: "string \<Rightarrow> (url_error, string) result" where
  "host_of url = res_bind (urlsplit url) (\<lambda>p. Inr (py_lower (sr_hostname p)))"

definition registrable_domain :: "string \<Rightarrow> string" where
  "registrable_domain host =
     (let labels = split_on (CHR ''.'') host; n = length labels
      in if n \<le> 2 then host
         else
           (let last_two = join_with ''.'' (drop (n - 2) labels)
            in if last_two \<in> set multi_suffixes then join_with ''.'' (drop (n - 3) labels)
               else last_two))"

definition same_site :: "string \<Rightarrow> string \<Rightarrow> bool \<Rightarrow> (url_error, bool) result" where
  "same_site a b loose =
     (if has_explicit_port a \<or> has_explicit_port b then Inr False
      else
        res_bind (host_of a) (\<lambda>ha.
        res_bind (host_of b) (\<lambda>hb.
          if ha = [] \<or> hb = [] then Inr False
          else if loose then Inr (registrable_domain ha = registrable_domain hb)
          else Inr (ha = hb))))"

definition is_offsite :: "string \<Rightarrow> string \<Rightarrow> (url_error, bool) result" where
  "is_offsite url base = res_bind (same_site url base True) (\<lambda>b. Inr (\<not> b))"

end
