(* ===== verification/Dext_Bridge.thy ===== *)
theory Dext_Bridge
  imports Dext_Types Dext_Url
begin

text \<open>
  The fetch bridge, \<open>src/src/dext/bridge\<close>: the in-memory job queue (\<open>queue.py\<close>), the
  heartbeat tracker (\<open>health.py\<close>), the single-slot decision channel (\<open>decision.py\<close>),
  the mojibake repair (\<open>mojibake.py\<close>) and \<open>HumanFetcherBridge\<close> (\<open>fetcher.py\<close>).

  A \<open>FetchJob\<close> is a mutable object shared by the queue, the HTTP handlers and the
  coroutine that awaits it, so the queue holds job ids and the objects live in the store
  \<open>fq_jobs\<close>; object identity is identity of ids (\<open>uuid4\<close>). The job's future is
  \<open>None\<close> until a resolution sets its result. The coroutine \<open>_wait_for_job\<close> is the
  record \<open>waiter\<close> of its local variables and \<open>wait_step\<close>, one iteration of its loop.
\<close>

section \<open>Job queue (queue.py)\<close>

datatype job_status = J_pending | J_assigned | J_completed | J_failed | J_skipped

record job_context =
  jc_university_name :: string
  jc_agent_state :: string
  jc_intent :: string
  jc_parent_url :: string
  jc_depth :: int
  jc_org_unit_name :: string
  jc_hints :: "string list"

record fetch_job =
  job_url :: string
  job_context :: job_context
  job_timeout_seconds :: int
  job_identity_url :: "string option"
  job_action :: "fetch_action option"
  job_status :: job_status
  job_future :: "fetch_result option"

record queue_stats =
  qs_pending :: nat
  qs_assigned :: nat
  qs_completed :: nat
  qs_failed :: nat
  qs_skipped :: nat

type_synonym job_id = string

record fetch_queue =
  fq_jobs :: "(job_id, fetch_job) dict"
  fq_pending :: "job_id list"
  fq_assigned :: "job_id option"
  fq_completed :: nat
  fq_failed :: nat
  fq_skipped :: nat

definition empty_queue :: fetch_queue where
  "empty_queue =
     \<lparr>fq_jobs = [], fq_pending = [], fq_assigned = None, fq_completed = 0, fq_failed = 0,
      fq_skipped = 0\<rparr>"

definition get_job :: "fetch_queue \<Rightarrow> job_id \<Rightarrow> fetch_job option" where
  "get_job q i = dict_get (fq_jobs q) i"

definition upd_job :: "job_id \<Rightarrow> (fetch_job \<Rightarrow> fetch_job) \<Rightarrow> fetch_queue \<Rightarrow> fetch_queue" where
  "upd_job i f q =
     q\<lparr>fq_jobs := map (\<lambda>(k, j). if k = i then (k, f j) else (k, j)) (fq_jobs q)\<rparr>"

definition enqueue :: "job_id \<Rightarrow> fetch_job \<Rightarrow> fetch_queue \<Rightarrow> fetch_queue" where
  "enqueue i job q =
     q\<lparr>fq_jobs := fq_jobs q @ [(i, job\<lparr>job_status := J_pending\<rparr>)],
       fq_pending := fq_pending q @ [i]\<rparr>"

definition take_next :: "fetch_queue \<Rightarrow> job_id option \<times> fetch_queue" where
  "take_next q =
     (if fq_assigned q \<noteq> None then (None, q)
      else
        (case fq_pending q of
           [] \<Rightarrow> (None, q)
         | i # rest \<Rightarrow>
             (Some i,
              upd_job i (\<lambda>j. j\<lparr>job_status := J_assigned\<rparr>)
                (q\<lparr>fq_pending := rest, fq_assigned := Some i\<rparr>))))"

definition find_job :: "fetch_queue \<Rightarrow> job_id \<Rightarrow> job_id option" where
  "find_job q i = (if fq_assigned q = Some i then Some i else None)"

definition finish :: "job_id \<Rightarrow> job_status \<Rightarrow> fetch_queue \<Rightarrow> fetch_queue" where
  "finish i st q =
     upd_job i (\<lambda>j. j\<lparr>job_status := st\<rparr>)
       (q\<lparr>fq_assigned := (if fq_assigned q = Some i then None else fq_assigned q),
          fq_completed := (if st = J_completed then Suc (fq_completed q) else fq_completed q),
          fq_failed := (if st = J_failed then Suc (fq_failed q) else fq_failed q),
          fq_skipped := (if st = J_skipped then Suc (fq_skipped q) else fq_skipped q)\<rparr>)"

definition discard :: "job_id \<Rightarrow> fetch_queue \<Rightarrow> fetch_queue" where
  "discard i q =
     upd_job i (\<lambda>j. j\<lparr>job_status := J_failed\<rparr>)
       (if fq_assigned q = Some i
        then q\<lparr>fq_assigned := None, fq_failed := Suc (fq_failed q)\<rparr>
        else q\<lparr>fq_pending := remove1 i (fq_pending q), fq_failed := Suc (fq_failed q)\<rparr>)"

definition stats :: "fetch_queue \<Rightarrow> queue_stats" where
  "stats q =
     \<lparr>qs_pending = length (fq_pending q),
      qs_assigned = (if fq_assigned q \<noteq> None then 1 else 0),
      qs_completed = fq_completed q, qs_failed = fq_failed q, qs_skipped = fq_skipped q\<rparr>"

section \<open>Frontend heartbeats (health.py)\<close>

record heartbeat =
  hb_owner_tab_id :: string
  hb_url :: string
  hb_current_job_id :: "string option"
  hb_auto_mode :: bool
  hb_paused :: bool
  hb_client_timestamp_ms :: "rat option"
  hb_received_at :: rat

record frontend_health =
  fh_stale_after :: rat
  fh_latest :: "heartbeat option"

record health_snapshot =
  hs_alive :: bool
  hs_last_seen_seconds_ago :: "rat option"
  hs_heartbeat :: "heartbeat option"
  hs_stale_after :: rat

definition new_frontend_health :: frontend_health where
  "new_frontend_health = \<lparr>fh_stale_after = 15, fh_latest = None\<rparr>"

definition record_heartbeat :: "heartbeat \<Rightarrow> rat \<Rightarrow> frontend_health \<Rightarrow> frontend_health" where
  "record_heartbeat hb clock h = h\<lparr>fh_latest := Some (hb\<lparr>hb_received_at := clock\<rparr>)\<rparr>"

definition is_alive :: "frontend_health \<Rightarrow> rat \<Rightarrow> bool" where
  "is_alive h now =
     (case fh_latest h of
        None \<Rightarrow> False
      | Some hb \<Rightarrow> now - hb_received_at hb \<le> fh_stale_after h)"

definition health_snapshot_of :: "frontend_health \<Rightarrow> rat \<Rightarrow> health_snapshot" where
  "health_snapshot_of h now =
     (case fh_latest h of
        None \<Rightarrow>
          \<lparr>hs_alive = False, hs_last_seen_seconds_ago = None, hs_heartbeat = None,
           hs_stale_after = fh_stale_after h\<rparr>
      | Some hb \<Rightarrow>
          (let age = max 0 (now - hb_received_at hb)
           in \<lparr>hs_alive = (age \<le> fh_stale_after h), hs_last_seen_seconds_ago = Some age,
               hs_heartbeat = Some hb, hs_stale_after = fh_stale_after h\<rparr>))"

section \<open>Pending decisions (decision.py)\<close>

record pending_decision =
  pd_id :: string
  pd_kind :: string
  pd_org_unit_name :: string
  pd_failure_count :: int
  pd_sample_urls :: "string list"
  pd_suggested_action :: string
  pd_status :: string
  pd_action :: "string option"
  pd_resolved_at :: "string option"

type_synonym decision_center = "pending_decision option"

definition set_decision :: "pending_decision \<Rightarrow> decision_center \<Rightarrow> decision_center" where
  "set_decision d c = Some d"

text \<open>
  \<open>resolve\<close> returns whether it accepted the id, the resolved decision handed to the
  registered callback, and the centre afterwards. Whatever an awaited callback does to the
  slot is overwritten by the final \<open>self._pending = None\<close>.
\<close>

definition resolve_decision ::
    "string \<Rightarrow> string \<Rightarrow> string \<Rightarrow> decision_center \<Rightarrow>
     bool \<times> pending_decision option \<times> decision_center" where
  "resolve_decision now decision_id action c =
     (case c of
        None \<Rightarrow> (False, None, c)
      | Some d \<Rightarrow>
          if pd_id d \<noteq> decision_id then (False, None, c)
          else
            (True,
             Some (d\<lparr>pd_action := Some action, pd_status := ''resolved'', pd_resolved_at := Some now\<rparr>),
             None))"

section \<open>Mojibake repair (mojibake.py)\<close>

text \<open>\<open>latin1_encode\<close> is \<open>text.encode("latin-1")\<close> on the UTF-8 bytes of the text:
  \<open>None\<close> (UnicodeEncodeError) when a code point is above U+00FF.\<close>

fun latin1_encode :: "string \<Rightarrow> string option" where
  "latin1_encode [] = Some []"
| "latin1_encode (b # bs) =
     (if (of_char b :: nat) < 128 then map_option (\<lambda>r. b # r) (latin1_encode bs)
      else if b = CHR 0xC2 \<or> b = CHR 0xC3 then
        (case bs of
           [] \<Rightarrow> None
         | c # cs \<Rightarrow>
             map_option (\<lambda>r. char_of (((of_char b :: nat) - 192) * 64 + (of_char c - 128)) # r)
               (latin1_encode cs))
      else None)"

definition byte_in :: "nat \<Rightarrow> nat \<Rightarrow> char \<Rightarrow> bool" where
  "byte_in lo hi c = (lo \<le> (of_char c :: nat) \<and> (of_char c :: nat) \<le> hi)"

text \<open>Well-formed UTF-8 (the inputs on which \<open>bytes.decode("utf-8")\<close> does not raise).\<close>

fun valid_utf8 :: "string \<Rightarrow> bool" where
  "valid_utf8 [] = True"
| "valid_utf8 (a # s) =
     (if byte_in 0 0x7F a then valid_utf8 s
      else if byte_in 0xC2 0xDF a then
        (case s of b # t \<Rightarrow> byte_in 0x80 0xBF b \<and> valid_utf8 t | _ \<Rightarrow> False)
      else if byte_in 0xE0 0xEF a then
        (case s of
           b # c # t \<Rightarrow>
             byte_in (if a = CHR 0xE0 then 0xA0 else 0x80) (if a = CHR 0xED then 0x9F else 0xBF) b \<and>
             byte_in 0x80 0xBF c \<and> valid_utf8 t
         | _ \<Rightarrow> False)
      else if byte_in 0xF0 0xF4 a then
        (case s of
           b # c # d # t \<Rightarrow>
             byte_in (if a = CHR 0xF0 then 0x90 else 0x80) (if a = CHR 0xF4 then 0x8F else 0xBF) b \<and>
             byte_in 0x80 0xBF c \<and> byte_in 0x80 0xBF d \<and> valid_utf8 t
         | _ \<Rightarrow> False)
      else False)"

definition suspicion :: "string \<Rightarrow> nat" where
  "suspicion s = length (filter (\<lambda>c. c = CHR 0xC2 \<or> c = CHR 0xC3) s)"

text \<open>The repaired text is the decoding of \<open>raw\<close>, whose UTF-8 bytes are \<open>raw\<close> itself.\<close>

definition repair_mojibake_text :: "string \<Rightarrow> string" where
  "repair_mojibake_text s =
     (if s = [] then s
      else
        (case latin1_encode s of
           None \<Rightarrow> s
         | Some raw \<Rightarrow>
             if \<not> valid_utf8 raw then s
             else if raw = s \<or> suspicion raw > suspicion s then s
             else raw))"

section \<open>HumanFetcherBridge (fetcher.py)\<close>

record bridge =
  br_timeout :: int
  br_queue :: fetch_queue
  br_health :: frontend_health

definition new_bridge :: "settings \<Rightarrow> bridge" where
  "new_bridge cf =
     \<lparr>br_timeout = cf_fetch_timeout_seconds cf, br_queue = empty_queue,
      br_health = new_frontend_health\<rparr>"

definition job_identity :: "fetch_job \<Rightarrow> string" where
  "job_identity j = str_or (job_identity_url j) (job_url j)"

definition failed_result :: "fetch_job \<Rightarrow> string \<Rightarrow> fetch_result" where
  "failed_result j reason =
     \<lparr>fr_identity_url = job_identity j, fr_requested_url = job_url j, fr_final_url = job_url j,
      fr_status_code = None, fr_html = [], fr_title = [], fr_pagination_states = [],
      fr_block_reason = Some reason\<rparr>"

text \<open>\<open>_resolvable\<close>: the in-flight job of that id whose future is not done.\<close>

definition resolvable :: "bridge \<Rightarrow> job_id \<Rightarrow> fetch_job option" where
  "resolvable br i =
     (case find_job (br_queue br) i of
        None \<Rightarrow> None
      | Some i' \<Rightarrow>
          (case get_job (br_queue br) i' of
             None \<Rightarrow> None
           | Some j \<Rightarrow> if job_future j \<noteq> None then None else Some j))"

definition set_result :: "job_id \<Rightarrow> fetch_result \<Rightarrow> job_status \<Rightarrow> bridge \<Rightarrow> bridge" where
  "set_result i r st br =
     br\<lparr>br_queue := finish i st (upd_job i (\<lambda>j. j\<lparr>job_future := Some r\<rparr>) (br_queue br))\<rparr>"

definition next_job :: "bridge \<Rightarrow> job_id option \<times> bridge" where
  "next_job br = (let (r, q) = take_next (br_queue br) in (r, br\<lparr>br_queue := q\<rparr>))"

definition complete ::
    "job_id \<Rightarrow> string \<Rightarrow> string \<Rightarrow> string \<Rightarrow> pagination_state list \<Rightarrow> bridge \<Rightarrow> bool \<times> bridge" where
  "complete i html final_url title states br =
     (case resolvable br i of
        None \<Rightarrow> (False, br)
      | Some j \<Rightarrow>
          if has_explicit_port final_url
          then (True, set_result i (failed_result j ''invalid_url:explicit_port'') J_failed br)
          else
            (True, set_result i
               \<lparr>fr_identity_url = job_identity j, fr_requested_url = job_url j,
                fr_final_url = final_url, fr_status_code = None,
                fr_html = repair_mojibake_text html, fr_title = repair_mojibake_text title,
                fr_pagination_states = states, fr_block_reason = None\<rparr> J_completed br))"

definition fail_job :: "job_id \<Rightarrow> string \<Rightarrow> bridge \<Rightarrow> bool \<times> bridge" where
  "fail_job i message br =
     (case resolvable br i of
        None \<Rightarrow> (False, br)
      | Some j \<Rightarrow>
          (True, set_result i
             (failed_result j (str_or (Some (py_strip message)) ''human_failed'')) J_failed br))"

definition skip_job :: "job_id \<Rightarrow> string option \<Rightarrow> bridge \<Rightarrow> bool \<times> bridge" where
  "skip_job i reason br =
     (case resolvable br i of
        None \<Rightarrow> (False, br)
      | Some j \<Rightarrow>
          (True, set_result i
             (failed_result j (str_or (Some (py_strip (str_or reason []))) ''human_skip''))
             J_skipped br))"

definition override_job :: "job_id \<Rightarrow> string \<Rightarrow> bridge \<Rightarrow> (url_error, job_id option \<times> bridge) result" where
  "override_job i new_url br =
     (if has_explicit_port new_url then Inr (None, br)
      else
        res_bind (is_allowed_fetch_host new_url) (\<lambda>ok.
          if \<not> ok then Inr (None, br)
          else
            (case find_job (br_queue br) i of
               None \<Rightarrow> Inr (None, br)
             | Some i' \<Rightarrow>
                 Inr (Some i', br\<lparr>br_queue := upd_job i' (\<lambda>j. j\<lparr>job_url := new_url\<rparr>) (br_queue br)\<rparr>))))"

definition record_frontend_heartbeat :: "heartbeat \<Rightarrow> rat \<Rightarrow> bridge \<Rightarrow> bridge" where
  "record_frontend_heartbeat hb clock br =
     br\<lparr>br_health := record_heartbeat hb clock (br_health br)\<rparr>"

record waiter =
  wt_job :: job_id
  wt_active_elapsed :: rat
  wt_last_tick :: rat
  wt_counting :: bool

datatype fetch_start = Rejected fetch_result | Started waiter bridge

text \<open>
  \<open>fetch\<close> up to the first suspension: \<open>jid\<close> is the fresh \<open>uuid4\<close>, \<open>now\<close> the
  monotonic clock when \<open>_wait_for_job\<close> starts.
\<close>

definition fetch ::
    "job_id \<Rightarrow> rat \<Rightarrow> string \<Rightarrow> job_context \<Rightarrow> string option \<Rightarrow> fetch_action option \<Rightarrow> bridge \<Rightarrow>
     (url_error, fetch_start) result" where
  "fetch jid now url ctx identity_url action br =
     res_bind (is_allowed_fetch_host url) (\<lambda>ok.
       if \<not> ok then
         Inr (Rejected
           \<lparr>fr_identity_url = str_or identity_url url, fr_requested_url = url, fr_final_url = url,
            fr_status_code = None, fr_html = [], fr_title = [], fr_pagination_states = [],
            fr_block_reason = Some ''invalid_url:host_not_allowed''\<rparr>)
       else
         Inr (Started
           \<lparr>wt_job = jid, wt_active_elapsed = 0, wt_last_tick = now,
            wt_counting = is_alive (br_health br) now\<rparr>
           (br\<lparr>br_queue := enqueue jid
              \<lparr>job_url = url, job_context = ctx, job_timeout_seconds = br_timeout br,
               job_identity_url = identity_url, job_action = action, job_status = J_pending,
               job_future = None\<rparr> (br_queue br)\<rparr>)))"

datatype wait_outcome = Returned fetch_result | Waiting waiter

text \<open>One iteration of the loop of \<open>_wait_for_job\<close> at clock \<open>now\<close>; a job the queue does
  not know cannot occur (\<open>fetch\<close> enqueued it) and keeps waiting.\<close>

definition wait_step :: "rat \<Rightarrow> waiter \<Rightarrow> bridge \<Rightarrow> wait_outcome \<times> bridge" where
  "wait_step now w br =
     (case get_job (br_queue br) (wt_job w) of
        None \<Rightarrow> (Waiting w, br)
      | Some j \<Rightarrow>
          (case job_future j of
             Some r \<Rightarrow> (Returned r, br)
           | None \<Rightarrow>
               (let elapsed = (if wt_counting w
                               then wt_active_elapsed w + (now - wt_last_tick w)
                               else wt_active_elapsed w)
                in if wt_counting w \<and> of_int (br_timeout br) \<le> elapsed
                   then (Returned (failed_result j ''timeout''),
                         br\<lparr>br_queue := discard (wt_job w) (br_queue br)\<rparr>)
                   else
                     (Waiting (w\<lparr>wt_active_elapsed := elapsed, wt_last_tick := now,
                                 wt_counting := is_alive (br_health br) now\<rparr>), br))))"

section \<open>The bridge as a transition system\<close>

text \<open>
  A state is the bridge, the suspended \<open>_wait_for_job\<close> coroutines and the results
  handed to \<open>fetch\<close> callers. One rule per operation: a caller starts a fetch, the HTTP
  handlers call the resolution operations, a coroutine runs one iteration of its loop.
  The interleaving is arbitrary; every operation is atomic because all of them run on one
  event loop.
\<close>

record bridge_sys =
  sy_bridge :: bridge
  sy_waiters :: "waiter list"
  sy_returned :: "(job_id \<times> fetch_result) list"

definition init_sys :: "settings \<Rightarrow> bridge_sys" where
  "init_sys cf = \<lparr>sy_bridge = new_bridge cf, sy_waiters = [], sy_returned = []\<rparr>"

inductive bridge_step :: "bridge_sys \<Rightarrow> bridge_sys \<Rightarrow> bool" where
  step_fetch:
    "jid \<notin> set (dict_keys (fq_jobs (br_queue (sy_bridge s)))) \<Longrightarrow>
     fetch jid now url ctx iu act (sy_bridge s) = Inr (Started w br) \<Longrightarrow>
     bridge_step s (s\<lparr>sy_bridge := br, sy_waiters := sy_waiters s @ [w]\<rparr>)"
| step_next: "bridge_step s (s\<lparr>sy_bridge := snd (next_job (sy_bridge s))\<rparr>)"
| step_complete:
    "bridge_step s (s\<lparr>sy_bridge := snd (complete i html final_url title states (sy_bridge s))\<rparr>)"
| step_fail: "bridge_step s (s\<lparr>sy_bridge := snd (fail_job i message (sy_bridge s))\<rparr>)"
| step_skip: "bridge_step s (s\<lparr>sy_bridge := snd (skip_job i reason (sy_bridge s))\<rparr>)"
| step_override:
    "override_job i new_url (sy_bridge s) = Inr (r, br) \<Longrightarrow> bridge_step s (s\<lparr>sy_bridge := br\<rparr>)"
| step_heartbeat:
    "bridge_step s (s\<lparr>sy_bridge := record_frontend_heartbeat hb clock (sy_bridge s)\<rparr>)"
| step_wait:
    "sy_waiters s = ws1 @ w # ws2 \<Longrightarrow>
     wait_step now w (sy_bridge s) = (Waiting w', br) \<Longrightarrow>
     bridge_step s (s\<lparr>sy_bridge := br, sy_waiters := ws1 @ w' # ws2\<rparr>)"
| step_return:
    "sy_waiters s = ws1 @ w # ws2 \<Longrightarrow>
     wait_step now w (sy_bridge s) = (Returned r, br) \<Longrightarrow>
     bridge_step s
       (s\<lparr>sy_bridge := br, sy_waiters := ws1 @ ws2,
          sy_returned := sy_returned s @ [(wt_job w, r)]\<rparr>)"

inductive bridge_reachable :: "settings \<Rightarrow> bridge_sys \<Rightarrow> bool" for cf where
  reach_init: "bridge_reachable cf (init_sys cf)"
| reach_step: "bridge_reachable cf s \<Longrightarrow> bridge_step s t \<Longrightarrow> bridge_reachable cf t"

section \<open>Queue invariant\<close>

definition count_status :: "job_status \<Rightarrow> fetch_queue \<Rightarrow> nat" where
  "count_status st q = length (filter (\<lambda>(i, j). job_status j = st) (fq_jobs q))"

definition job_ok :: "fetch_queue \<Rightarrow> job_id \<Rightarrow> fetch_job \<Rightarrow> bool" where
  "job_ok q i j \<longleftrightarrow>
     (job_status j = J_pending \<longleftrightarrow> i \<in> set (fq_pending q)) \<and>
     (job_status j = J_assigned \<longleftrightarrow> fq_assigned q = Some i) \<and>
     (job_future j \<noteq> None \<longrightarrow> job_status j \<noteq> J_pending \<and> job_status j \<noteq> J_assigned)"

definition queue_inv :: "fetch_queue \<Rightarrow> bool" where
  "queue_inv q \<longleftrightarrow>
     distinct (dict_keys (fq_jobs q)) \<and> distinct (fq_pending q) \<and>
     (\<forall>i. i \<in> set (fq_pending q) \<or> fq_assigned q = Some i \<longrightarrow> get_job q i \<noteq> None) \<and>
     (\<forall>i j. get_job q i = Some j \<longrightarrow> job_ok q i j) \<and>
     fq_completed q = count_status J_completed q \<and>
     fq_failed q = count_status J_failed q \<and>
     fq_skipped q = count_status J_skipped q"

lemma get_job_upd_job:
  "get_job (upd_job i f q) k = (if k = i then map_option f (get_job q i) else get_job q k)"
proof -
  have "map_of (map (\<lambda>(k, j). if k = i then (k, f j) else (k, j)) d) k =
      (if k = i then map_option f (map_of d i) else map_of d k)" for d :: "(job_id, fetch_job) dict"
    by (induction d) auto
  then show ?thesis
    by (simp add: get_job_def upd_job_def dict_get_def)
qed

lemma upd_job_sel [simp]:
  "fq_pending (upd_job i f q) = fq_pending q"
  "fq_assigned (upd_job i f q) = fq_assigned q"
  "fq_completed (upd_job i f q) = fq_completed q"
  "fq_failed (upd_job i f q) = fq_failed q"
  "fq_skipped (upd_job i f q) = fq_skipped q"
  by (simp_all add: upd_job_def)

lemma keys_upd_job [simp]: "dict_keys (fq_jobs (upd_job i f q)) = dict_keys (fq_jobs q)"
proof -
  have "map fst (map (\<lambda>(k, j). if k = i then (k, f j) else (k, j)) d) = map fst d"
    for d :: "(job_id, fetch_job) dict"
    by (induction d) auto
  then show ?thesis by (simp add: upd_job_def dict_keys_def)
qed

lemma count_upd_pair:
  fixes d :: "(job_id, fetch_job) dict"
  assumes "distinct (map fst d)" and "map_of d i = Some j"
  shows "length (filter P (map (\<lambda>(k, j). if k = i then (k, f j) else (k, j)) d)) +
           (if P (i, j) then 1 else 0) =
         length (filter P d) + (if P (i, f j) then 1 else 0)"
  using assms
proof (induction d)
  case (Cons p d)
  obtain k x where p: "p = (k, x)" by force
  show ?case
  proof (cases "k = i")
    case True
    with Cons.prems p have "i \<notin> fst ` set d" by simp
    then have "map (\<lambda>(k, j). if k = i then (k, f j) else (k, j)) d = d"
      by (intro map_idI) force
    with True p Cons.prems show ?thesis by simp
  next
    case False
    with Cons p show ?thesis by simp
  qed
qed simp

lemma count_status_upd_job:
  assumes "distinct (dict_keys (fq_jobs q))" and "get_job q i = Some j"
  shows "count_status st (upd_job i f q) + of_bool (job_status j = st) =
         count_status st q + of_bool (job_status (f j) = st)"
  using count_upd_pair [of "fq_jobs q" i j "\<lambda>(i, j). job_status j = st" f] assms
  by (simp add: count_status_def upd_job_def dict_keys_def get_job_def dict_get_def of_bool_def)

lemma count_status_other_fields:
  "fq_jobs q' = fq_jobs q \<Longrightarrow> count_status st q' = count_status st q"
  by (simp add: count_status_def)

lemma get_job_other_fields: "fq_jobs q' = fq_jobs q \<Longrightarrow> get_job q' i = get_job q i"
  by (simp add: get_job_def)

lemma queue_inv_empty: "queue_inv empty_queue"
  by (simp add: queue_inv_def empty_queue_def get_job_def dict_get_def dict_keys_def count_status_def)

lemma get_job_enqueue:
  "get_job (enqueue i job q) k =
     (case get_job q k of Some j \<Rightarrow> Some j
      | None \<Rightarrow> if k = i then Some (job\<lparr>job_status := J_pending\<rparr>) else None)"
  by (auto simp: get_job_def enqueue_def dict_get_def map_add_def split: option.splits)

lemma get_job_None_iff: "get_job q i = None \<longleftrightarrow> i \<notin> set (dict_keys (fq_jobs q))"
  by (simp add: get_job_def dict_get_def dict_keys_def map_of_eq_None_iff)

lemma queue_inv_enqueue:
  assumes "queue_inv q" and "i \<notin> set (dict_keys (fq_jobs q))" and "job_future job = None"
  shows "queue_inv (enqueue i job q)"
proof -
  have none: "get_job q i = None" using assms(2) by (simp add: get_job_None_iff)
  have count: "count_status st (enqueue i job q) =
      count_status st q + (if st = J_pending then 1 else 0)" for st
    by (simp add: count_status_def enqueue_def)
  have fields: "fq_pending (enqueue i job q) = fq_pending q @ [i]"
    "fq_assigned (enqueue i job q) = fq_assigned q"
    "fq_completed (enqueue i job q) = fq_completed q" "fq_failed (enqueue i job q) = fq_failed q"
    "fq_skipped (enqueue i job q) = fq_skipped q"
    "dict_keys (fq_jobs (enqueue i job q)) = dict_keys (fq_jobs q) @ [i]"
    by (simp_all add: enqueue_def dict_keys_def)
  have i: "i \<notin> set (fq_pending q)" "fq_assigned q \<noteq> Some i"
    using assms(1) none by (auto simp: queue_inv_def)
  show ?thesis
    using assms none i
    by (auto simp: queue_inv_def count fields get_job_enqueue job_ok_def split: option.splits if_splits)
qed

text \<open>The shared step: one job object changes, and the slots change for that job only.\<close>

lemma queue_inv_upd_job:
  assumes inv: "queue_inv q" and j: "get_job q i = Some j" and jobs: "fq_jobs q0 = fq_jobs q"
    and d: "distinct (fq_pending q0)"
    and pend: "\<And>k. k \<noteq> i \<Longrightarrow> k \<in> set (fq_pending q0) \<longleftrightarrow> k \<in> set (fq_pending q)"
    and slot: "\<And>k. k \<noteq> i \<Longrightarrow> fq_assigned q0 = Some k \<longleftrightarrow> fq_assigned q = Some k"
    and ok: "job_ok q0 i (f j)"
    and completed: "fq_completed q0 + of_bool (job_status j = J_completed) =
      fq_completed q + of_bool (job_status (f j) = J_completed)"
    and failed: "fq_failed q0 + of_bool (job_status j = J_failed) =
      fq_failed q + of_bool (job_status (f j) = J_failed)"
    and skipped: "fq_skipped q0 + of_bool (job_status j = J_skipped) =
      fq_skipped q + of_bool (job_status (f j) = J_skipped)"
  shows "queue_inv (upd_job i f q0)"
proof -
  have g: "get_job q0 k = get_job q k" for k by (simp add: get_job_def jobs)
  have keys: "distinct (dict_keys (fq_jobs q0))" using inv by (simp add: jobs queue_inv_def)
  have cnt: "count_status st (upd_job i f q0) + of_bool (job_status j = st) =
      count_status st q + of_bool (job_status (f j) = st)" for st
    using count_status_upd_job [OF keys, of i j st f] j g jobs
    by (simp add: count_status_def)
  have counters: "fq_completed q0 = count_status J_completed (upd_job i f q0)"
    "fq_failed q0 = count_status J_failed (upd_job i f q0)"
    "fq_skipped q0 = count_status J_skipped (upd_job i f q0)"
    using inv completed failed skipped cnt [of J_completed] cnt [of J_failed] cnt [of J_skipped]
    by (auto simp: queue_inv_def)
  have known: "get_job (upd_job i f q0) k \<noteq> None"
    if "k \<in> set (fq_pending q0) \<or> fq_assigned q0 = Some k" for k
    using that inv j pend [of k] slot [of k]
    by (cases "k = i") (auto simp: queue_inv_def get_job_upd_job g)
  have "job_ok (upd_job i f q0) k x" if "get_job (upd_job i f q0) k = Some x" for k x
  proof (cases "k = i")
    case True
    with that j ok show ?thesis by (auto simp: get_job_upd_job g job_ok_def)
  next
    case False
    with that inv have "job_ok q k x" by (simp add: get_job_upd_job g queue_inv_def)
    with False show ?thesis by (auto simp: job_ok_def pend slot)
  qed
  with counters known keys d show ?thesis
    unfolding queue_inv_def by auto
qed

lemma queue_inv_get:
  assumes "queue_inv q" and "get_job q i = Some j"
  shows "job_ok q i j"
  using assms by (auto simp: queue_inv_def)

lemma queue_inv_take_next:
  assumes inv: "queue_inv q"
  shows "queue_inv (snd (take_next q))"
proof (cases "fq_assigned q = None \<and> fq_pending q \<noteq> []")
  case False
  then have "snd (take_next q) = q" by (auto simp: take_next_def split: list.splits)
  with inv show ?thesis by simp
next
  case True
  then obtain i rest where p: "fq_pending q = i # rest" by (cases "fq_pending q") auto
  with inv obtain j where j: "get_job q i = Some j" by (auto simp: queue_inv_def)
  with inv p True have ok: "job_ok q i j" and "distinct (i # rest)"
    by (auto simp: queue_inv_def)
  then have "queue_inv (upd_job i (\<lambda>j. j\<lparr>job_status := J_assigned\<rparr>)
      (q\<lparr>fq_pending := rest, fq_assigned := Some i\<rparr>))"
    using True p by (intro queue_inv_upd_job [OF inv j]) (auto simp: job_ok_def)
  with True p show ?thesis by (simp add: take_next_def)
qed

lemma queue_inv_discard:
  assumes inv: "queue_inv q" and j: "get_job q i = Some j"
    and live: "i \<in> set (fq_pending q) \<or> fq_assigned q = Some i"
  shows "queue_inv (discard i q)"
proof -
  have ok: "job_ok q i j" and d: "distinct (fq_pending q)"
    using inv j by (auto simp: queue_inv_def)
  show ?thesis
  proof (cases "fq_assigned q = Some i")
    case True
    with ok have "i \<notin> set (fq_pending q)" by (auto simp: job_ok_def)
    with ok d True show ?thesis
      unfolding discard_def
      by (simp, intro queue_inv_upd_job [OF inv j]) (auto simp: job_ok_def)
  next
    case False
    with ok d live show ?thesis
      unfolding discard_def
      by (simp, intro queue_inv_upd_job [OF inv j]) (auto simp: job_ok_def)
  qed
qed

lemma upd_job_upd_job: "upd_job i f (upd_job i g q) = upd_job i (\<lambda>j. f (g j)) q"
proof -
  have "(\<lambda>(k, j). if k = i then (k, f j) else (k, j)) \<circ> (\<lambda>(k, j). if k = i then (k, g j) else (k, j)) =
      (\<lambda>(k, j). if k = i then (k, f (g j)) else (k, j))"
    by (auto simp: fun_eq_iff)
  then show ?thesis by (simp add: upd_job_def)
qed

lemma upd_job_queue_fields:
  "(upd_job i f q)\<lparr>fq_assigned := a, fq_completed := c, fq_failed := e, fq_skipped := k\<rparr> =
   upd_job i f (q\<lparr>fq_assigned := a, fq_completed := c, fq_failed := e, fq_skipped := k\<rparr>)"
  by (simp add: upd_job_def)

lemma queue_inv_resolve:
  assumes inv: "queue_inv q" and j: "get_job q i = Some j" and slot: "fq_assigned q = Some i"
    and st: "st \<in> {J_completed, J_failed, J_skipped}"
  shows "queue_inv (finish i st (upd_job i (\<lambda>j. j\<lparr>job_future := Some r\<rparr>) q))"
proof -
  have ok: "job_ok q i j" and d: "distinct (fq_pending q)"
    using inv j by (auto simp: queue_inv_def)
  with slot have "i \<notin> set (fq_pending q)" by (auto simp: job_ok_def)
  with ok d slot st show ?thesis
    unfolding finish_def upd_job_queue_fields upd_job_upd_job
    by (intro queue_inv_upd_job [OF inv j]) (auto simp: job_ok_def)
qed


section \<open>Invariant of the transition system\<close>

definition live :: "fetch_queue \<Rightarrow> job_id \<Rightarrow> bool" where
  "live q i \<longleftrightarrow> i \<in> set (fq_pending q) \<or> fq_assigned q = Some i"

definition waiter_ok :: "fetch_queue \<Rightarrow> waiter \<Rightarrow> bool" where
  "waiter_ok q w \<longleftrightarrow>
     (\<exists>j. get_job q (wt_job w) = Some j \<and> (job_future j = None \<longrightarrow> live q (wt_job w)))"

definition sys_inv :: "bridge_sys \<Rightarrow> bool" where
  "sys_inv s \<longleftrightarrow>
     (let q = br_queue (sy_bridge s) in
        queue_inv q \<and> distinct (map wt_job (sy_waiters s)) \<and>
        (\<forall>i. live q i \<longrightarrow> i \<in> wt_job ` set (sy_waiters s)) \<and>
        (\<forall>w \<in> set (sy_waiters s). waiter_ok q w))"

lemma live_known: "queue_inv q \<Longrightarrow> live q i \<Longrightarrow> \<exists>j. get_job q i = Some j \<and> job_future j = None"
  by (fastforce simp: queue_inv_def live_def job_ok_def)

text \<open>A queue change that keeps the invariant, loses no job, keeps done futures done and only
  un-lives jobs whose future is now done keeps the invariant of the system.\<close>

lemma sys_inv_queue_change:
  assumes "sys_inv s" and inv: "queue_inv (br_queue br)"
    and less: "\<And>i. live (br_queue br) i \<Longrightarrow> live (br_queue (sy_bridge s)) i"
    and ok: "\<And>w. waiter_ok (br_queue (sy_bridge s)) w \<Longrightarrow> waiter_ok (br_queue br) w"
  shows "sys_inv (s\<lparr>sy_bridge := br\<rparr>)"
  using assms by (auto simp: sys_inv_def Let_def)

lemma live_take_next: "queue_inv q \<Longrightarrow> live (snd (take_next q)) i \<longleftrightarrow> live q i"
  by (auto simp: live_def take_next_def split: list.splits)

lemma get_job_take_next:
  "get_job (snd (take_next q)) i =
     map_option (\<lambda>j. if fst (take_next q) = Some i then j\<lparr>job_status := J_assigned\<rparr> else j)
       (get_job q i)"
proof -
  have g: "get_job (q\<lparr>fq_pending := p, fq_assigned := a\<rparr>) k = get_job q k" for p a k
    by (simp add: get_job_def)
  show ?thesis
    by (cases "get_job q i") (auto simp: take_next_def get_job_upd_job g split: list.splits)
qed

lemma waiter_ok_take_next:
  assumes "queue_inv q" and "waiter_ok q w"
  shows "waiter_ok (snd (take_next q)) w"
proof -
  from assms(2) obtain j where j: "get_job q (wt_job w) = Some j"
    and lv: "job_future j = None \<longrightarrow> live q (wt_job w)" by (auto simp: waiter_ok_def)
  define j' where "j' = (if fst (take_next q) = Some (wt_job w) then j\<lparr>job_status := J_assigned\<rparr> else j)"
  have "get_job (snd (take_next q)) (wt_job w) = Some j'" by (simp add: get_job_take_next j j'_def)
  moreover have "job_future j' = job_future j" by (simp add: j'_def)
  ultimately show ?thesis using lv assms(1) by (simp add: waiter_ok_def live_take_next)
qed

lemma resolvable_Some:
  "resolvable br i = Some j \<longleftrightarrow>
     fq_assigned (br_queue br) = Some i \<and> get_job (br_queue br) i = Some j \<and> job_future j = None"
  by (auto simp: resolvable_def find_job_def split: option.splits if_splits)

lemma finish_sel [simp]:
  "fq_pending (finish i st q) = fq_pending q"
  "fq_assigned (finish i st q) = (if fq_assigned q = Some i then None else fq_assigned q)"
  by (simp_all add: finish_def)

lemma get_job_finish:
  "get_job (finish i st q) k =
     (if k = i then map_option (\<lambda>j. j\<lparr>job_status := st\<rparr>) (get_job q i) else get_job q k)"
  by (simp add: finish_def get_job_upd_job) (simp add: get_job_def)

lemma sys_inv_set_result:
  assumes s: "sys_inv s" and r: "resolvable (sy_bridge s) i = Some j"
    and st: "st \<in> {J_completed, J_failed, J_skipped}"
  shows "sys_inv (s\<lparr>sy_bridge := set_result i res st (sy_bridge s)\<rparr>)"
proof (rule sys_inv_queue_change [OF s])
  let ?q = "br_queue (sy_bridge s)" and ?q' = "br_queue (set_result i res st (sy_bridge s))"
  have inv: "queue_inv ?q" using s by (simp add: sys_inv_def Let_def)
  from r have slot: "fq_assigned ?q = Some i" and j: "get_job ?q i = Some j"
    by (auto simp: resolvable_Some)
  from queue_inv_resolve [OF inv j slot st]
  show "queue_inv ?q'" by (simp add: set_result_def)
  show "live ?q k" if "live ?q' k" for k
    using that slot by (auto simp: live_def set_result_def split: if_splits)
  show "waiter_ok ?q' w" if "waiter_ok ?q w" for w
    using that slot by (auto simp: waiter_ok_def set_result_def live_def get_job_finish get_job_upd_job)
qed

lemma sys_inv_complete: "sys_inv s \<Longrightarrow> sys_inv (s\<lparr>sy_bridge := snd (complete i html u t ps (sy_bridge s))\<rparr>)"
  by (auto simp: complete_def intro: sys_inv_set_result split: option.splits)

lemma sys_inv_fail: "sys_inv s \<Longrightarrow> sys_inv (s\<lparr>sy_bridge := snd (fail_job i m (sy_bridge s))\<rparr>)"
  by (auto simp: fail_job_def intro: sys_inv_set_result split: option.splits)

lemma sys_inv_skip: "sys_inv s \<Longrightarrow> sys_inv (s\<lparr>sy_bridge := snd (skip_job i m (sy_bridge s))\<rparr>)"
  by (auto simp: skip_job_def intro: sys_inv_set_result split: option.splits)


lemma sys_inv_next: 
  assumes "sys_inv s"
  shows "sys_inv (s\<lparr>sy_bridge := snd (next_job (sy_bridge s))\<rparr>)"
proof (rule sys_inv_queue_change [OF assms])
  let ?q = "br_queue (sy_bridge s)"
  have inv: "queue_inv ?q" using assms by (simp add: sys_inv_def Let_def)
  have eq: "br_queue (snd (next_job (sy_bridge s))) = snd (take_next ?q)"
    by (simp add: next_job_def split: prod.splits)
  show "queue_inv (br_queue (snd (next_job (sy_bridge s))))"
    using inv by (simp add: eq queue_inv_take_next)
  show "live ?q i" if "live (br_queue (snd (next_job (sy_bridge s)))) i" for i
    using that inv by (simp add: eq live_take_next)
  show "waiter_ok (br_queue (snd (next_job (sy_bridge s)))) w" if "waiter_ok ?q w" for w
    using that inv by (simp add: eq waiter_ok_take_next)
qed

lemma queue_inv_override:
  assumes inv: "queue_inv q"
  shows "queue_inv (upd_job i (\<lambda>j. j\<lparr>job_url := u\<rparr>) q)"
proof (cases "get_job q i")
  case None
  then have "upd_job i (\<lambda>j. j\<lparr>job_url := u\<rparr>) q = q"
    unfolding upd_job_def get_job_None_iff dict_keys_def
    by (cases q) (force intro!: map_idI split: prod.splits)
  with inv show ?thesis by simp
next
  case (Some j)
  with inv have "job_ok q i j" "distinct (fq_pending q)" by (auto simp: queue_inv_def)
  then show ?thesis
    by (intro queue_inv_upd_job [OF inv Some]) (auto simp: job_ok_def)
qed

lemma sys_inv_override:
  assumes s: "sys_inv s" and o: "override_job i u (sy_bridge s) = Inr (r, br)"
  shows "sys_inv (s\<lparr>sy_bridge := br\<rparr>)"
proof -
  let ?q = "br_queue (sy_bridge s)"
  from o have "br = sy_bridge s \<or>
      br = (sy_bridge s)\<lparr>br_queue := upd_job i (\<lambda>j. j\<lparr>job_url := u\<rparr>) ?q\<rparr>"
    by (auto simp: override_job_def res_bind_def find_job_def split: if_splits sum.splits option.splits)
  then consider "br = sy_bridge s" | "br_queue br = upd_job i (\<lambda>j. j\<lparr>job_url := u\<rparr>) ?q"
    by auto
  then show ?thesis
  proof cases
    case 1
    with s show ?thesis by simp
  next
    case 2
    have "queue_inv ?q" using s by (simp add: sys_inv_def Let_def)
    then show ?thesis
      using 2 by (intro sys_inv_queue_change [OF s])
        (auto simp: queue_inv_override live_def waiter_ok_def get_job_upd_job)
  qed
qed

lemma sys_inv_fetch:
  assumes s: "sys_inv s" and fresh: "jid \<notin> set (dict_keys (fq_jobs (br_queue (sy_bridge s))))"
    and f: "fetch jid now url ctx iu act (sy_bridge s) = Inr (Started w br)"
  shows "sys_inv (s\<lparr>sy_bridge := br, sy_waiters := sy_waiters s @ [w]\<rparr>)"
proof -
  let ?q = "br_queue (sy_bridge s)"
  from f obtain job where q': "br_queue br = enqueue jid job ?q" and fut: "job_future job = None"
    and w: "wt_job w = jid"
    by (auto simp: fetch_def res_bind_def split: sum.splits if_splits)
  have inv: "queue_inv ?q" using s by (simp add: sys_inv_def Let_def)
  have none: "get_job ?q jid = None" using fresh by (simp add: get_job_None_iff)
  have live: "live (enqueue jid job ?q) i \<longleftrightarrow> i = jid \<or> live ?q i" for i
    by (auto simp: live_def enqueue_def)
  have ok: "waiter_ok (enqueue jid job ?q) v" if "waiter_ok ?q v" for v
    using that none by (auto simp: waiter_ok_def get_job_enqueue live)
  have new: "waiter_ok (enqueue jid job ?q) w"
    using none by (simp add: waiter_ok_def get_job_enqueue live w)
  have "wt_job w \<notin> wt_job ` set (sy_waiters s)"
    using s none by (auto simp: w sys_inv_def Let_def waiter_ok_def)
  with s ok new show ?thesis
    using queue_inv_enqueue [OF inv fresh fut]
    by (auto simp: sys_inv_def Let_def q' live w)
qed

lemma sys_inv_wait:
  assumes s: "sys_inv s" and ws: "sy_waiters s = ws1 @ w # ws2"
    and st: "wait_step now w (sy_bridge s) = (Waiting w', br)"
  shows "sys_inv (s\<lparr>sy_bridge := br, sy_waiters := ws1 @ w' # ws2\<rparr>)"
proof -
  from st have "br = sy_bridge s" "wt_job w' = wt_job w"
    by (auto simp: wait_step_def Let_def split: option.splits if_splits)
  with s ws show ?thesis by (auto simp: sys_inv_def Let_def waiter_ok_def)
qed

lemma discard_sel:
  "fq_pending (discard i q) = (if fq_assigned q = Some i then fq_pending q else remove1 i (fq_pending q))"
  "fq_assigned (discard i q) = (if fq_assigned q = Some i then None else fq_assigned q)"
  by (simp_all add: discard_def)

lemma get_job_discard:
  "get_job (discard i q) k =
     (if k = i then map_option (\<lambda>j. j\<lparr>job_status := J_failed\<rparr>) (get_job q i) else get_job q k)"
  by (simp add: discard_def get_job_upd_job) (simp add: get_job_def)

lemma live_discard:
  assumes "queue_inv q" and "live q i"
  shows "live (discard i q) k \<longleftrightarrow> live q k \<and> k \<noteq> i"
proof -
  from live_known [OF assms] obtain j where "get_job q i = Some j" by blast
  with assms(1) have "job_ok q i j" "distinct (fq_pending q)" by (auto simp: queue_inv_def)
  then show ?thesis by (auto simp: live_def discard_sel job_ok_def)
qed

lemma sys_inv_return:
  assumes s: "sys_inv s" and ws: "sy_waiters s = ws1 @ w # ws2"
    and st: "wait_step now w (sy_bridge s) = (Returned r, br)"
  shows "sys_inv (s\<lparr>sy_bridge := br, sy_waiters := ws1 @ ws2, sy_returned := rs\<rparr>)"
proof -
  let ?q = "br_queue (sy_bridge s)"
  have inv: "queue_inv ?q" using s by (simp add: sys_inv_def Let_def)
  from st obtain j where j: "get_job ?q (wt_job w) = Some j"
    by (auto simp: wait_step_def split: option.splits)
  have others: "wt_job v \<noteq> wt_job w" if "v \<in> set (ws1 @ ws2)" for v
    using s ws that by (auto simp: sys_inv_def Let_def image_iff)
  show ?thesis
  proof (cases "job_future j")
    case (Some r')
    with st j have br: "br = sy_bridge s" by (simp add: wait_step_def)
    have "\<not> live ?q (wt_job w)" using live_known [OF inv] j Some by force
    with s ws br show ?thesis by (auto simp: sys_inv_def Let_def)
  next
    case None
    with s ws j have lv: "live ?q (wt_job w)" by (auto simp: sys_inv_def Let_def waiter_ok_def)
    from st j None have br: "br_queue br = discard (wt_job w) ?q"
      by (auto simp: wait_step_def Let_def split: if_splits)
    have "queue_inv (discard (wt_job w) ?q)"
      using queue_inv_discard [OF inv j] lv by (simp add: live_def)
    moreover have "waiter_ok (discard (wt_job w) ?q) v" if "v \<in> set (ws1 @ ws2)" for v
      using s ws others [OF that] that
      by (auto simp: sys_inv_def Let_def waiter_ok_def get_job_discard live_discard [OF inv lv])
    ultimately show ?thesis
      using s ws others
      by (auto simp: sys_inv_def Let_def br live_discard [OF inv lv])
  qed
qed

lemma sys_inv_init: "sys_inv (init_sys cf)"
  using queue_inv_empty
  by (simp add: sys_inv_def init_sys_def new_bridge_def live_def empty_queue_def)

lemma sys_inv_step: "bridge_step s t \<Longrightarrow> sys_inv s \<Longrightarrow> sys_inv t"
proof (induction rule: bridge_step.induct)
  case (step_heartbeat s hb clock)
  then show ?case by (simp add: sys_inv_def record_frontend_heartbeat_def)
next
  case (step_return s ws1 w ws2 now r br)
  then show ?case using sys_inv_return by blast
qed (auto intro: sys_inv_fetch sys_inv_next sys_inv_complete sys_inv_fail sys_inv_skip
    sys_inv_override sys_inv_wait)

lemma bridge_reachable_inv: "bridge_reachable cf s \<Longrightarrow> sys_inv s"
  by (induction rule: bridge_reachable.induct) (auto intro: sys_inv_init sys_inv_step)


section \<open>What the invariant gives\<close>

lemma count_pending:
  assumes "queue_inv q"
  shows "count_status J_pending q = length (fq_pending q)"
proof -
  let ?f = "filter (\<lambda>(i, j). job_status j = J_pending) (fq_jobs q)"
  have d: "distinct (map fst ?f)"
    using assms by (simp add: queue_inv_def dict_keys_def distinct_map_filter)
  have "i \<in> fst ` set ?f \<longleftrightarrow> i \<in> set (fq_pending q)" for i
  proof
    assume "i \<in> fst ` set ?f"
    then obtain j where "(i, j) \<in> set (fq_jobs q)" "job_status j = J_pending" by auto
    with assms show "i \<in> set (fq_pending q)"
      by (auto simp: queue_inv_def job_ok_def get_job_def dict_get_def dict_keys_def
          dest: map_of_is_SomeI)
  next
    assume i: "i \<in> set (fq_pending q)"
    with assms obtain j where j: "get_job q i = Some j" by (auto simp: queue_inv_def)
    with assms i have "job_status j = J_pending" by (auto simp: queue_inv_def job_ok_def)
    moreover have "(i, j) \<in> set (fq_jobs q)" using j by (auto simp: get_job_def dict_get_def dest: map_of_SomeD)
    ultimately show "i \<in> fst ` set ?f" by force
  qed
  then have "set (map fst ?f) = set (fq_pending q)" by auto
  with d assms have "length (map fst ?f) = length (fq_pending q)"
    by (metis distinct_card queue_inv_def)
  then show ?thesis by (simp add: count_status_def)
qed

lemma count_assigned:
  assumes "queue_inv q"
  shows "count_status J_assigned q = (if fq_assigned q \<noteq> None then 1 else 0)"
proof -
  let ?f = "filter (\<lambda>(i, j). job_status j = J_assigned) (fq_jobs q)"
  have d: "distinct (map fst ?f)"
    using assms by (simp add: queue_inv_def dict_keys_def distinct_map_filter)
  have mem: "i \<in> fst ` set ?f \<longleftrightarrow> fq_assigned q = Some i" for i
  proof
    assume "i \<in> fst ` set ?f"
    then obtain j where "(i, j) \<in> set (fq_jobs q)" "job_status j = J_assigned" by auto
    with assms show "fq_assigned q = Some i"
      by (auto simp: queue_inv_def job_ok_def get_job_def dict_get_def dict_keys_def
          dest: map_of_is_SomeI)
  next
    assume i: "fq_assigned q = Some i"
    with assms obtain j where j: "get_job q i = Some j" by (auto simp: queue_inv_def)
    with assms i have "job_status j = J_assigned" by (auto simp: queue_inv_def job_ok_def)
    moreover have "(i, j) \<in> set (fq_jobs q)" using j by (auto simp: get_job_def dict_get_def dest: map_of_SomeD)
    ultimately show "i \<in> fst ` set ?f" by force
  qed
  have "set (map fst ?f) = (case fq_assigned q of None \<Rightarrow> {} | Some i \<Rightarrow> {i})"
    unfolding set_map by (rule set_eqI) (simp add: mem del: set_filter split: option.split, blast)
  with d have "length (map fst ?f) = card (case fq_assigned q of None \<Rightarrow> {} | Some i \<Rightarrow> {i})"
    by (metis distinct_card)
  then show ?thesis by (auto simp: count_status_def split: option.splits)
qed

lemma count_total:
  "length (fq_jobs q) = count_status J_pending q + count_status J_assigned q +
     count_status J_completed q + count_status J_failed q + count_status J_skipped q"
proof -
  let ?n = "\<lambda>st d. length (filter (\<lambda>(i, j). job_status j = st) d)"
  have "?n J_pending d + ?n J_assigned d + ?n J_completed d + ?n J_failed d + ?n J_skipped d = length d"
    for d :: "(job_id, fetch_job) dict"
  proof (induction d)
    case (Cons p d)
    obtain i j where p: "p = (i, j)" by force
    show ?case
      using Cons.IH by (cases "job_status j") (simp_all add: p)
  qed simp
  then show ?thesis by (simp add: count_status_def)
qed

text \<open>
  C5: in every reachable state of the bridge, whatever the interleaving of fetches, claims,
  resolutions, heartbeats and timeouts, every accepted fetch job is counted exactly once by
  the pending, assigned, completed, failed and skipped numbers that \<open>stats\<close> reports.
\<close>

theorem bridge_conservation:
  assumes "bridge_reachable cf s"
  shows "let q = br_queue (sy_bridge s); st = stats q in
     length (fq_jobs q) =
       qs_pending st + qs_assigned st + qs_completed st + qs_failed st + qs_skipped st"
proof -
  have inv: "queue_inv (br_queue (sy_bridge s))"
    using bridge_reachable_inv [OF assms] by (simp add: sys_inv_def Let_def)
  then show ?thesis
    using count_total [of "br_queue (sy_bridge s)"]
    by (simp add: Let_def stats_def count_pending count_assigned queue_inv_def)
qed

text \<open>
  a job that \<open>next_job\<close> hands to the browser always has a coroutine that still awaits
  it and an unresolved future, and it is handed out only while nothing else is in flight
  (timed-out jobs are discarded, so nobody fetches a page nobody waits for).
\<close>

theorem bridge_job_awaited:
  assumes "bridge_reachable cf s" and "fst (next_job (sy_bridge s)) = Some i"
  shows "\<exists>w j. w \<in> set (sy_waiters s) \<and> wt_job w = i \<and>
     get_job (br_queue (sy_bridge s)) i = Some j \<and> job_future j = None \<and> 
     fq_assigned (br_queue (sy_bridge s)) = None"
proof -
  let ?q = "br_queue (sy_bridge s)"
  have inv: "sys_inv s" using assms(1) by (rule bridge_reachable_inv)
  from assms(2) have "live ?q i" and free: "fq_assigned ?q = None"
    by (auto simp: next_job_def take_next_def live_def split: if_splits list.splits)
  with inv obtain w where "w \<in> set (sy_waiters s)" "wt_job w = i"
    by (auto simp: sys_inv_def Let_def)
  moreover obtain j where "get_job ?q i = Some j" "job_future j = None"
    using live_known [of ?q i] \<open>live ?q i\<close> inv by (auto simp: sys_inv_def Let_def)
  ultimately show ?thesis using free by blast
qed

definition future_of :: "bridge_sys \<Rightarrow> job_id \<Rightarrow> fetch_result option" where
  "future_of s i = Option.bind (get_job (br_queue (sy_bridge s)) i) job_future"

lemma future_set_result:
  assumes "resolvable br i = Some j" and "Option.bind (get_job (br_queue br) k) job_future = Some r"
  shows "Option.bind (get_job (br_queue (set_result i res st br)) k) job_future = Some r"
  using assms
  by (auto simp: set_result_def get_job_finish get_job_upd_job resolvable_Some)

lemma future_stable_step:
  "bridge_step s t \<Longrightarrow> sys_inv s \<Longrightarrow> future_of s i = Some r \<Longrightarrow> future_of t i = Some r"
proof (induction rule: bridge_step.induct)
  case (step_fetch jid s now url ctx iu act w br)
  from step_fetch(2) obtain job where "br_queue br = enqueue jid job (br_queue (sy_bridge s))"
    by (auto simp: fetch_def res_bind_def split: sum.splits if_splits)
  with step_fetch.prems show ?case
    by (auto simp: future_of_def get_job_enqueue split: option.splits Option.bind_splits)
next
  case (step_next s)
  have "br_queue (snd (next_job (sy_bridge s))) = snd (take_next (br_queue (sy_bridge s)))"
    by (simp add: next_job_def split: prod.splits)
  with step_next.prems show ?case
    by (cases "get_job (br_queue (sy_bridge s)) i") (auto simp: future_of_def get_job_take_next)
next
  case (step_override k u s r br)
  then show ?case
    by (auto simp: future_of_def override_job_def res_bind_def find_job_def get_job_upd_job
        split: if_splits sum.splits option.splits Option.bind_splits)
next
  case (step_wait s ws1 w ws2 now w' br)
  then show ?case
    by (auto simp: future_of_def wait_step_def Let_def split: option.splits if_splits)
next
  case (step_return s ws1 w ws2 now r' br)
  then show ?case
    by (auto simp: future_of_def wait_step_def Let_def get_job_discard
        split: option.splits if_splits Option.bind_splits)
qed (auto simp: future_of_def record_frontend_heartbeat_def complete_def fail_job_def skip_job_def
    intro: future_set_result split: option.splits)


section \<open>First in, first out\<close>

text \<open>The contract the bridge relies on: one job in flight, taken from the front.\<close>

locale single_flight_queue =
  fixes waiting :: "'q \<Rightarrow> 'i list"
    and slot :: "'q \<Rightarrow> 'i option"
    and take_job :: "'q \<Rightarrow> 'i option \<times> 'q"
    and settle :: "'i \<Rightarrow> 'q \<Rightarrow> 'q"
  assumes take_busy: "slot q \<noteq> None \<Longrightarrow> take_job q = (None, q)"
    and take_empty: "slot q = None \<Longrightarrow> waiting q = [] \<Longrightarrow> take_job q = (None, q)"
    and take_front: "slot q = None \<Longrightarrow> waiting q = i # is \<Longrightarrow>
      fst (take_job q) = Some i \<and> waiting (snd (take_job q)) = is \<and> slot (snd (take_job q)) = Some i"
    and settle_slot: "slot q = Some i \<Longrightarrow> slot (settle i q) = None \<and> waiting (settle i q) = waiting q"

primrec serve :: "nat \<Rightarrow> ('q \<Rightarrow> 'i option \<times> 'q) \<Rightarrow> ('i \<Rightarrow> 'q \<Rightarrow> 'q) \<Rightarrow> 'q \<Rightarrow> 'i list \<times> 'q" where
  "serve 0 tk st q = ([], q)"
| "serve (Suc n) tk st q =
     (case tk q of
        (None, q') \<Rightarrow> ([], q')
      | (Some i, q') \<Rightarrow> (let (is, q'') = serve n tk st (st i q') in (i # is, q'')))"

context single_flight_queue
begin

lemma serve_fifo:
  "slot q = None \<Longrightarrow> fst (serve n take_job settle q) = take n (waiting q)"
proof (induction n arbitrary: q)
  case (Suc n)
  show ?case
  proof (cases "waiting q")
    case Nil
    with Suc.prems show ?thesis by (simp add: take_empty)
  next
    case (Cons i js)
    from take_front [OF Suc.prems Cons] obtain q' where
      t: "take_job q = (Some i, q')" and w: "waiting q' = js" and s: "slot q' = Some i"
      by (cases "take_job q") auto
    from settle_slot [OF s] w have "slot (settle i q') = None" "waiting (settle i q') = js" by auto
    with Suc.IH [of "settle i q'"] t Cons show ?thesis by (auto split: prod.splits)
  qed
qed simp

lemma served_all:
  "slot q = None \<Longrightarrow> length (waiting q) \<le> n \<Longrightarrow> fst (serve n take_job settle q) = waiting q"
  by (simp add: serve_fifo)

end

interpretation fq: single_flight_queue fq_pending fq_assigned take_next "\<lambda>i. finish i J_completed"
proof unfold_locales
  fix q :: fetch_queue and i js
  assume "fq_assigned q = None" "fq_pending q = i # js"
  then show "fst (take_next q) = Some i \<and> fq_pending (snd (take_next q)) = js \<and>
      fq_assigned (snd (take_next q)) = Some i"
    by (simp add: take_next_def)
qed (simp_all add: take_next_def)

text \<open>
  with nothing in flight, alternating \<open>take_next\<close> and \<open>finish\<close> serves the pending
  jobs exactly once each, in the order in which they were enqueued.
\<close>

theorem queue_serves_fifo:
  assumes "fq_assigned q = None"
  shows "fst (serve (length (fq_pending q)) take_next (\<lambda>i. finish i J_completed) q) = fq_pending q"
  using assms by (simp add: fq.served_all)

section \<open>The timeout clock\<close>

text \<open>\<open>wait_run\<close> is the loop of \<open>_wait_for_job\<close> at the given clock readings, each with the
  bridge the other handlers left behind.\<close>

fun wait_run :: "(rat \<times> bridge) list \<Rightarrow> waiter \<Rightarrow> wait_outcome" where
  "wait_run [] w = Waiting w"
| "wait_run ((now, br) # ticks) w =
     (case wait_step now w br of
        (Returned r, _) \<Rightarrow> Returned r
      | (Waiting w', _) \<Rightarrow> wait_run ticks w')"

fun counted_time :: "rat \<Rightarrow> bool \<Rightarrow> (rat \<times> bridge) list \<Rightarrow> rat" where
  "counted_time prev counting [] = 0"
| "counted_time prev counting ((now, br) # ticks) =
     (if counting then now - prev else 0) + counted_time now (is_alive (br_health br) now) ticks"

definition unresolved_at :: "job_id \<Rightarrow> bridge \<Rightarrow> bool" where
  "unresolved_at i br \<longleftrightarrow> (\<exists>j. get_job (br_queue br) i = Some j \<and> job_future j = None)"

definition polled :: "int \<Rightarrow> job_id \<Rightarrow> (rat \<times> bridge) list \<Rightarrow> bool" where
  "polled timeout i ticks \<longleftrightarrow>
     (\<forall>(now, br) \<in> set ticks. unresolved_at i br \<and> br_timeout br = timeout)"

lemma wait_step_unresolved:
  assumes "unresolved_at (wt_job w) br"
  shows "wait_step now w br =
    (let e = wt_active_elapsed w + (if wt_counting w then now - wt_last_tick w else 0);
         j = the (get_job (br_queue br) (wt_job w))
     in if wt_counting w \<and> of_int (br_timeout br) \<le> e
        then (Returned (failed_result j ''timeout''),
              br\<lparr>br_queue := discard (wt_job w) (br_queue br)\<rparr>)
        else (Waiting (w\<lparr>wt_active_elapsed := e, wt_last_tick := now,
                         wt_counting := is_alive (br_health br) now\<rparr>), br))"
  using assms by (auto simp: unresolved_at_def wait_step_def Let_def)

text \<open>
  the wait loop gives up with \<open>timeout\<close> exactly when the time during which the
  frontend heartbeat was healthy (summed over the polls so far) reaches the configured
  timeout; time with a stale or absent heartbeat never counts.
\<close>

theorem fetch_timeout_exact:
  assumes "polled timeout (wt_job w) ticks" and "wt_active_elapsed w < of_int timeout"
  shows "(\<exists>r. wait_run ticks w = Returned r \<and> fr_block_reason r = Some ''timeout'') \<longleftrightarrow>
     (\<exists>n \<le> length ticks. of_int timeout \<le>
        wt_active_elapsed w + counted_time (wt_last_tick w) (wt_counting w) (take n ticks))"
  using assms
proof (induction ticks arbitrary: w)
  case (Cons t ticks)
  obtain now br where t: "t = (now, br)" by force
  have u: "unresolved_at (wt_job w) br" and T: "br_timeout br = timeout"
    and rest: "polled timeout (wt_job w) ticks"
    using Cons.prems(1) by (auto simp: polled_def t)
  define e where "e = wt_active_elapsed w + (if wt_counting w then now - wt_last_tick w else 0)"
  define w1 where "w1 = w\<lparr>wt_active_elapsed := e, wt_last_tick := now,
    wt_counting := is_alive (br_health br) now\<rparr>"
  have split: "(\<exists>n \<le> length (t # ticks). of_int timeout \<le> wt_active_elapsed w +
        counted_time (wt_last_tick w) (wt_counting w) (take n (t # ticks))) \<longleftrightarrow>
      (\<exists>n \<le> length ticks. of_int timeout \<le> e +
        counted_time now (is_alive (br_health br) now) (take n ticks))" (is "?L \<longleftrightarrow> ?R")
  proof
    assume ?L
    then obtain n where n: "n \<le> Suc (length ticks)" "of_int timeout \<le> wt_active_elapsed w +
        counted_time (wt_last_tick w) (wt_counting w) (take n (t # ticks))" by auto
    with Cons.prems(2) obtain m where "n = Suc m" by (cases n) auto
    with n show ?R by (intro exI [of _ m]) (simp add: t e_def algebra_simps)
  next
    assume ?R
    then obtain n where "n \<le> length ticks" "of_int timeout \<le> e +
        counted_time now (is_alive (br_health br) now) (take n ticks)" by auto
    then show ?L by (intro exI [of _ "Suc n"]) (simp add: t e_def algebra_simps)
  qed
  show ?case
  proof (cases "of_int timeout \<le> e")
    case True
    with Cons.prems(2) have "wt_counting w" by (auto simp: e_def split: if_splits)
    with True have "\<exists>r. wait_run (t # ticks) w = Returned r \<and> fr_block_reason r = Some ''timeout''"
      by (simp add: t wait_step_unresolved [OF u] Let_def e_def T failed_result_def)
    moreover from True have "\<exists>n \<le> length ticks. of_int timeout \<le> e +
        counted_time now (is_alive (br_health br) now) (take n ticks)"
      by (intro exI [of _ 0]) simp
    ultimately show ?thesis unfolding split by blast
  next
    case False
    then have "wait_run (t # ticks) w = wait_run ticks w1"
      by (simp add: t wait_step_unresolved [OF u] Let_def e_def T w1_def)
    moreover have "polled timeout (wt_job w1) ticks" "wt_active_elapsed w1 < of_int timeout"
      using rest False by (simp_all add: w1_def)
    ultimately show ?thesis
      using Cons.IH [of w1] unfolding split by (simp add: w1_def)
  qed
qed simp


text \<open>
  the result of a fetch is decided once: after any further step of the bridge (a late
  \<open>complete\<close>, \<open>fail\<close>, \<open>skip\<close> or \<open>override\<close>, a timeout, another fetch) the
  future of a resolved job still holds the same result.
\<close>

theorem bridge_result_final:
  assumes "bridge_reachable cf s" and "bridge_step s t" and "future_of s i = Some r"
  shows "future_of t i = Some r"
  using future_stable_step [OF assms(2) bridge_reachable_inv [OF assms(1)] assms(3)] .

section \<open>A concrete run\<close>

definition demo_url :: string where
  "demo_url = ''http://cs.pku.edu.cn/''"

definition demo_ctx :: job_context where
  "demo_ctx =
     \<lparr>jc_university_name = ''pku'', jc_agent_state = ''org_unit'', jc_intent = ''org_unit'',
      jc_parent_url = [], jc_depth = 1, jc_org_unit_name = ''cs'', jc_hints = []\<rparr>"

definition demo_job :: fetch_job where
  "demo_job =
     \<lparr>job_url = demo_url, job_context = demo_ctx, job_timeout_seconds = 60,
      job_identity_url = None, job_action = None, job_status = J_pending, job_future = None\<rparr>"

definition demo_waiter :: waiter where
  "demo_waiter = \<lparr>wt_job = ''j1'', wt_active_elapsed = 0, wt_last_tick = 0, wt_counting = False\<rparr>"

definition demo_fetched :: bridge_sys where
  "demo_fetched =
     \<lparr>sy_bridge = (new_bridge default_settings)\<lparr>br_queue := enqueue ''j1'' demo_job empty_queue\<rparr>,
      sy_waiters = [demo_waiter], sy_returned = []\<rparr>"

definition demo_taken :: bridge_sys where
  "demo_taken = demo_fetched\<lparr>sy_bridge := snd (next_job (sy_bridge demo_fetched))\<rparr>"

definition demo_completed :: bridge_sys where
  "demo_completed =
     demo_taken\<lparr>sy_bridge := snd (complete ''j1'' ''<p>'' demo_url ''t'' [] (sy_bridge demo_taken))\<rparr>"

lemma demo_allowed: "is_allowed_fetch_host demo_url = Inr True"
  by code_simp

lemma demo_fetched_reachable: "bridge_reachable default_settings demo_fetched"
proof -
  let ?s = "init_sys default_settings"
  have f: "fetch ''j1'' 0 demo_url demo_ctx None None (sy_bridge ?s) =
      Inr (Started demo_waiter (sy_bridge demo_fetched))"
    by (simp add: fetch_def demo_allowed init_sys_def new_bridge_def is_alive_def
        new_frontend_health_def demo_waiter_def demo_fetched_def demo_job_def default_settings_def)
  have "''j1'' \<notin> set (dict_keys (fq_jobs (br_queue (sy_bridge ?s))))"
    by (simp add: init_sys_def new_bridge_def empty_queue_def dict_keys_def)
  from bridge_step.step_fetch [OF this f]
  have "bridge_step ?s demo_fetched"
    by (simp add: init_sys_def demo_fetched_def)
  then show ?thesis
    using bridge_reachable.intros by blast
qed

lemma demo_taken_reachable: "bridge_reachable default_settings demo_taken"
  using bridge_reachable.reach_step [OF demo_fetched_reachable bridge_step.step_next]
  by (simp add: demo_taken_def)

lemma demo_completed_reachable: "bridge_reachable default_settings demo_completed"
  using bridge_reachable.reach_step [OF demo_taken_reachable bridge_step.step_complete]
  by (simp add: demo_completed_def)

theorem bridge_conservation_witness:
  "length (fq_jobs (br_queue (sy_bridge demo_completed))) = 1 \<and>
   qs_completed (stats (br_queue (sy_bridge demo_completed))) = 1"
proof -
  have "length (fq_jobs (br_queue (sy_bridge demo_completed))) = 1" by code_simp
  moreover have "qs_pending (stats (br_queue (sy_bridge demo_completed))) = 0"
    "qs_assigned (stats (br_queue (sy_bridge demo_completed))) = 0"
    "qs_failed (stats (br_queue (sy_bridge demo_completed))) = 0"
    "qs_skipped (stats (br_queue (sy_bridge demo_completed))) = 0"
    by code_simp+
  ultimately show ?thesis
    using bridge_conservation [OF demo_completed_reachable] by (simp add: Let_def)
qed

theorem bridge_job_awaited_witness:
  "\<exists>w j. w \<in> set (sy_waiters demo_fetched) \<and> wt_job w = ''j1'' \<and>
     get_job (br_queue (sy_bridge demo_fetched)) ''j1'' = Some j \<and> job_future j = None \<and>
     fq_assigned (br_queue (sy_bridge demo_fetched)) = None"
proof -
  have "fst (next_job (sy_bridge demo_fetched)) = Some ''j1''" by code_simp
  from bridge_job_awaited [OF demo_fetched_reachable this] show ?thesis .
qed

theorem bridge_result_final_witness:
  "future_of (demo_completed\<lparr>sy_bridge := snd (fail_job ''j1'' ''late'' (sy_bridge demo_completed))\<rparr>) ''j1'' =
   future_of demo_completed ''j1'' \<and> future_of demo_completed ''j1'' \<noteq> None"
proof -
  have "future_of demo_completed ''j1'' \<noteq> None" by code_simp
  then obtain r where r: "future_of demo_completed ''j1'' = Some r" by blast
  from bridge_result_final [OF demo_completed_reachable bridge_step.step_fail r]
  show ?thesis using r by simp
qed

theorem queue_serves_fifo_witness:
  "fst (serve 2 take_next (\<lambda>i. finish i J_completed)
     (enqueue ''j2'' demo_job (enqueue ''j1'' demo_job empty_queue))) = [''j1'', ''j2'']"
proof -
  let ?q = "enqueue ''j2'' demo_job (enqueue ''j1'' demo_job empty_queue)"
  have "fq_assigned ?q = None" by (simp add: enqueue_def empty_queue_def)
  from queue_serves_fifo [OF this] show ?thesis
    by (simp add: enqueue_def empty_queue_def numeral_2_eq_2)
qed

theorem fetch_timeout_exact_witness:
  "let w = demo_waiter\<lparr>wt_counting := True\<rparr>; ticks = [(60, sy_bridge demo_fetched)] in
   \<exists>r. wait_run ticks w = Returned r \<and> fr_block_reason r = Some ''timeout''"
proof -
  let ?w = "demo_waiter\<lparr>wt_counting := True\<rparr>" and ?ticks = "[(60, sy_bridge demo_fetched)]"
  have p: "polled 60 (wt_job ?w) ?ticks"
    by (simp add: polled_def unresolved_at_def demo_fetched_def demo_waiter_def new_bridge_def
        default_settings_def enqueue_def empty_queue_def get_job_def dict_get_def demo_job_def)
  have e: "wt_active_elapsed ?w < of_int 60" by (simp add: demo_waiter_def)
  have "\<exists>n \<le> length ?ticks. of_int 60 \<le> wt_active_elapsed ?w +
      counted_time (wt_last_tick ?w) (wt_counting ?w) (take n ?ticks)"
    by (intro exI [of _ 1]) (simp add: demo_waiter_def)
  with fetch_timeout_exact [OF p e] show ?thesis by (simp add: Let_def)
qed

end
