(* ===== verification/Dext_Store.thy ===== *)
theory Dext_Store
  imports Dext_Types
begin

text \<open>
  The crawl database and its single writer: the tables of
  \<open>src/src/dext/storage/models.py\<close>, the commands of \<open>src/src/dext/storage/writer.py\<close>
  and the crash reconciliation of \<open>src/src/dext/storage/lifecycle.py\<close>.

  A table is the list of its rows. A command is a function from the store to either a
  database error (a violated UNIQUE or FOREIGN KEY constraint, \<open>scalar_one\<close> without a
  row), in which case \<open>DBWriter.run\<close> rolls back and the store is unchanged, or the
  committed store and the command's result. \<open>utcnow_iso()\<close> is the argument \<open>now\<close>. The
  audit columns \<open>created_at\<close> and \<open>updated_at\<close>, which no modelled code reads, are left out.
\<close>

section \<open>Rows (storage/models.py)\<close>

record university_meta =
  um_id :: nat
  um_name :: string
  um_start_url :: "string option"
  um_crawl_status :: string
  um_abbr :: "string option"
  um_schema_version :: int
  um_last_run_id :: "nat option"

record crawl_run =
  cr_id :: nat
  cr_mode :: string
  cr_started_at :: "string option"
  cr_finished_at :: "string option"
  cr_status :: string
  cr_backup_path :: "string option"
  cr_settings :: "metadata option"
  cr_summary :: "metadata option"

record org_unit =
  ou_id :: nat
  ou_name :: string
  ou_url :: string
  ou_kind :: "string option"
  ou_status :: string
  ou_discovered_from_url :: "string option"

record graph_node =
  gn_id :: nat
  gn_node_key :: string
  gn_type :: node_type
  gn_url :: string
  gn_org_unit_id :: "nat option"
  gn_org_unit_name :: "string option"
  gn_status :: node_status
  gn_priority_score :: rat
  gn_base_priority :: rat
  gn_confidence :: "rat option"
  gn_depth :: int
  gn_attempt_count :: int
  gn_max_attempts :: int
  gn_last_error :: "string option"
  gn_run_id :: "nat option"
  gn_claimed_at :: "string option"
  gn_completed_at :: "string option"
  gn_next_retry_at :: "string option"
  gn_content_hash :: "string option"
  gn_metadata :: "metadata option"

record graph_edge =
  ge_id :: nat
  ge_from :: nat
  ge_to :: nat
  ge_type :: edge_type
  ge_confidence :: "rat option"
  ge_metadata :: "metadata option"

record page_cache =
  pc_url :: string
  pc_final_url :: "string option"
  pc_status_code :: "int option"
  pc_text_snapshot :: "string option"
  pc_links :: "string list option"
  pc_link_signals :: "link_signal list option"
  pc_block_reason :: "string option"
  pc_html_snapshot :: "string option"
  pc_content_hash :: "string option"
  pc_title :: "string option"
  pc_fetch_action :: "fetch_action option"
  pc_snapshot_encoding :: string

record extraction_attempt =
  ea_id :: nat
  ea_graph_node_id :: nat
  ea_attempt :: int
  ea_status :: string
  ea_prompt_hash :: "string option"
  ea_input_cache_url :: "string option"
  ea_raw_output_preview :: "string option"
  ea_failure_type :: "string option"
  ea_finished_at :: "string option"

record extraction_failure =
  ef_id :: nat
  ef_failure_type :: "string option"
  ef_resolver :: "string option"
  ef_raw_arguments_preview :: "string option"
  ef_professor_name_hint :: "string option"
  ef_source_url :: "string option"

record professor =
  pr_id :: nat
  pr_name :: string
  pr_org_unit_name :: "string option"
  pr_title :: "string option"
  pr_research_areas :: "string option"
  pr_email :: "string option"
  pr_phone :: "string option"
  pr_homepage :: "string option"
  pr_external_link :: "string option"
  pr_bio :: "string option"
  pr_enrollment_pref :: "string option"
  pr_publications :: "string option"

record academician =
  ac_id :: nat
  ac_name :: string
  ac_name_key :: string
  ac_org_unit_id :: nat
  ac_title :: "string option"
  ac_homepage :: "string option"
  ac_external_link :: "string option"

record affiliation =
  af_id :: nat
  af_professor_id :: nat
  af_org_unit_id :: nat

record store =
  st_meta :: "university_meta list"
  st_runs :: "crawl_run list"
  st_orgs :: "org_unit list"
  st_nodes :: "graph_node list"
  st_edges :: "graph_edge list"
  st_cache :: "page_cache list"
  st_attempts :: "extraction_attempt list"
  st_failures :: "extraction_failure list"
  st_professors :: "professor list"
  st_academicians :: "academician list"
  st_affiliations :: "affiliation list"

definition empty_store :: store where
  "empty_store =
     \<lparr>st_meta = [], st_runs = [], st_orgs = [], st_nodes = [], st_edges = [], st_cache = [],
      st_attempts = [], st_failures = [], st_professors = [], st_academicians = [],
      st_affiliations = []\<rparr>"

section \<open>Commands and their errors\<close>

datatype db_error = IntegrityError | NoResultFound | MultipleResultsFound

type_synonym 'a command = "store \<Rightarrow> (db_error, store \<times> 'a) result"

text \<open>\<open>DBWriter.run\<close>: commit on success, roll back and hand the exception to the caller
  otherwise.\<close>

definition run_command :: "'a command \<Rightarrow> store \<Rightarrow> (db_error, 'a) result \<times> store" where
  "run_command cmd st =
     (case cmd st of Inl e \<Rightarrow> (Inl e, st) | Inr (st', a) \<Rightarrow> (Inr a, st'))"

definition org_exists :: "store \<Rightarrow> nat \<Rightarrow> bool" where
  "org_exists st i = (i \<in> ou_id ` set (st_orgs st))"

definition node_exists :: "store \<Rightarrow> nat \<Rightarrow> bool" where
  "node_exists st i = (i \<in> gn_id ` set (st_nodes st))"

definition org_ref_ok :: "store \<Rightarrow> nat option \<Rightarrow> bool" where
  "org_ref_ok st r = (case r of None \<Rightarrow> True | Some i \<Rightarrow> org_exists st i)"

section \<open>Input specs\<close>

record org_unit_spec =
  os_name :: string
  os_url :: string
  os_kind :: string
  os_status :: string
  os_discovered_from_url :: "string option"

record node_spec =
  ns_node_key :: string
  ns_type :: node_type
  ns_url :: string
  ns_org_unit_id :: "nat option"
  ns_org_unit_name :: "string option"
  ns_status :: node_status
  ns_priority_score :: rat
  ns_base_priority :: rat
  ns_confidence :: "rat option"
  ns_depth :: int
  ns_max_attempts :: int
  ns_run_id :: "nat option"
  ns_metadata :: "metadata option"

record claimed_node =
  cn_id :: nat
  cn_node_key :: string
  cn_type :: node_type
  cn_url :: string
  cn_org_unit_id :: "nat option"
  cn_org_unit_name :: "string option"
  cn_depth :: int
  cn_attempt_count :: int
  cn_priority_score :: rat
  cn_content_hash :: "string option"
  cn_metadata :: "metadata option"

section \<open>Graph commands (writer.py)\<close>

definition upsert_org_unit :: "org_unit_spec \<Rightarrow> nat command" where
  "upsert_org_unit spec st =
     (case find (\<lambda>x. ou_url x = os_url spec) (st_orgs st) of
        Some ou \<Rightarrow>
          (if \<exists>x \<in> set (st_orgs st). ou_id x \<noteq> ou_id ou \<and> ou_name x = os_name spec
           then Inl IntegrityError
           else
             Inr (st\<lparr>st_orgs := update_where (\<lambda>x. ou_id x = ou_id ou)
                (\<lambda>x. x\<lparr>ou_name := os_name spec,
                       ou_kind := (if truthy_str (ou_kind x) then ou_kind x else Some (os_kind spec)),
                       ou_discovered_from_url :=
                         (if truthy_str (ou_discovered_from_url x) then ou_discovered_from_url x
                          else os_discovered_from_url spec)\<rparr>)
                (st_orgs st)\<rparr>, ou_id ou))
      | None \<Rightarrow>
          (if os_name spec \<in> ou_name ` set (st_orgs st) then Inl IntegrityError
           else
             (let i = next_id ou_id (st_orgs st)
              in Inr (st\<lparr>st_orgs := st_orgs st @
                    [\<lparr>ou_id = i, ou_name = os_name spec, ou_url = os_url spec,
                      ou_kind = Some (os_kind spec), ou_status = os_status spec,
                      ou_discovered_from_url = os_discovered_from_url spec\<rparr>]\<rparr>, i))))"

definition merge_missing :: "metadata option \<Rightarrow> metadata option \<Rightarrow> metadata option" where
  "merge_missing old new =
     (case new of
        None \<Rightarrow> old
      | Some items \<Rightarrow>
          if items = [] then old
          else Some (fold (\<lambda>(k, v) d. dict_setdefault k v d) items (case old of None \<Rightarrow> [] | Some d \<Rightarrow> d)))"

definition rediscover :: "node_spec \<Rightarrow> graph_node \<Rightarrow> graph_node" where
  "rediscover spec n =
     n\<lparr>gn_priority_score := max (gn_priority_score n) (ns_priority_score spec),
       gn_base_priority := max (gn_base_priority n) (ns_base_priority spec),
       gn_org_unit_id := (if gn_org_unit_id n = None then ns_org_unit_id spec else gn_org_unit_id n),
       gn_org_unit_name :=
         (if gn_org_unit_name n = None then ns_org_unit_name spec else gn_org_unit_name n),
       gn_confidence := (if gn_confidence n = None then ns_confidence spec else gn_confidence n),
       gn_metadata := merge_missing (gn_metadata n) (ns_metadata spec)\<rparr>"

definition new_node :: "nat \<Rightarrow> node_spec \<Rightarrow> graph_node" where
  "new_node i spec =
     \<lparr>gn_id = i, gn_node_key = ns_node_key spec, gn_type = ns_type spec, gn_url = ns_url spec,
      gn_org_unit_id = ns_org_unit_id spec, gn_org_unit_name = ns_org_unit_name spec,
      gn_status = ns_status spec, gn_priority_score = ns_priority_score spec,
      gn_base_priority = ns_base_priority spec, gn_confidence = ns_confidence spec,
      gn_depth = ns_depth spec, gn_attempt_count = 0, gn_max_attempts = ns_max_attempts spec,
      gn_last_error = None, gn_run_id = ns_run_id spec, gn_claimed_at = None,
      gn_completed_at = None, gn_next_retry_at = None, gn_content_hash = None,
      gn_metadata = ns_metadata spec\<rparr>"

definition upsert_node :: "node_spec \<Rightarrow> nat command" where
  "upsert_node spec st =
     (case find (\<lambda>n. gn_node_key n = ns_node_key spec) (st_nodes st) of
        Some n \<Rightarrow>
          (if org_ref_ok st (gn_org_unit_id (rediscover spec n))
           then Inr (st\<lparr>st_nodes :=
                  update_where (\<lambda>m. gn_id m = gn_id n) (rediscover spec) (st_nodes st)\<rparr>, gn_id n)
           else Inl IntegrityError)
      | None \<Rightarrow>
          (if org_ref_ok st (ns_org_unit_id spec)
           then (let i = next_id gn_id (st_nodes st)
                 in Inr (st\<lparr>st_nodes := st_nodes st @ [new_node i spec]\<rparr>, i))
           else Inl IntegrityError))"

definition add_edge ::
    "nat \<Rightarrow> nat \<Rightarrow> edge_type \<Rightarrow> rat option \<Rightarrow> metadata option \<Rightarrow> nat command" where
  "add_edge from_id to_id ty confidence meta st =
     (case find (\<lambda>e. ge_from e = from_id \<and> ge_to e = to_id \<and> ge_type e = ty) (st_edges st) of
        Some e \<Rightarrow> Inr (st, ge_id e)
      | None \<Rightarrow>
          (if node_exists st from_id \<and> node_exists st to_id
           then (let i = next_id ge_id (st_edges st)
                 in Inr (st\<lparr>st_edges := st_edges st @
                       [\<lparr>ge_id = i, ge_from = from_id, ge_to = to_id, ge_type = ty,
                         ge_confidence = confidence, ge_metadata = meta\<rparr>]\<rparr>, i))
           else Inl IntegrityError))"

definition set_opt :: "'a option \<Rightarrow> 'a option \<Rightarrow> 'a option" where
  "set_opt new old = (if new = None then old else new)"

definition mark_row ::
    "string \<Rightarrow> node_status \<Rightarrow> string option \<Rightarrow> string option \<Rightarrow> string option \<Rightarrow> bool \<Rightarrow>
     graph_node \<Rightarrow> graph_node" where
  "mark_row now status last_error content_hash next_retry_at attempt_inc n =
     n\<lparr>gn_status := status,
       gn_last_error := set_opt last_error (gn_last_error n),
       gn_content_hash := set_opt content_hash (gn_content_hash n),
       gn_next_retry_at := set_opt next_retry_at (gn_next_retry_at n),
       gn_attempt_count := (if attempt_inc then gn_attempt_count n + 1 else gn_attempt_count n),
       gn_completed_at := (if is_terminal status then Some now else gn_completed_at n)\<rparr>"

definition mark_node ::
    "string \<Rightarrow> nat \<Rightarrow> node_status \<Rightarrow> string option \<Rightarrow> string option \<Rightarrow> string option \<Rightarrow> bool \<Rightarrow>
     unit command" where
  "mark_node now node_id status last_error content_hash next_retry_at attempt_inc st =
     (if node_exists st node_id
      then Inr (st\<lparr>st_nodes := update_where (\<lambda>n. gn_id n = node_id)
                (mark_row now status last_error content_hash next_retry_at attempt_inc)
                (st_nodes st)\<rparr>, ())
      else Inl NoResultFound)"

definition claimable ::
    "string \<Rightarrow> string list \<Rightarrow> node_type list \<Rightarrow> nat list \<Rightarrow> graph_node \<Rightarrow> bool" where
  "claimable now exclude_node_keys types org_unit_ids n =
     (gn_status n \<in> {Pending, Retry} \<and>
      gn_attempt_count n < gn_max_attempts n \<and>
      (case gn_next_retry_at n of None \<Rightarrow> True | Some t \<Rightarrow> t \<le> now) \<and>
      (types = [] \<or> gn_type n \<in> set types) \<and>
      (org_unit_ids = [] \<or> (case gn_org_unit_id n of None \<Rightarrow> False | Some x \<Rightarrow> x \<in> set org_unit_ids)) \<and>
      gn_node_key n \<notin> set exclude_node_keys)"

definition claim_row :: "nat \<Rightarrow> string \<Rightarrow> graph_node \<Rightarrow> graph_node" where
  "claim_row run_id now n =
     n\<lparr>gn_status := In_progress, gn_claimed_at := Some now, gn_run_id := Some run_id,
       gn_attempt_count := gn_attempt_count n + 1\<rparr>"

definition detach :: "graph_node \<Rightarrow> claimed_node" where
  "detach n =
     \<lparr>cn_id = gn_id n, cn_node_key = gn_node_key n, cn_type = gn_type n, cn_url = gn_url n,
      cn_org_unit_id = gn_org_unit_id n, cn_org_unit_name = gn_org_unit_name n,
      cn_depth = gn_depth n, cn_attempt_count = gn_attempt_count n,
      cn_priority_score = gn_priority_score n, cn_content_hash = gn_content_hash n,
      cn_metadata = gn_metadata n\<rparr>"

definition claim_next ::
    "nat \<Rightarrow> string list \<Rightarrow> node_type list \<Rightarrow> string \<Rightarrow> nat list \<Rightarrow> claimed_node option command" where
  "claim_next run_id exclude_node_keys types now org_unit_ids st =
     (case sort_key (\<lambda>n. (- gn_priority_score n, gn_id n))
         (filter (claimable now exclude_node_keys types org_unit_ids) (st_nodes st)) of
        [] \<Rightarrow> Inr (st, None)
      | n # _ \<Rightarrow>
          Inr (st\<lparr>st_nodes := update_where (\<lambda>m. gn_id m = gn_id n) (claim_row run_id now) (st_nodes st)\<rparr>,
               Some (detach (claim_row run_id now n))))"

definition count_subtree_facet_nodes :: "nat \<Rightarrow> nat command" where
  "count_subtree_facet_nodes org_unit_id st =
     Inr (st, length (filter (\<lambda>n. gn_org_unit_id n = Some org_unit_id \<and>
        gn_type n \<in> {Faculty_list_url, Faculty_followup_url, Pagination_url}) (st_nodes st)))"

definition scheme_variants :: "string \<Rightarrow> string list" where
  "scheme_variants url =
     (if startswith url ''https://'' then [url, ''http://'' @ drop (length ''https://'') url]
      else if startswith url ''http://'' then [url, ''https://'' @ drop (length ''http://'') url]
      else [url])"

definition find_done_detail_for_url :: "string \<Rightarrow> nat \<Rightarrow> nat option command" where
  "find_done_detail_for_url url exclude_node_id st =
     (case sort (map gn_id (filter (\<lambda>n. gn_type n = Detail_url \<and> gn_url n \<in> set (scheme_variants url) \<and>
         gn_status n = Done \<and> gn_id n \<noteq> exclude_node_id) (st_nodes st))) of
        [] \<Rightarrow> Inr (st, None)
      | i # _ \<Rightarrow> Inr (st, Some i))"

section \<open>Page cache, extraction and run commands\<close>

definition get_page_cache :: "string \<Rightarrow> page_cache option command" where
  "get_page_cache url st = Inr (st, find (\<lambda>c. pc_url c = url) (st_cache st))"

definition save_page_cache :: "page_cache \<Rightarrow> string command" where
  "save_page_cache payload st =
     (case find (\<lambda>c. pc_url c = pc_url payload) (st_cache st) of
        Some _ \<Rightarrow>
          Inr (st\<lparr>st_cache := update_where (\<lambda>c. pc_url c = pc_url payload) (\<lambda>_. payload) (st_cache st)\<rparr>,
               pc_url payload)
      | None \<Rightarrow> Inr (st\<lparr>st_cache := st_cache st @ [payload]\<rparr>, pc_url payload))"

definition record_attempt ::
    "nat \<Rightarrow> int \<Rightarrow> string \<Rightarrow> string option \<Rightarrow> string option \<Rightarrow> nat command" where
  "record_attempt graph_node_id attempt status prompt_hash input_cache_url st =
     (if node_exists st graph_node_id
      then (let i = next_id ea_id (st_attempts st)
            in Inr (st\<lparr>st_attempts := st_attempts st @
                  [\<lparr>ea_id = i, ea_graph_node_id = graph_node_id, ea_attempt = attempt,
                    ea_status = status, ea_prompt_hash = prompt_hash,
                    ea_input_cache_url = input_cache_url, ea_raw_output_preview = None,
                    ea_failure_type = None, ea_finished_at = None\<rparr>]\<rparr>, i))
      else Inl IntegrityError)"

definition finish_attempt ::
    "string \<Rightarrow> nat \<Rightarrow> string \<Rightarrow> string option \<Rightarrow> string option \<Rightarrow> unit command" where
  "finish_attempt now attempt_id status raw_output_preview failure_type st =
     (if attempt_id \<in> ea_id ` set (st_attempts st)
      then Inr (st\<lparr>st_attempts := update_where (\<lambda>a. ea_id a = attempt_id)
              (\<lambda>a. a\<lparr>ea_status := status,
                     ea_raw_output_preview := set_opt raw_output_preview (ea_raw_output_preview a),
                     ea_failure_type := set_opt failure_type (ea_failure_type a),
                     ea_finished_at := Some now\<rparr>) (st_attempts st)\<rparr>, ())
      else Inl NoResultFound)"

definition record_failure ::
    "string option \<Rightarrow> string option \<Rightarrow> string option \<Rightarrow> string option \<Rightarrow> string option \<Rightarrow> nat command" where
  "record_failure failure_type resolver raw_arguments_preview professor_name_hint source_url st =
     (let i = next_id ef_id (st_failures st)
      in Inr (st\<lparr>st_failures := st_failures st @
            [\<lparr>ef_id = i, ef_failure_type = failure_type, ef_resolver = resolver,
              ef_raw_arguments_preview = raw_arguments_preview,
              ef_professor_name_hint = professor_name_hint, ef_source_url = source_url\<rparr>]\<rparr>, i))"

definition update_first :: "('r \<Rightarrow> 'r) \<Rightarrow> 'r list \<Rightarrow> 'r list" where
  "update_first f rows = (case rows of [] \<Rightarrow> [] | r # rs \<Rightarrow> f r # rs)"

definition start_run ::
    "string \<Rightarrow> string \<Rightarrow> metadata option \<Rightarrow> string option \<Rightarrow> nat command" where
  "start_run now mode run_settings backup_path st =
     (let i = next_id cr_id (st_runs st)
      in Inr (st\<lparr>st_runs := st_runs st @
               [\<lparr>cr_id = i, cr_mode = mode, cr_started_at = Some now, cr_finished_at = None,
                 cr_status = ''running'', cr_backup_path = backup_path,
                 cr_settings = run_settings, cr_summary = None\<rparr>],
               st_meta := update_first (\<lambda>m. m\<lparr>um_last_run_id := Some i\<rparr>) (st_meta st)\<rparr>, i))"

definition finish_run :: "string \<Rightarrow> nat \<Rightarrow> string \<Rightarrow> metadata option \<Rightarrow> unit command" where
  "finish_run now run_id status summary st =
     (if run_id \<in> cr_id ` set (st_runs st)
      then Inr (st\<lparr>st_runs := update_where (\<lambda>r. cr_id r = run_id)
              (\<lambda>r. r\<lparr>cr_status := status, cr_finished_at := Some now,
                     cr_summary := set_opt summary (cr_summary r)\<rparr>) (st_runs st)\<rparr>, ())
      else Inl NoResultFound)"

definition update_org_unit_status :: "nat \<Rightarrow> string \<Rightarrow> unit command" where
  "update_org_unit_status org_unit_id status st =
     Inr (st\<lparr>st_orgs := update_where (\<lambda>x. ou_id x = org_unit_id)
            (\<lambda>x. x\<lparr>ou_status := status\<rparr>) (st_orgs st)\<rparr>, ())"

definition update_university_status :: "string \<Rightarrow> unit command" where
  "update_university_status status st =
     Inr (st\<lparr>st_meta := update_first (\<lambda>m. m\<lparr>um_crawl_status := status\<rparr>) (st_meta st)\<rparr>, ())"

section \<open>Reset commands\<close>

record reset_counts =
  rc_nodes_deleted :: nat
  rc_entrypoints_reset :: nat
  rc_edges_deleted :: nat
  rc_caches_deleted :: nat

definition reset_row :: "graph_node \<Rightarrow> graph_node" where
  "reset_row n =
     n\<lparr>gn_status := Pending, gn_attempt_count := 0, gn_last_error := None, gn_content_hash := None,
       gn_claimed_at := None, gn_completed_at := None, gn_next_retry_at := None\<rparr>"

definition reset_deletable :: "nat \<Rightarrow> graph_node \<Rightarrow> bool" where
  "reset_deletable org n =
     (gn_org_unit_id n = Some org \<and> gn_type n \<in> {Detail_url, Faculty_followup_url, Pagination_url})"

definition reset_entrypoint :: "nat \<Rightarrow> graph_node \<Rightarrow> bool" where
  "reset_entrypoint org n =
     (gn_org_unit_id n = Some org \<and> gn_type n \<in> {Org_unit, Faculty_list_url})"

definition reset_org_unit_subtree :: "nat \<Rightarrow> reset_counts command" where
  "reset_org_unit_subtree org st =
     (let deletable = filter (reset_deletable org) (st_nodes st);
          entrypoints = filter (reset_entrypoint org) (st_nodes st);
          ids = map gn_id deletable;
          entry_ids = map gn_id entrypoints;
          touches = (\<lambda>e. ge_from e \<in> set ids \<or> ge_to e \<in> set ids);
          cache_urls = filter (\<lambda>u. u \<noteq> []) (map gn_url deletable) @
                       filter (\<lambda>u. u \<noteq> []) (map gn_url entrypoints);
          st' = st\<lparr>st_edges := delete_where touches (st_edges st),
                   st_attempts := delete_where (\<lambda>a. ea_graph_node_id a \<in> set ids) (st_attempts st),
                   st_nodes := update_where (\<lambda>n. gn_id n \<in> set entry_ids) reset_row
                     (delete_where (\<lambda>n. gn_id n \<in> set ids) (st_nodes st)),
                   st_cache := delete_where (\<lambda>c. pc_url c \<in> set cache_urls) (st_cache st),
                   st_orgs := update_where (\<lambda>x. ou_id x = org) (\<lambda>x. x\<lparr>ou_status := ''pending''\<rparr>) (st_orgs st)\<rparr>
      in Inr (st', \<lparr>rc_nodes_deleted = length ids, rc_entrypoints_reset = length entry_ids,
                    rc_edges_deleted = length (filter touches (st_edges st)),
                    rc_caches_deleted = length (filter (\<lambda>c. pc_url c \<in> set cache_urls) (st_cache st))\<rparr>))"

text \<open>SQL \<open>LIKE\<close>: \<open>%\<close> any sequence, \<open>_\<close> any one character, ASCII case-insensitive.\<close>

fun like_match :: "string \<Rightarrow> string \<Rightarrow> bool" where
  "like_match [] s = (s = [])"
| "like_match (p # ps) s =
     (if p = CHR ''%'' then
        like_match ps s \<or> (case s of [] \<Rightarrow> False | _ # cs \<Rightarrow> like_match (p # ps) cs)
      else
        (case s of
           [] \<Rightarrow> False
         | c # cs \<Rightarrow> (p = CHR ''_'' \<or> lower_char p = lower_char c) \<and> like_match ps cs))"

definition sql_trim :: "string \<Rightarrow> string" where
  "sql_trim s =
     (let ws = (\<lambda>c. c \<in> {CHR 0x09, CHR 0x0A, CHR 0x0D, CHR 0x20})
      in rev (dropWhile ws (rev (dropWhile ws s))))"

definition bad_snapshot :: "page_cache \<Rightarrow> bool" where
  "bad_snapshot c =
     ((case pc_text_snapshot c of None \<Rightarrow> True | Some t \<Rightarrow> sql_trim t = []) \<or>
      (case pc_block_reason c of None \<Rightarrow> False
       | Some r \<Rightarrow> like_match ''terminal_unavailable:empty_page%'' r))"

definition bad_detail_rows :: "store \<Rightarrow> (graph_node \<times> page_cache) list" where
  "bad_detail_rows st =
     filter (\<lambda>(n, c). pc_url c = gn_url n \<and> gn_type n = Detail_url \<and> bad_snapshot c)
       (List.product (st_nodes st) (st_cache st))"

definition reset_bad_detail_snapshots :: "(nat \<times> nat) command" where
  "reset_bad_detail_snapshots st =
     (let rows = bad_detail_rows st
      in if rows = [] then Inr (st, (0, 0))
         else
           (let ids = map (\<lambda>(n, c). gn_id n) rows;
                urls = filter (\<lambda>u. u \<noteq> []) (map (\<lambda>(n, c). pc_url c) rows)
            in Inr (st\<lparr>st_nodes := update_where (\<lambda>n. gn_id n \<in> set ids) reset_row (st_nodes st),
                       st_cache := delete_where (\<lambda>c. pc_url c \<in> set urls) (st_cache st)\<rparr>,
                    (length ids, length (filter (\<lambda>c. pc_url c \<in> set urls) (st_cache st))))))"

section \<open>Lifecycle (lifecycle.py)\<close>

text \<open>\<open>open_resume\<close> on an existing database: crash residue is reconciled before the writer
  starts.\<close>

definition reconcile :: "store \<Rightarrow> store" where
  "reconcile st =
     st\<lparr>st_nodes := update_where (\<lambda>n. gn_status n = In_progress) (\<lambda>n. n\<lparr>gn_status := Retry\<rparr>) (st_nodes st),
        st_orgs := update_where (\<lambda>x. ou_status x = ''in_progress'') (\<lambda>x. x\<lparr>ou_status := ''pending''\<rparr>) (st_orgs st),
        st_attempts := update_where (\<lambda>a. ea_status a = ''running'') (\<lambda>a. a\<lparr>ea_status := ''retry''\<rparr>) (st_attempts st)\<rparr>"

text \<open>\<open>open_fresh\<close> after the backup: an empty database with its one \<open>university_meta\<close> row.\<close>

definition fresh_store :: "string \<Rightarrow> string \<Rightarrow> string \<Rightarrow> store" where
  "fresh_store name start_url abbr =
     empty_store\<lparr>st_meta :=
       [\<lparr>um_id = 1, um_name = name, um_start_url = Some start_url, um_crawl_status = ''pending'',
         um_abbr = Some abbr, um_schema_version = 1, um_last_run_id = None\<rparr>]\<rparr>"

section \<open>The store invariant\<close>

text \<open>The UNIQUE and FOREIGN KEY constraints of models.py, as one executable predicate per
  table over the key sets it refers to.\<close>

definition orgs_ok :: "org_unit list \<Rightarrow> bool" where
  "orgs_ok rows =
     (distinct (map ou_id rows) \<and> distinct (map ou_name rows) \<and> distinct (map ou_url rows))"

definition nodes_ok :: "nat set \<Rightarrow> graph_node list \<Rightarrow> bool" where
  "nodes_ok orgs rows =
     (distinct (map gn_id rows) \<and> distinct (map gn_node_key rows) \<and>
      (\<forall>n \<in> set rows. case gn_org_unit_id n of None \<Rightarrow> True | Some i \<Rightarrow> i \<in> orgs))"

definition edge_triple :: "graph_edge \<Rightarrow> nat \<times> nat \<times> edge_type" where
  "edge_triple e = (ge_from e, ge_to e, ge_type e)"

definition edges_ok :: "nat set \<Rightarrow> graph_edge list \<Rightarrow> bool" where
  "edges_ok nodes rows =
     (distinct (map ge_id rows) \<and> distinct (map edge_triple rows) \<and>
      (\<forall>e \<in> set rows. ge_from e \<in> nodes \<and> ge_to e \<in> nodes))"

definition attempts_ok :: "nat set \<Rightarrow> extraction_attempt list \<Rightarrow> bool" where
  "attempts_ok nodes rows =
     (distinct (map ea_id rows) \<and> (\<forall>a \<in> set rows. ea_graph_node_id a \<in> nodes))"

definition people_ok ::
    "nat set \<Rightarrow> professor list \<Rightarrow> academician list \<Rightarrow> affiliation list \<Rightarrow> bool" where
  "people_ok orgs profs acads affs =
     (distinct (map pr_id profs) \<and> distinct (map ac_id acads) \<and>
      distinct (map (\<lambda>a. (ac_org_unit_id a, ac_name_key a)) acads) \<and>
      distinct (map (\<lambda>a. (ac_name a, ac_org_unit_id a)) acads) \<and>
      (\<forall>a \<in> set acads. ac_org_unit_id a \<in> orgs) \<and>
      distinct (map af_id affs) \<and>
      distinct (map (\<lambda>a. (af_professor_id a, af_org_unit_id a)) affs) \<and>
      (\<forall>a \<in> set affs. af_professor_id a \<in> pr_id ` set profs \<and> af_org_unit_id a \<in> orgs))"

definition store_inv :: "store \<Rightarrow> bool" where
  "store_inv st =
     (orgs_ok (st_orgs st) \<and>
      nodes_ok (ou_id ` set (st_orgs st)) (st_nodes st) \<and>
      edges_ok (gn_id ` set (st_nodes st)) (st_edges st) \<and>
      attempts_ok (gn_id ` set (st_nodes st)) (st_attempts st) \<and>
      distinct (map pc_url (st_cache st)) \<and>
      distinct (map cr_id (st_runs st)) \<and>
      distinct (map ef_id (st_failures st)) \<and>
      people_ok (ou_id ` set (st_orgs st)) (st_professors st) (st_academicians st)
        (st_affiliations st))"

lemmas inv_defs = store_inv_def orgs_ok_def nodes_ok_def edges_ok_def attempts_ok_def people_ok_def

subsection \<open>Row-level preservation\<close>

lemma distinct_map_snoc:
  "distinct (map g rows) \<Longrightarrow> g r \<notin> g ` set rows \<Longrightarrow> distinct (map g (rows @ [r]))"
  by auto

lemma update_where_Cons:
  "update_where P f (x # rows) = (if P x then f x else x) # update_where P f rows"
  by (simp add: update_where_def)

lemma distinct_map_update_at:
  assumes "distinct (map rid rows)" "distinct (map g rows)"
    and "\<And>x. x \<in> set rows \<Longrightarrow> rid x \<noteq> i \<Longrightarrow> g x \<noteq> v" and "\<And>x. g (f x) = v"
  shows "distinct (map g (update_where (\<lambda>x. rid x = i) f rows))"
  using assms
proof (induction rows)
  case (Cons x rows)
  have other: "rid y \<noteq> i" if "rid x = i" "y \<in> set rows" for y
    using Cons.prems(1) that by (metis distinct.simps(2) image_eqI list.simps(9) set_map)
  then have same: "update_where (\<lambda>x. rid x = i) f rows = rows" if "rid x = i"
    using that unfolding update_where_def by (intro map_idI) simp
  show ?case
  proof (cases "rid x = i")
    case True
    have "v \<notin> g ` set rows"
    proof
      assume "v \<in> g ` set rows"
      then obtain y where y: "y \<in> set rows" "g y = v" by auto
      with other [OF True] Cons.prems(3) show False by auto
    qed
    with Cons.prems same [OF True] True show ?thesis by (simp add: update_where_Cons)
  next
    case False
    with Cons.prems(2,3) Cons.prems(4) have "g x \<notin> g ` set (update_where (\<lambda>x. rid x = i) f rows)"
      by (auto simp: update_where_def)
    with Cons False show ?thesis by (simp add: update_where_Cons)
  qed
qed (simp add: update_where_def)

lemma orgs_ok_update [tbl_simps]:
  assumes "\<And>x. ou_id (f x) = ou_id x" "\<And>x. ou_name (f x) = ou_name x" "\<And>x. ou_url (f x) = ou_url x"
  shows "orgs_ok (update_where P f rows) = orgs_ok rows"
  using assms by (simp add: orgs_ok_def map_update_where)

lemma nodes_ok_update:
  assumes "\<And>x. gn_id (f x) = gn_id x" "\<And>x. gn_node_key (f x) = gn_node_key x"
    and "\<And>x i. P x \<Longrightarrow> gn_org_unit_id (f x) = Some i \<Longrightarrow> gn_org_unit_id x \<noteq> Some i \<Longrightarrow> i \<in> orgs"
    and "nodes_ok orgs rows"
  shows "nodes_ok orgs (update_where P f rows)"
proof -
  have "case gn_org_unit_id r of None \<Rightarrow> True | Some i \<Rightarrow> i \<in> orgs"
    if "r \<in> set (update_where P f rows)" for r
  proof -
    from that obtain r0 where r0: "r0 \<in> set rows" "r = (if P r0 then f r0 else r0)"
      by (rule mem_update_whereE)
    with assms(4) have "case gn_org_unit_id r0 of None \<Rightarrow> True | Some i \<Rightarrow> i \<in> orgs"
      by (simp add: nodes_ok_def)
    with r0 assms(3) [of r0] show ?thesis
      by (auto split: option.splits if_splits)
  qed
  with assms show ?thesis by (simp add: nodes_ok_def map_update_where)
qed

lemma nodes_ok_snoc:
  assumes "nodes_ok orgs rows" "gn_id n = next_id gn_id rows" "gn_node_key n \<notin> gn_node_key ` set rows"
    and "case gn_org_unit_id n of None \<Rightarrow> True | Some i \<Rightarrow> i \<in> orgs"
  shows "nodes_ok orgs (rows @ [n])"
  using assms next_id_fresh [of gn_id rows] by (auto simp: nodes_ok_def)

lemma nodes_ok_delete: "nodes_ok orgs rows \<Longrightarrow> nodes_ok orgs (delete_where P rows)"
  by (auto simp: nodes_ok_def tbl_simps)

lemma nodes_ok_mono: "nodes_ok orgs rows \<Longrightarrow> orgs \<subseteq> orgs' \<Longrightarrow> nodes_ok orgs' rows"
  by (fastforce simp: nodes_ok_def split: option.splits)

lemma edges_ok_mono: "edges_ok ids rows \<Longrightarrow> ids \<subseteq> ids' \<Longrightarrow> edges_ok ids' rows"
  by (auto simp: edges_ok_def)

lemma attempts_ok_mono: "attempts_ok ids rows \<Longrightarrow> ids \<subseteq> ids' \<Longrightarrow> attempts_ok ids' rows"
  by (auto simp: attempts_ok_def)

lemma people_ok_mono: "people_ok orgs p a f \<Longrightarrow> orgs \<subseteq> orgs' \<Longrightarrow> people_ok orgs' p a f"
  by (fastforce simp: people_ok_def)

lemma attempts_ok_update:
  assumes "\<And>x. ea_id (f x) = ea_id x" "\<And>x. ea_graph_node_id (f x) = ea_graph_node_id x"
  shows "attempts_ok ids rows \<Longrightarrow> attempts_ok ids (update_where P f rows)"
  using assms by (auto simp: attempts_ok_def map_update_where elim!: mem_update_whereE)

subsection \<open>The contract of a writer command\<close>

text \<open>Every command handed to \<open>DBWriter.run\<close> keeps the constraints when it commits. The facts
  below are what the callers of the writer rely on.\<close>

locale writer_command =
  fixes cmd :: "'a command"
  assumes keeps: "store_inv st \<Longrightarrow> cmd st = Inr (st', a) \<Longrightarrow> store_inv st'"
begin

lemma run_keeps: "store_inv st \<Longrightarrow> store_inv (snd (run_command cmd st))"
  by (auto simp: run_command_def split: sum.split intro: keeps)

lemma rollback: "fst (run_command cmd st) = Inl e \<Longrightarrow> snd (run_command cmd st) = st"
  by (auto simp: run_command_def split: sum.splits)

lemma replay_keeps: "store_inv st \<Longrightarrow> store_inv (((\<lambda>s. snd (run_command cmd s)) ^^ k) st)"
  by (induction k) (auto intro: run_keeps)

end

lemma upsert_org_unit_keeps:
  assumes "store_inv st" "upsert_org_unit spec st = Inr (st', i)"
  shows "store_inv st'"
proof (cases "find (\<lambda>x. ou_url x = os_url spec) (st_orgs st)")
  case None
  then have fresh: "os_url spec \<notin> ou_url ` set (st_orgs st)" by (auto simp: find_None_iff)
  let ?row = "\<lparr>ou_id = next_id ou_id (st_orgs st), ou_name = os_name spec, ou_url = os_url spec,
      ou_kind = Some (os_kind spec), ou_status = os_status spec,
      ou_discovered_from_url = os_discovered_from_url spec\<rparr>"
  from None assms(2) have nm: "os_name spec \<notin> ou_name ` set (st_orgs st)"
    and st': "st' = st\<lparr>st_orgs := st_orgs st @ [?row]\<rparr>"
    by (auto simp: upsert_org_unit_def Let_def split: if_splits)
  from assms(1) fresh nm next_id_fresh [of ou_id "st_orgs st"]
  have "orgs_ok (st_orgs st @ [?row])"
    by (simp add: store_inv_def orgs_ok_def)
  moreover have "nodes_ok (ou_id ` set (st_orgs st @ [?row])) (st_nodes st)"
    using assms(1) by (auto simp: store_inv_def intro: nodes_ok_mono)
  moreover have "people_ok (ou_id ` set (st_orgs st @ [?row])) (st_professors st)
      (st_academicians st) (st_affiliations st)"
    using assms(1) by (auto simp: store_inv_def intro: people_ok_mono)
  ultimately show ?thesis using assms(1) by (simp add: store_inv_def st')
next
  case (Some ou)
  then have ou: "ou \<in> set (st_orgs st)" by (auto dest: find_in_set)
  define f where "f = (\<lambda>x :: org_unit. x\<lparr>ou_name := os_name spec,
       ou_kind := (if truthy_str (ou_kind x) then ou_kind x else Some (os_kind spec)),
       ou_discovered_from_url := (if truthy_str (ou_discovered_from_url x)
         then ou_discovered_from_url x else os_discovered_from_url spec)\<rparr>)"
  let ?rows = "update_where (\<lambda>x. ou_id x = ou_id ou) f (st_orgs st)"
  from Some assms(2) have nm: "\<forall>x \<in> set (st_orgs st). ou_id x \<noteq> ou_id ou \<longrightarrow> ou_name x \<noteq> os_name spec"
    and st': "st' = st\<lparr>st_orgs := ?rows\<rparr>"
    by (auto simp: upsert_org_unit_def f_def split: if_splits)
  have ids: "map ou_id ?rows = map ou_id (st_orgs st)" "map ou_url ?rows = map ou_url (st_orgs st)"
    by (simp_all add: map_update_where f_def)
  have "distinct (map ou_name ?rows)"
    by (rule distinct_map_update_at [where v = "os_name spec"])
      (use assms(1) nm in \<open>auto simp: store_inv_def orgs_ok_def f_def\<close>)
  with assms(1) ids have "orgs_ok ?rows" by (simp add: store_inv_def orgs_ok_def)
  moreover have "ou_id ` set ?rows = ou_id ` set (st_orgs st)" by (metis ids(1) set_map)
  ultimately show ?thesis using assms(1) by (simp add: store_inv_def st')
qed

lemma upsert_node_keeps:
  assumes "store_inv st" "upsert_node spec st = Inr (st', i)"
  shows "store_inv st'"
proof (cases "find (\<lambda>n. gn_node_key n = ns_node_key spec) (st_nodes st)")
  case None
  then have fresh: "ns_node_key spec \<notin> gn_node_key ` set (st_nodes st)"
    by (auto simp: find_None_iff)
  let ?n = "new_node (next_id gn_id (st_nodes st)) spec"
  from None assms(2) have ref: "org_ref_ok st (ns_org_unit_id spec)"
    and st': "st' = st\<lparr>st_nodes := st_nodes st @ [?n]\<rparr>"
    by (auto simp: upsert_node_def Let_def split: if_splits)
  from assms(1) fresh ref have "nodes_ok (ou_id ` set (st_orgs st)) (st_nodes st @ [?n])"
    by (intro nodes_ok_snoc) (auto simp: store_inv_def new_node_def org_ref_ok_def org_exists_def
        split: option.splits)
  moreover have "edges_ok (gn_id ` set (st_nodes st @ [?n])) (st_edges st)"
    using assms(1) by (auto simp: store_inv_def intro: edges_ok_mono)
  moreover have "attempts_ok (gn_id ` set (st_nodes st @ [?n])) (st_attempts st)"
    using assms(1) by (auto simp: store_inv_def intro: attempts_ok_mono)
  ultimately show ?thesis using assms(1) by (simp add: store_inv_def st')
next
  case (Some n)
  let ?rows = "update_where (\<lambda>m. gn_id m = gn_id n) (rediscover spec) (st_nodes st)"
  from Some have n: "n \<in> set (st_nodes st)" by (auto dest: find_in_set)
  from Some assms(2) have ref: "org_ref_ok st (gn_org_unit_id (rediscover spec n))"
    and st': "st' = st\<lparr>st_nodes := ?rows\<rparr>"
    by (auto simp: upsert_node_def split: if_splits)
  have only: "x = n" if "x \<in> set (st_nodes st)" "gn_id x = gn_id n" for x
    using assms(1) n that by (auto simp: store_inv_def nodes_ok_def distinct_map dest: inj_onD)
  have ids: "map gn_id ?rows = map gn_id (st_nodes st)" "map gn_node_key ?rows = map gn_node_key (st_nodes st)"
    by (simp_all add: map_update_where rediscover_def)
  have "\<forall>r \<in> set ?rows. case gn_org_unit_id r of None \<Rightarrow> True | Some j \<Rightarrow> j \<in> ou_id ` set (st_orgs st)"
  proof
    fix r assume "r \<in> set ?rows"
    then obtain r0 where "r0 \<in> set (st_nodes st)"
      "r = (if gn_id r0 = gn_id n then rediscover spec r0 else r0)"
      by (rule mem_update_whereE)
    with assms(1) ref only [of r0]
    show "case gn_org_unit_id r of None \<Rightarrow> True | Some j \<Rightarrow> j \<in> ou_id ` set (st_orgs st)"
      by (auto simp: store_inv_def nodes_ok_def org_ref_ok_def org_exists_def split: if_splits option.splits)
  qed
  with assms(1) ids have "nodes_ok (ou_id ` set (st_orgs st)) ?rows"
    by (simp add: store_inv_def nodes_ok_def)
  moreover have "gn_id ` set ?rows = gn_id ` set (st_nodes st)" by (metis ids(1) set_map)
  ultimately show ?thesis using assms(1) by (simp add: store_inv_def st')
qed

lemma store_inv_update_nodes:
  assumes "store_inv st"
    and "\<And>x. gn_id (f x) = gn_id x" "\<And>x. gn_node_key (f x) = gn_node_key x"
    and "\<And>x. gn_org_unit_id (f x) = gn_org_unit_id x"
  shows "store_inv (st\<lparr>st_nodes := update_where P f (st_nodes st)\<rparr>)"
proof -
  have "gn_id ` set (update_where P f (st_nodes st)) = gn_id ` set (st_nodes st)"
    by (simp add: image_update_where assms(2))
  moreover have "nodes_ok (ou_id ` set (st_orgs st)) (update_where P f (st_nodes st))"
    using assms by (intro nodes_ok_update) (auto simp: store_inv_def)
  ultimately show ?thesis using assms(1) by (simp add: store_inv_def)
qed

lemma store_inv_update_orgs:
  assumes "store_inv st"
    and "\<And>x. ou_id (f x) = ou_id x" "\<And>x. ou_name (f x) = ou_name x" "\<And>x. ou_url (f x) = ou_url x"
  shows "store_inv (st\<lparr>st_orgs := update_where P f (st_orgs st)\<rparr>)"
proof -
  have "ou_id ` set (update_where P f (st_orgs st)) = ou_id ` set (st_orgs st)"
    by (simp add: image_update_where assms(2))
  with assms show ?thesis by (simp add: store_inv_def orgs_ok_update)
qed

lemma store_inv_update_attempts:
  assumes "store_inv st"
    and "\<And>x. ea_id (f x) = ea_id x" "\<And>x. ea_graph_node_id (f x) = ea_graph_node_id x"
  shows "store_inv (st\<lparr>st_attempts := update_where P f (st_attempts st)\<rparr>)"
  using assms by (simp add: store_inv_def attempts_ok_update)

lemma store_inv_delete_cache:
  "store_inv st \<Longrightarrow> store_inv (st\<lparr>st_cache := delete_where P (st_cache st)\<rparr>)"
  by (simp add: store_inv_def distinct_delete_where)

lemma store_inv_meta [simp]: "store_inv (st\<lparr>st_meta := m\<rparr>) = store_inv st"
  by (simp add: store_inv_def)

lemma add_edge_keeps:
  assumes "store_inv st" "add_edge a b ty c md st = Inr (st', i)"
  shows "store_inv st'"
proof (cases "find (\<lambda>e. ge_from e = a \<and> ge_to e = b \<and> ge_type e = ty) (st_edges st)")
  case None
  then have "(a, b, ty) \<notin> edge_triple ` set (st_edges st)"
    by (auto simp: find_None_iff edge_triple_def)
  with assms None next_id_fresh [of ge_id "st_edges st"] show ?thesis
    by (auto simp: add_edge_def Let_def store_inv_def edges_ok_def edge_triple_def node_exists_def
        split: if_splits)
qed (use assms in \<open>auto simp: add_edge_def\<close>)

lemma mark_node_keeps:
  "store_inv st \<Longrightarrow> mark_node now i s le ch nr inc st = Inr (st', a) \<Longrightarrow> store_inv st'"
  by (auto simp: mark_node_def mark_row_def split: if_splits intro!: store_inv_update_nodes)

lemma claim_next_keeps:
  "store_inv st \<Longrightarrow> claim_next r ks ts now os st = Inr (st', a) \<Longrightarrow> store_inv st'"
  by (auto simp: claim_next_def claim_row_def split: list.splits intro!: store_inv_update_nodes)

lemma save_page_cache_keeps:
  assumes "store_inv st" "save_page_cache p st = Inr (st', a)"
  shows "store_inv st'"
proof (cases "find (\<lambda>c. pc_url c = pc_url p) (st_cache st)")
  case None
  then have "pc_url p \<notin> pc_url ` set (st_cache st)" by (auto simp: find_None_iff)
  with assms None show ?thesis by (auto simp: save_page_cache_def store_inv_def)
next
  case (Some c)
  have "map pc_url (update_where (\<lambda>c. pc_url c = pc_url p) (\<lambda>_. p) (st_cache st)) =
      map pc_url (st_cache st)"
    by (simp add: update_where_def)
  with assms Some show ?thesis by (auto simp: save_page_cache_def store_inv_def)
qed

lemma record_attempt_keeps:
  "store_inv st \<Longrightarrow> record_attempt n k s p c st = Inr (st', a) \<Longrightarrow> store_inv st'"
  using next_id_fresh [of ea_id "st_attempts st"]
  by (auto simp: record_attempt_def Let_def store_inv_def attempts_ok_def node_exists_def
      split: if_splits)

lemma finish_attempt_keeps:
  "store_inv st \<Longrightarrow> finish_attempt now i s r f st = Inr (st', a) \<Longrightarrow> store_inv st'"
  by (auto simp: finish_attempt_def split: if_splits intro!: store_inv_update_attempts)

lemma record_failure_keeps:
  "store_inv st \<Longrightarrow> record_failure f r a h u st = Inr (st', x) \<Longrightarrow> store_inv st'"
  using next_id_fresh [of ef_id "st_failures st"]
  by (auto simp: record_failure_def Let_def store_inv_def)

lemma start_run_keeps:
  "store_inv st \<Longrightarrow> start_run now m s b st = Inr (st', x) \<Longrightarrow> store_inv st'"
  using next_id_fresh [of cr_id "st_runs st"]
  by (auto simp: start_run_def Let_def store_inv_def)

lemma finish_run_keeps:
  "store_inv st \<Longrightarrow> finish_run now i s m st = Inr (st', x) \<Longrightarrow> store_inv st'"
  by (auto simp: finish_run_def store_inv_def map_update_where split: if_splits)

lemma update_org_unit_status_keeps:
  "store_inv st \<Longrightarrow> update_org_unit_status i s st = Inr (st', x) \<Longrightarrow> store_inv st'"
  by (auto simp: update_org_unit_status_def intro!: store_inv_update_orgs)

lemma update_university_status_keeps:
  "store_inv st \<Longrightarrow> update_university_status s st = Inr (st', x) \<Longrightarrow> store_inv st'"
  by (auto simp: update_university_status_def)

lemma store_inv_delete_nodes:
  assumes "store_inv st"
  shows "store_inv (st\<lparr>st_edges := delete_where (\<lambda>e. ge_from e \<in> D \<or> ge_to e \<in> D) (st_edges st),
     st_attempts := delete_where (\<lambda>a. ea_graph_node_id a \<in> D) (st_attempts st),
     st_nodes := delete_where (\<lambda>n. gn_id n \<in> D) (st_nodes st)\<rparr>)"
proof -
  have ids: "gn_id ` set (delete_where (\<lambda>n. gn_id n \<in> D) (st_nodes st)) = gn_id ` set (st_nodes st) - D"
    by (auto simp: tbl_simps)
  show ?thesis using assms unfolding store_inv_def
    by (simp add: ids nodes_ok_delete) (auto simp: edges_ok_def attempts_ok_def tbl_simps)
qed

lemma reset_org_unit_subtree_keeps:
  assumes "store_inv st" "reset_org_unit_subtree org st = Inr (st', x)"
  shows "store_inv st'"
proof -
  define D where "D = gn_id ` {n \<in> set (st_nodes st). reset_deletable org n}"
  define E where "E = gn_id ` {n \<in> set (st_nodes st). reset_entrypoint org n}"
  define st1 where "st1 = st\<lparr>st_edges := delete_where (\<lambda>e. ge_from e \<in> D \<or> ge_to e \<in> D) (st_edges st),
     st_attempts := delete_where (\<lambda>a. ea_graph_node_id a \<in> D) (st_attempts st),
     st_nodes := delete_where (\<lambda>n. gn_id n \<in> D) (st_nodes st)\<rparr>"
  define st2 where "st2 = st1\<lparr>st_nodes := update_where (\<lambda>n. gn_id n \<in> E) reset_row (st_nodes st1)\<rparr>"
  define st3 where "st3 = st2\<lparr>st_orgs := update_where (\<lambda>x. ou_id x = org)
     (\<lambda>x. x\<lparr>ou_status := ''pending''\<rparr>) (st_orgs st2)\<rparr>"
  have "store_inv st1" unfolding st1_def by (rule store_inv_delete_nodes [OF assms(1)])
  then have "store_inv st2" unfolding st2_def
    by (rule store_inv_update_nodes) (simp_all add: reset_row_def)
  then have inv3: "store_inv st3" unfolding st3_def
    by (rule store_inv_update_orgs) simp_all
  have "st' = st3\<lparr>st_cache := st_cache st'\<rparr>"
    using assms(2)
    by (auto simp: reset_org_unit_subtree_def Let_def st1_def st2_def st3_def D_def E_def)
  moreover have "distinct (map pc_url (st_cache st'))"
    using assms by (auto simp: reset_org_unit_subtree_def Let_def store_inv_def distinct_delete_where)
  moreover have "store_inv (st3\<lparr>st_cache := c\<rparr>)" if "distinct (map pc_url c)" for c
    using inv3 that by (simp add: store_inv_def)
  ultimately show ?thesis by metis
qed

lemma reset_bad_detail_snapshots_keeps:
  assumes "store_inv st" "reset_bad_detail_snapshots st = Inr (st', x)"
  shows "store_inv st'"
proof (cases "bad_detail_rows st = []")
  case False
  then obtain P Q where
    "st' = (st\<lparr>st_nodes := update_where P reset_row (st_nodes st)\<rparr>)\<lparr>st_cache := delete_where Q (st_cache st)\<rparr>"
    using assms(2) by (auto simp: reset_bad_detail_snapshots_def Let_def)
  moreover have "store_inv (st\<lparr>st_nodes := update_where P reset_row (st_nodes st)\<rparr>)"
    by (rule store_inv_update_nodes [OF assms(1)]) (simp_all add: reset_row_def)
  ultimately show ?thesis using store_inv_delete_cache
    [of "st\<lparr>st_nodes := update_where P reset_row (st_nodes st)\<rparr>" Q] by simp
qed (use assms in \<open>simp add: reset_bad_detail_snapshots_def\<close>)

lemma reconcile_keeps: "store_inv st \<Longrightarrow> store_inv (reconcile st)"
proof -
  assume inv: "store_inv st"
  let ?s1 = "st\<lparr>st_nodes := update_where (\<lambda>n. gn_status n = In_progress) (\<lambda>n. n\<lparr>gn_status := Retry\<rparr>) (st_nodes st)\<rparr>"
  let ?s2 = "?s1\<lparr>st_orgs := update_where (\<lambda>x. ou_status x = ''in_progress'')
    (\<lambda>x. x\<lparr>ou_status := ''pending''\<rparr>) (st_orgs ?s1)\<rparr>"
  have "store_inv ?s1" by (rule store_inv_update_nodes [OF inv]) simp_all
  then have "store_inv ?s2" by (rule store_inv_update_orgs) simp_all
  then have "store_inv (?s2\<lparr>st_attempts := update_where (\<lambda>a. ea_status a = ''running'')
    (\<lambda>a. a\<lparr>ea_status := ''retry''\<rparr>) (st_attempts ?s2)\<rparr>)"
    by (rule store_inv_update_attempts) simp_all
  then show ?thesis by (simp add: reconcile_def)
qed

lemma fresh_store_inv: "store_inv (fresh_store name url abbr)"
  by (simp add: fresh_store_def empty_store_def inv_defs)

interpretation org_cmd: writer_command "upsert_org_unit spec" for spec
  by unfold_locales (rule upsert_org_unit_keeps)

interpretation node_cmd: writer_command "upsert_node spec" for spec
  by unfold_locales (rule upsert_node_keeps)

interpretation edge_cmd: writer_command "add_edge a b ty c md" for a b ty c md
  by unfold_locales (rule add_edge_keeps)

interpretation mark_cmd: writer_command "mark_node now i s le ch nr inc" for now i s le ch nr inc
  by unfold_locales (rule mark_node_keeps)

interpretation claim_cmd: writer_command "claim_next r ks ts now os" for r ks ts now os
  by unfold_locales (rule claim_next_keeps)

interpretation cache_cmd: writer_command "save_page_cache p" for p
  by unfold_locales (rule save_page_cache_keeps)

interpretation subtree_cmd: writer_command "reset_org_unit_subtree org" for org
  by unfold_locales (rule reset_org_unit_subtree_keeps)

section \<open>Keyed upserts\<close>

text \<open>The contract shared by the three insert-or-update commands of the graph: the key of the
  input occurs exactly once afterwards and no other key appears or disappears.\<close>

locale keyed_upsert =
  fixes op :: "'s \<Rightarrow> 'a command" and key :: "'s \<Rightarrow> 'k" and keys :: "store \<Rightarrow> 'k list"
  assumes uniq: "store_inv st \<Longrightarrow> distinct (keys st)"
    and inv: "store_inv st \<Longrightarrow> op s st = Inr (st', a) \<Longrightarrow> store_inv st'"
    and hit: "op s st = Inr (st', a) \<Longrightarrow> key s \<in> set (keys st) \<Longrightarrow> keys st' = keys st"
    and miss: "op s st = Inr (st', a) \<Longrightarrow> key s \<notin> set (keys st) \<Longrightarrow> keys st' = keys st @ [key s]"
begin

lemma keys_after: "op s st = Inr (st', a) \<Longrightarrow> set (keys st') = insert (key s) (set (keys st))"
  by (cases "key s \<in> set (keys st)") (auto simp: hit miss)

lemma repeat_adds_nothing:
  "op s st = Inr (st1, a) \<Longrightarrow> key s' = key s \<Longrightarrow> op s' st1 = Inr (st2, b) \<Longrightarrow> keys st2 = keys st1"
  using keys_after hit by (metis insertI1)

primrec run_all :: "'s list \<Rightarrow> store \<Rightarrow> store" where
  "run_all [] st = st"
| "run_all (s # ss) st = run_all ss (snd (run_command (op s) st))"

lemma run_all_inv: "store_inv st \<Longrightarrow> store_inv (run_all ss st)"
proof (induction ss arbitrary: st)
  case (Cons s ss)
  have "store_inv (snd (run_command (op s) st))"
    using Cons.prems by (auto simp: run_command_def split: sum.split intro: inv)
  then show ?case by (simp add: Cons.IH)
qed simp

lemma run_all_keys:
  assumes "store_inv st"
    and "\<And>s st. s \<in> set ss \<Longrightarrow> store_inv st \<Longrightarrow> \<exists>r. op s st = Inr r"
  shows "set (keys (run_all ss st)) = set (keys st) \<union> key ` set ss"
  using assms
proof (induction ss arbitrary: st)
  case (Cons s ss)
  obtain st' a where op: "op s st = Inr (st', a)" using Cons.prems by (metis list.set_intros(1) surj_pair)
  moreover have "store_inv st'" using inv [OF Cons.prems(1) op] .
  ultimately have "set (keys (run_all ss st')) = set (keys st') \<union> key ` set ss"
    using Cons by simp
  with op keys_after [OF op] show ?case by (simp add: run_command_def)
qed simp

lemma run_all_count:
  assumes "store_inv st"
    and "\<And>s st. s \<in> set ss \<Longrightarrow> store_inv st \<Longrightarrow> \<exists>r. op s st = Inr r"
  shows "length (keys (run_all ss st)) = card (set (keys st) \<union> key ` set ss)"
  using uniq [OF run_all_inv [OF assms(1)]] run_all_keys [OF assms] distinct_card by metis

end

lemma store_inv_keys:
  assumes "store_inv st"
  shows "distinct (map gn_id (st_nodes st))" "distinct (map gn_node_key (st_nodes st))"
    "distinct (map edge_triple (st_edges st))" "distinct (map pc_url (st_cache st))"
    "distinct (map ou_id (st_orgs st))" "distinct (map ou_url (st_orgs st))"
  using assms by (simp_all add: inv_defs)

lemma map_keys_upsert_hit:
  "k \<in> set (map g rows) \<Longrightarrow> \<exists>r. find (\<lambda>x. g x = k) rows = Some r"
  by (cases "find (\<lambda>x. g x = k) rows") (auto simp: find_None_iff)

lemma map_keys_upsert_miss:
  "k \<notin> set (map g rows) \<Longrightarrow> find (\<lambda>x. g x = k) rows = None"
  by (auto simp: find_None_iff)

interpretation node_ups: keyed_upsert upsert_node ns_node_key "\<lambda>st. map gn_node_key (st_nodes st)"
proof
  fix s st st' a
  assume op: "upsert_node s st = Inr (st', a)"
  show "map gn_node_key (st_nodes st') = map gn_node_key (st_nodes st)"
    if "ns_node_key s \<in> set (map gn_node_key (st_nodes st))"
    using map_keys_upsert_hit [OF that] op
    by (auto simp: upsert_node_def map_update_where rediscover_def split: if_splits)
  show "map gn_node_key (st_nodes st') = map gn_node_key (st_nodes st) @ [ns_node_key s]"
    if "ns_node_key s \<notin> set (map gn_node_key (st_nodes st))"
    using map_keys_upsert_miss [OF that] op
    by (auto simp: upsert_node_def Let_def new_node_def split: if_splits)
qed (auto intro: upsert_node_keeps store_inv_keys)

interpretation edge_ups: keyed_upsert "\<lambda>(a, b, ty, c, md). add_edge a b ty c md"
  "\<lambda>(a, b, ty, c, md). (a, b, ty)" "\<lambda>st. map edge_triple (st_edges st)"
proof
  fix s :: "nat \<times> nat \<times> edge_type \<times> rat option \<times> metadata option" and st st' and i :: nat
  obtain a b ty c md where s: "s = (a, b, ty, c, md)" by (metis surj_pair)
  assume op: "(case s of (a, b, ty, c, md) \<Rightarrow> add_edge a b ty c md) st = Inr (st', i)"
  have eq: "(\<lambda>e. ge_from e = a \<and> ge_to e = b \<and> ge_type e = ty) = (\<lambda>e. edge_triple e = (a, b, ty))"
    by (auto simp: edge_triple_def)
  have new: "edge_triple \<lparr>ge_id = j, ge_from = x, ge_to = y, ge_type = t, ge_confidence = q,
      ge_metadata = m\<rparr> = (x, y, t)" for j x y t q m
    by (simp add: edge_triple_def)
  show "map edge_triple (st_edges st') = map edge_triple (st_edges st)"
    if "(case s of (a, b, ty, c, md) \<Rightarrow> (a, b, ty)) \<in> set (map edge_triple (st_edges st))"
    using map_keys_upsert_hit [of "(a, b, ty)" edge_triple "st_edges st"] that op
    by (auto simp: s add_edge_def eq)
  show "map edge_triple (st_edges st') = map edge_triple (st_edges st) @
      [case s of (a, b, ty, c, md) \<Rightarrow> (a, b, ty)]"
    if "(case s of (a, b, ty, c, md) \<Rightarrow> (a, b, ty)) \<notin> set (map edge_triple (st_edges st))"
    using map_keys_upsert_miss [of "(a, b, ty)" edge_triple "st_edges st"] that op
    by (auto simp: s add_edge_def eq Let_def new split: if_splits)
  show "store_inv st'" if "store_inv st" using op that by (auto simp: s intro: add_edge_keeps)
qed (auto intro: store_inv_keys)

interpretation cache_ups: keyed_upsert save_page_cache pc_url "\<lambda>st. map pc_url (st_cache st)"
proof
  fix p st st' a
  assume op: "save_page_cache p st = Inr (st', a)"
  show "map pc_url (st_cache st') = map pc_url (st_cache st)"
    if "pc_url p \<in> set (map pc_url (st_cache st))"
    using map_keys_upsert_hit [OF that] op
    by (auto simp: save_page_cache_def update_where_def)
  show "map pc_url (st_cache st') = map pc_url (st_cache st) @ [pc_url p]"
    if "pc_url p \<notin> set (map pc_url (st_cache st))"
    using map_keys_upsert_miss [OF that] op by (auto simp: save_page_cache_def)
qed (auto intro: save_page_cache_keeps store_inv_keys)

section \<open>Claiming\<close>

lemma sort_key_hd:
  assumes "sort_key f xs = n # r"
  shows "n \<in> set xs \<and> (\<forall>m \<in> set xs. f n \<le> f m)"
proof -
  have "sorted (map f (n # r))" by (metis assms sorted_sort_key)
  moreover have "set xs = set (n # r)" by (metis assms set_sort)
  ultimately show ?thesis by auto
qed

lemma sort_key_empty: "sort_key f xs = [] \<longleftrightarrow> xs = []"
  by (metis length_0_conv length_sort)

lemma claim_next_total: "\<exists>st' r. claim_next run ks ts now os st = Inr (st', r)"
  by (auto simp: claim_next_def split: list.split)

lemma claim_next_cases:
  assumes "claim_next run ks ts now os st = Inr (st', r)"
  obtains
    (none) "r = None" "st' = st" "\<forall>n \<in> set (st_nodes st). \<not> claimable now ks ts os n"
  | (some) n where "n \<in> set (st_nodes st)" "claimable now ks ts os n"
      "r = Some (detach (claim_row run now n))"
      "st' = st\<lparr>st_nodes := update_where (\<lambda>m. gn_id m = gn_id n) (claim_row run now) (st_nodes st)\<rparr>"
      "\<forall>m \<in> set (st_nodes st). claimable now ks ts os m \<longrightarrow>
         (- gn_priority_score n, gn_id n) \<le> (- gn_priority_score m, gn_id m)"
proof (cases "sort_key (\<lambda>n. (- gn_priority_score n, gn_id n)) (filter (claimable now ks ts os) (st_nodes st))")
  case Nil
  then have "filter (claimable now ks ts os) (st_nodes st) = []" by (simp add: sort_key_empty)
  with Nil assms show thesis by (intro none) (auto simp: claim_next_def filter_empty_conv)
next
  case (Cons n rest)
  with assms sort_key_hd [OF Cons] show thesis by (intro some [of n]) (auto simp: claim_next_def)
qed

text \<open>Attempts left to a node; the claims a frontier can still hand out.\<close>

definition attempts_left :: "graph_node \<Rightarrow> nat" where
  "attempts_left n = nat (gn_max_attempts n - gn_attempt_count n)"

definition frontier_budget :: "store \<Rightarrow> nat" where
  "frontier_budget st = sum_list (map attempts_left (st_nodes st))"

lemma sum_list_update_one:
  fixes w :: "'r \<Rightarrow> nat"
  assumes "distinct (map rid rows)" "n \<in> set rows"
  shows "sum_list (map w (update_where (\<lambda>m. rid m = rid n) f rows)) + w n = sum_list (map w rows) + w (f n)"
  using assms
proof (induction rows)
  case (Cons x rows)
  show ?case
  proof (cases "rid x = rid n")
    case True
    with Cons.prems have x: "x = n" by (auto simp: rev_image_eqI)
    have "update_where (\<lambda>m. rid m = rid n) f rows = rows"
      using Cons.prems(1) x unfolding update_where_def
      by (intro map_idI) (metis distinct.simps(2) image_eqI list.simps(9) set_map)
    with x show ?thesis by (simp add: update_where_Cons)
  next
    case False
    with Cons show ?thesis by (auto simp: update_where_Cons)
  qed
qed simp

lemma claim_next_spends:
  assumes "store_inv st" "claim_next run ks ts now os st = Inr (st', Some c)"
  shows "frontier_budget st = Suc (frontier_budget st')"
  using assms(2)
proof (cases rule: claim_next_cases)
  case (some n)
  have d: "distinct (map gn_id (st_nodes st))" using assms(1) by (simp add: inv_defs)
  have "gn_attempt_count n < gn_max_attempts n" using some(2) by (simp add: claimable_def)
  then have "attempts_left n = Suc (attempts_left (claim_row run now n))"
    unfolding attempts_left_def claim_row_def by simp
  with some sum_list_update_one [OF d some(1), of attempts_left "claim_row run now"]
  show ?thesis by (simp add: frontier_budget_def)
qed simp

lemma update_where_others:
  assumes "\<And>x. P x \<Longrightarrow> \<not> Q x" "\<And>x. P x \<Longrightarrow> \<not> Q (f x)"
  shows "filter Q (update_where P f rows) = filter Q rows"
  using assms by (induction rows) (auto simp: update_where_def)

lemma mem_update_at:
  "n \<in> set rows \<Longrightarrow> f n \<in> set (update_where (\<lambda>m. rid m = rid n) f rows)"
  by (force simp: update_where_def)

lemma row_unique:
  "distinct (map rid rows) \<Longrightarrow> x \<in> set rows \<Longrightarrow> y \<in> set rows \<Longrightarrow> rid x = rid y \<Longrightarrow> x = y"
  by (auto simp: distinct_map dest: inj_onD)

lemma claimed_key_le:
  "(- p, i) \<le> (- q, j) \<longleftrightarrow> q < p \<or> q = p \<and> i \<le> (j :: nat)" for p q :: rat
  by (auto simp: less_eq_prod_def)

lemma claim_row_simps [simp]:
  "gn_id (claim_row run now n) = gn_id n" "gn_status (claim_row run now n) = In_progress"
  "gn_attempt_count (claim_row run now n) = gn_attempt_count n + 1"
  "gn_run_id (claim_row run now n) = Some run"
  by (simp_all add: claim_row_def)

lemma detach_simps [simp]:
  "cn_id (detach n) = gn_id n" "cn_attempt_count (detach n) = gn_attempt_count n"
  "cn_type (detach n) = gn_type n" "cn_url (detach n) = gn_url n"
  by (simp_all add: detach_def)

text \<open>
  C4: \<open>claim_next\<close> hands out a claimable node of the highest priority score, the smallest id
  among equals; the attempt it starts is counted and stays within \<open>max_attempts\<close>; the row is
  in progress for the claiming run, every other row is as before, and the frontier has exactly
  one attempt less to hand out.
\<close>

theorem claim_next_picks_best:
  assumes "store_inv st" and "claim_next run ks ts now orgs st = Inr (st', Some c)"
  shows "\<exists>n \<in> set (st_nodes st).
     cn_id c = gn_id n \<and> claimable now ks ts orgs n \<and>
     cn_attempt_count c = gn_attempt_count n + 1 \<and> cn_attempt_count c \<le> gn_max_attempts n \<and>
     (\<forall>m \<in> set (st_nodes st). claimable now ks ts orgs m \<longrightarrow>
        gn_priority_score m < gn_priority_score n \<or>
        gn_priority_score m = gn_priority_score n \<and> gn_id n \<le> gn_id m) \<and>
     (\<forall>m \<in> set (st_nodes st'). gn_id m = gn_id n \<longrightarrow>
        gn_status m = In_progress \<and> gn_run_id m = Some run) \<and>
     filter (\<lambda>m. gn_id m \<noteq> gn_id n) (st_nodes st') = filter (\<lambda>m. gn_id m \<noteq> gn_id n) (st_nodes st) \<and>
     frontier_budget st = Suc (frontier_budget st')"
  using assms(2)
proof (cases rule: claim_next_cases)
  case (some n)
  show ?thesis
  proof (intro bexI [OF _ some(1)] conjI)
    show "cn_id c = gn_id n" "cn_attempt_count c = gn_attempt_count n + 1" using some(3) by simp_all
    show "cn_attempt_count c \<le> gn_max_attempts n" using some(2,3) by (simp add: claimable_def)
    show "claimable now ks ts orgs n" by (fact some(2))
    show "\<forall>m \<in> set (st_nodes st). claimable now ks ts orgs m \<longrightarrow>
        gn_priority_score m < gn_priority_score n \<or>
        gn_priority_score m = gn_priority_score n \<and> gn_id n \<le> gn_id m"
      using some(5) by (auto simp: claimed_key_le order_le_less)
    show "\<forall>m \<in> set (st_nodes st'). gn_id m = gn_id n \<longrightarrow>
        gn_status m = In_progress \<and> gn_run_id m = Some run"
      using some(4) by (auto elim!: mem_update_whereE)
    show "filter (\<lambda>m. gn_id m \<noteq> gn_id n) (st_nodes st') = filter (\<lambda>m. gn_id m \<noteq> gn_id n) (st_nodes st)"
      using some(4) by (simp add: update_where_others)
    show "frontier_budget st = Suc (frontier_budget st')" by (rule claim_next_spends [OF assms])
  qed
qed simp

subsection \<open>Re-discovery\<close>

lemma setdefault_keys: "fst ` set (dict_setdefault k v d) = insert k (fst ` set d)"
  by (auto simp: dict_setdefault_def)

lemma setdefault_present: "k \<in> fst ` set d \<Longrightarrow> dict_setdefault k v d = d"
  by (simp add: dict_setdefault_def)

lemma fold_setdefault_keys:
  "fst ` set (fold (\<lambda>(k, v) d. dict_setdefault k v d) items d) = fst ` set d \<union> fst ` set items"
  by (induction items arbitrary: d) (simp_all add: setdefault_keys split_beta)

lemma fold_setdefault_id:
  "fst ` set items \<subseteq> fst ` set d \<Longrightarrow> fold (\<lambda>(k, v) d. dict_setdefault k v d) items d = d"
  by (induction items) (simp_all add: setdefault_present split_beta)

lemma fold_setdefault_get:
  "dict_get d k = Some v \<Longrightarrow> dict_get (fold (\<lambda>(k, v) d. dict_setdefault k v d) items d) k = Some v"
proof (induction items arbitrary: d)
  case (Cons p items)
  then have "dict_get (dict_setdefault (fst p) (snd p) d) k = Some v"
    by (auto simp: dict_get_setdefault)
  with Cons.IH show ?case by (simp add: split_beta)
qed simp

lemma merge_missing_idem [simp]: "merge_missing (merge_missing old new) new = merge_missing old new"
proof -
  have "fst ` set items \<subseteq> fst ` set (fold (\<lambda>(k, v) d. dict_setdefault k v d) items d)"
    for items :: metadata and d
    by (auto simp: fold_setdefault_keys)
  then show ?thesis
    by (cases new) (simp_all add: merge_missing_def fold_setdefault_id)
qed

lemma merge_missing_keeps:
  "old = Some d \<Longrightarrow> dict_get d k = Some v \<Longrightarrow>
     \<exists>d'. merge_missing old new = Some d' \<and> dict_get d' k = Some v"
  by (cases new) (auto simp: merge_missing_def fold_setdefault_get)

lemma rediscover_idem [simp]: "rediscover spec (rediscover spec n) = rediscover spec n"
  by (simp add: rediscover_def)

lemma rediscover_simps [simp]:
  "gn_id (rediscover spec n) = gn_id n" "gn_node_key (rediscover spec n) = gn_node_key n"
  by (simp_all add: rediscover_def)

lemma org_ref_ok_nodes [simp]: "org_ref_ok (st\<lparr>st_nodes := x\<rparr>) r = org_ref_ok st r"
  by (simp add: org_ref_ok_def org_exists_def cong: option.case_cong)

lemma update_where_idem:
  assumes "\<And>x. f (f x) = f x" "\<And>x. P (f x) = P x"
  shows "update_where P f (update_where P f rows) = update_where P f rows"
  using assms by (auto simp: update_where_def)

lemma find_update_where:
  assumes "\<And>x. Q (f x) = Q x"
  shows "find Q (update_where P f rows) = map_option (\<lambda>x. if P x then f x else x) (find Q rows)"
  using assms by (induction rows) (auto simp: update_where_def)

text \<open>
  Re-discovering a node key updates the one existing row: its id, status, attempt count,
  type and URL stay, its priority never drops, metadata already present wins, a missing
  org unit is filled in; no other row changes, and discovering it once more changes nothing.
\<close>

theorem upsert_node_rediscovery:
  assumes "store_inv st" and "n \<in> set (st_nodes st)" and "gn_node_key n = ns_node_key spec"
    and "upsert_node spec st = Inr (st', i)"
  shows "i = gn_id n \<and>
    (\<exists>n' \<in> set (st_nodes st'). gn_id n' = gn_id n \<and> gn_status n' = gn_status n \<and>
       gn_attempt_count n' = gn_attempt_count n \<and> gn_type n' = gn_type n \<and> gn_url n' = gn_url n \<and>
       gn_priority_score n' = max (gn_priority_score n) (ns_priority_score spec) \<and>
       (\<forall>d k v. gn_metadata n = Some d \<and> dict_get d k = Some v \<longrightarrow>
          (\<exists>d'. gn_metadata n' = Some d' \<and> dict_get d' k = Some v)) \<and>
       gn_org_unit_id n' = (if gn_org_unit_id n = None then ns_org_unit_id spec else gn_org_unit_id n)) \<and>
    filter (\<lambda>m. gn_id m \<noteq> gn_id n) (st_nodes st') = filter (\<lambda>m. gn_id m \<noteq> gn_id n) (st_nodes st) \<and>
    upsert_node spec st' = Inr (st', i)"
proof -
  from assms(1,2) have f: "find (\<lambda>m. gn_node_key m = ns_node_key spec) (st_nodes st) = Some n"
    using find_unique [of gn_node_key "st_nodes st" n] by (simp add: store_inv_keys assms(3))
  from assms(4) f have ref: "org_ref_ok st (gn_org_unit_id (rediscover spec n))" and i: "i = gn_id n"
    and st': "st' = st\<lparr>st_nodes := update_where (\<lambda>m. gn_id m = gn_id n) (rediscover spec) (st_nodes st)\<rparr>"
    by (auto simp: upsert_node_def split: if_splits)
  have "rediscover spec n \<in> set (st_nodes st')" using assms(2) by (simp add: st' mem_update_at)
  moreover have "upsert_node spec st' = Inr (st', i)"
    using f ref
    by (simp add: upsert_node_def st' find_update_where i update_where_idem)
  moreover have "filter (\<lambda>m. gn_id m \<noteq> gn_id n) (st_nodes st') =
      filter (\<lambda>m. gn_id m \<noteq> gn_id n) (st_nodes st)"
    by (simp add: st' update_where_others)
  ultimately show ?thesis
    by (intro conjI bexI [of _ "rediscover spec n"])
      (auto simp: i rediscover_def intro: merge_missing_keeps)
qed

subsection \<open>Reset and crash recovery\<close>

lemma reset_row_simps [simp]:
  "gn_id (reset_row n) = gn_id n" "gn_type (reset_row n) = gn_type n"
  "gn_org_unit_id (reset_row n) = gn_org_unit_id n" "gn_status (reset_row n) = Pending"
  "gn_attempt_count (reset_row n) = 0"
  by (simp_all add: reset_row_def)

lemma filter_map_filter:
  assumes "\<And>x. Q x \<Longrightarrow> R x \<and> f x = x" "\<And>x. \<not> Q x \<Longrightarrow> R x \<Longrightarrow> \<not> Q (f x)"
  shows "filter Q (map f (filter R xs)) = filter Q xs"
proof (induction xs)
  case (Cons x xs)
  with assms [of x] show ?case by (cases "Q x"; cases "R x") auto
qed simp

lemma mem_ids_filter:
  assumes "distinct (map rid rows)" "n \<in> set rows"
  shows "rid n \<in> rid ` {x \<in> set rows. P x} \<longleftrightarrow> P n"
  using assms by (auto dest: row_unique)

lemma reset_org_unit_subtree_nodes:
  assumes "store_inv st" "reset_org_unit_subtree org st = Inr (st', c)"
  shows "st_nodes st' = map (\<lambda>n. if reset_entrypoint org n then reset_row n else n)
            (filter (\<lambda>n. \<not> reset_deletable org n) (st_nodes st))"
proof -
  have d: "distinct (map gn_id (st_nodes st))" by (rule store_inv_keys(1) [OF assms(1)])
  have "st_nodes st' = update_where (\<lambda>n. gn_id n \<in> gn_id ` {x \<in> set (st_nodes st). reset_entrypoint org x})
      reset_row (delete_where (\<lambda>n. gn_id n \<in> gn_id ` {x \<in> set (st_nodes st). reset_deletable org x}) (st_nodes st))"
    using assms(2) by (auto simp: reset_org_unit_subtree_def Let_def)
  also have "delete_where (\<lambda>n. gn_id n \<in> gn_id ` {x \<in> set (st_nodes st). reset_deletable org x}) (st_nodes st) =
      filter (\<lambda>n. \<not> reset_deletable org n) (st_nodes st)"
    unfolding delete_where_def by (rule filter_cong) (simp_all add: mem_ids_filter [OF d])
  finally show ?thesis
    by (auto simp: update_where_def mem_ids_filter [OF d])
qed

text \<open>
  Resetting an org unit removes its detail, follow-up and pagination nodes, puts its entry
  points back to pending with no attempts used, leaves every node of other org units as it was,
  keeps exactly the edges and extraction attempts between surviving nodes, and reports the
  number of nodes it removed.
\<close>

theorem reset_org_unit_subtree_correct:
  assumes "store_inv st" and "reset_org_unit_subtree org st = Inr (st', c)"
  shows "(\<forall>n \<in> set (st_nodes st'). gn_org_unit_id n = Some org \<longrightarrow>
            gn_type n \<notin> {Detail_url, Faculty_followup_url, Pagination_url} \<and>
            (gn_type n \<in> {Org_unit, Faculty_list_url} \<longrightarrow> gn_status n = Pending \<and> gn_attempt_count n = 0)) \<and>
    filter (\<lambda>n. gn_org_unit_id n \<noteq> Some org) (st_nodes st') =
      filter (\<lambda>n. gn_org_unit_id n \<noteq> Some org) (st_nodes st) \<and>
    st_edges st' = filter (\<lambda>e. node_exists st' (ge_from e) \<and> node_exists st' (ge_to e)) (st_edges st) \<and>
    st_attempts st' = filter (\<lambda>a. node_exists st' (ea_graph_node_id a)) (st_attempts st) \<and>
    rc_nodes_deleted c + length (st_nodes st') = length (st_nodes st)"
proof (intro conjI)
  note nodes = reset_org_unit_subtree_nodes [OF assms]
  have d: "distinct (map gn_id (st_nodes st))" by (rule store_inv_keys(1) [OF assms(1)])
  show "\<forall>n \<in> set (st_nodes st'). gn_org_unit_id n = Some org \<longrightarrow>
            gn_type n \<notin> {Detail_url, Faculty_followup_url, Pagination_url} \<and>
            (gn_type n \<in> {Org_unit, Faculty_list_url} \<longrightarrow> gn_status n = Pending \<and> gn_attempt_count n = 0)"
    by (auto simp: nodes reset_deletable_def reset_entrypoint_def)
  show "filter (\<lambda>n. gn_org_unit_id n \<noteq> Some org) (st_nodes st') =
      filter (\<lambda>n. gn_org_unit_id n \<noteq> Some org) (st_nodes st)"
    unfolding nodes by (rule filter_map_filter) (auto simp: reset_deletable_def reset_entrypoint_def)
  have ex: "node_exists st' i \<longleftrightarrow> i \<in> gn_id ` set (st_nodes st) \<and>
      i \<notin> gn_id ` {x \<in> set (st_nodes st). reset_deletable org x}" for i
  proof -
    have "map gn_id (st_nodes st') = map gn_id (filter (\<lambda>n. \<not> reset_deletable org n) (st_nodes st))"
      by (simp add: nodes)
    then have "gn_id ` set (st_nodes st') = gn_id ` {x \<in> set (st_nodes st). \<not> reset_deletable org x}"
      by (metis set_filter set_map)
    then show ?thesis using d by (auto simp: node_exists_def dest: row_unique)
  qed
  have e: "st_edges st' = filter (\<lambda>e. \<not> (ge_from e \<in> gn_id ` {x \<in> set (st_nodes st). reset_deletable org x} \<or>
      ge_to e \<in> gn_id ` {x \<in> set (st_nodes st). reset_deletable org x})) (st_edges st)"
    and a: "st_attempts st' = filter (\<lambda>a. \<not> ea_graph_node_id a \<in> gn_id ` {x \<in> set (st_nodes st). reset_deletable org x}) (st_attempts st)"
    using assms(2) by (auto simp: reset_org_unit_subtree_def Let_def delete_where_def)
  show "st_edges st' = filter (\<lambda>e. node_exists st' (ge_from e) \<and> node_exists st' (ge_to e)) (st_edges st)"
    unfolding e using assms(1) by (intro filter_cong) (auto simp: ex inv_defs)
  show "st_attempts st' = filter (\<lambda>a. node_exists st' (ea_graph_node_id a)) (st_attempts st)"
    unfolding a using assms(1) by (intro filter_cong) (auto simp: ex inv_defs)
  have "rc_nodes_deleted c = length (filter (reset_deletable org) (st_nodes st))"
    using assms(2) by (auto simp: reset_org_unit_subtree_def Let_def)
  then show "rc_nodes_deleted c + length (st_nodes st') = length (st_nodes st)"
    by (simp add: nodes sum_length_filter_compl)
qed


subsection \<open>A concrete store\<close>

text \<open>Two colleges with an entry point each and a detail page, as the writer builds them.\<close>

definition demo_spec :: "string \<Rightarrow> node_type \<Rightarrow> nat \<Rightarrow> rat \<Rightarrow> node_spec" where
  "demo_spec k ty org p =
     \<lparr>ns_node_key = k, ns_type = ty, ns_url = ''https://u.edu/'' @ k, ns_org_unit_id = Some org,
      ns_org_unit_name = None, ns_status = Pending, ns_priority_score = p, ns_base_priority = p,
      ns_confidence = None, ns_depth = 1, ns_max_attempts = 3, ns_run_id = None,
      ns_metadata = Some [(''k'', JStr k)]\<rparr>"

definition demo_org :: "string \<Rightarrow> org_unit_spec" where
  "demo_org n = \<lparr>os_name = n, os_url = ''https://u.edu/'' @ n, os_kind = ''college'',
     os_status = ''pending'', os_discovered_from_url = None\<rparr>"

definition demo_store :: store where
  "demo_store =
     (let run = (\<lambda>c st. snd (run_command c st))
      in run (add_edge 1 3 Discovered_on_page None None)
         (run (upsert_node (demo_spec ''d1'' Detail_url 1 5))
         (run (upsert_node (demo_spec ''b'' Org_unit 2 5))
         (run (upsert_node (demo_spec ''a'' Org_unit 1 3))
         (run (upsert_org_unit (demo_org ''B''))
         (run (upsert_org_unit (demo_org ''A'')) (fresh_store ''U'' ''https://u.edu/'' ''u'')))))))"

lemma demo_store_inv: "store_inv demo_store"
  by code_simp

theorem claim_next_picks_best_witness:
  "\<exists>st' c. claim_next 7 [] [] ''2026'' [] demo_store = Inr (st', Some c) \<and> cn_id c = 2 \<and>
     frontier_budget demo_store = Suc (frontier_budget st')"
proof -
  have "case claim_next 7 [] [] ''2026'' [] demo_store of Inr (_, Some c) \<Rightarrow> cn_id c = 2 | _ \<Rightarrow> False"
    by code_simp
  then obtain st' c where c: "claim_next 7 [] [] ''2026'' [] demo_store = Inr (st', Some c)" "cn_id c = 2"
    by (auto split: sum.splits prod.splits option.splits)
  from claim_next_picks_best [OF demo_store_inv c(1)] c show ?thesis by blast
qed

theorem upsert_node_rediscovery_witness:
  "\<exists>st' i. upsert_node (demo_spec ''d1'' Detail_url 1 9) demo_store = Inr (st', i) \<and> i = 3 \<and>
     upsert_node (demo_spec ''d1'' Detail_url 1 9) st' = Inr (st', i)"
proof -
  have "case upsert_node (demo_spec ''d1'' Detail_url 1 9) demo_store of Inr (_, i) \<Rightarrow> i = 3 | _ \<Rightarrow> False"
    by code_simp
  then obtain st' where op: "upsert_node (demo_spec ''d1'' Detail_url 1 9) demo_store = Inr (st', 3)"
    by (auto split: sum.splits prod.splits)
  have "gn_node_key (st_nodes demo_store ! 2) = ns_node_key (demo_spec ''d1'' Detail_url 1 9)"
    and "2 < length (st_nodes demo_store)"
    by code_simp+
  then have "st_nodes demo_store ! 2 \<in> set (st_nodes demo_store)" by simp
  with upsert_node_rediscovery [OF demo_store_inv this _ op] \<open>gn_node_key _ = _\<close> op show ?thesis by blast
qed

theorem reset_org_unit_subtree_correct_witness:
  "\<exists>st' c. reset_org_unit_subtree 1 demo_store = Inr (st', c) \<and> rc_nodes_deleted c = 1 \<and>
     rc_nodes_deleted c + length (st_nodes st') = length (st_nodes demo_store)"
proof -
  have "case reset_org_unit_subtree 1 demo_store of Inr (_, c) \<Rightarrow> rc_nodes_deleted c = 1 | _ \<Rightarrow> False"
    by code_simp
  then obtain st' c where op: "reset_org_unit_subtree 1 demo_store = Inr (st', c)" "rc_nodes_deleted c = 1"
    by (auto split: sum.splits prod.splits)
  from reset_org_unit_subtree_correct [OF demo_store_inv op(1)] op show ?thesis by blast
qed

definition demo_claimed :: store where
  "demo_claimed = snd (run_command (claim_next 7 [] [] ''2026'' []) demo_store)"


end
