(* ===== verification/Dext_Dedup.thy ===== *)
theory Dext_Dedup
  imports Dext_Store
begin

text \<open>
  Deduplication, \<open>src/src/dext/storage/dedup.py\<close>: node keys, the name comparison key, and
  \<open>save_professors\<close> with its per-payload SAVEPOINT.

  The Unicode database is an argument (\<open>unidb\<close>): NFKC normalisation and case folding are its
  two functions, about which nothing is assumed. \<open>repr(p)[:500]\<close> of a payload, which only
  fills a diagnostic column, is the argument \<open>rp\<close>.
\<close>

record unidb =
  ud_nfkc :: "string \<Rightarrow> string"
  ud_casefold :: "string \<Rightarrow> string"

section \<open>Keys\<close>

datatype key_error = Key_value_error

definition node_key_for ::
    "node_type \<Rightarrow> string option \<Rightarrow> nat option \<Rightarrow> string option \<Rightarrow> (key_error, string) result" where
  "node_key_for ty normalized_url org_unit_id normalized_name =
     (if ty = Org_unit then
        (case org_unit_id of
           Some i \<Rightarrow> Inr (''org_unit:id:'' @ nat_str i)
         | None \<Rightarrow>
             (if truthy_str normalized_name then Inr (''org_unit:name:'' @ the normalized_name)
              else Inl Key_value_error))
      else if truthy_str normalized_url then Inr (''url:'' @ the normalized_url)
      else Inl Key_value_error)"

definition name_key :: "unidb \<Rightarrow> string \<Rightarrow> string" where
  "name_key u name = ud_casefold u (drop_tokens decorative_dots (ud_nfkc u (py_strip name)))"

text \<open>The two characters of the academician title, U+9662 U+58EB.\<close>

definition yuanshi :: string where
  "yuanshi = [CHR 0xE9, CHR 0x99, CHR 0xA2, CHR 0xE5, CHR 0xA3, CHR 0xAB]"

definition looks_like_academician :: "string option \<Rightarrow> bool" where
  "looks_like_academician title = (truthy_str title \<and> py_in yuanshi (the title))"

section \<open>Saving a batch\<close>

record save_result =
  sv_inserted :: nat
  sv_updated :: nat
  sv_affiliations_added :: nat
  sv_academicians :: nat
  sv_save_errors :: nat

definition zero_result :: save_result where
  "zero_result = \<lparr>sv_inserted = 0, sv_updated = 0, sv_affiliations_added = 0, sv_academicians = 0,
     sv_save_errors = 0\<rparr>"

definition fills :: "string option \<Rightarrow> string option \<Rightarrow> bool" where
  "fills cur new = (\<not> truthy_str cur \<and> truthy_str new)"

definition fill_field :: "string option \<Rightarrow> string option \<Rightarrow> string option" where
  "fill_field cur new = (if fills cur new then new else cur)"

definition merge_fill :: "professor \<Rightarrow> professor_payload \<Rightarrow> professor \<times> bool" where
  "merge_fill prof p =
     (prof\<lparr>pr_title := fill_field (pr_title prof) (pp_title p),
           pr_research_areas := fill_field (pr_research_areas prof) (pp_research_areas p),
           pr_email := fill_field (pr_email prof) (pp_email p),
           pr_phone := fill_field (pr_phone prof) (pp_phone p),
           pr_homepage := fill_field (pr_homepage prof) (pp_homepage p),
           pr_external_link := fill_field (pr_external_link prof) (pp_external_link p),
           pr_bio := fill_field (pr_bio prof) (pp_bio p),
           pr_enrollment_pref := fill_field (pr_enrollment_pref prof) (pp_enrollment_pref p),
           pr_publications := fill_field (pr_publications prof) (pp_publications p)\<rparr>,
      fills (pr_title prof) (pp_title p) \<or> fills (pr_research_areas prof) (pp_research_areas p) \<or>
      fills (pr_email prof) (pp_email p) \<or> fills (pr_phone prof) (pp_phone p) \<or>
      fills (pr_homepage prof) (pp_homepage p) \<or> fills (pr_external_link prof) (pp_external_link p) \<or>
      fills (pr_bio prof) (pp_bio p) \<or> fills (pr_enrollment_pref prof) (pp_enrollment_pref p) \<or>
      fills (pr_publications prof) (pp_publications p))"

definition ensure_affiliation ::
    "nat \<Rightarrow> nat \<Rightarrow> store \<times> save_result \<Rightarrow> (db_error, store \<times> save_result) result" where
  "ensure_affiliation professor_id org s =
     (let st = fst s; r = snd s
      in if \<exists>a \<in> set (st_affiliations st). af_professor_id a = professor_id \<and> af_org_unit_id a = org
         then Inr (st, r)
         else if org_exists st org \<and> professor_id \<in> pr_id ` set (st_professors st)
         then Inr (st\<lparr>st_affiliations := st_affiliations st @
                     [\<lparr>af_id = next_id af_id (st_affiliations st), af_professor_id = professor_id,
                       af_org_unit_id = org\<rparr>]\<rparr>,
                   r\<lparr>sv_affiliations_added := Suc (sv_affiliations_added r)\<rparr>)
         else Inl IntegrityError)"

text \<open>\<open>scalar_one_or_none\<close>: at most one row may match.\<close>

definition one_or_none :: "('r \<Rightarrow> bool) \<Rightarrow> 'r list \<Rightarrow> (db_error, 'r option) result" where
  "one_or_none P rows =
     (case filter P rows of [] \<Rightarrow> Inr None | [r] \<Rightarrow> Inr (Some r) | _ \<Rightarrow> Inl MultipleResultsFound)"

definition find_academician ::
    "store \<Rightarrow> professor_payload \<Rightarrow> string \<Rightarrow> nat \<Rightarrow> (db_error, academician option) result" where
  "find_academician st p nk org =
     (let rows = st_academicians st;
          by = (\<lambda>f v. one_or_none (\<lambda>a. ac_org_unit_id a = org \<and> f a = v) rows)
      in res_bind (one_or_none (\<lambda>a. ac_org_unit_id a = org \<and> ac_name_key a = nk) rows) (\<lambda>e1.
         res_bind (if e1 = None \<and> truthy_str (pp_homepage p) then by ac_homepage (pp_homepage p) else Inr e1) (\<lambda>e2.
         if e2 = None \<and> truthy_str (pp_external_link p) then by ac_external_link (pp_external_link p) else Inr e2)))"

definition save_academician ::
    "professor_payload \<Rightarrow> string \<Rightarrow> nat \<Rightarrow> store \<times> save_result \<Rightarrow> (db_error, store \<times> save_result) result" where
  "save_academician p nk org s =
     (let st = fst s; r = snd s
      in res_bind (find_academician st p nk org) (\<lambda>existing.
         case existing of
           Some e \<Rightarrow>
             Inr (st\<lparr>st_academicians := update_where (\<lambda>a. ac_id a = ac_id e)
                    (\<lambda>a. a\<lparr>ac_title := fill_field (ac_title a) (pp_title p),
                           ac_homepage := fill_field (ac_homepage a) (pp_homepage p),
                           ac_external_link := fill_field (ac_external_link a) (pp_external_link p)\<rparr>)
                    (st_academicians st)\<rparr>, r\<lparr>sv_updated := Suc (sv_updated r)\<rparr>)
         | None \<Rightarrow>
             (if org_exists st org \<and>
                 \<not> (\<exists>a \<in> set (st_academicians st). ac_org_unit_id a = org \<and>
                      (ac_name a = pp_name p \<or> ac_name_key a = nk))
              then Inr (st\<lparr>st_academicians := st_academicians st @
                     [\<lparr>ac_id = next_id ac_id (st_academicians st), ac_name = pp_name p, ac_name_key = nk,
                       ac_org_unit_id = org, ac_title = pp_title p, ac_homepage = pp_homepage p,
                       ac_external_link = pp_external_link p\<rparr>]\<rparr>,
                   r\<lparr>sv_academicians := Suc (sv_academicians r)\<rparr>)
              else Inl IntegrityError)))"

text \<open>The professors affiliated with a college, in the order of the affiliation rows the join
  scans.\<close>

definition affiliated :: "store \<Rightarrow> nat \<Rightarrow> professor list" where
  "affiliated st org =
     List.map_filter (\<lambda>a. find (\<lambda>x. pr_id x = af_professor_id a) (st_professors st))
       (filter (\<lambda>a. af_org_unit_id a = org) (st_affiliations st))"

definition or_find :: "'r option \<Rightarrow> bool \<Rightarrow> ('r \<Rightarrow> bool) \<Rightarrow> 'r list \<Rightarrow> 'r option" where
  "or_find m use P rows = (if m = None \<and> use then find P rows else m)"

definition find_match :: "unidb \<Rightarrow> store \<Rightarrow> nat \<Rightarrow> professor_payload \<Rightarrow> professor option" where
  "find_match u st org p =
     (let rows = st_professors st;
          m1 = find (\<lambda>c. name_key u (pr_name c) = name_key u (pp_name p)) (affiliated st org);
          m2 = or_find m1 (truthy_str (pp_email p)) (\<lambda>x. pr_email x = pp_email p) rows;
          m3 = or_find m2 (truthy_str (pp_homepage p)) (\<lambda>x. pr_homepage x = pp_homepage p) rows
      in or_find m3 (truthy_str (pp_external_link p)) (\<lambda>x. pr_external_link x = pp_external_link p) rows)"

definition new_professor :: "nat \<Rightarrow> string \<Rightarrow> professor_payload \<Rightarrow> professor" where
  "new_professor i org_unit_name p =
     \<lparr>pr_id = i, pr_name = pp_name p, pr_org_unit_name = Some org_unit_name, pr_title = pp_title p,
      pr_research_areas = pp_research_areas p, pr_email = pp_email p, pr_phone = pp_phone p,
      pr_homepage = pp_homepage p, pr_external_link = pp_external_link p, pr_bio = pp_bio p,
      pr_enrollment_pref = pp_enrollment_pref p, pr_publications = pp_publications p\<rparr>"

text \<open>The body of one SAVEPOINT.\<close>

definition save_one ::
    "unidb \<Rightarrow> nat \<Rightarrow> string \<Rightarrow> professor_payload \<Rightarrow> store \<times> save_result \<Rightarrow>
     (db_error, store \<times> save_result) result" where
  "save_one u org org_unit_name p s =
     (if looks_like_academician (pp_title p) then save_academician p (name_key u (pp_name p)) org s
      else
        (case find_match u (fst s) org p of
           Some m \<Rightarrow>
             res_bind (ensure_affiliation (pr_id m) org s) (\<lambda>s1.
               (let changed = snd (merge_fill m p)
                in if changed
                   then Inr ((fst s1)\<lparr>st_professors := update_where (\<lambda>x. pr_id x = pr_id m)
                              (\<lambda>x. fst (merge_fill x p)) (st_professors (fst s1))\<rparr>,
                             (snd s1)\<lparr>sv_updated := Suc (sv_updated (snd s1))\<rparr>)
                   else Inr s1))
         | None \<Rightarrow>
             (let i = next_id pr_id (st_professors (fst s));
                  st1 = (fst s)\<lparr>st_professors := st_professors (fst s) @ [new_professor i org_unit_name p]\<rparr>
              in res_bind (ensure_affiliation i org (st1, snd s)) (\<lambda>s1.
                   Inr (fst s1, (snd s1)\<lparr>sv_inserted := Suc (sv_inserted (snd s1))\<rparr>)))))"

text \<open>A payload whose SAVEPOINT fails is rolled back, counted and recorded.\<close>

definition save_failed ::
    "(professor_payload \<Rightarrow> string) \<Rightarrow> professor_payload \<Rightarrow> store \<times> save_result \<Rightarrow> store \<times> save_result" where
  "save_failed rp p s =
     (let st = fst s; r = snd s
      in (st\<lparr>st_failures := st_failures st @
             [\<lparr>ef_id = next_id ef_id (st_failures st), ef_failure_type = Some ''save_error'',
               ef_resolver = Some ''dropped'', ef_raw_arguments_preview = Some (rp p),
               ef_professor_name_hint = Some (pp_name p), ef_source_url = pp_homepage p\<rparr>]\<rparr>,
          r\<lparr>sv_save_errors := Suc (sv_save_errors r)\<rparr>))"

definition save_step ::
    "unidb \<Rightarrow> (professor_payload \<Rightarrow> string) \<Rightarrow> nat \<Rightarrow> string \<Rightarrow> professor_payload \<Rightarrow>
     store \<times> save_result \<Rightarrow> store \<times> save_result" where
  "save_step u rp org org_unit_name p s =
     (case save_one u org org_unit_name p s of Inr s' \<Rightarrow> s' | Inl _ \<Rightarrow> save_failed rp p s)"

definition save_professors ::
    "unidb \<Rightarrow> (professor_payload \<Rightarrow> string) \<Rightarrow> professor_payload list \<Rightarrow> nat \<Rightarrow> string \<Rightarrow>
     save_result command" where
  "save_professors u rp payloads org org_unit_name st =
     Inr (fold (save_step u rp org org_unit_name) payloads (st, zero_result))"

section \<open>Constraints\<close>

lemma merge_fill_id [simp]:
  "pr_id (fst (merge_fill x p)) = pr_id x" "pr_name (fst (merge_fill x p)) = pr_name x"
  by (simp_all add: merge_fill_def)

lemma people_ok_update_profs:
  assumes "\<And>x. pr_id (f x) = pr_id x"
  shows "people_ok orgs (update_where P f profs) acads affs = people_ok orgs profs acads affs"
  using assms by (simp add: people_ok_def map_update_where image_update_where)

lemma people_ok_update_acads:
  assumes "\<And>x. ac_id (f x) = ac_id x" "\<And>x. ac_name_key (f x) = ac_name_key x"
    "\<And>x. ac_name (f x) = ac_name x" "\<And>x. ac_org_unit_id (f x) = ac_org_unit_id x"
    and "people_ok orgs profs acads affs"
  shows "people_ok orgs profs (update_where P f acads) affs"
proof -
  have "\<forall>a \<in> set (update_where P f acads). ac_org_unit_id a \<in> orgs"
    using assms(4,5) by (auto simp: people_ok_def elim!: mem_update_whereE)
  with assms show ?thesis by (simp add: people_ok_def map_update_where)
qed

lemma people_ok_new_prof:
  "people_ok orgs profs acads affs \<Longrightarrow> pr_id x = next_id pr_id profs \<Longrightarrow>
     people_ok orgs (profs @ [x]) acads affs"
  using next_id_fresh [of pr_id profs] by (auto simp: people_ok_def)

lemma ensure_affiliation_inv:
  assumes "store_inv (fst s)" "ensure_affiliation i org s = Inr s'"
  shows "store_inv (fst s')"
proof (cases "\<exists>a \<in> set (st_affiliations (fst s)). af_professor_id a = i \<and> af_org_unit_id a = org")
  case True
  with assms show ?thesis by (auto simp: ensure_affiliation_def Let_def)
next
  case False
  then have "(i, org) \<notin> (\<lambda>a. (af_professor_id a, af_org_unit_id a)) ` set (st_affiliations (fst s))"
    by auto
  with False assms next_id_fresh [of af_id "st_affiliations (fst s)"] show ?thesis
    by (auto simp: ensure_affiliation_def Let_def store_inv_def people_ok_def org_exists_def
        split: if_splits)
qed

lemma save_academician_inv:
  assumes "store_inv (fst s)" "save_academician p nk org s = Inr s'"
  shows "store_inv (fst s')"
proof -
  obtain e where e: "find_academician (fst s) p nk org = Inr e"
    using assms(2) by (auto simp: save_academician_def Let_def elim: res_bind_InrE)
  show ?thesis
  proof (cases e)
    case (Some a)
    with e assms show ?thesis
      by (auto simp: save_academician_def Let_def store_inv_def intro!: people_ok_update_acads)
  next
    case None
    have "people_ok (ou_id ` set (st_orgs (fst s))) (st_professors (fst s))
        (st_academicians (fst s) @ [a]) (st_affiliations (fst s))"
      if "ac_id a = next_id ac_id (st_academicians (fst s))" "org_exists (fst s) (ac_org_unit_id a)"
        "\<forall>b \<in> set (st_academicians (fst s)). ac_org_unit_id b = ac_org_unit_id a \<longrightarrow>
           ac_name b \<noteq> ac_name a \<and> ac_name_key b \<noteq> ac_name_key a" for a
      using assms(1) that next_id_fresh [of ac_id "st_academicians (fst s)"]
      by (auto simp: store_inv_def people_ok_def org_exists_def)
    with None e assms show ?thesis
      by (auto simp: save_academician_def Let_def store_inv_def split: if_splits)
  qed
qed

lemma save_one_inv:
  assumes "store_inv (fst s)" "save_one u org nm p s = Inr s'"
  shows "store_inv (fst s')"
proof (cases "looks_like_academician (pp_title p)")
  case True
  with assms save_academician_inv show ?thesis by (simp add: save_one_def)
next
  case acad: False
  show ?thesis
  proof (cases "find_match u (fst s) org p")
    case (Some m)
    with acad assms(2) obtain s1 where s1: "ensure_affiliation (pr_id m) org s = Inr s1"
      and s': "s' = s1 \<or> fst s' = (fst s1)\<lparr>st_professors := update_where (\<lambda>x. pr_id x = pr_id m)
                   (\<lambda>x. fst (merge_fill x p)) (st_professors (fst s1))\<rparr>"
      by (auto simp: save_one_def Let_def elim!: res_bind_InrE split: if_splits)
    have "store_inv (fst s1)" by (rule ensure_affiliation_inv [OF assms(1) s1])
    with s' show ?thesis by (auto simp: store_inv_def people_ok_update_profs)
  next
    case None
    let ?i = "next_id pr_id (st_professors (fst s))"
    let ?st = "(fst s)\<lparr>st_professors := st_professors (fst s) @ [new_professor ?i nm p]\<rparr>"
    from None acad assms(2) obtain s1 where s1: "ensure_affiliation ?i org (?st, snd s) = Inr s1"
      and s': "fst s' = fst s1"
      by (auto simp: save_one_def Let_def elim!: res_bind_InrE)
    have "store_inv ?st"
      using assms(1) by (auto simp: store_inv_def new_professor_def intro!: people_ok_new_prof)
    with ensure_affiliation_inv [OF _ s1] s' show ?thesis by simp
  qed
qed

lemma save_step_inv:
  assumes "store_inv (fst s)"
  shows "store_inv (fst (save_step u rp org nm p s))"
proof (cases "save_one u org nm p s")
  case (Inl e)
  with assms next_id_fresh [of ef_id "st_failures (fst s)"] show ?thesis
    by (simp add: save_step_def save_failed_def Let_def store_inv_def)
next
  case (Inr s')
  with save_one_inv [OF assms Inr] show ?thesis by (simp add: save_step_def)
qed

lemma fold_save_inv:
  "store_inv (fst s) \<Longrightarrow> store_inv (fst (fold (save_step u rp org nm) ps s))"
proof (induction ps arbitrary: s)
  case (Cons p ps)
  from Cons.IH [OF save_step_inv [OF Cons.prems]] show ?case by simp
qed simp

lemma save_professors_keeps:
  "store_inv st \<Longrightarrow> save_professors u rp ps org nm st = Inr (st', r) \<Longrightarrow> store_inv st'"
  using fold_save_inv [of "(st, zero_result)" u rp org nm ps] by (simp add: save_professors_def)

interpretation people_cmd: writer_command "save_professors u rp ps org nm" for u rp ps org nm
  by unfold_locales (rule save_professors_keeps)

section \<open>Accounting\<close>

definition accounted :: "store \<times> save_result \<Rightarrow> store \<times> save_result \<Rightarrow> bool" where
  "accounted s s' =
     (length (st_professors (fst s')) + sv_inserted (snd s) = length (st_professors (fst s)) + sv_inserted (snd s') \<and>
      length (st_academicians (fst s')) + sv_academicians (snd s) =
        length (st_academicians (fst s)) + sv_academicians (snd s') \<and>
      length (st_affiliations (fst s')) + sv_affiliations_added (snd s) =
        length (st_affiliations (fst s)) + sv_affiliations_added (snd s') \<and>
      length (st_failures (fst s')) + sv_save_errors (snd s) =
        length (st_failures (fst s)) + sv_save_errors (snd s'))"

lemma accounted_trans: "accounted a b \<Longrightarrow> accounted b c \<Longrightarrow> accounted a c"
  by (simp add: accounted_def)

lemma ensure_affiliation_accounted: "ensure_affiliation i org s = Inr s' \<Longrightarrow> accounted s s'"
  by (auto simp: ensure_affiliation_def Let_def accounted_def split: if_splits)

lemma save_academician_accounted: "save_academician p nk org s = Inr s' \<Longrightarrow> accounted s s'"
  by (auto simp: save_academician_def Let_def accounted_def elim!: res_bind_InrE split: option.splits if_splits)

lemma save_one_accounted:
  assumes "save_one u org nm p s = Inr s'"
  shows "accounted s s'"
proof (cases "looks_like_academician (pp_title p)")
  case True
  with assms show ?thesis by (simp add: save_one_def save_academician_accounted)
next
  case acad: False
  show ?thesis
  proof (cases "find_match u (fst s) org p")
    case (Some m)
    with acad assms show ?thesis
      by (auto simp: save_one_def Let_def accounted_def elim!: res_bind_InrE
          dest!: ensure_affiliation_accounted split: if_splits)
  next
    case None
    with acad assms show ?thesis
      by (auto simp: save_one_def Let_def accounted_def elim!: res_bind_InrE
          dest!: ensure_affiliation_accounted)
  qed
qed

lemma save_step_accounted: "accounted s (save_step u rp org nm p s)"
  by (auto simp: save_step_def split: sum.split intro: save_one_accounted)
    (simp add: save_failed_def accounted_def Let_def)

lemma fold_save_accounted: "accounted s (fold (save_step u rp org nm) ps s)"
proof (induction ps arbitrary: s)
  case (Cons p ps)
  show ?case using accounted_trans [OF save_step_accounted Cons.IH] by simp
qed (simp add: accounted_def)

section \<open>Nothing saved is lost\<close>

definition keeps_field :: "string option \<Rightarrow> string option \<Rightarrow> bool" where
  "keeps_field old new = (truthy_str old \<longrightarrow> new = old)"

definition professor_grows :: "professor \<Rightarrow> professor \<Rightarrow> bool" where
  "professor_grows x y =
     (pr_id y = pr_id x \<and> pr_name y = pr_name x \<and>
      keeps_field (pr_title x) (pr_title y) \<and> keeps_field (pr_research_areas x) (pr_research_areas y) \<and>
      keeps_field (pr_email x) (pr_email y) \<and> keeps_field (pr_phone x) (pr_phone y) \<and>
      keeps_field (pr_homepage x) (pr_homepage y) \<and>
      keeps_field (pr_external_link x) (pr_external_link y) \<and> keeps_field (pr_bio x) (pr_bio y) \<and>
      keeps_field (pr_enrollment_pref x) (pr_enrollment_pref y) \<and>
      keeps_field (pr_publications x) (pr_publications y))"

definition academician_grows :: "academician \<Rightarrow> academician \<Rightarrow> bool" where
  "academician_grows x y =
     (ac_id y = ac_id x \<and> ac_name y = ac_name x \<and> ac_name_key y = ac_name_key x \<and>
      ac_org_unit_id y = ac_org_unit_id x \<and> keeps_field (ac_title x) (ac_title y) \<and>
      keeps_field (ac_homepage x) (ac_homepage y) \<and>
      keeps_field (ac_external_link x) (ac_external_link y))"

definition people_grow :: "store \<Rightarrow> store \<Rightarrow> bool" where
  "people_grow st st' =
     ((\<forall>x \<in> set (st_professors st). \<exists>y \<in> set (st_professors st'). professor_grows x y) \<and>
      (\<forall>x \<in> set (st_academicians st). \<exists>y \<in> set (st_academicians st'). academician_grows x y) \<and>
      set (st_affiliations st) \<subseteq> set (st_affiliations st'))"

lemma keeps_field_simps [simp]:
  "keeps_field a a" "keeps_field a (fill_field a b)"
  by (auto simp: keeps_field_def fill_field_def fills_def)

lemma keeps_field_trans: "keeps_field a b \<Longrightarrow> keeps_field b c \<Longrightarrow> keeps_field a c"
  by (auto simp: keeps_field_def)

lemma professor_grows_refl [simp]: "professor_grows x x"
  by (simp add: professor_grows_def)

lemma academician_grows_refl [simp]: "academician_grows x x"
  by (simp add: academician_grows_def)

lemma professor_self [intro]: "x \<in> A \<Longrightarrow> \<exists>y \<in> A. professor_grows x y"
  by (rule bexI [of _ x]) simp_all

lemma academician_self [intro]: "x \<in> A \<Longrightarrow> \<exists>y \<in> A. academician_grows x y"
  by (rule bexI [of _ x]) simp_all

lemma professor_grows_merge [simp]: "professor_grows x (fst (merge_fill x p))"
  by (simp add: professor_grows_def merge_fill_def)

lemma professor_grows_trans: "professor_grows x y \<Longrightarrow> professor_grows y z \<Longrightarrow> professor_grows x z"
  by (auto simp: professor_grows_def intro: keeps_field_trans)

lemma academician_grows_trans: "academician_grows x y \<Longrightarrow> academician_grows y z \<Longrightarrow> academician_grows x z"
  by (auto simp: academician_grows_def intro: keeps_field_trans)

lemma people_grow_refl [simp]: "people_grow st st"
  by (auto simp: people_grow_def)

lemma people_grow_trans:
  assumes "people_grow a b" "people_grow b c"
  shows "people_grow a c"
  unfolding people_grow_def
proof (intro conjI ballI)
  show "\<exists>z \<in> set (st_professors c). professor_grows x z" if "x \<in> set (st_professors a)" for x
    using assms that unfolding people_grow_def by (meson professor_grows_trans)
  show "\<exists>z \<in> set (st_academicians c). academician_grows x z" if "x \<in> set (st_academicians a)" for x
    using assms that unfolding people_grow_def by (meson academician_grows_trans)
  show "set (st_affiliations a) \<subseteq> set (st_affiliations c)"
    using assms unfolding people_grow_def by blast
qed

lemma grows_update_where:
  assumes "\<And>x. R x x" "\<And>x. R x (f x)" "x \<in> set rows"
  shows "\<exists>y \<in> set (update_where P f rows). R x y"
  using assms by (intro bexI [of _ "if P x then f x else x"]) (auto simp: update_where_def)

lemma ensure_affiliation_grows: "ensure_affiliation i org s = Inr s' \<Longrightarrow> people_grow (fst s) (fst s')"
  by (auto simp: ensure_affiliation_def Let_def people_grow_def split: if_splits)

lemma ensure_affiliation_pair:
  "ensure_affiliation i org s = Inr s' \<Longrightarrow>
     \<exists>a \<in> set (st_affiliations (fst s')). af_professor_id a = i \<and> af_org_unit_id a = org"
  by (auto simp: ensure_affiliation_def Let_def split: if_splits)

lemma ensure_affiliation_profs:
  "ensure_affiliation i org s = Inr s' \<Longrightarrow> st_professors (fst s') = st_professors (fst s)"
  by (auto simp: ensure_affiliation_def Let_def split: if_splits)

lemma save_academician_grows:
  assumes "save_academician p nk org s = Inr s'"
  shows "people_grow (fst s) (fst s')"
proof -
  obtain e where e: "find_academician (fst s) p nk org = Inr e"
    using assms by (auto simp: save_academician_def Let_def elim: res_bind_InrE)
  have up: "\<exists>y \<in> set (update_where P (\<lambda>a. a\<lparr>ac_title := fill_field (ac_title a) t,
      ac_homepage := fill_field (ac_homepage a) h, ac_external_link := fill_field (ac_external_link a) l\<rparr>)
      rows). academician_grows x y" if "x \<in> set rows" for P t h l rows x
    by (rule grows_update_where [OF _ _ that]) (simp_all add: academician_grows_def)
  show ?thesis
  proof (cases e)
    case (Some a)
    then show ?thesis using e assms
      by (auto simp: save_academician_def Let_def people_grow_def intro: up)
  next
    case None
    then show ?thesis using e assms
      by (auto simp: save_academician_def Let_def people_grow_def split: if_splits)
  qed
qed

lemma save_one_grows:
  assumes "save_one u org nm p s = Inr s'"
  shows "people_grow (fst s) (fst s')"
proof (cases "looks_like_academician (pp_title p)")
  case True
  with assms show ?thesis by (simp add: save_one_def save_academician_grows)
next
  case acad: False
  show ?thesis
  proof (cases "find_match u (fst s) org p")
    case (Some m)
    with acad assms obtain s1 where s1: "ensure_affiliation (pr_id m) org s = Inr s1"
      and s': "s' = s1 \<or> fst s' = (fst s1)\<lparr>st_professors := update_where (\<lambda>x. pr_id x = pr_id m)
                   (\<lambda>x. fst (merge_fill x p)) (st_professors (fst s1))\<rparr>"
      by (auto simp: save_one_def Let_def elim!: res_bind_InrE split: if_splits)
    have up: "\<exists>y \<in> set (update_where P (\<lambda>x. fst (merge_fill x p)) rows). professor_grows x y"
      if "x \<in> set rows" for P rows x
      by (rule grows_update_where [OF _ _ that]) simp_all
    have "people_grow (fst s1) (fst s')"
      using s' by (auto simp: people_grow_def intro: up)
    with ensure_affiliation_grows [OF s1] show ?thesis by (rule people_grow_trans)
  next
    case None
    let ?i = "next_id pr_id (st_professors (fst s))"
    let ?st = "(fst s)\<lparr>st_professors := st_professors (fst s) @ [new_professor ?i nm p]\<rparr>"
    from None acad assms obtain s1 where s1: "ensure_affiliation ?i org (?st, snd s) = Inr s1"
      and s': "fst s' = fst s1"
      by (auto simp: save_one_def Let_def elim!: res_bind_InrE)
    have "people_grow (fst s) ?st" by (auto simp: people_grow_def)
    with ensure_affiliation_grows [OF s1] s' show ?thesis by (auto intro: people_grow_trans)
  qed
qed

lemma save_step_grows: "people_grow (fst s) (fst (save_step u rp org nm p s))"
proof (cases "save_one u org nm p s")
  case (Inl e)
  then show ?thesis by (auto simp: save_step_def save_failed_def Let_def people_grow_def)
next
  case (Inr s')
  with save_one_grows [OF Inr] show ?thesis by (simp add: save_step_def)
qed

lemma fold_save_grows: "people_grow (fst s) (fst (fold (save_step u rp org nm) ps s))"
proof (induction ps arbitrary: s)
  case (Cons p ps)
  show ?case using people_grow_trans [OF save_step_grows Cons.IH] by simp
qed simp

section \<open>Saving again adds nobody\<close>

definition pair_in :: "store \<Rightarrow> nat \<Rightarrow> nat \<Rightarrow> bool" where
  "pair_in st i org = (\<exists>a \<in> set (st_affiliations st). af_professor_id a = i \<and> af_org_unit_id a = org)"

lemma find_id:
  assumes "store_inv st" "x \<in> set (st_professors st)"
  shows "find (\<lambda>y. pr_id y = pr_id x) (st_professors st) = Some x"
  using assms by (intro find_unique) (simp_all add: inv_defs)

lemma set_map_filter_iff: "y \<in> set (List.map_filter f xs) \<longleftrightarrow> (\<exists>x \<in> set xs. f x = Some y)"
  by (induction xs) (auto simp: map_filter_simps split: option.splits)

lemma mem_affiliated:
  assumes "store_inv st"
  shows "x \<in> set (affiliated st org) \<longleftrightarrow> x \<in> set (st_professors st) \<and> pair_in st (pr_id x) org"
proof
  assume "x \<in> set (affiliated st org)"
  then show "x \<in> set (st_professors st) \<and> pair_in st (pr_id x) org"
    by (auto simp: affiliated_def set_map_filter_iff pair_in_def dest!: find_in_set)
next
  assume "x \<in> set (st_professors st) \<and> pair_in st (pr_id x) org"
  then obtain a where "x \<in> set (st_professors st)" "a \<in> set (st_affiliations st)"
    "af_professor_id a = pr_id x" "af_org_unit_id a = org"
    by (auto simp: pair_in_def)
  with find_id [OF assms] show "x \<in> set (affiliated st org)"
    by (auto simp: affiliated_def set_map_filter_iff)
qed

definition has_match :: "unidb \<Rightarrow> store \<Rightarrow> nat \<Rightarrow> professor_payload \<Rightarrow> bool" where
  "has_match u st org p =
     (\<exists>x \<in> set (st_professors st).
        pair_in st (pr_id x) org \<and> name_key u (pr_name x) = name_key u (pp_name p) \<or>
        truthy_str (pp_email p) \<and> pr_email x = pp_email p \<or>
        truthy_str (pp_homepage p) \<and> pr_homepage x = pp_homepage p \<or>
        truthy_str (pp_external_link p) \<and> pr_external_link x = pp_external_link p)"

lemma or_find_None:
  "or_find m use P rows = None \<longleftrightarrow> m = None \<and> (use \<longrightarrow> (\<forall>x \<in> set rows. \<not> P x))"
  by (auto simp: or_find_def find_None_iff)

lemma find_match_None:
  assumes "store_inv st"
  shows "find_match u st org p = None \<longleftrightarrow> \<not> has_match u st org p"
  unfolding find_match_def Let_def or_find_None has_match_def
  by (auto simp: find_None_iff mem_affiliated [OF assms])

lemma has_match_grows:
  assumes "has_match u st org p" "people_grow st st'"
  shows "has_match u st' org p"
proof -
  from assms(1) obtain x where x: "x \<in> set (st_professors st)" and m:
      "pair_in st (pr_id x) org \<and> name_key u (pr_name x) = name_key u (pp_name p) \<or>
        truthy_str (pp_email p) \<and> pr_email x = pp_email p \<or>
        truthy_str (pp_homepage p) \<and> pr_homepage x = pp_homepage p \<or>
        truthy_str (pp_external_link p) \<and> pr_external_link x = pp_external_link p"
    unfolding has_match_def by blast
  from x assms(2) obtain y where y: "y \<in> set (st_professors st')" and g: "professor_grows x y"
    unfolding people_grow_def by blast
  have "pair_in st' (pr_id y) org" if "pair_in st (pr_id x) org"
    using that assms(2) g by (auto simp: pair_in_def people_grow_def professor_grows_def)
  moreover have "pr_name y = pr_name x"
    and "truthy_str (pp_email p) \<Longrightarrow> pr_email x = pp_email p \<Longrightarrow> pr_email y = pp_email p"
    and "truthy_str (pp_homepage p) \<Longrightarrow> pr_homepage x = pp_homepage p \<Longrightarrow> pr_homepage y = pp_homepage p"
    and "truthy_str (pp_external_link p) \<Longrightarrow> pr_external_link x = pp_external_link p \<Longrightarrow>
        pr_external_link y = pp_external_link p"
    using g by (simp_all add: professor_grows_def keeps_field_def)
  ultimately have "pair_in st' (pr_id y) org \<and> name_key u (pr_name y) = name_key u (pp_name p) \<or>
        truthy_str (pp_email p) \<and> pr_email y = pp_email p \<or>
        truthy_str (pp_homepage p) \<and> pr_homepage y = pp_homepage p \<or>
        truthy_str (pp_external_link p) \<and> pr_external_link y = pp_external_link p"
    using m by metis
  with y show ?thesis unfolding has_match_def by blast
qed

definition has_academician :: "unidb \<Rightarrow> store \<Rightarrow> nat \<Rightarrow> professor_payload \<Rightarrow> bool" where
  "has_academician u st org p =
     (\<exists>x \<in> set (st_academicians st). ac_org_unit_id x = org \<and>
        (ac_name_key x = name_key u (pp_name p) \<or>
         truthy_str (pp_homepage p) \<and> ac_homepage x = pp_homepage p \<or>
         truthy_str (pp_external_link p) \<and> ac_external_link x = pp_external_link p))"

lemma one_or_none_None: "one_or_none P rows = Inr None \<longleftrightarrow> (\<forall>r \<in> set rows. \<not> P r)"
proof -
  have "one_or_none P rows = Inr None \<longleftrightarrow> filter P rows = []"
    by (auto simp: one_or_none_def split: list.splits)
  then show ?thesis by (simp add: filter_empty_conv)
qed

lemma one_or_none_Some: "one_or_none P rows = Inr (Some r) \<Longrightarrow> r \<in> set rows \<and> P r"
proof -
  assume "one_or_none P rows = Inr (Some r)"
  then have "filter P rows = [r]" by (auto simp: one_or_none_def split: list.splits)
  then have "r \<in> set (filter P rows)" by simp
  then show ?thesis by simp
qed

lemma find_academician_None:
  "find_academician st p (name_key u (pp_name p)) org = Inr None \<Longrightarrow> \<not> has_academician u st org p"
  by (auto simp: find_academician_def Let_def has_academician_def one_or_none_None res_bind_eq_Inr
      split: if_splits)

lemma find_academician_Some:
  "find_academician st p (name_key u (pp_name p)) org = Inr (Some a) \<Longrightarrow> has_academician u st org p"
  by (auto simp: find_academician_def Let_def has_academician_def res_bind_eq_Inr one_or_none_None
      split: if_splits dest!: one_or_none_Some)

lemma has_academician_grows:
  assumes "has_academician u st org p" "people_grow st st'"
  shows "has_academician u st' org p"
proof -
  from assms(1) obtain x where x: "x \<in> set (st_academicians st)" "ac_org_unit_id x = org" and m:
      "ac_name_key x = name_key u (pp_name p) \<or>
         truthy_str (pp_homepage p) \<and> ac_homepage x = pp_homepage p \<or>
         truthy_str (pp_external_link p) \<and> ac_external_link x = pp_external_link p"
    unfolding has_academician_def by blast
  from x assms(2) obtain y where y: "y \<in> set (st_academicians st')" and g: "academician_grows x y"
    unfolding people_grow_def by blast
  with m x show ?thesis
    by (auto simp: has_academician_def academician_grows_def keeps_field_def intro!: bexI [OF _ y])
qed

definition known :: "unidb \<Rightarrow> store \<Rightarrow> nat \<Rightarrow> professor_payload \<Rightarrow> bool" where
  "known u st org p =
     (if looks_like_academician (pp_title p) then has_academician u st org p else has_match u st org p)"

lemma known_grows: "known u st org p \<Longrightarrow> people_grow st st' \<Longrightarrow> known u st' org p"
  by (auto simp: known_def intro: has_academician_grows has_match_grows split: if_splits)

lemma save_one_known:
  assumes "store_inv (fst s)" "save_one u org nm p s = Inr s'"
  shows "known u (fst s') org p"
proof (cases "looks_like_academician (pp_title p)")
  case True
  with assms(2) have sa: "save_academician p (name_key u (pp_name p)) org s = Inr s'"
    by (simp add: save_one_def)
  then obtain e where e: "find_academician (fst s) p (name_key u (pp_name p)) org = Inr e"
    by (auto simp: save_academician_def Let_def elim: res_bind_InrE)
  have "has_academician u (fst s') org p"
  proof (cases e)
    case (Some a)
    with e has_academician_grows [OF find_academician_Some save_academician_grows [OF sa]]
    show ?thesis by simp
  next
    case None
    with e sa show ?thesis
      by (auto simp: save_academician_def Let_def has_academician_def split: if_splits)
  qed
  with True show ?thesis by (simp add: known_def)
next
  case acad: False
  have "has_match u (fst s') org p"
  proof (cases "find_match u (fst s) org p")
    case (Some m)
    then have "has_match u (fst s) org p"
      using find_match_None [OF assms(1), of u org p] by auto
    with has_match_grows save_one_grows [OF assms(2)] show ?thesis by blast
  next
    case None
    let ?i = "next_id pr_id (st_professors (fst s))"
    let ?x = "new_professor ?i nm p"
    let ?st = "(fst s)\<lparr>st_professors := st_professors (fst s) @ [?x]\<rparr>"
    from None acad assms obtain s1 where s1: "ensure_affiliation ?i org (?st, snd s) = Inr s1"
      and s': "fst s' = fst s1"
      by (auto simp: save_one_def Let_def elim!: res_bind_InrE)
    from ensure_affiliation_pair [OF s1] ensure_affiliation_profs [OF s1] show ?thesis
      by (auto simp: s' has_match_def pair_in_def new_professor_def)
  qed
  with acad show ?thesis by (simp add: known_def)
qed

lemma save_step_known_adds_nobody:
  assumes "store_inv (fst s)" "known u (fst s) org p"
  shows "sv_inserted (snd (save_step u rp org nm p s)) = sv_inserted (snd s) \<and>
     sv_academicians (snd (save_step u rp org nm p s)) = sv_academicians (snd s)"
proof (cases "save_one u org nm p s")
  case (Inl e)
  then show ?thesis by (simp add: save_step_def save_failed_def Let_def)
next
  case (Inr s')
  show ?thesis
  proof (cases "looks_like_academician (pp_title p)")
    case True
    with assms(2) have "has_academician u (fst s) org p" by (simp add: known_def)
    then have "find_academician (fst s) p (name_key u (pp_name p)) org \<noteq> Inr None"
      using find_academician_None by blast
    with Inr True show ?thesis
      by (auto simp: save_step_def save_one_def save_academician_def Let_def elim!: res_bind_InrE
          split: option.splits)
  next
    case False
    with assms obtain m where "find_match u (fst s) org p = Some m"
      using find_match_None [OF assms(1), of u org p] by (auto simp: known_def)
    with Inr False show ?thesis
      by (auto simp: save_step_def save_one_def ensure_affiliation_def Let_def elim!: res_bind_InrE split: if_splits)
  qed
qed

lemma fold_save_known_adds_nobody:
  assumes "store_inv (fst s)" "\<forall>p \<in> set ps. known u (fst s) org p"
  shows "sv_inserted (snd (fold (save_step u rp org nm) ps s)) = sv_inserted (snd s) \<and>
     sv_academicians (snd (fold (save_step u rp org nm) ps s)) = sv_academicians (snd s)"
  using assms
proof (induction ps arbitrary: s)
  case (Cons p ps)
  have "\<forall>q \<in> set ps. known u (fst (save_step u rp org nm p s)) org q"
    using Cons.prems(2) known_grows [OF _ save_step_grows] by auto
  with Cons.IH [OF save_step_inv [OF Cons.prems(1)]] save_step_known_adds_nobody [OF Cons.prems(1)] Cons.prems(2)
  show ?case by simp
qed simp

lemma save_errors_mono: "sv_save_errors (snd s) \<le> sv_save_errors (snd (fold (save_step u rp org nm) ps s))"
  using fold_save_accounted [of s u rp org nm ps]
proof (induction ps arbitrary: s)
  case (Cons p ps)
  have "sv_save_errors (snd s) \<le> sv_save_errors (snd (save_step u rp org nm p s))"
  proof (cases "save_one u org nm p s")
    case (Inr s')
    have "length (st_failures (fst s')) = length (st_failures (fst s))"
      using Inr by (auto simp: save_one_def save_academician_def ensure_affiliation_def Let_def
          elim!: res_bind_InrE split: option.splits if_splits)
    with Inr save_one_accounted [OF Inr] show ?thesis by (simp add: save_step_def accounted_def)
  qed (simp add: save_step_def save_failed_def Let_def)
  with Cons.IH [OF fold_save_accounted, of "save_step u rp org nm p s"] show ?case by simp
qed simp

lemma fold_save_known:
  assumes "store_inv (fst s)" "sv_save_errors (snd (fold (save_step u rp org nm) ps s)) = 0" "p \<in> set ps"
  shows "known u (fst (fold (save_step u rp org nm) ps s)) org p"
  using assms
proof (induction ps arbitrary: s)
  case (Cons q ps)
  let ?s = "save_step u rp org nm q s"
  show ?case
  proof (cases "p = q")
    case True
    have "sv_save_errors (snd ?s) = 0"
      using save_errors_mono [of ?s u rp org nm ps] Cons.prems(2) by simp
    then obtain s' where "save_one u org nm q s = Inr s'"
      by (cases "save_one u org nm q s") (auto simp: save_step_def save_failed_def Let_def)
    with save_one_known [OF Cons.prems(1)] have "known u (fst ?s) org p"
      by (auto simp: save_step_def True)
    with known_grows [OF _ fold_save_grows] show ?thesis by simp
  next
    case False
    with Cons.IH [OF save_step_inv [OF Cons.prems(1)]] Cons.prems show ?thesis by simp
  qed
qed simp

section \<open>The properties of a save\<close>

text \<open>
  A batch save accounts for every row it writes: the inserted, academician, affiliation and
  error counters of the result are exactly the rows added to the four tables, and
  the constraints of the schema hold afterwards.
\<close>

theorem save_professors_accounting:
  assumes "store_inv st" and "save_professors u rp ps org nm st = Inr (st', r)"
  shows "store_inv st' \<and>
    length (st_professors st') = length (st_professors st) + sv_inserted r \<and>
    length (st_academicians st') = length (st_academicians st) + sv_academicians r \<and>
    length (st_affiliations st') = length (st_affiliations st) + sv_affiliations_added r \<and>
    length (st_failures st') = length (st_failures st) + sv_save_errors r"
  using fold_save_accounted [of "(st, zero_result)" u rp org nm ps] save_professors_keeps [OF assms] assms(2)
  by (auto simp: save_professors_def accounted_def zero_result_def)


text \<open>
  C30: Saving the same batch again after an error-free save adds nobody: the second run inserts
  no professor and no academician, so re-extracting a page is safe.
\<close>

theorem save_professors_twice:
  assumes "store_inv st" and "save_professors u rp ps org nm st = Inr (st1, r1)"
    and "sv_save_errors r1 = 0" and "save_professors u rp ps org nm st1 = Inr (st2, r2)"
  shows "sv_inserted r2 = 0 \<and> sv_academicians r2 = 0 \<and>
    length (st_professors st2) = length (st_professors st1) \<and>
    length (st_academicians st2) = length (st_academicians st1)"
proof -
  have inv1: "store_inv st1" using save_professors_keeps [OF assms(1,2)] .
  have "\<forall>p \<in> set ps. known u st1 org p"
    using fold_save_known [of "(st, zero_result)" u rp org nm ps] assms
    by (auto simp: save_professors_def)
  then have "sv_inserted r2 = 0 \<and> sv_academicians r2 = 0"
    using fold_save_known_adds_nobody [of "(st1, zero_result)" ps u org rp nm] inv1 assms(4)
    by (auto simp: save_professors_def zero_result_def)
  moreover have "accounted (st1, zero_result) (st2, r2)"
    using fold_save_accounted [of "(st1, zero_result)" u rp org nm ps] assms(4)
    by (auto simp: save_professors_def)
  ultimately show ?thesis by (auto simp: accounted_def zero_result_def)
qed

section \<open>The writer as a transition system\<close>

text \<open>One step is one committed command of \<open>DBWriter\<close> (or a reopening of the database after a
  crash); commands that raise leave the store as it was.\<close>

inductive writer_step :: "unidb \<Rightarrow> (professor_payload \<Rightarrow> string) \<Rightarrow> store \<Rightarrow> store \<Rightarrow> bool" for u rp where
  org: "upsert_org_unit spec st = Inr (st', i) \<Longrightarrow> writer_step u rp st st'"
| nod: "upsert_node nspec st = Inr (st', i) \<Longrightarrow> writer_step u rp st st'"
| edg: "add_edge a b ty c md st = Inr (st', i) \<Longrightarrow> writer_step u rp st st'"
| mark: "mark_node now k s le ch nr inc st = Inr (st', x) \<Longrightarrow> writer_step u rp st st'"
| claim: "claim_next run ks ts now orgs st = Inr (st', c) \<Longrightarrow> writer_step u rp st st'"
| cach: "save_page_cache pc st = Inr (st', url) \<Longrightarrow> writer_step u rp st st'"
| save: "save_professors u rp ps k nm st = Inr (st', r) \<Longrightarrow> writer_step u rp st st'"
| att: "record_attempt k att_no s0 ph cu st = Inr (st', i) \<Longrightarrow> writer_step u rp st st'"
| fin_att: "finish_attempt now k s0 ro ft st = Inr (st', x) \<Longrightarrow> writer_step u rp st st'"
| failure: "record_failure ft res ra nh su st = Inr (st', i) \<Longrightarrow> writer_step u rp st st'"
| run: "start_run now mode se bp st = Inr (st', i) \<Longrightarrow> writer_step u rp st st'"
| fin_run: "finish_run now k s0 su2 st = Inr (st', x) \<Longrightarrow> writer_step u rp st st'"
| org_status: "update_org_unit_status k s0 st = Inr (st', x) \<Longrightarrow> writer_step u rp st st'"
| uni_status: "update_university_status s0 st = Inr (st', x) \<Longrightarrow> writer_step u rp st st'"
| reset_org: "reset_org_unit_subtree k st = Inr (st', rc) \<Longrightarrow> writer_step u rp st st'"
| reset_bad: "reset_bad_detail_snapshots st = Inr (st', kk) \<Longrightarrow> writer_step u rp st st'"
| reopen: "writer_step u rp st (reconcile st)"

inductive writer_reach :: "unidb \<Rightarrow> (professor_payload \<Rightarrow> string) \<Rightarrow> store \<Rightarrow> store \<Rightarrow> bool" for u rp where
  here: "writer_reach u rp st st"
| more: "writer_reach u rp st st' \<Longrightarrow> writer_step u rp st' st'' \<Longrightarrow> writer_reach u rp st st''"

lemma writer_step_inv: "writer_step u rp st st' \<Longrightarrow> store_inv st \<Longrightarrow> store_inv st'"
  by (induction rule: writer_step.induct)
    (blast intro: upsert_org_unit_keeps upsert_node_keeps add_edge_keeps mark_node_keeps
      claim_next_keeps save_page_cache_keeps save_professors_keeps record_attempt_keeps
      finish_attempt_keeps record_failure_keeps start_run_keeps finish_run_keeps
      update_org_unit_status_keeps update_university_status_keeps reset_org_unit_subtree_keeps
      reset_bad_detail_snapshots_keeps reconcile_keeps)+

lemma writer_reach_inv: "writer_reach u rp st st' \<Longrightarrow> store_inv st \<Longrightarrow> store_inv st'"
  by (induction rule: writer_reach.induct) (auto intro: writer_step_inv)

text \<open>
  C32: Whatever sequence of writer commands runs on a fresh database, crashes and reopenings
  included, the constraints of the schema hold: node keys, edge triples, cache URLs, college
  names and URLs, affiliations and academician names are unique, and no edge, attempt,
  node or affiliation refers to a row that does not exist.
\<close>

theorem writer_reachable_inv:
  assumes "writer_reach u rp (fresh_store name url abbr) st"
  shows "store_inv st"
  using writer_reach_inv [OF assms fresh_store_inv] .

subsection \<open>Concrete runs\<close>

definition ascii_unidb :: unidb where
  "ascii_unidb = \<lparr>ud_nfkc = (\<lambda>s. s), ud_casefold = py_lower\<rparr>"

definition demo_people :: "professor_payload list" where
  "demo_people =
     [(payload_named ''Li Wei'')\<lparr>pp_email := Some ''li@u.edu''\<rparr>,
      (payload_named '' li wei'')\<lparr>pp_phone := Some ''123''\<rparr>,
      (payload_named ''Academician Z'')\<lparr>pp_title := Some yuanshi\<rparr>]"

theorem save_professors_accounting_witness:
  "\<exists>st' r. save_professors ascii_unidb pp_name demo_people 1 ''A'' demo_store = Inr (st', r) \<and>
     store_inv st' \<and> length (st_professors st') = length (st_professors demo_store) + sv_inserted r"
  using save_professors_accounting [OF demo_store_inv]
  by (metis prod.collapse save_professors_def)


theorem save_professors_twice_witness:
  "\<exists>st1 r1 st2 r2. save_professors ascii_unidb pp_name demo_people 1 ''A'' demo_store = Inr (st1, r1) \<and>
     save_professors ascii_unidb pp_name demo_people 1 ''A'' st1 = Inr (st2, r2) \<and>
     sv_inserted r1 = 1 \<and> sv_inserted r2 = 0 \<and> sv_academicians r2 = 0"
proof -
  have "case save_professors ascii_unidb pp_name demo_people 1 ''A'' demo_store of
      Inr (_, r) \<Rightarrow> sv_save_errors r = 0 \<and> sv_inserted r = 1 | _ \<Rightarrow> False"
    by code_simp
  then obtain st1 r1 where a: "save_professors ascii_unidb pp_name demo_people 1 ''A'' demo_store = Inr (st1, r1)"
    "sv_save_errors r1 = 0" "sv_inserted r1 = 1"
    by (auto split: sum.splits prod.splits)
  moreover obtain st2 r2 where b: "save_professors ascii_unidb pp_name demo_people 1 ''A'' st1 = Inr (st2, r2)"
    by (metis prod.collapse save_professors_def)
  ultimately show ?thesis using save_professors_twice [OF demo_store_inv a(1,2) b] by blast
qed

theorem writer_reachable_inv_witness:
  "\<exists>st'. upsert_org_unit (demo_org ''A'') (fresh_store ''U'' ''https://u.edu/'' ''u'') = Inr (st', 1) \<and>
     store_inv (reconcile st')"
proof -
  have "case upsert_org_unit (demo_org ''A'') (fresh_store ''U'' ''https://u.edu/'' ''u'') of
      Inr (_, i) \<Rightarrow> i = 1 | _ \<Rightarrow> False"
    by code_simp
  then obtain st' where c: "upsert_org_unit (demo_org ''A'') (fresh_store ''U'' ''https://u.edu/'' ''u'') = Inr (st', 1)"
    by (auto split: sum.splits prod.splits)
  have "writer_reach ascii_unidb pp_name (fresh_store ''U'' ''https://u.edu/'' ''u'') (reconcile st')"
    by (rule more [OF more [OF here org [OF c]] reopen])
  with c writer_reachable_inv show ?thesis by blast
qed

end
