(* ===== verification/Dext_Page.thy ===== *)
theory Dext_Page
  imports Dext_Types Dext_Url
begin

text \<open>
  Pages: snapshots (\<open>src/src/dext/page/links.py\<close>), the candidate filter
  (\<open>page/candidates.py\<close>) and pagination discovery (\<open>page/pagination.py\<close>).

  BeautifulSoup and html2text are arguments of the model (\<open>html_env\<close>): \<open>he_soup\<close> gives the
  elements the sources query (anchors in document order with their texts, the title, the text
  of \<open>.this-page\<close>, the inputs with the name of the form that owns them), \<open>he_text\<close> the
  text rendering and \<open>he_hash\<close> the SHA-256 of the page. Regular expressions are written out as
  matchers; their digit and word classes are the ASCII ones, a non-ASCII byte counting as a
  word character. Percent-escapes that do not decode to UTF-8 keep their bytes.
\<close>

section \<open>Parsed HTML\<close>

record dom_anchor =
  da_href :: "string option"
  da_text :: string
  da_heading :: "string option"
  da_parent_class :: "string option"

record dom_input =
  di_name :: string
  di_form :: "string option"

record dom =
  dm_anchors :: "dom_anchor list"
  dm_title :: "string option"
  dm_this_page :: "string option"
  dm_inputs :: "dom_input list"

record html_env =
  he_soup :: "string \<Rightarrow> dom"
  he_text :: "string \<Rightarrow> string"
  he_hash :: "string \<Rightarrow> string"

section \<open>Snapshots (page/links.py)\<close>

definition path_segments :: "string \<Rightarrow> (url_error, string list) result" where
  "path_segments url =
     res_bind (urlsplit url) (\<lambda>p. Inr (filter (\<lambda>s. s \<noteq> []) (split_on (CHR ''/'') (sr_path p))))"

definition snapshot_anchor ::
    "string \<Rightarrow> dom_anchor \<Rightarrow> link_signal list \<times> string list \<Rightarrow>
     (url_error, link_signal list \<times> string list) result" where
  "snapshot_anchor base a acc =
     (if \<not> truthy_str (da_href a) then Inr acc
      else
        res_bind (normalize_url (da_href a) base) (\<lambda>u.
          case u of
            None \<Rightarrow> Inr acc
          | Some url \<Rightarrow>
              res_bind (path_segments url) (\<lambda>segs.
              res_bind (same_site url base True) (\<lambda>ss.
                Inr (fst acc @ [\<lparr>ls_href = the (da_href a), ls_url = url, ls_anchor_text = da_text a,
                                 ls_heading = da_heading a, ls_parent_class = da_parent_class a,
                                 ls_path_segments = segs, ls_same_site = ss\<rparr>],
                     if url \<in> set (snd acc) then snd acc else snd acc @ [url])))))"

definition build_snapshot ::
    "html_env \<Rightarrow> string \<Rightarrow> string \<Rightarrow> string \<Rightarrow> string \<Rightarrow> (url_error, page_snapshot) result" where
  "build_snapshot env html requested_url final_url title =
     (let soup = he_soup env html;
          base = (if final_url = [] then requested_url else final_url);
          page_title = (if title = [] then (case dm_title soup of None \<Rightarrow> [] | Some t \<Rightarrow> py_strip t) else title)
      in res_bind (normalize_url (Some requested_url) requested_url) (\<lambda>ident.
         res_bind (res_fold (snapshot_anchor base) (dm_anchors soup) ([], [])) (\<lambda>acc.
           Inr \<lparr>sn_url = str_or ident requested_url, sn_final_url = base, sn_title = page_title,
                sn_text = he_text env html, sn_links = snd acc, sn_signals = fst acc,
                sn_content_hash = he_hash env html\<rparr>)))"

section \<open>Candidate filter (page/candidates.py)\<close>

record filter_result =
  fl_kept :: "link_signal list"
  fl_external :: nat
  fl_duplicate :: nat
  fl_already_enriched :: nat

text \<open>The loop state: the result so far and the set \<open>seen\<close>.\<close>

definition filter_step ::
    "string list \<Rightarrow> bool \<Rightarrow> string \<Rightarrow> link_signal \<Rightarrow> filter_result \<times> string list \<Rightarrow>
     (url_error, filter_result \<times> string list) result" where
  "filter_step enriched same_site_only list_url sig s =
     (let r = fst s; seen = snd s; url = ls_url sig
      in if url \<in> set enriched then Inr (r\<lparr>fl_already_enriched := Suc (fl_already_enriched r)\<rparr>, seen)
         else if url \<in> set seen then Inr (r\<lparr>fl_duplicate := Suc (fl_duplicate r)\<rparr>, seen)
         else
           res_bind (if same_site_only then is_offsite url list_url else Inr False) (\<lambda>off.
             if off then Inr (r\<lparr>fl_external := Suc (fl_external r)\<rparr>, url # seen)
             else Inr (r\<lparr>fl_kept := fl_kept r @ [sig]\<rparr>, url # seen)))"

definition filter_navigation_candidates ::
    "page_snapshot \<Rightarrow> string list \<Rightarrow> bool \<Rightarrow> string \<Rightarrow> (url_error, filter_result) result" where
  "filter_navigation_candidates snapshot enriched same_site_only list_url =
     res_bind (res_fold (filter_step enriched same_site_only list_url) (sn_signals snapshot)
       (\<lparr>fl_kept = [], fl_external = 0, fl_duplicate = 0, fl_already_enriched = 0\<rparr>, []))
       (\<lambda>s. Inr (fst s))"

section \<open>URL pagination (page/pagination.py)\<close>

record pagination_candidate =
  pg_url :: string
  pg_page_index :: nat
  pg_label :: "string option"

definition is_word :: "char \<Rightarrow> bool" where
  "is_word c = (is_alpha c \<or> is_digit c \<or> c = CHR ''_'' \<or> 128 \<le> (of_char c :: nat))"

text \<open>\<open>[?&](?:page|p|pn|pageno|pagenum|curpage)=(\d+)\b\<close>, searched from the left.\<close>

definition page_params :: "string list" where
  "page_params = [''page'', ''p'', ''pn'', ''pageno'', ''pagenum'', ''curpage'']"

definition query_index_here :: "string \<Rightarrow> nat option" where
  "query_index_here s =
     (case s of
        [] \<Rightarrow> None
      | c # cs \<Rightarrow>
          if c \<notin> {CHR ''?'', CHR ''&''} then None
          else
            (case find (\<lambda>k. startswith (py_lower cs) (k @ ''='')) page_params of
               None \<Rightarrow> None
             | Some k \<Rightarrow>
                 (let rest = drop (Suc (length k)) cs; ds = takeWhile is_digit rest;
                      after = dropWhile is_digit rest
                  in if ds \<noteq> [] \<and> (after = [] \<or> \<not> is_word (hd after)) then Some (read_digits ds) else None)))"

fun query_index :: "string \<Rightarrow> nat option" where
  "query_index [] = None"
| "query_index (c # cs) =
     (case query_index_here (c # cs) of Some n \<Rightarrow> Some n | None \<Rightarrow> query_index cs)"

text \<open>\<open>_(\d+)\.html?$\<close> and its two siblings: the digits before the extension and what
  stands before them.\<close>

definition strip_html_ext :: "string \<Rightarrow> string option" where
  "strip_html_ext url =
     (let low = py_lower url
      in if endswith low ''.html'' then Some (take (length url - 5) url)
         else if endswith low ''.htm'' then Some (take (length url - 4) url)
         else None)"

definition path_index :: "string \<Rightarrow> string \<Rightarrow> nat option" where
  "path_index before url =
     (case strip_html_ext url of
        None \<Rightarrow> None
      | Some s \<Rightarrow>
          (let ds = rev (takeWhile is_digit (rev s)); pre = take (length s - length ds) s
           in if ds \<noteq> [] \<and> endswith (py_lower pre) before then Some (read_digits ds) else None))"

definition page_index_of :: "string \<Rightarrow> nat option" where
  "page_index_of url =
     (case query_index url of
        Some n \<Rightarrow> Some n
      | None \<Rightarrow>
          (case path_index ''index_'' url of
             Some n \<Rightarrow> Some n
           | None \<Rightarrow> (case path_index ''_'' url of Some n \<Rightarrow> Some n | None \<Rightarrow> path_index ''/'' url)))"

text \<open>\<open>path.rsplit("/", 1)[0] + "/"\<close>: without a slash the whole path comes first.\<close>

definition column_dir :: "string \<Rightarrow> (url_error, string \<times> string) result" where
  "column_dir url =
     res_bind (urlsplit url) (\<lambda>p.
       (let path = sr_path p;
            dir = (if CHR ''/'' \<in> set path then take (length path - Suc (length (after_last (CHR ''/'') path))) path
                   else path)
        in Inr (py_lower (sr_hostname p), dir @ ''/'')))"

definition url_pagination_step ::
    "string \<Rightarrow> string \<Rightarrow> link_signal \<Rightarrow> pagination_candidate list \<Rightarrow>
     (url_error, pagination_candidate list) result" where
  "url_pagination_step base_host base_dir sig out =
     res_bind (urlsplit (ls_url sig)) (\<lambda>p.
       if py_lower (sr_hostname p) \<noteq> base_host then Inr out
       else if \<not> startswith (sr_path p) base_dir then Inr out
       else
         (case page_index_of (ls_url sig) of
            None \<Rightarrow> Inr out
          | Some i \<Rightarrow>
              if ls_url sig \<in> set (map pg_url out) then Inr out
              else Inr (out @ [\<lparr>pg_url = ls_url sig, pg_page_index = i,
                     pg_label = (if ls_anchor_text sig = [] then None else Some (ls_anchor_text sig))\<rparr>])))"

definition find_url_pagination ::
    "page_snapshot \<Rightarrow> string \<Rightarrow> (url_error, pagination_candidate list) result" where
  "find_url_pagination snapshot list_url =
     res_bind (column_dir list_url) (\<lambda>b. res_fold (url_pagination_step (fst b) (snd b)) (sn_signals snapshot) [])"

section \<open>Form pagination (page/pagination.py)\<close>

definition form_safe :: "char \<Rightarrow> bool" where
  "form_safe c = (is_alpha c \<or> is_digit c \<or> c \<in> {CHR ''*'', CHR ''-'', CHR ''.'', CHR ''_''})"

definition hex_digit :: "nat \<Rightarrow> char" where
  "hex_digit k = (if k < 10 then char_of (48 + k) else char_of (55 + k))"

definition hex_val :: "char \<Rightarrow> nat option" where
  "hex_val c =
     (let n = (of_char c :: nat)
      in if 48 \<le> n \<and> n \<le> 57 then Some (n - 48)
         else if 65 \<le> n \<and> n \<le> 70 then Some (n - 55)
         else if 97 \<le> n \<and> n \<le> 102 then Some (n - 87)
         else None)"

definition quote_byte :: "char \<Rightarrow> string" where
  "quote_byte c =
     (if c = CHR '' '' then ''+''
      else if form_safe c then [c]
      else [CHR ''%'', hex_digit (of_char c div 16), hex_digit (of_char c mod 16)])"

definition quote_form :: "string \<Rightarrow> string" where
  "quote_form s = concat (map quote_byte s)"

fun unquote_bytes :: "string \<Rightarrow> string" where
  "unquote_bytes (c # a # b # cs) =
     (if c = CHR ''%'' then
        (case (hex_val a, hex_val b) of
           (Some x, Some y) \<Rightarrow> char_of (16 * x + y) # unquote_bytes cs
         | _ \<Rightarrow> c # unquote_bytes (a # b # cs))
      else c # unquote_bytes (a # b # cs))"
| "unquote_bytes cs = cs"

definition unquote_form :: "string \<Rightarrow> string" where
  "unquote_form s = unquote_bytes (map (\<lambda>c. if c = CHR ''+'' then CHR '' '' else c) s)"

definition parse_query_pairs :: "string \<Rightarrow> (string \<times> string) list" where
  "parse_query_pairs query =
     map (\<lambda>chunk. (unquote_form (before_char (CHR ''='') chunk), unquote_form (after_char (CHR ''='') chunk)))
       (filter (\<lambda>chunk. chunk \<noteq> []) (split_on (CHR ''&'') query))"

definition encode_pairs :: "(string \<times> string) list \<Rightarrow> string" where
  "encode_pairs pairs = join_with ''&'' (map (\<lambda>(k, v). quote_form k @ ''='' @ quote_form v) pairs)"

definition synthetic_pairs :: "string \<Rightarrow> string \<Rightarrow> string \<Rightarrow> nat \<Rightarrow> (string \<times> string) list" where
  "synthetic_pairs query form_name field_name page =
     filter (\<lambda>(k, v). \<not> startswith k ''__ycl_'') (parse_query_pairs query) @
     [(''__ycl_kind'', ''form''), (''__ycl_form'', form_name), (''__ycl_field'', field_name),
      (''__ycl_page'', nat_str page)]"

definition build_synthetic_url ::
    "string \<Rightarrow> string \<Rightarrow> string \<Rightarrow> nat \<Rightarrow> (url_error, string) result" where
  "build_synthetic_url url form_name field_name page =
     res_bind (urlsplit url) (\<lambda>p.
       Inr (urlunsplit \<lparr>sr_scheme = py_lower (sr_scheme p), sr_netloc = py_lower (sr_hostname p),
              sr_path = sr_path p, sr_query = encode_pairs (synthetic_pairs (sr_query p) form_name field_name page),
              sr_fragment = []\<rparr>))"

text \<open>The regular expression for \<open>document.forms['F'].FIELD.value = 'N'\<close>, case-insensitive:
  \<open>assign_here\<close> matches at the head of the string, \<open>assign_search\<close> at the leftmost position.\<close>

definition is_quote :: "char \<Rightarrow> bool" where
  "is_quote c = (c = CHR 0x27 \<or> c = CHR 0x22)"

definition is_ascii_ws :: "char \<Rightarrow> bool" where
  "is_ascii_ws c = (c \<in> {CHR 0x20, CHR 0x09, CHR 0x0A, CHR 0x0B, CHR 0x0C, CHR 0x0D})"

definition is_field_char :: "char \<Rightarrow> bool" where
  "is_field_char c = (is_alpha c \<or> is_digit c \<or> c = CHR ''_'')"

definition eat :: "string \<Rightarrow> string \<Rightarrow> string option" where
  "eat p s = (if startswith (py_lower s) p then Some (drop (length p) s) else None)"

definition eat_quote :: "string \<Rightarrow> string option" where
  "eat_quote s = (case s of [] \<Rightarrow> None | c # cs \<Rightarrow> if is_quote c then Some cs else None)"

definition assign_value :: "string \<Rightarrow> nat option" where
  "assign_value s =
     (case eat ''='' (dropWhile is_ascii_ws s) of
        None \<Rightarrow> None
      | Some r \<Rightarrow>
          (let r1 = dropWhile is_ascii_ws r; r2 = (case eat_quote r1 of None \<Rightarrow> r1 | Some q \<Rightarrow> q);
               ds = takeWhile is_digit r2
           in if ds = [] then None else Some (read_digits ds)))"

definition assign_here :: "string \<Rightarrow> (string \<times> string \<times> nat) option" where
  "assign_here s =
     Option.bind (eat ''document.forms['' s) (\<lambda>r0.
     Option.bind (eat_quote r0) (\<lambda>r1.
       (let form = takeWhile (\<lambda>c. \<not> is_quote c) r1; r2 = dropWhile (\<lambda>c. \<not> is_quote c) r1
        in if form = [] then None
           else
             Option.bind (eat_quote r2) (\<lambda>r3.
             Option.bind (eat ''].'' r3) (\<lambda>r4.
               (let fld = takeWhile is_field_char r4; r5 = dropWhile is_field_char r4
                in if fld = [] then None
                   else
                     Option.bind (eat ''.value'' r5) (\<lambda>r6.
                     Option.bind (assign_value r6) (\<lambda>n. Some (form, fld, n)))))))))"

fun assign_search :: "string \<Rightarrow> (string \<times> string \<times> nat) option" where
  "assign_search [] = None"
| "assign_search (c # cs) = (case assign_here (c # cs) of Some m \<Rightarrow> Some m | None \<Rightarrow> assign_search cs)"

text \<open>\<open>groups\<close>: the pages of each (form, field) in order of first appearance.\<close>

definition add_page ::
    "string \<times> string \<Rightarrow> nat \<Rightarrow> ((string \<times> string) \<times> nat list) list \<Rightarrow>
     ((string \<times> string) \<times> nat list) list" where
  "add_page k page groups =
     dict_set k (let old = (case dict_get groups k of None \<Rightarrow> [] | Some ps \<Rightarrow> ps)
                 in if page \<in> set old then old else old @ [page]) groups"

definition group_anchor ::
    "dom_anchor \<Rightarrow> ((string \<times> string) \<times> nat list) list \<Rightarrow> ((string \<times> string) \<times> nat list) list" where
  "group_anchor a groups =
     (case da_href a of
        None \<Rightarrow> groups
      | Some href \<Rightarrow>
          if \<not> startswith href ''javascript:'' then groups
          else
            (case assign_search href of
               None \<Rightarrow> groups
             | Some (form, fld, page) \<Rightarrow> if page = 0 then groups else add_page (form, fld) page groups))"

definition parse_int :: "string \<Rightarrow> nat option" where
  "parse_int s = (let t = py_strip s in if t \<noteq> [] \<and> list_all is_digit t then Some (read_digits t) else None)"

definition positive_int :: "string option \<Rightarrow> nat option" where
  "positive_int s =
     (case s of None \<Rightarrow> None
      | Some t \<Rightarrow> (case parse_int t of None \<Rightarrow> None | Some n \<Rightarrow> if n > 0 then Some n else None))"

fun first_some :: "'a option list \<Rightarrow> 'a option" where
  "first_some [] = None"
| "first_some (x # xs) = (case x of Some a \<Rightarrow> Some a | None \<Rightarrow> first_some xs)"

definition detect_current_page :: "dom \<Rightarrow> string \<Rightarrow> (url_error, nat) result" where
  "detect_current_page soup url =
     (case positive_int (dm_this_page soup) of
        Some n \<Rightarrow> Inr n
      | None \<Rightarrow>
          res_bind (urlsplit url) (\<lambda>p.
            (let pairs = parse_query_pairs (sr_query p)
             in Inr (case first_some (map (\<lambda>k. positive_int (map_of pairs k))
                         [''PAGENUM'', ''page'', ''p'', ''pn'', ''fromWenNOWPAGE'']) of
                       Some n \<Rightarrow> n | None \<Rightarrow> 1))))"

text \<open>\<open>\b([A-Za-z0-9_]*?)GOPAGE\b\<close>: the word that ends in GOPAGE, without it. Field names that
  hold several words are searched word by word.\<close>

fun words_of :: "string \<Rightarrow> string \<Rightarrow> string list" where
  "words_of acc [] = [rev acc]"
| "words_of acc (c # cs) = (if is_word c then words_of (c # acc) cs else rev acc # words_of [] cs)"

definition gopage_prefix :: "string \<Rightarrow> string option" where
  "gopage_prefix name =
     (case find (\<lambda>w. endswith (py_lower w) ''gopage'' \<and> list_all is_field_char w) (words_of [] name) of
        None \<Rightarrow> None
      | Some w \<Rightarrow> Some (take (length w - 6) w))"

definition has_goto :: "dom \<Rightarrow> string \<Rightarrow> string \<Rightarrow> bool" where
  "has_goto soup form_name field_name =
     list_ex (\<lambda>inp.
        case gopage_prefix (di_name inp) of
          None \<Rightarrow> False
        | Some pfx \<Rightarrow>
            (di_form inp = None \<or> di_form inp = Some form_name) \<and>
            (pfx = [] \<or> startswith (py_lower field_name) (py_lower pfx)))
       (dm_inputs soup)"

definition expand_page_indexes :: "dom \<Rightarrow> string \<Rightarrow> string \<Rightarrow> nat list \<Rightarrow> nat list" where
  "expand_page_indexes soup form_name field_name pages =
     (if has_goto soup form_name field_name then [1..<Suc (fold max pages 0)] else sort pages)"

text \<open>The label of a page state, U+7B2C, the number and U+9875 after the form name.\<close>

definition page_label :: "string \<Rightarrow> nat \<Rightarrow> string" where
  "page_label form page =
     form @ '' '' @ [CHR 0xE7, CHR 0xAC, CHR 0xAC] @ '' '' @ nat_str page @ '' '' @
     [CHR 0xE9, CHR 0xA1, CHR 0xB5]"

definition state_step ::
    "string \<Rightarrow> nat \<Rightarrow> nat \<Rightarrow> string \<Rightarrow> string \<Rightarrow> nat \<Rightarrow> pagination_state list \<Rightarrow>
     (url_error, pagination_state list) result" where
  "state_step url current n_pages form fld page states =
     (if page \<le> 1 \<or> page = current then Inr states
      else
        res_bind (build_synthetic_url url form fld page) (\<lambda>synthetic.
          if synthetic \<in> set (map ps_synthetic_url states) then Inr states
          else Inr (states @
            [\<lparr>ps_kind = ''form_submit'', ps_state_id = ''form:'' @ form @ '':'' @ fld @ '':'' @ nat_str page,
              ps_label = page_label form page, ps_page_index = int page, ps_form_name = form,
              ps_fields = [(fld, nat_str page)], ps_submit = True, ps_synthetic_url = synthetic,
              ps_url = url, ps_total_pages = Some (int n_pages)\<rparr>])))"

definition state_order :: "pagination_state \<Rightarrow> int \<times> string" where
  "state_order s = (ps_page_index s, ps_synthetic_url s)"

definition extract_form_pagination_states ::
    "html_env \<Rightarrow> string \<Rightarrow> string \<Rightarrow> (url_error, pagination_state list) result" where
  "extract_form_pagination_states env html url =
     (if has_explicit_port url then Inr []
      else
        (let soup = he_soup env html; groups = fold group_anchor (dm_anchors soup) []
         in res_bind (detect_current_page soup url) (\<lambda>current.
            res_bind (res_fold (\<lambda>((form, fld), pages) states.
                let expanded = expand_page_indexes soup form fld pages
                in res_fold (state_step url current (fold max (expanded @ pages) 0) form fld) expanded states)
              groups [])
            (\<lambda>states. Inr (sort_key state_order states)))))"

definition merge_pagination_states ::
    "pagination_state list \<Rightarrow> pagination_state list \<Rightarrow> pagination_state list" where
  "merge_pagination_states reported parsed =
     sort_key state_order
       (fold (\<lambda>s out. if ps_synthetic_url s \<in> set (map ps_synthetic_url out) then out else out @ [s])
          (reported @ parsed) [])"

section \<open>Form encoding\<close>

lemma hex_val_digit [simp]: "k < 16 \<Longrightarrow> hex_val (hex_digit k) = Some k"
  by (cases "k < 10") (simp_all add: hex_val_def hex_digit_def Let_def of_char_of)

lemma of_char_less: "(of_char (c :: char) :: nat) < 256"
  using range_nat_of_char by (metis atLeastLessThan_iff rangeI)

lemma of_char_div_16: "(of_char (c :: char) :: nat) div 16 < 16"
  using of_char_less [of c] by (simp add: less_mult_imp_div_less)

lemma hex_digit_plain:
  "k < 16 \<Longrightarrow> hex_digit k \<noteq> CHR ''+'' \<and> hex_digit k \<noteq> CHR ''&'' \<and> hex_digit k \<noteq> CHR ''=''"
proof -
  assume "k < 16"
  then have "hex_val (hex_digit k) = Some k" by simp
  moreover have "hex_val (CHR ''+'') = None" "hex_val (CHR ''&'') = None" "hex_val (CHR ''='') = None"
    by (simp_all add: hex_val_def)
  ultimately show ?thesis by (metis option.distinct(1))
qed

lemma form_safe_plain:
  "form_safe c \<Longrightarrow> c \<noteq> CHR ''+'' \<and> c \<noteq> CHR ''&'' \<and> c \<noteq> CHR ''='' \<and> c \<noteq> CHR ''%''"
  by (auto simp: form_safe_def is_alpha_def is_digit_def Let_def)

lemma quote_byte_plain: "x \<in> set (quote_byte c) \<Longrightarrow> x \<noteq> CHR ''&'' \<and> x \<noteq> CHR ''=''"
  using hex_digit_plain [OF of_char_div_16, of c] hex_digit_plain [of "of_char c mod 16"]
  by (auto simp: quote_byte_def dest: form_safe_plain split: if_splits)

lemma quote_form_plain: "CHR ''&'' \<notin> set (quote_form s)" "CHR ''='' \<notin> set (quote_form s)"
  by (auto simp: quote_form_def dest: quote_byte_plain)

lemma unquote_bytes_plain: "c \<noteq> CHR ''%'' \<Longrightarrow> unquote_bytes (c # cs) = c # unquote_bytes cs"
  by (cases cs rule: remdups_adj.cases) auto

lemma unquote_form_quote [simp]: "unquote_form (quote_form s) = s"
proof (induction s)
  case (Cons c s)
  let ?p = "\<lambda>x. if x = CHR ''+'' then CHR '' '' else x"
  have IH: "unquote_bytes (map ?p (quote_form s)) = s"
    using Cons.IH by (simp add: unquote_form_def)
  consider "c = CHR '' ''" | "c \<noteq> CHR '' ''" "form_safe c" | "c \<noteq> CHR '' ''" "\<not> form_safe c" by blast
  then have "unquote_bytes (map ?p (quote_byte c @ quote_form s)) = c # s"
  proof cases
    case 1
    then show ?thesis using IH by (simp add: quote_byte_def unquote_bytes_plain)
  next
    case 2
    with form_safe_plain [OF 2(2)] show ?thesis using IH by (simp add: quote_byte_def unquote_bytes_plain)
  next
    case 3
    have "16 * (of_char c div 16) + of_char c mod 16 = (of_char c :: nat)" by simp
    with 3 hex_digit_plain [OF of_char_div_16, of c] hex_digit_plain [of "of_char c mod 16"] IH show ?thesis
      by (simp add: quote_byte_def of_char_div_16)
  qed
  then show ?case by (simp add: unquote_form_def quote_form_def)
qed (simp add: unquote_form_def quote_form_def)

lemma split_on_plain: "c \<notin> set s \<Longrightarrow> split_on c s = [s]"
  by (induction s) auto

lemma split_on_append: "c \<notin> set s \<Longrightarrow> split_on c (s @ c # t) = s # split_on c t"
  by (induction s) auto

lemma split_on_join:
  "ws \<noteq> [] \<Longrightarrow> \<forall>w \<in> set ws. c \<notin> set w \<Longrightarrow> split_on c (join_with [c] ws) = ws"
  by (induction ws rule: join_with.induct [of "\<lambda>_ ws. _ ws"]) (auto simp: split_on_plain split_on_append)

lemma before_after_char: "c \<notin> set s \<Longrightarrow> before_char c (s @ c # t) = s" "c \<notin> set s \<Longrightarrow> after_char c (s @ c # t) = t"
  by (induction s) (auto simp: before_char_def after_char_def)

lemma parse_encode_pairs: "parse_query_pairs (encode_pairs pairs) = pairs"
proof (cases "pairs = []")
  case False
  let ?chunk = "\<lambda>(k, v). quote_form k @ ''='' @ quote_form v"
  have "split_on (CHR ''&'') (join_with ''&'' (map ?chunk pairs)) = map ?chunk pairs"
    using False quote_form_plain by (intro split_on_join) (auto split: prod.splits)
  moreover have "filter (\<lambda>chunk. chunk \<noteq> []) (map ?chunk pairs) = map ?chunk pairs"
    by (simp add: filter_id_conv split_beta)
  ultimately show ?thesis
    unfolding parse_query_pairs_def encode_pairs_def
    by (simp add: map_idI split_beta before_after_char quote_form_plain)
qed (simp add: parse_query_pairs_def encode_pairs_def)

lemma encode_pairs_inject: "encode_pairs a = encode_pairs b \<longleftrightarrow> a = b"
  by (metis parse_encode_pairs)

text \<open>
  C38: The query-string codec of form pagination round-trips: parsing the encoding of any list of
  key/value pairs gives the pairs back, whatever bytes they hold.
\<close>

theorem query_round_trip: "parse_query_pairs (encode_pairs pairs) = pairs"
  by (rule parse_encode_pairs)

lemma encode_pairs_nonempty: "pairs \<noteq> [] \<Longrightarrow> encode_pairs pairs \<noteq> []"
  using parse_encode_pairs [of pairs] by (auto simp: parse_query_pairs_def)

lemma urlunsplit_query_inject:
  assumes "urlunsplit (p\<lparr>sr_query := q1\<rparr>) = urlunsplit (p\<lparr>sr_query := q2\<rparr>)"
    and "q1 \<noteq> []" "q2 \<noteq> []" "sr_fragment p = []"
  shows "q1 = q2"
  using assms by (auto simp: urlunsplit_def Let_def split: if_splits)

text \<open>
  Form-pagination pages are told apart: on one page URL, two synthetic identity URLs are
  equal only for the same form, field and page number, so every page of a form gets its own
  node key.
\<close>

theorem synthetic_url_injective:
  assumes "build_synthetic_url url f1 d1 p1 = Inr u" and "build_synthetic_url url f2 d2 p2 = Inr u"
  shows "f1 = f2 \<and> d1 = d2 \<and> p1 = p2"
proof -
  from assms(1) obtain p where p: "urlsplit url = Inr p"
    by (auto simp: build_synthetic_url_def elim: res_bind_InrE)
  let ?base = "\<lparr>sr_scheme = py_lower (sr_scheme p), sr_netloc = py_lower (sr_hostname p),
              sr_path = sr_path p, sr_query = [], sr_fragment = []\<rparr>"
  let ?q = "\<lambda>f d n. encode_pairs (synthetic_pairs (sr_query p) f d n)"
  from assms p have "urlunsplit (?base\<lparr>sr_query := ?q f1 d1 p1\<rparr>) = urlunsplit (?base\<lparr>sr_query := ?q f2 d2 p2\<rparr>)"
    by (simp add: build_synthetic_url_def)
  then have "?q f1 d1 p1 = ?q f2 d2 p2"
    by (rule urlunsplit_query_inject) (simp_all add: encode_pairs_nonempty synthetic_pairs_def)
  then show ?thesis by (simp add: encode_pairs_inject synthetic_pairs_def)
qed

theorem synthetic_url_injective_witness:
  "\<exists>u v. build_synthetic_url ''https://x.edu.cn/a?q=1'' ''F'' ''P'' 2 = Inr u \<and>
     build_synthetic_url ''https://x.edu.cn/a?q=1'' ''F'' ''P'' 3 = Inr v \<and> u \<noteq> v"
proof -
  have "case build_synthetic_url ''https://x.edu.cn/a?q=1'' ''F'' ''P'' 2 of Inr _ \<Rightarrow> True | _ \<Rightarrow> False"
    "case build_synthetic_url ''https://x.edu.cn/a?q=1'' ''F'' ''P'' 3 of Inr _ \<Rightarrow> True | _ \<Rightarrow> False"
    by code_simp+
  then obtain u v where "build_synthetic_url ''https://x.edu.cn/a?q=1'' ''F'' ''P'' 2 = Inr u"
    "build_synthetic_url ''https://x.edu.cn/a?q=1'' ''F'' ''P'' 3 = Inr v"
    by (auto split: sum.splits)
  moreover from this have "u \<noteq> v"
    using synthetic_url_injective [of "''https://x.edu.cn/a?q=1''" "''F''" "''P''" 2 u "''F''" "''P''" 3] by auto
  ultimately show ?thesis by blast
qed

section \<open>Merging pagination states\<close>

definition keep_first :: "('a \<Rightarrow> 'k) \<Rightarrow> 'a list \<Rightarrow> 'a list \<Rightarrow> 'a list" where
  "keep_first key xs out = fold (\<lambda>s out. if key s \<in> set (map key out) then out else out @ [s]) xs out"

lemma keep_first_keys: "key ` set (keep_first key xs out) = key ` set out \<union> key ` set xs"
  by (induction xs arbitrary: out) (auto simp: keep_first_def)

lemma keep_first_distinct: "distinct (map key out) \<Longrightarrow> distinct (map key (keep_first key xs out))"
  by (induction xs arbitrary: out) (simp_all add: keep_first_def)

lemma keep_first_subset: "set (keep_first key xs out) \<subseteq> set out \<union> set xs"
proof (induction xs arbitrary: out)
  case (Cons x xs)
  show ?case using Cons.IH [of out] Cons.IH [of "out @ [x]"] by (auto simp: keep_first_def)
qed (simp add: keep_first_def)

lemma keep_first_append: "keep_first key (xs @ ys) out = keep_first key ys (keep_first key xs out)"
  by (simp add: keep_first_def)

lemma keep_first_new:
  "s \<in> set (keep_first key xs out) \<Longrightarrow> s \<notin> set out \<Longrightarrow> key s \<notin> key ` set out"
proof (induction xs arbitrary: out)
  case (Cons x xs)
  show ?case
  proof (cases "key x \<in> key ` set out")
    case True
    then show ?thesis using Cons by (simp add: keep_first_def)
  next
    case False
    then have s: "s \<in> set (keep_first key xs (out @ [x]))"
      using Cons.prems(1) by (simp add: keep_first_def)
    show ?thesis
    proof (cases "s = x")
      case True
      with False show ?thesis by simp
    next
      case neq: False
      with Cons.IH [OF s] Cons.prems(2) show ?thesis by auto
    qed
  qed
qed (simp add: keep_first_def)

text \<open>
  Merging script-reported and parsed page states keeps one state per synthetic URL, every
  URL of either list, the reported state wherever both lists have one, in page order.
\<close>

theorem merge_pagination_states_correct:
  "distinct (map ps_synthetic_url (merge_pagination_states reported parsed)) \<and>
   ps_synthetic_url ` set (merge_pagination_states reported parsed) =
     ps_synthetic_url ` set reported \<union> ps_synthetic_url ` set parsed \<and>
   (\<forall>s \<in> set (merge_pagination_states reported parsed).
      s \<in> set reported \<or> ps_synthetic_url s \<notin> ps_synthetic_url ` set reported) \<and>
   sorted (map state_order (merge_pagination_states reported parsed))"
proof -
  let ?k = "keep_first ps_synthetic_url"
  have eq: "merge_pagination_states reported parsed = sort_key state_order (?k (reported @ parsed) [])"
    by (simp add: merge_pagination_states_def keep_first_def)
  have "distinct (map ps_synthetic_url (?k (reported @ parsed) []))"
    by (rule keep_first_distinct) simp
  then have "distinct (map ps_synthetic_url (merge_pagination_states reported parsed))"
    by (simp add: eq distinct_map distinct_sort)
  moreover have "s \<in> set reported \<or> ps_synthetic_url s \<notin> ps_synthetic_url ` set reported"
    if "s \<in> set (?k (reported @ parsed) [])" for s
  proof (cases "s \<in> set (?k reported [])")
    case True
    then show ?thesis using keep_first_subset [of ps_synthetic_url reported "[]"] by auto
  next
    case False
    from that have "s \<in> set (?k parsed (?k reported []))" by (simp add: keep_first_append)
    from keep_first_new [OF this False] show ?thesis
      using keep_first_keys [of ps_synthetic_url reported "[]"] by auto
  qed
  ultimately show ?thesis
    using keep_first_keys [of ps_synthetic_url "reported @ parsed" "[]"]
    by (simp add: eq image_Un)
qed

definition demo_state :: "string \<Rightarrow> int \<Rightarrow> pagination_state" where
  "demo_state u i = \<lparr>ps_kind = ''form_submit'', ps_state_id = u, ps_label = u, ps_page_index = i,
     ps_form_name = ''F'', ps_fields = [], ps_submit = True, ps_synthetic_url = u, ps_url = u,
     ps_total_pages = None\<rparr>"

theorem merge_pagination_states_correct_witness:
  "demo_state ''a'' 3 \<in> set (merge_pagination_states [demo_state ''a'' 3] [demo_state ''b'' 2, demo_state ''a'' 9]) \<and>
   (demo_state ''a'' 3 \<in> set [demo_state ''a'' 3] \<or>
    ps_synthetic_url (demo_state ''a'' 3) \<notin> ps_synthetic_url ` set [demo_state ''a'' 3])"
proof -
  have m: "merge_pagination_states [demo_state ''a'' 3] [demo_state ''b'' 2, demo_state ''a'' 9] =
      [demo_state ''b'' 2, demo_state ''a'' 3]"
    by code_simp
  show ?thesis
    using merge_pagination_states_correct [of "[demo_state ''a'' 3]" "[demo_state ''b'' 2, demo_state ''a'' 9]"]
    unfolding m by simp
qed

section \<open>The candidate filter\<close>

definition filter_ok :: "string list \<Rightarrow> bool \<Rightarrow> string \<Rightarrow> link_signal list \<Rightarrow> filter_result \<times> string list \<Rightarrow> bool" where
  "filter_ok enriched sso list_url done_sigs s =
     (length (fl_kept (fst s)) + fl_external (fst s) + fl_duplicate (fst s) + fl_already_enriched (fst s) =
        length done_sigs \<and>
      distinct (map ls_url (fl_kept (fst s))) \<and> set (fl_kept (fst s)) \<subseteq> set done_sigs \<and>
      ls_url ` set (fl_kept (fst s)) \<subseteq> set (snd s) \<and>
      set (snd s) = ls_url ` set done_sigs - set enriched \<and>
      (\<forall>u \<in> set (snd s). u \<notin> ls_url ` set (fl_kept (fst s)) \<longrightarrow> sso \<and> is_offsite u list_url = Inr True) \<and>
      (\<forall>sig \<in> set (fl_kept (fst s)). ls_url sig \<notin> set enriched \<and>
         (sso \<longrightarrow> is_offsite (ls_url sig) list_url = Inr False)))"

lemma filter_step_ok:
  assumes "filter_ok en sso lu ds s" "filter_step en sso lu sig s = Inr s'"
  shows "filter_ok en sso lu (ds @ [sig]) s'"
proof -
  let ?u = "ls_url sig"
  consider (en) "?u \<in> set en" | (dup) "?u \<notin> set en" "?u \<in> set (snd s)"
    | (new) "?u \<notin> set en" "?u \<notin> set (snd s)" by blast
  then show ?thesis
  proof cases
    case en
    with assms show ?thesis by (auto simp: filter_step_def filter_ok_def Let_def)
  next
    case dup
    with assms show ?thesis by (auto simp: filter_step_def filter_ok_def Let_def)
  next
    case new
    then obtain off where off: "(if sso then is_offsite ?u lu else Inr False) = Inr off"
      using assms(2) by (auto simp: filter_step_def Let_def elim: res_bind_InrE)
    have notkept: "?u \<notin> ls_url ` set (fl_kept (fst s))" using assms(1) new by (auto simp: filter_ok_def)
    show ?thesis
    proof (cases off)
      case True
      with off have o: "sso" "is_offsite ?u lu = Inr True" by (auto split: if_splits)
      have "s' = ((fst s)\<lparr>fl_external := Suc (fl_external (fst s))\<rparr>, ?u # snd s)"
        using assms(2) new True off by (simp add: filter_step_def Let_def)
      with assms(1) new o notkept show ?thesis by (simp add: filter_ok_def) blast
    next
      case False
      with off have o: "sso \<Longrightarrow> is_offsite ?u lu = Inr False" by auto
      have "s' = ((fst s)\<lparr>fl_kept := fl_kept (fst s) @ [sig]\<rparr>, ?u # snd s)"
        using assms(2) new False off by (simp add: filter_step_def Let_def)
      with assms(1) new o notkept show ?thesis by (simp add: filter_ok_def) blast
    qed
  qed
qed

lemma filter_fold_ok:
  assumes "filter_ok en sso lu ds s" "res_fold (filter_step en sso lu) sigs s = Inr s'"
  shows "filter_ok en sso lu (ds @ sigs) s'"
  using assms
proof (induction sigs arbitrary: ds s)
  case (Cons sig sigs)
  from Cons.prems(2) obtain s1 where "filter_step en sso lu sig s = Inr s1"
    "res_fold (filter_step en sso lu) sigs s1 = Inr s'"
    by (auto elim: res_bind_InrE)
  with Cons.IH [OF filter_step_ok [OF Cons.prems(1)]] show ?case by simp
qed simp

text \<open>
  The navigation filter accounts for every link of the page (kept, off-site, duplicate or
  already enriched), keeps each URL at most once, and keeps exactly the URLs that are not
  enriched and not off-site.
\<close>

theorem filter_navigation_candidates_correct:
  assumes "filter_navigation_candidates snapshot enriched True list_url = Inr r"
  shows "length (fl_kept r) + fl_external r + fl_duplicate r + fl_already_enriched r = length (sn_signals snapshot) \<and>
    distinct (map ls_url (fl_kept r)) \<and> set (fl_kept r) \<subseteq> set (sn_signals snapshot) \<and>
    ls_url ` set (fl_kept r) =
      {u \<in> ls_url ` set (sn_signals snapshot). u \<notin> set enriched \<and> is_offsite u list_url = Inr False}"
proof -
  let ?s0 = "(\<lparr>fl_kept = [], fl_external = 0, fl_duplicate = 0, fl_already_enriched = 0\<rparr>, [])"
  from assms obtain s where s: "res_fold (filter_step enriched True list_url) (sn_signals snapshot) ?s0 = Inr s"
    and r: "r = fst s"
    by (auto simp: filter_navigation_candidates_def elim: res_bind_InrE)
  have "filter_ok enriched True list_url [] ?s0" by (simp add: filter_ok_def)
  from filter_fold_ok [OF this s] have ok: "filter_ok enriched True list_url (sn_signals snapshot) s" by simp
  have "ls_url ` set (fl_kept r) =
      {u \<in> ls_url ` set (sn_signals snapshot). u \<notin> set enriched \<and> is_offsite u list_url = Inr False}"
    (is "?K = ?E")
  proof
    show "?K \<subseteq> ?E" using ok by (auto simp: filter_ok_def r)
    have off: "is_offsite u list_url = Inr True" if "u \<in> set (snd s)" "u \<notin> ?K" for u
      using ok that by (simp add: filter_ok_def r)
    show "?E \<subseteq> ?K"
    proof
      fix u assume u: "u \<in> ?E"
      then have "u \<in> set (snd s)" using ok by (simp add: filter_ok_def)
      with off [of u] u show "u \<in> ?K" by auto
    qed
  qed
  with ok show ?thesis by (simp add: filter_ok_def r)
qed

theorem filter_navigation_candidates_correct_witness:
  "\<exists>r. filter_navigation_candidates
     \<lparr>sn_url = [], sn_final_url = [], sn_title = [], sn_text = [], sn_links = [],
      sn_signals =
        [\<lparr>ls_href = [], ls_url = ''https://a.x.edu.cn/1'', ls_anchor_text = [], ls_heading = None,
          ls_parent_class = None, ls_path_segments = [], ls_same_site = True\<rparr>,
         \<lparr>ls_href = [], ls_url = ''https://b.org/1'', ls_anchor_text = [], ls_heading = None,
          ls_parent_class = None, ls_path_segments = [], ls_same_site = False\<rparr>], sn_content_hash = []\<rparr>
     [] True ''https://x.edu.cn/list'' = Inr r \<and>
     length (fl_kept r) + fl_external r + fl_duplicate r + fl_already_enriched r = 2"
proof -
  let ?call = "filter_navigation_candidates
     \<lparr>sn_url = [], sn_final_url = [], sn_title = [], sn_text = [], sn_links = [],
      sn_signals =
        [\<lparr>ls_href = [], ls_url = ''https://a.x.edu.cn/1'', ls_anchor_text = [], ls_heading = None,
          ls_parent_class = None, ls_path_segments = [], ls_same_site = True\<rparr>,
         \<lparr>ls_href = [], ls_url = ''https://b.org/1'', ls_anchor_text = [], ls_heading = None,
          ls_parent_class = None, ls_path_segments = [], ls_same_site = False\<rparr>], sn_content_hash = []\<rparr>
     [] True ''https://x.edu.cn/list''"
  have "case ?call of Inr r \<Rightarrow> fl_external r = 1 | _ \<Rightarrow> False" by code_simp
  then obtain r where "?call = Inr r" by (auto split: sum.splits)
  moreover from filter_navigation_candidates_correct [OF this]
  have "length (fl_kept r) + fl_external r + fl_duplicate r + fl_already_enriched r = 2" by simp
  ultimately show ?thesis by blast
qed

end
