(* ===== verification/Dext_Retry.thy ===== *)
theory Dext_Retry
  imports Dext_Types Dext_Url
begin

text \<open>
  Retry policy: \<open>src/src/dext/engine/retry.py\<close>, \<open>engine/priorities.py\<close>, the global
  back-off \<open>RateThrottle\<close> of \<open>engine/driver.py\<close> and the recoverability test of
  \<open>llm/retry.py\<close>.

  Chinese tokens are written as their UTF-8 bytes. In \<open>\b404\b\<close> a byte of a non-ASCII
  character counts as a word character. The monotonic clock is the argument \<open>now\<close>.
\<close>

section \<open>Priorities (priorities.py)\<close>

fun base_priority_for :: "node_type \<Rightarrow> rat" where
  "base_priority_for Org_listing_url = 100"
| "base_priority_for Org_unit = 90"
| "base_priority_for Faculty_list_url = 80"
| "base_priority_for Pagination_url = 70"
| "base_priority_for Faculty_followup_url = 65"
| "base_priority_for Detail_url = 50"

fun subtree_priority_for :: "node_type \<Rightarrow> rat" where
  "subtree_priority_for Faculty_list_url = 180"
| "subtree_priority_for Pagination_url = 170"
| "subtree_priority_for Faculty_followup_url = 165"
| "subtree_priority_for Detail_url = 150"
| "subtree_priority_for ty = base_priority_for ty"

section \<open>Failure classification (retry.py)\<close>

record retry_decision =
  rd_status :: node_status
  rd_last_error :: "string option"
  rd_resolver :: "string option"
  rd_retryable :: bool

definition retry_with :: "string \<Rightarrow> string \<Rightarrow> retry_decision" where
  "retry_with err resolver =
     \<lparr>rd_status = Retry, rd_last_error = Some err, rd_resolver = Some resolver, rd_retryable = True\<rparr>"

definition dropped_as :: "node_status \<Rightarrow> string \<Rightarrow> retry_decision" where
  "dropped_as st err =
     \<lparr>rd_status = st, rd_last_error = Some err, rd_resolver = Some ''dropped'', rd_retryable = False\<rparr>"

definition is_terminal_unavailable_reason :: "string \<Rightarrow> bool" where
  "is_terminal_unavailable_reason reason = startswith reason ''terminal_unavailable:''"

definition classify_fetch_failure :: "string option \<Rightarrow> int option \<Rightarrow> retry_decision" where
  "classify_fetch_failure block_reason status_code =
     (if status_code = Some 429 then retry_with ''http_429'' ''rate_limited''
      else if status_code \<in> {Some 502, Some 503, Some 504}
      then retry_with (''http_'' @ int_str (the status_code)) ''retry''
      else
        (let stripped = py_strip (str_or block_reason ''fetch_failed'');
             reason = (if stripped = [] then ''fetch_failed'' else stripped);
             lowered = py_lower reason
         in if lowered \<in> {''human_skip'', ''wechat_redirect'', ''offsite_redirect''} then dropped_as Skipped reason
            else if is_terminal_unavailable_reason lowered then dropped_as Skipped reason
            else if lowered = ''bad_url'' \<or> startswith lowered ''invalid_url'' then dropped_as Failed reason
            else retry_with reason ''retry''))"

definition word_byte :: "char \<Rightarrow> bool" where
  "word_byte c = (is_alpha c \<or> is_digit c \<or> c = CHR ''_'' \<or> 128 \<le> (of_char c :: nat))"

text \<open>\<open>re.search(r"\b404\b", text)\<close>; the flag says whether a word character precedes.\<close>

fun has_404 :: "bool \<Rightarrow> string \<Rightarrow> bool" where
  "has_404 prev [] = False"
| "has_404 prev (c # cs) =
     (\<not> prev \<and> startswith (c # cs) ''404'' \<and>
        (case drop 3 (c # cs) of [] \<Rightarrow> True | d # _ \<Rightarrow> \<not> word_byte d) \<or>
      has_404 (word_byte c) cs)"

definition unavailable_tokens :: "string list" where
  "unavailable_tokens =
     [''not found'', ''page not found'',
      [CHR 0xE9, CHR 0xA1, CHR 0xB5, CHR 0xE9, CHR 0x9D, CHR 0xA2, CHR 0xE4, CHR 0xB8, CHR 0x8D,
       CHR 0xE5, CHR 0xAD, CHR 0x98, CHR 0xE5, CHR 0x9C, CHR 0xA8],
      [CHR 0xE7, CHR 0xBD, CHR 0x91, CHR 0xE9, CHR 0xA1, CHR 0xB5, CHR 0xE4, CHR 0xB8, CHR 0x8D,
       CHR 0xE5, CHR 0xAD, CHR 0x98, CHR 0xE5, CHR 0x9C, CHR 0xA8],
      [CHR 0xE6, CHR 0x9C, CHR 0xAA, CHR 0xE6, CHR 0x89, CHR 0xBE, CHR 0xE5, CHR 0x88, CHR 0xB0,
       CHR 0xE9, CHR 0xA1, CHR 0xB5, CHR 0xE9, CHR 0x9D, CHR 0xA2],
      [CHR 0xE6, CHR 0x89, CHR 0xBE, CHR 0xE4, CHR 0xB8, CHR 0x8D, CHR 0xE5, CHR 0x88, CHR 0xB0,
       CHR 0xE9, CHR 0xA1, CHR 0xB5, CHR 0xE9, CHR 0x9D, CHR 0xA2],
      [CHR 0xE8, CHR 0xAE, CHR 0xBF, CHR 0xE9, CHR 0x97, CHR 0xAE, CHR 0xE7, CHR 0x9A, CHR 0x84,
       CHR 0xE9, CHR 0xA1, CHR 0xB5, CHR 0xE9, CHR 0x9D, CHR 0xA2, CHR 0xE4, CHR 0xB8, CHR 0x8D,
       CHR 0xE5, CHR 0xAD, CHR 0x98, CHR 0xE5, CHR 0x9C, CHR 0xA8],
      [CHR 0xE6, CHR 0x82, CHR 0xA8, CHR 0xE8, CHR 0xAE, CHR 0xBF, CHR 0xE9, CHR 0x97, CHR 0xAE,
       CHR 0xE7, CHR 0x9A, CHR 0x84, CHR 0xE9, CHR 0xA1, CHR 0xB5, CHR 0xE9, CHR 0x9D, CHR 0xA2,
       CHR 0xE4, CHR 0xB8, CHR 0x8D, CHR 0xE5, CHR 0xAD, CHR 0x98, CHR 0xE5, CHR 0x9C, CHR 0xA8],
      [CHR 0xE4, CHR 0xBF, CHR 0xA1, CHR 0xE6, CHR 0x81, CHR 0xAF, CHR 0xE4, CHR 0xB8, CHR 0x8D,
       CHR 0xE5, CHR 0xAD, CHR 0x98, CHR 0xE5, CHR 0x9C, CHR 0xA8],
      [CHR 0xE8, CHR 0xAF, CHR 0xA5, CHR 0xE4, CHR 0xBF, CHR 0xA1, CHR 0xE6, CHR 0x81, CHR 0xAF,
       CHR 0xE4, CHR 0xB8, CHR 0x8D, CHR 0xE5, CHR 0xAD, CHR 0x98, CHR 0xE5, CHR 0x9C, CHR 0xA8],
      [CHR 0xE6, CHR 0x96, CHR 0x87, CHR 0xE7, CHR 0xAB, CHR 0xA0, CHR 0xE4, CHR 0xB8, CHR 0x8D,
       CHR 0xE5, CHR 0xAD, CHR 0x98, CHR 0xE5, CHR 0x9C, CHR 0xA8]]"

definition removed_tokens :: "string list" where
  "removed_tokens =
     [[CHR 0xE5, CHR 0x86, CHR 0x85, CHR 0xE5, CHR 0xAE, CHR 0xB9, CHR 0xE5, CHR 0xB7, CHR 0xB2,
       CHR 0xE6, CHR 0x92, CHR 0xA4, CHR 0xE9, CHR 0x94, CHR 0x80],
      [CHR 0xE5, CHR 0x86, CHR 0x85, CHR 0xE5, CHR 0xAE, CHR 0xB9, CHR 0xE8, CHR 0xA2, CHR 0xAB,
       CHR 0xE6, CHR 0x92, CHR 0xA4, CHR 0xE9, CHR 0x94, CHR 0x80],
      [CHR 0xE8, CHR 0xAF, CHR 0xA5, CHR 0xE5, CHR 0x86, CHR 0x85, CHR 0xE5, CHR 0xAE, CHR 0xB9,
       CHR 0xE5, CHR 0xB7, CHR 0xB2, CHR 0xE8, CHR 0xA2, CHR 0xAB, CHR 0xE5, CHR 0x88, CHR 0xA0,
       CHR 0xE9, CHR 0x99, CHR 0xA4],
      [CHR 0xE5, CHR 0x86, CHR 0x85, CHR 0xE5, CHR 0xAE, CHR 0xB9, CHR 0xE5, CHR 0xB7, CHR 0xB2,
       CHR 0xE8, CHR 0xA2, CHR 0xAB, CHR 0xE5, CHR 0x88, CHR 0xA0, CHR 0xE9, CHR 0x99, CHR 0xA4],
      [CHR 0xE6, CHR 0x96, CHR 0x87, CHR 0xE7, CHR 0xAB, CHR 0xA0, CHR 0xE5, CHR 0xB7, CHR 0xB2,
       CHR 0xE8, CHR 0xA2, CHR 0xAB, CHR 0xE5, CHR 0x88, CHR 0xA0, CHR 0xE9, CHR 0x99, CHR 0xA4],
      [CHR 0xE4, CHR 0xBF, CHR 0xA1, CHR 0xE6, CHR 0x81, CHR 0xAF, CHR 0xE5, CHR 0xB7, CHR 0xB2,
       CHR 0xE8, CHR 0xA2, CHR 0xAB, CHR 0xE5, CHR 0x88, CHR 0xA0, CHR 0xE9, CHR 0x99, CHR 0xA4],
      [CHR 0xE8, CHR 0xAF, CHR 0xA5, CHR 0xE4, CHR 0xBF, CHR 0xA1, CHR 0xE6, CHR 0x81, CHR 0xAF,
       CHR 0xE5, CHR 0xB7, CHR 0xB2, CHR 0xE5, CHR 0x88, CHR 0xA0, CHR 0xE9, CHR 0x99, CHR 0xA4],
      [CHR 0xE5, CHR 0xB7, CHR 0xB2, CHR 0xE4, CHR 0xB8, CHR 0x8B, CHR 0xE7, CHR 0xBA, CHR 0xBF],
      [CHR 0xE9, CHR 0xA1, CHR 0xB5, CHR 0xE9, CHR 0x9D, CHR 0xA2, CHR 0xE5, CHR 0xB7, CHR 0xB2,
       CHR 0xE4, CHR 0xB8, CHR 0x8B, CHR 0xE7, CHR 0xBA, CHR 0xBF],
      [CHR 0xE5, CHR 0x86, CHR 0x85, CHR 0xE5, CHR 0xAE, CHR 0xB9, CHR 0xE5, CHR 0xB7, CHR 0xB2,
       CHR 0xE5, CHR 0xA4, CHR 0xB1, CHR 0xE6, CHR 0x95, CHR 0x88]]"

definition has_terminal_unavailable_text :: "string \<Rightarrow> bool" where
  "has_terminal_unavailable_text text =
     (text \<noteq> [] \<and> (has_404 False text \<or> list_ex (\<lambda>t. py_in t text) unavailable_tokens))"

definition has_removed_text :: "string \<Rightarrow> bool" where
  "has_removed_text text = (text \<noteq> [] \<and> list_ex (\<lambda>t. py_in t text) removed_tokens)"

definition assess_terminal_unavailable_page :: "page_snapshot \<Rightarrow> int option \<Rightarrow> string option" where
  "assess_terminal_unavailable_page snapshot status_code =
     (let text = sn_text snapshot;
          haystack = py_lower (py_strip (sn_title snapshot @ [CHR 0x0A] @ text))
      in if status_code = Some 404 then Some ''not_found''
         else if py_strip text = [] \<and> sn_links snapshot = [] then Some ''empty_page''
         else if py_len text \<le> 4000 \<and> has_terminal_unavailable_text haystack then Some ''not_found''
         else if py_len text \<le> 4000 \<and> has_removed_text haystack then Some ''content_removed''
         else None)"

definition classify_extraction_failure ::
    "string option \<Rightarrow> bool option \<Rightarrow> int \<Rightarrow> int \<Rightarrow> retry_decision" where
  "classify_extraction_failure failure_type recoverable attempt_index invalid_json_max_retry =
     (let ft = str_or failure_type ''extraction_failed''
      in if ft = ''invalid_json'' then
           (if attempt_index < invalid_json_max_retry then retry_with ''invalid_json'' ''retry''
            else retry_with ''invalid_json_retry_exhausted'' ''retry'')
         else if ft = ''no_structured_data'' then
           (if recoverable = Some True then retry_with ''rich_detail_no_structured_data'' ''retry''
            else dropped_as Failed ''no_structured_data'')
         else dropped_as Failed ft)"

section \<open>Recoverability of empty extractions (llm/retry.py)\<close>

definition homepage_url_tokens :: "string list" where
  "homepage_url_tokens =
     [''teacher'', ''szdw'', ''info'', ''faculty'', ''people'', ''professor'', ''jsdw'', ''rcjs'',
      ''/show'', ''content'']"

definition rich_tokens :: "string list" where
  "rich_tokens =
     [[CHR 0xE4, CHR 0xB8, CHR 0xAA, CHR 0xE4, CHR 0xBA, CHR 0xBA, CHR 0xE7, CHR 0xAE, CHR 0x80,
       CHR 0xE4, CHR 0xBB, CHR 0x8B],
      [CHR 0xE6, CHR 0x95, CHR 0x99, CHR 0xE8, CHR 0x82, CHR 0xB2, CHR 0xE7, CHR 0xBB, CHR 0x8F,
       CHR 0xE5, CHR 0x8E, CHR 0x86],
      [CHR 0xE7, CHR 0xA7, CHR 0x91, CHR 0xE7, CHR 0xA0, CHR 0x94, CHR 0xE9, CHR 0xA1, CHR 0xB9,
       CHR 0xE7, CHR 0x9B, CHR 0xAE],
      [CHR 0xE8, CHR 0xAE, CHR 0xBA, CHR 0xE6, CHR 0x96, CHR 0x87, CHR 0xE8, CHR 0x91, CHR 0x97,
       CHR 0xE4, CHR 0xBD, CHR 0x9C],
      [CHR 0xE7, CHR 0xA0, CHR 0x94, CHR 0xE7, CHR 0xA9, CHR 0xB6, CHR 0xE6, CHR 0x96, CHR 0xB9,
       CHR 0xE5, CHR 0x90, CHR 0x91],
      [CHR 0xE5, CHR 0xB7, CHR 0xA5, CHR 0xE4, CHR 0xBD, CHR 0x9C, CHR 0xE7, CHR 0xBB, CHR 0x8F,
       CHR 0xE5, CHR 0x8E, CHR 0x86],
      [CHR 0xE5, CHR 0xAD, CHR 0xA6, CHR 0xE4, CHR 0xB9, CHR 0xA0, CHR 0xE7, CHR 0xBB, CHR 0x8F,
       CHR 0xE5, CHR 0x8E, CHR 0x86],
      [CHR 0xE7, CHR 0xA0, CHR 0x94, CHR 0xE7, CHR 0xA9, CHR 0xB6, CHR 0xE6, CHR 0x88, CHR 0x90,
       CHR 0xE6, CHR 0x9E, CHR 0x9C]]"

definition title_tokens :: "string list" where
  "title_tokens =
     [[CHR 0xE6, CHR 0x95, CHR 0x99, CHR 0xE6, CHR 0x8E, CHR 0x88],
      [CHR 0xE7, CHR 0xA0, CHR 0x94, CHR 0xE7, CHR 0xA9, CHR 0xB6, CHR 0xE5, CHR 0x91, CHR 0x98],
      [CHR 0xE9, CHR 0x99, CHR 0xA2, CHR 0xE5, CHR 0xA3, CHR 0xAB],
      [CHR 0xE5, CHR 0x89, CHR 0xAF, CHR 0xE6, CHR 0x95, CHR 0x99, CHR 0xE6, CHR 0x8E, CHR 0x88],
      [CHR 0xE8, CHR 0xAE, CHR 0xB2, CHR 0xE5, CHR 0xB8, CHR 0x88],
      [CHR 0xE5, CHR 0x8A, CHR 0xA9, CHR 0xE7, CHR 0x90, CHR 0x86, CHR 0xE6, CHR 0x95, CHR 0x99,
       CHR 0xE6, CHR 0x8E, CHR 0x88]]"

record no_data_verdict =
  nd_recoverable :: bool
  nd_missing :: "string list"
  nd_last_error :: "string option"

text \<open>\<open>nd_missing\<close> is the list the \<open>reason\<close> text joins.\<close>

definition assess_no_data :: "page_snapshot \<Rightarrow> no_data_verdict" where
  "assess_no_data snapshot =
     (let text = sn_text snapshot; url = py_lower (sn_url snapshot);
          long_enough = (py_len text \<ge> 200);
          homepage_like = list_ex (\<lambda>t. py_in t url) homepage_url_tokens;
          has_rich = list_ex (\<lambda>t. py_in t text) rich_tokens;
          has_title = list_ex (\<lambda>t. py_in t text) title_tokens
      in if long_enough \<and> homepage_like \<and> has_rich \<and> has_title
         then \<lparr>nd_recoverable = True, nd_missing = [], nd_last_error = Some ''rich_detail_no_structured_data''\<rparr>
         else
           \<lparr>nd_recoverable = False,
            nd_missing =
              (if long_enough then [] else [''text_too_short'']) @
              (if homepage_like then [] else [''url_not_homepage_like'']) @
              (if has_rich then [] else [''no_rich_tokens'']) @
              (if has_title then [] else [''no_title_tokens'']),
            nd_last_error = None\<rparr>)"

section \<open>Global back-off (driver.py)\<close>

record rate_throttle =
  rt_base_seconds :: rat
  rt_max_seconds :: rat
  rt_until :: rat
  rt_attempt :: nat

definition new_throttle :: rate_throttle where
  "new_throttle = \<lparr>rt_base_seconds = 2, rt_max_seconds = 60, rt_until = 0, rt_attempt = 0\<rparr>"

definition on_rate_limited :: "rat \<Rightarrow> rate_throttle \<Rightarrow> rate_throttle" where
  "on_rate_limited now t =
     (let k = min (rt_attempt t + 1) 8;
          delay = min (rt_base_seconds t * 2 ^ (k - 1)) (rt_max_seconds t)
      in t\<lparr>rt_attempt := k, rt_until := now + delay\<rparr>)"

definition on_success :: "rate_throttle \<Rightarrow> rate_throttle" where
  "on_success t = (if rt_attempt t \<noteq> 0 then t\<lparr>rt_attempt := 0, rt_until := 0\<rparr> else t)"

text \<open>The seconds \<open>maybe_wait\<close> sleeps before the next claim.\<close>

definition wait_seconds :: "rat \<Rightarrow> rate_throttle \<Rightarrow> rat" where
  "wait_seconds now t = (let remaining = rt_until t - now in if remaining > 0 then remaining else 0)"

section \<open>Properties\<close>

text \<open>
  The classification of fetch and extraction failures never reports success and agrees with
  itself: a node is put back to retry exactly when the decision is retryable, only HTTP 429 is
  answered with the rate-limit resolver that triggers the global back-off, and a non-retryable
  decision ends in a terminal status with resolver \<open>dropped\<close>.
\<close>

theorem failure_classification:
  "(let d = classify_fetch_failure block_reason status_code
    in rd_retryable d = (rd_status d = Retry) \<and>
       (rd_resolver d = Some ''rate_limited'') = (status_code = Some 429) \<and>
       (rd_retryable d \<or> rd_resolver d = Some ''dropped'' \<and> rd_status d \<in> {Failed, Skipped})) \<and>
   (let d = classify_extraction_failure failure_type recoverable i m
    in rd_retryable d = (rd_status d = Retry) \<and>
       (rd_retryable d \<or> rd_resolver d = Some ''dropped'' \<and> rd_status d = Failed) \<and>
       (failure_type = Some ''invalid_json'' \<longrightarrow> rd_retryable d))"
  by (auto simp: classify_fetch_failure_def classify_extraction_failure_def Let_def retry_with_def
      dropped_as_def str_or_def)

theorem failure_classification_witness:
  "rd_retryable (classify_extraction_failure (Some ''invalid_json'') None 5 2)"
  using failure_classification [of None None "Some ''invalid_json''" None 5 2] unfolding Let_def by blast

lemma throttle_iterate:
  "rt_base_seconds ((on_rate_limited now ^^ k) t) = rt_base_seconds t"
  "rt_max_seconds ((on_rate_limited now ^^ k) t) = rt_max_seconds t"
  by (induction k) (simp_all add: on_rate_limited_def Let_def)

lemma throttle_attempt:
  "rt_attempt t \<le> 8 \<Longrightarrow> rt_attempt ((on_rate_limited now ^^ k) t) = min (rt_attempt t + k) 8"
  by (induction k) (auto simp: on_rate_limited_def Let_def)

text \<open>
  After \<open>k\<close> rate-limited answers in a row (k at least one), the driver waits
  \<open>min (2 * 2^(min k 8 - 1)) 60\<close> seconds before the next claim: exponential, never above a
  minute, and one success clears it.
\<close>

theorem throttle_backoff:
  assumes "0 < k"
  shows "wait_seconds now ((on_rate_limited now ^^ k) new_throttle) = min (2 * 2 ^ (min k 8 - 1)) 60 \<and>
    on_success ((on_rate_limited now ^^ k) new_throttle) = new_throttle"
proof -
  obtain j where k: "k = Suc j" using assms by (cases k) auto
  let ?t = "(on_rate_limited now ^^ j) new_throttle"
  have a: "rt_attempt ?t = min j 8" by (simp add: throttle_attempt new_throttle_def)
  have "min (min j 8 + 1) 8 = min k 8" by (simp add: k)
  then have u: "rt_until (on_rate_limited now ?t) = now + min (2 * 2 ^ (min k 8 - 1)) 60"
    by (simp add: on_rate_limited_def Let_def a throttle_iterate) (simp add: new_throttle_def)
  have "on_success (on_rate_limited now ?t) = new_throttle"
    using throttle_iterate [of k now new_throttle]
    by (auto simp: k on_success_def new_throttle_def on_rate_limited_def Let_def)
  moreover have "(0 :: rat) < min (2 * 2 ^ (min k 8 - 1)) 60" by simp
  ultimately show ?thesis
    using u by (simp add: k wait_seconds_def Let_def)
qed

theorem throttle_backoff_witness:
  "wait_seconds 100 ((on_rate_limited 100 ^^ 7) new_throttle) = 60"
  using throttle_backoff [of 7 100] by simp

end
