(* ===== verification/Dext_Llm.thy ===== *)
theory Dext_Llm
  imports Dext_Types Dext_Retry
begin

text \<open>
  The LLM layer: the navigation decider (\<open>src/src/dext/llm/decider.py\<close>), the extractor
  (\<open>llm/extractor.py\<close>), the record sanitizer (\<open>llm/sanitizer.py\<close>) and the display-name
  cleaner (\<open>engine/names.py\<close>).

  The model service is an argument: a chat reply is whatever it answers, already decoded
  (\<open>None\<close> where \<open>json.loads\<close> raises \<open>JSONDecodeError\<close>). Two further arguments,
  collected in \<open>py_env\<close>, give \<open>float(s)\<close> of a string (\<open>None\<close> for \<open>ValueError\<close>) and
  \<open>str(v)\<close> of a float or a container. A value of the wrong type raises, as in Python.
\<close>

section \<open>Python values\<close>

datatype py_error = Type_error | Attribute_error

record py_env =
  py_float :: "string \<Rightarrow> rat option"
  py_repr :: "json \<Rightarrow> string"

definition str_of :: "py_env \<Rightarrow> json \<Rightarrow> string" where
  "str_of env v =
     (case v of
        JNull \<Rightarrow> ''None''
      | JBool b \<Rightarrow> (if b then ''True'' else ''False'')
      | JInt i \<Rightarrow> int_str i
      | JStr s \<Rightarrow> s
      | _ \<Rightarrow> py_repr env v)"

definition truthy :: "json \<Rightarrow> bool" where
  "truthy v =
     (case v of
        JNull \<Rightarrow> False | JBool b \<Rightarrow> b | JInt i \<Rightarrow> i \<noteq> 0 | JFloat q \<Rightarrow> q \<noteq> 0
      | JStr s \<Rightarrow> s \<noteq> [] | JList xs \<Rightarrow> xs \<noteq> [] | JDict kvs \<Rightarrow> kvs \<noteq> [])"

text \<open>\<open>d.get(k)\<close> on a value that must be a dict.\<close>

definition jget :: "json \<Rightarrow> string \<Rightarrow> (py_error, json) result" where
  "jget v k =
     (case v of JDict kvs \<Rightarrow> Inr (case map_of kvs k of None \<Rightarrow> JNull | Some x \<Rightarrow> x) | _ \<Rightarrow> Inl Attribute_error)"

definition hashable :: "json \<Rightarrow> bool" where
  "hashable v = (case v of JList _ \<Rightarrow> False | JDict _ \<Rightarrow> False | _ \<Rightarrow> True)"

text \<open>\<open>v in S\<close> for a set of strings: an unhashable value raises.\<close>

definition in_set :: "json \<Rightarrow> string list \<Rightarrow> (py_error, bool) result" where
  "in_set v S =
     (if hashable v then Inr (case v of JStr s \<Rightarrow> s \<in> set S | _ \<Rightarrow> False) else Inl Type_error)"

text \<open>Iterating \<open>x or []\<close>: a falsy value is the empty list, a dict gives its keys, a string
  its characters, a number raises.\<close>

definition iter_or_empty :: "json \<Rightarrow> (py_error, json list) result" where
  "iter_or_empty v =
     (if \<not> truthy v then Inr []
      else
        (case v of
           JList xs \<Rightarrow> Inr xs
         | JDict kvs \<Rightarrow> Inr (map (\<lambda>kv. JStr (fst kv)) kvs)
         | JStr s \<Rightarrow> Inr (map (\<lambda>c. JStr [c]) s)
         | _ \<Rightarrow> Inl Type_error))"

section \<open>Decider (decider.py)\<close>

record decided_link =
  dl_url :: string
  dl_label :: string
  dl_confidence :: rat
  dl_is_leaf :: bool
  dl_org_unit_name :: json
  dl_exclusion_reason :: "string option"
  dl_facet_axis :: "string option"

record decision =
  de_links :: "decided_link list"
  de_page_is_leaf :: bool
  de_page_exclusion_reason :: "string option"
  de_parse_error :: bool

definition decider_labels :: "string list" where
  "decider_labels =
     [''college'', ''faculty_list'', ''pagination'', ''followup'', ''reslice'', ''detail'', ''noise'', ''login'']"

definition reslice_axes :: "string list" where
  "reslice_axes = [''title'', ''letter'', ''advisor'']"

definition json_str :: "json \<Rightarrow> string" where
  "json_str v = (case v of JStr s \<Rightarrow> s | _ \<Rightarrow> [])"

definition reason_of :: "json \<Rightarrow> (py_error, string option) result" where
  "reason_of v =
     (if \<not> truthy v then Inr None
      else res_bind (in_set v (map fst exclusion_categories)) (\<lambda>b. Inr (if b then Some (json_str v) else None)))"

text \<open>\<open>float(item.get("confidence", 0.0))\<close> inside its \<open>try\<close>: \<open>None\<close> marks the missing key.\<close>

definition confidence_of :: "py_env \<Rightarrow> json option \<Rightarrow> rat" where
  "confidence_of env v =
     (case v of
        None \<Rightarrow> 0
      | Some (JInt i) \<Rightarrow> of_int i
      | Some (JFloat q) \<Rightarrow> q
      | Some (JBool b) \<Rightarrow> (if b then 1 else 0)
      | Some (JStr s) \<Rightarrow> (case py_float env s of None \<Rightarrow> 0 | Some q \<Rightarrow> q)
      | Some _ \<Rightarrow> 0)"

definition jget_opt :: "json \<Rightarrow> string \<Rightarrow> json option" where
  "jget_opt v k = (case v of JDict kvs \<Rightarrow> map_of kvs k | _ \<Rightarrow> None)"

definition parse_link ::
    "py_env \<Rightarrow> string list \<Rightarrow> json \<Rightarrow> decided_link list \<Rightarrow> (py_error, decided_link list) result" where
  "parse_link env allowed item links =
     res_bind (jget item ''url'') (\<lambda>url.
     res_bind (in_set url allowed) (\<lambda>ok.
       if \<not> ok then Inr links
       else
         res_bind (jget item ''label'') (\<lambda>raw_label.
         res_bind (in_set raw_label decider_labels) (\<lambda>known_label.
           (let label = (if known_label then json_str raw_label else ''noise'')
            in res_bind (jget item ''facet_axis'') (\<lambda>raw_axis.
               res_bind (if label = ''reslice'' then in_set raw_axis reslice_axes else Inr False) (\<lambda>axis_ok.
               res_bind (jget item ''exclusion_reason'') (\<lambda>raw_reason.
               res_bind (reason_of raw_reason) (\<lambda>reason.
               res_bind (jget item ''org_unit_name'') (\<lambda>org_name.
                 Inr (links @
                   [\<lparr>dl_url = json_str url, dl_label = label,
                     dl_confidence = confidence_of env (jget_opt item ''confidence''),
                     dl_is_leaf = (case jget_opt item ''is_leaf'' of None \<Rightarrow> False | Some v \<Rightarrow> truthy v),
                     dl_org_unit_name = org_name, dl_exclusion_reason = reason,
                     dl_facet_axis = (if axis_ok then Some (json_str raw_axis) else None)\<rparr>]))))))))))) "

definition parse_decision ::
    "py_env \<Rightarrow> json option \<Rightarrow> link_signal list \<Rightarrow> (py_error, decision) result" where
  "parse_decision env raw candidates =
     (case raw of
        None \<Rightarrow> Inr \<lparr>de_links = [], de_page_is_leaf = False, de_page_exclusion_reason = None, de_parse_error = True\<rparr>
      | Some data \<Rightarrow>
          res_bind (jget data ''links'') (\<lambda>l.
          res_bind (iter_or_empty l) (\<lambda>items.
          res_bind (res_fold (parse_link env (map ls_url candidates)) items []) (\<lambda>links.
          res_bind (jget data ''page_exclusion_reason'') (\<lambda>pr.
          res_bind (reason_of pr) (\<lambda>page_reason.
            Inr \<lparr>de_links = links,
                 de_page_is_leaf = (case jget_opt data ''page_is_leaf'' of None \<Rightarrow> False | Some v \<Rightarrow> truthy v),
                 de_page_exclusion_reason = page_reason, de_parse_error = False\<rparr>))))))"

section \<open>Sanitizer (sanitizer.py)\<close>

lemma lstrip_toks_length: "length (lstrip_toks toks s) \<le> length s"
proof (induction toks s rule: lstrip_toks.induct)
  case (1 toks s)
  then show ?case by (subst lstrip_toks.simps) (force split: option.split)
qed

text \<open>\<open>_WS.sub(" ", s)\<close>\<close>

function collapse_ws :: "string \<Rightarrow> string" where
  "collapse_ws [] = []"
| "collapse_ws (c # cs) =
     (case find (\<lambda>t. t \<noteq> [] \<and> startswith (c # cs) t) ws_codes of
        None \<Rightarrow> c # collapse_ws cs
      | Some t \<Rightarrow> CHR '' '' # collapse_ws (lstrip_toks ws_codes (drop (length t) (c # cs))))"
  by pat_completeness auto
termination
proof (relation "measure length")
  fix c :: char and cs t
  assume "find (\<lambda>t. t \<noteq> [] \<and> startswith (c # cs) t) ws_codes = Some t"
  then have "t \<noteq> []" by (auto simp: find_Some_iff)
  then have "length (drop (length t) (c # cs)) < length (c # cs)" by (cases t) auto
  then show "(lstrip_toks ws_codes (drop (length t) (c # cs)), c # cs) \<in> measure length"
    using lstrip_toks_length [of ws_codes "drop (length t) (c # cs)"] by simp
qed auto

definition norm_text :: "string \<Rightarrow> string option" where
  "norm_text s = (let t = py_strip (collapse_ws s) in if t = [] then None else Some t)"

fun join_str :: "string \<Rightarrow> string list \<Rightarrow> string" where
  "join_str sep [] = []"
| "join_str sep [w] = w"
| "join_str sep (w # ws) = w @ sep @ join_str sep ws"

definition text_of :: "py_env \<Rightarrow> json \<Rightarrow> string option" where
  "text_of env v =
     (case v of
        JNull \<Rightarrow> None
      | JList xs \<Rightarrow> norm_text (join_str '' '' (map (str_of env) xs))
      | _ \<Rightarrow> norm_text (str_of env v))"

text \<open>\<open>_SEP.split\<close> at the ASCII and full-width separators.\<close>

definition separators :: "string list" where
  "separators = ['';'', [CHR 0xEF, CHR 0xBC, CHR 0x9B], '','', [CHR 0xEF, CHR 0xBC,
       CHR 0x8C], [CHR 0xE3, CHR 0x80, CHR 0x81], [CHR 0x0A]]"

function split_seps :: "string \<Rightarrow> string \<Rightarrow> string list" where
  "split_seps acc [] = [rev acc]"
| "split_seps acc (c # cs) =
     (case find (\<lambda>t. t \<noteq> [] \<and> startswith (c # cs) t) separators of
        None \<Rightarrow> split_seps (c # acc) cs
      | Some t \<Rightarrow> rev acc # split_seps [] (drop (length t) (c # cs)))"
  by pat_completeness auto
termination
proof (relation "measure (\<lambda>(acc, s). length s)")
  fix acc c cs t
  assume "find (\<lambda>t. t \<noteq> [] \<and> startswith (c # cs) t) separators = Some t"
  then have "t \<noteq> []" by (auto simp: find_Some_iff)
  then show "(([], drop (length t) (c # cs)), (acc, c # cs)) \<in> measure (\<lambda>(acc, s). length s)"
    by (cases t) auto
qed auto

definition multi_join :: string where
  "multi_join = [CHR 0xEF, CHR 0xBC, CHR 0x9B]"

definition dedup_items :: "string list \<Rightarrow> string list" where
  "dedup_items items =
     fold (\<lambda>it out. case norm_text it of
             None \<Rightarrow> out
           | Some s \<Rightarrow> if s \<in> set out then out else out @ [s]) items []"

definition multi_of :: "py_env \<Rightarrow> json \<Rightarrow> string option" where
  "multi_of env v =
     (case v of
        JNull \<Rightarrow> None
      | _ \<Rightarrow>
          (let items = (case v of JList xs \<Rightarrow> map (str_of env) xs | _ \<Rightarrow> split_seps [] (str_of env v));
               out = dedup_items items
           in if out = [] then None else Some (join_str multi_join out)))"

text \<open>\<open>^[^@\s]+@[^@\s]+\.[^@\s]+$\<close> on a stripped, single-spaced text: exactly one \<open>@\<close> with
  something before it, no space, and after it a dot that is neither the first nor the last
  character.\<close>

definition is_email :: "string \<Rightarrow> bool" where
  "is_email s =
     (case split_on (CHR ''@'') s of
        [a, b] \<Rightarrow> a \<noteq> [] \<and> CHR '' '' \<notin> set s \<and>
          list_ex (\<lambda>i. b ! i = CHR ''.'' \<and> 0 < i \<and> Suc i < length b) [0..<length b]
      | _ \<Rightarrow> False)"

definition email_of :: "py_env \<Rightarrow> json \<Rightarrow> string option" where
  "email_of env v = (case text_of env v of Some s \<Rightarrow> if is_email s then Some s else None | None \<Rightarrow> None)"

definition is_http :: "string \<Rightarrow> bool" where
  "is_http s = (startswith (py_lower s) ''http://'' \<or> startswith (py_lower s) ''https://'')"

definition url_of :: "py_env \<Rightarrow> json \<Rightarrow> string option" where
  "url_of env v = (case text_of env v of Some s \<Rightarrow> if is_http s then Some s else None | None \<Rightarrow> None)"

definition sanitize :: "py_env \<Rightarrow> json \<Rightarrow> (py_error, professor_payload option) result" where
  "sanitize env raw =
     res_bind (jget raw ''name'') (\<lambda>nm.
       (let get = (\<lambda>k. case jget_opt raw k of None \<Rightarrow> JNull | Some v \<Rightarrow> v)
        in case text_of env nm of
             None \<Rightarrow> Inr None
           | Some name \<Rightarrow>
               Inr (Some \<lparr>pp_name = name, pp_title = text_of env (get ''title''),
                          pp_research_areas = multi_of env (get ''research_areas''),
                          pp_email = email_of env (get ''email''), pp_phone = text_of env (get ''phone''),
                          pp_homepage = url_of env (get ''homepage''),
                          pp_external_link = url_of env (get ''external_link''),
                          pp_bio = text_of env (get ''bio''),
                          pp_enrollment_pref = text_of env (get ''enrollment_pref''),
                          pp_publications = multi_of env (get ''publications'')\<rparr>)))"

section \<open>Extractor (extractor.py)\<close>

text \<open>A chat response: the raw text of the first malformed tool call, if any, and the decoded
  arguments of the well-formed ones in order.\<close>

record llm_response =
  lr_content :: "string option"
  lr_invalid_tool_calls :: "string list"
  lr_tool_calls :: "(string \<times> json) list"

record extraction_result =
  er_payloads :: "professor_payload list"
  er_failure_type :: "string option"
  er_raw_preview :: string
  er_recoverable :: "bool option"
  er_exclusion_reason :: "string option"

text \<open>\<open>s[:500]\<close>: the first 500 code points.\<close>

fun take_chars :: "nat \<Rightarrow> string \<Rightarrow> string" where
  "take_chars n [] = []"
| "take_chars n (c # cs) =
     (if is_cont_byte c then c # take_chars n cs
      else (case n of 0 \<Rightarrow> [] | Suc m \<Rightarrow> c # take_chars m cs))"

definition overriding_reasons :: "string list" where
  "overriding_reasons = [''student_affairs'', ''administration'', ''support_role'', ''personnel_work'']"

definition excluded_result :: "string \<Rightarrow> string \<Rightarrow> extraction_result" where
  "excluded_result preview reason =
     \<lparr>er_payloads = [], er_failure_type = Some ''excluded'', er_raw_preview = preview,
      er_recoverable = None, er_exclusion_reason = Some reason\<rparr>"

definition collect_call ::
    "string \<times> json \<Rightarrow> json list \<times> string option \<Rightarrow> (py_error, json list \<times> string option) result" where
  "collect_call tc acc =
     (if fst tc \<noteq> ''save_professors'' then Inr acc
      else
        res_bind (jget (snd tc) ''professors'') (\<lambda>ps.
        res_bind (iter_or_empty ps) (\<lambda>records.
        res_bind (jget (snd tc) ''exclusion_reason'') (\<lambda>er.
        res_bind (if snd acc = None then reason_of er else Inr (snd acc)) (\<lambda>reason.
          Inr (fst acc @ records, reason))))))"

definition sanitize_all :: "py_env \<Rightarrow> json list \<Rightarrow> (py_error, professor_payload list) result" where
  "sanitize_all env records =
     res_fold (\<lambda>r out. res_bind (sanitize env r) (\<lambda>p.
        case p of None \<Rightarrow> Inr out | Some x \<Rightarrow> Inr (out @ [x]))) records []"

definition result_from_response ::
    "py_env \<Rightarrow> llm_response \<Rightarrow> page_snapshot \<Rightarrow> (py_error, extraction_result) result" where
  "result_from_response env resp snapshot =
     (case lr_invalid_tool_calls resp of
        raw # _ \<Rightarrow>
          Inr \<lparr>er_payloads = [], er_failure_type = Some ''invalid_json'', er_raw_preview = take_chars 500 raw,
               er_recoverable = None, er_exclusion_reason = None\<rparr>
      | [] \<Rightarrow>
          res_bind (res_fold collect_call (lr_tool_calls resp) ([], None)) (\<lambda>acc.
            (let records = fst acc; preview = take_chars 500 (str_or (lr_content resp) [])
             in if snd acc \<noteq> None \<and> (records = [] \<or> the (snd acc) \<in> set overriding_reasons)
                then Inr (excluded_result preview (the (snd acc)))
                else
                  res_bind (sanitize_all env records) (\<lambda>payloads.
                    if payloads \<noteq> [] then
                      Inr \<lparr>er_payloads = payloads, er_failure_type = None, er_raw_preview = preview,
                           er_recoverable = None, er_exclusion_reason = None\<rparr>
                    else if snd acc \<noteq> None then Inr (excluded_result preview (the (snd acc)))
                    else
                      Inr \<lparr>er_payloads = [], er_failure_type = Some ''no_structured_data'',
                           er_raw_preview = preview,
                           er_recoverable = Some (nd_recoverable (assess_no_data snapshot)),
                           er_exclusion_reason = None\<rparr>))))"

section \<open>Display names (engine/names.py)\<close>

text \<open>The code points of a string, each as its encoding.\<close>

fun code_points :: "string \<Rightarrow> string list" where
  "code_points [] = []"
| "code_points (c # cs) =
     (case code_points cs of
        [] \<Rightarrow> [[c]]
      | w # ws \<Rightarrow> if w \<noteq> [] \<and> is_cont_byte (hd w) then (c # w) # ws else [c] # w # ws)"

definition open_brackets :: "(string \<times> string) list" where
  "open_brackets = [(''('', '')''), ([CHR 0xEF, CHR 0xBC, CHR 0x88], [CHR 0xEF, CHR 0xBC, CHR 0x89])]"

definition close_brackets :: "(string \<times> string) list" where
  "close_brackets = map (\<lambda>(a, b). (b, a)) open_brackets"

definition is_ws_cp :: "string \<Rightarrow> bool" where
  "is_ws_cp w = (w \<in> set ws_codes)"

text \<open>\<open>re.sub(r"\s*([x])\s*", r"\1", s)\<close> for a class of brackets.\<close>

function tighten :: "string list \<Rightarrow> string list \<Rightarrow> string list" where
  "tighten bs [] = []"
| "tighten bs (w # ws) =
     (let rest = dropWhile is_ws_cp (w # ws)
      in if rest \<noteq> [] \<and> hd rest \<in> set bs then hd rest # tighten bs (dropWhile is_ws_cp (tl rest))
         else w # tighten bs ws)"
  by pat_completeness auto
termination
proof (relation "measure (\<lambda>(bs, ws). length ws)")
  fix bs :: "string list" and w ws rest
  assume "rest = dropWhile is_ws_cp (w # ws)" "rest \<noteq> [] \<and> hd rest \<in> set bs"
  then have "length (tl rest) < length (w # ws)"
    using length_dropWhile_le [of is_ws_cp "w # ws"] by (cases rest) auto
  moreover have "length (dropWhile is_ws_cp (tl rest)) \<le> length (tl rest)" by (rule length_dropWhile_le)
  ultimately show "((bs, dropWhile is_ws_cp (tl rest)), (bs, w # ws)) \<in> measure (\<lambda>(bs, ws). length ws)"
    by simp
qed auto

text \<open>The bracket loop: an unmatched closing bracket is dropped, the open ones are closed at the
  end.\<close>

fun balance :: "string list \<Rightarrow> string list \<Rightarrow> string list" where
  "balance stack [] = map (\<lambda>b. the (map_of open_brackets b)) stack"
| "balance stack (w # ws) =
     (if map_of open_brackets w \<noteq> None then w # balance (w # stack) ws
      else if map_of close_brackets w \<noteq> None then
        (if stack \<noteq> [] \<and> Some (hd stack) = map_of close_brackets w then w # balance (tl stack) ws
         else balance stack ws)
      else w # balance stack ws)"

definition clean_org_unit_name :: "py_env \<Rightarrow> json \<Rightarrow> string option" where
  "clean_org_unit_name env name =
     (case name of
        JNull \<Rightarrow> None
      | _ \<Rightarrow>
          (case norm_text (str_of env name) of
             None \<Rightarrow> None
           | Some s \<Rightarrow>
               norm_text (concat (balance []
                 (tighten (map fst close_brackets) (tighten (map fst open_brackets) (code_points s)))))))"

section \<open>Properties\<close>

definition link_ok :: "string list \<Rightarrow> decided_link \<Rightarrow> bool" where
  "link_ok allowed l =
     (dl_url l \<in> set allowed \<and> dl_label l \<in> set decider_labels \<and>
      (case dl_exclusion_reason l of None \<Rightarrow> True | Some c \<Rightarrow> is_valid_exclusion_reason (Some c)) \<and>
      (case dl_facet_axis l of None \<Rightarrow> True | Some a \<Rightarrow> dl_label l = ''reslice'' \<and> a \<in> set reslice_axes))"

lemma in_set_True: "in_set v S = Inr True \<Longrightarrow> json_str v \<in> set S"
  by (auto simp: in_set_def json_str_def split: if_splits json.splits)

lemma reason_of_valid: "reason_of v = Inr (Some c) \<Longrightarrow> is_valid_exclusion_reason (Some c)"
  by (auto simp: reason_of_def is_valid_exclusion_reason_def exclusion_categories_def
      elim!: res_bind_InrE dest!: in_set_True split: if_splits)

lemma parse_link_cases:
  assumes "parse_link env allowed item links = Inr links'"
  shows "links' = links \<or> (\<exists>l. links' = links @ [l] \<and> link_ok allowed l)"
proof -
  obtain url ok where u: "jget item ''url'' = Inr url" "in_set url allowed = Inr ok"
    using assms by (auto simp: parse_link_def elim!: res_bind_InrE)
  show ?thesis
  proof (cases ok)
    case False
    with assms u show ?thesis by (simp add: parse_link_def)
  next
    case True
    from assms u True obtain raw_label kl where l: "jget item ''label'' = Inr raw_label"
      "in_set raw_label decider_labels = Inr kl"
      by (auto simp: parse_link_def elim!: res_bind_InrE)
    define label where "label = (if kl then json_str raw_label else ''noise'')"
    have label: "label \<in> set decider_labels"
      using l(2) in_set_True by (auto simp: label_def) (simp add: decider_labels_def)
    from assms u True l obtain raw_axis ax rr reason org where
      ax: "(if label = ''reslice'' then in_set raw_axis reslice_axes else Inr False) = Inr ax" and
      re: "reason_of rr = Inr reason" and
      eq: "links' = links @ [\<lparr>dl_url = json_str url, dl_label = label,
           dl_confidence = confidence_of env (jget_opt item ''confidence''),
           dl_is_leaf = (case jget_opt item ''is_leaf'' of None \<Rightarrow> False | Some v \<Rightarrow> truthy v),
           dl_org_unit_name = org, dl_exclusion_reason = reason,
           dl_facet_axis = (if ax then Some (json_str raw_axis) else None)\<rparr>]"
      unfolding parse_link_def label_def [symmetric]
      by (simp add: Let_def label_def [symmetric]) (elim res_bind_InrE, rule that, assumption, assumption, erule Inr_inject [THEN sym])
    have "case reason of None \<Rightarrow> True | Some c \<Rightarrow> is_valid_exclusion_reason (Some c)"
      using re by (auto split: option.split dest: reason_of_valid)
    moreover have "ax \<Longrightarrow> label = ''reslice'' \<and> json_str raw_axis \<in> set reslice_axes"
      using ax by (auto split: if_splits dest: in_set_True)
    moreover have "json_str url \<in> set allowed" using u(2) True by (auto dest: in_set_True)
    ultimately show ?thesis using label by (auto simp: eq link_ok_def)
  qed
qed

lemma parse_link_ok:
  "\<forall>l \<in> set links. link_ok allowed l \<Longrightarrow> parse_link env allowed item links = Inr links' \<Longrightarrow>
     \<forall>l \<in> set links'. link_ok allowed l"
  by (drule parse_link_cases) auto

text \<open>
  The decider cannot hallucinate: whatever the model answers, every link of a parsed decision
  is one of the candidate URLs it was given, carries a known label, an exclusion reason only from
  the fixed vocabulary, and a facet axis only on a re-slice link and only a known one.
\<close>

theorem parse_decision_sound:
  assumes "parse_decision env raw candidates = Inr d"
  shows "(\<forall>l \<in> set (de_links d). link_ok (map ls_url candidates) l) \<and>
    (case de_page_exclusion_reason d of None \<Rightarrow> True | Some c \<Rightarrow> is_valid_exclusion_reason (Some c)) \<and>
    (de_parse_error d \<longrightarrow> de_links d = [])"
proof (cases raw)
  case None
  with assms show ?thesis by (auto simp: parse_decision_def)
next
  case (Some data)
  with assms obtain items links pr reason where
    l: "res_fold (parse_link env (map ls_url candidates)) items [] = Inr links" and
    r: "reason_of pr = Inr reason" and
    d: "de_links d = links" "de_page_exclusion_reason d = reason" "\<not> de_parse_error d"
    by (auto simp: parse_decision_def elim!: res_bind_InrE)
  have "\<forall>l \<in> set links. link_ok (map ls_url candidates) l"
    by (rule res_fold_inv [OF _ _ l]) (auto dest: parse_link_ok [rotated])
  with r d show ?thesis by (auto split: option.split dest: reason_of_valid)
qed

definition plain_env :: py_env where
  "plain_env = \<lparr>py_float = (\<lambda>_. None), py_repr = (\<lambda>_. [])\<rparr>"

definition demo_reply :: json where
  "demo_reply = JDict [(''links'', JList
     [JDict [(''url'', JStr ''https://x.edu.cn/a''), (''label'', JStr ''detail''), (''confidence'', JInt 1)],
      JDict [(''url'', JStr ''https://evil.example/''), (''label'', JStr ''detail'')]])]"

definition demo_signal :: "string \<Rightarrow> link_signal" where
  "demo_signal u = \<lparr>ls_href = u, ls_url = u, ls_anchor_text = [], ls_heading = None,
     ls_parent_class = None, ls_path_segments = [], ls_same_site = True\<rparr>"

theorem parse_decision_sound_witness:
  "\<exists>d. parse_decision plain_env (Some demo_reply) [demo_signal ''https://x.edu.cn/a''] = Inr d \<and>
     length (de_links d) = 1 \<and> (\<forall>l \<in> set (de_links d). link_ok [''https://x.edu.cn/a''] l)"
proof -
  have "case parse_decision plain_env (Some demo_reply) [demo_signal ''https://x.edu.cn/a''] of
      Inr d \<Rightarrow> length (de_links d) = 1 | _ \<Rightarrow> False"
    by code_simp
  then obtain d where d: "parse_decision plain_env (Some demo_reply) [demo_signal ''https://x.edu.cn/a''] = Inr d"
    "length (de_links d) = 1"
    by (auto split: sum.splits)
  with parse_decision_sound [OF d(1)] show ?thesis by (simp add: demo_signal_def)
qed

subsection \<open>Extraction outcomes\<close>

definition payload_ok :: "professor_payload \<Rightarrow> bool" where
  "payload_ok p =
     (pp_name p \<noteq> [] \<and>
      (case pp_email p of None \<Rightarrow> True | Some s \<Rightarrow> is_email s) \<and>
      (case pp_homepage p of None \<Rightarrow> True | Some s \<Rightarrow> is_http s) \<and>
      (case pp_external_link p of None \<Rightarrow> True | Some s \<Rightarrow> is_http s))"

lemma norm_text_nonempty: "norm_text s = Some t \<Longrightarrow> t \<noteq> []"
  by (auto simp: norm_text_def Let_def split: if_splits)

lemma text_of_nonempty: "text_of env v = Some t \<Longrightarrow> t \<noteq> []"
  by (auto simp: text_of_def dest: norm_text_nonempty split: json.splits)

lemma email_of_ok: "case email_of env v of None \<Rightarrow> True | Some s \<Rightarrow> is_email s"
  by (auto simp: email_of_def split: option.splits if_splits)

lemma url_of_ok: "case url_of env v of None \<Rightarrow> True | Some s \<Rightarrow> is_http s"
  by (auto simp: url_of_def split: option.splits if_splits)

lemma sanitize_ok:
  assumes "sanitize env raw = Inr (Some p)"
  shows "payload_ok p"
proof -
  obtain nm where nm: "jget raw ''name'' = Inr nm"
    using assms unfolding sanitize_def by (rule res_bind_InrE)
  with assms obtain name where name: "text_of env nm = Some name"
    by (cases "text_of env nm") (simp_all add: sanitize_def)
  have "\<exists>e h x. pp_name p = name \<and> pp_email p = email_of env e \<and>
      pp_homepage p = url_of env h \<and> pp_external_link p = url_of env x"
    using assms nm name by (simp add: sanitize_def Let_def) (erule subst, simp, blast)
  then show ?thesis using text_of_nonempty [OF name]
    by (auto simp: payload_ok_def email_of_ok url_of_ok)
qed

lemma sanitize_step_ok:
  assumes "\<forall>p \<in> set out. payload_ok p"
    and "res_bind (sanitize env r) (\<lambda>p. case p of None \<Rightarrow> Inr out | Some x \<Rightarrow> Inr (out @ [x])) = Inr out'"
  shows "\<forall>p \<in> set out'. payload_ok p"
proof -
  from assms(2) obtain q where q: "sanitize env r = Inr q"
    and eq: "(case q of None \<Rightarrow> Inr out | Some x \<Rightarrow> Inr (out @ [x])) = (Inr out' :: (py_error, _) result)"
    by (rule res_bind_InrE)
  show ?thesis
  proof (cases q)
    case None
    with assms(1) eq show ?thesis by simp
  next
    case (Some x)
    with assms(1) eq sanitize_ok [of env r x] q show ?thesis by auto
  qed
qed

lemma sanitize_all_ok:
  assumes "sanitize_all env records = Inr ps"
  shows "\<forall>p \<in> set ps. payload_ok p"
  by (rule res_fold_inv [where I = "\<lambda>ps. \<forall>p \<in> set ps. payload_ok p", OF _ _ assms [unfolded sanitize_all_def]])
    (erule sanitize_step_ok, assumption, simp)

lemma collect_call_reason:
  assumes "\<forall>c. snd acc = Some c \<longrightarrow> is_valid_exclusion_reason (Some c)" "collect_call tc acc = Inr acc'"
  shows "\<forall>c. snd acc' = Some c \<longrightarrow> is_valid_exclusion_reason (Some c)"
  using assms by (auto simp: collect_call_def elim!: res_bind_InrE split: if_splits dest: reason_of_valid)

text \<open>
  An extraction ends in exactly one of four ways: records (all sanitized, with a name, a
  well-formed e-mail and http links only), a malformed tool call, an exclusion with a reason of
  the vocabulary, or no structured data with the page's recoverability verdict.
\<close>

theorem extraction_outcomes:
  assumes "result_from_response env resp snapshot = Inr r"
  shows "(\<forall>p \<in> set (er_payloads r). payload_ok p) \<and>
    (er_payloads r \<noteq> [] \<and> er_failure_type r = None \<or>
     er_payloads r = [] \<and> er_failure_type r = Some ''invalid_json'' \<and> lr_invalid_tool_calls resp \<noteq> [] \<or>
     er_payloads r = [] \<and> er_failure_type r = Some ''excluded'' \<and>
       is_valid_exclusion_reason (er_exclusion_reason r) \<or>
     er_payloads r = [] \<and> er_failure_type r = Some ''no_structured_data'' \<and>
       er_recoverable r = Some (nd_recoverable (assess_no_data snapshot)))"
proof (cases "lr_invalid_tool_calls resp")
  case (Cons raw rest)
  with assms show ?thesis by (auto simp: result_from_response_def)
next
  case Nil
  with assms obtain acc where acc: "res_fold collect_call (lr_tool_calls resp) ([], None) = Inr acc"
    by (auto simp: result_from_response_def elim!: res_bind_InrE)
  have reason: "\<forall>c. snd acc = Some c \<longrightarrow> is_valid_exclusion_reason (Some c)"
    by (rule res_fold_inv [OF _ _ acc]) (auto dest: collect_call_reason [rotated])
  show ?thesis
    using assms Nil acc reason sanitize_all_ok
    by (auto simp: result_from_response_def Let_def excluded_result_def elim!: res_bind_InrE split: if_splits)
qed

definition demo_response :: llm_response where
  "demo_response = \<lparr>lr_content = None, lr_invalid_tool_calls = [],
     lr_tool_calls = [(''save_professors'', JDict [(''professors'', JList
       [JDict [(''name'', JStr '' Li  Wei ''), (''email'', JStr ''not-an-address'')], JDict []])])]\<rparr>"

definition empty_snapshot :: page_snapshot where
  "empty_snapshot = \<lparr>sn_url = [], sn_final_url = [], sn_title = [], sn_text = [], sn_links = [],
     sn_signals = [], sn_content_hash = []\<rparr>"

theorem extraction_outcomes_witness:
  "\<exists>r. result_from_response plain_env demo_response empty_snapshot = Inr r \<and>
     map pp_name (er_payloads r) = [''Li Wei''] \<and> (\<forall>p \<in> set (er_payloads r). payload_ok p)"
proof -
  have "case result_from_response plain_env demo_response empty_snapshot of
      Inr r \<Rightarrow> map pp_name (er_payloads r) = [''Li Wei''] | _ \<Rightarrow> False"
    by code_simp
  then obtain r where r: "result_from_response plain_env demo_response empty_snapshot = Inr r"
    "map pp_name (er_payloads r) = [''Li Wei'']"
    by (auto split: sum.splits)
  with extraction_outcomes [OF r(1)] show ?thesis by simp
qed

subsection \<open>Brackets of display names\<close>

definition is_bracket :: "string \<Rightarrow> bool" where
  "is_bracket w = (map_of open_brackets w \<noteq> None \<or> map_of close_brackets w \<noteq> None)"

fun nested :: "string list \<Rightarrow> string list \<Rightarrow> bool" where
  "nested stack [] = (stack = [])"
| "nested stack (w # ws) =
     (if map_of open_brackets w \<noteq> None then nested (w # stack) ws
      else if map_of close_brackets w \<noteq> None then
        stack \<noteq> [] \<and> Some (hd stack) = map_of close_brackets w \<and> nested (tl stack) ws
      else nested stack ws)"

lemma bracket_inverse:
  "map_of open_brackets b = Some c \<Longrightarrow> map_of open_brackets c = None \<and> map_of close_brackets c = Some b"
  by (auto simp: open_brackets_def close_brackets_def split: if_splits)

lemma nested_closing:
  "\<forall>b \<in> set stack. map_of open_brackets b \<noteq> None \<Longrightarrow>
     nested stack (map (\<lambda>b. the (map_of open_brackets b)) stack)"
proof (induction stack)
  case (Cons b stack)
  then obtain c where c: "map_of open_brackets b = Some c" by auto
  from bracket_inverse [OF c] c Cons show ?case by simp
qed simp

lemma balance_nested:
  "\<forall>b \<in> set stack. map_of open_brackets b \<noteq> None \<Longrightarrow> nested stack (balance stack ws)"
proof (induction ws arbitrary: stack)
  case Nil
  then show ?case by (simp add: nested_closing)
next
  case (Cons w ws)
  then show ?case by (cases stack) auto
qed

lemma balance_fixed: "nested stack ws \<Longrightarrow> balance stack ws = ws"
  by (induction ws arbitrary: stack) (auto split: if_splits)

lemma balance_text:
  "\<forall>b \<in> set stack. map_of open_brackets b \<noteq> None \<Longrightarrow>
     filter (\<lambda>w. \<not> is_bracket w) (balance stack ws) = filter (\<lambda>w. \<not> is_bracket w) ws"
proof (induction ws arbitrary: stack)
  case Nil
  have "is_bracket (the (map_of open_brackets b))" if "b \<in> set stack" for b
  proof -
    from Nil that obtain c where c: "map_of open_brackets b = Some c" by auto
    from bracket_inverse [OF c] c show ?thesis by (simp add: is_bracket_def)
  qed
  then show ?case by (simp add: filter_empty_conv)
next
  case (Cons w ws)
  then show ?case by (cases stack) (auto simp: is_bracket_def)
qed

text \<open>
  The bracket repair of college names makes every name well nested, keeps all its other
  characters in order, and leaves a name that is already well nested alone.
\<close>

theorem balance_correct:
  "nested [] (balance [] ws) \<and>
   filter (\<lambda>w. \<not> is_bracket w) (balance [] ws) = filter (\<lambda>w. \<not> is_bracket w) ws \<and>
   (nested [] ws \<longrightarrow> balance [] ws = ws)"
  by (simp add: balance_nested balance_text balance_fixed)

theorem balance_correct_witness:
  "balance [] (code_points ''a(b)c'') = code_points ''a(b)c'' \<and>
   concat (balance [] (code_points ''a)(b'')) = ''a(b)''"
proof -
  have "nested [] (code_points ''a(b)c'')" by code_simp
  moreover have "concat (balance [] (code_points ''a)(b'')) = ''a(b)''" by code_simp
  ultimately show ?thesis using balance_correct [of "code_points ''a(b)c''"] by blast
qed

end
