(* ===== verification/Dext_World.thy ===== *)
theory Dext_World
  imports Dext_Bridge Dext_Dedup Dext_Page Dext_Llm
begin

text \<open>
  The state the crawl engine's coroutines share and the programs that act on it. A program is a
  state transformer that may raise: \<open>await writer.op(..)\<close> is \<open>cmd (op ..)\<close>, a Python
  exception is a value of \<open>exn\<close>, and what was written before a raise stays written.
\<close>

section \<open>State\<close>

datatype exn =
    Db_exn db_error | Url_exn url_error | Key_exn key_error | Py_exn py_error
  | Runtime_error string | Llm_exn string

record extract_task =
  et_node_id :: nat
  et_node_key :: string
  et_snapshot :: page_snapshot
  et_org_unit_id :: "nat option"
  et_org_unit_name :: string
  et_attempt_count :: int

record decide_task =
  dt_node :: claimed_node
  dt_snapshot :: page_snapshot
  dt_raw_html :: string
  dt_reported_states :: "pagination_state list"

record crawl_summary =
  su_fetched :: nat
  su_fetch_failed :: nat
  su_dispatched :: nat
  su_done :: nat
  su_failed :: nat
  su_skipped :: nat
  su_retry :: nat
  su_pending :: nat
  su_in_progress :: nat
  su_professors :: nat
  su_status :: string
  su_node_status_counts :: "(string, nat) dict"

definition new_summary :: crawl_summary where
  "new_summary =
     \<lparr>su_fetched = 0, su_fetch_failed = 0, su_dispatched = 0, su_done = 0, su_failed = 0, su_skipped = 0,
      su_retry = 0, su_pending = 0, su_in_progress = 0, su_professors = 0, su_status = ''running'',
      su_node_status_counts = []\<rparr>"

text \<open>\<open>w_center\<close> is \<open>None\<close> when no decision centre is attached; \<open>w_attempted\<close> lists the node
  keys of \<open>_attempted_this_run\<close>.\<close>

record world =
  w_store :: store
  w_extract_queue :: "extract_task list"
  w_decision_queue :: "decide_task list"
  w_center :: "decision_center option"
  w_throttle :: rate_throttle
  w_attempted :: "string list"
  w_summary :: crawl_summary

section \<open>Programs\<close>

type_synonym 'a prog = "world \<Rightarrow> (exn, 'a) result \<times> world"

definition ret :: "'a \<Rightarrow> 'a prog" where
  "ret a w = (Inr a, w)"

definition raise :: "exn \<Rightarrow> 'a prog" where
  "raise e w = (Inl e, w)"

definition bnd :: "'a prog \<Rightarrow> ('a \<Rightarrow> 'b prog) \<Rightarrow> 'b prog" where
  "bnd m f w = (case m w of (Inl e, w') \<Rightarrow> (Inl e, w') | (Inr a, w') \<Rightarrow> f a w')"

definition thn :: "'a prog \<Rightarrow> 'b prog \<Rightarrow> 'b prog" where
  "thn m n = bnd m (\<lambda>_. n)"

definition catch :: "'a prog \<Rightarrow> (exn \<Rightarrow> 'a prog) \<Rightarrow> 'a prog" where
  "catch m h w = (case m w of (Inl e, w') \<Rightarrow> h e w' | r \<Rightarrow> r)"

definition cmd :: "'a command \<Rightarrow> 'a prog" where
  "cmd c w =
     (case run_command c (w_store w) of
        (Inl e, st) \<Rightarrow> (Inl (Db_exn e), w\<lparr>w_store := st\<rparr>)
      | (Inr a, st) \<Rightarrow> (Inr a, w\<lparr>w_store := st\<rparr>))"

definition lift_url :: "(url_error, 'a) result \<Rightarrow> 'a prog" where
  "lift_url r = (case r of Inl e \<Rightarrow> raise (Url_exn e) | Inr a \<Rightarrow> ret a)"

definition lift_key :: "(key_error, 'a) result \<Rightarrow> 'a prog" where
  "lift_key r = (case r of Inl e \<Rightarrow> raise (Key_exn e) | Inr a \<Rightarrow> ret a)"

definition lift_py :: "(py_error, 'a) result \<Rightarrow> 'a prog" where
  "lift_py r = (case r of Inl e \<Rightarrow> raise (Py_exn e) | Inr a \<Rightarrow> ret a)"

definition lift_exn :: "(exn, 'a) result \<Rightarrow> 'a prog" where
  "lift_exn r = (case r of Inl e \<Rightarrow> raise e | Inr a \<Rightarrow> ret a)"

definition when_true :: "bool \<Rightarrow> unit prog \<Rightarrow> unit prog" where
  "when_true b m = (if b then m else ret ())"

text \<open>A \<open>for\<close> loop over a list, collecting the results of the bodies.\<close>

primrec for_each :: "('a \<Rightarrow> 'b prog) \<Rightarrow> 'a list \<Rightarrow> 'b list prog" where
  "for_each f [] = ret []"
| "for_each f (x # xs) = bnd (f x) (\<lambda>y. bnd (for_each f xs) (\<lambda>ys. ret (y # ys)))"

definition count_some :: "'a option list \<Rightarrow> nat" where
  "count_some xs = length (filter (\<lambda>x. x \<noteq> None) xs)"

section \<open>Invariants of programs\<close>

named_theorems keeps_intros \<open>rules for invariants of programs\<close>

text \<open>\<open>keeps I m\<close>: \<open>m\<close> preserves \<open>I\<close> of the store, whether it returns or raises.\<close>

definition keeps :: "(store \<Rightarrow> bool) \<Rightarrow> 'a prog \<Rightarrow> bool" where
  "keeps I m = (\<forall>w. I (w_store w) \<longrightarrow> I (w_store (snd (m w))))"

lemma keepsD: "keeps I m \<Longrightarrow> I (w_store w) \<Longrightarrow> I (w_store (snd (m w)))"
  by (simp add: keeps_def)

lemma keeps_ret [keeps_intros]: "keeps I (ret a)"
  by (simp add: keeps_def ret_def)

lemma keeps_raise [keeps_intros]: "keeps I (raise e)"
  by (simp add: keeps_def raise_def)

lemma keeps_bnd [keeps_intros]: "keeps I m \<Longrightarrow> (\<And>a. keeps I (f a)) \<Longrightarrow> keeps I (bnd m f)"
  by (fastforce simp: keeps_def bnd_def split: prod.splits sum.splits)

lemma keeps_thn [keeps_intros]: "keeps I m \<Longrightarrow> keeps I n \<Longrightarrow> keeps I (thn m n)"
  by (simp add: thn_def keeps_bnd)

lemma keeps_catch [keeps_intros]: "keeps I m \<Longrightarrow> (\<And>e. keeps I (h e)) \<Longrightarrow> keeps I (catch m h)"
  by (fastforce simp: keeps_def catch_def split: prod.splits sum.splits)

lemma keeps_cmd:
  "(\<And>st st' a. I st \<Longrightarrow> c st = Inr (st', a) \<Longrightarrow> I st') \<Longrightarrow> keeps I (cmd c)"
  by (auto simp: keeps_def cmd_def run_command_def split: sum.splits prod.splits)

lemma keeps_lift [keeps_intros]:
  "keeps I (lift_url r1)" "keeps I (lift_key r2)" "keeps I (lift_py r3)" "keeps I (lift_exn r4)"
  by (simp_all add: lift_url_def lift_key_def lift_py_def lift_exn_def keeps_ret keeps_raise split: sum.split)

lemma keeps_when [keeps_intros]: "keeps I m \<Longrightarrow> keeps I (when_true b m)"
  by (simp add: when_true_def keeps_ret)

lemma keeps_if [keeps_intros]: "keeps I m \<Longrightarrow> keeps I n \<Longrightarrow> keeps I (if b then m else n)"
  by simp

lemma keeps_option [keeps_intros]:
  "keeps I m \<Longrightarrow> (\<And>a. keeps I (f a)) \<Longrightarrow> keeps I (case x of None \<Rightarrow> m | Some a \<Rightarrow> f a)"
  by (cases x) simp_all

lemma keeps_for_each [keeps_intros]:
  "(\<And>x. x \<in> set xs \<Longrightarrow> keeps I (f x)) \<Longrightarrow> keeps I (for_each f xs)"
  by (induction xs) (auto intro!: keeps_intros)

lemma keeps_Let [keeps_intros]: "keeps I (f x) \<Longrightarrow> keeps I (Let x f)"
  by simp

lemma bnd_ret [simp]: "bnd (ret a) f = f a"
  by (rule ext) (simp add: bnd_def ret_def)

lemma bnd_raise [simp]: "bnd (raise e) f = raise e"
  by (rule ext) (simp add: bnd_def raise_def)

end
