(* ===== verification/Dext_Seeds.thy ===== *)
theory Dext_Seeds
  imports Dext_World
begin

text \<open>
  Seeds: the manifest records and abbreviation rule of \<open>src/src/dext/seed.py\<close> and the
  seed loading and node-spec construction of \<open>src/src/dext/engine/seeds.py\<close>.
\<close>

section \<open>Seed manifest (seed.py)\<close>

record org_unit_seed =
  us_name :: string
  us_kind :: string
  us_url :: "string option"
  us_faculty_urls :: "string list"

record university_seed =
  sd_name :: string
  sd_url :: string
  sd_abbr :: "string option"
  sd_listing_urls :: "string list"
  sd_org_units :: "org_unit_seed list"

definition at_least_one_entry :: "university_seed \<Rightarrow> bool" where
  "at_least_one_entry u =
     (sd_listing_urls u \<noteq> [] \<or> list_ex (\<lambda>x. truthy_str (us_url x)) (sd_org_units u) \<or>
      list_ex (\<lambda>x. us_faculty_urls x \<noteq> []) (sd_org_units u))"

definition get_university :: "university_seed list \<Rightarrow> string \<Rightarrow> university_seed option" where
  "get_university manifest name = find (\<lambda>u. sd_name u = name) manifest"

definition public_suffixes :: "string list list" where
  "public_suffixes =
     [[''edu'', ''cn''], [''ac'', ''cn''], [''edu''], [''com''], [''org''], [''net''], [''cn'']]"

text \<open>\<open>[^a-z0-9-]\<close> becomes a dash once per code point; runs of dashes collapse; dashes at the
  ends go.\<close>

definition slug_char :: "char \<Rightarrow> string" where
  "slug_char c =
     (let n = (of_char c :: nat)
      in if is_cont_byte c then []
         else if (97 \<le> n \<and> n \<le> 122) \<or> (48 \<le> n \<and> n \<le> 57) then [c] else ''-'')"

fun squeeze_dashes :: "string \<Rightarrow> string" where
  "squeeze_dashes (a # b # cs) =
     (if a = CHR ''-'' \<and> b = CHR ''-'' then squeeze_dashes (b # cs) else a # squeeze_dashes (b # cs))"
| "squeeze_dashes cs = cs"

definition strip_dashes :: "string \<Rightarrow> string" where
  "strip_dashes s = rstrip_char (CHR ''-'') (dropWhile (\<lambda>c. c = CHR ''-'') s)"

definition slugify :: "string \<Rightarrow> string" where
  "slugify v = strip_dashes (squeeze_dashes (concat (map slug_char (py_lower (py_strip v)))))"

definition label_left_of_suffix :: "string \<Rightarrow> string" where
  "label_left_of_suffix host =
     (let labels = split_on (CHR ''.'') host
      in case find (\<lambda>s. length labels > length s \<and> drop (length labels - length s) labels = s) public_suffixes of
           Some s \<Rightarrow> labels ! (length labels - length s - 1)
         | None \<Rightarrow> hd labels)"

definition resolve_abbr :: "university_seed \<Rightarrow> (url_error, string) result" where
  "resolve_abbr u =
     (if truthy_str (sd_abbr u) then Inr (slugify (the (sd_abbr u)))
      else
        res_bind (urlsplit (sd_url u)) (\<lambda>p.
          (let host = py_lower (sr_hostname p);
               host' = (if startswith host ''www.'' then drop 4 host else host)
           in Inr (slugify (label_left_of_suffix host')))))"

section \<open>Node specs (engine/seeds.py)\<close>

text \<open>\<open>resolve_discovered_url\<close>: the URL and its metadata, or \<open>None\<close> for a host off the
  allowlist.\<close>

definition resolve_discovered_url ::
    "string \<Rightarrow> (url_error, (string \<times> metadata) option) result" where
  "resolve_discovered_url url =
     res_bind (is_allowed_fetch_host url) (\<lambda>ok.
       Inr (if ok then Some (url, [(''source_url'', JStr url)]) else None))"

definition make_spec ::
    "node_type \<Rightarrow> string \<Rightarrow> string \<Rightarrow> rat \<Rightarrow> settings \<Rightarrow> nat option \<Rightarrow> nat option \<Rightarrow> string option \<Rightarrow>
     int \<Rightarrow> metadata option \<Rightarrow> node_status \<Rightarrow> rat option \<Rightarrow> node_spec" where
  "make_spec ty key url priority settings run_id org_id org_name depth meta status confidence =
     \<lparr>ns_node_key = key, ns_type = ty, ns_url = url, ns_org_unit_id = org_id,
      ns_org_unit_name = org_name, ns_status = status, ns_priority_score = priority,
      ns_base_priority = priority, ns_confidence = confidence, ns_depth = depth,
      ns_max_attempts = cf_max_attempts settings, ns_run_id = run_id, ns_metadata = meta\<rparr>"

definition url_node_spec ::
    "node_type \<Rightarrow> string \<Rightarrow> settings \<Rightarrow> nat option \<Rightarrow> nat option \<Rightarrow> string option \<Rightarrow> int \<Rightarrow>
     metadata option \<Rightarrow> node_status \<Rightarrow> rat option \<Rightarrow> string option \<Rightarrow> bool \<Rightarrow> (key_error, node_spec) result" where
  "url_node_spec ty url settings run_id org_id org_name depth meta status confidence node_key_url subtree =
     res_bind (node_key_for ty (Some (str_or node_key_url url)) org_id None) (\<lambda>key.
       Inr (make_spec ty key url (if subtree then subtree_priority_for ty else base_priority_for ty)
              settings run_id org_id org_name depth meta status confidence))"

definition org_node_spec ::
    "nat option \<Rightarrow> string \<Rightarrow> string \<Rightarrow> settings \<Rightarrow> nat option \<Rightarrow> node_status \<Rightarrow> int \<Rightarrow> metadata option \<Rightarrow>
     (key_error, node_spec) result" where
  "org_node_spec org_id org_name url settings run_id status depth meta =
     res_bind (node_key_for Org_unit None org_id (Some org_name)) (\<lambda>key.
       Inr (make_spec Org_unit key url (base_priority_for Org_unit) settings run_id org_id (Some org_name)
              depth meta status None))"

definition normalize_seed_url :: "string \<Rightarrow> string \<Rightarrow> (url_error, string) result" where
  "normalize_seed_url url base =
     res_bind (normalize_url (Some url) base) (\<lambda>n.
       case n of
         Some u \<Rightarrow> Inr u
       | None \<Rightarrow>
           res_bind (urlsplit (py_strip url)) (\<lambda>p.
             Inr (if sr_scheme p \<noteq> [] \<and> sr_scheme p \<notin> {''http'', ''https''} then py_strip url else [])))"

definition synthetic_org_url :: "string \<Rightarrow> string" where
  "synthetic_org_url name = ''about:org_unit:'' @ name"

definition merge_metadata :: "metadata option list \<Rightarrow> metadata" where
  "merge_metadata parts =
     fold (\<lambda>part merged. case part of None \<Rightarrow> merged
       | Some items \<Rightarrow> fold (\<lambda>(k, v) d. dict_setdefault k v d) items merged) parts []"

section \<open>Loading the seeds\<close>

record seed_summary =
  ss_org_listing_nodes :: nat
  ss_org_units :: nat
  ss_org_unit_nodes :: nat
  ss_faculty_list_nodes :: nat
  ss_edges :: nat

definition zero_seed_summary :: seed_summary where
  "zero_seed_summary = \<lparr>ss_org_listing_nodes = 0, ss_org_units = 0, ss_org_unit_nodes = 0,
     ss_faculty_list_nodes = 0, ss_edges = 0\<rparr>"

definition add_summary :: "seed_summary \<Rightarrow> seed_summary \<Rightarrow> seed_summary" where
  "add_summary a b =
     \<lparr>ss_org_listing_nodes = ss_org_listing_nodes a + ss_org_listing_nodes b,
      ss_org_units = ss_org_units a + ss_org_units b,
      ss_org_unit_nodes = ss_org_unit_nodes a + ss_org_unit_nodes b,
      ss_faculty_list_nodes = ss_faculty_list_nodes a + ss_faculty_list_nodes b,
      ss_edges = ss_edges a + ss_edges b\<rparr>"

definition seed_faculty ::
    "org_unit_seed \<Rightarrow> settings \<Rightarrow> nat \<Rightarrow> nat \<Rightarrow> nat option \<Rightarrow> (string \<times> metadata) option \<Rightarrow> seed_summary prog" where
  "seed_faculty unit settings run_id org_id org_node_id resolved =
     (case resolved of
        None \<Rightarrow> ret zero_seed_summary
      | Some (url, resolved_meta) \<Rightarrow>
          bnd (lift_key (url_node_spec Faculty_list_url url settings (Some run_id) (Some org_id)
                 (Some (us_name unit)) (if truthy_str (us_url unit) then 1 else 0)
                 (Some (merge_metadata [Some [(''seeded'', JBool True), (''source'', JStr ''org_units[].faculty_urls'')],
                    Some resolved_meta])) Pending None None True)) (\<lambda>spec.
          bnd (cmd (upsert_node spec)) (\<lambda>faculty_id.
            (case org_node_id of
               None \<Rightarrow> ret (zero_seed_summary\<lparr>ss_faculty_list_nodes := 1\<rparr>)
             | Some parent \<Rightarrow>
                 thn (cmd (add_edge parent faculty_id Belongs_to_org_unit None None))
                     (ret (zero_seed_summary\<lparr>ss_faculty_list_nodes := 1, ss_edges := 1\<rparr>))))))"

definition seed_org_node ::
    "org_unit_seed \<Rightarrow> string \<Rightarrow> metadata \<Rightarrow> settings \<Rightarrow> nat \<Rightarrow> nat \<Rightarrow> nat option prog" where
  "seed_org_node unit org_url resolved_meta settings run_id org_id =
     (if truthy_str (us_url unit) then
        bnd (lift_key (org_node_spec (Some org_id) (us_name unit) org_url settings (Some run_id) Pending 0
               (Some (merge_metadata [Some [(''seeded'', JBool True)], Some resolved_meta])))) (\<lambda>spec.
        bnd (cmd (upsert_node spec)) (\<lambda>i. ret (Some i)))
      else if us_faculty_urls unit \<noteq> [] then
        bnd (lift_key (org_node_spec (Some org_id) (us_name unit) org_url settings (Some run_id) Skipped 0
               (Some [(''seeded'', JBool True), (''synthetic'', JBool True),
                      (''reason'', JStr ''seed_direct_faculty_urls'')]))) (\<lambda>spec.
        bnd (cmd (upsert_node spec)) (\<lambda>i. ret (Some i)))
      else ret None)"

text \<open>The URL of the org unit with its metadata; \<open>None\<close> where the function returns early.\<close>

definition seed_org_url ::
    "org_unit_seed \<Rightarrow> string \<Rightarrow> (url_error, (string \<times> metadata) option) result" where
  "seed_org_url unit university_url =
     (if truthy_str (us_url unit) then
        res_bind (normalize_seed_url (the (us_url unit)) university_url) (\<lambda>u.
          if u = [] then Inr None else resolve_discovered_url u)
      else Inr (Some (synthetic_org_url (us_name unit), [])))"

definition seed_org_unit ::
    "org_unit_seed \<Rightarrow> string \<Rightarrow> settings \<Rightarrow> nat \<Rightarrow> seed_summary prog" where
  "seed_org_unit unit university_url settings run_id =
     bnd (lift_url (seed_org_url unit university_url)) (\<lambda>resolved.
       (case resolved of
          None \<Rightarrow> ret zero_seed_summary
        | Some (org_url, resolved_meta) \<Rightarrow>
            bnd (cmd (upsert_org_unit \<lparr>os_name = us_name unit, os_url = org_url, os_kind = us_kind unit,
                   os_status = ''pending'', os_discovered_from_url = Some university_url\<rparr>)) (\<lambda>org_id.
            bnd (seed_org_node unit org_url resolved_meta settings run_id org_id) (\<lambda>org_node_id.
            bnd (for_each (\<lambda>raw. lift_url (normalize_seed_url raw org_url)) (us_faculty_urls unit)) (\<lambda>urls.
            bnd (for_each (\<lambda>u. lift_url (resolve_discovered_url u)) (filter (\<lambda>u. u \<noteq> []) urls)) (\<lambda>resolved_urls.
            bnd (for_each (seed_faculty unit settings run_id org_id org_node_id) resolved_urls) (\<lambda>parts.
              ret (fold add_summary parts
                (zero_seed_summary\<lparr>ss_org_units := 1,
                   ss_org_unit_nodes := (if org_node_id = None then 0 else 1)\<rparr>)))))))))"

definition seed_listing :: "settings \<Rightarrow> nat \<Rightarrow> (string \<times> metadata) option \<Rightarrow> seed_summary prog" where
  "seed_listing settings run_id resolved =
     (case resolved of
        None \<Rightarrow> ret zero_seed_summary
      | Some (url, resolved_meta) \<Rightarrow>
          bnd (lift_key (url_node_spec Org_listing_url url settings (Some run_id) None None 0
                 (Some (merge_metadata [Some [(''seeded'', JBool True), (''source'', JStr ''org_unit_listing_urls'')],
                    Some resolved_meta])) Pending None None False)) (\<lambda>spec.
          bnd (cmd (upsert_node spec)) (\<lambda>_. ret (zero_seed_summary\<lparr>ss_org_listing_nodes := 1\<rparr>))))"

definition load_seed_nodes :: "university_seed \<Rightarrow> settings \<Rightarrow> nat \<Rightarrow> seed_summary prog" where
  "load_seed_nodes university settings run_id =
     bnd (for_each (\<lambda>raw. lift_url (normalize_seed_url raw (sd_url university))) (sd_listing_urls university)) (\<lambda>urls.
     bnd (for_each (\<lambda>u. lift_url (resolve_discovered_url u)) (filter (\<lambda>u. u \<noteq> []) urls)) (\<lambda>resolved.
     bnd (for_each (seed_listing settings run_id) resolved) (\<lambda>listings.
     bnd (for_each (\<lambda>unit. seed_org_unit unit (sd_url university) settings run_id) (sd_org_units university)) (\<lambda>units.
       ret (fold add_summary (listings @ units) zero_seed_summary)))))"

end
