(* ===== verification/Dext_Handlers.thy ===== *)
theory Dext_Handlers
  imports Dext_Seeds
begin

text \<open>
  The graph-node handlers of \<open>src/src/dext/engine/handlers.py\<close>: what each kind of fetched page
  adds to the crawl graph. The model service is the field \<open>hd_decide\<close> of the dependencies: the
  decoded answer to the decider's prompt for a page, its candidates and its node (\<open>None\<close> for
  an answer that is not JSON), or the exception the client raises. Log messages are left out.
\<close>

section \<open>Dependencies\<close>

record handler_deps =
  hd_settings :: settings
  hd_run_id :: nat
  hd_reported_states :: "pagination_state list"
  hd_raw_html :: string
  hd_html :: html_env
  hd_py :: py_env
  hd_decide :: "page_snapshot \<Rightarrow> link_signal list \<Rightarrow> claimed_node \<Rightarrow> (exn, json option) result"
  hd_now :: string

definition meta_of :: "claimed_node \<Rightarrow> metadata" where
  "meta_of node = (case cn_metadata node of None \<Rightarrow> [] | Some d \<Rightarrow> d)"

definition opt_json_str :: "json option \<Rightarrow> string option" where
  "opt_json_str v = (case v of Some (JStr s) \<Rightarrow> Some s | _ \<Rightarrow> None)"

definition json_fields :: "json option \<Rightarrow> (string, string) dict option" where
  "json_fields v =
     (case v of
        Some (JDict kvs) \<Rightarrow> Some (map (\<lambda>(k, x). (k, json_str x)) kvs)
      | _ \<Rightarrow> None)"

definition fetch_action_from_metadata :: "metadata option \<Rightarrow> fetch_action option" where
  "fetch_action_from_metadata meta =
     (case (case meta of None \<Rightarrow> None | Some d \<Rightarrow> dict_get d ''fetch_action'') of
        Some (JDict data) \<Rightarrow>
          Some \<lparr>fa_kind = (case dict_get data ''kind'' of None \<Rightarrow> ''form_submit'' | Some v \<Rightarrow> json_str v),
                fa_form_name = opt_json_str (dict_get data ''form_name''),
                fa_fields = json_fields (dict_get data ''fields''),
                fa_submit = (case dict_get data ''submit'' of Some (JBool b) \<Rightarrow> Some b | _ \<Rightarrow> None),
                fa_synthetic_url = opt_json_str (dict_get data ''synthetic_url''),
                fa_label = opt_json_str (dict_get data ''label''),
                fa_page_index = (case dict_get data ''page_index'' of Some (JInt i) \<Rightarrow> Some i | _ \<Rightarrow> None),
                fa_state_id = opt_json_str (dict_get data ''state_id'')\<rparr>
      | _ \<Rightarrow> None)"

definition identity_url_for :: "claimed_node \<Rightarrow> string" where
  "identity_url_for node = str_or (opt_json_str (dict_get (meta_of node) ''identity_url'')) (cn_url node)"

definition child_depth :: "claimed_node \<Rightarrow> int" where
  "child_depth parent = cn_depth parent + 1"

definition within_depth :: "claimed_node \<Rightarrow> settings \<Rightarrow> bool" where
  "within_depth parent settings = (child_depth parent \<le> cf_max_depth settings)"

definition pager_labels :: "string list" where
  "pager_labels =
     [[CHR 0xE9, CHR 0xA6, CHR 0x96, CHR 0xE9, CHR 0xA1, CHR 0xB5],
      [CHR 0xE6, CHR 0x9C, CHR 0xAB, CHR 0xE9, CHR 0xA1, CHR 0xB5],
      [CHR 0xE5, CHR 0xB0, CHR 0xBE, CHR 0xE9, CHR 0xA1, CHR 0xB5],
      [CHR 0xE4, CHR 0xB8, CHR 0x8A, CHR 0xE4, CHR 0xB8, CHR 0x80, CHR 0xE9, CHR 0xA1, CHR 0xB5],
      [CHR 0xE4, CHR 0xB8, CHR 0x8B, CHR 0xE4, CHR 0xB8, CHR 0x80, CHR 0xE9, CHR 0xA1, CHR 0xB5],
      ''prev'', ''next'', ''first'', ''last'']"

definition looks_like_pager_label :: "string \<Rightarrow> bool" where
  "looks_like_pager_label label =
     (let text = py_lower (py_strip label)
      in text \<noteq> [] \<and> (list_all is_digit text \<or> text \<in> set pager_labels))"

definition detail_like_urls :: "page_snapshot \<Rightarrow> (url_error, string list) result" where
  "detail_like_urls snapshot =
     res_bind (filter_navigation_candidates snapshot [] True (sn_url snapshot)) (\<lambda>r.
       Inr (map ls_url (filter (\<lambda>sig. \<not> looks_like_pager_label (ls_anchor_text sig)) (fl_kept r))))"

definition link_excluded :: "decided_link \<Rightarrow> bool" where
  "link_excluded l = is_valid_exclusion_reason (dl_exclusion_reason l)"

section \<open>Query-filter re-slices\<close>

datatype reslice =
    Decided decided_link
  | Inferred (rl_url: string) (rl_confidence: rat) (rl_axis: string) (rl_value: string)
      (rl_is_all: bool) (rl_reset_count: nat)

definition rs_url :: "reslice \<Rightarrow> string" where
  "rs_url r = (case r of Decided l \<Rightarrow> dl_url l | Inferred u _ _ _ _ _ \<Rightarrow> u)"

definition rs_confidence :: "reslice \<Rightarrow> rat" where
  "rs_confidence r = (case r of Decided l \<Rightarrow> dl_confidence l | Inferred _ c _ _ _ _ \<Rightarrow> c)"

definition rs_is_all :: "reslice \<Rightarrow> bool" where
  "rs_is_all r = (case r of Decided l \<Rightarrow> False | Inferred _ _ _ _ b _ \<Rightarrow> b)"

definition rs_reset_count :: "reslice \<Rightarrow> nat" where
  "rs_reset_count r = (case r of Decided l \<Rightarrow> 0 | Inferred _ _ _ _ _ n \<Rightarrow> n)"

definition facet_axis :: "reslice \<Rightarrow> string" where
  "facet_axis r = (case r of Decided l \<Rightarrow> str_or (dl_facet_axis l) ''unknown'' | Inferred _ _ a _ _ _ \<Rightarrow> str_or (Some a) ''unknown'')"

definition reslice_axis_priority :: "string list" where
  "reslice_axis_priority = [''letter'', ''query:jxx'', ''query:yjjg'', ''query:jobType'', ''title'', ''advisor'']"

fun index_of :: "'a \<Rightarrow> 'a list \<Rightarrow> nat" where
  "index_of x [] = 0"
| "index_of x (y # ys) = (if x = y then 0 else Suc (index_of x ys))"

definition reslice_axis_rank :: "string \<Rightarrow> nat" where
  "reslice_axis_rank axis = index_of axis reslice_axis_priority"

definition query_filter_ignored_params :: "string list" where
  "query_filter_ignored_params =
     [''keyword'', ''keywords'', ''search'', ''q'', ''kw'', ''key'',
      ''page'', ''p'', ''pn'', ''pageno'', ''pagenum'', ''curpage'', ''currentpage'',
      ''pageindex'', ''pagesize'', ''rows'', ''per_page'',
      ''__ycl_kind'', ''__ycl_form'', ''__ycl_field'', ''__ycl_page'']"

definition query_pairs :: "string \<Rightarrow> (url_error, (string \<times> string) list) result" where
  "query_pairs url =
     res_bind (urlsplit url) (\<lambda>p.
       Inr (filter (\<lambda>(k, v). py_lower k \<notin> set query_filter_ignored_params) (parse_query_pairs (sr_query p))))"

text \<open>\<open>_query_value\<close>: the last value of a key, or the empty string.\<close>

definition query_value :: "(string \<times> string) list \<Rightarrow> string \<Rightarrow> string" where
  "query_value pairs k = (case map_of (rev pairs) k of None \<Rightarrow> [] | Some v \<Rightarrow> v)"

definition same_query_filter_surface :: "string \<Rightarrow> string \<Rightarrow> (url_error, bool) result" where
  "same_query_filter_surface current_url candidate_url =
     res_bind (urlsplit current_url) (\<lambda>cur.
     res_bind (urlsplit candidate_url) (\<lambda>cand.
       Inr (py_lower (sr_scheme cur) = py_lower (sr_scheme cand) \<and>
            py_lower (sr_hostname cur) = py_lower (sr_hostname cand) \<and>
            rstrip_char (CHR ''/'') (sr_path cur) = rstrip_char (CHR ''/'') (sr_path cand) \<and>
            sr_query cur \<noteq> sr_query cand)))"

text \<open>The changed keys with their values before and after. The source iterates over a set; every
  use below sorts or counts, so the order does not matter.\<close>

definition query_filter_changes ::
    "string \<Rightarrow> string \<Rightarrow> (url_error, (string \<times> string \<times> string) list) result" where
  "query_filter_changes current_url candidate_url =
     res_bind (query_pairs current_url) (\<lambda>cur.
     res_bind (query_pairs candidate_url) (\<lambda>cand.
       Inr (filter (\<lambda>(k, b, a). b \<noteq> a)
         (map (\<lambda>k. (k, query_value cur k, query_value cand k)) (remdups (map fst cur @ map fst cand))))))"

definition best_query_change :: "(string \<times> string \<times> string) list \<Rightarrow> string \<times> string \<times> string" where
  "best_query_change changes =
     hd (sort_key (\<lambda>(k, b, a). (reslice_axis_rank (''query:'' @ k), k)) changes)"

definition all_filter_labels :: "string list" where
  "all_filter_labels =
     [[CHR 0xE5, CHR 0x85, CHR 0xA8, CHR 0xE9, CHR 0x83, CHR 0xA8],
      [CHR 0xE4, CHR 0xB8, CHR 0x8D, CHR 0xE9, CHR 0x99, CHR 0x90],
      [CHR 0xE6, CHR 0x89, CHR 0x80, CHR 0xE6, CHR 0x9C, CHR 0x89]]"

definition is_all_filter_label :: "string option \<Rightarrow> bool" where
  "is_all_filter_label label =
     (let text = py_strip (str_or label []) in text \<noteq> [] \<and> list_ex (\<lambda>t. py_in t text) all_filter_labels)"

definition infer_query_filter_reslice ::
    "string \<Rightarrow> decided_link \<Rightarrow> link_signal option \<Rightarrow> (url_error, reslice option) result" where
  "infer_query_filter_reslice current_url link signal =
     (if dl_label link \<in> {''detail'', ''pagination'', ''login'', ''noise''} then Inr None
      else if dl_is_leaf link then Inr None
      else
        res_bind (same_query_filter_surface current_url (dl_url link)) (\<lambda>same.
          if \<not> same then Inr None
          else
            res_bind (query_filter_changes current_url (dl_url link)) (\<lambda>changes.
              if changes = [] then Inr None
              else
                (let resets = filter (\<lambda>(k, b, a). b \<noteq> [] \<and> a = []) changes;
                     nonempty = filter (\<lambda>(k, b, a). a \<noteq> []) changes;
                     mk = (\<lambda>(k, b, a) all n. Inferred (dl_url link) (dl_confidence link) (''query:'' @ k) a all n)
                 in if resets \<noteq> [] then Inr (Some (mk (best_query_change resets) True (length resets)))
                    else if nonempty = []
                    then Inr (Some (mk (best_query_change changes)
                           (is_all_filter_label (map_option ls_anchor_text signal)) 0))
                    else Inr (Some (mk (best_query_change nonempty) False 0))))))"

definition choose_all_reslice :: "reslice list \<Rightarrow> reslice" where
  "choose_all_reslice rs =
     hd (sort_key (\<lambda>r. (- int (rs_reset_count r), reslice_axis_rank (facet_axis r), rs_url r)) rs)"

definition choose_reslice_axis :: "reslice list \<Rightarrow> string" where
  "choose_reslice_axis rs =
     hd (sort_key (\<lambda>axis. (reslice_axis_rank axis, axis)) (remdups (map facet_axis rs)))"

definition reslice_metadata :: "reslice \<Rightarrow> string \<Rightarrow> metadata" where
  "reslice_metadata r axis =
     [(''label'', JStr ''reslice''), (''reslice'', JBool True), (''facet_axis'', JStr axis)] @
     (case r of
        Decided _ \<Rightarrow> []
      | Inferred _ _ _ v b _ \<Rightarrow>
          [(''facet_kind'', JStr ''query_filter''), (''facet_value'', JStr v), (''facet_is_all'', JBool b)])"

section \<open>Creating nodes\<close>

definition decide_page ::
    "handler_deps \<Rightarrow> page_snapshot \<Rightarrow> link_signal list \<Rightarrow> claimed_node \<Rightarrow> decision prog" where
  "decide_page deps snapshot candidates node =
     bnd (lift_exn (hd_decide deps snapshot candidates node)) (\<lambda>reply.
       lift_py (parse_decision (hd_py deps) reply candidates))"

definition child_spec ::
    "handler_deps \<Rightarrow> claimed_node \<Rightarrow> node_type \<Rightarrow> string \<Rightarrow> rat option \<Rightarrow> metadata \<Rightarrow> string option \<Rightarrow>
     string \<times> metadata \<Rightarrow> (key_error, node_spec) result" where
  "child_spec deps parent ty url confidence meta identity_url resolved =
     (let child_url = fst resolved;
          canonical = (if child_url \<noteq> url then child_url else str_or identity_url url);
          node_meta = merge_metadata [Some meta,
             Some [(''identity_url'', JStr canonical), (''discovered_from_url'', JStr url)], Some (snd resolved)]
      in url_node_spec ty child_url (hd_settings deps) (Some (hd_run_id deps)) (cn_org_unit_id parent)
           (cn_org_unit_name parent) (child_depth parent) (Some node_meta) Pending confidence (Some canonical)
           (cn_org_unit_id parent \<noteq> None))"

definition create_resolved_child ::
    "handler_deps \<Rightarrow> claimed_node \<Rightarrow> node_type \<Rightarrow> string \<Rightarrow> edge_type \<Rightarrow> rat option \<Rightarrow> metadata \<Rightarrow>
     string option \<Rightarrow> (string \<times> metadata) option \<Rightarrow> nat option prog" where
  "create_resolved_child deps parent ty url edge confidence meta identity_url resolved =
     (case resolved of
        None \<Rightarrow> ret None
      | Some r \<Rightarrow>
          bnd (lift_key (child_spec deps parent ty url confidence meta identity_url r)) (\<lambda>spec.
          bnd (cmd (upsert_node spec)) (\<lambda>child_id.
          thn (cmd (add_edge (cn_id parent) child_id edge confidence (ns_metadata spec)))
              (ret (Some child_id)))))"

definition create_child ::
    "handler_deps \<Rightarrow> claimed_node \<Rightarrow> node_type \<Rightarrow> string \<Rightarrow> edge_type \<Rightarrow> rat option \<Rightarrow> metadata \<Rightarrow>
     string option \<Rightarrow> nat option prog" where
  "create_child deps parent ty url edge confidence meta identity_url =
     bnd (lift_url (resolve_discovered_url url))
       (create_resolved_child deps parent ty url edge confidence meta identity_url)"

definition settle ::
    "handler_deps \<Rightarrow> claimed_node \<Rightarrow> node_status \<Rightarrow> string option \<Rightarrow> string option \<Rightarrow> unit prog" where
  "settle deps node status last_error content_hash =
     cmd (mark_node (hd_now deps) (cn_id node) status last_error content_hash None False)"

definition set_org_status :: "claimed_node \<Rightarrow> string \<Rightarrow> unit prog" where
  "set_org_status node status =
     (case cn_org_unit_id node of None \<Rightarrow> ret () | Some i \<Rightarrow> cmd (update_org_unit_status i status))"

section \<open>Org listings and org units\<close>

definition create_college ::
    "handler_deps \<Rightarrow> claimed_node \<Rightarrow> page_snapshot \<Rightarrow>
     (decided_link \<times> string) \<times> (string \<times> metadata) option \<Rightarrow> unit prog" where
  "create_college deps node snapshot entry =
     (case snd entry of
        None \<Rightarrow> ret ()
      | Some (college_url, resolved_meta) \<Rightarrow>
          (let link = fst (fst entry); name = snd (fst entry)
           in bnd (cmd (upsert_org_unit \<lparr>os_name = name, os_url = college_url, os_kind = ''college'',
                      os_status = ''pending'', os_discovered_from_url = Some (sn_url snapshot)\<rparr>)) (\<lambda>org_id.
              bnd (lift_key (org_node_spec (Some org_id) name college_url (hd_settings deps) (Some (hd_run_id deps))
                     Pending (child_depth node)
                     (Some (merge_metadata [Some [(''discovered_from_url'', JStr (sn_url snapshot)),
                        (''identity_url'', JStr college_url), (''source_url'', JStr (dl_url link))],
                        Some resolved_meta])))) (\<lambda>spec.
              bnd (cmd (upsert_node spec)) (\<lambda>org_node_id.
              thn (cmd (add_edge (cn_id node) org_node_id Discovered_on_page (Some (dl_confidence link)) None))
                  (ret ()))))))"

definition college_links :: "py_env \<Rightarrow> decided_link list \<Rightarrow> (decided_link \<times> string) list" where
  "college_links env links =
     List.map_filter (\<lambda>l.
        if link_excluded l \<or> dl_label l \<noteq> ''college'' then None
        else map_option (\<lambda>n. (l, n)) (clean_org_unit_name env (dl_org_unit_name l))) links"

definition handle_org_listing :: "handler_deps \<Rightarrow> claimed_node \<Rightarrow> page_snapshot \<Rightarrow> unit prog" where
  "handle_org_listing deps node snapshot =
     bnd (decide_page deps snapshot (sn_signals snapshot) node) (\<lambda>decision.
       (let links = college_links (hd_py deps) (de_links decision)
        in bnd (for_each (\<lambda>l. lift_url (resolve_discovered_url (dl_url (fst l)))) links) (\<lambda>resolved.
           thn (for_each (create_college deps node snapshot) (zip links resolved))
               (settle deps node Done None (Some (sn_content_hash snapshot))))))"

definition org_unit_child ::
    "handler_deps \<Rightarrow> claimed_node \<Rightarrow> decided_link \<Rightarrow> nat option prog" where
  "org_unit_child deps node link =
     (let mk = (\<lambda>ty edge. create_child deps node ty (dl_url link) edge (Some (dl_confidence link))
                  [(''label'', JStr (dl_label link))] None)
      in if link_excluded link then ret None
         else if dl_label link = ''faculty_list'' then mk Faculty_list_url Belongs_to_org_unit
         else if dl_label link = ''followup'' then mk Faculty_followup_url Discovered_on_page
         else if dl_label link = ''detail'' then mk Detail_url Detail_candidate_of
         else ret None)"

definition handle_org_unit :: "handler_deps \<Rightarrow> claimed_node \<Rightarrow> page_snapshot \<Rightarrow> unit prog" where
  "handle_org_unit deps node snapshot =
     thn (set_org_status node ''in_progress'')
     (bnd (decide_page deps snapshot (sn_signals snapshot) node) (\<lambda>decision.
        (case de_page_exclusion_reason decision of
           Some reason \<Rightarrow>
             thn (set_org_status node ''no_faculty_page'')
                 (settle deps node Skipped (Some (''excluded:'' @ reason)) (Some (sn_content_hash snapshot)))
         | None \<Rightarrow>
             bnd (if within_depth node (hd_settings deps)
                  then for_each (org_unit_child deps node) (de_links decision) else ret []) (\<lambda>children.
               if count_some children > 0
               then thn (set_org_status node ''completed'')
                      (settle deps node Done None (Some (sn_content_hash snapshot)))
               else thn (set_org_status node ''no_faculty_page'')
                      (settle deps node Skipped (Some ''no_faculty_page'') None)))))"

section \<open>Faculty pages\<close>

definition create_url_pagination_nodes ::
    "handler_deps \<Rightarrow> claimed_node \<Rightarrow> page_snapshot \<Rightarrow> string list \<Rightarrow> nat prog" where
  "create_url_pagination_nodes deps node snapshot exclude_urls =
     (if \<not> within_depth node (hd_settings deps) then ret 0
      else
        bnd (lift_url (find_url_pagination snapshot (sn_url snapshot))) (\<lambda>cands.
        bnd (for_each (\<lambda>c. create_child deps node Pagination_url (pg_url c) Pagination_of None
               [(''label'', (case pg_label c of None \<Rightarrow> JNull | Some t \<Rightarrow> JStr t)),
                (''page_index'', JInt (int (pg_page_index c))), (''pagination_kind'', JStr ''url'')] None)
              (filter (\<lambda>c. pg_url c \<notin> set exclude_urls) cands)) (\<lambda>children.
          ret (count_some children))))"

definition action_json :: "pagination_state \<Rightarrow> json" where
  "action_json s =
     JDict [(''kind'', JStr (ps_kind s)), (''form_name'', JStr (ps_form_name s)),
       (''fields'', JDict (map (\<lambda>(k, v). (k, JStr v)) (ps_fields s))), (''submit'', JBool (ps_submit s)),
       (''synthetic_url'', JStr (ps_synthetic_url s)), (''label'', JStr (ps_label s)),
       (''page_index'', JInt (ps_page_index s)), (''state_id'', JStr (ps_state_id s))]"

definition create_form_pagination_nodes ::
    "handler_deps \<Rightarrow> claimed_node \<Rightarrow> page_snapshot \<Rightarrow> nat prog" where
  "create_form_pagination_nodes deps node snapshot =
     (if \<not> within_depth node (hd_settings deps) then ret 0
      else
        bnd (lift_url (extract_form_pagination_states (hd_html deps) (hd_raw_html deps) (sn_url snapshot))) (\<lambda>parsed.
        bnd (for_each (\<lambda>s. create_child deps node Pagination_url (ps_url s) Pagination_of None
               [(''identity_url'', JStr (ps_synthetic_url s)), (''fetch_action'', action_json s),
                (''pagination_kind'', JStr ''form''), (''page_index'', JInt (ps_page_index s)),
                (''state_id'', JStr (ps_state_id s))] (Some (ps_synthetic_url s)))
              (merge_pagination_states (hd_reported_states deps) parsed)) (\<lambda>children.
          ret (count_some children))))"

definition reslice_child ::
    "handler_deps \<Rightarrow> claimed_node \<Rightarrow> string \<Rightarrow> reslice \<Rightarrow> nat option prog" where
  "reslice_child deps node axis r =
     create_child deps node Faculty_followup_url (rs_url r) Discovered_on_page (Some (rs_confidence r))
       (reslice_metadata r axis) None"

definition materialize_reslices ::
    "handler_deps \<Rightarrow> claimed_node \<Rightarrow> reslice list \<Rightarrow> bool \<Rightarrow> bool \<Rightarrow> nat prog" where
  "materialize_reslices deps node rs yields_people over_budget =
     (if rs = [] then ret 0
      else if over_budget then ret 0
      else
        (let alls = filter rs_is_all rs
         in if alls \<noteq> [] then
              (let chosen = choose_all_reslice alls
               in bnd (reslice_child deps node (facet_axis chosen) chosen) (\<lambda>c. ret (count_some [c])))
            else if yields_people then ret 0
            else
              (let axis = choose_reslice_axis rs
               in bnd (for_each (reslice_child deps node axis) (filter (\<lambda>r. facet_axis r = axis) rs)) (\<lambda>cs.
                    ret (count_some cs)))))"

definition materialize_link ::
    "handler_deps \<Rightarrow> claimed_node \<Rightarrow> bool \<Rightarrow> (string \<times> (string \<times> metadata) option) list \<Rightarrow> decided_link \<Rightarrow>
     nat option prog" where
  "materialize_link deps node over_budget resolved link =
     (let mk = (\<lambda>ty edge extra. create_resolved_child deps node ty (dl_url link) edge (Some (dl_confidence link))
                  ((''label'', JStr (dl_label link)) # extra) None
                  (case map_of resolved (dl_url link) of None \<Rightarrow> None | Some r \<Rightarrow> r))
      in if dl_label link = ''detail'' \<or> dl_is_leaf link then mk Detail_url Detail_candidate_of []
         else if dl_label link = ''pagination'' then
           (if over_budget then ret None
            else mk Pagination_url Pagination_of [(''pagination_kind'', JStr ''decider'')])
         else if dl_label link = ''followup'' then
           (if over_budget then ret None else mk Faculty_followup_url Discovered_on_page [])
         else ret None)"

text \<open>Splitting the actionable links into inferred re-slices and regular links.\<close>

definition split_links ::
    "string \<Rightarrow> filter_result \<Rightarrow> decided_link list \<Rightarrow> (url_error, reslice list \<times> decided_link list) result" where
  "split_links url fr links =
     res_fold (\<lambda>l acc.
        res_bind (infer_query_filter_reslice url l (map_of (rev (map (\<lambda>s. (ls_url s, s)) (fl_kept fr))) (dl_url l)))
          (\<lambda>r. case r of
               Some x \<Rightarrow> Inr (fst acc @ [x], snd acc)
             | None \<Rightarrow> Inr (fst acc, snd acc @ [l]))) links ([], [])"

definition materialize_decided ::
    "handler_deps \<Rightarrow> claimed_node \<Rightarrow> page_snapshot \<Rightarrow> decision \<Rightarrow> filter_result \<Rightarrow> nat \<Rightarrow> bool \<Rightarrow> nat prog" where
  "materialize_decided deps node snapshot decision fr pagination_created over_budget =
     (if \<not> within_depth node (hd_settings deps) then ret 0
      else
        bnd (lift_url (split_links (sn_url snapshot) fr
               (filter (\<lambda>l. \<not> link_excluded l) (de_links decision)))) (\<lambda>(inferred, regular).
          (let links = filter (\<lambda>l. dl_label l \<noteq> ''reslice'') regular;
               has_detail = list_ex (\<lambda>l. dl_label l = ''detail'' \<or> dl_is_leaf l) links;
               has_followup = list_ex (\<lambda>l. dl_label l = ''followup'') regular;
               yields_people = (has_detail \<or> has_followup \<or> pagination_created > 0);
               reslices = map Decided (filter (\<lambda>l. dl_label l = ''reslice'') regular) @ inferred
           in bnd (for_each (\<lambda>l. lift_url (resolve_discovered_url (dl_url l))) links) (\<lambda>resolved.
              bnd (for_each (materialize_link deps node over_budget (zip (map dl_url links) resolved)) links) (\<lambda>cs.
              bnd (materialize_reslices deps node reslices yields_people over_budget) (\<lambda>n.
                (let count = count_some cs + n
                 in if de_parse_error decision then raise (Runtime_error ''decider_invalid_json'')
                    else if fl_kept fr \<noteq> [] \<and> count = 0 \<and> de_links decision = []
                    then raise (Runtime_error ''decider_no_navigation_links'')
                    else ret count)))))))"

definition budget_decision :: "claimed_node \<Rightarrow> nat \<Rightarrow> pending_decision" where
  "budget_decision node n =
     \<lparr>pd_id = ''facet_budget:'' @ (case cn_org_unit_id node of None \<Rightarrow> ''None'' | Some i \<Rightarrow> nat_str i),
      pd_kind = ''facet_budget'', pd_org_unit_name = str_or (cn_org_unit_name node) [],
      pd_failure_count = int n, pd_sample_urls = [], pd_suggested_action = ''stop_subtree'',
      pd_status = ''pending'', pd_action = None, pd_resolved_at = None\<rparr>"

definition maybe_set_budget_decision :: "claimed_node \<Rightarrow> nat \<Rightarrow> unit prog" where
  "maybe_set_budget_decision node n w =
     (Inr (), case w_center w of
                Some None \<Rightarrow> w\<lparr>w_center := Some (set_decision (budget_decision node n) None)\<rparr>
              | _ \<Rightarrow> w)"

definition over_facet_budget :: "claimed_node \<Rightarrow> handler_deps \<Rightarrow> bool prog" where
  "over_facet_budget node deps =
     (case cn_org_unit_id node of
        None \<Rightarrow> ret False
      | Some org \<Rightarrow>
          (let budget = cf_facet_node_budget (hd_settings deps)
           in if budget \<le> 0 then ret False
              else
                bnd (cmd (count_subtree_facet_nodes org)) (\<lambda>n.
                  if int n < budget then ret False
                  else thn (maybe_set_budget_decision node n) (ret True))))"

text \<open>The guarded materialisation at the end of \<open>handle_faculty_page\<close>: only a
  \<open>RuntimeError\<close> is caught.\<close>

definition finish_faculty_page ::
    "handler_deps \<Rightarrow> claimed_node \<Rightarrow> page_snapshot \<Rightarrow> decision \<Rightarrow> filter_result \<Rightarrow> nat \<Rightarrow> bool \<Rightarrow> unit prog" where
  "finish_faculty_page deps node snapshot decision fr created over_budget =
     bnd (catch (bnd (materialize_decided deps node snapshot decision fr created over_budget) (\<lambda>_. ret None))
            (\<lambda>e. case e of
                 Runtime_error msg \<Rightarrow> ret (Some (if msg = [] then ''decider_failed'' else msg))
               | _ \<Rightarrow> raise e)) (\<lambda>failed.
       (case failed of
          Some reason \<Rightarrow> settle deps node Retry (Some reason) (Some (sn_content_hash snapshot))
        | None \<Rightarrow> settle deps node Done None (Some (sn_content_hash snapshot))))"

definition handle_faculty_page :: "handler_deps \<Rightarrow> claimed_node \<Rightarrow> page_snapshot \<Rightarrow> unit prog" where
  "handle_faculty_page deps node snapshot =
     bnd (lift_url (filter_navigation_candidates snapshot [] True (sn_url snapshot))) (\<lambda>fr.
     bnd (decide_page deps snapshot (fl_kept fr) node) (\<lambda>decision.
       (case de_page_exclusion_reason decision of
          Some reason \<Rightarrow>
            settle deps node Skipped (Some (''excluded:'' @ reason)) (Some (sn_content_hash snapshot))
        | None \<Rightarrow>
            bnd (over_facet_budget node deps) (\<lambda>over_budget.
            bnd (if over_budget then ret 0
                 else
                   bnd (lift_url (detail_like_urls snapshot)) (\<lambda>details.
                   bnd (create_url_pagination_nodes deps node snapshot details) (\<lambda>a.
                   bnd (create_form_pagination_nodes deps node snapshot) (\<lambda>b. ret (a + b))))) (\<lambda>created.
              finish_faculty_page deps node snapshot decision fr created over_budget)))))"

section \<open>Details and dispatch\<close>

definition handle_detail :: "claimed_node \<Rightarrow> page_snapshot \<Rightarrow> unit prog" where
  "handle_detail node snapshot w =
     (Inr (), w\<lparr>w_extract_queue := w_extract_queue w @
        [\<lparr>et_node_id = cn_id node, et_node_key = cn_node_key node, et_snapshot = snapshot,
          et_org_unit_id = cn_org_unit_id node, et_org_unit_name = str_or (cn_org_unit_name node) [],
          et_attempt_count = cn_attempt_count node\<rparr>]\<rparr>)"

definition dispatch :: "handler_deps \<Rightarrow> claimed_node \<Rightarrow> page_snapshot \<Rightarrow> unit prog" where
  "dispatch deps node snapshot =
     (case cn_type node of
        Org_listing_url \<Rightarrow> handle_org_listing deps node snapshot
      | Org_unit \<Rightarrow> handle_org_unit deps node snapshot
      | Detail_url \<Rightarrow> handle_detail node snapshot
      | _ \<Rightarrow> handle_faculty_page deps node snapshot)"

section \<open>What programs return\<close>

text \<open>\<open>yields m P\<close>: a value \<open>m\<close> returns satisfies \<open>P\<close>. \<open>ends m Q\<close>: the world in which \<open>m\<close>
  returns satisfies \<open>Q\<close>.\<close>

definition yields :: "'a prog \<Rightarrow> ('a \<Rightarrow> bool) \<Rightarrow> bool" where
  "yields m P = (\<forall>w a w'. m w = (Inr a, w') \<longrightarrow> P a)"

definition ends :: "'a prog \<Rightarrow> (world \<Rightarrow> bool) \<Rightarrow> bool" where
  "ends m Q = (\<forall>w a w'. m w = (Inr a, w') \<longrightarrow> Q w')"

lemma yieldsD: "yields m P \<Longrightarrow> m w = (Inr a, w') \<Longrightarrow> P a"
  by (auto simp: yields_def)

lemma keeps_bnd_yields:
  assumes "keeps I m" "yields m P" "\<And>a. P a \<Longrightarrow> keeps I (f a)"
  shows "keeps I (bnd m f)"
  unfolding keeps_def
proof (intro allI impI)
  fix w :: world assume I: "I (w_store w)"
  show "I (w_store (snd (bnd m f w)))"
  proof (cases "m w")
    case (Pair r w')
    have I': "I (w_store w')" using keepsD [OF assms(1) I] Pair by simp
    show ?thesis
    proof (cases r)
      case (Inl e)
      then show ?thesis using Pair I' by (simp add: bnd_def)
    next
      case (Inr a)
      then have "P a" using assms(2) Pair by (auto simp: yields_def)
      with keepsD [OF assms(3) I'] Pair Inr show ?thesis by (simp add: bnd_def)
    qed
  qed
qed

lemma yields_lift_url: "yields (lift_url r) (\<lambda>a. r = Inr a)"
  by (auto simp: yields_def lift_url_def raise_def ret_def split: sum.splits)

lemma yields_lift_key: "yields (lift_key r) (\<lambda>a. r = Inr a)"
  by (auto simp: yields_def lift_key_def raise_def ret_def split: sum.splits)

lemma yields_for_each:
  assumes "\<And>x. x \<in> set xs \<Longrightarrow> yields (f x) P"
  shows "yields (for_each f xs) (\<lambda>ys. \<forall>y \<in> set ys. P y)"
  using assms
proof (induction xs)
  case (Cons x xs)
  show ?case unfolding yields_def
  proof (intro allI impI)
    fix w a w' assume run: "for_each f (x # xs) w = (Inr a, w')"
    then obtain y w1 ys where y: "f x w = (Inr y, w1)" and ys: "for_each f xs w1 = (Inr ys, w')"
      and a: "a = y # ys"
      by (auto simp: bnd_def ret_def split: prod.splits sum.splits)
    have yx: "yields (f x) P" using Cons.prems by simp
    have yxs: "yields (for_each f xs) (\<lambda>ys. \<forall>y \<in> set ys. P y)" using Cons by simp
    show "\<forall>y \<in> set a. P y" using yieldsD [OF yx y] yieldsD [OF yxs ys] by (simp add: a)
  qed
qed (simp add: yields_def ret_def)

lemma ends_bnd: "(\<And>a. ends (f a) Q) \<Longrightarrow> ends (bnd m f) Q"
  by (fastforce simp: ends_def bnd_def split: prod.splits sum.splits)

lemma ends_thn: "ends n Q \<Longrightarrow> ends (thn m n) Q"
  by (simp add: thn_def ends_bnd)

section \<open>Invariants of the handlers\<close>

definition url_allowed :: "string \<Rightarrow> bool" where
  "url_allowed url = (is_allowed_fetch_host url = Inr True)"

definition resolved_ok :: "(string \<times> metadata) option \<Rightarrow> bool" where
  "resolved_ok r = (case r of None \<Rightarrow> True | Some x \<Rightarrow> url_allowed (fst x))"

lemma resolve_discovered_url_ok: "resolve_discovered_url url = Inr r \<Longrightarrow> resolved_ok r"
  by (auto simp: resolve_discovered_url_def resolved_ok_def url_allowed_def elim!: res_bind_InrE)

lemma yields_resolve: "yields (lift_url (resolve_discovered_url url)) resolved_ok"
  using yields_lift_url [of "resolve_discovered_url url"] resolve_discovered_url_ok
  by (auto simp: yields_def)

lemma url_node_spec_fields:
  "url_node_spec ty url s run org nm d md stat c key sub = Inr spec \<Longrightarrow>
     ns_type spec = ty \<and> ns_url spec = url \<and> ns_depth spec = d \<and> ns_org_unit_id spec = org \<and> ns_status spec = stat"
  by (auto simp: url_node_spec_def make_spec_def elim!: res_bind_InrE)

lemma org_node_spec_fields:
  "org_node_spec org nm url s run stat d md = Inr spec \<Longrightarrow>
     ns_type spec = Org_unit \<and> ns_url spec = url \<and> ns_depth spec = d \<and> ns_org_unit_id spec = org"
  by (auto simp: org_node_spec_def make_spec_def elim!: res_bind_InrE)

lemma child_spec_fields:
  "child_spec deps parent ty url c md idu r = Inr spec \<Longrightarrow>
     ns_type spec = ty \<and> ns_url spec = fst r \<and> ns_depth spec = child_depth parent \<and>
     ns_org_unit_id spec = cn_org_unit_id parent"
  by (auto simp: child_spec_def Let_def dest: url_node_spec_fields)

text \<open>The interface of an invariant of the crawl graph: it survives the commands the handlers
  issue, node upserts being restricted to allowed URLs and to the node types \<open>T\<close>.\<close>

locale crawl_invariant =
  fixes I :: "store \<Rightarrow> bool" and T :: "node_type set"
  assumes on_org: "I st \<Longrightarrow> upsert_org_unit os st = Inr (st', i) \<Longrightarrow> I st'"
    and on_node: "I st \<Longrightarrow> url_allowed (ns_url spec) \<Longrightarrow> ns_type spec \<in> T \<Longrightarrow>
      upsert_node spec st = Inr (st', i) \<Longrightarrow> I st'"
    and on_edge: "I st \<Longrightarrow> add_edge a b ty c md st = Inr (st', i) \<Longrightarrow> I st'"
    and on_mark: "I st \<Longrightarrow> mark_node now k s le ch nr inc st = Inr (st', x) \<Longrightarrow> I st'"
    and on_status: "I st \<Longrightarrow> update_org_unit_status k s0 st = Inr (st', x) \<Longrightarrow> I st'"
begin

lemma keeps_edge [keeps_intros]: "keeps I (cmd (add_edge a b ty c md))"
  by (rule keeps_cmd) (rule on_edge)

lemma keeps_settle [keeps_intros]: "keeps I (settle deps node s le ch)"
  unfolding settle_def by (rule keeps_cmd) (rule on_mark)

lemma keeps_org_status [keeps_intros]: "keeps I (set_org_status node s)"
  unfolding set_org_status_def
  by (intro keeps_intros keeps_cmd) (rule on_status)

lemma keeps_upsert_org [keeps_intros]: "keeps I (cmd (upsert_org_unit os))"
  by (rule keeps_cmd) (rule on_org)

lemma keeps_upsert_node:
  "url_allowed (ns_url spec) \<Longrightarrow> ns_type spec \<in> T \<Longrightarrow> keeps I (cmd (upsert_node spec))"
  by (rule keeps_cmd) (rule on_node)

lemma keeps_count [keeps_intros]: "keeps I (cmd (count_subtree_facet_nodes org))"
  by (rule keeps_cmd) (simp add: count_subtree_facet_nodes_def)

lemma keeps_decide [keeps_intros]: "keeps I (decide_page deps snapshot cands node)"
  unfolding decide_page_def by (intro keeps_intros)

lemma keeps_create_resolved:
  assumes "ty \<in> T" "resolved_ok r"
  shows "keeps I (create_resolved_child deps parent ty url e c md idu r)"
proof (cases r)
  case (Some x)
  have "keeps I (bnd (lift_key (child_spec deps parent ty url c md idu x)) (\<lambda>spec.
          bnd (cmd (upsert_node spec)) (\<lambda>child_id.
          thn (cmd (add_edge (cn_id parent) child_id e c (ns_metadata spec))) (ret (Some child_id)))))"
  proof (rule keeps_bnd_yields [OF _ yields_lift_key])
    fix spec assume "child_spec deps parent ty url c md idu x = Inr spec"
    with assms Some have "url_allowed (ns_url spec)" "ns_type spec \<in> T"
      by (auto simp: resolved_ok_def dest: child_spec_fields)
    then show "keeps I (bnd (cmd (upsert_node spec)) (\<lambda>child_id.
          thn (cmd (add_edge (cn_id parent) child_id e c (ns_metadata spec))) (ret (Some child_id))))"
      by (intro keeps_intros keeps_upsert_node)
  qed (intro keeps_intros)
  with Some show ?thesis by (simp add: create_resolved_child_def)
qed (simp add: create_resolved_child_def keeps_ret)

lemma keeps_create_child:
  assumes "ty \<in> T"
  shows "keeps I (create_child deps parent ty url e c md idu)"
  unfolding create_child_def
  by (rule keeps_bnd_yields [OF _ yields_resolve]) (auto intro: keeps_intros keeps_create_resolved assms)

lemma keeps_materialize_link:
  assumes "Detail_url \<in> T" "\<not> ob \<Longrightarrow> T = UNIV" "\<forall>x \<in> set resolved. resolved_ok (snd x)"
  shows "keeps I (materialize_link deps node ob resolved link)"
proof -
  have ok: "resolved_ok (case map_of resolved u of None \<Rightarrow> None | Some r \<Rightarrow> r)" for u
    using assms(3) by (auto simp: resolved_ok_def split: option.split dest!: map_of_SomeD)
  show ?thesis unfolding materialize_link_def Let_def
    using assms(1,2) by (cases ob) (auto intro!: keeps_intros keeps_create_resolved ok)
qed

lemma keeps_materialize_reslices:
  assumes "\<not> ob \<Longrightarrow> T = UNIV"
  shows "keeps I (materialize_reslices deps node rs yp ob)"
  unfolding materialize_reslices_def reslice_child_def Let_def
  using assms by (cases ob) (auto intro!: keeps_intros keeps_create_child)

lemma keeps_materialize_decided:
  assumes "Detail_url \<in> T" "\<not> ob \<Longrightarrow> T = UNIV"
  shows "keeps I (materialize_decided deps node snapshot decision fr pc ob)"
proof -
  have zip_ok: "\<forall>x \<in> set (zip us rs). resolved_ok (snd x)" if "\<forall>r \<in> set rs. resolved_ok r" for us :: "string list" and rs
    using that by (auto dest: set_zip_rightD)
  have y: "yields (for_each (\<lambda>l. lift_url (resolve_discovered_url (dl_url l))) links) (\<lambda>ys. \<forall>y \<in> set ys. resolved_ok y)" for links
    by (rule yields_for_each) (rule yields_resolve)
  have step: "keeps I (bnd (for_each (\<lambda>l. lift_url (resolve_discovered_url (dl_url l))) links) (\<lambda>resolved.
      bnd (for_each (materialize_link deps node ob (zip (map dl_url links) resolved)) links) g))"
    if "\<And>cs. keeps I (g cs)" for links and g :: "nat option list \<Rightarrow> nat prog"
    by (rule keeps_bnd_yields [OF _ y])
      (auto intro!: keeps_intros keeps_materialize_link assms zip_ok that)
  show ?thesis unfolding materialize_decided_def Let_def split_beta
    by (intro keeps_if keeps_ret keeps_bnd [OF keeps_lift(1)] step)
      (intro keeps_bnd keeps_materialize_reslices keeps_if keeps_raise keeps_ret assms)
qed

end

context crawl_invariant
begin

lemma keeps_create_college:
  assumes "Org_unit \<in> T" "resolved_ok (snd entry)"
  shows "keeps I (create_college deps node snapshot entry)"
proof (cases "snd entry")
  case (Some x)
  have ok: "url_allowed (fst x)" using assms(2) Some by (simp add: resolved_ok_def)
  have step: "keeps I (bnd (lift_key (org_node_spec oid nm (fst x) s run stat d md)) (\<lambda>spec.
      bnd (cmd (upsert_node spec)) g))" if "\<And>i. keeps I (g i)" for oid nm s run stat d md and g :: "nat \<Rightarrow> unit prog"
  proof (rule keeps_bnd_yields [OF _ yields_lift_key])
    fix spec assume "org_node_spec oid nm (fst x) s run stat d md = Inr spec"
    with ok assms(1) have "url_allowed (ns_url spec)" "ns_type spec \<in> T"
      by (auto dest: org_node_spec_fields)
    then show "keeps I (bnd (cmd (upsert_node spec)) g)"
      by (intro keeps_bnd keeps_upsert_node that)
  qed (intro keeps_intros)
  show ?thesis
    using Some by (simp add: create_college_def Let_def split_beta)
      (intro keeps_bnd [OF keeps_upsert_org] step keeps_thn keeps_edge keeps_ret)
qed (simp add: create_college_def keeps_ret)

lemma keeps_org_listing:
  assumes "Org_unit \<in> T"
  shows "keeps I (handle_org_listing deps node snapshot)"
proof -
  have y: "yields (for_each (\<lambda>l. lift_url (resolve_discovered_url (dl_url (fst l)))) links) (\<lambda>ys. \<forall>y \<in> set ys. resolved_ok y)"
    for links :: "(decided_link \<times> string) list"
    by (rule yields_for_each) (rule yields_resolve)
  have "keeps I (for_each (create_college deps node snapshot) (zip links resolved))"
    if "\<forall>r \<in> set resolved. resolved_ok r" for links resolved
    using that by (intro keeps_for_each keeps_create_college assms) (auto dest: set_zip_rightD)
  then show ?thesis unfolding handle_org_listing_def Let_def
    by (intro keeps_bnd keeps_decide keeps_bnd_yields [OF _ y] keeps_thn keeps_settle) (auto intro: keeps_intros)
qed

lemma keeps_org_unit:
  assumes "T = UNIV"
  shows "keeps I (handle_org_unit deps node snapshot)"
  unfolding handle_org_unit_def org_unit_child_def Let_def
  by (intro keeps_intros keeps_create_child) (simp_all add: assms)

lemma keeps_url_pagination:
  "Pagination_url \<in> T \<Longrightarrow> keeps I (create_url_pagination_nodes deps node snapshot ex)"
  unfolding create_url_pagination_nodes_def by (intro keeps_intros keeps_create_child)

lemma keeps_form_pagination:
  "Pagination_url \<in> T \<Longrightarrow> keeps I (create_form_pagination_nodes deps node snapshot)"
  unfolding create_form_pagination_nodes_def by (intro keeps_intros keeps_create_child)

lemma keeps_budget_decision [keeps_intros]: "keeps I (maybe_set_budget_decision node n)"
  by (simp add: keeps_def maybe_set_budget_decision_def split: option.split)

lemma keeps_over_budget [keeps_intros]: "keeps I (over_facet_budget node deps)"
  unfolding over_facet_budget_def Let_def by (intro keeps_intros)

lemma keeps_exn_case [keeps_intros]:
  "(\<And>m. keeps I (f m)) \<Longrightarrow> keeps I (case e of Runtime_error m \<Rightarrow> f m | _ \<Rightarrow> raise e)"
  by (cases e) (simp_all add: keeps_raise)

lemma keeps_finish_page:
  assumes "Detail_url \<in> T" "\<not> ob \<Longrightarrow> T = UNIV"
  shows "keeps I (finish_faculty_page deps node snapshot decision fr created ob)"
  unfolding finish_faculty_page_def
  by (intro keeps_intros keeps_materialize_decided assms)

lemma keeps_faculty_page:
  assumes "T = UNIV"
  shows "keeps I (handle_faculty_page deps node snapshot)"
  unfolding handle_faculty_page_def
  by (intro keeps_intros keeps_url_pagination keeps_form_pagination keeps_finish_page)
    (simp_all add: assms)

lemma keeps_detail: "keeps I (handle_detail node snapshot)"
  by (simp add: keeps_def handle_detail_def)

lemma keeps_dispatch:
  assumes "T = UNIV"
  shows "keeps I (dispatch deps node snapshot)"
  unfolding dispatch_def
  using keeps_org_listing keeps_org_unit keeps_faculty_page keeps_detail assms
  by (simp split: node_type.split)

end

interpretation inv_crawl: crawl_invariant store_inv UNIV
  by unfold_locales
    (blast intro: upsert_org_unit_keeps upsert_node_keeps add_edge_keeps mark_node_keeps update_org_unit_status_keeps)+

definition hosts_ok :: "store \<Rightarrow> bool" where
  "hosts_ok st = (\<forall>n \<in> set (st_nodes st). url_allowed (gn_url n))"

lemma hosts_ok_nodes: "st_nodes st' = st_nodes st \<Longrightarrow> hosts_ok st' = hosts_ok st"
  by (simp add: hosts_ok_def)

lemma hosts_ok_update:
  "hosts_ok st \<Longrightarrow> (\<And>x. gn_url (f x) = gn_url x) \<Longrightarrow> hosts_ok (st\<lparr>st_nodes := update_where P f (st_nodes st)\<rparr>)"
  by (auto simp: hosts_ok_def elim!: mem_update_whereE)

interpretation host_crawl: crawl_invariant hosts_ok UNIV
proof
  fix st st' :: store and i :: nat
  show "hosts_ok st'" if "hosts_ok st" "upsert_org_unit os st = Inr (st', i)" for os
    using that by (auto simp: upsert_org_unit_def Let_def hosts_ok_def split: option.splits if_splits)
  show "hosts_ok st'" if "hosts_ok st" "url_allowed (ns_url spec)" "upsert_node spec st = Inr (st', i)" for spec
  proof (cases "find (\<lambda>n. gn_node_key n = ns_node_key spec) (st_nodes st)")
    case None
    with that show ?thesis
      by (auto simp: upsert_node_def Let_def hosts_ok_def new_node_def split: if_splits)
  next
    case (Some n)
    with that show ?thesis
      by (auto simp: upsert_node_def rediscover_def split: if_splits intro!: hosts_ok_update)
  qed
  show "hosts_ok st'" if "hosts_ok st" "add_edge a b ty c md st = Inr (st', i)" for a b ty c md
    using that by (auto simp: add_edge_def Let_def hosts_ok_def split: option.splits if_splits)
next
  fix st st' :: store and x :: unit
  show "hosts_ok st'" if "hosts_ok st" "mark_node now k s le ch nr inc st = Inr (st', x)" for now k s le ch nr inc
    using that by (auto simp: mark_node_def mark_row_def split: if_splits intro!: hosts_ok_update)
  show "hosts_ok st'" if "hosts_ok st" "update_org_unit_status k s0 st = Inr (st', x)" for k s0
    using that by (auto simp: update_org_unit_status_def hosts_ok_def)
qed

section \<open>Facet budget\<close>

definition is_facet :: "node_type \<Rightarrow> bool" where
  "is_facet ty = (ty \<in> {Faculty_list_url, Faculty_followup_url, Pagination_url})"

definition facet_count :: "nat \<Rightarrow> store \<Rightarrow> nat" where
  "facet_count org st = length (filter (\<lambda>n. gn_org_unit_id n = Some org \<and> is_facet (gn_type n)) (st_nodes st))"

definition facets_owned :: "store \<Rightarrow> bool" where
  "facets_owned st = (\<forall>n \<in> set (st_nodes st). is_facet (gn_type n) \<longrightarrow> gn_org_unit_id n \<noteq> None)"

definition budget_inv :: "nat \<Rightarrow> nat \<Rightarrow> store \<Rightarrow> bool" where
  "budget_inv org K st = (facets_owned st \<and> facet_count org st = K)"

lemma budget_inv_nodes: "st_nodes st' = st_nodes st \<Longrightarrow> budget_inv org K st' = budget_inv org K st"
  by (simp add: budget_inv_def facets_owned_def facet_count_def)

lemma filter_update_length:
  assumes "\<And>x. x \<in> set rows \<Longrightarrow> P (f x) = P x"
  shows "length (filter P (update_where Q f rows)) = length (filter P rows)"
  using assms by (induction rows) (auto simp: update_where_def)

lemma budget_inv_update:
  assumes "budget_inv org K st" "\<And>x. gn_type (f x) = gn_type x"
    "\<And>x. gn_org_unit_id x \<noteq> None \<Longrightarrow> gn_org_unit_id (f x) = gn_org_unit_id x"
  shows "budget_inv org K (st\<lparr>st_nodes := update_where Q f (st_nodes st)\<rparr>)"
proof -
  have owned: "is_facet (gn_type x) \<Longrightarrow> gn_org_unit_id (f x) = gn_org_unit_id x" if "x \<in> set (st_nodes st)" for x
    using assms(1,3) that by (auto simp: budget_inv_def facets_owned_def)
  have "facets_owned (st\<lparr>st_nodes := update_where Q f (st_nodes st)\<rparr>)"
    using assms(1,2) owned by (auto simp: budget_inv_def facets_owned_def elim!: mem_update_whereE)
  moreover have "facet_count org (st\<lparr>st_nodes := update_where Q f (st_nodes st)\<rparr>) = facet_count org st"
    unfolding facet_count_def by simp (rule filter_update_length, use assms(2) owned in auto)
  ultimately show ?thesis using assms(1) by (simp add: budget_inv_def)
qed

lemma upsert_org_unit_nodes: "upsert_org_unit os st = Inr (st', i) \<Longrightarrow> st_nodes st' = st_nodes st"
  by (cases "find (\<lambda>x. ou_url x = os_url os) (st_orgs st)")
    (auto simp: upsert_org_unit_def Let_def split: if_splits)

lemma add_edge_nodes: "add_edge a b ty c md st = Inr (st', i) \<Longrightarrow> st_nodes st' = st_nodes st"
  by (auto simp: add_edge_def Let_def split: option.splits if_splits)

interpretation budget_crawl: crawl_invariant "budget_inv org K" "{Detail_url}" for org K
proof
  fix st st' :: store and i :: nat
  show "budget_inv org K st'" if "budget_inv org K st" "upsert_org_unit os st = Inr (st', i)" for os
    using that by (simp add: budget_inv_nodes [OF upsert_org_unit_nodes])
  show "budget_inv org K st'" if "budget_inv org K st" "url_allowed (ns_url spec)" "ns_type spec \<in> {Detail_url}"
    "upsert_node spec st = Inr (st', i)" for spec
  proof (cases "find (\<lambda>n. gn_node_key n = ns_node_key spec) (st_nodes st)")
    case None
    with that show ?thesis
      by (auto simp: upsert_node_def Let_def budget_inv_def facets_owned_def facet_count_def new_node_def
          is_facet_def split: if_splits)
  next
    case (Some n)
    with that have "st' = st\<lparr>st_nodes := update_where (\<lambda>m. gn_id m = gn_id n) (rediscover spec) (st_nodes st)\<rparr>"
      by (auto simp: upsert_node_def split: if_splits)
    with that(1) show ?thesis by (simp add: budget_inv_update rediscover_def)
  qed
  show "budget_inv org K st'" if "budget_inv org K st" "add_edge a b ty c md st = Inr (st', i)" for a b ty c md
    using that by (simp add: budget_inv_nodes [OF add_edge_nodes])
next
  fix st st' :: store and x :: unit
  show "budget_inv org K st'" if "budget_inv org K st" "mark_node now k s le ch nr inc st = Inr (st', x)" for now k s le ch nr inc
    using that by (auto simp: mark_node_def mark_row_def split: if_splits intro!: budget_inv_update)
  show "budget_inv org K st'" if "budget_inv org K st" "update_org_unit_status k s0 st = Inr (st', x)" for k s0
    using that budget_inv_nodes [of st' st] by (auto simp: update_org_unit_status_def)
qed

definition pure :: "'a prog \<Rightarrow> bool" where
  "pure m = (\<forall>w. snd (m w) = w)"

lemma pure_lift: "pure (lift_url r)" "pure (lift_exn r2)" "pure (lift_py r3)" "pure (ret a)" "pure (raise e)"
  by (auto simp: pure_def lift_url_def lift_exn_def lift_py_def ret_def raise_def split: sum.split)

lemma pure_bnd: "pure m \<Longrightarrow> (\<And>a. pure (f a)) \<Longrightarrow> pure (bnd m f)"
  unfolding pure_def
proof
  fix w :: world
  assume m: "\<forall>w. snd (m w) = w" and f: "\<And>a. \<forall>w. snd (f a w) = w"
  show "snd (bnd m f w) = w"
    using m f by (cases "m w"; cases "fst (m w)") (auto simp: bnd_def dest: spec [of _ w])
qed

lemma pure_decide: "pure (decide_page deps snapshot cands node)"
  unfolding decide_page_def by (intro pure_bnd pure_lift)

lemma bnd_pure:
  assumes "pure m"
  shows "bnd m f w = (case fst (m w) of Inl e \<Rightarrow> (Inl e, w) | Inr a \<Rightarrow> f a w)"
proof -
  have "m w = (fst (m w), w)" using assms by (metis pure_def prod.collapse)
  then obtain r where "m w = (r, w)" by blast
  then show ?thesis by (cases r) (simp_all add: bnd_def)
qed

lemma over_budget_run:
  assumes "cn_org_unit_id node = Some org" "0 < cf_facet_node_budget (hd_settings deps)"
    "cf_facet_node_budget (hd_settings deps) \<le> int (facet_count org (w_store w))"
  shows "\<exists>w'. over_facet_budget node deps w = (Inr True, w') \<and> w_store w' = w_store w"
proof -
  have "cmd (count_subtree_facet_nodes org) w = (Inr (facet_count org (w_store w)), w)"
    by (simp add: cmd_def run_command_def count_subtree_facet_nodes_def facet_count_def is_facet_def)
  with assms show ?thesis
    by (auto simp: over_facet_budget_def Let_def bnd_def thn_def maybe_set_budget_decision_def ret_def
        split: option.split)
qed

lemma facet_budget_tail:
  assumes "budget_inv org K (w_store w)" "over_facet_budget node deps w = (Inr True, w')" "w_store w' = w_store w"
  shows "budget_inv org K (w_store (snd (bnd (over_facet_budget node deps) (\<lambda>over_budget.
            bnd (if over_budget then ret 0 else m) (\<lambda>created.
              finish_faculty_page deps node snapshot decision fr created over_budget)) w)))"
proof -
  have "keeps (budget_inv org K) (finish_faculty_page deps node snapshot decision fr 0 True)"
    by (rule budget_crawl.keeps_finish_page) simp_all
  from keepsD [OF this, of w'] assms show ?thesis
    by (simp add: bnd_def [of "over_facet_budget node deps"])
qed

text \<open>
  C3: The facet budget caps a college's subtree: when the college of a faculty page already has as
  many list, follow-up and pagination nodes as the budget allows, handling the page adds no
  further such node, whatever the decider answers and whether or not the handler raises; only
  detail pages are still added.
\<close>

theorem facet_budget_respected:
  assumes "cn_org_unit_id node = Some org" and "0 < cf_facet_node_budget (hd_settings deps)"
    and "cf_facet_node_budget (hd_settings deps) \<le> int (facet_count org (w_store w))"
    and "facets_owned (w_store w)"
  shows "facet_count org (w_store (snd (handle_faculty_page deps node snapshot w))) = facet_count org (w_store w)"
proof -
  let ?K = "facet_count org (w_store w)"
  have inv: "budget_inv org ?K (w_store w)" using assms(4) by (simp add: budget_inv_def)
  obtain w' where ob: "over_facet_budget node deps w = (Inr True, w')" "w_store w' = w_store w"
    using over_budget_run [OF assms(1-3)] by blast
  note tail = facet_budget_tail [OF inv ob]
  have settled: "budget_inv org ?K (w_store (snd (settle deps node s le ch w)))" for s le ch
    using keepsD [OF budget_crawl.keeps_settle inv] .
  have "budget_inv org ?K (w_store (snd (handle_faculty_page deps node snapshot w)))"
    unfolding handle_faculty_page_def bnd_pure [OF pure_lift(1)] bnd_pure [OF pure_decide]
    using inv tail settled by (simp split: sum.split option.split)
  then show ?thesis by (simp add: budget_inv_def)
qed

section \<open>Every handled page is settled\<close>

definition settled :: "nat \<Rightarrow> store \<Rightarrow> bool" where
  "settled i st = (node_exists st i \<and>
     (\<forall>n \<in> set (st_nodes st). gn_id n = i \<longrightarrow> gn_status n \<in> {Done, Skipped, Retry, Failed}))"

lemma mark_node_settles:
  assumes "s \<in> {Done, Skipped, Retry, Failed}" "mark_node now i s le ch nr inc st = Inr (st', x)"
  shows "settled i st'"
  using assms by (auto simp: mark_node_def settled_def node_exists_def mark_row_def image_update_where
      split: if_splits elim!: mem_update_whereE)

lemma ends_settle:
  assumes "s \<in> {Done, Skipped, Retry, Failed}"
  shows "ends (settle deps node s le ch) (\<lambda>w. settled (cn_id node) (w_store w))"
  using mark_node_settles [OF assms]
  by (auto simp: ends_def settle_def cmd_def run_command_def split: sum.splits prod.splits)

lemma ends_option: "(\<And>a. ends (f a) Q) \<Longrightarrow> ends m Q \<Longrightarrow> ends (case x of None \<Rightarrow> m | Some a \<Rightarrow> f a) Q"
  by (cases x) simp_all

lemma ends_if: "ends m Q \<Longrightarrow> ends n Q \<Longrightarrow> ends (if b then m else n) Q"
  by simp


text \<open>
  Handling a page keeps the crawl graph sound: the schema constraints stay true and no node
  outside the fetch allowlist is ever added, whatever the decider answers, and also when the
  handler raises half-way.
\<close>

theorem dispatch_keeps_graph_sound:
  assumes "store_inv (w_store w)" and "hosts_ok (w_store w)"
  shows "store_inv (w_store (snd (dispatch deps node snapshot w))) \<and>
    hosts_ok (w_store (snd (dispatch deps node snapshot w)))"
  using keepsD [OF inv_crawl.keeps_dispatch [OF refl] assms(1)] keepsD [OF host_crawl.keeps_dispatch [OF refl] assms(2)]
  by simp

subsection \<open>A concrete page\<close>

definition demo_list_store :: store where
  "demo_list_store =
     (let run = (\<lambda>c st. snd (run_command c st))
      in run (upsert_node ((demo_spec ''a'' Faculty_list_url 1 5)\<lparr>ns_url := ''https://x.edu.cn/a''\<rparr>))
         (run (upsert_org_unit (demo_org ''A'')) (fresh_store ''U'' ''https://x.edu.cn/'' ''x'')))"

definition demo_world :: world where
  "demo_world = \<lparr>w_store = demo_list_store, w_extract_queue = [], w_decision_queue = [],
     w_center = Some None, w_throttle = new_throttle, w_attempted = [], w_summary = new_summary\<rparr>"

definition demo_list_node :: claimed_node where
  "demo_list_node =
     \<lparr>cn_id = 1, cn_node_key = ''a'', cn_type = Faculty_list_url, cn_url = ''https://x.edu.cn/a'',
      cn_org_unit_id = Some 1, cn_org_unit_name = Some ''A'', cn_depth = 1, cn_attempt_count = 1,
      cn_priority_score = 5, cn_content_hash = None, cn_metadata = None\<rparr>"

definition demo_page :: page_snapshot where
  "demo_page =
     \<lparr>sn_url = ''https://x.edu.cn/a'', sn_final_url = ''https://x.edu.cn/a'', sn_title = [], sn_text = ''t'',
      sn_links = [''https://x.edu.cn/b''], sn_signals = [demo_signal ''https://x.edu.cn/b''],
      sn_content_hash = ''h''\<rparr>"

definition empty_html :: html_env where
  "empty_html = \<lparr>he_soup = (\<lambda>_. \<lparr>dm_anchors = [], dm_title = None, dm_this_page = None, dm_inputs = []\<rparr>),
     he_text = (\<lambda>h. h), he_hash = (\<lambda>h. h)\<rparr>"

definition demo_deps :: handler_deps where
  "demo_deps =
     \<lparr>hd_settings = default_settings\<lparr>cf_facet_node_budget := 1\<rparr>, hd_run_id = 1, hd_reported_states = [],
      hd_raw_html = [], hd_html = empty_html, hd_py = plain_env,
      hd_decide = (\<lambda>_ _ _. Inr (Some (JDict [(''links'', JList
        [JDict [(''url'', JStr ''https://x.edu.cn/b''), (''label'', JStr ''followup'')]])]))),
      hd_now = ''2026''\<rparr>"

theorem facet_budget_respected_witness:
  "facet_count 1 (w_store (snd (handle_faculty_page demo_deps demo_list_node demo_page demo_world))) = 1"
proof -
  have "facet_count 1 (w_store demo_world) = 1" "facets_owned (w_store demo_world)"
    "cn_org_unit_id demo_list_node = Some 1" "cf_facet_node_budget (hd_settings demo_deps) = 1"
    by code_simp+
  with facet_budget_respected [of demo_list_node 1 demo_deps demo_world demo_page] show ?thesis by simp
qed


theorem dispatch_keeps_graph_sound_witness:
  "store_inv (w_store (snd (dispatch demo_deps demo_list_node demo_page demo_world))) \<and>
   hosts_ok (w_store (snd (dispatch demo_deps demo_list_node demo_page demo_world)))"
proof -
  have "store_inv (w_store demo_world)" "hosts_ok (w_store demo_world)" by code_simp+
  then show ?thesis by (rule dispatch_keeps_graph_sound)
qed

end
