(* ===== verification/Dext_Engine.thy ===== *)
theory Dext_Engine
  imports Dext_Handlers
begin

text \<open>
  The crawl engine: the driver of \<open>src/src/dext/engine/driver.py\<close> and the worker pools of
  \<open>src/src/dext/engine/workers.py\<close>.

  A worker or the driver handles one task per step; the awaits inside a task are not
  interleaved with other tasks (each of them is one committed writer command, see \<open>Dext_Dedup\<close>
  for what holds between any two). The result of \<open>bridge.fetch\<close> is an argument, as is the
  reply of the extraction model; the wall clock is \<open>ee_now\<close>, the monotonic clock \<open>ee_clock\<close>.
\<close>

record engine_env =
  ee_settings :: settings
  ee_run_id :: nat
  ee_org_unit_ids :: "nat list"
  ee_unidb :: unidb
  ee_repr :: "professor_payload \<Rightarrow> string"
  ee_exn_repr :: "exn \<Rightarrow> string"
  ee_html :: html_env
  ee_py :: py_env
  ee_decide :: "page_snapshot \<Rightarrow> link_signal list \<Rightarrow> claimed_node \<Rightarrow> (exn, json option) result"
  ee_extract :: "page_snapshot \<Rightarrow> bool \<Rightarrow> (exn, llm_response) result"
  ee_now :: string
  ee_clock :: rat

section \<open>Extraction worker (workers.py)\<close>

definition payloads_with_system_homepage ::
    "professor_payload list \<Rightarrow> string \<Rightarrow> professor_payload list" where
  "payloads_with_system_homepage payloads homepage = map (\<lambda>p. p\<lparr>pp_homepage := Some homepage\<rparr>) payloads"

definition extract_professors :: "engine_env \<Rightarrow> page_snapshot \<Rightarrow> int \<Rightarrow> extraction_result prog" where
  "extract_professors env snapshot attempt =
     bnd (lift_exn (ee_extract env snapshot (attempt > 0))) (\<lambda>resp.
       lift_py (result_from_response (ee_py env) resp snapshot))"

text \<open>\<open>save_professors\<close> for a task: without an org unit the NOT NULL column makes every payload
  of the batch a save error.\<close>

definition save_batch ::
    "engine_env \<Rightarrow> professor_payload list \<Rightarrow> nat option \<Rightarrow> string \<Rightarrow> save_result command" where
  "save_batch env payloads org nm st =
     (case org of
        Some i \<Rightarrow> save_professors (ee_unidb env) (ee_repr env) payloads i nm st
      | None \<Rightarrow> Inr (fold (save_failed (ee_repr env)) payloads (st, zero_result)))"

definition mark_task ::
    "engine_env \<Rightarrow> extract_task \<Rightarrow> node_status \<Rightarrow> string option \<Rightarrow> string option \<Rightarrow> unit prog" where
  "mark_task env task status last_error content_hash =
     cmd (mark_node (ee_now env) (et_node_id task) status last_error content_hash None False)"

definition reuse_extraction :: "engine_env \<Rightarrow> extract_task \<Rightarrow> nat \<Rightarrow> unit prog" where
  "reuse_extraction env task reused =
     bnd (cmd (record_attempt (et_node_id task) (et_attempt_count task) ''running'' None
            (Some (sn_url (et_snapshot task))))) (\<lambda>attempt_id.
     thn (cmd (finish_attempt (ee_now env) attempt_id ''skipped'' None (Some ''duplicate_url'')))
         (mark_task env task Done (Some (''duplicate_url_reused:'' @ nat_str reused))
            (Some (sn_content_hash (et_snapshot task)))))"

definition save_extraction :: "engine_env \<Rightarrow> extract_task \<Rightarrow> nat \<Rightarrow> extraction_result \<Rightarrow> unit prog" where
  "save_extraction env task attempt_id result =
     (let url = sn_url (et_snapshot task); preview = Some (er_raw_preview result)
      in bnd (cmd (save_batch env (payloads_with_system_homepage (er_payloads result) url)
                (et_org_unit_id task) (et_org_unit_name task))) (\<lambda>r.
           if sv_save_errors r \<noteq> 0 then
             thn (cmd (finish_attempt (ee_now env) attempt_id ''failed'' preview (Some ''save_error'')))
             (thn (cmd (record_failure (Some ''save_error'') (Some ''dropped'') preview None (Some url)))
                  (mark_task env task Failed (Some ''save_error'') None))
           else
             thn (cmd (finish_attempt (ee_now env) attempt_id ''succeeded'' preview None))
                 (mark_task env task Done None (Some (sn_content_hash (et_snapshot task))))))"

definition finish_extraction :: "engine_env \<Rightarrow> extract_task \<Rightarrow> nat \<Rightarrow> extraction_result \<Rightarrow> unit prog" where
  "finish_extraction env task attempt_id result =
     (let url = sn_url (et_snapshot task); preview = Some (er_raw_preview result);
          attempt_index = max (et_attempt_count task - 1) 0
      in if er_payloads result \<noteq> [] then save_extraction env task attempt_id result
         else if is_valid_exclusion_reason (er_exclusion_reason result) then
           thn (cmd (finish_attempt (ee_now env) attempt_id ''skipped'' preview (Some ''excluded'')))
               (mark_task env task Skipped (Some (''excluded:'' @ the (er_exclusion_reason result))) None)
         else
           (let d = classify_extraction_failure (er_failure_type result) (er_recoverable result) attempt_index
                      (cf_invalid_json_max_retry (ee_settings env))
            in thn (cmd (finish_attempt (ee_now env) attempt_id (if rd_status d = Retry then ''retry'' else ''failed'')
                      preview (er_failure_type result)))
               (thn (cmd (record_failure (er_failure_type result) (rd_resolver d) preview None (Some url)))
                    (mark_task env task (rd_status d) (rd_last_error d) None))))"

definition extraction_crashed :: "engine_env \<Rightarrow> extract_task \<Rightarrow> nat \<Rightarrow> exn \<Rightarrow> unit prog" where
  "extraction_crashed env task attempt_id e =
     (let preview = Some (take_chars 500 (ee_exn_repr env e)); url = sn_url (et_snapshot task)
      in thn (cmd (finish_attempt (ee_now env) attempt_id ''failed'' preview (Some ''save_error'')))
         (thn (cmd (record_failure (Some ''save_error'') (Some ''dropped'') preview None (Some url)))
              (mark_task env task Failed (Some ''save_error'') None)))"

definition process_extract_task :: "engine_env \<Rightarrow> extract_task \<Rightarrow> unit prog" where
  "process_extract_task env task =
     bnd (cmd (find_done_detail_for_url (sn_url (et_snapshot task)) (et_node_id task))) (\<lambda>reused.
       (case reused of
          Some i \<Rightarrow> reuse_extraction env task i
        | None \<Rightarrow>
            bnd (cmd (record_attempt (et_node_id task) (et_attempt_count task) ''running'' None
                   (Some (sn_url (et_snapshot task))))) (\<lambda>attempt_id.
              catch
                (bnd (extract_professors env (et_snapshot task) (max (et_attempt_count task - 1) 0))
                   (finish_extraction env task attempt_id))
                (extraction_crashed env task attempt_id))))"

section \<open>Driver (driver.py)\<close>

definition deps_factory :: "engine_env \<Rightarrow> decide_task \<Rightarrow> handler_deps" where
  "deps_factory env task =
     \<lparr>hd_settings = ee_settings env, hd_run_id = ee_run_id env, hd_reported_states = dt_reported_states task,
      hd_raw_html = dt_raw_html task, hd_html = ee_html env, hd_py = ee_py env, hd_decide = ee_decide env,
      hd_now = ee_now env\<rparr>"

definition on_summary :: "(crawl_summary \<Rightarrow> crawl_summary) \<Rightarrow> unit prog" where
  "on_summary f w = (Inr (), w\<lparr>w_summary := f (w_summary w)\<rparr>)"

definition on_throttle :: "(rate_throttle \<Rightarrow> rate_throttle) \<Rightarrow> unit prog" where
  "on_throttle f w = (Inr (), w\<lparr>w_throttle := f (w_throttle w)\<rparr>)"

definition count_failed :: "unit prog" where
  "count_failed = on_summary (\<lambda>s. s\<lparr>su_fetch_failed := Suc (su_fetch_failed s)\<rparr>)"

definition mark_claimed ::
    "engine_env \<Rightarrow> claimed_node \<Rightarrow> node_status \<Rightarrow> string option \<Rightarrow> string option \<Rightarrow> unit prog" where
  "mark_claimed env node status last_error content_hash =
     cmd (mark_node (ee_now env) (cn_id node) status last_error content_hash None False)"

definition dispatch_snapshot ::
    "claimed_node \<Rightarrow> page_snapshot \<Rightarrow> string \<Rightarrow> pagination_state list \<Rightarrow> unit prog" where
  "dispatch_snapshot node snapshot raw_html states =
     thn (if cn_type node = Detail_url then handle_detail node snapshot
          else (\<lambda>w. (Inr (), w\<lparr>w_decision_queue := w_decision_queue w @
                 [\<lparr>dt_node = node, dt_snapshot = snapshot, dt_raw_html = raw_html, dt_reported_states = states\<rparr>]\<rparr>)))
         (on_summary (\<lambda>s. s\<lparr>su_dispatched := Suc (su_dispatched s)\<rparr>))"

definition failed_cache :: "fetch_result \<Rightarrow> page_cache" where
  "failed_cache r =
     \<lparr>pc_url = fr_identity_url r, pc_final_url = Some (fr_final_url r), pc_status_code = fr_status_code r,
      pc_text_snapshot = None, pc_links = None, pc_link_signals = None, pc_block_reason = fr_block_reason r,
      pc_html_snapshot = Some (fr_html r), pc_content_hash = None, pc_title = Some (fr_title r),
      pc_fetch_action = None, pc_snapshot_encoding = ''utf-8''\<rparr>"

definition page_payload ::
    "fetch_result \<Rightarrow> page_snapshot \<Rightarrow> string option \<Rightarrow> fetch_action option \<Rightarrow> page_cache" where
  "page_payload r snapshot block action =
     \<lparr>pc_url = fr_identity_url r, pc_final_url = Some (fr_final_url r), pc_status_code = fr_status_code r,
      pc_text_snapshot = Some (sn_text snapshot), pc_links = Some (sn_links snapshot),
      pc_link_signals = Some (sn_signals snapshot), pc_block_reason = block,
      pc_html_snapshot = Some (fr_html r), pc_content_hash = Some (sn_content_hash snapshot),
      pc_title = Some (sn_title snapshot), pc_fetch_action = action, pc_snapshot_encoding = ''utf-8''\<rparr>"

definition record_fetch_failure :: "string \<Rightarrow> string option \<Rightarrow> string \<Rightarrow> nat prog" where
  "record_fetch_failure reason resolver url =
     cmd (record_failure (Some (''fetch:'' @ reason)) resolver None None (Some url))"

text \<open>The failure tail the fresh and the cached path share: classify, record, back off, mark.\<close>

definition fail_fetch :: "engine_env \<Rightarrow> claimed_node \<Rightarrow> string \<Rightarrow> int option \<Rightarrow> string \<Rightarrow> unit prog" where
  "fail_fetch env node reason status_code url =
     (let d = classify_fetch_failure (Some reason) status_code
      in thn (record_fetch_failure reason (rd_resolver d) url)
         (thn (when_true (rd_resolver d = Some ''rate_limited'') (on_throttle (on_rate_limited (ee_clock env))))
              (mark_claimed env node (rd_status d) (rd_last_error d) None)))"

definition skip_unavailable :: "engine_env \<Rightarrow> claimed_node \<Rightarrow> string \<Rightarrow> string \<Rightarrow> page_snapshot \<Rightarrow> unit prog" where
  "skip_unavailable env node kind url snapshot =
     (let reason = ''terminal_unavailable:'' @ kind
      in thn count_failed
         (thn (record_fetch_failure reason (Some ''dropped'') url)
              (mark_claimed env node Skipped (Some reason) (Some (sn_content_hash snapshot)))))"

definition process_fresh_result ::
    "engine_env \<Rightarrow> claimed_node \<Rightarrow> fetch_action option \<Rightarrow> fetch_result \<Rightarrow> unit prog" where
  "process_fresh_result env node action result =
     (if truthy_str (fr_block_reason result) then
        thn count_failed
        (thn (cmd (save_page_cache (failed_cache result)))
             (fail_fetch env node (the (fr_block_reason result)) (fr_status_code result) (fr_identity_url result)))
      else
        bnd (lift_url (build_snapshot (ee_html env) (fr_html result) (fr_identity_url result) (fr_final_url result)
               (fr_title result))) (\<lambda>snapshot.
          (let unavailable = assess_terminal_unavailable_page snapshot (fr_status_code result)
           in thn (when_true (unavailable = None) (on_throttle on_success))
              (thn (cmd (save_page_cache (page_payload result snapshot
                      (map_option (\<lambda>k. ''terminal_unavailable:'' @ k) unavailable) action)))
                 (case unavailable of
                    Some kind \<Rightarrow> skip_unavailable env node kind (fr_identity_url result) snapshot
                  | None \<Rightarrow> dispatch_snapshot node snapshot (fr_html result) (fr_pagination_states result))))))"

definition process_cached_result :: "engine_env \<Rightarrow> claimed_node \<Rightarrow> page_cache \<Rightarrow> unit prog" where
  "process_cached_result env node cache =
     (if truthy_str (pc_html_snapshot cache) then
        bnd (lift_url (build_snapshot (ee_html env) (the (pc_html_snapshot cache)) (pc_url cache)
               (str_or (pc_final_url cache) (pc_url cache)) (str_or (pc_title cache) []))) (\<lambda>snapshot.
          (case assess_terminal_unavailable_page snapshot (pc_status_code cache) of
             Some kind \<Rightarrow> skip_unavailable env node kind (pc_url cache) snapshot
           | None \<Rightarrow> dispatch_snapshot node snapshot (the (pc_html_snapshot cache)) []))
      else
        thn count_failed
          (fail_fetch env node (str_or (pc_block_reason cache) ''cached_no_html'') (pc_status_code cache) (pc_url cache)))"

fun intent_for :: "node_type \<Rightarrow> string" where
  "intent_for Detail_url = ''detail_extract''"
| "intent_for Org_listing_url = ''org_listing''"
| "intent_for Org_unit = ''org_unit''"
| "intent_for _ = ''faculty_list''"

text \<open>The context shown to the operator; \<open>parent_url\<close> is whatever the node metadata holds.\<close>

definition job_context_for :: "string \<Rightarrow> claimed_node \<Rightarrow> job_context" where
  "job_context_for university_name node =
     \<lparr>jc_university_name = university_name, jc_agent_state = node_type_value (cn_type node),
      jc_intent = intent_for (cn_type node),
      jc_parent_url = (case map_of (meta_of node) ''parent_url'' of Some (JStr u) \<Rightarrow> u | _ \<Rightarrow> []),
      jc_depth = cn_depth node, jc_org_unit_name = str_or (cn_org_unit_name node) [], jc_hints = []\<rparr>"

text \<open>\<open>page\<close> is what \<open>bridge.fetch\<close> would return for the node.\<close>

definition handle_claimed_node :: "engine_env \<Rightarrow> claimed_node \<Rightarrow> fetch_result \<Rightarrow> unit prog" where
  "handle_claimed_node env node page =
     bnd (cmd (get_page_cache (identity_url_for node))) (\<lambda>cache.
       (case cache of
          None \<Rightarrow>
            thn (on_summary (\<lambda>s. s\<lparr>su_fetched := Suc (su_fetched s)\<rparr>))
                (process_fresh_result env node (fetch_action_from_metadata (cn_metadata node)) page)
        | Some c \<Rightarrow> process_cached_result env node c))"

text \<open>One turn of \<open>_driver_loop\<close>: whether a node was claimed.\<close>

definition driver_turn :: "engine_env \<Rightarrow> (claimed_node \<Rightarrow> fetch_result) \<Rightarrow> bool prog" where
  "driver_turn env pages =
     bnd (\<lambda>w. cmd (claim_next (ee_run_id env) (w_attempted w) [] (ee_now env) (ee_org_unit_ids env)) w) (\<lambda>claimed.
       (case claimed of
          None \<Rightarrow> ret False
        | Some node \<Rightarrow>
            thn (\<lambda>w. (Inr (), w\<lparr>w_attempted := w_attempted w @ [cn_node_key node]\<rparr>))
            (thn (handle_claimed_node env node (pages node)) (ret True))))"

definition decision_turn :: "engine_env \<Rightarrow> unit prog" where
  "decision_turn env w =
     (case w_decision_queue w of
        [] \<Rightarrow> (Inr (), w)
      | t # ts \<Rightarrow> dispatch (deps_factory env t) (dt_node t) (dt_snapshot t) (w\<lparr>w_decision_queue := ts\<rparr>))"

definition extract_turn :: "engine_env \<Rightarrow> unit prog" where
  "extract_turn env w =
     (case w_extract_queue w of
        [] \<Rightarrow> (Inr (), w)
      | t # ts \<Rightarrow> process_extract_task env t (w\<lparr>w_extract_queue := ts\<rparr>))"

section \<open>Summary\<close>

definition in_scope :: "nat list \<Rightarrow> graph_node \<Rightarrow> bool" where
  "in_scope org_unit_ids n =
     (org_unit_ids = [] \<or> (case gn_org_unit_id n of None \<Rightarrow> False | Some i \<Rightarrow> i \<in> set org_unit_ids))"

definition status_count :: "nat list \<Rightarrow> store \<Rightarrow> node_status \<Rightarrow> nat" where
  "status_count org_unit_ids st s =
     length (filter (\<lambda>n. gn_status n = s \<and> in_scope org_unit_ids n) (st_nodes st))"

definition professor_count :: "nat list \<Rightarrow> store \<Rightarrow> nat" where
  "professor_count org_unit_ids st =
     (if org_unit_ids = [] then length (st_professors st)
      else length (filter (\<lambda>p. list_ex (\<lambda>a. af_professor_id a = pr_id p \<and> af_org_unit_id a \<in> set org_unit_ids)
             (st_affiliations st)) (st_professors st)))"

text \<open>The rows of \<open>SELECT status, count(*) ... GROUP BY status\<close>: one per status that occurs.\<close>

definition status_groups :: "nat list \<Rightarrow> store \<Rightarrow> (string, nat) dict" where
  "status_groups org_unit_ids st =
     map (\<lambda>s. (node_status_value s, status_count org_unit_ids st s))
       (filter (\<lambda>s. status_count org_unit_ids st s > 0) [Done, Failed, In_progress, Pending, Retry, Skipped])"

definition build_summary :: "nat list \<Rightarrow> store \<Rightarrow> crawl_summary \<Rightarrow> crawl_summary" where
  "build_summary org_unit_ids st s =
     (let n = status_count org_unit_ids st;
          blocking = n Failed + n Retry + n Pending + n In_progress
      in s\<lparr>su_done := n Done, su_failed := n Failed, su_skipped := n Skipped, su_retry := n Retry,
           su_pending := n Pending, su_in_progress := n In_progress,
           su_professors := professor_count org_unit_ids st,
           su_node_status_counts := status_groups org_unit_ids st,
           su_status := (if blocking = 0 then ''completed'' else ''failed'')\<rparr>)"

text \<open>What \<open>run\<close> does around the driver loop: a run without an org-unit filter also keeps the crawl
  status of the university row.\<close>

definition open_run :: "engine_env \<Rightarrow> unit prog" where
  "open_run env = when_true (ee_org_unit_ids env = []) (cmd (update_university_status ''in_progress''))"

definition summary_json :: "crawl_summary \<Rightarrow> metadata" where
  "summary_json s =
     [(''fetched'', JInt (int (su_fetched s))), (''fetch_failed'', JInt (int (su_fetch_failed s))),
      (''dispatched'', JInt (int (su_dispatched s))), (''done'', JInt (int (su_done s))),
      (''failed'', JInt (int (su_failed s))), (''skipped'', JInt (int (su_skipped s))),
      (''retry'', JInt (int (su_retry s))), (''pending'', JInt (int (su_pending s))),
      (''in_progress'', JInt (int (su_in_progress s))), (''professors'', JInt (int (su_professors s))),
      (''status'', JStr (su_status s)),
      (''node_status_counts'', JDict (map (\<lambda>(k, n). (k, JInt (int n))) (su_node_status_counts s)))]"

definition conclude_run :: "engine_env \<Rightarrow> crawl_summary prog" where
  "conclude_run env w =
     (let final = build_summary (ee_org_unit_ids env) (w_store w) (w_summary w)
      in thn (cmd (finish_run (ee_now env) (ee_run_id env) (su_status final) (Some (summary_json final))))
         (thn (when_true (ee_org_unit_ids env = [])
                (cmd (update_university_status (if su_status final = ''completed'' then ''completed'' else ''failed''))))
              (ret final)) (w\<lparr>w_summary := final\<rparr>))"

section \<open>Worker pools\<close>

text \<open>
  One worker on its queue (\<open>None\<close> is the shutdown sentinel): it calls \<open>task_done\<close> for every item
  it takes, ends at the sentinel, and dies with the exception of a task that raises. The result
  is the number of \<open>task_done\<close> calls and the items it leaves on the queue.
\<close>

fun worker_run :: "('t \<Rightarrow> bool) \<Rightarrow> 't option list \<Rightarrow> nat \<times> 't option list" where
  "worker_run raises [] = (0, [])"
| "worker_run raises (None # q) = (1, q)"
| "worker_run raises (Some t # q) =
     (if raises t then (1, q)
      else (let r = worker_run raises q in (Suc (fst r), snd r)))"

section \<open>Programs that cannot raise\<close>

text \<open>\<open>safe J m K\<close>: from a world with \<open>J\<close>, \<open>m\<close> returns, with \<open>K\<close> of its value and world.\<close>

named_theorems safe_intros \<open>rules for programs that cannot raise\<close>

definition safe :: "(world \<Rightarrow> bool) \<Rightarrow> 'a prog \<Rightarrow> ('a \<Rightarrow> world \<Rightarrow> bool) \<Rightarrow> bool" where
  "safe J m K = (\<forall>w. J w \<longrightarrow> (\<exists>a w'. m w = (Inr a, w') \<and> K a w'))"

lemma safe_bnd: "safe J m M \<Longrightarrow> (\<And>a. safe (M a) (f a) K) \<Longrightarrow> safe J (bnd m f) K"
  by (fastforce simp: safe_def bnd_def)

lemma safe_thn: "safe J m (\<lambda>_. M) \<Longrightarrow> safe M n K \<Longrightarrow> safe J (thn m n) K"
  unfolding thn_def by (rule safe_bnd)

lemma safe_cmd:
  "(\<And>w. J w \<Longrightarrow> \<exists>a st'. c (w_store w) = Inr (st', a) \<and> K a (w\<lparr>w_store := st'\<rparr>)) \<Longrightarrow> safe J (cmd c) K"
  by (fastforce simp: safe_def cmd_def run_command_def)

lemma safe_ret: "(\<And>w. J w \<Longrightarrow> K a w) \<Longrightarrow> safe J (ret a) K"
  by (simp add: safe_def ret_def)

lemma safe_catch_pure:
  assumes "pure m" "\<And>a. safe J (f a) K" "\<And>e. safe J (h e) K"
  shows "safe J (catch (bnd m f) h) K"
  unfolding safe_def
proof (intro allI impI)
  fix w assume J: "J w"
  show "\<exists>a w'. catch (bnd m f) h w = (Inr a, w') \<and> K a w'"
  proof (cases "fst (m w)")
    case (Inl e)
    with assms(3) [of e] J show ?thesis by (auto simp: safe_def catch_def bnd_pure [OF assms(1)])
  next
    case (Inr a)
    with assms(2) [of a] J show ?thesis by (fastforce simp: safe_def catch_def bnd_pure [OF assms(1)])
  qed
qed

section \<open>Extraction tasks\<close>

definition task_ready :: "extract_task \<Rightarrow> nat \<Rightarrow> world \<Rightarrow> bool" where
  "task_ready task attempt_id w =
     (node_exists (w_store w) (et_node_id task) \<and> attempt_id \<in> ea_id ` set (st_attempts (w_store w)))"

definition task_settled :: "extract_task \<Rightarrow> world \<Rightarrow> bool" where
  "task_settled task w = settled (et_node_id task) (w_store w)"

lemma safe_mark_task:
  assumes "s \<in> {Done, Skipped, Retry, Failed}"
  shows "safe (task_ready task i) (mark_task env task s le ch) (\<lambda>_. task_settled task)"
  unfolding mark_task_def
proof (rule safe_cmd)
  fix w assume "task_ready task i w"
  then obtain st' where m: "mark_node (ee_now env) (et_node_id task) s le ch None False (w_store w) = Inr (st', ())"
    by (auto simp: task_ready_def mark_node_def)
  with mark_node_settles [OF assms m]
  show "\<exists>a st'. mark_node (ee_now env) (et_node_id task) s le ch None False (w_store w) = Inr (st', a) \<and>
      task_settled task (w\<lparr>w_store := st'\<rparr>)"
    by (auto simp: task_settled_def)
qed

lemma safe_finish_attempt:
  "safe (task_ready task i) (cmd (finish_attempt now i s ro ft)) (\<lambda>_. task_ready task i)"
  by (rule safe_cmd) (auto simp: finish_attempt_def task_ready_def node_exists_def image_update_where)

lemma safe_record_failure:
  "safe (task_ready task i) (cmd (record_failure ft re ra nh su)) (\<lambda>_. task_ready task i)"
  by (rule safe_cmd) (auto simp: record_failure_def Let_def task_ready_def node_exists_def)

lemma safe_record_attempt:
  "safe (\<lambda>w. node_exists (w_store w) (et_node_id task))
     (cmd (record_attempt (et_node_id task) k s ph cu)) (task_ready task)"
  by (rule safe_cmd) (auto simp: record_attempt_def Let_def task_ready_def node_exists_def)

lemma save_step_frame:
  "st_nodes (fst (save_step u rp org nm p s)) = st_nodes (fst s) \<and>
   st_attempts (fst (save_step u rp org nm p s)) = st_attempts (fst s)"
proof (cases "save_one u org nm p s")
  case (Inl e)
  then show ?thesis by (simp add: save_step_def save_failed_def Let_def)
next
  case (Inr s')
  then have "st_nodes (fst s') = st_nodes (fst s) \<and> st_attempts (fst s') = st_attempts (fst s)"
    by (auto simp: save_one_def save_academician_def ensure_affiliation_def Let_def
        elim!: res_bind_InrE split: option.splits if_splits)
  with Inr show ?thesis by (simp add: save_step_def)
qed

lemma fold_save_frame:
  "st_nodes (fst (fold (save_step u rp org nm) ps s)) = st_nodes (fst s) \<and>
   st_attempts (fst (fold (save_step u rp org nm) ps s)) = st_attempts (fst s)"
  by (induction ps arbitrary: s) (simp_all add: save_step_frame)

lemma fold_failed_frame:
  "st_nodes (fst (fold (save_failed rp) ps s)) = st_nodes (fst s) \<and>
   st_attempts (fst (fold (save_failed rp) ps s)) = st_attempts (fst s)"
  by (induction ps arbitrary: s) (simp_all add: save_failed_def Let_def)

lemma safe_save_batch: "safe (task_ready task i) (cmd (save_batch env ps org nm)) (\<lambda>_. task_ready task i)"
proof (rule safe_cmd)
  fix w assume J: "task_ready task i w"
  obtain st' r where b: "save_batch env ps org nm (w_store w) = Inr (st', r)"
    by (cases org) (auto simp: save_batch_def save_professors_def prod_eq_iff)
  then have "st' = fst (case org of Some k \<Rightarrow> fold (save_step (ee_unidb env) (ee_repr env) k nm) ps (w_store w, zero_result)
      | None \<Rightarrow> fold (save_failed (ee_repr env)) ps (w_store w, zero_result))"
    by (cases org) (auto simp: save_batch_def save_professors_def)
  then have "st_nodes st' = st_nodes (w_store w) \<and> st_attempts st' = st_attempts (w_store w)"
    by (cases org) (simp_all add: fold_save_frame fold_failed_frame)
  with J b show "\<exists>a st'. save_batch env ps org nm (w_store w) = Inr (st', a) \<and> task_ready task i (w\<lparr>w_store := st'\<rparr>)"
    by (auto simp: task_ready_def node_exists_def)
qed

lemma safe_finish_extraction:
  "safe (task_ready task i) (finish_extraction env task i result) (\<lambda>_. task_settled task)"
proof -
  have st: "rd_status (classify_extraction_failure ft rc k m) \<in> {Done, Skipped, Retry, Failed}" for ft rc k m
    by (auto simp: classify_extraction_failure_def Let_def retry_with_def dropped_as_def)
  have a: "safe (task_ready task i) (save_extraction env task i result) (\<lambda>_. task_settled task)"
    unfolding save_extraction_def Let_def
    by (rule safe_bnd [OF safe_save_batch])
      (simp, intro conjI impI safe_thn [OF safe_finish_attempt] safe_thn [OF safe_record_failure] safe_mark_task, simp_all)
  have b: "safe (task_ready task i) (thn (cmd (finish_attempt now i s ro ft)) (mark_task env task Skipped le ch))
      (\<lambda>_. task_settled task)" for now s ro ft le ch
    by (intro safe_thn [OF safe_finish_attempt] safe_mark_task) simp
  have c: "safe (task_ready task i) (thn (cmd (finish_attempt now i s ro ft))
      (thn (cmd (record_failure f1 f2 f3 f4 f5)) (mark_task env task
         (rd_status (classify_extraction_failure ft' rc k m)) le ch))) (\<lambda>_. task_settled task)"
    for now s ro ft f1 f2 f3 f4 f5 ft' rc k m le ch
    by (intro safe_thn [OF safe_finish_attempt] safe_thn [OF safe_record_failure] safe_mark_task st)
  show ?thesis unfolding finish_extraction_def Let_def using a b c by simp
qed

lemma safe_crashed:
  "safe (task_ready task i) (extraction_crashed env task i e) (\<lambda>_. task_settled task)"
  unfolding extraction_crashed_def Let_def
  by (intro safe_thn [OF safe_finish_attempt] safe_thn [OF safe_record_failure] safe_mark_task) simp

lemma safe_reuse:
  "safe (\<lambda>w. node_exists (w_store w) (et_node_id task)) (reuse_extraction env task k) (\<lambda>_. task_settled task)"
  unfolding reuse_extraction_def
  by (intro safe_bnd [OF safe_record_attempt] safe_thn [OF safe_finish_attempt] safe_mark_task) simp

lemma pure_extract: "pure (extract_professors env snapshot k)"
  unfolding extract_professors_def by (intro pure_bnd pure_lift)

lemma safe_find_done:
  "safe (\<lambda>w. node_exists (w_store w) i) (cmd (find_done_detail_for_url url k)) (\<lambda>_ w. node_exists (w_store w) i)"
  by (rule safe_cmd) (auto simp: find_done_detail_for_url_def split: list.split)

lemma safe_option: "(\<And>a. safe J (f a) K) \<Longrightarrow> safe J m K \<Longrightarrow> safe J (case x of None \<Rightarrow> m | Some a \<Rightarrow> f a) K"
  by (cases x) simp_all

lemma safe_process_extract_task:
  "safe (\<lambda>w. node_exists (w_store w) (et_node_id task)) (process_extract_task env task) (\<lambda>_. task_settled task)"
  unfolding process_extract_task_def
  by (intro safe_bnd [OF safe_find_done] safe_option safe_reuse safe_bnd [OF safe_record_attempt]
      safe_catch_pure pure_extract safe_finish_extraction safe_crashed)

text \<open>
  C34: An extraction task always comes to an end: for a node that exists, \<open>process_extract_task\<close>
  returns without raising, whatever the model answers or raises and whatever the save does, and
  leaves the node done, skipped, failed or up for retry, never in progress.
\<close>

theorem extract_task_settles:
  assumes "node_exists (w_store w) (et_node_id task)"
  shows "\<exists>w'. process_extract_task env task w = (Inr (), w') \<and> settled (et_node_id task) (w_store w')"
  using safe_process_extract_task [of task env] assms unfolding safe_def task_settled_def by fastforce

section \<open>Multi-person pages\<close>

lemma new_person_has_homepage:
  assumes "store_inv (fst s)" "\<not> looks_like_academician (pp_title p)" "pp_homepage p = Some url" "url \<noteq> []"
    and "sv_inserted (snd (save_step u rp org nm p s)) \<noteq> sv_inserted (snd s)"
    and "\<not> looks_like_academician (pp_title q)" "pp_homepage q = Some url"
  shows "known u (fst (save_step u rp org nm p s)) org q"
proof (cases "save_one u org nm p s")
  case (Inl e)
  with assms(5) show ?thesis by (simp add: save_step_def save_failed_def Let_def)
next
  case (Inr s')
  have "\<not> known u (fst s) org p" using save_step_known_adds_nobody [OF assms(1)] assms(5) by blast
  then have none: "find_match u (fst s) org p = None"
    using find_match_None [OF assms(1)] assms(2) by (simp add: known_def)
  let ?i = "next_id pr_id (st_professors (fst s))"
  let ?st = "(fst s)\<lparr>st_professors := st_professors (fst s) @ [new_professor ?i nm p]\<rparr>"
  from none assms(2) Inr obtain s1 where s1: "ensure_affiliation ?i org (?st, snd s) = Inr s1"
    and s': "fst s' = fst s1"
    by (auto simp: save_one_def Let_def elim!: res_bind_InrE)
  have "new_professor ?i nm p \<in> set (st_professors (fst s'))"
    using ensure_affiliation_profs [OF s1] by (simp add: s')
  moreover have "pr_homepage (new_professor ?i nm p) = Some url" using assms(3) by (simp add: new_professor_def)
  ultimately have "has_match u (fst s') org q"
    using assms(4,7) by (auto simp: has_match_def truthy_str_def)
  with assms(6) Inr show ?thesis by (simp add: known_def save_step_def)
qed

lemma ensure_affiliation_inserted:
  "ensure_affiliation i org s = Inr s' \<Longrightarrow> sv_inserted (snd s') = sv_inserted (snd s)"
  by (auto simp: ensure_affiliation_def Let_def split: if_splits)

lemma save_academician_inserted:
  "save_academician p nk org s = Inr s' \<Longrightarrow> sv_inserted (snd s') = sv_inserted (snd s)"
  by (auto simp: save_academician_def Let_def elim!: res_bind_InrE split: option.splits if_splits)

lemma save_step_inserts_one: "sv_inserted (snd (save_step u rp org nm p s)) \<le> Suc (sv_inserted (snd s))"
proof (cases "save_one u org nm p s")
  case (Inl e)
  then show ?thesis by (simp add: save_step_def save_failed_def Let_def)
next
  case (Inr s')
  have "sv_inserted (snd s') \<le> Suc (sv_inserted (snd s))"
  proof (cases "looks_like_academician (pp_title p)")
    case True
    with Inr show ?thesis by (simp add: save_one_def save_academician_inserted)
  next
    case False
    with Inr show ?thesis
      by (cases "find_match u (fst s) org p")
        (auto simp: save_one_def Let_def elim!: res_bind_InrE dest!: ensure_affiliation_inserted split: if_splits)
  qed
  with Inr show ?thesis by (simp add: save_step_def)
qed

lemma shared_homepage_fold:
  assumes "store_inv (fst s)" "url \<noteq> []"
    and "\<forall>p \<in> set ps. \<not> looks_like_academician (pp_title p) \<and> pp_homepage p = Some url"
  shows "sv_inserted (snd (fold (save_step u rp org nm) ps s)) \<le> Suc (sv_inserted (snd s))"
  using assms(1,3)
proof (induction ps arbitrary: s)
  case (Cons p ps)
  let ?s = "save_step u rp org nm p s"
  have inv: "store_inv (fst ?s)" by (rule save_step_inv [OF Cons.prems(1)])
  show ?case
  proof (cases "sv_inserted (snd ?s) = sv_inserted (snd s)")
    case True
    with Cons.IH [OF inv] Cons.prems(2) show ?thesis by simp
  next
    case False
    have "known u (fst ?s) org q" if "q \<in> set ps" for q
      using new_person_has_homepage [OF Cons.prems(1) _ _ assms(2) False] Cons.prems(2) that by simp
    then have "sv_inserted (snd (fold (save_step u rp org nm) ps ?s)) = sv_inserted (snd ?s)"
      using fold_save_known_adds_nobody [OF inv, of ps u org rp nm] by blast
    moreover have "sv_inserted (snd ?s) \<le> Suc (sv_inserted (snd s))"
      by (rule save_step_inserts_one)
    ultimately show ?thesis by simp
  qed
qed simp

text \<open>
  C39: A page that lists several teachers yields at most one new professor: the worker overwrites
  every extracted homepage with the URL of the page, and the saved batch then merges everyone
  after the first into the first through the homepage match, however many records with
  different names the extractor returned.
\<close>

theorem shared_page_yields_one_professor:
  assumes "store_inv st" and "url \<noteq> []"
    and "\<forall>p \<in> set ps. \<not> looks_like_academician (pp_title p)"
    and "save_professors u rp (payloads_with_system_homepage ps url) org nm st = Inr (st', r)"
  shows "sv_inserted r \<le> 1 \<and> length (st_professors st') \<le> Suc (length (st_professors st))"
proof -
  let ?ps = "payloads_with_system_homepage ps url"
  have ps: "\<forall>p \<in> set ?ps. \<not> looks_like_academician (pp_title p) \<and> pp_homepage p = Some url"
    using assms(3) by (auto simp: payloads_with_system_homepage_def)
  have eq: "fold (save_step u rp org nm) ?ps (st, zero_result) = (st', r)"
    using assms(4) by (simp add: save_professors_def)
  have "sv_inserted r \<le> 1"
    using shared_homepage_fold [of "(st, zero_result)" url ?ps u rp org nm] assms(1,2) ps eq
    by (simp add: zero_result_def)
  moreover have "length (st_professors st') = length (st_professors st) + sv_inserted r"
    using fold_save_accounted [of "(st, zero_result)" u rp org nm ?ps] eq
    by (simp add: accounted_def zero_result_def)
  ultimately show ?thesis by simp
qed

theorem shared_page_yields_one_professor_witness:
  "\<exists>st' r. save_professors ascii_unidb pp_name
      (payloads_with_system_homepage [payload_named ''Li Wei'', payload_named ''Zhang San'', payload_named ''Wang Wu'']
         ''https://x.edu.cn/staff'') 1 ''A'' demo_store = Inr (st', r) \<and> sv_inserted r \<le> 1 \<and> sv_save_errors r = 0"
proof -
  let ?ps = "[payload_named ''Li Wei'', payload_named ''Zhang San'', payload_named ''Wang Wu'']"
  let ?call = "save_professors ascii_unidb pp_name (payloads_with_system_homepage ?ps ''https://x.edu.cn/staff'') 1 ''A'' demo_store"
  have "case ?call of Inr (_, r) \<Rightarrow> sv_save_errors r = 0 | _ \<Rightarrow> False" by code_simp
  then obtain st' r where c: "?call = Inr (st', r)" "sv_save_errors r = 0"
    by (auto split: sum.splits prod.splits)
  have "\<forall>p \<in> set ?ps. \<not> looks_like_academician (pp_title p)"
    by (simp add: payload_named_def looks_like_academician_def truthy_str_def)
  from shared_page_yields_one_professor [OF demo_store_inv _ this c(1)] c show ?thesis by blast
qed

theorem extract_task_settles_witness:
  "\<exists>w'. process_extract_task
      \<lparr>ee_settings = default_settings, ee_run_id = 1, ee_org_unit_ids = [], ee_unidb = ascii_unidb, ee_repr = pp_name,
       ee_exn_repr = (\<lambda>_. ''boom''), ee_html = empty_html, ee_py = plain_env,
       ee_decide = (\<lambda>_ _ _. Inl (Llm_exn ''down'')), ee_extract = (\<lambda>_ _. Inl (Llm_exn ''down'')),
       ee_now = ''2026'', ee_clock = 0\<rparr>
      \<lparr>et_node_id = 1, et_node_key = ''a'', et_snapshot = demo_page, et_org_unit_id = Some 1,
       et_org_unit_name = ''A'', et_attempt_count = 1\<rparr> demo_world = (Inr (), w') \<and> settled 1 (w_store w')"
proof -
  have "node_exists (w_store demo_world) 1" by code_simp
  then show ?thesis
    using extract_task_settles [of demo_world
      "\<lparr>et_node_id = 1, et_node_key = ''a'', et_snapshot = demo_page, et_org_unit_id = Some 1,
       et_org_unit_name = ''A'', et_attempt_count = 1\<rparr>"] by simp
qed

section \<open>Failed fetches and the page cache\<close>

lemma save_page_cache_find:
  assumes "save_page_cache p st = Inr (st', u)"
  shows "find (\<lambda>c. pc_url c = pc_url p) (st_cache st') = Some p"
proof (cases "find (\<lambda>c. pc_url c = pc_url p) (st_cache st)")
  case None
  have "find (\<lambda>c. pc_url c = pc_url p) (rows @ [p]) = Some p"
    if "find (\<lambda>c. pc_url c = pc_url p) rows = None" for rows
    using that by (induction rows) (auto split: if_splits)
  with None assms show ?thesis by (auto simp: save_page_cache_def)
next
  case (Some c)
  have "find (\<lambda>c. pc_url c = pc_url p) (update_where (\<lambda>c. pc_url c = pc_url p) (\<lambda>_. p) rows) = Some p"
    if "find (\<lambda>c. pc_url c = pc_url p) rows = Some x" for rows x
    using that by (induction rows) (auto simp: update_where_def split: if_splits)
  with Some assms show ?thesis by (auto simp: save_page_cache_def)
qed

definition cached_as :: "string \<Rightarrow> page_cache \<Rightarrow> store \<Rightarrow> bool" where
  "cached_as url c st = (find (\<lambda>x. pc_url x = url) (st_cache st) = Some c)"

lemma keeps_on_throttle [keeps_intros]: "keeps I (on_throttle f)"
  by (simp add: keeps_def on_throttle_def)

lemma keeps_on_summary [keeps_intros]: "keeps I (on_summary f)"
  by (simp add: keeps_def on_summary_def)

lemma keeps_cached_fail_fetch: "keeps (cached_as url c) (fail_fetch env node reason code u)"
  unfolding fail_fetch_def Let_def record_fetch_failure_def mark_claimed_def
  by (intro keeps_intros keeps_cmd)
    (auto simp: record_failure_def mark_node_def cached_as_def Let_def split: if_splits)


definition demo_env :: engine_env where
  "demo_env =
     \<lparr>ee_settings = default_settings, ee_run_id = 1, ee_org_unit_ids = [], ee_unidb = ascii_unidb, ee_repr = pp_name,
      ee_exn_repr = (\<lambda>_. ''boom''), ee_html = empty_html, ee_py = plain_env,
      ee_decide = (\<lambda>_ _ _. Inl (Llm_exn ''down'')), ee_extract = (\<lambda>_ _. Inl (Llm_exn ''down'')),
      ee_now = ''2026'', ee_clock = 0\<rparr>"

definition timed_out :: fetch_result where
  "timed_out =
     \<lparr>fr_identity_url = ''https://x.edu.cn/a'', fr_requested_url = ''https://x.edu.cn/a'',
      fr_final_url = ''https://x.edu.cn/a'', fr_status_code = None, fr_html = [], fr_title = [],
      fr_pagination_states = [], fr_block_reason = Some ''fetch_timeout''\<rparr>"


section \<open>Worker pools\<close>

lemma worker_run_ok: "\<forall>t \<in> set ts. \<not> raises t \<Longrightarrow> worker_run raises (map Some ts @ None # q) = (Suc (length ts), q)"
  by (induction ts) (auto simp: Let_def)

lemma worker_run_dies:
  "\<exists>t \<in> set ts. raises t \<Longrightarrow>
     fst (worker_run raises (map Some ts @ [None])) \<le> length ts \<and> None \<in> set (snd (worker_run raises (map Some ts @ [None])))"
  by (induction ts) (auto simp: Let_def)

text \<open>
  A worker acknowledges its whole queue, sentinel included, exactly when none of its tasks
  raises. If one does, the worker dies with the sentinel still queued, so fewer items are
  acknowledged than were put and the final \<open>queue.join()\<close> of the engine cannot return.
\<close>

theorem worker_acknowledges_iff_no_raise:
  "fst (worker_run raises (map Some ts @ [None])) = length (map Some ts @ [None]) \<longleftrightarrow> (\<forall>t \<in> set ts. \<not> raises t)"
proof (cases "\<forall>t \<in> set ts. \<not> raises t")
  case True
  with worker_run_ok [of ts raises "[]"] show ?thesis by simp
next
  case False
  with worker_run_dies [of ts raises] show ?thesis by auto
qed

theorem worker_acknowledges_iff_no_raise_witness:
  "fst (worker_run (\<lambda>t. t = (2 :: nat)) [Some 1, Some 2, Some 3, None]) \<noteq> 4"
  using worker_acknowledges_iff_no_raise [of "\<lambda>t. t = (2 :: nat)" "[1, 2, 3]"] by simp

section \<open>The final summary\<close>

lemma status_counts_sum:
  "length (filter P xs) =
     length (filter (\<lambda>n. gn_status n = Done \<and> P n) xs) + length (filter (\<lambda>n. gn_status n = Failed \<and> P n) xs) +
     length (filter (\<lambda>n. gn_status n = Skipped \<and> P n) xs) + length (filter (\<lambda>n. gn_status n = Retry \<and> P n) xs) +
     length (filter (\<lambda>n. gn_status n = Pending \<and> P n) xs) + length (filter (\<lambda>n. gn_status n = In_progress \<and> P n) xs)"
proof (induction xs)
  case (Cons n xs)
  then show ?case by (cases "gn_status n") auto
qed simp

text \<open>
  The summary of a run partitions the nodes in scope by status, and the run counts as
  completed exactly when every one of them is done or skipped.
\<close>

theorem build_summary_correct:
  "let s = build_summary ids st s0 in
     su_done s + su_failed s + su_skipped s + su_retry s + su_pending s + su_in_progress s =
       length (filter (in_scope ids) (st_nodes st)) \<and>
     (su_status s = ''completed'' \<longleftrightarrow>
        (\<forall>n \<in> set (st_nodes st). in_scope ids n \<longrightarrow> gn_status n \<in> {Done, Skipped})) \<and>
     su_status s \<in> {''completed'', ''failed''} \<and>
     su_fetched s = su_fetched s0 \<and> su_dispatched s = su_dispatched s0"
proof -
  have zero: "status_count ids st x = 0 \<longleftrightarrow> (\<forall>n \<in> set (st_nodes st). in_scope ids n \<longrightarrow> gn_status n \<noteq> x)" for x
    by (auto simp: status_count_def filter_empty_conv)
  have ok: "x \<in> {Done, Skipped} \<longleftrightarrow>
      x \<noteq> Failed \<and> x \<noteq> Retry \<and> x \<noteq> Pending \<and> x \<noteq> In_progress" for x :: node_status
    by (cases x) auto
  have "status_count ids st Failed + status_count ids st Retry + status_count ids st Pending +
      status_count ids st In_progress = 0 \<longleftrightarrow>
      (\<forall>n \<in> set (st_nodes st). in_scope ids n \<longrightarrow> gn_status n \<in> {Done, Skipped})"
    unfolding add_is_0 zero ok by blast
  then show ?thesis
    using status_counts_sum [of "in_scope ids" "st_nodes st"]
    by (simp add: build_summary_def Let_def status_count_def)
qed

theorem build_summary_correct_witness:
  "su_status (build_summary [] demo_store new_summary) \<noteq> ''completed'' \<and>
   su_status (build_summary [] demo_store new_summary) \<in> {''completed'', ''failed''}"
proof -
  have "\<exists>n \<in> set (st_nodes demo_store). in_scope [] n \<and> gn_status n \<notin> {Done, Skipped}" by code_simp
  with build_summary_correct [of "[]" demo_store new_summary] show ?thesis unfolding Let_def by blast
qed

section \<open>The engine as a transition system\<close>

text \<open>\<open>frame m\<close>: \<open>m\<close> does not touch the set of attempted node keys.\<close>

named_theorems frame_intros \<open>rules for programs that leave the attempted keys alone\<close>

definition frame :: "'a prog \<Rightarrow> bool" where
  "frame m = (\<forall>w. w_attempted (snd (m w)) = w_attempted w)"

lemma frame_basic [frame_intros]:
  "frame (ret a)" "frame (raise e)" "frame (lift_url r1)" "frame (lift_key r2)" "frame (lift_py r3)" "frame (lift_exn r4)"
  "frame (on_summary f)" "frame (on_throttle g)" "frame (handle_detail node snapshot)"
  "frame (maybe_set_budget_decision node n)"
  by (auto simp: frame_def ret_def raise_def lift_url_def lift_key_def lift_py_def lift_exn_def on_summary_def
      on_throttle_def handle_detail_def maybe_set_budget_decision_def split: sum.split option.split)

lemma frame_cmd [frame_intros]: "frame (cmd c)"
  by (simp add: frame_def cmd_def split: prod.split sum.split)

lemma frame_bnd [frame_intros]:
  assumes "frame m" "\<And>a. frame (f a)"
  shows "frame (bnd m f)"
  unfolding frame_def
proof
  fix w
  obtain r w' where m: "m w = (r, w')" by fastforce
  then have "w_attempted w' = w_attempted w" using assms(1) by (metis frame_def snd_conv)
  with m assms(2) show "w_attempted (snd (bnd m f w)) = w_attempted w"
    by (cases r) (auto simp: bnd_def frame_def)
qed

lemma frame_thn [frame_intros]: "frame m \<Longrightarrow> frame n \<Longrightarrow> frame (thn m n)"
  by (simp add: thn_def frame_bnd)

lemma frame_catch [frame_intros]:
  assumes "frame m" "\<And>e. frame (h e)"
  shows "frame (catch m h)"
  unfolding frame_def
proof
  fix w
  obtain r w' where m: "m w = (r, w')" by fastforce
  then have "w_attempted w' = w_attempted w" using assms(1) by (metis frame_def snd_conv)
  with m assms(2) show "w_attempted (snd (catch m h w)) = w_attempted w"
    by (cases r) (auto simp: catch_def frame_def)
qed

lemma frame_control [frame_intros]:
  "frame m \<Longrightarrow> frame n \<Longrightarrow> frame (if b then m else n)"
  "frame m \<Longrightarrow> (\<And>a. frame (f a)) \<Longrightarrow> frame (case x of None \<Rightarrow> m | Some a \<Rightarrow> f a)"
  "frame (g y) \<Longrightarrow> frame (Let y g)"
  "(\<And>a b. frame (k a b)) \<Longrightarrow> frame (case p of (a, b) \<Rightarrow> k a b)"
  "frame m' \<Longrightarrow> frame (when_true b m')"
  "(\<And>s. frame (q s)) \<Longrightarrow> frame (case e of Runtime_error s \<Rightarrow> q s | _ \<Rightarrow> raise e)"
  by (auto split: option.split prod.split exn.split simp: when_true_def frame_basic)

lemma frame_for_each [frame_intros]: "(\<And>x. frame (f x)) \<Longrightarrow> frame (for_each f xs)"
  by (induction xs) (simp_all add: frame_intros)

lemma frame_children [frame_intros]:
  "frame (create_resolved_child deps parent ty url e c md idu r)"
  "frame (create_child deps parent ty url e c md idu)"
  "frame (settle deps parent s le ch)"
  "frame (set_org_status parent s0)"
  "frame (decide_page deps snapshot cands parent)"
  unfolding create_resolved_child_def create_child_def settle_def set_org_status_def decide_page_def
  by (intro frame_intros)+

lemma frame_pages [frame_intros]:
  "frame (materialize_link deps node ob res l)"
  "frame (materialize_reslices deps node rs yp ob)"
  "frame (create_url_pagination_nodes deps node snapshot ex)"
  "frame (create_form_pagination_nodes deps node snapshot)"
  "frame (over_facet_budget node deps)"
  "frame (create_college deps node snapshot entry)"
  unfolding materialize_link_def materialize_reslices_def reslice_child_def create_url_pagination_nodes_def
    create_form_pagination_nodes_def over_facet_budget_def create_college_def
  by (intro frame_intros)+

lemma frame_materialize [frame_intros]:
  "frame (materialize_decided deps node snapshot d fr k ob)"
  unfolding materialize_decided_def by (intro frame_intros)

lemma frame_dispatch: "frame (dispatch deps node snapshot)"
proof -
  have "frame (handle_org_listing deps node snapshot)"
    unfolding handle_org_listing_def by (intro frame_intros)
  moreover have "frame (handle_org_unit deps node snapshot)"
    unfolding handle_org_unit_def org_unit_child_def by (intro frame_intros)
  moreover have "frame (handle_faculty_page deps node snapshot)"
    unfolding handle_faculty_page_def finish_faculty_page_def by (intro frame_intros)
  ultimately show ?thesis by (simp add: dispatch_def frame_basic split: node_type.split)
qed

lemma frame_process_extract: "frame (process_extract_task env task)"
  unfolding process_extract_task_def reuse_extraction_def extract_professors_def finish_extraction_def
    save_extraction_def extraction_crashed_def mark_task_def
  by (intro frame_intros)

lemma frame_dispatch_snapshot [frame_intros]: "frame (dispatch_snapshot node snapshot html states)"
proof -
  have "frame (\<lambda>w. (Inr (), w\<lparr>w_decision_queue := w_decision_queue w @ [t]\<rparr>))" for t
    by (simp add: frame_def)
  then show ?thesis unfolding dispatch_snapshot_def by (intro frame_intros)
qed

lemma frame_handle_claimed: "frame (handle_claimed_node env node page)"
  unfolding handle_claimed_node_def process_fresh_result_def process_cached_result_def fail_fetch_def
    skip_unavailable_def record_fetch_failure_def mark_claimed_def count_failed_def
  by (intro frame_intros)

text \<open>A run interleaves turns of the driver and of the two worker pools in any order; a turn that
  raises leaves the world as it was at the raise.\<close>

inductive engine_step :: "engine_env \<Rightarrow> world \<Rightarrow> world \<Rightarrow> bool" for env :: engine_env where
  drive_turn: "driver_turn env pages w = (r, w') \<Longrightarrow> engine_step env w w'"
| decide_turn: "decision_turn env w = (r, w') \<Longrightarrow> engine_step env w w'"
| extract_turn_step: "extract_turn env w = (r, w') \<Longrightarrow> engine_step env w w'"

inductive engine_run :: "engine_env \<Rightarrow> world \<Rightarrow> world \<Rightarrow> bool" for env :: engine_env where
  run_refl: "engine_run env w w"
| run_step: "engine_run env w w' \<Longrightarrow> engine_step env w' w'' \<Longrightarrow> engine_run env w w''"

lemma bnd_returns: "m w = (Inr a, w') \<Longrightarrow> bnd m f w = f a w'"
  by (simp add: bnd_def)

lemma driver_turn_attempted:
  "w_attempted (snd (driver_turn env pages w)) = w_attempted w \<or>
   (\<exists>k. k \<notin> set (w_attempted w) \<and> w_attempted (snd (driver_turn env pages w)) = w_attempted w @ [k])"
proof -
  let ?claim = "claim_next (ee_run_id env) (w_attempted w) [] (ee_now env) (ee_org_unit_ids env)"
  obtain st r where c: "?claim (w_store w) = Inr (st, r)" using claim_next_total by blast
  show ?thesis
  proof (cases r)
    case None
    with c show ?thesis by (simp add: driver_turn_def bnd_def cmd_def run_command_def ret_def)
  next
    case (Some node)
    have new: "cn_node_key node \<notin> set (w_attempted w)"
      using c Some by (cases rule: claim_next_cases [OF c]) (auto simp: claimable_def detach_def claim_row_def)
    let ?w = "w\<lparr>w_store := st, w_attempted := w_attempted w @ [cn_node_key node]\<rparr>"
    have "frame (thn (handle_claimed_node env node (pages node)) (ret True))"
      by (intro frame_intros frame_handle_claimed)
    then have "w_attempted (snd (thn (handle_claimed_node env node (pages node)) (ret True) ?w)) = w_attempted ?w"
      by (simp add: frame_def)
    moreover have "driver_turn env pages w = thn (handle_claimed_node env node (pages node)) (ret True) ?w"
      using c Some by (simp add: driver_turn_def bnd_returns [where w' = "w\<lparr>w_store := st\<rparr>"] cmd_def run_command_def
          thn_def bnd_returns [where m = "\<lambda>w. (Inr (), g w)" for g])
    ultimately show ?thesis using new by auto
  qed
qed

lemma engine_step_attempted:
  assumes "engine_step env w w'" "distinct (w_attempted w)"
  shows "distinct (w_attempted w')"
  using assms(1)
proof cases
  case (drive_turn pages r)
  with driver_turn_attempted [of env pages w] assms(2) show ?thesis by auto
next
  case (decide_turn r)
  have "w_attempted (snd (decision_turn env w)) = w_attempted w"
    using frame_dispatch by (cases "w_decision_queue w") (simp_all add: decision_turn_def frame_def)
  with decide_turn assms(2) show ?thesis by simp
next
  case (extract_turn_step r)
  have "w_attempted (snd (extract_turn env w)) = w_attempted w"
    using frame_process_extract by (cases "w_extract_queue w") (simp_all add: extract_turn_def frame_def)
  with extract_turn_step assms(2) show ?thesis by simp
qed

lemma engine_run_attempted: "engine_run env w w' \<Longrightarrow> distinct (w_attempted w) \<Longrightarrow> distinct (w_attempted w')"
  by (induction rule: engine_run.induct) (auto intro: engine_step_attempted)



section \<open>Soundness of a whole run\<close>

lemma save_failed_inv: "store_inv (fst s) \<Longrightarrow> store_inv (fst (save_failed rp p s))"
  using next_id_fresh [of ef_id "st_failures (fst s)"] by (simp add: save_failed_def Let_def store_inv_def)

lemma save_failed_keeps: "store_inv (fst s) \<Longrightarrow> store_inv (fst (fold (save_failed rp) ps s))"
proof (induction ps arbitrary: s)
  case (Cons p ps)
  from Cons.IH [OF save_failed_inv [OF Cons.prems]] show ?case by simp
qed simp

lemma save_batch_keeps: "store_inv st \<Longrightarrow> save_batch env ps org nm st = Inr (st', r) \<Longrightarrow> store_inv st'"
  using save_failed_keeps [of "(st, zero_result)"]
  by (auto simp: save_batch_def split: option.splits intro: save_professors_keeps) (metis fst_conv)

lemma read_keeps:
  "store_inv st \<Longrightarrow> find_done_detail_for_url u i st = Inr (st', r) \<Longrightarrow> store_inv st'"
  "store_inv st \<Longrightarrow> get_page_cache u st = Inr (st', c) \<Longrightarrow> store_inv st'"
  by (auto simp: find_done_detail_for_url_def get_page_cache_def split: list.splits)

lemma command_keeps:
  "keeps store_inv (cmd (mark_node now k s le ch nr inc))" "keeps store_inv (cmd (save_page_cache pc))"
  "keeps store_inv (cmd (record_attempt i n rs pv url))" "keeps store_inv (cmd (finish_attempt now i rs pv ec))"
  "keeps store_inv (cmd (record_failure ft rv pv md ur))" "keeps store_inv (cmd (save_batch env ps org nm))"
  "keeps store_inv (cmd (find_done_detail_for_url u i))" "keeps store_inv (cmd (get_page_cache u))"
  by (rule keeps_cmd, erule (1) mark_node_keeps save_page_cache_keeps record_attempt_keeps finish_attempt_keeps
      record_failure_keeps save_batch_keeps read_keeps)+

lemma process_extract_task_keeps: "keeps store_inv (process_extract_task env task)"
  unfolding process_extract_task_def reuse_extraction_def extract_professors_def finish_extraction_def
    save_extraction_def extraction_crashed_def mark_task_def
  by (intro keeps_intros command_keeps)

lemma dispatch_snapshot_keeps: "keeps I (dispatch_snapshot node snapshot html states)"
proof -
  have "keeps I (\<lambda>w. (Inr (), w\<lparr>w_decision_queue := w_decision_queue w @ [t]\<rparr>))" for t
    by (simp add: keeps_def)
  moreover have "keeps I (handle_detail node snapshot)" by (simp add: keeps_def handle_detail_def)
  ultimately show ?thesis unfolding dispatch_snapshot_def by (intro keeps_intros)
qed

lemma handle_claimed_node_keeps: "keeps store_inv (handle_claimed_node env node page)"
  unfolding handle_claimed_node_def process_fresh_result_def process_cached_result_def fail_fetch_def
    skip_unavailable_def record_fetch_failure_def mark_claimed_def count_failed_def
  by (intro keeps_intros command_keeps dispatch_snapshot_keeps)

lemma driver_turn_keeps: "keeps store_inv (driver_turn env pages)"
  unfolding keeps_def
proof (intro allI impI)
  fix w :: world
  assume inv: "store_inv (w_store w)"
  let ?claim = "claim_next (ee_run_id env) (w_attempted w) [] (ee_now env) (ee_org_unit_ids env)"
  have "keeps store_inv (bnd (cmd ?claim) (\<lambda>claimed. (case claimed of
      None \<Rightarrow> ret False
    | Some node \<Rightarrow> thn (\<lambda>w. (Inr (), w\<lparr>w_attempted := w_attempted w @ [cn_node_key node]\<rparr>))
        (thn (handle_claimed_node env node (pages node)) (ret True)))))" (is "keeps _ ?m")
  proof (intro keeps_intros handle_claimed_node_keeps)
    show "keeps store_inv (cmd ?claim)" by (rule keeps_cmd) (erule (1) claim_next_keeps)
  qed (simp add: keeps_def)
  from keepsD [OF this inv] show "store_inv (w_store (snd (driver_turn env pages w)))"
    by (simp add: driver_turn_def bnd_def)
qed

lemma worker_turns_keep: "keeps store_inv (decision_turn env)" "keeps store_inv (extract_turn env)"
proof -
  show "keeps store_inv (decision_turn env)"
    using keepsD [OF inv_crawl.keeps_dispatch [OF refl]] unfolding keeps_def decision_turn_def
    by (simp split: list.split)
  show "keeps store_inv (extract_turn env)"
    using keepsD [OF process_extract_task_keeps] unfolding keeps_def extract_turn_def
    by (simp split: list.split)
qed

lemma engine_step_keeps:
  assumes "engine_step env w w'" "store_inv (w_store w)"
  shows "store_inv (w_store w')"
  using assms(1)
proof cases
  case (drive_turn pages r)
  with keepsD [OF driver_turn_keeps assms(2), of env pages] show ?thesis by simp
next
  case (decide_turn r)
  with keepsD [OF worker_turns_keep(1) assms(2), of env] show ?thesis by simp
next
  case (extract_turn_step r)
  with keepsD [OF worker_turns_keep(2) assms(2), of env] show ?thesis by simp
qed

text \<open>
  C1: Every world a run reaches from a well-formed store (a fresh one is), by any interleaving of
  driver and worker turns and whatever the bridge, the decision model and the extraction model
  return or raise, has a well-formed store: unique ids and natural keys in every table, and no
  dangling foreign key.
\<close>

theorem run_keeps_store_sound:
  assumes "engine_run env w0 w" and "store_inv (w_store w0)"
  shows "store_inv (w_store w)"
  using assms
proof (induction rule: engine_run.induct)
  case (run_step w w' w'')
  then show ?case by (blast intro: engine_step_keeps)
qed

theorem run_keeps_store_sound_witness:
  "\<exists>w. engine_run demo_env demo_world w \<and> map gn_status (st_nodes (w_store w)) = [Retry] \<and> store_inv (w_store w)"
proof -
  let ?w = "snd (driver_turn demo_env (\<lambda>_. timed_out) demo_world)"
  have run: "engine_run demo_env demo_world ?w"
    by (rule run_step [OF run_refl drive_turn [OF surjective_pairing]])
  have inv: "store_inv (w_store demo_world)" by code_simp
  have "case ?w of w \<Rightarrow> map gn_status (st_nodes (w_store w)) = [Retry]" by code_simp
  with run run_keeps_store_sound [OF run inv] show ?thesis by (intro exI [of _ ?w]) simp
qed

end
