(* ===== verification/Dext_Grounded.thy ===== *)
theory Dext_Grounded
  imports Dext_Llm
begin

text \<open>
  Grounded generation, the package \<open>src/src/dext_grounded\<close>: source references, fact bundles and
  claims (\<open>source_ref.py\<close>, \<open>fact_bundle.py\<close>, \<open>claims.py\<close>), the de-identified student context
  (\<open>student_context.py\<close>), the rule set (\<open>rules.py\<close>), output transformations (\<open>_output.py\<close>), citation
  validation (\<open>citation.py\<close>), trimming (\<open>trim.py\<close>), the safety guard (\<open>safety.py\<close>) and the pipeline
  that composes them (\<open>pipeline.py\<close>).

  Generated output is a JSON value. A compiled contact regex is the pair of its \<open>search\<close> and
  \<open>sub("")\<close>; SHA-256, \<open>str.lower\<close>, \<open>repr\<close> and the Unicode digit class are arguments.
\<close>

section \<open>References, facts and claims\<close>

datatype grounded_error = Value_error string | Key_error string

datatype content_class = Fact | Advice | Uncertain

record text_env =
  te_lower :: "string \<Rightarrow> string"
  te_repr :: "string \<Rightarrow> string"
  te_has_digit :: "string \<Rightarrow> bool"
  te_sha256 :: "string \<Rightarrow> string"

record source_ref =
  rf_doc_path :: string
  rf_heading_path :: string
  rf_chunk_hash :: string
  rf_quote :: string
  rf_official_url :: "string option"
  rf_last_verified :: "string option"

definition quote_limit :: nat where
  "quote_limit = 500"

text \<open>\<open>SourceRef.__post_init__\<close> and \<open>FactItem.__post_init__\<close>.\<close>

definition new_source_ref :: "source_ref \<Rightarrow> source_ref" where
  "new_source_ref r = r\<lparr>rf_quote := take_chars quote_limit (rf_quote r)\<rparr>"

record fact_item =
  fi_field :: string
  fi_value :: string
  fi_class :: content_class
  fi_refs :: "source_ref list"

definition new_fact_item :: "fact_item \<Rightarrow> fact_item" where
  "new_fact_item f = (if fi_refs f = [] \<and> fi_class f \<noteq> Uncertain then f\<lparr>fi_class := Uncertain\<rparr> else f)"

record fact_bundle =
  fb_build_id :: string
  fb_subject_id :: string
  fb_facts :: "fact_item list"
  fb_refs :: "source_ref list"

record user_context_ref =
  uc_field :: string
  uc_bucket :: "string option"
  uc_quote :: string

record claim =
  cl_text :: string
  cl_class :: content_class
  cl_refs :: "source_ref list"
  cl_user_ref :: "user_context_ref option"

record generation_warning =
  gw_code :: string
  gw_message :: string
  gw_claim_text :: "string option"

record generation_result =
  gx_output :: json
  gx_claims :: "claim list"
  gx_cited :: "source_ref list"
  gx_warnings :: "generation_warning list"

text \<open>\<open>Claim.validate\<close>: the warnings on the citation shape of one claim.\<close>

definition claim_shape_warnings :: "claim \<Rightarrow> generation_warning list" where
  "claim_shape_warnings c =
     (if cl_class c = Fact \<and> cl_refs c = []
      then [\<lparr>gw_code = ''fact_ref_missing'', gw_message = ''fact claim must carry non-empty fact_refs'',
             gw_claim_text = Some (cl_text c)\<rparr>] else []) @
     (if cl_class c = Uncertain \<and> cl_refs c \<noteq> []
      then [\<lparr>gw_code = ''uncertain_claim_with_refs'',
             gw_message = ''uncertain claim must not carry fact_refs as if certain'',
             gw_claim_text = Some (cl_text c)\<rparr>] else [])"

section \<open>Rules (rules.py)\<close>

record contact_pattern =
  cp_search :: "string \<Rightarrow> bool"
  cp_sub :: "string \<Rightarrow> string"

record policy_rule =
  po_patterns :: "string list"
  po_subject_terms :: "string list"
  po_attack_terms :: "string list"

record grounded_rules =
  gr_version :: string
  gr_domains :: "string list"
  gr_messages :: "(string, string) dict"
  gr_context_fields :: "string list"
  gr_gpa_buckets :: "string list"
  gr_rank_buckets :: "string list"
  gr_completeness :: "(string \<times> rat) list"
  gr_probability :: "string list"
  gr_unsafe :: "string list"
  gr_contacts :: "contact_pattern list"
  gr_stale :: "string list"
  gr_refusal_message :: string
  gr_safe_alternative :: string
  gr_categories :: "(string, policy_rule) dict"
  gr_report_dir :: string
  gr_fake_label :: string
  gr_mislabel_text :: string
  gr_trim_budget :: int
  gr_quote_max_len :: int

definition bucket_for :: "(string \<times> rat) list \<Rightarrow> rat option \<Rightarrow> string" where
  "bucket_for thresholds completeness =
     (case completeness of
        None \<Rightarrow> ''none''
      | Some c \<Rightarrow> (case find (\<lambda>(name, t). c \<ge> t) thresholds of None \<Rightarrow> ''none'' | Some (name, _) \<Rightarrow> name))"

text \<open>\<open>GroundedRules.warning_message\<close> with and without a fallback; \<open>message_of\<close> is the plain
  subscript \<open>warning_messages[code]\<close>.\<close>

definition message_of :: "grounded_rules \<Rightarrow> string \<Rightarrow> (grounded_error, string) result" where
  "message_of r code = (case map_of (gr_messages r) code of None \<Rightarrow> Inl (Key_error code) | Some m \<Rightarrow> Inr m)"

definition as_tuple :: "py_env \<Rightarrow> string \<Rightarrow> json \<Rightarrow> (grounded_error, string list) result" where
  "as_tuple env key raw =
     (case raw of
        JList xs \<Rightarrow> Inr (map (str_of env) xs)
      | _ \<Rightarrow> Inl (Value_error (''grounded rules '' @ key @ '' must be a list'')))"

definition as_optional_tuple :: "py_env \<Rightarrow> string \<Rightarrow> json option \<Rightarrow> (grounded_error, string list) result" where
  "as_optional_tuple env key raw =
     (case raw of None \<Rightarrow> Inr [] | Some JNull \<Rightarrow> Inr [] | Some v \<Rightarrow> as_tuple env key v)"

definition as_mapping :: "string \<Rightarrow> json \<Rightarrow> (grounded_error, metadata) result" where
  "as_mapping what raw =
     (case raw of JDict kvs \<Rightarrow> Inr kvs | _ \<Rightarrow> Inl (Value_error (what @ '' must be a mapping'')))"

definition require_keys :: "string \<Rightarrow> string list \<Rightarrow> metadata \<Rightarrow> (grounded_error, unit) result" where
  "require_keys what required d =
     (let missing = sort (filter (\<lambda>k. k \<notin> fst ` set d) required)
      in if missing = [] then Inr ()
         else Inl (Value_error (what @ '' missing keys: '' @ join_str '', '' missing)))"

text \<open>\<open>float(value)\<close>: numbers, and the strings \<open>float\<close> parses.\<close>

definition to_float :: "py_env \<Rightarrow> json \<Rightarrow> rat option" where
  "to_float env v =
     (case v of
        JBool b \<Rightarrow> Some (if b then 1 else 0)
      | JInt i \<Rightarrow> Some (of_int i)
      | JFloat q \<Rightarrow> Some q
      | JStr s \<Rightarrow> py_float env s
      | _ \<Rightarrow> None)"

definition completeness_pair ::
    "py_env \<Rightarrow> string \<times> json \<Rightarrow> (string \<times> rat) list \<Rightarrow> (grounded_error, (string \<times> rat) list) result" where
  "completeness_pair env kv pairs =
     (case to_float env (snd kv) of
        None \<Rightarrow> Inl (Value_error (''grounded rules completeness_buckets '' @ py_repr env (JStr (fst kv)) @
                  '' threshold must be numeric''))
      | Some t \<Rightarrow>
          if t < 0 \<or> t > 1 then
            Inl (Value_error (''grounded rules completeness_buckets '' @ py_repr env (JStr (fst kv)) @
                  '' threshold must be in [0,1]''))
          else Inr (pairs @ [(fst kv, t)]))"

text \<open>\<open>sort(key=..., reverse=True)\<close> is stable: pairs with equal thresholds keep their order.\<close>

definition parse_completeness_buckets :: "py_env \<Rightarrow> json \<Rightarrow> (grounded_error, (string \<times> rat) list) result" where
  "parse_completeness_buckets env raw =
     res_bind (as_mapping ''grounded rules completeness_buckets'' raw) (\<lambda>kvs.
     res_bind (res_fold (completeness_pair env) kvs []) (\<lambda>pairs.
       (let sorted = sort_key (\<lambda>p. - snd p) pairs
        in Inr (if ''none'' \<in> fst ` set sorted then sorted else sorted @ [(''none'', 0)]))))"

definition policy_category ::
    "py_env \<Rightarrow> string \<times> json \<Rightarrow> (string, policy_rule) dict \<Rightarrow> (grounded_error, (string, policy_rule) dict) result" where
  "policy_category env kv cats =
     (let name = fst kv; what = ''grounded safety content_policy category '' @ py_repr env (JStr name)
      in res_bind (as_mapping what (snd kv)) (\<lambda>cfg.
           (case map_of cfg ''patterns'' of
              None \<Rightarrow> Inl (Value_error (what @ '' missing patterns''))
            | Some pats \<Rightarrow>
                res_bind (as_tuple env (''content_policy.'' @ name @ ''.patterns'') pats) (\<lambda>ps.
                res_bind (as_optional_tuple env (''content_policy.'' @ name @ ''.subject_terms'') (map_of cfg ''subject_terms'')) (\<lambda>ss.
                res_bind (as_optional_tuple env (''content_policy.'' @ name @ ''.attack_terms'') (map_of cfg ''attack_terms'')) (\<lambda>ats.
                  Inr (dict_set name \<lparr>po_patterns = ps, po_subject_terms = ss, po_attack_terms = ats\<rparr> cats)))))))"

definition required_categories :: "string list" where
  "required_categories =
     [''political_sensitive'', ''personal_attack'', ''sexual_content'', ''violent_content'', ''mentor_attack'']"

definition parse_content_policy ::
    "py_env \<Rightarrow> json \<Rightarrow> (grounded_error, string \<times> string \<times> (string, policy_rule) dict) result" where
  "parse_content_policy env raw =
     res_bind (as_mapping ''grounded safety content_policy'' raw) (\<lambda>d.
     res_bind (require_keys ''grounded safety content_policy'' [''refusal_message'', ''safe_alternative'', ''categories''] d) (\<lambda>_.
     res_bind (as_mapping ''grounded safety content_policy.categories'' (the (map_of d ''categories''))) (\<lambda>cats.
     res_bind (require_keys ''grounded safety content_policy.categories'' required_categories cats) (\<lambda>_.
     res_bind (res_fold (policy_category env) cats []) (\<lambda>categories.
       Inr (str_of env (the (map_of d ''refusal_message'')), str_of env (the (map_of d ''safe_alternative'')), categories))))))"

text \<open>\<open>int(value)\<close>; \<open>read_int\<close> is \<open>int\<close> on strings.\<close>

definition to_int :: "(string \<Rightarrow> int option) \<Rightarrow> json \<Rightarrow> int option" where
  "to_int read_int v =
     (case v of
        JBool b \<Rightarrow> Some (if b then 1 else 0)
      | JInt i \<Rightarrow> Some i
      | JFloat q \<Rightarrow> Some (if q < 0 then \<lceil>q\<rceil> else \<lfloor>q\<rfloor>)
      | JStr s \<Rightarrow> read_int s
      | _ \<Rightarrow> None)"

definition default_int :: "(string \<Rightarrow> int option) \<Rightarrow> metadata \<Rightarrow> string \<Rightarrow> (grounded_error, int) result" where
  "default_int read_int d key =
     (case map_of d key of
        None \<Rightarrow> Inl (Key_error key)
      | Some v \<Rightarrow> (case to_int read_int v of None \<Rightarrow> Inl (Value_error key) | Some i \<Rightarrow> Inr i))"

definition required_rule_keys :: "string list" where
  "required_rule_keys =
     [''version'', ''defaults'', ''domains'', ''student_context_fields'', ''gpa_buckets'', ''rank_buckets'',
      ''completeness_buckets'', ''warning_messages'', ''safety'']"

definition required_safety_keys :: "string list" where
  "required_safety_keys =
     [''probability_patterns'', ''unsafe_advice_patterns'', ''contact_regexes'', ''stale_patterns'',
      ''content_policy'', ''competition_report_dir_whitelist_mislabel'']"

text \<open>\<open>parse_grounded_rules\<close>; \<open>compile\<close> is \<open>re.compile\<close> with the two uses made of the result.\<close>

definition parse_grounded_rules ::
    "py_env \<Rightarrow> (string \<Rightarrow> int option) \<Rightarrow> (string \<Rightarrow> contact_pattern) \<Rightarrow> metadata \<Rightarrow>
     (grounded_error, grounded_rules) result" where
  "parse_grounded_rules env read_int compile raw =
     (let item = (\<lambda>d k. the (map_of d k)); tup = (\<lambda>d k. as_tuple env k (the (map_of d k)));
          stup = (\<lambda>d k. as_tuple env (''safety.'' @ k) (the (map_of d k)))
      in res_bind (require_keys ''grounded rules'' required_rule_keys raw) (\<lambda>_.
         res_bind (as_mapping ''grounded rules defaults'' (item raw ''defaults'')) (\<lambda>defaults.
         res_bind (as_mapping ''grounded rules safety'' (item raw ''safety'')) (\<lambda>safety.
         res_bind (as_mapping ''grounded rules warning_messages'' (item raw ''warning_messages'')) (\<lambda>messages.
         res_bind (require_keys ''grounded safety rules'' required_safety_keys safety) (\<lambda>_.
         res_bind (as_mapping ''grounded safety competition_report_dir_whitelist_mislabel''
             (item safety ''competition_report_dir_whitelist_mislabel'')) (\<lambda>mis.
         res_bind (require_keys ''grounded competition mislabel rule'' [''report_dir'', ''fake_whitelist_label'', ''claim_text''] mis) (\<lambda>_.
         res_bind (tup raw ''domains'') (\<lambda>domains.
         res_bind (tup raw ''student_context_fields'') (\<lambda>fields.
         res_bind (tup raw ''gpa_buckets'') (\<lambda>gpa.
         res_bind (tup raw ''rank_buckets'') (\<lambda>rank.
         res_bind (parse_completeness_buckets env (item raw ''completeness_buckets'')) (\<lambda>completeness.
         res_bind (stup safety ''probability_patterns'') (\<lambda>probability.
         res_bind (stup safety ''unsafe_advice_patterns'') (\<lambda>unsafe.
         res_bind (stup safety ''contact_regexes'') (\<lambda>contacts.
         res_bind (stup safety ''stale_patterns'') (\<lambda>stale.
         res_bind (parse_content_policy env (item safety ''content_policy'')) (\<lambda>(refusal, alternative, categories).
         res_bind (default_int read_int defaults ''trim_token_budget'') (\<lambda>budget.
         res_bind (default_int read_int defaults ''quote_max_len'') (\<lambda>qlen.
           Inr \<lparr>gr_version = str_of env (item raw ''version''), gr_domains = domains,
                gr_messages = map (\<lambda>(k, v). (k, str_of env v)) messages, gr_context_fields = fields,
                gr_gpa_buckets = gpa, gr_rank_buckets = rank, gr_completeness = completeness,
                gr_probability = probability, gr_unsafe = unsafe, gr_contacts = map compile contacts,
                gr_stale = stale, gr_refusal_message = refusal, gr_safe_alternative = alternative,
                gr_categories = categories, gr_report_dir = str_of env (item mis ''report_dir''),
                gr_fake_label = str_of env (item mis ''fake_whitelist_label''),
                gr_mislabel_text = str_of env (item mis ''claim_text''),
                gr_trim_budget = budget, gr_quote_max_len = qlen\<rparr>))))))))))))))))))))"

section \<open>Student context (student_context.py)\<close>

record student_context =
  sx_education_stage :: "string option"
  sx_school :: "string option"
  sx_major :: "string option"
  sx_gpa_bucket :: "string option"
  sx_rank_bucket :: "string option"
  sx_research_interests :: "string list"
  sx_achievements_summary :: "string option"
  sx_competition_experience_summary :: "string option"
  sx_profile_completeness :: "rat option"

definition looks_like_raw_value :: "text_env \<Rightarrow> string \<Rightarrow> bool" where
  "looks_like_raw_value te v =
     (te_has_digit te v \<or> py_in ''/'' v \<or> py_in ''%'' v \<or> py_in ''rank'' (te_lower te v) \<or>
      py_in ''gpa'' (te_lower te v) \<or> py_in ''#'' v)"

definition validate_bucket ::
    "text_env \<Rightarrow> string \<Rightarrow> string option \<Rightarrow> string list \<Rightarrow> (grounded_error, unit) result" where
  "validate_bucket te field value allowed =
     (case value of
        None \<Rightarrow> Inr ()
      | Some v \<Rightarrow>
          if v = [] then Inl (Value_error (field @ '' must be a non-empty bucket string''))
          else if v \<in> set allowed then Inr ()
          else if looks_like_raw_value te v then Inl (Value_error (field @ '' rejected raw value''))
          else Inl (Value_error (field @ '' is not in the legal bucket enum'')))"

definition new_student_context ::
    "text_env \<Rightarrow> grounded_rules \<Rightarrow> student_context \<Rightarrow> (grounded_error, student_context) result" where
  "new_student_context te r s =
     res_bind (validate_bucket te ''gpa_bucket'' (sx_gpa_bucket s) (gr_gpa_buckets r)) (\<lambda>_.
     res_bind (validate_bucket te ''rank_bucket'' (sx_rank_bucket s) (gr_rank_buckets r)) (\<lambda>_.
       (case sx_profile_completeness s of
          Some pc \<Rightarrow> if pc < 0 \<or> pc > 1 then Inl (Value_error ''profile_completeness must be in [0,1]'') else Inr s
        | None \<Rightarrow> Inr s)))"

record log_summary =
  lg_uses_profile :: bool
  lg_completeness_bucket :: string

definition safe_log_summary :: "grounded_rules \<Rightarrow> student_context \<Rightarrow> log_summary" where
  "safe_log_summary r s =
     \<lparr>lg_uses_profile =
        (list_ex (\<lambda>v. v \<noteq> None)
           [sx_education_stage s, sx_school s, sx_major s, sx_gpa_bucket s, sx_rank_bucket s,
            sx_achievements_summary s, sx_competition_experience_summary s] \<or> sx_research_interests s \<noteq> []),
      lg_completeness_bucket = bucket_for (gr_completeness r) (sx_profile_completeness s)\<rparr>"

text \<open>\<open>UserContextRef.__post_init__\<close>.\<close>

definition new_user_context_ref ::
    "text_env \<Rightarrow> grounded_rules \<Rightarrow> user_context_ref \<Rightarrow> (grounded_error, user_context_ref) result" where
  "new_user_context_ref te r u =
     (let legal = gr_gpa_buckets r @ gr_rank_buckets r @ map fst (gr_completeness r);
          ok = Inr (u\<lparr>uc_quote := take_chars quote_limit (uc_quote u)\<rparr>)
      in (case uc_bucket u of
            None \<Rightarrow> ok
          | Some v \<Rightarrow>
              if v = [] then Inl (Value_error ''value_bucket must be a non-empty redacted bucket'')
              else if v \<notin> set legal \<and> looks_like_raw_value te v then
                Inl (Value_error ''value_bucket must not contain a raw GPA/rank value'')
              else ok))"

section \<open>Output values (_output.py)\<close>

fun iter_output_strings :: "json \<Rightarrow> string list" where
  "iter_output_strings (JStr s) = [s]"
| "iter_output_strings (JDict kvs) = concat (map (\<lambda>kv. iter_output_strings (snd kv)) kvs)"
| "iter_output_strings (JList vs) = concat (map iter_output_strings vs)"
| "iter_output_strings _ = []"

fun map_output_strings :: "(string \<Rightarrow> string) \<Rightarrow> json \<Rightarrow> json" where
  "map_output_strings f (JStr s) = JStr (f s)"
| "map_output_strings f (JDict kvs) = JDict (map (\<lambda>kv. (fst kv, map_output_strings f (snd kv))) kvs)"
| "map_output_strings f (JList vs) = JList (map (map_output_strings f) vs)"
| "map_output_strings f v = v"

definition empty_output :: "json \<Rightarrow> json" where
  "empty_output v = (case v of JDict _ \<Rightarrow> JDict [] | _ \<Rightarrow> JStr [])"

text \<open>\<open>s.replace(old, new)\<close>: non-overlapping occurrences from the left; an empty \<open>old\<close> matches
  between any two characters.\<close>

function replace_from :: "string \<Rightarrow> string \<Rightarrow> string \<Rightarrow> string" where
  "replace_from old new [] = []"
| "replace_from old new (c # cs) =
     (if old \<noteq> [] \<and> startswith (c # cs) old then new @ replace_from old new (drop (length old) (c # cs))
      else c # replace_from old new cs)"
  by pat_completeness auto
termination
  by (relation "measure (\<lambda>(old, new, s). length s)") auto

fun insert_between :: "string \<Rightarrow> string \<Rightarrow> string" where
  "insert_between new [] = new"
| "insert_between new (c # cs) = (if is_cont_byte c then [c] else new @ [c]) @ insert_between new cs"

definition py_replace :: "string \<Rightarrow> string \<Rightarrow> string \<Rightarrow> string" where
  "py_replace old new s = (if old = [] then insert_between new s else replace_from old new s)"

definition remove_output_fragments :: "json \<Rightarrow> string list \<Rightarrow> json" where
  "remove_output_fragments output fragments =
     (let usable = filter (\<lambda>f. f \<noteq> []) fragments
      in if usable = [] then output
         else map_output_strings (\<lambda>t. fold (\<lambda>f t. py_replace f [] t) usable t) output)"

section \<open>Citation validation (citation.py)\<close>

type_synonym ref_key = "string \<times> string \<times> string"
type_synonym ref_index = "(ref_key, source_ref \<times> string) dict"

definition ref_key :: "source_ref \<Rightarrow> ref_key" where
  "ref_key r = (rf_doc_path r, rf_heading_path r, rf_chunk_hash r)"

definition ref_content_hash :: "text_env \<Rightarrow> source_ref \<Rightarrow> string" where
  "ref_content_hash te r = te_sha256 te (rf_quote r @ [CHR 0x1F] @ str_or (rf_official_url r) [])"

definition bundle_ref_index :: "text_env \<Rightarrow> fact_bundle \<Rightarrow> ref_index" where
  "bundle_ref_index te b = fold (\<lambda>r. dict_set (ref_key r) (r, ref_content_hash te r)) (fb_refs b) []"

text \<open>\<open>getattr(student_context, field, None)\<close> for the dataclass fields.\<close>

datatype context_value = CV_none | CV_str string | CV_list "string list" | CV_float rat

definition opt_value :: "string option \<Rightarrow> context_value" where
  "opt_value v = (case v of None \<Rightarrow> CV_none | Some s \<Rightarrow> CV_str s)"

definition context_value_of :: "student_context \<Rightarrow> string \<Rightarrow> context_value" where
  "context_value_of s field =
     (case map_of
        [(''education_stage'', opt_value (sx_education_stage s)), (''school'', opt_value (sx_school s)),
         (''major'', opt_value (sx_major s)), (''gpa_bucket'', opt_value (sx_gpa_bucket s)),
         (''rank_bucket'', opt_value (sx_rank_bucket s)),
         (''research_interests'', CV_list (sx_research_interests s)),
         (''achievements_summary'', opt_value (sx_achievements_summary s)),
         (''competition_experience_summary'', opt_value (sx_competition_experience_summary s)),
         (''profile_completeness'', case sx_profile_completeness s of None \<Rightarrow> CV_none | Some q \<Rightarrow> CV_float q)] field of
        None \<Rightarrow> CV_none | Some v \<Rightarrow> v)"

definition has_context_value :: "student_context option \<Rightarrow> string \<Rightarrow> bool" where
  "has_context_value sc field =
     (case sc of
        None \<Rightarrow> False
      | Some s \<Rightarrow>
          (case context_value_of s field of
             CV_list xs \<Rightarrow> xs \<noteq> [] | CV_none \<Rightarrow> False | CV_str t \<Rightarrow> t \<noteq> [] | CV_float _ \<Rightarrow> True))"

definition valid_user_context_ref :: "user_context_ref \<Rightarrow> student_context option \<Rightarrow> string list \<Rightarrow> bool" where
  "valid_user_context_ref u sc allowed =
     (if uc_field u \<notin> set allowed \<or> \<not> has_context_value sc (uc_field u) then False
      else if uc_field u \<in> {''gpa_bucket'', ''rank_bucket''} then
        (case uc_bucket u of None \<Rightarrow> CV_none | Some b \<Rightarrow> CV_str b) = context_value_of (the sc) (uc_field u)
      else True)"

text \<open>\<open>_resolve_refs\<close>: the canonical references in order, and how many were fabricated.\<close>

fun resolve_refs :: "text_env \<Rightarrow> ref_index \<Rightarrow> source_ref list \<Rightarrow> source_ref list \<times> nat" where
  "resolve_refs te idx [] = ([], 0)"
| "resolve_refs te idx (r # rs) =
     (let (canonical, fabricated) = resolve_refs te idx rs
      in (case dict_get idx (ref_key r) of
            None \<Rightarrow> (canonical, Suc fabricated)
          | Some (bundle_ref, bundle_hash) \<Rightarrow>
              if ref_content_hash te r \<noteq> bundle_hash then (canonical, Suc fabricated)
              else (bundle_ref # canonical, fabricated)))"

definition warn :: "string \<Rightarrow> string \<Rightarrow> string option \<Rightarrow> generation_warning" where
  "warn code message text = \<lparr>gw_code = code, gw_message = message, gw_claim_text = text\<rparr>"

definition fabricated_warning ::
    "grounded_rules \<Rightarrow> nat \<Rightarrow> claim \<Rightarrow> (grounded_error, generation_warning) result" where
  "fabricated_warning r n c =
     res_bind (message_of r ''fabricated_ref'') (\<lambda>m.
       Inr (warn ''fabricated_ref'' (m @ '': '' @ nat_str n) (Some (cl_text c))))"

type_synonym claim_verdict = "(grounded_error, claim option \<times> generation_warning list) result"

definition validate_fact :: "text_env \<Rightarrow> grounded_rules \<Rightarrow> ref_index \<Rightarrow> claim \<Rightarrow> claim_verdict" where
  "validate_fact te r idx c =
     (if cl_refs c = [] then
        res_bind (message_of r ''fact_ref_missing'') (\<lambda>m.
          Inr (Some (c\<lparr>cl_class := Uncertain\<rparr>), [warn ''fact_ref_missing'' m (Some (cl_text c))]))
      else
        (let (canonical, fabricated) = resolve_refs te idx (cl_refs c)
         in if fabricated \<noteq> 0 then
              res_bind (fabricated_warning r fabricated c) (\<lambda>w. Inr (None, [w]))
            else Inr (Some (c\<lparr>cl_refs := canonical\<rparr>), [])))"

definition strip_context_ref ::
    "text_env \<Rightarrow> grounded_rules \<Rightarrow> student_context option \<Rightarrow> claim \<Rightarrow>
     (grounded_error, claim \<times> generation_warning list) result" where
  "strip_context_ref te r sc c =
     (case cl_user_ref c of
        None \<Rightarrow> Inr (c, [])
      | Some u \<Rightarrow>
          if valid_user_context_ref u sc (gr_context_fields r) then Inr (c, [])
          else
            res_bind (message_of r ''fabricated_user_context'') (\<lambda>m.
              Inr (c\<lparr>cl_user_ref := None\<rparr>,
                   [warn ''fabricated_user_context'' (m @ '' '' @ te_repr te (uc_field u)) (Some (cl_text c))])))"

definition validate_advice ::
    "text_env \<Rightarrow> grounded_rules \<Rightarrow> ref_index \<Rightarrow> student_context option \<Rightarrow> claim \<Rightarrow> claim_verdict" where
  "validate_advice te r idx sc c0 =
     res_bind (strip_context_ref te r sc c0) (\<lambda>(c, ws).
       if cl_refs c = [] then Inr (Some c, ws)
       else
         (let (canonical, fabricated) = resolve_refs te idx (cl_refs c)
          in if fabricated \<noteq> 0 then
               res_bind (fabricated_warning r fabricated c) (\<lambda>w.
                 if canonical = [] then Inr (None, ws @ [w])
                 else Inr (Some (c\<lparr>cl_refs := canonical\<rparr>), ws @ [w]))
             else Inr (Some c, ws)))"

definition validate_uncertain :: "grounded_rules \<Rightarrow> claim \<Rightarrow> claim_verdict" where
  "validate_uncertain r c =
     (if cl_refs c \<noteq> [] then
        res_bind (message_of r ''uncertain_claim_with_refs'') (\<lambda>m.
          Inr (Some (c\<lparr>cl_refs := []\<rparr>), [warn ''uncertain_claim_with_refs'' m (Some (cl_text c))]))
      else Inr (Some c, []))"

definition validate_claim ::
    "text_env \<Rightarrow> grounded_rules \<Rightarrow> ref_index \<Rightarrow> student_context option \<Rightarrow> claim \<Rightarrow> claim_verdict" where
  "validate_claim te r idx sc c =
     (case cl_class c of
        Fact \<Rightarrow> validate_fact te r idx c
      | Advice \<Rightarrow> validate_advice te r idx sc c
      | Uncertain \<Rightarrow> validate_uncertain r c)"

text \<open>The loop over the claims: kept claims, texts of dropped claims, warnings.\<close>

fun validate_claims ::
    "text_env \<Rightarrow> grounded_rules \<Rightarrow> ref_index \<Rightarrow> student_context option \<Rightarrow> claim list \<Rightarrow>
     (grounded_error, claim list \<times> string list \<times> generation_warning list) result" where
  "validate_claims te r idx sc [] = Inr ([], [], [])"
| "validate_claims te r idx sc (c # cs) =
     res_bind (validate_claim te r idx sc c) (\<lambda>(kept, ws).
     res_bind (validate_claims te r idx sc cs) (\<lambda>(ks, ds, wss).
       Inr (case kept of Some k \<Rightarrow> (k # ks, ds, ws @ wss) | None \<Rightarrow> (ks, cl_text c # ds, ws @ wss))))"

fun unique_refs :: "ref_key list \<Rightarrow> source_ref list \<Rightarrow> source_ref list" where
  "unique_refs seen [] = []"
| "unique_refs seen (r # rs) =
     (if ref_key r \<in> set seen then unique_refs seen rs else r # unique_refs (ref_key r # seen) rs)"

definition validate_citations ::
    "text_env \<Rightarrow> grounded_rules \<Rightarrow> fact_bundle \<Rightarrow> student_context option \<Rightarrow> generation_result \<Rightarrow>
     (grounded_error, generation_result) result" where
  "validate_citations te r b sc g =
     res_bind (validate_claims te r (bundle_ref_index te b) sc (gx_claims g)) (\<lambda>(kept, dropped, ws).
       (let g' = g\<lparr>gx_claims := kept, gx_cited := unique_refs [] (concat (map cl_refs kept)),
                  gx_warnings := gx_warnings g @ ws, gx_output := remove_output_fragments (gx_output g) dropped\<rparr>
        in if gx_claims g \<noteq> [] \<and> kept = [] then
             res_bind (message_of r ''no_grounded_output'') (\<lambda>m.
               Inr (g'\<lparr>gx_warnings := gx_warnings g' @ [warn ''no_grounded_output'' m None],
                        gx_output := empty_output (gx_output g)\<rparr>))
           else Inr g'))"

section \<open>Trimming (trim.py)\<close>

definition has_contact :: "contact_pattern list \<Rightarrow> string \<Rightarrow> bool" where
  "has_contact pats t = list_ex (\<lambda>p. cp_search p t) pats"

definition ref_texts :: "source_ref \<Rightarrow> string list" where
  "ref_texts r =
     [rf_doc_path r, rf_heading_path r, rf_chunk_hash r, rf_quote r, str_or (rf_official_url r) [],
      str_or (rf_last_verified r) []]"

definition ref_has_contact :: "contact_pattern list \<Rightarrow> source_ref \<Rightarrow> bool" where
  "ref_has_contact pats r = list_ex (has_contact pats) (ref_texts r)"

definition item_has_contact :: "contact_pattern list \<Rightarrow> fact_item \<Rightarrow> bool" where
  "item_has_contact pats f = (has_contact pats (fi_value f) \<or> list_ex (ref_has_contact pats) (fi_refs f))"

definition item_matches_query :: "text_env \<Rightarrow> string list \<Rightarrow> fact_item \<Rightarrow> bool" where
  "item_matches_query te terms f =
     (list_ex (\<lambda>t. py_in t (te_lower te (fi_value f))) terms \<or>
      list_ex (\<lambda>r. list_ex (\<lambda>t. py_in t (te_lower te (rf_quote r))) terms) (fi_refs f))"

definition estimate_tokens :: "string \<Rightarrow> int" where
  "estimate_tokens t = int (py_len t div 4)"

fun trim_items ::
    "text_env \<Rightarrow> contact_pattern list \<Rightarrow> string list \<Rightarrow> int \<Rightarrow> int \<Rightarrow> fact_item list \<Rightarrow> fact_item list" where
  "trim_items te pats terms budget remaining [] = []"
| "trim_items te pats terms budget remaining (f # fs) =
     (if item_has_contact pats f then trim_items te pats terms budget remaining fs
      else if item_matches_query te terms f then f # trim_items te pats terms budget remaining fs
      else if budget \<le> 0 then trim_items te pats terms budget remaining fs
      else if estimate_tokens (fi_value f) \<le> remaining then
        f # trim_items te pats terms budget (remaining - estimate_tokens (fi_value f)) fs
      else trim_items te pats terms budget remaining fs)"

definition ref_identity :: "source_ref \<Rightarrow> string \<times> string \<times> string \<times> string \<times> string option" where
  "ref_identity r = (rf_doc_path r, rf_heading_path r, rf_chunk_hash r, rf_quote r, rf_official_url r)"

definition trim :: "text_env \<Rightarrow> contact_pattern list \<Rightarrow> fact_bundle \<Rightarrow> int \<Rightarrow> string list \<Rightarrow> fact_bundle" where
  "trim te pats b budget query_terms =
     (let terms = map (te_lower te) query_terms;
          kept = trim_items te pats terms budget (max budget 0) (fb_facts b);
          used = map ref_identity (concat (map fi_refs kept))
      in b\<lparr>fb_facts := kept,
           fb_refs := filter (\<lambda>r. ref_identity r \<in> set used \<and> \<not> ref_has_contact pats r) (fb_refs b)\<rparr>)"

section \<open>Safety guard (safety.py)\<close>

definition content_policy_order :: "string list" where
  "content_policy_order =
     [''mentor_attack'', ''political_sensitive'', ''sexual_content'', ''violent_content'', ''personal_attack'']"

definition policy_hit :: "text_env \<Rightarrow> string option \<Rightarrow> policy_rule \<Rightarrow> string \<Rightarrow> bool" where
  "policy_hit te subject_kind p t =
     (let low = (\<lambda>xs. list_ex (\<lambda>x. py_in (te_lower te x) t) xs)
      in low (po_patterns p) \<or>
         (po_subject_terms p \<noteq> [] \<and> po_attack_terms p \<noteq> [] \<and>
          (subject_kind = Some ''mentor'' \<or> low (po_subject_terms p)) \<and> low (po_attack_terms p)))"

definition find_content_policy_category ::
    "text_env \<Rightarrow> grounded_rules \<Rightarrow> string option \<Rightarrow> string list \<Rightarrow> string option" where
  "find_content_policy_category te r subject_kind texts =
     find (\<lambda>cat. case map_of (gr_categories r) cat of
             None \<Rightarrow> False
           | Some p \<Rightarrow> list_ex (policy_hit te subject_kind p) (map (te_lower te) texts))
       content_policy_order"

definition content_policy_warnings ::
    "grounded_rules \<Rightarrow> string \<Rightarrow> (grounded_error, generation_warning list) result" where
  "content_policy_warnings r category =
     res_bind (message_of r ''content_policy_refusal'') (\<lambda>m.
       Inr [warn ''content_policy_refusal'' m (Some category),
            warn category (case map_of (gr_messages r) category of None \<Rightarrow> category | Some x \<Rightarrow> x) None])"

definition no_content_subject :: string where
  "no_content_subject = [CHR 0xE6, CHR 0x97, CHR 0xA0, CHR 0xE6, CHR 0xB3, CHR 0x95, CHR 0xE7, CHR 0x94, CHR 0x9F, CHR 0xE6, CHR 0x88, CHR 0x90, CHR 0xE8, CHR 0xAF, CHR 0xA5, CHR 0xE5, CHR 0x86, CHR 0x85, CHR 0xE5, CHR 0xAE, CHR 0xB9]"

definition refusal_output :: "grounded_rules \<Rightarrow> string option \<Rightarrow> json \<Rightarrow> json" where
  "refusal_output r operation template =
     (let msg = JStr (gr_refusal_message r @ gr_safe_alternative r); claims = (''claims'', JList [])
      in (case template of
            JStr _ \<Rightarrow> msg
          | _ \<Rightarrow>
              if operation = Some ''detail_followup'' then JDict [(''answer'', msg), claims]
              else if operation = Some ''match_analysis'' then
                JDict [(''summary'', msg), (''dimension_scores'', JDict []),
                       (''next_steps'', JList [JStr (gr_safe_alternative r)]), claims]
              else if operation = Some ''outreach_email'' then
                JDict [(''subject'', JStr no_content_subject), (''body'', msg), claims]
              else if operation = Some ''professor_comparison'' then
                JDict [(''summary'', msg), (''professor_notes'', JDict []), (''evidence_gaps'', JDict []), claims]
              else JDict [(''message'', msg), claims]))"

definition check_domain :: "grounded_rules \<Rightarrow> string \<Rightarrow> (grounded_error, unit) result" where
  "check_domain r domain =
     (if domain \<in> set (gr_domains r) then Inr () else Inl (Value_error ''unknown safety domain''))"

definition inspect_input ::
    "text_env \<Rightarrow> grounded_rules \<Rightarrow> string \<Rightarrow> string option \<Rightarrow> string option \<Rightarrow> json \<Rightarrow> json \<Rightarrow>
     (grounded_error, generation_result option) result" where
  "inspect_input te r domain operation subject_kind template value =
     res_bind (check_domain r domain) (\<lambda>_.
       (case find_content_policy_category te r subject_kind (iter_output_strings value) of
          None \<Rightarrow> Inr None
        | Some category \<Rightarrow>
            res_bind (content_policy_warnings r category) (\<lambda>ws.
              Inr (Some \<lparr>gx_output = refusal_output r operation template, gx_claims = [], gx_cited = [], gx_warnings = ws\<rparr>))))"

definition sanitize_contacts :: "grounded_rules \<Rightarrow> string \<Rightarrow> string" where
  "sanitize_contacts r t = fold (\<lambda>p t. cp_sub p t) (gr_contacts r) t"

definition hits :: "string list \<Rightarrow> string list \<Rightarrow> string list" where
  "hits pats texts = filter (\<lambda>p. list_ex (py_in p) texts) pats"

definition stale_note :: string where
  "stale_note = ''[uncertain: '' @ [CHR 0xE5, CHR 0xBE, CHR 0x80, CHR 0xE5, CHR 0xB1, CHR 0x8A, CHR 0xE4, CHR 0xBF, CHR 0xA1, CHR 0xE6, CHR 0x81, CHR 0xAF] @ '']''"

definition sanitize_leaf :: "grounded_rules \<Rightarrow> string list \<Rightarrow> string list \<Rightarrow> bool \<Rightarrow> string \<Rightarrow> string" where
  "sanitize_leaf r prob stale include_contacts t0 =
     (let t1 = fold (\<lambda>p t. py_replace p [] t) prob t0;
          t2 = fold (\<lambda>p t. py_replace p (p @ stale_note) t) stale t1
      in if include_contacts then t2 else sanitize_contacts r t2)"

definition guard_claim :: "grounded_rules \<Rightarrow> string list \<Rightarrow> bool \<Rightarrow> claim \<Rightarrow> claim" where
  "guard_claim r stale contact c =
     (let c1 = (if cl_class c = Fact \<and> list_ex (\<lambda>p. py_in p (cl_text c)) stale then c\<lparr>cl_class := Uncertain\<rparr> else c)
      in if contact then c1\<lparr>cl_text := sanitize_contacts r (cl_text c1)\<rparr> else c1)"

text \<open>The last part of \<open>inspect\<close>: probability, stale and contact rules.\<close>

definition apply_text_rules ::
    "grounded_rules \<Rightarrow> string \<Rightarrow> bool \<Rightarrow> generation_result \<Rightarrow> (grounded_error, generation_result) result" where
  "apply_text_rules r domain include_contacts g =
     (let texts = map cl_text (gx_claims g) @ iter_output_strings (gx_output g);
          prob = hits (gr_probability r) texts;
          stale = (if domain = ''competition'' then hits (gr_stale r) texts else []);
          contact = (\<not> include_contacts \<and> list_ex (has_contact (gr_contacts r)) texts);
          sanitized = map_output_strings (sanitize_leaf r prob stale include_contacts) (gx_output g);
          out = (if contact \<and> list_ex (has_contact (gr_contacts r)) (iter_output_strings sanitized)
                 then empty_output (gx_output g) else sanitized);
          kept = map (guard_claim r stale contact)
                   (filter (\<lambda>c. \<not> list_ex (\<lambda>p. py_in p (cl_text c)) prob) (gx_claims g))
      in res_bind (if prob = [] then Inr [] else res_bind (message_of r ''no_probability_claim'') (\<lambda>m.
             Inr (map (\<lambda>p. warn ''no_probability_claim'' m (Some p)) prob))) (\<lambda>w1.
         res_bind (if stale = [] then Inr [] else res_bind (message_of r ''stale_fact'') (\<lambda>m.
             Inr (map (\<lambda>p. warn ''stale_fact'' m (Some p)) stale))) (\<lambda>w2.
         res_bind (if \<not> contact then Inr [] else res_bind (message_of r ''unauthorized_contact'') (\<lambda>m.
             Inr [warn ''unauthorized_contact'' m None])) (\<lambda>w3.
           Inr (g\<lparr>gx_claims := kept, gx_warnings := gx_warnings g @ w1 @ w2 @ w3, gx_output := out\<rparr>)))))"

definition unsafe_text :: "grounded_rules \<Rightarrow> string list \<Rightarrow> string option" where
  "unsafe_text r texts = find (\<lambda>t. list_ex (\<lambda>p. py_in p t) (gr_unsafe r)) texts"

definition fake_whitelist :: "grounded_rules \<Rightarrow> string \<Rightarrow> string list \<Rightarrow> bool" where
  "fake_whitelist r domain outs =
     (let combined = join_str [CHR 0x0A] outs
      in domain = ''competition'' \<and> py_in (gr_report_dir r) combined \<and> py_in (gr_fake_label r) combined)"

definition inspect ::
    "text_env \<Rightarrow> grounded_rules \<Rightarrow> string \<Rightarrow> bool \<Rightarrow> string option \<Rightarrow> string option \<Rightarrow> generation_result \<Rightarrow>
     (grounded_error, generation_result) result" where
  "inspect te r domain include_contacts operation subject_kind g =
     res_bind (check_domain r domain) (\<lambda>_.
       (let outs = iter_output_strings (gx_output g); texts = map cl_text (gx_claims g) @ outs
        in (case find_content_policy_category te r subject_kind texts of
              Some category \<Rightarrow>
                res_bind (content_policy_warnings r category) (\<lambda>ws.
                  Inr (g\<lparr>gx_claims := [], gx_warnings := gx_warnings g @ ws,
                         gx_output := refusal_output r operation (gx_output g)\<rparr>))
            | None \<Rightarrow>
                if unsafe_text r texts \<noteq> None \<or> fake_whitelist r domain outs then
                  res_bind (message_of r ''unsafe_advice'') (\<lambda>m.
                    Inr (g\<lparr>gx_claims := [],
                           gx_warnings := gx_warnings g @
                             [warn ''unsafe_advice'' m
                                (if fake_whitelist r domain outs then Some (gr_mislabel_text r) else unsafe_text r texts)],
                           gx_output := empty_output (gx_output g)\<rparr>))
                else apply_text_rules r domain include_contacts g)))"

section \<open>Pipeline (pipeline.py)\<close>

text \<open>\<open>raw\<close> is the answer of the provider; \<open>support\<close> the optional operation-specific validator.\<close>

definition generate ::
    "text_env \<Rightarrow> grounded_rules \<Rightarrow> fact_bundle \<Rightarrow> student_context option \<Rightarrow> bool \<Rightarrow> string \<Rightarrow> bool \<Rightarrow>
     string option \<Rightarrow> string option \<Rightarrow> (generation_result \<Rightarrow> fact_bundle \<Rightarrow> generation_result) option \<Rightarrow>
     json \<Rightarrow> generation_result \<Rightarrow> (grounded_error, generation_result) result" where
  "generate te r b sc has_schema domain include_contacts operation subject_kind support inputs raw =
     res_bind (inspect_input te r domain operation subject_kind (if has_schema then JDict [] else JStr []) inputs) (\<lambda>pre.
       (case pre of
          Some refusal \<Rightarrow> Inr refusal
        | None \<Rightarrow>
            res_bind (validate_citations te r b sc (case support of None \<Rightarrow> raw | Some f \<Rightarrow> f raw b)) (\<lambda>g.
              inspect te r domain include_contacts operation subject_kind g)))"

section \<open>Citations are grounded\<close>

lemma bundle_ref_index_sound:
  assumes "dict_get (fold (\<lambda>r. dict_set (ref_key r) (r, ref_content_hash te r)) refs idx) k = Some (r, h)"
    and "dict_get idx k = Some (r, h) \<Longrightarrow> P r h"
    and "\<And>r. r \<in> set refs \<Longrightarrow> ref_key r = k \<Longrightarrow> P r (ref_content_hash te r)"
  shows "P r h"
  using assms
proof (induction refs arbitrary: idx)
  case (Cons x refs)
  show ?case
  proof (rule Cons.IH)
    show "dict_get (fold (\<lambda>r. dict_set (ref_key r) (r, ref_content_hash te r)) refs
        (dict_set (ref_key x) (x, ref_content_hash te x) idx)) k = Some (r, h)"
      using Cons.prems(1) by simp
    show "P r h" if "dict_get (dict_set (ref_key x) (x, ref_content_hash te x) idx) k = Some (r, h)"
      using that Cons.prems(2) Cons.prems(3) [of x] by (auto simp: dict_get_set split: if_splits)
  qed (use Cons.prems(3) in auto)
qed simp

lemma bundle_ref_index_entry:
  assumes "dict_get (bundle_ref_index te b) k = Some (r, h)"
  shows "r \<in> set (fb_refs b) \<and> ref_key r = k \<and> h = ref_content_hash te r"
  using assms unfolding bundle_ref_index_def
  by (rule bundle_ref_index_sound) (auto simp: dict_get_def)

text \<open>\<open>matches te b r\<close>: some reference of the bundle has the key and the content hash of \<open>r\<close>.\<close>

definition matches :: "text_env \<Rightarrow> fact_bundle \<Rightarrow> source_ref \<Rightarrow> bool" where
  "matches te b r =
     (\<exists>r' \<in> set (fb_refs b). ref_key r' = ref_key r \<and> ref_content_hash te r' = ref_content_hash te r)"

lemma matches_refl: "r \<in> set (fb_refs b) \<Longrightarrow> matches te b r"
  by (auto simp: matches_def)

lemma resolve_refs_sound:
  assumes "resolve_refs te (bundle_ref_index te b) rs = (canonical, fabricated)"
  shows "set canonical \<subseteq> set (fb_refs b) \<and> length canonical + fabricated = length rs \<and>
    (fabricated = 0 \<longrightarrow> (\<forall>r \<in> set rs. matches te b r))"
  using assms
proof (induction rs arbitrary: canonical fabricated)
  case (Cons r rs)
  obtain c f where rec: "resolve_refs te (bundle_ref_index te b) rs = (c, f)" by fastforce
  note IH = Cons.IH [OF rec]
  show ?case
  proof (cases "dict_get (bundle_ref_index te b) (ref_key r)")
    case None
    with Cons.prems rec IH show ?thesis by auto
  next
    case (Some e)
    obtain r' h where e: "e = (r', h)" by fastforce
    from bundle_ref_index_entry Some e have r': "r' \<in> set (fb_refs b)" "ref_key r' = ref_key r" "h = ref_content_hash te r'"
      by blast+
    then have "ref_content_hash te r = h \<Longrightarrow> matches te b r" by (auto simp: matches_def)
    with Cons.prems rec IH Some e r' show ?thesis by (auto split: if_splits)
  qed
qed simp

definition grounded_claim :: "text_env \<Rightarrow> grounded_rules \<Rightarrow> fact_bundle \<Rightarrow> student_context option \<Rightarrow> claim \<Rightarrow> bool" where
  "grounded_claim te r b sc c =
     (case cl_class c of
        Fact \<Rightarrow> cl_refs c \<noteq> [] \<and> set (cl_refs c) \<subseteq> set (fb_refs b)
      | Uncertain \<Rightarrow> cl_refs c = []
      | Advice \<Rightarrow>
          (\<forall>x \<in> set (cl_refs c). matches te b x) \<and>
          (case cl_user_ref c of None \<Rightarrow> True | Some u \<Rightarrow> valid_user_context_ref u sc (gr_context_fields r)))"

lemma validate_fact_sound:
  assumes "validate_fact te r (bundle_ref_index te b) c = Inr (Some k, ws)" "cl_class c = Fact"
  shows "grounded_claim te r b sc k \<and> cl_text k = cl_text c"
proof (cases "cl_refs c = []")
  case True
  with assms show ?thesis by (auto simp: validate_fact_def grounded_claim_def res_bind_eq_Inr)
next
  case False
  obtain canonical f where res: "resolve_refs te (bundle_ref_index te b) (cl_refs c) = (canonical, f)" by fastforce
  with False assms have "f = 0" "k = c\<lparr>cl_refs := canonical\<rparr>"
    by (auto simp: validate_fact_def res_bind_eq_Inr split: if_splits)
  with resolve_refs_sound [OF res] False assms(2) show ?thesis by (auto simp: grounded_claim_def)
qed

lemma strip_context_ref_sound:
  assumes "strip_context_ref te r sc c = Inr (k, ws)"
  shows "cl_class k = cl_class c \<and> cl_refs k = cl_refs c \<and> cl_text k = cl_text c \<and>
    (case cl_user_ref k of None \<Rightarrow> True | Some u \<Rightarrow> valid_user_context_ref u sc (gr_context_fields r))"
  using assms by (auto simp: strip_context_ref_def res_bind_eq_Inr split: option.splits if_splits)

lemma validate_advice_sound:
  assumes "validate_advice te r (bundle_ref_index te b) sc c = Inr (Some k, ws)" "cl_class c = Advice"
  shows "grounded_claim te r b sc k \<and> cl_text k = cl_text c"
proof -
  from assms(1) obtain c1 ws1 where s: "strip_context_ref te r sc c = Inr (c1, ws1)"
    by (auto simp: validate_advice_def res_bind_eq_Inr)
  note s' = strip_context_ref_sound [OF s]
  obtain canonical f where res: "resolve_refs te (bundle_ref_index te b) (cl_refs c1) = (canonical, f)" by fastforce
  note res' = resolve_refs_sound [OF res]
  have "k = c1 \<and> (cl_refs c1 = [] \<or> f = 0) \<or> k = c1\<lparr>cl_refs := canonical\<rparr>"
    using assms(1) s res by (auto simp: validate_advice_def res_bind_eq_Inr split: if_splits)
  then show ?thesis
  proof
    assume "k = c1 \<and> (cl_refs c1 = [] \<or> f = 0)"
    with s' res' assms(2) show ?thesis by (auto simp: grounded_claim_def)
  next
    assume "k = c1\<lparr>cl_refs := canonical\<rparr>"
    with s' res' assms(2) show ?thesis by (auto simp: grounded_claim_def intro: matches_refl)
  qed
qed

lemma validate_claim_sound:
  assumes "validate_claim te r (bundle_ref_index te b) sc c = Inr (Some k, ws)"
  shows "grounded_claim te r b sc k \<and> cl_text k = cl_text c"
proof (cases "cl_class c")
  case Fact
  with assms validate_fact_sound show ?thesis by (simp add: validate_claim_def)
next
  case Advice
  with assms validate_advice_sound show ?thesis by (simp add: validate_claim_def)
next
  case Uncertain
  with assms show ?thesis
    by (auto simp: validate_claim_def validate_uncertain_def grounded_claim_def res_bind_eq_Inr split: if_splits)
qed

lemma validate_claims_sound:
  assumes "validate_claims te r (bundle_ref_index te b) sc cs = Inr (ks, ds, ws)"
  shows "(\<forall>k \<in> set ks. grounded_claim te r b sc k) \<and> subseq (map cl_text ks) (map cl_text cs) \<and>
    length ks + length ds = length cs"
  using assms
proof (induction cs arbitrary: ks ds ws)
  case (Cons c cs)
  from Cons.prems obtain kept w where v: "validate_claim te r (bundle_ref_index te b) sc c = Inr (kept, w)"
    by (auto simp: res_bind_eq_Inr)
  with Cons.prems obtain ks1 ds1 ws1 where rec: "validate_claims te r (bundle_ref_index te b) sc cs = Inr (ks1, ds1, ws1)"
    by (auto simp: res_bind_eq_Inr)
  note IH = Cons.IH [OF rec]
  show ?case
  proof (cases kept)
    case None
    with Cons.prems v rec IH show ?thesis by (auto intro: list_emb_Cons)
  next
    case (Some k)
    with validate_claim_sound v have "grounded_claim te r b sc k" "cl_text k = cl_text c" by blast+
    with Some Cons.prems v rec IH show ?thesis by auto
  qed
qed simp

lemma unique_refs_sound:
  "distinct (map ref_key (unique_refs seen rs)) \<and> ref_key ` set (unique_refs seen rs) = ref_key ` set rs - set seen \<and>
   set (unique_refs seen rs) \<subseteq> set rs"
  by (induction rs arbitrary: seen) auto

lemma validate_citations_claims:
  assumes "validate_citations te r b sc g = Inr g'"
  shows "(\<forall>c \<in> set (gx_claims g'). grounded_claim te r b sc c) \<and>
    subseq (map cl_text (gx_claims g')) (map cl_text (gx_claims g)) \<and>
    gx_cited g' = unique_refs [] (concat (map cl_refs (gx_claims g'))) \<and>
    (gx_claims g \<noteq> [] \<and> gx_claims g' = [] \<longrightarrow> gx_output g' = empty_output (gx_output g))"
proof -
  from assms obtain ks ds ws where v: "validate_claims te r (bundle_ref_index te b) sc (gx_claims g) = Inr (ks, ds, ws)"
    by (auto simp: validate_citations_def res_bind_eq_Inr)
  have "gx_claims g' = ks" "gx_cited g' = unique_refs [] (concat (map cl_refs ks))"
    "gx_claims g \<noteq> [] \<and> ks = [] \<Longrightarrow> gx_output g' = empty_output (gx_output g)"
    using assms v by (auto simp: validate_citations_def Let_def res_bind_eq_Inr split: if_splits)
  with validate_claims_sound [OF v] show ?thesis by auto
qed

text \<open>
  Citation validation is sound: in a validated result every fact claim cites at least one
  reference and only references of the fact bundle, every reference of an advice claim agrees
  with a bundle reference in document, heading, chunk and content hash and its student-context
  reference names a present, allowed field, and no uncertain claim carries references. The
  surviving claims keep their order and text, the cited references are exactly those of the
  surviving claims without duplicates, and when every claim was dropped the output is emptied.
\<close>

theorem validate_citations_sound:
  assumes "validate_citations te r b sc g = Inr g'"
  shows "(\<forall>c \<in> set (gx_claims g'). grounded_claim te r b sc c) \<and>
    subseq (map cl_text (gx_claims g')) (map cl_text (gx_claims g)) \<and>
    distinct (map ref_key (gx_cited g')) \<and>
    ref_key ` set (gx_cited g') = ref_key ` (\<Union>c \<in> set (gx_claims g'). set (cl_refs c)) \<and>
    (gx_claims g \<noteq> [] \<and> gx_claims g' = [] \<longrightarrow> gx_output g' \<in> {JDict [], JStr []})"
proof -
  have "empty_output (gx_output g) \<in> {JDict [], JStr []}" by (simp add: empty_output_def split: json.split)
  with validate_citations_claims [OF assms] unique_refs_sound [of "[]" "concat (map cl_refs (gx_claims g'))"]
  show ?thesis by auto
qed

section \<open>Trimming\<close>

lemma trim_items_subseq: "subseq (trim_items te pats terms budget remaining fs) fs"
  by (induction te pats terms budget remaining fs rule: trim_items.induct) auto

lemma trim_items_clean: "f \<in> set (trim_items te pats terms budget remaining fs) \<Longrightarrow> \<not> item_has_contact pats f"
  by (induction te pats terms budget remaining fs rule: trim_items.induct) (auto split: if_splits)

lemma trim_items_hits:
  "f \<in> set fs \<Longrightarrow> item_matches_query te terms f \<Longrightarrow> \<not> item_has_contact pats f \<Longrightarrow>
     f \<in> set (trim_items te pats terms budget remaining fs)"
  by (induction te pats terms budget remaining fs rule: trim_items.induct) auto

lemma trim_items_budget:
  assumes "0 \<le> remaining"
  shows "(\<Sum>f \<leftarrow> filter (\<lambda>f. \<not> item_matches_query te terms f) (trim_items te pats terms budget remaining fs).
      estimate_tokens (fi_value f)) \<le> remaining"
  using assms
proof (induction te pats terms budget remaining fs rule: trim_items.induct)
  case (2 te pats terms budget remaining f fs)
  show ?case
  proof (cases "\<not> item_has_contact pats f \<and> \<not> item_matches_query te terms f \<and> \<not> budget \<le> 0 \<and>
      estimate_tokens (fi_value f) \<le> remaining")
    case True
    with 2(4) 2(6) show ?thesis by simp
  next
    case False
    with 2 show ?thesis by auto
  qed
qed simp

text \<open>
  Trimming keeps what it must and nothing it must not: the kept facts are a subsequence of
  the bundle, none of them and none of the kept references carries a contact, every fact that
  matches the query and carries no contact is kept, the facts kept without matching stay within
  the token budget, and the reference list holds only references some kept fact uses.
\<close>

theorem trim_correct:
  fixes te pats b budget qs
  defines "t \<equiv> trim te pats b budget qs" and "terms \<equiv> map (te_lower te) qs"
  shows "subseq (fb_facts t) (fb_facts b) \<and>
    (\<forall>f \<in> set (fb_facts t). \<not> item_has_contact pats f) \<and>
    (\<forall>f \<in> set (fb_facts b). item_matches_query te terms f \<and> \<not> item_has_contact pats f \<longrightarrow> f \<in> set (fb_facts t)) \<and>
    (\<Sum>f \<leftarrow> filter (\<lambda>f. \<not> item_matches_query te terms f) (fb_facts t). estimate_tokens (fi_value f)) \<le> max budget 0 \<and>
    (\<forall>x \<in> set (fb_refs t). \<not> ref_has_contact pats x \<and>
       (\<exists>f \<in> set (fb_facts t). \<exists>y \<in> set (fi_refs f). ref_identity y = ref_identity x))"
proof (intro conjI)
  show "subseq (fb_facts t) (fb_facts b)" by (simp add: t_def trim_def Let_def trim_items_subseq)
  show "\<forall>f \<in> set (fb_facts t). \<not> item_has_contact pats f"
    by (auto simp: t_def trim_def Let_def dest: trim_items_clean)
  show "\<forall>f \<in> set (fb_facts b). item_matches_query te terms f \<and> \<not> item_has_contact pats f \<longrightarrow> f \<in> set (fb_facts t)"
    by (auto simp: t_def terms_def trim_def Let_def intro: trim_items_hits)
  show "(\<Sum>f \<leftarrow> filter (\<lambda>f. \<not> item_matches_query te terms f) (fb_facts t). estimate_tokens (fi_value f)) \<le> max budget 0"
    using trim_items_budget [of "max budget 0"] by (simp add: t_def terms_def trim_def Let_def)
  show "\<forall>x \<in> set (fb_refs t). \<not> ref_has_contact pats x \<and>
       (\<exists>f \<in> set (fb_facts t). \<exists>y \<in> set (fi_refs f). ref_identity y = ref_identity x)"
    by (force simp: t_def trim_def Let_def)
qed

section \<open>The pipeline\<close>

definition fact_cited :: "fact_bundle \<Rightarrow> claim \<Rightarrow> bool" where
  "fact_cited b c = (cl_class c = Fact \<longrightarrow> cl_refs c \<noteq> [] \<and> set (cl_refs c) \<subseteq> set (fb_refs b))"

lemma grounded_fact_cited: "grounded_claim te r b sc c \<Longrightarrow> fact_cited b c"
  by (auto simp: grounded_claim_def fact_cited_def split: content_class.splits)

lemma guard_claim_fact_cited: "fact_cited b c \<Longrightarrow> fact_cited b (guard_claim r stale contact c)"
  by (simp add: guard_claim_def fact_cited_def Let_def)

lemma apply_text_rules_claims:
  assumes "apply_text_rules r domain ic g = Inr g'" "\<forall>c \<in> set (gx_claims g). fact_cited b c"
  shows "\<forall>c \<in> set (gx_claims g'). fact_cited b c"
  using assms guard_claim_fact_cited by (auto simp: apply_text_rules_def Let_def res_bind_eq_Inr)

lemma inspect_claims:
  assumes "inspect te r domain ic operation kind g = Inr g'" "\<forall>c \<in> set (gx_claims g). fact_cited b c"
  shows "\<forall>c \<in> set (gx_claims g'). fact_cited b c"
  using assms apply_text_rules_claims
  by (auto simp: inspect_def Let_def res_bind_eq_Inr split: option.splits if_splits)

text \<open>
  C6: Whatever the provider and the support validator return, every fact claim in the result of
  the pipeline cites at least one reference and only references of the fact bundle; and when
  the preflight finds a content-policy category in the inputs, the result is the refusal, with
  no claim and no citation, the same for every provider answer.
\<close>

theorem generate_grounded:
  assumes "generate te r b sc schema domain ic operation kind support inputs raw = Inr g"
  shows "(\<forall>c \<in> set (gx_claims g). fact_cited b c) \<and>
    (find_content_policy_category te r kind (iter_output_strings inputs) \<noteq> None \<longrightarrow>
       gx_claims g = [] \<and> gx_cited g = [] \<and>
       (\<forall>raw'. generate te r b sc schema domain ic operation kind support inputs raw' = Inr g))"
proof -
  let ?t = "if schema then JDict [] else JStr []"
  from assms obtain pre where pre: "inspect_input te r domain operation kind ?t inputs = Inr pre"
    by (auto simp: generate_def res_bind_eq_Inr)
  show ?thesis
  proof (cases pre)
    case None
    with pre have "find_content_policy_category te r kind (iter_output_strings inputs) = None"
      by (auto simp: inspect_input_def res_bind_eq_Inr split: option.splits)
    moreover obtain v where "validate_citations te r b sc (case support of None \<Rightarrow> raw | Some f \<Rightarrow> f raw b) = Inr v"
      "inspect te r domain ic operation kind v = Inr g"
      using assms pre None by (auto simp: generate_def res_bind_eq_Inr)
    moreover from this(1) validate_citations_claims have "\<forall>c \<in> set (gx_claims v). fact_cited b c"
      by (blast intro: grounded_fact_cited)
    ultimately show ?thesis using inspect_claims by blast
  next
    case (Some refusal)
    with pre have "gx_claims refusal = []" "gx_cited refusal = []"
      by (auto simp: inspect_input_def res_bind_eq_Inr split: option.splits)
    moreover have "generate te r b sc schema domain ic operation kind support inputs raw' = Inr refusal" for raw'
      using pre Some by (simp add: generate_def)
    ultimately show ?thesis using assms by auto
  qed
qed

section \<open>Contacts\<close>

lemma empty_output_strings: "t \<in> set (iter_output_strings (empty_output v)) \<Longrightarrow> t = []"
  by (simp add: empty_output_def split: json.splits)

lemma refusal_output_strings:
  "t \<in> set (iter_output_strings (refusal_output r operation v)) \<Longrightarrow>
     t \<in> {gr_refusal_message r @ gr_safe_alternative r, gr_safe_alternative r, no_content_subject}"
  by (cases v) (auto simp: refusal_output_def Let_def split: if_splits)

lemma apply_text_rules_contacts:
  assumes "apply_text_rules r domain False g = Inr g'"
    and "list_ex (has_contact (gr_contacts r)) (map cl_text (gx_claims g) @ iter_output_strings (gx_output g))"
    and "\<not> has_contact (gr_contacts r) []"
  shows "\<forall>t \<in> set (iter_output_strings (gx_output g')). \<not> has_contact (gr_contacts r) t"
proof -
  let ?bad = "list_ex (has_contact (gr_contacts r))"
  from assms(1,2) obtain s where
    "gx_output g' = (if ?bad (iter_output_strings s) then empty_output (gx_output g) else s)"
    by (auto simp: apply_text_rules_def Let_def res_bind_eq_Inr)
  with assms(3) show ?thesis by (auto simp: list_ex_iff dest: empty_output_strings)
qed


section \<open>Where the guards stop\<close>

definition plain_text :: text_env where
  "plain_text =
     \<lparr>te_lower = py_lower, te_repr = (\<lambda>s. [CHR 0x27] @ s @ [CHR 0x27]),
      te_has_digit = list_ex (\<lambda>c. CHR ''0'' \<le> c \<and> c \<le> CHR ''9''), te_sha256 = (\<lambda>s. s)\<rparr>"

definition at_pattern :: contact_pattern where
  "at_pattern = \<lparr>cp_search = py_in ''@x.cn'', cp_sub = py_replace ''@x.cn'' []\<rparr>"

definition admission_probability :: string where
  "admission_probability = [CHR 0xE5, CHR 0xBD, CHR 0x95, CHR 0xE5, CHR 0x8F, CHR 0x96, CHR 0xE6, CHR 0xA6, CHR 0x82, CHR 0xE7, CHR 0x8E, CHR 0x87]"

definition demo_rules :: grounded_rules where
  "demo_rules =
     \<lparr>gr_version = ''grounded-v1'', gr_domains = [''recommend'', ''competition'', ''generic''],
      gr_messages = map (\<lambda>k. (k, k))
        [''fact_ref_missing'', ''uncertain_claim_with_refs'', ''fabricated_ref'', ''fabricated_user_context'',
         ''no_grounded_output'', ''no_probability_claim'', ''unsafe_advice'', ''unauthorized_contact'', ''stale_fact'',
         ''content_policy_refusal''],
      gr_context_fields = [''major''], gr_gpa_buckets = [''high''], gr_rank_buckets = [''top5''],
      gr_completeness = [(''high'', 0.66), (''none'', 0)], gr_probability = [admission_probability],
      gr_unsafe = [''ghostwrite''], gr_contacts = [at_pattern], gr_stale = [''last year''],
      gr_refusal_message = ''no.'', gr_safe_alternative = ''ask about research'',
      gr_categories = [(''personal_attack'', \<lparr>po_patterns = [''idiot''], po_subject_terms = [], po_attack_terms = []\<rparr>)],
      gr_report_dir = ''2024'', gr_fake_label = ''whitelist'', gr_mislabel_text = ''mislabel'',
      gr_trim_budget = 4096, gr_quote_max_len = 500\<rparr>"

definition demo_ref :: source_ref where
  "demo_ref =
     \<lparr>rf_doc_path = ''d'', rf_heading_path = ''h'', rf_chunk_hash = ''c'', rf_quote = ''q'', rf_official_url = None,
      rf_last_verified = Some ''2026-01-01''\<rparr>"

definition demo_bundle :: fact_bundle where
  "demo_bundle =
     \<lparr>fb_build_id = ''b'', fb_subject_id = ''s'',
      fb_facts = [\<lparr>fi_field = ''f'', fi_value = ''works on graphs'', fi_class = Fact, fi_refs = [demo_ref]\<rparr>,
                  \<lparr>fi_field = ''f'', fi_value = ''mail me@x.cn'', fi_class = Fact, fi_refs = [demo_ref]\<rparr>],
      fb_refs = [demo_ref]\<rparr>"

definition demo_claim :: "content_class \<Rightarrow> string \<Rightarrow> source_ref list \<Rightarrow> claim" where
  "demo_claim k t refs = \<lparr>cl_text = t, cl_class = k, cl_refs = refs, cl_user_ref = None\<rparr>"

definition demo_generation :: "claim list \<Rightarrow> string \<Rightarrow> generation_result" where
  "demo_generation cs t = \<lparr>gx_output = JDict [(''answer'', JStr t)], gx_claims = cs, gx_cited = [], gx_warnings = []\<rparr>"

text \<open>
  An advice claim whose references all match the bundle keeps the reference objects the model
  reported, with the verification date it made up, instead of the bundle's objects: validation
  replaces references by the canonical ones only when at least one of them was fabricated.
\<close>

theorem advice_keeps_reported_refs:
  "\<exists>g'. validate_citations plain_text demo_rules demo_bundle None
       (demo_generation [demo_claim Advice ''read it'' [demo_ref\<lparr>rf_last_verified := Some ''2099-01-01''\<rparr>]] ''read it'') = Inr g' \<and>
     gx_warnings g' = [] \<and> gx_cited g' = [demo_ref\<lparr>rf_last_verified := Some ''2099-01-01''\<rparr>] \<and>
     set (gx_cited g') \<inter> set (fb_refs demo_bundle) = {}"
proof -
  have "case validate_citations plain_text demo_rules demo_bundle None
       (demo_generation [demo_claim Advice ''read it'' [demo_ref\<lparr>rf_last_verified := Some ''2099-01-01''\<rparr>]] ''read it'') of
     Inl _ \<Rightarrow> False
   | Inr g' \<Rightarrow> gx_warnings g' = [] \<and> gx_cited g' = [demo_ref\<lparr>rf_last_verified := Some ''2099-01-01''\<rparr>] \<and>
       list_all (\<lambda>x. x \<notin> set (fb_refs demo_bundle)) (gx_cited g')"
    by code_simp
  then show ?thesis by (auto split: sum.splits)
qed

text \<open>
  The stale-fact rule of the safety guard produces the very shape the citation rules forbid:
  a cited fact claim that mentions a stale pattern becomes an uncertain claim that still carries
  its references, so \<open>Claim.validate\<close> warns about every such claim of a finished result.
\<close>

theorem stale_downgrade_keeps_refs:
  assumes "cl_class c = Fact" and "cl_refs c \<noteq> []" and "\<exists>p \<in> set stale. py_in p (cl_text c)"
  shows "cl_class (guard_claim r stale contact c) = Uncertain \<and> cl_refs (guard_claim r stale contact c) = cl_refs c \<and>
    map gw_code (claim_shape_warnings (guard_claim r stale contact c)) = [''uncertain_claim_with_refs'']"
  using assms by (auto simp: guard_claim_def Let_def list_ex_iff claim_shape_warnings_def)

theorem stale_downgrade_keeps_refs_witness:
  "map gw_code (claim_shape_warnings (guard_claim demo_rules [''last year''] False
     (demo_claim Fact ''open since last year'' [demo_ref]))) = [''uncertain_claim_with_refs'']"
proof -
  have "py_in ''last year'' (cl_text (demo_claim Fact ''open since last year'' [demo_ref]))" by code_simp
  then have "\<exists>p \<in> set [''last year'']. py_in p (cl_text (demo_claim Fact ''open since last year'' [demo_ref]))" by simp
  with stale_downgrade_keeps_refs [of "demo_claim Fact ''open since last year'' [demo_ref]" "[''last year'']" demo_rules False]
  show ?thesis by (simp add: demo_claim_def)
qed

text \<open>
  A probability claim can survive the guard: the phrases are deleted one after the other from
  left to right and the result is not looked at again, so an output in which the phrase is nested
  inside itself still contains it afterwards, with the configured phrase for admission chances.
\<close>

theorem probability_text_survives:
  "\<exists>g'. inspect plain_text demo_rules ''recommend'' False None None
       (demo_generation [] (take 3 admission_probability @ admission_probability @ drop 3 admission_probability)) = Inr g' \<and>
     (\<exists>t \<in> set (iter_output_strings (gx_output g')). py_in admission_probability t)"
proof -
  have "case inspect plain_text demo_rules ''recommend'' False None None
       (demo_generation [] (take 3 admission_probability @ admission_probability @ drop 3 admission_probability)) of
     Inl _ \<Rightarrow> False
   | Inr g' \<Rightarrow> list_ex (py_in admission_probability) (iter_output_strings (gx_output g'))"
    by code_simp
  then show ?thesis by (auto simp: list_ex_iff split: sum.splits)
qed

section \<open>Witnesses\<close>

theorem validate_citations_sound_witness:
  "\<exists>g'. validate_citations plain_text demo_rules demo_bundle None
       (demo_generation [demo_claim Fact ''works on graphs'' [demo_ref], demo_claim Fact ''won a prize'' [demo_ref\<lparr>rf_quote := ''p''\<rparr>]]
          ''works on graphs'') = Inr g' \<and>
     map cl_text (gx_claims g') = [''works on graphs''] \<and>
     (\<forall>c \<in> set (gx_claims g'). grounded_claim plain_text demo_rules demo_bundle None c)"
proof -
  let ?g = "demo_generation [demo_claim Fact ''works on graphs'' [demo_ref], demo_claim Fact ''won a prize'' [demo_ref\<lparr>rf_quote := ''p''\<rparr>]]
      ''works on graphs''"
  have "case validate_citations plain_text demo_rules demo_bundle None ?g of
      Inl _ \<Rightarrow> False | Inr g' \<Rightarrow> map cl_text (gx_claims g') = [''works on graphs'']"
    by code_simp
  then obtain g' where g': "validate_citations plain_text demo_rules demo_bundle None ?g = Inr g'"
    "map cl_text (gx_claims g') = [''works on graphs'']" by (auto split: sum.splits)
  have "\<forall>c \<in> set (gx_claims g'). grounded_claim plain_text demo_rules demo_bundle None c"
    using validate_citations_sound [OF g'(1)] by (rule conjunct1)
  with g' show ?thesis by (intro exI [of _ g'] conjI)
qed

theorem trim_correct_witness:
  "map fi_value (fb_facts (trim plain_text [at_pattern] demo_bundle 0 [''Graphs''])) = [''works on graphs''] \<and>
   (\<forall>f \<in> set (fb_facts (trim plain_text [at_pattern] demo_bundle 0 [''Graphs''])). \<not> item_has_contact [at_pattern] f)"
proof
  show "map fi_value (fb_facts (trim plain_text [at_pattern] demo_bundle 0 [''Graphs''])) = [''works on graphs'']" by code_simp
  show "\<forall>f \<in> set (fb_facts (trim plain_text [at_pattern] demo_bundle 0 [''Graphs''])). \<not> item_has_contact [at_pattern] f"
    using trim_correct [of plain_text "[at_pattern]" demo_bundle 0 "[''Graphs'']"] by blast
qed

theorem generate_grounded_witness:
  "\<exists>g. generate plain_text demo_rules demo_bundle None True ''recommend'' False None None None (JDict [(''q'', JStr ''You IDIOT'')])
       (demo_generation [] ''x'') = Inr g \<and> gx_claims g = [] \<and>
     (\<forall>raw'. generate plain_text demo_rules demo_bundle None True ''recommend'' False None None None
        (JDict [(''q'', JStr ''You IDIOT'')]) raw' = Inr g)"
proof -
  let ?in = "JDict [(''q'', JStr ''You IDIOT'')]"
  have "case generate plain_text demo_rules demo_bundle None True ''recommend'' False None None None ?in (demo_generation [] ''x'') of
      Inl _ \<Rightarrow> False | Inr _ \<Rightarrow> True"
    by code_simp
  then obtain g where g: "generate plain_text demo_rules demo_bundle None True ''recommend'' False None None None ?in
      (demo_generation [] ''x'') = Inr g" by (auto split: sum.splits)
  have "find_content_policy_category plain_text demo_rules None (iter_output_strings ?in) \<noteq> None" by code_simp
  with generate_grounded [OF g] g show ?thesis by blast
qed


end
