(* ===== verification/Dext_Plan.thy ===== *)
theory Dext_Plan
  imports Dext_Grounded
begin

text \<open>
  Preparation plans for competitions, from \<open>src/src/dext_competition\<close>: the plan contracts
  (\<open>contracts/plan.py\<close>), templates, scheduler, validation and generator (\<open>planning/\<close>), and the
  owner-scoped repositories (\<open>repositories/plans.py\<close>).

  A date is its day ordinal. \<open>isoformat\<close>, \<open>uuid5\<close> and the rounded float quotient of the phase
  lengths are arguments (\<open>plan_env\<close>); hours and weeks are exact rationals. The answers of the
  catalog and of the generation pipeline are arguments as well.
\<close>

type_synonym date = int

section \<open>Contracts (contracts/plan.py, planning/schemas.py)\<close>

text \<open>\<open>Invalid_value\<close> is the \<open>ValueError\<close> of a contract, \<open>Unhashable\<close> the \<open>TypeError\<close> of a set
  lookup, \<open>Scheduling_error\<close> the scheduler's own error.\<close>

datatype plan_error = Invalid_value string | Unhashable | Scheduling_error string

datatype severity = Sev_warning | Sev_error

record competition_error =
  ce_code :: string
  ce_severity :: severity
  ce_message :: string

record plan_task =
  pk_id :: string
  pk_phase_id :: string
  pk_label :: string
  pk_mandatory :: bool
  pk_estimated_weeks :: "rat option"
  pk_depends_on :: "string list"
  pk_kind :: string
  pk_hours :: "rat option"
  pk_start :: "date option"
  pk_due :: "date option"

definition new_plan_task :: "plan_task \<Rightarrow> (plan_error, plan_task) result" where
  "new_plan_task t =
     (if pk_id t = [] \<or> pk_phase_id t = [] \<or> py_strip (pk_label t) = [] then
        Inl (Invalid_value ''plan task id, phase id and label must be non-empty'')
      else if pk_kind t \<notin> {''required'', ''optional'', ''user_added''} then
        Inl (Invalid_value (''unsupported plan task kind: '' @ pk_kind t))
      else if (case pk_estimated_weeks t of None \<Rightarrow> False | Some w \<Rightarrow> w \<le> 0) then
        Inl (Invalid_value ''estimated_weeks must be positive'')
      else if (case pk_hours t of None \<Rightarrow> False | Some h \<Rightarrow> h \<le> 0) then
        Inl (Invalid_value ''estimated_hours must be positive'')
      else if (case (pk_start t, pk_due t) of (Some s, Some d) \<Rightarrow> s > d | _ \<Rightarrow> False) then
        Inl (Invalid_value ''task start_date must not be after due_date'')
      else Inr (if pk_mandatory t then t\<lparr>pk_kind := ''required''\<rparr> else t))"

record plan_phase =
  ph_id :: string
  ph_key :: string
  ph_label :: string
  ph_start :: date
  ph_end :: date
  ph_task_ids :: "string list"

definition new_plan_phase :: "plan_phase \<Rightarrow> (plan_error, plan_phase) result" where
  "new_plan_phase p =
     (if ph_id p = [] \<or> ph_key p = [] \<or> py_strip (ph_label p) = [] then
        Inl (Invalid_value ''plan phase id, key and label must be non-empty'')
      else if ph_start p > ph_end p then Inl (Invalid_value ''phase start_date must not be after end_date'')
      else Inr p)"

record plan_draft =
  pd_id :: string
  pd_competition_id :: string
  pd_time_model :: string
  pd_target :: "date option"
  pd_event_end :: "date option"
  pd_defense :: "date option"
  pd_phases :: "plan_phase list"
  pd_tasks :: "plan_task list"
  pd_optional :: "plan_task list"
  pd_milestones :: "string list"
  pd_calendar :: "string list"
  pd_risks :: "string list"
  pd_refs :: "source_ref list"
  pd_warnings :: "competition_error list"
  pd_revision :: int

definition time_models :: "string list" where
  "time_models = [''submission_deadline'', ''competition_window'']"

definition new_plan_draft :: "plan_draft \<Rightarrow> (plan_error, plan_draft) result" where
  "new_plan_draft d =
     (let all = pd_tasks d @ pd_optional d; phase_ids = map ph_id (pd_phases d)
      in if pd_id d = [] \<or> pd_competition_id d = [] then
           Inl (Invalid_value ''plan_id and competition_id must be non-empty'')
         else if pd_time_model d \<notin> set time_models then
           Inl (Invalid_value (''unsupported time_model: '' @ pd_time_model d))
         else if pd_revision d < 0 then Inl (Invalid_value ''revision must be a non-negative integer'')
         else if (case (pd_event_end d, pd_target d) of (Some e, Some t) \<Rightarrow> e < t | _ \<Rightarrow> False) then
           Inl (Invalid_value ''event_end_date must not be before target_date'')
         else if (case (pd_defense d, pd_target d) of (Some f, Some t) \<Rightarrow> f \<le> t | _ \<Rightarrow> False) then
           Inl (Invalid_value ''defense_date must be after target_date'')
         else if \<not> distinct phase_ids then Inl (Invalid_value ''phase ids must be unique'')
         else if \<not> distinct (map pk_id all) then Inl (Invalid_value ''task ids must be unique'')
         else if phase_ids \<noteq> [] \<and> list_ex (\<lambda>t. pk_phase_id t \<notin> set phase_ids) all then
           Inl (Invalid_value ''every task phase_id must reference a plan phase'')
         else Inr d)"

record plan_result =
  pl_draft :: "plan_draft option"
  pl_issues :: "competition_error list"
  pl_profile_version :: string

definition new_plan_result :: "plan_result \<Rightarrow> (plan_error, plan_result) result" where
  "new_plan_result r =
     (let fatal = list_ex (\<lambda>i. ce_severity i = Sev_error) (pl_issues r)
      in if pl_profile_version r = [] then Inl (Invalid_value ''generation_profile_version must be non-empty'')
         else if fatal \<and> pl_draft r \<noteq> None then Inl (Invalid_value ''fatal plan generation issues require draft=None'')
         else if \<not> fatal \<and> pl_draft r = None then Inl (Invalid_value ''successful plan generation requires a draft'')
         else Inr r)"

record plan_constraints =
  pc_exam_dates :: "date list"
  pc_unavailable_dates :: "date list"
  pc_team_status :: "string option"
  pc_school_deadline :: "date option"

record plan_request =
  pq_competition_id :: string
  pq_today :: date
  pq_target :: date
  pq_weekly_hours :: int
  pq_experience :: string
  pq_time_model :: string
  pq_event_end :: "date option"
  pq_defense :: "date option"
  pq_constraints :: plan_constraints

record template_task =
  tt_key :: string
  tt_label :: string
  tt_hours :: rat
  tt_required :: bool
  tt_min_experience :: string

record phase_template =
  pt_key :: string
  pt_label :: string
  pt_weight :: rat
  pt_tasks :: "template_task list"

section \<open>Templates (planning/templates.py)\<close>

definition category_tasks :: "(string, string \<times> string) dict" where
  "category_tasks =
     [([CHR 0xE8, CHR 0xAE, CHR 0xA1, CHR 0xE7, CHR 0xAE, CHR 0x97, CHR 0xE6, CHR 0x9C,
       CHR 0xBA], ([CHR 0xE7, CHR 0xAE, CHR 0x97, CHR 0xE6, CHR 0xB3, CHR 0x95, CHR 0xE4, CHR 0xB8,
       CHR 0x8E, CHR 0xE4, CHR 0xBB, CHR 0xA3, CHR 0xE7, CHR 0xA0, CHR 0x81, CHR 0xE5, CHR 0x9F,
       CHR 0xBA, CHR 0xE7, CHR 0xA1, CHR 0x80, CHR 0xE8, CHR 0xAE, CHR 0xAD, CHR 0xE7, CHR 0xBB,
       CHR 0x83], [CHR 0xE5, CHR 0xAE, CHR 0x8C, CHR 0xE6, CHR 0x88, CHR 0x90, CHR 0xE4, CHR 0xBB,
       CHR 0xA3, CHR 0xE7, CHR 0xA0, CHR 0x81, CHR 0xE4, CHR 0xBB, CHR 0x93, CHR 0xE5, CHR 0xBA,
       CHR 0x93, CHR 0xE4, CHR 0xB8, CHR 0x8E, CHR 0xE5, CHR 0xA4, CHR 0x8D, CHR 0xE7, CHR 0x9B,
       CHR 0x98, CHR 0xE8, CHR 0xAE, CHR 0xB0, CHR 0xE5, CHR 0xBD, CHR 0x95])),
      ([CHR 0xE7, CHR 0x94, CHR 0xB5, CHR 0xE5, CHR 0xAD, CHR 0x90, CHR 0xE4, CHR 0xBF, CHR 0xA1,
       CHR 0xE6, CHR 0x81, CHR 0xAF], ([CHR 0xE5, CHR 0xAE, CHR 0x8C, CHR 0xE6, CHR 0x88, CHR 0x90,
       CHR 0xE7, CHR 0x94, CHR 0xB5, CHR 0xE8, CHR 0xB7, CHR 0xAF, CHR 0xE4, CHR 0xB8, CHR 0x8E,
       CHR 0xE5, CHR 0x99, CHR 0xA8, CHR 0xE4, CHR 0xBB, CHR 0xB6, CHR 0xE5, CHR 0x9F, CHR 0xBA,
       CHR 0xE7, CHR 0xA1, CHR 0x80, CHR 0xE8, CHR 0xAE, CHR 0xAD, CHR 0xE7, CHR 0xBB,
       CHR 0x83], [CHR 0xE6, CHR 0x90, CHR 0xAD, CHR 0xE5, CHR 0xBB, CHR 0xBA, CHR 0xE7, CHR 0xA1,
       CHR 0xAC, CHR 0xE4, CHR 0xBB, CHR 0xB6, CHR 0xE8, CHR 0x81, CHR 0x94, CHR 0xE8, CHR 0xB0,
       CHR 0x83, CHR 0xE7, CHR 0x8E, CHR 0xAF, CHR 0xE5, CHR 0xA2, CHR 0x83])),
      ([CHR 0xE6, CHR 0x95, CHR 0xB0, CHR 0xE5, CHR 0xAD, CHR 0xA6, CHR 0xE5, CHR 0xBB, CHR 0xBA,
       CHR 0xE6, CHR 0xA8, CHR 0xA1], ([CHR 0xE5, CHR 0xAE, CHR 0x8C, CHR 0xE6, CHR 0x88, CHR 0x90,
       CHR 0xE5, CHR 0xBB, CHR 0xBA, CHR 0xE6, CHR 0xA8, CHR 0xA1, CHR 0xE6, CHR 0x96, CHR 0xB9,
       CHR 0xE6, CHR 0xB3, CHR 0x95, CHR 0xE4, CHR 0xB8, CHR 0x8E, CHR 0xE5, CHR 0xB7, CHR 0xA5,
       CHR 0xE5, CHR 0x85, CHR 0xB7, CHR 0xE8, CHR 0xAE, CHR 0xAD, CHR 0xE7, CHR 0xBB,
       CHR 0x83], [CHR 0xE5, CHR 0xA4, CHR 0x8D, CHR 0xE7, CHR 0x8E, CHR 0xB0, CHR 0xE4, CHR 0xB8,
       CHR 0x80, CHR 0xE5, CHR 0xA5, CHR 0x97, CHR 0xE5, CHR 0xBE, CHR 0x80, CHR 0xE5, CHR 0xB1,
       CHR 0x8A, CHR 0xE9, CHR 0xA2, CHR 0x98, CHR 0xE6, CHR 0xB5, CHR 0x81, CHR 0xE7, CHR 0xA8, CHR 0x8B])),
      ([CHR 0xE6, CHR 0x9C, CHR 0xBA, CHR 0xE5, CHR 0x99, CHR 0xA8, CHR 0xE4, CHR 0xBA,
       CHR 0xBA], ([CHR 0xE5, CHR 0xAE, CHR 0x8C, CHR 0xE6, CHR 0x88, CHR 0x90, CHR 0xE6, CHR 0x9C,
       CHR 0xBA, CHR 0xE6, CHR 0xA2, CHR 0xB0, CHR 0xE6, CHR 0x8E, CHR 0xA7, CHR 0xE5, CHR 0x88,
       CHR 0xB6, CHR 0xE5, CHR 0x9F, CHR 0xBA, CHR 0xE7, CHR 0xA1, CHR 0x80, CHR 0xE8, CHR 0xAE,
       CHR 0xAD, CHR 0xE7, CHR 0xBB, CHR 0x83], [CHR 0xE6, CHR 0x90, CHR 0xAD, CHR 0xE5, CHR 0xBB,
       CHR 0xBA, CHR 0xE4, CHR 0xBB, CHR 0xBF, CHR 0xE7, CHR 0x9C, CHR 0x9F, CHR 0xE4, CHR 0xB8,
       CHR 0x8E, CHR 0xE8, CHR 0x81, CHR 0x94, CHR 0xE8, CHR 0xB0, CHR 0x83, CHR 0xE7, CHR 0x8E,
       CHR 0xAF, CHR 0xE5, CHR 0xA2, CHR 0x83])),
      ([CHR 0xE5, CHR 0xB7, CHR 0xA5, CHR 0xE5, CHR 0xAD, CHR 0xA6], ([CHR 0xE5, CHR 0xAE, CHR 0x8C,
       CHR 0xE6, CHR 0x88, CHR 0x90, CHR 0xE5, CHR 0xB7, CHR 0xA5, CHR 0xE7, CHR 0xA8, CHR 0x8B,
       CHR 0xE8, CHR 0xA7, CHR 0x84, CHR 0xE8, CHR 0x8C, CHR 0x83, CHR 0xE4, CHR 0xB8, CHR 0x8E,
       CHR 0xE8, CHR 0xAE, CHR 0xA1, CHR 0xE7, CHR 0xAE, CHR 0x97, CHR 0xE5, CHR 0x9F, CHR 0xBA,
       CHR 0xE7, CHR 0xA1, CHR 0x80], [CHR 0xE6, CHR 0x8B, CHR 0x86, CHR 0xE8, CHR 0xA7, CHR 0xA3,
       CHR 0xE5, CHR 0xB7, CHR 0xA5, CHR 0xE7, CHR 0xA8, CHR 0x8B, CHR 0xE7, CHR 0xBA, CHR 0xA6,
       CHR 0xE6, CHR 0x9D, CHR 0x9F, CHR 0xE5, CHR 0x92, CHR 0x8C, CHR 0xE9, CHR 0xAA, CHR 0x8C,
       CHR 0xE6, CHR 0x94, CHR 0xB6, CHR 0xE6, CHR 0x8C, CHR 0x87, CHR 0xE6, CHR 0xA0, CHR 0x87])),
      ([CHR 0xE7, CHR 0xBB, CHR 0x8F, CHR 0xE7, CHR 0xAE, CHR 0xA1], ([CHR 0xE5, CHR 0xAE, CHR 0x8C,
       CHR 0xE6, CHR 0x88, CHR 0x90, CHR 0xE6, CHR 0xA1, CHR 0x88, CHR 0xE4, CHR 0xBE, CHR 0x8B,
       CHR 0xE5, CHR 0x88, CHR 0x86, CHR 0xE6, CHR 0x9E, CHR 0x90, CHR 0xE6, CHR 0xA1, CHR 0x86,
       CHR 0xE6, CHR 0x9E, CHR 0xB6, CHR 0xE8, CHR 0xAE, CHR 0xAD, CHR 0xE7, CHR 0xBB,
       CHR 0x83], [CHR 0xE5, CHR 0xBB, CHR 0xBA, CHR 0xE7, CHR 0xAB, CHR 0x8B, CHR 0xE6, CHR 0x95,
       CHR 0xB0, CHR 0xE6, CHR 0x8D, CHR 0xAE, CHR 0xE4, CHR 0xB8, CHR 0x8E, CHR 0xE8, CHR 0xAE,
       CHR 0xBA, CHR 0xE8, CHR 0xAF, CHR 0x81, CHR 0xE6, CHR 0x9D, CHR 0x90, CHR 0xE6, CHR 0x96,
       CHR 0x99, CHR 0xE5, CHR 0xBA, CHR 0x93])),
      ([CHR 0xE7, CHR 0xBB, CHR 0xBC, CHR 0xE5, CHR 0x90, CHR 0x88, CHR 0xE4, CHR 0xB8, CHR 0x8E,
       CHR 0xE5, CHR 0x88, CHR 0x9B, CHR 0xE4, CHR 0xB8, CHR 0x9A], ([CHR 0xE6, CHR 0x98, CHR 0x8E,
       CHR 0xE7, CHR 0xA1, CHR 0xAE, CHR 0xE7, CHR 0x94, CHR 0xA8, CHR 0xE6, CHR 0x88, CHR 0xB7,
       CHR 0xE9, CHR 0x97, CHR 0xAE, CHR 0xE9, CHR 0xA2, CHR 0x98, CHR 0xE4, CHR 0xB8, CHR 0x8E,
       CHR 0xE4, CHR 0xBB, CHR 0xB7, CHR 0xE5, CHR 0x80, CHR 0xBC, CHR 0xE5, CHR 0x81, CHR 0x87,
       CHR 0xE8, CHR 0xAE, CHR 0xBE], [CHR 0xE5, CHR 0xAE, CHR 0x8C, CHR 0xE6, CHR 0x88, CHR 0x90,
       CHR 0xE5, CHR 0x8E, CHR 0x9F, CHR 0xE5, CHR 0x9E, CHR 0x8B, CHR 0xE5, CHR 0x92, CHR 0x8C,
       CHR 0xE9, CHR 0xAA, CHR 0x8C, CHR 0xE8, CHR 0xAF, CHR 0x81, CHR 0xE8, CHR 0xAE, CHR 0xB0,
       CHR 0xE5, CHR 0xBD, CHR 0x95])),
      ([CHR 0xE8, CHR 0xAF, CHR 0xAD, CHR 0xE8, CHR 0xA8, CHR 0x80, CHR 0xE8, CHR 0x89, CHR 0xBA,
       CHR 0xE6, CHR 0x9C, CHR 0xAF], ([CHR 0xE5, CHR 0xAE, CHR 0x8C, CHR 0xE6, CHR 0x88, CHR 0x90,
       CHR 0xE8, CHR 0xA1, CHR 0xA8, CHR 0xE8, CHR 0xBE, CHR 0xBE, CHR 0xE4, CHR 0xB8, CHR 0x8E,
       CHR 0xE6, CHR 0x96, CHR 0x87, CHR 0xE6, CHR 0x9C, CHR 0xAC, CHR 0xE5, CHR 0x9F, CHR 0xBA,
       CHR 0xE6, CHR 0x9C, CHR 0xAC, CHR 0xE5, CHR 0x8A, CHR 0x9F, CHR 0xE8, CHR 0xAE, CHR 0xAD,
       CHR 0xE7, CHR 0xBB, CHR 0x83], [CHR 0xE5, CHR 0xBB, CHR 0xBA, CHR 0xE7, CHR 0xAB, CHR 0x8B,
       CHR 0xE4, CHR 0xBD, CHR 0x9C, CHR 0xE5, CHR 0x93, CHR 0x81, CHR 0xE4, CHR 0xBF, CHR 0xAE,
       CHR 0xE6, CHR 0x94, CHR 0xB9, CHR 0xE8, CHR 0xAE, CHR 0xB0, CHR 0xE5, CHR 0xBD, CHR 0x95])),
      ([CHR 0xE5, CHR 0x8C, CHR 0xBB, CHR 0xE5, CHR 0xAD, CHR 0xA6, CHR 0xE7, CHR 0x94, CHR 0x9F,
       CHR 0xE5, CHR 0x91, CHR 0xBD, CHR 0xE7, CHR 0xA7, CHR 0x91, CHR 0xE5, CHR 0xAD,
       CHR 0xA6], ([CHR 0xE5, CHR 0xAE, CHR 0x8C, CHR 0xE6, CHR 0x88, CHR 0x90, CHR 0xE7, CHR 0xA0,
       CHR 0x94, CHR 0xE7, CHR 0xA9, CHR 0xB6, CHR 0xE4, CHR 0xBC, CHR 0xA6, CHR 0xE7, CHR 0x90,
       CHR 0x86, CHR 0xE4, CHR 0xB8, CHR 0x8E, CHR 0xE6, CHR 0x96, CHR 0xB9, CHR 0xE6, CHR 0xB3,
       CHR 0x95, CHR 0xE5, CHR 0x9F, CHR 0xBA, CHR 0xE7, CHR 0xA1, CHR 0x80], [CHR 0xE5, CHR 0xBB,
       CHR 0xBA, CHR 0xE7, CHR 0xAB, CHR 0x8B, CHR 0xE5, CHR 0xAE, CHR 0x9E, CHR 0xE9, CHR 0xAA,
       CHR 0x8C, CHR 0xE6, CHR 0x88, CHR 0x96, CHR 0xE6, CHR 0x95, CHR 0xB0, CHR 0xE6, CHR 0x8D,
       CHR 0xAE, CHR 0xE5, CHR 0x88, CHR 0x86, CHR 0xE6, CHR 0x9E, CHR 0x90, CHR 0xE8, CHR 0xAE,
       CHR 0xB0, CHR 0xE5, CHR 0xBD, CHR 0x95]))]"

definition default_category_tasks :: "string \<times> string" where
  "default_category_tasks = ([CHR 0xE5, CHR 0xAE, CHR 0x8C, CHR 0xE6, CHR 0x88, CHR 0x90, CHR 0xE9,
       CHR 0xA2, CHR 0x86, CHR 0xE5, CHR 0x9F, CHR 0x9F, CHR 0xE5, CHR 0x9F, CHR 0xBA, CHR 0xE7,
       CHR 0xA1, CHR 0x80, CHR 0xE8, CHR 0xAE, CHR 0xAD, CHR 0xE7, CHR 0xBB, CHR 0x83], [CHR 0xE5,
       CHR 0xBB, CHR 0xBA, CHR 0xE7, CHR 0xAB, CHR 0x8B, CHR 0xE8, CHR 0xBF, CHR 0x87, CHR 0xE7,
       CHR 0xA8, CHR 0x8B, CHR 0xE8, CHR 0xAE, CHR 0xB0, CHR 0xE5, CHR 0xBD, CHR 0x95])"

text \<open>The values of \<open>CompetitionCategory\<close>; the catalog extractor rejects any other category.\<close>

definition competition_categories :: "string list" where
  "competition_categories =
     [[CHR 0xE8, CHR 0xAE, CHR 0xA1, CHR 0xE7, CHR 0xAE, CHR 0x97, CHR 0xE6, CHR 0x9C,
       CHR 0xBA], [CHR 0xE7, CHR 0x94, CHR 0xB5, CHR 0xE5, CHR 0xAD, CHR 0x90, CHR 0xE4, CHR 0xB8,
       CHR 0x8E, CHR 0xE4, CHR 0xBF, CHR 0xA1, CHR 0xE6, CHR 0x81, CHR 0xAF], [CHR 0xE6, CHR 0x9C,
       CHR 0xBA, CHR 0xE5, CHR 0x99, CHR 0xA8, CHR 0xE4, CHR 0xBA, CHR 0xBA, CHR 0xE4, CHR 0xB8,
       CHR 0x8E, CHR 0xE4, CHR 0xBA, CHR 0xBA, CHR 0xE5, CHR 0xB7, CHR 0xA5, CHR 0xE6, CHR 0x99,
       CHR 0xBA, CHR 0xE8, CHR 0x83, CHR 0xBD], [CHR 0xE5, CHR 0xB7, CHR 0xA5, CHR 0xE5, CHR 0xAD,
       CHR 0xA6], [CHR 0xE7, CHR 0x90, CHR 0x86, CHR 0xE5, CHR 0xAD, CHR 0xA6], [CHR 0xE5, CHR 0x8C,
       CHR 0xBB, CHR 0xE5, CHR 0xAD, CHR 0xA6, CHR 0xE4, CHR 0xB8, CHR 0x8E, CHR 0xE7, CHR 0x94,
       CHR 0x9F, CHR 0xE5, CHR 0x91, CHR 0xBD, CHR 0xE7, CHR 0xA7, CHR 0x91, CHR 0xE5, CHR 0xAD,
       CHR 0xA6], [CHR 0xE7, CHR 0xBB, CHR 0x8F, CHR 0xE7, CHR 0xAE, CHR 0xA1], [CHR 0xE8, CHR 0xAF,
       CHR 0xAD, CHR 0xE8, CHR 0xA8, CHR 0x80, CHR 0xE4, CHR 0xB8, CHR 0x8E, CHR 0xE8, CHR 0x89,
       CHR 0xBA, CHR 0xE6, CHR 0x9C, CHR 0xAF],
      [CHR 0xE7, CHR 0xBB, CHR 0xBC, CHR 0xE5, CHR 0x90, CHR 0x88, CHR 0xE4, CHR 0xB8, CHR 0x8E,
       CHR 0xE5, CHR 0x88, CHR 0x9B, CHR 0xE4, CHR 0xB8, CHR 0x9A], [CHR 0xE6, CHR 0x95, CHR 0xB0,
       CHR 0xE5, CHR 0xAD, CHR 0xA6, CHR 0xE5, CHR 0xBB, CHR 0xBA, CHR 0xE6, CHR 0xA8, CHR 0xA1]]"

definition task_of :: "string \<Rightarrow> string \<Rightarrow> rat \<Rightarrow> bool \<Rightarrow> template_task" where
  "task_of key label hours required =
     \<lparr>tt_key = key, tt_label = label, tt_hours = hours, tt_required = required, tt_min_experience = ''beginner''\<rparr>"

definition phase_of :: "string \<Rightarrow> string \<Rightarrow> rat \<Rightarrow> template_task list \<Rightarrow> phase_template" where
  "phase_of key label weight tasks = \<lparr>pt_key = key, pt_label = label, pt_weight = weight, pt_tasks = tasks\<rparr>"

definition build_phase_templates :: "string \<Rightarrow> string \<Rightarrow> string \<Rightarrow> phase_template list" where
  "build_phase_templates category time_model experience =
     (let foundations = (case map_of category_tasks category of None \<Rightarrow> default_category_tasks | Some p \<Rightarrow> p)
      in [phase_of ''foundation'' [CHR 0xE5, CHR 0x9F, CHR 0xBA, CHR 0xE7, CHR 0xA1, CHR 0x80, CHR 0xE5,
       CHR 0x87, CHR 0x86, CHR 0xE5, CHR 0xA4, CHR 0x87] (22/100)
            [task_of ''foundation-core'' (fst foundations) 12 True,
             task_of ''foundation-record'' (snd foundations) 6 (experience = ''beginner'')],
          phase_of ''practice'' [CHR 0xE4, CHR 0xB8, CHR 0x93, CHR 0xE9, CHR 0xA1, CHR 0xB9, CHR 0xE5,
       CHR 0xAE, CHR 0x9E, CHR 0xE8, CHR 0xB7, CHR 0xB5] (34/100)
            [task_of ''practice-required'' [CHR 0xE5, CHR 0xAE, CHR 0x8C, CHR 0xE6, CHR 0x88, CHR 0x90,
       CHR 0xE8, CHR 0x87, CHR 0xB3, CHR 0xE5, CHR 0xB0, CHR 0x91, CHR 0xE4, CHR 0xB8, CHR 0x80,
       CHR 0xE8, CHR 0xBD, CHR 0xAE, CHR 0xE4, CHR 0xB8, CHR 0x93, CHR 0xE9, CHR 0xA1, CHR 0xB9,
       CHR 0xE5, CHR 0xAE, CHR 0x9E, CHR 0xE8, CHR 0xB7, CHR 0xB5] 20 True,
             task_of ''practice-review'' [CHR 0xE8, CHR 0xBF, CHR 0x9B, CHR 0xE8, CHR 0xA1, CHR 0x8C,
       CHR 0xE9, CHR 0x98, CHR 0xB6, CHR 0xE6, CHR 0xAE, CHR 0xB5, CHR 0xE5, CHR 0xA4, CHR 0x8D,
       CHR 0xE7, CHR 0x9B, CHR 0x98, CHR 0xE5, CHR 0xB9, CHR 0xB6, CHR 0xE4, CHR 0xBF, CHR 0xAE,
       CHR 0xE6, CHR 0xAD, CHR 0xA3, CHR 0xE6, CHR 0x96, CHR 0xB9, CHR 0xE6, CHR 0xA1, CHR 0x88] 6 False,
             (task_of ''practice-replication'' [CHR 0xE5, CHR 0xA4, CHR 0x8D, CHR 0xE7, CHR 0x8E,
       CHR 0xB0, CHR 0xE9, CHR 0xAB, CHR 0x98, CHR 0xE8, CHR 0xB4, CHR 0xA8, CHR 0xE9, CHR 0x87,
       CHR 0x8F, CHR 0xE6, CHR 0xA1, CHR 0x88, CHR 0xE4, CHR 0xBE, CHR 0x8B, CHR 0xE6, CHR 0x88,
       CHR 0x96, CHR 0xE4, CHR 0xBB, CHR 0xA3, CHR 0xE7, CHR 0xA0,
       CHR 0x81] 12 False)\<lparr>tt_min_experience := ''experienced''\<rparr>],
          phase_of ''simulation'' [CHR 0xE6, CHR 0xA8, CHR 0xA1, CHR 0xE6, CHR 0x8B, CHR 0x9F, CHR 0xE4,
       CHR 0xB8, CHR 0x8E, CHR 0xE9, CHR 0xAA, CHR 0x8C, CHR 0xE6, CHR 0x94, CHR 0xB6] (24/100)
            [task_of ''simulation-required'' [CHR 0xE5, CHR 0xAE, CHR 0x8C, CHR 0xE6, CHR 0x88, CHR 0x90,
       CHR 0xE5, CHR 0x85, CHR 0xA8, CHR 0xE6, CHR 0xB5, CHR 0x81, CHR 0xE7, CHR 0xA8, CHR 0x8B,
       CHR 0xE6, CHR 0xA8, CHR 0xA1, CHR 0xE6, CHR 0x8B, CHR 0x9F] 12 True,
             task_of ''simulation-review'' [CHR 0xE6, CHR 0x8C, CHR 0x89, CHR 0xE9, CHR 0xAA, CHR 0x8C,
       CHR 0xE6, CHR 0x94, CHR 0xB6, CHR 0xE6, CHR 0xB8, CHR 0x85, CHR 0xE5, CHR 0x8D, CHR 0x95,
       CHR 0xE4, CHR 0xBF, CHR 0xAE, CHR 0xE5, CHR 0xA4, CHR 0x8D, CHR 0xE9, CHR 0x97, CHR 0xAE,
       CHR 0xE9, CHR 0xA2, CHR 0x98] 8 True]] @
         (if time_model = ''submission_deadline'' then
            [phase_of ''submission'' [CHR 0xE6, CHR 0x8F, CHR 0x90, CHR 0xE4, CHR 0xBA, CHR 0xA4,
       CHR 0xE5, CHR 0x87, CHR 0x86, CHR 0xE5, CHR 0xA4, CHR 0x87] (12/100)
               [task_of ''submission-package'' [CHR 0xE5, CHR 0xAE, CHR 0x8C, CHR 0xE6, CHR 0x88,
       CHR 0x90, CHR 0xE6, CHR 0x8F, CHR 0x90, CHR 0xE4, CHR 0xBA, CHR 0xA4, CHR 0xE6, CHR 0x9D,
       CHR 0x90, CHR 0xE6, CHR 0x96, CHR 0x99, CHR 0xE4, CHR 0xB8, CHR 0x8E, CHR 0xE5, CHR 0x90,
       CHR 0x88, CHR 0xE8, CHR 0xA7, CHR 0x84, CHR 0xE6, CHR 0xA3, CHR 0x80, CHR 0xE6, CHR 0x9F, CHR 0xA5] 8 True],
             phase_of ''defense_prep'' [CHR 0xE7, CHR 0xAD, CHR 0x94, CHR 0xE8, CHR 0xBE, CHR 0xA9,
       CHR 0xE5, CHR 0x87, CHR 0x86, CHR 0xE5, CHR 0xA4, CHR 0x87] (8/100)
               [task_of ''defense-required'' [CHR 0xE5, CHR 0x87, CHR 0x86, CHR 0xE5, CHR 0xA4, CHR 0x87,
       CHR 0xE7, CHR 0xAD, CHR 0x94, CHR 0xE8, CHR 0xBE, CHR 0xA9, CHR 0xE6, CHR 0x9D, CHR 0x90,
       CHR 0xE6, CHR 0x96, CHR 0x99, CHR 0xE5, CHR 0xB9, CHR 0xB6, CHR 0xE5, CHR 0xAE, CHR 0x8C,
       CHR 0xE6, CHR 0x88, CHR 0x90, CHR 0xE6, CHR 0xBC, CHR 0x94, CHR 0xE7, CHR 0xBB, CHR 0x83] 8 True,
                (task_of ''defense-advanced'' [CHR 0xE8, CHR 0xBF, CHR 0x9B, CHR 0xE8, CHR 0xA1,
       CHR 0x8C, CHR 0xE5, CHR 0x8E, CHR 0x8B, CHR 0xE5, CHR 0x8A, CHR 0x9B, CHR 0xE9, CHR 0x97,
       CHR 0xAE, CHR 0xE7, CHR 0xAD, CHR 0x94, CHR 0xE5, CHR 0x92, CHR 0x8C, CHR 0xE9, CHR 0xAA,
       CHR 0x8C, CHR 0xE6, CHR 0x94, CHR 0xB6] 6 False)\<lparr>tt_min_experience := ''experienced''\<rparr>]]
          else
            [phase_of ''event_sprint'' [CHR 0xE6, CHR 0xAF, CHR 0x94, CHR 0xE8, CHR 0xB5, CHR 0x9B,
       CHR 0xE7, CHR 0xAA, CHR 0x97, CHR 0xE5, CHR 0x8F, CHR 0xA3, CHR 0xE5, CHR 0x86, CHR 0xB2,
       CHR 0xE5, CHR 0x88, CHR 0xBA] (12/100)
               [task_of ''event-required'' [CHR 0xE6, CHR 0x89, CHR 0xA7, CHR 0xE8, CHR 0xA1, CHR 0x8C,
       CHR 0xE6, CHR 0xAF, CHR 0x94, CHR 0xE8, CHR 0xB5, CHR 0x9B, CHR 0xE7, CHR 0xAA, CHR 0x97,
       CHR 0xE5, CHR 0x8F, CHR 0xA3, CHR 0xE5, CHR 0x88, CHR 0x86, CHR 0xE5, CHR 0xB7, CHR 0xA5,
       CHR 0xE4, CHR 0xB8, CHR 0x8E, CHR 0xE6, CHR 0xA3, CHR 0x80, CHR 0xE6, CHR 0x9F, CHR 0xA5] 8 True],
             phase_of ''recovery'' [CHR 0xE6, CHR 0x81, CHR 0xA2, CHR 0xE5, CHR 0xA4, CHR 0x8D, CHR 0xE4,
       CHR 0xB8, CHR 0x8E, CHR 0xE5, CHR 0xA4, CHR 0x8D, CHR 0xE7, CHR 0x9B, CHR 0x98] (8/100)
               [task_of ''recovery-required'' [CHR 0xE5, CHR 0xAE, CHR 0x8C, CHR 0xE6, CHR 0x88,
       CHR 0x90, CHR 0xE8, CHR 0xB5, CHR 0x9B, CHR 0xE5, CHR 0x90, CHR 0x8E, CHR 0xE5, CHR 0xBD,
       CHR 0x92, CHR 0xE6, CHR 0xA1, CHR 0xA3, CHR 0xE5, CHR 0x92, CHR 0x8C, CHR 0xE5, CHR 0xA4,
       CHR 0x8D, CHR 0xE7, CHR 0x9B, CHR 0x98] 4 True]]))"

section \<open>Scheduler (planning/scheduler.py)\<close>

record plan_env =
  pv_iso :: "date \<Rightarrow> string"
  pv_uuid5 :: "string \<Rightarrow> string"
  pv_share :: "int \<Rightarrow> rat \<Rightarrow> rat \<Rightarrow> int"

text \<open>The loop of \<open>_allocate_ranges\<close>; \<open>share total w tw\<close> is \<open>round(total * w / tw)\<close>.\<close>

fun allocate_loop ::
    "(int \<Rightarrow> rat \<Rightarrow> rat \<Rightarrow> int) \<Rightarrow> int \<Rightarrow> rat \<Rightarrow> rat list \<Rightarrow> date \<Rightarrow> int \<Rightarrow> (date \<times> date) list" where
  "allocate_loop share tot tw [] cursor remaining = []"
| "allocate_loop share tot tw [w] cursor remaining = [(cursor, cursor + (remaining - 1))]"
| "allocate_loop share tot tw (w # w' # ws) cursor remaining =
     (let days = min (max 1 (share tot w tw)) (remaining - int (length (w' # ws)))
      in (cursor, cursor + (days - 1)) # allocate_loop share tot tw (w' # ws) (cursor + days) (remaining - days))"

definition allocate_ranges ::
    "(int \<Rightarrow> rat \<Rightarrow> rat \<Rightarrow> int) \<Rightarrow> date \<Rightarrow> date \<Rightarrow> rat list \<Rightarrow> (plan_error, (date \<times> date) list) result" where
  "allocate_ranges share start finish weights =
     (let tot = finish - start + 1
      in if weights = [] then Inr []
         else if tot < int (length weights) then
           Inl (Scheduling_error ''not enough calendar days for mandatory phases'')
         else Inr (allocate_loop share tot (sum_list weights) weights start tot))"

function available_due_date :: "date \<Rightarrow> date \<Rightarrow> date list \<Rightarrow> date option" where
  "available_due_date start candidate blocked =
     (if candidate < start then None
      else if candidate \<notin> set blocked then Some candidate
      else available_due_date start (candidate - 1) blocked)"
  by pat_completeness auto
termination
  by (relation "measure (\<lambda>(start, candidate, blocked). nat (candidate - start + 1))") auto

declare available_due_date.simps [simp del]

definition experience_order :: "string \<Rightarrow> int" where
  "experience_order e = (if e = ''intermediate'' then 1 else if e = ''experienced'' then 2 else 0)"

definition eligible :: "template_task \<Rightarrow> string \<Rightarrow> bool" where
  "eligible t experience = (experience_order experience \<ge> experience_order (tt_min_experience t))"

definition blocked_dates :: "plan_request \<Rightarrow> date list" where
  "blocked_dates q = pc_exam_dates (pq_constraints q) @ pc_unavailable_dates (pq_constraints q)"

definition post_keys :: "string \<Rightarrow> string list" where
  "post_keys time_model =
     (if time_model = ''submission_deadline'' then [''defense_prep''] else [''event_sprint'', ''recovery''])"

definition phase_ranges ::
    "plan_env \<Rightarrow> plan_request \<Rightarrow> phase_template list \<Rightarrow> (plan_error, (string, date \<times> date) dict) result" where
  "phase_ranges env q templates =
     (let pre = filter (\<lambda>t. pt_key t \<notin> set (post_keys (pq_time_model q))) templates
      in res_bind (allocate_ranges (pv_share env) (pq_today q) (pq_target q) (map pt_weight pre)) (\<lambda>pre_ranges.
           (let base = fold (\<lambda>(k, v). dict_set k v) (zip (map pt_key pre) pre_ranges) []
            in if pq_time_model q = ''submission_deadline'' then
                 Inr (dict_set ''defense_prep''
                        (pq_target q + 1, case pq_defense q of None \<Rightarrow> pq_target q + 14 | Some d \<Rightarrow> d)
                        (if list_ex (\<lambda>t. pt_key t = ''submission'') templates
                         then dict_set ''submission'' (List.last pre_ranges) base else base))
               else
                 (let event_end = (case pq_event_end q of None \<Rightarrow> pq_target q | Some d \<Rightarrow> d)
                  in if event_end < pq_target q then Inl (Scheduling_error ''event window ends before it starts'')
                     else Inr (dict_set ''recovery'' (event_end + 1, event_end + 7)
                            (dict_set ''event_sprint'' (pq_target q, event_end) base))))))"

record scheduled_plan =
  sd_phases :: "plan_phase list"
  sd_tasks :: "plan_task list"
  sd_optional :: "plan_task list"
  sd_dropped :: "string list"

text \<open>The accumulator of the loop over the templates: the plan so far, the hours of optional
  tasks, and the task ids of the current phase.\<close>

record schedule_state =
  ss_plan :: scheduled_plan
  ss_used :: rat
  ss_ids :: "string list"

definition optional_budget :: "plan_request \<Rightarrow> rat" where
  "optional_budget q = max 0 (of_int (pq_weekly_hours q) * max 1 (of_int (pq_target q - pq_today q) / 7))"

definition template_plan_task ::
    "phase_template \<Rightarrow> template_task \<Rightarrow> date \<Rightarrow> date \<Rightarrow> plan_task" where
  "template_plan_task t item start due =
     \<lparr>pk_id = ''task:'' @ pt_key t @ '':'' @ tt_key item, pk_phase_id = ''phase:'' @ pt_key t, pk_label = tt_label item,
      pk_mandatory = tt_required item, pk_estimated_weeks = None, pk_depends_on = [],
      pk_kind = (if tt_required item then ''required'' else ''optional''), pk_hours = Some (tt_hours item),
      pk_start = Some start, pk_due = Some due\<rparr>"

definition schedule_item ::
    "plan_request \<Rightarrow> phase_template \<Rightarrow> date \<times> date \<Rightarrow> template_task \<Rightarrow> schedule_state \<Rightarrow> (plan_error, schedule_state) result" where
  "schedule_item q t span_of item s =
     (let drop_item = s\<lparr>ss_plan := (ss_plan s)\<lparr>sd_dropped := sd_dropped (ss_plan s) @ [tt_label item]\<rparr>\<rparr>
      in if \<not> eligible item (pq_experience q) then Inr s
         else
           (case available_due_date (fst span_of) (snd span_of) (blocked_dates q) of
              None \<Rightarrow>
                if tt_required item then
                  Inl (Scheduling_error (''mandatory task cannot be scheduled: '' @ tt_key item))
                else Inr drop_item
            | Some due \<Rightarrow>
                if \<not> tt_required item \<and> ss_used s + tt_hours item > optional_budget q then Inr drop_item
                else
                  res_bind (new_plan_task (template_plan_task t item (fst span_of) due)) (\<lambda>task.
                    (let p = ss_plan s
                     in Inr (if tt_required item
                             then s\<lparr>ss_plan := p\<lparr>sd_tasks := sd_tasks p @ [task]\<rparr>, ss_ids := ss_ids s @ [pk_id task]\<rparr>
                             else s\<lparr>ss_plan := p\<lparr>sd_optional := sd_optional p @ [task]\<rparr>,
                                    ss_used := ss_used s + tt_hours item, ss_ids := ss_ids s @ [pk_id task]\<rparr>)))))"

definition schedule_phase ::
    "plan_request \<Rightarrow> (string, date \<times> date) dict \<Rightarrow> phase_template \<Rightarrow> schedule_state \<Rightarrow>
     (plan_error, schedule_state) result" where
  "schedule_phase q ranges t s =
     (case map_of ranges (pt_key t) of
        None \<Rightarrow> Inl (Invalid_value (pt_key t))
      | Some span_of \<Rightarrow>
          res_bind (res_fold (schedule_item q t span_of) (pt_tasks t) (s\<lparr>ss_ids := []\<rparr>)) (\<lambda>s'.
          res_bind (new_plan_phase
              \<lparr>ph_id = ''phase:'' @ pt_key t, ph_key = pt_key t, ph_label = pt_label t, ph_start = fst span_of,
               ph_end = snd span_of, ph_task_ids = ss_ids s'\<rparr>) (\<lambda>phase.
            (let p = ss_plan s' in Inr (s'\<lparr>ss_plan := p\<lparr>sd_phases := sd_phases p @ [phase]\<rparr>\<rparr>)))))"

definition empty_schedule :: schedule_state where
  "empty_schedule = \<lparr>ss_plan = \<lparr>sd_phases = [], sd_tasks = [], sd_optional = [], sd_dropped = []\<rparr>, ss_used = 0, ss_ids = []\<rparr>"

definition schedule_plan ::
    "plan_env \<Rightarrow> plan_request \<Rightarrow> phase_template list \<Rightarrow> (plan_error, scheduled_plan) result" where
  "schedule_plan env q templates =
     (if (case pc_school_deadline (pq_constraints q) of None \<Rightarrow> False | Some d \<Rightarrow> pq_target q > d) then
        Inl (Scheduling_error ''target date is after the school deadline'')
      else
        res_bind (phase_ranges env q templates) (\<lambda>ranges.
        res_bind (res_fold (schedule_phase q ranges) templates empty_schedule) (\<lambda>s. Inr (ss_plan s))))"

section \<open>Validation (planning/validation.py)\<close>

text \<open>\<open>phase_by_key\<close> is a dict comprehension: the last phase with a key wins.\<close>

definition phase_by_key :: "plan_draft \<Rightarrow> string \<Rightarrow> plan_phase option" where
  "phase_by_key d key = find (\<lambda>p. ph_key p = key) (rev (pd_phases d))"

definition validate_plan :: "plan_draft \<Rightarrow> string list" where
  "validate_plan d =
     (if pd_time_model d = ''submission_deadline'' then
        (case phase_by_key d ''defense_prep'' of
           None \<Rightarrow> [''submission plan requires defense_prep'']
         | Some p \<Rightarrow> (case pd_target d of
             Some t \<Rightarrow> if ph_start p \<le> t then [''defense_prep must start after submission''] else []
           | None \<Rightarrow> []))
      else []) @
     (if pd_time_model d = ''competition_window'' then
        (case phase_by_key d ''event_sprint'' of
           None \<Rightarrow> [''competition window plan requires event_sprint'']
         | Some p \<Rightarrow> (case pd_target d of
             Some t \<Rightarrow> if ph_start p \<noteq> t then [''event_sprint must start at the event window''] else []
           | None \<Rightarrow> []))
      else []) @
     (if pd_tasks d = [] \<or> list_ex (\<lambda>t. \<not> pk_mandatory t) (pd_tasks d)
      then [''required task collection is invalid''] else [])"

type_synonym extra_task = "string \<times> rat"

text \<open>\<open>set(m) - allowed\<close> is empty.\<close>

definition keys_within :: "metadata \<Rightarrow> string list \<Rightarrow> bool" where
  "keys_within d allowed = list_all (\<lambda>k. k \<in> set allowed) (map fst d)"

definition personal_task :: "json \<Rightarrow> extra_task option" where
  "personal_task v =
     (case v of
        JDict d \<Rightarrow>
          if \<not> keys_within d [''title'', ''estimated_hours''] then None
          else
            (case map_of d ''title'' of
               Some (JStr title) \<Rightarrow>
                 if py_strip title = [] then None
                 else
                   (case map_of d ''estimated_hours'' of
                      Some (JInt h) \<Rightarrow> if h \<le> 0 then None else Some (py_strip title, of_int h)
                    | Some (JFloat h) \<Rightarrow> if h \<le> 0 then None else Some (py_strip title, h)
                    | _ \<Rightarrow> None)
             | _ \<Rightarrow> None)
      | _ \<Rightarrow> None)"

fun all_some :: "'a option list \<Rightarrow> 'a list option" where
  "all_some [] = Some []"
| "all_some (None # xs) = None"
| "all_some (Some x # xs) = (case all_some xs of None \<Rightarrow> None | Some ys \<Rightarrow> Some (x # ys))"

text \<open>One phase of the output. \<open>key not in known_phase_keys\<close> raises on an unhashable key, which
  no caller catches; the early \<open>return None\<close> of the source is \<open>Inr None\<close>.\<close>

definition personal_phase ::
    "string list \<Rightarrow> int \<Rightarrow> json \<Rightarrow> (plan_error, (string \<times> extra_task list) option) result" where
  "personal_phase known max_tasks v =
     (case v of
        JDict d \<Rightarrow>
          if \<not> keys_within d [''key'', ''optional_tasks'', ''personalized_advice''] then Inr None
          else
            (let key = (case map_of d ''key'' of None \<Rightarrow> JNull | Some k \<Rightarrow> k);
                 tasks = (case map_of d ''optional_tasks'' of None \<Rightarrow> JList [] | Some t \<Rightarrow> t)
             in if \<not> hashable key then Inl Unhashable
                else
                  (case (key, tasks) of
                     (JStr k, JList ts) \<Rightarrow>
                       if k \<notin> set known \<or> int (length ts) > max_tasks then Inr None
                       else Inr (case all_some (map personal_task ts) of None \<Rightarrow> None | Some xs \<Rightarrow> Some (k, xs))
                   | _ \<Rightarrow> Inr None))
      | _ \<Rightarrow> Inr None)"

fun personal_phases ::
    "string list \<Rightarrow> int \<Rightarrow> json list \<Rightarrow> (string, extra_task list) dict \<Rightarrow>
     (plan_error, (string, extra_task list) dict option) result" where
  "personal_phases known max_tasks [] acc = Inr (Some acc)"
| "personal_phases known max_tasks (v # vs) acc =
     res_bind (personal_phase known max_tasks v) (\<lambda>r.
       (case r of
          None \<Rightarrow> Inr None
        | Some (k, xs) \<Rightarrow> personal_phases known max_tasks vs (dict_set k xs acc)))"

definition validate_personalization_output ::
    "string list \<Rightarrow> int \<Rightarrow> json \<Rightarrow> (plan_error, (string, extra_task list) dict option) result" where
  "validate_personalization_output known max_tasks output =
     (case output of
        JDict d \<Rightarrow>
          if \<not> keys_within d [''phases'', ''global_advice''] then Inr None
          else (case map_of d ''phases'' of Some (JList vs) \<Rightarrow> personal_phases known max_tasks vs [] | _ \<Rightarrow> Inr None)
      | _ \<Rightarrow> Inr None)"

section \<open>Generator (planning/generator.py)\<close>

definition issue :: "string \<Rightarrow> severity \<Rightarrow> string \<Rightarrow> competition_error" where
  "issue code sev message = \<lparr>ce_code = code, ce_severity = sev, ce_message = message\<rparr>"

definition fallback_warning :: "string \<Rightarrow> competition_error" where
  "fallback_warning message = issue ''generation_fallback'' Sev_warning message"

definition plan_id_for :: "plan_env \<Rightarrow> plan_request \<Rightarrow> string" where
  "plan_id_for env q =
     ''plan_'' @ pv_uuid5 env (join_str ''|''
       [pq_competition_id q, pv_iso env (pq_today q), pv_iso env (pq_target q), pq_time_model q,
        int_str (pq_weekly_hours q), pq_experience q])"

definition validate_request :: "plan_request \<Rightarrow> string option" where
  "validate_request q =
     (if pq_competition_id q = [] then Some ''competition_id is required''
      else if pq_time_model q \<notin> set time_models then Some ''unsupported time_model''
      else if pq_experience q \<notin> {''beginner'', ''intermediate'', ''experienced''} then Some ''unsupported experience_level''
      else if pq_weekly_hours q \<le> 0 then Some ''weekly_hours must be positive''
      else if pq_target q \<le> pq_today q then Some ''target_date must be after calendar_today''
      else if pq_time_model q = ''competition_window'' \<and> pq_defense q \<noteq> None then
        Some ''competition_window must not define defense_date''
      else if pq_time_model q = ''submission_deadline'' \<and> pq_event_end q \<noteq> None then
        Some ''submission_deadline must not define event_end_date''
      else None)"

text \<open>The fields of the catalog card the generator reads, and what came back from the pipeline:
  none configured, a provider failure or time-out, or a result with its warnings flag and
  output.\<close>

record plan_card =
  pa_category :: string
  pa_risk_flags :: "string list"
  pa_refs :: "source_ref list"

datatype pipeline_answer = No_pipeline | Provider_failed | Generated bool json

record plan_profile =
  pp_version :: string
  pp_max_tasks :: int

fun extra_tasks ::
    "plan_phase \<Rightarrow> date \<Rightarrow> nat \<Rightarrow> extra_task list \<Rightarrow> rat \<Rightarrow> rat \<Rightarrow> (plan_error, (plan_task list \<times> rat) option) result" where
  "extra_tasks phase due i [] budget used = Inr (Some ([], used))"
| "extra_tasks phase due i ((title, hours) # xs) budget used =
     (if used + hours > budget then Inr None
      else
        res_bind (new_plan_task
          \<lparr>pk_id = ''task:'' @ ph_key phase @ '':ai:'' @ nat_str i, pk_phase_id = ph_id phase, pk_label = title,
           pk_mandatory = False, pk_estimated_weeks = None, pk_depends_on = [], pk_kind = ''optional'',
           pk_hours = Some hours, pk_start = Some (ph_start phase), pk_due = Some due\<rparr>) (\<lambda>task.
        res_bind (extra_tasks phase due (Suc i) xs budget (used + hours)) (\<lambda>r.
          Inr (case r of None \<Rightarrow> None | Some (ts, u) \<Rightarrow> Some (task # ts, u)))))"

fun additions ::
    "plan_draft \<Rightarrow> date list \<Rightarrow> (string, extra_task list) dict \<Rightarrow> rat \<Rightarrow> rat \<Rightarrow>
     (plan_error, plan_task list option) result" where
  "additions d blocked [] budget used = Inr (Some [])"
| "additions d blocked ((key, xs) # rest) budget used =
     (case phase_by_key d key of
        None \<Rightarrow> Inl (Invalid_value key)
      | Some phase \<Rightarrow>
          (case available_due_date (ph_start phase) (ph_end phase) blocked of
             None \<Rightarrow> additions d blocked rest budget used
           | Some due \<Rightarrow>
               res_bind (extra_tasks phase due 0 xs budget used) (\<lambda>r.
                 (case r of
                    None \<Rightarrow> Inr None
                  | Some (ts, used') \<Rightarrow>
                      res_bind (additions d blocked rest budget used') (\<lambda>r'.
                        Inr (case r' of None \<Rightarrow> None | Some ts' \<Rightarrow> Some (ts @ ts')))))))"

definition with_additions :: "plan_draft \<Rightarrow> plan_task list \<Rightarrow> (plan_error, plan_draft) result" where
  "with_additions d ts =
     res_bind (res_fold (\<lambda>p ps. res_bind (new_plan_phase
         (p\<lparr>ph_task_ids := ph_task_ids p @ map pk_id (filter (\<lambda>t. pk_phase_id t = ph_id p) ts)\<rparr>)) (\<lambda>p'. Inr (ps @ [p'])))
       (pd_phases d) []) (\<lambda>phases.
     new_plan_draft (d\<lparr>pd_phases := phases, pd_optional := pd_optional d @ ts\<rparr>))"

definition used_optional_hours :: "plan_draft \<Rightarrow> rat" where
  "used_optional_hours d = (\<Sum>t \<leftarrow> pd_optional d. case pk_hours t of None \<Rightarrow> 0 | Some h \<Rightarrow> h)"

definition personalize ::
    "plan_request \<Rightarrow> plan_draft \<Rightarrow> pipeline_answer \<Rightarrow> plan_profile option \<Rightarrow>
     (plan_error, plan_draft \<times> competition_error list) result" where
  "personalize q d answer profile =
     (let fall = (\<lambda>m. Inr (d, [fallback_warning m]))
      in (case (answer, profile) of
            (No_pipeline, _) \<Rightarrow> fall ''generation unavailable; grounded template used''
          | (_, None) \<Rightarrow> fall ''generation unavailable; grounded template used''
          | (Provider_failed, _) \<Rightarrow> fall ''generation provider failed; grounded template used''
          | (Generated warned output, Some prof) \<Rightarrow>
              if warned then fall ''generated personalization was rejected; grounded template used''
              else
                res_bind (validate_personalization_output (map ph_key (pd_phases d)) (pp_max_tasks prof) output) (\<lambda>r.
                  (case r of
                     None \<Rightarrow> fall ''generated personalization failed schema validation; grounded template used''
                   | Some extra \<Rightarrow>
                       res_bind (additions d (blocked_dates q) extra
                           (of_int (pq_weekly_hours q) * max 1 (of_int (pq_target q - pq_today q) / 7))
                           (used_optional_hours d)) (\<lambda>a.
                         (case a of
                            None \<Rightarrow> fall ''generated personalization exceeds the available weekly-hours budget; grounded template used''
                          | Some ts \<Rightarrow> res_bind (with_additions d ts) (\<lambda>d'. Inr (d', []))))))))"

definition default_profile_version :: string where
  "default_profile_version = ''competition.plan.v1''"

definition fatal :: "string \<Rightarrow> string \<Rightarrow> (plan_error, plan_result) result" where
  "fatal code message =
     new_plan_result \<lparr>pl_draft = None, pl_issues = [issue code Sev_error message], pl_profile_version = default_profile_version\<rparr>"

definition schedule_warnings :: "plan_request \<Rightarrow> scheduled_plan \<Rightarrow> competition_error list" where
  "schedule_warnings q s =
     (if sd_dropped s \<noteq> [] then
        [issue ''plan_invalid'' Sev_warning ''optional tasks omitted because of budget or unavailable dates''] else []) @
     (if pq_time_model q = ''competition_window'' \<and> pq_event_end q = None then
        [issue ''knowledge_base_stale'' Sev_warning ''event end date is uncertain; verify the current competition notice''] else [])"

definition base_draft :: "plan_env \<Rightarrow> plan_request \<Rightarrow> plan_card \<Rightarrow> scheduled_plan \<Rightarrow> plan_draft" where
  "base_draft env q pcard s =
     \<lparr>pd_id = plan_id_for env q, pd_competition_id = pq_competition_id q, pd_time_model = pq_time_model q,
      pd_target = Some (pq_target q), pd_event_end = pq_event_end q,
      pd_defense = (if pq_time_model q = ''submission_deadline''
        then Some (case pq_defense q of None \<Rightarrow> pq_target q + 14 | Some x \<Rightarrow> x) else None),
      pd_phases = sd_phases s, pd_tasks = sd_tasks s, pd_optional = sd_optional s,
      pd_milestones = map ph_label (sd_phases s),
      pd_calendar = map (\<lambda>p. ph_key p @ '':'' @ pv_iso env (ph_start p) @ '':'' @ pv_iso env (ph_end p)) (sd_phases s),
      pd_risks = pa_risk_flags pcard, pd_refs = pa_refs pcard, pd_warnings = schedule_warnings q s, pd_revision = 0\<rparr>"

definition generate_plan ::
    "plan_env \<Rightarrow> plan_request \<Rightarrow> plan_card option \<Rightarrow> pipeline_answer \<Rightarrow> plan_profile option \<Rightarrow>
     (plan_error, plan_result) result" where
  "generate_plan env q card_opt answer profile =
     (case validate_request q of
        Some invalid \<Rightarrow> fatal ''plan_invalid'' invalid
      | None \<Rightarrow>
          (case card_opt of
             None \<Rightarrow> fatal ''catalog_unavailable'' ''competition not found''
           | Some pcard \<Rightarrow>
               (case schedule_plan env q (build_phase_templates (pa_category pcard) (pq_time_model q) (pq_experience q)) of
                  Inl (Scheduling_error m) \<Rightarrow> fatal ''plan_invalid'' m
                | Inl e \<Rightarrow> Inl e
                | Inr s \<Rightarrow>
                    res_bind (new_plan_draft (base_draft env q pcard s)) (\<lambda>d.
                      if validate_plan d \<noteq> [] then fatal ''plan_invalid'' (join_str ''; '' (validate_plan d))
                      else
                        res_bind (personalize q d answer profile) (\<lambda>(p, gen_issues).
                          (let all_issues = schedule_warnings q s @ gen_issues
                           in res_bind (if gen_issues = [] then Inr p
                                else new_plan_draft (p\<lparr>pd_warnings := all_issues\<rparr>)) (\<lambda>final.
                              new_plan_result \<lparr>pl_draft = Some final, pl_issues = all_issues,
                                pl_profile_version = (case profile of None \<Rightarrow> default_profile_version
                                  | Some pr \<Rightarrow> pp_version pr)\<rparr>)))))))"

section \<open>Phase lengths and due dates\<close>

text \<open>\<open>tiles a b rs\<close>: the ranges are non-empty, adjacent, and cover exactly the days from \<open>a\<close> to \<open>b\<close>.\<close>

fun tiles :: "date \<Rightarrow> date \<Rightarrow> (date \<times> date) list \<Rightarrow> bool" where
  "tiles a b [] = (a = b + 1)"
| "tiles a b ((s, e) # rs) = (s = a \<and> s \<le> e \<and> tiles (e + 1) b rs)"

lemma allocate_loop_tiles:
  "ws \<noteq> [] \<Longrightarrow> int (length ws) \<le> remaining \<Longrightarrow>
     tiles cursor (cursor + remaining - 1) (allocate_loop share tot tw ws cursor remaining)"
proof (induction share tot tw ws cursor remaining rule: allocate_loop.induct)
  case (3 share tot tw w w' ws cursor remaining)
  let ?days = "min (max 1 (share tot w tw)) (remaining - int (length (w' # ws)))"
  have "int (length (w' # ws)) \<le> remaining - ?days" "1 \<le> ?days" using 3(3) by auto
  with 3(1) [OF refl] show ?case by (simp add: Let_def algebra_simps)
qed auto

lemma allocate_loop_length: "length (allocate_loop share tot tw ws cursor remaining) = length ws"
  by (induction share tot tw ws cursor remaining rule: allocate_loop.induct) (auto simp: Let_def)

lemma allocate_ranges_tiles:
  assumes "allocate_ranges share a b ws = Inr rs" "ws \<noteq> []"
  shows "tiles a b rs \<and> length rs = length ws"
proof -
  from assms have "int (length ws) \<le> b - a + 1" "rs = allocate_loop share (b - a + 1) (sum_list ws) ws a (b - a + 1)"
    by (auto simp: allocate_ranges_def Let_def split: if_splits)
  with allocate_loop_tiles [of ws "b - a + 1" a share "b - a + 1" "sum_list ws"] assms(2) show ?thesis
    by (simp add: allocate_loop_length)
qed

lemma available_due_date_some:
  "available_due_date a c blocked = Some d \<Longrightarrow> a \<le> d \<and> d \<le> c \<and> d \<notin> set blocked"
proof (induction a c blocked rule: available_due_date.induct)
  case (1 a c blocked)
  from 1(2) show ?case
    using 1(1) by (subst (asm) available_due_date.simps) (auto split: if_splits)
qed

lemma available_due_date_none:
  "available_due_date a c blocked = None \<longleftrightarrow> {a..c} \<subseteq> set blocked"
proof (induction a c blocked rule: available_due_date.induct)
  case (1 a c blocked)
  show ?case
  proof (cases "c < a")
    case False
    then have "{a..c} = insert c {a..c - 1}" by auto
    with False 1 show ?thesis by (subst available_due_date.simps) auto
  qed (simp add: available_due_date.simps)
qed

section \<open>Scheduling one phase\<close>

lemma schedule_item_cases:
  assumes "schedule_item q t sp item s = Inr s'"
  obtains (skip) "\<not> eligible item (pq_experience q)" "s' = s"
    | (drop_it) "\<not> tt_required item" "sd_tasks (ss_plan s') = sd_tasks (ss_plan s)"
        "sd_optional (ss_plan s') = sd_optional (ss_plan s)" "sd_phases (ss_plan s') = sd_phases (ss_plan s)"
        "ss_used s' = ss_used s" "ss_ids s' = ss_ids s"
    | (req) due where "tt_required item" "eligible item (pq_experience q)"
        "available_due_date (fst sp) (snd sp) (blocked_dates q) = Some due"
        "s' = s\<lparr>ss_plan := (ss_plan s)\<lparr>sd_tasks := sd_tasks (ss_plan s) @ [template_plan_task t item (fst sp) due]\<rparr>,
                ss_ids := ss_ids s @ [pk_id (template_plan_task t item (fst sp) due)]\<rparr>"
    | (opt) due where "\<not> tt_required item" "eligible item (pq_experience q)"
        "available_due_date (fst sp) (snd sp) (blocked_dates q) = Some due"
        "ss_used s + tt_hours item \<le> optional_budget q"
        "s' = s\<lparr>ss_plan := (ss_plan s)\<lparr>sd_optional := sd_optional (ss_plan s) @ [template_plan_task t item (fst sp) due]\<rparr>,
                ss_used := ss_used s + tt_hours item,
                ss_ids := ss_ids s @ [pk_id (template_plan_task t item (fst sp) due)]\<rparr>"
proof (cases "eligible item (pq_experience q)")
  case False
  with assms show ?thesis by (intro skip) (auto simp: schedule_item_def)
next
  case el: True
  show ?thesis
  proof (cases "available_due_date (fst sp) (snd sp) (blocked_dates q)")
    case None
    with el assms show ?thesis by (intro drop_it) (auto simp: schedule_item_def Let_def split: if_splits)
  next
    case (Some due)
    have built: "new_plan_task (template_plan_task t item (fst sp) due) = Inr task \<Longrightarrow>
        task = template_plan_task t item (fst sp) due" for task
      by (auto simp: new_plan_task_def template_plan_task_def split: if_splits)
    show ?thesis
    proof (cases "tt_required item")
      case True
      with el Some assms show ?thesis
        by (intro req [of due]) (auto simp: schedule_item_def Let_def res_bind_eq_Inr dest!: built)
    next
      case False
      show ?thesis
      proof (cases "ss_used s + tt_hours item > optional_budget q")
        case True
        with False el Some assms show ?thesis by (intro drop_it) (auto simp: schedule_item_def Let_def)
      next
        case nb: False
        with False el Some assms show ?thesis
          by (intro opt [of due]) (auto simp: schedule_item_def Let_def res_bind_eq_Inr dest!: built)
      qed
    qed
  qed
qed

definition task_hours :: "plan_task \<Rightarrow> rat" where
  "task_hours t = (case pk_hours t of None \<Rightarrow> 0 | Some h \<Rightarrow> h)"

definition on_time :: "date list \<Rightarrow> (string, date \<times> date) dict \<Rightarrow> plan_task \<Rightarrow> bool" where
  "on_time blocked ranges t =
     (\<exists>key a b due. pk_phase_id t = ''phase:'' @ key \<and> map_of ranges key = Some (a, b) \<and> pk_start t = Some a \<and>
        pk_due t = Some due \<and> a \<le> due \<and> due \<le> b \<and> due \<notin> set blocked)"

definition sched_inv :: "plan_request \<Rightarrow> (string, date \<times> date) dict \<Rightarrow> schedule_state \<Rightarrow> bool" where
  "sched_inv q ranges s =
     ((\<forall>t \<in> set (sd_tasks (ss_plan s)). pk_mandatory t \<and> on_time (blocked_dates q) ranges t) \<and>
      (\<forall>t \<in> set (sd_optional (ss_plan s)). \<not> pk_mandatory t \<and> on_time (blocked_dates q) ranges t) \<and>
      (\<Sum>t \<leftarrow> sd_optional (ss_plan s). task_hours t) = ss_used s \<and> ss_used s \<le> optional_budget q)"

definition task_id_of :: "phase_template \<Rightarrow> template_task \<Rightarrow> string" where
  "task_id_of t i = ''task:'' @ pt_key t @ '':'' @ tt_key i"

lemma template_plan_task_fields [simp]:
  "pk_id (template_plan_task t item a due) = task_id_of t item"
  "pk_mandatory (template_plan_task t item a due) = tt_required item"
  "pk_hours (template_plan_task t item a due) = Some (tt_hours item)"
  by (simp_all add: template_plan_task_def task_id_of_def)

lemma template_task_on_time:
  assumes "map_of ranges (pt_key t) = Some sp"
    and "available_due_date (fst sp) (snd sp) blocked = Some due"
  shows "on_time blocked ranges (template_plan_task t item (fst sp) due)"
  using available_due_date_some [OF assms(2)] assms(1) unfolding on_time_def
  by (intro exI [of _ "pt_key t"] exI [of _ "fst sp"] exI [of _ "snd sp"] exI [of _ due])
    (simp add: template_plan_task_def)

lemma schedule_item_inv:
  assumes "map_of ranges (pt_key t) = Some sp" "schedule_item q t sp item s = Inr s'" "sched_inv q ranges s"
  shows "sched_inv q ranges s'"
  using assms(2)
proof (cases rule: schedule_item_cases)
  case skip
  with assms(3) show ?thesis by simp
next
  case drop_it
  with assms(3) show ?thesis by (simp add: sched_inv_def)
next
  case (req due)
  with assms(3) template_task_on_time [OF assms(1) req(3)] show ?thesis
    by (auto simp: sched_inv_def)
next
  case (opt due)
  with assms(3) template_task_on_time [OF assms(1) opt(3)] show ?thesis
    by (auto simp: sched_inv_def task_hours_def)
qed

lemma schedule_phase_inv:
  assumes "schedule_phase q ranges t s = Inr s'" "sched_inv q ranges s"
  shows "sched_inv q ranges s'"
proof -
  from assms(1) obtain sp s1 ph where sp: "map_of ranges (pt_key t) = Some sp"
    and f: "res_fold (schedule_item q t sp) (pt_tasks t) (s\<lparr>ss_ids := []\<rparr>) = Inr s1"
    and s': "s' = s1\<lparr>ss_plan := (ss_plan s1)\<lparr>sd_phases := sd_phases (ss_plan s1) @ [ph]\<rparr>\<rparr>"
    by (auto simp: schedule_phase_def Let_def res_bind_eq_Inr split: option.splits)
  have "sched_inv q ranges s1"
  proof (rule res_fold_inv [OF _ _ f])
    show "sched_inv q ranges (s\<lparr>ss_ids := []\<rparr>)" using assms(2) by (simp add: sched_inv_def)
  qed (rule schedule_item_inv [OF sp])
  with s' show ?thesis by (simp add: sched_inv_def)
qed

text \<open>Which template items end up as required tasks, in order.\<close>

definition required_ids :: "plan_request \<Rightarrow> phase_template \<Rightarrow> template_task list \<Rightarrow> string list" where
  "required_ids q t items =
     map (task_id_of t) (filter (\<lambda>i. tt_required i \<and> eligible i (pq_experience q)) items)"

definition item_ids :: "phase_template \<Rightarrow> template_task list \<Rightarrow> string list" where
  "item_ids t items = map (task_id_of t) items"

lemma item_ids_simps [simp]: "item_ids t [] = []" "item_ids t (i # items) = task_id_of t i # item_ids t items"
  by (simp_all add: item_ids_def)

definition plan_ids :: "schedule_state \<Rightarrow> string list" where
  "plan_ids s = map pk_id (sd_tasks (ss_plan s) @ sd_optional (ss_plan s))"

lemma schedule_items_ids:
  assumes "res_fold (schedule_item q t sp) items s = Inr s'"
  shows "map pk_id (sd_tasks (ss_plan s')) = map pk_id (sd_tasks (ss_plan s)) @ required_ids q t items \<and>
    sd_phases (ss_plan s') = sd_phases (ss_plan s) \<and> set (plan_ids s') \<subseteq> set (plan_ids s) \<union> set (item_ids t items) \<and>
    (distinct (plan_ids s @ item_ids t items) \<longrightarrow> distinct (plan_ids s'))"
  using assms
proof (induction items arbitrary: s)
  case Nil
  then show ?case by (simp add: required_ids_def)
next
  case (Cons i items)
  then obtain s1 where s1: "schedule_item q t sp i s = Inr s1" "res_fold (schedule_item q t sp) items s1 = Inr s'"
    by (auto simp: res_bind_eq_Inr)
  note IH = Cons.IH [OF s1(2)]
  let ?id = "task_id_of t i"
  from s1(1) have step: "map pk_id (sd_tasks (ss_plan s1)) = map pk_id (sd_tasks (ss_plan s)) @ required_ids q t [i] \<and>
      sd_phases (ss_plan s1) = sd_phases (ss_plan s) \<and>
      (plan_ids s1 = plan_ids s \<or>
       set (plan_ids s1) = insert ?id (set (plan_ids s)) \<and> length (plan_ids s1) = Suc (length (plan_ids s)))"
    by (cases rule: schedule_item_cases) (auto simp: required_ids_def plan_ids_def)
  have d1: "distinct (plan_ids s1 @ item_ids t items)" if "distinct (plan_ids s @ item_ids t (i # items))"
  proof -
    from that step have "card (set (plan_ids s1)) = length (plan_ids s1)"
      by (auto simp: distinct_card)
    then have "distinct (plan_ids s1)" by (rule card_distinct)
    with that step show ?thesis by auto
  qed
  show ?case
  proof (intro conjI impI)
    show "map pk_id (sd_tasks (ss_plan s')) = map pk_id (sd_tasks (ss_plan s)) @ required_ids q t (i # items)"
      using IH step by (simp add: required_ids_def)
    show "sd_phases (ss_plan s') = sd_phases (ss_plan s)" using IH step by simp
    show "set (plan_ids s') \<subseteq> set (plan_ids s) \<union> set (item_ids t (i # items))"
      using IH step by auto
    show "distinct (plan_ids s')" if "distinct (plan_ids s @ item_ids t (i # items))"
      using IH d1 [OF that] by blast
  qed
qed

definition phase_for :: "(string, date \<times> date) dict \<Rightarrow> phase_template \<Rightarrow> plan_phase \<Rightarrow> bool" where
  "phase_for ranges t p =
     (ph_id p = ''phase:'' @ pt_key t \<and> ph_key p = pt_key t \<and> ph_label p = pt_label t \<and>
      map_of ranges (pt_key t) = Some (ph_start p, ph_end p) \<and> ph_start p \<le> ph_end p)"

lemma schedule_phases_shape:
  assumes "res_fold (schedule_phase q ranges) templates s = Inr s'"
  shows "map pk_id (sd_tasks (ss_plan s')) = map pk_id (sd_tasks (ss_plan s)) @ concat (map (\<lambda>t. required_ids q t (pt_tasks t)) templates) \<and>
    (\<exists>ps. sd_phases (ss_plan s') = sd_phases (ss_plan s) @ ps \<and> list_all2 (phase_for ranges) templates ps) \<and>
    (distinct (plan_ids s @ concat (map (\<lambda>t. item_ids t (pt_tasks t)) templates)) \<longrightarrow> distinct (plan_ids s'))"
  using assms
proof (induction templates arbitrary: s)
  case (Cons t templates)
  then obtain s1 where s1: "schedule_phase q ranges t s = Inr s1" "res_fold (schedule_phase q ranges) templates s1 = Inr s'"
    by (auto simp: res_bind_eq_Inr)
  from s1(1) obtain sp s0 ph where sp: "map_of ranges (pt_key t) = Some sp"
    and f: "res_fold (schedule_item q t sp) (pt_tasks t) (s\<lparr>ss_ids := []\<rparr>) = Inr s0"
    and new: "new_plan_phase \<lparr>ph_id = ''phase:'' @ pt_key t, ph_key = pt_key t, ph_label = pt_label t, ph_start = fst sp,
               ph_end = snd sp, ph_task_ids = ss_ids s0\<rparr> = Inr ph"
    and s1': "s1 = s0\<lparr>ss_plan := (ss_plan s0)\<lparr>sd_phases := sd_phases (ss_plan s0) @ [ph]\<rparr>\<rparr>"
    by (auto simp: schedule_phase_def Let_def res_bind_eq_Inr split: option.splits)
  from new sp have ph: "phase_for ranges t ph"
    by (cases sp) (auto simp: phase_for_def new_plan_phase_def split: if_splits)
  note items = schedule_items_ids [OF f] and IH = Cons.IH [OF s1(2)]
  have ids: "plan_ids s1 = plan_ids s0" "plan_ids (s\<lparr>ss_ids := []\<rparr>) = plan_ids s" by (simp_all add: plan_ids_def s1')
  show ?case
  proof (intro conjI impI)
    show "map pk_id (sd_tasks (ss_plan s')) =
        map pk_id (sd_tasks (ss_plan s)) @ concat (map (\<lambda>t. required_ids q t (pt_tasks t)) (t # templates))"
      using IH items by (simp add: s1')
    from IH obtain ps where ps: "sd_phases (ss_plan s') = sd_phases (ss_plan s1) @ ps" "list_all2 (phase_for ranges) templates ps"
      by blast
    have "sd_phases (ss_plan s') = sd_phases (ss_plan s) @ (ph # ps)" using ps(1) items by (simp add: s1')
    moreover have "list_all2 (phase_for ranges) (t # templates) (ph # ps)" using ps(2) ph by simp
    ultimately show "\<exists>ps. sd_phases (ss_plan s') = sd_phases (ss_plan s) @ ps \<and> list_all2 (phase_for ranges) (t # templates) ps"
      by blast
    show "distinct (plan_ids s')"
      if d: "distinct (plan_ids s @ concat (map (\<lambda>t. item_ids t (pt_tasks t)) (t # templates)))"
    proof -
      from d have "distinct (plan_ids s @ item_ids t (pt_tasks t))" by auto
      with items ids have "distinct (plan_ids s1)" by simp
      moreover have "set (plan_ids s1) \<subseteq> set (plan_ids s) \<union> set (item_ids t (pt_tasks t))" using items ids by simp
      ultimately have "distinct (plan_ids s1 @ concat (map (\<lambda>t. item_ids t (pt_tasks t)) templates))"
        using d by auto
      with IH show ?thesis by blast
    qed
  qed
qed simp

section \<open>The schedule\<close>

lemma schedule_plan_shape:
  assumes "schedule_plan env q T = Inr s"
  obtains ranges st where "phase_ranges env q T = Inr ranges" "s = ss_plan st" "sched_inv q ranges st"
    "list_all2 (phase_for ranges) T (sd_phases s)"
    "map pk_id (sd_tasks s) = concat (map (\<lambda>t. required_ids q t (pt_tasks t)) T)"
    "distinct (concat (map (\<lambda>t. item_ids t (pt_tasks t)) T)) \<longrightarrow> distinct (map pk_id (sd_tasks s @ sd_optional s))"
proof -
  from assms obtain ranges st where r: "phase_ranges env q T = Inr ranges"
    and f: "res_fold (schedule_phase q ranges) T empty_schedule = Inr st" and s: "s = ss_plan st"
    by (auto simp: schedule_plan_def res_bind_eq_Inr split: if_splits)
  have empty: "sd_tasks (ss_plan empty_schedule) = []" "sd_phases (ss_plan empty_schedule) = []" "plan_ids empty_schedule = []"
    by (simp_all add: empty_schedule_def plan_ids_def)
  have "sched_inv q ranges st"
  proof (rule res_fold_inv [OF _ _ f])
    show "sched_inv q ranges empty_schedule" by (simp add: sched_inv_def empty_schedule_def optional_budget_def)
  qed (rule schedule_phase_inv)
  moreover from schedule_phases_shape [OF f] have "list_all2 (phase_for ranges) T (sd_phases s)"
    "map pk_id (sd_tasks s) = concat (map (\<lambda>t. required_ids q t (pt_tasks t)) T)"
    "distinct (concat (map (\<lambda>t. item_ids t (pt_tasks t)) T)) \<longrightarrow> distinct (plan_ids st)"
    unfolding empty s by auto
  ultimately show thesis using that [OF r s] by (simp add: plan_ids_def s)
qed

text \<open>The ranges of the built templates, for either time model.\<close>

lemma submission_ranges:
  assumes "phase_ranges env q (build_phase_templates cat (pq_time_model q) e) = Inr ranges"
    and "pq_time_model q = ''submission_deadline''"
  obtains r0 r1 r2 r3 where "tiles (pq_today q) (pq_target q) [r0, r1, r2, r3]"
    "ranges = [(''foundation'', r0), (''practice'', r1), (''simulation'', r2), (''submission'', r3),
       (''defense_prep'', (pq_target q + 1, case pq_defense q of None \<Rightarrow> pq_target q + 14 | Some d \<Rightarrow> d))]"
proof -
  from assms obtain rs where rs: "allocate_ranges (pv_share env) (pq_today q) (pq_target q) [22/100, 34/100, 24/100, 12/100] = Inr rs"
    and r: "ranges = dict_set ''defense_prep'' (pq_target q + 1, case pq_defense q of None \<Rightarrow> pq_target q + 14 | Some d \<Rightarrow> d)
        (dict_set ''submission'' (List.last rs) (fold (\<lambda>(k, v). dict_set k v)
          (zip [''foundation'', ''practice'', ''simulation'', ''submission''] rs) []))"
    by (auto simp: phase_ranges_def build_phase_templates_def phase_of_def post_keys_def Let_def res_bind_eq_Inr)
  from allocate_ranges_tiles [OF rs] have t: "tiles (pq_today q) (pq_target q) rs" and "length rs = 4" by simp_all
  then obtain r0 r1 r2 r3 where l: "rs = [r0, r1, r2, r3]"
    by (auto simp: eval_nat_numeral length_Suc_conv)
  show thesis by (rule that [of r0 r1 r2 r3]) (use t r l in \<open>simp_all add: dict_set_def\<close>)
qed

lemma window_ranges:
  assumes "phase_ranges env q (build_phase_templates cat (pq_time_model q) e) = Inr ranges"
    and "pq_time_model q \<noteq> ''submission_deadline''"
  obtains r0 r1 r2 ev where "tiles (pq_today q) (pq_target q) [r0, r1, r2]" "pq_target q \<le> ev"
    "ev = (case pq_event_end q of None \<Rightarrow> pq_target q | Some d \<Rightarrow> d)"
    "ranges = [(''foundation'', r0), (''practice'', r1), (''simulation'', r2), (''event_sprint'', (pq_target q, ev)),
       (''recovery'', (ev + 1, ev + 7))]"
proof -
  let ?ev = "case pq_event_end q of None \<Rightarrow> pq_target q | Some d \<Rightarrow> d"
  from assms obtain rs where rs: "allocate_ranges (pv_share env) (pq_today q) (pq_target q) [22/100, 34/100, 24/100] = Inr rs"
    and ev: "pq_target q \<le> ?ev"
    and r: "ranges = dict_set ''recovery'' (?ev + 1, ?ev + 7) (dict_set ''event_sprint'' (pq_target q, ?ev)
        (fold (\<lambda>(k, v). dict_set k v) (zip [''foundation'', ''practice'', ''simulation''] rs) []))"
    by (auto simp: phase_ranges_def build_phase_templates_def phase_of_def post_keys_def Let_def res_bind_eq_Inr split: if_splits)
  from allocate_ranges_tiles [OF rs] have t: "tiles (pq_today q) (pq_target q) rs" and "length rs = 3" by simp_all
  then obtain r0 r1 r2 where l: "rs = [r0, r1, r2]"
    by (auto simp: eval_nat_numeral length_Suc_conv)
  show thesis by (rule that [of r0 r1 r2 ?ev]) (use t r l ev in \<open>simp_all add: dict_set_def\<close>)
qed

lemma built_shape:
  obtains t0 t1 t2 t3 t4 where "build_phase_templates cat tm e = [t0, t1, t2, t3, t4]"
    "pt_key t0 = ''foundation''" "pt_key t1 = ''practice''" "pt_key t2 = ''simulation''"
    "pt_key t3 = (if tm = ''submission_deadline'' then ''submission'' else ''event_sprint'')"
    "pt_key t4 = (if tm = ''submission_deadline'' then ''defense_prep'' else ''recovery'')"
  by (cases "tm = ''submission_deadline''") (simp_all add: build_phase_templates_def phase_of_def Let_def)

definition spans :: "plan_phase list \<Rightarrow> (date \<times> date) list" where
  "spans ps = map (\<lambda>p. (ph_start p, ph_end p)) ps"

definition timeline_ok :: "plan_request \<Rightarrow> plan_phase list \<Rightarrow> bool" where
  "timeline_ok q ps =
     (tiles (pq_today q) (pq_target q) (spans (filter (\<lambda>p. ph_key p \<notin> set (post_keys (pq_time_model q))) ps)) \<and>
      list_all (\<lambda>p. ph_start p \<le> ph_end p) ps \<and>
      list_all (\<lambda>p. ph_key p = ''defense_prep'' \<longrightarrow> ph_start p = pq_target q + 1) ps \<and>
      list_all (\<lambda>p. ph_key p = ''event_sprint'' \<longrightarrow> ph_start p = pq_target q) ps)"

lemma phases_timeline:
  assumes r: "phase_ranges env q (build_phase_templates cat (pq_time_model q) e) = Inr ranges"
    and a: "list_all2 (phase_for ranges) (build_phase_templates cat (pq_time_model q) e) ps"
  shows "timeline_ok q ps"
proof (cases "pq_time_model q = ''submission_deadline''")
  case True
  obtain r0 r1 r2 r3 where t: "tiles (pq_today q) (pq_target q) [r0, r1, r2, r3]"
    and ranges: "ranges = [(''foundation'', r0), (''practice'', r1), (''simulation'', r2), (''submission'', r3),
       (''defense_prep'', (pq_target q + 1, case pq_defense q of None \<Rightarrow> pq_target q + 14 | Some d \<Rightarrow> d))]"
    using submission_ranges [OF r True] .
  obtain t0 t1 t2 t3 t4 where T: "build_phase_templates cat (pq_time_model q) e = [t0, t1, t2, t3, t4]"
    and keys: "pt_key t0 = ''foundation''" "pt_key t1 = ''practice''" "pt_key t2 = ''simulation''"
      "pt_key t3 = ''submission''" "pt_key t4 = ''defense_prep''"
    by (rule built_shape [of cat "pq_time_model q" e]) (simp add: True)
  from a T obtain p0 p1 p2 p3 p4 where ps: "ps = [p0, p1, p2, p3, p4]" by (auto simp: list_all2_Cons1)
  from a keys t True show ?thesis unfolding ps ranges T
    by (auto simp: phase_for_def timeline_ok_def spans_def post_keys_def)
next
  case False
  obtain r0 r1 r2 ev where t: "tiles (pq_today q) (pq_target q) [r0, r1, r2]" "pq_target q \<le> ev"
    and ranges: "ranges = [(''foundation'', r0), (''practice'', r1), (''simulation'', r2), (''event_sprint'', (pq_target q, ev)),
       (''recovery'', (ev + 1, ev + 7))]"
    using window_ranges [OF r False] .
  obtain t0 t1 t2 t3 t4 where T: "build_phase_templates cat (pq_time_model q) e = [t0, t1, t2, t3, t4]"
    and keys: "pt_key t0 = ''foundation''" "pt_key t1 = ''practice''" "pt_key t2 = ''simulation''"
      "pt_key t3 = ''event_sprint''" "pt_key t4 = ''recovery''"
    by (rule built_shape [of cat "pq_time_model q" e]) (simp add: False)
  from a T obtain p0 p1 p2 p3 p4 where ps: "ps = [p0, p1, p2, p3, p4]" by (auto simp: list_all2_Cons1)
  from a keys t False show ?thesis unfolding ps ranges T
    by (auto simp: phase_for_def timeline_ok_def spans_def post_keys_def)
qed

text \<open>\<open>placed blocked ps t\<close>: the task lies in its phase and is due on a day of it that is not blocked.\<close>

definition placed :: "date list \<Rightarrow> plan_phase list \<Rightarrow> plan_task \<Rightarrow> bool" where
  "placed blocked ps t =
     (\<exists>p \<in> set ps. \<exists>due. pk_phase_id t = ph_id p \<and> pk_start t = Some (ph_start p) \<and> pk_due t = Some due \<and>
        ph_start p \<le> due \<and> due \<le> ph_end p \<and> due \<notin> set blocked)"

lemma built_keys:
  "map pt_key (build_phase_templates cat tm e) =
     (if tm = ''submission_deadline'' then [''foundation'', ''practice'', ''simulation'', ''submission'', ''defense_prep'']
      else [''foundation'', ''practice'', ''simulation'', ''event_sprint'', ''recovery''])"
  by (rule built_shape [of cat tm e]) simp

lemma ranges_keys:
  assumes "phase_ranges env q (build_phase_templates cat (pq_time_model q) e) = Inr ranges"
  shows "map fst ranges = map pt_key (build_phase_templates cat (pq_time_model q) e)"
proof (cases "pq_time_model q = ''submission_deadline''")
  case True
  show ?thesis by (rule submission_ranges [OF assms True]) (simp only: built_keys True simp_thms if_True list.map fst_conv)
next
  case False
  show ?thesis by (rule window_ranges [OF assms False]) (simp only: built_keys False if_False list.map fst_conv)
qed

lemma on_time_placed:
  assumes "on_time blocked ranges t" "list_all2 (phase_for ranges) T ps" "map fst ranges = map pt_key T"
  shows "placed blocked ps t"
proof -
  from assms(1) obtain key a b due where t: "pk_phase_id t = ''phase:'' @ key" "map_of ranges key = Some (a, b)"
    "pk_start t = Some a" "pk_due t = Some due" "a \<le> due" "due \<le> b" "due \<notin> set blocked"
    unfolding on_time_def by blast
  from t(2) have "key \<in> fst ` set ranges" by (auto dest: map_of_SomeD intro: rev_image_eqI)
  then have "key \<in> set (map pt_key T)" unfolding assms(3) [symmetric] by simp
  then obtain i where i: "i < length T" "pt_key (T ! i) = key" by (auto simp: in_set_conv_nth)
  with assms(2) have "phase_for ranges (T ! i) (ps ! i)" "ps ! i \<in> set ps"
    by (auto simp: list_all2_conv_all_nth)
  with i t show ?thesis unfolding placed_def phase_for_def
    by (intro bexI [of _ "ps ! i"] exI [of _ due]) auto
qed

text \<open>
  A schedule that is produced is sound, for every rounding of the phase lengths: the
  preparation phases are non-empty, adjacent and cover exactly the days from today to the target
  date; defense preparation starts the day after a submission and the event sprint on the event
  date; every task lies in its phase and is due on a day that is neither an exam day nor
  unavailable; the required tasks are exactly the eligible required template tasks in order; and
  the optional tasks fit the weekly-hours budget.
\<close>

lemma schedule_sound:
  fixes env q cat
  defines "T \<equiv> build_phase_templates cat (pq_time_model q) (pq_experience q)"
  assumes "schedule_plan env q T = Inr s"
  shows "map ph_key (sd_phases s) = map pt_key T \<and> timeline_ok q (sd_phases s) \<and>
    (\<forall>t \<in> set (sd_tasks s). pk_mandatory t \<and> placed (blocked_dates q) (sd_phases s) t) \<and>
    (\<forall>t \<in> set (sd_optional s). \<not> pk_mandatory t \<and> placed (blocked_dates q) (sd_phases s) t) \<and>
    map pk_id (sd_tasks s) = concat (map (\<lambda>t. required_ids q t (pt_tasks t)) T) \<and>
    (\<Sum>t \<leftarrow> sd_optional s. task_hours t) \<le> optional_budget q"
proof -
  from assms(2) obtain ranges st where r: "phase_ranges env q T = Inr ranges" and st: "s = ss_plan st" "sched_inv q ranges st"
    and a: "list_all2 (phase_for ranges) T (sd_phases s)"
    and req: "map pk_id (sd_tasks s) = concat (map (\<lambda>t. required_ids q t (pt_tasks t)) T)"
    by (rule schedule_plan_shape)
  have "map ph_key (sd_phases s) = map pt_key T"
    using a by (intro nth_equalityI) (auto simp: list_all2_conv_all_nth phase_for_def)
  moreover have "timeline_ok q (sd_phases s)" using phases_timeline r a unfolding T_def by blast
  moreover have "on_time (blocked_dates q) ranges t \<Longrightarrow> placed (blocked_dates q) (sd_phases s) t" for t
    using on_time_placed a ranges_keys r unfolding T_def by blast
  ultimately show ?thesis using st req unfolding sched_inv_def by simp
qed

section \<open>Blank labels\<close>

lemma lstrip_toks_suffix: "\<exists>u. s = u @ lstrip_toks toks s \<and> (\<forall>c. (\<forall>t \<in> set toks. c \<notin> set t) \<longrightarrow> c \<notin> set u)"
proof (induction toks s rule: lstrip_toks.induct)
  case (1 toks s)
  show ?case
  proof (cases "find (\<lambda>t. t \<noteq> [] \<and> startswith s t) toks")
    case None
    then show ?thesis by (intro exI [of _ "[]"]) (simp add: lstrip_toks.simps [of toks s])
  next
    case (Some t)
    then have t: "t \<in> set toks" "s = t @ drop (length t) s"
      by (auto simp: find_Some_iff startswith_def) (metis append_take_drop_id)
    from 1 [OF Some] obtain u where u: "drop (length t) s = u @ lstrip_toks toks (drop (length t) s)"
      "\<forall>c. (\<forall>t \<in> set toks. c \<notin> set t) \<longrightarrow> c \<notin> set u" by blast
    from Some have step: "lstrip_toks toks s = lstrip_toks toks (drop (length t) s)"
      by (simp add: lstrip_toks.simps [of toks s])
    have "s = (t @ u) @ lstrip_toks toks s" unfolding step using t(2) u(1) by (metis append.assoc)
    with u(2) t(1) show ?thesis by (intro exI [of _ "t @ u"]) auto
  qed
qed

lemma lstrip_toks_mem: "c \<in> set s \<Longrightarrow> \<forall>t \<in> set toks. c \<notin> set t \<Longrightarrow> c \<in> set (lstrip_toks toks s)"
  using lstrip_toks_suffix [of s toks] by (metis Un_iff set_append)

lemma py_strip_mem: "c \<in> set s \<Longrightarrow> \<forall>t \<in> set ws_codes. c \<notin> set t \<Longrightarrow> c \<in> set (py_strip s)"
  unfolding py_strip_def py_lstrip_def py_rstrip_def by (simp add: lstrip_toks_mem)

lemma lstrip_toks_stop: "find (\<lambda>t. t \<noteq> [] \<and> startswith (lstrip_toks toks s) t) toks = None"
proof (induction toks s rule: lstrip_toks.induct)
  case (1 toks s)
  show ?case
  proof (cases "find (\<lambda>t. t \<noteq> [] \<and> startswith s t) toks")
    case None
    then show ?thesis by (simp add: lstrip_toks.simps [of toks s])
  next
    case (Some t)
    with 1 [OF Some] show ?thesis by (simp add: lstrip_toks.simps [of toks s])
  qed
qed

lemma lstrip_toks_fixed: "find (\<lambda>t. t \<noteq> [] \<and> startswith s t) toks = None \<Longrightarrow> lstrip_toks toks s = s"
  by (simp add: lstrip_toks.simps [of toks s])

lemma startswith_prefix: "startswith s t \<Longrightarrow> startswith (s @ u) t"
  by (auto simp: startswith_def) (metis append_take_drop_id length_take min.cobounded2 le_refl take_all_iff nle_le)

lemma py_strip_idem: "py_strip (py_strip s) = py_strip s"
proof -
  let ?v = "py_lstrip s"
  let ?w = "py_rstrip ?v"
  obtain u where u: "rev ?v = u @ rev ?w"
    using lstrip_toks_suffix [of "rev ?v" "map rev ws_codes"] by (auto simp: py_rstrip_def)
  then have v: "?v = ?w @ rev u" by (metis rev_append rev_rev_ident)
  have "find (\<lambda>t. t \<noteq> [] \<and> startswith ?v t) ws_codes = None"
    unfolding py_lstrip_def by (rule lstrip_toks_stop)
  then have "find (\<lambda>t. t \<noteq> [] \<and> startswith ?w t) ws_codes = None"
    unfolding find_None_iff using v startswith_prefix [of ?w _ "rev u"] by metis
  then have "py_lstrip ?w = ?w" by (simp add: py_lstrip_def lstrip_toks_fixed)
  moreover have "py_rstrip ?w = ?w"
    using lstrip_toks_fixed [OF lstrip_toks_stop] by (simp add: py_rstrip_def)
  ultimately show ?thesis by (simp add: py_strip_def)
qed

text \<open>The lead bytes of the labels occur in no whitespace encoding.\<close>

definition label_leads :: string where
  "label_leads = [CHR 0xE4, CHR 0xE5, CHR 0xE6, CHR 0xE7, CHR 0xE8, CHR 0xE9]"

lemma label_leads_plain: "c \<in> set label_leads \<Longrightarrow> \<forall>t \<in> set ws_codes. c \<notin> set t"
proof -
  have "list_all (\<lambda>c. list_all (\<lambda>t. \<not> List.member t c) ws_codes) label_leads" by code_simp
  then show "c \<in> set label_leads \<Longrightarrow> \<forall>t \<in> set ws_codes. c \<notin> set t"
    by (auto simp: list_all_iff)
qed

lemma label_not_blank: "c \<in> set label_leads \<Longrightarrow> py_strip (c # s) \<noteq> []"
  using py_strip_mem [of c "c # s", OF _ label_leads_plain] by force

definition has_lead :: "string \<Rightarrow> bool" where
  "has_lead s = (case s of [] \<Rightarrow> False | c # _ \<Rightarrow> c \<in> set label_leads)"

lemma has_lead_not_blank: "has_lead s \<Longrightarrow> py_strip s \<noteq> []"
  by (cases s) (auto simp: has_lead_def label_not_blank)

section \<open>Built templates\<close>

definition template_ok :: "phase_template \<Rightarrow> bool" where
  "template_ok t =
     (pt_key t \<noteq> [] \<and> has_lead (pt_label t) \<and> list_all (\<lambda>i. has_lead (tt_label i) \<and> 0 < tt_hours i) (pt_tasks t) \<and>
      list_ex (\<lambda>i. tt_required i \<and> tt_min_experience i = ''beginner'') (pt_tasks t))"

lemma foundation_labels:
  "has_lead (fst (case map_of category_tasks cat of None \<Rightarrow> default_category_tasks | Some p \<Rightarrow> p)) \<and>
   has_lead (snd (case map_of category_tasks cat of None \<Rightarrow> default_category_tasks | Some p \<Rightarrow> p))"
proof -
  have "list_all (\<lambda>kv. has_lead (fst (snd kv)) \<and> has_lead (snd (snd kv))) ((''x'', default_category_tasks) # category_tasks)"
    by code_simp
  then show ?thesis by (auto simp: list_all_iff split: option.split dest!: map_of_SomeD)
qed

lemma built_ok: "list_all template_ok (build_phase_templates cat tm e)"
  using foundation_labels [of cat]
  by (simp add: build_phase_templates_def phase_of_def task_of_def Let_def template_ok_def has_lead_def [of "_ # _"] label_leads_def)

lemma built_items_distinct: "distinct (concat (map (\<lambda>t. item_ids t (pt_tasks t)) (build_phase_templates cat tm e)))"
  by (simp add: build_phase_templates_def phase_of_def task_of_def Let_def task_id_of_def)

section \<open>When scheduling fails\<close>

definition free_day :: "plan_request \<Rightarrow> date \<times> date \<Rightarrow> bool" where
  "free_day q sp = (\<not> {fst sp..snd sp} \<subseteq> set (blocked_dates q))"

lemma free_day_due: "free_day q sp \<Longrightarrow> \<exists>due. available_due_date (fst sp) (snd sp) (blocked_dates q) = Some due"
  using available_due_date_none [of "fst sp" "snd sp" "blocked_dates q"] by (auto simp: free_day_def)

lemma no_free_day_due: "\<not> free_day q sp \<Longrightarrow> available_due_date (fst sp) (snd sp) (blocked_dates q) = None"
  using available_due_date_none [of "fst sp" "snd sp" "blocked_dates q"] by (auto simp: free_day_def)

lemma beginner_eligible: "tt_min_experience i = ''beginner'' \<Longrightarrow> eligible i e"
  by (simp add: eligible_def experience_order_def)

lemma schedule_item_total:
  assumes "has_lead (tt_label i)" "0 < tt_hours i" "free_day q sp"
  shows "\<exists>s'. schedule_item q t sp i s = Inr s'"
proof -
  from free_day_due [OF assms(3)] obtain due where due: "available_due_date (fst sp) (snd sp) (blocked_dates q) = Some due"
    by blast
  have "new_plan_task (template_plan_task t i (fst sp) due) = Inr (template_plan_task t i (fst sp) due)"
    using available_due_date_some [OF due] has_lead_not_blank [OF assms(1)] assms(2)
    by (simp add: new_plan_task_def template_plan_task_def)
  with due show ?thesis by (simp add: schedule_item_def Let_def)
qed

lemma schedule_items_total:
  assumes "list_all (\<lambda>i. has_lead (tt_label i) \<and> 0 < tt_hours i) items" "free_day q sp"
  shows "\<exists>s'. res_fold (schedule_item q t sp) items s = Inr s'"
  using assms(1)
proof (induction items arbitrary: s)
  case (Cons i items)
  then obtain s1 where "schedule_item q t sp i s = Inr s1" using schedule_item_total assms(2) by fastforce
  with Cons show ?case by auto
qed simp

lemma schedule_phase_total:
  assumes "template_ok t" "map_of ranges (pt_key t) = Some sp" "free_day q sp"
  shows "\<exists>s'. schedule_phase q ranges t s = Inr s'"
proof -
  obtain s1 where f: "res_fold (schedule_item q t sp) (pt_tasks t) (s\<lparr>ss_ids := []\<rparr>) = Inr s1"
    using schedule_items_total assms(1,3) unfolding template_ok_def by blast
  from free_day_due [OF assms(3)] have "fst sp \<le> snd sp" by (meson available_due_date_some order_trans)
  with assms(1) have "new_plan_phase \<lparr>ph_id = ''phase:'' @ pt_key t, ph_key = pt_key t, ph_label = pt_label t, ph_start = fst sp,
      ph_end = snd sp, ph_task_ids = ss_ids s1\<rparr> =
    Inr \<lparr>ph_id = ''phase:'' @ pt_key t, ph_key = pt_key t, ph_label = pt_label t, ph_start = fst sp,
      ph_end = snd sp, ph_task_ids = ss_ids s1\<rparr>"
    by (simp add: new_plan_phase_def template_ok_def has_lead_not_blank)
  with f assms(2) show ?thesis by (simp add: schedule_phase_def Let_def)
qed

lemma schedule_items_blocked:
  assumes "list_ex (\<lambda>i. tt_required i \<and> tt_min_experience i = ''beginner'') items" "\<not> free_day q sp"
  shows "\<exists>m. res_fold (schedule_item q t sp) items s = Inl (Scheduling_error m)"
  using assms(1)
proof (induction items arbitrary: s)
  case (Cons i items)
  note none = no_free_day_due [OF assms(2)]
  show ?case
  proof (cases "tt_required i \<and> eligible i (pq_experience q)")
    case True
    with none show ?thesis by (simp add: schedule_item_def Let_def)
  next
    case False
    then have "\<not> (tt_required i \<and> tt_min_experience i = ''beginner'')" using beginner_eligible by blast
    with Cons.prems have "list_ex (\<lambda>i. tt_required i \<and> tt_min_experience i = ''beginner'') items" by simp
    moreover obtain s1 where "schedule_item q t sp i s = Inr s1"
      using False none by (cases "eligible i (pq_experience q)") (simp_all add: schedule_item_def Let_def)
    ultimately show ?thesis using Cons.IH [of s1] by simp
  qed
qed simp

lemma schedule_phase_blocked:
  assumes "template_ok t" "map_of ranges (pt_key t) = Some sp" "\<not> free_day q sp"
  shows "\<exists>m. schedule_phase q ranges t s = Inl (Scheduling_error m)"
proof -
  obtain m where "res_fold (schedule_item q t sp) (pt_tasks t) (s\<lparr>ss_ids := []\<rparr>) = Inl (Scheduling_error m)"
    using schedule_items_blocked assms(1,3) unfolding template_ok_def by blast
  with assms(2) show ?thesis by (simp add: schedule_phase_def)
qed

lemma schedule_phases_outcome:
  assumes "list_all template_ok T" "\<forall>t \<in> set T. map_of ranges (pt_key t) \<noteq> None"
  shows "if (\<forall>t \<in> set T. free_day q (the (map_of ranges (pt_key t))))
    then \<exists>s'. res_fold (schedule_phase q ranges) T s = Inr s'
    else \<exists>m. res_fold (schedule_phase q ranges) T s = Inl (Scheduling_error m)"
  using assms
proof (induction T arbitrary: s)
  case (Cons t T)
  from Cons.prems(2) obtain sp where sp: "map_of ranges (pt_key t) = Some sp" by auto
  show ?case
  proof (cases "free_day q sp")
    case True
    obtain s1 where s1: "schedule_phase q ranges t s = Inr s1"
      using schedule_phase_total [OF _ sp True] Cons.prems(1) by auto
    from Cons.prems have "list_all template_ok T" "\<forall>t \<in> set T. map_of ranges (pt_key t) \<noteq> None" by simp_all
    from Cons.IH [OF this, of s1] s1 sp True show ?thesis by simp
  next
    case False
    obtain m where "schedule_phase q ranges t s = Inl (Scheduling_error m)"
      using schedule_phase_blocked [OF _ sp False] Cons.prems(1) by auto
    with False sp show ?thesis by simp
  qed
qed simp

lemma built_pre_length:
  "length (filter (\<lambda>t. pt_key t \<notin> set (post_keys tm)) (build_phase_templates cat tm e)) =
     (if tm = ''submission_deadline'' then 4 else 3)"
  by (rule built_shape [of cat tm e]) (simp add: post_keys_def)

lemma allocate_ranges_outcome:
  assumes "ws \<noteq> []"
  shows "if b - a + 1 < int (length ws) then \<exists>m. allocate_ranges share a b ws = Inl (Scheduling_error m)
    else \<exists>rs. allocate_ranges share a b ws = Inr rs"
  using assms by (simp add: allocate_ranges_def Let_def)

lemma phase_ranges_outcome:
  fixes cat e q
  defines "T \<equiv> build_phase_templates cat (pq_time_model q) e"
  shows "if pq_target q - pq_today q + 1 < (if pq_time_model q = ''submission_deadline'' then 4 else 3) \<or>
      pq_time_model q \<noteq> ''submission_deadline'' \<and> (case pq_event_end q of None \<Rightarrow> False | Some d \<Rightarrow> d < pq_target q)
    then \<exists>m. phase_ranges env q T = Inl (Scheduling_error m) else \<exists>r. phase_ranges env q T = Inr r"
proof -
  let ?ws = "map pt_weight (filter (\<lambda>t. pt_key t \<notin> set (post_keys (pq_time_model q))) T)"
  have len: "int (length ?ws) = (if pq_time_model q = ''submission_deadline'' then 4 else 3)"
    using built_pre_length [of "pq_time_model q" cat e] unfolding T_def by simp
  then have "?ws \<noteq> []" by (auto split: if_splits)
  note out = allocate_ranges_outcome [OF this, of "pq_target q" "pq_today q" "pv_share env", unfolded len]
  show ?thesis
  proof (cases "allocate_ranges (pv_share env) (pq_today q) (pq_target q) ?ws")
    case (Inl x)
    with out show ?thesis by (simp add: phase_ranges_def Let_def split: if_splits)
  next
    case (Inr rs)
    with out show ?thesis by (simp add: phase_ranges_def Let_def split: if_splits option.splits)
  qed
qed

definition infeasible :: "plan_env \<Rightarrow> plan_request \<Rightarrow> phase_template list \<Rightarrow> bool" where
  "infeasible env q T =
     ((case pc_school_deadline (pq_constraints q) of None \<Rightarrow> False | Some d \<Rightarrow> pq_target q > d) \<or>
      pq_target q - pq_today q + 1 < (if pq_time_model q = ''submission_deadline'' then 4 else 3) \<or>
      (pq_time_model q \<noteq> ''submission_deadline'' \<and> (case pq_event_end q of None \<Rightarrow> False | Some d \<Rightarrow> d < pq_target q)) \<or>
      (case phase_ranges env q T of
         Inl _ \<Rightarrow> False
       | Inr ranges \<Rightarrow> \<exists>r \<in> snd ` set ranges. {fst r..snd r} \<subseteq> set (blocked_dates q)))"

lemma schedule_plan_outcome:
  fixes cat q
  defines "T \<equiv> build_phase_templates cat (pq_time_model q) (pq_experience q)"
  shows "if infeasible env q T then \<exists>m. schedule_plan env q T = Inl (Scheduling_error m)
    else \<exists>s. schedule_plan env q T = Inr s"
proof (cases "case pc_school_deadline (pq_constraints q) of None \<Rightarrow> False | Some d \<Rightarrow> pq_target q > d")
  case True
  then show ?thesis by (simp add: infeasible_def schedule_plan_def)
next
  case late: False
  show ?thesis
  proof (cases "phase_ranges env q T")
    case (Inl e)
    with phase_ranges_outcome [of q env cat "pq_experience q"] late show ?thesis unfolding T_def [symmetric]
      by (simp add: infeasible_def schedule_plan_def split: if_splits)
  next
    case (Inr ranges)
    have keys: "map fst ranges = map pt_key T" using ranges_keys Inr unfolding T_def by blast
    then have "distinct (map fst ranges)" unfolding T_def built_keys by simp
    have some: "\<forall>t \<in> set T. map_of ranges (pt_key t) \<noteq> None"
      using keys by (metis image_eqI list.set_map map_of_eq_None_iff)
    have "(\<forall>t \<in> set T. free_day q (the (map_of ranges (pt_key t)))) \<longleftrightarrow> (\<forall>r \<in> snd ` set ranges. free_day q r)"
    proof (intro iffI ballI)
      fix r assume all: "\<forall>t \<in> set T. free_day q (the (map_of ranges (pt_key t)))" and "r \<in> snd ` set ranges"
      then obtain k where k: "(k, r) \<in> set ranges" by auto
      then have "k \<in> set (map pt_key T)" unfolding keys [symmetric] by force
      moreover have "map_of ranges k = Some r" using k \<open>distinct (map fst ranges)\<close> by simp
      ultimately show "free_day q r" using all by auto
    next
      fix t assume all: "\<forall>r \<in> snd ` set ranges. free_day q r" and "t \<in> set T"
      with some obtain r where "map_of ranges (pt_key t) = Some r" by auto
      with all show "free_day q (the (map_of ranges (pt_key t)))" by (force dest: map_of_SomeD)
    qed
    moreover have "\<not> (pq_target q - pq_today q + 1 < (if pq_time_model q = ''submission_deadline'' then 4 else 3) \<or>
      pq_time_model q \<noteq> ''submission_deadline'' \<and> (case pq_event_end q of None \<Rightarrow> False | Some d \<Rightarrow> d < pq_target q))"
      using phase_ranges_outcome [of q env cat "pq_experience q"] Inr unfolding T_def [symmetric] by (auto split: if_splits)
    ultimately show ?thesis
      using schedule_phases_outcome [OF built_ok, of cat "pq_time_model q" "pq_experience q" ranges q empty_schedule]
        some late Inr unfolding T_def [symmetric]
      by (auto simp: infeasible_def schedule_plan_def free_day_def split: if_splits)
  qed
qed


section \<open>Drafts\<close>

definition draft_ok :: "plan_draft \<Rightarrow> bool" where
  "draft_ok d = (new_plan_draft d = Inr d \<and> (\<forall>p \<in> set (pd_phases d). new_plan_phase p = Inr p))"

lemma phases_wellformed:
  assumes "list_all2 (phase_for ranges) T ps" "list_all template_ok T" "distinct (map pt_key T)"
  shows "(\<forall>p \<in> set ps. new_plan_phase p = Inr p) \<and> distinct (map ph_id ps) \<and> map ph_key ps = map pt_key T"
proof (intro conjI ballI)
  fix p assume "p \<in> set ps"
  then obtain i where "i < length ps" "ps ! i = p" by (auto simp: in_set_conv_nth)
  with assms(1) have "T ! i \<in> set T" "phase_for ranges (T ! i) p" by (auto simp: list_all2_conv_all_nth)
  with assms(2) show "new_plan_phase p = Inr p"
    by (auto simp: phase_for_def new_plan_phase_def list_all_iff template_ok_def has_lead_not_blank)
next
  show keys: "map ph_key ps = map pt_key T"
    using assms(1) by (intro nth_equalityI) (auto simp: list_all2_conv_all_nth phase_for_def)
  have "map ph_id ps = map (\<lambda>k. ''phase:'' @ k) (map pt_key T)"
    using assms(1) by (intro nth_equalityI) (auto simp: list_all2_conv_all_nth phase_for_def)
  with assms(3) show "distinct (map ph_id ps)" by (simp add: distinct_map inj_on_def del: map_map)
qed

lemma distinct_built_keys: "distinct (map pt_key (build_phase_templates cat tm e))"
  by (simp add: built_keys)

lemma required_nonempty:
  assumes "template_ok t"
  shows "required_ids q t (pt_tasks t) \<noteq> []"
proof -
  from assms obtain i where "i \<in> set (pt_tasks t)" "tt_required i" "tt_min_experience i = ''beginner''"
    by (auto simp: template_ok_def list_ex_iff)
  then show ?thesis using beginner_eligible by (auto simp: required_ids_def filter_empty_conv)
qed

lemma phase_by_key_prop:
  assumes "list_all (\<lambda>p. ph_key p = k \<longrightarrow> Q p) (pd_phases d)"
  shows "phase_by_key d k = None \<or> (\<exists>p. phase_by_key d k = Some p \<and> Q p)"
  using assms by (cases "phase_by_key d k") (auto simp: phase_by_key_def find_Some_iff list_all_iff, metis in_set_conv_nth set_rev length_rev nth_mem)

lemma placed_phase: "placed blocked ps t \<Longrightarrow> pk_phase_id t \<in> ph_id ` set ps"
  by (auto simp: placed_def)

lemma base_draft_ok:
  fixes env q pcard
  defines "T \<equiv> build_phase_templates (pa_category pcard) (pq_time_model q) (pq_experience q)"
  assumes req: "validate_request q = None" and sch: "schedule_plan env q T = Inr s"
  shows "draft_ok (base_draft env q pcard s) \<and> validate_plan (base_draft env q pcard s) = [] \<and>
    map ph_key (pd_phases (base_draft env q pcard s)) = map pt_key T"
proof -
  let ?d = "base_draft env q pcard s"
  obtain ranges st where r: "phase_ranges env q T = Inr ranges" and st: "s = ss_plan st" "sched_inv q ranges st"
    and a: "list_all2 (phase_for ranges) T (sd_phases s)"
    and rq: "map pk_id (sd_tasks s) = concat (map (\<lambda>t. required_ids q t (pt_tasks t)) T)"
    and ids: "distinct (concat (map (\<lambda>t. item_ids t (pt_tasks t)) T)) \<longrightarrow> distinct (map pk_id (sd_tasks s @ sd_optional s))"
    using sch by (rule schedule_plan_shape)
  have ok: "list_all template_ok T" "distinct (map pt_key T)" unfolding T_def by (rule built_ok distinct_built_keys)+
  note ph = phases_wellformed [OF a ok]
  have tl: "timeline_ok q (sd_phases s)" using phases_timeline r a unfolding T_def by blast
  have tm: "pq_time_model q \<in> set time_models" "pq_competition_id q \<noteq> []"
    using req by (auto simp: validate_request_def split: if_splits)
  have placed: "\<forall>t \<in> set (sd_tasks s @ sd_optional s). pk_phase_id t \<in> set (map ph_id (sd_phases s))"
    using st on_time_placed [OF _ a] ranges_keys r placed_phase unfolding sched_inv_def T_def by fastforce
  have dates: "(case (pd_event_end ?d, pd_target ?d) of (Some e, Some t) \<Rightarrow> e < t | _ \<Rightarrow> False) = False"
    "(case (pd_defense ?d, pd_target ?d) of (Some f, Some t) \<Rightarrow> f \<le> t | _ \<Rightarrow> False) = False"
  proof -
    show "(case (pd_event_end ?d, pd_target ?d) of (Some e, Some t) \<Rightarrow> e < t | _ \<Rightarrow> False) = False"
    proof (cases "pq_time_model q = ''submission_deadline''")
      case True
      then have "pq_event_end q = None" using req by (auto simp: validate_request_def split: if_splits)
      then show ?thesis by (simp add: base_draft_def)
    next
      case False
      obtain ev where "pq_target q \<le> ev" "ev = (case pq_event_end q of None \<Rightarrow> pq_target q | Some d \<Rightarrow> d)"
        by (rule window_ranges [OF r [unfolded T_def] False])
      then show ?thesis by (auto simp: base_draft_def split: option.splits)
    qed
    show "(case (pd_defense ?d, pd_target ?d) of (Some f, Some t) \<Rightarrow> f \<le> t | _ \<Rightarrow> False) = False"
    proof (cases "pq_time_model q = ''submission_deadline''")
      case True
      let ?de = "case pq_defense q of None \<Rightarrow> pq_target q + 14 | Some d \<Rightarrow> d"
      have m: "map_of ranges ''defense_prep'' = Some (pq_target q + 1, ?de)"
        by (rule submission_ranges [OF r [unfolded T_def] True]) simp
      have "''defense_prep'' \<in> set (map pt_key T)" unfolding T_def built_keys True by simp
      then obtain i where i: "i < length T" "pt_key (T ! i) = ''defense_prep''" by (auto simp: in_set_conv_nth)
      with a have "phase_for ranges (T ! i) (sd_phases s ! i)" by (simp add: list_all2_conv_all_nth)
      with i m have "pq_target q + 1 \<le> ?de" by (simp add: phase_for_def)
      with True show ?thesis by (simp add: base_draft_def)
    next
      case False
      then show ?thesis by (simp add: base_draft_def)
    qed
  qed
  have tasks: "sd_tasks s \<noteq> []" "\<forall>t \<in> set (sd_tasks s). pk_mandatory t"
  proof -
    have "T \<noteq> []" unfolding T_def
      by (rule built_shape [of "pa_category pcard" "pq_time_model q" "pq_experience q"]) simp
    then obtain t0 where "t0 \<in> set T" by (cases T) auto
    then have "template_ok t0" using ok(1) by (simp add: list_all_iff)
    from required_nonempty [OF this, of q] \<open>t0 \<in> set T\<close> rq show "sd_tasks s \<noteq> []" by auto
    show "\<forall>t \<in> set (sd_tasks s). pk_mandatory t" using st by (simp add: sched_inv_def)
  qed
  have "draft_ok ?d"
    using tm ph placed dates ids built_items_distinct unfolding T_def
    by (auto simp: draft_ok_def new_plan_draft_def Let_def base_draft_def plan_id_for_def list_ex_iff)
  moreover have "validate_plan ?d = []"
  proof -
    have "phase_by_key ?d ''defense_prep'' = None \<or>
        (\<exists>p. phase_by_key ?d ''defense_prep'' = Some p \<and> ph_start p = pq_target q + 1)"
      "phase_by_key ?d ''event_sprint'' = None \<or> (\<exists>p. phase_by_key ?d ''event_sprint'' = Some p \<and> ph_start p = pq_target q)"
      using tl by (intro phase_by_key_prop; simp add: base_draft_def timeline_ok_def)+
    moreover have "pq_time_model q = ''submission_deadline'' \<Longrightarrow> phase_by_key ?d ''defense_prep'' \<noteq> None"
      "pq_time_model q = ''competition_window'' \<Longrightarrow> phase_by_key ?d ''event_sprint'' \<noteq> None"
    proof -
      have find: "k \<in> set (map ph_key (sd_phases s)) \<Longrightarrow> phase_by_key ?d k \<noteq> None" for k
        by (auto simp: phase_by_key_def base_draft_def find_None_iff)
      show "pq_time_model q = ''submission_deadline'' \<Longrightarrow> phase_by_key ?d ''defense_prep'' \<noteq> None"
        using ph unfolding T_def built_keys by (intro find) simp
      show "pq_time_model q = ''competition_window'' \<Longrightarrow> phase_by_key ?d ''event_sprint'' \<noteq> None"
        using ph unfolding T_def built_keys by (intro find) simp
    qed
    ultimately show ?thesis using tasks
      by (auto simp: validate_plan_def base_draft_def list_ex_iff)
  qed
  ultimately show ?thesis using ph by (simp add: base_draft_def)
qed

end
