(* ===== verification/Dext_Plan_Generate.thy ===== *)
theory Dext_Plan_Generate
  imports Dext_Plan
begin

text \<open>
  The plan generator as a whole (\<open>dext_competition/planning/generator.py\<close>): the tasks a model
  adds never collide with the template's, the personalised draft passes every contract again, and
  \<open>generate\<close> returns a result for every request unless a phase key of the model's output is
  unhashable.
\<close>

section \<open>The checked output\<close>

definition extra_ok :: "extra_task list \<Rightarrow> bool" where
  "extra_ok xs = list_all (\<lambda>(title, hours). py_strip title \<noteq> [] \<and> 0 < hours) xs"

lemma personal_task_ok: "personal_task v = Some (title, hours) \<Longrightarrow> py_strip title \<noteq> [] \<and> 0 < hours"
  by (auto simp: personal_task_def py_strip_idem split: json.splits option.splits if_splits)

lemma all_some_personal: "all_some (map personal_task ts) = Some xs \<Longrightarrow> extra_ok xs"
proof (induction ts arbitrary: xs)
  case (Cons v ts)
  then obtain x ys where "personal_task v = Some x" "all_some (map personal_task ts) = Some ys" "xs = x # ys"
    by (cases "personal_task v") (auto split: option.splits)
  with Cons.IH show ?case by (cases x) (auto simp: extra_ok_def dest: personal_task_ok)
qed (simp add: extra_ok_def)

lemma personal_phase_some:
  "personal_phase known m v = Inr (Some (k, xs)) \<Longrightarrow> k \<in> set known \<and> extra_ok xs"
  by (auto simp: personal_phase_def Let_def extra_ok_def [of "[]"] dest: all_some_personal split: json.splits option.splits if_splits)

definition extras_ok :: "string list \<Rightarrow> (string, extra_task list) dict \<Rightarrow> bool" where
  "extras_ok known extra =
     (distinct (map fst extra) \<and> (\<forall>(k, xs) \<in> set extra. k \<in> set known \<and> extra_ok xs))"

lemma extras_ok_set: "extras_ok known acc \<Longrightarrow> k \<in> set known \<Longrightarrow> extra_ok xs \<Longrightarrow> extras_ok known (dict_set k xs acc)"
proof -
  assume a: "extras_ok known acc" "k \<in> set known" "extra_ok xs"
  have "map fst (dict_set k xs acc) = (if k \<in> fst ` set acc then map fst acc else map fst acc @ [k])"
    by (auto simp: dict_set_def)
  then have "distinct (map fst (dict_set k xs acc))" using a(1) by (simp add: extras_ok_def)
  moreover have "set (dict_set k xs acc) \<subseteq> insert (k, xs) (set acc)" by (auto simp: dict_set_def split: if_splits)
  ultimately show ?thesis using a unfolding extras_ok_def by fast
qed

lemma personal_phases_ok:
  "personal_phases known m vs acc = Inr (Some extra) \<Longrightarrow> extras_ok known acc \<Longrightarrow> extras_ok known extra"
proof (induction vs arbitrary: acc)
  case (Cons v vs)
  from Cons.prems(1) obtain k xs where "personal_phase known m v = Inr (Some (k, xs))"
    "personal_phases known m vs (dict_set k xs acc) = Inr (Some extra)"
    by (auto simp: res_bind_eq_Inr split: option.splits)
  with Cons.prems(2) Cons.IH show ?case using extras_ok_set personal_phase_some by blast
qed simp

lemma validated_extras_ok:
  "validate_personalization_output known m out = Inr (Some extra) \<Longrightarrow> extras_ok known extra"
  by (auto simp: validate_personalization_output_def extras_ok_def [of _ "[]"]
      split: json.splits if_splits option.splits intro: personal_phases_ok)

text \<open>Every phase of the output has a hashable key.\<close>

definition hashable_key :: "json \<Rightarrow> bool" where
  "hashable_key v = (case v of JDict d \<Rightarrow> (case map_of d ''key'' of None \<Rightarrow> True | Some k \<Rightarrow> hashable k) | _ \<Rightarrow> True)"

definition hashable_keys :: "json \<Rightarrow> bool" where
  "hashable_keys out =
     (case out of JDict d \<Rightarrow> (case map_of d ''phases'' of Some (JList vs) \<Rightarrow> list_all hashable_key vs | _ \<Rightarrow> True) | _ \<Rightarrow> True)"

lemma personal_phase_total: "hashable_key v \<Longrightarrow> \<exists>r. personal_phase known m v = Inr r"
  by (auto simp: personal_phase_def hashable_key_def Let_def hashable_def split: json.splits option.splits)

lemma personal_phases_total: "list_all hashable_key vs \<Longrightarrow> \<exists>r. personal_phases known m vs acc = Inr r"
proof (induction vs arbitrary: acc)
  case (Cons v vs)
  obtain r where r: "personal_phase known m v = Inr r"
    using personal_phase_total [of v known m] Cons.prems by auto
  show ?case
  proof (cases r)
    case None with r show ?thesis by simp
  next
    case (Some p) with r Cons show ?thesis by (cases p) simp
  qed
qed simp

lemma validate_output_total: "hashable_keys out \<Longrightarrow> \<exists>r. validate_personalization_output known m out = Inr r"
  by (auto simp: validate_personalization_output_def hashable_keys_def personal_phases_total
      split: json.splits option.splits)

section \<open>Task ids\<close>

lemma colon_split:
  assumes "u @ CHR '':'' # v = u' @ CHR '':'' # v'" "CHR '':'' \<notin> set u" "CHR '':'' \<notin> set u'"
  shows "u = u' \<and> v = v'"
proof -
  have "takeWhile (\<lambda>c. c \<noteq> CHR '':'') (u @ CHR '':'' # v) = u" "takeWhile (\<lambda>c. c \<noteq> CHR '':'') (u' @ CHR '':'' # v') = u'"
    using assms(2,3) by (auto simp: takeWhile_append)
  with assms(1) have "u = u'" by metis
  with assms(1) show ?thesis by simp
qed

definition ai_id :: "string \<Rightarrow> nat \<Rightarrow> string" where
  "ai_id k j = ''task:'' @ k @ '':ai:'' @ nat_str j"

lemma ai_id_inject:
  assumes "ai_id k i = ai_id k' j" "CHR '':'' \<notin> set k" "CHR '':'' \<notin> set k'"
  shows "k = k' \<and> i = j"
proof -
  from assms(1) have "k @ CHR '':'' # ''ai:'' @ nat_str i = k' @ CHR '':'' # ''ai:'' @ nat_str j"
    by (simp add: ai_id_def)
  from colon_split [OF this assms(2,3)] show ?thesis by simp
qed

definition colon_free :: "phase_template \<Rightarrow> bool" where
  "colon_free t = (CHR '':'' \<notin> set (pt_key t) \<and> list_all (\<lambda>i. CHR '':'' \<notin> set (tt_key i)) (pt_tasks t))"

lemma built_colon_free: "list_all colon_free (build_phase_templates cat tm e)"
  by (simp add: build_phase_templates_def phase_of_def task_of_def Let_def colon_free_def)

lemma item_id_not_ai:
  assumes "colon_free t" "x \<in> set (item_ids t (pt_tasks t))" "CHR '':'' \<notin> set k"
  shows "x \<noteq> ai_id k j"
proof
  assume eq: "x = ai_id k j"
  from assms(2) obtain i where "i \<in> set (pt_tasks t)" "x = task_id_of t i" by (auto simp: item_ids_def)
  with assms(1) have i: "CHR '':'' \<notin> set (tt_key i)" "x = ''task:'' @ pt_key t @ '':'' @ tt_key i"
    by (simp_all add: task_id_of_def colon_free_def list_all_iff)
  with eq have "pt_key t @ CHR '':'' # tt_key i = k @ CHR '':'' # ''ai:'' @ nat_str j" by (simp add: ai_id_def)
  from colon_split [OF this] assms i have "tt_key i = ''ai:'' @ nat_str j" by (simp add: colon_free_def)
  with i(1) show False by simp
qed

lemma schedule_phase_ids:
  assumes "schedule_phase q ranges t s = Inr s'"
  shows "set (plan_ids s') \<subseteq> set (plan_ids s) \<union> set (item_ids t (pt_tasks t))"
proof -
  from assms obtain sp s0 ph where f: "res_fold (schedule_item q t sp) (pt_tasks t) (s\<lparr>ss_ids := []\<rparr>) = Inr s0"
    and s': "s' = s0\<lparr>ss_plan := (ss_plan s0)\<lparr>sd_phases := sd_phases (ss_plan s0) @ [ph]\<rparr>\<rparr>"
    by (auto simp: schedule_phase_def Let_def res_bind_eq_Inr split: option.splits)
  have "plan_ids s' = plan_ids s0" "plan_ids (s\<lparr>ss_ids := []\<rparr>) = plan_ids s" by (simp_all add: plan_ids_def s')
  with schedule_items_ids [OF f] show ?thesis by simp
qed

lemma schedule_phases_ids:
  assumes "res_fold (schedule_phase q ranges) templates s = Inr s'"
  shows "set (plan_ids s') \<subseteq> set (plan_ids s) \<union> (\<Union>t \<in> set templates. set (item_ids t (pt_tasks t)))"
  using assms
proof (induction templates arbitrary: s)
  case (Cons t templates)
  then obtain s1 where s1: "schedule_phase q ranges t s = Inr s1" "res_fold (schedule_phase q ranges) templates s1 = Inr s'"
    by (auto simp: res_bind_eq_Inr)
  from schedule_phase_ids [OF s1(1)] Cons.IH [OF s1(2)] show ?case by auto
qed simp

lemma scheduled_ids_not_ai:
  assumes "schedule_plan env q T = Inr s" "list_all colon_free T" "CHR '':'' \<notin> set k"
  shows "ai_id k j \<notin> set (map pk_id (sd_tasks s @ sd_optional s))"
proof -
  from assms(1) obtain ranges st where f: "res_fold (schedule_phase q ranges) T empty_schedule = Inr st" and s: "s = ss_plan st"
    by (auto simp: schedule_plan_def res_bind_eq_Inr split: if_splits)
  have "plan_ids empty_schedule = []" by (simp add: empty_schedule_def plan_ids_def)
  with schedule_phases_ids [OF f]
  have "set (map pk_id (sd_tasks s @ sd_optional s)) \<subseteq> (\<Union>t \<in> set T. set (item_ids t (pt_tasks t)))"
    by (simp add: plan_ids_def s)
  moreover have "ai_id k j \<notin> (\<Union>t \<in> set T. set (item_ids t (pt_tasks t)))"
    using item_id_not_ai [OF _ _ assms(3)] assms(2) by (auto simp: list_all_iff)
  ultimately show ?thesis by blast
qed

section \<open>Additions\<close>

text \<open>\<open>added d blocked t\<close>: \<open>t\<close> is an optional task of a phase of \<open>d\<close>, due on a free day of it.\<close>

definition added :: "plan_draft \<Rightarrow> date list \<Rightarrow> plan_task \<Rightarrow> bool" where
  "added d blocked t = (\<not> pk_mandatory t \<and> placed blocked (pd_phases d) t)"

lemma extra_tasks_result:
  assumes "extra_ok xs" "ph_id phase \<noteq> []" "phase \<in> set (pd_phases d)"
    and due: "ph_start phase \<le> due" "due \<le> ph_end phase" "due \<notin> set blocked"
  shows "\<exists>r. extra_tasks phase due i xs budget used = Inr r \<and>
    (\<forall>ts u. r = Some (ts, u) \<longrightarrow>
       map pk_id ts = map (ai_id (ph_key phase)) [i..<i + length xs] \<and> list_all (added d blocked) ts \<and>
       u = used + (\<Sum>t \<leftarrow> ts. task_hours t) \<and> (used \<le> budget \<longrightarrow> u \<le> budget))"
  using assms(1)
proof (induction xs arbitrary: i used)
  case (Cons x xs)
  obtain title hours where x: "x = (title, hours)" by (cases x)
  show ?case
  proof (cases "used + hours > budget")
    case True
    then show ?thesis by (simp add: x)
  next
    case False
    let ?t = "\<lparr>pk_id = ai_id (ph_key phase) i, pk_phase_id = ph_id phase, pk_label = title,
           pk_mandatory = False, pk_estimated_weeks = None, pk_depends_on = [], pk_kind = ''optional'',
           pk_hours = Some hours, pk_start = Some (ph_start phase), pk_due = Some due\<rparr>"
    have new: "new_plan_task ?t = Inr ?t"
      using Cons.prems assms(2) due by (simp add: new_plan_task_def x extra_ok_def ai_id_def)
    have t: "added d blocked ?t" using assms(3) due by (auto simp: added_def placed_def)
    obtain r where r: "extra_tasks phase due (Suc i) xs budget (used + hours) = Inr r"
      "\<forall>ts u. r = Some (ts, u) \<longrightarrow>
         map pk_id ts = map (ai_id (ph_key phase)) [Suc i..<Suc i + length xs] \<and> list_all (added d blocked) ts \<and>
         u = used + hours + (\<Sum>t \<leftarrow> ts. task_hours t) \<and> (used + hours \<le> budget \<longrightarrow> u \<le> budget)"
      using Cons.IH [of "Suc i" "used + hours"] Cons.prems by (auto simp: extra_ok_def)
    have "extra_tasks phase due i (x # xs) budget used =
        Inr (case r of None \<Rightarrow> None | Some (ts, u) \<Rightarrow> Some (?t # ts, u))"
      using False new r(1) by (cases r) (auto simp: x ai_id_def)
    moreover have "[i..<i + length (x # xs)] = i # [Suc i..<Suc i + length xs]" by (simp add: upt_rec)
    ultimately show ?thesis using r(2) t False
      by (cases r) (auto simp: task_hours_def)
  qed
qed simp

definition additions_ok :: "plan_draft \<Rightarrow> date list \<Rightarrow> string list \<Rightarrow> plan_task list \<Rightarrow> bool" where
  "additions_ok d blocked keys ts =
     (list_all (added d blocked) ts \<and> distinct (map pk_id ts) \<and>
      (\<forall>t \<in> set ts. \<exists>k \<in> set keys. \<exists>j. pk_id t = ai_id k j))"

lemma additions_result:
  assumes "extras_ok (map ph_key (pd_phases d)) extra" "\<forall>p \<in> set (pd_phases d). ph_id p \<noteq> [] \<and> CHR '':'' \<notin> set (ph_key p)"
  shows "\<exists>r. additions d blocked extra budget used = Inr r \<and>
    (\<forall>ts. r = Some ts \<longrightarrow> additions_ok d blocked (map fst extra) ts \<and>
       (used \<le> budget \<longrightarrow> used + (\<Sum>t \<leftarrow> ts. task_hours t) \<le> budget))"
  using assms(1)
proof (induction extra arbitrary: used)
  case Nil
  then show ?case by (simp add: additions_ok_def)
next
  case (Cons kx rest)
  obtain k xs where kx: "kx = (k, xs)" by (cases kx)
  from Cons.prems have k: "k \<in> set (map ph_key (pd_phases d))" "extra_ok xs" "k \<notin> set (map fst rest)"
    and rest: "extras_ok (map ph_key (pd_phases d)) rest"
    by (auto simp: extras_ok_def kx)
  from k(1) obtain phase where f: "phase_by_key d k = Some phase"
    by (cases "phase_by_key d k") (auto simp: phase_by_key_def find_None_iff)
  then have p: "phase \<in> set (pd_phases d)" "ph_key phase = k"
    by (auto simp: phase_by_key_def find_Some_iff) (metis length_rev nth_mem set_rev)
  show ?case
  proof (cases "available_due_date (ph_start phase) (ph_end phase) blocked")
    case None
    with f kx Cons.IH [OF rest, of used] show ?thesis by (auto simp: additions_ok_def)
  next
    case (Some due)
    from available_due_date_some [OF this]
    have due: "ph_start phase \<le> due" "due \<le> ph_end phase" "due \<notin> set blocked" by auto
    obtain r where r: "extra_tasks phase due 0 xs budget used = Inr r"
      "\<forall>ts u. r = Some (ts, u) \<longrightarrow>
         map pk_id ts = map (ai_id k) [0..<length xs] \<and> list_all (added d blocked) ts \<and>
         u = used + (\<Sum>t \<leftarrow> ts. task_hours t) \<and> (used \<le> budget \<longrightarrow> u \<le> budget)"
      using extra_tasks_result [OF k(2) _ p(1) due, of 0 budget used] assms(2) p by auto
    show ?thesis
    proof (cases r)
      case None
      with r(1) f kx Some show ?thesis by simp
    next
      case (Some tu)
      obtain ts u where tu: "tu = (ts, u)" by (cases tu)
      note first = r(2) [rule_format, OF Some [unfolded tu]]
      obtain r' where r': "additions d blocked rest budget u = Inr r'"
        "\<forall>ts. r' = Some ts \<longrightarrow> additions_ok d blocked (map fst rest) ts \<and>
           (u \<le> budget \<longrightarrow> u + (\<Sum>t \<leftarrow> ts. task_hours t) \<le> budget)"
        using Cons.IH [OF rest, of u] by blast
      have eq: "additions d blocked (kx # rest) budget used = Inr (case r' of None \<Rightarrow> None | Some ts' \<Rightarrow> Some (ts @ ts'))"
        using r(1) r'(1) f kx Some tu \<open>available_due_date (ph_start phase) (ph_end phase) blocked = Some due\<close> by simp
      have "additions_ok d blocked (map fst (kx # rest)) (ts @ ts') \<and>
          (used \<le> budget \<longrightarrow> used + (\<Sum>t \<leftarrow> ts @ ts'. task_hours t) \<le> budget)" if "r' = Some ts'" for ts'
      proof -
        note second = r'(2) [rule_format, OF that]
        have keys: "\<forall>k' \<in> set (map fst rest). CHR '':'' \<notin> set k'" "CHR '':'' \<notin> set k"
          using rest assms(2) p by (auto simp: extras_ok_def)
        have ids: "set (map pk_id ts) \<subseteq> range (ai_id k)" using first by auto
        have "distinct (map pk_id ts)" using first keys(2)
          by (simp add: distinct_map inj_on_def del: map_map) (metis ai_id_inject)
        moreover have "set (map pk_id ts) \<inter> set (map pk_id ts') = {}"
        proof -
          have "k \<in> set (map fst rest)" if "y \<in> range (ai_id k)" "y \<in> set (map pk_id ts')" for y
          proof -
            from that(2) second obtain k' j where k': "k' \<in> set (map fst rest)" "y = ai_id k' j"
              unfolding additions_ok_def by (metis (no_types, lifting) image_iff list.set_map)
            from that(1) obtain i where "y = ai_id k i" by blast
            with k' keys show ?thesis using ai_id_inject by blast
          qed
          with ids k(3) show ?thesis by blast
        qed
        moreover have "\<forall>t \<in> set ts. \<exists>j. pk_id t = ai_id k j" using ids by auto
        ultimately have "additions_ok d blocked (map fst (kx # rest)) (ts @ ts')"
          using first second by (auto simp: additions_ok_def kx)
        moreover have "used \<le> budget \<longrightarrow> used + (\<Sum>t \<leftarrow> ts @ ts'. task_hours t) \<le> budget"
          using first second by (auto simp: add.assoc)
        ultimately show ?thesis ..
      qed
      with eq show ?thesis by (auto split: option.splits)
    qed
  qed
qed

section \<open>The personalised draft\<close>

lemma res_fold_snoc:
  assumes "\<forall>x \<in> set xs. f x = Inr (g x)"
  shows "res_fold (\<lambda>x acc. res_bind (f x) (\<lambda>y. Inr (acc @ [y]))) xs acc = Inr (acc @ map g xs)"
  using assms by (induction xs arbitrary: acc) auto

definition extended :: "plan_task list \<Rightarrow> plan_phase \<Rightarrow> plan_phase" where
  "extended ts p = p\<lparr>ph_task_ids := ph_task_ids p @ map pk_id (filter (\<lambda>t. pk_phase_id t = ph_id p) ts)\<rparr>"

lemma extended_simps [simp]:
  "ph_id (extended ts p) = ph_id p" "ph_key (extended ts p) = ph_key p" "ph_label (extended ts p) = ph_label p"
  "ph_start (extended ts p) = ph_start p" "ph_end (extended ts p) = ph_end p"
  by (simp_all add: extended_def)

lemma extended_contract: "new_plan_phase p = Inr p \<Longrightarrow> new_plan_phase (extended ts p) = Inr (extended ts p)"
  by (auto simp: new_plan_phase_def split: if_splits)

lemma placed_extended: "placed blocked (map (extended ts) ps) t = placed blocked ps t"
  by (simp add: placed_def)

definition extend_draft :: "plan_draft \<Rightarrow> plan_task list \<Rightarrow> plan_draft" where
  "extend_draft d ts = d\<lparr>pd_phases := map (extended ts) (pd_phases d), pd_optional := pd_optional d @ ts\<rparr>"

lemma extend_draft_fields [simp]:
  "pd_phases (extend_draft d ts) = map (extended ts) (pd_phases d)" "pd_tasks (extend_draft d ts) = pd_tasks d"
  "pd_optional (extend_draft d ts) = pd_optional d @ ts" "pd_warnings (extend_draft d ts) = pd_warnings d"
  "pd_time_model (extend_draft d ts) = pd_time_model d" "pd_target (extend_draft d ts) = pd_target d"
  by (simp_all add: extend_draft_def)

lemma phase_by_key_extend: "phase_by_key (extend_draft d ts) k = map_option (extended ts) (phase_by_key d k)"
proof -
  have "find (\<lambda>p. ph_key p = k) (map (extended ts) xs) = map_option (extended ts) (find (\<lambda>p. ph_key p = k) xs)" for xs
    by (induction xs) simp_all
  then show ?thesis by (simp add: phase_by_key_def rev_map)
qed

lemma validate_extend: "validate_plan (extend_draft d ts) = validate_plan d"
  by (simp add: validate_plan_def phase_by_key_extend option.case_eq_if option.map_sel)

lemma with_additions_ok:
  assumes ok: "draft_ok d" and ts: "additions_ok d blocked keys ts"
    and fresh: "\<forall>k \<in> set keys. \<forall>j. ai_id k j \<notin> set (map pk_id (pd_tasks d @ pd_optional d))"
  shows "with_additions d ts = Inr (extend_draft d ts) \<and> draft_ok (extend_draft d ts)"
proof -
  have ph: "\<forall>p \<in> set (pd_phases d). new_plan_phase (extended ts p) = Inr (extended ts p)"
    using ok extended_contract by (simp add: draft_ok_def)
  have "with_additions d ts = new_plan_draft (extend_draft d ts)"
    using res_fold_snoc [OF ph, of "[]"] by (simp add: with_additions_def extended_def [symmetric] extend_draft_def)
  moreover have "new_plan_draft (extend_draft d ts) = Inr (extend_draft d ts)"
  proof -
    have base: "new_plan_draft d = Inr d" using ok by (simp add: draft_ok_def)
    have ids: "distinct (map pk_id (pd_tasks d @ pd_optional d @ ts))"
    proof -
      have "distinct (map pk_id (pd_tasks d @ pd_optional d))" using base
        by (simp add: new_plan_draft_def Let_def split: if_splits)
      moreover have "set (map pk_id (pd_tasks d @ pd_optional d)) \<inter> set (map pk_id ts) = {}"
      proof -
        have "pk_id t \<notin> set (map pk_id (pd_tasks d @ pd_optional d))" if "t \<in> set ts" for t
          using fresh ts that unfolding additions_ok_def by (metis (no_types, lifting))
        then show ?thesis by auto
      qed
      ultimately show ?thesis using ts unfolding additions_ok_def by auto
    qed
    have "\<forall>t \<in> set ts. pk_phase_id t \<in> set (map ph_id (pd_phases d))"
      using ts placed_phase by (auto simp: additions_ok_def added_def list_all_iff)
    with base ids show ?thesis
      by (auto simp: new_plan_draft_def Let_def extend_draft_def list_ex_iff comp_def split: if_splits)
  qed
  ultimately show ?thesis using ph by (simp add: draft_ok_def)
qed

text \<open>What the generator promises of a draft for a category: the contracts hold, the phases are the
  timeline of the request, the required tasks are the eligible required template tasks in order,
  every task is due on a free day of its phase, and the optional hours fit the budget.\<close>

definition plan_ok :: "string \<Rightarrow> plan_request \<Rightarrow> plan_draft \<Rightarrow> bool" where
  "plan_ok cat q d =
     (draft_ok d \<and> validate_plan d = [] \<and> timeline_ok q (pd_phases d) \<and>
      map pk_id (pd_tasks d) = concat (map (\<lambda>t. required_ids q t (pt_tasks t))
        (build_phase_templates cat (pq_time_model q) (pq_experience q))) \<and>
      (\<forall>t \<in> set (pd_tasks d). pk_mandatory t \<and> placed (blocked_dates q) (pd_phases d) t) \<and>
      (\<forall>t \<in> set (pd_optional d). \<not> pk_mandatory t \<and> placed (blocked_dates q) (pd_phases d) t) \<and>
      (\<Sum>t \<leftarrow> pd_optional d. task_hours t) \<le> optional_budget q)"

definition answer_hashable :: "pipeline_answer \<Rightarrow> bool" where
  "answer_hashable a = (case a of Generated _ out \<Rightarrow> hashable_keys out | _ \<Rightarrow> True)"

lemma timeline_extended: "timeline_ok q (map (extended ts) ps) = timeline_ok q ps"
  by (simp add: timeline_ok_def spans_def filter_map comp_def list.pred_map)

lemma plan_ok_extend:
  assumes ok: "plan_ok cat q d" and ts: "additions_ok d (blocked_dates q) keys ts"
    and d': "draft_ok (extend_draft d ts)"
    and hours: "(\<Sum>t \<leftarrow> pd_optional d. task_hours t) + (\<Sum>t \<leftarrow> ts. task_hours t) \<le> optional_budget q"
  shows "plan_ok cat q (extend_draft d ts)"
  using ok ts d' hours
  by (auto simp: plan_ok_def validate_extend placed_extended timeline_extended additions_ok_def added_def list_all_iff)

lemma plan_ok_draft: "plan_ok cat q d \<Longrightarrow> draft_ok d"
  by (simp add: plan_ok_def)

text \<open>\<open>personalize\<close> returns the draft it was given with a warning, or the draft extended by optional tasks.\<close>

lemma personalize_result:
  assumes ok: "plan_ok cat q d" and hash: "answer_hashable answer" and weekly: "0 < pq_weekly_hours q"
    and keys: "\<forall>p \<in> set (pd_phases d). CHR '':'' \<notin> set (ph_key p)"
    and fresh: "\<forall>k j. CHR '':'' \<notin> set k \<longrightarrow> ai_id k j \<notin> set (map pk_id (pd_tasks d @ pd_optional d))"
  shows "(\<exists>m. personalize q d answer profile = Inr (d, [fallback_warning m])) \<or>
    (\<exists>ts. personalize q d answer profile = Inr (extend_draft d ts, []) \<and> plan_ok cat q (extend_draft d ts))"
proof (cases "\<exists>out prof. answer = Generated False out \<and> profile = Some prof")
  case False
  then show ?thesis by (cases answer; cases profile) (auto simp: personalize_def)
next
  case True
  then obtain out prof where ans: "answer = Generated False out" "profile = Some prof" by blast
  let ?known = "map ph_key (pd_phases d)"
  let ?b = "of_int (pq_weekly_hours q) * max 1 (of_int (pq_target q - pq_today q) / 7)"
  have b: "optional_budget q = ?b" using weekly by (simp add: optional_budget_def max_def)
  have used: "used_optional_hours d = (\<Sum>t \<leftarrow> pd_optional d. task_hours t)"
    by (simp add: used_optional_hours_def task_hours_def)
  from hash ans obtain r where r: "validate_personalization_output ?known (pp_max_tasks prof) out = Inr r"
    using validate_output_total [of out ?known "pp_max_tasks prof"] by (auto simp: answer_hashable_def)
  show ?thesis
  proof (cases r)
    case None
    with r ans show ?thesis by (auto simp: personalize_def)
  next
    case (Some extra)
    with r have ex: "extras_ok ?known extra" using validated_extras_ok by blast
    have ids: "\<forall>p \<in> set (pd_phases d). ph_id p \<noteq> [] \<and> CHR '':'' \<notin> set (ph_key p)"
      using keys ok by (auto simp: plan_ok_def draft_ok_def new_plan_phase_def split: if_splits)
    obtain a where a: "additions d (blocked_dates q) extra ?b (used_optional_hours d) = Inr a"
      "\<forall>ts. a = Some ts \<longrightarrow> additions_ok d (blocked_dates q) (map fst extra) ts \<and>
         (used_optional_hours d \<le> ?b \<longrightarrow> used_optional_hours d + (\<Sum>t \<leftarrow> ts. task_hours t) \<le> ?b)"
      using additions_result [OF ex ids] by blast
    show ?thesis
    proof (cases a)
      case None
      with a r Some ans show ?thesis by (auto simp: personalize_def)
    next
      case (Some ts)
      with a(2) have ts: "additions_ok d (blocked_dates q) (map fst extra) ts"
        and h: "used_optional_hours d \<le> ?b \<longrightarrow> used_optional_hours d + (\<Sum>t \<leftarrow> ts. task_hours t) \<le> ?b" by auto
      have "\<forall>k \<in> set (map fst extra). CHR '':'' \<notin> set k" using ex keys by (auto simp: extras_ok_def)
      then have w: "with_additions d ts = Inr (extend_draft d ts)" "draft_ok (extend_draft d ts)"
        using with_additions_ok [OF _ ts] plan_ok_draft [OF ok] fresh by blast+
      have "plan_ok cat q (extend_draft d ts)"
        using plan_ok_extend [OF ok ts w(2)] h ok by (simp add: plan_ok_def used b)
      moreover have "personalize q d answer profile = Inr (extend_draft d ts, [])"
        using a(1) r \<open>r = Some extra\<close> Some ans w(1) by (simp add: personalize_def)
      ultimately show ?thesis by blast
    qed
  qed
qed

section \<open>generate\<close>

lemma base_plan_ok:
  fixes env q pcard
  defines "T \<equiv> build_phase_templates (pa_category pcard) (pq_time_model q) (pq_experience q)"
  assumes req: "validate_request q = None" and sch: "schedule_plan env q T = Inr s"
  shows "plan_ok (pa_category pcard) q (base_draft env q pcard s) \<and>
    (\<forall>p \<in> set (pd_phases (base_draft env q pcard s)). CHR '':'' \<notin> set (ph_key p)) \<and>
    (\<forall>k j. CHR '':'' \<notin> set k \<longrightarrow>
       ai_id k j \<notin> set (map pk_id (pd_tasks (base_draft env q pcard s) @ pd_optional (base_draft env q pcard s))))"
proof -
  let ?d = "base_draft env q pcard s"
  have fields: "pd_phases ?d = sd_phases s" "pd_tasks ?d = sd_tasks s" "pd_optional ?d = sd_optional s"
    by (simp_all add: base_draft_def)
  note draft = base_draft_ok [OF req sch [unfolded T_def]] and sound = schedule_sound [OF sch [unfolded T_def]]
  have free: "list_all colon_free T" unfolding T_def by (rule built_colon_free)
  have "plan_ok (pa_category pcard) q ?d" using draft sound by (simp add: plan_ok_def fields)
  moreover have "\<forall>k \<in> set (map ph_key (sd_phases s)). CHR '':'' \<notin> set k"
    using sound free unfolding T_def [symmetric] by (auto simp: colon_free_def list_all_iff)
  ultimately show ?thesis using scheduled_ids_not_ai [OF sch free] by (simp add: fields)
qed

lemma warnings_not_fatal: "\<not> list_ex (\<lambda>i. ce_severity i = Sev_error) (schedule_warnings q s)"
  by (simp add: schedule_warnings_def issue_def)

lemma draft_warnings:
  "new_plan_draft d = Inr d \<Longrightarrow> new_plan_draft (d\<lparr>pd_warnings := w\<rparr>) = Inr (d\<lparr>pd_warnings := w\<rparr>)"
  "validate_plan (d\<lparr>pd_warnings := w\<rparr>) = validate_plan d"
  by (simp add: new_plan_draft_def Let_def split: if_splits) (simp add: validate_plan_def phase_by_key_def cong: option.case_cong)

lemma plan_ok_warnings: "plan_ok cat q d \<Longrightarrow> plan_ok cat q (d\<lparr>pd_warnings := w\<rparr>) \<and>
    new_plan_draft (d\<lparr>pd_warnings := w\<rparr>) = Inr (d\<lparr>pd_warnings := w\<rparr>)"
  by (simp add: plan_ok_def draft_ok_def draft_warnings)

definition version_ok :: "plan_profile option \<Rightarrow> bool" where
  "version_ok profile = (case profile of None \<Rightarrow> True | Some pr \<Rightarrow> pp_version pr \<noteq> [])"

lemma generate_scheduled:
  fixes env q pcard
  defines "T \<equiv> build_phase_templates (pa_category pcard) (pq_time_model q) (pq_experience q)"
  assumes hash: "answer_hashable answer" and version: "version_ok profile"
    and req: "validate_request q = None" and sch: "schedule_plan env q T = Inr s"
  shows "\<exists>r d. generate_plan env q (Some pcard) answer profile = Inr r \<and> pl_draft r = Some d \<and>
    plan_ok (pa_category pcard) q d \<and> pd_warnings d = pl_issues r"
proof -
  note sch = sch [unfolded T_def]
  let ?d = "base_draft env q pcard s"
  let ?w = "schedule_warnings q s"
  note base = base_plan_ok [OF req sch]
  have d: "new_plan_draft ?d = Inr ?d" "validate_plan ?d = []" "pd_warnings ?d = ?w"
    using base by (simp_all add: plan_ok_def draft_ok_def) (simp add: base_draft_def)
  have weekly: "0 < pq_weekly_hours q" using req by (auto simp: validate_request_def split: if_splits)
  have ver: "(case profile of None \<Rightarrow> default_profile_version | Some pr \<Rightarrow> pp_version pr) \<noteq> []"
    using version by (simp add: version_ok_def default_profile_version_def split: option.splits)
  from personalize_result [OF _ hash weekly, of "pa_category pcard" ?d profile] base
  consider m where "personalize q ?d answer profile = Inr (?d, [fallback_warning m])"
    | ts where "personalize q ?d answer profile = Inr (extend_draft ?d ts, [])" "plan_ok (pa_category pcard) q (extend_draft ?d ts)"
    by blast
  then show ?thesis
  proof cases
    case 1
    let ?d' = "?d\<lparr>pd_warnings := ?w @ [fallback_warning m]\<rparr>"
    have d': "plan_ok (pa_category pcard) q ?d'" "new_plan_draft ?d' = Inr ?d'"
      using plan_ok_warnings base by blast+
    have "\<not> list_ex (\<lambda>i. ce_severity i = Sev_error) (?w @ [fallback_warning m])"
      by (simp add: warnings_not_fatal fallback_warning_def issue_def)
    with 1 req sch d(1,2) ver d' show ?thesis
      by (simp add: generate_plan_def new_plan_result_def Let_def)
  next
    case 2
    with req sch d ver show ?thesis
      by (simp add: generate_plan_def new_plan_result_def warnings_not_fatal)
  qed
qed


section \<open>A sample request\<close>

definition sample_env :: plan_env where
  "sample_env = \<lparr>pv_iso = int_str, pv_uuid5 = id, pv_share = (\<lambda>n w tw. \<lfloor>of_int n * w / tw + 1 / 2\<rfloor>)\<rparr>"

definition sample_request :: plan_request where
  "sample_request =
     \<lparr>pq_competition_id = ''c1'', pq_today = 0, pq_target = 39, pq_weekly_hours = 10, pq_experience = ''beginner'',
      pq_time_model = ''submission_deadline'', pq_event_end = None, pq_defense = None,
      pq_constraints = \<lparr>pc_exam_dates = [39, 38], pc_unavailable_dates = [], pc_team_status = None, pc_school_deadline = None\<rparr>\<rparr>"

definition sample_card :: plan_card where
  "sample_card = \<lparr>pa_category = ''x'', pa_risk_flags = [], pa_refs = []\<rparr>"

definition sample_profile :: plan_profile where
  "sample_profile = \<lparr>pp_version = ''v1'', pp_max_tasks = 2\<rparr>"

definition sample_answer :: pipeline_answer where
  "sample_answer = Generated False (JDict [(''phases'', JList [JDict [(''key'', JStr ''practice''),
     (''optional_tasks'', JList [JDict [(''title'', JStr '' drill ''), (''estimated_hours'', JInt 2)]])]])])"


text \<open>
  The hypothesis on the model's output is needed: whenever a schedule exists, an output whose
  first phase has a list or an object as its key makes \<open>generate\<close> raise the \<open>TypeError\<close> of the
  set lookup instead of falling back to the template.
\<close>

theorem unhashable_key_escapes:
  assumes "validate_request q = None"
    and "schedule_plan env q (build_phase_templates (pa_category pcard) (pq_time_model q) (pq_experience q)) = Inr s"
    and "\<not> hashable v"
  shows "generate_plan env q (Some pcard) (Generated False (JDict [(''phases'', JList (JDict [(''key'', v)] # vs))])) (Some prof)
    = Inl Unhashable"
proof -
  let ?d = "base_draft env q pcard s"
  have d: "new_plan_draft ?d = Inr ?d" "validate_plan ?d = []"
    using base_plan_ok [OF assms(1,2)] by (simp_all add: plan_ok_def draft_ok_def)
  have "validate_personalization_output known m (JDict [(''phases'', JList (JDict [(''key'', v)] # vs))]) = Inl Unhashable" for known m
    using assms(3) by (simp add: validate_personalization_output_def keys_within_def personal_phase_def)
  then have "personalize q ?d (Generated False (JDict [(''phases'', JList (JDict [(''key'', v)] # vs))])) (Some prof) = Inl Unhashable"
    by (simp add: personalize_def)
  with assms d show ?thesis by (simp add: generate_plan_def)
qed

theorem unhashable_key_escapes_witness:
  "generate_plan sample_env sample_request (Some sample_card)
     (Generated False (JDict [(''phases'', JList (JDict [(''key'', JList [])] # []))])) (Some sample_profile) = Inl Unhashable"
proof -
  have "validate_request sample_request = None" by code_simp
  moreover have "\<not> hashable (JList [])" by code_simp
  moreover have "(case schedule_plan sample_env sample_request
      (build_phase_templates (pa_category sample_card) (pq_time_model sample_request) (pq_experience sample_request)) of
      Inl _ \<Rightarrow> False | Inr _ \<Rightarrow> True)" by code_simp
  ultimately show ?thesis by (auto intro: unhashable_key_escapes split: sum.splits)
qed

text \<open>
  Of the ten categories a catalog card can have, five have no tasks of their own: their labels
  do not occur among the keys of the task table, so they get the generic tasks, while four
  entries of the table belong to no category.
\<close>

theorem category_tables_disagree:
  "filter (\<lambda>c. map_of category_tasks c = None) competition_categories = map (nth competition_categories) [1, 2, 4, 5, 7] \<and>
   filter (\<lambda>k. k \<notin> set competition_categories) (map fst category_tasks) = map (nth (map fst category_tasks)) [1, 3, 7, 8]"
  by code_simp

end
