(* ===== verification/Dext_Assistant.thy ===== *)
theory Dext_Assistant
  imports Dext_Plan
begin

text \<open>
  The preparation-plan assistant of \<open>src/src/dext_competition\<close>: its contracts
  (\<open>contracts/assistant.py\<close>), the parsing of the model's output into change cards
  (\<open>assistant/change_cards.py\<close>), the validation of the cards against the plan
  (\<open>assistant/validation.py\<close>) and the service (\<open>assistant/service.py\<close>).

  \<open>date.fromisoformat\<close>, the knowledge index and the generation pipeline are arguments. The
  pipeline is a function of the fact bundle that may fail; \<open>Dext_Grounded.generate\<close> is an instance.
\<close>

section \<open>Contracts (contracts/assistant.py)\<close>

definition change_card_types :: "string list" where
  "change_card_types = [''move_task'', ''add_task'', ''delete_task'', ''reschedule_phase'', ''append_advice'']"

definition rejection_codes :: "string list" where
  "rejection_codes =
     [''missing_required_fields'', ''target_task_not_found'', ''target_phase_not_found'', ''completed_task_protected'',
      ''date_out_of_range'', ''invalid_add_task_fields'', ''required_task_delete_forbidden'', ''phase_schedule_invalid'',
      ''invalid_advice_fields'']"

definition validation_statuses :: "string list" where
  "validation_statuses = [''pending'', ''passed'', ''rejected'']"

definition approval_statuses :: "string list" where
  "approval_statuses = [''pending'', ''accepted'', ''declined'']"

definition application_statuses :: "string list" where
  "application_statuses = [''not_applied'', ''applied'', ''failed'']"

definition collapse_change_card_status :: "string \<Rightarrow> string \<Rightarrow> string \<Rightarrow> string" where
  "collapse_change_card_status validation approval application =
     (if validation = ''rejected'' then ''rejected''
      else if validation = ''pending'' then ''pending''
      else if approval = ''declined'' then ''declined''
      else if approval \<noteq> ''accepted'' then ''pending''
      else if application = ''applied'' then ''applied''
      else if application = ''failed'' then ''stale''
      else ''pending'')"

record new_task_draft =
  nt_title :: string
  nt_hours :: int
  nt_due :: date
  nt_note :: "string option"

definition make_new_task :: "new_task_draft \<Rightarrow> (plan_error, new_task_draft) result" where
  "make_new_task t =
     (if py_strip (nt_title t) = [] then Inl (Invalid_value ''new task title must be non-empty'')
      else if \<not> (1 \<le> nt_hours t \<and> nt_hours t \<le> 200) then
        Inl (Invalid_value ''estimated_hours must be an integer in [1, 200]'')
      else Inr (t\<lparr>nt_title := py_strip (nt_title t),
                  nt_note := (case nt_note t of None \<Rightarrow> None
                    | Some n \<Rightarrow> if py_strip n = [] then None else Some (py_strip n))\<rparr>))"

record phase_schedule_draft =
  pj_key :: string
  pj_start :: date
  pj_end :: date

definition make_phase_schedule :: "phase_schedule_draft \<Rightarrow> (plan_error, phase_schedule_draft) result" where
  "make_phase_schedule p =
     (if py_strip (pj_key p) = [] then Inl (Invalid_value ''phase_key must be non-empty'')
      else if pj_start p > pj_end p then Inl (Invalid_value ''phase schedule start_date must not be after end_date'')
      else Inr (p\<lparr>pj_key := py_strip (pj_key p)\<rparr>))"

record change_card =
  cc_id :: string
  cc_type :: string
  cc_summary :: string
  cc_rationale :: string
  cc_task :: "string option"
  cc_phase :: "string option"
  cc_date :: "date option"
  cc_new_task :: "new_task_draft option"
  cc_schedule :: "phase_schedule_draft list"
  cc_advice :: "string option"
  cc_refs :: "source_ref list"
  cc_validation :: string
  cc_approval :: string
  cc_application :: string
  cc_code :: "string option"
  cc_reason :: "string option"
  cc_status :: string

definition new_change_card :: "change_card \<Rightarrow> (plan_error, change_card) result" where
  "new_change_card c =
     (if py_strip (cc_id c) = [] then Inl (Invalid_value ''change card id must be non-empty'')
      else if cc_type c \<notin> set change_card_types then Inl (Invalid_value (''unsupported change card type: '' @ cc_type c))
      else if py_strip (cc_summary c) = [] then Inl (Invalid_value ''change card summary must be non-empty'')
      else if cc_validation c \<notin> set validation_statuses then
        Inl (Invalid_value (''unsupported validation_status: '' @ cc_validation c))
      else if cc_approval c \<notin> set approval_statuses then
        Inl (Invalid_value (''unsupported approval_status: '' @ cc_approval c))
      else if cc_application c \<notin> set application_statuses then
        Inl (Invalid_value (''unsupported application_status: '' @ cc_application c))
      else if (case cc_code c of None \<Rightarrow> False | Some code \<Rightarrow> code \<notin> set rejection_codes) then
        Inl (Invalid_value (''unsupported rejection_code: '' @ (case cc_code c of None \<Rightarrow> '''' | Some code \<Rightarrow> code)))
      else Inr (c\<lparr>cc_id := py_strip (cc_id c), cc_summary := py_strip (cc_summary c),
                  cc_rationale := py_strip (cc_rationale c),
                  cc_status := collapse_change_card_status (cc_validation c) (cc_approval c) (cc_application c)\<rparr>))"

record change_set =
  cs_id :: string
  cs_base_revision :: int
  cs_cards :: "change_card list"

definition new_change_set :: "change_set \<Rightarrow> (plan_error, change_set) result" where
  "new_change_set s =
     (if py_strip (cs_id s) = [] then Inl (Invalid_value ''change set id must be non-empty'')
      else if cs_base_revision s < 0 then Inl (Invalid_value ''base_plan_revision must be a non-negative integer'')
      else if length (cs_cards s) > 5 then Inl (Invalid_value ''change set cards must contain at most 5 cards'')
      else Inr s)"

record assistant_request =
  ar_today :: date
  ar_base_revision :: int
  ar_plan :: plan_draft
  ar_message :: string
  ar_request_id :: string

definition new_assistant_request :: "assistant_request \<Rightarrow> (plan_error, assistant_request) result" where
  "new_assistant_request q =
     (if ar_base_revision q < 0 then Inl (Invalid_value ''base_plan_revision must be a non-negative integer'')
      else if py_strip (ar_message q) = [] then Inl (Invalid_value ''user_message must be non-empty'')
      else if py_strip (ar_request_id q) = [] then Inl (Invalid_value ''request_id must be non-empty'')
      else Inr (q\<lparr>ar_message := py_strip (ar_message q), ar_request_id := py_strip (ar_request_id q)\<rparr>))"

record assistant_result =
  az_reply :: string
  az_change_set :: change_set
  az_request_id :: string

definition new_assistant_result :: "assistant_result \<Rightarrow> (plan_error, assistant_result) result" where
  "new_assistant_result r =
     (if py_strip (az_request_id r) = [] then Inl (Invalid_value ''request_id must be non-empty'') else Inr r)"

record service_result =
  sv_result :: "assistant_result option"
  sv_issues :: "competition_error list"
  sv_profile_version :: string
  sv_fact_count :: "nat option"
  sv_ref_count :: "nat option"

definition new_service_result :: "service_result \<Rightarrow> (plan_error, service_result) result" where
  "new_service_result r =
     (let has_fatal = list_ex (\<lambda>i. ce_severity i = Sev_error) (sv_issues r)
      in if sv_profile_version r = [] then Inl (Invalid_value ''generation_profile_version must be non-empty'')
         else if has_fatal \<and> sv_result r \<noteq> None then Inl (Invalid_value ''fatal assistant issues require result=None'')
         else if \<not> has_fatal \<and> sv_result r = None then Inl (Invalid_value ''successful assistant result requires a payload'')
         else Inr r)"

text \<open>The profile (\<open>assistant/profile.py\<close>); \<open>ap_schema_closed\<close> is whether the schema sets
  \<open>additionalProperties\<close> to \<open>False\<close>.\<close>

record assistant_profile =
  ap_version :: string
  ap_safety_domain :: string
  ap_operation_id :: string
  ap_prompt_id :: string
  ap_timeout :: rat
  ap_max_cards :: int
  ap_schema_closed :: bool

definition new_assistant_profile :: "assistant_profile \<Rightarrow> (plan_error, assistant_profile) result" where
  "new_assistant_profile p =
     (if ap_version p = [] \<or> ap_safety_domain p = [] \<or> ap_operation_id p = [] \<or> ap_prompt_id p = [] then
        Inl (Invalid_value ''assistant generation profile identifiers must be non-empty'')
      else if ap_timeout p \<le> 0 \<or> \<not> (0 \<le> ap_max_cards p \<and> ap_max_cards p \<le> 5) then
        Inl (Invalid_value ''invalid assistant generation profile limits'')
      else if \<not> ap_schema_closed p then Inl (Invalid_value ''assistant generation schema must be closed'')
      else Inr p)"

section \<open>Parsing (assistant/change_cards.py)\<close>

type_synonym iso_parser = "string \<Rightarrow> date option"

definition dget :: "metadata \<Rightarrow> string \<Rightarrow> json" where
  "dget d k = (case map_of d k of None \<Rightarrow> JNull | Some v \<Rightarrow> v)"

definition parse_date :: "iso_parser \<Rightarrow> json \<Rightarrow> date option" where
  "parse_date fromiso v = (case v of JStr s \<Rightarrow> if s = [] then None else fromiso s | _ \<Rightarrow> None)"

definition string_of :: "json \<Rightarrow> string" where
  "string_of v = (case v of JStr s \<Rightarrow> s | _ \<Rightarrow> '''')"

definition or_none :: "string \<Rightarrow> string option" where
  "or_none s = (if s = [] then None else Some s)"

definition parse_new_task :: "iso_parser \<Rightarrow> json \<Rightarrow> new_task_draft option" where
  "parse_new_task fromiso v =
     (case v of
        JDict d \<Rightarrow>
          (case parse_date fromiso (dget d ''due_date'') of
             None \<Rightarrow> None
           | Some due \<Rightarrow>
               (case dget d ''estimated_hours'' of
                  JInt h \<Rightarrow>
                    (case make_new_task \<lparr>nt_title = string_of (dget d ''title''), nt_hours = h, nt_due = due,
                        nt_note = or_none (string_of (dget d ''note''))\<rparr> of
                       Inl _ \<Rightarrow> None
                     | Inr t \<Rightarrow> Some t)
                | _ \<Rightarrow> None))
      | _ \<Rightarrow> None)"

definition parse_schedule_item :: "iso_parser \<Rightarrow> json \<Rightarrow> phase_schedule_draft option" where
  "parse_schedule_item fromiso v =
     (case v of
        JDict d \<Rightarrow>
          (case (parse_date fromiso (dget d ''start_date''), parse_date fromiso (dget d ''end_date'')) of
             (Some s, Some e) \<Rightarrow>
               (case make_phase_schedule \<lparr>pj_key = string_of (dget d ''phase_key''), pj_start = s, pj_end = e\<rparr> of
                  Inl _ \<Rightarrow> None
                | Inr p \<Rightarrow> Some p)
           | _ \<Rightarrow> None)
      | _ \<Rightarrow> None)"

text \<open>One bad item makes the whole schedule empty.\<close>

definition parse_phase_schedule :: "iso_parser \<Rightarrow> json \<Rightarrow> phase_schedule_draft list" where
  "parse_phase_schedule fromiso v =
     (case v of
        JList vs \<Rightarrow> (case all_some (map (parse_schedule_item fromiso) vs) of None \<Rightarrow> [] | Some ps \<Rightarrow> ps)
      | _ \<Rightarrow> [])"

definition invalid_summary :: string where
  "invalid_summary = [CHR 0xE6, CHR 0x97, CHR 0xA0, CHR 0xE6, CHR 0xB3, CHR 0x95, CHR 0xE4, CHR 0xBD,
       CHR 0xBF, CHR 0xE7, CHR 0x94, CHR 0xA8, CHR 0xE7, CHR 0x9A, CHR 0x84, CHR 0xE6, CHR 0x94,
       CHR 0xB9, CHR 0xE5, CHR 0x8A, CHR 0xA8, CHR 0xE5, CHR 0xBB, CHR 0xBA, CHR 0xE8, CHR 0xAE, CHR 0xAE]"

definition blank_card :: "string \<Rightarrow> string \<Rightarrow> string \<Rightarrow> string \<Rightarrow> change_card" where
  "blank_card i ty summary rationale =
     \<lparr>cc_id = i, cc_type = ty, cc_summary = summary, cc_rationale = rationale, cc_task = None, cc_phase = None,
      cc_date = None, cc_new_task = None, cc_schedule = [], cc_advice = None, cc_refs = [],
      cc_validation = ''pending'', cc_approval = ''pending'', cc_application = ''not_applied'', cc_code = None,
      cc_reason = None, cc_status = ''pending''\<rparr>"

definition card_number :: "nat \<Rightarrow> string" where
  "card_number i = ''card-'' @ nat_str (i + 1)"

definition invalid_card :: "nat \<Rightarrow> string \<Rightarrow> (plan_error, change_card) result" where
  "invalid_card i reason =
     new_change_card ((blank_card (card_number i) ''append_advice'' invalid_summary '''')
       \<lparr>cc_advice := Some '''', cc_validation := ''rejected'', cc_code := Some ''missing_required_fields'',
        cc_reason := Some reason\<rparr>)"

definition card_from_payload ::
    "iso_parser \<Rightarrow> nat \<Rightarrow> source_ref list \<Rightarrow> json \<Rightarrow> (plan_error, change_card) result" where
  "card_from_payload fromiso i refs payload =
     (case payload of
        JDict d \<Rightarrow>
          (let ty = string_of (dget d ''type''); sid = string_of (dget d ''id'');
               card_id = (if sid = [] then card_number i else sid);
               summary = string_of (dget d ''summary''); rationale = string_of (dget d ''rationale'')
           in if ty \<notin> set change_card_types then invalid_card i ''change card type is missing or unsupported''
              else if summary = [] then invalid_card i ''change card summary is required''
              else
                (case new_change_card ((blank_card card_id ty summary rationale)
                    \<lparr>cc_task := or_none (string_of (dget d ''target_task_id'')),
                     cc_phase := or_none (string_of (dget d ''target_phase_key'')),
                     cc_date := parse_date fromiso (dget d ''new_date''),
                     cc_new_task := parse_new_task fromiso (dget d ''new_task''),
                     cc_schedule := parse_phase_schedule fromiso (dget d ''phase_schedule''),
                     cc_advice := or_none (string_of (dget d ''advice_text'')),
                     cc_refs := refs\<rparr>) of
                   Inl (Invalid_value m) \<Rightarrow> invalid_card i m
                 | r \<Rightarrow> r))
      | _ \<Rightarrow> invalid_card i ''change card must be an object'')"

fun cards_from_payloads ::
    "iso_parser \<Rightarrow> nat \<Rightarrow> source_ref list \<Rightarrow> json list \<Rightarrow> (plan_error, change_card list) result" where
  "cards_from_payloads fromiso i refs [] = Inr []"
| "cards_from_payloads fromiso i refs (v # vs) =
     res_bind (card_from_payload fromiso i refs v) (\<lambda>c.
       res_bind (cards_from_payloads fromiso (Suc i) refs vs) (\<lambda>cs. Inr (c # cs)))"

text \<open>\<open>cards[:max_cards]\<close>.\<close>

definition first_slice :: "int \<Rightarrow> 'a list \<Rightarrow> 'a list" where
  "first_slice n xs = (if 0 \<le> n then take (nat n) xs else take (length xs - nat (- n)) xs)"

definition cards_from_generation_output ::
    "iso_parser \<Rightarrow> json \<Rightarrow> source_ref list \<Rightarrow> int \<Rightarrow> (plan_error, change_card list) result" where
  "cards_from_generation_output fromiso output refs max_cards =
     (case output of
        JDict d \<Rightarrow>
          (let cards = (case dget d ''cards'' of
                          JNull \<Rightarrow> (case dget d ''change_set'' of JDict s \<Rightarrow> dget s ''cards'' | _ \<Rightarrow> JNull)
                        | v \<Rightarrow> v)
           in (case cards of JList vs \<Rightarrow> cards_from_payloads fromiso 0 refs (first_slice max_cards vs) | _ \<Rightarrow> Inr []))
      | _ \<Rightarrow> Inr [])"

definition reply_from_generation_output :: "json \<Rightarrow> string" where
  "reply_from_generation_output output =
     (case output of
        JStr s \<Rightarrow> s
      | JDict d \<Rightarrow>
          (case (if truthy (dget d ''reply'') then dget d ''reply'' else dget d ''message'') of JStr s \<Rightarrow> s | _ \<Rightarrow> '''')
      | _ \<Rightarrow> '''')"

section \<open>Validation (assistant/validation.py)\<close>

definition reject_card :: "change_card \<Rightarrow> string \<Rightarrow> string \<Rightarrow> (plan_error, change_card) result" where
  "reject_card c code reason =
     new_change_card (c\<lparr>cc_validation := ''rejected'', cc_code := Some code, cc_reason := Some reason\<rparr>)"

definition pass_card :: "change_card \<Rightarrow> (plan_error, change_card) result" where
  "pass_card c = new_change_card (c\<lparr>cc_validation := ''passed'', cc_code := None, cc_reason := None\<rparr>)"

definition task_by_id :: "plan_draft \<Rightarrow> string \<Rightarrow> plan_task option" where
  "task_by_id d i = find (\<lambda>t. pk_id t = i) (rev (pd_tasks d @ pd_optional d))"

definition phase_by_id :: "plan_draft \<Rightarrow> string \<Rightarrow> plan_phase option" where
  "phase_by_id d i = find (\<lambda>p. ph_id p = i) (rev (pd_phases d))"

definition date_in_phase :: "date \<Rightarrow> plan_phase \<Rightarrow> date \<Rightarrow> bool" where
  "date_in_phase x p today = (x \<ge> today \<and> ph_start p \<le> x \<and> x \<le> ph_end p)"

definition validate_source :: "change_card \<Rightarrow> (plan_error, change_card) result option" where
  "validate_source c =
     (if cc_validation c = ''rejected'' then Some (Inr c)
      else if cc_type c \<noteq> ''append_advice'' \<and> cc_refs c = [] then
        Some (reject_card c ''missing_required_fields''
          ''non-advice change cards require at least one grounded source reference'')
      else None)"

definition validate_move :: "plan_draft \<Rightarrow> change_card \<Rightarrow> date \<Rightarrow> (plan_error, change_card) result" where
  "validate_move plan c today =
     (case task_by_id plan (str_or (cc_task c) '''') of
        None \<Rightarrow> reject_card c ''target_task_not_found'' ''target task does not exist''
      | Some task \<Rightarrow>
          (case cc_date c of
             None \<Rightarrow> reject_card c ''date_out_of_range'' ''move_task requires new_date''
           | Some x \<Rightarrow>
               (case (if truthy_str (cc_phase c) then phase_by_key plan (str_or (cc_phase c) '''')
                      else phase_by_id plan (pk_phase_id task)) of
                  None \<Rightarrow> reject_card c ''target_phase_not_found'' ''target phase does not exist''
                | Some p \<Rightarrow>
                    if \<not> date_in_phase x p today then
                      reject_card c ''date_out_of_range'' ''new_date is outside the target phase or before today''
                    else pass_card c)))"

definition validate_add :: "plan_draft \<Rightarrow> change_card \<Rightarrow> date \<Rightarrow> (plan_error, change_card) result" where
  "validate_add plan c today =
     (case phase_by_key plan (str_or (cc_phase c) '''') of
        None \<Rightarrow> reject_card c ''target_phase_not_found'' ''target phase does not exist''
      | Some p \<Rightarrow>
          (case cc_new_task c of
             None \<Rightarrow> reject_card c ''invalid_add_task_fields'' ''add_task requires a valid new_task''
           | Some t \<Rightarrow>
               if \<not> date_in_phase (nt_due t) p today then
                 reject_card c ''date_out_of_range'' ''new task due_date is outside the target phase or before today''
               else pass_card c))"

definition validate_delete :: "plan_draft \<Rightarrow> change_card \<Rightarrow> (plan_error, change_card) result" where
  "validate_delete plan c =
     (case task_by_id plan (str_or (cc_task c) '''') of
        None \<Rightarrow> reject_card c ''target_task_not_found'' ''target task does not exist''
      | Some task \<Rightarrow>
          if pk_mandatory task then reject_card c ''required_task_delete_forbidden'' ''required tasks cannot be deleted''
          else pass_card c)"

text \<open>The first complaint of the loop over the schedule, as its code and reason.\<close>

definition schedule_item_issue :: "plan_draft \<Rightarrow> date \<Rightarrow> phase_schedule_draft \<Rightarrow> (string \<times> string) option" where
  "schedule_item_issue plan today p =
     (if phase_by_key plan (pj_key p) = None then Some (''target_phase_not_found'', ''target phase does not exist'')
      else if pj_start p < today \<or> pj_start p > pj_end p then
        Some (''phase_schedule_invalid'', ''phase schedule dates are invalid'')
      else if pd_time_model plan = ''submission_deadline'' \<and> pj_key p = ''defense_prep'' \<and>
          (case pd_target plan of None \<Rightarrow> False | Some t \<Rightarrow> pj_start p \<le> t) then
        Some (''phase_schedule_invalid'', ''defense_prep must remain after submission'')
      else if pd_time_model plan = ''competition_window'' \<and> pj_key p = ''event_sprint'' \<and>
          (case pd_target plan of None \<Rightarrow> False | Some t \<Rightarrow> pj_start p \<noteq> t) then
        Some (''phase_schedule_invalid'', ''event_sprint must keep the competition-window start'')
      else None)"

fun first_issue :: "('a \<Rightarrow> 'b option) \<Rightarrow> 'a list \<Rightarrow> 'b option" where
  "first_issue f [] = None"
| "first_issue f (x # xs) = (case f x of None \<Rightarrow> first_issue f xs | Some e \<Rightarrow> Some e)"

definition validate_reschedule :: "plan_draft \<Rightarrow> change_card \<Rightarrow> date \<Rightarrow> (plan_error, change_card) result" where
  "validate_reschedule plan c today =
     (if cc_schedule c = [] then reject_card c ''phase_schedule_invalid'' ''reschedule_phase requires phase_schedule''
      else
        (case first_issue (schedule_item_issue plan today) (cc_schedule c) of
           Some (code, reason) \<Rightarrow> reject_card c code reason
         | None \<Rightarrow>
             if validate_plan plan \<noteq> [] then reject_card c ''phase_schedule_invalid'' ''base plan invariants are invalid''
             else pass_card c))"

definition validate_advice_card :: "change_card \<Rightarrow> (plan_error, change_card) result" where
  "validate_advice_card c =
     (if \<not> (truthy_str (cc_advice c) \<and> py_strip (str_or (cc_advice c) '''') \<noteq> []) then
        reject_card c ''invalid_advice_fields'' ''append_advice requires advice_text''
      else pass_card c)"

definition validate_change_card :: "plan_draft \<Rightarrow> date \<Rightarrow> change_card \<Rightarrow> (plan_error, change_card) result" where
  "validate_change_card plan today c =
     (case validate_source c of
        Some r \<Rightarrow> r
      | None \<Rightarrow>
          if cc_type c = ''move_task'' then validate_move plan c today
          else if cc_type c = ''add_task'' then validate_add plan c today
          else if cc_type c = ''delete_task'' then validate_delete plan c
          else if cc_type c = ''reschedule_phase'' then validate_reschedule plan c today
          else if cc_type c = ''append_advice'' then validate_advice_card c
          else reject_card c ''missing_required_fields'' ''unsupported change card type'')"

fun validate_change_cards :: "plan_draft \<Rightarrow> date \<Rightarrow> change_card list \<Rightarrow> (plan_error, change_card list) result" where
  "validate_change_cards plan today [] = Inr []"
| "validate_change_cards plan today (c # cs) =
     res_bind (validate_change_card plan today c) (\<lambda>c'.
       res_bind (validate_change_cards plan today cs) (\<lambda>cs'. Inr (c' # cs')))"

section \<open>Service (assistant/service.py)\<close>

fun dedupe_refs :: "ref_key list \<Rightarrow> source_ref list \<Rightarrow> source_ref list" where
  "dedupe_refs seen [] = []"
| "dedupe_refs seen (r # rs) =
     (if ref_key r \<in> set seen then dedupe_refs seen rs else r # dedupe_refs (ref_key r # seen) rs)"

record knowledge_hit =
  kh_text :: string
  kh_ref :: source_ref

definition facts_from_hits :: "knowledge_hit list \<Rightarrow> fact_item list" where
  "facts_from_hits found =
     map (\<lambda>h. new_fact_item \<lparr>fi_field = ''knowledge_chunk'', fi_value = kh_text h, fi_class = Fact, fi_refs = [kh_ref h]\<rparr>) found"

text \<open>The knowledge index: its version and what the query answers, \<open>None\<close> when it raises.\<close>

type_synonym knowledge_index = "string \<times> (string \<Rightarrow> int \<Rightarrow> knowledge_hit list option)"

definition wide_semicolon :: string where
  "wide_semicolon = [CHR 0xEF, CHR 0xBC, CHR 0x9B]"

definition assistant_bundle :: "assistant_request \<Rightarrow> knowledge_index option \<Rightarrow> fact_bundle option" where
  "assistant_bundle q index =
     (let plan = ar_plan q; refs = pd_refs plan;
          facts = (if refs = [] then [] else map new_fact_item
            [\<lparr>fi_field = ''plan.time_model'', fi_value = pd_time_model plan, fi_class = Fact, fi_refs = refs\<rparr>,
             \<lparr>fi_field = ''plan.risk_register'', fi_value = join_str wide_semicolon (pd_risks plan), fi_class = Fact, fi_refs = refs\<rparr>,
             \<lparr>fi_field = ''plan.milestones'', fi_value = join_str wide_semicolon (pd_milestones plan), fi_class = Fact,
              fi_refs = refs\<rparr>])
      in (case index of
            None \<Rightarrow>
              Some \<lparr>fb_build_id = ''competition.assistant.local'', fb_subject_id = pd_competition_id plan, fb_facts = facts,
                    fb_refs = dedupe_refs [] refs\<rparr>
          | Some (version, query) \<Rightarrow>
              (case query (ar_message q) 6 of
                 None \<Rightarrow> None
               | Some found \<Rightarrow>
                   Some \<lparr>fb_build_id = version, fb_subject_id = pd_competition_id plan,
                         fb_facts = facts @ facts_from_hits found, fb_refs = dedupe_refs [] (refs @ map kh_ref found)\<rparr>)))"

definition reply_ready :: string where
  "reply_ready = [CHR 0xE5, CHR 0xB7, CHR 0xB2, CHR 0xE7, CHR 0x94, CHR 0x9F, CHR 0xE6, CHR 0x88,
       CHR 0x90, CHR 0xE5, CHR 0x8F, CHR 0xAF, CHR 0xE4, CHR 0xBE, CHR 0x9B, CHR 0xE5, CHR 0xAE,
       CHR 0xA1, CHR 0xE6, CHR 0x89, CHR 0xB9, CHR 0xE7, CHR 0x9A, CHR 0x84, CHR 0xE5, CHR 0xA4,
       CHR 0x87, CHR 0xE8, CHR 0xB5, CHR 0x9B, CHR 0xE8, CHR 0xAE, CHR 0xA1, CHR 0xE5, CHR 0x88,
       CHR 0x92, CHR 0xE6, CHR 0x94, CHR 0xB9, CHR 0xE5, CHR 0x8A, CHR 0xA8, CHR 0xE5, CHR 0xBB,
       CHR 0xBA, CHR 0xE8, CHR 0xAE, CHR 0xAE, CHR 0xE3, CHR 0x80, CHR 0x82]"

definition reply_none :: string where
  "reply_none = [CHR 0xE6, CHR 0xB2, CHR 0xA1, CHR 0xE6, CHR 0x9C, CHR 0x89, CHR 0xE7, CHR 0x94,
       CHR 0x9F, CHR 0xE6, CHR 0x88, CHR 0x90, CHR 0xE5, CHR 0x8F, CHR 0xAF, CHR 0xE7, CHR 0x94,
       CHR 0xA8, CHR 0xE7, CHR 0x9A, CHR 0x84, CHR 0xE5, CHR 0xA4, CHR 0x87, CHR 0xE8, CHR 0xB5,
       CHR 0x9B, CHR 0xE8, CHR 0xAE, CHR 0xA1, CHR 0xE5, CHR 0x88, CHR 0x92, CHR 0xE6, CHR 0x94,
       CHR 0xB9, CHR 0xE5, CHR 0x8A, CHR 0xA8, CHR 0xE5, CHR 0xBB, CHR 0xBA, CHR 0xE8, CHR 0xAE,
       CHR 0xAE, CHR 0xE3, CHR 0x80, CHR 0x82]"

definition assistant_reply :: "json \<Rightarrow> nat \<Rightarrow> string" where
  "assistant_reply output count =
     (let reply = py_strip (reply_from_generation_output output)
      in if reply \<noteq> [] then reply else if count \<noteq> 0 then reply_ready else reply_none)"

definition warning_issue :: "generation_warning \<Rightarrow> competition_error list" where
  "warning_issue w =
     (if gw_code w \<in> {''unsafe_advice'', ''content_policy_refusal''} then [issue ''unsafe_advice'' Sev_warning (gw_message w)]
      else if gw_code w \<in> {''no_grounded_output'', ''insufficient_facts'', ''fact_ref_missing''} then
        [issue ''change_card_rejected'' Sev_warning (gw_message w)]
      else [])"

definition warning_issues :: "generation_warning list \<Rightarrow> competition_error list" where
  "warning_issues ws = concat (map warning_issue ws)"

type_synonym pipeline = "fact_bundle \<Rightarrow> generation_result option"

definition service_failure :: "assistant_profile \<Rightarrow> string \<Rightarrow> string \<Rightarrow> (plan_error, service_result) result" where
  "service_failure prof code message =
     new_service_result \<lparr>sv_result = None, sv_issues = [issue code Sev_error message], sv_profile_version = ap_version prof,
       sv_fact_count = None, sv_ref_count = None\<rparr>"

definition assistant_answer ::
    "iso_parser \<Rightarrow> assistant_request \<Rightarrow> assistant_profile \<Rightarrow> fact_bundle \<Rightarrow> generation_result \<Rightarrow>
     (plan_error, service_result) result" where
  "assistant_answer fromiso q prof b g =
     (let ws = warning_issues (gx_warnings g)
      in res_bind (if list_ex (\<lambda>i. ce_code i = ''unsafe_advice'') ws then Inr []
                   else cards_from_generation_output fromiso (gx_output g) (gx_cited g) (ap_max_cards prof)) (\<lambda>raw.
         res_bind (validate_change_cards (ar_plan q) (ar_today q) raw) (\<lambda>cards.
         res_bind (new_change_set \<lparr>cs_id = ''changes:'' @ ar_request_id q, cs_base_revision = ar_base_revision q,
             cs_cards = cards\<rparr>) (\<lambda>set_of_changes.
         res_bind (new_assistant_result \<lparr>az_reply = assistant_reply (gx_output g) (length cards),
             az_change_set = set_of_changes, az_request_id = ar_request_id q\<rparr>) (\<lambda>res.
           new_service_result
             \<lparr>sv_result = Some res,
              sv_issues = ws @ (if raw \<noteq> [] \<and> \<not> list_ex (\<lambda>c. cc_status c = ''pending'') cards then
                [issue ''change_card_rejected'' Sev_warning ''all assistant change cards were rejected by validation''] else []),
              sv_profile_version = ap_version prof, sv_fact_count = Some (length (fb_facts b)),
              sv_ref_count = Some (length (fb_refs b))\<rparr>)))))"

definition suggest_plan_changes ::
    "iso_parser \<Rightarrow> knowledge_index option \<Rightarrow> pipeline option \<Rightarrow> assistant_profile \<Rightarrow> assistant_request \<Rightarrow>
     (plan_error, service_result) result" where
  "suggest_plan_changes fromiso index pipe prof q =
     (if ar_base_revision q \<noteq> pd_revision (ar_plan q) then
        service_failure prof ''plan_revision_stale'' ''base_plan_revision does not match the plan snapshot revision''
      else
        (case pipe of
           None \<Rightarrow> service_failure prof ''generation_unavailable'' ''assistant generation pipeline is unavailable''
         | Some run \<Rightarrow>
             (case assistant_bundle q index of
                None \<Rightarrow> service_failure prof ''generation_unavailable'' ''assistant generation failed''
              | Some b \<Rightarrow>
                  (case run b of
                     None \<Rightarrow> service_failure prof ''generation_unavailable'' ''assistant generation failed''
                   | Some g \<Rightarrow> assistant_answer fromiso q prof b g))))"

section \<open>Cards\<close>

lemma new_change_card_idem: "new_change_card c = Inr c' \<Longrightarrow> new_change_card c' = Inr c'"
  by (auto simp: new_change_card_def py_strip_idem split: if_splits)

definition card_ok :: "change_card \<Rightarrow> bool" where
  "card_ok c = (new_change_card c = Inr c)"

lemma card_ok_fields:
  assumes "card_ok c"
  shows "py_strip (cc_id c) = cc_id c" "py_strip (cc_summary c) = cc_summary c" "py_strip (cc_rationale c) = cc_rationale c"
    "cc_id c \<noteq> []" "cc_type c \<in> set change_card_types" "cc_summary c \<noteq> []" "cc_approval c \<in> set approval_statuses"
    "cc_application c \<in> set application_statuses"
proof -
  show s: "py_strip (cc_id c) = cc_id c" "py_strip (cc_summary c) = cc_summary c" "py_strip (cc_rationale c) = cc_rationale c"
    using assms unfolding card_ok_def new_change_card_def
    by (auto simp: py_strip_idem split: if_splits dest: arg_cong [of _ _ cc_id] arg_cong [of _ _ cc_summary] arg_cong [of _ _ cc_rationale])
  show "cc_id c \<noteq> []" "cc_type c \<in> set change_card_types" "cc_summary c \<noteq> []" "cc_approval c \<in> set approval_statuses"
    "cc_application c \<in> set application_statuses"
    using assms s unfolding card_ok_def new_change_card_def by (auto split: if_splits)
qed

lemma reject_card_ok:
  assumes "card_ok c" "code \<in> set rejection_codes"
  shows "reject_card c code reason =
      Inr (c\<lparr>cc_validation := ''rejected'', cc_code := Some code, cc_reason := Some reason, cc_status := ''rejected''\<rparr>)"
  using card_ok_fields [OF assms(1)] assms(2)
  by (simp add: reject_card_def new_change_card_def validation_statuses_def collapse_change_card_status_def)

lemma pass_card_ok:
  assumes "card_ok c" "cc_approval c = ''pending''"
  shows "pass_card c = Inr (c\<lparr>cc_validation := ''passed'', cc_code := None, cc_reason := None, cc_status := ''pending''\<rparr>)"
  using card_ok_fields [OF assms(1)] assms(2)
  by (simp add: pass_card_def new_change_card_def validation_statuses_def collapse_change_card_status_def)

section \<open>Parsed cards\<close>

text \<open>What parsing guarantees of a card before it is validated.\<close>

definition emitted_codes :: "string list" where
  "emitted_codes = filter (\<lambda>c. c \<noteq> ''completed_task_protected'') rejection_codes"

lemma emitted_code: "code \<in> set emitted_codes \<Longrightarrow> code \<in> set rejection_codes"
  by (simp add: emitted_codes_def)

definition undecided :: "change_card \<Rightarrow> bool" where
  "undecided c = (cc_approval c = ''pending'' \<and> cc_application c = ''not_applied'')"

definition task_draft_ok :: "new_task_draft \<Rightarrow> bool" where
  "task_draft_ok t = (py_strip (nt_title t) \<noteq> [] \<and> 1 \<le> nt_hours t \<and> nt_hours t \<le> 200)"

definition parsed :: "source_ref list \<Rightarrow> change_card \<Rightarrow> bool" where
  "parsed refs c =
     (card_ok c \<and> undecided c \<and> set (cc_refs c) \<subseteq> set refs \<and>
      (case cc_new_task c of None \<Rightarrow> True | Some t \<Rightarrow> task_draft_ok t) \<and>
      (cc_validation c = ''pending'' \<or>
       (cc_validation c = ''rejected'' \<and> cc_status c = ''rejected'' \<and> cc_code c = Some ''missing_required_fields'')))"

lemma make_new_task_ok: "make_new_task t = Inr t' \<Longrightarrow> task_draft_ok t'"
  by (auto simp: make_new_task_def task_draft_ok_def py_strip_idem split: if_splits)

lemma parse_new_task_ok: "parse_new_task fromiso v = Some t \<Longrightarrow> task_draft_ok t"
  by (auto simp: parse_new_task_def make_new_task_ok split: json.splits option.splits sum.splits)

lemma card_number_not_blank: "py_strip (card_number i) \<noteq> []"
proof -
  have "list_all (\<lambda>t. \<not> List.member t (CHR ''c'')) ws_codes" by code_simp
  then have "\<forall>t \<in> set ws_codes. CHR ''c'' \<notin> set t" by (auto simp: list_all_iff)
  then have "CHR ''c'' \<in> set (py_strip (card_number i))" by (intro py_strip_mem) (simp_all add: card_number_def)
  then show ?thesis by auto
qed

lemma invalid_card_parsed: "\<exists>c. invalid_card i reason = Inr c \<and> parsed refs c"
proof -
  have sum: "py_strip invalid_summary \<noteq> []"
    by (rule has_lead_not_blank) (simp add: invalid_summary_def has_lead_def label_leads_def)
  let ?c = "(blank_card (card_number i) ''append_advice'' invalid_summary '''')
       \<lparr>cc_advice := Some '''', cc_validation := ''rejected'', cc_code := Some ''missing_required_fields'',
        cc_reason := Some reason\<rparr>"
  let ?d = "?c\<lparr>cc_id := py_strip (card_number i), cc_summary := py_strip invalid_summary,
                  cc_rationale := py_strip [], cc_status := ''rejected''\<rparr>"
  have d: "new_change_card ?c = Inr ?d"
    using sum card_number_not_blank [of i]
    by (simp add: new_change_card_def blank_card_def change_card_types_def validation_statuses_def approval_statuses_def
        application_statuses_def rejection_codes_def collapse_change_card_status_def)
  have "parsed refs ?d"
    using new_change_card_idem [OF d] by (simp add: parsed_def card_ok_def undecided_def blank_card_def)
  with d show ?thesis unfolding invalid_card_def by blast
qed

lemma new_change_card_fields:
  assumes "new_change_card c = Inr c'"
  shows "cc_refs c' = cc_refs c" "cc_new_task c' = cc_new_task c" "cc_validation c' = cc_validation c"
    "cc_approval c' = cc_approval c" "cc_application c' = cc_application c"
  using assms by (auto simp: new_change_card_def split: if_splits)

lemma new_change_card_error: "new_change_card c = Inl e \<Longrightarrow> \<exists>m. e = Invalid_value m"
  by (auto simp: new_change_card_def split: if_splits)

lemma card_from_payload_parsed: "\<exists>c. card_from_payload fromiso i refs v = Inr c \<and> parsed refs c"
proof (cases v)
  case (JDict d)
  let ?sid = "string_of (dget d ''id'')"
  let ?c = "(blank_card (if ?sid = [] then card_number i else ?sid) (string_of (dget d ''type''))
       (string_of (dget d ''summary'')) (string_of (dget d ''rationale'')))
                    \<lparr>cc_task := or_none (string_of (dget d ''target_task_id'')),
                     cc_phase := or_none (string_of (dget d ''target_phase_key'')),
                     cc_date := parse_date fromiso (dget d ''new_date''),
                     cc_new_task := parse_new_task fromiso (dget d ''new_task''),
                     cc_schedule := parse_phase_schedule fromiso (dget d ''phase_schedule''),
                     cc_advice := or_none (string_of (dget d ''advice_text'')),
                     cc_refs := refs\<rparr>"
  show ?thesis
  proof (cases "string_of (dget d ''type'') \<in> set change_card_types \<and> string_of (dget d ''summary'') \<noteq> []")
    case False
    then show ?thesis using invalid_card_parsed by (auto simp: card_from_payload_def JDict Let_def)
  next
    case True
    show ?thesis
    proof (cases "new_change_card ?c")
      case (Inl e)
      then obtain m where "e = Invalid_value m" using new_change_card_error by blast
      with Inl True have "card_from_payload fromiso i refs v = invalid_card i m"
        by (simp add: card_from_payload_def JDict Let_def)
      then show ?thesis using invalid_card_parsed by metis
    next
      case (Inr c')
      have "parsed refs c'"
        using new_change_card_idem [OF Inr] new_change_card_fields [OF Inr] parse_new_task_ok [of fromiso "dget d ''new_task''"]
        by (simp add: parsed_def card_ok_def undecided_def blank_card_def split: option.split)
      moreover have "card_from_payload fromiso i refs v = Inr c'"
        using True Inr by (simp add: card_from_payload_def JDict Let_def)
      ultimately show ?thesis by blast
    qed
  qed
qed (use invalid_card_parsed in \<open>simp_all add: card_from_payload_def\<close>)

lemma cards_from_payloads_parsed:
  "\<exists>cs. cards_from_payloads fromiso i refs vs = Inr cs \<and> length cs = length vs \<and> list_all (parsed refs) cs"
proof (induction vs arbitrary: i)
  case (Cons v vs)
  obtain c where "card_from_payload fromiso i refs v = Inr c" "parsed refs c" using card_from_payload_parsed by blast
  moreover obtain cs where "cards_from_payloads fromiso (Suc i) refs vs = Inr cs" "length cs = length vs" "list_all (parsed refs) cs"
    using Cons.IH by blast
  ultimately show ?case by simp
qed simp

lemma cards_from_output_parsed:
  assumes "0 \<le> m"
  shows "\<exists>cs. cards_from_generation_output fromiso out refs m = Inr cs \<and> int (length cs) \<le> m \<and> list_all (parsed refs) cs"
proof -
  have slice: "\<exists>cs. cards_from_payloads fromiso 0 refs (first_slice m vs) = Inr cs \<and> int (length cs) \<le> m \<and> list_all (parsed refs) cs" for vs
    using cards_from_payloads_parsed [of fromiso 0 refs "first_slice m vs"] assms by (auto simp: first_slice_def)
  show ?thesis using assms slice
    by (auto simp: cards_from_generation_output_def Let_def split: json.splits)
qed

section \<open>Validated cards\<close>

text \<open>What a card that passes promises, read off the plan and not off the validator: the task it
  names exists and may be changed that way, and its dates lie in an existing phase and not in the past.\<close>

definition plan_tasks :: "plan_draft \<Rightarrow> plan_task set" where
  "plan_tasks d = set (pd_tasks d @ pd_optional d)"

definition fits_phase :: "plan_draft \<Rightarrow> date \<Rightarrow> date \<Rightarrow> bool" where
  "fits_phase d today x = (today \<le> x \<and> (\<exists>p \<in> set (pd_phases d). ph_start p \<le> x \<and> x \<le> ph_end p))"

definition schedule_fits :: "plan_draft \<Rightarrow> date \<Rightarrow> phase_schedule_draft \<Rightarrow> bool" where
  "schedule_fits d today p =
     (pj_key p \<in> ph_key ` set (pd_phases d) \<and> today \<le> pj_start p \<and> pj_start p \<le> pj_end p \<and>
      (pd_time_model d = ''submission_deadline'' \<and> pj_key p = ''defense_prep'' \<longrightarrow>
         (\<forall>t. pd_target d = Some t \<longrightarrow> t < pj_start p)) \<and>
      (pd_time_model d = ''competition_window'' \<and> pj_key p = ''event_sprint'' \<longrightarrow>
         (\<forall>t. pd_target d = Some t \<longrightarrow> t = pj_start p)))"

definition applicable :: "plan_draft \<Rightarrow> date \<Rightarrow> change_card \<Rightarrow> bool" where
  "applicable d today c =
     ((cc_type c = ''move_task'' \<longrightarrow>
         (\<exists>t \<in> plan_tasks d. pk_id t = str_or (cc_task c) '''') \<and> (\<exists>x. cc_date c = Some x \<and> fits_phase d today x)) \<and>
      (cc_type c = ''add_task'' \<longrightarrow>
         (\<exists>t. cc_new_task c = Some t \<and> task_draft_ok t \<and> fits_phase d today (nt_due t))) \<and>
      (cc_type c = ''delete_task'' \<longrightarrow> (\<exists>t \<in> plan_tasks d. pk_id t = str_or (cc_task c) '''' \<and> \<not> pk_mandatory t)) \<and>
      (cc_type c = ''reschedule_phase'' \<longrightarrow> cc_schedule c \<noteq> [] \<and> list_all (schedule_fits d today) (cc_schedule c)) \<and>
      (cc_type c = ''append_advice'' \<longrightarrow> (\<exists>a. cc_advice c = Some a \<and> py_strip a \<noteq> [])) \<and>
      (cc_type c \<noteq> ''append_advice'' \<longrightarrow> cc_refs c \<noteq> []))"

definition judged :: "plan_draft \<Rightarrow> date \<Rightarrow> source_ref list \<Rightarrow> change_card \<Rightarrow> bool" where
  "judged d today refs c =
     (card_ok c \<and> undecided c \<and> set (cc_refs c) \<subseteq> set refs \<and>
      (cc_status c = ''rejected'' \<and> (\<exists>code \<in> set emitted_codes. cc_code c = Some code) \<or>
       cc_status c = ''pending'' \<and> cc_validation c = ''passed'' \<and> cc_code c = None \<and> applicable d today c))"

lemma find_rev_mem: "find P (rev xs) = Some x \<Longrightarrow> x \<in> set xs \<and> P x"
  by (auto simp: find_Some_iff) (metis length_rev nth_mem set_rev)

lemma task_by_id_mem: "task_by_id d i = Some t \<Longrightarrow> t \<in> plan_tasks d \<and> pk_id t = i"
  using find_rev_mem [of "\<lambda>t. pk_id t = i" "pd_tasks d @ pd_optional d" t] by (simp add: task_by_id_def plan_tasks_def)

lemma phase_mem: "phase_by_key d k = Some p \<Longrightarrow> p \<in> set (pd_phases d) \<and> ph_key p = k"
  "phase_by_id d i = Some p \<Longrightarrow> p \<in> set (pd_phases d)"
  using find_rev_mem [of "\<lambda>p. ph_key p = k" "pd_phases d" p] find_rev_mem [of "\<lambda>p. ph_id p = i" "pd_phases d" p]
  by (simp_all add: phase_by_key_def phase_by_id_def)

lemma first_issue_none: "first_issue f xs = None \<Longrightarrow> x \<in> set xs \<Longrightarrow> f x = None"
  by (induction xs) (auto split: option.splits)

lemma first_issue_some: "first_issue f xs = Some e \<Longrightarrow> \<exists>x \<in> set xs. f x = Some e"
  by (induction xs) (auto split: option.splits)

lemma schedule_item_fits: "schedule_item_issue d today p = None \<Longrightarrow> schedule_fits d today p"
proof -
  assume none: "schedule_item_issue d today p = None"
  then obtain ph where "phase_by_key d (pj_key p) = Some ph" by (auto simp: schedule_item_issue_def split: if_splits)
  then have "pj_key p \<in> ph_key ` set (pd_phases d)" using phase_mem(1) by force
  with none show ?thesis by (auto simp: schedule_item_issue_def schedule_fits_def split: if_splits option.splits)
qed

lemma schedule_issue_code:
  "schedule_item_issue d today p = Some (code, reason) \<Longrightarrow> code \<in> {''target_phase_not_found'', ''phase_schedule_invalid''}"
  by (auto simp: schedule_item_issue_def split: if_splits)

definition settles :: "plan_draft \<Rightarrow> date \<Rightarrow> source_ref list \<Rightarrow> (plan_error, change_card) result \<Rightarrow> bool" where
  "settles d today refs r = (\<exists>c'. r = Inr c' \<and> judged d today refs c')"

lemma judged_reject:
  assumes "parsed refs c" "code \<in> set emitted_codes"
  shows "settles d today refs (reject_card c code reason)"
proof -
  let ?c = "c\<lparr>cc_validation := ''rejected'', cc_code := Some code, cc_reason := Some reason, cc_status := ''rejected''\<rparr>"
  have ok: "card_ok c" using assms(1) by (simp add: parsed_def)
  have rej: "reject_card c code reason = Inr ?c" by (rule reject_card_ok [OF ok emitted_code [OF assms(2)]])
  have "card_ok ?c" unfolding card_ok_def using rej new_change_card_idem unfolding reject_card_def by blast
  with assms(1,2) have "judged d today refs ?c" by (simp add: judged_def parsed_def undecided_def)
  with rej show ?thesis by (simp add: settles_def)
qed

lemma judged_pass:
  assumes "parsed refs c" "applicable d today c"
  shows "settles d today refs (pass_card c)"
proof -
  let ?c = "c\<lparr>cc_validation := ''passed'', cc_code := None, cc_reason := None, cc_status := ''pending''\<rparr>"
  have ok: "card_ok c" "cc_approval c = ''pending''" using assms(1) by (simp_all add: parsed_def undecided_def)
  have pass: "pass_card c = Inr ?c" by (rule pass_card_ok [OF ok])
  have "card_ok ?c" unfolding card_ok_def using pass new_change_card_idem unfolding pass_card_def by blast
  moreover have "applicable d today ?c" using assms(2) by (simp add: applicable_def)
  ultimately have "judged d today refs ?c" using assms(1) by (simp add: judged_def parsed_def undecided_def)
  with pass show ?thesis by (simp add: settles_def)
qed

lemma emitted_codes_simp [simp]:
  "set emitted_codes = {''missing_required_fields'', ''target_task_not_found'', ''target_phase_not_found'', ''date_out_of_range'',
     ''invalid_add_task_fields'', ''required_task_delete_forbidden'', ''phase_schedule_invalid'', ''invalid_advice_fields''}"
  by (simp add: emitted_codes_def rejection_codes_def)

lemma validate_move_judged:
  assumes c: "parsed refs c" and ty: "cc_type c = ''move_task''" "cc_refs c \<noteq> []"
  shows "settles d today refs (validate_move d c today)"
proof (cases "task_by_id d (str_or (cc_task c) '''')")
  case None
  then show ?thesis by (simp add: validate_move_def judged_reject [OF c])
next
  case (Some t)
  note t = task_by_id_mem [OF Some]
  let ?phase = "if truthy_str (cc_phase c) then phase_by_key d (str_or (cc_phase c) '''') else phase_by_id d (pk_phase_id t)"
  show ?thesis
  proof (cases "cc_date c")
    case None
    with Some show ?thesis by (simp add: validate_move_def judged_reject [OF c])
  next
    case x: (Some x)
    show ?thesis
    proof (cases ?phase)
      case None
      with Some x show ?thesis by (simp add: validate_move_def judged_reject [OF c])
    next
      case p: (Some p)
      then have "p \<in> set (pd_phases d)" using phase_mem by (auto split: if_splits)
      then have "date_in_phase x p today \<Longrightarrow> applicable d today c"
        using t x ty by (auto simp: applicable_def fits_phase_def date_in_phase_def)
      then show ?thesis using Some x p
        by (cases "date_in_phase x p today") (simp_all add: validate_move_def judged_reject [OF c] judged_pass [OF c])
    qed
  qed
qed

lemma validate_add_judged:
  assumes c: "parsed refs c" and ty: "cc_type c = ''add_task''" "cc_refs c \<noteq> []"
  shows "settles d today refs (validate_add d c today)"
proof (cases "phase_by_key d (str_or (cc_phase c) '''')")
  case None
  then show ?thesis by (simp add: validate_add_def judged_reject [OF c])
next
  case (Some p)
  show ?thesis
  proof (cases "cc_new_task c")
    case None
    with Some show ?thesis by (simp add: validate_add_def judged_reject [OF c])
  next
    case t: (Some t)
    with c have "task_draft_ok t" by (simp add: parsed_def)
    with phase_mem(1) [OF Some] t ty have "date_in_phase (nt_due t) p today \<Longrightarrow> applicable d today c"
      by (auto simp: applicable_def fits_phase_def date_in_phase_def)
    then show ?thesis using Some t
      by (cases "date_in_phase (nt_due t) p today") (simp_all add: validate_add_def judged_reject [OF c] judged_pass [OF c])
  qed
qed

lemma validate_delete_judged:
  assumes c: "parsed refs c" and ty: "cc_type c = ''delete_task''" "cc_refs c \<noteq> []"
  shows "settles d today refs (validate_delete d c)"
proof (cases "task_by_id d (str_or (cc_task c) '''')")
  case None
  then show ?thesis by (simp add: validate_delete_def judged_reject [OF c])
next
  case (Some t)
  with task_by_id_mem [OF Some] ty have "\<not> pk_mandatory t \<Longrightarrow> applicable d today c" by (auto simp: applicable_def)
  then show ?thesis using Some
    by (cases "pk_mandatory t") (simp_all add: validate_delete_def judged_reject [OF c] judged_pass [OF c])
qed

lemma validate_reschedule_judged:
  assumes c: "parsed refs c" and ty: "cc_type c = ''reschedule_phase''" "cc_refs c \<noteq> []"
  shows "settles d today refs (validate_reschedule d c today)"
proof (cases "cc_schedule c = []")
  case True
  then show ?thesis by (simp add: validate_reschedule_def judged_reject [OF c])
next
  case False
  show ?thesis
  proof (cases "first_issue (schedule_item_issue d today) (cc_schedule c)")
    case None
    then have "list_all (schedule_fits d today) (cc_schedule c)"
      using first_issue_none schedule_item_fits by (fastforce simp: list_all_iff)
    with False ty have "applicable d today c" by (simp add: applicable_def)
    then show ?thesis using None False
      by (cases "validate_plan d = []") (simp_all add: validate_reschedule_def judged_reject [OF c] judged_pass [OF c])
  next
    case (Some e)
    obtain code reason where e: "e = (code, reason)" by (cases e)
    from first_issue_some [OF Some] have "code \<in> {''target_phase_not_found'', ''phase_schedule_invalid''}"
      using schedule_issue_code unfolding e by blast
    then have "code \<in> set emitted_codes" by auto
    then show ?thesis using Some e False by (simp add: validate_reschedule_def judged_reject [OF c])
  qed
qed

lemma validate_advice_judged:
  assumes c: "parsed refs c" and ty: "cc_type c = ''append_advice''"
  shows "settles d today refs (validate_advice_card c)"
proof (cases "truthy_str (cc_advice c) \<and> py_strip (str_or (cc_advice c) '''') \<noteq> []")
  case True
  with ty have "applicable d today c" by (auto simp: applicable_def truthy_str_def str_or_def split: option.splits)
  then show ?thesis using True by (simp add: validate_advice_card_def judged_pass [OF c])
next
  case False
  then have "validate_advice_card c = reject_card c ''invalid_advice_fields'' ''append_advice requires advice_text''"
    unfolding validate_advice_card_def by simp
  then show ?thesis by (simp add: judged_reject [OF c])
qed

lemma validate_change_card_judged:
  assumes c: "parsed refs c"
  shows "settles d today refs (validate_change_card d today c)"
proof (cases "validate_source c")
  case (Some r)
  then consider "cc_validation c = ''rejected''" "r = Inr c"
    | "r = reject_card c ''missing_required_fields'' ''non-advice change cards require at least one grounded source reference''"
    by (auto simp: validate_source_def split: if_splits)
  then show ?thesis
  proof cases
    case 1
    with c have "judged d today refs c" by (simp add: judged_def parsed_def)
    with 1 Some show ?thesis by (simp add: validate_change_card_def settles_def)
  next
    case 2
    with Some show ?thesis by (simp add: validate_change_card_def judged_reject [OF c])
  qed
next
  case None
  then have refs: "cc_type c \<noteq> ''append_advice'' \<Longrightarrow> cc_refs c \<noteq> []" by (auto simp: validate_source_def split: if_splits)
  have "cc_type c \<in> set change_card_types" using c card_ok_fields by (simp add: parsed_def)
  then consider "cc_type c = ''move_task''" | "cc_type c = ''add_task''" | "cc_type c = ''delete_task''"
    | "cc_type c = ''reschedule_phase''" | "cc_type c = ''append_advice''" by (auto simp: change_card_types_def)
  then show ?thesis
    by cases (use None refs validate_move_judged [OF c] validate_add_judged [OF c] validate_delete_judged [OF c]
        validate_reschedule_judged [OF c] validate_advice_judged [OF c] in \<open>simp_all add: validate_change_card_def\<close>)
qed

lemma validate_change_cards_judged:
  "list_all (parsed refs) cs \<Longrightarrow>
   \<exists>cs'. validate_change_cards d today cs = Inr cs' \<and> length cs' = length cs \<and> list_all (judged d today refs) cs'"
proof (induction cs)
  case (Cons c cs)
  then obtain c' cs' where "validate_change_card d today c = Inr c'" "judged d today refs c'"
    "validate_change_cards d today cs = Inr cs'" "length cs' = length cs" "list_all (judged d today refs) cs'"
    using validate_change_card_judged [of refs c d today] by (auto simp: settles_def)
  then show ?case by simp
qed simp

section \<open>The service\<close>

lemma warning_issues_not_fatal: "\<not> list_ex (\<lambda>i. ce_severity i = Sev_error) (warning_issues ws)"
  by (induction ws) (auto simp: warning_issues_def warning_issue_def issue_def)

lemma changes_not_blank: "py_strip (''changes:'' @ s) \<noteq> []"
proof -
  have "list_all (\<lambda>t. \<not> List.member t (CHR ''c'')) ws_codes" by code_simp
  then have "\<forall>t \<in> set ws_codes. CHR ''c'' \<notin> set t" by (auto simp: list_all_iff)
  then have "CHR ''c'' \<in> set (py_strip (''changes:'' @ s))" by (intro py_strip_mem) simp_all
  then show ?thesis by auto
qed

definition request_ok :: "assistant_request \<Rightarrow> bool" where
  "request_ok q = (new_assistant_request q = Inr q)"

definition profile_ok :: "assistant_profile \<Rightarrow> bool" where
  "profile_ok p = (new_assistant_profile p = Inr p)"

lemma request_fields: "request_ok q \<Longrightarrow> 0 \<le> ar_base_revision q \<and> py_strip (ar_request_id q) \<noteq> []"
  by (auto simp: request_ok_def new_assistant_request_def split: if_splits)

lemma profile_fields: "profile_ok p \<Longrightarrow> ap_version p \<noteq> [] \<and> 0 \<le> ap_max_cards p \<and> ap_max_cards p \<le> 5"
  by (auto simp: profile_ok_def new_assistant_profile_def split: if_splits)

text \<open>What the service promises of an answer: at most five cards for the revision that was asked
  about, each either rejected with a reason code or pending and applicable to the plan.\<close>

definition answer_ok :: "assistant_request \<Rightarrow> source_ref list \<Rightarrow> assistant_result \<Rightarrow> bool" where
  "answer_ok q refs res =
     (az_request_id res = ar_request_id q \<and> cs_base_revision (az_change_set res) = pd_revision (ar_plan q) \<and>
      length (cs_cards (az_change_set res)) \<le> 5 \<and>
      list_all (judged (ar_plan q) (ar_today q) refs) (cs_cards (az_change_set res)))"

lemma assistant_answer_result:
  assumes q: "request_ok q" "ar_base_revision q = pd_revision (ar_plan q)" and p: "profile_ok prof"
  shows "\<exists>r res. assistant_answer fromiso q prof b g = Inr r \<and> sv_result r = Some res \<and> answer_ok q (gx_cited g) res"
proof -
  let ?ws = "warning_issues (gx_warnings g)"
  obtain cs where cs: "cards_from_generation_output fromiso (gx_output g) (gx_cited g) (ap_max_cards prof) = Inr cs"
    "int (length cs) \<le> ap_max_cards prof" "list_all (parsed (gx_cited g)) cs"
    using cards_from_output_parsed [of "ap_max_cards prof" fromiso "gx_output g" "gx_cited g"] profile_fields [OF p] by auto
  obtain raw where raw: "(if list_ex (\<lambda>i. ce_code i = ''unsafe_advice'') ?ws then Inr []
      else cards_from_generation_output fromiso (gx_output g) (gx_cited g) (ap_max_cards prof)) = Inr raw"
    "int (length raw) \<le> ap_max_cards prof" "list_all (parsed (gx_cited g)) raw"
    by (rule that [of "if list_ex (\<lambda>i. ce_code i = ''unsafe_advice'') ?ws then [] else cs"])
      (use cs profile_fields [OF p] in simp_all)
  obtain cards where cards: "validate_change_cards (ar_plan q) (ar_today q) raw = Inr cards" "length cards = length raw"
    "list_all (judged (ar_plan q) (ar_today q) (gx_cited g)) cards"
    using validate_change_cards_judged [OF raw(3)] by blast
  have len: "length cards \<le> 5" using raw(2) cards(2) profile_fields [OF p] by linarith
  let ?set = "\<lparr>cs_id = ''changes:'' @ ar_request_id q, cs_base_revision = ar_base_revision q, cs_cards = cards\<rparr>"
  let ?res = "\<lparr>az_reply = assistant_reply (gx_output g) (length cards), az_change_set = ?set, az_request_id = ar_request_id q\<rparr>"
  let ?r = "\<lparr>sv_result = Some ?res,
              sv_issues = ?ws @ (if raw \<noteq> [] \<and> \<not> list_ex (\<lambda>c. cc_status c = ''pending'') cards then
                [issue ''change_card_rejected'' Sev_warning ''all assistant change cards were rejected by validation''] else []),
              sv_profile_version = ap_version prof, sv_fact_count = Some (length (fb_facts b)),
              sv_ref_count = Some (length (fb_refs b))\<rparr>"
  have "new_change_set ?set = Inr ?set" "new_assistant_result ?res = Inr ?res"
    using len changes_not_blank request_fields [OF q(1)] by (simp_all add: new_change_set_def new_assistant_result_def)
  moreover have "new_service_result ?r = Inr ?r"
    using profile_fields [OF p] warning_issues_not_fatal by (simp add: new_service_result_def issue_def)
  ultimately have "assistant_answer fromiso q prof b g = Inr ?r"
    unfolding assistant_answer_def Let_def raw(1) using cards(1) by simp
  moreover have "answer_ok q (gx_cited g) ?res" using q(2) len cards(3) by (simp add: answer_ok_def)
  ultimately show ?thesis by (intro exI conjI) auto
qed


section \<open>Grounding\<close>

lemma inspect_cited: "inspect te r domain ic operation kind g = Inr g' \<Longrightarrow> gx_cited g' = gx_cited g"
  by (auto simp: inspect_def apply_text_rules_def Let_def res_bind_eq_Inr split: option.splits if_splits)

lemma generate_cited:
  assumes "generate te r b sc schema domain ic operation kind support inputs raw = Inr g" "x \<in> set (gx_cited g)"
  shows "matches te b x"
proof -
  from assms(1) obtain pre where pre: "inspect_input te r domain operation kind (if schema then JDict [] else JStr []) inputs = Inr pre"
    by (auto simp: generate_def res_bind_eq_Inr)
  show ?thesis
  proof (cases pre)
    case (Some refusal)
    with pre assms show ?thesis by (auto simp: generate_def inspect_input_def res_bind_eq_Inr split: option.splits)
  next
    case None
    with assms(1) pre obtain v where v: "validate_citations te r b sc (case support of None \<Rightarrow> raw | Some f \<Rightarrow> f raw b) = Inr v"
      "inspect te r domain ic operation kind v = Inr g"
      by (auto simp: generate_def res_bind_eq_Inr)
    have "gx_cited g = unique_refs [] (concat (map cl_refs (gx_claims v)))"
      using validate_citations_claims [OF v(1)] inspect_cited [OF v(2)] by simp
    then have "set (gx_cited g) \<subseteq> (\<Union>c \<in> set (gx_claims v). set (cl_refs c))"
      using unique_refs_sound [of "[]" "concat (map cl_refs (gx_claims v))"] by simp
    then obtain c where c: "c \<in> set (gx_claims v)" "x \<in> set (cl_refs c)" using assms(2) by blast
    then have "grounded_claim te r b sc c" using validate_citations_claims [OF v(1)] by blast
    then show ?thesis using c(2) by (auto simp: grounded_claim_def matches_refl split: content_class.splits)
  qed
qed

lemma dedupe_refs_subset: "set (dedupe_refs seen rs) \<subseteq> set rs"
  by (induction rs arbitrary: seen) auto

definition grounded_pipeline ::
    "text_env \<Rightarrow> grounded_rules \<Rightarrow> student_context option \<Rightarrow> string \<Rightarrow> json \<Rightarrow> generation_result \<Rightarrow> pipeline" where
  "grounded_pipeline te r sc operation inputs raw b =
     (case generate te r b sc True ''competition'' False (Some operation) None None inputs raw of Inl _ \<Rightarrow> None | Inr g \<Rightarrow> Some g)"

definition known_refs :: "assistant_request \<Rightarrow> knowledge_index option \<Rightarrow> source_ref list" where
  "known_refs q index =
     pd_refs (ar_plan q) @
     (case index of None \<Rightarrow> [] | Some (version, query) \<Rightarrow>
        (case query (ar_message q) 6 of None \<Rightarrow> [] | Some found \<Rightarrow> map kh_ref found))"

lemma assistant_bundle_refs: "assistant_bundle q index = Some b \<Longrightarrow> set (fb_refs b) \<subseteq> set (known_refs q index)"
  using dedupe_refs_subset by (auto simp: assistant_bundle_def known_refs_def Let_def split: option.splits) fastforce+

text \<open>
  Run on the grounded pipeline, the assistant's cards are grounded: every reference of every
  card agrees in document, heading, chunk and content hash with a reference of the plan or of a
  chunk the knowledge index returned for this message, whatever the model claimed to cite.
\<close>

theorem assistant_cards_grounded:
  assumes "request_ok q" and "profile_ok prof"
    and "suggest_plan_changes fromiso index (Some (grounded_pipeline te r sc operation inputs raw)) prof q = Inr sr"
    and "sv_result sr = Some res" and "c \<in> set (cs_cards (az_change_set res))" and "x \<in> set (cc_refs c)"
  shows "\<exists>x' \<in> set (known_refs q index). ref_key x' = ref_key x \<and> ref_content_hash te x' = ref_content_hash te x"
proof -
  have match: "ar_base_revision q = pd_revision (ar_plan q)"
  proof (rule ccontr)
    assume "ar_base_revision q \<noteq> pd_revision (ar_plan q)"
    with assms(3,4) show False
      by (auto simp: suggest_plan_changes_def service_failure_def new_service_result_def Let_def split: if_splits)
  qed
  then obtain b g where b: "assistant_bundle q index = Some b"
    and g: "generate te r b sc True ''competition'' False (Some operation) None None inputs raw = Inr g"
    and a: "assistant_answer fromiso q prof b g = Inr sr"
    using assms(3,4) by (auto simp: suggest_plan_changes_def grounded_pipeline_def service_failure_def new_service_result_def
        Let_def split: option.splits if_splits sum.splits)
  have "answer_ok q (gx_cited g) res" using assistant_answer_result [OF assms(1) match assms(2), of fromiso b g] a assms(4) by auto
  then have "x \<in> set (gx_cited g)" using assms(5,6) by (auto simp: answer_ok_def list_all_iff judged_def)
  from generate_cited [OF g this] assistant_bundle_refs [OF b] show ?thesis by (auto simp: matches_def)
qed

section \<open>A sample plan\<close>

definition sample_task :: "string \<Rightarrow> string \<Rightarrow> bool \<Rightarrow> plan_task" where
  "sample_task i phase mandatory =
     \<lparr>pk_id = i, pk_phase_id = phase, pk_label = i, pk_mandatory = mandatory, pk_estimated_weeks = None, pk_depends_on = [],
      pk_kind = (if mandatory then ''required'' else ''optional''), pk_hours = Some 2, pk_start = None, pk_due = Some 10\<rparr>"

definition sample_phase :: "string \<Rightarrow> date \<Rightarrow> date \<Rightarrow> plan_phase" where
  "sample_phase k s e = \<lparr>ph_id = ''phase:'' @ k, ph_key = k, ph_label = k, ph_start = s, ph_end = e, ph_task_ids = []\<rparr>"

definition sample_plan :: plan_draft where
  "sample_plan =
     \<lparr>pd_id = ''p'', pd_competition_id = ''c'', pd_time_model = ''submission_deadline'', pd_target = Some 40,
      pd_event_end = None, pd_defense = Some 54,
      pd_phases = [sample_phase ''foundation'' 0 20, sample_phase ''practice'' 21 40, sample_phase ''defense_prep'' 41 54],
      pd_tasks = [sample_task ''t1'' ''phase:foundation'' True], pd_optional = [sample_task ''t2'' ''phase:practice'' False],
      pd_milestones = [], pd_calendar = [], pd_risks = [], pd_refs = [demo_ref], pd_warnings = [], pd_revision = 3\<rparr>"

definition sample_ask :: assistant_request where
  "sample_ask = \<lparr>ar_today = 5, ar_base_revision = 3, ar_plan = sample_plan, ar_message = ''less'', ar_request_id = ''r1''\<rparr>"

definition sample_assistant_profile :: assistant_profile where
  "sample_assistant_profile =
     \<lparr>ap_version = ''v1'', ap_safety_domain = ''competition'', ap_operation_id = ''op'', ap_prompt_id = ''sys'', ap_timeout = 30,
      ap_max_cards = 5, ap_schema_closed = True\<rparr>"

text \<open>A model that deletes the required and the optional task and cites the plan's reference.\<close>

definition delete_payload :: "string \<Rightarrow> json" where
  "delete_payload t = JDict [(''type'', JStr ''delete_task''), (''summary'', JStr ''drop''), (''target_task_id'', JStr t)]"

definition sample_generation :: generation_result where
  "sample_generation =
     \<lparr>gx_output = JDict [(''cards'', JList [delete_payload ''t1'', delete_payload ''t2''])],
      gx_claims = [demo_claim Fact ''works on graphs'' [demo_ref]], gx_cited = [], gx_warnings = []\<rparr>"

definition sample_pipeline :: pipeline where
  "sample_pipeline = grounded_pipeline plain_text demo_rules None ''op'' (JDict []) sample_generation"

definition sample_cards :: "(plan_error, service_result) result \<Rightarrow> (string \<times> string option \<times> nat) list" where
  "sample_cards r =
     (case r of
        Inl _ \<Rightarrow> []
      | Inr s \<Rightarrow> (case sv_result s of
          None \<Rightarrow> []
        | Some res \<Rightarrow> map (\<lambda>c. (cc_status c, cc_code c, length (cc_refs c))) (cs_cards (az_change_set res))))"

lemma sample_run:
  "sample_cards (suggest_plan_changes (\<lambda>s. None) None (Some sample_pipeline) sample_assistant_profile sample_ask) =
     [(''rejected'', Some ''required_task_delete_forbidden'', 1), (''pending'', None, 1)]"
  by code_simp

lemma sample_ok: "request_ok sample_ask" "profile_ok sample_assistant_profile"
  by code_simp+


theorem assistant_cards_grounded_witness:
  "\<exists>r res c x. suggest_plan_changes (\<lambda>s. None) None (Some sample_pipeline) sample_assistant_profile sample_ask = Inr r \<and>
     sv_result r = Some res \<and> c \<in> set (cs_cards (az_change_set res)) \<and> x \<in> set (cc_refs c) \<and> ref_key x = ref_key demo_ref"
proof -
  let ?s = "suggest_plan_changes (\<lambda>s. None) None (Some sample_pipeline) sample_assistant_profile sample_ask"
  obtain r where s: "?s = Inr r" using sample_run by (cases ?s) (simp_all add: sample_cards_def)
  with sample_run obtain res where res: "sv_result r = Some res" by (cases "sv_result r") (simp_all add: sample_cards_def)
  with sample_run s obtain c cs where "cs_cards (az_change_set res) = c # cs" "length (cc_refs c) = 1"
    by (auto simp: sample_cards_def)
  with s res have r: "?s = Inr r" "sv_result r = Some res" "c \<in> set (cs_cards (az_change_set res))" "length (cc_refs c) = 1"
    by simp_all
  then obtain x where x: "x \<in> set (cc_refs c)" by (cases "cc_refs c") auto
  have "\<exists>x' \<in> set (known_refs sample_ask None). ref_key x' = ref_key x \<and> ref_content_hash plain_text x' = ref_content_hash plain_text x"
    by (rule assistant_cards_grounded [OF sample_ok r(1) [unfolded sample_pipeline_def] r(2,3) x])
  then have "ref_key x = ref_key demo_ref" by (auto simp: known_refs_def sample_ask_def sample_plan_def)
  with r x show ?thesis by blast
qed

definition overlapping_card :: change_card where
  "overlapping_card = (blank_card ''k'' ''reschedule_phase'' ''s'' ''r'')\<lparr>cc_refs := [demo_ref],
     cc_schedule := [\<lparr>pj_key = ''foundation'', pj_start = 10, pj_end = 30\<rparr>, \<lparr>pj_key = ''practice'', pj_start = 6, pj_end = 12\<rparr>]\<rparr>"

text \<open>
  A reschedule card is checked phase by phase only: a schedule that makes the practice phase
  start before and end inside the foundation phase passes validation, although the merged
  schedule overlaps.
\<close>

theorem overlapping_schedule_passes:
  "map_sum id cc_status (validate_change_card sample_plan 5 overlapping_card) = Inr ''pending'' \<and>
   map_sum id cc_validation (validate_change_card sample_plan 5 overlapping_card) = Inr ''passed''"
  by code_simp

end
