(* ===== verification/Dext_Plan_Repo.thy ===== *)
theory Dext_Plan_Repo
  imports Dext_Plan
begin

text \<open>
  The owner-scoped application state of the preparation plans
  (\<open>dext_competition/repositories/plans.py\<close>): the in-memory plan repository with optimistic
  revision checks and idempotent writes, the bounded assistant history, and the cleanup of an
  owner's data. A snapshot is the JSON object the client sent; the deep copies of the source are
  values here. An operation returns the new state together with its result, so that an error
  keeps whatever the call had done to the state.
\<close>

section \<open>Plan repository\<close>

datatype repo_error = Bad_snapshot string | Plan_not_found string | Revision_conflict string

record plan_repo =
  rp_plans :: "(string, (string, json) dict) dict"
  rp_idem :: "(string \<times> string, json) dict"

definition empty_repo :: plan_repo where
  "empty_repo = \<lparr>rp_plans = [], rp_idem = []\<rparr>"

definition snapshot_get :: "json \<Rightarrow> string \<Rightarrow> json" where
  "snapshot_get s k = (case s of JDict d \<Rightarrow> (case map_of d k of None \<Rightarrow> JNull | Some v \<Rightarrow> v) | _ \<Rightarrow> JNull)"

definition snapshot_plan_id :: "py_env \<Rightarrow> json \<Rightarrow> (repo_error, string) result" where
  "snapshot_plan_id env s =
     (let v = snapshot_get s ''id''; plan_id = py_strip (if truthy v then str_of env v else '''')
      in if plan_id = [] then Inl (Bad_snapshot ''plan snapshot id is required'') else Inr plan_id)"

definition snapshot_revision :: "json \<Rightarrow> (repo_error, int) result" where
  "snapshot_revision s =
     (case snapshot_get s ''revision'' of
        JInt n \<Rightarrow> if n < 0 then Inl (Bad_snapshot ''plan snapshot revision must be a non-negative integer'') else Inr n
      | _ \<Rightarrow> Inl (Bad_snapshot ''plan snapshot revision must be a non-negative integer''))"

definition owner_plans :: "plan_repo \<Rightarrow> string \<Rightarrow> (string, json) dict" where
  "owner_plans r owner = (case dict_get (rp_plans r) owner of None \<Rightarrow> [] | Some d \<Rightarrow> d)"

definition list_plans :: "plan_repo \<Rightarrow> string \<Rightarrow> json list" where
  "list_plans r owner = map snd (owner_plans r owner)"

definition get_plan :: "plan_repo \<Rightarrow> string \<Rightarrow> string \<Rightarrow> json option" where
  "get_plan r owner plan_id = dict_get (owner_plans r owner) plan_id"

text \<open>Subscripting the defaultdict creates the owner's entry.\<close>

definition touch_owner :: "string \<Rightarrow> plan_repo \<Rightarrow> plan_repo" where
  "touch_owner owner r = r\<lparr>rp_plans := dict_setdefault owner [] (rp_plans r)\<rparr>"

definition store_plan :: "string \<Rightarrow> string \<Rightarrow> string \<Rightarrow> json \<Rightarrow> plan_repo \<Rightarrow> plan_repo" where
  "store_plan owner plan_id key s r =
     r\<lparr>rp_plans := dict_set owner (dict_set plan_id s (owner_plans r owner)) (rp_plans r),
       rp_idem := dict_set (owner, key) s (rp_idem r)\<rparr>"

definition create_or_replace_plan ::
    "py_env \<Rightarrow> string \<Rightarrow> json \<Rightarrow> string \<Rightarrow> plan_repo \<Rightarrow> plan_repo \<times> (repo_error, json) result" where
  "create_or_replace_plan env owner s key r =
     (case dict_get (rp_idem r) (owner, key) of
        Some old \<Rightarrow> (r, Inr old)
      | None \<Rightarrow>
          (case snapshot_plan_id env s of
             Inl e \<Rightarrow> (r, Inl e)
           | Inr plan_id \<Rightarrow>
               (case snapshot_revision s of
                  Inl e \<Rightarrow> (r, Inl e)
                | Inr incoming \<Rightarrow>
                    (let r1 = touch_owner owner r
                     in (case get_plan r1 owner plan_id of
                           None \<Rightarrow> (store_plan owner plan_id key s r1, Inr s)
                         | Some current \<Rightarrow>
                             (case snapshot_revision current of
                                Inl e \<Rightarrow> (r1, Inl e)
                              | Inr n \<Rightarrow>
                                  if incoming < n then
                                    (r1, Inl (Revision_conflict ''incoming revision is older than persisted revision''))
                                  else (store_plan owner plan_id key s r1, Inr s)))))))"

definition save_new_revision ::
    "py_env \<Rightarrow> string \<Rightarrow> string \<Rightarrow> json \<Rightarrow> string \<Rightarrow> plan_repo \<Rightarrow> plan_repo \<times> (repo_error, json) result" where
  "save_new_revision env owner plan_id s key r =
     (case dict_get (rp_idem r) (owner, key) of
        Some old \<Rightarrow> (r, Inr old)
      | None \<Rightarrow>
          (case snapshot_plan_id env s of
             Inl e \<Rightarrow> (r, Inl e)
           | Inr pid \<Rightarrow>
               if pid \<noteq> plan_id then (r, Inl (Bad_snapshot ''path plan_id must match plan snapshot id''))
               else
                 (case get_plan r owner plan_id of
                    None \<Rightarrow> (r, Inl (Plan_not_found plan_id))
                  | Some current \<Rightarrow>
                      (case snapshot_revision s of
                         Inl e \<Rightarrow> (r, Inl e)
                       | Inr incoming \<Rightarrow>
                           (case snapshot_revision current of
                              Inl e \<Rightarrow> (r, Inl e)
                            | Inr n \<Rightarrow>
                                if incoming \<noteq> n + 1 then
                                  (r, Inl (Revision_conflict ''incoming revision must be exactly current revision + 1''))
                                else (store_plan owner plan_id key s r, Inr s))))))"

definition delete_plan :: "string \<Rightarrow> string \<Rightarrow> plan_repo \<Rightarrow> plan_repo \<times> bool" where
  "delete_plan owner plan_id r =
     (case dict_get (rp_plans r) owner of
        None \<Rightarrow> (r, False)
      | Some d \<Rightarrow> (r\<lparr>rp_plans := dict_set owner (dict_pop plan_id d) (rp_plans r)\<rparr>, dict_get d plan_id \<noteq> None))"

definition cleanup_owner :: "string \<Rightarrow> plan_repo \<Rightarrow> plan_repo \<times> nat" where
  "cleanup_owner owner r =
     (r\<lparr>rp_plans := dict_pop owner (rp_plans r), rp_idem := filter (\<lambda>(k, v). fst k \<noteq> owner) (rp_idem r)\<rparr>,
      length (owner_plans r owner))"

section \<open>Assistant history\<close>

record history_repo =
  hr_turns :: "(string \<times> string, json list) dict"
  hr_max :: int

text \<open>\<open>xs[-n:]\<close>: for \<open>n = 0\<close> the whole list, for a negative \<open>n\<close> the list without its first \<open>-n\<close> items.\<close>

definition last_slice :: "int \<Rightarrow> 'a list \<Rightarrow> 'a list" where
  "last_slice n xs = (if n \<le> 0 then drop (nat (- n)) xs else drop (length xs - nat n) xs)"

definition turns_of :: "history_repo \<Rightarrow> string \<Rightarrow> string \<Rightarrow> json list" where
  "turns_of h owner plan_id = (case dict_get (hr_turns h) (owner, plan_id) of None \<Rightarrow> [] | Some ts \<Rightarrow> ts)"

definition append_turn :: "string \<Rightarrow> string \<Rightarrow> json \<Rightarrow> history_repo \<Rightarrow> history_repo" where
  "append_turn owner plan_id t h =
     (let ts = turns_of h owner plan_id @ [t]
      in h\<lparr>hr_turns := dict_set (owner, plan_id) (if int (length ts) > hr_max h then last_slice (hr_max h) ts else ts) (hr_turns h)\<rparr>)"

definition list_turns :: "history_repo \<Rightarrow> string \<Rightarrow> string \<Rightarrow> int \<Rightarrow> json list" where
  "list_turns h owner plan_id limit = last_slice limit (turns_of h owner plan_id)"

definition history_delete_plan :: "string \<Rightarrow> string \<Rightarrow> history_repo \<Rightarrow> history_repo \<times> nat" where
  "history_delete_plan owner plan_id h =
     (h\<lparr>hr_turns := dict_pop (owner, plan_id) (hr_turns h)\<rparr>, length (turns_of h owner plan_id))"

definition history_cleanup_owner :: "string \<Rightarrow> history_repo \<Rightarrow> history_repo \<times> nat" where
  "history_cleanup_owner owner h =
     (h\<lparr>hr_turns := filter (\<lambda>(k, v). fst k \<noteq> owner) (hr_turns h)\<rparr>,
      sum_list (map (length \<circ> snd) (filter (\<lambda>(k, v). fst k = owner) (hr_turns h))))"

record cleanup_result =
  cr_owner :: string
  cr_plans_deleted :: nat
  cr_history_deleted :: nat

definition cleanup_owner_remote_data :: "string \<Rightarrow> plan_repo \<times> history_repo \<Rightarrow> (plan_repo \<times> history_repo) \<times> cleanup_result" where
  "cleanup_owner_remote_data owner st =
     (let (h, nh) = history_cleanup_owner owner (snd st);
          (r, np) = cleanup_owner owner (fst st)
      in ((r, h), \<lparr>cr_owner = owner, cr_plans_deleted = np, cr_history_deleted = nh\<rparr>))"

section \<open>Owner scopes\<close>

text \<open>A sequence of operations, with the results in order.\<close>

fun run_ops :: "('op \<Rightarrow> 's \<Rightarrow> 's \<times> 'out) \<Rightarrow> 'op list \<Rightarrow> 's \<Rightarrow> 's \<times> 'out list" where
  "run_ops step [] s = (s, [])"
| "run_ops step (a # ops) s = (let (s1, x) = step a s; (s2, xs) = run_ops step ops s1 in (s2, x # xs))"

text \<open>The contract of the repositories' owner scoping: an operation does not change what another
  owner sees, and its own result and effect depend on nothing but what its owner sees.\<close>

locale owner_scoped =
  fixes step :: "'op \<Rightarrow> 's \<Rightarrow> 's \<times> 'out"
    and owner :: "'op \<Rightarrow> 'o"
    and view :: "'o \<Rightarrow> 's \<Rightarrow> 'v"
  assumes frame: "owner a \<noteq> w \<Longrightarrow> view w (fst (step a s)) = view w s"
    and own_view: "view (owner a) s = view (owner a) t \<Longrightarrow> view (owner a) (fst (step a s)) = view (owner a) (fst (step a t))"
    and own_result: "view (owner a) s = view (owner a) t \<Longrightarrow> snd (step a s) = snd (step a t)"
begin

definition visible :: "'o \<Rightarrow> 'op list \<Rightarrow> 'out list \<Rightarrow> 'out list" where
  "visible w ops outs = map snd (filter (\<lambda>(a, x). owner a = w) (zip ops outs))"

lemma noninterference:
  "view w s = view w t \<Longrightarrow>
   visible w ops (snd (run_ops step ops s)) = snd (run_ops step (filter (\<lambda>a. owner a = w) ops) t) \<and>
   view w (fst (run_ops step ops s)) = view w (fst (run_ops step (filter (\<lambda>a. owner a = w) ops) t))"
proof (induction ops arbitrary: s t)
  case Nil
  then show ?case by (simp add: visible_def)
next
  case (Cons a ops)
  show ?case
  proof (cases "owner a = w")
    case True
    with Cons.prems have "snd (step a s) = snd (step a t)" "view w (fst (step a s)) = view w (fst (step a t))"
      using own_result own_view by blast+
    with True Cons.IH show ?thesis by (simp add: visible_def Let_def case_prod_unfold)
  next
    case False
    with Cons.prems have "view w (fst (step a s)) = view w t" using frame by simp
    with False Cons.IH show ?thesis by (simp add: visible_def Let_def case_prod_unfold)
  qed
qed

end

section \<open>What an owner sees\<close>

definition own :: "string \<Rightarrow> (string \<times> string, 'v) dict \<Rightarrow> (string \<times> string, 'v) dict" where
  "own owner d = filter (\<lambda>(k, v). fst k = owner) d"

lemma own_get: "dict_get d (owner, k) = dict_get (own owner d) (owner, k)"
  by (induction d) (auto simp: dict_get_def own_def)

lemma own_mem: "(owner, k) \<in> fst ` set (own owner d) \<longleftrightarrow> (owner, k) \<in> fst ` set d"
  by (force simp: own_def)

lemma own_upd:
  "own owner (map (\<lambda>(k', v'). if k' = k then (k', v) else (k', v')) d) =
   map (\<lambda>(k', v'). if k' = k then (k', v) else (k', v')) (own owner d)"
  by (induction d) (auto simp: own_def split: if_splits)

lemma own_set: "own owner (dict_set (owner, k) v d) = dict_set (owner, k) v (own owner d)"
  using own_mem [of owner k d] own_upd [of owner "(owner, k)" v d] by (simp add: dict_set_def) (simp add: own_def)

lemma own_set_other: "other \<noteq> owner \<Longrightarrow> own owner (dict_set (other, k) v d) = own owner d"
proof -
  assume other: "other \<noteq> owner"
  have "map (\<lambda>(k', v'). if k' = (other, k) then (k', v) else (k', v')) (own owner d) = own owner d"
    by (induction d) (use other in \<open>auto simp: own_def\<close>)
  with other show ?thesis by (auto simp: dict_set_def own_upd) (simp add: own_def)
qed

lemma own_pop: "own owner (dict_pop (owner, k) d) = dict_pop (owner, k) (own owner d)"
  "other \<noteq> owner \<Longrightarrow> own owner (dict_pop (other, k) d) = own owner d"
  by (induction d) (auto simp: own_def dict_pop_def)

lemma own_clean: "own owner (filter (\<lambda>(k, v). fst k \<noteq> owner) d) = []"
  "other \<noteq> owner \<Longrightarrow> own owner (filter (\<lambda>(k, v). fst k \<noteq> other) d) = own owner d"
  by (induction d) (auto simp: own_def)

definition plan_view :: "string \<Rightarrow> plan_repo \<Rightarrow> (string, json) dict \<times> (string \<times> string, json) dict" where
  "plan_view owner r = (owner_plans r owner, own owner (rp_idem r))"

definition history_view :: "string \<Rightarrow> history_repo \<Rightarrow> (string \<times> string, json list) dict \<times> int" where
  "history_view owner h = (own owner (hr_turns h), hr_max h)"

lemma owner_plans_touch [simp]: "owner_plans (touch_owner o' r) w = owner_plans r w" "rp_idem (touch_owner o' r) = rp_idem r"
  by (auto simp: owner_plans_def touch_owner_def dict_get_setdefault split: option.split)

lemma plan_view_touch [simp]: "plan_view w (touch_owner o' r) = plan_view w r"
  by (simp add: plan_view_def)

lemma plan_view_store:
  "plan_view w (store_plan w pid key s r) =
     (dict_set pid s (fst (plan_view w r)), dict_set (w, key) s (snd (plan_view w r)))"
  "o' \<noteq> w \<Longrightarrow> plan_view w (store_plan o' pid key s r) = plan_view w r"
  by (simp_all add: plan_view_def store_plan_def owner_plans_def dict_get_set own_set own_set_other)

lemma get_plan_view: "get_plan r w pid = dict_get (fst (plan_view w r)) pid" "list_plans r w = map snd (fst (plan_view w r))"
  "dict_get (rp_idem r) (w, key) = dict_get (snd (plan_view w r)) (w, key)"
  by (simp_all add: get_plan_def list_plans_def plan_view_def own_get [symmetric])

lemma get_plan_touch [simp]: "get_plan (touch_owner o' r) w pid = get_plan r w pid"
  by (simp add: get_plan_def)

lemma create_frame: "o' \<noteq> w \<Longrightarrow> plan_view w (fst (create_or_replace_plan env o' s key r)) = plan_view w r"
  by (auto simp: create_or_replace_plan_def Let_def plan_view_store split: option.splits sum.splits)

lemma save_frame: "o' \<noteq> w \<Longrightarrow> plan_view w (fst (save_new_revision env o' pid s key r)) = plan_view w r"
  by (auto simp: save_new_revision_def plan_view_store split: option.splits sum.splits)

lemma create_own:
  assumes "plan_view w r = plan_view w t"
  shows "snd (create_or_replace_plan env w s key r) = snd (create_or_replace_plan env w s key t) \<and>
    plan_view w (fst (create_or_replace_plan env w s key r)) = plan_view w (fst (create_or_replace_plan env w s key t))"
  using assms get_plan_view(1,3)
  by (auto simp: create_or_replace_plan_def Let_def plan_view_store split: option.splits sum.splits)

lemma save_own:
  assumes "plan_view w r = plan_view w t"
  shows "snd (save_new_revision env w pid s key r) = snd (save_new_revision env w pid s key t) \<and>
    plan_view w (fst (save_new_revision env w pid s key r)) = plan_view w (fst (save_new_revision env w pid s key t))"
  using assms get_plan_view(1,3)
  by (auto simp: save_new_revision_def plan_view_store split: option.splits sum.splits)

lemma delete_view:
  "plan_view w (fst (delete_plan w pid r)) = (dict_pop pid (fst (plan_view w r)), snd (plan_view w r))"
  "snd (delete_plan w pid r) = (dict_get (fst (plan_view w r)) pid \<noteq> None)"
  "o' \<noteq> w \<Longrightarrow> plan_view w (fst (delete_plan o' pid r)) = plan_view w r"
  by (auto simp: plan_view_def delete_plan_def owner_plans_def dict_get_set dict_pop_def [of _ "[]"] dict_get_def [of "[]"] split: option.split)

lemma cleanup_view:
  "plan_view w (fst (cleanup_owner w r)) = ([], [])" "snd (cleanup_owner w r) = length (fst (plan_view w r))"
  "o' \<noteq> w \<Longrightarrow> plan_view w (fst (cleanup_owner o' r)) = plan_view w r"
  by (simp_all add: plan_view_def cleanup_owner_def owner_plans_def dict_get_pop own_clean)

lemma turns_view: "turns_of h w pid = (case dict_get (fst (history_view w h)) (w, pid) of None \<Rightarrow> [] | Some ts \<Rightarrow> ts)"
  by (simp add: turns_of_def history_view_def own_get [symmetric])

lemma append_view:
  "plan \<noteq> w \<Longrightarrow> history_view w (append_turn plan pid t h) = history_view w h"
  "history_view w h = history_view w h' \<Longrightarrow> history_view w (append_turn w pid t h) = history_view w (append_turn w pid t h')"
  using turns_view [of h w pid] turns_view [of h' w pid]
  by (auto simp: append_turn_def history_view_def Let_def own_set own_set_other)

lemma history_delete_view:
  "history_view w (fst (history_delete_plan w pid h)) = (dict_pop (w, pid) (fst (history_view w h)), snd (history_view w h))"
  "o' \<noteq> w \<Longrightarrow> history_view w (fst (history_delete_plan o' pid h)) = history_view w h"
  by (simp_all add: history_view_def history_delete_plan_def own_pop)

lemma history_cleanup_view:
  "history_view w (fst (history_cleanup_owner w h)) = ([], snd (history_view w h))"
  "snd (history_cleanup_owner w h) = sum_list (map (length \<circ> snd) (fst (history_view w h)))"
  "o' \<noteq> w \<Longrightarrow> history_view w (fst (history_cleanup_owner o' h)) = history_view w h"
  by (simp_all add: history_view_def history_cleanup_owner_def own_clean) (simp add: own_def)

section \<open>Operations of the plan repository\<close>

datatype repo_op =
  Create string json string
| Save string string json string
| Delete string string
| Cleanup string

datatype repo_out = Out_plan "(repo_error, json) result" | Out_deleted bool | Out_count nat

fun op_owner :: "repo_op \<Rightarrow> string" where
  "op_owner (Create w s key) = w"
| "op_owner (Save w pid s key) = w"
| "op_owner (Delete w pid) = w"
| "op_owner (Cleanup w) = w"

fun repo_step :: "py_env \<Rightarrow> repo_op \<Rightarrow> plan_repo \<Rightarrow> plan_repo \<times> repo_out" where
  "repo_step env (Create w s key) r = map_prod id Out_plan (create_or_replace_plan env w s key r)"
| "repo_step env (Save w pid s key) r = map_prod id Out_plan (save_new_revision env w pid s key r)"
| "repo_step env (Delete w pid) r = map_prod id Out_deleted (delete_plan w pid r)"
| "repo_step env (Cleanup w) r = map_prod id Out_count (cleanup_owner w r)"

lemma repo_step_own:
  assumes v: "plan_view (op_owner a) s = plan_view (op_owner a) t"
  shows "plan_view (op_owner a) (fst (repo_step env a s)) = plan_view (op_owner a) (fst (repo_step env a t)) \<and>
    snd (repo_step env a s) = snd (repo_step env a t)"
proof (cases a)
  case (Create w x key)
  with v create_own [of w s t env x key] show ?thesis by simp
next
  case (Save w pid x key)
  with v save_own [of w s t env pid x key] show ?thesis by simp
qed (use v in \<open>simp_all add: delete_view cleanup_view\<close>)

interpretation repo: owner_scoped "repo_step env" op_owner plan_view
proof
  fix a w s assume "op_owner a \<noteq> w"
  then show "plan_view w (fst (repo_step env a s)) = plan_view w s"
    by (cases a) (simp_all add: create_frame save_frame delete_view cleanup_view)
next
  fix a s t assume v: "plan_view (op_owner a) s = plan_view (op_owner a) t"
  from repo_step_own [OF this] show "plan_view (op_owner a) (fst (repo_step env a s)) = plan_view (op_owner a) (fst (repo_step env a t))"
    "snd (repo_step env a s) = snd (repo_step env a t)" by simp_all
qed

section \<open>Well-formed repositories\<close>

definition valid_as :: "py_env \<Rightarrow> string \<Rightarrow> json \<Rightarrow> bool" where
  "valid_as env pid s = (snapshot_plan_id env s = Inr pid \<and> (\<exists>n. snapshot_revision s = Inr n))"

definition repo_ok :: "py_env \<Rightarrow> plan_repo \<Rightarrow> bool" where
  "repo_ok env r = (\<forall>w pid s. get_plan r w pid = Some s \<longrightarrow> valid_as env pid s)"

lemma repo_ok_empty: "repo_ok env empty_repo"
  by (simp add: repo_ok_def empty_repo_def get_plan_def owner_plans_def dict_get_def)

lemma get_store:
  "get_plan (store_plan w pid key s r) w' pid' = (if w' = w \<and> pid' = pid then Some s else get_plan r w' pid')"
  by (simp add: get_plan_def store_plan_def owner_plans_def dict_get_set)

lemma get_delete: "get_plan (fst (delete_plan w pid r)) w' pid' = (if w' = w \<and> pid' = pid then None else get_plan r w' pid')"
  by (cases "w' = w") (simp_all add: get_plan_view delete_view dict_get_pop)

lemma get_cleanup: "get_plan (fst (cleanup_owner w r)) w' pid' = (if w' = w then None else get_plan r w' pid')"
  by (cases "w' = w") (simp_all add: get_plan_view cleanup_view dict_get_def)

text \<open>The cases of a write: an error or a replay changes no plan; otherwise the snapshot is stored.\<close>

lemma create_cases:
  assumes "repo_ok env r"
  obtains (same) "\<And>w' pid'. get_plan (fst (create_or_replace_plan env w s key r)) w' pid' = get_plan r w' pid'"
      "rp_idem (fst (create_or_replace_plan env w s key r)) = rp_idem r"
      "dict_get (rp_idem r) (w, key) = None \<Longrightarrow> \<exists>e. snd (create_or_replace_plan env w s key r) = Inl e"
    | (stored) pid n where "create_or_replace_plan env w s key r = (store_plan w pid key s (touch_owner w r), Inr s)"
      "dict_get (rp_idem r) (w, key) = None" "snapshot_plan_id env s = Inr pid" "snapshot_revision s = Inr n"
      "\<And>cur m. get_plan r w pid = Some cur \<Longrightarrow> snapshot_revision cur = Inr m \<Longrightarrow> m \<le> n"
proof (cases "dict_get (rp_idem r) (w, key)")
  case (Some old)
  then show ?thesis using same by (simp add: create_or_replace_plan_def)
next
  case idem: None
  show ?thesis
  proof (cases "\<exists>pid n. snapshot_plan_id env s = Inr pid \<and> snapshot_revision s = Inr n \<and>
      (\<forall>cur m. get_plan r w pid = Some cur \<longrightarrow> snapshot_revision cur = Inr m \<longrightarrow> m \<le> n)")
    case True
    then obtain pid n where p: "snapshot_plan_id env s = Inr pid" "snapshot_revision s = Inr n"
      "\<And>cur m. get_plan r w pid = Some cur \<Longrightarrow> snapshot_revision cur = Inr m \<Longrightarrow> m \<le> n" by blast
    have "create_or_replace_plan env w s key r = (store_plan w pid key s (touch_owner w r), Inr s)"
    proof (cases "get_plan r w pid")
      case (Some cur)
      with assms obtain m where "snapshot_revision cur = Inr m" unfolding repo_ok_def valid_as_def by blast
      moreover with p(3) Some have "m \<le> n" by blast
      ultimately show ?thesis using Some idem p(1,2) by (simp add: create_or_replace_plan_def Let_def)
    qed (use idem p in \<open>simp add: create_or_replace_plan_def\<close>)
    from stored [OF this idem p] show ?thesis .
  next
    case False
    have "fst (create_or_replace_plan env w s key r) \<in> {r, touch_owner w r} \<and>
        (\<exists>e. snd (create_or_replace_plan env w s key r) = Inl e)"
      using False idem by (auto simp: create_or_replace_plan_def Let_def split: option.splits sum.splits)
    then show ?thesis using same by auto
  qed
qed

lemma save_cases:
  assumes "repo_ok env r"
  obtains (same) "fst (save_new_revision env w pid s key r) = r"
      "dict_get (rp_idem r) (w, key) = None \<Longrightarrow> \<exists>e. snd (save_new_revision env w pid s key r) = Inl e"
    | (stored) cur n where "save_new_revision env w pid s key r = (store_plan w pid key s r, Inr s)"
      "dict_get (rp_idem r) (w, key) = None" "snapshot_plan_id env s = Inr pid" "snapshot_revision s = Inr (n + 1)"
      "get_plan r w pid = Some cur" "snapshot_revision cur = Inr n"
proof (cases "dict_get (rp_idem r) (w, key)")
  case (Some old)
  then show ?thesis using same by (simp add: save_new_revision_def)
next
  case idem: None
  show ?thesis
  proof (cases "\<exists>cur n. snapshot_plan_id env s = Inr pid \<and> get_plan r w pid = Some cur \<and> snapshot_revision cur = Inr n \<and>
      snapshot_revision s = Inr (n + 1)")
    case True
    then obtain cur n where p: "snapshot_plan_id env s = Inr pid" "get_plan r w pid = Some cur" "snapshot_revision cur = Inr n"
      "snapshot_revision s = Inr (n + 1)" by blast
    then have "save_new_revision env w pid s key r = (store_plan w pid key s r, Inr s)"
      using idem by (simp add: save_new_revision_def)
    with idem p show ?thesis using stored by blast
  next
    case False
    then have "fst (save_new_revision env w pid s key r) = r \<and> (\<exists>e. snd (save_new_revision env w pid s key r) = Inl e)"
      using idem by (auto simp: save_new_revision_def split: option.splits sum.splits)
    then show ?thesis using same by blast
  qed
qed

fun removes :: "string \<Rightarrow> string \<Rightarrow> repo_op \<Rightarrow> bool" where
  "removes w pid (Delete w' pid') = (w' = w \<and> pid' = pid)"
| "removes w pid (Cleanup w') = (w' = w)"
| "removes w pid a = False"

definition revision_of :: "plan_repo \<Rightarrow> string \<Rightarrow> string \<Rightarrow> int option" where
  "revision_of r w pid =
     (case get_plan r w pid of None \<Rightarrow> None | Some s \<Rightarrow> (case snapshot_revision s of Inl _ \<Rightarrow> None | Inr n \<Rightarrow> Some n))"

lemma repo_step_ok:
  assumes "repo_ok env r"
  shows "repo_ok env (fst (repo_step env a r)) \<and>
    (\<not> removes w pid a \<and> revision_of r w pid = Some n \<longrightarrow> (\<exists>m \<ge> n. revision_of (fst (repo_step env a r)) w pid = Some m))"
proof (cases a)
  case (Create w' s key)
  show ?thesis
  proof (rule create_cases [OF assms, of w' s key], goal_cases)
    case 1
    with assms show ?thesis by (simp add: Create repo_ok_def revision_of_def)
  next
    case (2 pid' n')
    have "repo_ok env (fst (repo_step env a r))"
      using assms 2 by (auto simp: Create repo_ok_def get_store valid_as_def)
    moreover have "\<exists>m \<ge> n. revision_of (fst (repo_step env a r)) w pid = Some m" if "revision_of r w pid = Some n"
      using that 2 by (auto simp: Create revision_of_def get_store split: option.splits sum.splits)
    ultimately show ?thesis by blast
  qed
next
  case (Save w' pid' s key)
  show ?thesis
  proof (rule save_cases [OF assms, of w' pid' s key], goal_cases)
    case 1
    with assms show ?thesis by (simp add: Save)
  next
    case (2 cur n')
    have "repo_ok env (fst (repo_step env a r))"
      using assms 2 by (auto simp: Save repo_ok_def get_store valid_as_def)
    moreover have "\<exists>m \<ge> n. revision_of (fst (repo_step env a r)) w pid = Some m" if "revision_of r w pid = Some n"
      using that 2 by (auto simp: Save revision_of_def get_store split: option.splits sum.splits)
    ultimately show ?thesis by blast
  qed
next
  case (Delete w' pid')
  with assms show ?thesis by (auto simp: repo_ok_def get_delete revision_of_def)
next
  case (Cleanup w')
  with assms show ?thesis by (auto simp: repo_ok_def get_cleanup revision_of_def)
qed

lemma run_ops_fst: "fst (run_ops step (a # ops) s) = fst (run_ops step ops (fst (step a s)))"
  by (simp add: Let_def case_prod_unfold)

lemma run_ops_append: "fst (run_ops step (xs @ ys) s) = fst (run_ops step ys (fst (run_ops step xs s)))"
  by (induction xs arbitrary: s) (simp_all add: Let_def case_prod_unfold)

lemma revisions_kept:
  assumes "repo_ok env r" "list_all (\<lambda>a. \<not> removes w pid a) ops" "revision_of r w pid = Some n"
  shows "\<exists>m \<ge> n. revision_of (fst (run_ops (repo_step env) ops r)) w pid = Some m"
  using assms
proof (induction ops arbitrary: r n)
  case (Cons a ops)
  obtain m where m: "m \<ge> n" "revision_of (fst (repo_step env a r)) w pid = Some m"
    using repo_step_ok [OF Cons.prems(1), of a w pid n] Cons.prems(2,3) by auto
  have "repo_ok env (fst (repo_step env a r))" using repo_step_ok [OF Cons.prems(1)] by blast
  from Cons.IH [OF this _ m(2)] Cons.prems(2) m(1) show ?case unfolding run_ops_fst by auto
qed (simp del: run_ops.simps add: run_ops.simps(1))

section \<open>Properties\<close>

text \<open>
  Revisions only grow: in every sequence of writes, deletions and cleanups by any owners, a
  stored plan that is not itself removed stays stored, with a revision that is at least the
  revision it had.
\<close>

theorem revisions_never_decrease:
  assumes "list_all (\<lambda>a. \<not> removes w pid a) later"
    and "revision_of (fst (run_ops (repo_step env) earlier empty_repo)) w pid = Some n"
  shows "\<exists>m \<ge> n. revision_of (fst (run_ops (repo_step env) (earlier @ later) empty_repo)) w pid = Some m"
proof -
  have "repo_ok env (fst (run_ops (repo_step env) earlier r))" if "repo_ok env r" for r
    using that by (induction earlier arbitrary: r) (simp, metis run_ops_fst repo_step_ok)
  from revisions_kept [OF this [OF repo_ok_empty] assms] show ?thesis by (simp add: run_ops_append)
qed

text \<open>
  C37: Optimistic locking: an accepted new revision is exactly one above the stored one and
  replaces this plan only, and a second write prepared from the same revision (with a key of its
  own) is refused as a conflict, so no update is lost.
\<close>

theorem concurrent_save_conflicts:
  assumes "repo_ok env r" and "dict_get (rp_idem r) (w, key) = None"
    and "save_new_revision env w pid s key r = (r', Inr out)"
    and "key' \<noteq> key" and "dict_get (rp_idem r) (w, key') = None"
    and "snapshot_plan_id env s' = Inr pid" and "snapshot_revision s' = snapshot_revision s"
  shows "(\<exists>n. revision_of r w pid = Some n \<and> revision_of r' w pid = Some (n + 1)) \<and> out = s \<and>
    (\<forall>w' pid'. (w', pid') \<noteq> (w, pid) \<longrightarrow> get_plan r' w' pid' = get_plan r w' pid') \<and>
    (\<exists>m. save_new_revision env w pid s' key' r' = (r', Inl (Revision_conflict m)))"
proof (rule save_cases [OF assms(1), of w pid s key], goal_cases)
  case 1
  with assms(2,3) show ?case by simp
next
  case (2 cur n)
  then have r': "r' = store_plan w pid key s r" "out = s" using assms(3) by simp_all
  have "dict_get (rp_idem r') (w, key') = None" using assms(4,5) by (simp add: r' store_plan_def dict_get_set)
  moreover have get: "get_plan r' w pid = Some s" by (simp add: r' get_store)
  ultimately have "save_new_revision env w pid s' key' r' = (r', Inl (Revision_conflict ''incoming revision must be exactly current revision + 1''))"
    using assms(6,7) 2(4) by (simp add: save_new_revision_def)
  moreover have "revision_of r w pid = Some n" "revision_of r' w pid = Some (n + 1)"
    using 2(4,5,6) get by (simp_all add: revision_of_def)
  moreover have "\<forall>w' pid'. (w', pid') \<noteq> (w, pid) \<longrightarrow> get_plan r' w' pid' = get_plan r w' pid'"
    by (simp add: r' get_store)
  ultimately show ?case using r' by blast
qed

fun write_key :: "repo_op \<Rightarrow> (string \<times> string) option" where
  "write_key (Create w s key) = Some (w, key)"
| "write_key (Save w pid s key) = Some (w, key)"
| "write_key a = None"

lemma idem_store: "dict_get (rp_idem (store_plan w pid key s r)) k = (if k = (w, key) then Some s else dict_get (rp_idem r) k)"
  by (simp add: store_plan_def dict_get_set)

lemma idem_kept:
  assumes "dict_get (rp_idem r) (w, key) = Some s" "a \<noteq> Cleanup w"
  shows "dict_get (rp_idem (fst (repo_step env a r))) (w, key) = Some s"
proof (cases a)
  case (Create w' s' key')
  with assms show ?thesis
    by (auto simp: create_or_replace_plan_def Let_def idem_store split: option.splits sum.splits)
next
  case (Save w' pid' s' key')
  with assms show ?thesis
    by (auto simp: save_new_revision_def idem_store split: option.splits sum.splits)
next
  case (Delete w' pid')
  with assms show ?thesis by (auto simp: delete_plan_def split: option.splits)
next
  case (Cleanup w')
  with assms have "w' \<noteq> w" by blast
  then have "snd (plan_view w (fst (cleanup_owner w' r))) = snd (plan_view w r)" by (simp add: cleanup_view)
  with Cleanup assms(1) show ?thesis by (simp add: get_plan_view(3))
qed

lemma idem_kept_run:
  "dict_get (rp_idem r) (w, key) = Some s \<Longrightarrow> Cleanup w \<notin> set ops \<Longrightarrow>
   dict_get (rp_idem (fst (run_ops (repo_step env) ops r))) (w, key) = Some s"
proof (induction ops arbitrary: r)
  case (Cons a ops)
  then have "a \<noteq> Cleanup w" by auto
  from idem_kept [OF Cons.prems(1) this] Cons show ?case unfolding run_ops_fst by simp
qed simp

lemma write_records:
  assumes "repo_step env a r = (r1, Out_plan (Inr s))" "write_key a = Some (w, key)"
  shows "dict_get (rp_idem r1) (w, key) = Some s"
proof (cases a)
  case (Create w' s' key')
  with assms show ?thesis
    by (auto simp: create_or_replace_plan_def Let_def idem_store split: option.splits sum.splits if_splits)
next
  case (Save w' pid' s' key')
  with assms show ?thesis
    by (auto simp: save_new_revision_def idem_store split: option.splits sum.splits if_splits)
qed (use assms in auto)

lemma replay_step:
  assumes "dict_get (rp_idem r) (w, key) = Some s" "write_key a = Some (w, key)"
  shows "repo_step env a r = (r, Out_plan (Inr s))"
  using assms by (cases a) (auto simp: create_or_replace_plan_def save_new_revision_def)

text \<open>
  Writes are idempotent: once a write has succeeded under a key, every later write of that
  owner under the same key, whatever its payload and whatever happened in between short of a
  cleanup of the owner (a deletion of the plan included), changes nothing and answers with the
  snapshot of the first one.
\<close>

theorem writes_replay:
  assumes "repo_step env a r = (r1, Out_plan (Inr s))" and "write_key a = Some (w, key)"
    and "Cleanup w \<notin> set ops" and "write_key b = Some (w, key)"
  shows "repo_step env b (fst (run_ops (repo_step env) ops r1)) = (fst (run_ops (repo_step env) ops r1), Out_plan (Inr s))"
  using replay_step [OF idem_kept_run [OF write_records [OF assms(1,2)] assms(3)] assms(4)] .

section \<open>History\<close>

lemma append_turn_max [simp]: "hr_max (append_turn w pid t h) = hr_max h"
  by (simp add: append_turn_def Let_def)

lemma turns_append:
  "turns_of (append_turn w pid t h) w pid =
     (let ts = turns_of h w pid @ [t] in if int (length ts) > hr_max h then last_slice (hr_max h) ts else ts)"
  by (simp add: append_turn_def turns_of_def Let_def dict_get_set)

lemma keep_last:
  assumes "0 < m" "ys = drop (length xs - nat m) xs @ [t]"
  shows "(if int (length ys) > m then last_slice m ys else ys) = drop (length (xs @ [t]) - nat m) (xs @ [t])"
proof (cases "nat m \<le> length xs")
  case True
  then have "length ys = Suc (nat m)" using assms by simp
  with True assms show ?thesis by (simp add: last_slice_def Suc_diff_le)
next
  case False
  with assms show ?thesis by auto
qed

lemma history_fold:
  assumes "0 < hr_max h" "turns_of h w pid = drop (length past - nat (hr_max h)) past"
  shows "turns_of (fold (append_turn w pid) ts h) w pid = drop (length (past @ ts) - nat (hr_max h)) (past @ ts)"
  using assms
proof (induction ts arbitrary: h past)
  case (Cons t ts)
  have "turns_of (append_turn w pid t h) w pid = drop (length (past @ [t]) - nat (hr_max (append_turn w pid t h))) (past @ [t])"
    using keep_last [OF Cons.prems(1), of "turns_of h w pid @ [t]" past t] Cons.prems(2)
    by (simp only: turns_append append_turn_max Let_def)
  from Cons.IH [OF _ this] Cons.prems(1) show ?case by simp
qed simp

lemma history_unbounded:
  assumes "hr_max h = 0"
  shows "turns_of (fold (append_turn w pid) ts h) w pid = turns_of h w pid @ ts"
  using assms by (induction ts arbitrary: h) (simp_all add: turns_append Let_def last_slice_def)

text \<open>
  With a positive limit the history of a plan is exactly the last so many turns that were
  appended, and listing with a positive limit gives the last of those; with the limit 0 the slice
  \<open>[-0:]\<close> keeps every turn.
\<close>

theorem history_is_recent:
  assumes "turns_of h w pid = []" and "0 \<le> hr_max h" and "0 < limit"
  shows "turns_of (fold (append_turn w pid) ts h) w pid =
      (if hr_max h = 0 then ts else drop (length ts - nat (hr_max h)) ts) \<and>
    list_turns (fold (append_turn w pid) ts h) w pid limit =
      drop (length ts - (if hr_max h = 0 then nat limit else nat (min limit (hr_max h)))) ts"
proof (cases "hr_max h = 0")
  case True
  with history_unbounded [OF this, of w pid ts] assms(1,3) show ?thesis by (simp add: list_turns_def last_slice_def)
next
  case False
  with assms(1,2) history_fold [of h w pid "[]" ts] have "turns_of (fold (append_turn w pid) ts h) w pid = drop (length ts - nat (hr_max h)) ts"
    by simp
  moreover have "drop (length (drop (length ts - nat (hr_max h)) ts) - nat limit) (drop (length ts - nat (hr_max h)) ts) =
      drop (length ts - nat (min limit (hr_max h))) ts"
  proof (cases "limit \<le> hr_max h")
    case True
    then have "length ts - (length ts - nat (hr_max h)) - nat limit + (length ts - nat (hr_max h)) = length ts - nat limit"
      using assms(3) by linarith
    with True show ?thesis by (simp add: min_def del: diff_diff_left)
  qed (use assms(3) in \<open>simp add: min_def\<close>)
  ultimately show ?thesis using False assms(3) by (simp add: list_turns_def last_slice_def)
qed

section \<open>Samples\<close>

definition demo_snapshot :: "int \<Rightarrow> json" where
  "demo_snapshot n = JDict [(''id'', JStr ''p''), (''revision'', JInt n)]"

definition demo_repo :: plan_repo where
  "demo_repo = fst (create_or_replace_plan plain_env ''ann'' (demo_snapshot 1) ''k1'' empty_repo)"

theorem revisions_never_decrease_witness:
  "\<exists>m \<ge> 1. revision_of (fst (run_ops (repo_step plain_env)
     ([Create ''ann'' (demo_snapshot 1) ''k1''] @ [Save ''ann'' ''p'' (demo_snapshot 2) ''k2'', Delete ''bob'' ''p'']) empty_repo)) ''ann'' ''p'' = Some m"
proof -
  have a: "list_all (\<lambda>a. \<not> removes ''ann'' ''p'' a) [Save ''ann'' ''p'' (demo_snapshot 2) ''k2'', Delete ''bob'' ''p'']" by simp
  have b: "revision_of (fst (run_ops (repo_step plain_env) [Create ''ann'' (demo_snapshot 1) ''k1''] empty_repo)) ''ann'' ''p'' = Some 1"
    by code_simp
  show ?thesis by (rule revisions_never_decrease [OF a b])
qed

theorem concurrent_save_conflicts_witness:
  "\<exists>r' m. save_new_revision plain_env ''ann'' ''p'' (demo_snapshot 2) ''k2'' demo_repo = (r', Inr (demo_snapshot 2)) \<and>
     save_new_revision plain_env ''ann'' ''p'' (demo_snapshot 2) ''k3'' r' = (r', Inl (Revision_conflict m))"
proof -
  have ok: "repo_ok plain_env demo_repo"
    using repo_step_ok [OF repo_ok_empty, of plain_env "Create ''ann'' (demo_snapshot 1) ''k1''"] by (simp add: demo_repo_def)
  have none: "dict_get (rp_idem demo_repo) (''ann'', ''k2'') = None" "dict_get (rp_idem demo_repo) (''ann'', ''k3'') = None" by code_simp+
  have run: "snd (save_new_revision plain_env ''ann'' ''p'' (demo_snapshot 2) ''k2'' demo_repo) = Inr (demo_snapshot 2)" by code_simp
  then obtain r' where r': "save_new_revision plain_env ''ann'' ''p'' (demo_snapshot 2) ''k2'' demo_repo = (r', Inr (demo_snapshot 2))"
    by (metis prod.collapse)
  have id: "snapshot_plan_id plain_env (demo_snapshot 2) = Inr ''p''" by code_simp
  have "''k3'' \<noteq> ''k2''" by simp
  from concurrent_save_conflicts [OF ok none(1) r' this none(2) id refl] r' show ?thesis by blast
qed

theorem writes_replay_witness:
  "repo_step plain_env (Create ''ann'' (demo_snapshot 7) ''k1'')
     (fst (run_ops (repo_step plain_env) [Delete ''ann'' ''p''] demo_repo)) =
   (fst (run_ops (repo_step plain_env) [Delete ''ann'' ''p''] demo_repo), Out_plan (Inr (demo_snapshot 1)))"
proof -
  have "snd (create_or_replace_plan plain_env ''ann'' (demo_snapshot 1) ''k1'' empty_repo) = Inr (demo_snapshot 1)" by code_simp
  then have "repo_step plain_env (Create ''ann'' (demo_snapshot 1) ''k1'') empty_repo = (demo_repo, Out_plan (Inr (demo_snapshot 1)))"
    by (simp add: demo_repo_def prod_eq_iff)
  then show ?thesis by (rule writes_replay [of _ _ _ _ _ "''ann''" "''k1''"]) simp_all
qed

theorem history_is_recent_witness:
  "turns_of (fold (append_turn ''ann'' ''p'') [JInt 1, JInt 2, JInt 3] \<lparr>hr_turns = [], hr_max = 2\<rparr>) ''ann'' ''p'' = [JInt 2, JInt 3]"
  using history_is_recent [of "\<lparr>hr_turns = [], hr_max = 2\<rparr>" "''ann''" "''p''" 1 "[JInt 1, JInt 2, JInt 3]"]
  by (simp add: turns_of_def dict_get_def)

section \<open>Abstract specification\<close>

text \<open>What the repository is for, without owner dictionaries, default entries and orders: two finite
  maps, from an owner and a plan to its snapshot and from an owner and a key to the snapshot that
  was written under it.\<close>

type_synonym spec_state = "(string \<times> string \<rightharpoonup> json) \<times> (string \<times> string \<rightharpoonup> json)"

text \<open>A write that is not a replay: the first reason to refuse it, or the plan it stores.\<close>

definition spec_create_verdict :: "py_env \<Rightarrow> string \<Rightarrow> json \<Rightarrow> spec_state \<Rightarrow> (repo_error, string) result" where
  "spec_create_verdict env w s st =
     res_bind (snapshot_plan_id env s) (\<lambda>pid.
     res_bind (snapshot_revision s) (\<lambda>n.
       (case fst st (w, pid) of
          None \<Rightarrow> Inr pid
        | Some cur \<Rightarrow> res_bind (snapshot_revision cur) (\<lambda>m.
            if n < m then Inl (Revision_conflict ''incoming revision is older than persisted revision'') else Inr pid))))"

definition spec_save_verdict :: "py_env \<Rightarrow> string \<Rightarrow> string \<Rightarrow> json \<Rightarrow> spec_state \<Rightarrow> (repo_error, string) result" where
  "spec_save_verdict env w pid s st =
     res_bind (snapshot_plan_id env s) (\<lambda>i.
       if i \<noteq> pid then Inl (Bad_snapshot ''path plan_id must match plan snapshot id'')
       else
         (case fst st (w, pid) of
            None \<Rightarrow> Inl (Plan_not_found pid)
          | Some cur \<Rightarrow>
              res_bind (snapshot_revision s) (\<lambda>n. res_bind (snapshot_revision cur) (\<lambda>m.
                if n \<noteq> m + 1 then Inl (Revision_conflict ''incoming revision must be exactly current revision + 1'') else Inr pid))))"

definition spec_write :: "string \<Rightarrow> string \<Rightarrow> json \<Rightarrow> (repo_error, string) result \<Rightarrow> spec_state \<Rightarrow> spec_state \<times> repo_out" where
  "spec_write w key s verdict st =
     (case snd st (w, key) of
        Some old \<Rightarrow> (st, Out_plan (Inr old))
      | None \<Rightarrow>
          (case verdict of
             Inl e \<Rightarrow> (st, Out_plan (Inl e))
           | Inr pid \<Rightarrow> (((fst st)((w, pid) \<mapsto> s), (snd st)((w, key) \<mapsto> s)), Out_plan (Inr s))))"

fun spec_step :: "py_env \<Rightarrow> repo_op \<Rightarrow> spec_state \<Rightarrow> spec_state \<times> repo_out" where
  "spec_step env (Create w s key) st = spec_write w key s (spec_create_verdict env w s st) st"
| "spec_step env (Save w pid s key) st = spec_write w key s (spec_save_verdict env w pid s st) st"
| "spec_step env (Delete w pid) st = (((fst st)((w, pid) := None), snd st), Out_deleted (fst st (w, pid) \<noteq> None))"
| "spec_step env (Cleanup w) st =
     ((\<lambda>k. if fst k = w then None else fst st k, \<lambda>k. if fst k = w then None else snd st k),
      Out_count (card {pid. fst st (w, pid) \<noteq> None}))"

section \<open>Refinement\<close>

definition abs_repo :: "plan_repo \<Rightarrow> spec_state" where
  "abs_repo r = (\<lambda>(w, pid). get_plan r w pid, dict_get (rp_idem r))"

definition keys_ok :: "plan_repo \<Rightarrow> bool" where
  "keys_ok r = (\<forall>w. distinct (dict_keys (owner_plans r w)))"

lemma abs_touch [simp]: "abs_repo (touch_owner w r) = abs_repo r"
  by (simp add: abs_repo_def fun_eq_iff)

lemma abs_store: "abs_repo (store_plan w pid key s r) = ((fst (abs_repo r))((w, pid) \<mapsto> s), (snd (abs_repo r))((w, key) \<mapsto> s))"
  by (simp add: abs_repo_def fun_eq_iff get_store idem_store)

lemma refine_create:
  "map_prod abs_repo Out_plan (create_or_replace_plan env w s key r) = spec_step env (Create w s key) (abs_repo r)"
proof (cases "dict_get (rp_idem r) (w, key)")
  case (Some old)
  then show ?thesis by (simp add: create_or_replace_plan_def spec_write_def abs_repo_def)
next
  case None
  then have "snd (abs_repo r) (w, key) = None" "\<And>pid. fst (abs_repo r) (w, pid) = get_plan r w pid" by (simp_all add: abs_repo_def)
  with None show ?thesis
    by (simp add: create_or_replace_plan_def spec_write_def spec_create_verdict_def res_bind_def abs_store Let_def
        split: sum.split option.split)
qed

lemma refine_save:
  "map_prod abs_repo Out_plan (save_new_revision env w pid s key r) = spec_step env (Save w pid s key) (abs_repo r)"
proof (cases "dict_get (rp_idem r) (w, key)")
  case (Some old)
  then show ?thesis by (simp add: save_new_revision_def spec_write_def abs_repo_def)
next
  case None
  then have "snd (abs_repo r) (w, key) = None" "fst (abs_repo r) (w, pid) = get_plan r w pid" by (simp_all add: abs_repo_def)
  with None show ?thesis
    by (simp add: save_new_revision_def spec_write_def spec_save_verdict_def res_bind_def abs_store split: sum.split option.split)
qed

lemma dict_get_filter: "dict_get (filter (\<lambda>(k, v). P k) d) k = (if P k then dict_get d k else None)"
  by (induction d) (auto simp: dict_get_def)

lemma refine_delete: "map_prod abs_repo Out_deleted (delete_plan w pid r) = spec_step env (Delete w pid) (abs_repo r)"
proof -
  have "rp_idem (fst (delete_plan w pid r)) = rp_idem r" by (simp add: delete_plan_def split: option.split)
  then have "abs_repo (fst (delete_plan w pid r)) = ((fst (abs_repo r))((w, pid) := None), snd (abs_repo r))"
    by (auto simp: abs_repo_def fun_eq_iff get_delete)
  then show ?thesis by (simp add: prod_eq_iff delete_view get_plan_view abs_repo_def)
qed

lemma refine_cleanup:
  assumes "keys_ok r"
  shows "map_prod abs_repo Out_count (cleanup_owner w r) = spec_step env (Cleanup w) (abs_repo r)"
proof -
  have "{pid. get_plan r w pid \<noteq> None} = set (dict_keys (owner_plans r w))"
    by (auto simp: get_plan_def dict_get_def dict_keys_def map_of_eq_None_iff)
  then have "card {pid. get_plan r w pid \<noteq> None} = length (owner_plans r w)"
    using assms by (simp add: keys_ok_def distinct_card) (simp add: dict_keys_def)
  moreover have "dict_get (rp_idem (fst (cleanup_owner w r))) = (\<lambda>k. if fst k = w then None else dict_get (rp_idem r) k)"
    using dict_get_filter [of "\<lambda>k. fst k \<noteq> w" "rp_idem r"] by (auto simp: cleanup_owner_def fun_eq_iff)
  ultimately show ?thesis
    by (auto simp: prod_eq_iff abs_repo_def fun_eq_iff get_cleanup) (simp add: cleanup_owner_def)
qed

lemma keys_ok_step: "keys_ok r \<Longrightarrow> keys_ok (fst (repo_step env a r))"
proof -
  assume ok: "keys_ok r"
  have store: "keys_ok (store_plan w pid key s r')" if "keys_ok r'" for w pid key s r'
    using that by (auto simp: keys_ok_def store_plan_def owner_plans_def dict_get_set dict_set_keys_distinct split: option.splits)
  have touch: "keys_ok (touch_owner w r)" for w using ok by (simp add: keys_ok_def)
  have pop: "distinct (dict_keys d) \<Longrightarrow> distinct (dict_keys (dict_pop k d))" for k and d :: "(string, json) dict"
    by (simp add: dict_keys_def dict_pop_def distinct_map_filter)
  show ?thesis
  proof (cases a)
    case (Create w s key)
    show ?thesis unfolding Create using ok store touch
      by (simp add: create_or_replace_plan_def Let_def split: option.split sum.split)
  next
    case (Save w pid s key)
    show ?thesis unfolding Save using ok store
      by (simp add: save_new_revision_def split: option.split sum.split)
  next
    case (Delete w pid)
    show ?thesis unfolding Delete using ok pop
      by (auto simp: keys_ok_def delete_plan_def owner_plans_def dict_get_set split: option.splits)
  next
    case (Cleanup w)
    show ?thesis unfolding Cleanup using ok
      by (auto simp: keys_ok_def cleanup_owner_def owner_plans_def dict_get_pop dict_keys_def split: option.splits)
  qed
qed

lemma refine_step: "keys_ok r \<Longrightarrow> map_prod abs_repo id (repo_step env a r) = spec_step env a (abs_repo r)"
  by (cases a) (simp_all add: refine_create [symmetric] refine_save [symmetric] refine_delete [where env = env, symmetric]
      refine_cleanup [where env = env, symmetric] prod.map_comp comp_def del: spec_step.simps)

lemma refine_run:
  "keys_ok r \<Longrightarrow> map_prod abs_repo id (run_ops (repo_step env) ops r) = run_ops (spec_step env) ops (abs_repo r)"
proof (induction ops arbitrary: r)
  case (Cons a ops)
  have step: "fst (spec_step env a (abs_repo r)) = abs_repo (fst (repo_step env a r))"
    "snd (spec_step env a (abs_repo r)) = snd (repo_step env a r)"
    unfolding refine_step [OF Cons.prems, symmetric] by simp_all
  from Cons.IH [OF keys_ok_step [OF Cons.prems, of env a]] show ?case
    by (simp add: Let_def case_prod_unfold step prod_eq_iff)
qed simp

text \<open>
  C10: The plan repository refines its specification: for every sequence of writes, deletions and
  cleanups on a new repository, the results are exactly those of the two abstract maps, and so
  are the stored plans and the replay records afterwards.
\<close>

theorem repository_refines_maps:
  "snd (run_ops (repo_step env) ops empty_repo) = snd (run_ops (spec_step env) ops (Map.empty, Map.empty)) \<and>
   abs_repo (fst (run_ops (repo_step env) ops empty_repo)) = fst (run_ops (spec_step env) ops (Map.empty, Map.empty))"
proof -
  have "keys_ok empty_repo" by (simp add: keys_ok_def empty_repo_def owner_plans_def dict_get_def dict_keys_def)
  moreover have "abs_repo empty_repo = (Map.empty, Map.empty)"
    by (simp add: abs_repo_def empty_repo_def get_plan_def owner_plans_def dict_get_def fun_eq_iff)
  ultimately show ?thesis using refine_run [of empty_repo env ops] by (metis fst_map_prod id_apply snd_map_prod)
qed

end
