(* ===== verification/Dext_Plan_Http.thy ===== *)
theory Dext_Plan_Http
  imports Dext_Plan_Generate Dext_Assistant Dext_Plan_Repo
begin

text \<open>
  The preparation-plan endpoints of \<open>src/src/dext_competition/http\<close>: owner resolution
  (\<open>auth.py\<close>), the handlers (\<open>routes.py\<close>), the mapping between the public and the internal
  contracts (\<open>adapters.py\<close>) and the error middleware (\<open>errors.py\<close>).

  The request bodies are what pydantic accepted (\<open>schemas.py\<close>), so the fields with a closed set of
  values are datatypes; a body that was refused is the error the middleware answers with. The
  answers of the catalog, the knowledge index, the pipeline and the calendar functions are
  arguments. A response is the JSON payload of \<open>ok\<close> or an \<open>ApiError\<close>; \<open>Uncaught\<close> is an
  exception the middleware does not handle.
\<close>

section \<open>Errors (errors.py, auth.py)\<close>

datatype api_error = Api_error int string string | Uncaught

type_synonym response = "(api_error, json) result"

text \<open>The error middleware: a \<open>ValueError\<close> becomes 422, anything else is not caught.\<close>

definition middleware_plan_error :: "plan_error \<Rightarrow> api_error" where
  "middleware_plan_error e =
     (case e of Invalid_value m \<Rightarrow> Api_error 422 ''invalid_request'' m | _ \<Rightarrow> Uncaught)"

definition middleware_repo_error :: "repo_error \<Rightarrow> api_error" where
  "middleware_repo_error e = (case e of Bad_snapshot m \<Rightarrow> Api_error 422 ''invalid_request'' m | _ \<Rightarrow> Uncaught)"

definition require_owner_id :: "string \<Rightarrow> (api_error, string) result" where
  "require_owner_id resolved =
     (let owner = py_strip resolved
      in if owner = [] then Inl (Api_error 401 ''unauthorized'' ''owner identity is required'') else Inr owner)"

definition idempotency_key :: "string \<Rightarrow> (api_error, string) result" where
  "idempotency_key header =
     (let key = py_strip header
      in if key = [] then Inl (Api_error 400 ''missing_idempotency_key'' ''Idempotency-Key header is required'')
         else if py_len key > 128 then Inl (Api_error 422 ''invalid_idempotency_key'' ''Idempotency-Key is too long'')
         else Inr key)"

definition raise_for_issues :: "competition_error list \<Rightarrow> (api_error, unit) result" where
  "raise_for_issues issues =
     (case filter (\<lambda>i. ce_severity i = Sev_error) issues of
        [] \<Rightarrow> Inr ()
      | first # _ \<Rightarrow>
          Inl (Api_error
            (if ce_code first \<in> {''invalid_request'', ''plan_invalid''} then 422
             else if ce_code first = ''plan_revision_stale'' then 409
             else if ce_code first \<in> {''catalog_unavailable'', ''knowledge_base_unavailable'', ''generation_unavailable'', ''llm_unavailable''}
             then 503 else 500)
            (ce_code first) (ce_message first)))"

section \<open>Adapters (adapters.py)\<close>

datatype timeline = Event_window | Submission
datatype weekly_commitment = Hours3to5 | Hours6to10 | Hours11to15 | Hours16plus
datatype task_kind = Required_task | Optional_task | User_added_task

fun weekly_hours_of :: "weekly_commitment \<Rightarrow> int" where
  "weekly_hours_of Hours3to5 = 4"
| "weekly_hours_of Hours6to10 = 8"
| "weekly_hours_of Hours11to15 = 13"
| "weekly_hours_of Hours16plus = 18"

fun public_timeline_to_time_model :: "timeline \<Rightarrow> string" where
  "public_timeline_to_time_model Event_window = ''competition_window''"
| "public_timeline_to_time_model Submission = ''submission_deadline''"

record generate_dto =
  gd_competition_id :: string
  gd_today :: date
  gd_target :: date
  gd_timeline :: timeline
  gd_event_end :: "date option"
  gd_defense :: "date option"
  gd_weekly :: weekly_commitment
  gd_experience :: string

definition plan_generation_request_from_public :: "generate_dto \<Rightarrow> plan_request" where
  "plan_generation_request_from_public dto =
     \<lparr>pq_competition_id = gd_competition_id dto, pq_today = gd_today dto, pq_target = gd_target dto,
      pq_weekly_hours = weekly_hours_of (gd_weekly dto), pq_experience = gd_experience dto,
      pq_time_model = public_timeline_to_time_model (gd_timeline dto), pq_event_end = gd_event_end dto,
      pq_defense = gd_defense dto,
      pq_constraints = \<lparr>pc_exam_dates = [], pc_unavailable_dates = [], pc_team_status = None, pc_school_deadline = None\<rparr>\<rparr>"

definition hours_json :: "plan_task \<Rightarrow> json" where
  "hours_json t =
     (case pk_hours t of
        Some h \<Rightarrow> if h \<noteq> 0 then JFloat h else (case pk_estimated_weeks t of Some w \<Rightarrow> if w \<noteq> 0 then JFloat w else JInt 0 | None \<Rightarrow> JInt 0)
      | None \<Rightarrow> (case pk_estimated_weeks t of Some w \<Rightarrow> if w \<noteq> 0 then JFloat w else JInt 0 | None \<Rightarrow> JInt 0))"

definition optional_task_json :: "plan_task \<Rightarrow> json" where
  "optional_task_json t =
     JDict [(''template_key'', JStr (pk_id t)), (''title'', JStr (pk_label t)), (''estimated_hours'', hours_json t)]"

definition plan_generation_result_to_public :: "plan_draft \<Rightarrow> json" where
  "plan_generation_result_to_public d =
     JDict
       [(''phases'', JList (map (\<lambda>p.
          JDict [(''key'', JStr (ph_key p)),
                 (''optional_tasks'',
                  JList (map optional_task_json (take 3 (filter (\<lambda>t. pk_phase_id t = ph_id p) (pd_optional d))))),
                 (''personalized_advice'', JStr '''')]) (pd_phases d))),
        (''global_advice'', JStr (join_str ''; '' (pd_risks d)))]"

record task_snapshot =
  ts_id :: string
  ts_title :: string
  ts_kind :: task_kind
  ts_hours :: rat
  ts_due :: date
  ts_completed_at :: "string option"

record phase_snapshot =
  pz_key :: string
  pz_start :: date
  pz_end :: date
  pz_tasks :: "task_snapshot list"

record plan_snapshot =
  sn_id :: string
  sn_competition_id :: string
  sn_target :: date
  sn_timeline :: timeline
  sn_event_end :: "date option"
  sn_defense :: "date option"
  sn_revision :: int
  sn_phases :: "phase_snapshot list"

fun kind_value :: "task_kind \<Rightarrow> string" where
  "kind_value Required_task = ''required''"
| "kind_value Optional_task = ''optional''"
| "kind_value User_added_task = ''user_added''"

definition task_from_public :: "string \<Rightarrow> task_snapshot \<Rightarrow> (plan_error, plan_task) result" where
  "task_from_public phase_id t =
     new_plan_task
       \<lparr>pk_id = ts_id t, pk_phase_id = phase_id, pk_label = ts_title t, pk_mandatory = (kind_value (ts_kind t) = ''required''),
        pk_estimated_weeks = None, pk_depends_on = [], pk_kind = kind_value (ts_kind t), pk_hours = Some (ts_hours t),
        pk_start = None, pk_due = Some (ts_due t)\<rparr>"

text \<open>The accumulators of \<open>plan_snapshot_to_internal\<close>: phases, required and optional tasks.\<close>

type_synonym snapshot_acc = "plan_phase list \<times> plan_task list \<times> plan_task list"

definition add_snapshot_task :: "string \<Rightarrow> task_snapshot \<Rightarrow> snapshot_acc \<Rightarrow> (plan_error, snapshot_acc) result" where
  "add_snapshot_task phase_id t acc =
     (case acc of (ps, req, opt) \<Rightarrow>
        res_bind (task_from_public phase_id t) (\<lambda>task.
          Inr (if pk_mandatory task then (ps, req @ [task], opt) else (ps, req, opt @ [task]))))"

definition add_snapshot_phase :: "phase_snapshot \<Rightarrow> snapshot_acc \<Rightarrow> (plan_error, snapshot_acc) result" where
  "add_snapshot_phase p acc =
     (let phase_id = ''phase:'' @ pz_key p
      in (case acc of (ps, req, opt) \<Rightarrow>
            res_bind (new_plan_phase
                \<lparr>ph_id = phase_id, ph_key = pz_key p, ph_label = pz_key p, ph_start = pz_start p, ph_end = pz_end p,
                 ph_task_ids = map ts_id (pz_tasks p)\<rparr>) (\<lambda>phase.
              res_fold (add_snapshot_task phase_id) (pz_tasks p) (ps @ [phase], req, opt))))"

definition plan_snapshot_to_internal :: "plan_snapshot \<Rightarrow> (plan_error, plan_draft) result" where
  "plan_snapshot_to_internal s =
     res_bind (res_fold add_snapshot_phase (sn_phases s) ([], [], [])) (\<lambda>(ps, req, opt).
       new_plan_draft
         \<lparr>pd_id = sn_id s, pd_competition_id = sn_competition_id s,
          pd_time_model = public_timeline_to_time_model (sn_timeline s), pd_target = Some (sn_target s),
          pd_event_end = sn_event_end s, pd_defense = sn_defense s, pd_phases = ps, pd_tasks = req, pd_optional = opt,
          pd_milestones = [], pd_calendar = [], pd_risks = [], pd_refs = [], pd_warnings = [], pd_revision = sn_revision s\<rparr>)"

definition opt_pair :: "string \<Rightarrow> json option \<Rightarrow> metadata" where
  "opt_pair k v = (case v of None \<Rightarrow> [] | Some x \<Rightarrow> [(k, x)])"

definition card_result_to_public :: "(date \<Rightarrow> string) \<Rightarrow> change_card \<Rightarrow> json" where
  "card_result_to_public isof c =
     JDict
       ([(''id'', JStr (cc_id c)), (''type'', JStr (cc_type c)), (''summary'', JStr (cc_summary c)),
         (''rationale'', JStr (cc_rationale c)), (''status'', JStr (cc_status c))] @
        opt_pair ''target_task_id'' (map_option JStr (cc_task c)) @
        opt_pair ''target_phase_key'' (map_option JStr (cc_phase c)) @
        opt_pair ''advice_text'' (map_option JStr (cc_advice c)) @
        opt_pair ''new_date'' (map_option (\<lambda>x. JStr (isof x)) (cc_date c)) @
        opt_pair ''new_task'' (map_option (\<lambda>t.
          JDict [(''title'', JStr (nt_title t)), (''estimated_hours'', JInt (nt_hours t)), (''due_date'', JStr (isof (nt_due t))),
                 (''note'', (case nt_note t of None \<Rightarrow> JNull | Some n \<Rightarrow> JStr n))]) (cc_new_task c)) @
        (if cc_schedule c = [] then []
         else [(''phase_schedule'', JList (map (\<lambda>p.
           JDict [(''phase_key'', JStr (pj_key p)), (''start_date'', JStr (isof (pj_start p))), (''end_date'', JStr (isof (pj_end p)))])
           (cc_schedule c)))]) @
        opt_pair ''rejection_code'' (map_option JStr (cc_code c)) @
        opt_pair ''rejection_reason'' (map_option JStr (cc_reason c)))"

definition assistant_result_to_public :: "(date \<Rightarrow> string) \<Rightarrow> assistant_result \<Rightarrow> json" where
  "assistant_result_to_public isof r =
     JDict [(''reply'', JStr (az_reply r)),
            (''change_set'',
             JDict [(''id'', JStr (cs_id (az_change_set r))), (''base_plan_revision'', JInt (cs_base_revision (az_change_set r))),
                    (''cards'', JList (map (card_result_to_public isof) (cs_cards (az_change_set r))))]),
            (''request_id'', JStr (az_request_id r))]"

record assistant_dto =
  ad_today :: date
  ad_base_revision :: int
  ad_snapshot :: plan_snapshot
  ad_message :: string
  ad_request_id :: string

definition assistant_request_from_public :: "assistant_dto \<Rightarrow> (plan_error, assistant_request) result" where
  "assistant_request_from_public dto =
     res_bind (plan_snapshot_to_internal (ad_snapshot dto)) (\<lambda>plan.
       new_assistant_request
         \<lparr>ar_today = ad_today dto, ar_base_revision = ad_base_revision dto, ar_plan = plan, ar_message = ad_message dto,
          ar_request_id = ad_request_id dto\<rparr>)"

definition history_turn :: "string \<Rightarrow> string \<Rightarrow> change_card list \<Rightarrow> json" where
  "history_turn role text cards =
     JDict [(''role'', JStr role), (''content'', JStr text),
            (''card_results'',
             JList (map (\<lambda>c. JDict [(''card_id'', JStr (cc_id c)), (''status'', JStr (cc_status c))]) cards))]"

section \<open>Handlers (routes.py)\<close>

type_synonym api_state = "plan_repo \<times> history_repo"

record api_env =
  ae_py :: py_env
  ae_plan :: plan_env
  ae_fromiso :: iso_parser
  ae_profile :: assistant_profile

text \<open>The calls of a client, with the answers of the environment each of them meets.\<close>

datatype api_call =
  List_plans
| Create_plan "(api_error, json) result" string
| Get_plan string
| Put_plan string "(api_error, json) result" string
| Delete_plan string
| Generate_plan "(api_error, generate_dto) result" "plan_card option" pipeline_answer "plan_profile option"
| Ask_assistant string "(api_error, assistant_dto) result" "knowledge_index option" "pipeline option"

definition handle_list_plans :: "string \<Rightarrow> api_state \<Rightarrow> api_state \<times> response" where
  "handle_list_plans owner s = (s, Inr (JList (list_plans (fst s) owner)))"

definition handle_get_plan :: "string \<Rightarrow> string \<Rightarrow> api_state \<Rightarrow> api_state \<times> response" where
  "handle_get_plan owner pid s =
     (s, (case get_plan (fst s) owner pid of
            None \<Rightarrow> Inl (Api_error 404 ''plan_not_found'' ''preparation plan not found'')
          | Some p \<Rightarrow> Inr p))"

definition write_response :: "repo_error \<Rightarrow> api_error" where
  "write_response e =
     (case e of
        Revision_conflict m \<Rightarrow> Api_error 409 ''plan_revision_stale'' m
      | _ \<Rightarrow> middleware_repo_error e)"

definition handle_create_plan ::
    "api_env \<Rightarrow> string \<Rightarrow> (api_error, json) result \<Rightarrow> string \<Rightarrow> api_state \<Rightarrow> api_state \<times> response" where
  "handle_create_plan env owner body header s =
     (case body of
        Inl e \<Rightarrow> (s, Inl e)
      | Inr snap \<Rightarrow>
          (case idempotency_key header of
             Inl e \<Rightarrow> (s, Inl e)
           | Inr key \<Rightarrow>
               (case create_or_replace_plan (ae_py env) owner snap key (fst s) of
                  (r, Inl e) \<Rightarrow> ((r, snd s), Inl (write_response e))
                | (r, Inr saved) \<Rightarrow> ((r, snd s), Inr saved))))"

definition handle_put_plan ::
    "api_env \<Rightarrow> string \<Rightarrow> string \<Rightarrow> (api_error, json) result \<Rightarrow> string \<Rightarrow> api_state \<Rightarrow> api_state \<times> response" where
  "handle_put_plan env owner pid body header s =
     (case body of
        Inl e \<Rightarrow> (s, Inl e)
      | Inr snap \<Rightarrow>
          (case idempotency_key header of
             Inl e \<Rightarrow> (s, Inl e)
           | Inr key \<Rightarrow>
               (case save_new_revision (ae_py env) owner pid snap key (fst s) of
                  (r, Inl (Plan_not_found m)) \<Rightarrow> ((r, snd s), Inl (Api_error 404 ''plan_not_found'' ''preparation plan not found''))
                | (r, Inl e) \<Rightarrow> ((r, snd s), Inl (write_response e))
                | (r, Inr saved) \<Rightarrow> ((r, snd s), Inr saved))))"

definition handle_delete_plan :: "string \<Rightarrow> string \<Rightarrow> api_state \<Rightarrow> api_state \<times> response" where
  "handle_delete_plan owner pid s =
     (let (r, deleted) = delete_plan owner pid (fst s); (h, n) = history_delete_plan owner pid (snd s)
      in ((r, h), if deleted then Inr (JDict [(''deleted'', JBool True)])
                  else Inl (Api_error 404 ''plan_not_found'' ''preparation plan not found'')))"

definition handle_generate_plan ::
    "api_env \<Rightarrow> (api_error, generate_dto) result \<Rightarrow> plan_card option \<Rightarrow> pipeline_answer \<Rightarrow> plan_profile option \<Rightarrow> response" where
  "handle_generate_plan env body card_opt answer profile =
     res_bind body (\<lambda>dto.
       (case generate_plan (ae_plan env) (plan_generation_request_from_public dto) card_opt answer profile of
          Inl e \<Rightarrow> Inl (middleware_plan_error e)
        | Inr result \<Rightarrow>
            res_bind (raise_for_issues (pl_issues result)) (\<lambda>_.
              (case pl_draft result of None \<Rightarrow> Inl Uncaught | Some d \<Rightarrow> Inr (plan_generation_result_to_public d)))))"

text \<open>The last part of \<open>handle_assistant\<close>, which runs after the pipeline was awaited, with the plan
  that was read before.\<close>

definition record_turns ::
    "string \<Rightarrow> string \<Rightarrow> json option \<Rightarrow> string \<Rightarrow> assistant_result \<Rightarrow> api_state \<Rightarrow> api_state" where
  "record_turns owner pid persisted message res s =
     (case persisted of
        None \<Rightarrow> s
      | Some _ \<Rightarrow>
          (fst s, append_turn owner pid (history_turn ''assistant'' (az_reply res) (cs_cards (az_change_set res)))
             (append_turn owner pid (history_turn ''user'' message []) (snd s))))"

definition handle_assistant ::
    "api_env \<Rightarrow> string \<Rightarrow> string \<Rightarrow> (api_error, assistant_dto) result \<Rightarrow> knowledge_index option \<Rightarrow> pipeline option \<Rightarrow>
     api_state \<Rightarrow> api_state \<times> response" where
  "handle_assistant env owner pid body index pipe s =
     (case body of
        Inl e \<Rightarrow> (s, Inl e)
      | Inr dto \<Rightarrow>
          if sn_id (ad_snapshot dto) \<noteq> pid then
            (s, Inl (Api_error 422 ''invalid_request'' ''path plan_id must match plan_snapshot.id''))
          else
            (case assistant_request_from_public dto of
               Inl e \<Rightarrow> (s, Inl (middleware_plan_error e))
             | Inr q \<Rightarrow>
                 (case suggest_plan_changes (ae_fromiso env) index pipe (ae_profile env) q of
                    Inl e \<Rightarrow> (s, Inl (middleware_plan_error e))
                  | Inr result \<Rightarrow>
                      (case raise_for_issues (sv_issues result) of
                         Inl e \<Rightarrow> (s, Inl e)
                       | Inr _ \<Rightarrow>
                           (case sv_result result of
                              None \<Rightarrow> (s, Inl Uncaught)
                            | Some res \<Rightarrow>
                                (record_turns owner pid (get_plan (fst s) owner pid) (ad_message dto) res s,
                                 Inr (assistant_result_to_public (pv_iso (ae_plan env)) res)))))))"

text \<open>One request: the resolved owner header and the call.\<close>

definition api_step :: "api_env \<Rightarrow> string \<times> api_call \<Rightarrow> api_state \<Rightarrow> api_state \<times> response" where
  "api_step env req s =
     (case require_owner_id (fst req) of
        Inl e \<Rightarrow> (s, Inl e)
      | Inr owner \<Rightarrow>
          (case snd req of
             List_plans \<Rightarrow> handle_list_plans owner s
           | Create_plan body header \<Rightarrow> handle_create_plan env owner body header s
           | Get_plan pid \<Rightarrow> handle_get_plan owner pid s
           | Put_plan pid body header \<Rightarrow> handle_put_plan env owner pid body header s
           | Delete_plan pid \<Rightarrow> handle_delete_plan owner pid s
           | Generate_plan body card_opt answer profile \<Rightarrow> (s, handle_generate_plan env body card_opt answer profile)
           | Ask_assistant pid body index pipe \<Rightarrow> handle_assistant env owner pid body index pipe s))"

section \<open>Tenants\<close>

definition api_view ::
    "string \<Rightarrow> api_state \<Rightarrow> ((string, json) dict \<times> (string \<times> string, json) dict) \<times> (string \<times> string, json list) dict \<times> int" where
  "api_view w s = (plan_view w (fst s), history_view w (snd s))"

definition request_owner :: "string \<times> api_call \<Rightarrow> string" where
  "request_owner req = py_strip (fst req)"

lemma record_turns_frame: "o' \<noteq> w \<Longrightarrow> api_view w (record_turns o' pid p m res s) = api_view w s"
  by (simp add: api_view_def record_turns_def append_view split: option.split)

lemma record_turns_own:
  assumes "api_view w s = api_view w t"
  shows "api_view w (record_turns w pid p m res s) = api_view w (record_turns w pid p m res t)"
proof (cases p)
  case None
  with assms show ?thesis by (simp add: record_turns_def)
next
  case (Some x)
  from assms have "history_view w (snd s) = history_view w (snd t)" by (simp add: api_view_def)
  then have "history_view w (append_turn w pid y (append_turn w pid z (snd s))) =
      history_view w (append_turn w pid y (append_turn w pid z (snd t)))" for y z
    by (intro append_view(2))
  with assms Some show ?thesis by (simp add: api_view_def record_turns_def)
qed

lemma write_frame:
  assumes "o' \<noteq> w"
  shows "api_view w (fst (handle_create_plan env o' body header s)) = api_view w s"
    "api_view w (fst (handle_put_plan env o' pid body header s)) = api_view w s"
proof -
  show "api_view w (fst (handle_create_plan env o' body header s)) = api_view w s"
  proof -
    have "api_view w (r, snd s) = api_view w s" if "create_or_replace_plan (ae_py env) o' snap key (fst s) = (r, x)" for snap key r x
      using create_frame [OF assms, of "ae_py env" snap key "fst s"] that by (simp add: api_view_def)
    then show ?thesis by (auto simp: handle_create_plan_def split: sum.splits prod.splits)
  qed
  show "api_view w (fst (handle_put_plan env o' pid body header s)) = api_view w s"
  proof -
    have "api_view w (r, snd s) = api_view w s" if "save_new_revision (ae_py env) o' pid snap key (fst s) = (r, x)" for snap key r x
      using save_frame [OF assms, of "ae_py env" pid snap key "fst s"] that by (simp add: api_view_def)
    then show ?thesis by (auto simp: handle_put_plan_def split: sum.splits prod.splits repo_error.splits)
  qed
qed

lemma write_own:
  assumes "api_view w s = api_view w t"
  shows "api_view w (fst (handle_create_plan env w body header s)) = api_view w (fst (handle_create_plan env w body header t)) \<and>
      snd (handle_create_plan env w body header s) = snd (handle_create_plan env w body header t)"
    "api_view w (fst (handle_put_plan env w pid body header s)) = api_view w (fst (handle_put_plan env w pid body header t)) \<and>
      snd (handle_put_plan env w pid body header s) = snd (handle_put_plan env w pid body header t)"
proof -
  from assms have v: "plan_view w (fst s) = plan_view w (fst t)" "history_view w (snd s) = history_view w (snd t)"
    by (simp_all add: api_view_def)
  show "api_view w (fst (handle_create_plan env w body header s)) = api_view w (fst (handle_create_plan env w body header t)) \<and>
      snd (handle_create_plan env w body header s) = snd (handle_create_plan env w body header t)"
  proof (cases "\<exists>snap key. body = Inr snap \<and> idempotency_key header = Inr key")
    case True
    then obtain snap key where k: "body = Inr snap" "idempotency_key header = Inr key" by blast
    obtain r x where r: "create_or_replace_plan (ae_py env) w snap key (fst s) = (r, x)" by fastforce
    obtain r' x' where r': "create_or_replace_plan (ae_py env) w snap key (fst t) = (r', x')" by fastforce
    from create_own [OF v(1), of "ae_py env" snap key] r r' have "x = x'" "plan_view w r = plan_view w r'" by simp_all
    with k r r' v(2) show ?thesis by (cases x') (simp_all add: handle_create_plan_def api_view_def)
  qed (use assms in \<open>auto simp: handle_create_plan_def split: sum.splits\<close>)
  show "api_view w (fst (handle_put_plan env w pid body header s)) = api_view w (fst (handle_put_plan env w pid body header t)) \<and>
      snd (handle_put_plan env w pid body header s) = snd (handle_put_plan env w pid body header t)"
  proof (cases "\<exists>snap key. body = Inr snap \<and> idempotency_key header = Inr key")
    case True
    then obtain snap key where k: "body = Inr snap" "idempotency_key header = Inr key" by blast
    obtain r x where r: "save_new_revision (ae_py env) w pid snap key (fst s) = (r, x)" by fastforce
    obtain r' x' where r': "save_new_revision (ae_py env) w pid snap key (fst t) = (r', x')" by fastforce
    from save_own [OF v(1), of "ae_py env" pid snap key] r r' have "x = x'" "plan_view w r = plan_view w r'" by simp_all
    with k r r' v(2) show ?thesis
      by (cases x') (simp_all add: handle_put_plan_def api_view_def split: repo_error.split)
  qed (use assms in \<open>auto simp: handle_put_plan_def split: sum.splits\<close>)
qed

lemma delete_frame: "o' \<noteq> w \<Longrightarrow> api_view w (fst (handle_delete_plan o' pid s)) = api_view w s"
  using delete_view(3) [of o' w pid "fst s"] history_delete_view(2) [of o' w pid "snd s"]
  by (simp add: handle_delete_plan_def api_view_def Let_def case_prod_unfold)

lemma delete_own:
  assumes "api_view w s = api_view w t"
  shows "api_view w (fst (handle_delete_plan w pid s)) = api_view w (fst (handle_delete_plan w pid t)) \<and>
    snd (handle_delete_plan w pid s) = snd (handle_delete_plan w pid t)"
  using assms by (simp add: handle_delete_plan_def api_view_def Let_def case_prod_unfold delete_view history_delete_view)

lemma assistant_frame: "o' \<noteq> w \<Longrightarrow> api_view w (fst (handle_assistant env o' pid body index pipe s)) = api_view w s"
  by (simp add: handle_assistant_def record_turns_frame split: sum.split option.split)

lemma assistant_own:
  assumes "api_view w s = api_view w t"
  shows "api_view w (fst (handle_assistant env w pid body index pipe s)) = api_view w (fst (handle_assistant env w pid body index pipe t)) \<and>
    snd (handle_assistant env w pid body index pipe s) = snd (handle_assistant env w pid body index pipe t)"
proof -
  have "get_plan (fst s) w pid = get_plan (fst t) w pid" using assms by (simp add: api_view_def get_plan_view)
  with assms record_turns_own [OF assms] show ?thesis
    by (simp add: handle_assistant_def split: sum.split option.split)
qed

lemma read_own:
  assumes "api_view w s = api_view w t"
  shows "get_plan (fst s) w pid = get_plan (fst t) w pid" "list_plans (fst s) w = list_plans (fst t) w"
  using assms by (simp_all add: api_view_def get_plan_view)

lemma api_step_frame: "request_owner a \<noteq> w \<Longrightarrow> api_view w (fst (api_step env a s)) = api_view w s"
  by (cases "snd a")
    (simp_all add: api_step_def request_owner_def require_owner_id_def Let_def handle_list_plans_def handle_get_plan_def write_frame
      delete_frame assistant_frame)

lemma api_step_own:
  assumes v: "api_view (request_owner a) s = api_view (request_owner a) t"
  shows "api_view (request_owner a) (fst (api_step env a s)) = api_view (request_owner a) (fst (api_step env a t)) \<and>
    snd (api_step env a s) = snd (api_step env a t)"
proof (cases "request_owner a = []")
  case True
  with v show ?thesis by (simp add: api_step_def request_owner_def require_owner_id_def)
next
  case False
  let ?w = "request_owner a"
  have req: "require_owner_id (fst a) = Inr ?w" using False by (simp add: require_owner_id_def request_owner_def Let_def)
  show ?thesis
    by (cases "snd a")
      (simp_all add: api_step_def req v read_own [OF v] write_own [OF v] delete_own [OF v] assistant_own [OF v]
        handle_list_plans_def handle_get_plan_def)
qed

interpretation api: owner_scoped "api_step env" request_owner api_view
proof
  show "request_owner a \<noteq> w \<Longrightarrow> api_view w (fst (api_step env a s)) = api_view w s" for a w s by (rule api_step_frame)
  show "api_view (request_owner a) s = api_view (request_owner a) t \<Longrightarrow>
      api_view (request_owner a) (fst (api_step env a s)) = api_view (request_owner a) (fst (api_step env a t))" for a s t
    using api_step_own by blast
  show "api_view (request_owner a) s = api_view (request_owner a) t \<Longrightarrow> snd (api_step env a s) = snd (api_step env a t)" for a s t
    using api_step_own by blast
qed

text \<open>
  C7: Tenants are isolated: in every sequence of requests by any owners, over the plan and the
  history repository together, the responses one owner gets, and the plans, replay records and
  history that owner has in the end, are those of the run of that owner's requests alone.
\<close>

theorem tenants_isolated:
  "map snd (filter (\<lambda>(a, x). request_owner a = w) (zip reqs (snd (run_ops (api_step env) reqs s)))) =
     snd (run_ops (api_step env) (filter (\<lambda>a. request_owner a = w) reqs) s) \<and>
   api_view w (fst (run_ops (api_step env) reqs s)) =
     api_view w (fst (run_ops (api_step env) (filter (\<lambda>a. request_owner a = w) reqs) s))"
  using api.noninterference [where env = env and w = w and s = s and t = s and ops = reqs] by (simp add: api.visible_def)

section \<open>Completed tasks\<close>

definition with_completion :: "(task_snapshot \<Rightarrow> string option) \<Rightarrow> plan_snapshot \<Rightarrow> plan_snapshot" where
  "with_completion f s =
     s\<lparr>sn_phases := map (\<lambda>p. p\<lparr>pz_tasks := map (\<lambda>t. t\<lparr>ts_completed_at := f t\<rparr>) (pz_tasks p)\<rparr>) (sn_phases s)\<rparr>"

lemma res_fold_map:
  assumes "\<And>x acc. f (g x) acc = f x acc"
  shows "res_fold f (map g xs) = res_fold f xs"
proof
  show "res_fold f (map g xs) acc = res_fold f xs acc" for acc
    by (induction xs arbitrary: acc) (simp_all add: assms res_bind_def split: sum.split)
qed

lemma add_tasks_completion:
  "res_fold (add_snapshot_task i) (map (\<lambda>t. t\<lparr>ts_completed_at := f t\<rparr>) ts) = res_fold (add_snapshot_task i) ts"
  by (rule res_fold_map) (simp add: add_snapshot_task_def task_from_public_def)

lemma add_phases_completion:
  "res_fold add_snapshot_phase (map (\<lambda>p. p\<lparr>pz_tasks := map (\<lambda>t. t\<lparr>ts_completed_at := f t\<rparr>) (pz_tasks p)\<rparr>) ps) =
   res_fold add_snapshot_phase ps"
  by (rule res_fold_map) (simp add: add_snapshot_phase_def add_tasks_completion comp_def)

text \<open>
  The assistant endpoint ignores whether tasks are completed: changing the completion times of
  any tasks of the snapshot changes neither the response nor the state, so a completed task is
  moved or deleted like any other.
\<close>

theorem completion_ignored:
  "handle_assistant env owner pid (Inr (dto\<lparr>ad_snapshot := with_completion f (ad_snapshot dto)\<rparr>)) index pipe s =
   handle_assistant env owner pid (Inr dto) index pipe s"
proof -
  have "assistant_request_from_public (dto\<lparr>ad_snapshot := with_completion f (ad_snapshot dto)\<rparr>) = assistant_request_from_public dto"
    by (simp add: assistant_request_from_public_def plan_snapshot_to_internal_def with_completion_def add_phases_completion)
  moreover have "ad_message (dto\<lparr>ad_snapshot := with_completion f (ad_snapshot dto)\<rparr>) = ad_message dto"
    "sn_id (ad_snapshot (dto\<lparr>ad_snapshot := with_completion f (ad_snapshot dto)\<rparr>)) = sn_id (ad_snapshot dto)"
    by (simp_all add: with_completion_def)
  ultimately show ?thesis by (simp only: handle_assistant_def sum.case)
qed

section \<open>A deletion during the await\<close>

text \<open>
  The history of a deleted plan can come back: when the plan is deleted while the assistant
  waits for the pipeline, the turns are recorded on the strength of the plan read before, so
  the owner is left with a history for a plan that no longer exists.
\<close>

theorem deletion_race_leaves_history:
  assumes "get_plan (fst s) w pid = Some p" and "1 < hr_max (snd s)"
  shows "(let s1 = fst (handle_delete_plan w pid s); s2 = record_turns w pid (get_plan (fst s) w pid) m res s1
          in get_plan (fst s2) w pid = None \<and>
             turns_of (snd s2) w pid =
               [history_turn ''user'' m [], history_turn ''assistant'' (az_reply res) (cs_cards (az_change_set res))])"
proof -
  let ?s1 = "fst (handle_delete_plan w pid s)"
  have gone: "get_plan (fst ?s1) w pid = None" and none: "turns_of (snd ?s1) w pid = []" and mx: "hr_max (snd ?s1) = hr_max (snd s)"
    using get_delete [of w pid "fst s" w pid]
    by (simp_all add: handle_delete_plan_def Let_def case_prod_unfold turns_of_def history_delete_plan_def dict_get_pop)
  have rec: "record_turns w pid (get_plan (fst s) w pid) m res ?s1 = (fst ?s1,
      append_turn w pid (history_turn ''assistant'' (az_reply res) (cs_cards (az_change_set res)))
        (append_turn w pid (history_turn ''user'' m []) (snd ?s1)))"
    using assms(1) by (simp add: record_turns_def)
  show ?thesis unfolding rec Let_def using gone none mx assms(2) by (simp add: turns_append Let_def)
qed

theorem deletion_race_leaves_history_witness:
  "(let s = (demo_repo, \<lparr>hr_turns = [], hr_max = 20\<rparr>);
        res = \<lparr>az_reply = ''r'', az_change_set = \<lparr>cs_id = ''c'', cs_base_revision = 1, cs_cards = []\<rparr>, az_request_id = ''q''\<rparr>;
        s1 = fst (handle_delete_plan ''ann'' ''p'' s); s2 = record_turns ''ann'' ''p'' (get_plan (fst s) ''ann'' ''p'') ''m'' res s1
    in get_plan (fst s2) ''ann'' ''p'' = None \<and> length (turns_of (snd s2) ''ann'' ''p'') = 2)"
proof -
  let ?s = "(demo_repo, \<lparr>hr_turns = [], hr_max = 20\<rparr>)"
  have "get_plan (fst ?s) ''ann'' ''p'' = Some (demo_snapshot 1)" by code_simp
  from deletion_race_leaves_history [OF this] show ?thesis unfolding Let_def by simp
qed

end
