(* ===== verification/Dext_Catalog.thy ===== *)
theory Dext_Catalog
  imports Dext_Url
begin

text \<open>
  The graph catalog of \<open>dext_graph/catalog\<close>: its SQLite tables (\<open>models.py\<close>), the single writer
  that runs every change in one transaction (\<open>db.py\<close>), and the transactions by which the
  four stages of a build open, finish and abandon their run: curation (\<open>curation.py\<close>), graph export
  (\<open>graph_workflow.py\<close>), topics (\<open>topic_workflow.py\<close>) and vectors (\<open>vector_workflow.py\<close>).

  A table is the list of its rows, a JSON column is the value it holds, a transaction handler is
  a function from the catalog to an exception or to a result and the new catalog. Clock
  readings and hashes are arguments.
\<close>

section \<open>Exceptions (db.py and the standard library)\<close>

datatype catalog_error =
    Catalog_error string
  | Value_error_cat string
  | Value_validation string
  | Integrity_error
  | Key_error_cat string
  | Type_error_cat
  | Deferred_retry nat
  | External_error string string

fun error_type :: "catalog_error \<Rightarrow> string" where
  "error_type (Catalog_error m) = ''CatalogError''"
| "error_type (Value_error_cat m) = ''ValueError''"
| "error_type (Value_validation m) = ''ValueValidationError''"
| "error_type Integrity_error = ''IntegrityError''"
| "error_type (Key_error_cat k) = ''KeyError''"
| "error_type Type_error_cat = ''TypeError''"
| "error_type (Deferred_retry n) = ''TopicLinkDeferredRetryError''"
| "error_type (External_error t m) = t"

fun error_text :: "catalog_error \<Rightarrow> string" where
  "error_text (Catalog_error m) = m"
| "error_text (Value_error_cat m) = m"
| "error_text (Value_validation m) = m"
| "error_text Integrity_error = ''UNIQUE constraint failed''"
| "error_text (Key_error_cat k) = k"
| "error_text Type_error_cat = ''object is not subscriptable''"
| "error_text (Deferred_retry n) = ''topic linking deferred '' @ nat_str n @ '' retryable statement(s)''"
| "error_text (External_error t m) = m"

text \<open>\<open>take_points n s\<close> is \<open>s[:n]\<close>: the encodings of the first \<open>n\<close> code points.\<close>

fun take_points :: "nat \<Rightarrow> string \<Rightarrow> string" where
  "take_points n [] = []"
| "take_points n (c # cs) =
     (if is_cont_byte c then c # take_points n cs
      else case n of 0 \<Rightarrow> [] | Suc m \<Rightarrow> c # take_points m cs)"

definition safe_error :: "catalog_error \<Rightarrow> string" where
  "safe_error e =
     (let flat = map (\<lambda>c. if c = CHR 0x0D \<or> c = CHR 0x0A then CHR '' '' else c) (error_text e);
          v = py_strip flat
      in take_points 2000 (if v = [] then error_type e else v))"

text \<open>\<open>repr\<close> of a text without quotes, backslashes and control characters.\<close>

definition quoted :: "string \<Rightarrow> string" where
  "quoted s = [CHR 0x27] @ s @ [CHR 0x27]"

section \<open>Statuses (models.py)\<close>

datatype build_status =
    B_created | B_snapshotting | B_ingesting | B_curating | B_embedding | B_writing_graph
  | B_writing_vector | B_validating | B_ready | B_active | B_failed | B_failed_validation

datatype task_status =
    T_pending | T_snapshotting | T_snapshotted | T_ingesting | T_completed | T_failed

datatype run_status = R_pending | R_running | R_completed | R_failed

datatype validation_status = V_running | V_passed | V_failed

fun build_status_name :: "build_status \<Rightarrow> string" where
  "build_status_name B_created = ''CREATED''"
| "build_status_name B_snapshotting = ''SNAPSHOTTING''"
| "build_status_name B_ingesting = ''INGESTING''"
| "build_status_name B_curating = ''CURATING''"
| "build_status_name B_embedding = ''EMBEDDING''"
| "build_status_name B_writing_graph = ''WRITING_GRAPH''"
| "build_status_name B_writing_vector = ''WRITING_VECTOR''"
| "build_status_name B_validating = ''VALIDATING''"
| "build_status_name B_ready = ''READY''"
| "build_status_name B_active = ''ACTIVE''"
| "build_status_name B_failed = ''FAILED''"
| "build_status_name B_failed_validation = ''FAILED_VALIDATION''"

fun run_status_name :: "run_status \<Rightarrow> string" where
  "run_status_name R_pending = ''PENDING''"
| "run_status_name R_running = ''RUNNING''"
| "run_status_name R_completed = ''COMPLETED''"
| "run_status_name R_failed = ''FAILED''"

section \<open>Rows (models.py)\<close>

record build_row =
  gb_id :: string
  gb_status :: build_status
  gb_manifest_hash :: "string option"
  gb_taxonomy :: "string option"
  gb_fingerprint :: "string option"
  gb_settings :: metadata
  gb_graph_schema :: nat
  gb_vector_schema :: nat
  gb_summary :: metadata
  gb_started :: "string option"
  gb_finished :: "string option"
  gb_error :: "string option"

record task_row =
  bt_build :: string
  bt_university :: string
  bt_name :: string
  bt_abbr :: string
  bt_path :: string
  bt_ordinal :: nat
  bt_status :: task_status
  bt_snapshot :: "string option"
  bt_reused :: bool
  bt_rows_read :: nat
  bt_written :: nat
  bt_inserted :: nat
  bt_obs_reused :: nat
  bt_docs_seen :: nat
  bt_docs_inserted :: nat
  bt_findings :: nat
  bt_rejected :: nat
  bt_eligible :: bool
  bt_inactivated :: nat
  bt_error :: "string option"

record snapshot_row =
  ss_id :: string
  ss_university :: string
  ss_source_path :: string
  ss_path :: string
  ss_hash :: string
  ss_schema :: nat
  ss_counts :: metadata

record document_row =
  sd_id :: string
  sd_university :: string
  sd_url :: string
  sd_content_hash :: string
  sd_title :: "string option"
  sd_text :: "string option"
  sd_fetched :: "string option"
  sd_first_seen :: string
  sd_last_seen :: string

record observation_row =
  po_id :: string
  po_university :: string
  po_snapshot :: string
  po_source_id :: nat
  po_url :: "string option"
  po_page_kind :: string
  po_content_hash :: "string option"
  po_document :: "string option"
  po_org_unit :: "int option"
  po_name_raw :: string
  po_name_key :: string
  po_payload :: metadata
  po_row_hash :: string
  po_grade :: string
  po_first_seen :: string
  po_last_seen :: string
  po_active :: bool

record checkpoint_row =
  ck_build :: string
  ck_sink :: string
  ck_partition :: string
  ck_last :: "string option"
  ck_batch :: "string option"
  ck_rows :: nat

record finding_row =
  qf_id :: string
  qf_build :: string
  qf_severity :: string
  qf_code :: string
  qf_observation :: "string option"
  qf_details :: metadata
  qf_resolved :: bool

record protection_row =
  sp_snapshot :: string
  sp_kind :: string
  sp_reference :: string

record claim_row =
  ic_entity :: string
  ic_type :: string
  ic_value :: string
  ic_strong :: bool
  ic_observation :: string
  ic_active :: bool

record entity_observation_row =
  eo_entity :: string
  eo_observation :: string
  eo_build :: string
  eo_method :: string
  eo_score :: "rat option"

datatype entity_status = E_active | E_review | E_inactive | E_merged

record entity_row =
  en_id :: string
  en_status :: entity_status
  en_merged :: "string option"

record field_claim_row =
  fc_id :: nat
  fc_entity :: string
  fc_field :: string
  fc_value :: string
  fc_observation :: string
  fc_confidence :: rat
  fc_selected :: bool
  fc_reason :: "string option"
  fc_build :: string

record canonical_row =
  cp_entity :: string
  cp_build :: string
  cp_name :: string
  cp_title_raw :: "string option"
  cp_title_family :: string
  cp_role :: string
  cp_reasons :: "json list"
  cp_master :: string
  cp_phd :: string
  cp_research :: "string option"
  cp_bio :: "string option"
  cp_email :: "string option"
  cp_phone :: "string option"
  cp_profile_url :: "string option"
  cp_external_url :: "string option"
  cp_active :: bool
  cp_completeness :: rat

record override_row =
  ov_id :: string
  ov_entity :: string
  ov_kind :: string
  ov_field :: "string option"
  ov_value :: json
  ov_version :: int
  ov_actor :: string
  ov_why :: string
  ov_supersedes :: "string option"
  ov_active :: bool
  ov_created :: string

text \<open>The four stage-run tables share seven columns and add the versions a run is bound to.\<close>

record run_row =
  rr_id :: string
  rr_build :: string
  rr_status :: run_status
  rr_summary :: metadata
  rr_started :: "string option"
  rr_finished :: "string option"
  rr_error :: "string option"

record curation_run = run_row +
  cu_version :: string
  cu_normalization :: string
  cu_rules_hash :: string
  cu_override_hash :: string

record graph_run = run_row +
  gr_evidence :: string
  gr_export :: string

record topic_run = run_row +
  tr_taxonomy :: string
  tr_manifest_hash :: string

record vector_run = run_row +
  vr_template :: string
  vr_tokenizer :: string
  vr_sparse :: string
  vr_fingerprint :: "string option"
  vr_collection :: string

record validation_run =
  vl_id :: string
  vl_build :: string
  vl_version :: string
  vl_status :: validation_status
  vl_manifest :: json
  vl_hash :: "string option"
  vl_finished :: "string option"
  vl_error :: "string option"

record promotion_run =
  pm_build :: string
  pm_hash :: string
  pm_previous :: "string option"
  pm_status :: run_status
  pm_neo4j :: bool
  pm_qdrant :: bool
  pm_readback :: bool
  pm_updated :: "string option"
  pm_finished :: "string option"
  pm_error :: "string option"

record statement_row =
  rs_id :: string
  rs_build :: string
  rs_entity :: string
  rs_observation :: string
  rs_text :: string
  rs_normalized :: string
  rs_language :: string
  rs_hash :: string

record mention_row =
  pb_id :: string
  pb_build :: string
  pb_entity :: string
  pb_observation :: string
  pb_text :: string
  pb_normalized :: string
  pb_doi :: "string option"
  pb_year :: "int option"
  pb_confidence :: rat
  pb_review :: bool

record export_row =
  ex_build :: string
  ex_partition :: string
  ex_key :: string
  ex_kind :: string
  ex_label :: string
  ex_start :: "string option"
  ex_end :: "string option"
  ex_payload :: metadata
  ex_provenance :: string
  ex_checksum :: string

record partition_row =
  ep_build :: string
  ep_partition :: string
  ep_kind :: string
  ep_label :: string
  ep_count :: nat
  ep_min :: "string option"
  ep_max :: "string option"
  ep_checksum :: string

record profile_row =
  pf_build :: string
  pf_entity :: string
  pf_hash :: string

record taxonomy_row =
  tv_id :: string
  tv_status :: string
  tv_parent :: "string option"
  tv_hash :: string

record topic_row =
  tp_version :: string
  tp_id :: string
  tp_name :: string
  tp_normalized :: string
  tp_kind :: string
  tp_status :: string
  tp_method :: string

record alias_row =
  ta_id :: string
  ta_topic :: string
  ta_text :: string
  ta_key :: string
  ta_language :: string
  ta_method :: string
  ta_confidence :: rat
  ta_version :: string

record link_row =
  sl_build :: string
  sl_statement :: string
  sl_version :: string
  sl_topic :: string
  sl_relation :: string
  sl_span :: string
  sl_method :: string
  sl_confidence :: rat
  sl_review :: string
  sl_provenance :: string

record relation_row =
  rl_build :: string
  rl_from :: string
  rl_to :: string
  rl_method :: string
  rl_confidence :: rat
  rl_version :: string
  rl_provenance :: string

record job_row =
  tj_build :: string
  tj_statement :: string
  tj_status :: string
  tj_candidates :: "json list"
  tj_attempts :: nat
  tj_error :: "string option"

record collection_row =
  tc_version :: string
  tc_fingerprint :: string
  tc_status :: string

record catalog =
  builds :: "build_row list"
  tasks :: "task_row list"
  snapshots :: "snapshot_row list"
  build_snapshots :: "(string \<times> string) list"
  documents :: "document_row list"
  observations :: "observation_row list"
  checkpoints :: "checkpoint_row list"
  findings :: "finding_row list"
  protections :: "protection_row list"
  identity_claims :: "claim_row list"
  entities :: "entity_row list"
  entity_observations :: "entity_observation_row list"
  field_claims :: "field_claim_row list"
  canonical_professors :: "canonical_row list"
  overrides :: "override_row list"
  curation_runs :: "curation_run list"
  graph_runs :: "graph_run list"
  statements :: "statement_row list"
  mentions :: "mention_row list"
  export_rows :: "export_row list"
  export_partitions :: "partition_row list"
  vector_runs :: "vector_run list"
  profiles :: "profile_row list"
  taxonomy_versions :: "taxonomy_row list"
  topics :: "topic_row list"
  topic_aliases :: "alias_row list"
  topic_links :: "link_row list"
  topic_relations :: "relation_row list"
  topic_jobs :: "job_row list"
  topic_runs :: "topic_run list"
  candidate_collections :: "collection_row list"
  validation_runs :: "validation_run list"
  promotion_runs :: "promotion_run list"


text \<open>A catalog as \<open>initialize_catalog\<close> creates it: every table is there, and empty.\<close>

definition new_catalog :: catalog where
  "new_catalog =
     \<lparr>builds = [], tasks = [], snapshots = [], build_snapshots = [], documents = [],
       observations = [], checkpoints = [], findings = [], protections = [],
       identity_claims = [], entities = [], entity_observations = [], field_claims = [], canonical_professors = [],
       overrides = [], curation_runs = [], graph_runs = [], statements = [], mentions = [],
       export_rows = [], export_partitions = [], vector_runs = [], profiles = [],
       taxonomy_versions = [], topics = [], topic_aliases = [], topic_links = [],
       topic_relations = [], topic_jobs = [], topic_runs = [], candidate_collections = [],
       validation_runs = [], promotion_runs = []\<rparr>"


section \<open>Hashes and JSON text (ids.py, db.py)\<close>

text \<open>
  \<open>ce_sha256\<close> is \<open>hashlib.sha256(...).hexdigest()\<close> of UTF-8 bytes, \<open>ce_json\<close> the text
  \<open>json.dumps\<close> gives with sorted keys and no spaces. \<open>json_dumps\<close> and \<open>canonical_json\<close>
  differ only in how they treat NaN, which no modelled value contains.
\<close>

record catalog_env =
  ce_sha256 :: "string \<Rightarrow> string"
  ce_json :: "json \<Rightarrow> string"

definition hash_parts :: "catalog_env \<Rightarrow> string list \<Rightarrow> string" where
  "hash_parts env parts = ce_sha256 env (join_with [CHR 0x00] parts)"

definition canonical_json_hash :: "catalog_env \<Rightarrow> json \<Rightarrow> string" where
  "canonical_json_hash env v = ce_sha256 env (ce_json env v)"

definition finding_id :: "catalog_env \<Rightarrow> string \<Rightarrow> string \<Rightarrow> string \<Rightarrow> string" where
  "finding_id env b code reference = hash_parts env [b, code, reference]"

section \<open>The writer (db.py)\<close>

text \<open>
  An action runs on a world, may change it and may raise; what it changed before raising stays.
  A world holds the catalog and whatever lies outside it: the graph database, the vector store,
  the models.
\<close>

type_synonym ('w, 'a) action = "'w \<Rightarrow> (catalog_error, 'a) result \<times> 'w"

type_synonym 'a handler = "catalog \<Rightarrow> (catalog_error, 'a \<times> catalog) result"

record 'x cat_world =
  cw_cat :: catalog
  cw_ext :: 'x

definition act_return :: "'a \<Rightarrow> ('w, 'a) action" where
  "act_return a w = (Inr a, w)"

definition act_raise :: "catalog_error \<Rightarrow> ('w, 'a) action" where
  "act_raise e w = (Inl e, w)"

definition act_bind :: "('w, 'a) action \<Rightarrow> ('a \<Rightarrow> ('w, 'b) action) \<Rightarrow> ('w, 'b) action" where
  "act_bind m f w = (case m w of (Inl e, w') \<Rightarrow> (Inl e, w') | (Inr a, w') \<Rightarrow> f a w')"

definition act_seq :: "('w, 'a) action \<Rightarrow> ('w, 'b) action \<Rightarrow> ('w, 'b) action" where
  "act_seq m n = act_bind m (\<lambda>_. n)"

text \<open>\<open>try: m except Exception as exc: h(exc)\<close>\<close>

definition act_try :: "('w, 'a) action \<Rightarrow> (catalog_error \<Rightarrow> ('w, 'a) action) \<Rightarrow> ('w, 'a) action" where
  "act_try m h w = (case m w of (Inl e, w') \<Rightarrow> h e w' | (Inr a, w') \<Rightarrow> (Inr a, w'))"

text \<open>
  \<open>CatalogWriter.execute\<close>: the handler runs in one transaction, which is committed when it
  returns and rolled back when it raises. A query only reads.
\<close>

definition execute :: "'a handler \<Rightarrow> ('x cat_world, 'a) action" where
  "execute f w =
     (case f (cw_cat w) of
        Inl e \<Rightarrow> (Inl e, w)
      | Inr (a, c) \<Rightarrow> (Inr a, w\<lparr>cw_cat := c\<rparr>))"

definition query :: "(catalog \<Rightarrow> (catalog_error, 'a) result) \<Rightarrow> ('x cat_world, 'a) action" where
  "query f w = (f (cw_cat w), w)"

lemma act_simps [simp]:
  "act_bind (act_return a) f = f a"
  "act_bind (act_raise e) f = act_raise e"
  "act_try (act_return a) h = act_return a"
  "act_try (act_raise e) h = h e"
  by (auto simp: fun_eq_iff act_return_def act_raise_def act_bind_def act_try_def)

lemma act_bind_Inr_iff:
  "act_bind m f w = (Inr b, w') \<longleftrightarrow> (\<exists>a w1. m w = (Inr a, w1) \<and> f a w1 = (Inr b, w'))"
  by (auto simp: act_bind_def split: prod.splits sum.splits)

lemma act_seq_Inr_iff:
  "act_seq m n w = (Inr b, w') \<longleftrightarrow> (\<exists>a w1. m w = (Inr a, w1) \<and> n w1 = (Inr b, w'))"
  by (simp add: act_seq_def act_bind_Inr_iff)

lemma execute_Inr_iff:
  "execute f w = (Inr a, w') \<longleftrightarrow> (\<exists>c. f (cw_cat w) = Inr (a, c) \<and> w' = w\<lparr>cw_cat := c\<rparr>)"
  by (auto simp: execute_def split: sum.splits)

lemma execute_Inl_iff:
  "execute f w = (Inl e, w') \<longleftrightarrow> f (cw_cat w) = Inl e \<and> w' = w"
  by (auto simp: execute_def split: sum.splits)

lemma query_iff: "query f w = (r, w') \<longleftrightarrow> r = f (cw_cat w) \<and> w' = w"
  by (auto simp: query_def)

section \<open>Statements shared by the handlers\<close>

definition find_build :: "string \<Rightarrow> catalog \<Rightarrow> build_row option" where
  "find_build b c = find (\<lambda>r. gb_id r = b) (builds c)"

definition unknown_build :: "string \<Rightarrow> catalog_error" where
  "unknown_build b = Catalog_error (''unknown build ID: '' @ b)"

definition update_build :: "string \<Rightarrow> (build_row \<Rightarrow> build_row) \<Rightarrow> catalog \<Rightarrow> catalog" where
  "update_build b f c = c\<lparr>builds := update_where (\<lambda>r. gb_id r = b) f (builds c)\<rparr>"

definition set_build_status :: "string \<Rightarrow> build_status \<Rightarrow> catalog \<Rightarrow> catalog" where
  "set_build_status b s = update_build b (\<lambda>r. r\<lparr>gb_status := s, gb_error := None\<rparr>)"

definition fail_build :: "string \<Rightarrow> string \<Rightarrow> catalog \<Rightarrow> catalog" where
  "fail_build b e = update_build b (\<lambda>r. r\<lparr>gb_status := B_failed, gb_error := Some e\<rparr>)"

text \<open>
  The close of a stage: the summary of the build is read, one entry of it replaced, and written
  back with the next status. \<open>fetchone()[0]\<close> raises when the build is absent.
\<close>

definition advance_build :: "string \<Rightarrow> string \<Rightarrow> json \<Rightarrow> build_status \<Rightarrow> unit handler" where
  "advance_build b key v s c =
     (case find_build b c of
        None \<Rightarrow> Inl Type_error_cat
      | Some r \<Rightarrow>
          Inr ((), update_build b
            (\<lambda>r'. r'\<lparr>gb_status := s, gb_summary := dict_set key v (gb_summary r), gb_error := None\<rparr>) c))"

text \<open>The statements on a stage-run table.\<close>

definition find_run :: "string \<Rightarrow> 'a run_row_scheme list \<Rightarrow> 'a run_row_scheme option" where
  "find_run b rows = find (\<lambda>r. rr_build r = b) rows"

definition insert_run ::
    "'a run_row_scheme \<Rightarrow> 'a run_row_scheme list \<Rightarrow> (catalog_error, 'a run_row_scheme list) result" where
  "insert_run r rows =
     (if rr_id r \<in> rr_id ` set rows \<or> rr_build r \<in> rr_build ` set rows then Inl Integrity_error
      else Inr (rows @ [r]))"

definition reopen_run :: "string \<Rightarrow> 'a run_row_scheme list \<Rightarrow> 'a run_row_scheme list" where
  "reopen_run rid =
     update_where (\<lambda>r. rr_id r = rid)
       (\<lambda>r. r\<lparr>rr_status := R_running, rr_finished := None, rr_error := None\<rparr>)"

definition complete_run ::
    "string \<Rightarrow> string \<Rightarrow> metadata \<Rightarrow> 'a run_row_scheme list \<Rightarrow> 'a run_row_scheme list" where
  "complete_run now rid summary =
     update_where (\<lambda>r. rr_id r = rid)
       (\<lambda>r. r\<lparr>rr_status := R_completed, rr_summary := summary, rr_finished := Some now,
              rr_error := None\<rparr>)"

definition fail_run ::
    "string \<Rightarrow> string \<Rightarrow> string \<Rightarrow> 'a run_row_scheme list \<Rightarrow> 'a run_row_scheme list" where
  "fail_run now rid e =
     update_where (\<lambda>r. rr_id r = rid)
       (\<lambda>r. r\<lparr>rr_status := R_failed, rr_error := Some e, rr_finished := Some now\<rparr>)"

definition suspend_run :: "string \<Rightarrow> 'a run_row_scheme list \<Rightarrow> 'a run_row_scheme list" where
  "suspend_run b =
     update_where (\<lambda>r. rr_build r = b)
       (\<lambda>r. r\<lparr>rr_status := R_pending, rr_finished := None, rr_error := None\<rparr>)"

definition delete_checkpoint :: "string \<Rightarrow> string \<Rightarrow> string \<Rightarrow> catalog \<Rightarrow> catalog" where
  "delete_checkpoint b sink part c =
     c\<lparr>checkpoints := delete_where
         (\<lambda>k. ck_build k = b \<and> ck_sink k = sink \<and> ck_partition k = part) (checkpoints c)\<rparr>"

text \<open>
  \<open>INSERT INTO sink_checkpoints ... ON CONFLICT DO UPDATE\<close>: the last key is replaced, the
  rows written are added up.
\<close>

definition save_checkpoint ::
    "string \<Rightarrow> string \<Rightarrow> string \<Rightarrow> string \<Rightarrow> string option \<Rightarrow> nat \<Rightarrow> catalog \<Rightarrow> catalog" where
  "save_checkpoint b sink part key batch n c =
     (let here = (\<lambda>k. ck_build k = b \<and> ck_sink k = sink \<and> ck_partition k = part)
      in if \<exists>k \<in> set (checkpoints c). here k
         then c\<lparr>checkpoints := update_where here
                 (\<lambda>k. k\<lparr>ck_last := Some key, ck_batch := batch, ck_rows := ck_rows k + n\<rparr>)
                 (checkpoints c)\<rparr>
         else c\<lparr>checkpoints := checkpoints c @
                 [\<lparr>ck_build = b, ck_sink = sink, ck_partition = part, ck_last = Some key,
                   ck_batch = batch, ck_rows = n\<rparr>]\<rparr>)"

definition find_checkpoint :: "string \<Rightarrow> string \<Rightarrow> string \<Rightarrow> catalog \<Rightarrow> checkpoint_row option" where
  "find_checkpoint b sink part c =
     find (\<lambda>k. ck_build k = b \<and> ck_sink k = sink \<and> ck_partition k = part) (checkpoints c)"

definition last_key :: "string \<Rightarrow> string \<Rightarrow> string \<Rightarrow> catalog \<Rightarrow> string" where
  "last_key b sink part c =
     (case find_checkpoint b sink part c of
        None \<Rightarrow> []
      | Some k \<Rightarrow> (case ck_last k of None \<Rightarrow> [] | Some s \<Rightarrow> s))"

end
