(* ===== verification/Dext_Stages.thy ===== *)
theory Dext_Stages
  imports Dext_Catalog
begin

text \<open>
  The runs of a build. Each stage (\<open>curation.py\<close>, \<open>graph_workflow.py\<close>, \<open>topic_workflow.py\<close>,
  \<open>vector_workflow.py\<close>) has a transaction that opens its run, one that completes it and one
  that abandons it; the locale \<open>build_stage\<close> is what they have in common and is
  interpreted on each of the four.
\<close>

definition count_where :: "('r \<Rightarrow> bool) \<Rightarrow> 'r list \<Rightarrow> json" where
  "count_where P rows = JInt (int (length (filter P rows)))"

definition count_distinct :: "('r \<Rightarrow> 'k) \<Rightarrow> ('r \<Rightarrow> bool) \<Rightarrow> 'r list \<Rightarrow> json" where
  "count_distinct g P rows = JInt (int (length (remdups (map g (filter P rows)))))"

definition json_opt :: "string option \<Rightarrow> json" where
  "json_opt s = (case s of None \<Rightarrow> JNull | Some t \<Rightarrow> JStr t)"

section \<open>Curation (curation.py)\<close>

record rules_id =
  cq_version :: string
  cq_normalization :: string
  cq_hash :: string

definition override_json :: "override_row \<Rightarrow> json" where
  "override_json r =
     JDict [(''id'', JStr (ov_id r)), (''entity_id'', JStr (ov_entity r)), (''kind'', JStr (ov_kind r)),
            (''field_name'', json_opt (ov_field r)), (''value_json'', ov_value r),
            (''version'', JInt (ov_version r))]"

definition override_manifest :: "catalog_env \<Rightarrow> catalog \<Rightarrow> string" where
  "override_manifest env c =
     canonical_json_hash env (JList (map override_json (sort_key ov_id (filter ov_active (overrides c)))))"

definition curation_prepare :: "catalog_env \<Rightarrow> rules_id \<Rightarrow> string \<Rightarrow> string \<Rightarrow> string handler" where
  "curation_prepare env rules now b c =
     (case find_build b c of
        None \<Rightarrow> Inl (unknown_build b)
      | Some g \<Rightarrow>
          (let ovh = override_manifest env c
           in case find_run b (curation_runs c) of
                None \<Rightarrow>
                  if gb_status g \<noteq> B_curating
                  then Inl (Catalog_error (''build '' @ b @ '' in status '' @
                              build_status_name (gb_status g) @ '' cannot start curation''))
                  else (let rid = hash_parts env [b, cq_version rules, cq_normalization rules, cq_hash rules, ovh]
                        in res_bind
                             (insert_run
                               \<lparr>rr_id = rid, rr_build = b, rr_status = R_running, rr_summary = [],
                                rr_started = Some now, rr_finished = None, rr_error = None,
                                cu_version = cq_version rules, cu_normalization = cq_normalization rules,
                                cu_rules_hash = cq_hash rules, cu_override_hash = ovh\<rparr>
                               (curation_runs c))
                             (\<lambda>rows. Inr (rid, c\<lparr>curation_runs := rows\<rparr>)))
              | Some r \<Rightarrow>
                  if cu_version r \<noteq> cq_version rules \<or> cu_normalization r \<noteq> cq_normalization rules
                     \<or> cu_rules_hash r \<noteq> cq_hash rules \<or> cu_override_hash r \<noteq> ovh
                  then Inl (Catalog_error ''curation rules or override manifest changed; create a new build'')
                  else if rr_status r = R_completed then Inr (rr_id r, c)
                  else Inr (rr_id r, set_build_status b B_curating
                              (c\<lparr>curation_runs := reopen_run (rr_id r) (curation_runs c)\<rparr>))))"

definition curation_summary :: "string \<Rightarrow> catalog \<Rightarrow> metadata" where
  "curation_summary b c =
     [(''entities'', count_distinct eo_entity (\<lambda>r. eo_build r = b) (entity_observations c)),
      (''canonical_active'', count_where (\<lambda>r. cp_build r = b \<and> cp_active r) (canonical_professors c)),
      (''canonical_inactive'', count_where (\<lambda>r. cp_build r = b \<and> \<not> cp_active r) (canonical_professors c)),
      (''identity_findings'',
        count_where (\<lambda>r. qf_build r = b \<and>
          qf_code r \<in> {''strong_claim_collision'', ''weak_claim_collision'', ''identity_conflict''})
          (findings c)),
      (''gold_status'', JStr ''not_evaluated'')]"

definition curation_finish :: "string \<Rightarrow> string \<Rightarrow> string \<Rightarrow> unit handler" where
  "curation_finish now b rid c =
     (let summary = curation_summary b c
      in advance_build b ''curation'' (JDict summary) B_embedding
           (c\<lparr>curation_runs := complete_run now rid summary (curation_runs c)\<rparr>))"

definition curation_fail :: "string \<Rightarrow> string \<Rightarrow> string \<Rightarrow> string \<Rightarrow> unit handler" where
  "curation_fail now b rid e c =
     Inr ((), fail_build b e (c\<lparr>curation_runs := fail_run now rid e (curation_runs c)\<rparr>))"

section \<open>Graph export (graph\_workflow.py)\<close>

definition evidence_version :: string where "evidence_version = ''evidence-v1''"

definition export_version :: string where "export_version = ''neo4j-export-v1''"

definition graph_prepare :: "catalog_env \<Rightarrow> string \<Rightarrow> string \<Rightarrow> string handler" where
  "graph_prepare env now b c =
     (case find_build b c of
        None \<Rightarrow> Inl (unknown_build b)
      | Some g \<Rightarrow>
          if gb_status g \<notin> {B_embedding, B_writing_graph, B_failed}
          then Inl (Catalog_error (''build '' @ b @ '' cannot enter graph stage from '' @
                      build_status_name (gb_status g)))
          else
            (case find_run b (graph_runs c) of
               None \<Rightarrow>
                 (let rid = hash_parts env [b, evidence_version, export_version]
                  in res_bind
                       (insert_run
                         \<lparr>rr_id = rid, rr_build = b, rr_status = R_running, rr_summary = [],
                          rr_started = Some now, rr_finished = None, rr_error = None,
                          gr_evidence = evidence_version, gr_export = export_version\<rparr> (graph_runs c))
                       (\<lambda>rows. Inr (rid, c\<lparr>graph_runs := rows\<rparr>)))
             | Some r \<Rightarrow>
                 if gr_evidence r \<noteq> evidence_version \<or> gr_export r \<noteq> export_version
                 then Inl (Catalog_error ''graph evidence/export version changed; create a new build'')
                 else if rr_status r \<noteq> R_completed
                 then Inr (rr_id r, c\<lparr>graph_runs := reopen_run (rr_id r) (graph_runs c)\<rparr>)
                 else Inr (rr_id r, c)))"

definition start_graph_write :: "string \<Rightarrow> unit handler" where
  "start_graph_write b c = Inr ((), set_build_status b B_writing_graph c)"

definition partition_json :: "partition_row \<Rightarrow> json" where
  "partition_json r =
     JDict [(''row_count'', JInt (int (ep_count r))), (''checksum'', JStr (ep_checksum r)),
            (''min_key'', json_opt (ep_min r)), (''max_key'', json_opt (ep_max r))]"

definition partition_summary :: "string \<Rightarrow> catalog \<Rightarrow> metadata" where
  "partition_summary b c =
     map (\<lambda>r. (ep_partition r, partition_json r))
       (sort_key ep_partition (filter (\<lambda>r. ep_build r = b) (export_partitions c)))"

definition graph_summary :: "string \<Rightarrow> catalog \<Rightarrow> metadata" where
  "graph_summary b c =
     [(''evidence_version'', JStr evidence_version), (''export_version'', JStr export_version),
      (''evidence'', JDict
        [(''research_statements'', count_where (\<lambda>r. rs_build r = b) (statements c)),
         (''publication_mention_evidence'', count_where (\<lambda>r. pb_build r = b) (mentions c)),
         (''publication_mentions'', count_distinct pb_id (\<lambda>r. pb_build r = b) (mentions c))]),
      (''partitions'', JDict (partition_summary b c)),
      (''graph_gold_status'', JStr ''not_evaluated'')]"

definition graph_finish :: "string \<Rightarrow> string \<Rightarrow> string \<Rightarrow> unit handler" where
  "graph_finish now b rid c =
     (let summary = graph_summary b c
      in advance_build b ''graph'' (JDict summary) B_writing_vector
           (c\<lparr>graph_runs := complete_run now rid summary (graph_runs c)\<rparr>))"

definition graph_fail :: "string \<Rightarrow> string \<Rightarrow> string \<Rightarrow> string \<Rightarrow> unit handler" where
  "graph_fail now b rid e c =
     Inr ((), fail_build b e (c\<lparr>graph_runs := fail_run now rid e (graph_runs c)\<rparr>))"

section \<open>Vectors (vector\_workflow.py)\<close>

record graph_settings =
  gs_base_url :: string
  gs_model :: string
  gs_dimension :: int
  gs_passage_prefix :: string
  gs_sparse_version :: string

definition vector_run_version :: string where "vector_run_version = ''semantic-vector-v1''"

definition profile_template_version :: string where "profile_template_version = ''baseline-v1''"

definition embedding_fingerprint :: "catalog_env \<Rightarrow> graph_settings \<Rightarrow> string \<Rightarrow> string" where
  "embedding_fingerprint env settings tokenizer =
     ce_sha256 env (ce_json env (JDict
       [(''version'', JStr vector_run_version), (''provider'', JStr ''siliconflow''),
        (''base_url'', JStr (gs_base_url settings)), (''model'', JStr (gs_model settings)),
        (''dimension'', JInt (gs_dimension settings)),
        (''passage_prefix'', JStr (gs_passage_prefix settings)),
        (''tokenizer'', JStr tokenizer),
        (''sparse_tokenizer_version'', JStr (gs_sparse_version settings))]))"

text \<open>\<open>any(character.isspace())\<close>: some position of the string starts the encoding of a space.\<close>

definition has_space :: "string \<Rightarrow> bool" where
  "has_space s = (\<exists>t \<in> set ws_codes. py_in t s)"

definition professor_collection_name :: "string \<Rightarrow> (catalog_error, string) result" where
  "professor_collection_name b =
     (if b = [] \<or> has_space b then Inl (Value_validation (''invalid build ID for Qdrant collection: '' @ b))
      else Inr (''dext_professors__'' @ b))"

definition vector_versions_error ::
    "graph_settings \<Rightarrow> string \<Rightarrow> string \<Rightarrow> vector_run \<Rightarrow> string option" where
  "vector_versions_error settings tokenizer fp r =
     (if vr_template r \<noteq> profile_template_version
        then Some ''profile template version changed; create a new build''
      else if vr_tokenizer r \<noteq> tokenizer then Some ''tokenizer identity changed; create a new build''
      else if vr_sparse r \<noteq> gs_sparse_version settings
        then Some ''sparse tokenizer version changed; create a new build''
      else if vr_fingerprint r \<noteq> Some fp then Some ''embedding fingerprint changed; create a new build''
      else None)"

definition enter_vector :: "string \<Rightarrow> string \<Rightarrow> catalog \<Rightarrow> catalog" where
  "enter_vector b fp =
     update_build b (\<lambda>r. r\<lparr>gb_status := B_writing_vector, gb_fingerprint := Some fp, gb_error := None\<rparr>)"

definition new_vector_run ::
    "graph_settings \<Rightarrow> string \<Rightarrow> string \<Rightarrow> string \<Rightarrow> string \<Rightarrow> string \<Rightarrow> vector_run" where
  "new_vector_run settings tokenizer fp coll now b =
     \<lparr>rr_id = b @ '':'' @ vector_run_version, rr_build = b, rr_status = R_running, rr_summary = [],
      rr_started = Some now, rr_finished = None, rr_error = None,
      vr_template = profile_template_version, vr_tokenizer = tokenizer,
      vr_sparse = gs_sparse_version settings, vr_fingerprint = Some fp, vr_collection = coll\<rparr>"

definition vector_prepare ::
    "catalog_env \<Rightarrow> graph_settings \<Rightarrow> string \<Rightarrow> string \<Rightarrow> string \<Rightarrow> string handler" where
  "vector_prepare env settings tokenizer now b c =
     (case find_build b c of
        None \<Rightarrow> Inl (unknown_build b)
      | Some g \<Rightarrow>
          if gb_status g \<notin> {B_writing_vector, B_failed}
          then Inl (Catalog_error (''build '' @ b @ '' cannot enter vector stage from '' @
                      build_status_name (gb_status g)))
          else res_bind (professor_collection_name b) (\<lambda>coll.
            let fp = embedding_fingerprint env settings tokenizer
            in case find_run b (vector_runs c) of
                 None \<Rightarrow>
                   res_bind (insert_run (new_vector_run settings tokenizer fp coll now b) (vector_runs c))
                     (\<lambda>rows. Inr (b @ '':'' @ vector_run_version, enter_vector b fp (c\<lparr>vector_runs := rows\<rparr>)))
               | Some r \<Rightarrow>
                   (case vector_versions_error settings tokenizer fp r of
                      Some m \<Rightarrow> Inl (Catalog_error m)
                    | None \<Rightarrow>
                        if rr_status r \<noteq> R_completed
                        then Inr (rr_id r, enter_vector b fp
                                    (c\<lparr>vector_runs := reopen_run (rr_id r) (vector_runs c)\<rparr>))
                        else Inr (rr_id r, enter_vector b fp c))))"

definition vector_summary :: "string \<Rightarrow> nat \<Rightarrow> nat \<Rightarrow> metadata" where
  "vector_summary coll expected found =
     [(''vector_run_version'', JStr vector_run_version), (''collection_name'', JStr coll),
      (''eligible_professors'', JInt (int expected)), (''qdrant_count'', JInt (int found))]"

definition vector_finish :: "string \<Rightarrow> nat \<Rightarrow> nat \<Rightarrow> string \<Rightarrow> string \<Rightarrow> unit handler" where
  "vector_finish now expected found b rid c =
     (if expected \<noteq> found
      then Inl (Catalog_error (''Qdrant count mismatch: expected '' @ nat_str expected @
                  '', found '' @ nat_str found))
      else res_bind (professor_collection_name b) (\<lambda>coll.
        let summary = vector_summary coll expected found
        in advance_build b ''vector'' (JDict summary) B_validating
             (c\<lparr>vector_runs := complete_run now rid summary (vector_runs c)\<rparr>)))"

definition vector_fail :: "string \<Rightarrow> string \<Rightarrow> string \<Rightarrow> string \<Rightarrow> unit handler" where
  "vector_fail now b rid e c =
     Inr ((), fail_build b e (c\<lparr>vector_runs := fail_run now rid e (vector_runs c)\<rparr>))"


section \<open>What a transaction may change\<close>

definition published :: "build_status \<Rightarrow> bool" where
  "published s = (s = B_ready \<or> s = B_active)"

definition status_of :: "string \<Rightarrow> catalog \<Rightarrow> build_status option" where
  "status_of b c = map_option gb_status (find_build b c)"

definition is_published :: "string \<Rightarrow> catalog \<Rightarrow> bool" where
  "is_published b c = (case status_of b c of None \<Rightarrow> False | Some s \<Rightarrow> published s)"

definition run_info :: "string \<Rightarrow> 'a run_row_scheme list \<Rightarrow> (string \<times> run_status) option" where
  "run_info b rows = map_option (\<lambda>r. (rr_id r, rr_status r)) (find_run b rows)"

definition find_validation :: "string \<Rightarrow> catalog \<Rightarrow> validation_run option" where
  "find_validation b c = find (\<lambda>v. vl_build v = b) (validation_runs c)"

definition passed :: "string \<Rightarrow> catalog \<Rightarrow> bool" where
  "passed b c =
     (case find_validation b c of
        None \<Rightarrow> False
      | Some v \<Rightarrow> vl_status v = V_passed \<and> vl_hash v \<noteq> None)"

definition run_completed :: "(string \<times> run_status) option \<Rightarrow> bool" where
  "run_completed x = (case x of None \<Rightarrow> False | Some (i, s) \<Rightarrow> s = R_completed)"

definition all_completed :: "string \<Rightarrow> catalog \<Rightarrow> bool" where
  "all_completed b c =
     (run_completed (run_info b (curation_runs c)) \<and> run_completed (run_info b (graph_runs c)) \<and>
      run_completed (run_info b (topic_runs c)) \<and> run_completed (run_info b (vector_runs c)))"

text \<open>What the life cycle of a build depends on.\<close>

record build_view =
  bv_status :: "build_status option"
  bv_curation :: "(string \<times> run_status) option"
  bv_graph :: "(string \<times> run_status) option"
  bv_topics :: "(string \<times> run_status) option"
  bv_vector :: "(string \<times> run_status) option"
  bv_passed :: bool

definition view :: "string \<Rightarrow> catalog \<Rightarrow> build_view" where
  "view b c =
     \<lparr>bv_status = status_of b c, bv_curation = run_info b (curation_runs c),
      bv_graph = run_info b (graph_runs c), bv_topics = run_info b (topic_runs c),
      bv_vector = run_info b (vector_runs c), bv_passed = passed b c\<rparr>"

definition only_build :: "string \<Rightarrow> catalog \<Rightarrow> catalog \<Rightarrow> bool" where
  "only_build b c c' = (\<forall>b'. b' \<noteq> b \<longrightarrow> view b' c' = view b' c)"

text \<open>The primary keys and unique columns of the tables, and the promise of publication.\<close>

definition runs_ok :: "'a run_row_scheme list \<Rightarrow> bool" where
  "runs_ok rows = (distinct (map rr_id rows) \<and> distinct (map rr_build rows))"

definition tables_ok :: "catalog \<Rightarrow> bool" where
  "tables_ok c =
     (distinct (map gb_id (builds c)) \<and> runs_ok (curation_runs c) \<and> runs_ok (graph_runs c) \<and>
      runs_ok (topic_runs c) \<and> runs_ok (vector_runs c) \<and>
      distinct (map vl_id (validation_runs c)) \<and> distinct (map vl_build (validation_runs c)))"

definition release_ok :: "catalog \<Rightarrow> bool" where
  "release_ok c =
     ((\<forall>g \<in> set (builds c). published (gb_status g) \<longrightarrow>
         all_completed (gb_id g) c \<and> passed (gb_id g) c) \<and>
      length (filter (\<lambda>g. gb_status g = B_active) (builds c)) \<le> 1)"

definition catalog_ok :: "catalog \<Rightarrow> bool" where
  "catalog_ok c = (tables_ok c \<and> release_ok c)"

named_theorems view_simps \<open>how the statements change the view of a build\<close>

lemma find_update_key:
  assumes "\<And>r. key (f r) = key r"
  shows "find (\<lambda>r. key r = k) (update_where P f rows) =
         map_option (\<lambda>r. if P r then f r else r) (find (\<lambda>r. key r = k) rows)"
  using assms by (induction rows) (auto simp: update_where_def)

lemma find_build_update [view_simps]:
  assumes "\<And>r. gb_id (f r) = gb_id r"
  shows "find_build b' (update_build b f c) =
         (if b' = b then map_option f (find_build b c) else find_build b' c)"
proof -
  have "find_build b' (update_build b f c) =
        map_option (\<lambda>r. if gb_id r = b then f r else r) (find_build b' c)"
    using assms by (simp add: find_build_def update_build_def find_update_key)
  also have "\<dots> = (if b' = b then map_option f (find_build b c) else find_build b' c)"
    by (cases "find_build b' c") (auto simp: find_build_def dest: find_in_set)
  finally show ?thesis .
qed

lemma update_build_select [simp]:
  "curation_runs (update_build b f c) = curation_runs c"
  "graph_runs (update_build b f c) = graph_runs c"
  "topic_runs (update_build b f c) = topic_runs c"
  "vector_runs (update_build b f c) = vector_runs c"
  "validation_runs (update_build b f c) = validation_runs c"
  "promotion_runs (update_build b f c) = promotion_runs c"
  "checkpoints (update_build b f c) = checkpoints c"
  by (simp_all add: update_build_def)

lemma run_info_touch:
  assumes "distinct (map rr_id rows)" and "run_info b rows = Some (rid, s)"
    and "\<And>r. rr_id (f r) = rr_id r" "\<And>r. rr_build (f r) = rr_build r" "\<And>r. rr_status (f r) = st"
  shows "run_info b' (update_where (\<lambda>r. rr_id r = rid) f rows) =
         (if b' = b then Some (rid, st) else run_info b' rows)"
proof -
  from assms(2) obtain r where r: "find_run b rows = Some r" "rr_id r = rid"
    by (auto simp: run_info_def)
  have eq: "find_run b' (update_where (\<lambda>r. rr_id r = rid) f rows) =
            map_option (\<lambda>r. if rr_id r = rid then f r else r) (find_run b' rows)"
    using assms(4) by (simp add: find_run_def find_update_key)
  have other: "rr_id r' \<noteq> rid" if "find_run b' rows = Some r'" "b' \<noteq> b" for r'
  proof
    assume "rr_id r' = rid"
    with r that assms(1) have "r' = r"
      by (auto simp: find_run_def distinct_map dest!: find_in_set dest: inj_onD)
    with r that show False by (auto simp: find_run_def dest: find_in_set)
  qed
  show ?thesis
    using r other assms(3,5) by (cases "find_run b' rows") (auto simp: run_info_def eq)
qed

lemma run_info_insert:
  assumes "insert_run r rows = Inr rows'"
  shows "run_info b' rows' = (if b' = rr_build r then Some (rr_id r, rr_status r) else run_info b' rows)"
proof -
  from assms have rows': "rows' = rows @ [r]" and new: "rr_build r \<notin> rr_build ` set rows"
    by (auto simp: insert_run_def split: if_splits)
  have "find P (xs @ [r]) = (case find P xs of None \<Rightarrow> if P r then Some r else None | Some x \<Rightarrow> Some x)"
    for P and xs :: "'a run_row_scheme list"
    by (induction xs) auto
  moreover have "rr_build x \<noteq> rr_build r" if "x \<in> set rows" for x
    using new imageI [OF that, of rr_build] by metis
  then have "find (\<lambda>x. rr_build x = rr_build r) rows = None"
    by (simp add: find_None_iff)
  ultimately show ?thesis
    by (auto simp: rows' run_info_def find_run_def split: option.splits)
qed

lemma runs_ok_insert: "runs_ok rows \<Longrightarrow> insert_run r rows = Inr rows' \<Longrightarrow> runs_ok rows'"
  by (auto simp: runs_ok_def insert_run_def split: if_splits)

lemma runs_ok_update:
  assumes "\<And>r. rr_id (f r) = rr_id r" "\<And>r. rr_build (f r) = rr_build r"
  shows "runs_ok (update_where P f rows) = runs_ok rows"
  using assms by (simp add: runs_ok_def map_update_where)

lemmas run_update_defs = reopen_run_def complete_run_def fail_run_def suspend_run_def

lemma runs_ok_statements [view_simps]:
  "runs_ok (reopen_run rid rows) = runs_ok rows"
  "runs_ok (complete_run now rid m rows) = runs_ok rows"
  "runs_ok (fail_run now rid e rows) = runs_ok rows"
  "runs_ok (suspend_run b rows) = runs_ok rows"
  by (simp_all add: run_update_defs runs_ok_update)

lemma run_info_statements:
  assumes "runs_ok rows" and "run_info b rows = Some (rid, s)"
  shows "run_info b' (reopen_run rid rows) = (if b' = b then Some (rid, R_running) else run_info b' rows)"
    and "run_info b' (complete_run now rid m rows) = (if b' = b then Some (rid, R_completed) else run_info b' rows)"
    and "run_info b' (fail_run now rid e rows) = (if b' = b then Some (rid, R_failed) else run_info b' rows)"
proof -
  from assms have "distinct (map rr_id rows)" by (simp add: runs_ok_def)
  note touch = run_info_touch [OF this assms(2)]
  show "run_info b' (reopen_run rid rows) = (if b' = b then Some (rid, R_running) else run_info b' rows)"
    unfolding reopen_run_def by (rule touch) simp_all
  show "run_info b' (complete_run now rid m rows) = (if b' = b then Some (rid, R_completed) else run_info b' rows)"
    unfolding complete_run_def by (rule touch) simp_all
  show "run_info b' (fail_run now rid e rows) = (if b' = b then Some (rid, R_failed) else run_info b' rows)"
    unfolding fail_run_def by (rule touch) simp_all
qed

lemma run_info_suspend [view_simps]:
  "run_info b' (suspend_run b rows) =
     (if b' = b then map_option (\<lambda>(i, s). (i, R_pending)) (run_info b rows) else run_info b' rows)"
proof -
  have "find_run b' (suspend_run b rows) =
     map_option (\<lambda>r. if rr_build r = b then r\<lparr>rr_status := R_pending, rr_finished := None, rr_error := None\<rparr> else r)
       (find_run b' rows)"
    by (simp add: suspend_run_def find_run_def find_update_key)
  then show ?thesis
    by (cases "find_run b' rows") (auto simp: run_info_def find_run_def dest: find_in_set)
qed

lemma map_gb_id_update [view_simps]:
  "(\<And>r. gb_id (f r) = gb_id r) \<Longrightarrow> map gb_id (builds (update_build b f c)) = map gb_id (builds c)"
  by (simp add: update_build_def map_update_where)

lemma status_of_update [view_simps]:
  "(\<And>r. gb_id (f r) = gb_id r) \<Longrightarrow>
   status_of b' (update_build b f c) =
     (if b' = b then map_option (\<lambda>r. gb_status (f r)) (find_build b c) else status_of b' c)"
  by (auto simp: status_of_def find_build_update option.map_comp comp_def)

lemma other_tables [view_simps]:
  "status_of b (c\<lparr>curation_runs := t1\<rparr>) = status_of b c" "passed b (c\<lparr>curation_runs := t1\<rparr>) = passed b c"
  "status_of b (c\<lparr>graph_runs := t2\<rparr>) = status_of b c" "passed b (c\<lparr>graph_runs := t2\<rparr>) = passed b c"
  "status_of b (c\<lparr>topic_runs := t3\<rparr>) = status_of b c" "passed b (c\<lparr>topic_runs := t3\<rparr>) = passed b c"
  "status_of b (c\<lparr>vector_runs := t4\<rparr>) = status_of b c" "passed b (c\<lparr>vector_runs := t4\<rparr>) = passed b c"
  "find_build b (c\<lparr>curation_runs := t1\<rparr>) = find_build b c"
  "find_build b (c\<lparr>graph_runs := t2\<rparr>) = find_build b c"
  "find_build b (c\<lparr>topic_runs := t3\<rparr>) = find_build b c"
  "find_build b (c\<lparr>vector_runs := t4\<rparr>) = find_build b c"
  by (simp_all add: status_of_def find_build_def passed_def find_validation_def)

lemma passed_same:
  "validation_runs c' = validation_runs c \<Longrightarrow> passed b c' = passed b c"
  by (simp add: passed_def find_validation_def)

lemma passed_update [view_simps]: "passed b' (update_build b f c) = passed b' c"
  by (rule passed_same) simp

lemma find_build_iff:
  assumes "distinct (map gb_id (builds c))"
  shows "find_build b c = Some g \<longleftrightarrow> g \<in> set (builds c) \<and> gb_id g = b"
proof
  assume "find_build b c = Some g"
  then show "g \<in> set (builds c) \<and> gb_id g = b"
    unfolding find_build_def by (auto dest: find_in_set)
next
  assume "g \<in> set (builds c) \<and> gb_id g = b"
  with find_unique [OF assms, of g] show "find_build b c = Some g"
    by (simp add: find_build_def)
qed

lemma singleton_iff:
  assumes "distinct (map key zs)"
  shows "length zs \<le> 1 \<longleftrightarrow> (\<forall>x \<in> set zs. \<forall>y \<in> set zs. key x = key y)"
proof (cases zs)
  case (Cons x ws)
  with assms show ?thesis by (cases ws) auto
qed simp

lemma at_most_one_iff:
  assumes "distinct (map key rows)"
  shows "length (filter P rows) \<le> 1 \<longleftrightarrow>
         (\<forall>r \<in> set rows. \<forall>r' \<in> set rows. P r \<longrightarrow> P r' \<longrightarrow> key r = key r')"
proof -
  have "distinct (map key (filter P rows))" using assms by (rule distinct_map_filter)
  then show ?thesis by (subst singleton_iff, assumption) auto
qed

lemma release_ok_view:
  assumes "tables_ok c"
  shows "release_ok c \<longleftrightarrow>
     (\<forall>b. is_published b c \<longrightarrow> all_completed b c \<and> passed b c) \<and>
     (\<forall>b b'. status_of b c = Some B_active \<longrightarrow> status_of b' c = Some B_active \<longrightarrow> b = b')"
proof -
  from assms have d: "distinct (map gb_id (builds c))" by (simp add: tables_ok_def)
  note fb = find_build_iff [OF d]
  have st: "status_of b c = Some s \<longleftrightarrow> (\<exists>g \<in> set (builds c). gb_id g = b \<and> gb_status g = s)" for b s
    by (auto simp: status_of_def fb)
  have "(\<forall>g \<in> set (builds c). published (gb_status g) \<longrightarrow> all_completed (gb_id g) c \<and> passed (gb_id g) c)
        \<longleftrightarrow> (\<forall>b. is_published b c \<longrightarrow> all_completed b c \<and> passed b c)"
    by (fastforce simp: is_published_def st split: option.splits)
  moreover have "length (filter (\<lambda>g. gb_status g = B_active) (builds c)) \<le> 1 \<longleftrightarrow>
        (\<forall>b b'. status_of b c = Some B_active \<longrightarrow> status_of b' c = Some B_active \<longrightarrow> b = b')"
    unfolding at_most_one_iff [OF d] st by blast
  ultimately show ?thesis by (simp add: release_ok_def)
qed

lemma view_eqD:
  assumes "view b c' = view b c"
  shows "status_of b c' = status_of b c" "is_published b c' = is_published b c"
    "all_completed b c' = all_completed b c" "passed b c' = passed b c"
  using assms by (auto simp: view_def is_published_def all_completed_def)

text \<open>A transaction that touches one build and leaves it unpublished keeps the promise.\<close>

lemma release_ok_step:
  assumes "catalog_ok c" and "tables_ok c'" and "only_build b c c'" and "\<not> is_published b c'"
  shows "catalog_ok c'"
proof -
  from assms(1) have ok: "tables_ok c" "release_ok c" by (auto simp: catalog_ok_def)
  note old = ok(2) [unfolded release_ok_view [OF ok(1)]]
  have same: "b' \<noteq> b \<Longrightarrow> view b' c' = view b' c" for b'
    using assms(3) by (simp add: only_build_def)
  have unb: "status_of b c' \<noteq> Some B_active"
    using assms(4) by (auto simp: is_published_def published_def)
  have "is_published b' c' \<longrightarrow> all_completed b' c' \<and> passed b' c'" for b'
    using old assms(4) view_eqD [OF same] by (cases "b' = b") auto
  moreover have "b1 = b2" if "status_of b1 c' = Some B_active" "status_of b2 c' = Some B_active" for b1 b2
    using that old unb view_eqD(1) [OF same] by (cases "b1 = b"; cases "b2 = b") auto
  ultimately show ?thesis
    using assms(2) by (auto simp: catalog_ok_def release_ok_view)
qed

section \<open>The contract of a stage\<close>

locale build_stage =
  fixes info_at :: "string \<Rightarrow> catalog \<Rightarrow> (string \<times> run_status) option"
    and prepare :: "string \<Rightarrow> string handler"
    and finish :: "string \<Rightarrow> string \<Rightarrow> unit handler"
    and abandon :: "string \<Rightarrow> string \<Rightarrow> string \<Rightarrow> unit handler"
  assumes prepare_law:
      "catalog_ok c \<Longrightarrow> prepare b c = Inr (rid, c') \<Longrightarrow>
         tables_ok c' \<and> only_build b c c' \<and>
         (\<exists>s. info_at b c' = Some (rid, s) \<and> (\<not> is_published b c' \<or> s = R_completed \<and> c' = c))"
    and finish_law:
      "tables_ok c \<Longrightarrow> info_at b c = Some (rid, s) \<Longrightarrow> finish b rid c = Inr ((), c') \<Longrightarrow>
         tables_ok c' \<and> only_build b c c' \<and> \<not> is_published b c' \<and>
         info_at b c' = Some (rid, R_completed)"
    and abandon_law:
      "tables_ok c \<Longrightarrow> info_at b c = Some (rid, s) \<Longrightarrow>
         \<exists>c'. abandon b rid e c = Inr ((), c') \<and> tables_ok c' \<and> only_build b c c' \<and>
              \<not> is_published b c' \<and> info_at b c' = Some (rid, R_failed)"
begin

lemma prepare_keeps:
  assumes "catalog_ok c" and "prepare b c = Inr (rid, c')"
  shows "catalog_ok c'"
  using prepare_law [OF assms] assms(1) release_ok_step [of c c' b] by auto

lemma finish_keeps:
  assumes "catalog_ok c" and "info_at b c = Some (rid, s)" and "finish b rid c = Inr ((), c')"
  shows "catalog_ok c'"
  using finish_law [OF _ assms(2,3)] assms(1) release_ok_step [of c c' b]
  by (auto simp: catalog_ok_def)

lemma abandon_keeps:
  assumes "catalog_ok c" and "info_at b c = Some (rid, s)"
  shows "\<exists>c'. abandon b rid e c = Inr ((), c') \<and> catalog_ok c' \<and> info_at b c' = Some (rid, R_failed)"
  using abandon_law [OF _ assms(2), of e] assms(1) release_ok_step [of c _ b]
  by (force simp: catalog_ok_def)

end


section \<open>The stages keep the contract\<close>

lemma only_buildI:
  assumes "\<And>b'. b' \<noteq> b \<Longrightarrow> status_of b' c' = status_of b' c"
    and "\<And>b'. b' \<noteq> b \<Longrightarrow> run_info b' (curation_runs c') = run_info b' (curation_runs c)"
    and "\<And>b'. b' \<noteq> b \<Longrightarrow> run_info b' (graph_runs c') = run_info b' (graph_runs c)"
    and "\<And>b'. b' \<noteq> b \<Longrightarrow> run_info b' (topic_runs c') = run_info b' (topic_runs c)"
    and "\<And>b'. b' \<noteq> b \<Longrightarrow> run_info b' (vector_runs c') = run_info b' (vector_runs c)"
    and "\<And>b'. b' \<noteq> b \<Longrightarrow> passed b' c' = passed b' c"
  shows "only_build b c c'"
  using assms by (simp add: only_build_def view_def)

lemma only_build_refl [simp]: "only_build b c c"
  by (simp add: only_build_def)

lemma find_run_info: "find_run b rows = Some r \<Longrightarrow> run_info b rows = Some (rr_id r, rr_status r)"
  by (simp add: run_info_def)

lemma find_build_status: "find_build b c = Some g \<Longrightarrow> status_of b c = Some (gb_status g)"
  by (simp add: status_of_def)

lemma set_build_status_facts [view_simps]:
  "curation_runs (set_build_status b s c) = curation_runs c"
  "graph_runs (set_build_status b s c) = graph_runs c"
  "topic_runs (set_build_status b s c) = topic_runs c"
  "vector_runs (set_build_status b s c) = vector_runs c"
  "validation_runs (set_build_status b s c) = validation_runs c"
  "map gb_id (builds (set_build_status b s c)) = map gb_id (builds c)"
  "passed b' (set_build_status b s c) = passed b' c"
  "status_of b' (set_build_status b s c) =
     (if b' = b then map_option (\<lambda>_. s) (find_build b c) else status_of b' c)"
  by (simp_all add: set_build_status_def view_simps)

lemma fail_build_facts [view_simps]:
  "curation_runs (fail_build b e c) = curation_runs c"
  "graph_runs (fail_build b e c) = graph_runs c"
  "topic_runs (fail_build b e c) = topic_runs c"
  "vector_runs (fail_build b e c) = vector_runs c"
  "validation_runs (fail_build b e c) = validation_runs c"
  "map gb_id (builds (fail_build b e c)) = map gb_id (builds c)"
  "passed b' (fail_build b e c) = passed b' c"
  "status_of b' (fail_build b e c) =
     (if b' = b then map_option (\<lambda>_. B_failed) (find_build b c) else status_of b' c)"
  by (simp_all add: fail_build_def view_simps)

lemma advance_build_facts:
  assumes "advance_build b key v s c = Inr ((), c')"
  shows "curation_runs c' = curation_runs c" "graph_runs c' = graph_runs c"
    "topic_runs c' = topic_runs c" "vector_runs c' = vector_runs c"
    "validation_runs c' = validation_runs c" "map gb_id (builds c') = map gb_id (builds c)"
    "passed b' c' = passed b' c"
    "status_of b' c' = (if b' = b then Some s else status_of b' c)"
  using assms by (auto simp: advance_build_def view_simps split: option.splits)

lemma curation_prepare_law:
  assumes "catalog_ok c" and "curation_prepare env rules now b c = Inr (rid, c')"
  shows "tables_ok c' \<and> only_build b c c' \<and>
    (\<exists>s. run_info b (curation_runs c') = Some (rid, s) \<and>
         (\<not> is_published b c' \<or> s = R_completed \<and> c' = c))"
proof -
  from assms(1) have ok: "tables_ok c" "runs_ok (curation_runs c)"
    by (auto simp: catalog_ok_def tables_ok_def)
  from assms(2) obtain g where g: "find_build b c = Some g"
    by (auto simp: curation_prepare_def split: option.splits)
  show ?thesis
  proof (cases "find_run b (curation_runs c)")
    case None
    with assms(2) g obtain r rows where ins: "insert_run r (curation_runs c) = Inr rows"
      "rr_build r = b" "rr_id r = rid" "c' = c\<lparr>curation_runs := rows\<rparr>" "gb_status g = B_curating"
      by (auto simp: curation_prepare_def Let_def res_bind_eq_Inr split: if_splits)
    then show ?thesis
      using ok runs_ok_insert [OF ok(2) ins(1)] run_info_insert [OF ins(1)] find_build_status [OF g]
      by (auto simp: tables_ok_def is_published_def published_def view_simps
          intro!: only_buildI)
  next
    case (Some r)
    with assms(2) g have "rr_status r = R_completed \<and> c' = c \<and> rid = rr_id r \<or>
        c' = set_build_status b B_curating (c\<lparr>curation_runs := reopen_run (rr_id r) (curation_runs c)\<rparr>)
        \<and> rid = rr_id r"
      by (simp add: curation_prepare_def Let_def split: if_splits) auto
    then show ?thesis
    proof (elim disjE conjE, goal_cases)
      case 1
      with ok find_run_info [OF Some] show ?case by auto
    next
      case 2
      with ok g run_info_statements(1) [OF ok(2) find_run_info [OF Some]] show ?case
        by (auto simp: tables_ok_def is_published_def published_def view_simps
            intro!: only_buildI)
    qed
  qed
qed


lemma curation_finish_law:
  assumes "tables_ok c" and "run_info b (curation_runs c) = Some (rid, s)"
    and "curation_finish now b rid c = Inr ((), c')"
  shows "tables_ok c' \<and> only_build b c c' \<and> \<not> is_published b c' \<and>
    run_info b (curation_runs c') = Some (rid, R_completed)"
proof -
  from assms(1) have ok: "runs_ok (curation_runs c)" by (simp add: tables_ok_def)
  note adv = advance_build_facts [OF assms(3) [unfolded curation_finish_def Let_def]]
  show ?thesis
    using assms(1) run_info_statements(2) [OF ok assms(2)]
    by (auto simp: tables_ok_def is_published_def published_def view_simps adv
        intro!: only_buildI)
qed

lemma curation_fail_law:
  assumes "tables_ok c" and "run_info b (curation_runs c) = Some (rid, s)"
  shows "\<exists>c'. curation_fail now b rid e c = Inr ((), c') \<and> tables_ok c' \<and> only_build b c c' \<and>
    \<not> is_published b c' \<and> run_info b (curation_runs c') = Some (rid, R_failed)"
proof -
  from assms(1) have ok: "runs_ok (curation_runs c)" by (simp add: tables_ok_def)
  show ?thesis
    using assms(1) run_info_statements(3) [OF ok assms(2)]
    by (auto simp: curation_fail_def tables_ok_def is_published_def published_def view_simps
        intro!: only_buildI split: option.splits)
qed

interpretation curation: build_stage "\<lambda>b c. run_info b (curation_runs c)"
    "curation_prepare env rules now" "curation_finish now" "curation_fail now"
  for env rules now
  by unfold_locales
     (fact curation_prepare_law curation_finish_law curation_fail_law)+

lemma graph_prepare_law:
  assumes "catalog_ok c" and "graph_prepare env now b c = Inr (rid, c')"
  shows "tables_ok c' \<and> only_build b c c' \<and>
    (\<exists>s. run_info b (graph_runs c') = Some (rid, s) \<and>
         (\<not> is_published b c' \<or> s = R_completed \<and> c' = c))"
proof -
  from assms(1) have ok: "tables_ok c" "runs_ok (graph_runs c)"
    by (auto simp: catalog_ok_def tables_ok_def)
  from assms(2) obtain g where g: "find_build b c = Some g"
      and st: "gb_status g \<in> {B_embedding, B_writing_graph, B_failed}"
    by (auto simp: graph_prepare_def split: option.splits if_splits)
  from st have np: "\<not> is_published b c"
    by (auto simp: is_published_def find_build_status [OF g] published_def)
  show ?thesis
  proof (cases "find_run b (graph_runs c)")
    case None
    with assms(2) g st obtain r rows where ins: "insert_run r (graph_runs c) = Inr rows"
      "rr_build r = b" "rr_id r = rid" "c' = c\<lparr>graph_runs := rows\<rparr>"
      by (auto simp: graph_prepare_def Let_def res_bind_eq_Inr split: if_splits)
    then show ?thesis
      using ok np runs_ok_insert [OF ok(2) ins(1)] run_info_insert [OF ins(1)]
      by (auto simp: tables_ok_def is_published_def view_simps intro!: only_buildI)
  next
    case (Some r)
    with assms(2) g st have
      "c' = (if rr_status r = R_completed then c
             else c\<lparr>graph_runs := reopen_run rid (graph_runs c)\<rparr>) \<and> rid = rr_id r"
      by (auto simp: graph_prepare_def split: if_splits)
    with ok np find_run_info [OF Some] run_info_statements(1) [OF ok(2) find_run_info [OF Some]]
    show ?thesis
      by (auto simp: tables_ok_def is_published_def view_simps intro!: only_buildI)
  qed
qed

lemma graph_finish_law:
  assumes "tables_ok c" and "run_info b (graph_runs c) = Some (rid, s)"
    and "graph_finish now b rid c = Inr ((), c')"
  shows "tables_ok c' \<and> only_build b c c' \<and> \<not> is_published b c' \<and>
    run_info b (graph_runs c') = Some (rid, R_completed)"
proof -
  from assms(1) have ok: "runs_ok (graph_runs c)" by (simp add: tables_ok_def)
  note adv = advance_build_facts [OF assms(3) [unfolded graph_finish_def Let_def]]
  show ?thesis
    using assms(1) run_info_statements(2) [OF ok assms(2)]
    by (auto simp: tables_ok_def is_published_def published_def view_simps adv
        intro!: only_buildI)
qed

lemma graph_fail_law:
  assumes "tables_ok c" and "run_info b (graph_runs c) = Some (rid, s)"
  shows "\<exists>c'. graph_fail now b rid e c = Inr ((), c') \<and> tables_ok c' \<and> only_build b c c' \<and>
    \<not> is_published b c' \<and> run_info b (graph_runs c') = Some (rid, R_failed)"
proof -
  from assms(1) have ok: "runs_ok (graph_runs c)" by (simp add: tables_ok_def)
  show ?thesis
    using assms(1) run_info_statements(3) [OF ok assms(2)]
    by (auto simp: graph_fail_def tables_ok_def is_published_def published_def view_simps
        intro!: only_buildI split: option.splits)
qed

interpretation graph: build_stage "\<lambda>b c. run_info b (graph_runs c)"
    "graph_prepare env now" "graph_finish now" "graph_fail now"
  for env now
  by unfold_locales (fact graph_prepare_law graph_finish_law graph_fail_law)+


lemma enter_vector_facts [view_simps]:
  "curation_runs (enter_vector b fp c) = curation_runs c"
  "graph_runs (enter_vector b fp c) = graph_runs c"
  "topic_runs (enter_vector b fp c) = topic_runs c"
  "vector_runs (enter_vector b fp c) = vector_runs c"
  "validation_runs (enter_vector b fp c) = validation_runs c"
  "map gb_id (builds (enter_vector b fp c)) = map gb_id (builds c)"
  "passed b' (enter_vector b fp c) = passed b' c"
  "status_of b' (enter_vector b fp c) =
     (if b' = b then map_option (\<lambda>_. B_writing_vector) (find_build b c) else status_of b' c)"
  by (simp_all add: enter_vector_def view_simps)

lemma vector_prepare_cases:
  assumes "vector_prepare env settings tokenizer now b c = Inr (rid, c')"
  obtains g fp where "find_build b c = Some g" and "gb_status g \<in> {B_writing_vector, B_failed}"
    and "fp = embedding_fingerprint env settings tokenizer"
    and "case find_run b (vector_runs c) of
        None \<Rightarrow> (\<exists>coll rows. insert_run (new_vector_run settings tokenizer fp coll now b) (vector_runs c) = Inr rows
                   \<and> rid = b @ '':'' @ vector_run_version \<and> c' = enter_vector b fp (c\<lparr>vector_runs := rows\<rparr>))
      | Some r \<Rightarrow> rid = rr_id r \<and>
          c' = (if rr_status r = R_completed then enter_vector b fp c
                else enter_vector b fp (c\<lparr>vector_runs := reopen_run rid (vector_runs c)\<rparr>))"
proof -
  from assms obtain g coll where g: "find_build b c = Some g"
      "gb_status g \<in> {B_writing_vector, B_failed}" "professor_collection_name b = Inr coll"
    by (auto simp: vector_prepare_def res_bind_eq_Inr split: option.splits if_splits)
  show thesis
  proof (rule that [OF g(1,2) refl], goal_cases)
    case 1
    from assms g show ?case
      by (cases "find_run b (vector_runs c)")
         (auto simp: vector_prepare_def Let_def res_bind_eq_Inr split: option.splits if_splits)
  qed
qed

lemma vector_prepare_law:
  assumes "catalog_ok c" and "vector_prepare env settings tokenizer now b c = Inr (rid, c')"
  shows "tables_ok c' \<and> only_build b c c' \<and>
    (\<exists>s. run_info b (vector_runs c') = Some (rid, s) \<and>
         (\<not> is_published b c' \<or> s = R_completed \<and> c' = c))"
proof -
  from assms(1) have ok: "tables_ok c" "runs_ok (vector_runs c)"
    by (auto simp: catalog_ok_def tables_ok_def)
  from assms(2) obtain g fp where "find_build b c = Some g"
    and "case find_run b (vector_runs c) of
        None \<Rightarrow> (\<exists>coll rows. insert_run (new_vector_run settings tokenizer fp coll now b) (vector_runs c) = Inr rows
                   \<and> rid = b @ '':'' @ vector_run_version \<and> c' = enter_vector b fp (c\<lparr>vector_runs := rows\<rparr>))
      | Some r \<Rightarrow> rid = rr_id r \<and>
          c' = (if rr_status r = R_completed then enter_vector b fp c
                else enter_vector b fp (c\<lparr>vector_runs := reopen_run rid (vector_runs c)\<rparr>))"
    by (rule vector_prepare_cases)
  then show ?thesis
  proof (cases "find_run b (vector_runs c)")
    case None
    with \<open>case find_run b (vector_runs c) of None \<Rightarrow> _ | Some r \<Rightarrow> _ r\<close> obtain coll rows
      where ins: "insert_run (new_vector_run settings tokenizer fp coll now b) (vector_runs c) = Inr rows"
        "rid = b @ '':'' @ vector_run_version" "c' = enter_vector b fp (c\<lparr>vector_runs := rows\<rparr>)" by auto
    then show ?thesis
      using ok runs_ok_insert [OF ok(2) ins(1)] run_info_insert [OF ins(1)]
      by (auto simp: new_vector_run_def tables_ok_def is_published_def published_def view_simps
          intro!: only_buildI split: option.splits)
  next
    case (Some r)
    with \<open>case find_run b (vector_runs c) of None \<Rightarrow> _ | Some r \<Rightarrow> _ r\<close>
    have "rid = rr_id r" "c' = (if rr_status r = R_completed then enter_vector b fp c
                else enter_vector b fp (c\<lparr>vector_runs := reopen_run rid (vector_runs c)\<rparr>))" by auto
    with ok find_run_info [OF Some] run_info_statements(1) [OF ok(2) find_run_info [OF Some]]
    show ?thesis
      by (auto simp: tables_ok_def is_published_def published_def view_simps
          intro!: only_buildI split: option.splits)
  qed
qed

lemma vector_finish_law:
  assumes "tables_ok c" and "run_info b (vector_runs c) = Some (rid, s)"
    and "vector_finish now expected found b rid c = Inr ((), c')"
  shows "tables_ok c' \<and> only_build b c c' \<and> \<not> is_published b c' \<and>
    run_info b (vector_runs c') = Some (rid, R_completed)"
proof -
  from assms(1) have ok: "runs_ok (vector_runs c)" by (simp add: tables_ok_def)
  from assms(3) obtain summary where
    "advance_build b ''vector'' (JDict summary) B_validating
       (c\<lparr>vector_runs := complete_run now rid summary (vector_runs c)\<rparr>) = Inr ((), c')"
    by (auto simp: vector_finish_def Let_def res_bind_eq_Inr split: if_splits)
  note adv = advance_build_facts [OF this]
  show ?thesis
    using assms(1) run_info_statements(2) [OF ok assms(2)]
    by (auto simp: tables_ok_def is_published_def published_def view_simps adv
        intro!: only_buildI)
qed

lemma vector_fail_law:
  assumes "tables_ok c" and "run_info b (vector_runs c) = Some (rid, s)"
  shows "\<exists>c'. vector_fail now b rid e c = Inr ((), c') \<and> tables_ok c' \<and> only_build b c c' \<and>
    \<not> is_published b c' \<and> run_info b (vector_runs c') = Some (rid, R_failed)"
proof -
  from assms(1) have ok: "runs_ok (vector_runs c)" by (simp add: tables_ok_def)
  show ?thesis
    using assms(1) run_info_statements(3) [OF ok assms(2)]
    by (auto simp: vector_fail_def tables_ok_def is_published_def published_def view_simps
        intro!: only_buildI split: option.splits)
qed

interpretation vector: build_stage "\<lambda>b c. run_info b (vector_runs c)"
    "vector_prepare env settings tokenizer now" "vector_finish now expected found" "vector_fail now"
  for env settings tokenizer now expected found
  by unfold_locales (fact vector_prepare_law vector_finish_law vector_fail_law)+

end
