(* ===== verification/Dext_Topics.thy ===== *)
theory Dext_Topics
  imports Dext_Stages
begin

text \<open>
  Topics (\<open>topics.py\<close>, \<open>normalization.py\<close>, \<open>topic_workflow.py\<close>): the taxonomy and its import,
  the guarded insertion of subtopic relations, the links of research statements to topics, the
  clustering of provisional topics, and the job table that drives the linking of
  statements.
\<close>

section \<open>Text (normalization.py, topics.py)\<close>

text \<open>
  \<open>te_nfkc\<close> is \<open>unicodedata.normalize("NFKC", ...)\<close>, \<open>te_fold\<close> is \<open>casefold\<close>, \<open>te_punct\<close> the
  regular expression of punctuation-only text, \<open>te_uuid\<close> is \<open>uuid.UUID\<close> followed by \<open>str\<close>,
  \<open>te_uuid5\<close> the name-based UUID in the namespace of provisional topics and \<open>te_str\<close> is
  \<open>str\<close> on values that are not strings.
\<close>

record topic_env =
  te_nfkc :: "string \<Rightarrow> string"
  te_fold :: "string \<Rightarrow> string"
  te_punct :: "string \<Rightarrow> bool"
  te_uuid :: "string \<Rightarrow> string option"
  te_uuid5 :: "string \<Rightarrow> string"
  te_str :: "json \<Rightarrow> string"

text \<open>\<open>re.sub(r"\s+", " ", s)\<close>\<close>

lemma lstrip_toks_shorter: "length (lstrip_toks toks s) \<le> length s"
proof (induction toks s rule: lstrip_toks.induct)
  case (1 toks s)
  then show ?case
    by (subst lstrip_toks.simps)
       (auto split: option.split intro: order_trans [OF _ diff_le_self])
qed

function space_sub :: "string \<Rightarrow> string" where
  "space_sub [] = []"
| "space_sub (c # cs) =
     (let r = py_lstrip (c # cs)
      in if length r < length (c # cs) then CHR '' '' # space_sub r else c # space_sub cs)"
  by pat_completeness auto
termination
  by (relation "measure length") auto

definition default_empty_values :: "string list" where
  "default_empty_values =
     [''unknown'', [CHR 0xE6, CHR 0x9C, CHR 0xAA, CHR 0xE7, CHR 0x9F, CHR 0xA5],
      [CHR 0xE6, CHR 0x9A, CHR 0x82, CHR 0xE6, CHR 0x97, CHR 0xA0], [CHR 0xE6, CHR 0x97, CHR 0xA0],
      ''null'', ''none'', ''n/a'', ''-'', ''--'']"

definition normalize_text :: "topic_env \<Rightarrow> string list \<Rightarrow> string option \<Rightarrow> string option" where
  "normalize_text te empties value =
     (case value of
        None \<Rightarrow> None
      | Some raw \<Rightarrow>
          (let s = space_sub (py_strip (te_nfkc te raw))
           in if s = [] \<or> te_punct te s then None
              else if te_fold te s \<in> set (map (\<lambda>v. te_fold te (py_strip (te_nfkc te v))) empties)
              then None else Some s))"

abbreviation norm :: "topic_env \<Rightarrow> string option \<Rightarrow> string option" where
  "norm te \<equiv> normalize_text te default_empty_values"

definition topic_alias_key :: "topic_env \<Rightarrow> string \<Rightarrow> (catalog_error, string) result" where
  "topic_alias_key te value =
     (case norm te (Some value) of
        None \<Rightarrow> Inl (Value_error_cat ''Topic alias must contain text'')
      | Some t \<Rightarrow> Inr (te_fold te (te_nfkc te t)))"

section \<open>The relation graph (topics.py, lifecycle.py)\<close>

text \<open>
  The adjacency map of the code is the list of its edges; the search keeps a stack and the set of
  topics it has expanded. The order in which a Python set lists the successors does not
  matter to the answer.
\<close>

definition succs :: "(string \<times> string) list \<Rightarrow> string \<Rightarrow> string list" where
  "succs E x = remdups (map snd (filter (\<lambda>e. fst e = x) E))"

lemma set_succs [simp]: "set (succs E x) = set E `` {x}"
  by (force simp: succs_def)

function reach_loop :: "(string \<times> string) list \<Rightarrow> string \<Rightarrow> string list \<Rightarrow> string list \<Rightarrow> bool" where
  "reach_loop E t [] seen = False"
| "reach_loop E t (x # ws) seen =
     (if x = t then True
      else if x \<in> set seen then reach_loop E t ws seen
      else reach_loop E t (succs E x @ ws) (x # seen))"
  by pat_completeness auto
termination
proof (relation "measures [\<lambda>(E, t, ws, seen). card (fst ` set E - set seen), \<lambda>(E, t, ws, seen). length ws]",
    goal_cases)
  case (3 E t x ws seen)
  show ?case
  proof (cases "x \<in> fst ` set E")
    case True
    with 3 have "fst ` set E - set (x # seen) \<subset> fst ` set E - set seen" by auto
    then have "card (fst ` set E - set (x # seen)) < card (fst ` set E - set seen)"
      by (rule psubset_card_mono [rotated]) simp
    then show ?thesis by simp
  next
    case False
    then have "succs E x = []" and "fst ` set E - set (x # seen) = fst ` set E - set seen"
      by (auto simp: succs_def filter_empty_conv image_iff)
    then show ?thesis by simp
  qed
qed auto

definition reaches :: "(string \<times> string) list \<Rightarrow> string \<Rightarrow> string \<Rightarrow> bool" where
  "reaches E start t = reach_loop E t [start] []"

lemma leave_seen:
  assumes "(y, t) \<in> R\<^sup>*" and "y \<in> S" and "t \<notin> S" and "R `` S \<subseteq> S \<union> W"
  shows "\<exists>w \<in> W. (w, t) \<in> R\<^sup>*"
  using assms
proof (induction rule: converse_rtrancl_induct)
  case (step y z)
  then show ?case by (cases "z \<in> S") auto
qed simp

lemma reach_loop_iff:
  assumes "t \<notin> set seen" and "set E `` set seen \<subseteq> set seen \<union> set ws"
  shows "reach_loop E t ws seen \<longleftrightarrow> (\<exists>w \<in> set ws. (w, t) \<in> (set E)\<^sup>*)"
  using assms
proof (induction E t ws seen rule: reach_loop.induct)
  case (2 E t x ws seen)
  consider "x = t" | "x \<noteq> t" "x \<in> set seen" | "x \<noteq> t" "x \<notin> set seen" by blast
  then show ?case
  proof cases
    case 2
    with "2.prems" have closed: "set E `` set seen \<subseteq> set seen \<union> set ws" by auto
    have "\<exists>w \<in> set ws. (w, t) \<in> (set E)\<^sup>*" if "(x, t) \<in> (set E)\<^sup>*"
      using leave_seen [OF that 2(2) "2.prems"(1) closed] .
    with 2 "2.IH"(1) closed "2.prems"(1) show ?thesis by auto
  next
    case 3
    with "2.prems" have "set E `` set (x # seen) \<subseteq> set (x # seen) \<union> set (succs E x @ ws)"
      and "t \<notin> set (x # seen)" by auto
    note ih = "2.IH"(2) [OF 3 this(2,1)]
    have "(x, t) \<in> (set E)\<^sup>* \<longleftrightarrow> (\<exists>w \<in> set (succs E x). (w, t) \<in> (set E)\<^sup>*)"
      using 3 by (auto intro: converse_rtrancl_into_rtrancl elim: converse_rtranclE)
    with 3 ih show ?thesis by auto
  qed auto
qed simp

lemma reaches_iff: "reaches E start t \<longleftrightarrow> (start, t) \<in> (set E)\<^sup>*"
  unfolding reaches_def by (subst reach_loop_iff) simp_all

text \<open>
  \<open>_topic_cycle_count\<close> of \<open>lifecycle.py\<close>: the number of edges that close a cycle. Its own search
  starts from the successors.
\<close>

definition subtopic_edges :: "string \<Rightarrow> catalog \<Rightarrow> (string \<times> string) list" where
  "subtopic_edges b c =
     remdups (map (\<lambda>r. (rl_from r, rl_to r)) (filter (\<lambda>r. rl_build r = b) (topic_relations c)))"

definition closes_cycle :: "(string \<times> string) list \<Rightarrow> string \<times> string \<Rightarrow> bool" where
  "closes_cycle E e = (fst e = snd e \<or> reach_loop E (fst e) (succs E (snd e)) [])"

definition topic_cycle_count :: "string \<Rightarrow> catalog \<Rightarrow> nat" where
  "topic_cycle_count b c =
     length (filter (closes_cycle (subtopic_edges b c)) (subtopic_edges b c))"

lemma closes_cycle_iff: "closes_cycle E (x, y) \<longleftrightarrow> (y, x) \<in> (set E)\<^sup>*"
proof -
  have "reach_loop E x (succs E y) [] \<longleftrightarrow> (\<exists>w \<in> set (succs E y). (w, x) \<in> (set E)\<^sup>*)"
    by (simp add: reach_loop_iff)
  also have "\<dots> \<longleftrightarrow> (y, x) \<in> (set E)\<^sup>+"
    by (auto intro: rtrancl_into_trancl2 dest: tranclD)
  finally show ?thesis
    by (auto simp: closes_cycle_def rtrancl_eq_or_trancl)
qed

lemma topic_cycle_count_iff: "topic_cycle_count b c = 0 \<longleftrightarrow> acyclic (set (subtopic_edges b c))"
proof -
  let ?E = "subtopic_edges b c"
  have "acyclic (set ?E) \<longleftrightarrow> (\<forall>(x, y) \<in> set ?E. (y, x) \<notin> (set ?E)\<^sup>*)"
    unfolding acyclic_def
    by (auto intro: rtrancl_into_trancl2 dest: tranclD)
  then show ?thesis
    by (auto simp: topic_cycle_count_def filter_empty_conv closes_cycle_iff)
qed


section \<open>The taxonomy (topics.py)\<close>

record taxonomy_alias =
  al_text :: string
  al_language :: string

record taxonomy_topic =
  tt_id :: string
  tt_name :: string
  tt_kind :: string
  tt_aliases :: "taxonomy_alias list"
  tt_parents :: "string list"

record taxonomy_manifest =
  tm_version :: string
  tm_status :: string
  tm_parent :: "string option"
  tm_hash :: string
  tm_topics :: "taxonomy_topic list"

definition topic_kinds :: "string list" where
  "topic_kinds = [''discipline'', ''method'', ''task'', ''application_domain'', ''research_object'']"

definition statement_relations :: "string list" where
  "statement_relations = [''PRIMARY_TOPIC'', ''USES_METHOD'', ''APPLIED_TO'', ''TARGETS_TASK'', ''STUDIES'']"

definition relation_kind :: "(string, string) dict" where
  "relation_kind =
     [(''USES_METHOD'', ''method''), (''APPLIED_TO'', ''application_domain''),
      (''TARGETS_TASK'', ''task''), (''STUDIES'', ''research_object'')]"

text \<open>Python truth and \<open>str\<close> of a value read from YAML.\<close>

fun truthy :: "json \<Rightarrow> bool" where
  "truthy JNull = False"
| "truthy (JBool v) = v"
| "truthy (JInt i) = (i \<noteq> 0)"
| "truthy (JFloat q) = (q \<noteq> 0)"
| "truthy (JStr s) = (s \<noteq> [])"
| "truthy (JList vs) = (vs \<noteq> [])"
| "truthy (JDict d) = (d \<noteq> [])"

definition json_str :: "topic_env \<Rightarrow> json \<Rightarrow> string" where
  "json_str te v = (case v of JStr s \<Rightarrow> s | _ \<Rightarrow> te_str te v)"

definition json_get :: "metadata \<Rightarrow> string \<Rightarrow> json" where
  "json_get d k = (case dict_get d k of None \<Rightarrow> JNull | Some v \<Rightarrow> v)"

definition str_or_empty :: "topic_env \<Rightarrow> json \<Rightarrow> string" where
  "str_or_empty te v = (if truthy v then json_str te v else [])"

text \<open>\<open>None\<close> stays \<open>None\<close>, everything else goes through \<open>str\<close>.\<close>

definition opt_str :: "topic_env \<Rightarrow> json \<Rightarrow> string option" where
  "opt_str te v = (if v = JNull then None else Some (json_str te v))"

text \<open>\<open>value.get(key) or []\<close>, iterated: a string iterates over its characters.\<close>

function code_points :: "string \<Rightarrow> string list" where
  "code_points [] = []"
| "code_points (c # cs) = (c # takeWhile is_cont_byte cs) # code_points (dropWhile is_cont_byte cs)"
  by pat_completeness auto
termination
  by (relation "measure length") (auto simp: less_Suc_eq_le length_dropWhile_le)

definition list_or_empty :: "json \<Rightarrow> (catalog_error, json list) result" where
  "list_or_empty v =
     (if \<not> truthy v then Inr []
      else case v of
             JList vs \<Rightarrow> Inr vs
           | JDict d \<Rightarrow> Inr (map (\<lambda>(k, x). JStr k) d)
           | JStr s \<Rightarrow> Inr (map JStr (code_points s))
           | _ \<Rightarrow> Inl Type_error_cat)"

definition alias_language :: "topic_env \<Rightarrow> json \<Rightarrow> (catalog_error, string) result" where
  "alias_language te v =
     (let l = json_str te (if truthy v then v else JStr ''unknown'')
      in if l \<in> {''zh'', ''en'', ''mixed'', ''unknown''} then Inr l
         else Inl (Value_error_cat (''unsupported Topic alias language: '' @ l)))"

definition validate_uuid :: "topic_env \<Rightarrow> json \<Rightarrow> (catalog_error, string) result" where
  "validate_uuid te v =
     (case te_uuid te (json_str te v) of
        None \<Rightarrow> Inl (Value_error_cat ''badly formed hexadecimal UUID string'')
      | Some u \<Rightarrow> Inr u)"

definition parse_alias :: "topic_env \<Rightarrow> string \<Rightarrow> json \<Rightarrow> (catalog_error, taxonomy_alias) result" where
  "parse_alias te tid v =
     (let v' = (case v of JStr s \<Rightarrow> JDict [(''text'', v), (''language'', JStr ''unknown'')] | _ \<Rightarrow> v)
      in case v' of
           JDict d \<Rightarrow>
             (case norm te (opt_str te (json_get d ''text'')) of
                None \<Rightarrow> Inl (Value_error_cat (''Topic '' @ tid @ '' has an empty alias''))
              | Some t \<Rightarrow> res_bind (alias_language te (json_get d ''language''))
                  (\<lambda>l. Inr \<lparr>al_text = t, al_language = l\<rparr>))
         | _ \<Rightarrow> Inl (Value_error_cat (''Topic '' @ tid @ '' has invalid alias'')))"

text \<open>\<open>[f(x) for x in xs]\<close> with an \<open>f\<close> that may raise.\<close>

primrec res_map :: "('a \<Rightarrow> ('e, 'b) result) \<Rightarrow> 'a list \<Rightarrow> ('e, 'b list) result" where
  "res_map f [] = Inr []"
| "res_map f (x # xs) = res_bind (f x) (\<lambda>y. res_bind (res_map f xs) (\<lambda>ys. Inr (y # ys)))"

definition claim_alias ::
    "topic_env \<Rightarrow> string \<Rightarrow> taxonomy_alias \<Rightarrow> (string, string) dict \<Rightarrow>
     (catalog_error, (string, string) dict) result" where
  "claim_alias te tid a owners =
     res_bind (topic_alias_key te (al_text a)) (\<lambda>key.
       let owners' = dict_setdefault key tid owners
       in if dict_get owners' key \<noteq> Some tid
          then Inl (Value_error_cat (''taxonomy alias '' @ quoted (al_text a) @ '' belongs to both '' @
                 (case dict_get owners' key of None \<Rightarrow> [] | Some w \<Rightarrow> w) @ '' and '' @ tid))
          else Inr owners')"

type_synonym taxonomy_state = "taxonomy_topic list \<times> (string, string) dict"

definition parse_topic ::
    "topic_env \<Rightarrow> json \<Rightarrow> taxonomy_state \<Rightarrow> (catalog_error, taxonomy_state) result" where
  "parse_topic te v st =
     (case v of
        JDict d \<Rightarrow>
          res_bind (validate_uuid te (json_get d ''id'')) (\<lambda>tid.
            if tid \<in> set (map tt_id (fst st))
            then Inl (Value_error_cat (''duplicate Topic UUID: '' @ tid))
            else case norm te (opt_str te (json_get d ''canonical_name'')) of
                   None \<Rightarrow> Inl (Value_error_cat (''Topic '' @ tid @ '' lacks canonical_name''))
                 | Some name \<Rightarrow>
                     (let kind = str_or_empty te (json_get d ''kind'')
                      in if kind \<notin> set topic_kinds
                         then Inl (Value_error_cat (''Topic '' @ tid @ '' has unsupported kind: '' @ kind))
                         else res_bind (res_bind (list_or_empty (json_get d ''aliases'')) (res_map (parse_alias te tid)))
                           (\<lambda>aliases. res_bind (res_bind (list_or_empty (json_get d ''parents'')) (res_map (validate_uuid te)))
                             (\<lambda>parents. res_bind
                               (res_fold (claim_alias te tid)
                                 (\<lparr>al_text = name, al_language = ''unknown''\<rparr> # aliases) (snd st))
                               (\<lambda>owners. Inr (fst st @
                                 [\<lparr>tt_id = tid, tt_name = name, tt_kind = kind, tt_aliases = aliases,
                                   tt_parents = parents\<rparr>], owners))))))
      | _ \<Rightarrow> Inl (Value_error_cat ''each taxonomy Topic must be an object''))"

definition find_topic :: "taxonomy_topic list \<Rightarrow> string \<Rightarrow> taxonomy_topic option" where
  "find_topic ts tid = find (\<lambda>t. tt_id t = tid) ts"

definition check_parent ::
    "taxonomy_topic list \<Rightarrow> taxonomy_topic \<Rightarrow> string \<Rightarrow> (catalog_error, unit) result" where
  "check_parent ts t p =
     (case find_topic ts p of
        None \<Rightarrow> Inl (Value_error_cat (''Topic '' @ tt_id t @ '' references unknown parent '' @ p))
      | Some q \<Rightarrow>
          if p = tt_id t then Inl (Value_error_cat (''Topic '' @ tt_id t @ '' cannot be its own parent''))
          else if tt_kind q \<noteq> tt_kind t
          then Inl (Value_error_cat (''Topic '' @ tt_id t @ '' and parent '' @ p @ '' have different kinds''))
          else Inr ())"

definition check_parents :: "taxonomy_topic list \<Rightarrow> (catalog_error, unit) result" where
  "check_parents ts = res_fold (\<lambda>t _. res_fold (\<lambda>p _. check_parent ts t p) (tt_parents t) ()) ts ()"

text \<open>
  \<open>_assert_acyclic\<close>: a depth-first search that marks topics grey on the way down (1 in the code)
  and black on the way up (2). \<open>fuel\<close> bounds the depth of the recursion; the depth never exceeds the
  number of topics, see \<open>assert_acyclic_iff\<close>.
\<close>

type_synonym marks = "(string, bool) dict"

fun visit :: "taxonomy_topic list \<Rightarrow> nat \<Rightarrow> string \<Rightarrow> marks \<Rightarrow> (catalog_error, marks) result" where
  "visit ts 0 x m = Inl (Value_error_cat ''recursion limit'')"
| "visit ts (Suc n) x m =
     (case dict_get m x of
        Some False \<Rightarrow> Inl (Value_error_cat (''taxonomy contains a directed cycle at '' @ x))
      | Some True \<Rightarrow> Inr m
      | None \<Rightarrow>
          (case find_topic ts x of
             None \<Rightarrow> Inl (Key_error_cat x)
           | Some t \<Rightarrow>
               res_bind (res_fold (visit ts n) (tt_parents t) (dict_set x False m))
                 (\<lambda>m'. Inr (dict_set x True m'))))"

definition assert_acyclic :: "taxonomy_topic list \<Rightarrow> (catalog_error, unit) result" where
  "assert_acyclic ts =
     res_bind (res_fold (visit ts (Suc (length ts))) (map tt_id ts) []) (\<lambda>_. Inr ())"

definition load_taxonomy :: "catalog_env \<Rightarrow> topic_env \<Rightarrow> json \<Rightarrow> (catalog_error, taxonomy_manifest) result" where
  "load_taxonomy env te raw =
     (case raw of
        JDict d \<Rightarrow>
          (let version = py_strip (str_or_empty te (json_get d ''version''));
               status = py_strip (str_or_empty te (json_get d ''status''));
               parent = (case opt_str te (json_get d ''parent_version'') of
                           None \<Rightarrow> None
                         | Some p \<Rightarrow> if py_strip p = [] then None else Some (py_strip p))
           in if version = [] then Inl (Value_error_cat ''taxonomy version is required'')
              else if status \<notin> {''draft'', ''published'', ''retired''}
              then Inl (Value_error_cat (''unsupported taxonomy status: '' @ status))
              else case json_get d ''topics'' of
                     JList vs \<Rightarrow>
                       if vs = [] then Inl (Value_error_cat ''taxonomy topics must be a non-empty list'')
                       else res_bind (res_fold (parse_topic te) vs ([], []))
                         (\<lambda>st. res_bind (check_parents (fst st))
                           (\<lambda>_. res_bind (assert_acyclic (fst st))
                             (\<lambda>_. Inr \<lparr>tm_version = version, tm_status = status, tm_parent = parent,
                                       tm_hash = canonical_json_hash env raw, tm_topics = fst st\<rparr>)))
                   | _ \<Rightarrow> Inl (Value_error_cat ''taxonomy topics must be a non-empty list''))
      | _ \<Rightarrow> Inl (Value_error_cat ''taxonomy root must be an object''))"


subsection \<open>The search for cycles is exact\<close>

definition parent_edges :: "taxonomy_topic list \<Rightarrow> (string \<times> string) set" where
  "parent_edges ts = {(tt_id t, p) |t p. t \<in> set ts \<and> p \<in> set (tt_parents t)}"

definition grey :: "marks \<Rightarrow> string set" where
  "grey m = {x. dict_get m x = Some False}"

definition black :: "marks \<Rightarrow> string set" where
  "black m = {x. dict_get m x = Some True}"

definition marks_ok :: "taxonomy_topic list \<Rightarrow> marks \<Rightarrow> bool" where
  "marks_ok ts m \<longleftrightarrow>
     parent_edges ts `` black m \<subseteq> black m \<and> (\<forall>x \<in> black m. (x, x) \<notin> (parent_edges ts)\<^sup>+)"

definition white_count :: "taxonomy_topic list \<Rightarrow> marks \<Rightarrow> nat" where
  "white_count ts m = card (tt_id ` set ts - (grey m \<union> black m))"

definition parents_known :: "taxonomy_topic list \<Rightarrow> bool" where
  "parents_known ts = (\<forall>t \<in> set ts. set (tt_parents t) \<subseteq> tt_id ` set ts)"

text \<open>What a visit of \<open>x\<close> leaves behind.\<close>

definition visited ::
    "taxonomy_topic list \<Rightarrow> string set \<Rightarrow> marks \<Rightarrow> (catalog_error, marks) result \<Rightarrow> bool" where
  "visited ts xs m r =
     (case r of
        Inl e \<Rightarrow> \<not> acyclic (parent_edges ts)
      | Inr m' \<Rightarrow> marks_ok ts m' \<and> grey m' = grey m \<and> black m \<subseteq> black m' \<and> xs \<subseteq> black m')"

lemma white_count_mono:
  "grey m \<union> black m \<subseteq> grey m' \<union> black m' \<Longrightarrow> white_count ts m' \<le> white_count ts m"
  unfolding white_count_def by (rule card_mono) auto

lemma visit_list:
  assumes step: "\<And>x m. x \<in> set xs \<Longrightarrow> marks_ok ts m \<Longrightarrow> white_count ts m < n \<Longrightarrow>
      (\<forall>g \<in> grey m. (g, x) \<in> (parent_edges ts)\<^sup>+) \<Longrightarrow> visited ts {x} m (visit ts n x m)"
    and "marks_ok ts m" and "white_count ts m < n"
    and "\<forall>x \<in> set xs. \<forall>g \<in> grey m. (g, x) \<in> (parent_edges ts)\<^sup>+"
  shows "visited ts (set xs) m (res_fold (visit ts n) xs m)"
  using assms
proof (induction xs arbitrary: m)
  case (Cons x xs)
  have first: "visited ts {x} m (visit ts n x m)"
    using Cons.prems by simp
  show ?case
  proof (cases "visit ts n x m")
    case (Inl e)
    with first show ?thesis by (simp add: visited_def)
  next
    case (Inr m1)
    with first have m1: "marks_ok ts m1" "grey m1 = grey m" "black m \<subseteq> black m1" "x \<in> black m1"
      by (simp_all add: visited_def)
    then have "grey m \<union> black m \<subseteq> grey m1 \<union> black m1" by auto
    with Cons.prems(3) have "white_count ts m1 < n"
      using white_count_mono order_le_less_trans by blast
    moreover have "\<forall>y \<in> set xs. \<forall>g \<in> grey m1. (g, y) \<in> (parent_edges ts)\<^sup>+"
      using Cons.prems(4) m1(2) by simp
    ultimately have "visited ts (set xs) m1 (res_fold (visit ts n) xs m1)"
      using Cons.IH [of m1] Cons.prems(1) m1(1) by simp
    with Inr m1 show ?thesis by (auto simp: visited_def split: sum.splits)
  qed
qed (simp add: visited_def)

lemma marks_set:
  "grey (dict_set x False m) = insert x (grey m)" "black (dict_set x False m) = black m - {x}"
  "grey (dict_set x True m) = grey m - {x}" "black (dict_set x True m) = insert x (black m)"
  by (auto simp: grey_def black_def dict_get_set)

lemma find_topic_known:
  assumes "x \<in> tt_id ` set ts"
  obtains t where "find_topic ts x = Some t" and "t \<in> set ts" and "tt_id t = x"
  using assms by (cases "find_topic ts x") (auto simp: find_topic_def find_None_iff dest: find_in_set)

lemma marks_ok_finish:
  assumes "marks_ok ts m" and "x \<notin> black m" and "parent_edges ts `` {x} \<subseteq> black m"
  shows "marks_ok ts (dict_set x True m)"
proof -
  have closed: "parent_edges ts `` black m \<subseteq> black m" using assms(1) by (simp add: marks_ok_def)
  have "(x, x) \<notin> (parent_edges ts)\<^sup>+"
  proof
    assume "(x, x) \<in> (parent_edges ts)\<^sup>+"
    then obtain y where "(x, y) \<in> parent_edges ts" "(y, x) \<in> (parent_edges ts)\<^sup>*"
      by (auto dest: tranclD)
    with assms(3) have "y \<in> black m" by auto
    with \<open>(y, x) \<in> _\<close> have "x \<in> black m"
      by (rule rtrancl_induct) (use closed in auto)
    with assms(2) show False ..
  qed
  with assms closed show ?thesis by (auto simp: marks_ok_def marks_set)
qed

lemma visit_white:
  assumes ids: "distinct (map tt_id ts)" "parents_known ts"
    and ih: "\<And>y m. y \<in> tt_id ` set ts \<Longrightarrow> marks_ok ts m \<Longrightarrow> white_count ts m < n \<Longrightarrow>
      (\<forall>g \<in> grey m. (g, y) \<in> (parent_edges ts)\<^sup>+) \<Longrightarrow> visited ts {y} m (visit ts n y m)"
    and x: "x \<in> tt_id ` set ts" "dict_get m x = None"
    and m: "marks_ok ts m" "white_count ts m < Suc n" "\<forall>g \<in> grey m. (g, x) \<in> (parent_edges ts)\<^sup>+"
  shows "visited ts {x} m (visit ts (Suc n) x m)"
proof -
  obtain t where t: "find_topic ts x = Some t" "t \<in> set ts" "tt_id t = x"
    using x(1) by (rule find_topic_known)
  let ?m = "dict_set x False m"
  have nx: "x \<notin> grey m" "x \<notin> black m" using x(2) by (auto simp: grey_def black_def)
  have ps: "parent_edges ts `` {x} = set (tt_parents t)"
    using t ids(1) by (auto simp: parent_edges_def distinct_map dest: inj_onD)
  have "white_count ts ?m < white_count ts m"
    unfolding white_count_def marks_set using x(1) nx
    by (intro psubset_card_mono) auto
  then have wc: "white_count ts ?m < n" using m(2) by simp
  have ok: "marks_ok ts ?m" using m(1) nx by (simp add: marks_ok_def marks_set)
  have gp: "\<forall>p \<in> set (tt_parents t). \<forall>g \<in> grey ?m. (g, p) \<in> (parent_edges ts)\<^sup>+"
    using m(3) ps by (auto simp: marks_set intro: trancl_into_trancl)
  have "visited ts (set (tt_parents t)) ?m (res_fold (visit ts n) (tt_parents t) ?m)"
    using ids(2) t(2) by (intro visit_list ih ok wc gp) (auto simp: parents_known_def)
  moreover have "x \<notin> black m'" if "grey m' = insert x (grey m)" for m'
  proof -
    from that have "x \<in> grey m'" by simp
    then show ?thesis by (simp add: grey_def black_def)
  qed
  ultimately show ?thesis
    using nx ps t(1) x(2)
    by (auto simp: visited_def marks_set split: sum.splits intro!: marks_ok_finish)
qed

lemma visit_spec:
  assumes "distinct (map tt_id ts)" and "parents_known ts"
    and "x \<in> tt_id ` set ts" and "marks_ok ts m" and "white_count ts m < n"
    and "\<forall>g \<in> grey m. (g, x) \<in> (parent_edges ts)\<^sup>+"
  shows "visited ts {x} m (visit ts n x m)"
  using assms(3-)
proof (induction n arbitrary: x m)
  case (Suc n)
  show ?case
  proof (cases "dict_get m x")
    case None
    then show ?thesis
      using visit_white [OF assms(1,2), of n x m] Suc.IH Suc.prems by blast
  next
    case (Some v)
    then show ?thesis
      using Suc.prems by (cases v) (auto simp: visited_def grey_def black_def acyclic_def)
  qed
qed simp

lemma acyclic_if_black:
  assumes "tt_id ` set ts \<subseteq> black m" and "marks_ok ts m"
  shows "acyclic (parent_edges ts)"
  unfolding acyclic_def
proof (intro allI notI)
  fix x assume cyc: "(x, x) \<in> (parent_edges ts)\<^sup>+"
  then obtain y where "(x, y) \<in> parent_edges ts" by (auto dest: tranclD)
  then have "x \<in> tt_id ` set ts" by (auto simp: parent_edges_def)
  with assms cyc show False by (auto simp: marks_ok_def)
qed

lemma assert_acyclic_iff:
  assumes "distinct (map tt_id ts)" and "parents_known ts"
  shows "assert_acyclic ts = Inr () \<longleftrightarrow> acyclic (parent_edges ts)"
proof -
  have "white_count ts [] \<le> length ts"
    by (auto simp: white_count_def grey_def black_def dict_get_def
        intro: order_trans [OF card_image_le card_length])
  then have v: "visited ts (set (map tt_id ts)) [] (res_fold (visit ts (Suc (length ts))) (map tt_id ts) [])"
    by (intro visit_list visit_spec assms)
       (auto simp: marks_ok_def grey_def black_def dict_get_def)
  show ?thesis
  proof (cases "res_fold (visit ts (Suc (length ts))) (map tt_id ts) []")
    case (Inl e)
    with v show ?thesis by (simp add: visited_def assert_acyclic_def)
  next
    case (Inr m)
    with v acyclic_if_black [of ts m] show ?thesis by (simp add: visited_def assert_acyclic_def)
  qed
qed


text \<open>What a loaded taxonomy satisfies.\<close>

definition taxonomy_ok :: "taxonomy_manifest \<Rightarrow> bool" where
  "taxonomy_ok m =
     (tm_version m \<noteq> [] \<and> tm_topics m \<noteq> [] \<and> distinct (map tt_id (tm_topics m)) \<and>
      (\<forall>t \<in> set (tm_topics m). tt_name t \<noteq> [] \<and> tt_kind t \<in> set topic_kinds \<and>
         (\<forall>p \<in> set (tt_parents t). \<exists>q \<in> set (tm_topics m). tt_id q = p \<and> q \<noteq> t \<and> tt_kind q = tt_kind t)) \<and>
      acyclic (parent_edges (tm_topics m)))"

lemma normalize_nonempty: "normalize_text te es v = Some s \<Longrightarrow> s \<noteq> []"
  by (auto simp: normalize_text_def Let_def split: option.splits if_splits)

lemma parse_topic_step:
  assumes "parse_topic te v st = Inr st'"
  shows "\<exists>t. fst st' = fst st @ [t] \<and> tt_id t \<notin> tt_id ` set (fst st) \<and> tt_name t \<noteq> [] \<and>
    tt_kind t \<in> set topic_kinds"
proof (cases v)
  case (JDict d)
  with assms show ?thesis
    by (auto simp: parse_topic_def res_bind_eq_Inr Let_def normalize_nonempty split: if_splits option.splits)
qed (use assms in \<open>simp_all add: parse_topic_def\<close>)

lemma parse_topics:
  assumes "res_fold (parse_topic te) vs ([], []) = Inr st"
  shows "length (fst st) = length vs \<and> distinct (map tt_id (fst st)) \<and>
    (\<forall>t \<in> set (fst st). tt_name t \<noteq> [] \<and> tt_kind t \<in> set topic_kinds)"
proof -
  have "length (fst st) = length (fst st0) + length vs \<and> distinct (map tt_id (fst st)) \<and>
      (\<forall>t \<in> set (fst st). tt_name t \<noteq> [] \<and> tt_kind t \<in> set topic_kinds)"
    if "res_fold (parse_topic te) vs st0 = Inr st" "distinct (map tt_id (fst st0))"
      "\<forall>t \<in> set (fst st0). tt_name t \<noteq> [] \<and> tt_kind t \<in> set topic_kinds" for st0
    using that
  proof (induction vs arbitrary: st0)
    case (Cons v vs)
    then obtain st1 where st1: "parse_topic te v st0 = Inr st1" "res_fold (parse_topic te) vs st1 = Inr st"
      by (auto simp: res_bind_eq_Inr)
    from parse_topic_step [OF st1(1)] Cons.IH [OF st1(2)] Cons.prems show ?case by auto
  qed simp
  from this [OF assms] show ?thesis by simp
qed

lemma check_parents_ok:
  assumes "check_parents ts = Inr ()" and "t \<in> set ts" and "p \<in> set (tt_parents t)"
  shows "\<exists>q \<in> set ts. tt_id q = p \<and> q \<noteq> t \<and> tt_kind q = tt_kind t"
proof -
  have all: "f x () = Inr ()" if "res_fold f xs () = Inr ()" "x \<in> set xs" for f :: "'a \<Rightarrow> unit \<Rightarrow> ('e, unit) result" and x xs
    using that by (induction xs) (auto simp: res_bind_eq_Inr)
  from all [OF assms(1) [unfolded check_parents_def] assms(2)]
  have "res_fold (\<lambda>p _. check_parent ts t p) (tt_parents t) () = Inr ()" .
  from all [OF this assms(3)] show ?thesis
    by (auto simp: check_parent_def find_topic_def split: option.splits if_splits dest: find_in_set)
qed

text \<open>
  C27: A taxonomy file that loads is well formed, whatever it contains: its identifiers are distinct, every
  topic has a name and one of the five kinds, every parent is another topic of the file of the same
  kind, and the parent relation has no directed cycle.
\<close>

theorem taxonomy_loaded_sound:
  assumes "load_taxonomy env te raw = Inr m"
  shows "taxonomy_ok m"
proof -
  from assms obtain vs st where vs: "vs \<noteq> []" "res_fold (parse_topic te) vs ([], []) = Inr st"
    and checks: "check_parents (fst st) = Inr ()" "assert_acyclic (fst st) = Inr ()"
    and m: "tm_topics m = fst st" "tm_version m \<noteq> []"
    by (auto simp: load_taxonomy_def Let_def res_bind_eq_Inr split: json.splits if_splits)
  note parsed = parse_topics [OF vs(2)] and parents = check_parents_ok [OF checks(1)]
  then have "parents_known (fst st)" by (force simp: parents_known_def)
  with checks(2) parsed have "acyclic (parent_edges (fst st))" by (simp add: assert_acyclic_iff)
  with vs(1) parsed parents m show ?thesis by (auto simp: taxonomy_ok_def)
qed

section \<open>Import and relations (topics.py)\<close>

definition import_alias ::
    "catalog_env \<Rightarrow> topic_env \<Rightarrow> string \<Rightarrow> string \<Rightarrow> taxonomy_alias \<Rightarrow> catalog \<Rightarrow> (catalog_error, catalog) result" where
  "import_alias env te version tid a c =
     res_bind (topic_alias_key te (al_text a)) (\<lambda>key.
       let i = hash_parts env [version, tid, key]
       in if \<exists>r \<in> set (topic_aliases c). ta_id r = i \<or> ta_version r = version \<and> ta_key r = key
          then Inr c
          else if \<not> (\<exists>t \<in> set (topics c). tp_version t = version \<and> tp_id t = tid)
          then Inl Integrity_error
          else Inr (c\<lparr>topic_aliases := topic_aliases c @
                 [\<lparr>ta_id = i, ta_topic = tid, ta_text = al_text a, ta_key = key,
                   ta_language = al_language a, ta_method = ''taxonomy_yaml'', ta_confidence = 1,
                   ta_version = version\<rparr>]\<rparr>))"

definition import_topic ::
    "catalog_env \<Rightarrow> topic_env \<Rightarrow> string \<Rightarrow> taxonomy_topic \<Rightarrow> catalog \<Rightarrow> (catalog_error, catalog) result" where
  "import_topic env te version t c =
     (if (case find (\<lambda>r. tp_id r = tt_id t) (topics c) of None \<Rightarrow> False | Some r \<Rightarrow> tp_kind r \<noteq> tt_kind t)
      then Inl (Catalog_error (''Topic '' @ tt_id t @ '' changed kind across taxonomy versions''))
      else res_bind (topic_alias_key te (tt_name t)) (\<lambda>key.
        if \<exists>r \<in> set (topics c). tp_version r = version \<and>
             (tp_id r = tt_id t \<or> tp_kind r = tt_kind t \<and> tp_normalized r = key)
        then Inr c
        else if version \<notin> tv_id ` set (taxonomy_versions c) then Inl Integrity_error
        else Inr (c\<lparr>topics := topics c @
               [\<lparr>tp_version = version, tp_id = tt_id t, tp_name = tt_name t, tp_normalized = key,
                 tp_kind = tt_kind t, tp_status = ''active'', tp_method = ''taxonomy_yaml''\<rparr>]\<rparr>)))"

definition register_version :: "taxonomy_manifest \<Rightarrow> catalog \<Rightarrow> catalog" where
  "register_version m c =
     (if \<exists>r \<in> set (taxonomy_versions c). tv_id r = tm_version m \<or> tv_hash r = tm_hash m then c
      else c\<lparr>taxonomy_versions := taxonomy_versions c @
             [\<lparr>tv_id = tm_version m, tv_status = tm_status m, tv_parent = tm_parent m,
               tv_hash = tm_hash m\<rparr>]\<rparr>)"

definition import_taxonomy ::
    "catalog_env \<Rightarrow> topic_env \<Rightarrow> taxonomy_manifest \<Rightarrow> catalog \<Rightarrow> (catalog_error, catalog) result" where
  "import_taxonomy env te m c =
     (if (case find (\<lambda>r. tv_id r = tm_version m) (taxonomy_versions c) of
            None \<Rightarrow> False | Some r \<Rightarrow> tv_hash r \<noteq> tm_hash m)
      then Inl (Catalog_error (''taxonomy version '' @ tm_version m @
                  '' changed content; publish a new version''))
      else res_fold (\<lambda>t c. res_bind (import_topic env te (tm_version m) t c)
             (res_fold (import_alias env te (tm_version m) (tt_id t))
               (\<lparr>al_text = tt_name t, al_language = ''unknown''\<rparr> # tt_aliases t)))
             (tm_topics m) (register_version m c))"

definition record_topic_finding ::
    "catalog_env \<Rightarrow> string \<Rightarrow> string \<Rightarrow> string \<Rightarrow> metadata \<Rightarrow> string \<Rightarrow> catalog \<Rightarrow> catalog" where
  "record_topic_finding env b code reference details severity c =
     (let i = finding_id env b code reference
      in if i \<in> qf_id ` set (findings c)
         then c\<lparr>findings := update_where (\<lambda>r. qf_id r = i)
                (\<lambda>r. r\<lparr>qf_details := details, qf_severity := severity, qf_resolved := False\<rparr>) (findings c)\<rparr>
         else c\<lparr>findings := findings c @
                [\<lparr>qf_id = i, qf_build = b, qf_severity = severity, qf_code = code,
                  qf_observation = None, qf_details = details, qf_resolved = False\<rparr>]\<rparr>)"

definition version_edges :: "string \<Rightarrow> string \<Rightarrow> catalog \<Rightarrow> (string \<times> string) list" where
  "version_edges b v c =
     map (\<lambda>r. (rl_from r, rl_to r)) (filter (\<lambda>r. rl_build r = b \<and> rl_version r = v) (topic_relations c))"

definition relation_reason ::
    "string \<Rightarrow> string \<Rightarrow> topic_row \<Rightarrow> topic_row \<Rightarrow> catalog \<Rightarrow> string option" where
  "relation_reason b v child parent c =
     (if tp_id child = tp_id parent then Some ''self_loop''
      else if tp_kind child \<noteq> tp_kind parent then Some ''kind_mismatch''
      else if tp_status child \<noteq> ''active'' \<or> tp_status parent \<noteq> ''active'' then Some ''inactive_topic''
      else if reaches (version_edges b v c) (tp_id parent) (tp_id child) then Some ''directed_cycle''
      else None)"

definition topic_at :: "string \<Rightarrow> string \<Rightarrow> catalog \<Rightarrow> topic_row option" where
  "topic_at v t c = find (\<lambda>r. tp_version r = v \<and> tp_id r = t) (topics c)"

definition new_relation :: "string \<Rightarrow> string \<Rightarrow> string \<Rightarrow> string \<Rightarrow> relation_row" where
  "new_relation b v child parent =
     \<lparr>rl_build = b, rl_from = child, rl_to = parent, rl_method = ''taxonomy_yaml'', rl_confidence = 1,
      rl_version = v, rl_provenance = ''taxonomy:'' @ v @ '':'' @ child @ '':'' @ parent\<rparr>"

definition insert_topic_relation ::
    "catalog_env \<Rightarrow> string \<Rightarrow> string \<Rightarrow> string \<Rightarrow> string \<Rightarrow> bool handler" where
  "insert_topic_relation env b v child parent c =
     (case (topic_at v child c, topic_at v parent c) of
        (Some x, Some y) \<Rightarrow>
          (case relation_reason b v x y c of
             Some reason \<Rightarrow>
               Inr (False, record_topic_finding env b
                 (if reason \<noteq> ''kind_mismatch'' then ''taxonomy_cycle_rejected'' else ''taxonomy_kind_rejected'')
                 (child @ '':'' @ parent)
                 [(''child_id'', JStr child), (''parent_id'', JStr parent), (''reason'', JStr reason)]
                 ''error'' c)
           | None \<Rightarrow>
               Inr (True,
                 if \<exists>r \<in> set (topic_relations c). rl_build r = b \<and> rl_from r = child \<and> rl_to r = parent
                 then c
                 else c\<lparr>topic_relations := topic_relations c @ [new_relation b v child parent]\<rparr>))
      | _ \<Rightarrow> Inl (Catalog_error ''Topic relation references an unknown Topic''))"

definition materialize_taxonomy_relations ::
    "catalog_env \<Rightarrow> string \<Rightarrow> taxonomy_manifest \<Rightarrow> nat handler" where
  "materialize_taxonomy_relations env b m c =
     res_fold (\<lambda>t. res_fold (\<lambda>p (n, c).
         res_bind (insert_topic_relation env b (tm_version m) (tt_id t) p c)
           (\<lambda>(ok, c'). Inr (if ok then Suc n else n, c'))) (tt_parents t))
       (tm_topics m) (0, c)"

text \<open>All relations of a build carry its taxonomy version, and they form a directed acyclic graph.\<close>

definition dag_ok :: "string \<Rightarrow> string \<Rightarrow> catalog \<Rightarrow> bool" where
  "dag_ok b v c =
     ((\<forall>r \<in> set (topic_relations c). rl_build r = b \<longrightarrow> rl_version r = v) \<and> topic_cycle_count b c = 0)"

lemma dag_ok_iff:
  "dag_ok b v c \<longleftrightarrow> (\<forall>r \<in> set (topic_relations c). rl_build r = b \<longrightarrow> rl_version r = v) \<and>
     acyclic (set (version_edges b v c))"
proof -
  have "set (subtopic_edges b c) = set (version_edges b v c)"
    if "\<forall>r \<in> set (topic_relations c). rl_build r = b \<longrightarrow> rl_version r = v"
    using that by (auto simp: subtopic_edges_def version_edges_def)
  then show ?thesis by (auto simp: dag_ok_def topic_cycle_count_iff)
qed

lemma topic_at_id: "topic_at v t c = Some r \<Longrightarrow> tp_id r = t"
  by (auto simp: topic_at_def dest: find_in_set)

lemma record_topic_finding_relations [simp]:
  "topic_relations (record_topic_finding env b code reference d s c) = topic_relations c"
  by (simp add: record_topic_finding_def Let_def)

lemma dag_ok_relations: "topic_relations c' = topic_relations c \<Longrightarrow> dag_ok b v c' = dag_ok b v c"
  by (simp add: dag_ok_iff version_edges_def)

lemma insert_topic_relation_dag:
  assumes "insert_topic_relation env b v child parent c = Inr (res, c')" and "dag_ok b v c"
  shows "dag_ok b v c'"
proof -
  from assms(1) obtain x y where xy: "topic_at v child c = Some x" "topic_at v parent c = Some y"
    by (auto simp: insert_topic_relation_def split: option.splits)
  show ?thesis
  proof (cases "relation_reason b v x y c")
    case (Some reason)
    with assms xy show ?thesis
      by (auto simp: insert_topic_relation_def dag_ok_relations [of "record_topic_finding _ _ _ _ _ _ c" c])
  next
    case None
    then have no: "(parent, child) \<notin> (set (version_edges b v c))\<^sup>*"
      using topic_at_id [OF xy(1)] topic_at_id [OF xy(2)]
      by (auto simp: relation_reason_def reaches_iff split: if_splits)
    let ?known = "\<exists>r \<in> set (topic_relations c). rl_build r = b \<and> rl_from r = child \<and> rl_to r = parent"
    from assms(1) xy None have c': "c' = (if ?known then c
        else c\<lparr>topic_relations := topic_relations c @ [new_relation b v child parent]\<rparr>)"
      by (simp add: insert_topic_relation_def)
    show ?thesis
    proof (cases ?known)
      case True
      with c' assms(2) show ?thesis by simp
    next
      case False
      with c' have c2: "c' = c\<lparr>topic_relations := topic_relations c @ [new_relation b v child parent]\<rparr>"
        by simp
      then have "set (version_edges b v c') \<subseteq> insert (child, parent) (set (version_edges b v c))"
        by (auto simp: version_edges_def new_relation_def)
      moreover have "acyclic (insert (child, parent) (set (version_edges b v c)))"
        using assms(2) no by (simp add: dag_ok_iff acyclic_insert)
      ultimately show ?thesis
        using assms(2) c2 by (auto simp: dag_ok_iff new_relation_def intro: acyclic_subset)
    qed
  qed
qed


text \<open>
  C26: Materializing the relations of a taxonomy, in one transaction over all topics and parents, keeps the
  subtopic relations of the build free of directed cycles, for every manifest and whatever relations
  earlier attempts left: no run of it gives the validation check of \<open>lifecycle.py\<close> an edge to
  count.
\<close>

theorem relations_stay_acyclic:
  assumes "materialize_taxonomy_relations env b m c = Inr (n, c')" and "dag_ok b (tm_version m) c"
  shows "dag_ok b (tm_version m) c'"
proof -
  let ?I = "\<lambda>s. dag_ok b (tm_version m) (snd s)"
  have step: "?I s'" if "?I s" and
    "(case s of (n, c) \<Rightarrow> res_bind (insert_topic_relation env b (tm_version m) (tt_id t) p c)
        (\<lambda>(ok, c'). Inr (if ok then Suc n else n, c'))) = Inr s'" for t p s s'
    using that by (cases s) (auto simp: res_bind_eq_Inr intro: insert_topic_relation_dag)
  have inner: "?I s'" if "?I s" and
    "res_fold (\<lambda>p (n, c). res_bind (insert_topic_relation env b (tm_version m) (tt_id t) p c)
        (\<lambda>(ok, c'). Inr (if ok then Suc n else n, c'))) ps s = Inr s'" for t ps s s'
    by (rule res_fold_inv [where I = ?I, OF _ that]) (rule step)
  have "?I (n, c')"
    by (rule res_fold_inv [where I = ?I, OF _ _ assms(1) [unfolded materialize_taxonomy_relations_def]])
       (use inner assms(2) in auto)
  then show ?thesis by simp
qed

section \<open>Links of statements to topics (topics.py)\<close>

record topic_concept =
  co_span :: string
  co_name :: string
  co_kind :: string
  co_relation :: string

definition validate_concept :: "topic_env \<Rightarrow> string \<Rightarrow> metadata \<Rightarrow> topic_concept option" where
  "validate_concept te raw v =
     (case (norm te (opt_str te (json_get v ''evidence_span'')),
            norm te (opt_str te (json_get v ''canonical_name''))) of
        (Some sp, Some name) \<Rightarrow>
          (let kind = str_or_empty te (json_get v ''kind'');
               rel = str_or_empty te (json_get v ''relation_type'')
           in if \<not> py_in (te_nfkc te sp) (te_nfkc te raw) then None
              else if kind \<notin> set topic_kinds \<or> rel \<notin> set statement_relations then None
              else if (case dict_get relation_kind rel of None \<Rightarrow> False | Some k \<Rightarrow> k \<noteq> kind) then None
              else Some \<lparr>co_span = sp, co_name = name, co_kind = kind, co_relation = rel\<rparr>)
      | _ \<Rightarrow> None)"

definition validate_concepts :: "topic_env \<Rightarrow> string \<Rightarrow> metadata list \<Rightarrow> topic_concept list" where
  "validate_concepts te raw vs = List.map_filter (validate_concept te raw) vs"

definition relation_matches_kind :: "string \<Rightarrow> string \<Rightarrow> bool" where
  "relation_matches_kind rel kind =
     (if rel = ''PRIMARY_TOPIC'' then kind = ''discipline'' else dict_get relation_kind rel = Some kind)"

datatype semantic_choice = Selected string rat | Answer string

definition provisional_topic ::
    "catalog_env \<Rightarrow> topic_env \<Rightarrow> string \<Rightarrow> topic_concept \<Rightarrow> string handler" where
  "provisional_topic env te v co c =
     res_bind (topic_alias_key te (co_name co)) (\<lambda>key.
       case find (\<lambda>r. tp_version r = v \<and> tp_kind r = co_kind co \<and> tp_normalized r = key) (topics c) of
         Some r \<Rightarrow> Inr (tp_id r, c)
       | None \<Rightarrow>
           (let tid = te_uuid5 te (join_with [CHR 0x00] [v, co_kind co, key]);
                i = hash_parts env [v, tid, key]
            in if (\<exists>r \<in> set (topics c). tp_version r = v \<and> tp_id r = tid)
                  \<or> v \<notin> tv_id ` set (taxonomy_versions c)
                  \<or> (\<exists>r \<in> set (topic_aliases c). ta_id r = i \<or> ta_version r = v \<and> ta_key r = key)
               then Inl Integrity_error
               else Inr (tid, c\<lparr>
                 topics := topics c @
                   [\<lparr>tp_version = v, tp_id = tid, tp_name = co_name co, tp_normalized = key,
                     tp_kind = co_kind co, tp_status = ''provisional'', tp_method = ''llm_new_topic''\<rparr>],
                 topic_aliases := topic_aliases c @
                   [\<lparr>ta_id = i, ta_topic = tid, ta_text = co_name co, ta_key = key,
                     ta_language = ''unknown'', ta_method = ''llm_new_topic'', ta_confidence = 0,
                     ta_version = v\<rparr>]\<rparr>)))"

text \<open>
  The decision for one concept: the topic, its kind, the method, the confidence and whether the link is
  approved; \<open>None\<close> where the code goes on to the next concept.
\<close>

record link_choice =
  lc_topic :: string
  lc_kind :: string
  lc_method :: string
  lc_confidence :: rat
  lc_review :: string

definition exact_alias :: "string \<Rightarrow> string \<Rightarrow> catalog \<Rightarrow> topic_row option" where
  "exact_alias v key c =
     (case [t. a \<leftarrow> topic_aliases c, t \<leftarrow> topics c,
               ta_version a = v \<and> ta_key a = key \<and> tp_version t = v \<and> tp_id t = ta_topic a] of
        [] \<Rightarrow> None
      | t # ts \<Rightarrow> Some t)"

definition choose_topic ::
    "catalog_env \<Rightarrow> topic_env \<Rightarrow> string \<Rightarrow> (string, semantic_choice) dict \<Rightarrow> topic_concept \<Rightarrow>
     link_choice option handler" where
  "choose_topic env te v choices co c =
     res_bind (topic_alias_key te (co_name co)) (\<lambda>key.
       case exact_alias v key c of
         Some t \<Rightarrow>
           Inr (Some \<lparr>lc_topic = tp_id t, lc_kind = tp_kind t, lc_method = ''alias_exact'',
                      lc_confidence = 1,
                      lc_review = if tp_kind t \<noteq> co_kind co \<or> tp_status t \<noteq> ''active''
                                  then ''review'' else ''approved''\<rparr>, c)
       | None \<Rightarrow>
           (case dict_get choices (co_span co) of
              None \<Rightarrow> Inr (None, c)
            | Some (Selected tid conf) \<Rightarrow>
                (case topic_at v tid c of
                   None \<Rightarrow> Inr (None, c)
                 | Some t \<Rightarrow>
                     Inr (if tp_kind t \<noteq> co_kind co \<or> tp_status t \<noteq> ''active'' then None
                          else Some \<lparr>lc_topic = tid, lc_kind = tp_kind t, lc_method = ''semantic_llm'',
                                     lc_confidence = conf, lc_review = ''review''\<rparr>, c))
            | Some (Answer a) \<Rightarrow>
                if a = ''new_topic''
                then res_bind (provisional_topic env te v co c) (\<lambda>(tid, c').
                       Inr (Some \<lparr>lc_topic = tid, lc_kind = co_kind co, lc_method = ''llm_new_topic'',
                                  lc_confidence = 0, lc_review = ''review''\<rparr>, c'))
                else Inr (None, c)))"

definition same_link :: "link_row \<Rightarrow> link_row \<Rightarrow> bool" where
  "same_link l r =
     (sl_build r = sl_build l \<and> sl_statement r = sl_statement l \<and> sl_topic r = sl_topic l \<and>
      sl_relation r = sl_relation l \<and> sl_span r = sl_span l)"

text \<open>
  The upsert of a link, with the two constraints it can violate: the foreign keys, and the unique
  index that allows one approved primary topic per statement.
\<close>

definition upsert_link :: "link_row \<Rightarrow> catalog \<Rightarrow> (catalog_error, catalog) result" where
  "upsert_link l c =
     (let rows = (if \<exists>r \<in> set (topic_links c). same_link l r
                  then update_where (same_link l)
                         (\<lambda>r. r\<lparr>sl_method := sl_method l, sl_confidence := sl_confidence l,
                                sl_review := sl_review l, sl_provenance := sl_provenance l\<rparr>) (topic_links c)
                  else topic_links c @ [l])
      in if \<not> (\<exists>s \<in> set (statements c). rs_build s = sl_build l \<and> rs_id s = sl_statement l)
            \<or> topic_at (sl_version l) (sl_topic l) c = None
            \<or> 1 < length (filter (\<lambda>r. sl_build r = sl_build l \<and> sl_statement r = sl_statement l \<and>
                     sl_relation r = ''PRIMARY_TOPIC'' \<and> sl_review r = ''approved'') rows)
         then Inl Integrity_error
         else Inr (c\<lparr>topic_links := rows\<rparr>))"

definition new_link :: "string \<Rightarrow> string \<Rightarrow> string \<Rightarrow> nat \<Rightarrow> topic_concept \<Rightarrow> link_choice \<Rightarrow> link_row" where
  "new_link b sid v primaries co ch =
     \<lparr>sl_build = b, sl_statement = sid, sl_version = v, sl_topic = lc_topic ch,
      sl_relation = co_relation co, sl_span = co_span co, sl_method = lc_method ch,
      sl_confidence = lc_confidence ch,
      sl_review = (if \<not> relation_matches_kind (co_relation co) (lc_kind ch)
                      \<or> co_relation co = ''PRIMARY_TOPIC'' \<and> 1 < primaries
                   then ''review'' else lc_review ch),
      sl_provenance = ''catalog:research-statement:'' @ b @ '':'' @ sid\<rparr>"

definition link_concept ::
    "catalog_env \<Rightarrow> topic_env \<Rightarrow> string \<Rightarrow> string \<Rightarrow> string \<Rightarrow> nat \<Rightarrow> (string, semantic_choice) dict \<Rightarrow>
     topic_concept \<Rightarrow> catalog \<Rightarrow> (catalog_error, catalog) result" where
  "link_concept env te b sid v primaries choices co c =
     res_bind (choose_topic env te v choices co c) (\<lambda>(choice, c').
       case choice of
         None \<Rightarrow> Inr c'
       | Some ch \<Rightarrow> upsert_link (new_link b sid v primaries co ch) c')"

definition apply_statement_concepts ::
    "catalog_env \<Rightarrow> topic_env \<Rightarrow> string \<Rightarrow> string \<Rightarrow> string \<Rightarrow> metadata list \<Rightarrow>
     (string, semantic_choice) dict \<Rightarrow> catalog \<Rightarrow> (catalog_error, catalog) result" where
  "apply_statement_concepts env te b sid raw concepts choices c =
     (case find_build b c of
        None \<Rightarrow> Inl (Catalog_error ''build has no taxonomy version'')
      | Some g \<Rightarrow>
          (case gb_taxonomy g of
             None \<Rightarrow> Inl (Catalog_error ''build has no taxonomy version'')
           | Some v \<Rightarrow>
               (let valid = validate_concepts te raw concepts;
                    primaries = length (filter (\<lambda>co. co_relation co = ''PRIMARY_TOPIC'') valid)
                in res_fold (link_concept env te b sid v primaries choices) valid c)))"

text \<open>The query of the validation gate and of the repair command: approved links that do not fit.\<close>

definition incompatible :: "link_row \<Rightarrow> topic_row \<Rightarrow> bool" where
  "incompatible l t =
     (sl_review l = ''approved'' \<and>
      (tp_status t \<noteq> ''active'' \<or>
       sl_relation l = ''PRIMARY_TOPIC'' \<and> tp_kind t \<noteq> ''discipline'' \<or>
       sl_relation l = ''USES_METHOD'' \<and> tp_kind t \<noteq> ''method'' \<or>
       sl_relation l = ''APPLIED_TO'' \<and> tp_kind t \<noteq> ''application_domain'' \<or>
       sl_relation l = ''TARGETS_TASK'' \<and> tp_kind t \<noteq> ''task'' \<or>
       sl_relation l = ''STUDIES'' \<and> tp_kind t \<noteq> ''research_object''))"

definition incompatible_links :: "string \<Rightarrow> catalog \<Rightarrow> link_row list" where
  "incompatible_links b c =
     [l. l \<leftarrow> topic_links c, t \<leftarrow> topics c,
         sl_build l = b \<and> tp_version t = sl_version l \<and> tp_id t = sl_topic l \<and> incompatible l t]"

text \<open>The primary key of the topics, the foreign key of the links, and that approved links fit.\<close>

definition links_ok :: "catalog \<Rightarrow> bool" where
  "links_ok c =
     (distinct (map (\<lambda>t. (tp_version t, tp_id t)) (topics c)) \<and>
      (\<forall>l \<in> set (topic_links c).
         case topic_at (sl_version l) (sl_topic l) c of None \<Rightarrow> False | Some t \<Rightarrow> \<not> incompatible l t))"

lemma topic_at_unique:
  assumes "distinct (map (\<lambda>t. (tp_version t, tp_id t)) (topics c))" and "t \<in> set (topics c)"
  shows "topic_at (tp_version t) (tp_id t) c = Some t"
  using find_unique [OF assms] by (simp add: topic_at_def)

lemma links_ok_compatible: "links_ok c \<Longrightarrow> incompatible_links b c = []"
  using topic_at_unique [of c] by (fastforce simp: links_ok_def incompatible_links_def)


lemma first_in: "(case xs of [] \<Rightarrow> None | y # ys \<Rightarrow> Some y) = Some x \<Longrightarrow> x \<in> set xs"
  by (cases xs) auto

lemma exact_alias_at:
  assumes "links_ok c" and "exact_alias v key c = Some t"
  shows "topic_at v (tp_id t) c = Some t"
proof -
  from assms(2) have "t \<in> set [t. a \<leftarrow> topic_aliases c, t \<leftarrow> topics c,
      ta_version a = v \<and> ta_key a = key \<and> tp_version t = v \<and> tp_id t = ta_topic a]"
    unfolding exact_alias_def by (rule first_in)
  then have "t \<in> set (topics c)" "tp_version t = v" by auto
  with assms(1) topic_at_unique [of c t] show ?thesis by (auto simp: links_ok_def)
qed

lemma topic_at_append:
  "topic_at v t (c\<lparr>topics := topics c @ [r], topic_aliases := x\<rparr>) =
     (case topic_at v t c of Some y \<Rightarrow> Some y
      | None \<Rightarrow> if tp_version r = v \<and> tp_id r = t then Some r else None)"
proof -
  have "find P (xs @ [r]) = (case find P xs of None \<Rightarrow> if P r then Some r else None | Some y \<Rightarrow> Some y)"
    for P and xs :: "topic_row list"
    by (induction xs) auto
  then show ?thesis by (auto simp: topic_at_def split: option.splits)
qed

lemma provisional_topic_links:
  assumes "provisional_topic env te v co c = Inr (tid, c')" and "links_ok c"
  shows "links_ok c'"
proof (cases "find (\<lambda>r. tp_version r = v \<and> tp_kind r = co_kind co \<and>
    tp_normalized r = projr (topic_alias_key te (co_name co))) (topics c)")
  case (Some r)
  with assms show ?thesis by (auto simp: provisional_topic_def res_bind_eq_Inr)
next
  case None
  with assms(1) obtain r x where
    c': "c' = c\<lparr>topics := topics c @ [r], topic_aliases := x\<rparr>" and
    new: "\<not> (\<exists>t \<in> set (topics c). tp_version t = tp_version r \<and> tp_id t = tp_id r)"
    by (fastforce simp: provisional_topic_def res_bind_eq_Inr Let_def split: if_splits)
  from new have "distinct (map (\<lambda>t. (tp_version t, tp_id t)) (topics c @ [r]))"
    using assms(2) by (auto simp: links_ok_def)
  then show ?thesis
    unfolding c' using assms(2)
    by (fastforce simp: links_ok_def topic_at_append split: option.splits)
qed

lemma choose_topic_links:
  assumes "choose_topic env te v choices co c = Inr (choice, c')" and "links_ok c"
  shows "links_ok c' \<and>
    (\<forall>ch. choice = Some ch \<longrightarrow> lc_review ch = ''approved'' \<longrightarrow>
       (\<exists>t. topic_at v (lc_topic ch) c' = Some t \<and> tp_status t = ''active'' \<and> tp_kind t = lc_kind ch))"
proof -
  from assms(1) obtain key where key: "topic_alias_key te (co_name co) = Inr key"
    by (auto simp: choose_topic_def res_bind_eq_Inr)
  show ?thesis
  proof (cases "exact_alias v key c")
    case (Some t)
    with assms key exact_alias_at [OF assms(2) Some] show ?thesis
      by (auto simp: choose_topic_def split: if_splits)
  next
    case None
    with assms key show ?thesis
      by (auto simp: choose_topic_def res_bind_eq_Inr split: option.splits semantic_choice.splits if_splits
          intro: provisional_topic_links)
  qed
qed

lemma upsert_link_links:
  assumes "upsert_link l c = Inr c'" and "links_ok c"
    and "\<And>t. topic_at (sl_version l) (sl_topic l) c = Some t \<Longrightarrow> \<not> incompatible l t"
    and "\<And>r t. r \<in> set (topic_links c) \<Longrightarrow> same_link l r \<Longrightarrow> sl_version r = sl_version l"
  shows "links_ok c'"
proof -
  from assms(1) obtain rows where c': "c' = c\<lparr>topic_links := rows\<rparr>"
    and rows: "rows = (if \<exists>r \<in> set (topic_links c). same_link l r
                  then update_where (same_link l)
                         (\<lambda>r. r\<lparr>sl_method := sl_method l, sl_confidence := sl_confidence l,
                                sl_review := sl_review l, sl_provenance := sl_provenance l\<rparr>) (topic_links c)
                  else topic_links c @ [l])"
    and at: "topic_at (sl_version l) (sl_topic l) c \<noteq> None"
    by (auto simp: upsert_link_def Let_def split: if_splits)
  have same: "topic_at v t c' = topic_at v t c" for v t by (simp add: c' topic_at_def)
  have fits: "case topic_at (sl_version r) (sl_topic r) c of None \<Rightarrow> False | Some t \<Rightarrow> \<not> incompatible r t"
    if "r \<in> set rows" for r
  proof (cases "r \<in> set (topic_links c)")
    case True
    with assms(2) show ?thesis by (auto simp: links_ok_def)
  next
    case False
    with that consider "r = l"
      | r0 where "r0 \<in> set (topic_links c)" "same_link l r0"
        "r = r0\<lparr>sl_method := sl_method l, sl_confidence := sl_confidence l,
               sl_review := sl_review l, sl_provenance := sl_provenance l\<rparr>"
      by (auto simp: rows update_where_def split: if_splits)
    then show ?thesis
    proof cases
      case 1
      with assms(3) at show ?thesis by (auto split: option.splits)
    next
      case 2
      with assms(4) have "sl_version r = sl_version l" "sl_topic r = sl_topic l"
        "sl_relation r = sl_relation l" "sl_review r = sl_review l"
        by (auto simp: same_link_def)
      with assms(3) at show ?thesis by (auto simp: incompatible_def split: option.splits)
    qed
  qed
  then show ?thesis using assms(2) by (simp add: links_ok_def same) (simp add: c')
qed


definition topics_ok :: "string \<Rightarrow> string \<Rightarrow> catalog \<Rightarrow> bool" where
  "topics_ok b v c =
     (links_ok c \<and> (\<forall>l \<in> set (topic_links c). sl_build l = b \<longrightarrow> sl_version l = v))"

lemma provisional_topic_select:
  "provisional_topic env te v co c = Inr (tid, c') \<Longrightarrow> topic_links c' = topic_links c"
  by (auto simp: provisional_topic_def res_bind_eq_Inr Let_def split: option.splits if_splits)

lemma choose_topic_select:
  assumes "choose_topic env te v choices co c = Inr (choice, c')"
  shows "topic_links c' = topic_links c"
proof -
  from assms obtain key where key: "topic_alias_key te (co_name co) = Inr key"
    by (auto simp: choose_topic_def res_bind_eq_Inr)
  show ?thesis
  proof (cases "exact_alias v key c")
    case (Some t)
    with assms key show ?thesis by (auto simp: choose_topic_def split: if_splits)
  next
    case None
    with assms key show ?thesis
      by (auto simp: choose_topic_def res_bind_eq_Inr split: option.splits semantic_choice.splits if_splits
          dest: provisional_topic_select)
  qed
qed

lemma upsert_link_set:
  assumes "upsert_link l c = Inr c'" and "r \<in> set (topic_links c')"
  shows "r = l \<or> (\<exists>r0 \<in> set (topic_links c). sl_build r = sl_build r0 \<and> sl_version r = sl_version r0)"
proof -
  from assms(1) have rows: "topic_links c' = (if \<exists>r \<in> set (topic_links c). same_link l r
                  then update_where (same_link l)
                         (\<lambda>r. r\<lparr>sl_method := sl_method l, sl_confidence := sl_confidence l,
                                sl_review := sl_review l, sl_provenance := sl_provenance l\<rparr>) (topic_links c)
                  else topic_links c @ [l])"
    by (auto simp: upsert_link_def Let_def split: if_splits)
  show ?thesis
    using assms(2) unfolding rows by (fastforce simp: update_where_def split: if_splits)
qed

lemma relation_fits:
  assumes "relation_matches_kind (sl_relation l) (tp_kind t)" and "tp_status t = ''active''"
  shows "\<not> incompatible l t"
  using assms by (auto simp: relation_matches_kind_def relation_kind_def dict_get_def incompatible_def
      split: if_splits)

lemma new_link_sel [simp]:
  "sl_build (new_link b sid v n co ch) = b" "sl_version (new_link b sid v n co ch) = v"
  "sl_topic (new_link b sid v n co ch) = lc_topic ch"
  "sl_relation (new_link b sid v n co ch) = co_relation co"
  "sl_statement (new_link b sid v n co ch) = sid"
  by (simp_all add: new_link_def)

lemma new_link_approved:
  "sl_review (new_link b sid v n co ch) = ''approved'' \<Longrightarrow>
   lc_review ch = ''approved'' \<and> relation_matches_kind (co_relation co) (lc_kind ch)"
  by (auto simp: new_link_def split: if_splits)

lemma link_concept_ok:
  assumes "link_concept env te b sid v n choices co c = Inr c'" and "topics_ok b v c"
  shows "topics_ok b v c'"
proof -
  from assms(1) obtain choice c1 where ch: "choose_topic env te v choices co c = Inr (choice, c1)"
    and rest: "(case choice of None \<Rightarrow> Inr c1
       | Some ch \<Rightarrow> upsert_link (new_link b sid v n co ch) c1) = Inr c'"
    by (auto simp: link_concept_def res_bind_eq_Inr)
  have c1: "links_ok c1" and ok1: "topics_ok b v c1"
    using choose_topic_links [OF ch] choose_topic_select [OF ch] assms(2) by (auto simp: topics_ok_def)
  show ?thesis
  proof (cases choice)
    case None
    with rest ok1 show ?thesis by simp
  next
    case (Some x)
    let ?l = "new_link b sid v n co x"
    from rest Some have up: "upsert_link ?l c1 = Inr c'" by simp
    have fit: "\<not> incompatible ?l t" if t: "topic_at (sl_version ?l) (sl_topic ?l) c1 = Some t" for t
    proof
      assume bad: "incompatible ?l t"
      then have "sl_review ?l = ''approved''" by (simp add: incompatible_def)
      then have "lc_review x = ''approved''" "relation_matches_kind (co_relation co) (lc_kind x)"
        using new_link_approved by blast+
      with choose_topic_links [OF ch] assms(2) Some t
      have "tp_status t = ''active''" "tp_kind t = lc_kind x" by (auto simp: topics_ok_def)
      with \<open>relation_matches_kind _ _\<close> bad show False using relation_fits [of ?l t] by simp
    qed
    have "links_ok c'"
      by (rule upsert_link_links [OF up c1 fit]) (use ok1 in \<open>auto simp: topics_ok_def same_link_def\<close>)
    moreover have "sl_version r = v" if "r \<in> set (topic_links c')" "sl_build r = b" for r
      using upsert_link_set [OF up that(1)]
    proof
      assume "r = ?l"
      then have "sl_version r = sl_version ?l" by (rule arg_cong)
      then show ?thesis by simp
    qed (use ok1 that(2) in \<open>auto simp: topics_ok_def\<close>)
    ultimately show ?thesis by (simp add: topics_ok_def)
  qed
qed

text \<open>
  C25: Linking the concepts of a statement keeps every approved link on an active topic of the kind its
  relation asks for, whatever concepts the model reports and whichever topics the semantic search
  selects: the query of the validation gate and of the repair command finds no link to reject.
\<close>

theorem statement_links_fit:
  assumes "apply_statement_concepts env te b sid raw concepts choices c = Inr c'"
    and "find_build b c = Some g" and "gb_taxonomy g = Some v" and "topics_ok b v c"
  shows "topics_ok b v c' \<and> incompatible_links b c' = []"
proof -
  let ?n = "length (filter (\<lambda>co. co_relation co = ''PRIMARY_TOPIC'') (validate_concepts te raw concepts))"
  from assms(1-3) have
    "res_fold (link_concept env te b sid v ?n choices) (validate_concepts te raw concepts) c = Inr c'"
    by (simp add: apply_statement_concepts_def Let_def)
  from res_fold_inv [where I = "topics_ok b v", OF _ assms(4) this] have "topics_ok b v c'"
    using link_concept_ok by blast
  then show ?thesis by (simp add: topics_ok_def links_ok_compatible)
qed

section \<open>Examples\<close>

definition demo_topic_env :: topic_env where
  "demo_topic_env =
     \<lparr>te_nfkc = (\<lambda>s. s), te_fold = py_lower, te_punct = (\<lambda>s. False), te_uuid = Some,
      te_uuid5 = (\<lambda>s. s), te_str = (\<lambda>_. [])\<rparr>"

definition demo_env :: catalog_env where
  "demo_env = \<lparr>ce_sha256 = (\<lambda>s. s), ce_json = (\<lambda>v. [])\<rparr>"

definition demo_taxonomy :: json where
  "demo_taxonomy = JDict [(''version'', JStr ''1''), (''status'', JStr ''draft''), (''topics'', JList
     [JDict [(''id'', JStr ''a''), (''canonical_name'', JStr ''x''), (''kind'', JStr ''task''),
             (''parents'', JList [JStr ''b''])],
      JDict [(''id'', JStr ''b''), (''canonical_name'', JStr ''y''), (''kind'', JStr ''task''),
             (''aliases'', JList [JStr ''z''])]])]"

theorem taxonomy_loaded_sound_witness:
  "\<exists>m. load_taxonomy demo_env demo_topic_env demo_taxonomy = Inr m \<and> taxonomy_ok m \<and> length (tm_topics m) = 2"
proof -
  have "(case load_taxonomy demo_env demo_topic_env demo_taxonomy of Inl _ \<Rightarrow> 0 | Inr m \<Rightarrow> length (tm_topics m)) = 2"
    by code_simp
  then obtain m where "load_taxonomy demo_env demo_topic_env demo_taxonomy = Inr m" "length (tm_topics m) = 2"
    by (auto split: sum.splits)
  with taxonomy_loaded_sound [OF this(1)] show ?thesis by auto
qed

definition demo_topic_row :: "string \<Rightarrow> string \<Rightarrow> string \<Rightarrow> topic_row" where
  "demo_topic_row i name kind =
     \<lparr>tp_version = ''1'', tp_id = i, tp_name = name, tp_normalized = name, tp_kind = kind,
      tp_status = ''active'', tp_method = ''taxonomy_yaml''\<rparr>"

definition demo_manifest :: taxonomy_manifest where
  "demo_manifest = \<lparr>tm_version = ''1'', tm_status = ''draft'', tm_parent = None, tm_hash = ''h'',
     tm_topics = [\<lparr>tt_id = ''a'', tt_name = ''x'', tt_kind = ''task'', tt_aliases = [], tt_parents = [''b'']\<rparr>,
       \<lparr>tt_id = ''b'', tt_name = ''y'', tt_kind = ''task'', tt_aliases = [], tt_parents = [''a'']\<rparr>]\<rparr>"

definition demo_topics :: catalog where
  "demo_topics = new_catalog\<lparr>topics := [demo_topic_row ''a'' ''x'' ''task'', demo_topic_row ''b'' ''y'' ''task'']\<rparr>"

theorem relations_stay_acyclic_witness:
  "\<exists>c'. materialize_taxonomy_relations demo_env ''g'' demo_manifest demo_topics = Inr (1, c') \<and> dag_ok ''g'' ''1'' c'"
proof -
  have "(case materialize_taxonomy_relations demo_env ''g'' demo_manifest demo_topics of Inl _ \<Rightarrow> 0 | Inr x \<Rightarrow> fst x) = 1"
    by code_simp
  then obtain c' where run: "materialize_taxonomy_relations demo_env ''g'' demo_manifest demo_topics = Inr (1, c')"
    by (auto split: sum.splits)
  have "dag_ok ''g'' (tm_version demo_manifest) demo_topics"
    by (simp add: dag_ok_def topic_cycle_count_def subtopic_edges_def demo_topics_def new_catalog_def)
  from relations_stay_acyclic [OF run this] run show ?thesis by (simp add: demo_manifest_def)
qed

definition demo_tagged :: catalog where
  "demo_tagged = demo_topics\<lparr>builds :=
       [\<lparr>gb_id = ''g'', gb_status = B_writing_vector, gb_manifest_hash = None, gb_taxonomy = Some ''1'',
         gb_fingerprint = None, gb_settings = [], gb_graph_schema = 1, gb_vector_schema = 1, gb_summary = [],
         gb_started = None, gb_finished = None, gb_error = None\<rparr>],
     taxonomy_versions := [\<lparr>tv_id = ''1'', tv_status = ''draft'', tv_parent = None, tv_hash = ''h''\<rparr>],
     statements := [\<lparr>rs_id = ''s'', rs_build = ''g'', rs_entity = ''e'', rs_observation = ''o'', rs_text = ''x'',
       rs_normalized = ''x'', rs_language = ''en'', rs_hash = []\<rparr>]\<rparr>"

definition demo_concepts :: "metadata list" where
  "demo_concepts = [[(''evidence_span'', JStr ''x''), (''canonical_name'', JStr ''w''), (''kind'', JStr ''task''),
     (''relation_type'', JStr ''TARGETS_TASK'')]]"

theorem statement_links_fit_witness:
  "\<exists>c'. apply_statement_concepts demo_env demo_topic_env ''g'' ''s'' ''x'' demo_concepts
       [(''x'', Selected ''a'' 1)] demo_tagged = Inr c' \<and> length (topic_links c') = 1 \<and> incompatible_links ''g'' c' = []"
proof -
  have "(case apply_statement_concepts demo_env demo_topic_env ''g'' ''s'' ''x'' demo_concepts
       [(''x'', Selected ''a'' 1)] demo_tagged of Inl _ \<Rightarrow> 0 | Inr c' \<Rightarrow> length (topic_links c')) = 1"
    by code_simp
  then obtain c' where run: "apply_statement_concepts demo_env demo_topic_env ''g'' ''s'' ''x'' demo_concepts
       [(''x'', Selected ''a'' 1)] demo_tagged = Inr c'" "length (topic_links c') = 1"
    by (auto split: sum.splits)
  have "\<exists>g. find_build ''g'' demo_tagged = Some g \<and> gb_taxonomy g = Some ''1''"
    by (simp add: demo_tagged_def find_build_def)
  moreover have "topics_ok ''g'' ''1'' demo_tagged"
    by (simp add: topics_ok_def links_ok_def demo_tagged_def demo_topics_def new_catalog_def demo_topic_row_def)
  ultimately show ?thesis using statement_links_fit [OF run(1)] run by blast
qed

end
