(* ===== verification/Dext_Orgs.thy ===== *)
theory Dext_Orgs
  imports Dext_Topics Dext_Page "HOL-Library.Product_Lexorder"
begin

text \<open>
  The organisational units of a build (\<open>org_units.py\<close>) and the canonical form of source
  URLs (\<open>ids.py\<close>): which units the active observations of an entity resolve to. The graph export, the
  vectors and the validation all use the same resolution.

  A query with an error after some rows is a list of rows and the error that ends it.
\<close>

section \<open>Canonical source URLs (ids.py)\<close>

text \<open>
  \<open>oe_uuid5\<close> is \<open>uuid.uuid5(NAMESPACE_URL, ...)\<close>. \<open>oe_units\<close> reads the table \<open>org_units\<close> of a snapshot file (no rows when the table is missing, \<open>None\<close> for a missing column) and
  \<open>oe_meta\<close> the first row of its table \<open>university_meta\<close>.
\<close>

record org_source =
  os_id :: int
  os_name :: string
  os_url :: "string option"
  os_kind :: "string option"

record org_env =
  oe_uuid5 :: "string \<Rightarrow> string"
  oe_units :: "string \<Rightarrow> (catalog_error, org_source list) result"
  oe_meta :: "string \<Rightarrow> (catalog_error, (string option \<times> string option) option) result"

text \<open>\<open>SplitResult.port\<close>: \<open>Inl\<close> for the \<open>ValueError\<close> of a port that is no number up to 65535.\<close>

definition sr_port :: "split_result \<Rightarrow> (unit, nat option) result" where
  "sr_port p =
     (let hostinfo = after_last (CHR ''@'') (sr_netloc p);
          port = (if CHR ''['' \<in> set hostinfo
                  then after_char (CHR '':'') (after_char (CHR '']'') (after_char (CHR ''['') hostinfo))
                  else after_char (CHR '':'') hostinfo)
      in if port = [] then Inr None
         else if list_all is_digit port \<and> read_digits port \<le> 65535 then Inr (Some (read_digits port))
         else Inl ())"

definition canonical_path :: "string \<Rightarrow> string" where
  "canonical_path path =
     (let p = (if path = [] then ''/'' else path)
      in if 1 < length p then (let q = rstrip_char (CHR ''/'') p in if q = [] then ''/'' else q) else p)"

text \<open>
  \<open>urlencode(sorted(parse_qsl(query, keep_blank_values=True)), doseq=True)\<close>, with escapes that decode to
  no valid UTF-8 kept as bytes.
\<close>

definition sorted_query :: "string \<Rightarrow> string" where
  "sorted_query q = encode_pairs (sort (parse_query_pairs q))"

definition canonical_source_url :: "string option \<Rightarrow> string option" where
  "canonical_source_url value =
     (case value of
        None \<Rightarrow> None
      | Some v \<Rightarrow>
          (let raw = py_strip v
           in if raw = [] then None
              else case urlsplit raw of
                     Inl e \<Rightarrow> None
                   | Inr parts \<Rightarrow>
                       (let scheme = py_lower (sr_scheme parts); host = py_lower (sr_hostname parts)
                        in if scheme \<noteq> ''http'' \<and> scheme \<noteq> ''https'' then None
                           else if host = [] then None
                           else case sr_port parts of
                                  Inl _ \<Rightarrow> None
                                | Inr port \<Rightarrow>
                                    (let port' = (if scheme = ''http'' \<and> port = Some 80
                                                     \<or> scheme = ''https'' \<and> port = Some 443
                                                  then None else port);
                                         netloc = (case port' of None \<Rightarrow> host
                                                   | Some n \<Rightarrow> host @ '':'' @ nat_str n)
                                     in Some (urlunsplit \<lparr>sr_scheme = scheme, sr_netloc = netloc,
                                           sr_path = canonical_path (sr_path parts),
                                           sr_query = sorted_query (sr_query parts),
                                           sr_fragment = []\<rparr>)))))"

section \<open>The units of the snapshots (org\_units.py)\<close>

record org_record =
  or_logical :: string
  or_graph_key :: string
  or_university :: string
  or_source :: int
  or_name :: string
  or_url :: "string option"
  or_kind :: "string option"

definition org_logical_id :: "org_env \<Rightarrow> topic_env \<Rightarrow> string \<Rightarrow> string option \<Rightarrow> string \<Rightarrow> string" where
  "org_logical_id oe te uid url name =
     (let ident = (case canonical_source_url url of
                     Some u \<Rightarrow> (if u = [] then te_fold te (space_sub (py_strip (te_nfkc te name))) else u)
                   | None \<Rightarrow> te_fold te (space_sub (py_strip (te_nfkc te name))))
      in oe_uuid5 oe (uid @ [CHR 0x00] @ ident))"

definition new_org_record :: "org_env \<Rightarrow> topic_env \<Rightarrow> string \<Rightarrow> string \<Rightarrow> org_source \<Rightarrow> org_record" where
  "new_org_record oe te b uid r =
     (let lid = org_logical_id oe te uid (os_url r) (os_name r)
      in \<lparr>or_logical = lid, or_graph_key = b @ '':'' @ lid, or_university = uid, or_source = os_id r,
          or_name = os_name r, or_url = os_url r, or_kind = os_kind r\<rparr>)"

text \<open>The completed source tasks of a build with their snapshot, by university.\<close>

definition completed_sources :: "string \<Rightarrow> catalog \<Rightarrow> (task_row \<times> snapshot_row) list" where
  "completed_sources b c =
     sort_key (\<lambda>(t, s). bt_university t)
       [(t, s). t \<leftarrow> tasks c, bt_build t = b \<and> bt_status t = T_completed,
                s \<leftarrow> snapshots c, bt_snapshot t = Some (ss_id s)]"

definition load_org_records ::
    "org_env \<Rightarrow> topic_env \<Rightarrow> string \<Rightarrow> catalog \<Rightarrow> (catalog_error, (string \<times> int, org_record) dict) result" where
  "load_org_records oe te b c =
     res_fold (\<lambda>(t, s) m. res_bind (oe_units oe (ss_path s)) (\<lambda>rows.
         Inr (fold (\<lambda>r. dict_set (bt_university t, os_id r)
                (new_org_record oe te b (bt_university t) r)) (sort_key os_id rows) m)))
       (completed_sources b c) []"

section \<open>Affiliations (org\_units.py)\<close>

record affiliation =
  ra_entity :: string
  ra_observation :: string
  ra_grade :: string
  ra_org :: org_record

text \<open>\<open>int(v)\<close> for ASCII text; \<open>None\<close> stands for the \<open>TypeError\<close> and the \<open>ValueError\<close>.\<close>

fun digits_of :: "string \<Rightarrow> string option" where
  "digits_of [] = None"
| "digits_of [c] = (if is_digit c then Some [c] else None)"
| "digits_of (c # d # cs) =
     (if \<not> is_digit c then None
      else if d = CHR ''_'' then map_option (Cons c) (digits_of cs)
      else map_option (Cons c) (digits_of (d # cs)))"

definition int_text :: "string \<Rightarrow> int option" where
  "int_text s =
     (let t = py_strip s
      in case t of
           [] \<Rightarrow> None
         | c # cs \<Rightarrow>
             if c = CHR ''-'' then map_option (\<lambda>d. - int (read_digits d)) (digits_of cs)
             else if c = CHR ''+'' then map_option (\<lambda>d. int (read_digits d)) (digits_of cs)
             else map_option (\<lambda>d. int (read_digits d)) (digits_of t))"

definition json_int :: "json \<Rightarrow> int option" where
  "json_int v =
     (case v of
        JInt i \<Rightarrow> Some i
      | JBool x \<Rightarrow> Some (if x then 1 else 0)
      | JFloat q \<Rightarrow> Some (if q < 0 then - \<lfloor>- q\<rfloor> else \<lfloor>q\<rfloor>)
      | JStr s \<Rightarrow> int_text s
      | _ \<Rightarrow> None)"

definition affiliation_source :: "int option \<Rightarrow> json \<Rightarrow> int option" where
  "affiliation_source primary v =
     (case v of
        JDict d \<Rightarrow>
          (let sid = json_get d ''org_unit_id''
           in if sid = JNull then primary else json_int sid)
      | _ \<Rightarrow> None)"

text \<open>The records in order, each logical unit once.\<close>

fun first_by :: "('a \<Rightarrow> 'k) \<Rightarrow> 'k list \<Rightarrow> 'a list \<Rightarrow> 'a list" where
  "first_by key seen [] = []"
| "first_by key seen (x # xs) =
     (if key x \<in> set seen then first_by key seen xs else x # first_by key (key x # seen) xs)"

definition row_affiliations ::
    "(string \<times> int, org_record) dict \<Rightarrow> string \<times> observation_row \<Rightarrow>
     (catalog_error, affiliation list) result" where
  "row_affiliations orgs row =
     (case row of (e, o1) \<Rightarrow>
       res_bind (list_or_empty (json_get (po_payload o1) ''affiliations'')) (\<lambda>given.
         let affs = (if given = []
                     then [JDict [(''org_unit_id'', case po_org_unit o1 of None \<Rightarrow> JNull | Some i \<Rightarrow> JInt i),
                                  (''org_unit_name'', json_get (po_payload o1) ''org_unit_name'')]]
                     else given);
             recs = List.map_filter (\<lambda>v.
                      case affiliation_source (po_org_unit o1) v of
                        None \<Rightarrow> None
                      | Some i \<Rightarrow> dict_get orgs (po_university o1, i)) affs
         in Inr (map (\<lambda>r. \<lparr>ra_entity = e, ra_observation = po_id o1, ra_grade = po_grade o1, ra_org = r\<rparr>)
                  (first_by or_logical [] recs))))"

text \<open>An observation that a build counts: active, of an entity that is an active professor.\<close>

definition counted :: "string \<Rightarrow> catalog \<Rightarrow> (string \<times> observation_row) list" where
  "counted b c =
     [(eo_entity x, o1). x \<leftarrow> entity_observations c, eo_build x = b,
        o1 \<leftarrow> observations c, po_id o1 = eo_observation x \<and> po_active o1,
        p \<leftarrow> canonical_professors c, cp_entity p = eo_entity x \<and> cp_build p = b \<and> cp_active p]"

definition affiliation_rows :: "string \<Rightarrow> catalog \<Rightarrow> (string \<times> observation_row) list" where
  "affiliation_rows b c = sort_key (\<lambda>(e, o1). (e, po_id o1)) (counted b c)"

text \<open>\<open>for x in xs: yield from f(x)\<close>, until \<open>f\<close> raises.\<close>

fun yield_all :: "('a \<Rightarrow> (catalog_error, 'b list) result) \<Rightarrow> 'a list \<Rightarrow> 'b list \<times> catalog_error option" where
  "yield_all f [] = ([], None)"
| "yield_all f (x # xs) =
     (case f x of
        Inl e \<Rightarrow> ([], Some e)
      | Inr ys \<Rightarrow> (case yield_all f xs of (zs, e) \<Rightarrow> (ys @ zs, e)))"

definition iter_resolved_affiliations ::
    "org_env \<Rightarrow> topic_env \<Rightarrow> string \<Rightarrow> string option \<Rightarrow> catalog \<Rightarrow>
     affiliation list \<times> catalog_error option" where
  "iter_resolved_affiliations oe te b entity c =
     (case load_org_records oe te b c of
        Inl e \<Rightarrow> ([], Some e)
      | Inr orgs \<Rightarrow>
          yield_all (row_affiliations orgs) (filter (\<lambda>(e, o1). entity = None \<or> entity = Some e) (affiliation_rows b c)))"

definition all_of :: "'a list \<times> catalog_error option \<Rightarrow> (catalog_error, 'a list) result" where
  "all_of q = (case snd q of None \<Rightarrow> Inr (fst q) | Some e \<Rightarrow> Inl e)"

definition entity_org_unit_ids ::
    "org_env \<Rightarrow> topic_env \<Rightarrow> string \<Rightarrow> string \<Rightarrow> catalog \<Rightarrow> (catalog_error, string list) result" where
  "entity_org_unit_ids oe te b e c =
     res_bind (all_of (iter_resolved_affiliations oe te b (Some e) c)) (\<lambda>as.
       Inr (sort (remdups (map (\<lambda>a. or_logical (ra_org a)) as))))"

definition group_units :: "affiliation list \<Rightarrow> (string, string list) dict" where
  "group_units as =
     fold (\<lambda>a m. dict_set (ra_entity a)
             (case dict_get m (ra_entity a) of
                None \<Rightarrow> [or_logical (ra_org a)]
              | Some ids \<Rightarrow> if or_logical (ra_org a) \<in> set ids then ids else ids @ [or_logical (ra_org a)]) m)
       as []"

definition entity_org_unit_map ::
    "org_env \<Rightarrow> topic_env \<Rightarrow> string \<Rightarrow> catalog \<Rightarrow> (catalog_error, (string, string list) dict) result" where
  "entity_org_unit_map oe te b c =
     res_bind (all_of (iter_resolved_affiliations oe te b None c)) (\<lambda>as.
       Inr (map (\<lambda>(e, ids). (e, sort ids)) (group_units as)))"

definition units_of :: "(string, string list) dict \<Rightarrow> string \<Rightarrow> string list" where
  "units_of m e = (case dict_get m e of None \<Rightarrow> [] | Some ids \<Rightarrow> ids)"

section \<open>The map and the single query agree\<close>

lemma group_step:
  fixes m :: "(string, string list) dict" and k v :: string
  assumes "\<And>e. distinct (units_of m e)"
  defines "m' \<equiv> dict_set k (case dict_get m k of None \<Rightarrow> [v]
             | Some ids \<Rightarrow> if v \<in> set ids then ids else ids @ [v]) m"
  shows "distinct (units_of m' e)" "set (units_of m' e) = set (units_of m e) \<union> (if e = k then {v} else {})"
  using assms(1) [of e] by (auto simp: m'_def units_of_def dict_get_set split: option.splits)

lemma group_fold:
  fixes m :: "(string, string list) dict"
  assumes "\<And>e. distinct (units_of m e)"
  defines "f \<equiv> \<lambda>a m. dict_set (ra_entity a)
             (case dict_get m (ra_entity a) of
                None \<Rightarrow> [or_logical (ra_org a)]
              | Some ids \<Rightarrow> if or_logical (ra_org a) \<in> set ids then ids else ids @ [or_logical (ra_org a)]) m"
  shows "distinct (units_of (fold f as m) e) \<and>
    set (units_of (fold f as m) e) =
      set (units_of m e) \<union> (\<lambda>a. or_logical (ra_org a)) ` {a \<in> set as. ra_entity a = e}"
  using assms(1)
proof (induction as arbitrary: m)
  case (Cons a as)
  note step = group_step [of m "ra_entity a" "or_logical (ra_org a)", OF Cons.prems]
  from Cons.IH [of "f a m"] step show ?case
    by (auto simp: f_def split: if_splits)
qed simp

lemma resolve_filter:
  assumes "yield_all (row_affiliations orgs) rows = (as, None)"
  shows "yield_all (row_affiliations orgs) (filter (\<lambda>(e, o1). k = e) rows) = (filter (\<lambda>a. ra_entity a = k) as, None)"
  using assms
proof (induction rows arbitrary: as)
  case (Cons r rows)
  obtain e o1 where r: "r = (e, o1)" by (cases r)
  from Cons.prems obtain xs bs where x: "row_affiliations orgs r = Inr xs"
    and b: "yield_all (row_affiliations orgs) rows = (bs, None)" and as: "as = xs @ bs"
    by (auto split: sum.splits prod.splits)
  from x r have "\<forall>a \<in> set xs. ra_entity a = e"
    by (auto simp: row_affiliations_def res_bind_eq_Inr Let_def)
  then have "filter (\<lambda>a. ra_entity a = k) xs = (if e = k then xs else [])"
    by (auto simp: filter_id_conv filter_empty_conv)
  with Cons.IH [OF b] x show ?case by (cases "e = k") (simp_all add: as r)
qed simp

text \<open>
  C28: The units that the validation and the vectors look up for an entity in the map of the whole build are
  those that the resolution of that entity alone gives, sorted and without repetition;
  an entity without units has no entry.
\<close>

theorem org_units_agree:
  assumes "entity_org_unit_map oe te b c = Inr m"
  shows "entity_org_unit_ids oe te b e c = Inr (units_of m e)"
proof -
  from assms obtain as where q: "iter_resolved_affiliations oe te b None c = (as, None)"
    and m: "m = map (\<lambda>(e, ids). (e, sort ids)) (group_units as)"
    by (auto simp: entity_org_unit_map_def all_of_def res_bind_eq_Inr prod_eq_iff split: option.splits)
  from q obtain orgs where orgs: "load_org_records oe te b c = Inr orgs"
    and rows: "yield_all (row_affiliations orgs) (affiliation_rows b c) = (as, None)"
    by (auto simp: iter_resolved_affiliations_def split: sum.splits)
  have "entity_org_unit_ids oe te b e c =
      Inr (sort (remdups (map (\<lambda>a. or_logical (ra_org a)) (filter (\<lambda>a. ra_entity a = e) as))))"
    using resolve_filter [OF rows, of e]
    by (simp add: entity_org_unit_ids_def iter_resolved_affiliations_def orgs all_of_def res_bind_def)
  moreover have "distinct (units_of (group_units as) e) \<and>
      set (units_of (group_units as) e) = (\<lambda>a. or_logical (ra_org a)) ` {a \<in> set as. ra_entity a = e}"
    using group_fold [of "[]" as e] by (simp add: group_units_def units_of_def dict_get_def)
  then have "sort (units_of (group_units as) e) =
      sort (remdups (map (\<lambda>a. or_logical (ra_org a)) (filter (\<lambda>a. ra_entity a = e) as)))"
    by (intro sorted_distinct_set_unique) auto
  moreover have "units_of m e = sort (units_of (group_units as) e)"
  proof -
    have "map_of (map (\<lambda>(e, ids). (e, sort ids)) g) e = map_option sort (map_of g e)" for g :: "(string, string list) dict"
      by (induction g) auto
    then show ?thesis by (simp add: m units_of_def dict_get_def split: option.split)
  qed
  ultimately show ?thesis by simp
qed

end
