(* ===== verification/Dext_Export.thy ===== *)
theory Dext_Export
  imports Dext_Orgs
begin

text \<open>
  The frozen graph exports of a build (\<open>evidence.py\<close>): the rows of the twenty partitions,
  read from the catalog in the order of the queries, written in batches behind a checkpoint and sealed
  by a manifest row per partition; and the operations that reset, rebuild and prune them.
\<close>

section \<open>Rows (evidence.py)\<close>

definition partitions :: "string list" where
  "partitions =
     [''node:Build'', ''node:University'', ''node:OrgUnit'', ''node:Professor'',
      ''node:ResearchStatement'', ''node:Topic'', ''node:PublicationMention'', ''node:SourceDocument'',
      ''rel:PART_OF'', ''rel:AFFILIATED_WITH'', ''rel:HAS_RESEARCH_STATEMENT'', ''rel:PRIMARY_TOPIC'',
      ''rel:USES_METHOD'', ''rel:APPLIED_TO'', ''rel:TARGETS_TASK'', ''rel:STUDIES'',
      ''rel:SUBTOPIC_OF'', ''rel:HAS_PUBLICATION_MENTION'', ''rel:OBSERVED_IN'', ''rel:FROM_UNIVERSITY'']"

definition graph_key :: "string \<Rightarrow> string \<Rightarrow> string" where
  "graph_key b logical = b @ '':'' @ logical"

definition new_export ::
    "string \<Rightarrow> string \<Rightarrow> string \<Rightarrow> string \<Rightarrow> string \<Rightarrow> metadata \<Rightarrow> string \<Rightarrow> string option \<Rightarrow> string option \<Rightarrow>
     export_row" where
  "new_export b part key kind label payload prov start end =
     \<lparr>ex_build = b, ex_partition = part, ex_key = key, ex_kind = kind, ex_label = label,
      ex_start = start, ex_end = end,
      ex_payload = dict_setdefault ''provenance_ref'' (JStr prov)
                     (dict_setdefault ''build_id'' (JStr b) payload),
      ex_provenance = prov, ex_checksum = []\<rparr>"

definition node_export :: "string \<Rightarrow> string \<Rightarrow> string \<Rightarrow> metadata \<Rightarrow> string \<Rightarrow> export_row" where
  "node_export b label key payload prov =
     new_export b (''node:'' @ label) key ''node'' label
       ([(''logical_id'', JStr key), (''graph_key'', JStr (graph_key b key))] @ payload) prov None None"

definition json_nat :: "nat \<Rightarrow> json" where
  "json_nat n = JInt (int n)"

definition least :: "'a::linorder list \<Rightarrow> 'a option" where
  "least xs = (case sort xs of [] \<Rightarrow> None | x # _ \<Rightarrow> Some x)"

definition or_else :: "'a option \<Rightarrow> 'a \<Rightarrow> 'a" where
  "or_else x d = (case x of None \<Rightarrow> d | Some y \<Rightarrow> y)"

definition build_node :: "string \<Rightarrow> catalog \<Rightarrow> (catalog_error, export_row list) result" where
  "build_node b c =
     (case find_build b c of
        None \<Rightarrow> Inl Type_error_cat
      | Some g \<Rightarrow>
          Inr [new_export b ''node:Build'' b ''node'' ''Build''
                 [(''id'', JStr b), (''graph_key'', JStr (graph_key b b)), (''status'', JStr ''WRITING_VECTOR''),
                  (''source_manifest_hash'', json_opt (gb_manifest_hash g)),
                  (''graph_schema_version'', json_nat (gb_graph_schema g)),
                  (''vector_schema_version'', json_nat (gb_vector_schema g))]
                 (''catalog:build:'' @ b) None None])"

definition university_node ::
    "org_env \<Rightarrow> string \<Rightarrow> task_row \<times> snapshot_row \<Rightarrow> (catalog_error, export_row list) result" where
  "university_node oe b ts =
     (case ts of (t, s) \<Rightarrow>
       res_bind (oe_meta oe (ss_path s)) (\<lambda>meta.
         let (name, city) = (case meta of None \<Rightarrow> (Some (bt_name t), None) | Some m \<Rightarrow> m)
         in Inr [node_export b ''University'' (bt_university t)
                   [(''name'', JStr (str_or name (bt_name t))), (''city'', json_opt city),
                    (''province'', JNull), (''active'', JBool True)]
                   (''catalog:source-snapshot:'' @ ss_id s)]))"

definition org_provenance :: "string \<Rightarrow> org_record \<Rightarrow> string" where
  "org_provenance b r = ''catalog:org-unit:'' @ b @ '':'' @ or_university r @ '':'' @ int_str (or_source r)"

definition org_node :: "string \<Rightarrow> org_record \<Rightarrow> export_row" where
  "org_node b r =
     new_export b ''node:OrgUnit'' (or_logical r) ''node'' ''OrgUnit''
       [(''logical_id'', JStr (or_logical r)), (''graph_key'', JStr (or_graph_key r)),
        (''university_id'', JStr (or_university r)), (''name'', JStr (or_name r)),
        (''kind'', json_opt (or_kind r)), (''url'', json_opt (or_url r))]
       (org_provenance b r) None None"

definition profile_hash :: "string \<Rightarrow> string \<Rightarrow> catalog \<Rightarrow> string option" where
  "profile_hash b e c =
     map_option pf_hash (find (\<lambda>p. pf_build p = b \<and> pf_entity p = e) (profiles c))"

definition active_professors :: "string \<Rightarrow> catalog \<Rightarrow> canonical_row list" where
  "active_professors b c =
     sort_key cp_entity (filter (\<lambda>p. cp_build p = b \<and> cp_active p) (canonical_professors c))"

definition professor_node :: "string \<Rightarrow> catalog \<Rightarrow> canonical_row \<Rightarrow> export_row" where
  "professor_node b c p =
     node_export b ''Professor'' (cp_entity p)
       [(''name'', JStr (cp_name p)), (''title'', json_opt (cp_title_raw p)),
        (''title_family'', JStr (cp_title_family p)), (''role_status'', JStr (cp_role p)),
        (''role_reason_codes'', JList (cp_reasons p)), (''master_eligibility'', JStr (cp_master p)),
        (''phd_eligibility'', JStr (cp_phd p)), (''active'', JBool True),
        (''profile_hash'', json_opt (profile_hash b (cp_entity p) c))]
       (''catalog:entity:'' @ cp_entity p @ '':build:'' @ b)"

definition statement_node :: "string \<Rightarrow> statement_row \<Rightarrow> export_row" where
  "statement_node b s =
     node_export b ''ResearchStatement'' (rs_id s)
       [(''raw_text'', JStr (rs_text s)), (''language'', JStr (rs_language s)),
        (''statement_hash'', JStr (rs_hash s))]
       (''catalog:research-statement:'' @ b @ '':'' @ rs_id s)"

definition topic_node :: "string \<Rightarrow> topic_row \<Rightarrow> export_row" where
  "topic_node b t =
     node_export b ''Topic'' (tp_id t)
       [(''canonical_name'', JStr (tp_name t)), (''normalized_name'', JStr (tp_normalized t)),
        (''kind'', JStr (tp_kind t)), (''status'', JStr (tp_status t)),
        (''taxonomy_version'', JStr (tp_version t))]
       (''taxonomy:'' @ tp_version t @ '':topic:'' @ tp_id t)"

definition active_topics :: "string \<Rightarrow> catalog \<Rightarrow> topic_row list" where
  "active_topics b c =
     (case find_build b c of
        None \<Rightarrow> []
      | Some g \<Rightarrow>
          sort_key tp_id (filter (\<lambda>t. gb_taxonomy g = Some (tp_version t) \<and> tp_status t = ''active'') (topics c)))"

definition mention_node :: "string \<Rightarrow> catalog \<Rightarrow> string \<times> string \<Rightarrow> export_row" where
  "mention_node b c k =
     (let rows = filter (\<lambda>m. pb_build m = b \<and> (pb_id m, pb_entity m) = k) (mentions c);
          years = remdups (List.map_filter pb_year rows)
      in node_export b ''PublicationMention'' (fst k)
           [(''raw_text'', json_opt (least (map pb_text rows))),
            (''doi'', json_opt (least (List.map_filter pb_doi rows))),
            (''year'', case years of [y] \<Rightarrow> JInt y | _ \<Rightarrow> JNull),
            (''confidence'', case least (map pb_confidence rows) of None \<Rightarrow> JNull | Some q \<Rightarrow> JFloat q),
            (''evidence_count'', json_nat (length (remdups (map pb_observation rows)))),
            (''needs_review'', JBool (\<exists>m \<in> set rows. pb_review m))]
           (''catalog:publication-mention:'' @ b @ '':'' @ fst k))"

definition document_node :: "string \<Rightarrow> document_row \<Rightarrow> export_row" where
  "document_node b d =
     node_export b ''SourceDocument'' (sd_id d)
       [(''url'', JStr (sd_url d)), (''content_hash'', JStr (sd_content_hash d)),
        (''title'', json_opt (sd_title d)), (''fetched_at'', json_opt (sd_fetched d))]
       (''catalog:source-document:'' @ sd_id d)"

definition node_rows ::
    "org_env \<Rightarrow> topic_env \<Rightarrow> string \<Rightarrow> string \<Rightarrow> catalog \<Rightarrow> export_row list \<times> catalog_error option" where
  "node_rows oe te b label c =
     (if label = ''Build'' then yield_all (build_node b) [c]
      else if label = ''University'' then yield_all (university_node oe b) (completed_sources b c)
      else if label = ''OrgUnit''
        then yield_all (\<lambda>_. res_bind (load_org_records oe te b c) (\<lambda>orgs.
               Inr (map (org_node b) (sort_key or_logical (map snd orgs))))) [()]
      else if label = ''Professor'' then (map (professor_node b c) (active_professors b c), None)
      else if label = ''ResearchStatement''
        then (map (statement_node b) (sort_key rs_id (filter (\<lambda>s. rs_build s = b) (statements c))), None)
      else if label = ''Topic'' then (map (topic_node b) (active_topics b c), None)
      else if label = ''PublicationMention''
        then (map (mention_node b c)
                (sort (remdups (map (\<lambda>m. (pb_id m, pb_entity m)) (filter (\<lambda>m. pb_build m = b) (mentions c))))),
              None)
      else if label = ''SourceDocument''
        then (map (document_node b)
                (sort_key sd_id (filter (\<lambda>d. \<exists>(e, o1) \<in> set (counted b c). po_document o1 = Some (sd_id d))
                   (documents c))), None)
      else ([], Some (Catalog_error (''unknown node export partition: node:'' @ label))))"

section \<open>Relationships (evidence.py)\<close>

definition edge_confidence :: "string \<Rightarrow> rat" where
  "edge_confidence grade =
     (if grade = ''direct'' then 1 else if grade = ''legacy_merged'' then 8 / 10 else 5 / 10)"

definition relationship ::
    "catalog_env \<Rightarrow> string \<Rightarrow> string \<Rightarrow> string \<Rightarrow> string \<Rightarrow> nat \<Rightarrow> rat \<Rightarrow> string \<Rightarrow> string option \<Rightarrow>
     export_row" where
  "relationship env b rel start end n confidence prov method =
     new_export b (''rel:'' @ rel) (start @ ''|'' @ end) ''relationship'' rel
       ([(''graph_key'', JStr (graph_key b (hash_parts env [rel, start, end]))),
         (''confidence'', JFloat confidence), (''evidence_count'', json_nat n),
         (''evidence_lookup'', JStr prov), (''provenance_ref'', JStr prov)] @
        (case method of None \<Rightarrow> [] | Some m \<Rightarrow> [(''method'', JStr m)]))
       prov (Some start) (Some end)"

definition part_of_row :: "catalog_env \<Rightarrow> string \<Rightarrow> org_record \<Rightarrow> export_row" where
  "part_of_row env b r =
     relationship env b ''PART_OF'' (or_graph_key r) (graph_key b (or_university r)) 1 1 (org_provenance b r) None"

type_synonym edge_group = "(string, nat \<times> rat \<times> string) dict"

definition add_edge :: "string \<Rightarrow> affiliation \<Rightarrow> edge_group \<Rightarrow> edge_group" where
  "add_edge b a g =
     (let key = or_graph_key (ra_org a);
          (n, q, _) = (case dict_get g key of None \<Rightarrow> (0, 1, []) | Some x \<Rightarrow> x)
      in dict_set key (n + 1, min q (edge_confidence (ra_grade a)),
           ''catalog:affiliation:'' @ b @ '':'' @ ra_entity a @ '':'' @ or_logical (ra_org a)) g)"

definition emit_group :: "catalog_env \<Rightarrow> string \<Rightarrow> string \<Rightarrow> edge_group \<Rightarrow> export_row list" where
  "emit_group env b e g =
     map (\<lambda>(key, n, q, lookup).
            relationship env b ''AFFILIATED_WITH'' (graph_key b e) key n q lookup None) (sort_key fst g)"

fun affiliated_rows ::
    "catalog_env \<Rightarrow> string \<Rightarrow> catalog_error option \<Rightarrow> string \<Rightarrow> edge_group \<Rightarrow> affiliation list \<Rightarrow> export_row list" where
  "affiliated_rows env b err cur g [] =
     (if err = None \<and> cur \<noteq> [] then emit_group env b cur g else [])"
| "affiliated_rows env b err cur g (a # as) =
     (if cur \<noteq> [] \<and> ra_entity a \<noteq> cur
      then emit_group env b cur g @ affiliated_rows env b err (ra_entity a) (add_edge b a []) as
      else affiliated_rows env b err (ra_entity a) (add_edge b a g) as)"

definition find_observation :: "string \<Rightarrow> catalog \<Rightarrow> observation_row option" where
  "find_observation i c = find (\<lambda>o1. po_id o1 = i) (observations c)"

definition statement_edges :: "catalog_env \<Rightarrow> string \<Rightarrow> catalog \<Rightarrow> export_row list" where
  "statement_edges env b c =
     List.map_filter (\<lambda>s.
        map_option (\<lambda>o1. relationship env b ''HAS_RESEARCH_STATEMENT'' (graph_key b (rs_entity s))
             (graph_key b (rs_id s)) 1 (edge_confidence (po_grade o1))
             (''catalog:research-statement:'' @ b @ '':'' @ rs_id s) None)
          (find_observation (rs_observation s) c))
       (sort_key (\<lambda>s. (rs_entity s, rs_id s)) (filter (\<lambda>s. rs_build s = b) (statements c)))"

definition topic_is_active :: "string \<Rightarrow> string \<Rightarrow> catalog \<Rightarrow> bool" where
  "topic_is_active v i c = (case topic_at v i c of None \<Rightarrow> False | Some t \<Rightarrow> tp_status t = ''active'')"

definition topic_edges :: "catalog_env \<Rightarrow> string \<Rightarrow> string \<Rightarrow> catalog \<Rightarrow> export_row list" where
  "topic_edges env b rel c =
     map (\<lambda>l. relationship env b rel (graph_key b (sl_statement l)) (graph_key b (sl_topic l)) 1
                (sl_confidence l) (sl_provenance l) (Some (sl_method l)))
       (sort_key (\<lambda>l. (sl_statement l, sl_topic l))
         (filter (\<lambda>l. sl_build l = b \<and> sl_relation l = rel \<and> sl_review l = ''approved'' \<and>
              topic_is_active (sl_version l) (sl_topic l) c) (topic_links c)))"

definition subtopic_rows :: "catalog_env \<Rightarrow> string \<Rightarrow> catalog \<Rightarrow> export_row list" where
  "subtopic_rows env b c =
     map (\<lambda>r. relationship env b ''SUBTOPIC_OF'' (graph_key b (rl_from r)) (graph_key b (rl_to r)) 1
                (rl_confidence r) (rl_provenance r) (Some (rl_method r)))
       (sort_key (\<lambda>r. (rl_from r, rl_to r))
         (filter (\<lambda>r. rl_build r = b \<and> topic_is_active (rl_version r) (rl_from r) c \<and>
              topic_is_active (rl_version r) (rl_to r) c) (topic_relations c)))"

definition mention_edges :: "catalog_env \<Rightarrow> string \<Rightarrow> catalog \<Rightarrow> export_row list" where
  "mention_edges env b c =
     (let joined = List.map_filter (\<lambda>m. map_option (\<lambda>o1. (m, po_grade o1)) (find_observation (pb_observation m) c))
            (filter (\<lambda>m. pb_build m = b) (mentions c))
      in map (\<lambda>(e, i).
            let rows = filter (\<lambda>(m, g). pb_entity m = e \<and> pb_id m = i) joined
            in relationship env b ''HAS_PUBLICATION_MENTION'' (graph_key b e) (graph_key b i)
                 (length (remdups (map (\<lambda>(m, g). pb_observation m) rows)))
                 (or_else (least (map (\<lambda>(m, g). edge_confidence g) rows)) 1)
                 (''catalog:publication-mention:'' @ b @ '':'' @ i) None)
           (sort (remdups (map (\<lambda>(m, g). (pb_entity m, pb_id m)) joined))))"

definition observed_edges :: "catalog_env \<Rightarrow> string \<Rightarrow> catalog \<Rightarrow> export_row list" where
  "observed_edges env b c =
     (let joined = List.map_filter (\<lambda>(e, o1). map_option (\<lambda>d. (e, d, po_grade o1)) (po_document o1)) (counted b c)
      in map (\<lambda>(e, d).
            let rows = filter (\<lambda>(e', d', g). e' = e \<and> d' = d) joined
            in relationship env b ''OBSERVED_IN'' (graph_key b e) (graph_key b d) (length rows)
                 (or_else (least (map (\<lambda>(e', d', g). edge_confidence g) rows)) 1)
                 (''catalog:observation-document:'' @ b @ '':'' @ e @ '':'' @ d) None)
           (sort (remdups (map (\<lambda>(e, d, g). (e, d)) joined))))"

definition university_edges :: "catalog_env \<Rightarrow> string \<Rightarrow> catalog \<Rightarrow> export_row list" where
  "university_edges env b c =
     map (\<lambda>d. relationship env b ''FROM_UNIVERSITY'' (graph_key b (sd_id d)) (graph_key b (sd_university d))
            (length (remdups (map (\<lambda>(e, o1). po_id o1)
               (filter (\<lambda>(e, o1). po_document o1 = Some (sd_id d)) (counted b c)))))
            1 (''catalog:source-document:'' @ sd_id d) None)
       (sort_key sd_id (filter (\<lambda>d. \<exists>(e, o1) \<in> set (counted b c). po_document o1 = Some (sd_id d)) (documents c)))"

definition relationship_rows ::
    "catalog_env \<Rightarrow> org_env \<Rightarrow> topic_env \<Rightarrow> string \<Rightarrow> string \<Rightarrow> catalog \<Rightarrow>
     export_row list \<times> catalog_error option" where
  "relationship_rows env oe te b rel c =
     (if rel = ''PART_OF''
        then yield_all (\<lambda>_. res_bind (load_org_records oe te b c) (\<lambda>orgs.
               Inr (map (part_of_row env b) (sort_key or_graph_key (map snd orgs))))) [()]
      else if rel = ''AFFILIATED_WITH''
        then (case iter_resolved_affiliations oe te b None c of
                (as, err) \<Rightarrow> (affiliated_rows env b err [] [] as, err))
      else if rel = ''HAS_RESEARCH_STATEMENT'' then (statement_edges env b c, None)
      else if rel \<in> {''PRIMARY_TOPIC'', ''USES_METHOD'', ''APPLIED_TO'', ''TARGETS_TASK'', ''STUDIES''}
        then (topic_edges env b rel c, None)
      else if rel = ''SUBTOPIC_OF'' then (subtopic_rows env b c, None)
      else if rel = ''HAS_PUBLICATION_MENTION'' then (mention_edges env b c, None)
      else if rel = ''OBSERVED_IN'' then (observed_edges env b c, None)
      else if rel = ''FROM_UNIVERSITY'' then (university_edges env b c, None)
      else ([], Some (Catalog_error (''unknown relationship export partition: rel:'' @ rel))))"

definition partition_rows ::
    "catalog_env \<Rightarrow> org_env \<Rightarrow> topic_env \<Rightarrow> string \<Rightarrow> string \<Rightarrow> catalog \<Rightarrow>
     export_row list \<times> catalog_error option" where
  "partition_rows env oe te b part c =
     (if startswith part ''node:'' then node_rows oe te b (drop 5 part) c
      else relationship_rows env oe te b (if startswith part ''rel:'' then drop 4 part else part) c)"

section \<open>Freezing (evidence.py)\<close>

definition same_export :: "export_row \<Rightarrow> export_row \<Rightarrow> bool" where
  "same_export r x = (ex_build x = ex_build r \<and> ex_partition x = ex_partition r \<and> ex_key x = ex_key r)"

definition sealed :: "catalog_env \<Rightarrow> string \<Rightarrow> string \<Rightarrow> export_row \<Rightarrow> export_row" where
  "sealed env b part r =
     r\<lparr>ex_build := b, ex_partition := part, ex_checksum := ce_sha256 env (ce_json env (JDict (ex_payload r)))\<rparr>"

definition upsert_export :: "export_row \<Rightarrow> export_row list \<Rightarrow> export_row list" where
  "upsert_export r rows =
     (if \<exists>x \<in> set rows. same_export r x then update_where (same_export r) (\<lambda>x. r) rows else rows @ [r])"

definition insert_export_batch :: "catalog_env \<Rightarrow> string \<Rightarrow> string \<Rightarrow> export_row list \<Rightarrow> nat handler" where
  "insert_export_batch env b part rows c =
     Inr (length rows, save_checkpoint b ''graph_export'' part (ex_key (last rows)) None (length rows)
       (c\<lparr>export_rows := fold (\<lambda>r. upsert_export (sealed env b part r)) rows (export_rows c)\<rparr>))"

definition frozen_rows :: "string \<Rightarrow> string \<Rightarrow> catalog \<Rightarrow> export_row list" where
  "frozen_rows b part c =
     sort_key ex_key (filter (\<lambda>r. ex_build r = b \<and> ex_partition r = part) (export_rows c))"

definition partition_digest :: "catalog_env \<Rightarrow> export_row list \<Rightarrow> string" where
  "partition_digest env rows = ce_sha256 env (concat (map (\<lambda>r. ex_checksum r @ [CHR 0x0A]) rows))"

definition manifest_row :: "catalog_env \<Rightarrow> string \<Rightarrow> string \<Rightarrow> catalog \<Rightarrow> partition_row" where
  "manifest_row env b part c =
     (let rows = frozen_rows b part c;
          keys = map ex_key rows
      in \<lparr>ep_build = b, ep_partition = part,
          ep_kind = (if rows = [] then (if startswith part ''node:'' then ''node'' else ''relationship'')
                     else ex_kind (last rows)),
          ep_label = (if rows = [] then after_char (CHR '':'') part else ex_label (last rows)),
          ep_count = length rows,
          ep_min = (if keys = [] then None else Some (hd (dropWhile (\<lambda>k. k = []) keys @ [last keys]))),
          ep_max = (if keys = [] then None else Some (last keys)),
          ep_checksum = partition_digest env rows\<rparr>)"

definition finalize_partition :: "catalog_env \<Rightarrow> string \<Rightarrow> string \<Rightarrow> unit handler" where
  "finalize_partition env b part c =
     (let here = (\<lambda>p. ep_build p = b \<and> ep_partition p = part); row = manifest_row env b part c
      in Inr ((), if \<exists>p \<in> set (export_partitions c). here p
                  then c\<lparr>export_partitions := update_where here (\<lambda>_. row) (export_partitions c)\<rparr>
                  else c\<lparr>export_partitions := export_partitions c @ [row]\<rparr>))"

text \<open>Batches as the loop forms them: a batch is written once it has \<open>n\<close> rows (at least one).\<close>

function batches :: "nat \<Rightarrow> 'a list \<Rightarrow> 'a list list" where
  "batches n xs =
     (if xs = [] then [] else take (max 1 n) xs # batches n (drop (max 1 n) xs))"
  by pat_completeness auto
termination
  by (relation "measure (\<lambda>(n, xs). length xs)") (auto simp: max_def)

declare batches.simps [simp del]

definition act_each :: "('a \<Rightarrow> ('w, 'b) action) \<Rightarrow> 'a list \<Rightarrow> ('w, unit) action" where
  "act_each f xs = foldr (\<lambda>x m. act_seq (f x) m) xs (act_return ())"

definition partition_count :: "string \<Rightarrow> string \<Rightarrow> catalog \<Rightarrow> (catalog_error, nat) result" where
  "partition_count b part c =
     (case find (\<lambda>p. ep_build p = b \<and> ep_partition p = part) (export_partitions c) of
        None \<Rightarrow> Inl Type_error_cat
      | Some p \<Rightarrow> Inr (ep_count p))"

definition pending_rows :: "string \<Rightarrow> string \<Rightarrow> export_row list \<Rightarrow> catalog \<Rightarrow> export_row list" where
  "pending_rows b part rows c =
     (let l = last_key b ''graph_export'' part c in filter (\<lambda>r. \<not> (l \<noteq> [] \<and> ex_key r \<le> l)) rows)"

text \<open>
  One partition: rows up to the checkpoint are skipped, the rest is written batch by batch. When
  the query raises, the batches that were full have been written and the rest is lost.
\<close>

definition freeze_partition ::
    "catalog_env \<Rightarrow> org_env \<Rightarrow> topic_env \<Rightarrow> nat \<Rightarrow> string \<Rightarrow> string \<Rightarrow> ('x cat_world, nat) action" where
  "freeze_partition env oe te n b part =
     act_bind (query (\<lambda>c. Inr (case partition_rows env oe te b part c of (rows, err) \<Rightarrow>
                                 (pending_rows b part rows c, err))))
       (\<lambda>(todo, err).
          act_seq (act_each (\<lambda>rows. execute (insert_export_batch env b part rows))
                     (if err = None then batches n todo
                      else filter (\<lambda>rows. length rows = max 1 n) (batches n todo)))
            (case err of
               Some e \<Rightarrow> act_raise e
             | None \<Rightarrow> act_seq (execute (finalize_partition env b part)) (query (partition_count b part))))"

definition set_graph_export_pruned :: "string \<Rightarrow> bool \<Rightarrow> unit handler" where
  "set_graph_export_pruned b pruned c =
     (case find_run b (graph_runs c) of
        None \<Rightarrow> Inr ((), c)
      | Some r \<Rightarrow>
          (let summary = (if pruned
                 then dict_set ''partitions'' (JDict []) (dict_set ''export_pruned'' (JBool True) (rr_summary r))
                 else dict_set ''partitions'' (JDict (partition_summary b c))
                        (dict_pop ''export_pruned'' (rr_summary r)));
               c1 = c\<lparr>graph_runs := update_where (\<lambda>r. rr_build r = b) (\<lambda>r. r\<lparr>rr_summary := summary\<rparr>) (graph_runs c)\<rparr>
           in Inr ((), update_build b (\<lambda>g. g\<lparr>gb_summary := dict_set ''graph'' (JDict summary) (gb_summary g)\<rparr>) c1)))"

definition act_map :: "('a \<Rightarrow> ('w, 'b) action) \<Rightarrow> 'a list \<Rightarrow> ('w, ('a \<times> 'b) list) action" where
  "act_map f xs =
     foldr (\<lambda>x m. act_bind (f x) (\<lambda>y. act_bind m (\<lambda>ys. act_return ((x, y) # ys)))) xs (act_return [])"

definition freeze_graph_exports ::
    "catalog_env \<Rightarrow> org_env \<Rightarrow> topic_env \<Rightarrow> nat \<Rightarrow> string \<Rightarrow> string list option \<Rightarrow>
     ('x cat_world, (string \<times> nat) list) action" where
  "freeze_graph_exports env oe te n b parts =
     (let selected = (case parts of None \<Rightarrow> partitions | Some ps \<Rightarrow> if ps = [] then partitions else ps)
      in if \<not> set selected \<subseteq> set partitions
         then act_raise (Catalog_error ''unknown graph export partitions'')
         else act_bind (act_map (freeze_partition env oe te n b) selected) (\<lambda>counts.
                act_seq (if parts = None then execute (set_graph_export_pruned b False) else act_return ())
                  (act_return counts)))"

definition forget_exports :: "string \<Rightarrow> (string \<Rightarrow> bool) \<Rightarrow> catalog \<Rightarrow> catalog" where
  "forget_exports b P c =
     c\<lparr>export_rows := delete_where (\<lambda>r. ex_build r = b \<and> P (ex_partition r)) (export_rows c),
       export_partitions := delete_where (\<lambda>p. ep_build p = b \<and> P (ep_partition p)) (export_partitions c),
       checkpoints := delete_where (\<lambda>k. ck_build k = b \<and> ck_sink k \<in> {''graph_export'', ''neo4j''} \<and>
                                        P (ck_partition k)) (checkpoints c)\<rparr>"

definition reset_graph_partitions :: "string \<Rightarrow> string list \<Rightarrow> unit handler" where
  "reset_graph_partitions b parts c =
     Inr ((), if parts = [] then c else forget_exports b (\<lambda>p. p \<in> set parts) c)"

definition reset_graph_exports :: "string \<Rightarrow> unit handler" where
  "reset_graph_exports b c = Inr ((), forget_exports b (\<lambda>_. True) c)"

definition graph_export_pruned :: "string \<Rightarrow> catalog \<Rightarrow> bool" where
  "graph_export_pruned b c =
     (case find_run b (graph_runs c) of
        None \<Rightarrow> False
      | Some r \<Rightarrow> truthy (json_get (rr_summary r) ''export_pruned''))"

definition ensure_graph_exports_available ::
    "catalog_env \<Rightarrow> org_env \<Rightarrow> topic_env \<Rightarrow> nat \<Rightarrow> string \<Rightarrow> ('x cat_world, bool) action" where
  "ensure_graph_exports_available env oe te n b =
     act_bind (query (\<lambda>c. Inr (graph_export_pruned b c))) (\<lambda>pruned.
       if \<not> pruned then act_return False
       else act_seq (execute (reset_graph_exports b))
              (act_seq (freeze_graph_exports env oe te n b None) (act_return True)))"

definition rebuild_graph_partitions ::
    "catalog_env \<Rightarrow> org_env \<Rightarrow> topic_env \<Rightarrow> nat \<Rightarrow> string \<Rightarrow> string list \<Rightarrow>
     ('x cat_world, (string \<times> nat) list) action" where
  "rebuild_graph_partitions env oe te n b parts =
     (if \<not> set parts \<subseteq> set partitions
      then act_raise (Catalog_error ''unknown graph export partitions'')
      else act_seq (execute (reset_graph_partitions b parts))
             (freeze_graph_exports env oe te n b (Some parts)))"

section \<open>The manifest check (lifecycle.py)\<close>

definition partition_mismatch :: "catalog_env \<Rightarrow> string \<Rightarrow> catalog \<Rightarrow> string \<Rightarrow> bool" where
  "partition_mismatch env b c part =
     (case find (\<lambda>p. ep_build p = b \<and> ep_partition p = part) (export_partitions c) of
        None \<Rightarrow> True
      | Some p \<Rightarrow> length (frozen_rows b part c) \<noteq> ep_count p \<or>
                  partition_digest env (frozen_rows b part c) \<noteq> ep_checksum p)"

definition manifest_mismatches :: "catalog_env \<Rightarrow> string \<Rightarrow> catalog \<Rightarrow> nat \<times> string list" where
  "manifest_mismatches env b c =
     (let present = filter (\<lambda>part. \<exists>p \<in> set (export_partitions c). ep_build p = b \<and> ep_partition p = part) partitions;
          extra = remdups (filter (\<lambda>part. part \<notin> set partitions)
                    (map ep_partition (filter (\<lambda>p. ep_build p = b) (export_partitions c))))
      in (length (filter (partition_mismatch env b c) partitions) + length extra, sort present))"

section \<open>What a freeze writes\<close>

definition put_batch :: "catalog_env \<Rightarrow> string \<Rightarrow> string \<Rightarrow> export_row list \<Rightarrow> catalog \<Rightarrow> catalog" where
  "put_batch env b part rows c =
     save_checkpoint b ''graph_export'' part (ex_key (last rows)) None (length rows)
       (c\<lparr>export_rows := fold (\<lambda>r. upsert_export (sealed env b part r)) rows (export_rows c)\<rparr>)"

definition manifest_of :: "string \<Rightarrow> string \<Rightarrow> catalog \<Rightarrow> partition_row option" where
  "manifest_of b part c = find (\<lambda>p. ep_build p = b \<and> ep_partition p = part) (export_partitions c)"

definition manifest_names :: "string \<Rightarrow> catalog \<Rightarrow> string set" where
  "manifest_names b c = ep_partition ` {p \<in> set (export_partitions c). ep_build p = b}"

lemma batches_empty [simp]: "batches n [] = []"
  by (simp add: batches.simps)

lemma insert_batches:
  "act_each (\<lambda>rows. execute (insert_export_batch env b part rows)) bs w =
     (Inr (), w\<lparr>cw_cat := fold (put_batch env b part) bs (cw_cat w)\<rparr>)"
  by (induction bs arbitrary: w)
     (simp_all add: act_each_def act_seq_def act_bind_def act_return_def execute_def
        insert_export_batch_def put_batch_def)

lemma save_checkpoint_select [simp]:
  "export_rows (save_checkpoint b s p k x n c) = export_rows c"
  "export_partitions (save_checkpoint b s p k x n c) = export_partitions c"
  by (simp_all add: save_checkpoint_def Let_def)

lemma filter_upsert:
  assumes "\<And>x. same_export r x \<Longrightarrow> \<not> P x"
  shows "filter P (upsert_export r rows) = filter P rows"
proof -
  have "\<not> P r" by (rule assms) (simp add: same_export_def)
  then have "filter P (update_where (same_export r) (\<lambda>x. r) xs) = filter P xs" for xs
    using assms by (induction xs) (auto simp: update_where_def)
  with \<open>\<not> P r\<close> show ?thesis by (simp add: upsert_export_def)
qed

lemma put_batch_other:
  assumes "p \<noteq> part"
  shows "frozen_rows b p (put_batch env b part rows c) = frozen_rows b p c"
proof -
  have "filter (\<lambda>r. ex_build r = b \<and> ex_partition r = p) (fold (\<lambda>r. upsert_export (sealed env b part r)) rows xs) =
        filter (\<lambda>r. ex_build r = b \<and> ex_partition r = p) xs" for xs
  proof (induction rows arbitrary: xs)
    case (Cons r rows)
    have "filter (\<lambda>r. ex_build r = b \<and> ex_partition r = p) (upsert_export (sealed env b part r) xs) =
        filter (\<lambda>r. ex_build r = b \<and> ex_partition r = p) xs"
      by (rule filter_upsert) (use assms in \<open>auto simp: same_export_def sealed_def\<close>)
    with Cons.IH show ?case by simp
  qed simp
  then show ?thesis by (simp add: frozen_rows_def put_batch_def)
qed

lemma put_batches_other:
  "p \<noteq> part \<Longrightarrow> frozen_rows b p (fold (put_batch env b part) bs c) = frozen_rows b p c"
  by (induction bs arbitrary: c) (simp_all add: put_batch_other)

lemma put_batches_manifest [simp]:
  "export_partitions (fold (put_batch env b part) bs c) = export_partitions c"
  by (induction bs arbitrary: c) (simp_all add: put_batch_def)

lemma manifest_row_sel [simp]:
  "ep_build (manifest_row env b part c) = b" "ep_partition (manifest_row env b part c) = part"
  "ep_count (manifest_row env b part c) = length (frozen_rows b part c)"
  "ep_checksum (manifest_row env b part c) = partition_digest env (frozen_rows b part c)"
  by (simp_all add: manifest_row_def Let_def)

lemma find_upsert_manifest:
  fixes rows :: "partition_row list"
  assumes "ep_build row = b" and "ep_partition row = part"
  defines "rows' \<equiv> (if \<exists>p \<in> set rows. ep_build p = b \<and> ep_partition p = part
      then update_where (\<lambda>p. ep_build p = b \<and> ep_partition p = part) (\<lambda>_. row) rows else rows @ [row])"
  shows "find (\<lambda>p. ep_build p = b \<and> ep_partition p = q) rows' =
    (if q = part then Some row else find (\<lambda>p. ep_build p = b \<and> ep_partition p = q) rows)"
proof -
  have upd: "find (\<lambda>p. ep_build p = b \<and> ep_partition p = q)
      (update_where (\<lambda>p. ep_build p = b \<and> ep_partition p = part) (\<lambda>_. row) xs) =
    (if q = part then if \<exists>p \<in> set xs. ep_build p = b \<and> ep_partition p = part then Some row else None
     else find (\<lambda>p. ep_build p = b \<and> ep_partition p = q) xs)" for xs
  proof (cases "q = part")
    case True
    have "find (\<lambda>p. ep_build p = b \<and> ep_partition p = part)
        (update_where (\<lambda>p. ep_build p = b \<and> ep_partition p = part) (\<lambda>_. row) xs) =
      (if \<exists>p \<in> set xs. ep_build p = b \<and> ep_partition p = part then Some row else None)"
    proof (induction xs)
      case (Cons x xs)
      with assms(1,2) show ?case
        by (cases "ep_build x = b \<and> ep_partition x = part") (auto simp: update_where_def)
    qed (simp add: update_where_def)
    with True show ?thesis by simp
  next
    case False
    have "find (\<lambda>p. ep_build p = b \<and> ep_partition p = q)
        (update_where (\<lambda>p. ep_build p = b \<and> ep_partition p = part) (\<lambda>_. row) xs) =
      find (\<lambda>p. ep_build p = b \<and> ep_partition p = q) xs"
      using False assms(1,2) by (induction xs) (auto simp: update_where_def)
    with False show ?thesis by simp
  qed
  have snoc: "find P (xs @ [row]) = (case find P xs of None \<Rightarrow> if P row then Some row else None | Some x \<Rightarrow> Some x)"
    for P xs by (induction xs) auto
  show ?thesis
  proof (cases "\<exists>p \<in> set rows. ep_build p = b \<and> ep_partition p = part")
    case True
    then have "rows' = update_where (\<lambda>p. ep_build p = b \<and> ep_partition p = part) (\<lambda>_. row) rows"
      by (simp add: rows'_def)
    with True upd [of rows] show ?thesis by presburger
  next
    case False
    then have "find (\<lambda>p. ep_build p = b \<and> ep_partition p = part) rows = None" by (auto simp: find_None_iff)
    moreover from False have "rows' = rows @ [row]" by (auto simp: rows'_def)
    ultimately show ?thesis using assms(1,2) by (simp add: snoc split: option.split)
  qed
qed

lemma manifest_names_iff: "p \<in> manifest_names b c \<longleftrightarrow> manifest_of b p c \<noteq> None"
  by (auto simp: manifest_names_def manifest_of_def find_None_iff)

lemma finalize_facts:
  assumes "finalize_partition env b part c = Inr ((), c')"
  shows "manifest_of b q c' = (if q = part then Some (manifest_row env b part c) else manifest_of b q c)"
    and "frozen_rows b q c' = frozen_rows b q c"
    and "manifest_names b c' = insert part (manifest_names b c)"
proof -
  from assms have c': "c' = c\<lparr>export_partitions :=
      (if \<exists>p \<in> set (export_partitions c). ep_build p = b \<and> ep_partition p = part
       then update_where (\<lambda>p. ep_build p = b \<and> ep_partition p = part)
              (\<lambda>_. manifest_row env b part c) (export_partitions c)
       else export_partitions c @ [manifest_row env b part c])\<rparr>"
    by (auto simp: finalize_partition_def Let_def)
  show m: "manifest_of b q c' = (if q = part then Some (manifest_row env b part c) else manifest_of b q c)" for q
    by (simp add: manifest_of_def c' find_upsert_manifest del: find_None_iff)
  show "frozen_rows b q c' = frozen_rows b q c" by (simp add: frozen_rows_def c')
  show "manifest_names b c' = insert part (manifest_names b c)"
    unfolding set_eq_iff insert_iff manifest_names_iff m by simp
qed

definition is_sealed :: "catalog_env \<Rightarrow> string \<Rightarrow> catalog \<Rightarrow> string \<Rightarrow> bool" where
  "is_sealed env b c part = (\<not> partition_mismatch env b c part)"

lemma is_sealed_cong:
  "frozen_rows b p c' = frozen_rows b p c \<Longrightarrow> manifest_of b p c' = manifest_of b p c \<Longrightarrow>
   is_sealed env b c' p = is_sealed env b c p"
  unfolding is_sealed_def partition_mismatch_def manifest_of_def [symmetric] by (simp split: option.split)

lemma freeze_partition_facts:
  assumes "freeze_partition env oe te n b part w = (Inr k, w')"
  shows "is_sealed env b (cw_cat w') part" and "k = length (frozen_rows b part (cw_cat w'))"
    and "manifest_names b (cw_cat w') = insert part (manifest_names b (cw_cat w))"
    and "q \<noteq> part \<Longrightarrow> is_sealed env b (cw_cat w') q = is_sealed env b (cw_cat w) q"
    and "q \<noteq> part \<Longrightarrow> frozen_rows b q (cw_cat w') = frozen_rows b q (cw_cat w)"
    and "cw_ext w' = cw_ext w"
proof -
  let ?c = "cw_cat w"
  obtain rows err where rows: "partition_rows env oe te b part ?c = (rows, err)" by (cases "partition_rows env oe te b part ?c")
  let ?bs = "batches n (pending_rows b part rows ?c)"
  let ?c1 = "fold (put_batch env b part) ?bs ?c"
  from assms rows have err: "err = None"
    by (cases err) (auto simp: freeze_partition_def act_bind_def query_def act_seq_def insert_batches act_raise_def)
  from assms rows obtain c2 where fin: "finalize_partition env b part ?c1 = Inr ((), c2)"
    and w': "w' = w\<lparr>cw_cat := c2\<rparr>" and k: "partition_count b part c2 = Inr k"
    by (auto simp: err freeze_partition_def act_bind_def query_def act_seq_def insert_batches execute_def
        split: sum.splits)
  note fin = finalize_facts [OF fin]
  have other: "frozen_rows b q ?c1 = frozen_rows b q ?c" "manifest_of b q ?c1 = manifest_of b q ?c" if "q \<noteq> part" for q
    using that by (simp_all add: put_batches_other manifest_of_def)
  show "is_sealed env b (cw_cat w') part"
    using fin(1) [of part] by (simp add: is_sealed_def partition_mismatch_def w' fin(2) manifest_of_def)
  show "k = length (frozen_rows b part (cw_cat w'))"
    using k fin(1) [of part] by (simp add: partition_count_def w' fin(2) manifest_of_def)
  show "manifest_names b (cw_cat w') = insert part (manifest_names b ?c)"
    using fin(3) by (simp add: w' manifest_names_def)
  show "q \<noteq> part \<Longrightarrow> is_sealed env b (cw_cat w') q = is_sealed env b ?c q"
    by (rule is_sealed_cong) (simp_all add: w' fin(1,2) other)
  show "q \<noteq> part \<Longrightarrow> frozen_rows b q (cw_cat w') = frozen_rows b q ?c"
    by (simp add: w' fin(2) other)
  show "cw_ext w' = cw_ext w" by (simp add: w')
qed

lemma act_map_Cons:
  "act_map f (x # xs) w = (Inr r, w') \<longleftrightarrow>
     (\<exists>y ys w1. f x w = (Inr y, w1) \<and> act_map f xs w1 = (Inr ys, w') \<and> r = (x, y) # ys)"
  by (auto simp: act_map_def act_bind_def act_return_def split: prod.splits sum.splits)

lemma freeze_all_facts:
  assumes "act_map (freeze_partition env oe te n b) parts w = (Inr counts, w')" and "distinct parts"
  shows "(\<forall>p \<in> set parts. is_sealed env b (cw_cat w') p) \<and>
    counts = map (\<lambda>p. (p, length (frozen_rows b p (cw_cat w')))) parts \<and>
    manifest_names b (cw_cat w') = manifest_names b (cw_cat w) \<union> set parts \<and>
    (\<forall>q. q \<notin> set parts \<longrightarrow> is_sealed env b (cw_cat w') q = is_sealed env b (cw_cat w) q \<and>
       frozen_rows b q (cw_cat w') = frozen_rows b q (cw_cat w))"
  using assms
proof (induction parts arbitrary: w counts)
  case Nil
  then show ?case by (simp add: act_map_def act_return_def)
next
  case (Cons p parts)
  then obtain k w1 cs where f: "freeze_partition env oe te n b p w = (Inr k, w1)"
    and rest: "act_map (freeze_partition env oe te n b) parts w1 = (Inr cs, w')" and counts: "counts = (p, k) # cs"
    by (auto simp: act_map_Cons)
  note one = freeze_partition_facts [OF f]
  have IH: "(\<forall>p \<in> set parts. is_sealed env b (cw_cat w') p) \<and>
    cs = map (\<lambda>p. (p, length (frozen_rows b p (cw_cat w')))) parts \<and>
    manifest_names b (cw_cat w') = manifest_names b (cw_cat w1) \<union> set parts \<and>
    (\<forall>q. q \<notin> set parts \<longrightarrow> is_sealed env b (cw_cat w') q = is_sealed env b (cw_cat w1) q \<and>
       frozen_rows b q (cw_cat w') = frozen_rows b q (cw_cat w1))"
    using Cons.IH [OF rest] Cons.prems(2) by simp
  have "p \<notin> set parts" using Cons.prems(2) by simp
  with IH one counts show ?case by auto
qed

lemma distinct_partitions: "distinct partitions"
  by code_simp

lemma pruned_select:
  assumes "set_graph_export_pruned b v c = Inr ((), c')"
  shows "export_rows c' = export_rows c" "export_partitions c' = export_partitions c"
  using assms by (auto simp: set_graph_export_pruned_def Let_def update_build_def split: option.splits)

lemma all_sealed_passes:
  assumes f: "act_map (freeze_partition env oe te n b) partitions w = (Inr counts, w1)"
    and s: "set_graph_export_pruned b False (cw_cat w1) = Inr ((), c2)"
    and names: "manifest_names b (cw_cat w) \<subseteq> set partitions"
  shows "manifest_mismatches env b (cw_cat (w1\<lparr>cw_cat := c2\<rparr>)) = (0, sort partitions) \<and>
    counts = map (\<lambda>p. (p, length (frozen_rows b p (cw_cat (w1\<lparr>cw_cat := c2\<rparr>))))) partitions"
proof -
  define w' where w': "w' = w1\<lparr>cw_cat := c2\<rparr>"
  note all = freeze_all_facts [OF f distinct_partitions]
  have same: "frozen_rows b p (cw_cat w') = frozen_rows b p (cw_cat w1)"
    "manifest_of b p (cw_cat w') = manifest_of b p (cw_cat w1)" for p
    by (simp_all add: w' frozen_rows_def manifest_of_def pruned_select [OF s])
  have "\<not> partition_mismatch env b (cw_cat w') p" if "p \<in> set partitions" for p
    using all that is_sealed_cong [OF same, of env p] by (auto simp: is_sealed_def)
  moreover have "manifest_names b (cw_cat w') = set partitions"
    using all names by (auto simp: w' manifest_names_def pruned_select [OF s])
  then have "filter (\<lambda>p. p \<notin> set partitions)
      (map ep_partition (filter (\<lambda>p. ep_build p = b) (export_partitions (cw_cat w')))) = []"
    "\<forall>part \<in> set partitions. \<exists>p \<in> set (export_partitions (cw_cat w')). ep_build p = b \<and> ep_partition p = part"
    unfolding filter_empty_conv set_eq_iff manifest_names_iff manifest_of_def find_None_iff by auto
  ultimately show ?thesis
    unfolding w' [symmetric] using all same by (simp add: manifest_mismatches_def Let_def filter_id_conv [THEN iffD2] filter_empty_conv)
qed

section \<open>Interrupted exports\<close>

lemma drop_batches: "drop j (batches n xs) = batches n (drop (j * max 1 n) xs)"
proof (induction j arbitrary: xs)
  case (Suc j)
  show ?case
  proof (cases "xs = []")
    case False
    then have "drop (Suc j) (batches n xs) = drop j (batches n (drop (max 1 n) xs))"
      by (subst batches.simps) simp
    also have "\<dots> = batches n (drop (j * max 1 n) (drop (max 1 n) xs))" by (rule Suc.IH)
    finally show ?thesis by (simp add: add.commute)
  qed simp
qed simp

lemma take_batches: "concat (take j (batches n xs)) = take (j * max 1 n) xs"
proof (induction j arbitrary: xs)
  case (Suc j)
  show ?case
  proof (cases "xs = []")
    case False
    then have "concat (take (Suc j) (batches n xs)) = take (max 1 n) xs @ concat (take j (batches n (drop (max 1 n) xs)))"
      by (subst batches.simps) simp
    also have "\<dots> = take (max 1 n) xs @ take (j * max 1 n) (drop (max 1 n) xs)" by (simp only: Suc.IH)
    finally show ?thesis by (simp add: take_add)
  qed simp
qed simp

lemma batches_nonempty: "rows \<in> set (batches n xs) \<Longrightarrow> rows \<noteq> []"
proof (induction n xs rule: batches.induct)
  case (1 n xs)
  then show ?case by (subst (asm) batches.simps) (auto split: if_splits)
qed

lemma last_of_concat: "xss \<noteq> [] \<Longrightarrow> last xss \<noteq> [] \<Longrightarrow> last (concat xss) = last (last xss)"
  by (induction xss rule: rev_induct) auto

lemma batches_eq_Nil: "batches n xs = [] \<longleftrightarrow> xs = []"
  by (subst batches.simps) simp

lemma save_checkpoint_last [simp]: "last_key b s p (save_checkpoint b s p k x n c) = k"
proof (cases "\<exists>r \<in> set (checkpoints c). ck_build r = b \<and> ck_sink r = s \<and> ck_partition r = p")
  case True
  have "(\<exists>r \<in> set rows. ck_build r = b \<and> ck_sink r = s \<and> ck_partition r = p) \<Longrightarrow>
      map_option ck_last (find (\<lambda>r. ck_build r = b \<and> ck_sink r = s \<and> ck_partition r = p)
        (update_where (\<lambda>r. ck_build r = b \<and> ck_sink r = s \<and> ck_partition r = p)
           (\<lambda>r. r\<lparr>ck_last := Some k, ck_batch := x, ck_rows := ck_rows r + n\<rparr>) rows)) = Some (Some k)" for rows
    by (induction rows) (auto simp: update_where_def)
  from this [OF True] True show ?thesis
    by (auto simp: last_key_def find_checkpoint_def save_checkpoint_def Let_def simp del: find_None_iff split: option.split)
next
  case False
  then have none: "find (\<lambda>r. ck_build r = b \<and> ck_sink r = s \<and> ck_partition r = p) (checkpoints c) = None"
    by (auto simp: find_None_iff)
  have "find P (xs @ [y]) = (case find P xs of None \<Rightarrow> if P y then Some y else None | Some z \<Rightarrow> Some z)"
    for P xs and y :: checkpoint_row by (induction xs) auto
  with False none show ?thesis
    by (auto simp: last_key_def find_checkpoint_def save_checkpoint_def Let_def)
qed

lemma put_batches_last:
  assumes "bs \<noteq> []"
  shows "last_key b ''graph_export'' part (fold (put_batch env b part) bs c) = ex_key (last (last bs))"
  using assms by (induction bs arbitrary: c rule: rev_induct) (simp_all add: put_batch_def)

lemma partition_rows_ignore:
  "partition_rows env oe te b part (c\<lparr>export_rows := x, export_partitions := z, checkpoints := y\<rparr>) =
   partition_rows env oe te b part c"
proof -
  let ?c = "c\<lparr>export_rows := x, export_partitions := z, checkpoints := y\<rparr>"
  have "completed_sources b ?c = completed_sources b c" by (simp add: completed_sources_def cong: if_cong)
  then have orgs: "load_org_records oe te b ?c = load_org_records oe te b c" by (simp add: load_org_records_def)
  have counted: "counted b ?c = counted b c" by (simp add: counted_def cong: if_cong)
  have aff: "iter_resolved_affiliations oe te b None ?c = iter_resolved_affiliations oe te b None c"
    by (simp add: iter_resolved_affiliations_def orgs affiliation_rows_def counted cong: sum.case_cong)
  have "node_rows oe te b l ?c = node_rows oe te b l c" for l
    by (simp add: node_rows_def build_node_def find_build_def orgs active_professors_def professor_node_def
        profile_hash_def active_topics_def mention_node_def counted \<open>completed_sources b ?c = _\<close>
        cong: if_cong option.case_cong)
  moreover have "relationship_rows env oe te b l ?c = relationship_rows env oe te b l c" for l
    by (simp add: relationship_rows_def orgs aff counted
        statement_edges_def find_observation_def topic_edges_def topic_is_active_def topic_at_def
        subtopic_rows_def mention_edges_def observed_edges_def university_edges_def cong: if_cong)
  ultimately show ?thesis by (simp add: partition_rows_def)
qed

lemma put_batches_rows:
  "partition_rows env oe te b part (fold (put_batch env b p) bs c) = partition_rows env oe te b part c"
proof (induction bs arbitrary: c)
  case (Cons rows bs)
  have "put_batch env b p rows c = c\<lparr>export_rows := export_rows (put_batch env b p rows c),
      export_partitions := export_partitions c, checkpoints := checkpoints (put_batch env b p rows c)\<rparr>"
    by (simp add: put_batch_def save_checkpoint_def Let_def)
  then obtain x y where "put_batch env b p rows c =
      c\<lparr>export_rows := x, export_partitions := export_partitions c, checkpoints := y\<rparr>" by blast
  then have "partition_rows env oe te b part (put_batch env b p rows c) = partition_rows env oe te b part c"
    by (simp only: partition_rows_ignore)
  with Cons show ?case by simp
qed simp

lemma filter_after_last:
  fixes key :: "'a \<Rightarrow> 'b::linorder"
  assumes "sorted_wrt (<) (map key (xs @ ys))" and "xs \<noteq> []"
  shows "filter (\<lambda>r. \<not> key r \<le> key (last xs)) (xs @ ys) = ys"
proof -
  have "sorted (map key xs)" using assms(1) by (simp add: sorted_wrt_append strict_sorted_imp_sorted)
  then have "key r \<le> key (last xs)" if "r \<in> set xs" for r
    using that assms(2) by (induction xs) auto
  moreover have "key (last xs) < key r" if "r \<in> set ys" for r
    using assms that by (auto simp: sorted_wrt_append)
  ultimately have "filter (\<lambda>r. \<not> key r \<le> key (last xs)) xs = []"
    and "filter (\<lambda>r. \<not> key r \<le> key (last xs)) ys = ys"
    by (auto simp: filter_empty_conv filter_id_conv not_le not_less)
  then show ?thesis by simp
qed

lemma freeze_partition_returns:
  assumes "snd (partition_rows env oe te b part (cw_cat w)) = None"
  shows "\<exists>k w'. freeze_partition env oe te n b part w = (Inr k, w') \<and>
    (\<forall>p. partition_rows env oe te b p (cw_cat w') = partition_rows env oe te b p (cw_cat w))"
proof -
  let ?c = "cw_cat w"
  obtain rows where rows: "partition_rows env oe te b part ?c = (rows, None)"
    using assms by (cases "partition_rows env oe te b part ?c") auto
  let ?c1 = "fold (put_batch env b part) (batches n (pending_rows b part rows ?c)) ?c"
  obtain c2 where fin: "finalize_partition env b part ?c1 = Inr ((), c2)"
    by (auto simp: finalize_partition_def Let_def)
  then have c2: "c2 = ?c1\<lparr>export_rows := export_rows ?c1, export_partitions := export_partitions c2,
      checkpoints := checkpoints ?c1\<rparr>"
    by (auto simp: finalize_partition_def Let_def)
  have "partition_rows env oe te b p c2 = partition_rows env oe te b p ?c" for p
    by (subst c2) (simp only: partition_rows_ignore put_batches_rows)
  moreover have "\<exists>k. partition_count b part c2 = Inr k"
    using finalize_facts(1) [OF fin, of part] by (simp add: partition_count_def manifest_of_def)
  ultimately show ?thesis
    using fin by (auto simp: freeze_partition_def act_bind_def query_def act_seq_def insert_batches rows execute_def)
qed

lemma freeze_all_returns:
  assumes "\<forall>p \<in> set parts. snd (partition_rows env oe te b p (cw_cat w)) = None"
  shows "\<exists>counts w'. act_map (freeze_partition env oe te n b) parts w = (Inr counts, w')"
  using assms
proof (induction parts arbitrary: w)
  case Nil
  then show ?case by (simp add: act_map_def act_return_def)
next
  case (Cons p parts)
  then obtain k w1 where f: "freeze_partition env oe te n b p w = (Inr k, w1)"
    and same: "\<forall>q. partition_rows env oe te b q (cw_cat w1) = partition_rows env oe te b q (cw_cat w)"
    using freeze_partition_returns [of env oe te b p w n] by auto
  with Cons obtain counts w' where "act_map (freeze_partition env oe te n b) parts w1 = (Inr counts, w')"
    by fastforce
  with f show ?case unfolding act_map_Cons by blast
qed

text \<open>
  C24: When no query of a partition raises, the freeze of all partitions returns, whatever an earlier attempt has
  already written, and leaves the build with a manifest that the release check
  finds complete and without a mismatch; the counts it returns are the numbers of
  frozen rows. The build must not have had manifest rows for unknown partitions before.
\<close>

theorem freeze_passes_manifest_check:
  assumes "\<forall>p \<in> set partitions. snd (partition_rows env oe te b p (cw_cat w)) = None"
    and "manifest_names b (cw_cat w) \<subseteq> set partitions"
  shows "\<exists>counts w'. freeze_graph_exports env oe te n b None w = (Inr counts, w') \<and>
    manifest_mismatches env b (cw_cat w') = (0, sort partitions) \<and>
    counts = map (\<lambda>p. (p, length (frozen_rows b p (cw_cat w')))) partitions"
proof -
  from freeze_all_returns [OF assms(1)] obtain counts w1 where
    f: "act_map (freeze_partition env oe te n b) partitions w = (Inr counts, w1)" by blast
  have "\<exists>c2. set_graph_export_pruned b False (cw_cat w1) = Inr ((), c2)"
    by (simp add: set_graph_export_pruned_def Let_def split: option.split)
  then obtain c2 where s: "set_graph_export_pruned b False (cw_cat w1) = Inr ((), c2)" by blast
  let ?w = "w1\<lparr>cw_cat := c2\<rparr>"
  have "freeze_graph_exports env oe te n b None w = (Inr counts, ?w)"
    using f s by (simp add: freeze_graph_exports_def act_bind_def act_seq_def execute_def act_return_def)
  moreover have "manifest_mismatches env b (cw_cat ?w) = (0, sort partitions) \<and>
      counts = map (\<lambda>p. (p, length (frozen_rows b p (cw_cat ?w)))) partitions"
    by (rule all_sealed_passes [OF f s assms(2)])
  ultimately show ?thesis by blast
qed

text \<open>The world in which the process died after \<open>j\<close> batches of a partition.\<close>

definition after_batches ::
    "catalog_env \<Rightarrow> string \<Rightarrow> string \<Rightarrow> nat \<Rightarrow> export_row list \<Rightarrow> nat \<Rightarrow> 'x cat_world \<Rightarrow> 'x cat_world" where
  "after_batches env b part n rows j w =
     w\<lparr>cw_cat := fold (put_batch env b part) (take j (batches n rows)) (cw_cat w)\<rparr>"


section \<open>An example\<close>

definition demo_org_env :: org_env where
  "demo_org_env =
     \<lparr>oe_uuid5 = (\<lambda>s. s), oe_units = (\<lambda>p. Inr [\<lparr>os_id = 7, os_name = ''CS'', os_url = None, os_kind = None\<rparr>]),
      oe_meta = (\<lambda>p. Inr None)\<rparr>"

definition demo_build_row :: "string \<Rightarrow> build_status \<Rightarrow> build_row" where
  "demo_build_row b s =
     \<lparr>gb_id = b, gb_status = s, gb_manifest_hash = None, gb_taxonomy = None, gb_fingerprint = None,
      gb_settings = [], gb_graph_schema = 1, gb_vector_schema = 1, gb_summary = [], gb_started = None,
      gb_finished = None, gb_error = None\<rparr>"

definition demo_professor :: "string \<Rightarrow> canonical_row" where
  "demo_professor e =
     \<lparr>cp_entity = e, cp_build = ''b'', cp_name = e, cp_title_raw = None, cp_title_family = ''professor'',
      cp_role = ''included'', cp_reasons = [], cp_master = ''unknown'', cp_phd = ''unknown'',
      cp_research = None, cp_bio = None, cp_email = None, cp_phone = None, cp_profile_url = None,
      cp_external_url = None, cp_active = True, cp_completeness = 1 / 6\<rparr>"

definition demo_observation :: "string \<Rightarrow> string \<Rightarrow> observation_row" where
  "demo_observation i name =
     \<lparr>po_id = i, po_university = ''u'', po_snapshot = ''s'', po_source_id = 1, po_url = None,
      po_page_kind = ''unknown'', po_content_hash = None, po_document = None, po_org_unit = Some 7,
      po_name_raw = name, po_name_key = name, po_payload = [], po_row_hash = [], po_grade = ''direct'',
      po_first_seen = ''b'', po_last_seen = ''b'', po_active = True\<rparr>"

definition demo_task :: task_row where
  "demo_task =
     \<lparr>bt_build = ''b'', bt_university = ''u'', bt_name = ''U'', bt_abbr = ''u'', bt_path = ''u.db'', bt_ordinal = 0,
      bt_status = T_completed, bt_snapshot = Some ''s'', bt_reused = False, bt_rows_read = 2, bt_written = 2,
      bt_inserted = 2, bt_obs_reused = 0, bt_docs_seen = 0, bt_docs_inserted = 0, bt_findings = 0,
      bt_rejected = 0, bt_eligible = True, bt_inactivated = 0, bt_error = None\<rparr>"

definition demo_exports :: catalog where
  "demo_exports = new_catalog\<lparr>
     builds := [demo_build_row ''b'' B_embedding],
     tasks := [demo_task],
     snapshots := [\<lparr>ss_id = ''s'', ss_university = ''u'', ss_source_path = ''u.db'', ss_path = ''s.db'',
                    ss_hash = [], ss_schema = 1, ss_counts = []\<rparr>],
     observations := [demo_observation ''o1'' ''ann'', demo_observation ''o2'' ''bob''],
     entity_observations := [\<lparr>eo_entity = ''e1'', eo_observation = ''o1'', eo_build = ''b'', eo_method = ''new'', eo_score = None\<rparr>,
                             \<lparr>eo_entity = ''e2'', eo_observation = ''o2'', eo_build = ''b'', eo_method = ''new'', eo_score = None\<rparr>],
     canonical_professors := [demo_professor ''e2'', demo_professor ''e1'']\<rparr>"

definition demo_world :: "unit cat_world" where
  "demo_world = \<lparr>cw_cat = demo_exports, cw_ext = ()\<rparr>"

theorem org_units_agree_witness:
  "entity_org_unit_ids demo_org_env demo_topic_env ''b'' ''e1'' demo_exports =
     Inr [''u'' @ [CHR 0x00] @ ''cs'']"
proof -
  have "entity_org_unit_map demo_org_env demo_topic_env ''b'' demo_exports =
      Inr [(''e1'', [''u'' @ [CHR 0x00] @ ''cs'']), (''e2'', [''u'' @ [CHR 0x00] @ ''cs''])]"
    by code_simp
  from org_units_agree [OF this] show ?thesis by (simp add: units_of_def dict_get_def)
qed

definition demo_small :: catalog where
  "demo_small = new_catalog\<lparr>builds := [demo_build_row ''b'' B_embedding],
     canonical_professors := [demo_professor ''e1'']\<rparr>"

theorem freeze_passes_manifest_check_witness:
  "\<exists>counts w'. freeze_graph_exports demo_env demo_org_env demo_topic_env 1 ''b'' None
       \<lparr>cw_cat = demo_small, cw_ext = ()\<rparr> = (Inr counts, w') \<and>
     manifest_mismatches demo_env ''b'' (cw_cat w') = (0, sort partitions)"
proof -
  have "list_all (\<lambda>p. snd (partition_rows demo_env demo_org_env demo_topic_env ''b'' p demo_small) = None) partitions"
    by code_simp
  then have "\<forall>p \<in> set partitions. snd (partition_rows demo_env demo_org_env demo_topic_env ''b'' p
      (cw_cat \<lparr>cw_cat = demo_small, cw_ext = ()\<rparr>)) = None"
    by (simp add: list_all_iff)
  moreover have "manifest_names ''b'' (cw_cat \<lparr>cw_cat = demo_small, cw_ext = ()\<rparr>) \<subseteq> set partitions"
    by (simp add: manifest_names_def demo_small_def new_catalog_def)
  ultimately show ?thesis using freeze_passes_manifest_check by blast
qed


end
