(* ===== verification/Dext_Ingest.thy ===== *)
theory Dext_Ingest
  imports Dext_Export
begin

text \<open>
  Stage 1 of a build (\<open>workflow.py\<close>, \<open>source.py\<close>): the rows of the snapshots of the crawl databases
  become observations and documents of the catalog, in batches that are committed one by one and
  resumed after the last committed key.

  A snapshot file is the list of its tables with their columns and rows. The integer primary keys are
  those SQLite assigns. Compression of page texts is invisible, and progress callbacks are left out.
\<close>

section \<open>Snapshots of crawl databases (source.py)\<close>

record source_db =
  db_columns :: "(string, string list) dict"
  db_rows :: "(string, metadata list) dict"

definition key_tables :: "string list" where
  "key_tables = [''university_meta'', ''org_units'', ''professors'', ''professor_affiliations'',
     ''crawl_page_cache'', ''crawl_graph_nodes'', ''crawl_extraction_attempts'']"

definition table_rows :: "source_db \<Rightarrow> string \<Rightarrow> metadata list" where
  "table_rows db t = (case dict_get (db_rows db) t of None \<Rightarrow> [] | Some rs \<Rightarrow> rs)"

record inspection =
  in_name :: string
  in_abbr :: "string option"
  in_crawl :: string
  in_schema :: int
  in_counts :: "(string, nat option) dict"
  in_columns :: "(string, string list) dict"
  in_graph_blocking :: "nat option"
  in_org_blocking :: "nat option"

definition in_tables :: "inspection \<Rightarrow> string list" where
  "in_tables i = dict_keys (in_columns i)"

definition columns_of :: "(string, string list) dict \<Rightarrow> string \<Rightarrow> string list" where
  "columns_of cols t = (case dict_get cols t of None \<Rightarrow> [] | Some cs \<Rightarrow> cs)"

definition missing_optional_tables :: "inspection \<Rightarrow> string list" where
  "missing_optional_tables i = sort (filter (\<lambda>t. t \<notin> set (in_tables i)) (tl key_tables))"

definition has_page_cache :: "inspection \<Rightarrow> bool" where
  "has_page_cache i =
     ({''url'', ''content_hash'', ''title'', ''text_snapshot'', ''updated_at''} \<subseteq>
        set (columns_of (in_columns i) ''crawl_page_cache''))"

definition has_affiliations :: "inspection \<Rightarrow> bool" where
  "has_affiliations i =
     ({''professor_id'', ''org_unit_id''} \<subseteq> set (columns_of (in_columns i) ''professor_affiliations'') \<and>
      {''id'', ''name''} \<subseteq> set (columns_of (in_columns i) ''org_units''))"

definition incomplete_capabilities :: "inspection \<Rightarrow> string list" where
  "incomplete_capabilities i =
     (if ''homepage'' \<notin> set (columns_of (in_columns i) ''professors'') then [''professors.homepage''] else []) @
     (if ''crawl_page_cache'' \<in> set (in_tables i) \<and> \<not> has_page_cache i then [''crawl_page_cache.columns''] else []) @
     (if {''professor_affiliations'', ''org_units''} \<subseteq> set (in_tables i) \<and> \<not> has_affiliations i
      then [''professor_affiliations.columns''] else []) @
     (if ''crawl_graph_nodes'' \<in> set (in_tables i) \<and> in_graph_blocking i = None
      then [''crawl_graph_nodes.status''] else []) @
     (if ''org_units'' \<in> set (in_tables i) \<and> in_org_blocking i = None then [''org_units.status''] else [])"

definition deactivation_state_is_complete :: "inspection \<Rightarrow> bool" where
  "deactivation_state_is_complete i =
     (in_graph_blocking i = Some 0 \<and> in_org_blocking i = Some 0 \<and>
      ''crawl_graph_nodes'' \<in> set (in_tables i) \<and> ''org_units'' \<in> set (in_tables i))"

definition blocking_rows :: "source_db \<Rightarrow> string \<Rightarrow> nat option" where
  "blocking_rows db t =
     (if ''status'' \<in> set (columns_of (db_columns db) t)
      then Some (length (filter (\<lambda>r. json_get r ''status'' \<in>
             {JStr ''pending'', JStr ''in_progress'', JStr ''retry'', JStr ''failed''}) (table_rows db t)))
      else None)"

definition missing_text :: "string list \<Rightarrow> string list \<Rightarrow> string" where
  "missing_text wanted have = join_with '', '' (sort (filter (\<lambda>x. x \<notin> set have) wanted))"

definition inspect_snapshot :: "topic_env \<Rightarrow> source_db \<Rightarrow> (catalog_error, inspection) result" where
  "inspect_snapshot te db =
     (let tables = dict_keys (db_columns db); metas = table_rows db ''university_meta'';
          meta_columns = columns_of (db_columns db) ''university_meta''
      in if missing_text [''university_meta'', ''professors''] tables \<noteq> []
         then Inl (Catalog_error (''source snapshot is missing required tables: '' @
                missing_text [''university_meta'', ''professors''] tables))
         else if missing_text [''id'', ''name''] (columns_of (db_columns db) ''professors'') \<noteq> []
         then Inl (Catalog_error (''source professors table is missing columns: '' @
                missing_text [''id'', ''name''] (columns_of (db_columns db) ''professors'')))
         else if \<not> {''name'', ''crawl_status''} \<subseteq> set meta_columns
         then Inl (Catalog_error ''university_meta must contain name and crawl_status'')
         else case metas of
                [m] \<Rightarrow>
                  (case json_int (if truthy (json_get m ''schema_version'') then json_get m ''schema_version'' else JInt 0) of
                     None \<Rightarrow> Inl (Value_error_cat ''invalid literal for int() with base 10'')
                   | Some version \<Rightarrow>
                       Inr \<lparr>in_name = json_str te (json_get m ''name''), in_abbr = opt_str te (json_get m ''abbr''),
                            in_crawl = json_str te (json_get m ''crawl_status''), in_schema = version,
                            in_counts = map (\<lambda>t. (t, if t \<in> set tables then Some (length (table_rows db t)) else None)) key_tables,
                            in_columns = db_columns db, in_graph_blocking = blocking_rows db ''crawl_graph_nodes'',
                            in_org_blocking = blocking_rows db ''org_units''\<rparr>)
              | _ \<Rightarrow> Inl (Catalog_error (''source snapshot must contain exactly one university_meta row; found '' @
                       nat_str (length metas))))"

definition professor_total :: "inspection \<Rightarrow> nat" where
  "professor_total i = (case dict_get (in_counts i) ''professors'' of Some (Some n) \<Rightarrow> n | _ \<Rightarrow> 0)"

section \<open>Legacy rows (source.py)\<close>

record legacy_row =
  lr_id :: nat
  lr_payload :: metadata
  lr_affiliations :: "metadata list"
  lr_org_unit :: "int option"
  lr_page_url :: "string option"
  lr_page_hash :: "string option"
  lr_page_title :: "string option"
  lr_page_text :: "string option"
  lr_page_fetched :: "string option"

definition row_id :: "metadata \<Rightarrow> int" where
  "row_id r = (case json_get r ''id'' of JInt i \<Rightarrow> i | _ \<Rightarrow> 0)"

definition int_of :: "metadata \<Rightarrow> string \<Rightarrow> int" where
  "int_of r k = (case json_get r k of JInt i \<Rightarrow> i | _ \<Rightarrow> 0)"

text \<open>The left join with the page cache: \<open>NULL\<close> joins nothing.\<close>

definition cached_pages :: "source_db \<Rightarrow> inspection \<Rightarrow> metadata \<Rightarrow> metadata option list" where
  "cached_pages db i p =
     (if has_page_cache i \<and> ''homepage'' \<in> set (columns_of (in_columns i) ''professors'')
      then (case filter (\<lambda>k. json_get k ''url'' \<noteq> JNull \<and> json_get k ''url'' = json_get p ''homepage'')
                   (table_rows db ''crawl_page_cache'') of
              [] \<Rightarrow> [None]
            | ks \<Rightarrow> map Some ks)
      else [None])"

definition row_units :: "topic_env \<Rightarrow> source_db \<Rightarrow> inspection \<Rightarrow> int \<Rightarrow> metadata list" where
  "row_units te db i pid =
     (if has_affiliations i
      then map (\<lambda>u. [(''org_unit_id'', JInt (row_id u)), (''org_unit_name'', JStr (json_str te (json_get u ''name'')))])
             (sort_key row_id [u. a \<leftarrow> table_rows db ''professor_affiliations'', int_of a ''professor_id'' = pid,
                                   u \<leftarrow> table_rows db ''org_units'', row_id u = int_of a ''org_unit_id''])
      else [])"

definition named_unit :: "topic_env \<Rightarrow> source_db \<Rightarrow> inspection \<Rightarrow> json \<Rightarrow> int option" where
  "named_unit te db i v =
     (if v = JNull \<or> py_strip (json_str te v) = [] \<or> \<not> {''id'', ''name''} \<subseteq> set (columns_of (in_columns i) ''org_units'')
      then None
      else map_option row_id (find (\<lambda>u. json_str te (json_get u ''name'') = json_str te v)
             (sort_key row_id (table_rows db ''org_units''))))"

definition page_field :: "topic_env \<Rightarrow> metadata option \<Rightarrow> string \<Rightarrow> string option" where
  "page_field te k col = (case k of None \<Rightarrow> None | Some r \<Rightarrow> opt_str te (json_get r col))"

definition legacy_row_of :: "topic_env \<Rightarrow> source_db \<Rightarrow> inspection \<Rightarrow> metadata \<Rightarrow> metadata option \<Rightarrow> legacy_row" where
  "legacy_row_of te db i p k =
     (let units = row_units te db i (row_id p)
      in \<lparr>lr_id = nat (row_id p), lr_payload = p, lr_affiliations = units,
          lr_org_unit = (case named_unit te db i (json_get p ''org_unit_name'') of
             Some u \<Rightarrow> Some u
           | None \<Rightarrow> (case units of [u] \<Rightarrow> Some (int_of u ''org_unit_id'') | _ \<Rightarrow> None)),
          lr_page_url = page_field te k ''url'', lr_page_hash = page_field te k ''content_hash'',
          lr_page_title = page_field te k ''title'', lr_page_text = page_field te k ''text_snapshot'',
          lr_page_fetched = page_field te k ''updated_at''\<rparr>)"

definition legacy_rows :: "topic_env \<Rightarrow> source_db \<Rightarrow> inspection \<Rightarrow> legacy_row list" where
  "legacy_rows te db i =
     [legacy_row_of te db i p k. p \<leftarrow> sort_key row_id (table_rows db ''professors''), k \<leftarrow> cached_pages db i p]"

text \<open>\<open>WHERE p.id > ? ORDER BY p.id LIMIT ?\<close>, until a page is empty.\<close>

definition next_page :: "nat \<Rightarrow> ('r \<Rightarrow> 'k::linorder) \<Rightarrow> 'k \<Rightarrow> 'r list \<Rightarrow> 'r list" where
  "next_page n f key rows = take n (filter (\<lambda>r. key < f r) rows)"

lemma next_page_last:
  assumes "next_page n f key rows \<noteq> []"
  shows "List.last (next_page n f key rows) \<in> set rows" "key < f (List.last (next_page n f key rows))"
proof -
  have "List.last (next_page n f key rows) \<in> set (next_page n f key rows)" using assms by simp
  then show "List.last (next_page n f key rows) \<in> set rows" "key < f (List.last (next_page n f key rows))"
    by (auto simp: next_page_def dest: in_set_takeD)
qed

function key_pages :: "nat \<Rightarrow> ('r \<Rightarrow> 'k::linorder) \<Rightarrow> 'k \<Rightarrow> 'r list \<Rightarrow> 'r list list" where
  "key_pages n f key rows =
     (if next_page n f key rows = [] then []
      else next_page n f key rows # key_pages n f (f (List.last (next_page n f key rows))) rows)"
  by pat_completeness auto
termination
proof (relation "measure (\<lambda>(n, f, key, rows). length (filter (\<lambda>r. key < f r) rows))", simp, goal_cases)
  case (1 n f key rows)
  let ?l = "List.last (next_page n f key rows)"
  from next_page_last [OF 1] have l: "?l \<in> set rows" "key < f ?l" .
  have "filter (\<lambda>r. f ?l < f r) rows = filter (\<lambda>r. f ?l < f r) (filter (\<lambda>r. key < f r) rows)"
    using l(2) by (auto intro: filter_cong)
  also have "length \<dots> < length (filter (\<lambda>r. key < f r) rows)"
    using l by (intro length_filter_less [of ?l]) auto
  finally show ?case by simp
qed

declare key_pages.simps [simp del]

definition iter_legacy_batches :: "nat \<Rightarrow> nat \<Rightarrow> legacy_row list \<Rightarrow> legacy_row list list" where
  "iter_legacy_batches n key rows = key_pages n lr_id key rows"

section \<open>Prepared batches (workflow.py)\<close>

text \<open>\<open>iv_time\<close> is \<open>datetime.fromisoformat\<close> followed by the rendering in UTC, \<open>None\<close> for its \<open>ValueError\<close>.\<close>

record ingest_env =
  iv_cat :: catalog_env
  iv_topic :: topic_env
  iv_time :: "string \<Rightarrow> string option"

record document_record =
  dr_id :: string
  dr_university :: string
  dr_url :: string
  dr_hash :: string
  dr_title :: "string option"
  dr_text :: "string option"
  dr_fetched :: "string option"

record observation_record =
  ob_id :: string
  ob_university :: string
  ob_snapshot :: string
  ob_source_id :: nat
  ob_url :: "string option"
  ob_content_hash :: "string option"
  ob_document :: "string option"
  ob_org_unit :: "int option"
  ob_name_raw :: string
  ob_name_key :: string
  ob_payload :: metadata
  ob_row_hash :: string

record finding_record =
  fr_id :: string
  fr_severity :: string
  fr_code :: string
  fr_details :: metadata
  fr_snapshot :: string

record prepared_batch =
  bp_first :: nat
  bp_last :: nat
  bp_rows :: nat
  bp_documents :: "document_record list"
  bp_observations :: "observation_record list"
  bp_findings :: "finding_record list"

definition catalog_name_key :: "topic_env \<Rightarrow> string \<Rightarrow> string" where
  "catalog_name_key te v = te_fold te (drop_tokens decorative_dots (te_nfkc te (py_strip v)))"

fun replace_z :: "string \<Rightarrow> string" where
  "replace_z [] = []"
| "replace_z (c # cs) = (if c = CHR ''Z'' then ''+00:00'' @ replace_z cs else c # replace_z cs)"

definition normalize_source_time :: "ingest_env \<Rightarrow> string option \<Rightarrow> string option" where
  "normalize_source_time iv v =
     (case v of
        None \<Rightarrow> None
      | Some s \<Rightarrow> if py_strip s = [] then None else iv_time iv (replace_z (py_strip s)))"

definition row_document :: "ingest_env \<Rightarrow> string \<Rightarrow> legacy_row \<Rightarrow> document_record option" where
  "row_document iv uid row =
     (let content = (if truthy_str (lr_page_hash row) then map_option py_strip (lr_page_hash row) else None)
      in case canonical_source_url (opt_str (iv_topic iv) (json_get (lr_payload row) ''homepage'')) of
           None \<Rightarrow> None
         | Some _ \<Rightarrow>
             (case canonical_source_url (lr_page_url row) of
                None \<Rightarrow> None
              | Some page \<Rightarrow>
                  if \<not> truthy_str content then None
                  else Some \<lparr>dr_id = hash_parts (iv_cat iv) [page, the content], dr_university = uid,
                             dr_url = page, dr_hash = the content, dr_title = lr_page_title row,
                             dr_text = lr_page_text row,
                             dr_fetched = normalize_source_time iv (lr_page_fetched row)\<rparr>))"

definition row_payload :: "legacy_row \<Rightarrow> metadata" where
  "row_payload row = dict_set ''affiliations'' (JList (map JDict (lr_affiliations row))) (lr_payload row)"

definition prepare_row ::
    "ingest_env \<Rightarrow> string \<Rightarrow> string \<Rightarrow> legacy_row \<Rightarrow>
     (catalog_error, document_record option \<times> observation_record) result" where
  "prepare_row iv uid sid row =
     (case opt_str (iv_topic iv) (json_get (lr_payload row) ''name'') of
        None \<Rightarrow> Inl (Value_error_cat ''source professor name is empty'')
      | Some name \<Rightarrow>
          if py_strip name = [] then Inl (Value_error_cat ''source professor name is empty'')
          else if catalog_name_key (iv_topic iv) name = []
          then Inl (Value_error_cat ''source professor name normalizes to an empty key'')
          else
            (let key = catalog_name_key (iv_topic iv) name;
                 payload = row_payload row;
                 row_hash = ce_sha256 (iv_cat iv) (ce_json (iv_cat iv) (JDict payload));
                 url = canonical_source_url (opt_str (iv_topic iv) (json_get (lr_payload row) ''homepage''));
                 ident = (case url of None \<Rightarrow> nat_str (lr_id row) | Some u \<Rightarrow> u);
                 doc = row_document iv uid row
             in Inr (doc,
                  \<lparr>ob_id = hash_parts (iv_cat iv) [uid, ident, key, row_hash], ob_university = uid,
                   ob_snapshot = sid, ob_source_id = lr_id row, ob_url = url,
                   ob_content_hash = map_option dr_hash doc, ob_document = map_option dr_id doc,
                   ob_org_unit = lr_org_unit row, ob_name_raw = name, ob_name_key = key,
                   ob_payload = payload, ob_row_hash = row_hash\<rparr>)))"

definition row_reference :: "string \<Rightarrow> legacy_row \<Rightarrow> string" where
  "row_reference sid row = sid @ '':professors:'' @ nat_str (lr_id row)"

definition rejected_row :: "ingest_env \<Rightarrow> string \<Rightarrow> string \<Rightarrow> legacy_row \<Rightarrow> catalog_error \<Rightarrow> finding_record" where
  "rejected_row iv b sid row e =
     \<lparr>fr_id = finding_id (iv_cat iv) b ''legacy_row_unimportable'' (row_reference sid row),
      fr_severity = ''error'', fr_code = ''legacy_row_unimportable'',
      fr_details = [(''source_snapshot_id'', JStr sid), (''source_professor_id'', JInt (int (lr_id row))),
                    (''reason'', JStr (safe_error e))],
      fr_snapshot = sid\<rparr>"

definition prepare_batch :: "ingest_env \<Rightarrow> string \<Rightarrow> string \<Rightarrow> string \<Rightarrow> legacy_row list \<Rightarrow> prepared_batch" where
  "prepare_batch iv b uid sid rows =
     (let tried = map (\<lambda>row. (row, prepare_row iv uid sid row)) rows
      in \<lparr>bp_first = lr_id (hd rows), bp_last = lr_id (List.last rows), bp_rows = length rows,
          bp_documents = List.map_filter (\<lambda>(row, r). case r of Inl _ \<Rightarrow> None | Inr (d, _) \<Rightarrow> d) tried,
          bp_observations = List.map_filter (\<lambda>(row, r). case r of Inl _ \<Rightarrow> None | Inr (_, ob) \<Rightarrow> Some ob) tried,
          bp_findings = List.map_filter (\<lambda>(row, r). case r of Inl e \<Rightarrow> Some (rejected_row iv b sid row e) | Inr _ \<Rightarrow> None)
                          tried\<rparr>)"

section \<open>Committing a batch (workflow.py)\<close>

definition new_document :: "string \<Rightarrow> document_record \<Rightarrow> document_row" where
  "new_document b d =
     \<lparr>sd_id = dr_id d, sd_university = dr_university d, sd_url = dr_url d, sd_content_hash = dr_hash d,
      sd_title = dr_title d, sd_text = dr_text d, sd_fetched = dr_fetched d, sd_first_seen = b,
      sd_last_seen = b\<rparr>"

definition refresh_document :: "string \<Rightarrow> document_record \<Rightarrow> document_row \<Rightarrow> document_row" where
  "refresh_document b d r =
     r\<lparr>sd_last_seen := b, sd_title := (case sd_title r of None \<Rightarrow> dr_title d | x \<Rightarrow> x),
       sd_text := (case sd_text r of None \<Rightarrow> dr_text d | x \<Rightarrow> x),
       sd_fetched := (case sd_fetched r of None \<Rightarrow> dr_fetched d | x \<Rightarrow> x)\<rparr>"

definition commit_document ::
    "string \<Rightarrow> document_record \<Rightarrow> catalog \<times> nat \<Rightarrow> (catalog_error, catalog \<times> nat) result" where
  "commit_document b d s =
     (case s of (c, n) \<Rightarrow>
        if dr_id d \<in> sd_id ` set (documents c)
        then Inr (c\<lparr>documents := update_where (\<lambda>r. sd_id r = dr_id d) (refresh_document b d) (documents c)\<rparr>, n)
        else if (\<exists>r \<in> set (documents c). sd_url r = dr_url d \<and> sd_content_hash r = dr_hash d)
        then Inl Integrity_error
        else Inr (c\<lparr>documents := documents c @ [refresh_document b d (new_document b d)]\<rparr>, Suc n))"

definition new_observation :: "string \<Rightarrow> observation_record \<Rightarrow> observation_row" where
  "new_observation b ob =
     \<lparr>po_id = ob_id ob, po_university = ob_university ob, po_snapshot = ob_snapshot ob,
      po_source_id = ob_source_id ob, po_url = ob_url ob, po_page_kind = ''unknown'',
      po_content_hash = ob_content_hash ob, po_document = ob_document ob, po_org_unit = ob_org_unit ob,
      po_name_raw = ob_name_raw ob, po_name_key = ob_name_key ob, po_payload = ob_payload ob,
      po_row_hash = ob_row_hash ob, po_grade = ''legacy_merged'', po_first_seen = b, po_last_seen = b,
      po_active = True\<rparr>"

definition seen_again :: "string \<Rightarrow> observation_row \<Rightarrow> observation_row" where
  "seen_again b r = r\<lparr>po_last_seen := b, po_active := True\<rparr>"

text \<open>The foreign keys of an observation are its snapshot and its document.\<close>

definition commit_observation ::
    "string \<Rightarrow> observation_record \<Rightarrow> catalog \<times> nat \<times> nat \<Rightarrow> (catalog_error, catalog \<times> nat \<times> nat) result" where
  "commit_observation b ob s =
     (case s of (c, fresh, again) \<Rightarrow>
        if ob_id ob \<in> po_id ` set (observations c)
        then Inr (c\<lparr>observations := update_where (\<lambda>r. po_id r = ob_id ob) (seen_again b) (observations c)\<rparr>,
                  fresh, Suc again)
        else if ob_snapshot ob \<notin> ss_id ` set (snapshots c)
          \<or> \<not> set_option (ob_document ob) \<subseteq> sd_id ` set (documents c)
        then Inl Integrity_error
        else Inr (c\<lparr>observations := observations c @ [new_observation b ob]\<rparr>, Suc fresh, again))"

text \<open>
  \<open>INSERT OR IGNORE\<close> into the findings; a finding that is new protects the snapshot it is about, once.
\<close>

definition protect_snapshot :: "string \<Rightarrow> string \<Rightarrow> catalog \<Rightarrow> catalog" where
  "protect_snapshot sid fid c =
     (let p = \<lparr>sp_snapshot = sid, sp_kind = ''unresolved_finding'', sp_reference = fid\<rparr>
      in if p \<in> set (protections c) then c else c\<lparr>protections := protections c @ [p]\<rparr>)"

definition add_finding ::
    "string \<Rightarrow> finding_record \<Rightarrow> catalog \<times> nat \<Rightarrow> catalog \<times> nat" where
  "add_finding b f s =
     (case s of (c, n) \<Rightarrow>
        if fr_id f \<in> qf_id ` set (findings c) then (c, n)
        else (protect_snapshot (fr_snapshot f) (fr_id f)
                (c\<lparr>findings := findings c @
                   [\<lparr>qf_id = fr_id f, qf_build = b, qf_severity = fr_severity f, qf_code = fr_code f,
                     qf_observation = None, qf_details = fr_details f, qf_resolved = False\<rparr>]\<rparr>), Suc n))"

definition update_task :: "string \<Rightarrow> string \<Rightarrow> (task_row \<Rightarrow> task_row) \<Rightarrow> catalog \<Rightarrow> catalog" where
  "update_task b uid f c =
     c\<lparr>tasks := update_where (\<lambda>t. bt_build t = b \<and> bt_university t = uid) f (tasks c)\<rparr>"

definition count_batch :: "prepared_batch \<Rightarrow> nat \<Rightarrow> nat \<Rightarrow> nat \<Rightarrow> nat \<Rightarrow> task_row \<Rightarrow> task_row" where
  "count_batch p docs fresh again found t =
     t\<lparr>bt_rows_read := bt_rows_read t + bp_rows p,
       bt_written := bt_written t + length (bp_observations p),
       bt_inserted := bt_inserted t + fresh, bt_obs_reused := bt_obs_reused t + again,
       bt_docs_seen := bt_docs_seen t + length (bp_documents p),
       bt_docs_inserted := bt_docs_inserted t + docs, bt_findings := bt_findings t + found,
       bt_rejected := bt_rejected t + length (bp_findings p)\<rparr>"

definition batch_key :: "ingest_env \<Rightarrow> string \<Rightarrow> string \<Rightarrow> prepared_batch \<Rightarrow> string" where
  "batch_key iv b uid p =
     hash_parts (iv_cat iv) [b, ''observations'', uid, nat_str (bp_first p), nat_str (bp_last p)]"

definition commit_batch :: "ingest_env \<Rightarrow> string \<Rightarrow> string \<Rightarrow> prepared_batch \<Rightarrow> unit handler" where
  "commit_batch iv b uid p c =
     res_bind (res_fold (commit_document b) (bp_documents p) (c, 0)) (\<lambda>(c1, docs).
     res_bind (res_fold (commit_observation b) (bp_observations p) (c1, 0, 0)) (\<lambda>(c2, fresh, again).
       let (c3, found) = fold (add_finding b) (bp_findings p) (c2, 0)
       in Inr ((), update_task b uid (count_batch p docs fresh again found)
            (save_checkpoint b ''observations'' uid (nat_str (bp_last p)) (Some (batch_key iv b uid p))
               (length (bp_observations p)) c3))))"

section \<open>What a source cannot provide (workflow.py)\<close>

definition capabilities :: "inspection \<Rightarrow> string list" where
  "capabilities i =
     map (append ''missing_table:'') (missing_optional_tables i) @
     map (append ''incomplete:'') (incomplete_capabilities i)"

definition snapshot_of :: "task_row \<Rightarrow> string" where
  "snapshot_of t = (case bt_snapshot t of None \<Rightarrow> ''None'' | Some s \<Rightarrow> s)"

definition capability_finding :: "ingest_env \<Rightarrow> string \<Rightarrow> task_row \<Rightarrow> string \<Rightarrow> finding_record" where
  "capability_finding iv b t cap =
     \<lparr>fr_id = finding_id (iv_cat iv) b ''source_capability_missing'' (snapshot_of t @ '':'' @ cap),
      fr_severity = ''warning'', fr_code = ''source_capability_missing'',
      fr_details = [(''source_snapshot_id'', json_opt (bt_snapshot t)), (''university_id'', JStr (bt_university t)),
                    (''capability'', JStr cap)],
      fr_snapshot = snapshot_of t\<rparr>"

definition record_capability_findings :: "ingest_env \<Rightarrow> string \<Rightarrow> task_row \<Rightarrow> inspection \<Rightarrow> nat handler" where
  "record_capability_findings iv b t i c =
     (let (c1, n) = fold (add_finding b) (map (capability_finding iv b t) (capabilities i)) (c, 0)
      in Inr (n, if n = 0 then c1 else update_task b (bt_university t) (\<lambda>r. r\<lparr>bt_findings := bt_findings r + n\<rparr>) c1))"

section \<open>Deactivation (workflow.py)\<close>

text \<open>The last completed task of another build that was trusted to deactivate.\<close>

definition find_task :: "string \<Rightarrow> string \<Rightarrow> catalog \<Rightarrow> task_row option" where
  "find_task b uid c = find (\<lambda>t. bt_build t = b \<and> bt_university t = uid) (tasks c)"

definition trusted_tasks :: "string \<Rightarrow> string \<Rightarrow> catalog \<Rightarrow> (string \<times> task_row) list" where
  "trusted_tasks b uid c =
     [(case gb_started g of None \<Rightarrow> [] | Some s \<Rightarrow> s, t).
        t \<leftarrow> tasks c,
        bt_university t = uid \<and> bt_build t \<noteq> b \<and> bt_status t = T_completed \<and> bt_eligible t,
        g \<leftarrow> builds c, gb_id g = bt_build t]"

definition previous_trusted :: "string \<Rightarrow> string \<Rightarrow> catalog \<Rightarrow> task_row option" where
  "previous_trusted b uid c =
     (case rev (sort_key fst (rev (trusted_tasks b uid c))) of [] \<Rightarrow> None | (_, t) # _ \<Rightarrow> Some t)"

definition source_ratio :: "task_row option \<Rightarrow> inspection \<Rightarrow> rat option" where
  "source_ratio previous i =
     (case previous of
        None \<Rightarrow> None
      | Some t \<Rightarrow> if bt_rows_read t = 0 then None
                  else Some (of_nat (professor_total i) / of_nat (bt_rows_read t)))"

definition deactivation_reasons :: "rat \<Rightarrow> task_row \<Rightarrow> task_row option \<Rightarrow> inspection \<Rightarrow> string list" where
  "deactivation_reasons minimum current previous i =
     (if in_crawl i \<noteq> ''completed'' then [''crawl_status:'' @ in_crawl i] else []) @
     (if \<not> deactivation_state_is_complete i then [''crawler_state_incomplete_or_unavailable''] else []) @
     (if bt_rejected current \<noteq> 0 then [''row_rejections''] else []) @
     (if professor_total i = 0 then [''zero_professors''] else []) @
     (case source_ratio previous i of
        None \<Rightarrow> []
      | Some q \<Rightarrow> if q < minimum then [''source_count_regression''] else [])"

text \<open>Documents with several names among the active observations of a university.\<close>

definition shared_documents :: "string \<Rightarrow> observation_row list \<Rightarrow> string list" where
  "shared_documents uid obs =
     [d. d \<leftarrow> remdups (List.map_filter po_document obs),
         1 < length (remdups (map po_name_key
               (filter (\<lambda>r. po_university r = uid \<and> po_active r \<and> po_document r = Some d) obs)))]"

definition mark_shared_pages :: "string \<Rightarrow> catalog \<Rightarrow> catalog" where
  "mark_shared_pages uid c =
     c\<lparr>observations := update_where
         (\<lambda>r. po_university r = uid \<and> po_page_kind r = ''unknown'' \<and>
              (\<exists>d \<in> set (shared_documents uid (observations c)). po_document r = Some d))
         (\<lambda>r. r\<lparr>po_page_kind := ''multi_profile''\<rparr>) (observations c)\<rparr>"

definition unseen :: "string \<Rightarrow> string \<Rightarrow> observation_row \<Rightarrow> bool" where
  "unseen b uid r = (po_university r = uid \<and> po_active r \<and> po_last_seen r \<noteq> b)"

definition deactivate_unseen :: "string \<Rightarrow> string \<Rightarrow> catalog \<Rightarrow> catalog" where
  "deactivate_unseen b uid c =
     c\<lparr>observations := update_where (unseen b uid) (\<lambda>r. r\<lparr>po_active := False\<rparr>) (observations c)\<rparr>"

definition blocked_finding ::
    "ingest_env \<Rightarrow> rat \<Rightarrow> string \<Rightarrow> task_row \<Rightarrow> task_row option \<Rightarrow> inspection \<Rightarrow> string list \<Rightarrow> finding_record" where
  "blocked_finding iv minimum b t previous i reasons =
     \<lparr>fr_id = finding_id (iv_cat iv) b ''source_deactivation_blocked'' (snapshot_of t @ '':deactivation''),
      fr_severity = ''warning'', fr_code = ''source_deactivation_blocked'',
      fr_details =
        [(''university_id'', JStr (bt_university t)), (''source_snapshot_id'', json_opt (bt_snapshot t)),
         (''reasons'', JList (map JStr reasons)), (''professor_count'', JInt (int (professor_total i))),
         (''previous_trusted_count'',
            (case previous of None \<Rightarrow> JNull | Some p \<Rightarrow> JInt (int (bt_rows_read p)))),
         (''retention_ratio'', (case source_ratio previous i of None \<Rightarrow> JNull | Some q \<Rightarrow> JFloat q)),
         (''minimum_retention_ratio'', JFloat minimum)],
      fr_snapshot = snapshot_of t\<rparr>"

definition complete_task :: "bool \<Rightarrow> nat \<Rightarrow> nat \<Rightarrow> task_row \<Rightarrow> task_row" where
  "complete_task eligible gone found t =
     t\<lparr>bt_status := T_completed, bt_eligible := eligible, bt_inactivated := gone,
       bt_findings := bt_findings t + found, bt_error := None\<rparr>"

definition finalize_source ::
    "ingest_env \<Rightarrow> rat \<Rightarrow> string \<Rightarrow> task_row \<Rightarrow> inspection \<Rightarrow> string list handler" where
  "finalize_source iv minimum b t i c =
     (case find_task b (bt_university t) c of
        None \<Rightarrow> Inl (Catalog_error ''build source task disappeared during ingest'')
      | Some current \<Rightarrow>
          (let uid = bt_university t;
               previous = previous_trusted b uid c;
               reasons = deactivation_reasons minimum current previous i;
               c1 = mark_shared_pages uid c
           in if reasons = []
              then Inr (reasons, update_task b uid
                     (complete_task True (length (filter (unseen b uid) (observations c1))) 0)
                     (deactivate_unseen b uid c1))
              else (let (c2, n) = add_finding b (blocked_finding iv minimum b t previous i reasons) (c1, 0)
                    in Inr (reasons, update_task b uid (complete_task False 0 n) c2))))"

section \<open>One source (workflow.py)\<close>

text \<open>
  What the ingest takes from outside the catalog: \<open>ig_read\<close> opens a snapshot file (\<open>None\<close> when there is none),
  \<open>ig_copy\<close> takes a snapshot of a crawl database and gives its id, path, file hash and whether the file
  was reused, \<open>ig_stop\<close> says after how many batches of a university the reader or the memory limit
  stops the group of producer and consumer, and \<open>ig_rss\<close> reads the memory at the end.
\<close>

record snapshot_result =
  sn_id :: string
  sn_path :: string
  sn_hash :: string
  sn_inspection :: inspection
  sn_reused :: bool

record ingest_io =
  ig_env :: ingest_env
  ig_batch :: nat
  ig_minimum :: rat
  ig_read :: "string \<Rightarrow> (catalog_error, source_db) result option"
  ig_copy :: "task_row \<Rightarrow> (catalog_error, snapshot_result) result"
  ig_stop :: "string \<Rightarrow> nat option"
  ig_rss :: "(catalog_error, nat) result"

definition validate_snapshot_identity :: "task_row \<Rightarrow> inspection \<Rightarrow> (catalog_error, unit) result" where
  "validate_snapshot_identity t i =
     (if in_name i \<noteq> bt_name t
      then Inl (Catalog_error (''source metadata university '' @ quoted (in_name i) @
             '' does not match selected university '' @ quoted (bt_name t)))
      else if truthy_str (in_abbr i) \<and> in_abbr i \<noteq> Some (bt_abbr t)
      then Inl (Catalog_error (''source metadata abbreviation '' @ quoted (the (in_abbr i)) @
             '' does not match selected abbreviation '' @ quoted (bt_abbr t)))
      else Inr ())"

definition snapshot_path :: "task_row \<Rightarrow> catalog \<Rightarrow> (catalog_error, string) result" where
  "snapshot_path t c =
     (case find (\<lambda>s. bt_snapshot t = Some (ss_id s)) (snapshots c) of
        None \<Rightarrow> Inl (Catalog_error ''registered source snapshot is missing from catalog'')
      | Some s \<Rightarrow> Inr (ss_path s))"

definition open_snapshot :: "ingest_io \<Rightarrow> task_row \<Rightarrow> string \<Rightarrow> (catalog_error, source_db \<times> inspection) result" where
  "open_snapshot io t path =
     (case ig_read io path of
        None \<Rightarrow> Inl (Catalog_error (''source snapshot file is missing: '' @ path))
      | Some r \<Rightarrow>
          res_bind r (\<lambda>db.
          res_bind (inspect_snapshot (iv_topic (ig_env io)) db) (\<lambda>i.
          res_bind (validate_snapshot_identity t i) (\<lambda>_. Inr (db, i)))))"

definition resume_key :: "string \<Rightarrow> string \<Rightarrow> catalog \<Rightarrow> nat" where
  "resume_key b uid c = read_digits (last_key b ''observations'' uid c)"

definition group_error :: catalog_error where
  "group_error = External_error ''ExceptionGroup'' ''unhandled errors in a TaskGroup (1 sub-exception)''"

definition commit_rows :: "ingest_io \<Rightarrow> string \<Rightarrow> task_row \<Rightarrow> legacy_row list list \<Rightarrow> ('x cat_world, unit) action" where
  "commit_rows io b t =
     act_each (\<lambda>rows. execute (commit_batch (ig_env io) b (bt_university t)
       (prepare_batch (ig_env io) b (bt_university t) (snapshot_of t) rows)))"

definition copy_rows :: "ingest_io \<Rightarrow> string \<Rightarrow> task_row \<Rightarrow> source_db \<Rightarrow> inspection \<Rightarrow> nat \<Rightarrow> ('x cat_world, unit) action" where
  "copy_rows io b t db i key =
     act_try
       (if ig_batch io = 0 then act_raise (Value_error_cat ''batch_size must be positive'')
        else let batches = iter_legacy_batches (ig_batch io) key (legacy_rows (iv_topic (ig_env io)) db i)
             in case ig_stop io (bt_university t) of
                  None \<Rightarrow> commit_rows io b t batches
                | Some k \<Rightarrow> act_seq (commit_rows io b t (take k batches)) (act_raise group_error))
       (\<lambda>e. act_raise group_error)"

definition ingest_source :: "ingest_io \<Rightarrow> string \<Rightarrow> task_row \<Rightarrow> ('x cat_world, unit) action" where
  "ingest_source io b t =
     act_bind (query (\<lambda>c. res_bind (snapshot_path t c) (open_snapshot io t))) (\<lambda>(db, i).
     act_seq (execute (record_capability_findings (ig_env io) b t i))
     (act_bind (query (\<lambda>c. Inr (resume_key b (bt_university t) c))) (\<lambda>key.
      act_seq (copy_rows io b t db i key)
      (act_seq (execute (finalize_source (ig_env io) (ig_minimum io) b t i)) (act_return ())))))"

section \<open>The build (workflow.py)\<close>

record build_source =
  bs_university :: string
  bs_name :: string
  bs_abbr :: string
  bs_path :: string
  bs_ordinal :: nat

definition new_build :: "metadata \<Rightarrow> string \<Rightarrow> string \<Rightarrow> build_row" where
  "new_build frozen now b =
     \<lparr>gb_id = b, gb_status = B_created, gb_manifest_hash = None, gb_taxonomy = None, gb_fingerprint = None,
      gb_settings = frozen, gb_graph_schema = 1, gb_vector_schema = 1, gb_summary = [],
      gb_started = Some now, gb_finished = None, gb_error = None\<rparr>"

definition new_task :: "string \<Rightarrow> build_source \<Rightarrow> task_row" where
  "new_task b s =
     \<lparr>bt_build = b, bt_university = bs_university s, bt_name = bs_name s, bt_abbr = bs_abbr s,
      bt_path = bs_path s, bt_ordinal = bs_ordinal s, bt_status = T_pending, bt_snapshot = None,
      bt_reused = False, bt_rows_read = 0, bt_written = 0, bt_inserted = 0, bt_obs_reused = 0,
      bt_docs_seen = 0, bt_docs_inserted = 0, bt_findings = 0, bt_rejected = 0, bt_eligible = False,
      bt_inactivated = 0, bt_error = None\<rparr>"

definition insert_task :: "task_row \<Rightarrow> catalog \<Rightarrow> (catalog_error, catalog) result" where
  "insert_task t c =
     (if (\<exists>r \<in> set (tasks c). bt_build r = bt_build t \<and>
            (bt_university r = bt_university t \<or> bt_ordinal r = bt_ordinal t))
      then Inl Integrity_error
      else Inr (c\<lparr>tasks := tasks c @ [t]\<rparr>))"

definition insert_build ::
    "metadata \<Rightarrow> string \<Rightarrow> string \<Rightarrow> build_source list \<Rightarrow> unit handler" where
  "insert_build frozen now b sources c =
     (if b \<in> gb_id ` set (builds c) then Inl Integrity_error
      else res_bind (res_fold (\<lambda>s. insert_task (new_task b s)) sources
                       (c\<lparr>builds := builds c @ [new_build frozen now b]\<rparr>))
             (\<lambda>c'. Inr ((), c')))"

definition load_tasks :: "string \<Rightarrow> catalog \<Rightarrow> task_row list" where
  "load_tasks b c = sort_key bt_ordinal (filter (\<lambda>t. bt_build t = b) (tasks c))"

definition update_build_status ::
    "string \<Rightarrow> string \<Rightarrow> build_status \<Rightarrow> string option \<Rightarrow> string option \<Rightarrow> metadata option \<Rightarrow> unit handler" where
  "update_build_status now b s err mhash summary c =
     Inr ((), update_build b (\<lambda>r. r\<lparr>gb_status := s, gb_error := err,
        gb_finished := (if s = B_failed then Some now else None),
        gb_manifest_hash := (case mhash of None \<Rightarrow> gb_manifest_hash r | h \<Rightarrow> h),
        gb_summary := (case summary of None \<Rightarrow> gb_summary r | Some m \<Rightarrow> m)\<rparr>) c)"

definition set_task_state :: "string \<Rightarrow> string \<Rightarrow> task_status \<Rightarrow> string option \<Rightarrow> unit handler" where
  "set_task_state b uid s err c =
     Inr ((), update_task b uid (\<lambda>t. t\<lparr>bt_status := s, bt_error := err\<rparr>) c)"

definition task_snapshots :: "string \<Rightarrow> catalog \<Rightarrow> (task_row \<times> snapshot_row) list" where
  "task_snapshots b c =
     sort_key (\<lambda>(t, s). bt_university t)
       [(t, s). t \<leftarrow> tasks c, bt_build t = b, s \<leftarrow> snapshots c, bt_snapshot t = Some (ss_id s)]"

definition source_json :: "task_row \<times> snapshot_row \<Rightarrow> json" where
  "source_json r =
     (case r of (t, s) \<Rightarrow>
        JDict [(''university_id'', JStr (bt_university t)), (''source_snapshot_id'', JStr (ss_id s)),
               (''file_hash'', JStr (ss_hash s)), (''schema_version'', JInt (int (ss_schema s))),
               (''row_counts'', JDict (ss_counts s))])"

definition source_manifest :: "catalog_env \<Rightarrow> string \<Rightarrow> catalog \<Rightarrow> (catalog_error, string \<times> json) result" where
  "source_manifest env b c =
     (if length (task_snapshots b c) \<noteq> length (filter (\<lambda>t. bt_build t = b) (tasks c))
      then Inl (Catalog_error ''cannot finalize source manifest before every snapshot is registered'')
      else let m = JList (map source_json (task_snapshots b c)) in Inr (canonical_json_hash env m, m))"

definition counts_json :: "inspection \<Rightarrow> metadata" where
  "counts_json i = map (\<lambda>(t, n). (t, case n of None \<Rightarrow> JNull | Some k \<Rightarrow> JInt (int k))) (in_counts i)"

definition register_snapshot :: "string \<Rightarrow> task_row \<Rightarrow> snapshot_result \<Rightarrow> unit handler" where
  "register_snapshot b t r c =
     (let known = sn_id r \<in> ss_id ` set (snapshots c);
          row = \<lparr>ss_id = sn_id r, ss_university = bt_university t, ss_source_path = bt_path t,
                 ss_path = sn_path r, ss_hash = sn_hash r, ss_schema = nat (in_schema (sn_inspection r)),
                 ss_counts = counts_json (sn_inspection r)\<rparr>
      in if \<not> known \<and> (\<exists>s \<in> set (snapshots c). ss_path s = sn_path r \<or>
                         ss_university s = bt_university t \<and> ss_hash s = sn_hash r)
         then Inl Integrity_error
         else let c1 = (if known then c else c\<lparr>snapshots := snapshots c @ [row]\<rparr>)
              in if map_option ss_hash (find (\<lambda>s. ss_id s = sn_id r) (snapshots c1)) \<noteq> Some (sn_hash r)
                 then Inl (Catalog_error ''catalog snapshot identity collision'')
                 else Inr ((), update_task b (bt_university t)
                        (\<lambda>x. x\<lparr>bt_snapshot := Some (sn_id r), bt_reused := sn_reused r,
                               bt_status := T_snapshotted, bt_error := None\<rparr>)
                        (c1\<lparr>build_snapshots :=
                           (if (b, sn_id r) \<in> set (build_snapshots c1) then build_snapshots c1
                            else build_snapshots c1 @ [(b, sn_id r)])\<rparr>)))"

definition task_sum :: "(task_row \<Rightarrow> nat) \<Rightarrow> task_row list \<Rightarrow> json" where
  "task_sum f ts = JInt (int (sum_list (map f ts)))"

definition task_status_name :: "task_status \<Rightarrow> string" where
  "task_status_name s =
     (case s of T_pending \<Rightarrow> ''PENDING'' | T_snapshotting \<Rightarrow> ''SNAPSHOTTING'' | T_snapshotted \<Rightarrow> ''SNAPSHOTTED''
      | T_ingesting \<Rightarrow> ''INGESTING'' | T_completed \<Rightarrow> ''COMPLETED'' | T_failed \<Rightarrow> ''FAILED'')"

definition task_report :: "task_row \<Rightarrow> json" where
  "task_report t =
     JDict [(''university_id'', JStr (bt_university t)), (''status'', JStr (task_status_name (bt_status t))),
            (''rows_read'', JInt (int (bt_rows_read t))), (''findings'', JInt (int (bt_findings t))),
            (''deactivation_eligible'', JBool (bt_eligible t)), (''last_error'', json_opt (bt_error t))]"

definition build_summary :: "string \<Rightarrow> nat \<Rightarrow> catalog \<Rightarrow> metadata" where
  "build_summary b rss c =
     (let ts = load_tasks b c
      in [(''source_count'', JInt (int (length ts))),
          (''source_snapshots_reused'', task_sum (\<lambda>t. of_bool (bt_reused t)) ts),
          (''rows_read'', task_sum bt_rows_read ts), (''observations_written'', task_sum bt_written ts),
          (''observations_inserted'', task_sum bt_inserted ts),
          (''observations_reused'', task_sum bt_obs_reused ts),
          (''documents_seen'', task_sum bt_docs_seen ts),
          (''documents_inserted'', task_sum bt_docs_inserted ts),
          (''observations_inactivated'', task_sum bt_inactivated ts),
          (''quality_findings'', task_sum bt_findings ts),
          (''deactivation_eligible_sources'', task_sum (\<lambda>t. of_bool (bt_eligible t)) ts),
          (''peak_observed_rss_bytes'', JInt (int rss)), (''sources'', JList (map task_report ts))])"

text \<open>An error of one source is recorded at its task and reported; the next source goes on.\<close>

definition guard_task :: "string \<Rightarrow> task_row \<Rightarrow> ('x cat_world, unit) action \<Rightarrow> ('x cat_world, string list) action" where
  "guard_task b t m =
     act_try (act_seq m (act_return []))
       (\<lambda>e. act_seq (execute (set_task_state b (bt_university t) T_failed (Some (safe_error e))))
              (act_return [bt_university t @ '': '' @ safe_error e]))"

definition take_snapshot :: "ingest_io \<Rightarrow> string \<Rightarrow> task_row \<Rightarrow> ('x cat_world, unit) action" where
  "take_snapshot io b t =
     (case res_bind (ig_copy io t) (\<lambda>r. res_bind (validate_snapshot_identity t (sn_inspection r)) (\<lambda>_. Inr r)) of
        Inl e \<Rightarrow> act_raise e
      | Inr r \<Rightarrow> execute (register_snapshot b t r))"

definition snapshot_phase ::
    "ingest_io \<Rightarrow> string \<Rightarrow> string \<Rightarrow> task_row list \<Rightarrow> ('x cat_world, string list) action" where
  "snapshot_phase io now b ts =
     (let waiting = filter (\<lambda>t. bt_snapshot t = None) ts
      in if waiting = [] then act_return []
         else act_seq (execute (update_build_status now b B_snapshotting None None None))
                (act_bind (act_map (\<lambda>t. act_seq (execute (set_task_state b (bt_university t) T_snapshotting None))
                             (guard_task b t (take_snapshot io b t))) waiting)
                   (\<lambda>found. act_return (concat (map snd found)))))"

definition ingest_phase :: "ingest_io \<Rightarrow> string \<Rightarrow> task_row list \<Rightarrow> ('x cat_world, string list) action" where
  "ingest_phase io b ts =
     act_bind (act_map (\<lambda>t. act_seq (execute (set_task_state b (bt_university t) T_ingesting None))
                 (guard_task b t (ingest_source io b t))) (filter (\<lambda>t. bt_status t \<noteq> T_completed) ts))
       (\<lambda>found. act_return (concat (map snd found)))"

definition joined_errors :: "string list \<Rightarrow> string" where
  "joined_errors errs = take_points 2000 (join_with ''; '' errs)"

definition close_ingest :: "ingest_io \<Rightarrow> string \<Rightarrow> string \<Rightarrow> json \<Rightarrow> string list \<Rightarrow> ('x cat_world, unit) action" where
  "close_ingest io now b manifest errs =
     (case ig_rss io of
        Inl e \<Rightarrow> act_raise e
      | Inr rss \<Rightarrow>
          act_bind (query (\<lambda>c. Inr (build_summary b rss c @ [(''source_manifest'', manifest)]))) (\<lambda>summary.
            if errs = [] then execute (update_build_status now b B_curating None None (Some summary))
            else execute (update_build_status now b B_failed (Some (joined_errors errs)) None (Some summary))))"

definition run_build :: "ingest_io \<Rightarrow> string \<Rightarrow> string \<Rightarrow> ('x cat_world, unit) action" where
  "run_build io now b =
     act_bind (query (\<lambda>c. case find_build b c of None \<Rightarrow> Inl (unknown_build b) | Some g \<Rightarrow> Inr (gb_status g))) (\<lambda>s.
       if s = B_curating then act_return ()
       else if s \<notin> {B_created, B_snapshotting, B_ingesting, B_failed}
       then act_raise (Catalog_error (''build '' @ b @ '' in status '' @ build_status_name s @
              '' cannot be resumed by stage 1''))
       else act_bind (query (\<lambda>c. Inr (load_tasks b c))) (\<lambda>ts.
         act_bind (snapshot_phase io now b ts) (\<lambda>errs.
           if errs \<noteq> [] then execute (update_build_status now b B_failed (Some (joined_errors errs)) None None)
           else act_bind (query (source_manifest (iv_cat (ig_env io)) b)) (\<lambda>(h, m).
             act_seq (execute (update_build_status now b B_ingesting None (Some h) (Some [(''source_manifest'', m)])))
             (act_bind (query (\<lambda>c. Inr (load_tasks b c))) (\<lambda>ts'.
              act_bind (ingest_phase io b ts') (close_ingest io now b m)))))))"

section \<open>Resuming (workflow.py)\<close>

definition resume_setting_keys :: "string list" where
  "resume_setting_keys =
     [''build_read_batch'', ''build_write_queue'', ''build_max_rss_mb'', ''build_min_free_disk_mb'',
      ''build_min_source_retention_ratio'', ''curation_queue'', ''embedding_base_url'', ''embedding_model'',
      ''embedding_dimension'', ''embedding_max_input_tokens'', ''embedding_passage_prefix'', ''tokenizer_model'',
      ''tokenizer_revision'', ''profile_max_tokens'', ''qdrant_url'', ''bm25_tokenizer_version'',
      ''taxonomy_path'', ''topic_candidate_top_k'', ''topic_merge_min_score'', ''neo4j_uri'', ''neo4j_database'',
      ''build_neo4j_batch'']"

definition assert_resume_compatible :: "build_row \<Rightarrow> metadata \<Rightarrow> (catalog_error, unit) result" where
  "assert_resume_compatible g current =
     (let frozen = gb_settings g;
          differences = filter (\<lambda>k. k \<in> set (dict_keys frozen) \<and> json_get frozen k \<noteq> json_get current k)
                          resume_setting_keys
      in if differences \<noteq> []
         then Inl (Catalog_error (''resume settings are incompatible with the frozen build: '' @
                join_with '', '' differences))
         else if json_get frozen ''catalog_schema_version'' \<notin> JInt ` {1, 2, 3, 4, 5, 6}
         then Inl (Catalog_error ''build catalog schema version is incompatible'')
         else Inr ())"

section \<open>Pages and batches\<close>

lemma pages_nil_iff: "key_pages n f key rows = [] \<longleftrightarrow> next_page n f key rows = []"
  by (subst key_pages.simps) simp

lemma pages_Cons:
  "next_page n f key rows \<noteq> [] \<Longrightarrow>
     key_pages n f key rows =
       next_page n f key rows # key_pages n f (f (List.last (next_page n f key rows))) rows"
  by (subst key_pages.simps) simp

lemma pages_nonempty: "page \<in> set (key_pages n f key rows) \<Longrightarrow> page \<noteq> []"
proof (induction n f key rows rule: key_pages.induct)
  case (1 n f key rows)
  then show ?case
    by (cases "next_page n f key rows = []") (auto simp: pages_nil_iff [THEN iffD2] pages_Cons)
qed

text \<open>The pages after the \<open>k\<close>-th are those a reader finds that starts at the last key of the \<open>k\<close>-th.\<close>

lemma pages_resume:
  assumes "take k (key_pages n f key rows) \<noteq> []"
  shows "key_pages n f (f (List.last (List.last (take k (key_pages n f key rows))))) rows =
         drop k (key_pages n f key rows)"
  using assms
proof (induction n f key rows arbitrary: k rule: key_pages.induct)
  case (1 n f key rows)
  from "1.prems" have page: "next_page n f key rows \<noteq> []" using pages_nil_iff [of n f key rows] by auto
  let ?rest = "key_pages n f (f (List.last (next_page n f key rows))) rows"
  from "1.prems" obtain j where k: "k = Suc j" by (cases k) auto
  show ?case
  proof (cases "take j ?rest = []")
    case True
    then show ?thesis by (auto simp: pages_Cons [OF page] k)
  next
    case False
    then show ?thesis using "1.IH" [OF page, of j] by (simp add: pages_Cons [OF page] k)
  qed
qed

lemma last_greatest: "sorted_wrt (<) (map f xs) \<Longrightarrow> x \<in> set xs \<Longrightarrow> f x \<le> f (List.last xs)" for f :: "'a \<Rightarrow> 'k::linorder"
  by (induction xs) (auto simp: less_imp_le)

lemma page_split:
  assumes order: "sorted_wrt (<) (map f rows)" and page: "next_page n f key rows \<noteq> []"
  shows "filter (\<lambda>r. f (List.last (next_page n f key rows)) < f r) rows = drop n (filter (\<lambda>r. key < f r) rows)"
proof -
  let ?F = "filter (\<lambda>r. key < f r) rows" and ?l = "f (List.last (next_page n f key rows))"
  have F: "sorted_wrt (<) (map f ?F)"
    using order by (simp add: sorted_wrt_map sorted_wrt_filter)
  then have parts: "sorted_wrt (<) (map f (take n ?F @ drop n ?F))" by simp
  have l: "List.last (take n ?F) \<in> set (take n ?F)" "?l = f (List.last (take n ?F))"
    using page by (auto simp: next_page_def)
  have after: "?l < f r" if "r \<in> set (drop n ?F)" for r
    using parts that l unfolding map_append sorted_wrt_append by auto
  have T: "sorted_wrt (<) (map f (take n ?F))"
    using parts unfolding map_append sorted_wrt_append by (rule conjunct1)
  have before: "\<not> ?l < f r" if r: "r \<in> set (take n ?F)" for r
    using last_greatest [OF T r] unfolding l(2) by simp
  have "key < ?l" using next_page_last [OF page] by simp
  then have "filter (\<lambda>r. ?l < f r) rows = filter (\<lambda>r. ?l < f r) (take n ?F @ drop n ?F)"
    by (auto intro: filter_cong)
  also have "\<dots> = drop n ?F"
    using after before by (simp only: filter_append) (auto simp: filter_empty_conv filter_id_conv)
  finally show ?thesis .
qed

lemma concat_pages:
  assumes "sorted_wrt (<) (map f rows)" and "0 < n"
  shows "List.concat (key_pages n f key rows) = filter (\<lambda>r. key < f r) rows"
  using assms
proof (induction n f key rows rule: key_pages.induct)
  case (1 n f key rows)
  show ?case
  proof (cases "next_page n f key rows = []")
    case True
    then show ?thesis using "1.prems" by (auto simp: pages_nil_iff [THEN iffD2] next_page_def)
  next
    case False
    have "List.concat (key_pages n f (f (List.last (next_page n f key rows))) rows) =
          drop n (filter (\<lambda>r. key < f r) rows)"
      using "1.IH" [OF False "1.prems"] page_split [OF "1.prems"(1) False] by simp
    then show ?thesis unfolding pages_Cons [OF False] by (simp add: next_page_def)
  qed
qed

lemma concat_map_id: "map f (List.concat xss) = List.concat (map (map f) xss)"
  by (induction xss) auto

lemma cached_pages_cases: "cached_pages db i p \<noteq> []"
  by (auto simp: cached_pages_def Let_def split: list.splits)

lemma sorted_concat_const:
  "sorted (map f xs) \<Longrightarrow> sorted (List.concat (map (\<lambda>x. replicate (g x) (f x)) xs))" for f :: "'a \<Rightarrow> nat"
  by (induction xs) (auto simp: sorted_append)

lemma legacy_rows_sorted: "sorted (map lr_id (legacy_rows te db i))"
proof -
  have "map lr_id (legacy_rows te db i) =
        List.concat (map (\<lambda>p. replicate (length (cached_pages db i p)) (nat (row_id p)))
          (sort_key row_id (table_rows db ''professors'')))"
    by (simp add: legacy_rows_def concat_map_id comp_def legacy_row_of_def Let_def map_replicate_const)
  moreover have "sorted (map (\<lambda>p. nat (row_id p)) (sort_key row_id (table_rows db ''professors'')))"
    using sorted_sort_key [of row_id "table_rows db ''professors''"]
    unfolding sorted_map by (rule sorted_wrt_mono_rel [rotated]) (simp add: nat_mono)
  ultimately show ?thesis
    using sorted_concat_const [of "\<lambda>p. nat (row_id p)"] by simp
qed

lemma legacy_rows_strict: "distinct (map lr_id (legacy_rows te db i)) \<Longrightarrow> sorted_wrt (<) (map lr_id (legacy_rows te db i))"
  using legacy_rows_sorted strict_sorted_iff by blast

section \<open>Sequences of transactions\<close>

definition state_of :: "'a handler \<Rightarrow> catalog \<Rightarrow> (catalog_error, catalog) result" where
  "state_of h c = res_bind (h c) (\<lambda>(_, d). Inr d)"

lemma state_of_Inr: "state_of h c = Inr d \<longleftrightarrow> (\<exists>a. h c = Inr (a, d))"
  by (cases "h c") (auto simp: state_of_def)

lemma act_each_Cons: "act_each f (x # xs) = act_seq (f x) (act_each f xs)"
  by (simp add: act_each_def)

lemma act_each_execute:
  "act_each (\<lambda>x. execute (h x)) xs w = (Inr (), w') \<longleftrightarrow>
     (\<exists>c'. res_fold (\<lambda>x. state_of (h x)) xs (cw_cat w) = Inr c' \<and> w' = w\<lparr>cw_cat := c'\<rparr>)"
proof (induction xs arbitrary: w)
  case Nil
  show ?case by (auto simp: act_each_def act_return_def)
next
  case (Cons x xs)
  show ?case
    by (cases "h x (cw_cat w)")
      (auto simp: act_each_Cons act_seq_Inr_iff execute_Inr_iff Cons.IH state_of_def)
qed

lemma res_fold_append: "res_fold f (xs @ ys) s = res_bind (res_fold f xs s) (res_fold f ys)"
proof (induction xs arbitrary: s)
  case (Cons x xs)
  then show ?case by (cases "f x s") simp_all
qed simp

section \<open>What a commit changes\<close>

lemma add_finding_step:
  "add_finding b f (c, n) = (c', n') \<Longrightarrow>
     qf_id ` set (findings c') = insert (fr_id f) (qf_id ` set (findings c)) \<and> tasks c' = tasks c \<and>
     observations c' = observations c \<and> snapshots c' = snapshots c \<and> checkpoints c' = checkpoints c \<and>
     builds c' = builds c"
  by (auto simp: add_finding_def protect_snapshot_def Let_def split: if_splits)

lemma add_finding_fold:
  "fold (add_finding b) fs (c, n) = (c', n') \<Longrightarrow>
     qf_id ` set (findings c') = qf_id ` set (findings c) \<union> fr_id ` set fs \<and> tasks c' = tasks c \<and>
     observations c' = observations c \<and> snapshots c' = snapshots c \<and> checkpoints c' = checkpoints c \<and>
     builds c' = builds c"
proof (induction fs arbitrary: c n)
  case (Cons f fs)
  obtain c1 n1 where one: "add_finding b f (c, n) = (c1, n1)" by fastforce
  with Cons.prems have "fold (add_finding b) fs (c1, n1) = (c', n')" by simp
  from Cons.IH [OF this] add_finding_step [OF one] show ?case by auto
qed simp

lemma add_finding_known:
  "fr_id ` set fs \<subseteq> qf_id ` set (findings c) \<Longrightarrow> fold (add_finding b) fs (c, n) = (c, n)"
  by (induction fs) (auto simp: add_finding_def)

lemma update_task_select [simp]:
  "builds (update_task b uid f c) = builds c" "observations (update_task b uid f c) = observations c"
  "snapshots (update_task b uid f c) = snapshots c" "findings (update_task b uid f c) = findings c"
  "checkpoints (update_task b uid f c) = checkpoints c"
  by (simp_all add: update_task_def)

lemma find_task_update:
  assumes "\<And>t. bt_build (f t) = bt_build t \<and> bt_university (f t) = bt_university t"
  shows "find_task b uid (update_task b uid f c) = map_option f (find_task b uid c)"
proof -
  have "find (\<lambda>t. bt_build t = b \<and> bt_university t = uid)
      (update_where (\<lambda>t. bt_build t = b \<and> bt_university t = uid) f rows) =
    map_option f (find (\<lambda>t. bt_build t = b \<and> bt_university t = uid) rows)" for rows
    using assms by (induction rows) (auto simp: update_where_def)
  then show ?thesis by (simp add: find_task_def update_task_def)
qed

lemma save_checkpoint_source [simp]:
  "tasks (save_checkpoint b sink part key batch n c) = tasks c"
  "observations (save_checkpoint b sink part key batch n c) = observations c"
  "snapshots (save_checkpoint b sink part key batch n c) = snapshots c"
  "findings (save_checkpoint b sink part key batch n c) = findings c"
  "builds (save_checkpoint b sink part key batch n c) = builds c"
  by (simp_all add: save_checkpoint_def Let_def)

lemma last_key_save: "last_key b sink part (save_checkpoint b sink part key batch n c) = key"
proof (cases "\<exists>k \<in> set (checkpoints c). ck_build k = b \<and> ck_sink k = sink \<and> ck_partition k = part")
  case True
  then obtain k where "find (\<lambda>k. ck_build k = b \<and> ck_sink k = sink \<and> ck_partition k = part) (checkpoints c) = Some k"
    by (cases "find (\<lambda>k. ck_build k = b \<and> ck_sink k = sink \<and> ck_partition k = part) (checkpoints c)")
      (auto simp: find_None_iff)
  then show ?thesis using True find_in_set [of _ "checkpoints c" k]
    by (auto simp: save_checkpoint_def last_key_def find_checkpoint_def find_update_pred)
next
  case False
  then have none: "find (\<lambda>k. ck_build k = b \<and> ck_sink k = sink \<and> ck_partition k = part) (checkpoints c) = None"
    by (auto simp: find_None_iff)
  show ?thesis unfolding save_checkpoint_def Let_def if_not_P [OF False]
    by (simp add: last_key_def find_checkpoint_def find_append none)
qed

lemma commit_document_same:
  "commit_document b d (c, n) = Inr (c', n') \<Longrightarrow>
     tasks c' = tasks c \<and> observations c' = observations c \<and> snapshots c' = snapshots c \<and>
     findings c' = findings c \<and> checkpoints c' = checkpoints c \<and> builds c' = builds c"
  by (auto simp: commit_document_def split: if_splits)

lemma commit_documents_same:
  "res_fold (commit_document b) ds (c, n) = Inr (c', n') \<Longrightarrow>
     tasks c' = tasks c \<and> observations c' = observations c \<and> snapshots c' = snapshots c \<and>
     findings c' = findings c \<and> checkpoints c' = checkpoints c \<and> builds c' = builds c"
proof (induction ds arbitrary: c n)
  case (Cons d ds)
  from Cons.prems obtain c1 n1 where "commit_document b d (c, n) = Inr (c1, n1)"
    "res_fold (commit_document b) ds (c1, n1) = Inr (c', n')" by (auto elim: res_bind_InrE)
  then show ?case using Cons.IH [of c1 n1] commit_document_same [of b d c n c1 n1] by simp
qed auto

text \<open>The ids of a university that a build has seen, and the owner of every stored id.\<close>

definition seen_ids :: "string \<Rightarrow> string \<Rightarrow> catalog \<Rightarrow> string set" where
  "seen_ids b uid c =
     po_id ` {r \<in> set (observations c). po_university r = uid \<and> po_active r \<and> po_last_seen r = b}"

definition owned :: "string \<Rightarrow> string set \<Rightarrow> catalog \<Rightarrow> bool" where
  "owned uid ids c = (\<forall>r \<in> set (observations c). po_id r \<in> ids \<longrightarrow> po_university r = uid)"

lemma image_filter_image: "g ` {y \<in> f ` A. P y} = (\<lambda>x. g (f x)) ` {x \<in> A. P (f x)}"
  by auto

lemma filter_snoc_set: "P x \<Longrightarrow> {r \<in> set (xs @ [x]). P r} = insert x {r \<in> set xs. P r}"
  by auto

lemma observation_table: "observations (c\<lparr>observations := rows\<rparr>) = rows"
  by simp

lemma commit_observation_law:
  assumes run: "commit_observation b ob (c, m, n) = Inr (c', m', n')"
    and uid: "ob_university ob = uid" and own: "owned uid ids c" and mem: "ob_id ob \<in> ids"
  shows "seen_ids b uid c' = insert (ob_id ob) (seen_ids b uid c)" and "owned uid ids c'"
proof -
  have seen: "seen_ids b uid (c\<lparr>observations := update_where (\<lambda>r. po_id r = ob_id ob) (seen_again b) (observations c)\<rparr>) =
        insert (ob_id ob) (seen_ids b uid c)" if old: "ob_id ob \<in> po_id ` set (observations c)"
  proof -
    let ?f = "\<lambda>r. if po_id r = ob_id ob then seen_again b r else r"
    let ?S = "\<lambda>r. po_university r = uid \<and> po_active r \<and> po_last_seen r = b"
    have id: "po_id (?f r) = po_id r" for r by (simp add: seen_again_def)
    have uni: "po_university r = uid" if "r \<in> set (observations c)" "po_id r = ob_id ob" for r
      using own mem that by (auto simp: owned_def)
    have S: "?S (?f r) \<longleftrightarrow> po_id r = ob_id ob \<or> ?S r" if "r \<in> set (observations c)" for r
      using uni [OF that] by (auto simp: seen_again_def)
    have "seen_ids b uid (c\<lparr>observations := update_where (\<lambda>r. po_id r = ob_id ob) (seen_again b) (observations c)\<rparr>) =
          po_id ` {r \<in> set (observations c). ?S (?f r)}"
      unfolding seen_ids_def update_where_def using image_filter_image [of po_id ?f "set (observations c)" ?S]
      by (simp only: id set_map observation_table)
    also have "\<dots> = po_id ` {r \<in> set (observations c). po_id r = ob_id ob \<or> ?S r}"
      using S by blast
    also have "\<dots> = insert (ob_id ob) (seen_ids b uid c)" using old by (auto simp: seen_ids_def)
    finally show ?thesis .
  qed
  let ?old = "c\<lparr>observations := update_where (\<lambda>r. po_id r = ob_id ob) (seen_again b) (observations c)\<rparr>"
  let ?new = "c\<lparr>observations := observations c @ [new_observation b ob]\<rparr>"
  have cases: "ob_id ob \<in> po_id ` set (observations c) \<and> c' = ?old \<or> c' = ?new"
    using run unfolding commit_observation_def by (simp split: if_splits)
  have own_old: "owned uid ids ?old"
    using own by (auto simp: owned_def update_where_def seen_again_def)
  have own_new: "owned uid ids ?new" using own uid by (auto simp: owned_def new_observation_def)
  have "seen_ids b uid ?new = po_id ` insert (new_observation b ob)
      {r \<in> set (observations c). po_university r = uid \<and> po_active r \<and> po_last_seen r = b}"
    unfolding seen_ids_def observation_table by (subst filter_snoc_set) (simp_all add: new_observation_def uid)
  then have seen_new: "seen_ids b uid ?new = insert (ob_id ob) (seen_ids b uid c)"
    by (simp add: seen_ids_def new_observation_def)
  show "seen_ids b uid c' = insert (ob_id ob) (seen_ids b uid c)" using cases seen seen_new by blast
  show "owned uid ids c'" using cases own_old own_new by blast
qed

lemma commit_observation_same:
  "commit_observation b ob (c, m, n) = Inr (c', m', n') \<Longrightarrow>
     tasks c' = tasks c \<and> snapshots c' = snapshots c \<and> findings c' = findings c \<and>
     checkpoints c' = checkpoints c \<and> builds c' = builds c"
  by (auto simp: commit_observation_def split: if_splits)

lemma commit_observations_same:
  "res_fold (commit_observation b) obs (c, m, n) = Inr (c', m', n') \<Longrightarrow>
     tasks c' = tasks c \<and> snapshots c' = snapshots c \<and> findings c' = findings c \<and>
     checkpoints c' = checkpoints c \<and> builds c' = builds c"
proof (induction obs arbitrary: c m n)
  case (Cons ob obs)
  from Cons.prems obtain c1 m1 n1 where "commit_observation b ob (c, m, n) = Inr (c1, m1, n1)"
    "res_fold (commit_observation b) obs (c1, m1, n1) = Inr (c', m', n')" by (auto elim: res_bind_InrE)
  then show ?case using Cons.IH [of c1 m1 n1] commit_observation_same [of b ob c m n c1 m1 n1] by simp
qed auto

lemma commit_observations_law:
  assumes "res_fold (commit_observation b) obs (c, m, n) = Inr (c', m', n')" and "owned uid ids c"
    and "\<forall>ob \<in> set obs. ob_university ob = uid \<and> ob_id ob \<in> ids"
  shows "owned uid ids c' \<and> seen_ids b uid c' = seen_ids b uid c \<union> ob_id ` set obs"
  using assms
proof (induction obs arbitrary: c m n)
  case (Cons ob obs)
  from Cons.prems(1) obtain c1 m1 n1 where one: "commit_observation b ob (c, m, n) = Inr (c1, m1, n1)"
    and rest: "res_fold (commit_observation b) obs (c1, m1, n1) = Inr (c', m', n')" by (auto elim: res_bind_InrE)
  from Cons.prems(3)
  have "seen_ids b uid c1 = insert (ob_id ob) (seen_ids b uid c)" "owned uid ids c1"
    using commit_observation_law [OF one _ Cons.prems(2)] by auto
  with Cons.IH [OF rest] Cons.prems(3) show ?case by auto
qed auto

lemma count_batch_sel [simp]:
  "bt_build (count_batch p d f a n t) = bt_build t" "bt_university (count_batch p d f a n t) = bt_university t"
  "bt_rejected (count_batch p d f a n t) = bt_rejected t + length (bp_findings p)"
  "bt_rows_read (count_batch p d f a n t) = bt_rows_read t + bp_rows p"
  "bt_written (count_batch p d f a n t) = bt_written t + length (bp_observations p)"
  by (simp_all add: count_batch_def)

lemma commit_batch_law:
  assumes "commit_batch iv b uid p c = Inr (a, c')"
  shows "snapshots c' = snapshots c" and "qf_id ` set (findings c) \<subseteq> qf_id ` set (findings c')"
    and "resume_key b uid c' = bp_last p" and "builds c' = builds c"
    and "\<exists>d f a n. find_task b uid c' = map_option (count_batch p d f a n) (find_task b uid c)"
    and "owned uid ids c \<Longrightarrow> (\<forall>ob \<in> set (bp_observations p). ob_university ob = uid \<and> ob_id ob \<in> ids) \<Longrightarrow>
         owned uid ids c' \<and> seen_ids b uid c' = seen_ids b uid c \<union> ob_id ` set (bp_observations p)"
proof -
  from assms obtain c1 docs c2 fresh again c3 found where
      d: "res_fold (commit_document b) (bp_documents p) (c, 0) = Inr (c1, docs)"
    and ob: "res_fold (commit_observation b) (bp_observations p) (c1, 0, 0) = Inr (c2, fresh, again)"
    and f: "fold (add_finding b) (bp_findings p) (c2, 0) = (c3, found)"
    and c': "c' = update_task b uid (count_batch p docs fresh again found)
            (save_checkpoint b ''observations'' uid (nat_str (bp_last p)) (Some (batch_key iv b uid p))
               (length (bp_observations p)) c3)"
    unfolding commit_batch_def by (auto elim!: res_bind_InrE split: prod.splits)
  note same = commit_documents_same [OF d] commit_observations_same [OF ob] add_finding_fold [OF f]
  show "snapshots c' = snapshots c" "builds c' = builds c"
    "qf_id ` set (findings c) \<subseteq> qf_id ` set (findings c')" using same by (auto simp: c')
  show "resume_key b uid c' = bp_last p"
    by (simp add: c' resume_key_def last_key_def find_checkpoint_def)
       (simp add: last_key_save [unfolded last_key_def find_checkpoint_def] read_digits_nat_str)
  show "\<exists>d f a n. find_task b uid c' = map_option (count_batch p d f a n) (find_task b uid c)"
    using same by (auto simp: c' find_task_update) (auto simp: find_task_def)
  have "seen_ids b uid c1 = seen_ids b uid c" "owned uid ids c1 = owned uid ids c"
    "seen_ids b uid c' = seen_ids b uid c2" "owned uid ids c' = owned uid ids c2"
    using same by (simp_all add: seen_ids_def owned_def c')
  then show "owned uid ids c \<Longrightarrow> (\<forall>ob \<in> set (bp_observations p). ob_university ob = uid \<and> ob_id ob \<in> ids) \<Longrightarrow>
         owned uid ids c' \<and> seen_ids b uid c' = seen_ids b uid c \<union> ob_id ` set (bp_observations p)"
    using commit_observations_law [OF ob] by simp
qed

section \<open>A stopped ingest\<close>

definition commit_rows_state :: "ingest_io \<Rightarrow> string \<Rightarrow> task_row \<Rightarrow> legacy_row list \<Rightarrow> unit handler" where
  "commit_rows_state io b t rows =
     commit_batch (ig_env io) b (bt_university t) (prepare_batch (ig_env io) b (bt_university t) (snapshot_of t) rows)"

lemma commit_rows_Inr:
  "commit_rows io b t bs w = (Inr (), w') \<longleftrightarrow>
     (\<exists>c'. res_fold (\<lambda>rows. state_of (commit_rows_state io b t rows)) bs (cw_cat w) = Inr c' \<and>
           w' = w\<lparr>cw_cat := c'\<rparr>)"
  unfolding commit_rows_def commit_rows_state_def [symmetric] by (rule act_each_execute)

lemma commit_rows_step:
  assumes "state_of (commit_rows_state io b t rows) c = Inr c'"
  shows "snapshots c' = snapshots c" and "qf_id ` set (findings c) \<subseteq> qf_id ` set (findings c')"
    and "resume_key b (bt_university t) c' = lr_id (List.last rows)"
  using assms commit_batch_law(1-3) by (auto simp: state_of_Inr commit_rows_state_def prepare_batch_def Let_def)

lemma commit_rows_fold:
  assumes "res_fold (\<lambda>rows. state_of (commit_rows_state io b t rows)) bs c = Inr c'"
  shows "snapshots c' = snapshots c \<and> qf_id ` set (findings c) \<subseteq> qf_id ` set (findings c') \<and>
    resume_key b (bt_university t) c' =
      (if bs = [] then resume_key b (bt_university t) c else lr_id (List.last (List.last bs)))"
  using assms
proof (induction bs arbitrary: c)
  case (Cons rows bs)
  then obtain c1 where one: "state_of (commit_rows_state io b t rows) c = Inr c1"
    and rest: "res_fold (\<lambda>rows. state_of (commit_rows_state io b t rows)) bs c1 = Inr c'"
    by (auto elim: res_bind_InrE)
  from Cons.IH [OF rest] commit_rows_step [OF one] show ?case by auto
qed simp

lemma capability_again:
  assumes "record_capability_findings iv b t i c = Inr (n, c1)"
  shows "snapshots c1 = snapshots c"
    and "qf_id ` set (findings c1) \<subseteq> qf_id ` set (findings d) \<Longrightarrow> record_capability_findings iv b t i d = Inr (0, d)"
proof -
  let ?fs = "map (capability_finding iv b t) (capabilities i)"
  obtain c0 m where f: "fold (add_finding b) ?fs (c, 0) = (c0, m)" by fastforce
  then have c1: "findings c1 = findings c0" "snapshots c1 = snapshots c0"
    using assms by (auto simp: record_capability_findings_def)
  then show "snapshots c1 = snapshots c" using add_finding_fold [OF f] by simp
  assume "qf_id ` set (findings c1) \<subseteq> qf_id ` set (findings d)"
  then have "fr_id ` set ?fs \<subseteq> qf_id ` set (findings d)" using add_finding_fold [OF f] c1 by auto
  from add_finding_known [OF this] show "record_capability_findings iv b t i d = Inr (0, d)"
    by (simp add: record_capability_findings_def)
qed

lemma copy_rows_Inr:
  "copy_rows io b t db i key w = (Inr (), w') \<longleftrightarrow>
     0 < ig_batch io \<and> ig_stop io (bt_university t) = None \<and>
     commit_rows io b t (iter_legacy_batches (ig_batch io) key (legacy_rows (iv_topic (ig_env io)) db i)) w = (Inr (), w')"
  by (auto simp: copy_rows_def act_try_def act_raise_def Let_def act_seq_def act_bind_def
      split: option.splits prod.splits sum.splits)

lemma ingest_source_Inr:
  "ingest_source io b t w = (Inr (), w') \<longleftrightarrow>
     (\<exists>path db i n c1 w2 reasons c3.
        snapshot_path t (cw_cat w) = Inr path \<and> open_snapshot io t path = Inr (db, i) \<and>
        record_capability_findings (ig_env io) b t i (cw_cat w) = Inr (n, c1) \<and>
        copy_rows io b t db i (resume_key b (bt_university t) c1) (w\<lparr>cw_cat := c1\<rparr>) = (Inr (), w2) \<and>
        finalize_source (ig_env io) (ig_minimum io) b t i (cw_cat w2) = Inr (reasons, c3) \<and>
        w' = w2\<lparr>cw_cat := c3\<rparr>)"
  unfolding ingest_source_def
  by (auto simp: act_bind_Inr_iff act_seq_Inr_iff execute_Inr_iff query_iff act_return_def
      eq_commute [of "Inr _" "res_bind _ _"] res_bind_eq_Inr)

definition stopping :: "nat \<Rightarrow> ingest_io \<Rightarrow> ingest_io" where
  "stopping k io = io\<lparr>ig_stop := (\<lambda>_. Some k)\<rparr>"

lemma stopping_sel [simp]:
  "ig_env (stopping k io) = ig_env io" "ig_batch (stopping k io) = ig_batch io"
  "ig_minimum (stopping k io) = ig_minimum io" "ig_stop (stopping k io) = (\<lambda>_. Some k)"
  "ig_read (stopping k io) = ig_read io"
  by (simp_all add: stopping_def)

lemma stopping_reads [simp]:
  "open_snapshot (stopping k io) t path = open_snapshot io t path"
  "commit_rows_state (stopping k io) b t rows = commit_rows_state io b t rows"
  by (simp_all add: open_snapshot_def commit_rows_state_def split: option.split)

lemma stopped_ingest:
  assumes "snapshot_path t (cw_cat w) = Inr path" and "open_snapshot io t path = Inr (db, i)"
    and "record_capability_findings (ig_env io) b t i (cw_cat w) = Inr (n, c1)" and "0 < ig_batch io"
    and "res_fold (\<lambda>rows. state_of (commit_rows_state io b t rows))
           (take k (iter_legacy_batches (ig_batch io) (resume_key b (bt_university t) c1)
              (legacy_rows (iv_topic (ig_env io)) db i))) c1 = Inr ck"
  shows "ingest_source (stopping k io) b t w = (Inl group_error, w\<lparr>cw_cat := ck\<rparr>)"
proof -
  have "commit_rows (stopping k io) b t (take k (iter_legacy_batches (ig_batch io) (resume_key b (bt_university t) c1)
              (legacy_rows (iv_topic (ig_env io)) db i))) (w\<lparr>cw_cat := c1\<rparr>) = (Inr (), w\<lparr>cw_cat := ck\<rparr>)"
    unfolding commit_rows_Inr using assms(5) by simp
  then show ?thesis using assms(1-4)
    by (simp add: ingest_source_def act_bind_def query_def act_seq_def execute_def copy_rows_def act_try_def act_raise_def Let_def)
qed

text \<open>
  C18: An ingest of a source that is stopped after any number of committed batches, by its reader or the memory
  limit, ends with an error; when it is run again it reads on after the last committed row, and the
  catalog it leaves is the one an ingest that was never stopped would have left.
\<close>

theorem interrupted_ingest_resumes:
  assumes whole: "ingest_source io b t w = (Inr (), w')"
  shows "fst (ingest_source (stopping k io) b t w) = Inl group_error \<and>
         ingest_source io b t (snd (ingest_source (stopping k io) b t w)) = (Inr (), w')"
proof -
  from whole obtain path db i n c1 w2 reasons c3 where path: "snapshot_path t (cw_cat w) = Inr path"
    and opened: "open_snapshot io t path = Inr (db, i)"
    and caps: "record_capability_findings (ig_env io) b t i (cw_cat w) = Inr (n, c1)"
    and copy: "copy_rows io b t db i (resume_key b (bt_university t) c1) (w\<lparr>cw_cat := c1\<rparr>) = (Inr (), w2)"
    and fin: "finalize_source (ig_env io) (ig_minimum io) b t i (cw_cat w2) = Inr (reasons, c3)"
    and w': "w' = w2\<lparr>cw_cat := c3\<rparr>" unfolding ingest_source_Inr by blast
  let ?f = "\<lambda>rows. state_of (commit_rows_state io b t rows)"
  let ?key = "resume_key b (bt_university t) c1" and ?rows = "legacy_rows (iv_topic (ig_env io)) db i"
  let ?bs = "iter_legacy_batches (ig_batch io) ?key ?rows"
  from copy obtain c2 where "0 < ig_batch io" "ig_stop io (bt_university t) = None"
    and all: "res_fold ?f ?bs c1 = Inr c2" and w2: "w2 = w\<lparr>cw_cat := c2\<rparr>"
    unfolding copy_rows_Inr commit_rows_Inr by auto
  from all have "res_bind (res_fold ?f (take k ?bs) c1) (res_fold ?f (drop k ?bs)) = Inr c2"
    using res_fold_append [of ?f "take k ?bs" "drop k ?bs" c1] by simp
  then obtain ck where ck: "res_fold ?f (take k ?bs) c1 = Inr ck" and rest: "res_fold ?f (drop k ?bs) ck = Inr c2"
    by (rule res_bind_InrE)
  note stop = stopped_ingest [OF path opened caps \<open>0 < ig_batch io\<close> ck]
  note facts = commit_rows_fold [OF ck]
  have snap: "snapshot_path t ck = Inr path" using path facts capability_again(1) [OF caps]
    by (simp add: snapshot_path_def)
  have again: "record_capability_findings (ig_env io) b t i ck = Inr (0, ck)"
    using capability_again(2) [OF caps] facts by blast
  have left: "iter_legacy_batches (ig_batch io) (resume_key b (bt_university t) ck) ?rows = drop k ?bs"
  proof (cases "take k ?bs = []")
    case True
    then show ?thesis using facts by auto
  next
    case False
    then show ?thesis using facts pages_resume [OF False [unfolded iter_legacy_batches_def]] by (simp add: iter_legacy_batches_def)
  qed
  have "copy_rows io b t db i (resume_key b (bt_university t) ck) (w\<lparr>cw_cat := ck\<rparr>) = (Inr (), w2)"
    unfolding copy_rows_Inr commit_rows_Inr left
    using rest \<open>0 < ig_batch io\<close> \<open>ig_stop io (bt_university t) = None\<close> by (simp add: w2)
  then have "ingest_source io b t (w\<lparr>cw_cat := ck\<rparr>) = (Inr (), w')"
    unfolding ingest_source_Inr using snap opened again fin w' by (intro exI [of _ path] exI [of _ db]) auto
  then show ?thesis by (simp add: stop)
qed

section \<open>What an ingest leaves active\<close>

definition active_ids :: "string \<Rightarrow> catalog \<Rightarrow> string set" where
  "active_ids uid c = po_id ` {r \<in> set (observations c). po_university r = uid \<and> po_active r}"

definition snapshot_ids :: "ingest_env \<Rightarrow> string \<Rightarrow> string \<Rightarrow> legacy_row list \<Rightarrow> string set" where
  "snapshot_ids iv uid sid rows = {ob_id ob | row d ob. row \<in> set rows \<and> prepare_row iv uid sid row = Inr (d, ob)}"

lemma mem_map_filter: "y \<in> set (List.map_filter f xs) \<longleftrightarrow> (\<exists>x \<in> set xs. f x = Some y)"
  by (auto simp: map_filter_def image_iff)

lemma prepared_some:
  "(case r of Inl e \<Rightarrow> None | Inr (d, ob') \<Rightarrow> Some ob') = Some ob \<longleftrightarrow> (\<exists>d. r = Inr (d, ob))"
  by (cases r) auto

lemma prepared_observations:
  "ob_id ` set (bp_observations (prepare_batch iv b uid sid rows)) = snapshot_ids iv uid sid rows"
proof -
  have "ob \<in> set (bp_observations (prepare_batch iv b uid sid rows)) \<longleftrightarrow>
        (\<exists>row d. row \<in> set rows \<and> prepare_row iv uid sid row = Inr (d, ob))" for ob
    by (simp add: prepare_batch_def Let_def mem_map_filter prepared_some) blast
  then show ?thesis by (fastforce simp: snapshot_ids_def)
qed

lemma prepared_university:
  "ob \<in> set (bp_observations (prepare_batch iv b uid sid rows)) \<Longrightarrow> ob_university ob = uid"
  by (auto simp: prepare_batch_def Let_def map_filter_def prepare_row_def split: sum.splits option.splits if_splits)

lemma prepared_all:
  "bp_findings (prepare_batch iv b uid sid rows) = [] \<Longrightarrow> row \<in> set rows \<Longrightarrow> \<exists>d ob. prepare_row iv uid sid row = Inr (d, ob)"
  by (cases "prepare_row iv uid sid row") (auto simp: prepare_batch_def Let_def map_filter_def filter_empty_conv split: sum.splits)

lemma commit_rows_seen:
  assumes "res_fold (\<lambda>rows. state_of (commit_rows_state io b t rows)) bs c = Inr c'"
    and "owned (bt_university t) ids c"
    and "\<forall>rows \<in> set bs. snapshot_ids (ig_env io) (bt_university t) (snapshot_of t) rows \<subseteq> ids"
  shows "seen_ids b (bt_university t) c' = seen_ids b (bt_university t) c \<union>
           (\<Union>rows \<in> set bs. snapshot_ids (ig_env io) (bt_university t) (snapshot_of t) rows)"
  using assms
proof (induction bs arbitrary: c)
  case (Cons rows bs)
  let ?p = "prepare_batch (ig_env io) b (bt_university t) (snapshot_of t) rows"
  from Cons.prems(1) obtain c1 where "commit_batch (ig_env io) b (bt_university t) ?p c = Inr ((), c1)"
    and rest: "res_fold (\<lambda>rows. state_of (commit_rows_state io b t rows)) bs c1 = Inr c'"
    by (auto simp: state_of_Inr commit_rows_state_def elim: res_bind_InrE)
  moreover have "\<forall>ob \<in> set (bp_observations ?p). ob_university ob = bt_university t \<and> ob_id ob \<in> ids"
    using Cons.prems(3) prepared_university prepared_observations [of "ig_env io" b "bt_university t" "snapshot_of t" rows]
    by fastforce
  ultimately have "owned (bt_university t) ids c1" "seen_ids b (bt_university t) c1 =
      seen_ids b (bt_university t) c \<union> snapshot_ids (ig_env io) (bt_university t) (snapshot_of t) rows"
    using commit_batch_law(6) [OF _ Cons.prems(2)] by (simp_all add: prepared_observations)
  then show ?case using Cons.IH [OF rest] Cons.prems(3) by auto
qed simp

lemma commit_rows_rejected:
  assumes "res_fold (\<lambda>rows. state_of (commit_rows_state io b t rows)) bs c = Inr c'"
    and "find_task b (bt_university t) c' = Some t'" and "bt_rejected t' = 0" and "rows \<in> set bs"
  shows "bp_findings (prepare_batch (ig_env io) b (bt_university t) (snapshot_of t) rows) = []"
proof -
  have "(\<exists>t1. find_task b (bt_university t) c = Some t1 \<and> bt_rejected t1 = 0) \<and>
        (\<forall>rows \<in> set bs. bp_findings (prepare_batch (ig_env io) b (bt_university t) (snapshot_of t) rows) = [])"
    using assms(1)
  proof (induction bs arbitrary: c)
    case Nil
    then show ?case using assms(2,3) by auto
  next
    case (Cons rows bs)
    from Cons.prems obtain c1
      where one: "commit_batch (ig_env io) b (bt_university t)
          (prepare_batch (ig_env io) b (bt_university t) (snapshot_of t) rows) c = Inr ((), c1)"
      and rest: "res_fold (\<lambda>rows. state_of (commit_rows_state io b t rows)) bs c1 = Inr c'"
      by (auto simp: state_of_Inr commit_rows_state_def elim: res_bind_InrE)
    from commit_batch_law(5) [OF one] obtain d f a n where t: "find_task b (bt_university t) c1 =
        map_option (count_batch (prepare_batch (ig_env io) b (bt_university t) (snapshot_of t) rows) d f a n)
          (find_task b (bt_university t) c)" by blast
    from Cons.IH [OF rest] show ?case unfolding t by (cases "find_task b (bt_university t) c") auto
  qed
  with assms(4) show ?thesis by blast
qed

lemma finalize_cases:
  assumes "finalize_source iv minimum b t i c = Inr (reasons, c')"
  obtains cur where "find_task b (bt_university t) c = Some cur"
    and "reasons = deactivation_reasons minimum cur (previous_trusted b (bt_university t) c) i"
    and "map_option bt_eligible (find_task b (bt_university t) c') = Some (reasons = [])"
    and "reasons = [] \<Longrightarrow> observations c' =
           observations (deactivate_unseen b (bt_university t) (mark_shared_pages (bt_university t) c))"
    and "reasons \<noteq> [] \<Longrightarrow> observations c' = observations (mark_shared_pages (bt_university t) c) \<and>
           finding_id (iv_cat iv) b ''source_deactivation_blocked'' (snapshot_of t @ '':deactivation'') \<in> qf_id ` set (findings c')"
proof -
  from assms obtain cur where cur: "find_task b (bt_university t) c = Some cur"
    by (auto simp: finalize_source_def split: option.splits)
  let ?why = "deactivation_reasons minimum cur (previous_trusted b (bt_university t) c) i"
  let ?uid = "bt_university t"
  have keep: "bt_build (complete_task e k n x) = bt_build x \<and> bt_university (complete_task e k n x) = bt_university x"
    for e k n x by (simp add: complete_task_def)
  have task: "find_task b ?uid (deactivate_unseen b ?uid (mark_shared_pages ?uid c)) = Some cur"
    "find_task b ?uid (mark_shared_pages ?uid c) = Some cur"
    using cur by (simp_all add: find_task_def deactivate_unseen_def mark_shared_pages_def)
  show thesis
  proof (cases "?why = []")
    case True
    then show thesis using assms cur task
      by (intro that) (auto simp: finalize_source_def Let_def find_task_update [OF keep] complete_task_def)
  next
    case False
    obtain c2 n where f: "add_finding b (blocked_finding iv minimum b t (previous_trusted b ?uid c) i ?why)
        (mark_shared_pages ?uid c, 0) = (c2, n)" by fastforce
    then have c': "c' = update_task b ?uid (complete_task False 0 n) c2" "reasons = ?why"
      using assms cur False by (auto simp: finalize_source_def Let_def)
    have "find_task b ?uid c2 = Some cur" using add_finding_step [OF f] task(2) by (simp add: find_task_def)
    then have "map_option bt_eligible (find_task b ?uid c') = Some False"
      by (simp add: c'(1) find_task_update [OF keep] complete_task_def)
    then show thesis using that [OF cur] c' False add_finding_step [OF f]
      by (simp add: blocked_finding_def)
  qed
qed

lemma kind_if:
  "po_id (if P then r\<lparr>po_page_kind := k\<rparr> else r) = po_id r"
  "po_university (if P then r\<lparr>po_page_kind := k\<rparr> else r) = po_university r"
  "po_active (if P then r\<lparr>po_page_kind := k\<rparr> else r) = po_active r"
  "po_last_seen (if P then r\<lparr>po_page_kind := k\<rparr> else r) = po_last_seen r"
  by simp_all

lemma inactive_if:
  "po_id (if P then r\<lparr>po_active := False\<rparr> else r) = po_id r"
  "po_university (if P then r\<lparr>po_active := False\<rparr> else r) = po_university r"
  "po_active (if P then r\<lparr>po_active := False\<rparr> else r) = (\<not> P \<and> po_active r)"
  by simp_all

lemma active_mark: "active_ids uid (mark_shared_pages uid' c) = active_ids uid c"
  "seen_ids b uid (mark_shared_pages uid' c) = seen_ids b uid c"
  unfolding active_ids_def seen_ids_def mark_shared_pages_def observation_table update_where_def set_map image_filter_image
    kind_if by (rule refl)+

lemma active_deactivate: "active_ids uid (deactivate_unseen b uid c) = seen_ids b uid c"
  unfolding active_ids_def seen_ids_def deactivate_unseen_def observation_table update_where_def set_map image_filter_image
    inactive_if unseen_def by (rule arg_cong [of _ _ "image po_id"]) blast

lemma capability_keeps:
  assumes "record_capability_findings iv b t i c = Inr (n, c1)"
  shows "observations c1 = observations c" and "checkpoints c1 = checkpoints c"
proof -
  obtain c0 m where f: "fold (add_finding b) (map (capability_finding iv b t) (capabilities i)) (c, 0) = (c0, m)"
    by fastforce
  then show "observations c1 = observations c" "checkpoints c1 = checkpoints c"
    using assms add_finding_fold [OF f] by (auto simp: record_capability_findings_def)
qed

text \<open>
  C19: When the ingest of a source ends with the permission to deactivate, the active observations of the
  university are exactly those of the rows of its snapshot: every row was imported, nothing else stayed active.
\<close>

theorem eligible_ingest_mirrors_source:
  assumes run: "ingest_source io b t w = (Inr (), w')"
    and path: "snapshot_path t (cw_cat w) = Inr path" and opened: "open_snapshot io t path = Inr (db, i)"
    and rows: "rows = legacy_rows (iv_topic (ig_env io)) db i" "distinct (map lr_id rows)" "\<forall>r \<in> set rows. 0 < lr_id r"
    and fresh: "resume_key b (bt_university t) (cw_cat w) = 0" "seen_ids b (bt_university t) (cw_cat w) = {}"
    and own: "owned (bt_university t) (snapshot_ids (ig_env io) (bt_university t) (snapshot_of t) rows) (cw_cat w)"
    and trusted: "map_option bt_eligible (find_task b (bt_university t) (cw_cat w')) = Some True"
  shows "active_ids (bt_university t) (cw_cat w') = snapshot_ids (ig_env io) (bt_university t) (snapshot_of t) rows \<and>
         (\<forall>row \<in> set rows. \<exists>d ob. prepare_row (ig_env io) (bt_university t) (snapshot_of t) row = Inr (d, ob)) \<and>
         in_crawl i = ''completed'' \<and> deactivation_state_is_complete i"
proof -
  let ?uid = "bt_university t" and ?ids = "snapshot_ids (ig_env io) (bt_university t) (snapshot_of t)"
  from run path opened obtain n c1 w2 reasons c3
    where caps: "record_capability_findings (ig_env io) b t i (cw_cat w) = Inr (n, c1)"
      and copy: "copy_rows io b t db i (resume_key b ?uid c1) (w\<lparr>cw_cat := c1\<rparr>) = (Inr (), w2)"
      and fin: "finalize_source (ig_env io) (ig_minimum io) b t i (cw_cat w2) = Inr (reasons, c3)"
      and w': "w' = w2\<lparr>cw_cat := c3\<rparr>" unfolding ingest_source_Inr by force
  note keep = capability_keeps [OF caps]
  have key: "resume_key b ?uid c1 = 0" and seen: "seen_ids b ?uid c1 = {}" and own1: "owned ?uid (?ids rows) c1"
    using fresh own keep by (simp_all add: resume_key_def last_key_def find_checkpoint_def seen_ids_def owned_def)
  let ?bs = "iter_legacy_batches (ig_batch io) 0 rows"
  from copy obtain c2 where "0 < ig_batch io"
    and all: "res_fold (\<lambda>rows. state_of (commit_rows_state io b t rows)) ?bs c1 = Inr c2" and w2: "cw_cat w2 = c2"
    unfolding copy_rows_Inr commit_rows_Inr key rows(1) by auto
  have order: "sorted_wrt (<) (map lr_id rows)" using rows(2) legacy_rows_strict by (simp add: rows(1))
  have "List.concat ?bs = rows"
    using concat_pages [OF order \<open>0 < ig_batch io\<close>, of 0] rows(3) by (simp add: iter_legacy_batches_def filter_id_conv)
  then have set_rows: "set rows = (\<Union>page \<in> set ?bs. set page)" by (metis set_concat)
  then have parts: "(\<Union>page \<in> set ?bs. ?ids page) = ?ids rows" by (auto simp: snapshot_ids_def)
  have seen2: "seen_ids b ?uid c2 = ?ids rows"
    using commit_rows_seen [OF all own1] parts seen by auto
  obtain cur where cur: "find_task b ?uid c2 = Some cur"
      and why: "reasons = deactivation_reasons (ig_minimum io) cur (previous_trusted b ?uid c2) i"
      and flag: "map_option bt_eligible (find_task b ?uid c3) = Some (reasons = [])"
      and obs: "reasons = [] \<Longrightarrow> observations c3 = observations (deactivate_unseen b ?uid (mark_shared_pages ?uid c2))"
    by (rule finalize_cases [OF fin]) (simp_all add: w2)
  from flag trusted have ok: "reasons = []" by (auto simp: w')
  then have zero: "bt_rejected cur = 0" "in_crawl i = ''completed''" "deactivation_state_is_complete i"
    using why by (auto simp: deactivation_reasons_def split: if_splits)
  have "active_ids ?uid (cw_cat w') = ?ids rows"
    using obs [OF ok] active_deactivate [of ?uid b "mark_shared_pages ?uid c2"] active_mark(2) [of b ?uid ?uid c2] seen2
    by (simp add: w' active_ids_def)
  moreover have "\<exists>d ob. prepare_row (ig_env io) ?uid (snapshot_of t) row = Inr (d, ob)" if "row \<in> set rows" for row
    using that commit_rows_rejected [OF all cur zero(1)] prepared_all unfolding set_rows by blast
  ultimately show ?thesis using zero by blast
qed

lemma seen_again_sel:
  "po_id (if P then seen_again b r else r) = po_id r"
  "po_university (if P then seen_again b r else r) = po_university r"
  "po_active (if P then seen_again b r else r) = (P \<or> po_active r)"
  by (simp_all add: seen_again_def)

lemma commit_observation_active:
  assumes "commit_observation b ob (c, m, n) = Inr (c', m', n')"
  shows "active_ids uid c \<subseteq> active_ids uid c'"
proof -
  have "active_ids uid c \<subseteq> active_ids uid (c\<lparr>observations := update_where P (seen_again b) (observations c)\<rparr>)" for P
    unfolding active_ids_def observation_table update_where_def set_map image_filter_image seen_again_sel by blast
  moreover have "active_ids uid c \<subseteq> active_ids uid (c\<lparr>observations := observations c @ [r]\<rparr>)" for r
    unfolding active_ids_def observation_table by auto
  ultimately show ?thesis using assms unfolding commit_observation_def by (simp split: if_splits) blast+
qed

lemma commit_observations_active:
  "res_fold (commit_observation b) obs (c, m, n) = Inr (c', m', n') \<Longrightarrow> active_ids uid c \<subseteq> active_ids uid c'"
proof (induction obs arbitrary: c m n)
  case (Cons ob obs)
  from Cons.prems obtain c1 m1 n1 where "commit_observation b ob (c, m, n) = Inr (c1, m1, n1)"
    "res_fold (commit_observation b) obs (c1, m1, n1) = Inr (c', m', n')" by (auto elim: res_bind_InrE)
  then show ?case using Cons.IH [of c1 m1 n1] commit_observation_active [of b ob c m n c1 m1 n1 uid] by blast
qed auto

lemma active_ids_table: "observations c' = observations c \<Longrightarrow> active_ids uid c' = active_ids uid c"
  by (simp add: active_ids_def)

lemma commit_batch_active:
  assumes "commit_batch iv b uid' p c = Inr (a, c')"
  shows "active_ids uid c \<subseteq> active_ids uid c'"
proof -
  from assms obtain c1 docs c2 fresh again c3 found where
      d: "res_fold (commit_document b) (bp_documents p) (c, 0) = Inr (c1, docs)"
    and ob: "res_fold (commit_observation b) (bp_observations p) (c1, 0, 0) = Inr (c2, fresh, again)"
    and f: "fold (add_finding b) (bp_findings p) (c2, 0) = (c3, found)"
    and c': "observations c' = observations c3"
    unfolding commit_batch_def by (auto elim!: res_bind_InrE split: prod.splits)
  have "active_ids uid c1 = active_ids uid c" "active_ids uid c' = active_ids uid c2"
    using commit_documents_same [OF d] add_finding_fold [OF f] c' by (auto intro!: active_ids_table)
  then show ?thesis using commit_observations_active [OF ob, of uid] by simp
qed

lemma commit_rows_active:
  "res_fold (\<lambda>rows. state_of (commit_rows_state io b t rows)) bs c = Inr c' \<Longrightarrow> active_ids uid c \<subseteq> active_ids uid c'"
proof (induction bs arbitrary: c)
  case (Cons rows bs)
  then obtain c1 where "state_of (commit_rows_state io b t rows) c = Inr c1"
    "res_fold (\<lambda>rows. state_of (commit_rows_state io b t rows)) bs c1 = Inr c'" by (auto elim: res_bind_InrE)
  then show ?case using Cons.IH [of c1] commit_batch_active [of _ b _ _ c _ c1 uid]
    by (fastforce simp: state_of_Inr commit_rows_state_def)
qed simp


section \<open>A small source\<close>

definition demo_ingest_env :: ingest_env where
  "demo_ingest_env =
     \<lparr>iv_cat = \<lparr>ce_sha256 = (\<lambda>s. s), ce_json = (\<lambda>_. ''{}'')\<rparr>,
      iv_topic = \<lparr>te_nfkc = (\<lambda>s. s), te_fold = (\<lambda>s. s), te_punct = (\<lambda>_. False), te_uuid = (\<lambda>_. None),
                  te_uuid5 = (\<lambda>s. s), te_str = (\<lambda>_. [])\<rparr>,
      iv_time = (\<lambda>s. Some s)\<rparr>"

definition demo_crawl_db :: "string \<Rightarrow> source_db" where
  "demo_crawl_db status =
     \<lparr>db_columns = [(''university_meta'', [''name'', ''crawl_status'']), (''professors'', [''id'', ''name'']),
                    (''crawl_graph_nodes'', [''status'']), (''org_units'', [''id'', ''name'', ''status''])],
      db_rows = [(''university_meta'', [[(''name'', JStr ''U''), (''crawl_status'', JStr status)]]),
                 (''professors'', [[(''id'', JInt 1), (''name'', JStr ''A'')], [(''id'', JInt 2), (''name'', JStr ''B'')]])]\<rparr>"

definition demo_io :: "string \<Rightarrow> ingest_io" where
  "demo_io status =
     \<lparr>ig_env = demo_ingest_env, ig_batch = 1, ig_minimum = 1 / 2, ig_read = (\<lambda>_. Some (Inr (demo_crawl_db status))),
      ig_copy = (\<lambda>_. Inl group_error), ig_stop = (\<lambda>_. None), ig_rss = Inr 0\<rparr>"

definition demo_ingest_task :: task_row where
  "demo_ingest_task =
     (new_task ''b'' \<lparr>bs_university = ''u'', bs_name = ''U'', bs_abbr = ''u'', bs_path = ''p'', bs_ordinal = 0\<rparr>)
       \<lparr>bt_status := T_ingesting, bt_snapshot := Some ''s''\<rparr>"

definition demo_ingest_world :: "unit cat_world" where
  "demo_ingest_world =
     \<lparr>cw_cat = new_catalog\<lparr>builds := [new_build [] ''t'' ''b''], tasks := [demo_ingest_task],
        snapshots := [\<lparr>ss_id = ''s'', ss_university = ''u'', ss_source_path = ''p'', ss_path = ''f'', ss_hash = ''h'',
                       ss_schema = 1, ss_counts = []\<rparr>],
        observations := [(demo_observation ''old'' ''a'')\<lparr>po_university := ''u'', po_last_seen := ''a'', po_active := True\<rparr>]\<rparr>,
      cw_ext = ()\<rparr>"

lemma demo_ingest_runs:
  "fst (ingest_source (demo_io ''completed'') ''b'' demo_ingest_task demo_ingest_world) = Inr ()"
  "fst (ingest_source (demo_io ''running'') ''b'' demo_ingest_task demo_ingest_world) = Inr ()"
  by code_simp+

text \<open>A completed crawl of two professors, read in two batches and stopped after the first.\<close>

theorem interrupted_ingest_resumes_witness:
  "ingest_source (demo_io ''completed'') ''b'' demo_ingest_task
     (snd (ingest_source (stopping 1 (demo_io ''completed'')) ''b'' demo_ingest_task demo_ingest_world)) =
   ingest_source (demo_io ''completed'') ''b'' demo_ingest_task demo_ingest_world"
proof -
  obtain w' where "ingest_source (demo_io ''completed'') ''b'' demo_ingest_task demo_ingest_world = (Inr (), w')"
    using demo_ingest_runs(1) by (metis prod.collapse)
  from interrupted_ingest_resumes [OF this, of 1] this show ?thesis by simp
qed

theorem eligible_ingest_mirrors_source_witness:
  "active_ids ''u'' (cw_cat (snd (ingest_source (demo_io ''completed'') ''b'' demo_ingest_task demo_ingest_world))) =
     snapshot_ids demo_ingest_env ''u'' ''s''
       (legacy_rows (iv_topic demo_ingest_env) (demo_crawl_db ''completed'')
          (projr (inspect_snapshot (iv_topic demo_ingest_env) (demo_crawl_db ''completed''))))"
proof -
  let ?i = "projr (inspect_snapshot (iv_topic demo_ingest_env) (demo_crawl_db ''completed''))"
  let ?rows = "legacy_rows (iv_topic demo_ingest_env) (demo_crawl_db ''completed'') ?i"
  let ?w' = "snd (ingest_source (demo_io ''completed'') ''b'' demo_ingest_task demo_ingest_world)"
  have run: "ingest_source (demo_io ''completed'') ''b'' demo_ingest_task demo_ingest_world = (Inr (), ?w')"
    using demo_ingest_runs(1) by (metis prod.collapse)
  have path: "snapshot_path demo_ingest_task (cw_cat demo_ingest_world) = Inr ''f''" by code_simp
  have opened: "open_snapshot (demo_io ''completed'') demo_ingest_task ''f'' = Inr (demo_crawl_db ''completed'', ?i)"
    by code_simp
  have env: "ig_env (demo_io ''completed'') = demo_ingest_env" by (simp add: demo_io_def)
  have uid: "bt_university demo_ingest_task = ''u''" "snapshot_of demo_ingest_task = ''s''" by code_simp+
  have rows: "distinct (map lr_id ?rows)" "\<forall>r \<in> set ?rows. 0 < lr_id r" by code_simp+
  have fresh: "resume_key ''b'' ''u'' (cw_cat demo_ingest_world) = 0" "seen_ids ''b'' ''u'' (cw_cat demo_ingest_world) = {}"
    by code_simp+
  have own: "owned ''u'' ids (cw_cat demo_ingest_world)" for ids
    by (simp add: owned_def demo_ingest_world_def demo_observation_def)
  have flag: "map_option bt_eligible (find_task ''b'' ''u'' (cw_cat ?w')) = Some True" by code_simp
  show ?thesis
    using eligible_ingest_mirrors_source [OF run path opened _ rows, unfolded uid env, OF refl fresh own flag] by blast
qed


text \<open>
  The pages are marked before the observations of earlier builds are deactivated: a professor whose name changed
  on an unchanged page counts twice, and the page of one professor is marked as shared.
\<close>

definition renamed_professor :: catalog where
  "renamed_professor =
     new_catalog\<lparr>observations :=
       [(demo_observation ''old'' ''A'')\<lparr>po_document := Some ''d'', po_last_seen := ''a''\<rparr>,
        (demo_observation ''new'' ''B'')\<lparr>po_document := Some ''d''\<rparr>]\<rparr>"

lemma renamed_professor_shares_page:
  "map (\<lambda>r. (po_id r, po_active r, po_page_kind r))
     (observations (deactivate_unseen ''b'' ''u'' (mark_shared_pages ''u'' renamed_professor))) =
   [(''old'', False, ''multi_profile''), (''new'', True, ''multi_profile'')]"
  by code_simp

end
