(* ===== verification/Dext_Rules.thy ===== *)
theory Dext_Rules
  imports Dext_Ingest
begin

text \<open>
  The rules of curation (\<open>normalization.py\<close>, \<open>rules.py\<close>, \<open>rules/curation\_v1.yaml\<close>): how values are
  normalized, which title family and role a professor is put into and whether supervision is confirmed.
  The rules file is the value that the YAML loader gives for it.
\<close>

section \<open>Normalization (normalization.py)\<close>

definition email_ok :: "string \<Rightarrow> bool" where
  "email_ok s =
     (case split_on (CHR ''@'') s of
        [user, domain] \<Rightarrow> user \<noteq> [] \<and> \<not> has_space s \<and> CHR ''.'' \<in> set (butlast (tl domain))
      | _ \<Rightarrow> False)"

definition normalize_email :: "topic_env \<Rightarrow> string list \<Rightarrow> string option \<Rightarrow> string option" where
  "normalize_email te empties value =
     (case normalize_text te empties value of
        None \<Rightarrow> None
      | Some s \<Rightarrow>
          if email_ok s
          then Some (hd (split_on (CHR ''@'') s) @ ''@'' @ te_fold te (split_on (CHR ''@'') s ! 1))
          else None)"

text \<open>The separators of a multi-valued field; empty parts are dropped, so a run of separators counts as one.\<close>

definition separators :: "string list" where
  "separators = [[CHR 0xEF, CHR 0xBC, CHR 0x9B], '';'', [CHR 0xE3, CHR 0x80, CHR 0x81], [CHR 0x0A]]"

function split_tokens :: "string list \<Rightarrow> string \<Rightarrow> string \<Rightarrow> string list" where
  "split_tokens toks acc [] = [rev acc]"
| "split_tokens toks acc (c # cs) =
     (case find (\<lambda>t. t \<noteq> [] \<and> startswith (c # cs) t) toks of
        None \<Rightarrow> split_tokens toks (c # acc) cs
      | Some t \<Rightarrow> rev acc # split_tokens toks [] (drop (length t) (c # cs)))"
  by pat_completeness auto
termination
proof (relation "measure (\<lambda>(toks, acc, s). length s)")
  fix toks :: "string list" and c cs t
  assume "find (\<lambda>t. t \<noteq> [] \<and> startswith (c # cs) t) toks = Some t"
  then have "t \<noteq> []" by (auto simp: find_Some_iff)
  then show "((toks, [], drop (length t) (c # cs)), (toks, acc, c # cs)) \<in> measure (\<lambda>(toks, acc, s). length s)" for acc
    by (cases t) auto
qed auto

definition split_multivalue :: "topic_env \<Rightarrow> string list \<Rightarrow> string option \<Rightarrow> string list" where
  "split_multivalue te empties value =
     (case normalize_text te empties value of
        None \<Rightarrow> []
      | Some s \<Rightarrow>
          keep_first (te_fold te)
            (List.map_filter (\<lambda>p. normalize_text te empties (Some p)) (split_tokens separators [] s)) [])"

section \<open>The rules file (rules.py)\<close>

record curation_rules =
  ru_version :: string
  ru_normalization :: string
  ru_empty :: "string list"
  ru_families :: "(string, string list) dict"
  ru_excluded :: "string list"
  ru_master_positive :: "string list"
  ru_master_negative :: "string list"
  ru_phd_positive :: "string list"
  ru_phd_negative :: "string list"
  ru_hash :: string

definition rules_id_of :: "curation_rules \<Rightarrow> rules_id" where
  "rules_id_of ru = \<lparr>cq_version = ru_version ru, cq_normalization = ru_normalization ru, cq_hash = ru_hash ru\<rparr>"

definition iter_json :: "json \<Rightarrow> (catalog_error, json list) result" where
  "iter_json v =
     (case v of JList vs \<Rightarrow> Inr vs | JDict d \<Rightarrow> Inr (map (\<lambda>(k, x). JStr k) d)
      | JStr s \<Rightarrow> Inr (map JStr (code_points s)) | _ \<Rightarrow> Inl Type_error_cat)"

definition strings_of :: "topic_env \<Rightarrow> json \<Rightarrow> (catalog_error, string list) result" where
  "strings_of te v = res_bind (iter_json v) (\<lambda>vs. Inr (map (json_str te) vs))"

definition families_of :: "topic_env \<Rightarrow> json \<Rightarrow> (catalog_error, (string, string list) dict) result" where
  "families_of te v =
     (case v of
        JDict d \<Rightarrow> res_fold (\<lambda>(k, x) fs. res_bind (strings_of te x) (\<lambda>ss. Inr (dict_set k ss fs))) d []
      | _ \<Rightarrow> Inl Type_error_cat)"

definition required_rules :: "string list" where
  "required_rules =
     [''version'', ''normalization_version'', ''empty_values'', ''title_families'', ''excluded_context_terms'',
      ''master_positive'', ''master_negative'', ''phd_positive'', ''phd_negative'']"

definition load_curation_rules :: "catalog_env \<Rightarrow> topic_env \<Rightarrow> metadata \<Rightarrow> (catalog_error, curation_rules) result" where
  "load_curation_rules env te raw =
     (if missing_text required_rules (dict_keys raw) \<noteq> []
      then Inl (Value_error_cat (''curation rules missing keys: '' @ missing_text required_rules (dict_keys raw)))
      else
        res_bind (families_of te (json_get raw ''title_families'')) (\<lambda>families.
        res_bind (strings_of te (json_get raw ''empty_values'')) (\<lambda>empties.
        res_bind (strings_of te (json_get raw ''excluded_context_terms'')) (\<lambda>excluded.
        res_bind (strings_of te (json_get raw ''master_positive'')) (\<lambda>mp.
        res_bind (strings_of te (json_get raw ''master_negative'')) (\<lambda>mn.
        res_bind (strings_of te (json_get raw ''phd_positive'')) (\<lambda>pp.
        res_bind (strings_of te (json_get raw ''phd_negative'')) (\<lambda>pn.
          Inr \<lparr>ru_version = json_str te (json_get raw ''version''),
               ru_normalization = json_str te (json_get raw ''normalization_version''),
               ru_empty = empties, ru_families = families, ru_excluded = excluded, ru_master_positive = mp,
               ru_master_negative = mn, ru_phd_positive = pp, ru_phd_negative = pn,
               ru_hash = canonical_json_hash env (JDict raw)\<rparr>))))))))"

text \<open>The shipped rules; the names of the families are ASCII, the terms are the UTF-8 bytes of the Chinese terms.\<close>

definition curation_v1 :: metadata where
  "curation_v1 =
     [(''version'', JStr ''curation-v1''),
      (''normalization_version'', JStr ''normalization-v1''),
      (''empty_values'', JList [JStr ''unknown'', JStr [CHR 0xE6, CHR 0x9C, CHR 0xAA, CHR 0xE7, CHR 0x9F,
         CHR 0xA5], JStr [CHR 0xE6, CHR 0x9A, CHR 0x82, CHR 0xE6, CHR 0x97, CHR 0xA0], JStr [CHR 0xE6, CHR
         0x97, CHR 0xA0], JNull, JStr ''none'', JStr ''n/a'', JStr ''-'', JStr ''--'']),
      (''title_families'', JDict [(''clinical'', JList [JStr [CHR 0xE4, CHR 0xB8, CHR 0xBB, CHR 0xE4, CHR
         0xBB, CHR 0xBB, CHR 0xE5, CHR 0x8C, CHR 0xBB, CHR 0xE5, CHR 0xB8, CHR 0x88], JStr [CHR 0xE5, CHR
         0x89, CHR 0xAF, CHR 0xE4, CHR 0xB8, CHR 0xBB, CHR 0xE4, CHR 0xBB, CHR 0xBB, CHR 0xE5, CHR 0x8C, CHR
         0xBB, CHR 0xE5, CHR 0xB8, CHR 0x88], JStr [CHR 0xE4, CHR 0xB8, CHR 0xBB, CHR 0xE6, CHR 0xB2, CHR
         0xBB, CHR 0xE5, CHR 0x8C, CHR 0xBB, CHR 0xE5, CHR 0xB8, CHR 0x88]]), (''researcher'', JList [JStr
         [CHR 0xE5, CHR 0x89, CHR 0xAF, CHR 0xE7, CHR 0xA0, CHR 0x94, CHR 0xE7, CHR 0xA9, CHR 0xB6, CHR
         0xE5, CHR 0x91, CHR 0x98], JStr [CHR 0xE7, CHR 0xA0, CHR 0x94, CHR 0xE7, CHR 0xA9, CHR 0xB6, CHR
         0xE5, CHR 0x91, CHR 0x98]]), (''associate'', JList [JStr [CHR 0xE5, CHR 0x89, CHR 0xAF, CHR 0xE6,
         CHR 0x95, CHR 0x99, CHR 0xE6, CHR 0x8E, CHR 0x88], JStr [CHR 0xE7, CHR 0x89, CHR 0xB9, CHR 0xE8,
         CHR 0x81, CHR 0x98, CHR 0xE5, CHR 0x89, CHR 0xAF, CHR 0xE6, CHR 0x95, CHR 0x99, CHR 0xE6, CHR 0x8E,
         CHR 0x88]]), (''professor'', JList [JStr [CHR 0xE6, CHR 0x95, CHR 0x99, CHR 0xE6, CHR 0x8E, CHR
         0x88], JStr [CHR 0xE9, CHR 0x99, CHR 0xA2, CHR 0xE5, CHR 0xA3, CHR 0xAB]]), (''lecturer'', JList
         [JStr [CHR 0xE8, CHR 0xAE, CHR 0xB2, CHR 0xE5, CHR 0xB8, CHR 0x88], JStr [CHR 0xE5, CHR 0x8A, CHR
         0xA9, CHR 0xE7, CHR 0x90, CHR 0x86, CHR 0xE6, CHR 0x95, CHR 0x99, CHR 0xE6, CHR 0x8E, CHR 0x88]]),
         (''technical'', JList [JStr [CHR 0xE9, CHR 0xAB, CHR 0x98, CHR 0xE7, CHR 0xBA, CHR 0xA7, CHR 0xE5,
         CHR 0xB7, CHR 0xA5, CHR 0xE7, CHR 0xA8, CHR 0x8B, CHR 0xE5, CHR 0xB8, CHR 0x88], JStr [CHR 0xE5,
         CHR 0xB7, CHR 0xA5, CHR 0xE7, CHR 0xA8, CHR 0x8B, CHR 0xE5, CHR 0xB8, CHR 0x88], JStr [CHR 0xE5,
         CHR 0xAE, CHR 0x9E, CHR 0xE9, CHR 0xAA, CHR 0x8C, CHR 0xE5, CHR 0xB8, CHR 0x88], JStr [CHR 0xE6,
         CHR 0x8A, CHR 0xA4, CHR 0xE5, CHR 0xB8, CHR 0x88], JStr [CHR 0xE6, CHR 0x8A, CHR 0x80, CHR 0xE6,
         CHR 0x9C, CHR 0xAF, CHR 0xE5, CHR 0x91, CHR 0x98]])]),
      (''excluded_context_terms'', JList [JStr [CHR 0xE4, CHR 0xB8, CHR 0x93, CHR 0xE8, CHR 0x81, CHR 0x8C,
         CHR 0xE8, CHR 0xA1, CHR 0x8C, CHR 0xE6, CHR 0x94, CHR 0xBF], JStr [CHR 0xE8, CHR 0xA1, CHR 0x8C,
         CHR 0xE6, CHR 0x94, CHR 0xBF, CHR 0xE4, CHR 0xBA, CHR 0xBA, CHR 0xE5, CHR 0x91, CHR 0x98], JStr
         [CHR 0xE8, CHR 0xA1, CHR 0x8C, CHR 0xE6, CHR 0x94, CHR 0xBF, CHR 0xE5, CHR 0x9B, CHR 0xA2, CHR
         0xE9, CHR 0x98, CHR 0x9F], JStr [CHR 0xE8, CHR 0xBE, CHR 0x85, CHR 0xE5, CHR 0xAF, CHR 0xBC, CHR
         0xE5, CHR 0x91, CHR 0x98], JStr [CHR 0xE5, CHR 0xAD, CHR 0xA6, CHR 0xE7, CHR 0x94, CHR 0x9F, CHR
         0xE5, CHR 0xB7, CHR 0xA5, CHR 0xE4, CHR 0xBD, CHR 0x9C], JStr [CHR 0xE5, CHR 0xAD, CHR 0xA6, CHR
         0xE5, CHR 0xB7, CHR 0xA5, CHR 0xE9, CHR 0x98, CHR 0x9F, CHR 0xE4, CHR 0xBC, CHR 0x8D], JStr [CHR
         0xE6, CHR 0x95, CHR 0x99, CHR 0xE8, CHR 0xBE, CHR 0x85, CHR 0xE4, CHR 0xBA, CHR 0xBA, CHR 0xE5, CHR
         0x91, CHR 0x98], JStr [CHR 0xE6, CHR 0x95, CHR 0x99, CHR 0xE8, CHR 0xBE, CHR 0x85, CHR 0xE5, CHR
         0xB2, CHR 0x97, CHR 0xE4, CHR 0xBD, CHR 0x8D], JStr [CHR 0xE5, CHR 0xAE, CHR 0x9E, CHR 0xE9, CHR
         0xAA, CHR 0x8C, CHR 0xE6, CHR 0x8A, CHR 0x80, CHR 0xE6, CHR 0x9C, CHR 0xAF, CHR 0xE9, CHR 0x98, CHR
         0x9F, CHR 0xE4, CHR 0xBC, CHR 0x8D], JStr [CHR 0xE5, CHR 0xAE, CHR 0x9E, CHR 0xE9, CHR 0xAA, CHR
         0x8C, CHR 0xE5, CHR 0xAE, CHR 0xA4, CHR 0xE7, CHR 0xAE, CHR 0xA1, CHR 0xE7, CHR 0x90, CHR 0x86, CHR
         0xE4, CHR 0xBA, CHR 0xBA, CHR 0xE5, CHR 0x91, CHR 0x98]]),
      (''master_positive'', JList [JStr [CHR 0xE7, CHR 0xA1, CHR 0x95, CHR 0xE5, CHR 0xA3, CHR 0xAB, CHR
         0xE7, CHR 0x94, CHR 0x9F, CHR 0xE5, CHR 0xAF, CHR 0xBC, CHR 0xE5, CHR 0xB8, CHR 0x88], JStr [CHR
         0xE7, CHR 0xA1, CHR 0x95, CHR 0xE5, CHR 0xAF, CHR 0xBC], JStr [CHR 0xE7, CHR 0xA0, CHR 0x94, CHR
         0xE7, CHR 0xA9, CHR 0xB6, CHR 0xE7, CHR 0x94, CHR 0x9F, CHR 0xE5, CHR 0xAF, CHR 0xBC, CHR 0xE5, CHR
         0xB8, CHR 0x88]]),
      (''master_negative'', JList [JStr [CHR 0xE9, CHR 0x9D, CHR 0x9E, CHR 0xE7, CHR 0xA1, CHR 0x95, CHR
         0xE5, CHR 0xA3, CHR 0xAB, CHR 0xE7, CHR 0x94, CHR 0x9F, CHR 0xE5, CHR 0xAF, CHR 0xBC, CHR 0xE5, CHR
         0xB8, CHR 0x88], JStr [CHR 0xE4, CHR 0xB8, CHR 0x8D, CHR 0xE6, CHR 0x98, CHR 0xAF, CHR 0xE7, CHR
         0xA1, CHR 0x95, CHR 0xE5, CHR 0xA3, CHR 0xAB, CHR 0xE7, CHR 0x94, CHR 0x9F, CHR 0xE5, CHR 0xAF, CHR
         0xBC, CHR 0xE5, CHR 0xB8, CHR 0x88], JStr [CHR 0xE9, CHR 0x9D, CHR 0x9E, CHR 0xE7, CHR 0xA1, CHR
         0x95, CHR 0xE5, CHR 0xAF, CHR 0xBC]]),
      (''phd_positive'', JList [JStr [CHR 0xE5, CHR 0x8D, CHR 0x9A, CHR 0xE5, CHR 0xA3, CHR 0xAB, CHR 0xE7,
         CHR 0x94, CHR 0x9F, CHR 0xE5, CHR 0xAF, CHR 0xBC, CHR 0xE5, CHR 0xB8, CHR 0x88], JStr [CHR 0xE5,
         CHR 0x8D, CHR 0x9A, CHR 0xE5, CHR 0xAF, CHR 0xBC]]),
      (''phd_negative'', JList [JStr [CHR 0xE9, CHR 0x9D, CHR 0x9E, CHR 0xE5, CHR 0x8D, CHR 0x9A, CHR 0xE5,
         CHR 0xA3, CHR 0xAB, CHR 0xE7, CHR 0x94, CHR 0x9F, CHR 0xE5, CHR 0xAF, CHR 0xBC, CHR 0xE5, CHR 0xB8,
         CHR 0x88], JStr [CHR 0xE4, CHR 0xB8, CHR 0x8D, CHR 0xE6, CHR 0x98, CHR 0xAF, CHR 0xE5, CHR 0x8D,
         CHR 0x9A, CHR 0xE5, CHR 0xA3, CHR 0xAB, CHR 0xE7, CHR 0x94, CHR 0x9F, CHR 0xE5, CHR 0xAF, CHR 0xBC,
         CHR 0xE5, CHR 0xB8, CHR 0x88], JStr [CHR 0xE9, CHR 0x9D, CHR 0x9E, CHR 0xE5, CHR 0x8D, CHR 0x9A,
         CHR 0xE5, CHR 0xAF, CHR 0xBC]])]"

section \<open>Roles (rules.py)\<close>

record role_decision =
  rd_family :: string
  rd_role :: string
  rd_reasons :: "string list"
  rd_master :: string
  rd_phd :: string

definition contains_any :: "topic_env \<Rightarrow> string list \<Rightarrow> string list \<Rightarrow> bool" where
  "contains_any te values terms =
     (\<exists>v \<in> set values. \<exists>t \<in> set terms. py_in (te_fold te t) (te_fold te v))"

definition eligibility :: "topic_env \<Rightarrow> string list \<Rightarrow> string list \<Rightarrow> string list \<Rightarrow> string" where
  "eligibility te values positive negative =
     (let negated = contains_any te values negative;
          confirmed = (\<exists>v \<in> set values. contains_any te [v] positive \<and> \<not> contains_any te [v] negative)
      in if confirmed \<and> negated then ''conflict'' else if confirmed then ''confirmed'' else ''unknown'')"

definition family_order :: "string list" where
  "family_order = [''clinical'', ''researcher'', ''associate'', ''professor'', ''lecturer'', ''technical'']"

definition title_family :: "topic_env \<Rightarrow> curation_rules \<Rightarrow> string \<Rightarrow> string" where
  "title_family te ru title =
     (case find (\<lambda>f. contains_any te [title] (case dict_get (ru_families ru) f of None \<Rightarrow> [] | Some ts \<Rightarrow> ts))
             family_order of
        None \<Rightarrow> ''unknown'' | Some f \<Rightarrow> f)"

definition classify_role ::
    "topic_env \<Rightarrow> curation_rules \<Rightarrow> string option \<Rightarrow> string list \<Rightarrow> string list \<Rightarrow> role_decision" where
  "classify_role te ru title enrollment contexts =
     (let title_text = str_or (normalize_text te (ru_empty ru) title) [];
          family = title_family te ru title_text;
          values = filter (\<lambda>v. v \<noteq> []) enrollment;
          master = eligibility te values (ru_master_positive ru) (ru_master_negative ru);
          phd = eligibility te values (ru_phd_positive ru) (ru_phd_negative ru);
          decide = (\<lambda>role reason. \<lparr>rd_family = family, rd_role = role, rd_reasons = [reason],
                                   rd_master = master, rd_phd = phd\<rparr>)
      in if contains_any te (contexts @ [title_text]) (ru_excluded ru)
           then decide ''excluded'' ''explicit_non_teacher_context''
         else if master \<in> {''confirmed'', ''conflict''} \<or> phd \<in> {''confirmed'', ''conflict''}
           then decide ''included'' ''supervisor_evidence''
         else if family \<in> {''professor'', ''associate'', ''researcher'', ''clinical''}
           then decide ''included'' ''teaching_research_title''
         else if family = ''lecturer'' then decide ''review'' ''lecturer_without_supervisor_evidence''
         else if family = ''technical'' then decide ''review'' ''technical_title_without_exclusion_context''
         else decide ''review'' ''missing_or_unclassified_title'')"

section \<open>What the rules decide\<close>

definition supervises :: "topic_env \<Rightarrow> string list \<Rightarrow> string list \<Rightarrow> string list \<Rightarrow> bool" where
  "supervises te values positive negative =
     (\<exists>v \<in> set values. contains_any te [v] positive \<and> \<not> contains_any te [v] negative)"

lemma eligibility_positive:
  "eligibility te values positive negative \<in> {''confirmed'', ''conflict''} \<longleftrightarrow> supervises te values positive negative"
  by (auto simp: eligibility_def Let_def supervises_def)

lemma classify_role_sel:
  defines "title_text ru te title \<equiv> str_or (normalize_text te (ru_empty ru) title) []"
  shows "rd_family (classify_role te ru title enrollment contexts) = title_family te ru (title_text ru te title)"
    and "rd_role (classify_role te ru title enrollment contexts) =
      (if contains_any te (contexts @ [title_text ru te title]) (ru_excluded ru) then ''excluded''
       else if eligibility te (filter (\<lambda>v. v \<noteq> []) enrollment) (ru_master_positive ru) (ru_master_negative ru)
                 \<in> {''confirmed'', ''conflict''}
             \<or> eligibility te (filter (\<lambda>v. v \<noteq> []) enrollment) (ru_phd_positive ru) (ru_phd_negative ru)
                 \<in> {''confirmed'', ''conflict''}
             \<or> title_family te ru (title_text ru te title) \<in> {''professor'', ''associate'', ''researcher'', ''clinical''}
       then ''included'' else ''review'')"
  by (simp_all add: classify_role_def Let_def title_text_def)


section \<open>The shipped rules\<close>

text \<open>Plain normalization, enough for the shipped terms: \<open>str(None)\<close> is \<open>None\<close>.\<close>

definition plain_env :: topic_env where
  "plain_env =
     \<lparr>te_nfkc = (\<lambda>s. s), te_fold = py_lower, te_punct = (\<lambda>s. list_all (\<lambda>c. c \<in> set ''-/.'') s),
      te_uuid = (\<lambda>_. None), te_uuid5 = (\<lambda>s. s), te_str = (\<lambda>v. if v = JNull then ''None'' else [])\<rparr>"

definition shipped_rules :: "(catalog_error, curation_rules) result" where
  "shipped_rules = load_curation_rules \<lparr>ce_sha256 = (\<lambda>s. s), ce_json = (\<lambda>_. [])\<rparr> plain_env curation_v1"

definition assistant_professor :: string where
  "assistant_professor = [CHR 0xE5, CHR 0x8A, CHR 0xA9, CHR 0xE7, CHR 0x90, CHR 0x86, CHR 0xE6, CHR 0x95, CHR 0x99, CHR 0xE6, CHR 0x8E, CHR 0x88]"

definition no_phd_supervisor :: string where
  "no_phd_supervisor = [CHR 0xE4, CHR 0xB8, CHR 0x8D, CHR 0xE6, CHR 0x98, CHR 0xAF, CHR 0xE5, CHR 0x8D, CHR 0x9A, CHR 0xE5, CHR 0xAF, CHR 0xBC]"

text \<open>
  The families are tried in order, and the term of the professors is part of the term of the assistant
  professors, which is listed with the lecturers: no title reaches it. The unquoted \<open>null\<close> among the empty
  values is read as a missing value, and the denial of supervision in its short form is not listed.
\<close>

lemma assistant_professor_is_professor:
  "map_sum id (\<lambda>ru. (assistant_professor \<in> set (the (dict_get (ru_families ru) ''lecturer'')),
                     title_family plain_env ru assistant_professor)) shipped_rules =
   Inr (True, ''professor'')"
  by code_simp

lemma null_is_no_empty_value:
  "map_sum id (\<lambda>ru. (normalize_text plain_env (ru_empty ru) (Some ''null''), norm plain_env (Some ''null'')))
     shipped_rules = Inr (Some ''null'', None)"
  by code_simp

lemma denied_supervision_is_confirmed:
  "map_sum id (\<lambda>ru. eligibility plain_env [no_phd_supervisor] (ru_phd_positive ru) (ru_phd_negative ru))
     shipped_rules = Inr ''confirmed''"
  by code_simp

end
