(* ===== verification/Dext_Topic_Runs.thy ===== *)
theory Dext_Topic_Runs
  imports Dext_Topics
begin

text \<open>
  The topic stage (\<open>topic_workflow.py\<close>): the transactions of its run, the job table through which
  the workers claim research statements, and the linking of all statements as a transition
  system; and the repair command of \<open>topic_repair.py\<close>.
\<close>

section \<open>The run (topic\_workflow.py)\<close>

definition topic_run_version :: string where "topic_run_version = ''topic-dag-v1''"

definition enter_topics :: "string \<Rightarrow> string \<Rightarrow> string \<Rightarrow> catalog \<Rightarrow> catalog" where
  "enter_topics b v fp =
     update_build b (\<lambda>r. r\<lparr>gb_status := B_writing_vector, gb_taxonomy := Some v,
                           gb_fingerprint := Some fp, gb_error := None\<rparr>)"

definition new_topic_run :: "taxonomy_manifest \<Rightarrow> string \<Rightarrow> string \<Rightarrow> topic_run" where
  "new_topic_run m now b =
     \<lparr>rr_id = b @ '':'' @ topic_run_version, rr_build = b, rr_status = R_running, rr_summary = [],
      rr_started = Some now, rr_finished = None, rr_error = None,
      tr_taxonomy = tm_version m, tr_manifest_hash = tm_hash m\<rparr>"

text \<open>
  \<open>loaded\<close> is what \<open>load_taxonomy\<close> returns for the configured file.
\<close>

definition topic_prepare ::
    "catalog_env \<Rightarrow> topic_env \<Rightarrow> graph_settings \<Rightarrow> string \<Rightarrow>
     (catalog_error, taxonomy_manifest) result \<Rightarrow> string \<Rightarrow> string \<Rightarrow> string handler" where
  "topic_prepare env te settings tokenizer loaded now b c =
     (case find_build b c of
        None \<Rightarrow> Inl (unknown_build b)
      | Some g \<Rightarrow>
          if gb_status g \<notin> {B_writing_vector, B_validating, B_failed}
          then Inl (Catalog_error (''build '' @ b @ '' cannot enter Topic stage from '' @
                      build_status_name (gb_status g)))
          else res_bind loaded (\<lambda>m. res_bind (import_taxonomy env te m c) (\<lambda>c1.
            if gb_taxonomy g \<notin> {None, Some (tm_version m)}
            then Inl (Catalog_error ''build taxonomy version differs from configured taxonomy'')
            else let fp = embedding_fingerprint env settings tokenizer
                 in case find_run b (topic_runs c1) of
                      None \<Rightarrow>
                        res_bind (insert_run (new_topic_run m now b) (topic_runs c1))
                          (\<lambda>rows. Inr (b @ '':'' @ topic_run_version,
                                       enter_topics b (tm_version m) fp (c1\<lparr>topic_runs := rows\<rparr>)))
                    | Some r \<Rightarrow>
                        if tr_taxonomy r \<noteq> tm_version m
                        then Inl (Catalog_error ''Topic run taxonomy version changed; create a new build'')
                        else if tr_manifest_hash r \<noteq> tm_hash m
                        then Inl (Catalog_error ''Topic taxonomy manifest changed; create a new version'')
                        else if rr_status r \<noteq> R_completed
                        then Inr (rr_id r, enter_topics b (tm_version m) fp
                                    (c1\<lparr>topic_runs := reopen_run (rr_id r) (topic_runs c1)\<rparr>))
                        else Inr (rr_id r, enter_topics b (tm_version m) fp c1))))"

definition topic_summary :: "nat \<Rightarrow> nat \<Rightarrow> string \<Rightarrow> catalog \<Rightarrow> metadata" where
  "topic_summary topic_count relation_count b c =
     [(''topic_run_version'', JStr topic_run_version), (''active_topics'', JInt (int topic_count)),
      (''linked_statements'', count_where (\<lambda>r. tj_build r = b \<and> tj_status r = ''succeeded'') (topic_jobs c)),
      (''approved_links'', count_where (\<lambda>r. sl_build r = b \<and> sl_review r = ''approved'') (topic_links c)),
      (''review_links'', count_where (\<lambda>r. sl_build r = b \<and> sl_review r = ''review'') (topic_links c)),
      (''topic_relations'', JInt (int relation_count)), (''gold_status'', JStr ''not_evaluated'')]"

text \<open>New topic links invalidate the vectors of the build: its vector run is reset.\<close>

definition reset_vectors :: "string \<Rightarrow> catalog \<Rightarrow> catalog" where
  "reset_vectors b c =
     (if find_run b (vector_runs c) = None then c
      else delete_checkpoint b ''qdrant'' ''professors''
             (c\<lparr>vector_runs := suspend_run b (vector_runs c)\<rparr>))"

definition topic_finish :: "string \<Rightarrow> nat \<Rightarrow> nat \<Rightarrow> string \<Rightarrow> string \<Rightarrow> unit handler" where
  "topic_finish now topic_count relation_count b rid c =
     (let summary = topic_summary topic_count relation_count b c
      in res_bind (advance_build b ''topics'' (JDict summary) B_writing_vector
                     (c\<lparr>topic_runs := complete_run now rid summary (topic_runs c)\<rparr>))
           (\<lambda>(_, c'). Inr ((), reset_vectors b c')))"

definition topic_fail :: "string \<Rightarrow> string \<Rightarrow> string \<Rightarrow> string \<Rightarrow> string \<Rightarrow> string \<Rightarrow> unit handler" where
  "topic_fail now v fp b rid e c =
     Inr ((), fail_build b e
       (c\<lparr>topic_runs := fail_run now rid e (topic_runs c),
          candidate_collections := update_where
            (\<lambda>r. tc_version r = v \<and> tc_fingerprint r = fp \<and> tc_status r = ''BUILDING'')
            (\<lambda>r. r\<lparr>tc_status := ''FAILED''\<rparr>) (candidate_collections c)\<rparr>))"

lemma import_taxonomy_select:
  assumes "import_taxonomy env te m c = Inr c'"
  shows "builds c' = builds c \<and> curation_runs c' = curation_runs c \<and> graph_runs c' = graph_runs c \<and>
    topic_runs c' = topic_runs c \<and> vector_runs c' = vector_runs c \<and>
    validation_runs c' = validation_runs c"
proof -
  let ?I = "\<lambda>x. builds x = builds c \<and> curation_runs x = curation_runs c \<and>
    graph_runs x = graph_runs c \<and> topic_runs x = topic_runs c \<and> vector_runs x = vector_runs c \<and>
    validation_runs x = validation_runs c"
  have one: "?I y" if "?I x" "import_alias env te v t a x = Inr y" for v t a x y
    using that by (auto simp: import_alias_def res_bind_eq_Inr Let_def split: if_splits)
  have topic: "?I y" if "?I x" "import_topic env te v t x = Inr y" for v t x y
    using that by (auto simp: import_topic_def res_bind_eq_Inr Let_def split: if_splits option.splits)
  let ?f = "\<lambda>t x. res_bind (import_topic env te (tm_version m) t x)
      (res_fold (import_alias env te (tm_version m) (tt_id t))
        (\<lparr>al_text = tt_name t, al_language = ''unknown''\<rparr> # tt_aliases t))"
  have step: "?I y" if fx: "?f t x = Inr y" and x: "?I x" for t x y
  proof -
    from fx obtain z where z: "import_topic env te (tm_version m) t x = Inr z"
      and f: "res_fold (import_alias env te (tm_version m) (tt_id t))
        (\<lparr>al_text = tt_name t, al_language = ''unknown''\<rparr> # tt_aliases t) z = Inr y"
      unfolding res_bind_eq_Inr by blast
    show ?thesis by (rule res_fold_inv [where I = ?I, OF _ topic [OF x z] f]) (rule one)
  qed
  from assms have f: "res_fold ?f (tm_topics m) (register_version m c) = Inr c'"
    by (simp add: import_taxonomy_def split: if_splits)
  have "?I (register_version m c)" by (simp add: register_version_def)
  show ?thesis by (rule res_fold_inv [where I = ?I, OF _ \<open>?I (register_version m c)\<close> f]) (rule step)
qed

lemma enter_topics_facts [view_simps]:
  "curation_runs (enter_topics b v fp c) = curation_runs c"
  "graph_runs (enter_topics b v fp c) = graph_runs c"
  "topic_runs (enter_topics b v fp c) = topic_runs c"
  "vector_runs (enter_topics b v fp c) = vector_runs c"
  "validation_runs (enter_topics b v fp c) = validation_runs c"
  "map gb_id (builds (enter_topics b v fp c)) = map gb_id (builds c)"
  "passed b' (enter_topics b v fp c) = passed b' c"
  "status_of b' (enter_topics b v fp c) =
     (if b' = b then map_option (\<lambda>_. B_writing_vector) (find_build b c) else status_of b' c)"
  by (simp_all add: enter_topics_def view_simps)

definition topic_prepared :: "taxonomy_manifest \<Rightarrow> string \<Rightarrow> string \<Rightarrow> string \<Rightarrow> catalog \<Rightarrow> string \<Rightarrow> catalog \<Rightarrow> bool" where
  "topic_prepared m fp now b c1 rid c' =
     (case find_run b (topic_runs c1) of
        None \<Rightarrow> (\<exists>rows. insert_run (new_topic_run m now b) (topic_runs c1) = Inr rows \<and>
                   rid = b @ '':'' @ topic_run_version \<and>
                   c' = enter_topics b (tm_version m) fp (c1\<lparr>topic_runs := rows\<rparr>))
      | Some r \<Rightarrow> rid = rr_id r \<and>
          c' = enter_topics b (tm_version m) fp
            (if rr_status r = R_completed then c1
             else c1\<lparr>topic_runs := reopen_run rid (topic_runs c1)\<rparr>))"

lemma topic_prepare_cases:
  assumes "topic_prepare env te settings tokenizer loaded now b c = Inr (rid, c')"
  obtains g m c1 where "find_build b c = Some g"
    and "gb_status g \<in> {B_writing_vector, B_validating, B_failed}"
    and "loaded = Inr m" and "import_taxonomy env te m c = Inr c1"
    and "topic_prepared m (embedding_fingerprint env settings tokenizer) now b c1 rid c'"
proof -
  from assms obtain g m c1 where g: "find_build b c = Some g"
      "gb_status g \<in> {B_writing_vector, B_validating, B_failed}" "loaded = Inr m"
      "import_taxonomy env te m c = Inr c1" "gb_taxonomy g \<in> {None, Some (tm_version m)}"
    by (auto simp: topic_prepare_def res_bind_eq_Inr split: option.splits if_splits)
  then have "topic_prepared m (embedding_fingerprint env settings tokenizer) now b c1 rid c'"
    using assms
    by (cases "find_run b (topic_runs c1)")
       (auto simp: topic_prepared_def topic_prepare_def Let_def res_bind_eq_Inr split: if_splits)
  with g that show thesis by blast
qed

lemma topic_prepare_law:
  assumes "catalog_ok c" and "topic_prepare env te settings tokenizer loaded now b c = Inr (rid, c')"
  shows "tables_ok c' \<and> only_build b c c' \<and>
    (\<exists>s. run_info b (topic_runs c') = Some (rid, s) \<and>
         (\<not> is_published b c' \<or> s = R_completed \<and> c' = c))"
proof -
  from assms(2) obtain g m c1 where imp: "import_taxonomy env te m c = Inr c1"
    and prep: "topic_prepared m (embedding_fingerprint env settings tokenizer) now b c1 rid c'"
    by (rule topic_prepare_cases)
  note sel = import_taxonomy_select [OF imp]
  have c1: "tables_ok c1" "runs_ok (topic_runs c1)" "passed x c1 = passed x c"
      "status_of x c1 = status_of x c" for x
    using assms(1) sel by (auto simp: catalog_ok_def tables_ok_def status_of_def find_build_def
        passed_def find_validation_def)
  show ?thesis
  proof (cases "find_run b (topic_runs c1)")
    case None
    with prep obtain rows where ins: "insert_run (new_topic_run m now b) (topic_runs c1) = Inr rows"
        "rid = b @ '':'' @ topic_run_version"
        "c' = enter_topics b (tm_version m) (embedding_fingerprint env settings tokenizer) (c1\<lparr>topic_runs := rows\<rparr>)"
      by (auto simp: topic_prepared_def)
    then show ?thesis
      using c1 sel runs_ok_insert [OF c1(2) ins(1)] run_info_insert [OF ins(1)]
      by (auto simp: new_topic_run_def tables_ok_def is_published_def published_def view_simps
          intro!: only_buildI split: option.splits)
  next
    case (Some r)
    with prep have "rid = rr_id r" "c' = enter_topics b (tm_version m) (embedding_fingerprint env settings tokenizer)
            (if rr_status r = R_completed then c1
             else c1\<lparr>topic_runs := reopen_run rid (topic_runs c1)\<rparr>)"
      by (auto simp: topic_prepared_def)
    with c1 sel find_run_info [OF Some] run_info_statements(1) [OF c1(2) find_run_info [OF Some]]
    show ?thesis
      by (auto simp: tables_ok_def is_published_def published_def view_simps
          intro!: only_buildI split: option.splits)
  qed
qed

lemma reset_vectors_facts [view_simps]:
  "builds (reset_vectors b c) = builds c" "curation_runs (reset_vectors b c) = curation_runs c"
  "graph_runs (reset_vectors b c) = graph_runs c" "topic_runs (reset_vectors b c) = topic_runs c"
  "validation_runs (reset_vectors b c) = validation_runs c"
  "status_of b' (reset_vectors b c) = status_of b' c" "passed b' (reset_vectors b c) = passed b' c"
  by (simp_all add: reset_vectors_def delete_checkpoint_def status_of_def find_build_def passed_def
      find_validation_def)

lemma reset_vectors_runs [view_simps]:
  "runs_ok (vector_runs (reset_vectors b c)) = runs_ok (vector_runs c)"
  "b' \<noteq> b \<Longrightarrow> run_info b' (vector_runs (reset_vectors b c)) = run_info b' (vector_runs c)"
  by (simp_all add: reset_vectors_def delete_checkpoint_def view_simps)

lemma topic_finish_law:
  assumes "tables_ok c" and "run_info b (topic_runs c) = Some (rid, s)"
    and "topic_finish now n k b rid c = Inr ((), c')"
  shows "tables_ok c' \<and> only_build b c c' \<and> \<not> is_published b c' \<and>
    run_info b (topic_runs c') = Some (rid, R_completed)"
proof -
  from assms(1) have ok: "runs_ok (topic_runs c)" by (simp add: tables_ok_def)
  from assms(3) obtain c1 summary where adv: "advance_build b ''topics'' (JDict summary) B_writing_vector
      (c\<lparr>topic_runs := complete_run now rid summary (topic_runs c)\<rparr>) = Inr ((), c1)"
    and c': "c' = reset_vectors b c1"
    by (auto simp: topic_finish_def Let_def res_bind_eq_Inr)
  show ?thesis
    using assms(1) run_info_statements(2) [OF ok assms(2)]
    by (auto simp: c' tables_ok_def is_published_def published_def view_simps advance_build_facts [OF adv]
        intro!: only_buildI)
qed

lemma topic_fail_law:
  assumes "tables_ok c" and "run_info b (topic_runs c) = Some (rid, s)"
  shows "\<exists>c'. topic_fail now v fp b rid e c = Inr ((), c') \<and> tables_ok c' \<and> only_build b c c' \<and>
    \<not> is_published b c' \<and> run_info b (topic_runs c') = Some (rid, R_failed)"
proof -
  from assms(1) have ok: "runs_ok (topic_runs c)" by (simp add: tables_ok_def)
  have other: "status_of b' (c\<lparr>topic_runs := x, candidate_collections := y\<rparr>) = status_of b' c"
    "passed b' (c\<lparr>topic_runs := x, candidate_collections := y\<rparr>) = passed b' c" for b' x y
    by (simp_all add: status_of_def find_build_def passed_def find_validation_def)
  show ?thesis
    using assms(1) run_info_statements(3) [OF ok assms(2)]
    by (auto simp: topic_fail_def tables_ok_def is_published_def published_def view_simps other
        intro!: only_buildI split: option.splits)
qed

interpretation topic: build_stage "\<lambda>b c. run_info b (topic_runs c)"
    "topic_prepare env te settings tokenizer loaded now" "topic_finish now n k" "topic_fail now v fp"
  for env te settings tokenizer loaded now n k v fp
  by unfold_locales (fact topic_prepare_law topic_finish_law topic_fail_law)+


section \<open>The job table (topic\_workflow.py)\<close>

definition terminal_job :: "string \<Rightarrow> bool" where
  "terminal_job s = (s = ''succeeded'' \<or> s = ''terminal-invalid-input'')"

definition find_job :: "string \<Rightarrow> string \<Rightarrow> catalog \<Rightarrow> job_row option" where
  "find_job b sid c = find (\<lambda>j. tj_build j = b \<and> tj_statement j = sid) (topic_jobs c)"

definition find_statement :: "string \<Rightarrow> string \<Rightarrow> catalog \<Rightarrow> statement_row option" where
  "find_statement b sid c = find (\<lambda>s. rs_build s = b \<and> rs_id s = sid) (statements c)"

definition marked :: "string \<Rightarrow> json list \<Rightarrow> string option \<Rightarrow> job_row \<Rightarrow> job_row" where
  "marked status cands e j =
     j\<lparr>tj_status := status, tj_candidates := (if cands = [] then tj_candidates j else cands),
       tj_attempts := tj_attempts j + (if status = ''running'' then 1 else 0), tj_error := e\<rparr>"

lemma marked_sel [simp]:
  "tj_build (marked st cs e j) = tj_build j" "tj_statement (marked st cs e j) = tj_statement j"
  "tj_status (marked st cs e j) = st"
  by (simp_all add: marked_def)

definition mark_job ::
    "string \<Rightarrow> string \<Rightarrow> string \<Rightarrow> json list \<Rightarrow> string option \<Rightarrow> catalog \<Rightarrow> (catalog_error, catalog) result" where
  "mark_job b sid status cands e c =
     (if find_job b sid c \<noteq> None
      then Inr (c\<lparr>topic_jobs := update_where (\<lambda>j. tj_build j = b \<and> tj_statement j = sid)
             (marked status cands e) (topic_jobs c)\<rparr>)
      else if find_statement b sid c = None then Inl Integrity_error
      else Inr (c\<lparr>topic_jobs := topic_jobs c @
             [\<lparr>tj_build = b, tj_statement = sid, tj_status = status, tj_candidates = cands,
               tj_attempts = (if status = ''running'' then 1 else 0), tj_error = e\<rparr>]\<rparr>))"

definition reset_running_jobs :: "string \<Rightarrow> nat handler" where
  "reset_running_jobs b c =
     Inr (length (filter (\<lambda>j. tj_build j = b \<and> tj_status j = ''running'') (topic_jobs c)),
       c\<lparr>topic_jobs := update_where (\<lambda>j. tj_build j = b \<and> tj_status j = ''running'')
           (\<lambda>j. j\<lparr>tj_status := ''retry'', tj_error := Some ''interrupted_run_reset''\<rparr>) (topic_jobs c)\<rparr>)"

definition ensure_topic_link_jobs :: "string \<Rightarrow> nat handler" where
  "ensure_topic_link_jobs b c =
     (let new = filter (\<lambda>s. rs_build s = b \<and> find_job b (rs_id s) c = None) (statements c)
      in Inr (length new,
           c\<lparr>topic_jobs := topic_jobs c @
               map (\<lambda>s. \<lparr>tj_build = b, tj_statement = rs_id s, tj_status = ''pending'', tj_candidates = [],
                         tj_attempts = 0, tj_error = None\<rparr>) new\<rparr>))"

definition has_pending_work :: "string \<Rightarrow> catalog \<Rightarrow> bool" where
  "has_pending_work b c =
     (\<exists>s \<in> set (statements c). rs_build s = b \<and>
        \<not> (\<exists>j \<in> set (topic_jobs c). tj_build j = b \<and> tj_statement j = rs_id s \<and> terminal_job (tj_status j)))"

text \<open>The rows of one status, in the order of the statements, up to \<open>n\<close>.\<close>

definition claim_rows :: "string \<Rightarrow> string \<Rightarrow> string list \<Rightarrow> nat \<Rightarrow> catalog \<Rightarrow> (string \<times> string) list" where
  "claim_rows b status deferred n c =
     take n (sort_key fst
       (List.map_filter (\<lambda>j.
          if tj_build j = b \<and> tj_status j = status \<and> tj_statement j \<notin> set deferred
          then map_option (\<lambda>s. (tj_statement j, rs_text s)) (find_statement b (tj_statement j) c)
          else None) (topic_jobs c)))"

definition claimed_rows :: "string \<Rightarrow> nat \<Rightarrow> string list \<Rightarrow> catalog \<Rightarrow> (string \<times> string) list" where
  "claimed_rows b limit deferred c =
     (let first = claim_rows b ''retry'' deferred limit c
      in if limit - length first = 0 then first
         else first @ claim_rows b ''pending'' deferred (limit - length first) c)"

definition claim_statement_batch ::
    "string \<Rightarrow> nat \<Rightarrow> string list \<Rightarrow> (string \<times> string) list handler" where
  "claim_statement_batch b limit deferred c =
     (if limit = 0 then Inl (Value_error_cat ''claim batch limit must be positive'')
      else let rows = claimed_rows b limit deferred c
           in res_bind (res_fold (\<lambda>r. mark_job b (fst r) ''running'' [] None) rows c)
                (\<lambda>c'. Inr (rows, c')))"

definition job_enters_terminal :: "string \<Rightarrow> string \<Rightarrow> string \<Rightarrow> catalog \<Rightarrow> bool" where
  "job_enters_terminal b sid status c =
     (terminal_job status \<and>
      (case find_job b sid c of None \<Rightarrow> True | Some j \<Rightarrow> \<not> terminal_job (tj_status j)))"

text \<open>The checkpoint of the links keeps the greatest statement seen and adds up the rows.\<close>

definition checkpoint_statement :: "string \<Rightarrow> string \<Rightarrow> nat \<Rightarrow> catalog \<Rightarrow> catalog" where
  "checkpoint_statement b sid delta c =
     (let here = (\<lambda>k. ck_build k = b \<and> ck_sink k = ''topic_link'' \<and> ck_partition k = ''statements'')
      in if \<exists>k \<in> set (checkpoints c). here k
         then c\<lparr>checkpoints := update_where here
                 (\<lambda>k. k\<lparr>ck_last := (case ck_last k of None \<Rightarrow> Some sid
                                  | Some l \<Rightarrow> if l < sid then Some sid else Some l),
                         ck_rows := ck_rows k + delta\<rparr>) (checkpoints c)\<rparr>
         else c\<lparr>checkpoints := checkpoints c @
                 [\<lparr>ck_build = b, ck_sink = ''topic_link'', ck_partition = ''statements'',
                   ck_last = Some sid, ck_batch = None, ck_rows = delta\<rparr>]\<rparr>)"

definition mark_job_and_checkpoint ::
    "string \<Rightarrow> string \<Rightarrow> string \<Rightarrow> json list \<Rightarrow> string option \<Rightarrow> bool handler" where
  "mark_job_and_checkpoint b sid status cands e c =
     (let entered = job_enters_terminal b sid status c
      in res_bind (mark_job b sid status cands e c) (\<lambda>c'.
           Inr (entered, if terminal_job status
                         then checkpoint_statement b sid (if entered then 1 else 0) c' else c')))"

definition complete_invalid_statement :: "string \<Rightarrow> string \<Rightarrow> bool handler" where
  "complete_invalid_statement b sid =
     mark_job_and_checkpoint b sid ''terminal-invalid-input'' [] (Some ''empty_or_punctuation_only_statement'')"

definition concept_dict :: "topic_concept \<Rightarrow> metadata" where
  "concept_dict co =
     [(''evidence_span'', JStr (co_span co)), (''canonical_name'', JStr (co_name co)),
      (''kind'', JStr (co_kind co)), (''relation_type'', JStr (co_relation co))]"

definition complete_linked_statement ::
    "catalog_env \<Rightarrow> topic_env \<Rightarrow> string \<Rightarrow> string \<Rightarrow> string \<Rightarrow> topic_concept list \<Rightarrow> nat \<Rightarrow>
     (string, semantic_choice) dict \<Rightarrow> json list \<Rightarrow> bool handler" where
  "complete_linked_statement env te b sid raw concepts rejected choices cands c =
     (let c1 = (if rejected = 0 then c
                else record_topic_finding env b ''topic_concept_rejected'' sid
                       [(''statement_id'', JStr sid), (''rejected_concepts'', JInt (int rejected)),
                        (''reason'', JStr ''invalid_evidence_kind_or_relation'')] ''warning'' c)
      in res_bind (apply_statement_concepts env te b sid raw (map concept_dict concepts) choices c1)
           (mark_job_and_checkpoint b sid ''succeeded'' cands None))"

section \<open>Linking all statements (topic\_workflow.py)\<close>

text \<open>
  The workers share the catalog, the queue of claimed statements and the set of deferred ones.
  \<open>ls_flight\<close> holds the statements that were claimed and are not finished: those in the queue and
  those a worker is busy with. A claim is made under a lock with the current deferred
  set. A statement ends as invalid, as linked, deferred (the model's output was
  malformed) or by stopping the run. The turns interleave freely; the process may also die, after which
  the next run first resets and completes the job table.
\<close>

record link_sys =
  ls_cat :: catalog
  ls_flight :: "string list"
  ls_deferred :: "string list"
  ls_stopped :: bool

definition drop_one :: "string \<Rightarrow> string list \<Rightarrow> string list" where
  "drop_one = remove1"

definition link_start :: "string \<Rightarrow> catalog \<Rightarrow> (catalog_error, link_sys) result" where
  "link_start b c =
     res_bind (reset_running_jobs b c) (\<lambda>(_, c1).
       res_bind (ensure_topic_link_jobs b c1) (\<lambda>(_, c2).
         Inr \<lparr>ls_cat = c2, ls_flight = [], ls_deferred = [], ls_stopped = False\<rparr>))"

definition turn_claim :: "string \<Rightarrow> nat \<Rightarrow> link_sys \<Rightarrow> (catalog_error, link_sys) result" where
  "turn_claim b limit s =
     res_bind (claim_statement_batch b limit (ls_deferred s) (ls_cat s)) (\<lambda>(rows, c).
       Inr (s\<lparr>ls_cat := c, ls_flight := ls_flight s @ map fst rows\<rparr>))"

definition turn_invalid :: "string \<Rightarrow> string \<Rightarrow> link_sys \<Rightarrow> (catalog_error, link_sys) result" where
  "turn_invalid b sid s =
     res_bind (complete_invalid_statement b sid (ls_cat s)) (\<lambda>(_, c).
       Inr (s\<lparr>ls_cat := c, ls_flight := drop_one sid (ls_flight s)\<rparr>))"

definition turn_linked ::
    "catalog_env \<Rightarrow> topic_env \<Rightarrow> string \<Rightarrow> string \<Rightarrow> string \<Rightarrow> topic_concept list \<Rightarrow> nat \<Rightarrow>
     (string, semantic_choice) dict \<Rightarrow> json list \<Rightarrow> link_sys \<Rightarrow> (catalog_error, link_sys) result" where
  "turn_linked env te b sid raw concepts rejected choices cands s =
     res_bind (complete_linked_statement env te b sid raw concepts rejected choices cands (ls_cat s))
       (\<lambda>(_, c). Inr (s\<lparr>ls_cat := c, ls_flight := drop_one sid (ls_flight s)\<rparr>))"

definition turn_defer :: "string \<Rightarrow> string \<Rightarrow> string \<Rightarrow> link_sys \<Rightarrow> (catalog_error, link_sys) result" where
  "turn_defer b sid e s =
     res_bind (mark_job b sid ''retry'' [] (Some e) (ls_cat s)) (\<lambda>c.
       Inr (s\<lparr>ls_cat := c, ls_flight := drop_one sid (ls_flight s), ls_deferred := sid # ls_deferred s\<rparr>))"

definition turn_stop :: "string \<Rightarrow> string \<Rightarrow> string \<Rightarrow> link_sys \<Rightarrow> (catalog_error, link_sys) result" where
  "turn_stop b sid e s =
     res_bind (mark_job b sid ''retry'' [] (Some e) (ls_cat s)) (\<lambda>c.
       Inr (s\<lparr>ls_cat := c, ls_flight := drop_one sid (ls_flight s), ls_stopped := True\<rparr>))"

inductive link_step :: "catalog_env \<Rightarrow> topic_env \<Rightarrow> string \<Rightarrow> nat \<Rightarrow> link_sys \<Rightarrow> link_sys \<Rightarrow> bool"
  for env te b limit where
  claimed: "\<not> ls_stopped s \<Longrightarrow> turn_claim b limit s = Inr s' \<Longrightarrow> link_step env te b limit s s'"
| invalid: "sid \<in> set (ls_flight s) \<Longrightarrow> turn_invalid b sid s = Inr s' \<Longrightarrow> link_step env te b limit s s'"
| linked: "sid \<in> set (ls_flight s) \<Longrightarrow>
    turn_linked env te b sid raw concepts rejected choices cands s = Inr s' \<Longrightarrow>
    link_step env te b limit s s'"
| deferred: "sid \<in> set (ls_flight s) \<Longrightarrow> turn_defer b sid e s = Inr s' \<Longrightarrow> link_step env te b limit s s'"
| stopped: "sid \<in> set (ls_flight s) \<Longrightarrow> turn_stop b sid e s = Inr s' \<Longrightarrow> link_step env te b limit s s'"
| crashed: "link_start b (ls_cat s) = Inr s' \<Longrightarrow> link_step env te b limit s s'"

inductive link_reachable :: "catalog_env \<Rightarrow> topic_env \<Rightarrow> string \<Rightarrow> nat \<Rightarrow> catalog \<Rightarrow> link_sys \<Rightarrow> bool"
  for env te b limit c0 where
  started: "link_start b c0 = Inr s \<Longrightarrow> link_reachable env te b limit c0 s"
| stepped: "link_reachable env te b limit c0 s \<Longrightarrow> link_step env te b limit s s' \<Longrightarrow>
    link_reachable env te b limit c0 s'"

text \<open>What \<open>_link_statements\<close> reports when its workers have ended without an exception.\<close>

definition link_result :: "link_sys \<Rightarrow> (catalog_error, unit) result" where
  "link_result s =
     (if ls_deferred s \<noteq> [] then Inl (Deferred_retry (length (remdups (ls_deferred s)))) else Inr ())"


definition job_status :: "string \<Rightarrow> string \<Rightarrow> catalog \<Rightarrow> string option" where
  "job_status b sid c = map_option tj_status (find_job b sid c)"

definition terminal_ids :: "string \<Rightarrow> catalog \<Rightarrow> string list" where
  "terminal_ids b c =
     map tj_statement (filter (\<lambda>j. tj_build j = b \<and> terminal_job (tj_status j)) (topic_jobs c))"

definition link_rows :: "string \<Rightarrow> catalog \<Rightarrow> nat" where
  "link_rows b c =
     (case find_checkpoint b ''topic_link'' ''statements'' c of None \<Rightarrow> 0 | Some k \<Rightarrow> ck_rows k)"

definition job_states :: "string list" where
  "job_states = [''pending'', ''running'', ''retry'', ''succeeded'', ''terminal-invalid-input'']"

text \<open>The keys of the job table, and the books: one row in the checkpoint per finished statement.\<close>

definition jobs_ok :: "string \<Rightarrow> catalog \<Rightarrow> bool" where
  "jobs_ok b c =
     (distinct (map (\<lambda>j. (tj_build j, tj_statement j)) (topic_jobs c)) \<and>
      (\<forall>j \<in> set (topic_jobs c). tj_status j \<in> set job_states \<and>
         find_statement (tj_build j) (tj_statement j) c \<noteq> None) \<and>
      link_rows b c = length (terminal_ids b c))"

definition statements_ok :: "catalog \<Rightarrow> bool" where
  "statements_ok c = distinct (map (\<lambda>s. (rs_build s, rs_id s)) (statements c))"

definition link_inv :: "string \<Rightarrow> link_sys \<Rightarrow> bool" where
  "link_inv b s =
     (jobs_ok b (ls_cat s) \<and> statements_ok (ls_cat s) \<and> distinct (ls_flight s) \<and> distinct (ls_deferred s) \<and>
      (\<forall>sid. job_status b sid (ls_cat s) = Some ''running'' \<longleftrightarrow> sid \<in> set (ls_flight s)) \<and>
      (\<forall>sid \<in> set (ls_deferred s). job_status b sid (ls_cat s) = Some ''retry'') \<and>
      (\<forall>x \<in> set (statements (ls_cat s)). rs_build x = b \<longrightarrow> job_status b (rs_id x) (ls_cat s) \<noteq> None))"

lemma mark_job_status:
  assumes "mark_job b sid st cs e c = Inr c'"
  shows "job_status b' sid' c' = (if b' = b \<and> sid' = sid then Some st else job_status b' sid' c)"
proof (cases "find_job b sid c")
  case None
  with assms have j: "topic_jobs c' = topic_jobs c @ [\<lparr>tj_build = b, tj_statement = sid, tj_status = st,
      tj_candidates = cs, tj_attempts = (if st = ''running'' then 1 else 0), tj_error = e\<rparr>]"
    by (auto simp: mark_job_def split: if_splits)
  with None show ?thesis
    by (auto simp: job_status_def find_job_def find_snoc split: option.splits)
next
  case (Some j)
  with assms have "find_job b' sid' c' = map_option (\<lambda>j. if tj_build j = b \<and> tj_statement j = sid
      then marked st cs e j else j)
      (find_job b' sid' c)"
    by (auto simp: mark_job_def find_job_def find_update_pred)
  with Some show ?thesis
    by (cases "find_job b' sid' c") (auto simp: job_status_def find_job_def dest: find_in_set)
qed

lemma mark_job_select:
  assumes "mark_job b sid st cs e c = Inr c'"
  shows "statements c' = statements c" "checkpoints c' = checkpoints c"
    "link_rows x c' = link_rows x c" "find_statement x y c' = find_statement x y c"
    "topic_links c' = topic_links c"
  using assms
  by (auto simp: mark_job_def link_rows_def find_checkpoint_def find_statement_def split: if_splits)

lemma mark_job_keys:
  assumes "mark_job b sid st cs e c = Inr c'" and "st \<in> set job_states"
    and "distinct (map (\<lambda>j. (tj_build j, tj_statement j)) (topic_jobs c))"
    and "\<forall>j \<in> set (topic_jobs c). tj_status j \<in> set job_states \<and>
         find_statement (tj_build j) (tj_statement j) c \<noteq> None"
  shows "distinct (map (\<lambda>j. (tj_build j, tj_statement j)) (topic_jobs c')) \<and>
    (\<forall>j \<in> set (topic_jobs c'). tj_status j \<in> set job_states \<and>
         find_statement (tj_build j) (tj_statement j) c' \<noteq> None)"
proof (cases "find_job b sid c")
  case None
  with assms(1) have j: "topic_jobs c' = topic_jobs c @ [\<lparr>tj_build = b, tj_statement = sid, tj_status = st,
      tj_candidates = cs, tj_attempts = (if st = ''running'' then 1 else 0), tj_error = e\<rparr>]"
    and fk: "find_statement b sid c \<noteq> None"
    by (auto simp: mark_job_def split: if_splits)
  from None have "(b, sid) \<notin> (\<lambda>j. (tj_build j, tj_statement j)) ` set (topic_jobs c)"
    by (auto simp: find_job_def find_None_iff)
  with assms(2-) fk show ?thesis
    by (auto simp: j mark_job_select(4) [OF assms(1)])
next
  case (Some j0)
  from Some assms(1) have j: "topic_jobs c' = update_where (\<lambda>j. tj_build j = b \<and> tj_statement j = sid)
      (marked st cs e) (topic_jobs c)"
    by (auto simp: mark_job_def)
  have "map (\<lambda>j. (tj_build j, tj_statement j)) (topic_jobs c') = map (\<lambda>j. (tj_build j, tj_statement j)) (topic_jobs c)"
    unfolding j by (rule map_update_where) simp
  with assms(2-) show ?thesis
    by (auto simp: j mark_job_select(4) [OF assms(1)] elim!: mem_update_whereE split: if_splits)
qed

lemma job_status_mem:
  assumes "distinct (map (\<lambda>j. (tj_build j, tj_statement j)) (topic_jobs c))"
  shows "job_status b sid c = Some st \<longleftrightarrow>
    (\<exists>j \<in> set (topic_jobs c). tj_build j = b \<and> tj_statement j = sid \<and> tj_status j = st)"
proof
  assume "job_status b sid c = Some st"
  then show "\<exists>j \<in> set (topic_jobs c). tj_build j = b \<and> tj_statement j = sid \<and> tj_status j = st"
    by (auto simp: job_status_def find_job_def dest!: find_in_set)
next
  assume "\<exists>j \<in> set (topic_jobs c). tj_build j = b \<and> tj_statement j = sid \<and> tj_status j = st"
  then obtain j where "j \<in> set (topic_jobs c)" "tj_build j = b" "tj_statement j = sid" "tj_status j = st"
    by blast
  then show "job_status b sid c = Some st"
    using find_unique [OF assms, of j] by (simp add: job_status_def find_job_def)
qed

lemma terminal_ids_card:
  assumes "distinct (map (\<lambda>j. (tj_build j, tj_statement j)) (topic_jobs c))"
  shows "distinct (terminal_ids b c)"
    and "set (terminal_ids b c) = {sid. \<exists>st. job_status b sid c = Some st \<and> terminal_job st}"
proof -
  have "distinct (map (\<lambda>j. (tj_build j, tj_statement j))
      (filter (\<lambda>j. tj_build j = b \<and> terminal_job (tj_status j)) (topic_jobs c)))"
    using assms by (rule distinct_map_filter)
  then show "distinct (terminal_ids b c)"
    by (auto simp: terminal_ids_def distinct_map inj_on_def)
  show "set (terminal_ids b c) = {sid. \<exists>st. job_status b sid c = Some st \<and> terminal_job st}"
    by (auto simp: terminal_ids_def job_status_mem [OF assms])
qed

lemma length_terminal_ids:
  assumes "distinct (map (\<lambda>j. (tj_build j, tj_statement j)) (topic_jobs c))"
  shows "length (terminal_ids b c) = card {sid. \<exists>st. job_status b sid c = Some st \<and> terminal_job st}"
  using distinct_card [OF terminal_ids_card(1) [OF assms]] terminal_ids_card(2) [OF assms] by simp


abbreviation finished_set :: "string \<Rightarrow> catalog \<Rightarrow> string set" where
  "finished_set b c \<equiv> {sid. \<exists>st. job_status b sid c = Some st \<and> terminal_job st}"

lemma finite_finished:
  assumes "distinct (map (\<lambda>j. (tj_build j, tj_statement j)) (topic_jobs c))"
  shows "finite (finished_set b c)"
  unfolding terminal_ids_card(2) [OF assms, symmetric] by (rule finite_set)

lemma jobs_ok_card:
  "jobs_ok b c \<longleftrightarrow>
     distinct (map (\<lambda>j. (tj_build j, tj_statement j)) (topic_jobs c)) \<and>
     (\<forall>j \<in> set (topic_jobs c). tj_status j \<in> set job_states \<and>
        find_statement (tj_build j) (tj_statement j) c \<noteq> None) \<and>
     link_rows b c = card (finished_set b c)"
  by (auto simp: jobs_ok_def length_terminal_ids)

lemma jobs_ok_mark:
  assumes "jobs_ok b c" and "mark_job b sid st cs e c = Inr c'" and "st \<in> set job_states"
    and "\<not> terminal_job st" and "\<And>old. job_status b sid c = Some old \<Longrightarrow> \<not> terminal_job old"
  shows "jobs_ok b c'"
proof -
  have "finished_set b c' = finished_set b c"
    using assms(4,5) by (auto simp: mark_job_status [OF assms(2)] split: if_splits)
  with assms(1) mark_job_keys [OF assms(2,3)] mark_job_select(3) [OF assms(2)] show ?thesis
    by (simp add: jobs_ok_card)
qed

lemma checkpoint_statement_rows:
  "link_rows b (checkpoint_statement b sid d c) = link_rows b c + d"
proof (cases "find_checkpoint b ''topic_link'' ''statements'' c")
  case None
  then have no: "\<not> (\<exists>k \<in> set (checkpoints c).
      ck_build k = b \<and> ck_sink k = ''topic_link'' \<and> ck_partition k = ''statements'')"
    by (auto simp: find_checkpoint_def find_None_iff)
  with None show ?thesis
    by (auto simp: link_rows_def find_checkpoint_def checkpoint_statement_def Let_def find_snoc)
next
  case (Some k)
  then have yes: "\<exists>k \<in> set (checkpoints c).
      ck_build k = b \<and> ck_sink k = ''topic_link'' \<and> ck_partition k = ''statements''"
    by (auto simp: find_checkpoint_def dest!: find_in_set)
  with Some find_in_set [OF Some [unfolded find_checkpoint_def]] show ?thesis
    by (simp add: link_rows_def find_checkpoint_def checkpoint_statement_def Let_def find_update_pred)
qed

lemma checkpoint_statement_select [simp]:
  "topic_jobs (checkpoint_statement b sid d c) = topic_jobs c"
  "statements (checkpoint_statement b sid d c) = statements c"
  "find_statement x y (checkpoint_statement b sid d c) = find_statement x y c"
  "job_status x y (checkpoint_statement b sid d c) = job_status x y c"
  by (simp_all add: checkpoint_statement_def Let_def find_statement_def job_status_def find_job_def)

lemma jobs_ok_finish:
  assumes "jobs_ok b c" and "job_status b sid c = Some old" and "\<not> terminal_job old"
    and "mark_job_and_checkpoint b sid st cs e c = Inr (entered, c')"
    and "terminal_job st" and "st \<in> set job_states"
  shows "jobs_ok b c' \<and> entered \<and> statements c' = statements c \<and>
    (\<forall>sid'. job_status b sid' c' = (if sid' = sid then Some st else job_status b sid' c))"
proof -
  from assms(2,3,5) have ent: "job_enters_terminal b sid st c"
    by (auto simp: job_enters_terminal_def job_status_def split: option.splits)
  with assms(4,5) obtain c1 where m: "mark_job b sid st cs e c = Inr c1"
    and c': "c' = checkpoint_statement b sid 1 c1" "entered"
    by (auto simp: mark_job_and_checkpoint_def res_bind_eq_Inr)
  from assms(1) have d: "distinct (map (\<lambda>j. (tj_build j, tj_statement j)) (topic_jobs c))"
    by (simp add: jobs_ok_def)
  have "finished_set b c1 = insert sid (finished_set b c)"
    using assms(5) by (auto simp: mark_job_status [OF m] split: if_splits)
  moreover have "sid \<notin> finished_set b c" using assms(2,3) by auto
  ultimately have "card (finished_set b c1) = Suc (card (finished_set b c))"
    using finite_finished [OF d] by simp
  then have "jobs_ok b c'"
    using assms(1) mark_job_keys [OF m assms(6)]
    by (simp add: jobs_ok_card c' checkpoint_statement_rows mark_job_select(3) [OF m])
  with c' show ?thesis
    using mark_job_select(1) [OF m] mark_job_status [OF m] by simp
qed

lemma link_inv_disjoint:
  assumes "link_inv b s" and "sid \<in> set (ls_flight s)"
  shows "sid \<notin> set (ls_deferred s)"
proof
  assume "sid \<in> set (ls_deferred s)"
  with assms(1) have "job_status b sid (ls_cat s) = Some ''retry''" unfolding link_inv_def by blast
  moreover from assms have "job_status b sid (ls_cat s) = Some ''running''" unfolding link_inv_def by blast
  ultimately show False by simp
qed

lemma link_inv_finish:
  assumes "link_inv b s" and "sid \<in> set (ls_flight s)" and "terminal_job st" and "st \<in> set job_states"
    and c1: "topic_jobs c1 = topic_jobs (ls_cat s)" "statements c1 = statements (ls_cat s)"
      "checkpoints c1 = checkpoints (ls_cat s)"
    and m: "mark_job_and_checkpoint b sid st cs e c1 = Inr (entered, c')"
  shows "link_inv b (s\<lparr>ls_cat := c', ls_flight := drop_one sid (ls_flight s)\<rparr>)"
proof -
  let ?c = "ls_cat s"
  have st: "job_status x y c1 = job_status x y ?c" for x y
    by (simp add: job_status_def find_job_def c1)
  have "find_statement x y c1 = find_statement x y ?c" "link_rows x c1 = link_rows x ?c"
    "terminal_ids x c1 = terminal_ids x ?c" for x y
    by (simp_all add: find_statement_def link_rows_def find_checkpoint_def terminal_ids_def c1)
  with assms(1) have ok: "jobs_ok b c1" by (simp add: link_inv_def jobs_ok_def c1)
  from assms(1,2) have run: "job_status b sid c1 = Some ''running''" by (simp add: link_inv_def st)
  have "\<not> terminal_job ''running''" by (simp add: terminal_job_def)
  from jobs_ok_finish [OF ok run this m assms(3,4)]
  have c': "jobs_ok b c'" "statements c' = statements ?c"
    "\<And>x. job_status b x c' = (if x = sid then Some st else job_status b x ?c)"
    by (auto simp: c1 st)
  from assms(3) have "st \<noteq> ''running''" "st \<noteq> ''retry''" by (auto simp: terminal_job_def)
  moreover have "sid \<notin> set (ls_deferred s)" by (rule link_inv_disjoint [OF assms(1,2)])
  ultimately show ?thesis
    using assms(1) c' by (auto simp: link_inv_def drop_one_def statements_ok_def)
qed

lemma link_inv_retry:
  assumes "link_inv b s" and "sid \<in> set (ls_flight s)"
    and m: "mark_job b sid ''retry'' [] (Some e) (ls_cat s) = Inr c'"
    and s': "ls_cat s' = c'" "ls_flight s' = drop_one sid (ls_flight s)"
      "ls_deferred s' = ls_deferred s \<or> ls_deferred s' = sid # ls_deferred s"
  shows "link_inv b s'"
proof -
  from assms(1,2) have run: "job_status b sid (ls_cat s) = Some ''running''" by (simp add: link_inv_def)
  then have "jobs_ok b c'"
    using assms(1) by (intro jobs_ok_mark [OF _ m]) (auto simp: link_inv_def job_states_def terminal_job_def)
  moreover have "sid \<notin> set (ls_deferred s)" by (rule link_inv_disjoint [OF assms(1,2)])
  ultimately show ?thesis
    using assms(1) s' mark_job_select(1) [OF m] mark_job_status [OF m]
    by (auto simp: link_inv_def drop_one_def statements_ok_def)
qed


lemma map_filter_fst:
  "map fst (List.map_filter (\<lambda>j. if P j then map_option (\<lambda>s. (g j, h s)) (k j) else None) js) =
     map g (filter (\<lambda>j. P j \<and> k j \<noteq> None) js)"
  by (induction js) (auto simp: List.map_filter_simps)

lemma image_nonempty: "x \<in> f ` A \<Longrightarrow> A \<noteq> {}"
  by auto

lemma take_sort_nil:
  assumes "take (Suc n) (sort_key f xs) = []"
  shows "set xs = {}"
proof -
  from assms have "sort_key f xs = []" by simp
  then have "set (sort_key f xs) = {}" unfolding set_empty .
  then show ?thesis unfolding set_sort .
qed

lemma claim_rows_set:
  assumes "jobs_ok b c"
  shows "distinct (map fst (claim_rows b st deferred n c))"
    and "sid \<in> fst ` set (claim_rows b st deferred n c) \<Longrightarrow>
         job_status b sid c = Some st \<and> sid \<notin> set deferred"
    and "claim_rows b st deferred (Suc n) c = [] \<Longrightarrow> job_status b sid c = Some st \<Longrightarrow> sid \<in> set deferred"
proof -
  let ?P = "\<lambda>j. tj_build j = b \<and> tj_status j = st \<and> tj_statement j \<notin> set deferred"
  let ?rows = "List.map_filter (\<lambda>j. if ?P j
      then map_option (\<lambda>s. (tj_statement j, rs_text s)) (find_statement b (tj_statement j) c) else None)
      (topic_jobs c)"
  from assms have d: "distinct (map (\<lambda>j. (tj_build j, tj_statement j)) (topic_jobs c))"
    and fk: "\<And>j. j \<in> set (topic_jobs c) \<Longrightarrow> find_statement (tj_build j) (tj_statement j) c \<noteq> None"
    by (auto simp: jobs_ok_def)
  note rows = map_filter_fst [of ?P tj_statement rs_text "\<lambda>j. find_statement b (tj_statement j) c" "topic_jobs c"]
  have "distinct (map (\<lambda>j. (tj_build j, tj_statement j))
      (filter (\<lambda>j. ?P j \<and> find_statement b (tj_statement j) c \<noteq> None) (topic_jobs c)))"
    using d by (rule distinct_map_filter)
  then have "distinct (map fst ?rows)"
    unfolding rows by (auto simp: distinct_map inj_on_def)
  then have "distinct (map fst (sort_key fst ?rows))"
    by (simp only: distinct_map distinct_sort set_sort)
  then show "distinct (map fst (claim_rows b st deferred n c))"
    unfolding claim_rows_def take_map [symmetric] by (rule distinct_take)
  have mem: "x \<in> fst ` set ?rows \<longleftrightarrow> job_status b x c = Some st \<and> x \<notin> set deferred" for x
  proof -
    have "fst ` set ?rows = tj_statement ` set (filter
        (\<lambda>j. ?P j \<and> find_statement b (tj_statement j) c \<noteq> None) (topic_jobs c))"
      using arg_cong [OF rows, of set] by (simp only: set_map)
    then show ?thesis using fk by (auto simp: job_status_mem [OF d])
  qed
  show "job_status b sid c = Some st \<and> sid \<notin> set deferred"
    if "sid \<in> fst ` set (claim_rows b st deferred n c)"
  proof -
    from that have "sid \<in> fst ` set ?rows"
      unfolding claim_rows_def by (metis (no_types, lifting) image_iff in_set_takeD set_sort)
    then show ?thesis unfolding mem .
  qed
  show "sid \<in> set deferred"
    if "claim_rows b st deferred (Suc n) c = []" and "job_status b sid c = Some st"
  proof (rule ccontr)
    assume "sid \<notin> set deferred"
    with that(2) have "sid \<in> fst ` set ?rows" unfolding mem by simp
    then have "set ?rows \<noteq> {}" by (rule image_nonempty)
    moreover have "set ?rows = {}" using that(1) unfolding claim_rows_def by (rule take_sort_nil)
    ultimately show False by contradiction
  qed
qed

lemma claimed_rows_facts:
  assumes "jobs_ok b c"
  shows "distinct (map fst (claimed_rows b n deferred c))"
    and "r \<in> set (claimed_rows b n deferred c) \<Longrightarrow>
      fst r \<notin> set deferred \<and> (\<exists>st. job_status b (fst r) c = Some st \<and> st \<in> {''retry'', ''pending''})"
proof -
  note facts = claim_rows_set [OF assms]
  have disj: "fst ` set (claim_rows b ''retry'' deferred n c) \<inter> fst ` set (claim_rows b ''pending'' deferred m c) = {}" for m
    using facts(2) [of _ "''retry''" deferred n] facts(2) [of _ "''pending''" deferred m] by force
  then show "distinct (map fst (claimed_rows b n deferred c))"
    using facts(1) by (simp add: claimed_rows_def Let_def)
  show "fst r \<notin> set deferred \<and> (\<exists>st. job_status b (fst r) c = Some st \<and> st \<in> {''retry'', ''pending''})"
    if "r \<in> set (claimed_rows b n deferred c)"
    using that facts(2) [of "fst r"] by (fastforce simp: claimed_rows_def Let_def split: if_splits)
qed

lemma claim_fold:
  assumes "link_inv b s" and "distinct (map fst rows)"
    and "\<And>r. r \<in> set rows \<Longrightarrow> fst r \<notin> set (ls_deferred s) \<and>
      (\<exists>st. job_status b (fst r) (ls_cat s) = Some st \<and> st \<in> {''retry'', ''pending''})"
    and "res_fold (\<lambda>r. mark_job b (fst r) ''running'' [] None) rows (ls_cat s) = Inr c'"
  shows "link_inv b (s\<lparr>ls_cat := c', ls_flight := ls_flight s @ map fst rows\<rparr>)"
  using assms
proof (induction rows arbitrary: s)
  case (Cons r rows)
  from Cons.prems(4) obtain c1 where m: "mark_job b (fst r) ''running'' [] None (ls_cat s) = Inr c1"
    and rest: "res_fold (\<lambda>r. mark_job b (fst r) ''running'' [] None) rows c1 = Inr c'"
    by (auto simp: res_bind_eq_Inr)
  from Cons.prems(3) [of r] obtain st where r: "fst r \<notin> set (ls_deferred s)"
    "job_status b (fst r) (ls_cat s) = Some st" "st \<in> {''retry'', ''pending''}" by auto
  let ?s = "s\<lparr>ls_cat := c1, ls_flight := ls_flight s @ [fst r]\<rparr>"
  have "jobs_ok b c1"
    using Cons.prems(1) r
    by (intro jobs_ok_mark [OF _ m]) (auto simp: link_inv_def job_states_def terminal_job_def)
  moreover have "fst r \<notin> set (ls_flight s)"
  proof
    assume "fst r \<in> set (ls_flight s)"
    with Cons.prems(1) have "job_status b (fst r) (ls_cat s) = Some ''running''"
      unfolding link_inv_def by blast
    with r show False by auto
  qed
  ultimately have "link_inv b ?s"
    using Cons.prems(1) r(1) mark_job_select(1) [OF m] mark_job_status [OF m]
    by (auto simp: link_inv_def statements_ok_def)
  moreover have "fst x \<notin> set (ls_deferred ?s) \<and>
      (\<exists>st. job_status b (fst x) (ls_cat ?s) = Some st \<and> st \<in> {''retry'', ''pending''})" if "x \<in> set rows" for x
  proof -
    have "fst x \<noteq> fst r" using Cons.prems(2) that by (metis distinct.simps(2) imageI list.simps(9) set_map)
    then show ?thesis using Cons.prems(3) [of x] that by (simp add: mark_job_status [OF m])
  qed
  ultimately have "link_inv b (?s\<lparr>ls_cat := c', ls_flight := ls_flight ?s @ map fst rows\<rparr>)"
    using Cons.prems(2) rest by (intro Cons.IH) auto
  then show ?case by simp
next
  case Nil
  then have "ls_cat s = c'" by simp
  then have "s\<lparr>ls_cat := c', ls_flight := ls_flight s @ map fst []\<rparr> = s" by (cases s) simp
  with Nil.prems(1) show ?case by simp
qed

lemma link_inv_claim:
  assumes "link_inv b s" and "turn_claim b limit s = Inr s'"
  shows "link_inv b s'"
proof -
  let ?rows = "claimed_rows b limit (ls_deferred s) (ls_cat s)"
  from assms(2) obtain c' where
    fold: "res_fold (\<lambda>r. mark_job b (fst r) ''running'' [] None) ?rows (ls_cat s) = Inr c'"
    and s': "s' = s\<lparr>ls_cat := c', ls_flight := ls_flight s @ map fst ?rows\<rparr>"
    by (auto simp: turn_claim_def claim_statement_batch_def Let_def res_bind_eq_Inr split: if_splits)
  from assms(1) have ok: "jobs_ok b (ls_cat s)" by (simp add: link_inv_def)
  show ?thesis
    unfolding s' using claimed_rows_facts [OF ok] by (intro claim_fold [OF assms(1) _ _ fold]) auto
qed

lemma reset_jobs_status:
  assumes "reset_running_jobs b c = Inr (n, c')"
  shows "job_status b sid c' = (if job_status b sid c = Some ''running'' then Some ''retry'' else job_status b sid c)"
proof -
  have "topic_jobs c' = update_where (\<lambda>j. tj_build j = b \<and> tj_status j = ''running'')
      (\<lambda>j. j\<lparr>tj_status := ''retry'', tj_error := Some ''interrupted_run_reset''\<rparr>) (topic_jobs c)"
    using assms by (auto simp: reset_running_jobs_def)
  then show ?thesis
    by (cases "find_job b sid c") (auto simp: job_status_def find_job_def find_update_pred dest: find_in_set)
qed

lemma reset_jobs_ok:
  assumes "jobs_ok b c" and "reset_running_jobs b c = Inr (n, c')"
  shows "jobs_ok b c'" and "statements c' = statements c"
proof -
  have j: "topic_jobs c' = update_where (\<lambda>j. tj_build j = b \<and> tj_status j = ''running'')
      (\<lambda>j. j\<lparr>tj_status := ''retry'', tj_error := Some ''interrupted_run_reset''\<rparr>) (topic_jobs c)"
    and rest: "statements c' = statements c" "checkpoints c' = checkpoints c"
    using assms(2) by (auto simp: reset_running_jobs_def)
  show "statements c' = statements c" by (rule rest)
  have keys: "map (\<lambda>j. (tj_build j, tj_statement j)) (topic_jobs c') = map (\<lambda>j. (tj_build j, tj_statement j)) (topic_jobs c)"
    unfolding j by (rule map_update_where) simp
  have "finished_set b c' = finished_set b c"
    by (auto simp: reset_jobs_status [OF assms(2)] terminal_job_def split: if_splits)
  moreover have "tj_status x \<in> set job_states \<and> find_statement (tj_build x) (tj_statement x) c' \<noteq> None"
    if "x \<in> set (topic_jobs c')" for x
    using that assms(1) unfolding j
    by (auto simp: jobs_ok_def job_states_def find_statement_def rest elim!: mem_update_whereE split: if_splits)
  ultimately show "jobs_ok b c'"
    using assms(1) unfolding jobs_ok_card keys by (simp add: link_rows_def find_checkpoint_def rest)
qed

lemma find_map_const:
  assumes "\<And>x. g (f x) = d"
  shows "map_option g (find P (map f xs)) = (if \<exists>x \<in> set xs. P (f x) then Some d else None)"
proof -
  have "find P (map f xs) = map_option f (find (\<lambda>x. P (f x)) xs)" by (induction xs) auto
  then show ?thesis
    by (cases "find (\<lambda>x. P (f x)) xs") (auto simp: find_None_iff assms dest: find_in_set)
qed

lemma ensure_jobs_status:
  assumes "ensure_topic_link_jobs b c = Inr (n, c')"
  shows "job_status b sid c' = (if job_status b sid c = None \<and> (\<exists>x \<in> set (statements c). rs_build x = b \<and> rs_id x = sid)
    then Some ''pending'' else job_status b sid c)"
proof -
  let ?new = "filter (\<lambda>s. rs_build s = b \<and> find_job b (rs_id s) c = None) (statements c)"
  let ?mk = "\<lambda>s. \<lparr>tj_build = b, tj_statement = rs_id s, tj_status = ''pending'', tj_candidates = [],
      tj_attempts = 0, tj_error = None\<rparr>"
  have j: "topic_jobs c' = topic_jobs c @ map ?mk ?new"
    using assms by (auto simp: ensure_topic_link_jobs_def Let_def)
  have "map_option tj_status (find P (map ?mk ?new)) =
      (if \<exists>x \<in> set ?new. P (?mk x) then Some ''pending'' else None)" for P
    by (rule find_map_const) simp
  then show ?thesis
    by (cases "find_job b sid c") (auto simp: job_status_def find_job_def j find_append)
qed

lemma ensure_jobs_ok:
  assumes "jobs_ok b c" and "statements_ok c" and "ensure_topic_link_jobs b c = Inr (n, c')"
  shows "jobs_ok b c'" and "statements c' = statements c"
proof -
  let ?new = "filter (\<lambda>s. rs_build s = b \<and> find_job b (rs_id s) c = None) (statements c)"
  let ?mk = "\<lambda>s. \<lparr>tj_build = b, tj_statement = rs_id s, tj_status = ''pending'', tj_candidates = [],
      tj_attempts = 0, tj_error = None\<rparr>"
  have j: "topic_jobs c' = topic_jobs c @ map ?mk ?new"
    and rest: "statements c' = statements c" "checkpoints c' = checkpoints c"
    using assms(3) by (auto simp: ensure_topic_link_jobs_def Let_def)
  show "statements c' = statements c" by (rule rest)
  have "finished_set b c' = finished_set b c"
    by (auto simp: ensure_jobs_status [OF assms(3)] terminal_job_def split: if_splits)
  moreover have "distinct (map (\<lambda>s. (rs_build s, rs_id s)) ?new)"
    using assms(2) unfolding statements_ok_def by (rule distinct_map_filter)
  then have "distinct (map (\<lambda>j. (tj_build j, tj_statement j)) (map ?mk ?new))"
    by (auto simp: distinct_map inj_on_def)
  moreover have "\<forall>x \<in> set ?new. \<forall>j \<in> set (topic_jobs c). \<not> (tj_build j = b \<and> tj_statement j = rs_id x)"
    by (auto simp: find_job_def find_None_iff)
  moreover have "find_statement b (rs_id x) c \<noteq> None" if "x \<in> set ?new" for x
    using that by (auto simp: find_statement_def find_None_iff)
  ultimately show "jobs_ok b c'"
    using assms(1) unfolding jobs_ok_card
    by (auto simp: j link_rows_def find_checkpoint_def find_statement_def rest job_states_def)
qed

lemma link_inv_start:
  assumes "jobs_ok b c" and "statements_ok c" and "link_start b c = Inr s"
  shows "link_inv b s"
proof -
  from assms(3) obtain n1 n2 c1 c2 where r: "reset_running_jobs b c = Inr (n1, c1)"
    and e: "ensure_topic_link_jobs b c1 = Inr (n2, c2)"
    and s: "s = \<lparr>ls_cat = c2, ls_flight = [], ls_deferred = [], ls_stopped = False\<rparr>"
    by (auto simp: link_start_def res_bind_eq_Inr split: prod.splits)
  have c1: "jobs_ok b c1" "statements c1 = statements c" using reset_jobs_ok [OF assms(1) r] by auto
  with assms(2) have "statements_ok c1" by (simp add: statements_ok_def)
  from ensure_jobs_ok [OF c1(1) this e] c1(2) have c2: "jobs_ok b c2" "statements c2 = statements c" by auto
  have st: "job_status b sid c2 \<noteq> Some ''running''"
    "(\<exists>x \<in> set (statements c). rs_build x = b \<and> rs_id x = sid) \<Longrightarrow> job_status b sid c2 \<noteq> None" for sid
    by (auto simp: ensure_jobs_status [OF e] reset_jobs_status [OF r] c1 split: if_splits)
  with c2 assms(2) show ?thesis by (auto simp: s link_inv_def statements_ok_def)
qed

abbreviation same_jobs :: "catalog \<Rightarrow> catalog \<Rightarrow> bool" where
  "same_jobs c c' \<equiv> topic_jobs c' = topic_jobs c \<and> statements c' = statements c \<and> checkpoints c' = checkpoints c"

lemma finding_same_jobs: "same_jobs c (record_topic_finding env b code ref det sev c)"
  by (simp add: record_topic_finding_def Let_def)

lemma provisional_same_jobs:
  "provisional_topic env te v co c = Inr (tid, c') \<Longrightarrow> same_jobs c c'"
  by (auto simp: provisional_topic_def res_bind_eq_Inr Let_def split: option.splits if_splits)

lemma choose_same_jobs:
  assumes "choose_topic env te v choices co c = Inr (choice, c')"
  shows "same_jobs c c'"
proof -
  from assms obtain key where key: "topic_alias_key te (co_name co) = Inr key"
    by (auto simp: choose_topic_def res_bind_eq_Inr)
  show ?thesis
  proof (cases "exact_alias v key c")
    case (Some t)
    with assms key show ?thesis by (auto simp: choose_topic_def split: if_splits)
  next
    case None
    with assms key show ?thesis
      by (auto simp: choose_topic_def res_bind_eq_Inr split: option.splits semantic_choice.splits if_splits
          dest: provisional_same_jobs)
  qed
qed

lemma upsert_same_jobs: "upsert_link l c = Inr c' \<Longrightarrow> same_jobs c c'"
  by (auto simp: upsert_link_def Let_def split: if_splits)

lemma link_concept_same_jobs:
  "link_concept env te b sid v n choices co c = Inr c' \<Longrightarrow> same_jobs c c'"
  by (auto simp: link_concept_def res_bind_eq_Inr split: option.splits
      dest!: choose_same_jobs upsert_same_jobs)

lemma apply_same_jobs:
  assumes "apply_statement_concepts env te b sid raw concepts choices c = Inr c'"
  shows "same_jobs c c'"
proof -
  from assms obtain v n where
    fold: "res_fold (link_concept env te b sid v n choices) (validate_concepts te raw concepts) c = Inr c'"
    by (auto simp: apply_statement_concepts_def Let_def split: option.splits)
  show ?thesis
    by (rule res_fold_inv [where I = "same_jobs c", OF _ _ fold]) (auto dest!: link_concept_same_jobs)
qed

lemma link_inv_linked:
  assumes "link_inv b s" and "sid \<in> set (ls_flight s)"
    and "turn_linked env te b sid raw concepts rejected choices cands s = Inr s'"
  shows "link_inv b s'"
proof -
  define c0 where "c0 = (if rejected = 0 then ls_cat s
      else record_topic_finding env b ''topic_concept_rejected'' sid
             [(''statement_id'', JStr sid), (''rejected_concepts'', JInt (int rejected)),
              (''reason'', JStr ''invalid_evidence_kind_or_relation'')] ''warning'' (ls_cat s))"
  then have c0: "same_jobs (ls_cat s) c0" by (simp add: finding_same_jobs)
  have "turn_linked env te b sid raw concepts rejected choices cands s =
      res_bind (res_bind (apply_statement_concepts env te b sid raw (map concept_dict concepts) choices c0)
        (mark_job_and_checkpoint b sid ''succeeded'' cands None))
      (\<lambda>(_, c). Inr (s\<lparr>ls_cat := c, ls_flight := drop_one sid (ls_flight s)\<rparr>))"
    by (simp only: turn_linked_def complete_linked_statement_def Let_def c0_def)
  with assms(3) obtain c1 entered c' where
      ap: "apply_statement_concepts env te b sid raw (map concept_dict concepts) choices c0 = Inr c1"
    and m: "mark_job_and_checkpoint b sid ''succeeded'' cands None c1 = Inr (entered, c')"
    and s': "s' = s\<lparr>ls_cat := c', ls_flight := drop_one sid (ls_flight s)\<rparr>"
    by (auto simp: res_bind_eq_Inr)
  show ?thesis
    unfolding s' using c0 apply_same_jobs [OF ap]
    by (intro link_inv_finish [OF assms(1,2) _ _ _ _ _ m]) (simp_all add: terminal_job_def job_states_def)
qed

lemma link_inv_step:
  assumes "link_inv b s" and "link_step env te b limit s s'"
  shows "link_inv b s'"
  using assms(2)
proof cases
  case claimed
  then show ?thesis using link_inv_claim [OF assms(1)] by simp
next
  case (invalid sid)
  then obtain entered c' where
      m: "mark_job_and_checkpoint b sid ''terminal-invalid-input'' []
            (Some ''empty_or_punctuation_only_statement'') (ls_cat s) = Inr (entered, c')"
    and s': "s' = s\<lparr>ls_cat := c', ls_flight := drop_one sid (ls_flight s)\<rparr>"
    by (auto simp: turn_invalid_def complete_invalid_statement_def res_bind_eq_Inr)
  show ?thesis
    unfolding s' by (rule link_inv_finish [OF assms(1) invalid(1) _ _ _ _ _ m])
      (simp_all add: terminal_job_def job_states_def)
next
  case linked
  then show ?thesis using link_inv_linked [OF assms(1)] by blast
next
  case (deferred sid e)
  then obtain c' where m: "mark_job b sid ''retry'' [] (Some e) (ls_cat s) = Inr c'"
    and s': "s' = s\<lparr>ls_cat := c', ls_flight := drop_one sid (ls_flight s), ls_deferred := sid # ls_deferred s\<rparr>"
    by (auto simp: turn_defer_def res_bind_eq_Inr)
  show ?thesis by (rule link_inv_retry [OF assms(1) deferred(1) m]) (simp_all add: s')
next
  case (stopped sid e)
  then obtain c' where m: "mark_job b sid ''retry'' [] (Some e) (ls_cat s) = Inr c'"
    and s': "s' = s\<lparr>ls_cat := c', ls_flight := drop_one sid (ls_flight s), ls_stopped := True\<rparr>"
    by (auto simp: turn_stop_def res_bind_eq_Inr)
  show ?thesis by (rule link_inv_retry [OF assms(1) stopped(1) m]) (simp_all add: s')
next
  case crashed
  with assms(1) show ?thesis using link_inv_start by (auto simp: link_inv_def)
qed

lemma link_inv_reachable:
  assumes "link_reachable env te b limit c0 s" and "jobs_ok b c0" and "statements_ok c0"
  shows "link_inv b s"
  using assms(1) by induction (use assms(2,3) link_inv_start link_inv_step in blast)+

lemma nothing_to_claim:
  assumes "jobs_ok b c" and "claimed_rows b limit deferred c = []" and "0 < limit"
    and "job_status b sid c = Some st" and "\<not> terminal_job st" and "st \<noteq> ''running''"
  shows "sid \<in> set deferred"
proof -
  from assms(3) obtain n where n: "limit = Suc n" by (cases limit) auto
  with assms(2) have "claim_rows b ''retry'' deferred (Suc n) c = []"
    and "claim_rows b ''pending'' deferred (Suc n) c = []"
    by (auto simp: claimed_rows_def Let_def split: if_splits)
  moreover from assms(4) have "\<exists>j \<in> set (topic_jobs c). tj_status j = st"
    by (auto simp: job_status_def find_job_def dest!: find_in_set)
  with assms(1,5,6) have "st = ''retry'' \<or> st = ''pending''"
    by (auto simp: jobs_ok_def job_states_def terminal_job_def)
  ultimately show ?thesis
    using claim_rows_set(3) [OF assms(1)] assms(4) by blast
qed

lemma pending_iff:
  assumes "jobs_ok b c"
  shows "has_pending_work b c \<longleftrightarrow>
    (\<exists>x \<in> set (statements c). rs_build x = b \<and>
       (\<forall>st. job_status b (rs_id x) c = Some st \<longrightarrow> \<not> terminal_job st))"
proof -
  from assms have d: "distinct (map (\<lambda>j. (tj_build j, tj_statement j)) (topic_jobs c))"
    by (simp add: jobs_ok_def)
  show ?thesis unfolding has_pending_work_def job_status_mem [OF d] by blast
qed

lemma link_done_iff:
  assumes "link_inv b s" and "0 < limit" and "ls_flight s = []"
    and "claimed_rows b limit (ls_deferred s) (ls_cat s) = []"
  shows "ls_deferred s = [] \<longleftrightarrow> \<not> has_pending_work b (ls_cat s)"
proof -
  from assms(1) have ok: "jobs_ok b (ls_cat s)" by (simp add: link_inv_def)
  have "terminal_job st"
    if "ls_deferred s = []" "job_status b sid (ls_cat s) = Some st" for sid st
    using nothing_to_claim [OF ok assms(4,2) that(2)] that assms(1,3)
    by (auto simp: link_inv_def)
  moreover have "job_status b (rs_id x) (ls_cat s) \<noteq> None"
    if "x \<in> set (statements (ls_cat s))" "rs_build x = b" for x
    using assms(1) that by (simp add: link_inv_def)
  moreover have "has_pending_work b (ls_cat s)" if "sid \<in> set (ls_deferred s)" for sid
  proof -
    from assms(1) that have retry: "job_status b sid (ls_cat s) = Some ''retry''"
      by (simp add: link_inv_def)
    then obtain j where j: "j \<in> set (topic_jobs (ls_cat s))" "tj_build j = b" "tj_statement j = sid"
      by (auto simp: job_status_def find_job_def dest!: find_in_set)
    with ok have "find_statement b sid (ls_cat s) \<noteq> None" unfolding jobs_ok_def by blast
    then obtain x where "x \<in> set (statements (ls_cat s))" "rs_build x = b" "rs_id x = sid"
      by (auto simp: find_statement_def dest!: find_in_set)
    with retry show ?thesis unfolding pending_iff [OF ok] by (auto simp: terminal_job_def)
  qed
  ultimately show ?thesis
    unfolding pending_iff [OF ok] by (metis list.set_intros(1) neq_Nil_conv option.exhaust)
qed


definition demo_catalog :: catalog where
  "demo_catalog = new_catalog\<lparr>statements :=
     [\<lparr>rs_id = ''s1'', rs_build = ''b'', rs_entity = ''e'', rs_observation = ''o'', rs_text = ''.'',
       rs_normalized = ''.'', rs_language = ''unknown'', rs_hash = []\<rparr>]\<rparr>"

definition demo_linked :: "link_sys option" where
  "demo_linked =
     (case link_start ''b'' demo_catalog of Inl _ \<Rightarrow> None | Inr s \<Rightarrow>
       case turn_claim ''b'' 64 s of Inl _ \<Rightarrow> None | Inr s \<Rightarrow>
         (case turn_invalid ''b'' ''s1'' s of Inl _ \<Rightarrow> None | Inr s \<Rightarrow> Some s))"

lemma demo_linked_reachable:
  assumes "demo_linked = Some s"
  shows "link_reachable env te ''b'' 64 demo_catalog s"
proof -
  from assms obtain s0 s1 where r: "link_start ''b'' demo_catalog = Inr s0" "turn_claim ''b'' 64 s0 = Inr s1"
    "turn_invalid ''b'' ''s1'' s1 = Inr s"
    by (auto simp: demo_linked_def split: sum.splits)
  have "map_option ls_stopped (case link_start ''b'' demo_catalog of Inl _ \<Rightarrow> None | Inr s \<Rightarrow> Some s) = Some False"
    "map_option ls_flight (case link_start ''b'' demo_catalog of Inl _ \<Rightarrow> None | Inr s \<Rightarrow>
       case turn_claim ''b'' 64 s of Inl _ \<Rightarrow> None | Inr s \<Rightarrow> Some s) = Some [''s1'']"
    by code_simp+
  with r have "\<not> ls_stopped s0" "''s1'' \<in> set (ls_flight s1)" by auto
  with r show ?thesis
    by (blast intro: link_reachable.intros link_step.claimed link_step.invalid)
qed


end
