(* ===== verification/Dext_Release.thy ===== *)
theory Dext_Release
  imports Dext_Export Dext_Topic_Runs
begin

text \<open>
  Validation and publication of a build (\<open>lifecycle.py\<close>) and the repair of incompatible topic links
  (\<open>topic_repair.py\<close>): the deterministic checks, the transactions of a validation run and
  of a promotion, and the two programs around them, which also talk to the graph database and to
  the vector store.
\<close>

section \<open>Checks (lifecycle.py)\<close>

record check =
  ch_name :: string
  ch_passed :: bool
  ch_expected :: json
  ch_actual :: json
  ch_skipped :: bool

definition mk_check :: "string \<Rightarrow> bool \<Rightarrow> json \<Rightarrow> json \<Rightarrow> check" where
  "mk_check name ok expected actual =
     \<lparr>ch_name = name, ch_passed = ok, ch_expected = expected, ch_actual = actual, ch_skipped = False\<rparr>"

definition count_check :: "string \<Rightarrow> nat \<Rightarrow> check" where
  "count_check name n = mk_check name (n = 0) (JInt 0) (json_nat n)"

definition check_json :: "check \<Rightarrow> json" where
  "check_json k =
     JDict ([(''name'', JStr (ch_name k)), (''passed'', JBool (ch_passed k)), (''expected'', ch_expected k),
             (''actual'', ch_actual k)] @
            (if ch_skipped k then [(''skipped'', JBool True), (''skip_reason'', JStr ''skip_gold_gates'')] else []))"

text \<open>\<open>{"status": ..., **summary}\<close>: a key \<open>status\<close> of the summary would replace the status of the run.\<close>

definition stage_summary :: "string \<Rightarrow> 'a run_row_scheme list \<Rightarrow> metadata" where
  "stage_summary b rows =
     (case find_run b rows of
        None \<Rightarrow> [(''status'', JStr ''MISSING'')]
      | Some r \<Rightarrow> fold (\<lambda>(k, v). dict_set k v) (rr_summary r)
                    [(''status'', JStr (run_status_name (rr_status r)))])"

definition run_summaries :: "string \<Rightarrow> catalog \<Rightarrow> (string \<times> metadata) list" where
  "run_summaries b c =
     [(''curation'', stage_summary b (curation_runs c)), (''graph'', stage_summary b (graph_runs c)),
      (''topics'', stage_summary b (topic_runs c)), (''vector'', stage_summary b (vector_runs c))]"

definition runs_check :: "string \<Rightarrow> catalog \<Rightarrow> check" where
  "runs_check b c =
     (let statuses = map (\<lambda>(n, s). (n, json_get s ''status'')) (run_summaries b c)
      in mk_check ''stage_runs_completed'' (\<forall>(n, v) \<in> set statuses. v = JStr ''COMPLETED'')
           (JDict (map (\<lambda>(n, v). (n, JStr ''COMPLETED'')) statuses)) (JDict statuses))"

definition build_tasks :: "string \<Rightarrow> catalog \<Rightarrow> task_row list" where
  "build_tasks b c = sort_key bt_university (filter (\<lambda>t. bt_build t = b) (tasks c))"

definition bad_task :: "task_row \<Rightarrow> bool" where
  "bad_task t = (bt_status t \<noteq> T_completed \<or> bt_rows_read t \<noteq> bt_written t + bt_rejected t)"

definition source_checks :: "string \<Rightarrow> catalog \<Rightarrow> check list" where
  "source_checks b c =
     (let ts = build_tasks b c;
          bad = length (filter bad_task ts);
          rejected = sum_list (map bt_rejected ts);
          explained = length (filter (\<lambda>f. qf_build f = b \<and> qf_code f = ''legacy_row_unimportable'') (findings c))
      in [mk_check ''source_observation_coverage'' (ts \<noteq> [] \<and> bad = 0) (JInt 0) (json_nat bad),
          mk_check ''source_rejections_explained'' (rejected \<le> explained)
            (JStr (''>='' @ nat_str rejected)) (json_nat explained)])"

definition unobserved :: "string \<Rightarrow> catalog \<Rightarrow> canonical_row list" where
  "unobserved b c =
     filter (\<lambda>p. cp_build p = b \<and> cp_active p \<and>
        \<not> (\<exists>x \<in> set (entity_observations c). eo_build x = b \<and> eo_entity x = cp_entity p \<and>
             (\<exists>o1 \<in> set (observations c). po_id o1 = eo_observation x \<and> po_active o1)))
       (canonical_professors c)"

definition strong_claims :: "catalog \<Rightarrow> claim_row list" where
  "strong_claims c = filter (\<lambda>r. ic_active r \<and> ic_strong r) (identity_claims c)"

definition shared_claims :: "catalog \<Rightarrow> (string \<times> string) list" where
  "shared_claims c =
     filter (\<lambda>k. 1 < length (remdups (map ic_entity (filter (\<lambda>r. (ic_type r, ic_value r) = k) (strong_claims c)))))
       (remdups (map (\<lambda>r. (ic_type r, ic_value r)) (strong_claims c)))"

definition orphan_statements :: "string \<Rightarrow> catalog \<Rightarrow> statement_row list" where
  "orphan_statements b c =
     filter (\<lambda>s. rs_build s = b \<and>
        (find_observation (rs_observation s) c = None \<or>
         \<not> (\<exists>x \<in> set (entity_observations c). eo_build x = b \<and> eo_observation x = rs_observation s)))
       (statements c)"

text \<open>\<open>LIKE\<close> ignores the case of ASCII letters.\<close>

definition bad_provenance :: "string \<Rightarrow> catalog \<Rightarrow> export_row list" where
  "bad_provenance b c =
     filter (\<lambda>r. ex_build r = b \<and>
        (ex_provenance r = [] \<or> \<not> startswith (py_lower (ex_provenance r)) ''catalog:'' \<and>
         \<not> startswith (py_lower (ex_provenance r)) ''taxonomy:''))
       (export_rows c)"

definition manifest_check :: "catalog_env \<Rightarrow> string \<Rightarrow> catalog \<Rightarrow> check" where
  "manifest_check env b c =
     (let (bad, present) = manifest_mismatches env b c
      in mk_check ''catalog_graph_manifest'' (bad = 0 \<and> set present = set partitions)
           (json_nat (length partitions))
           (JDict [(''partitions'', json_nat (length present)), (''mismatches'', json_nat bad)]))"

definition eligible_professors :: "string \<Rightarrow> catalog \<Rightarrow> canonical_row list" where
  "eligible_professors b c = filter (\<lambda>p. cp_role p \<noteq> ''excluded'') (active_professors b c)"

definition exported_payload :: "string \<Rightarrow> string \<Rightarrow> catalog \<Rightarrow> metadata" where
  "exported_payload b e c =
     (case find (\<lambda>r. ex_build r = b \<and> ex_partition r = ''node:Professor'' \<and> ex_key r = e) (export_rows c) of
        None \<Rightarrow> [] | Some r \<Rightarrow> ex_payload r)"

definition profile_checks :: "string \<Rightarrow> catalog \<Rightarrow> check list" where
  "profile_checks b c =
     (let rows = map (\<lambda>p. (cp_entity p, profile_hash b (cp_entity p) c)) (eligible_professors b c)
      in [count_check ''eligible_professor_profiles'' (length (filter (\<lambda>(e, h). h = None) rows)),
          count_check ''catalog_graph_profile_hash''
            (length (filter (\<lambda>(e, h). json_get (exported_payload b e c) ''profile_hash'' \<noteq> json_opt h) rows))])"

definition strip_key :: "string \<Rightarrow> string option \<Rightarrow> string option" where
  "strip_key b k =
     (case k of None \<Rightarrow> None
      | Some s \<Rightarrow> if startswith s (b @ '':'') then Some (drop (length b + 1) s) else None)"

definition exported_units :: "string \<Rightarrow> string \<Rightarrow> catalog \<Rightarrow> string list" where
  "exported_units b e c =
     sort (remdups (List.map_filter (\<lambda>r.
        if ex_build r = b \<and> ex_partition r = ''rel:AFFILIATED_WITH'' \<and> strip_key b (ex_start r) = Some e
        then strip_key b (ex_end r) else None) (export_rows c)))"

definition units_check :: "(string, string list) dict \<Rightarrow> string \<Rightarrow> catalog \<Rightarrow> check" where
  "units_check units b c =
     count_check ''catalog_graph_org_units''
       (length (filter (\<lambda>p. exported_units b (cp_entity p) c \<noteq> units_of units (cp_entity p))
          (active_professors b c)))"

section \<open>Gold gates (lifecycle.py)\<close>

text \<open>\<open>fl\<close> is \<open>float\<close> on text.\<close>

definition json_float :: "(string \<Rightarrow> rat option) \<Rightarrow> json \<Rightarrow> (catalog_error, rat) result" where
  "json_float fl v =
     (case v of
        JInt i \<Rightarrow> Inr (of_int i)
      | JFloat q \<Rightarrow> Inr q
      | JBool x \<Rightarrow> Inr (if x then 1 else 0)
      | JStr s \<Rightarrow> (case fl s of None \<Rightarrow> Inl (Value_error_cat ''could not convert string to float'') | Some q \<Rightarrow> Inr q)
      | _ \<Rightarrow> Inl Type_error_cat)"

text \<open>\<open>summary.get(key, {})\<close>, of which \<open>.get\<close> is called: \<open>AttributeError\<close> when it is no dict.\<close>

definition sub_dict :: "metadata \<Rightarrow> string \<Rightarrow> (catalog_error, metadata) result" where
  "sub_dict d k =
     (case dict_get d k of
        None \<Rightarrow> Inr []
      | Some (JDict x) \<Rightarrow> Inr x
      | Some _ \<Rightarrow> Inl (External_error ''AttributeError'' ''object has no attribute get''))"

definition get_or :: "metadata \<Rightarrow> string \<Rightarrow> json \<Rightarrow> json" where
  "get_or d k dflt = (case dict_get d k of None \<Rightarrow> dflt | Some v \<Rightarrow> v)"

text \<open>\<open>a and b\<close> where the second operand may raise.\<close>

definition res_and :: "bool \<Rightarrow> ('e, bool) result \<Rightarrow> ('e, bool) result" where
  "res_and p q = (if p then q else Inr False)"

definition at_least :: "(string \<Rightarrow> rat option) \<Rightarrow> metadata \<Rightarrow> string \<Rightarrow> rat \<Rightarrow> (catalog_error, bool) result" where
  "at_least fl d k bound = res_bind (json_float fl (get_or d k (JInt 0))) (\<lambda>q. Inr (bound \<le> q))"

definition curation_gate :: "(string \<Rightarrow> rat option) \<Rightarrow> metadata \<Rightarrow> (catalog_error, check) result" where
  "curation_gate fl summary =
     res_bind (sub_dict summary ''gold'') (\<lambda>gold.
       res_bind (res_and (json_get gold ''status'' = JStr ''evaluated'')
           (res_bind (at_least fl gold ''auto_merge_pairwise_precision'' (995 / 1000)) (\<lambda>p1. res_and p1
             (res_bind (at_least fl gold ''excluded_precision'' (99 / 100)) (\<lambda>p2. res_and p2
               (at_least fl gold ''supervised_lecturer_retention'' (95 / 100)))))))
         (\<lambda>ok. Inr (mk_check ''curation_gold_gate'' ok (JStr ''evaluated and thresholds passed'')
                      (get_or gold ''status'' (JStr ''missing'')))))"

definition graph_gate :: "metadata \<Rightarrow> (catalog_error, check) result" where
  "graph_gate summary =
     res_bind (if json_get summary ''graph_gold_status'' = JStr ''evaluated''
               then res_bind (sub_dict summary ''graph_gold'') (\<lambda>gold. Inr (json_get gold ''gate_passed'' = JBool True))
               else Inr False)
       (\<lambda>ok. Inr (mk_check ''graph_gold_gate'' ok (JStr ''evaluated and passed'')
                    (get_or summary ''graph_gold_status'' (JStr ''missing''))))"

definition topic_gate :: "metadata \<Rightarrow> (catalog_error, check) result" where
  "topic_gate summary =
     res_bind (if json_get summary ''gold_status'' = JStr ''evaluated''
               then res_bind (sub_dict summary ''gold'') (\<lambda>gold.
                 Inr (\<forall>k \<in> {''topic_gate_passed'', ''relation_gate_passed'', ''subtopic_gate_passed'',
                            ''dag_gate_passed''}. json_get gold k = JBool True))
               else Inr False)
       (\<lambda>ok. Inr (mk_check ''topic_gold_gate'' ok (JStr ''evaluated and passed'')
                    (get_or summary ''gold_status'' (JStr ''missing''))))"

definition expected_vector :: "string \<Rightarrow> (string, string list) dict \<Rightarrow> catalog \<Rightarrow> canonical_row \<Rightarrow> metadata" where
  "expected_vector b units c p =
     [(''build_id'', JStr b), (''entity_id'', JStr (cp_entity p)),
      (''profile_hash'', json_opt (profile_hash b (cp_entity p) c)), (''role_status'', JStr (cp_role p)),
      (''org_unit_ids'', JList (map JStr (units_of units (cp_entity p))))]"

definition catalog_checks ::
    "catalog_env \<Rightarrow> org_env \<Rightarrow> topic_env \<Rightarrow> (string \<Rightarrow> rat option) \<Rightarrow> string \<Rightarrow> catalog \<Rightarrow>
     (catalog_error, check list \<times> (string, metadata) dict) result" where
  "catalog_checks env oe te fl b c =
     res_bind (entity_org_unit_map oe te b c) (\<lambda>units.
     res_bind (curation_gate fl (stage_summary b (curation_runs c))) (\<lambda>g1.
     res_bind (graph_gate (stage_summary b (graph_runs c))) (\<lambda>g2.
     res_bind (topic_gate (stage_summary b (topic_runs c))) (\<lambda>g3.
       Inr ([runs_check b c] @ source_checks b c @
            [count_check ''active_canonical_has_observation'' (length (unobserved b c)),
             count_check ''strong_claim_uniqueness'' (length (shared_claims c)),
             count_check ''research_statement_traceability'' (length (orphan_statements b c)),
             count_check ''graph_provenance_parseable'' (length (bad_provenance b c)),
             manifest_check env b c,
             count_check ''topic_link_compatibility'' (length (incompatible_links b c)),
             count_check ''topic_dag_cycles'' (topic_cycle_count b c)] @
            profile_checks b c @ [units_check units b c, g1, g2, g3],
            map (\<lambda>p. (cp_entity p, expected_vector b units c p)) (eligible_professors b c))))))"

section \<open>Vector store checks (lifecycle.py)\<close>

text \<open>
  \<open>sorted\<close> of JSON values: text or integers; other lists of more than one value raise, as comparing
  unlike values does.
\<close>

definition json_sorted :: "json list \<Rightarrow> (catalog_error, json list) result" where
  "json_sorted vs =
     (if list_all (\<lambda>v. case v of JStr _ \<Rightarrow> True | _ \<Rightarrow> False) vs
      then Inr (sort_key (\<lambda>v. case v of JStr s \<Rightarrow> s | _ \<Rightarrow> []) vs)
      else if list_all (\<lambda>v. case v of JInt _ \<Rightarrow> True | _ \<Rightarrow> False) vs
      then Inr (sort_key (\<lambda>v. case v of JInt i \<Rightarrow> i | _ \<Rightarrow> 0) vs)
      else if length vs \<le> 1 then Inr vs else Inl Type_error_cat)"

definition canonical_payload :: "metadata \<Rightarrow> (catalog_error, metadata) result" where
  "canonical_payload p =
     res_bind (res_bind (list_or_empty (json_get p ''org_unit_ids'')) json_sorted) (\<lambda>units.
       Inr [(''build_id'', json_get p ''build_id''), (''entity_id'', json_get p ''entity_id''),
            (''profile_hash'', json_get p ''profile_hash''), (''role_status'', json_get p ''role_status''),
            (''org_unit_ids'', JList units)])"

definition qdrant_compare ::
    "catalog_env \<Rightarrow> (string, metadata) dict \<Rightarrow> nat \<Rightarrow> (string \<times> metadata) list \<Rightarrow>
     (catalog_error, check list) result" where
  "qdrant_compare env expected count items =
     (let actual = fold (\<lambda>(e, p). dict_set e p) items [];
          duplicates = length items - length actual;
          differing = length (filter (\<lambda>e. e \<notin> fst ` set actual) (remdups (map fst expected)))
                    + length (filter (\<lambda>e. e \<notin> fst ` set expected) (map fst actual))
      in res_bind (res_fold (\<lambda>(e, p) acc. res_bind (canonical_payload p) (\<lambda>x. Inr (acc @ [(e, x)])))
                     (sort_key fst actual) [])
           (\<lambda>canonical.
             let bad = length (filter (\<lambda>(e, x). dict_get expected e \<noteq> Some x) canonical)
             in Inr [mk_check ''qdrant_point_count'' (count = length expected \<and> length expected = length actual)
                       (json_nat (length expected))
                       (JDict [(''count'', json_nat count), (''payloads'', json_nat (length actual))]),
                     count_check ''qdrant_entity_ids'' (differing + duplicates),
                     mk_check ''qdrant_payload_reconciliation'' (bad = 0) (JDict [(''mismatches'', JInt 0)])
                       (JDict [(''mismatches'', json_nat bad),
                               (''checksum'', JStr (canonical_json_hash env
                                  (JList (map (\<lambda>(e, x). JDict x) canonical))))])]))"

section \<open>The transactions (lifecycle.py)\<close>

definition validation_version :: string where "validation_version = ''release-validation-v1''"

definition gold_gates :: "string list" where
  "gold_gates = [''curation_gold_gate'', ''graph_gold_gate'', ''topic_gold_gate'']"

definition new_validation :: "string \<Rightarrow> string \<Rightarrow> validation_run" where
  "new_validation rid b =
     \<lparr>vl_id = rid, vl_build = b, vl_version = validation_version, vl_status = V_running,
      vl_manifest = JDict [], vl_hash = None, vl_finished = None, vl_error = None\<rparr>"

definition reopened :: "validation_run \<Rightarrow> validation_run" where
  "reopened v =
     v\<lparr>vl_status := V_running, vl_manifest := JDict [], vl_hash := None, vl_finished := None, vl_error := None\<rparr>"

definition prepare_validation :: "catalog_env \<Rightarrow> string \<Rightarrow> string handler" where
  "prepare_validation env b c =
     (case find_build b c of
        None \<Rightarrow> Inl (unknown_build b)
      | Some g \<Rightarrow>
          if gb_status g \<notin> {B_validating, B_failed_validation, B_ready}
          then Inl (Catalog_error (''build '' @ b @ '' cannot validate from status '' @ build_status_name (gb_status g)))
          else
            (let rid = hash_parts env [b, validation_version]
             in case find_validation b c of
                  None \<Rightarrow>
                    if rid \<in> vl_id ` set (validation_runs c) then Inl Integrity_error
                    else Inr (rid, set_build_status b B_validating
                           (c\<lparr>validation_runs := validation_runs c @ [new_validation rid b]\<rparr>))
                | Some v \<Rightarrow>
                    if vl_version v \<noteq> validation_version
                    then Inl (Catalog_error ''validation version changed; create a new build'')
                    else Inr (rid, set_build_status b B_validating
                           (c\<lparr>validation_runs := update_where (\<lambda>v. vl_build v = b) reopened (validation_runs c)\<rparr>))))"

record manifest =
  mf_build :: string
  mf_checks :: "check list"
  mf_skip :: bool
  mf_skipped :: "string list"

definition mf_passed :: "manifest \<Rightarrow> bool" where
  "mf_passed m = (\<forall>k \<in> set (mf_checks m). ch_passed k)"

definition release_mode :: "manifest \<Rightarrow> string" where
  "release_mode m = (if mf_skip m then ''skip_gold_gates'' else ''standard'')"

definition manifest_json :: "manifest \<Rightarrow> json" where
  "manifest_json m =
     JDict [(''validation_version'', JStr validation_version), (''build_id'', JStr (mf_build m)),
            (''checks'', JList (map check_json (mf_checks m))), (''release_mode'', JStr (release_mode m)),
            (''skipped_checks'', JList (map JStr (mf_skipped m))), (''passed'', JBool (mf_passed m))]"

definition failed_text :: "manifest \<Rightarrow> string option" where
  "failed_text m =
     (if mf_passed m then None
      else Some (''validation failed: '' @
             join_with '', '' (map ch_name (filter (\<lambda>k. \<not> ch_passed k) (mf_checks m)))))"

definition finished_validation :: "catalog_env \<Rightarrow> string \<Rightarrow> manifest \<Rightarrow> validation_run \<Rightarrow> validation_run" where
  "finished_validation env now m v =
     v\<lparr>vl_status := (if mf_passed m then V_passed else V_failed), vl_manifest := manifest_json m,
       vl_hash := Some (canonical_json_hash env (manifest_json m)), vl_finished := Some now,
       vl_error := failed_text m\<rparr>"

definition validation_summary :: "catalog_env \<Rightarrow> manifest \<Rightarrow> json" where
  "validation_summary env m =
     JDict [(''version'', JStr validation_version),
            (''manifest_hash'', JStr (canonical_json_hash env (manifest_json m))),
            (''passed'', JBool (mf_passed m)), (''release_mode'', JStr (release_mode m)),
            (''skipped_checks'', JList (map JStr (mf_skipped m)))]"

definition finish_validation ::
    "catalog_env \<Rightarrow> string \<Rightarrow> string \<Rightarrow> string \<Rightarrow> manifest \<Rightarrow> unit handler" where
  "finish_validation env now b rid m c =
     (case find_build b c of
        None \<Rightarrow> Inl Type_error_cat
      | Some g \<Rightarrow>
          Inr ((), update_build b
            (\<lambda>r. r\<lparr>gb_status := (if mf_passed m then B_ready else B_failed_validation),
                   gb_summary := dict_set ''validation'' (validation_summary env m) (gb_summary g),
                   gb_error := failed_text m\<rparr>)
            (c\<lparr>validation_runs := update_where (\<lambda>v. vl_id v = rid) (finished_validation env now m) (validation_runs c)\<rparr>)))"

definition skip_gates :: "check list \<Rightarrow> check list \<times> string list" where
  "skip_gates checks =
     (let skip = (\<lambda>k. ch_name k \<in> set gold_gates \<and> \<not> ch_passed k)
      in (map (\<lambda>k. if skip k then k\<lparr>ch_passed := True, ch_skipped := True\<rparr> else k) checks,
          map ch_name (filter skip checks)))"

text \<open>Promotion. \<open>pm_previous\<close> is the other build that is active, if any.\<close>

definition other_active :: "string \<Rightarrow> catalog \<Rightarrow> string option" where
  "other_active b c = map_option gb_id (find (\<lambda>g. gb_status g = B_active \<and> gb_id g \<noteq> b) (builds c))"

definition promotion_fields ::
    "string \<Rightarrow> string option \<Rightarrow> string \<Rightarrow> promotion_run \<Rightarrow> promotion_run" where
  "promotion_fields h previous now p =
     p\<lparr>pm_hash := h, pm_previous := previous, pm_status := R_running, pm_neo4j := False, pm_qdrant := False,
       pm_readback := False, pm_updated := Some now, pm_finished := None, pm_error := None\<rparr>"

definition blank_promotion :: "string \<Rightarrow> promotion_run" where
  "blank_promotion b =
     \<lparr>pm_build = b, pm_hash = [], pm_previous = None, pm_status = R_running, pm_neo4j = False,
      pm_qdrant = False, pm_readback = False, pm_updated = None, pm_finished = None, pm_error = None\<rparr>"

definition upsert_promotion ::
    "string \<Rightarrow> (promotion_run \<Rightarrow> promotion_run) \<Rightarrow> promotion_run list \<Rightarrow> promotion_run list" where
  "upsert_promotion b f rows =
     (if b \<in> pm_build ` set rows then update_where (\<lambda>p. pm_build p = b) f rows
      else rows @ [f (blank_promotion b)])"

definition prepare_promotion :: "string \<Rightarrow> string \<Rightarrow> (string \<times> string) handler" where
  "prepare_promotion now b c =
     (case find_build b c of
        None \<Rightarrow> Inl (unknown_build b)
      | Some g \<Rightarrow>
          if gb_status g \<noteq> B_ready then Inl (Catalog_error (''build '' @ b @ '' is not READY''))
          else
            (case find_validation b c of
               None \<Rightarrow> Inl (Catalog_error ''promotion requires a passed validation manifest'')
             | Some v \<Rightarrow>
                 (case vl_hash v of
                    None \<Rightarrow> Inl (Catalog_error ''promotion requires a passed validation manifest'')
                  | Some h \<Rightarrow>
                      if vl_status v \<noteq> V_passed
                      then Inl (Catalog_error ''promotion requires a passed validation manifest'')
                      else
                        (case find_run b (vector_runs c) of
                           None \<Rightarrow> Inl (Catalog_error ''promotion requires a completed vector run'')
                         | Some r \<Rightarrow>
                             if rr_status r \<noteq> R_completed
                             then Inl (Catalog_error ''promotion requires a completed vector run'')
                             else Inr ((vr_collection r, h),
                               c\<lparr>promotion_runs := upsert_promotion b
                                   (promotion_fields h (other_active b c) now) (promotion_runs c)\<rparr>)))))"

definition touch_promotion :: "string \<Rightarrow> (promotion_run \<Rightarrow> promotion_run) \<Rightarrow> catalog \<Rightarrow> catalog" where
  "touch_promotion b f c =
     c\<lparr>promotion_runs := update_where (\<lambda>p. pm_build p = b) f (promotion_runs c)\<rparr>"

datatype promotion_mark = Neo4j_done | Qdrant_done | Readback_done

fun set_mark :: "promotion_mark \<Rightarrow> string \<Rightarrow> promotion_run \<Rightarrow> promotion_run" where
  "set_mark Neo4j_done now p = p\<lparr>pm_neo4j := True, pm_updated := Some now\<rparr>"
| "set_mark Qdrant_done now p = p\<lparr>pm_qdrant := True, pm_updated := Some now\<rparr>"
| "set_mark Readback_done now p = p\<lparr>pm_readback := True, pm_updated := Some now\<rparr>"

definition promotion_checkpoint :: "string \<Rightarrow> string \<Rightarrow> promotion_mark \<Rightarrow> unit handler" where
  "promotion_checkpoint now b m c = Inr ((), touch_promotion b (set_mark m now) c)"

definition activate :: "string \<Rightarrow> string \<Rightarrow> catalog \<Rightarrow> catalog" where
  "activate now b c =
     update_build b (\<lambda>g. g\<lparr>gb_status := B_active, gb_finished := Some now, gb_error := None\<rparr>)
       (c\<lparr>builds := update_where (\<lambda>g. gb_status g = B_active \<and> gb_id g \<noteq> b)
            (\<lambda>g. g\<lparr>gb_status := B_ready\<rparr>) (builds c)\<rparr>)"

definition finish_promotion :: "string \<Rightarrow> string \<Rightarrow> unit handler" where
  "finish_promotion now b c =
     Inr ((), touch_promotion b
       (\<lambda>p. p\<lparr>pm_status := R_completed, pm_readback := True, pm_updated := Some now,
              pm_finished := Some now, pm_error := None\<rparr>) (activate now b c))"

definition fail_promotion :: "string \<Rightarrow> string \<Rightarrow> string \<Rightarrow> unit handler" where
  "fail_promotion now b e c =
     Inr ((), touch_promotion b
       (\<lambda>p. p\<lparr>pm_status := R_failed, pm_updated := Some now, pm_error := Some e\<rparr>) c)"

section \<open>The programs (lifecycle.py)\<close>

text \<open>
  What lies outside the catalog: the validator that reads the graph database back, the reads of the
  vector store, and the two pointers a promotion switches. A call may raise and may change the world.
\<close>

type_synonym ('x, 'a) outside = "'x \<Rightarrow> (catalog_error, 'a) result \<times> 'x"

record 'x services =
  sv_validate :: "string \<Rightarrow> catalog \<Rightarrow> ('x, unit) outside"
  sv_count :: "string \<Rightarrow> ('x, nat) outside"
  sv_payloads :: "string \<Rightarrow> ('x, (string \<times> metadata) list) outside"
  sv_set_active :: "string \<Rightarrow> ('x, unit) outside"
  sv_get_active :: "('x, string option) outside"
  sv_switch_alias :: "string \<Rightarrow> ('x, unit) outside"
  sv_resolve_alias :: "('x, string option) outside"

definition call :: "('x, 'a) outside \<Rightarrow> ('x cat_world, 'a) action" where
  "call f w = (case f (cw_ext w) of (r, x) \<Rightarrow> (r, w\<lparr>cw_ext := x\<rparr>))"

text \<open>The outcome of an action as a value, which \<open>try ... except\<close> inspects.\<close>

definition attempt :: "('w, 'a) action \<Rightarrow> ('w, (catalog_error, 'a) result) action" where
  "attempt m w = (case m w of (r, w') \<Rightarrow> (Inr r, w'))"

definition failed_check :: "string \<Rightarrow> string \<Rightarrow> catalog_error \<Rightarrow> check" where
  "failed_check name expected e = mk_check name False (JStr expected) (JStr (error_type e))"

definition make_manifest :: "string \<Rightarrow> bool \<Rightarrow> check list \<Rightarrow> manifest" where
  "make_manifest b skip checks =
     (let sorted_checks = sort_key ch_name checks;
          (final, skipped) = (if skip then skip_gates sorted_checks else (sorted_checks, []))
      in \<lparr>mf_build = b, mf_checks = final, mf_skip = skip, mf_skipped = skipped\<rparr>)"

definition qdrant_checks ::
    "catalog_env \<Rightarrow> 'x services \<Rightarrow> string \<Rightarrow> (string, metadata) dict \<Rightarrow> ('x cat_world, check list) action" where
  "qdrant_checks env sv b expected =
     (case professor_collection_name b of
        Inl e \<Rightarrow> act_raise e
      | Inr coll \<Rightarrow>
          act_bind (call (sv_count sv coll)) (\<lambda>count.
          act_bind (call (sv_payloads sv coll)) (\<lambda>items w.
            (qdrant_compare env expected count items, w))))"

text \<open>The checks of a validation run: those of the catalog, of the graph database and of the vector store.\<close>

definition gather_checks ::
    "catalog_env \<Rightarrow> org_env \<Rightarrow> topic_env \<Rightarrow> (string \<Rightarrow> rat option) \<Rightarrow> 'x services \<Rightarrow> string \<Rightarrow>
     ('x cat_world, check list) action" where
  "gather_checks env oe te fl sv b =
     act_bind (attempt (query (catalog_checks env oe te fl b))) (\<lambda>found.
       let (checks, expected) = (case found of
              Inr x \<Rightarrow> x
            | Inl e \<Rightarrow> ([failed_check ''catalog_validation_execution'' ''success'' e], []))
       in act_bind (attempt (\<lambda>w. call (sv_validate sv b (cw_cat w)) w)) (\<lambda>neo4j.
            let graph = (case neo4j of
                   Inr _ \<Rightarrow> mk_check ''neo4j_export_manifest'' True (JStr ''match'') (JStr ''match'')
                 | Inl e \<Rightarrow> failed_check ''neo4j_export_manifest'' ''match'' e)
            in act_bind (attempt (qdrant_checks env sv b expected)) (\<lambda>qdrant.
                 act_return (checks @ [graph] @ (case qdrant of
                    Inr ks \<Rightarrow> ks
                  | Inl e \<Rightarrow> [failed_check ''qdrant_readback'' ''success'' e])))))"

definition run_validation ::
    "catalog_env \<Rightarrow> org_env \<Rightarrow> topic_env \<Rightarrow> (string \<Rightarrow> rat option) \<Rightarrow> 'x services \<Rightarrow> bool \<Rightarrow> string \<Rightarrow> string \<Rightarrow>
     ('x cat_world, unit) action" where
  "run_validation env oe te fl sv skip now b =
     act_bind (execute (prepare_validation env b)) (\<lambda>rid.
     act_bind (gather_checks env oe te fl sv b) (\<lambda>checks.
       execute (finish_validation env now b rid (make_manifest b skip checks))))"

definition repr_opt :: "string option \<Rightarrow> string" where
  "repr_opt v = (case v of None \<Rightarrow> ''None'' | Some s \<Rightarrow> quoted s)"

definition readback :: "'x services \<Rightarrow> string \<Rightarrow> string \<Rightarrow> ('x cat_world, unit) action" where
  "readback sv b coll =
     act_bind (call (sv_get_active sv)) (\<lambda>neo4j.
     act_bind (call (sv_resolve_alias sv)) (\<lambda>qdrant.
       if neo4j \<noteq> Some b \<or> qdrant \<noteq> Some coll
       then act_raise (Catalog_error (''promotion readback mismatch: neo4j='' @ repr_opt neo4j @
              '', qdrant='' @ repr_opt qdrant))
       else act_return ()))"

definition run_promotion :: "'x services \<Rightarrow> string \<Rightarrow> string \<Rightarrow> ('x cat_world, unit) action" where
  "run_promotion sv now b =
     act_bind (execute (prepare_promotion now b)) (\<lambda>(coll, h).
       act_try
         (act_seq (call (sv_set_active sv b))
         (act_seq (execute (promotion_checkpoint now b Neo4j_done))
         (act_seq (call (sv_switch_alias sv coll))
         (act_seq (execute (promotion_checkpoint now b Qdrant_done))
         (act_seq (readback sv b coll)
         (act_seq (execute (promotion_checkpoint now b Readback_done))
                  (execute (finish_promotion now b))))))))
         (\<lambda>e. act_seq (execute (fail_promotion now b (safe_error e))) (act_raise e)))"

section \<open>Repair of incompatible links (topic\_repair.py)\<close>

definition incompatible_relation_types :: "string \<Rightarrow> catalog \<Rightarrow> string list" where
  "incompatible_relation_types b c = sort (remdups (map sl_relation (incompatible_links b c)))"

definition refresh_topic_summary :: "string \<Rightarrow> string \<Rightarrow> catalog \<Rightarrow> catalog" where
  "refresh_topic_summary now b c =
     (case find_run b (topic_runs c) of
        None \<Rightarrow> c
      | Some r \<Rightarrow>
          (let summary = dict_set ''review_links''
                 (count_where (\<lambda>l. sl_build l = b \<and> sl_review l = ''review'') (topic_links c))
                 (dict_set ''approved_links''
                   (count_where (\<lambda>l. sl_build l = b \<and> sl_review l = ''approved'') (topic_links c)) (rr_summary r))
           in update_build b
                (\<lambda>g. g\<lparr>gb_summary := dict_pop ''validation'' (dict_set ''topics'' (JDict summary) (gb_summary g))\<rparr>)
                (c\<lparr>topic_runs := update_where (\<lambda>x. rr_id x = rr_id r)
                     (\<lambda>x. x\<lparr>rr_summary := summary, rr_finished := Some now\<rparr>) (topic_runs c)\<rparr>)))"

definition downgrade :: "catalog \<Rightarrow> string \<Rightarrow> link_row \<Rightarrow> link_row" where
  "downgrade c b l = (if l \<in> set (incompatible_links b c) then l\<lparr>sl_review := ''review''\<rparr> else l)"

definition downgrade_incompatible_links ::
    "string \<Rightarrow> string \<Rightarrow> (nat \<times> string list \<times> bool) handler" where
  "downgrade_incompatible_links now b c =
     (case find_build b c of
        None \<Rightarrow> Inl (unknown_build b)
      | Some g \<Rightarrow>
          if gb_status g = B_active then Inl (Catalog_error ''refusing to repair an ACTIVE build'')
          else
            (let types = incompatible_relation_types b c
             in if types = [] then Inr ((0, [], False), c)
                else
                  (let c1 = refresh_topic_summary now b
                              (c\<lparr>topic_links := map (downgrade c b) (topic_links c)\<rparr>);
                       vectors = find_run b (vector_runs c) \<noteq> None;
                       c2 = reset_vectors b c1;
                       c3 = c2\<lparr>validation_runs := delete_where (\<lambda>v. vl_build v = b) (validation_runs c2),
                               promotion_runs := delete_where (\<lambda>p. pm_build p = b) (promotion_runs c2)\<rparr>
                   in Inr ((length (filter (\<lambda>l. l \<in> set (incompatible_links b c)) (topic_links c)), types, vectors),
                           set_build_status b B_writing_vector c3))))"

definition relation_partition :: "string \<Rightarrow> string" where
  "relation_partition rel = ''rel:'' @ rel"

definition repair_incompatible_topic_links ::
    "catalog_env \<Rightarrow> org_env \<Rightarrow> topic_env \<Rightarrow> nat \<Rightarrow> string \<Rightarrow> string \<Rightarrow>
     ('x cat_world, nat \<times> string list \<times> bool) action" where
  "repair_incompatible_topic_links env oe te n now b =
     act_bind (execute (downgrade_incompatible_links now b)) (\<lambda>(count, types, vectors).
       if types = [] then act_return (count, types, vectors)
       else act_seq (rebuild_graph_partitions env oe te n b (map relation_partition types))
              (act_seq (execute (set_graph_export_pruned b False)) (act_return (count, types, vectors))))"

section \<open>What the transactions keep\<close>

text \<open>
  The identifier of a validation run is the hash of its build and version; no summary of a run hides the
  status of the run.
\<close>

definition validations_ok :: "catalog_env \<Rightarrow> catalog \<Rightarrow> bool" where
  "validations_ok env c = (\<forall>v \<in> set (validation_runs c). vl_id v = hash_parts env [vl_build v, vl_version v])"

definition plain :: "'a run_row_scheme list \<Rightarrow> bool" where
  "plain rows = (\<forall>r \<in> set rows. dict_get (rr_summary r) ''status'' = None)"

definition summaries_ok :: "catalog \<Rightarrow> bool" where
  "summaries_ok c =
     (plain (curation_runs c) \<and> plain (graph_runs c) \<and> plain (topic_runs c) \<and> plain (vector_runs c))"

lemma find_validation_update:
  assumes "\<And>v. vl_build (f v) = vl_build v"
  shows "find (\<lambda>v. vl_build v = k) (update_where P f rows) =
    map_option (\<lambda>v. if P v then f v else v) (find (\<lambda>v. vl_build v = k) rows)"
  using assms by (rule find_update_key)

lemma reopened_sel [simp]:
  "vl_id (reopened v) = vl_id v" "vl_build (reopened v) = vl_build v" "vl_version (reopened v) = vl_version v"
  "vl_status (reopened v) = V_running"
  by (simp_all add: reopened_def)

lemma new_validation_sel [simp]:
  "vl_id (new_validation i b) = i" "vl_build (new_validation i b) = b"
  "vl_version (new_validation i b) = validation_version" "vl_status (new_validation i b) = V_running"
  by (simp_all add: new_validation_def)

lemma finished_validation_sel [simp]:
  "vl_id (finished_validation env now m v) = vl_id v"
  "vl_build (finished_validation env now m v) = vl_build v"
  "vl_version (finished_validation env now m v) = vl_version v"
  "vl_hash (finished_validation env now m v) = Some (canonical_json_hash env (manifest_json m))"
  "vl_status (finished_validation env now m v) = (if mf_passed m then V_passed else V_failed)"
  by (simp_all add: finished_validation_def)

lemma find_snoc_validation:
  "find (\<lambda>v. vl_build v = k) (rows @ [v]) =
     (case find (\<lambda>v. vl_build v = k) rows of None \<Rightarrow> if vl_build v = k then Some v else None | Some x \<Rightarrow> Some x)"
  by (rule find_snoc)

text \<open>The two ways in which a validation run is opened.\<close>

lemma prepare_validation_cases:
  assumes "prepare_validation env b c = Inr (rid, c')"
  obtains (created) g where "find_build b c = Some g" "find_validation b c = None"
      "rid = hash_parts env [b, validation_version]" "rid \<notin> vl_id ` set (validation_runs c)"
      "c' = set_build_status b B_validating (c\<lparr>validation_runs := validation_runs c @ [new_validation rid b]\<rparr>)"
    | (again) g v where "find_build b c = Some g" "find_validation b c = Some v"
      "vl_version v = validation_version" "rid = hash_parts env [b, validation_version]"
      "c' = set_build_status b B_validating
         (c\<lparr>validation_runs := update_where (\<lambda>v. vl_build v = b) reopened (validation_runs c)\<rparr>)"
proof -
  from assms obtain g where g: "find_build b c = Some g"
    by (auto simp: prepare_validation_def split: option.splits)
  show thesis
  proof (cases "find_validation b c")
    case None
    with assms g show thesis
      by (intro created [OF g None]) (auto simp: prepare_validation_def Let_def split: if_splits)
  next
    case (Some v)
    with assms g show thesis
      by (intro again [OF g Some]) (auto simp: prepare_validation_def Let_def split: if_splits)
  qed
qed

abbreviation same_runs :: "catalog \<Rightarrow> catalog \<Rightarrow> bool" where
  "same_runs c c' \<equiv> curation_runs c' = curation_runs c \<and> graph_runs c' = graph_runs c \<and>
     topic_runs c' = topic_runs c \<and> vector_runs c' = vector_runs c"

lemma only_build_runs:
  assumes "same_runs c c'" and "\<And>b'. b' \<noteq> b \<Longrightarrow> status_of b' c' = status_of b' c"
    and "\<And>b'. b' \<noteq> b \<Longrightarrow> find_validation b' c' = find_validation b' c"
  shows "only_build b c c'"
  using assms by (intro only_buildI) (simp_all add: passed_def)

lemma status_of_validations [simp]:
  "status_of b (c\<lparr>validation_runs := x\<rparr>) = status_of b c" "find_build b (c\<lparr>validation_runs := x\<rparr>) = find_build b c"
  by (simp_all add: status_of_def find_build_def)

lemma set_build_status_validation [simp]:
  "find_validation b' (set_build_status b s c) = find_validation b' c"
  by (simp add: find_validation_def view_simps)

lemma prepare_validation_law:
  assumes "tables_ok c" and "validations_ok env c" and "prepare_validation env b c = Inr (rid, c')"
  shows "tables_ok c' \<and> validations_ok env c' \<and> only_build b c c' \<and> same_runs c c' \<and>
    status_of b c' = Some B_validating \<and> (\<exists>v. find_validation b c' = Some v \<and> vl_id v = rid)"
  using assms(3)
proof (cases rule: prepare_validation_cases)
  case (created g)
  from created(2) have "b \<notin> vl_build ` set (validation_runs c)"
    by (auto simp: find_validation_def find_None_iff)
  with created assms(1,2) show ?thesis
    by (auto simp: tables_ok_def view_simps validations_ok_def find_validation_def find_snoc_validation
        intro!: only_build_runs split: option.splits)
next
  case (again g v)
  have "map vl_id (validation_runs c') = map vl_id (validation_runs c)"
    "map vl_build (validation_runs c') = map vl_build (validation_runs c)"
    by (simp_all add: again view_simps map_update_where)
  with again assms(1) have t: "tables_ok c'" by (auto simp: tables_ok_def view_simps)
  have v: "validations_ok env c'"
    using assms(2) by (auto simp: validations_ok_def again view_simps elim!: mem_update_whereE split: if_splits)
  have f: "find_validation b' c' = (if b' = b then map_option reopened (find_validation b c) else find_validation b' c)" for b'
    by (cases "find_validation b' c")
       (auto simp: again find_validation_def find_validation_update view_simps dest: find_in_set)
  have "vl_id v = rid"
    using again assms(2) by (auto simp: validations_ok_def find_validation_def dest!: find_in_set)
  with again t v f show ?thesis
    by (auto simp: view_simps intro!: only_build_runs)
qed

lemma finish_validation_law:
  assumes "tables_ok c" and "validations_ok env c" and "find_validation b c = Some v" and "vl_id v = rid"
    and "finish_validation env now b rid m c = Inr ((), c')"
  shows "tables_ok c' \<and> validations_ok env c' \<and> only_build b c c' \<and> same_runs c c' \<and>
    status_of b c' = Some (if mf_passed m then B_ready else B_failed_validation) \<and> passed b c' = mf_passed m"
proof -
  let ?rows = "update_where (\<lambda>v. vl_id v = rid) (finished_validation env now m) (validation_runs c)"
  from assms(5) obtain g where g: "find_build b c = Some g"
    and c': "c' = update_build b
        (\<lambda>r. r\<lparr>gb_status := (if mf_passed m then B_ready else B_failed_validation),
               gb_summary := dict_set ''validation'' (validation_summary env m) (gb_summary g),
               gb_error := failed_text m\<rparr>) (c\<lparr>validation_runs := ?rows\<rparr>)"
    by (auto simp: finish_validation_def split: option.splits)
  have "map vl_id ?rows = map vl_id (validation_runs c)" "map vl_build ?rows = map vl_build (validation_runs c)"
    by (simp_all add: map_update_where)
  with assms(1) have t: "tables_ok c'" by (auto simp: tables_ok_def c' view_simps)
  have v: "validations_ok env c'"
    using assms(2) by (auto simp: validations_ok_def c' elim!: mem_update_whereE split: if_splits)
  from assms(1) have ids: "distinct (map vl_id (validation_runs c))" by (simp add: tables_ok_def)
  have other: "vl_id x \<noteq> rid" if "x \<in> set (validation_runs c)" "vl_build x \<noteq> b" for x
  proof
    assume "vl_id x = rid"
    with assms(3,4) that ids have "x = v"
      by (auto simp: find_validation_def distinct_map dest!: find_in_set dest: inj_onD)
    with assms(3) that show False by (auto simp: find_validation_def dest: find_in_set)
  qed
  have f: "find_validation b' c' = (if b' = b then map_option (finished_validation env now m) (find_validation b c)
      else find_validation b' c)" for b'
    using other assms(3,4) by (cases "find_validation b' c")
       (auto simp: c' find_validation_def find_validation_update dest: find_in_set)
  have "same_runs c c'" by (simp add: c')
  moreover have "status_of b' c' = (if b' = b then Some (if mf_passed m then B_ready else B_failed_validation)
      else status_of b' c)" for b'
    using g by (simp add: c' view_simps)
  moreover have "passed b c' = mf_passed m"
    by (simp add: passed_def f assms(3))
  ultimately show ?thesis
    using t v f by (auto intro!: only_build_runs)
qed

lemma fold_set_status:
  assumes "dict_get d k = None"
  shows "dict_get (fold (\<lambda>(k, v). dict_set k v) d acc) k = dict_get acc k"
  using assms
proof (induction d arbitrary: acc)
  case (Cons p d)
  obtain k' v where p: "p = (k', v)" by (cases p)
  with Cons.prems have "k' \<noteq> k" "dict_get d k = None" by (auto simp: dict_get_def split: if_splits)
  with Cons.IH [of "dict_set k' v acc"] p show ?case by (simp add: dict_get_set)
qed simp

lemma stage_summary_completed:
  assumes "plain rows" and "json_get (stage_summary b rows) ''status'' = JStr ''COMPLETED''"
  shows "run_completed (run_info b rows)"
proof (cases "find_run b rows")
  case None
  with assms(2) show ?thesis by (simp add: stage_summary_def json_get_def dict_get_def)
next
  case (Some r)
  then have "dict_get (rr_summary r) ''status'' = None"
    using assms(1) by (auto simp: plain_def find_run_def dest!: find_in_set)
  with assms(2) Some have "run_status_name (rr_status r) = ''COMPLETED''"
    by (simp add: stage_summary_def json_get_def fold_set_status) (simp add: dict_get_def)
  then have "rr_status r = R_completed" by (cases "rr_status r") simp_all
  with Some show ?thesis by (simp add: run_info_def run_completed_def)
qed

lemma runs_check_sound:
  assumes "summaries_ok c" and "ch_passed (runs_check b c)"
  shows "all_completed b c"
  using assms
  by (auto simp: runs_check_def mk_check_def run_summaries_def Let_def all_completed_def summaries_ok_def
      intro!: stage_summary_completed)

lemma gated_passed:
  assumes "mf_passed (make_manifest b skip checks)" and "k \<in> set checks" and "ch_name k \<notin> set gold_gates"
  shows "ch_passed k"
proof (cases skip)
  case True
  let ?f = "\<lambda>k. if ch_name k \<in> set gold_gates \<and> \<not> ch_passed k then k\<lparr>ch_passed := True, ch_skipped := True\<rparr> else k"
  from True have "mf_checks (make_manifest b skip checks) = map ?f (sort_key ch_name checks)"
    by (simp add: make_manifest_def skip_gates_def Let_def)
  moreover have "?f k \<in> set (map ?f (sort_key ch_name checks))"
    unfolding set_map set_sort using assms(2) by (rule imageI)
  ultimately have "ch_passed (?f k)"
    using assms(1) unfolding mf_passed_def by (elim bspec) simp
  with assms(3) show ?thesis by (simp only: if_False simp_thms)
next
  case False
  with assms(1,2) show ?thesis by (simp add: make_manifest_def mf_passed_def Let_def)
qed

text \<open>Actions that leave the catalog alone.\<close>

definition calm :: "('x cat_world, 'a) action \<Rightarrow> bool" where
  "calm m = (\<forall>w. cw_cat (snd (m w)) = cw_cat w)"

lemma calmD: "calm m \<Longrightarrow> m w = (r, w') \<Longrightarrow> cw_cat w' = cw_cat w"
  using calm_def [of m] by (metis snd_conv)

lemma calm_bind:
  assumes "calm m" and "\<And>x. calm (k x)"
  shows "calm (act_bind m k)"
  unfolding calm_def
proof
  fix w
  obtain r w1 where m: "m w = (r, w1)" by (cases "m w")
  from calmD [OF assms(1) m] have "cw_cat w1 = cw_cat w" .
  then show "cw_cat (snd (act_bind m k w)) = cw_cat w"
    using assms(2) by (cases r) (simp_all add: act_bind_def m calm_def)
qed

lemma calm_attempt: "calm m \<Longrightarrow> calm (attempt m)"
  by (auto simp: calm_def attempt_def split: prod.split dest: calmD [unfolded calm_def])

lemma calm_basic:
  "calm (call f)" "calm (query g)" "calm (act_return a)" "calm (act_raise e)" "calm (\<lambda>w. (r, w))"
  "calm (\<lambda>w. call (h (cw_cat w)) w)"
  by (auto simp: calm_def call_def query_def act_return_def act_raise_def split: prod.splits)

lemmas calm_intros = calm_basic calm_bind calm_attempt

lemma calm_gather: "calm (gather_checks env oe te fl sv b)"
  unfolding gather_checks_def qdrant_checks_def Let_def
  by (intro calm_intros | simp split: prod.split sum.split | safe)+

lemma gather_world:
  "gather_checks env oe te fl sv b w = (Inr checks, w') \<Longrightarrow> cw_cat w' = cw_cat w"
  using calm_gather [of env oe te fl sv b, unfolded calm_def, rule_format, of w] by simp

lemma attempt_iff: "attempt m w = (Inr r, w') \<longleftrightarrow> m w = (r, w')"
  by (auto simp: attempt_def split: prod.split)

lemma gather_prefix:
  assumes "gather_checks env oe te fl sv b w = (Inr checks, w')"
  shows "set (case catalog_checks env oe te fl b (cw_cat w) of
      Inr x \<Rightarrow> fst x | Inl e \<Rightarrow> [failed_check ''catalog_validation_execution'' ''success'' e]) \<subseteq> set checks"
proof -
  obtain checks0 expected where found: "(case catalog_checks env oe te fl b (cw_cat w) of
      Inr x \<Rightarrow> x | Inl e \<Rightarrow> ([failed_check ''catalog_validation_execution'' ''success'' e], [])) = (checks0, expected)"
    by (cases "case catalog_checks env oe te fl b (cw_cat w) of
      Inr x \<Rightarrow> x | Inl e \<Rightarrow> ([failed_check ''catalog_validation_execution'' ''success'' e], [])")
  then have fst: "(case catalog_checks env oe te fl b (cw_cat w) of
      Inr x \<Rightarrow> fst x | Inl e \<Rightarrow> [failed_check ''catalog_validation_execution'' ''success'' e]) = checks0"
    by (auto split: sum.splits)
  from assms found have "set checks0 \<subseteq> set checks"
    by (auto simp: gather_checks_def act_bind_Inr_iff attempt_iff query_iff act_return_def Let_def)
  with fst show ?thesis by simp
qed

lemma gather_checks_sound:
  assumes "gather_checks env oe te fl sv b w = (Inr checks, w')" and "summaries_ok (cw_cat w)"
    and "mf_passed (make_manifest b skip checks)"
  shows "all_completed b (cw_cat w)"
proof (cases "catalog_checks env oe te fl b (cw_cat w)")
  case (Inl e)
  with gather_prefix [OF assms(1)]
  have "failed_check ''catalog_validation_execution'' ''success'' e \<in> set checks" by simp
  from gated_passed [OF assms(3) this] show ?thesis
    by (simp add: failed_check_def mk_check_def gold_gates_def)
next
  case (Inr x)
  then have "runs_check b (cw_cat w) \<in> set (fst x)"
    by (auto simp: catalog_checks_def res_bind_eq_Inr)
  with Inr gather_prefix [OF assms(1)] have "runs_check b (cw_cat w) \<in> set checks" by auto
  from gated_passed [OF assms(3) this] have "ch_passed (runs_check b (cw_cat w))"
    by (simp add: runs_check_def mk_check_def gold_gates_def Let_def)
  with assms(2) show ?thesis by (rule runs_check_sound)
qed

lemma find_build_activate:
  "find_build b' (activate now b c) =
     (if b' = b then map_option (\<lambda>g. g\<lparr>gb_status := B_active, gb_finished := Some now, gb_error := None\<rparr>) (find_build b c)
      else map_option (\<lambda>g. if gb_status g = B_active then g\<lparr>gb_status := B_ready\<rparr> else g) (find_build b' c))"
proof -
  let ?c = "c\<lparr>builds := update_where (\<lambda>g. gb_status g = B_active \<and> gb_id g \<noteq> b)
            (\<lambda>g. g\<lparr>gb_status := B_ready\<rparr>) (builds c)\<rparr>"
  have "find_build k ?c = map_option (\<lambda>g. if gb_status g = B_active \<and> gb_id g \<noteq> b then g\<lparr>gb_status := B_ready\<rparr> else g)
      (find_build k c)" for k
    by (simp add: find_build_def find_update_key)
  moreover have "gb_id g = k" if "find_build k c = Some g" for g k
    using that by (auto simp: find_build_def dest: find_in_set)
  ultimately show ?thesis
    by (cases "find_build b' c") (auto simp: activate_def find_build_update)
qed

lemma activate_law:
  assumes "catalog_ok c" and "status_of b c = Some B_ready"
  shows "catalog_ok (activate now b c) \<and> status_of b (activate now b c) = Some B_active"
proof -
  let ?c = "activate now b c"
  have st: "status_of b' ?c = (if b' = b then Some B_active
      else if status_of b' c = Some B_active then Some B_ready else status_of b' c)" for b'
    using assms(2) by (cases "find_build b' c") (auto simp: status_of_def find_build_activate)
  have runs: "same_runs c ?c" "validation_runs ?c = validation_runs c"
    by (simp_all add: activate_def)
  then have keep: "all_completed b' ?c = all_completed b' c" "passed b' ?c = passed b' c" for b'
    by (simp_all add: all_completed_def passed_def find_validation_def)
  have "map gb_id (builds ?c) = map gb_id (builds c)"
    by (simp add: activate_def update_build_def map_update_where)
  with runs assms(1) have t: "tables_ok ?c" by (simp add: catalog_ok_def tables_ok_def)
  from assms(1) have ok: "tables_ok c" "release_ok c" by (auto simp: catalog_ok_def)
  note old = ok(2) [unfolded release_ok_view [OF ok(1)]]
  have pub: "is_published b' ?c \<longrightarrow> is_published b' c" for b'
    using assms(2) by (auto simp: is_published_def st published_def split: option.splits)
  show ?thesis
    using t old pub by (auto simp: catalog_ok_def release_ok_view [OF t] keep st split: if_splits)
qed

lemma run_info_keep:
  assumes "\<And>r. rr_id (f r) = rr_id r" "\<And>r. rr_build (f r) = rr_build r" "\<And>r. rr_status (f r) = rr_status r"
  shows "run_info b (update_where P f rows) = run_info b rows"
proof -
  have "find_run b (update_where P f rows) = map_option (\<lambda>r. if P r then f r else r) (find_run b rows)"
    using assms(2) by (simp add: find_run_def find_update_key)
  then show ?thesis using assms by (cases "find_run b rows") (auto simp: run_info_def)
qed

lemma refresh_facts [view_simps]:
  "map gb_id (builds (refresh_topic_summary now b c)) = map gb_id (builds c)"
  "curation_runs (refresh_topic_summary now b c) = curation_runs c"
  "graph_runs (refresh_topic_summary now b c) = graph_runs c"
  "vector_runs (refresh_topic_summary now b c) = vector_runs c"
  "validation_runs (refresh_topic_summary now b c) = validation_runs c"
  "runs_ok (topic_runs (refresh_topic_summary now b c)) = runs_ok (topic_runs c)"
  "run_info b' (topic_runs (refresh_topic_summary now b c)) = run_info b' (topic_runs c)"
  "status_of b' (refresh_topic_summary now b c) = status_of b' c"
proof -
  show "status_of b' (refresh_topic_summary now b c) = status_of b' c"
    by (auto simp: refresh_topic_summary_def Let_def view_simps status_of_def find_build_update
        option.map_comp comp_def split: option.split)
qed (auto simp: refresh_topic_summary_def Let_def update_build_def map_update_where runs_ok_update
       run_info_keep split: option.split)

lemma plain_update:
  "plain rows \<Longrightarrow> (\<And>r. dict_get (rr_summary (f r)) ''status'' = dict_get (rr_summary r) ''status'' \<or>
      dict_get (rr_summary (f r)) ''status'' = None) \<Longrightarrow> plain (update_where P f rows)"
  unfolding plain_def by (metis mem_update_whereE)

lemma refresh_plain:
  assumes "plain (topic_runs c)"
  shows "plain (topic_runs (refresh_topic_summary now b c))"
proof (cases "find_run b (topic_runs c)")
  case (Some r)
  then have "dict_get (rr_summary r) ''status'' = None"
    using assms by (auto simp: plain_def find_run_def dest!: find_in_set)
  then show ?thesis
    using assms by (auto simp: refresh_topic_summary_def Let_def Some dict_get_set intro!: plain_update)
qed (simp add: refresh_topic_summary_def assms)

text \<open>The repair takes the build back to the vector stage, and leaves the others as they are.\<close>

lemma find_delete_where:
  "find (\<lambda>r. key r = k) (delete_where (\<lambda>r. key r = b) rows) =
     (if k = b then None else find (\<lambda>r. key r = k) rows)"
  by (induction rows) (auto simp: delete_where_def)

lemma map_delete_where_distinct: "distinct (map key rows) \<Longrightarrow> distinct (map key (delete_where P rows))"
  by (simp add: delete_where_def distinct_map_filter)

definition unvalidated :: "string \<Rightarrow> catalog \<Rightarrow> catalog" where
  "unvalidated b c =
     c\<lparr>validation_runs := delete_where (\<lambda>v. vl_build v = b) (validation_runs c),
       promotion_runs := delete_where (\<lambda>p. pm_build p = b) (promotion_runs c)\<rparr>"

lemma unvalidated_facts [view_simps]:
  "builds (unvalidated b c) = builds c" "curation_runs (unvalidated b c) = curation_runs c"
  "graph_runs (unvalidated b c) = graph_runs c" "topic_runs (unvalidated b c) = topic_runs c"
  "vector_runs (unvalidated b c) = vector_runs c"
  "status_of b' (unvalidated b c) = status_of b' c" "find_build b' (unvalidated b c) = find_build b' c"
  "find_validation b' (unvalidated b c) = (if b' = b then None else find_validation b' c)"
  by (simp_all add: unvalidated_def status_of_def find_build_def find_validation_def find_delete_where)

lemma downgrade_cases:
  assumes "downgrade_incompatible_links now b c = Inr (x, c')"
  obtains (nothing) "c' = c"
    | (downgraded) c1 where "c' = set_build_status b B_writing_vector (unvalidated b (reset_vectors b
        (refresh_topic_summary now b c1)))" and "c1 = c\<lparr>topic_links := map (downgrade c b) (topic_links c)\<rparr>"
  using assms
  by (auto simp: downgrade_incompatible_links_def Let_def unvalidated_def split: option.splits if_splits)

lemma downgrade_law:
  assumes "tables_ok c" and "downgrade_incompatible_links now b c = Inr (x, c')"
  shows "c' = c \<or> tables_ok c' \<and> only_build b c c' \<and> \<not> is_published b c'"
  using assms(2)
proof (cases rule: downgrade_cases)
  case (downgraded c1)
  have c1: "builds c1 = builds c" "same_runs c c1" "validation_runs c1 = validation_runs c"
    by (simp_all add: downgraded)
  then have st: "status_of b' c1 = status_of b' c" "find_validation b' c1 = find_validation b' c" for b'
    by (simp_all add: status_of_def find_build_def find_validation_def)
  have "validation_runs c' = delete_where (\<lambda>v. vl_build v = b) (validation_runs c)"
    by (simp add: downgraded(1) view_simps c1) (simp add: unvalidated_def view_simps c1)
  moreover have "find_validation b' c' = find_validation b' c" if "b' \<noteq> b" for b'
    using that by (simp add: calculation find_validation_def find_delete_where)
  ultimately show ?thesis
    using assms(1) c1 st
    by (auto simp: downgraded(1) tables_ok_def view_simps passed_def is_published_def published_def
        map_delete_where_distinct intro!: only_buildI split: option.splits)
qed simp

section \<open>Promotion\<close>

lemma touch_promotion_facts [view_simps, simp]:
  "builds (touch_promotion b f c) = builds c" "curation_runs (touch_promotion b f c) = curation_runs c"
  "graph_runs (touch_promotion b f c) = graph_runs c" "topic_runs (touch_promotion b f c) = topic_runs c"
  "vector_runs (touch_promotion b f c) = vector_runs c"
  "validation_runs (touch_promotion b f c) = validation_runs c"
  by (simp_all add: touch_promotion_def)

definition same_release :: "catalog \<Rightarrow> catalog \<Rightarrow> bool" where
  "same_release c c' = (builds c' = builds c \<and> same_runs c c' \<and> validation_runs c' = validation_runs c)"

lemma same_release_trans: "same_release c c1 \<Longrightarrow> same_release c1 c2 \<Longrightarrow> same_release c c2"
  by (simp add: same_release_def)

lemma same_release_touch [simp]: "same_release c (touch_promotion b f c') = same_release c c'"
  by (simp add: same_release_def)

lemma same_releaseD:
  assumes "same_release c c'"
  shows "status_of b c' = status_of b c" "all_completed b c' = all_completed b c" "passed b c' = passed b c"
    "tables_ok c' = tables_ok c" "release_ok c' = release_ok c" "catalog_ok c' = catalog_ok c"
    "validations_ok env c' = validations_ok env c" "summaries_ok c' = summaries_ok c"
  using assms
  by (auto simp: same_release_def status_of_def find_build_def all_completed_def passed_def find_validation_def
      tables_ok_def release_ok_def catalog_ok_def validations_ok_def summaries_ok_def)

lemma prepare_promotion_facts:
  assumes "prepare_promotion now b c = Inr ((coll, h), c')"
  shows "same_release c c' \<and> status_of b c = Some B_ready \<and>
    (\<exists>r. find_run b (vector_runs c) = Some r \<and> vr_collection r = coll)"
  using assms
  by (auto simp: prepare_promotion_def status_of_def same_release_def split: option.splits if_splits)

text \<open>What is between the preparation and the last transaction changes nothing but the row of the promotion.\<close>

definition switch_services :: "'x services \<Rightarrow> string \<Rightarrow> string \<Rightarrow> string \<Rightarrow> ('x cat_world, unit) action" where
  "switch_services sv now b coll =
     act_seq (call (sv_set_active sv b))
     (act_seq (execute (promotion_checkpoint now b Neo4j_done))
     (act_seq (call (sv_switch_alias sv coll))
     (act_seq (execute (promotion_checkpoint now b Qdrant_done))
     (act_seq (readback sv b coll)
              (execute (promotion_checkpoint now b Readback_done))))))"

definition still :: "('x cat_world, 'a) action \<Rightarrow> bool" where
  "still m = (\<forall>w. same_release (cw_cat w) (cw_cat (snd (m w))))"

lemma stillD: "still m \<Longrightarrow> m w = (r, w') \<Longrightarrow> same_release (cw_cat w) (cw_cat w')"
  using still_def [of m] by (metis snd_conv)

lemma still_seq:
  assumes "still m" and "still n"
  shows "still (act_seq m n)"
  unfolding still_def
proof
  fix w
  obtain r w1 where m: "m w = (r, w1)" by (cases "m w")
  obtain r' w2 where n: "n w1 = (r', w2)" by (cases "n w1")
  from stillD [OF assms(1) m] stillD [OF assms(2) n]
  show "same_release (cw_cat w) (cw_cat (snd (act_seq m n w)))"
    by (cases r) (auto simp: act_seq_def act_bind_def m n intro: same_release_trans)
qed

lemma calm_still: "calm m \<Longrightarrow> still m"
  by (simp add: calm_def still_def same_release_def)

lemma calm_if: "calm m \<Longrightarrow> calm n \<Longrightarrow> calm (if p then m else n)"
  by simp

lemma calm_readback: "calm (readback sv b coll)"
  unfolding readback_def by (intro calm_intros calm_if)

lemma still_checkpoint: "still (execute (promotion_checkpoint now b m))"
  by (simp add: still_def execute_def promotion_checkpoint_def same_release_def)

lemma still_switch: "still (switch_services sv now b coll)"
  unfolding switch_services_def
  by (intro still_seq still_checkpoint calm_still calm_basic calm_readback)

lemma act_seq_assoc: "act_seq (act_seq m n) k = act_seq m (act_seq n k)"
  by (auto simp: act_seq_def act_bind_def fun_eq_iff split: prod.split sum.split)

lemma run_promotion_alt:
  "run_promotion sv now b =
     act_bind (execute (prepare_promotion now b)) (\<lambda>(coll, h).
       act_try (act_seq (switch_services sv now b coll) (execute (finish_promotion now b)))
         (\<lambda>e. act_seq (execute (fail_promotion now b (safe_error e))) (act_raise e)))"
  by (simp add: run_promotion_def switch_services_def act_seq_assoc)

lemma readback_matched:
  assumes "readback sv b coll w = (Inr (), w')"
  shows "\<exists>y. sv_get_active sv (cw_ext w) = (Inr (Some b), y) \<and>
    sv_resolve_alias sv y = (Inr (Some coll), cw_ext w')"
  using assms
  by (auto simp: readback_def act_bind_Inr_iff call_def act_raise_def act_return_def split: prod.splits if_splits)

lemma checkpoint_ext: "execute (promotion_checkpoint now b m) w = (r, w') \<Longrightarrow> cw_ext w' = cw_ext w"
  by (auto simp: execute_def promotion_checkpoint_def)

lemma switch_matched:
  assumes "switch_services sv now b coll w = (Inr (), w')"
  shows "\<exists>x y. sv_get_active sv x = (Inr (Some b), y) \<and> sv_resolve_alias sv y = (Inr (Some coll), cw_ext w')"
  using assms
  by (auto simp: switch_services_def act_seq_Inr_iff dest!: readback_matched checkpoint_ext) metis


lemma finish_promotion_world:
  assumes "execute (finish_promotion now b) w = (r, w')"
  shows "r = Inr () \<and> cw_ext w' = cw_ext w \<and> same_release (activate now b (cw_cat w)) (cw_cat w')"
  using assms by (auto simp: execute_def finish_promotion_def same_release_def touch_promotion_def)

lemma activate_same_release:
  "same_release c c' \<Longrightarrow> same_release (activate now b c) (activate now b c')"
  by (simp add: same_release_def activate_def update_build_def)

text \<open>
  A promotion either raises, and nothing has happened to the builds, or has switched both services
  and activated the build.
\<close>

lemma run_promotion_cases:
  assumes "run_promotion sv now b w = (r, w')"
  obtains (raised) e where "r = Inl e" and "same_release (cw_cat w) (cw_cat w')"
    | (switched) v x y where "r = Inr ()" and "status_of b (cw_cat w) = Some B_ready"
        and "find_run b (vector_runs (cw_cat w)) = Some v" and "sv_get_active sv x = (Inr (Some b), y)"
        and "sv_resolve_alias sv y = (Inr (Some (vr_collection v)), cw_ext w')"
        and "same_release (activate now b (cw_cat w)) (cw_cat w')"
proof (cases "prepare_promotion now b (cw_cat w)")
  case (Inl e)
  with assms have "r = Inl e" "w' = w" by (simp_all add: run_promotion_alt act_bind_def execute_def)
  then show thesis by (intro raised) (simp_all add: same_release_def)
next
  case (Inr p)
  obtain coll h c1 where p: "p = ((coll, h), c1)" by (metis surj_pair)
  define w1 where "w1 = w\<lparr>cw_cat := c1\<rparr>"
  from Inr p have prep: "execute (prepare_promotion now b) w = (Inr (coll, h), w1)"
    by (simp add: execute_def w1_def)
  note facts = prepare_promotion_facts [OF Inr [unfolded p]]
  obtain r2 w2 where s: "switch_services sv now b coll w1 = (r2, w2)"
    by (cases "switch_services sv now b coll w1")
  from facts have same2: "same_release (cw_cat w) (cw_cat w2)"
    by (intro same_release_trans [OF _ stillD [OF still_switch s]]) (simp add: w1_def)
  show thesis
  proof (cases r2)
    case (Inl e)
    with assms prep s have "r = Inl e" "same_release (cw_cat w2) (cw_cat w')"
      by (auto simp: run_promotion_alt act_bind_def act_seq_def act_try_def execute_def fail_promotion_def
          act_raise_def same_release_def)
    with same2 show thesis by (intro raised) (auto intro: same_release_trans)
  next
    case (Inr u)
    obtain r3 w3 where f: "execute (finish_promotion now b) w2 = (r3, w3)" by (metis surj_pair)
    note fin = finish_promotion_world [OF f]
    with assms prep s Inr f have r: "r = Inr ()" "w' = w3"
      by (auto simp: run_promotion_alt act_bind_def act_seq_def act_try_def)
    moreover have "same_release (activate now b (cw_cat w)) (cw_cat w3)"
      using fin same_release_trans [OF activate_same_release [OF same2]] by simp
    moreover obtain x y where "sv_get_active sv x = (Inr (Some b), y)"
      "sv_resolve_alias sv y = (Inr (Some coll), cw_ext w2)"
      using switch_matched [of sv now b coll w1 w2] s Inr by auto
    moreover obtain v where v: "find_run b (vector_runs (cw_cat w)) = Some v" "coll = vr_collection v"
      using facts by auto
    ultimately show thesis using facts fin by (intro switched [OF _ _ v(1)]) simp_all
  qed
qed


text \<open>Two services that hold one pointer each, and a catalog with one build active and another ready.\<close>

definition demo_services :: "(string option \<times> string option) services" where
  "demo_services =
     \<lparr>sv_validate = (\<lambda>_ _ x. (Inr (), x)), sv_count = (\<lambda>_ x. (Inr 0, x)), sv_payloads = (\<lambda>_ x. (Inr [], x)),
      sv_set_active = (\<lambda>b x. (Inr (), (Some b, snd x))), sv_get_active = (\<lambda>x. (Inr (fst x), x)),
      sv_switch_alias = (\<lambda>k x. (Inr (), (fst x, Some k))), sv_resolve_alias = (\<lambda>x. (Inr (snd x), x))\<rparr>"

definition demo_build :: "string \<Rightarrow> build_status \<Rightarrow> build_row" where
  "demo_build b s =
     \<lparr>gb_id = b, gb_status = s, gb_manifest_hash = None, gb_taxonomy = None, gb_fingerprint = None,
      gb_settings = [], gb_graph_schema = 1, gb_vector_schema = 1, gb_summary = [], gb_started = None,
      gb_finished = None, gb_error = None\<rparr>"

definition demo_validation :: "string \<Rightarrow> validation_run" where
  "demo_validation b = (new_validation (''v'' @ b) b)\<lparr>vl_status := V_passed, vl_hash := Some ''h''\<rparr>"

definition demo_release :: catalog where
  "demo_release = new_catalog\<lparr>
     builds := [demo_build ''a'' B_active, demo_build ''b'' B_ready],
     curation_runs := map (\<lambda>b. \<lparr>rr_id = b, rr_build = b, rr_status = R_completed, rr_summary = [],
        rr_started = None, rr_finished = None, rr_error = None, cu_version = ''1'', cu_normalization = ''1'',
        cu_rules_hash = ''h'', cu_override_hash = ''h''\<rparr>) [''a'', ''b''],
     graph_runs := map (\<lambda>b. \<lparr>rr_id = b, rr_build = b, rr_status = R_completed, rr_summary = [],
        rr_started = None, rr_finished = None, rr_error = None, gr_evidence = ''1'', gr_export = ''1''\<rparr>)
        [''a'', ''b''],
     topic_runs := map (\<lambda>b. \<lparr>rr_id = b, rr_build = b, rr_status = R_completed, rr_summary = [],
        rr_started = None, rr_finished = None, rr_error = None, tr_taxonomy = ''1'', tr_manifest_hash = ''h''\<rparr>)
        [''a'', ''b''],
     vector_runs := map (\<lambda>b. \<lparr>rr_id = b, rr_build = b, rr_status = R_completed, rr_summary = [],
        rr_started = None, rr_finished = None, rr_error = None, vr_template = ''1'', vr_tokenizer = ''1'',
        vr_sparse = ''1'', vr_fingerprint = None, vr_collection = ''k'' @ b\<rparr>) [''a'', ''b''],
     validation_runs := map demo_validation [''a'', ''b'']\<rparr>"

definition release_world :: "(string option \<times> string option) cat_world" where
  "release_world = \<lparr>cw_cat = demo_release, cw_ext = (Some ''a'', Some ''ka'')\<rparr>"

lemma demo_release_sel:
  "builds demo_release = [demo_build ''a'' B_active, demo_build ''b'' B_ready]"
  "validation_runs demo_release = [demo_validation ''a'', demo_validation ''b'']"
  by (simp_all add: demo_release_def)

lemma demo_release_info:
  "runs_ok (curation_runs demo_release)" "runs_ok (graph_runs demo_release)"
  "runs_ok (topic_runs demo_release)" "runs_ok (vector_runs demo_release)"
  by (simp_all add: demo_release_def runs_ok_def)

lemma demo_release_completed: "all_completed ''a'' demo_release" "all_completed ''b'' demo_release"
  by (simp_all add: demo_release_def all_completed_def run_info_def find_run_def run_completed_def)

lemma demo_release_ok: "catalog_ok demo_release"
  using demo_release_info demo_release_completed
  by (simp add: catalog_ok_def tables_ok_def release_ok_def demo_release_sel demo_build_def
      demo_validation_def published_def passed_def find_validation_def)

lemma demo_promotion_returns: "fst (run_promotion demo_services ''t'' ''b'' release_world) = Inr ()"
  by code_simp


end
