(* ===== verification/Dext_Curation.thy ===== *)
theory Dext_Curation
  imports Dext_Rules Dext_Release
begin

text \<open>
  Stage 2 of a build (\<open>curation.py\<close>, \<open>overrides.py\<close>): every active observation is assigned to an entity by the
  identity claims it makes, its values become field claims, and one canonical professor is selected per
  entity. Overrides and merges are recorded by hand between builds.

  \<open>mint\<close> gives the identifier \<open>uuid7()\<close> returns while the row with a given id is processed.
\<close>

section \<open>Entities and merges (curation.py)\<close>

definition find_entity :: "string \<Rightarrow> catalog \<Rightarrow> entity_row option" where
  "find_entity i c = find (\<lambda>r. en_id r = i) (entities c)"

definition merged_into :: "entity_row \<Rightarrow> string option" where
  "merged_into r = (if en_status r = E_merged then en_merged r else None)"

function resolve_from :: "entity_row list \<Rightarrow> string list \<Rightarrow> string \<Rightarrow> (catalog_error, string) result" where
  "resolve_from rows seen cur =
     (if cur \<in> set seen then Inl (Catalog_error (''entity merge cycle detected at '' @ cur))
      else case find (\<lambda>r. en_id r = cur) rows of
             None \<Rightarrow> Inl (Catalog_error (''unknown entity: '' @ cur))
           | Some r \<Rightarrow> (case merged_into r of None \<Rightarrow> Inr cur | Some up \<Rightarrow> resolve_from rows (cur # seen) up))"
  by pat_completeness auto
termination
proof (relation "measure (\<lambda>(rows, seen, cur). length (filter (\<lambda>r. en_id r \<notin> set seen) rows))", simp, goal_cases)
  case (1 rows seen cur r up)
  then have r: "r \<in> set rows" "en_id r = cur" by (auto dest: find_in_set)
  have "filter (\<lambda>r. en_id r \<notin> set (cur # seen)) rows =
        filter (\<lambda>r. en_id r \<noteq> cur) (filter (\<lambda>r. en_id r \<notin> set seen) rows)"
    by (auto intro: filter_cong)
  also have "length \<dots> < length (filter (\<lambda>r. en_id r \<notin> set seen) rows)"
    using r 1(1) by (intro length_filter_less [of r]) auto
  finally show ?case by simp
qed

declare resolve_from.simps [simp del]

definition resolve_entity :: "string \<Rightarrow> catalog \<Rightarrow> (catalog_error, string) result" where
  "resolve_entity i c = resolve_from (entities c) [] i"

section \<open>Identity claims (curation.py)\<close>

definition py_upper :: "string \<Rightarrow> string" where
  "py_upper s = map (\<lambda>ch. let n = (of_char ch :: nat) in if 97 \<le> n \<and> n \<le> 122 then char_of (n - 32) else ch) s"

definition external_identity :: "topic_env \<Rightarrow> string option \<Rightarrow> string option" where
  "external_identity te value =
     (case canonical_source_url value of
        None \<Rightarrow> None
      | Some url \<Rightarrow>
          (case urlsplit url of
             Inl _ \<Rightarrow> None
           | Inr parts \<Rightarrow>
               (let host = te_fold te (sr_hostname parts);
                    candidate = py_upper (rstrip_char (CHR ''/'') (dropWhile (\<lambda>ch. ch = CHR ''/'') (sr_path parts)));
                    groups = split_on (CHR ''-'') candidate;
                    users = [v. (k, v) \<leftarrow> parse_query_pairs (sr_query parts), k = ''user'' \<and> v \<noteq> []]
                in if (host = ''orcid.org'' \<or> host = ''www.orcid.org'') \<and> length groups = 4 \<and>
                      list_all (\<lambda>g. py_len g = 4) groups
                   then Some (''orcid:'' @ candidate)
                   else if endswith host ''scholar.google.com'' \<and> users \<noteq> []
                   then Some (''google_scholar:'' @ hd users)
                   else None)))"

type_synonym claim = "string \<times> string \<times> bool"

definition payload_str :: "topic_env \<Rightarrow> observation_row \<Rightarrow> string \<Rightarrow> string option" where
  "payload_str te r k = opt_str te (json_get (po_payload r) k)"

definition claims_for_observation :: "topic_env \<Rightarrow> curation_rules \<Rightarrow> observation_row \<Rightarrow> claim list" where
  "claims_for_observation te ru r =
     (let url = canonical_source_url (po_url r);
          key = (case url of None \<Rightarrow> [] | Some u \<Rightarrow> u @ ''|'' @ po_name_key r);
          email = normalize_email te (ru_empty ru) (payload_str te r ''email'')
      in (if url \<noteq> None \<and> po_page_kind r = ''single_profile'' then [(''profile_name_url'', key, True)] else []) @
         (case external_identity te (payload_str te r ''external_link'') of
            None \<Rightarrow> [] | Some x \<Rightarrow> [(''external_identity'', x, True)]) @
         (if url \<noteq> None \<and> (po_page_kind r = ''multi_profile'' \<or> po_page_kind r = ''unknown'')
          then [(''listing_name_url'', key, False)] else []) @
         (case po_org_unit r of
            None \<Rightarrow> []
          | Some u \<Rightarrow> [(''weak_org_name'', po_university r @ ''|'' @ int_str u @ ''|'' @ po_name_key r, False)]) @
         (case email of None \<Rightarrow> [] | Some e \<Rightarrow> [(''email'', e, False)]))"

definition active_claims :: "string \<Rightarrow> string \<Rightarrow> catalog \<Rightarrow> claim_row list" where
  "active_claims kind value c =
     filter (\<lambda>r. ic_type r = kind \<and> ic_value r = value \<and> ic_active r) (identity_claims c)"

definition claim_targets :: "bool \<Rightarrow> claim list \<Rightarrow> catalog \<Rightarrow> (catalog_error, string list) result" where
  "claim_targets strong claims c =
     res_fold (\<lambda>(kind, value, s) found.
         if s \<noteq> strong \<or> \<not> strong \<and> kind = ''email'' then Inr found
         else res_fold (\<lambda>r found. res_bind (resolve_entity (ic_entity r) c) (\<lambda>e. Inr (List.insert e found)))
                (active_claims kind value c) found)
       claims []"

definition entity_values :: "string \<Rightarrow> string \<Rightarrow> catalog \<Rightarrow> string list" where
  "entity_values e kind c =
     map ic_value (filter (\<lambda>r. ic_entity r = e \<and> ic_type r = kind \<and> ic_active r) (identity_claims c))"

definition claimed_value :: "string \<Rightarrow> claim list \<Rightarrow> string option" where
  "claimed_value kind claims = map_option (\<lambda>(k, v, s). v) (find (\<lambda>(k, v, s). k = kind) claims)"

definition value_conflict :: "string \<Rightarrow> string \<Rightarrow> claim list \<Rightarrow> catalog \<Rightarrow> bool" where
  "value_conflict e kind claims c =
     (case claimed_value kind claims of
        None \<Rightarrow> False
      | Some v \<Rightarrow> v \<noteq> [] \<and> entity_values e kind c \<noteq> [] \<and> v \<notin> set (entity_values e kind c))"

definition candidate_conflicts :: "string \<Rightarrow> claim list \<Rightarrow> catalog \<Rightarrow> string list" where
  "candidate_conflicts e claims c =
     (if value_conflict e ''listing_name_url'' claims c then [''same_org_name_multiple_profile_urls''] else []) @
     (if value_conflict e ''email'' claims c then [''email_conflict''] else [])"

section \<open>Assigning an observation (curation.py)\<close>

text \<open>The entity, how it was found, and the finding to record.\<close>

record match =
  mt_entity :: string
  mt_method :: string
  mt_finding :: "(string \<times> metadata) option"

definition choose_entity :: "string \<Rightarrow> claim list \<Rightarrow> catalog \<Rightarrow> (catalog_error, match) result" where
  "choose_entity fresh claims c =
     res_bind (claim_targets True claims c) (\<lambda>strong.
       let review = (\<lambda>code details. Inr \<lparr>mt_entity = fresh, mt_method = ''review'', mt_finding = Some (code, details)\<rparr>);
           candidates = (\<lambda>es. [(''candidate_entity_ids'', JList (map JStr (sort es)))])
       in case strong of
            [e] \<Rightarrow> Inr \<lparr>mt_entity = e, mt_method = ''strong'', mt_finding = None\<rparr>
          | _ # _ # _ \<Rightarrow> review ''strong_claim_collision'' (candidates strong)
          | [] \<Rightarrow>
              res_bind (claim_targets False claims c) (\<lambda>weak.
                case weak of
                  [e] \<Rightarrow>
                    (case candidate_conflicts e claims c of
                       [] \<Rightarrow> Inr \<lparr>mt_entity = e, mt_method = ''weak'', mt_finding = None\<rparr>
                     | reasons \<Rightarrow> review ''identity_conflict''
                         [(''candidate_entity_id'', JStr e), (''reasons'', JList (map JStr reasons))])
                | _ # _ # _ \<Rightarrow> review ''weak_claim_collision'' (candidates weak)
                | [] \<Rightarrow> Inr \<lparr>mt_entity = fresh, mt_method = ''new'', mt_finding = None\<rparr>))"

definition match_score :: "string \<Rightarrow> rat option" where
  "match_score method =
     (if method = ''weak'' then Some (8 / 10) else if method = ''new'' then None
      else if method = ''review'' then Some 0 else Some 1)"

definition ensure_entity :: "string \<Rightarrow> entity_status \<Rightarrow> catalog \<Rightarrow> catalog" where
  "ensure_entity e s c =
     (if e \<in> en_id ` set (entities c) then c
      else c\<lparr>entities := entities c @ [\<lparr>en_id = e, en_status = s, en_merged = None\<rparr>]\<rparr>)"

definition revive_entity :: "string \<Rightarrow> catalog \<Rightarrow> catalog" where
  "revive_entity e c =
     c\<lparr>entities := update_where (\<lambda>r. en_id r = e \<and> en_status r = E_inactive)
         (\<lambda>r. r\<lparr>en_status := E_active\<rparr>) (entities c)\<rparr>"

definition claim_key :: "claim_row \<Rightarrow> string \<times> string \<times> string \<times> string" where
  "claim_key r = (ic_entity r, ic_type r, ic_value r, ic_observation r)"

text \<open>The partial unique index: one active strong claim per type and value.\<close>

definition strong_taken :: "string \<Rightarrow> string \<Rightarrow> claim_row list \<Rightarrow> bool" where
  "strong_taken kind value rows =
     (\<exists>r \<in> set rows. ic_active r \<and> ic_strong r \<and> ic_type r = kind \<and> ic_value r = value)"

definition insert_claim :: "claim_row \<Rightarrow> claim_row list \<Rightarrow> claim_row list" where
  "insert_claim r rows =
     (if claim_key r \<in> claim_key ` set rows \<or> ic_strong r \<and> strong_taken (ic_type r) (ic_value r) rows then rows
      else rows @ [r])"

definition activate_claim ::
    "string \<times> string \<times> string \<times> string \<Rightarrow> claim_row list \<Rightarrow> (catalog_error, claim_row list) result" where
  "activate_claim k rows =
     (let others = filter (\<lambda>r. claim_key r \<noteq> k) rows
      in if (\<exists>r \<in> set rows. claim_key r = k \<and> ic_strong r \<and> strong_taken (ic_type r) (ic_value r) others)
         then Inl Integrity_error
         else Inr (update_where (\<lambda>r. claim_key r = k) (\<lambda>r. r\<lparr>ic_active := True\<rparr>) rows))"

definition move_claim ::
    "string \<times> string \<times> string \<times> string \<Rightarrow> string \<Rightarrow> string \<Rightarrow> claim_row list \<Rightarrow> claim_row list" where
  "move_claim k e ob rows =
     update_where (\<lambda>r. claim_key r = k) (\<lambda>r. r\<lparr>ic_entity := e, ic_observation := ob, ic_active := True\<rparr>) rows"

definition swap_claim ::
    "string \<times> string \<times> string \<times> string \<Rightarrow> string \<times> string \<times> string \<times> string \<Rightarrow> claim_row list \<Rightarrow> claim_row list" where
  "swap_claim off on rows =
     update_where (\<lambda>r. claim_key r = on) (\<lambda>r. r\<lparr>ic_active := True\<rparr>)
       (update_where (\<lambda>r. claim_key r = off) (\<lambda>r. r\<lparr>ic_active := False\<rparr>) rows)"

definition record_claim :: "string \<Rightarrow> string \<Rightarrow> claim \<Rightarrow> catalog \<Rightarrow> (catalog_error, catalog) result" where
  "record_claim e ob cl c =
     (case cl of (kind, value, strong) \<Rightarrow>
        let rows = identity_claims c; key = (e, kind, value, ob);
            plain = res_bind
              (activate_claim key (insert_claim \<lparr>ic_entity = e, ic_type = kind, ic_value = value, ic_strong = strong,
                                                 ic_observation = ob, ic_active = True\<rparr> rows))
              (\<lambda>rows'. Inr (c\<lparr>identity_claims := rows'\<rparr>))
        in if \<not> strong then plain
           else case active_claims kind value c of
                  [] \<Rightarrow> plain
                | current # _ \<Rightarrow>
                    res_bind (resolve_entity (ic_entity current) c) (\<lambda>owner.
                      if owner \<noteq> e then plain
                      else if key \<in> claim_key ` set rows \<and> key \<noteq> claim_key current
                      then Inr (c\<lparr>identity_claims := swap_claim (claim_key current) key rows\<rparr>)
                      else Inr (c\<lparr>identity_claims := move_claim (claim_key current) e ob rows\<rparr>)))"

definition identity_finding :: "catalog_env \<Rightarrow> string \<Rightarrow> string \<Rightarrow> (string \<times> metadata) option \<Rightarrow> catalog \<Rightarrow> catalog" where
  "identity_finding env b ob found c =
     (case found of
        None \<Rightarrow> c
      | Some (code, details) \<Rightarrow>
          (let fid = finding_id env b code ob
           in if fid \<in> qf_id ` set (findings c) then c
              else c\<lparr>findings := findings c @
                [\<lparr>qf_id = fid, qf_build = b, qf_severity = ''warning'', qf_code = code, qf_observation = Some ob,
                  qf_details = details, qf_resolved = False\<rparr>]\<rparr>))"

text \<open>The entity of the last assignment of the observation in any build.\<close>

definition historic_entity :: "string \<Rightarrow> catalog \<Rightarrow> string option" where
  "historic_entity ob c =
     (case filter (\<lambda>x. eo_observation x = ob) (entity_observations c) of
        [] \<Rightarrow> None | xs \<Rightarrow> Some (eo_entity (List.last xs)))"

definition match_observation ::
    "(string \<Rightarrow> string) \<Rightarrow> claim list \<Rightarrow> observation_row \<Rightarrow> catalog \<Rightarrow> (catalog_error, match \<times> catalog) result" where
  "match_observation mint claims r c =
     (case historic_entity (po_id r) c of
        Some h \<Rightarrow> res_bind (resolve_entity h c) (\<lambda>e.
                    Inr (\<lparr>mt_entity = e, mt_method = ''reused'', mt_finding = None\<rparr>, c))
      | None \<Rightarrow> res_bind (choose_entity (mint (po_id r)) claims c) (\<lambda>m.
                    Inr (m, ensure_entity (mt_entity m)
                              (if mt_method m = ''review'' then E_review else E_active) c)))"

definition assign_observation ::
    "catalog_env \<Rightarrow> topic_env \<Rightarrow> (string \<Rightarrow> string) \<Rightarrow> curation_rules \<Rightarrow> string \<Rightarrow> observation_row \<Rightarrow> bool handler" where
  "assign_observation env te mint ru b r c =
     (if (\<exists>x \<in> set (entity_observations c). eo_build x = b \<and> eo_observation x = po_id r) then Inr (False, c)
      else let claims = claims_for_observation te ru r
           in res_bind (match_observation mint claims r c) (\<lambda>(m, c1).
              let c2 = revive_entity (mt_entity m)
                    (c1\<lparr>entity_observations := entity_observations c1 @
                       [\<lparr>eo_entity = mt_entity m, eo_observation = po_id r, eo_build = b,
                         eo_method = mt_method m, eo_score = match_score (mt_method m)\<rparr>]\<rparr>)
              in res_bind (res_fold (record_claim (mt_entity m) (po_id r)) claims c2) (\<lambda>c3.
                 Inr (True, identity_finding env b (po_id r) (mt_finding m) c3))))"

definition curation_batch_id :: "catalog_env \<Rightarrow> string \<Rightarrow> string \<Rightarrow> string \<Rightarrow> string \<Rightarrow> string option" where
  "curation_batch_id env b sink uid key = Some (hash_parts env [b, sink, uid, key])"

definition commit_identity_batch ::
    "catalog_env \<Rightarrow> topic_env \<Rightarrow> (string \<Rightarrow> string) \<Rightarrow> curation_rules \<Rightarrow> string \<Rightarrow> string \<Rightarrow> observation_row list \<Rightarrow> unit handler" where
  "commit_identity_batch env te mint ru b uid rows c =
     res_bind (res_fold (\<lambda>r (n, d). res_bind (assign_observation env te mint ru b r d) (\<lambda>(new, d').
                 Inr (n + of_bool new, d'))) rows (0, c)) (\<lambda>(n, d).
       let key = po_id (List.last rows)
       in Inr ((), save_checkpoint b ''curation_identity'' uid key
                    (curation_batch_id env b ''curation_identity'' uid key) n d))"

definition deactivate_stale_claims :: "string \<Rightarrow> unit handler" where
  "deactivate_stale_claims b c =
     (let universities = map bt_university (filter (\<lambda>t. bt_build t = b) (tasks c));
          stale = map po_id (filter (\<lambda>o1. \<not> po_active o1 \<and> po_university o1 \<in> set universities) (observations c))
      in Inr ((), c\<lparr>identity_claims :=
           update_where (\<lambda>r. ic_observation r \<in> set stale) (\<lambda>r. r\<lparr>ic_active := False\<rparr>) (identity_claims c)\<rparr>))"

section \<open>Field claims (curation.py)\<close>

definition one_value :: "string option \<Rightarrow> string list" where
  "one_value v = (if truthy_str v then [the v] else [])"

definition normalized_field_values :: "topic_env \<Rightarrow> curation_rules \<Rightarrow> metadata \<Rightarrow> (string \<times> string list) list" where
  "normalized_field_values te ru payload =
     (let field = (\<lambda>k. opt_str te (json_get payload k)); text = (\<lambda>k. normalize_text te (ru_empty ru) (field k))
      in [(''name'', one_value (text ''name'')), (''title'', one_value (text ''title'')),
          (''bio'', one_value (text ''bio'')),
          (''email'', one_value (normalize_email te (ru_empty ru) (field ''email''))),
          (''phone'', one_value (text ''phone'')),
          (''profile_url'', one_value (canonical_source_url (field ''homepage''))),
          (''external_url'', one_value (canonical_source_url (field ''external_link''))),
          (''enrollment_pref'', one_value (text ''enrollment_pref'')),
          (''research_areas'', split_multivalue te (ru_empty ru) (field ''research_areas'')),
          (''publications'', split_multivalue te (ru_empty ru) (field ''publications''))])"

definition grade_confidence :: "string \<Rightarrow> (catalog_error, rat) result" where
  "grade_confidence g =
     (if g = ''direct'' then Inr (9 / 10) else if g = ''incomplete'' then Inr (6 / 10)
      else if g = ''legacy_merged'' then Inr (4 / 10) else Inl (Key_error_cat (quoted g)))"

definition same_field_claim :: "field_claim_row \<Rightarrow> field_claim_row \<Rightarrow> bool" where
  "same_field_claim x y =
     (fc_build x = fc_build y \<and> fc_entity x = fc_entity y \<and> fc_field x = fc_field y \<and> fc_value x = fc_value y \<and>
      fc_observation x = fc_observation y)"

definition insert_field_claim :: "field_claim_row \<Rightarrow> nat \<times> catalog \<Rightarrow> nat \<times> catalog" where
  "insert_field_claim r s =
     (case s of (n, c) \<Rightarrow>
        if (\<exists>x \<in> set (field_claims c). same_field_claim x r) then (n, c)
        else (Suc n, c\<lparr>field_claims := field_claims c @ [r\<lparr>fc_id := next_id fc_id (field_claims c)\<rparr>]\<rparr>))"

definition commit_field_row ::
    "topic_env \<Rightarrow> curation_rules \<Rightarrow> string \<Rightarrow> string \<times> observation_row \<Rightarrow> nat \<times> catalog \<Rightarrow>
     (catalog_error, nat \<times> catalog) result" where
  "commit_field_row te ru b x s =
     (case x of (e, r) \<Rightarrow>
        res_bind (resolve_entity e (snd s)) (\<lambda>target.
        res_bind (grade_confidence (po_grade r)) (\<lambda>conf.
          Inr (fold insert_field_claim
            [\<lparr>fc_id = 0, fc_entity = target, fc_field = f, fc_value = v, fc_observation = po_id r,
              fc_confidence = conf, fc_selected = False, fc_reason = None, fc_build = b\<rparr>.
              (f, vs) \<leftarrow> normalized_field_values te ru (po_payload r), v \<leftarrow> vs] s))))"

definition commit_field_batch ::
    "catalog_env \<Rightarrow> topic_env \<Rightarrow> curation_rules \<Rightarrow> string \<Rightarrow> string \<Rightarrow> (string \<times> observation_row) list \<Rightarrow> unit handler" where
  "commit_field_batch env te ru b uid rows c =
     res_bind (res_fold (commit_field_row te ru b) rows (0, c)) (\<lambda>(n, d).
       let key = po_id (snd (List.last rows))
       in Inr ((), save_checkpoint b ''curation_fields'' uid key
                    (curation_batch_id env b ''curation_fields'' uid key) n d))"

section \<open>Canonical professors (curation.py)\<close>

text \<open>
  The recursive query for the members of an entity, level by level: as many levels as there are entities
  are enough, because merges form no cycle.
\<close>

fun merge_levels :: "nat \<Rightarrow> entity_row list \<Rightarrow> string list \<Rightarrow> string list" where
  "merge_levels 0 rows ids = ids"
| "merge_levels (Suc n) rows ids =
     (let below = map en_id (filter (\<lambda>r. en_status r = E_merged \<and> en_merged r \<in> Some ` set ids) rows)
      in if below = [] then ids else ids @ merge_levels n rows below)"

definition merge_members :: "string \<Rightarrow> catalog \<Rightarrow> string list" where
  "merge_members e c = sort (merge_levels (length (entities c)) (entities c) [e])"

definition active_override :: "string list \<Rightarrow> string \<Rightarrow> string option \<Rightarrow> catalog \<Rightarrow> json" where
  "active_override members kind field c =
     (case rev (sort_key (\<lambda>r. (ov_version r, ov_created r))
             (filter (\<lambda>r. ov_entity r \<in> set members \<and> ov_kind r = kind \<and> ov_field r = field \<and> ov_active r)
                (overrides c))) of
        [] \<Rightarrow> JNull | r # _ \<Rightarrow> ov_value r)"

text \<open>The claims on a field with the grade and the time of their observation, best first.\<close>

definition grade_rank :: "string \<Rightarrow> nat" where
  "grade_rank g = (if g = ''direct'' then 3 else if g = ''incomplete'' then 2 else 1)"

definition fetched_time :: "observation_row \<Rightarrow> catalog \<Rightarrow> string option" where
  "fetched_time r c =
     (case po_document r of
        None \<Rightarrow> None
      | Some d \<Rightarrow> (case find (\<lambda>x. sd_id x = d) (documents c) of None \<Rightarrow> None | Some x \<Rightarrow> sd_fetched x))"

definition seen_time :: "observation_row \<Rightarrow> catalog \<Rightarrow> string" where
  "seen_time r c =
     (case fetched_time r c of
        Some t \<Rightarrow> t
      | None \<Rightarrow> (case find_build (po_last_seen r) c of
                  None \<Rightarrow> [] | Some g \<Rightarrow> (case gb_started g of None \<Rightarrow> [] | Some t \<Rightarrow> t)))"

definition field_rank :: "catalog \<Rightarrow> field_claim_row \<times> observation_row \<Rightarrow> nat \<times> string \<times> string \<times> nat" where
  "field_rank c x = (grade_rank (po_grade (snd x)), seen_time (snd x) c, fc_observation (fst x), fc_id (fst x))"

definition field_rows :: "string \<Rightarrow> string list \<Rightarrow> string \<Rightarrow> catalog \<Rightarrow> (field_claim_row \<times> observation_row) list" where
  "field_rows b members field c =
     rev (sort_key (field_rank c)
       [(x, r). x \<leftarrow> field_claims c, fc_build x = b \<and> fc_entity x \<in> set members \<and> fc_field x = field,
                r \<leftarrow> observations c, po_id r = fc_observation x])"

definition select_claim :: "nat \<Rightarrow> string \<Rightarrow> catalog \<Rightarrow> catalog" where
  "select_claim i reason c =
     c\<lparr>field_claims := update_where (\<lambda>x. fc_id x = i) (\<lambda>x. x\<lparr>fc_selected := True, fc_reason := Some reason\<rparr>)
         (field_claims c)\<rparr>"

definition scalar_reason :: "string \<Rightarrow> string" where
  "scalar_reason g =
     (if g = ''direct'' then ''direct_active'' else if g = ''legacy_merged'' then ''legacy_merged'' else ''latest_nonempty'')"

definition select_scalar :: "topic_env \<Rightarrow> string \<Rightarrow> string list \<Rightarrow> string \<Rightarrow> catalog \<Rightarrow> string option \<times> catalog" where
  "select_scalar te b members field c =
     (let ov = active_override members ''field'' (Some field) c
      in if ov \<noteq> JNull then (norm te (opt_str te ov), c)
         else case field_rows b members field c of
                [] \<Rightarrow> (None, c)
              | (x, r) # _ \<Rightarrow> (Some (fc_value x), select_claim (fc_id x) (scalar_reason (po_grade r)) c))"

definition union_separator :: string where "union_separator = [CHR 0xEF, CHR 0xBC, CHR 0x9B]"

definition joined_values :: "string list \<Rightarrow> string option" where
  "joined_values vs = (if vs = [] then None else Some (join_with union_separator vs))"

definition select_union :: "topic_env \<Rightarrow> string \<Rightarrow> string list \<Rightarrow> string \<Rightarrow> catalog \<Rightarrow> string option \<times> catalog" where
  "select_union te b members field c =
     (let ov = active_override members ''field'' (Some field) c
      in if ov \<noteq> JNull then (joined_values (split_multivalue te default_empty_values (opt_str te ov)), c)
         else let chosen = keep_first (\<lambda>(x, r). te_fold te (fc_value x)) (field_rows b members field c) []
              in (joined_values (map (\<lambda>(x, r). fc_value x) chosen),
                  fold (\<lambda>(x, r). select_claim (fc_id x) ''set_union'') chosen c))"

definition entity_rows :: "string \<Rightarrow> string list \<Rightarrow> catalog \<Rightarrow> observation_row list" where
  "entity_rows b members c =
     [r. x \<leftarrow> entity_observations c, eo_build x = b \<and> eo_entity x \<in> set members,
         r \<leftarrow> observations c, po_id r = eo_observation x]"

text \<open>\<open>payload.get("affiliations", [])\<close>, iterated, and \<open>affiliation.get("org\_unit\_name")\<close> of each.\<close>

definition unit_names :: "topic_env \<Rightarrow> metadata \<Rightarrow> (catalog_error, string option list) result" where
  "unit_names te payload =
     res_bind (case dict_get payload ''affiliations'' of None \<Rightarrow> Inr [] | Some v \<Rightarrow> iter_json v) (\<lambda>vs.
       res_fold (\<lambda>x names. case x of JDict d \<Rightarrow> Inr (names @ [opt_str te (json_get d ''org_unit_name'')])
                             | _ \<Rightarrow> Inl Type_error_cat) vs [])"

definition document_title :: "observation_row \<Rightarrow> catalog \<Rightarrow> string option" where
  "document_title r c =
     (case po_document r of
        None \<Rightarrow> None
      | Some d \<Rightarrow> (case find (\<lambda>x. sd_id x = d) (documents c) of None \<Rightarrow> None | Some x \<Rightarrow> sd_title x))"

definition context_of :: "topic_env \<Rightarrow> catalog \<Rightarrow> observation_row \<Rightarrow> (catalog_error, string list) result" where
  "context_of te c r =
     res_bind (unit_names te (po_payload r)) (\<lambda>units.
       Inr (List.map_filter (norm te)
         ([payload_str te r ''title'', payload_str te r ''org_unit_name'', document_title r c, po_url r] @ units)))"

definition role_context ::
    "topic_env \<Rightarrow> string \<Rightarrow> string list \<Rightarrow> catalog \<Rightarrow> (catalog_error, string list \<times> string list) result" where
  "role_context te b members c =
     res_fold (\<lambda>r (enrollment, contexts). res_bind (context_of te c r) (\<lambda>more.
         Inr (enrollment @ one_value (norm te (payload_str te r ''enrollment_pref'')), contexts @ more)))
       (entity_rows b members c) ([], [])"

definition unselect_claims :: "string \<Rightarrow> string list \<Rightarrow> catalog \<Rightarrow> catalog" where
  "unselect_claims b members c =
     c\<lparr>field_claims := update_where (\<lambda>x. fc_build x = b \<and> fc_entity x \<in> set members)
         (\<lambda>x. x\<lparr>fc_selected := False, fc_reason := None\<rparr>) (field_claims c)\<rparr>"

definition role_values :: "string list" where "role_values = [''included'', ''review'', ''excluded'']"

definition final_role :: "json \<Rightarrow> entity_status \<Rightarrow> role_decision \<Rightarrow> string \<times> string list" where
  "final_role ov status d =
     (if ov \<in> JStr ` set role_values
      then ((case ov of JStr s \<Rightarrow> s | _ \<Rightarrow> rd_role d), [''manual_role_override''])
      else if status = E_review \<and> ov = JNull
      then (''review'', rd_reasons d @ (if ''identity_review'' \<in> set (rd_reasons d) then [] else [''identity_review'']))
      else (rd_role d, rd_reasons d))"

definition round4 :: "rat \<Rightarrow> rat" where
  "round4 q = of_int (floor (q * 10000 + 1 / 2)) / 10000"

definition completeness :: "string option list \<Rightarrow> rat" where
  "completeness vs = round4 (of_nat (length (filter (\<lambda>v. v \<noteq> None) vs)) / 6)"

definition put_canonical :: "canonical_row \<Rightarrow> catalog \<Rightarrow> catalog" where
  "put_canonical p c =
     (if (\<exists>q \<in> set (canonical_professors c). cp_entity q = cp_entity p \<and> cp_build q = cp_build p)
      then c\<lparr>canonical_professors := update_where
               (\<lambda>q. cp_entity q = cp_entity p \<and> cp_build q = cp_build p) (\<lambda>_. p) (canonical_professors c)\<rparr>
      else c\<lparr>canonical_professors := canonical_professors c @ [p]\<rparr>)"

definition canonical_name ::
    "topic_env \<Rightarrow> string \<Rightarrow> string \<Rightarrow> string list \<Rightarrow> catalog \<Rightarrow> (catalog_error, string \<times> catalog) result" where
  "canonical_name te b target members c =
     (case select_scalar te b members ''name'' c of
        (Some name, c') \<Rightarrow> Inr (name, c')
      | (None, c') \<Rightarrow>
          (case sort_key po_id (entity_rows b members c') of
             [] \<Rightarrow> Inl (Catalog_error (''active entity '' @ target @ '' has no name evidence''))
           | r # _ \<Rightarrow> Inr (po_name_raw r, c')))"

definition materialize_entity :: "topic_env \<Rightarrow> curation_rules \<Rightarrow> string \<Rightarrow> string \<Rightarrow> unit handler" where
  "materialize_entity te ru b target c =
     (let members = merge_members target c
      in res_bind (canonical_name te b target members (unselect_claims b members c)) (\<lambda>(name, c1).
         let (title, c2) = select_scalar te b members ''title'' c1;
             (research, c3) = select_union te b members ''research_areas'' c2;
             (bio, c4) = select_scalar te b members ''bio'' c3;
             (email, c5) = select_scalar te b members ''email'' c4;
             (phone, c6) = select_scalar te b members ''phone'' c5;
             (profile, c7) = select_scalar te b members ''profile_url'' c6;
             (external, c8) = select_scalar te b members ''external_url'' c7
         in res_bind (role_context te b members c8) (\<lambda>(enrollment, contexts).
            case find_entity target c8 of
              None \<Rightarrow> Inl Type_error_cat
            | Some r \<Rightarrow>
                (let d = classify_role te ru title enrollment contexts;
                     (role, reasons) = final_role (active_override members ''role'' None c8) (en_status r) d
                 in Inr ((), put_canonical
                      \<lparr>cp_entity = target, cp_build = b, cp_name = name, cp_title_raw = title,
                       cp_title_family = rd_family d, cp_role = role, cp_reasons = map JStr reasons,
                       cp_master = rd_master d, cp_phd = rd_phd d, cp_research = research, cp_bio = bio,
                       cp_email = email, cp_phone = phone, cp_profile_url = profile, cp_external_url = external,
                       cp_active = True,
                       cp_completeness = completeness [Some name, title, research, bio, email, profile]\<rparr> c8)))))"

definition commit_canonical_batch ::
    "catalog_env \<Rightarrow> topic_env \<Rightarrow> curation_rules \<Rightarrow> string \<Rightarrow> string \<Rightarrow> string list \<Rightarrow> unit handler" where
  "commit_canonical_batch env te ru b uid es c =
     res_bind (res_fold (\<lambda>e (n, d).
         res_bind (resolve_entity e d) (\<lambda>target.
         let new = \<not> (\<exists>p \<in> set (canonical_professors d). cp_build p = b \<and> cp_entity p = target)
         in res_bind (materialize_entity te ru b target d) (\<lambda>(_, d').
            Inr (n + of_bool new, d')))) es (0 :: nat, c)) (\<lambda>(n, d).
       Inr ((), save_checkpoint b ''curation_canonical'' uid (List.last es)
                  (curation_batch_id env b ''curation_canonical'' uid (List.last es)) n d))"

section \<open>Tombstones (curation.py)\<close>

definition build_universities :: "string \<Rightarrow> catalog \<Rightarrow> string list" where
  "build_universities b c = map bt_university (load_tasks b c)"

definition tombstone_candidates :: "string \<Rightarrow> catalog \<Rightarrow> string list" where
  "tombstone_candidates b c =
     sort (remdups [ic_entity k. k \<leftarrow> identity_claims c, r \<leftarrow> observations c,
        po_id r = ic_observation k \<and> po_university r \<in> set (build_universities b c) \<and>
        \<not> (\<exists>x \<in> set (entity_observations c). eo_build x = b \<and> eo_entity x = ic_entity k)])"

definition previous_canonical :: "string \<Rightarrow> string \<Rightarrow> catalog \<Rightarrow> canonical_row option" where
  "previous_canonical b e c =
     (case rev (sort_key fst (rev [(case gb_started g of None \<Rightarrow> [] | Some t \<Rightarrow> t, p). p \<leftarrow> canonical_professors c,
                 cp_entity p = e \<and> cp_build p \<noteq> b, g \<leftarrow> builds c, gb_id g = cp_build p])) of
        [] \<Rightarrow> None | (_, p) # _ \<Rightarrow> Some p)"

definition inactivate_entity :: "string \<Rightarrow> catalog \<Rightarrow> catalog" where
  "inactivate_entity e c =
     c\<lparr>entities := update_where (\<lambda>r. en_id r = e \<and> en_status r \<noteq> E_merged \<and> en_status r \<noteq> E_review)
         (\<lambda>r. r\<lparr>en_status := E_inactive\<rparr>) (entities c)\<rparr>"

definition copy_tombstone :: "string \<Rightarrow> string \<Rightarrow> catalog \<Rightarrow> catalog" where
  "copy_tombstone b e c =
     (case previous_canonical b e c of
        None \<Rightarrow> c
      | Some p \<Rightarrow>
          inactivate_entity e
            (if (\<exists>q \<in> set (canonical_professors c). cp_entity q = cp_entity p \<and> cp_build q = b) then c
             else c\<lparr>canonical_professors := canonical_professors c @ [p\<lparr>cp_build := b, cp_active := False\<rparr>]\<rparr>))"

definition copy_inactive_tombstones :: "string \<Rightarrow> unit handler" where
  "copy_inactive_tombstones b c = Inr ((), fold (copy_tombstone b) (tombstone_candidates b c) c)"

section \<open>The stage (curation.py)\<close>

record curation_io =
  ci_env :: catalog_env
  ci_topic :: topic_env
  ci_rules :: "(catalog_error, curation_rules) result"
  ci_mint :: "string \<Rightarrow> string"
  ci_batch :: nat

text \<open>The rows of a sink after its last key in pages; an error of a page ends the group of tasks.\<close>

definition stream_rows ::
    "nat \<Rightarrow> ('r \<Rightarrow> string) \<Rightarrow> (string \<Rightarrow> catalog \<Rightarrow> 'r list) \<Rightarrow> (string \<Rightarrow> 'r list \<Rightarrow> unit handler) \<Rightarrow> string \<Rightarrow> string \<Rightarrow>
     ('x cat_world, unit) action" where
  "stream_rows n key rows commit b sink =
     act_bind (query (\<lambda>c. Inr (build_universities b c))) (\<lambda>us.
       act_each (\<lambda>u. act_bind (query (\<lambda>c. Inr (key_pages n key (last_key b sink u c) (rows u c)))) (\<lambda>pages.
         act_try (act_each (\<lambda>page. execute (commit u page)) pages) (\<lambda>e. act_raise group_error))) us)"

definition identity_rows :: "string \<Rightarrow> catalog \<Rightarrow> observation_row list" where
  "identity_rows u c = sort_key po_id (filter (\<lambda>r. po_university r = u \<and> po_active r) (observations c))"

definition field_source_rows :: "string \<Rightarrow> string \<Rightarrow> catalog \<Rightarrow> (string \<times> observation_row) list" where
  "field_source_rows b u c =
     sort_key (\<lambda>(e, r). po_id r)
       [(eo_entity x, r). x \<leftarrow> entity_observations c, eo_build x = b,
          r \<leftarrow> observations c, po_id r = eo_observation x \<and> po_university r = u]"

definition canonical_source_rows :: "string \<Rightarrow> string \<Rightarrow> catalog \<Rightarrow> string list" where
  "canonical_source_rows b u c = sort (remdups (map fst (field_source_rows b u c)))"

definition curation_work :: "curation_io \<Rightarrow> curation_rules \<Rightarrow> string \<Rightarrow> ('x cat_world, unit) action" where
  "curation_work io ru b =
     (let env = ci_env io; te = ci_topic io; n = ci_batch io
      in act_seq (stream_rows n po_id identity_rows (commit_identity_batch env te (ci_mint io) ru b) b ''curation_identity'')
         (act_seq (execute (deactivate_stale_claims b))
         (act_seq (stream_rows n (\<lambda>(e, r). po_id r) (field_source_rows b) (commit_field_batch env te ru b) b ''curation_fields'')
         (act_seq (stream_rows n (\<lambda>e. e) (canonical_source_rows b) (commit_canonical_batch env te ru b) b ''curation_canonical'')
                  (execute (copy_inactive_tombstones b))))))"

section \<open>Overrides and merges (overrides.py)\<close>

definition next_version :: "string \<Rightarrow> string \<Rightarrow> string option \<Rightarrow> catalog \<Rightarrow> int" where
  "next_version e kind field c =
     fold max (map ov_version (filter (\<lambda>r. ov_entity r = e \<and> ov_kind r = kind \<and> ov_field r = field) (overrides c))) 0 + 1"

record override_request =
  rq_entity :: string
  rq_kind :: string
  rq_field :: "string option"
  rq_value :: json
  rq_actor :: string
  rq_why :: string
  rq_supersedes :: "string option"

definition superseded_ok :: "override_request \<Rightarrow> catalog \<Rightarrow> bool" where
  "superseded_ok rq c =
     (case rq_supersedes rq of
        None \<Rightarrow> True
      | Some i \<Rightarrow> (case find (\<lambda>r. ov_id r = i \<and> ov_active r) (overrides c) of
                     None \<Rightarrow> False | Some r \<Rightarrow> ov_entity r = rq_entity rq))"

definition insert_override :: "string \<Rightarrow> string \<Rightarrow> override_request \<Rightarrow> catalog \<Rightarrow> (catalog_error, catalog) result" where
  "insert_override now fresh rq c =
     (if py_strip (rq_actor rq) = [] \<or> py_strip (rq_why rq) = []
      then Inl (Value_error_cat ''actor and reason are required'')
      else if find_entity (rq_entity rq) c = None
      then Inl (Catalog_error (''unknown entity: '' @ rq_entity rq))
      else if \<not> superseded_ok rq c
      then Inl (Catalog_error ''superseded override is missing, inactive, or belongs to another entity'')
      else if fresh \<in> ov_id ` set (overrides c) then Inl Integrity_error
      else Inr (c\<lparr>overrides :=
        update_where (\<lambda>r. Some (ov_id r) = rq_supersedes rq) (\<lambda>r. r\<lparr>ov_active := False\<rparr>) (overrides c) @
        [\<lparr>ov_id = fresh, ov_entity = rq_entity rq, ov_kind = rq_kind rq, ov_field = rq_field rq, ov_value = rq_value rq,
          ov_version = next_version (rq_entity rq) (rq_kind rq) (rq_field rq) c,
          ov_actor = py_strip (rq_actor rq), ov_why = py_strip (rq_why rq), ov_supersedes = rq_supersedes rq,
          ov_active = True, ov_created = now\<rparr>]\<rparr>))"

definition record_override :: "string \<Rightarrow> string \<Rightarrow> override_request \<Rightarrow> string handler" where
  "record_override now fresh rq c =
     (if rq_kind rq \<noteq> ''field'' \<and> rq_kind rq \<noteq> ''role''
      then Inl (Value_error_cat (''kind must be '' @ quoted ''field'' @ '' or '' @ quoted ''role''))
      else if rq_kind rq = ''field'' \<and> \<not> truthy_str (rq_field rq)
      then Inl (Value_error_cat ''field overrides require field_name'')
      else if rq_kind rq = ''role'' \<and> rq_value rq \<notin> JStr ` set role_values
      then Inl (Value_error_cat ''role override must be included, review, or excluded'')
      else res_bind (insert_override now fresh rq c) (\<lambda>c'. Inr (fresh, c')))"

definition merge_target :: "string \<Rightarrow> catalog \<Rightarrow> (catalog_error, string) result" where
  "merge_target e c =
     (case resolve_entity e c of
        Inl err \<Rightarrow> Inl (if startswith (error_text err) ''entity merge cycle detected''
                        then Catalog_error ''entity merge cycle detected'' else err)
      | Inr x \<Rightarrow> Inr x)"

text \<open>
  The walk up from the target, which follows \<open>merged_into_id\<close> whatever the status says; \<open>None\<close> when it has not
  ended after the given number of steps.
\<close>

fun walk_up :: "nat \<Rightarrow> entity_row list \<Rightarrow> string \<Rightarrow> string \<Rightarrow> bool option" where
  "walk_up 0 rows src cur = None"
| "walk_up (Suc n) rows src cur =
     (if cur = src then Some True
      else case find (\<lambda>r. en_id r = cur) rows of
             None \<Rightarrow> Some False
           | Some r \<Rightarrow> (case en_merged r of None \<Rightarrow> Some False | Some up \<Rightarrow> walk_up n rows src up))"

definition set_merged :: "string \<Rightarrow> string \<Rightarrow> catalog \<Rightarrow> catalog" where
  "set_merged src target c =
     c\<lparr>entities := update_where (\<lambda>r. en_id r = src) (\<lambda>r. r\<lparr>en_status := E_merged, en_merged := Some target\<rparr>)
         (entities c)\<rparr>"

definition merge_entities :: "string \<Rightarrow> string \<Rightarrow> string \<Rightarrow> string \<Rightarrow> string \<Rightarrow> string \<Rightarrow> string handler" where
  "merge_entities now fresh src0 target0 actor why c =
     res_bind (merge_target src0 c) (\<lambda>src.
     res_bind (merge_target target0 c) (\<lambda>target.
       if src \<noteq> src0 then Inl (Catalog_error ''source entity is already merged'')
       else if src = target then Inl (Catalog_error ''source and target resolve to the same entity'')
       else if walk_up (Suc (length (entities c))) (entities c) src target \<noteq> Some False
       then Inl (Catalog_error ''merge would create a cycle'')
       else res_bind (insert_override now fresh
              \<lparr>rq_entity = src, rq_kind = ''merge'', rq_field = None,
               rq_value = JDict [(''target_entity_id'', JStr target)], rq_actor = actor, rq_why = why,
               rq_supersedes = None\<rparr> c)
            (\<lambda>c'. Inr (fresh, set_merged src target c'))))"

section \<open>Merges form a forest\<close>

definition merges :: "entity_row list \<Rightarrow> (string \<times> string) set" where
  "merges rows = {(en_id r, x) | r x. r \<in> set rows \<and> merged_into r = Some x}"

definition entities_ok :: "entity_row list \<Rightarrow> bool" where
  "entities_ok rows =
     (distinct (map en_id rows) \<and> acyclic (merges rows) \<and> Range (merges rows) \<subseteq> en_id ` set rows \<and>
      (\<forall>r \<in> set rows. en_merged r \<noteq> None \<longrightarrow> en_status r = E_merged))"

definition is_root :: "entity_row list \<Rightarrow> string \<Rightarrow> bool" where
  "is_root rows e = (e \<in> en_id ` set rows \<and> e \<notin> Domain (merges rows))"

lemma find_entity_row:
  "distinct (map en_id rows) \<Longrightarrow> r \<in> set rows \<Longrightarrow> find (\<lambda>x. en_id x = en_id r) rows = Some r"
  by (rule find_unique)

lemma merges_iff:
  assumes "distinct (map en_id rows)" and "find (\<lambda>x. en_id x = i) rows = Some r"
  shows "(i, x) \<in> merges rows \<longleftrightarrow> merged_into r = Some x"
proof -
  from assms(2) have "r \<in> set rows" "en_id r = i" by (auto dest: find_in_set)
  moreover have "q = r" if "q \<in> set rows" "en_id q = i" for q
    using find_entity_row [OF assms(1) that(1)] assms(2) that(2) by simp
  moreover have "(i, x) \<in> merges rows \<longleftrightarrow> (\<exists>q \<in> set rows. en_id q = i \<and> merged_into q = Some x)"
    by (auto simp: merges_def)
  ultimately show ?thesis by blast
qed

lemma resolve_from_root:
  assumes "entities_ok rows" and "i \<in> en_id ` set rows" and "\<forall>s \<in> set seen. (s, i) \<in> (merges rows)\<^sup>+"
  shows "\<exists>e. resolve_from rows seen i = Inr e \<and> (i, e) \<in> (merges rows)\<^sup>* \<and> is_root rows e"
  using assms
proof (induction rows seen i rule: resolve_from.induct)
  case (1 rows seen cur)
  have dist: "distinct (map en_id rows)" and acyc: "acyclic (merges rows)"
    and closed: "Range (merges rows) \<subseteq> en_id ` set rows" using "1.prems"(1) by (auto simp: entities_ok_def)
  from "1.prems"(3) acyc have new: "cur \<notin> set seen" by (auto simp: acyclic_def)
  from "1.prems"(2) obtain r where r: "find (\<lambda>x. en_id x = cur) rows = Some r"
    using find_entity_row [OF dist] by auto
  show ?case
  proof (cases "merged_into r")
    case None
    then have "is_root rows cur" using "1.prems"(2) merges_iff [OF dist r] by (auto simp: is_root_def)
    with None r new show ?thesis by (simp add: resolve_from.simps)
  next
    case (Some up)
    then have edge: "(cur, up) \<in> merges rows" using merges_iff [OF dist r] by simp
    then have "up \<in> en_id ` set rows" using closed by auto
    moreover have "\<forall>s \<in> set (cur # seen). (s, up) \<in> (merges rows)\<^sup>+"
      using "1.prems"(3) edge by (auto intro: trancl_into_trancl)
    ultimately obtain e where "resolve_from rows (cur # seen) up = Inr e" "(up, e) \<in> (merges rows)\<^sup>*" "is_root rows e"
      using "1.IH" [OF new r Some "1.prems"(1)] by blast
    then show ?thesis using Some r new edge
      by (auto simp: resolve_from.simps [of _ _ cur] intro: converse_rtrancl_into_rtrancl)
  qed
qed

lemma resolve_known: "resolve_from rows seen i = Inr e \<Longrightarrow> i \<in> en_id ` set rows"
  by (subst (asm) resolve_from.simps) (auto split: if_splits option.splits dest: find_in_set)

lemma resolve_root:
  assumes "entities_ok (entities c)" and "resolve_entity i c = Inr e"
  shows "is_root (entities c) e"
  using resolve_from_root [OF assms(1) resolve_known [OF assms(2) [unfolded resolve_entity_def]], of "[]"] assms(2)
  by (auto simp: resolve_entity_def)

lemma merges_image: "merges rows = {(a, x). (a, Some x) \<in> (\<lambda>r. (en_id r, merged_into r)) ` set rows}"
  by (auto simp: merges_def image_iff)

lemma set_update_where: "set (update_where P f rows) = (\<lambda>r. if P r then f r else r) ` set rows"
  by (simp add: update_where_def)

lemma merges_update:
  assumes "\<And>r. P r \<Longrightarrow> en_id (f r) = en_id r \<and> merged_into (f r) = merged_into r"
  shows "merges (update_where P f rows) = merges rows"
proof -
  have "(\<lambda>r. (en_id r, merged_into r)) ` set (update_where P f rows) = (\<lambda>r. (en_id r, merged_into r)) ` set rows"
    unfolding set_update_where image_image using assms by (intro image_cong) auto
  then show ?thesis by (simp add: merges_image)
qed

lemma entities_ok_status:
  assumes "entities_ok rows"
    and "\<And>r. P r \<Longrightarrow> en_id (f r) = en_id r \<and> en_merged (f r) = en_merged r \<and> en_status r \<noteq> E_merged \<and> en_status (f r) \<noteq> E_merged"
  shows "entities_ok (update_where P f rows)"
proof -
  have same: "merges (update_where P f rows) = merges rows"
    using assms(2) by (intro merges_update) (simp add: merged_into_def)
  have ids: "map en_id (update_where P f rows) = map en_id rows"
    using assms(2) by (simp add: update_where_def)
  have "en_status r = E_merged" if r: "r \<in> set (update_where P f rows)" "en_merged r \<noteq> None" for r
  proof -
    from r(1) obtain q where q: "q \<in> set rows" "r = (if P q then f q else q)" by (rule mem_update_whereE)
    with r(2) assms(2) [of q] have "en_merged q \<noteq> None" by (auto split: if_splits)
    with q(1) assms(1) have "en_status q = E_merged" by (simp add: entities_ok_def)
    with q(2) assms(2) [of q] show ?thesis by auto
  qed
  moreover have "en_id ` set (update_where P f rows) = en_id ` set rows" using ids by (metis list.set_map)
  ultimately show ?thesis using assms(1) by (simp add: entities_ok_def same ids)
qed

lemma image_if_const:
  "\<exists>r \<in> A. P r \<Longrightarrow> (\<lambda>r. if P r then k else f r) ` A = insert k (f ` {r \<in> A. \<not> P r})"
  by auto

lemma entities_ok_add:
  assumes "entities_ok rows" and "e \<notin> en_id ` set rows" and "s \<noteq> E_merged"
  shows "entities_ok (rows @ [\<lparr>en_id = e, en_status = s, en_merged = None\<rparr>])"
proof -
  have "merges (rows @ [\<lparr>en_id = e, en_status = s, en_merged = None\<rparr>]) = merges rows"
    by (auto simp: merges_def merged_into_def)
  then show ?thesis using assms by (auto simp: entities_ok_def)
qed

lemma entities_ok_merge:
  assumes ok: "entities_ok rows" and src: "is_root rows src" and target: "is_root rows t" and "src \<noteq> t"
  shows "entities_ok (update_where (\<lambda>r. en_id r = src) (\<lambda>r. r\<lparr>en_status := E_merged, en_merged := Some t\<rparr>) rows)"
proof -
  let ?rows = "update_where (\<lambda>r. en_id r = src) (\<lambda>r. r\<lparr>en_status := E_merged, en_merged := Some t\<rparr>) rows"
  have ids: "map en_id ?rows = map en_id rows" by (simp add: update_where_def)
  let ?f = "\<lambda>r. (en_id r, merged_into r)"
  have "?f ` set ?rows = (\<lambda>r. if en_id r = src then (src, Some t) else ?f r) ` set rows"
    unfolding set_update_where image_image by (intro image_cong) (simp_all add: merged_into_def)
  also have "\<dots> = insert (src, Some t) (?f ` {r \<in> set rows. en_id r \<noteq> src})"
    using src by (intro image_if_const) (auto simp: is_root_def)
  finally have "?f ` set ?rows = insert (src, Some t) (?f ` {r \<in> set rows. en_id r \<noteq> src})" .
  moreover have "(a, x) \<in> merges rows \<longleftrightarrow> (a, Some x) \<in> ?f ` {r \<in> set rows. en_id r \<noteq> src}" for a x
  proof -
    have "(src, y) \<notin> merges rows" for y using src by (auto simp: is_root_def)
    then have "merged_into r \<noteq> Some y" if "r \<in> set rows" "en_id r = src" for r y
      using that by (auto simp: merges_def)
    then have "(a, Some x) \<in> ?f ` set rows \<longleftrightarrow> (a, Some x) \<in> ?f ` {r \<in> set rows. en_id r \<noteq> src}"
      unfolding image_iff by (metis (mono_tags, lifting) mem_Collect_eq old.prod.inject)
    then show ?thesis by (simp add: merges_image [of rows])
  qed
  ultimately have edges: "merges ?rows = insert (src, t) (merges rows)"
    by (simp add: merges_image [of ?rows] set_eq_iff)
  have "(t, src) \<notin> (merges rows)\<^sup>*"
    using target \<open>src \<noteq> t\<close> by (auto simp: is_root_def elim: converse_rtranclE)
  then have "acyclic (merges ?rows)" using ok by (simp add: edges acyclic_insert entities_ok_def)
  moreover have "Range (merges ?rows) \<subseteq> en_id ` set ?rows"
    using ok target by (metis (no_types, lifting) Range_insert edges entities_ok_def ids insert_subset is_root_def list.set_map)
  moreover have "distinct (map en_id ?rows)" using ok by (simp only: ids entities_ok_def)
  moreover have "\<forall>r \<in> set ?rows. en_merged r \<noteq> None \<longrightarrow> en_status r = E_merged"
    using ok by (auto simp: entities_ok_def update_where_def)
  ultimately show ?thesis unfolding entities_ok_def by blast
qed

section \<open>Histories of curation\<close>

text \<open>
  A curation transaction: the assignment of an observation, the transactions that read the assignments, and what is
  done by hand. Everything else in the program leaves the entities and their claims alone.
\<close>

inductive curation_step :: "catalog \<Rightarrow> catalog \<Rightarrow> bool" where
  assign: "assign_observation env te mint ru b r c = Inr (new, c') \<Longrightarrow> curation_step c c'"
| stale: "deactivate_stale_claims b c = Inr ((), c') \<Longrightarrow> curation_step c c'"
| tombstones: "copy_inactive_tombstones b c = Inr ((), c') \<Longrightarrow> curation_step c c'"
| merge: "merge_entities now fresh src target actor why c = Inr (i, c') \<Longrightarrow> curation_step c c'"
| override: "record_override now fresh rq c = Inr (i, c') \<Longrightarrow> curation_step c c'"
| other: "entities c' = entities c \<Longrightarrow> identity_claims c' = identity_claims c \<Longrightarrow> curation_step c c'"

inductive_cases curation_stepE: "curation_step c c'"

definition strong_kinds :: "string list" where "strong_kinds = [''profile_name_url'', ''external_identity'']"

lemma record_claim_entities: "record_claim e ob cl c = Inr c' \<Longrightarrow> entities c' = entities c"
  by (auto simp: record_claim_def Let_def res_bind_eq_Inr split: prod.splits if_splits list.splits)

lemma record_claims_entities: "res_fold (record_claim e ob) cls c = Inr c' \<Longrightarrow> entities c' = entities c"
  by (rule res_fold_inv [where I = "\<lambda>d. entities d = entities c"]) (auto dest: record_claim_entities)

lemma identity_finding_select [simp]:
  "entities (identity_finding env b ob f c) = entities c"
  "identity_claims (identity_finding env b ob f c) = identity_claims c"
  by (auto simp: identity_finding_def Let_def split: option.splits)

lemma revive_entities_ok: "entities_ok (entities c) \<Longrightarrow> entities_ok (entities (revive_entity e c))"
  unfolding revive_entity_def by simp (rule entities_ok_status; auto)

lemma match_entities_ok:
  assumes "entities_ok (entities c)" and "match_observation mint claims r c = Inr (m, c1)"
  shows "entities_ok (entities c1)" and "identity_claims c1 = identity_claims c"
  using assms entities_ok_add [OF assms(1)]
  by (auto simp: match_observation_def ensure_entity_def res_bind_eq_Inr split: option.splits)

lemma assign_entities_ok:
  assumes "entities_ok (entities c)" and "assign_observation env te mint ru b r c = Inr (new, c')"
  shows "entities_ok (entities c')"
proof (cases "\<exists>x \<in> set (entity_observations c). eo_build x = b \<and> eo_observation x = po_id r")
  case True
  then show ?thesis using assms by (simp add: assign_observation_def)
next
  case False
  let ?claims = "claims_for_observation te ru r"
  from assms(2) False obtain m c1 c3 where m: "match_observation mint ?claims r c = Inr (m, c1)"
    and rec: "res_fold (record_claim (mt_entity m) (po_id r)) ?claims
        (revive_entity (mt_entity m) (c1\<lparr>entity_observations := entity_observations c1 @
           [\<lparr>eo_entity = mt_entity m, eo_observation = po_id r, eo_build = b, eo_method = mt_method m,
             eo_score = match_score (mt_method m)\<rparr>]\<rparr>)) = Inr c3"
    and c': "c' = identity_finding env b (po_id r) (mt_finding m) c3"
    unfolding assign_observation_def if_not_P [OF False] Let_def by (auto elim!: res_bind_InrE)
  from match_entities_ok(1) [OF assms(1) m] revive_entities_ok [of "c1\<lparr>entity_observations := _\<rparr>"]
  show ?thesis by (simp add: c' record_claims_entities [OF rec])
qed

lemma tombstone_entities_ok: "entities_ok (entities c) \<Longrightarrow> entities_ok (entities (copy_tombstone b e c))"
  by (auto simp: copy_tombstone_def inactivate_entity_def intro!: entities_ok_status split: option.splits)

lemma tombstones_entities_ok:
  "entities_ok (entities c) \<Longrightarrow> entities_ok (entities (fold (copy_tombstone b) es c))"
  by (induction es arbitrary: c) (simp_all add: tombstone_entities_ok)

lemma tombstones_claims: "identity_claims (fold (copy_tombstone b) es c) = identity_claims c"
proof (induction es arbitrary: c)
  case (Cons e es)
  then show ?case by (simp add: copy_tombstone_def inactivate_entity_def split: option.split)
qed simp

lemma insert_override_select:
  "insert_override now fresh rq c = Inr c' \<Longrightarrow> entities c' = entities c \<and> identity_claims c' = identity_claims c"
  by (auto simp: insert_override_def split: if_splits)

lemma merge_entities_cases:
  assumes "merge_entities now fresh src0 target0 actor why c = Inr (i, c')"
  obtains target d where "resolve_entity src0 c = Inr src0" and "resolve_entity target0 c = Inr target"
    and "src0 \<noteq> target" and "entities d = entities c" and "identity_claims d = identity_claims c"
    and "c' = set_merged src0 target d"
  using assms unfolding merge_entities_def merge_target_def
  by (auto simp: res_bind_eq_Inr dest!: insert_override_select split: if_splits sum.splits)

lemma curation_step_entities:
  assumes "curation_step c c'" and ok: "entities_ok (entities c)"
  shows "entities_ok (entities c')"
  using assms(1)
proof cases
  case (merge now fresh src target actor why i)
  obtain t d where "resolve_entity src c = Inr src" "resolve_entity target c = Inr t" "src \<noteq> t"
    "entities d = entities c" "c' = set_merged src t d" by (rule merge_entities_cases [OF merge])
  with entities_ok_merge [OF ok resolve_root [OF ok] resolve_root [OF ok]] show ?thesis
    by (simp add: set_merged_def)
next
  case assign
  then show ?thesis using assign_entities_ok [OF ok] by blast
qed (use ok in \<open>auto simp: deactivate_stale_claims_def copy_inactive_tombstones_def record_override_def
        res_bind_eq_Inr Let_def intro: tombstones_entities_ok dest!: insert_override_select split: if_splits\<close>)

text \<open>
  C17: Whatever is curated, merged and overridden, the merges stay without cycles: every entity resolves to one that
  is not merged, and the walk that a further merge makes from a resolved target ends within the entities there are.
\<close>

theorem merged_entities_resolve:
  assumes "curation_step\<^sup>*\<^sup>* c c'" and "entities c = []"
  shows "acyclic (merges (entities c')) \<and>
         (\<forall>i \<in> en_id ` set (entities c'). \<exists>e. resolve_entity i c' = Inr e \<and>
            (i, e) \<in> (merges (entities c'))\<^sup>* \<and> is_root (entities c') e \<and>
            (\<forall>src. src \<noteq> e \<longrightarrow> walk_up (Suc (length (entities c'))) (entities c') src e = Some False))"
proof -
  have "entities_ok (entities c')"
    using assms
  proof (induction rule: rtranclp_induct)
    case base
    then show ?case by (simp add: entities_ok_def merges_def acyclic_def)
  next
    case (step y z)
    then show ?case using curation_step_entities by blast
  qed
  note ok = this
  have "walk_up (Suc n) (entities c') src e = Some False" if root: "is_root (entities c') e" and "src \<noteq> e" for n src e
  proof -
    have dist: "distinct (map en_id (entities c'))" using ok by (simp add: entities_ok_def)
    from root obtain r where r: "r \<in> set (entities c')" "find (\<lambda>x. en_id x = e) (entities c') = Some r" "en_id r = e"
      using find_entity_row [OF dist] by (auto simp: is_root_def)
    have "merged_into r = None" using root merges_iff [OF dist r(2)] by (cases "merged_into r") (auto simp: is_root_def)
    then have "en_merged r = None" using ok r(1) by (auto simp: entities_ok_def merged_into_def)
    then show ?thesis using r(2) \<open>src \<noteq> e\<close> by simp
  qed
  then show ?thesis
    using ok resolve_from_root [OF ok, of _ "[]"] by (force simp: entities_ok_def resolve_entity_def)
qed

section \<open>Strong claims identify\<close>

definition type_value :: "claim_row \<Rightarrow> string \<times> string" where
  "type_value r = (ic_type r, ic_value r)"

text \<open>
  The rows are written over their keys, so the two unique constraints are stated on sets: equal keys are equal
  rows, and two active strong claims with the same type and value are one row.
\<close>

definition claims_unique :: "claim_row list \<Rightarrow> bool" where
  "claims_unique rows =
     ((\<forall>r \<in> set rows. ic_strong r = (ic_type r \<in> set strong_kinds)) \<and>
      (\<forall>r \<in> set rows. \<forall>s \<in> set rows. claim_key r = claim_key s \<longrightarrow> r = s) \<and>
      (\<forall>r \<in> set rows. \<forall>s \<in> set rows. ic_active r \<longrightarrow> ic_active s \<longrightarrow> ic_strong r \<longrightarrow>
         type_value r = type_value s \<longrightarrow> r = s))"

lemma claims_uniqueD:
  assumes "claims_unique rows" and "r \<in> set rows"
  shows "ic_strong r = (ic_type r \<in> set strong_kinds)"
    and "s \<in> set rows \<Longrightarrow> claim_key r = claim_key s \<Longrightarrow> r = s"
    and "s \<in> set rows \<Longrightarrow> ic_active r \<Longrightarrow> ic_active s \<Longrightarrow> ic_strong r \<Longrightarrow> type_value r = type_value s \<Longrightarrow> r = s"
  using assms by (auto simp: claims_unique_def)

lemma key_type_value: "claim_key r = claim_key s \<Longrightarrow> type_value r = type_value s"
  by (simp add: claim_key_def type_value_def)

lemma claims_unique_insert:
  assumes "claims_unique rows" and "ic_strong r = (ic_type r \<in> set strong_kinds)"
  shows "claims_unique (insert_claim r rows)"
proof (cases "claim_key r \<in> claim_key ` set rows \<or> ic_strong r \<and> strong_taken (ic_type r) (ic_value r) rows")
  case False
  then have fresh: "\<forall>s \<in> set rows. claim_key s \<noteq> claim_key r"
    "s \<in> set rows \<Longrightarrow> claim_key r = claim_key s \<Longrightarrow> False"
    "\<forall>s \<in> set rows. ic_active s \<longrightarrow> ic_strong s \<longrightarrow> ic_strong r \<longrightarrow> type_value s \<noteq> type_value r" for s
    by (auto simp: strong_taken_def type_value_def image_iff)
  have strong: "ic_strong s = ic_strong r" if "s \<in> set rows" "type_value s = type_value r" for s
    using that claims_uniqueD(1) [OF assms(1)] assms(2) by (simp add: type_value_def)
  have rows': "insert_claim r rows = rows @ [r]" using False by (simp add: insert_claim_def)
  show ?thesis
    unfolding claims_unique_def rows'
  proof (intro conjI ballI impI)
    fix x assume x: "x \<in> set (rows @ [r])"
    then show "ic_strong x = (ic_type x \<in> set strong_kinds)"
      using claims_uniqueD(1) [OF assms(1)] assms(2) by (cases "x = r") simp_all
    fix y assume "y \<in> set (rows @ [r])"
    with x consider "x \<in> set rows" "y \<in> set rows" | "x = r" "y = r" | "x = r" "y \<in> set rows" | "y = r" "x \<in> set rows"
      by auto
    note both = this
    show "x = y" if "claim_key x = claim_key y"
      using both by cases (use that fresh(1) fresh(2) [of x] fresh(2) [of y] claims_uniqueD(2) [OF assms(1), of x y] in simp_all)
    show "x = y" if "ic_active x" "ic_active y" "ic_strong x" "type_value x = type_value y"
      using both
    proof cases
      case 1 then show ?thesis using claims_uniqueD(3) [OF assms(1)] that by blast
    next
      case 3 then show ?thesis using fresh(3) strong [of y] that by metis
    next
      case 4 then show ?thesis using fresh(3) strong [of x] that by metis
    qed simp
  qed
qed (use assms in \<open>auto simp: insert_claim_def\<close>)

lemma claims_unique_image:
  assumes unique: "claims_unique rows" and rows': "set rows' = f ` set rows"
    and same: "\<And>r. ic_strong (f r) = ic_strong r" "\<And>r. type_value (f r) = type_value r"
    and keys: "\<And>r s. r \<in> set rows \<Longrightarrow> s \<in> set rows \<Longrightarrow> claim_key (f r) = claim_key (f s) \<Longrightarrow> f r = f s"
    and strong: "\<And>r s. r \<in> set rows \<Longrightarrow> s \<in> set rows \<Longrightarrow> ic_active (f r) \<Longrightarrow> ic_active (f s) \<Longrightarrow> ic_strong r \<Longrightarrow>
      type_value r = type_value s \<Longrightarrow> f r = f s"
  shows "claims_unique rows'"
  unfolding claims_unique_def
proof (intro conjI ballI impI)
  fix r' assume "r' \<in> set rows'"
  then obtain r where r: "r \<in> set rows" "r' = f r" unfolding rows' by blast
  have "ic_type (f r) = ic_type r" using same(2) [of r] by (simp add: type_value_def)
  then show "ic_strong r' = (ic_type r' \<in> set strong_kinds)"
    using claims_uniqueD(1) [OF unique r(1)] same(1) r(2) by simp
  fix s' assume "s' \<in> set rows'"
  then obtain s where s: "s \<in> set rows" "s' = f s" unfolding rows' by blast
  show "claim_key r' = claim_key s' \<Longrightarrow> r' = s'" using keys r s by blast
  show "ic_active r' \<Longrightarrow> ic_active s' \<Longrightarrow> ic_strong r' \<Longrightarrow> type_value r' = type_value s' \<Longrightarrow> r' = s'"
    using strong [OF r(1) s(1)] r(2) s(2) same by simp
qed

lemma claims_unique_activate:
  assumes unique: "claims_unique rows" and run: "activate_claim k rows = Inr rows'"
  shows "claims_unique rows'"
proof -
  let ?f = "\<lambda>r. if claim_key r = k then r\<lparr>ic_active := True\<rparr> else r"
  have rows': "set rows' = ?f ` set rows"
    using run by (auto simp: activate_claim_def Let_def set_update_where split: if_splits)
  have key: "claim_key (?f r) = claim_key r" "type_value (?f r) = type_value r" "ic_strong (?f r) = ic_strong r"
    "ic_type (?f r) = ic_type r" for r
    by (simp_all add: claim_key_def type_value_def)
  have alone: "s \<notin> set rows \<or> claim_key s = k \<or> \<not> ic_active s \<or> type_value s \<noteq> type_value r"
    if "r \<in> set rows" "claim_key r = k" "ic_strong r" for r s
  proof (rule ccontr)
    assume "\<not> ?thesis"
    moreover from this have "ic_strong s" using claims_uniqueD(1) [OF unique] that by (auto simp: type_value_def)
    ultimately have "strong_taken (ic_type r) (ic_value r) (filter (\<lambda>r. claim_key r \<noteq> k) rows)"
      by (auto simp: strong_taken_def type_value_def)
    then show False using run that by (auto simp: activate_claim_def Let_def split: if_splits)
  qed
  have "?f r = ?f s" if r: "r \<in> set rows" and s: "s \<in> set rows" and "ic_active (?f r)" "ic_active (?f s)" "ic_strong r"
    "type_value r = type_value s" for r s
  proof -
    have strong: "ic_strong s" using that claims_uniqueD(1) [OF unique] by (auto simp: type_value_def)
    consider "claim_key r = k" "claim_key s = k" | "claim_key r = k" "claim_key s \<noteq> k" | "claim_key r \<noteq> k" "claim_key s = k"
      | "claim_key r \<noteq> k" "claim_key s \<noteq> k" by blast
    then show ?thesis
    proof cases
      case 1 then show ?thesis using claims_uniqueD(2) [OF unique r s] by simp
    next
      case 2 then show ?thesis using alone [OF r 2(1) \<open>ic_strong r\<close>, of s] that by auto
    next
      case 3 then show ?thesis using alone [OF s 3(2) strong, of r] that by auto
    next
      case 4 then show ?thesis using claims_uniqueD(3) [OF unique r s] that by auto
    qed
  qed
  moreover have "?f r = ?f s" if "r \<in> set rows" "s \<in> set rows" "claim_key (?f r) = claim_key (?f s)" for r s
    using claims_uniqueD(2) [OF unique that(1,2)] that(3) unfolding key by simp
  ultimately show ?thesis by (intro claims_unique_image [OF unique rows' key(3) key(2)])
qed

lemma claims_unique_swap:
  assumes unique: "claims_unique rows" and current: "current \<in> set rows" "ic_active current" "type_value current = (kind, value)"
    and k: "k = (e, kind, value, ob)" "k \<noteq> claim_key current"
  shows "claims_unique (swap_claim (claim_key current) k rows)"
proof -
  let ?f = "\<lambda>r. if claim_key r = k then r\<lparr>ic_active := True\<rparr>
                else if claim_key r = claim_key current then r\<lparr>ic_active := False\<rparr> else r"
  have "(\<lambda>r. if claim_key (if claim_key r = claim_key current then r\<lparr>ic_active := False\<rparr> else r) = k
             then (if claim_key r = claim_key current then r\<lparr>ic_active := False\<rparr> else r)\<lparr>ic_active := True\<rparr>
             else (if claim_key r = claim_key current then r\<lparr>ic_active := False\<rparr> else r)) = ?f"
    using k(2) by (auto simp: fun_eq_iff claim_key_def)
  then have rows': "set (swap_claim (claim_key current) k rows) = ?f ` set rows"
    unfolding swap_claim_def set_update_where image_image by (simp only:)
  have key: "claim_key (?f r) = claim_key r" "type_value (?f r) = type_value r" "ic_strong (?f r) = ic_strong r" for r
    by (simp_all add: claim_key_def type_value_def)
  have kind: "type_value r = type_value current" if "claim_key r = k" for r
    using that k current(3) by (simp add: claim_key_def type_value_def)
  have off: "claim_key s = k \<or> \<not> ic_active (?f s)" if "s \<in> set rows" "type_value s = type_value current" "ic_strong s" for s
    using claims_uniqueD(3) [OF unique that(1) current(1) _ current(2) that(3,2)] by auto
  have "?f r = ?f s" if r: "r \<in> set rows" and s: "s \<in> set rows" and "ic_active (?f r)" "ic_active (?f s)" "ic_strong r"
    "type_value r = type_value s" for r s
  proof -
    have strong: "ic_strong s" using that claims_uniqueD(1) [OF unique] by (auto simp: type_value_def)
    show ?thesis
    proof (cases "type_value r = type_value current")
      case True
      then have "claim_key r = k" "claim_key s = k" using off [OF r] off [OF s] that strong by auto
      then show ?thesis using claims_uniqueD(2) [OF unique r s] by simp
    next
      case False
      then have "claim_key r \<noteq> k" "claim_key s \<noteq> k" "claim_key r \<noteq> claim_key current" "claim_key s \<noteq> claim_key current"
        using kind that(6) key_type_value by metis+
      then show ?thesis using claims_uniqueD(3) [OF unique r s] that by simp
    qed
  qed
  moreover have "?f r = ?f s" if "r \<in> set rows" "s \<in> set rows" "claim_key (?f r) = claim_key (?f s)" for r s
    using claims_uniqueD(2) [OF unique that(1,2)] that(3) unfolding key by simp
  ultimately show ?thesis by (intro claims_unique_image [OF unique rows' key(3) key(2)])
qed

lemma claims_unique_move:
  assumes unique: "claims_unique rows" and current: "current \<in> set rows" "ic_active current" "type_value current = (kind, value)"
    and k: "(e, kind, value, ob) \<notin> claim_key ` set rows \<or> (e, kind, value, ob) = claim_key current"
  shows "claims_unique (move_claim (claim_key current) e ob rows)"
proof -
  let ?f = "\<lambda>r. if claim_key r = claim_key current then r\<lparr>ic_entity := e, ic_observation := ob, ic_active := True\<rparr> else r"
  have rows': "set (move_claim (claim_key current) e ob rows) = ?f ` set rows"
    by (simp add: move_claim_def set_update_where)
  have same: "r = current" if "r \<in> set rows" "claim_key r = claim_key current" for r
    using claims_uniqueD(2) [OF unique that(1) current(1) that(2)] .
  have key: "type_value (?f r) = type_value r" "ic_strong (?f r) = ic_strong r" for r
    by (simp_all add: type_value_def)
  have new: "claim_key (?f current) = (e, kind, value, ob)"
    using current(3) by (simp add: claim_key_def type_value_def)
  have fresh: "s = current" if "s \<in> set rows" "claim_key s = (e, kind, value, ob)" for s
    using k that same by (metis image_eqI)
  have "?f r = ?f s" if "r \<in> set rows" "s \<in> set rows" "claim_key (?f r) = claim_key (?f s)" for r s
  proof (cases "r = current \<or> s = current")
    case True
    show ?thesis
    proof (cases "r = current")
      case True
      then have "claim_key (?f s) = (e, kind, value, ob)" using that(3) new by simp
      then show ?thesis using fresh [OF that(2)] same [OF that(2)] True by (auto split: if_splits)
    next
      case False
      then have "s = current" using True by simp
      then have "claim_key (?f r) = (e, kind, value, ob)" using that(3) new by simp
      then show ?thesis using fresh [OF that(1)] same [OF that(1)] \<open>s = current\<close> by (auto split: if_splits)
    qed
  next
    case False
    then have "claim_key r \<noteq> claim_key current" "claim_key s \<noteq> claim_key current" using same that by blast+
    then show ?thesis using claims_uniqueD(2) [OF unique that(1,2)] that(3) by simp
  qed
  moreover have "?f r = ?f s" if "r \<in> set rows" "s \<in> set rows" "ic_active (?f r)" "ic_active (?f s)" "ic_strong r"
    "type_value r = type_value s" for r s
  proof -
    have "ic_active r" "ic_active s"
      using that(3,4) same [OF that(1)] same [OF that(2)] current(2) by (auto split: if_splits)
    then show ?thesis using claims_uniqueD(3) [OF unique that(1,2)] that by simp
  qed
  ultimately show ?thesis by (intro claims_unique_image [OF unique rows']) (simp_all add: key)
qed

lemma claims_unique_stale:
  fixes rows :: "claim_row list"
  assumes "claims_unique rows"
  shows "claims_unique (update_where P (\<lambda>r. r\<lparr>ic_active := False\<rparr>) rows)"
proof (rule claims_unique_image [OF assms set_update_where])
  fix r s :: claim_row assume "r \<in> set rows" "s \<in> set rows"
  note rule = claims_uniqueD(2,3) [OF assms this]
  show "claim_key (if P r then r\<lparr>ic_active := False\<rparr> else r) = claim_key (if P s then s\<lparr>ic_active := False\<rparr> else s) \<Longrightarrow>
      (if P r then r\<lparr>ic_active := False\<rparr> else r) = (if P s then s\<lparr>ic_active := False\<rparr> else s)"
    using rule(1) by (auto simp: claim_key_def split: if_splits)
  show "ic_active (if P r then r\<lparr>ic_active := False\<rparr> else r) \<Longrightarrow> ic_active (if P s then s\<lparr>ic_active := False\<rparr> else s) \<Longrightarrow>
      ic_strong r \<Longrightarrow> type_value r = type_value s \<Longrightarrow>
      (if P r then r\<lparr>ic_active := False\<rparr> else r) = (if P s then s\<lparr>ic_active := False\<rparr> else s)"
    using rule(2) by (auto split: if_splits)
qed (simp_all add: type_value_def)

lemma claims_unique_record:
  assumes unique: "claims_unique (identity_claims c)" and kind: "strong = (kind \<in> set strong_kinds)"
    and run: "record_claim e ob (kind, value, strong) c = Inr c'"
  shows "claims_unique (identity_claims c')"
proof -
  let ?new = "\<lparr>ic_entity = e, ic_type = kind, ic_value = value, ic_strong = strong, ic_observation = ob, ic_active = True\<rparr>"
  let ?key = "(e, kind, value, ob)" and ?rows = "identity_claims c"
  have plain: "claims_unique (identity_claims c')"
    if "res_bind (activate_claim ?key (insert_claim ?new ?rows)) (\<lambda>rows'. Inr (c\<lparr>identity_claims := rows'\<rparr>)) = Inr c'"
    using that claims_unique_activate [OF claims_unique_insert [OF unique, of ?new]] kind by (auto simp: res_bind_eq_Inr)
  show ?thesis
  proof (cases "strong \<and> active_claims kind value c \<noteq> []")
    case False
    then show ?thesis using run plain
      by (cases strong; cases "active_claims kind value c") (auto simp: record_claim_def Let_def)
  next
    case True
    then obtain current rest where act: "active_claims kind value c = current # rest" and strong by (cases "active_claims kind value c") auto
    then have "current \<in> set (active_claims kind value c)" by simp
    then have current: "current \<in> set ?rows" "ic_active current" "type_value current = (kind, value)"
      by (auto simp: active_claims_def type_value_def)
    from run act \<open>strong\<close> obtain owner where "resolve_entity (ic_entity current) c = Inr owner"
      by (auto simp: record_claim_def Let_def res_bind_eq_Inr)
    with run act \<open>strong\<close> plain show ?thesis
      using claims_unique_swap [OF unique current refl, of e ob] claims_unique_move [OF unique current, of e ob]
      by (auto simp: record_claim_def Let_def split: if_splits)
  qed
qed

lemma observation_claims_kinds:
  "(kind, value, strong) \<in> set (claims_for_observation te ru r) \<Longrightarrow> strong = (kind \<in> set strong_kinds)"
  by (auto simp: claims_for_observation_def Let_def strong_kinds_def split: if_splits option.splits)

lemma assign_claims_unique:
  assumes unique: "claims_unique (identity_claims c)" and "entities_ok (entities c)"
    and run: "assign_observation env te mint ru b r c = Inr (new, c')"
  shows "claims_unique (identity_claims c')"
proof (cases "\<exists>x \<in> set (entity_observations c). eo_build x = b \<and> eo_observation x = po_id r")
  case True
  then show ?thesis using unique run by (simp add: assign_observation_def)
next
  case False
  let ?claims = "claims_for_observation te ru r"
  from run False obtain m c1 c2 c3 where m: "match_observation mint ?claims r c = Inr (m, c1)"
    and c2: "c2 = revive_entity (mt_entity m) (c1\<lparr>entity_observations := entity_observations c1 @
           [\<lparr>eo_entity = mt_entity m, eo_observation = po_id r, eo_build = b, eo_method = mt_method m,
             eo_score = match_score (mt_method m)\<rparr>]\<rparr>)"
    and rec: "res_fold (record_claim (mt_entity m) (po_id r)) ?claims c2 = Inr c3"
    and c': "c' = identity_finding env b (po_id r) (mt_finding m) c3"
    unfolding assign_observation_def if_not_P [OF False] Let_def by (auto elim!: res_bind_InrE)
  have c2: "identity_claims c2 = identity_claims c1" by (simp add: c2 revive_entity_def)
  have "claims_unique (identity_claims c3)"
  proof (rule res_fold_inv [where I = "\<lambda>d. claims_unique (identity_claims d)", OF _ _ rec])
    show "claims_unique (identity_claims c2)" using unique c2 match_entities_ok(2) [OF assms(2) m] by simp
  next
    fix cl d d' assume "cl \<in> set ?claims" "claims_unique (identity_claims d)" "record_claim (mt_entity m) (po_id r) cl d = Inr d'"
    then show "claims_unique (identity_claims d')"
      using claims_unique_record [OF _ observation_claims_kinds] by (metis prod_cases3)
  qed
  then show ?thesis by (simp add: c')
qed

lemma curation_step_claims:
  assumes "curation_step c c'" and "entities_ok (entities c)" and unique: "claims_unique (identity_claims c)"
  shows "claims_unique (identity_claims c')"
  using assms(1)
proof cases
  case assign
  then show ?thesis using assign_claims_unique [OF unique assms(2)] by blast
next
  case stale
  then show ?thesis using claims_unique_stale [OF unique] by (auto simp: deactivate_stale_claims_def Let_def)
next
  case (merge now fresh src target actor why i)
  then show ?thesis using unique by (elim merge_entities_cases) (simp add: set_merged_def)
qed (use unique in \<open>auto simp: copy_inactive_tombstones_def record_override_def res_bind_eq_Inr
        tombstones_claims dest!: insert_override_select split: if_splits\<close>)

lemma shared_claims_nil:
  assumes "claims_unique (identity_claims c)"
  shows "shared_claims c = []"
proof -
  have "length (remdups (map ic_entity (filter (\<lambda>r. (ic_type r, ic_value r) = k) (strong_claims c)))) \<le> 1" for k
  proof -
    define S :: "claim_row list" where "S = filter (\<lambda>r. (ic_type r, ic_value r) = k) (strong_claims c)"
    have same: "r = s" if "r \<in> set S" "s \<in> set S" for r s :: claim_row
      by (rule claims_uniqueD(3) [OF assms]) (use that in \<open>simp_all add: S_def strong_claims_def type_value_def\<close>)
    then have "ic_entity r = ic_entity (hd S)" if "r \<in> set S" for r
    proof -
      have "hd S \<in> set S" using that by (cases S) simp_all
      then have "r = hd S" by (rule same [OF that])
      then show ?thesis by (rule arg_cong)
    qed
    then have sub: "set (map ic_entity S) \<subseteq> {ic_entity (hd S)}" unfolding set_map by blast
    have "card (set (map ic_entity S)) \<le> card {ic_entity (hd S)}" by (rule card_mono [OF _ sub]) simp
    then show ?thesis unfolding S_def [symmetric] by (simp add: length_remdups_card_conv)
  qed
  then show ?thesis by (simp add: shared_claims_def filter_empty_conv not_less)
qed

text \<open>
  C16: However observations are assigned, claims deactivated, entities merged, overridden and buried, no identity that a
  strong claim stands for belongs to two entities: the check of the release validation finds none.
\<close>

theorem strong_claims_identify:
  assumes "curation_step\<^sup>*\<^sup>* c c'" and "entities c = []" and "identity_claims c = []"
  shows "claims_unique (identity_claims c') \<and> shared_claims c' = []"
proof -
  have "entities_ok (entities c') \<and> claims_unique (identity_claims c')"
    using assms
  proof (induction rule: rtranclp_induct)
    case base
    then show ?case by (simp add: entities_ok_def merges_def acyclic_def claims_unique_def)
  next
    case (step y z)
    then show ?case using curation_step_entities curation_step_claims by blast
  qed
  then show ?thesis using shared_claims_nil by blast
qed

section \<open>A small history\<close>

definition demo_profile :: "string \<Rightarrow> string \<Rightarrow> observation_row" where
  "demo_profile i name =
     (demo_observation i name)\<lparr>po_org_unit := None,
       po_payload := [(''external_link'', JStr ''https://orcid.org/0000-0001-2345-6789'')]\<rparr>"

definition demo_person :: "string \<Rightarrow> string \<Rightarrow> observation_row" where
  "demo_person i name = (demo_observation i name)\<lparr>po_org_unit := None\<rparr>"

definition demo_rules :: curation_rules where
  "demo_rules =
     \<lparr>ru_version = ''1'', ru_normalization = ''1'', ru_empty = [''-''], ru_families = [], ru_excluded = [],
      ru_master_positive = [], ru_master_negative = [], ru_phd_positive = [], ru_phd_negative = [], ru_hash = ''h''\<rparr>"

definition demo_assign :: "string \<Rightarrow> observation_row \<Rightarrow> bool handler" where
  "demo_assign = assign_observation (iv_cat demo_ingest_env) (iv_topic demo_ingest_env) (\<lambda>i. ''e'' @ i) demo_rules"

text \<open>The catalogs after the first profile, after another person, and after the two are merged.\<close>

definition demo_first :: catalog where
  "demo_first = new_catalog\<lparr>
     entities := [\<lparr>en_id = ''e1'', en_status = E_active, en_merged = None\<rparr>],
     entity_observations := [\<lparr>eo_entity = ''e1'', eo_observation = ''1'', eo_build = ''b'', eo_method = ''new'', eo_score = None\<rparr>],
     identity_claims := [\<lparr>ic_entity = ''e1'', ic_type = ''external_identity'', ic_value = ''orcid:0000-0001-2345-6789'',
                          ic_strong = True, ic_observation = ''1'', ic_active = True\<rparr>]\<rparr>"

definition demo_second :: catalog where
  "demo_second = demo_first\<lparr>
     entities := [\<lparr>en_id = ''e1'', en_status = E_active, en_merged = None\<rparr>,
                  \<lparr>en_id = ''e2'', en_status = E_active, en_merged = None\<rparr>],
     entity_observations := entity_observations demo_first @
       [\<lparr>eo_entity = ''e2'', eo_observation = ''2'', eo_build = ''b'', eo_method = ''new'', eo_score = None\<rparr>]\<rparr>"

definition demo_merged :: catalog where
  "demo_merged = demo_second\<lparr>
     entities := [\<lparr>en_id = ''e1'', en_status = E_active, en_merged = None\<rparr>,
                  \<lparr>en_id = ''e2'', en_status = E_merged, en_merged = Some ''e1''\<rparr>],
     overrides := [\<lparr>ov_id = ''m'', ov_entity = ''e2'', ov_kind = ''merge'', ov_field = None,
       ov_value = JDict [(''target_entity_id'', JStr ''e1'')], ov_version = 1, ov_actor = ''a'', ov_why = ''w'',
       ov_supersedes = None, ov_active = True, ov_created = ''t''\<rparr>]\<rparr>"

lemma demo_assigned:
  "demo_assign ''b'' (demo_profile ''1'' ''a'') new_catalog = Inr (True, demo_first)"
  "demo_assign ''b'' (demo_person ''2'' ''b'') demo_first = Inr (True, demo_second)"
  "merge_entities ''t'' ''m'' ''e2'' ''e1'' ''a'' ''w'' demo_second = Inr (''m'', demo_merged)"
  by code_simp+

lemma demo_history: "curation_step\<^sup>*\<^sup>* new_catalog demo_merged"
proof -
  have "curation_step new_catalog demo_first"
    by (rule curation_step.assign [OF demo_assigned(1) [unfolded demo_assign_def]])
  moreover have "curation_step demo_first demo_second"
    by (rule curation_step.assign [OF demo_assigned(2) [unfolded demo_assign_def]])
  moreover have "curation_step demo_second demo_merged" by (rule curation_step.merge [OF demo_assigned(3)])
  ultimately show ?thesis by (metis rtranclp.rtrancl_refl rtranclp.rtrancl_into_rtrancl)
qed

lemma demo_starts_empty: "entities new_catalog = []" "identity_claims new_catalog = []"
  by (simp_all add: new_catalog_def)

theorem merged_entities_resolve_witness:
  "\<exists>e. resolve_entity ''e2'' demo_merged = Inr e \<and> (''e2'', e) \<in> (merges (entities demo_merged))\<^sup>* \<and>
       is_root (entities demo_merged) e"
proof -
  have "''e2'' \<in> en_id ` set (entities demo_merged)" by code_simp
  then show ?thesis using merged_entities_resolve [OF demo_history demo_starts_empty(1)] by blast
qed

theorem strong_claims_identify_witness:
  "map ic_entity (strong_claims demo_merged) = [''e1''] \<and> shared_claims demo_merged = []"
proof
  show "map ic_entity (strong_claims demo_merged) = [''e1'']" by code_simp
  show "shared_claims demo_merged = []"
    using strong_claims_identify [OF demo_history demo_starts_empty] by simp
qed

text \<open>
  An observation that comes back after its strong claim was deactivated, and after another entity has taken the
  claim, cannot be assigned: its own claim is activated again and the unique index refuses the second active one.
\<close>

definition demo_returned :: "(catalog_error, bool \<times> catalog) result" where
  "demo_returned =
     (let absent = demo_first\<lparr>observations := [(demo_profile ''1'' ''a'')\<lparr>po_active := False\<rparr>],
            tasks := [demo_ingest_task]\<rparr>;
          stale = snd (projr (deactivate_stale_claims ''b'' absent));
          other = snd (projr (demo_assign ''b'' (demo_profile ''2'' ''b'') stale))
      in demo_assign ''c'' (demo_profile ''1'' ''a'') other)"

lemma returning_observation_fails: "demo_returned = Inl Integrity_error"
  by code_simp

text \<open>A page with one observation is stored as \<open>unknown\<close>, so the strong claim on a profile page is never made.\<close>

lemma profile_claim_needs_single_profile:
  "po_page_kind r \<noteq> ''single_profile'' \<Longrightarrow>
   (''profile_name_url'', v, s) \<notin> set (claims_for_observation te ru r)"
  by (auto simp: claims_for_observation_def Let_def split: option.splits)

end
