(* ===== verification/Dext_Rank.thy ===== *)
theory Dext_Rank
  imports Dext_Grounded "HOL-Library.Multiset"
begin

text \<open>
  The pure part of the recommendation core, \<open>src/src/dext_recommend\<close>: requests and facts (\<open>models.py\<close>,
  \<open>ports/professor_facts.py\<close>), cities (\<open>core/location.py\<close>), the two filters (\<open>core/filters.py\<close>), the route of
  a conversation (\<open>core/intent.py\<close>), the ranking profile (\<open>core/ranking_profile.py\<close>), the steps of the recall
  (\<open>core/recall.py\<close>) and the ranking (\<open>core/rerank.py\<close>).

  Floats are rationals. \<open>str.lower\<close>, \<open>repr\<close> and \<open>str\<close> of a value that is no string are arguments.
\<close>

section \<open>Requests and facts (models.py, ports)\<close>

record rec_warning =
  rw_code :: string
  rw_message :: string
  rw_severity :: string

record rec_filters =
  fl_universities :: "string list"
  fl_cities :: "string list"
  fl_units :: "string list"
  fl_titles :: "string list"
  fl_master :: string
  fl_phd :: string
  fl_topics :: "string list"
  fl_topic_mode :: string

record conversation =
  cx_session :: "string option"
  cx_turn :: "string option"
  cx_main :: "string option"
  cx_source_turn :: "string option"
  cx_anchor :: "string option"
  cx_intent :: "string option"
  cx_source :: "string option"
  cx_confidence :: "rat option"
  cx_prior :: "string list"

record rec_request =
  rr_query :: string
  rr_student :: "student_context option"
  rr_filters :: rec_filters
  rr_context :: "conversation option"
  rr_limit :: int
  rr_oversample :: int
  rr_mode :: string
  rr_review :: string
  rr_contacts :: bool
  rr_diagnostics :: string

record viewer =
  vw_contacts :: bool
  vw_review :: bool
  vw_diagnostics :: bool

record prof_fact =
  pf_entity :: string
  pf_name :: string
  pf_university :: string
  pf_units :: "string list"
  pf_title :: string
  pf_family :: string
  pf_master :: string
  pf_phd :: string
  pf_role :: string
  pf_url :: "string option"
  pf_hash :: "string option"
  pf_summary :: "string option"
  pf_university_id :: "string option"
  pf_city :: "string option"
  pf_unit_ids :: "string list"
  pf_topic_ids :: "string list"

record prof_detail =
  pd_build :: string
  pd_entity :: string
  pd_name :: string
  pd_university :: string
  pd_units :: "string list"
  pd_title :: string
  pd_family :: string
  pd_master :: string
  pd_phd :: string
  pd_role :: string
  pd_url :: "string option"
  pd_statements :: "string list"
  pd_topics :: "string list"
  pd_publications :: "string list"
  pd_sources :: "string list"
  pd_refs :: "source_ref list"
  pd_bundle :: fact_bundle

record vector_hit =
  vh_entity :: string
  vh_score :: rat
  vh_payload :: metadata

record rank_env =
  rk_text :: text_env
  rk_str :: "json \<Rightarrow> string"

definition rank_lower :: "rank_env \<Rightarrow> string \<Rightarrow> string" where
  "rank_lower env s = te_lower (rk_text env) s"

section \<open>Cities (core/location.py)\<close>

definition beijing :: string where "beijing = [CHR 0xE5, CHR 0x8C, CHR 0x97, CHR 0xE4, CHR 0xBA, CHR 0xAC]"
definition shanghai :: string where "shanghai = [CHR 0xE4, CHR 0xB8, CHR 0x8A, CHR 0xE6, CHR 0xB5, CHR 0xB7]"
definition tianjin :: string where "tianjin = [CHR 0xE5, CHR 0xA4, CHR 0xA9, CHR 0xE6, CHR 0xB4, CHR 0xA5]"
definition chongqing :: string where "chongqing = [CHR 0xE9, CHR 0x87, CHR 0x8D, CHR 0xE5, CHR 0xBA, CHR 0x86]"
definition city_suffix :: string where "city_suffix = [CHR 0xE5, CHR 0xB8, CHR 0x82]"

definition municipalities :: "string list" where
  "municipalities = [beijing, shanghai, tianjin, chongqing]"

definition city_aliases :: "(string, string) dict" where
  "city_aliases = map (\<lambda>c. (c @ city_suffix, c)) municipalities"

definition normalize_city_name :: "string \<Rightarrow> string option" where
  "normalize_city_name value =
     (let text = py_strip value; stem = take (length text - length city_suffix) text
      in if text = [] then None
         else case dict_get city_aliases text of
                Some a \<Rightarrow> Some a
              | None \<Rightarrow> if endswith text city_suffix \<and> stem \<in> set municipalities then Some stem else Some text)"

definition normalize_city_names :: "string list \<Rightarrow> string list" where
  "normalize_city_names values =
     fold (\<lambda>v out. case normalize_city_name v of
             None \<Rightarrow> out | Some c \<Rightarrow> if c = [] \<or> c \<in> set out then out else out @ [c]) values []"

definition city_name_matches :: "string option \<Rightarrow> string list \<Rightarrow> bool option" where
  "city_name_matches candidate requested =
     (if requested = [] then Some True
      else case normalize_city_name (str_or candidate []) of
             None \<Rightarrow> None | Some c \<Rightarrow> Some (c \<in> set (normalize_city_names requested)))"

section \<open>Filters (core/filters.py)\<close>

record filter_diagnostics =
  fd_excluded :: nat
  fd_review :: nat
  fd_hard :: nat
  fd_degraded :: bool

definition json_in :: "json \<Rightarrow> string list \<Rightarrow> bool" where
  "json_in v requested = (\<exists>s \<in> set requested. v = JStr s)"

definition payload_match :: "metadata \<Rightarrow> string \<Rightarrow> string list \<Rightarrow> bool option" where
  "payload_match payload key requested =
     (if requested = [] then Some True
      else case dict_get payload key of
             None \<Rightarrow> None | Some JNull \<Rightarrow> None
           | Some (JList vs) \<Rightarrow> Some (\<exists>v \<in> set vs. json_in v requested)
           | Some v \<Rightarrow> Some (json_in v requested))"

text \<open>\<open>str(value or "")\<close>.\<close>

definition payload_text :: "rank_env \<Rightarrow> json \<Rightarrow> string option" where
  "payload_text env v =
     (if truthy v then Some (case v of JStr s \<Rightarrow> s | _ \<Rightarrow> rk_str env v) else None)"

definition payload_city_match :: "rank_env \<Rightarrow> metadata \<Rightarrow> string list \<Rightarrow> bool option" where
  "payload_city_match env payload requested =
     (let city = (case dict_get payload ''city'' of None \<Rightarrow> JNull | Some v \<Rightarrow> v);
          value = (if city = JNull then (case dict_get payload ''city_name'' of None \<Rightarrow> JNull | Some v \<Rightarrow> v) else city)
      in if requested = [] then Some True else city_name_matches (payload_text env value) requested)"

definition payload_keeps :: "rank_env \<Rightarrow> rec_filters \<Rightarrow> bool \<Rightarrow> vector_hit \<Rightarrow> bool" where
  "payload_keeps env fl degraded h =
     (payload_match (vh_payload h) ''university_id'' (fl_universities fl) \<noteq> Some False \<and>
      payload_match (vh_payload h) ''title_family'' (fl_titles fl) \<noteq> Some False \<and>
      payload_city_match env (vh_payload h) (fl_cities fl) \<noteq> Some False \<and>
      (degraded \<or> payload_match (vh_payload h) ''org_unit_ids'' (fl_units fl) \<noteq> Some False) \<and>
      (fl_master fl = ''confirmed'' \<longrightarrow>
         payload_match (vh_payload h) ''master_eligibility'' [''confirmed''] \<noteq> Some False) \<and>
      (fl_phd fl = ''confirmed'' \<longrightarrow>
         payload_match (vh_payload h) ''phd_eligibility'' [''confirmed''] \<noteq> Some False))"

definition payload_prefilter :: "rank_env \<Rightarrow> rec_filters \<Rightarrow> bool \<Rightarrow> vector_hit list \<Rightarrow> vector_hit list" where
  "payload_prefilter env fl degraded hs = filter (payload_keeps env fl degraded) hs"

text \<open>A missing authority field fails; a field with several values matches when one of them does.\<close>

definition authority_one :: "string option \<Rightarrow> string list \<Rightarrow> bool" where
  "authority_one v requested = (requested = [] \<or> (case v of None \<Rightarrow> False | Some s \<Rightarrow> s \<in> set requested))"

definition authority_any :: "string list \<Rightarrow> string list \<Rightarrow> bool" where
  "authority_any vs requested = (requested = [] \<or> (\<exists>v \<in> set vs. v \<in> set requested))"

definition fact_city_match :: "prof_fact \<Rightarrow> string list \<Rightarrow> bool" where
  "fact_city_match f requested = (requested = [] \<or> city_name_matches (pf_city f) requested = Some True)"

definition fact_passes :: "rec_filters \<Rightarrow> bool \<Rightarrow> string list \<Rightarrow> string \<Rightarrow> prof_fact \<Rightarrow> bool" where
  "fact_passes fl degraded excluded e f =
     (e \<notin> set excluded \<and>
      authority_one (pf_university_id f) (fl_universities fl) \<and>
      fact_city_match f (fl_cities fl) \<and>
      (degraded \<or> authority_any (pf_unit_ids f) (fl_units fl)) \<and>
      authority_one (Some (pf_family f)) (fl_titles fl) \<and>
      (fl_master fl = ''confirmed'' \<longrightarrow> pf_master f = ''confirmed'') \<and>
      (fl_phd fl = ''confirmed'' \<longrightarrow> pf_phd f = ''confirmed'') \<and>
      (fl_topic_mode fl = ''hard'' \<longrightarrow> authority_any (pf_topic_ids f) (fl_topics fl)))"

datatype verdict = Keep | Role_excluded | Role_review | Hard_filtered

definition judge_fact :: "rec_filters \<Rightarrow> bool \<Rightarrow> string list \<Rightarrow> string \<Rightarrow> string \<Rightarrow> prof_fact option \<Rightarrow> verdict" where
  "judge_fact fl degraded excluded review e fo =
     (case fo of
        None \<Rightarrow> Hard_filtered
      | Some f \<Rightarrow>
          if pf_role f = ''excluded'' then Role_excluded
          else if pf_role f = ''review'' \<and> review \<noteq> ''include_downranked'' then Role_review
          else if fact_passes fl degraded excluded e f then Keep
          else Hard_filtered)"

definition final_filter ::
    "rec_filters \<Rightarrow> bool \<Rightarrow> string list \<Rightarrow> string \<Rightarrow> (string, prof_fact) dict \<Rightarrow> vector_hit list \<Rightarrow>
     vector_hit list \<times> filter_diagnostics" where
  "final_filter fl degraded excluded review facts hs =
     (let judge = (\<lambda>h. judge_fact fl degraded excluded review (vh_entity h) (dict_get facts (vh_entity h)));
          count = (\<lambda>v. length (filter (\<lambda>h. judge h = v) hs))
      in (filter (\<lambda>h. judge h = Keep) hs,
          \<lparr>fd_excluded = count Role_excluded, fd_review = count Role_review, fd_hard = count Hard_filtered,
           fd_degraded = degraded\<rparr>))"

section \<open>Routes (core/intent.py)\<close>

record route =
  ro_intent :: string
  ro_exclude :: "string list"
  ro_anchor :: "string option"
  ro_refine :: bool
  ro_detail :: bool
  ro_terminal :: "rec_warning list"
  ro_warnings :: "rec_warning list"

definition all_intents :: "string list" where
  "all_intents = [''new_search'', ''more_mentors'', ''same_field'', ''refine_direction'', ''detail_followup'']"

definition terminal_issue :: "string \<Rightarrow> string \<Rightarrow> rec_warning" where
  "terminal_issue code message = \<lparr>rw_code = code, rw_message = message, rw_severity = ''error''\<rparr>"

definition plain_route :: "string \<Rightarrow> route" where
  "plain_route intent =
     \<lparr>ro_intent = intent, ro_exclude = [], ro_anchor = None, ro_refine = False, ro_detail = False,
      ro_terminal = [], ro_warnings = []\<rparr>"

definition resolve_recommend_route :: "rank_env \<Rightarrow> rec_request \<Rightarrow> route" where
  "resolve_recommend_route env rq =
     (let intent = str_or (Option.bind (rr_context rq) cx_intent) ''new_search'';
          anchor = Option.bind (rr_context rq) cx_anchor;
          prior = (case rr_context rq of None \<Rightarrow> [] | Some cx \<Rightarrow> cx_prior cx);
          base = plain_route intent
      in if intent \<notin> set all_intents
         then (plain_route ''new_search'')
                \<lparr>ro_terminal := [terminal_issue ''invalid_intent'' (''unknown intent: '' @ te_repr (rk_text env) intent)]\<rparr>
         else if intent = ''detail_followup''
         then base\<lparr>ro_anchor := anchor, ro_detail := True,
                   ro_terminal := (if truthy_str anchor then []
                     else [terminal_issue ''detail_followup_requires_anchor'' ''detail_followup requires anchor_entity_id''])\<rparr>
         else if intent = ''more_mentors''
         then (if prior = []
               then base\<lparr>ro_terminal := [terminal_issue ''more_mentors_requires_prior''
                                          ''more_mentors requires prior_result_entity_ids'']\<rparr>
               else base\<lparr>ro_exclude := prior\<rparr>)
         else if intent = ''same_field''
         then (if truthy_str anchor then base\<lparr>ro_anchor := anchor\<rparr>
               else base\<lparr>ro_terminal := [terminal_issue ''same_field_requires_anchor''
                                          ''same_field requires anchor_entity_id'']\<rparr>)
         else if intent = ''refine_direction'' then base\<lparr>ro_refine := True\<rparr>
         else base)"

section \<open>Ranking profiles (core/ranking\_profile.py)\<close>

record ranking_profile =
  rp_version :: string
  rp_weights :: "(string, rat) dict"
  rp_rrf_k :: int
  rp_steps :: "int list"
  rp_window :: int
  rp_concurrency :: int
  rp_window_max :: int
  rp_thresholds :: "(string, rat) dict"
  rp_tie_break :: "string list"
  rp_boost_per_topic :: rat
  rp_boost_max :: rat

definition required_weights :: "string list" where
  "required_weights =
     [''semantic_score'', ''topic_statement_score'', ''student_fit_score'', ''eligibility_score'',
      ''provenance_score'', ''completeness_score'']"

definition tie_fields :: "string list" where
  "tie_fields = [''score'', ''semantic_score'', ''evidence_count'', ''entity_id'']"

definition number_at :: "(string, rat) dict \<Rightarrow> string \<Rightarrow> rat" where
  "number_at d k = (case dict_get d k of None \<Rightarrow> 0 | Some q \<Rightarrow> q)"

fun increasing :: "int list \<Rightarrow> bool" where
  "increasing (x # y # zs) = (x < y \<and> increasing (y # zs))"
| "increasing _ = True"

text \<open>\<open>__post_init__\<close> raises no \<open>ValueError\<close>; the numbers of the model are never NaN or infinite.\<close>

definition profile_valid :: "ranking_profile \<Rightarrow> bool" where
  "profile_valid p =
     (rp_version p \<noteq> [] \<and>
      set required_weights \<subseteq> set (dict_keys (rp_weights p)) \<and>
      (\<forall>k \<in> set required_weights. 0 \<le> number_at (rp_weights p) k) \<and>
      abs (sum_list (map (number_at (rp_weights p)) required_weights) - 1) \<le> 1 / 100 \<and>
      rp_steps p \<noteq> [] \<and> increasing (rp_steps p) \<and> list_all (\<lambda>s. 0 < s) (rp_steps p) \<and>
      1 \<le> rp_rrf_k p \<and> 1 \<le> rp_window p \<and> 1 \<le> rp_concurrency p \<and> rp_window p \<le> rp_window_max p \<and>
      {''excellent'', ''strong'', ''possible''} \<subseteq> set (dict_keys (rp_thresholds p)) \<and>
      number_at (rp_thresholds p) ''strong'' < number_at (rp_thresholds p) ''excellent'' \<and>
      number_at (rp_thresholds p) ''possible'' < number_at (rp_thresholds p) ''strong'' \<and>
      rp_tie_break p \<noteq> [] \<and> distinct (rp_tie_break p) \<and> set (rp_tie_break p) = set tie_fields \<and>
      0 \<le> rp_boost_per_topic p \<and> rp_boost_per_topic p \<le> rp_boost_max p \<and> rp_boost_max p \<le> 1)"

section \<open>Steps and scores of the recall (core/recall.py)\<close>

definition compute_oversample_steps :: "int \<Rightarrow> ranking_profile \<Rightarrow> int \<Rightarrow> int list" where
  "compute_oversample_steps requested p most =
     (let steps = filter (\<lambda>s. requested \<le> s \<and> s \<le> most) (rp_steps p)
      in if steps = [] then [min requested most] else steps)"

definition normalize_rrf :: "vector_hit list \<Rightarrow> (string, rat) dict" where
  "normalize_rrf hs =
     (case hs of
        [] \<Rightarrow> []
      | [h] \<Rightarrow> [(vh_entity h, 1)]
      | _ \<Rightarrow>
          (let lo = Min (set (map vh_score hs)); hi = Max (set (map vh_score hs))
           in if hi = lo then fold (\<lambda>h. dict_set (vh_entity h) 1) hs []
              else fold (\<lambda>h. dict_set (vh_entity h) ((vh_score h - lo) / (hi - lo))) hs []))"

section \<open>Ranking (core/rerank.py)\<close>

record components =
  co_semantic :: rat
  co_topic :: rat
  co_fit :: rat
  co_eligibility :: rat
  co_provenance :: rat
  co_completeness :: rat
  co_overlap :: rat
  co_boost :: rat
  co_direction :: rat

record rank_entry =
  ke_entity :: string
  ke_score :: rat
  ke_components :: components
  ke_level :: string
  ke_evidence :: nat

definition spaced :: "string list \<Rightarrow> string" where
  "spaced ss = concat (case ss of [] \<Rightarrow> [] | x # xs \<Rightarrow> x # map (\<lambda>s. '' '' @ s) xs)"

definition share :: "nat \<Rightarrow> nat \<Rightarrow> rat" where
  "share hs n = min 1 (of_nat hs / of_nat (max 1 n))"

definition topic_statement :: "rank_env \<Rightarrow> prof_detail option \<Rightarrow> string list \<Rightarrow> rat" where
  "topic_statement env detail terms =
     (case detail of
        None \<Rightarrow> 0
      | Some d \<Rightarrow>
          if terms = [] then 0
          else (let hay = rank_lower env (spaced (pd_topics d) @ '' '' @ spaced (pd_statements d))
                in share (length (filter (\<lambda>t. t \<noteq> [] \<and> py_in (rank_lower env t) hay) terms)) (length terms)))"

definition query_terms_of :: "rank_env \<Rightarrow> string list \<Rightarrow> string list" where
  "query_terms_of env terms =
     map (\<lambda>t. rank_lower env (py_strip t)) (filter (\<lambda>t. t \<noteq> [] \<and> py_strip t \<noteq> []) terms)"

definition direction_evidence :: "rank_env \<Rightarrow> prof_fact option \<Rightarrow> prof_detail option \<Rightarrow> string list \<Rightarrow> rat" where
  "direction_evidence env fo detail query =
     (let terms = query_terms_of env query;
          summary = (case fo of None \<Rightarrow> [] | Some f \<Rightarrow> (case pf_summary f of None \<Rightarrow> [] | Some s \<Rightarrow> if s = [] then [] else [s]));
          texts = (case detail of None \<Rightarrow> [] | Some d \<Rightarrow> pd_statements d @ pd_topics d);
          hay = rank_lower env (spaced (summary @ texts))
      in if terms = [] \<or> hay = [] then 0
         else min 1 (of_nat (length (filter (\<lambda>t. py_in t hay) terms)) / of_nat (length terms)))"

definition student_fit :: "rank_env \<Rightarrow> student_context option \<Rightarrow> prof_detail option \<Rightarrow> prof_fact option \<Rightarrow> rat" where
  "student_fit env student detail fo =
     (case (student, detail) of
        (Some s, Some d) \<Rightarrow>
          (let summary = (case fo of None \<Rightarrow> [] | Some f \<Rightarrow> (case pf_summary f of None \<Rightarrow> [] | Some x \<Rightarrow> if x = [] then [] else [x]));
               hay = rank_lower env (spaced (summary @ pd_statements d));
               interests = sx_research_interests s
           in if hay = [] \<or> interests = [] then 0
              else share (length (filter (\<lambda>t. t \<noteq> [] \<and> py_in (rank_lower env t) hay) interests)) (length interests))
      | _ \<Rightarrow> 0)"

definition eligibility_score :: "prof_fact option \<Rightarrow> rat" where
  "eligibility_score fo =
     (case fo of
        None \<Rightarrow> 0
      | Some f \<Rightarrow>
          ((if pf_master f = ''confirmed'' then 1 / 2 else 0) + (if pf_phd f = ''confirmed'' then 1 / 2 else 0)) *
          (if pf_role f = ''review'' then 7 / 10 else 1))"

definition evidence_pieces :: "prof_detail option \<Rightarrow> nat" where
  "evidence_pieces detail = (case detail of None \<Rightarrow> 0 | Some d \<Rightarrow> length (pd_refs d) + length (pd_sources d))"

definition provenance_score :: "prof_detail option \<Rightarrow> rat" where
  "provenance_score detail = min 1 (of_nat (evidence_pieces detail) / 5)"

definition completeness_score :: "prof_fact option \<Rightarrow> prof_detail option \<Rightarrow> rat" where
  "completeness_score fo detail =
     (case fo of
        None \<Rightarrow> 0
      | Some f \<Rightarrow>
          (let fields = (pf_summary f \<noteq> None) #
                 (case detail of None \<Rightarrow> []
                  | Some d \<Rightarrow> [pd_statements d \<noteq> [], pd_topics d \<noteq> [], pd_publications d \<noteq> [], pd_sources d \<noteq> []])
           in of_nat (length (filter (\<lambda>b. b) fields)) / of_nat (max 1 (length fields))))"

definition match_level :: "rat \<Rightarrow> (string, rat) dict \<Rightarrow> string" where
  "match_level score thr =
     (if number_at thr ''excellent'' \<le> score then ''excellent''
      else if number_at thr ''strong'' \<le> score then ''strong''
      else if number_at thr ''possible'' \<le> score then ''possible''
      else ''weak'')"

definition same_field_affinity :: "prof_fact option \<Rightarrow> string list \<Rightarrow> rat \<Rightarrow> ranking_profile \<Rightarrow> rat \<times> rat \<times> rat" where
  "same_field_affinity fo anchor base p =
     (case fo of
        None \<Rightarrow> (base, 0, 0)
      | Some f \<Rightarrow>
          if anchor = [] then (base, 0, 0)
          else (let n = card (set (pf_topic_ids f) \<inter> set anchor);
                    boost = min (rp_boost_max p) (rp_boost_per_topic p * of_nat n)
                in (min 1 (base + boost), of_nat n / of_nat (max 1 (card (set anchor))), boost)))"

record rank_input =
  ri_facts :: "(string, prof_fact) dict"
  ri_details :: "(string, prof_detail option) dict"
  ri_semantic :: "(string, rat) dict"
  ri_student :: "student_context option"
  ri_profile :: ranking_profile
  ri_terms :: "string list"
  ri_anchor :: "string list"

definition fact_of :: "rank_input \<Rightarrow> string \<Rightarrow> prof_fact option" where
  "fact_of x e = dict_get (ri_facts x) e"

definition detail_of :: "rank_input \<Rightarrow> string \<Rightarrow> prof_detail option" where
  "detail_of x e = Option.bind (dict_get (ri_details x) e) (\<lambda>d. d)"

definition clamp :: "rat \<Rightarrow> rat" where "clamp q = min 1 (max 0 q)"

definition score_entry :: "rank_env \<Rightarrow> rank_input \<Rightarrow> string \<Rightarrow> rank_entry" where
  "score_entry env x e =
     (let p = ri_profile x; w = number_at (rp_weights p); fo = fact_of x e; detail = detail_of x e;
          sem = number_at (ri_semantic x) e;
          topic = topic_statement env detail (ri_terms x);
          fit = student_fit env (ri_student x) detail fo;
          elig = eligibility_score fo;
          prov = provenance_score detail;
          comp = completeness_score fo detail;
          base = w ''semantic_score'' * sem + w ''topic_statement_score'' * topic + w ''student_fit_score'' * fit +
                 w ''eligibility_score'' * elig + w ''provenance_score'' * prov + w ''completeness_score'' * comp;
          (boosted, overlap, boost) = same_field_affinity fo (ri_anchor x) base p;
          score = clamp boosted
      in \<lparr>ke_entity = e, ke_score = score,
          ke_components = \<lparr>co_semantic = sem, co_topic = topic, co_fit = fit, co_eligibility = elig,
            co_provenance = prov, co_completeness = comp, co_overlap = overlap, co_boost = boost,
            co_direction = direction_evidence env fo detail (ri_terms x)\<rparr>,
          ke_level = match_level score (rp_thresholds p), ke_evidence = evidence_pieces detail\<rparr>)"

text \<open>An entry without evidence for the direction falls below the level possible when others have evidence.\<close>

definition cap_entry :: "ranking_profile \<Rightarrow> rank_entry \<Rightarrow> rank_entry" where
  "cap_entry p k =
     (if co_direction (ke_components k) \<le> 0
      then (let score = clamp (min (ke_score k) (number_at (rp_thresholds p) ''possible'' - 1 / 100))
            in k\<lparr>ke_score := score, ke_level := match_level score (rp_thresholds p)\<rparr>)
      else k)"

definition cap_entries :: "rank_env \<Rightarrow> rank_input \<Rightarrow> rank_entry list \<Rightarrow> rank_entry list" where
  "cap_entries env x entries =
     (if query_terms_of env (ri_terms x) \<noteq> [] \<and> (\<exists>k \<in> set entries. 0 < co_direction (ke_components k))
      then map (cap_entry (ri_profile x)) entries else entries)"

text \<open>The entries of a tie-break key, ordered as Python orders them: numbers by size, strings by their text.\<close>

datatype tie_value = Number rat | Text string

instantiation tie_value :: linorder
begin

fun less_eq_tie_value :: "tie_value \<Rightarrow> tie_value \<Rightarrow> bool" where
  "less_eq_tie_value (Number x) (Number y) = (x \<le> y)"
| "less_eq_tie_value (Number x) (Text y) = True"
| "less_eq_tie_value (Text x) (Number y) = False"
| "less_eq_tie_value (Text x) (Text y) = (x \<le> y)"

definition less_tie_value :: "tie_value \<Rightarrow> tie_value \<Rightarrow> bool" where
  "less_tie_value x y = (x \<le> y \<and> \<not> y \<le> x)"

instance
proof
  fix x y z :: tie_value
  show "x < y \<longleftrightarrow> x \<le> y \<and> \<not> y \<le> x" by (simp add: less_tie_value_def)
  show "x \<le> x" by (cases x) simp_all
  show "x \<le> y \<Longrightarrow> y \<le> z \<Longrightarrow> x \<le> z" by (cases x; cases y; cases z) auto
  show "x \<le> y \<Longrightarrow> y \<le> x \<Longrightarrow> x = y" by (cases x; cases y) auto
  show "x \<le> y \<or> y \<le> x" by (cases x; cases y) auto
qed

end

definition tie_value_of :: "rank_entry \<Rightarrow> string \<Rightarrow> tie_value option" where
  "tie_value_of k field =
     (if field = ''score'' then Some (Number (- ke_score k))
      else if field = ''semantic_score'' then Some (Number (- co_semantic (ke_components k)))
      else if field = ''evidence_count'' then Some (Number (- of_nat (ke_evidence k)))
      else if field = ''entity_id'' then Some (Text (ke_entity k))
      else None)"

definition tie_break_key :: "string list \<Rightarrow> rank_entry \<Rightarrow> tie_value list" where
  "tie_break_key spec k = List.map_filter (tie_value_of k) spec"

definition rerank :: "rank_env \<Rightarrow> rank_input \<Rightarrow> string list \<Rightarrow> (string, rank_entry list) result" where
  "rerank env x window =
     (let entries = cap_entries env x (map (score_entry env x) window);
          spec = rp_tie_break (ri_profile x)
      in case find (\<lambda>f. f \<notin> set tie_fields) spec of
           Some f \<Rightarrow> if entries = [] then Inr [] else Inl (''unknown tie_break field: '' @ f)
         | None \<Rightarrow> Inr (sort_key (tie_break_key spec) entries))"

section \<open>The ranking is canonical\<close>

definition rank_entries :: "rank_env \<Rightarrow> rank_input \<Rightarrow> string list \<Rightarrow> rank_entry list" where
  "rank_entries env x window = cap_entries env x (map (score_entry env x) window)"

lemma clamp_range: "0 \<le> clamp q" "clamp q \<le> 1"
  by (simp_all add: clamp_def)

lemma cap_entry_select [simp]:
  "ke_entity (cap_entry p k) = ke_entity k" "ke_components (cap_entry p k) = ke_components k"
  by (simp_all add: cap_entry_def Let_def)

lemma score_entry_entity [simp]: "ke_entity (score_entry env x e) = e"
  by (simp add: score_entry_def Let_def split: prod.split)

lemma score_entry_range:
  "0 \<le> ke_score (score_entry env x e) \<and> ke_score (score_entry env x e) \<le> 1 \<and>
   ke_level (score_entry env x e) = match_level (ke_score (score_entry env x e)) (rp_thresholds (ri_profile x))"
  by (simp add: score_entry_def Let_def clamp_range split: prod.split)

lemma cap_entry_range:
  "0 \<le> ke_score k \<and> ke_score k \<le> 1 \<and> ke_level k = match_level (ke_score k) (rp_thresholds p) \<Longrightarrow>
   0 \<le> ke_score (cap_entry p k) \<and> ke_score (cap_entry p k) \<le> 1 \<and>
   ke_level (cap_entry p k) = match_level (ke_score (cap_entry p k)) (rp_thresholds p)"
  by (simp add: cap_entry_def Let_def clamp_range)

lemma rank_entries_entities: "map ke_entity (rank_entries env x window) = window"
  by (simp add: rank_entries_def cap_entries_def o_def)

lemma rank_entries_range:
  "k \<in> set (rank_entries env x window) \<Longrightarrow>
   0 \<le> ke_score k \<and> ke_score k \<le> 1 \<and> ke_level k = match_level (ke_score k) (rp_thresholds (ri_profile x))"
  using score_entry_range cap_entry_range by (auto simp: rank_entries_def cap_entries_def split: if_splits)

lemma rank_entries_mset:
  assumes "mset window' = mset window"
  shows "mset (rank_entries env x window') = mset (rank_entries env x window)"
proof -
  have "set window' = set window" using assms by (metis set_mset_mset)
  then show ?thesis using assms by (simp add: rank_entries_def cap_entries_def)
qed

lemma tie_break_key_entity:
  assumes "''entity_id'' \<in> set spec" and "tie_break_key spec k = tie_break_key spec l"
  shows "ke_entity k = ke_entity l"
  using assms
proof (induction spec)
  case (Cons f spec)
  then show ?case
    by (cases "tie_value_of k f"; cases "tie_value_of l f")
       (auto simp: tie_break_key_def tie_value_of_def List.map_filter_simps split: if_splits)
qed simp

lemma tie_break_key_inj:
  assumes "''entity_id'' \<in> set spec" and "distinct (map ke_entity ks)"
  shows "inj_on (tie_break_key spec) (set ks)"
  using assms by (intro inj_onI) (meson tie_break_key_entity distinct_map inj_onD)

lemma rerank_valid:
  "profile_valid (ri_profile x) \<Longrightarrow>
   rerank env x window = Inr (sort_key (tie_break_key (rp_tie_break (ri_profile x))) (rank_entries env x window))"
  by (auto simp: rerank_def rank_entries_def profile_valid_def Let_def find_None_iff split: option.split
      dest!: find_in_set)

definition demo_rank_env :: rank_env where
  "demo_rank_env = \<lparr>rk_text = plain_text, rk_str = (\<lambda>v. [])\<rparr>"

definition demo_profile :: ranking_profile where
  "demo_profile =
     \<lparr>rp_version = ''v1'',
      rp_weights = [(''semantic_score'', 35 / 100), (''topic_statement_score'', 25 / 100), (''student_fit_score'', 10 / 100),
        (''eligibility_score'', 10 / 100), (''provenance_score'', 10 / 100), (''completeness_score'', 10 / 100)],
      rp_rrf_k = 60, rp_steps = [50, 100], rp_window = 40, rp_concurrency = 8, rp_window_max = 100,
      rp_thresholds = [(''excellent'', 8 / 10), (''strong'', 6 / 10), (''possible'', 4 / 10)],
      rp_tie_break = tie_fields, rp_boost_per_topic = 5 / 100, rp_boost_max = 15 / 100\<rparr>"

definition demo_fact :: "string \<Rightarrow> string option \<Rightarrow> prof_fact" where
  "demo_fact e summary =
     \<lparr>pf_entity = e, pf_name = e, pf_university = ''u'', pf_units = [], pf_title = ''professor'',
      pf_family = ''professor'', pf_master = ''confirmed'', pf_phd = ''unknown'', pf_role = ''included'', pf_url = None,
      pf_hash = None, pf_summary = summary, pf_university_id = Some ''u1'', pf_city = Some beijing, pf_unit_ids = [],
      pf_topic_ids = [''t1'']\<rparr>"

definition demo_rank :: rank_input where
  "demo_rank =
     \<lparr>ri_facts = [(''a'', demo_fact ''a'' (Some ''Graph theory'')), (''b'', demo_fact ''b'' None)], ri_details = [],
      ri_semantic = [(''a'', 0), (''b'', 1)], ri_student = None, ri_profile = demo_profile, ri_terms = [''graph''],
      ri_anchor = []\<rparr>"

lemma demo_profile_valid: "profile_valid demo_profile"
  by code_simp

text \<open>
  C14: The ranking of a window depends on the candidates alone and not on the order in which they arrive: it orders
  exactly these candidates by the tie-break key of the profile, with scores between 0 and 1 and the levels of the
  thresholds.
\<close>

theorem rerank_canonical:
  assumes "profile_valid (ri_profile x)" and "distinct window"
  shows "\<exists>out. rerank env x window = Inr out \<and> mset (map ke_entity out) = mset window \<and>
           sorted (map (tie_break_key (rp_tie_break (ri_profile x))) out) \<and>
           (\<forall>k \<in> set out. 0 \<le> ke_score k \<and> ke_score k \<le> 1 \<and>
              ke_level k = match_level (ke_score k) (rp_thresholds (ri_profile x))) \<and>
           (\<forall>window'. mset window' = mset window \<longrightarrow> rerank env x window' = Inr out)"
proof -
  let ?key = "tie_break_key (rp_tie_break (ri_profile x))" and ?ks = "rank_entries env x window"
  let ?out = "sort_key ?key ?ks"
  have run: "rerank env x window = Inr ?out" by (rule rerank_valid [OF assms(1)])
  have "mset (map ke_entity ?out) = mset window" using rank_entries_entities [of env x window] by (metis mset_map mset_sort)
  moreover have "0 \<le> ke_score k \<and> ke_score k \<le> 1 \<and> ke_level k = match_level (ke_score k) (rp_thresholds (ri_profile x))"
    if "k \<in> set ?out" for k using that rank_entries_range by simp
  moreover have "rerank env x window' = Inr ?out" if same: "mset window' = mset window" for window'
  proof -
    have "''entity_id'' \<in> set (rp_tie_break (ri_profile x))" using assms(1) by (simp add: profile_valid_def tie_fields_def)
    then have "inj_on ?key (set (rank_entries env x window'))"
      using assms(2) mset_eq_imp_distinct_iff [OF same] by (intro tie_break_key_inj) (simp_all add: rank_entries_entities)
    then have "sort_key ?key (rank_entries env x window') = ?out"
      using rank_entries_mset [OF same] by (intro sort_key_inj_key_eq) simp_all
    then show ?thesis by (simp add: rerank_valid [OF assms(1)])
  qed
  ultimately show ?thesis using run by (intro exI [of _ ?out]) simp
qed

lemma rerank_canonical_witness:
  "\<exists>out. rerank demo_rank_env demo_rank [''a'', ''b''] = Inr out \<and> rerank demo_rank_env demo_rank [''b'', ''a''] = Inr out \<and>
     mset (map ke_entity out) = mset [''a'', ''b'']"
proof -
  have "profile_valid (ri_profile demo_rank)" "distinct [''a'', ''b'']"
    using demo_profile_valid by (simp_all add: demo_rank_def)
  from rerank_canonical [OF this, of demo_rank_env] show ?thesis
    by (elim exE conjE) (auto simp: add_mset_commute)
qed

text \<open>
  C15: When the query names directions and some candidate has evidence for one, every candidate without any is
  labelled weak.
\<close>

theorem no_evidence_is_weak:
  assumes "rerank env x window = Inr out" and "0 < number_at (rp_thresholds (ri_profile x)) ''possible''"
    and "profile_valid (ri_profile x)" and "query_terms_of env (ri_terms x) \<noteq> []"
    and "k \<in> set out" and "0 < co_direction (ke_components k)" and "l \<in> set out" and "co_direction (ke_components l) \<le> 0"
  shows "ke_level l = ''weak''"
proof -
  let ?es = "map (score_entry env x) window" and ?p = "ri_profile x"
  have out: "set out = set (rank_entries env x window)" using assms(1) by (auto simp: rerank_valid [OF assms(3)])
  have "\<exists>k \<in> set ?es. 0 < co_direction (ke_components k)"
    using assms(5,6) unfolding out by (auto simp: rank_entries_def cap_entries_def split: if_splits)
  then have "set out = cap_entry ?p ` set ?es" using assms(4) by (simp add: out rank_entries_def cap_entries_def image_image)
  then obtain e where l: "l = cap_entry ?p e" using assms(7) by auto
  let ?s = "clamp (min (ke_score e) (number_at (rp_thresholds ?p) ''possible'' - 1 / 100))"
  have "?s < number_at (rp_thresholds ?p) ''possible''" using assms(2) by (simp add: clamp_def min_def max_def)
  moreover have "number_at (rp_thresholds ?p) ''possible'' < number_at (rp_thresholds ?p) ''strong''"
    "number_at (rp_thresholds ?p) ''strong'' < number_at (rp_thresholds ?p) ''excellent''"
    using assms(3) by (simp_all add: profile_valid_def)
  ultimately have "match_level ?s (rp_thresholds ?p) = ''weak''" by (simp add: match_level_def)
  moreover have "co_direction (ke_components e) \<le> 0" using assms(8) by (simp add: l)
  ultimately show ?thesis by (simp add: l cap_entry_def Let_def)
qed

lemma no_evidence_is_weak_witness:
  "\<exists>out. rerank demo_rank_env demo_rank [''a'', ''b''] = Inr out \<and>
     (\<exists>l \<in> set out. ke_entity l = ''b'' \<and> ke_level l = ''weak'')"
proof -
  let ?run = "rerank demo_rank_env demo_rank [''a'', ''b'']"
  have demo: "case ?run of Inl e \<Rightarrow> False
      | Inr out \<Rightarrow> map ke_entity out = [''b'', ''a''] \<and> list_all2 (\<lambda>k q. co_direction (ke_components k) = q) out [0, 1]"
    by code_simp
  then obtain k l where run: "?run = Inr [l, k]" and kl: "ke_entity l = ''b''"
    "co_direction (ke_components k) = 1" "co_direction (ke_components l) = 0"
    by (cases ?run) (auto simp: list_all2_Cons2 Cons_eq_map_conv)
  have terms: "query_terms_of demo_rank_env (ri_terms demo_rank) \<noteq> []"
    "0 < number_at (rp_thresholds (ri_profile demo_rank)) ''possible''" by code_simp+
  have valid: "profile_valid (ri_profile demo_rank)" using demo_profile_valid by (simp add: demo_rank_def)
  have "ke_level l = ''weak''"
    by (rule no_evidence_is_weak [OF run terms(2) valid terms(1), of k]) (simp_all add: kl)
  with run kl show ?thesis by simp
qed

end
