(* ===== verification/Dext_Recommend.thy ===== *)
theory Dext_Recommend
  imports Dext_Rank
begin

text \<open>
  A recommendation, \<open>core/service.py\<close> with \<open>core/\_resilience.py\<close>, \<open>core/query\_understanding.py\<close>,
  \<open>core/recall.py\<close>, \<open>core/detail\_fetch.py\<close>, \<open>core/explanation.py\<close>, \<open>core/cards.py\<close> and
  \<open>core/validation.py\<close>: a request is admitted, understood, recalled, filtered, ranked and answered.

  The ports may answer every call anew: an answer is a function of the number of calls recorded before it.
  \<open>P_cancelled\<close> is the cancellation by \<open>asyncio.wait\_for\<close> at that call. Elapsed times are left out of the
  diagnostics, and the details of several entities are fetched one after the other.
\<close>

section \<open>Responses (models.py)\<close>

record understanding =
  qu_interests :: "json list"
  qu_universities :: "json list"
  qu_cities :: "json list"
  qu_units :: "json list"
  qu_degree :: json
  qu_requirement :: json
  qu_missing :: "json list"
  qu_unclear :: bool
  qu_confidence :: rat

record query_diag =
  qd_length :: nat
  qd_language :: "string option"
  qd_filters :: "string option"
  qd_recall :: nat
  qd_filtered :: nat
  qd_returned :: nat
  qd_steps :: nat

record phase_diag =
  ph_phase :: string
  ph_attempt :: "int option"
  ph_error :: "string option"

record card =
  cd_entity :: string
  cd_name :: string
  cd_university :: string
  cd_units :: "string list"
  cd_title :: string
  cd_family :: string
  cd_master :: string
  cd_phd :: string
  cd_role :: string
  cd_url :: "string option"
  cd_summary :: "string option"
  cd_level :: string
  cd_reasons :: "string list"
  cd_score :: rat
  cd_components :: components
  cd_topics :: "string list"
  cd_statements :: "string list"
  cd_publications :: "string list"
  cd_refs :: "source_ref list"
  cd_risks :: "string list"
  cd_actions :: "string list"

record response =
  rs_build :: string
  rs_profile :: string
  rs_fingerprint :: string
  rs_taxonomy :: "string option"
  rs_understanding :: understanding
  rs_query :: query_diag
  rs_results :: "card list"
  rs_followups :: "string list"
  rs_warnings :: "rec_warning list"
  rs_generation :: "string option"
  rs_phases :: "phase_diag list"

record snapshot =
  sn_build :: string
  sn_fingerprint :: string
  sn_taxonomy :: "string option"
  sn_profile :: string

section \<open>Ports and the execution context (core/\_resilience.py)\<close>

datatype port_error = P_cancelled | P_missing | P_transient string | P_broken string

definition error_name :: "port_error \<Rightarrow> string" where
  "error_name e = (case e of P_cancelled \<Rightarrow> ''CancelledError'' | P_missing \<Rightarrow> ''KeyError'' | P_transient n \<Rightarrow> n | P_broken n \<Rightarrow> n)"

definition retryable :: "port_error \<Rightarrow> bool" where
  "retryable e = (case e of P_transient n \<Rightarrow> True | _ \<Rightarrow> False)"

record ports =
  pt_snapshot :: "nat \<Rightarrow> (port_error, snapshot option) result"
  pt_generation :: "nat \<Rightarrow> (port_error, string) result"
  pt_ranking :: "nat \<Rightarrow> (port_error, ranking_profile) result"
  pt_understand :: "nat \<Rightarrow> (port_error, json \<times> string list) result"
  pt_hydrate :: "nat \<Rightarrow> string list \<Rightarrow> (port_error, (string, prof_fact) dict) result"
  pt_embed :: "nat \<Rightarrow> string \<Rightarrow> (port_error, string) result"
  pt_recall :: "nat \<Rightarrow> rec_filters \<Rightarrow> int \<Rightarrow> (port_error, vector_hit list) result"
  pt_details :: "(nat \<Rightarrow> string list \<Rightarrow> bool \<Rightarrow> (port_error, (string, prof_detail option) dict) result) option"
  pt_detail :: "nat \<Rightarrow> string \<Rightarrow> bool \<Rightarrow> (port_error, prof_detail) result"

record rec_context =
  xc_snapshot :: "snapshot option"
  xc_profile :: "ranking_profile option"
  xc_fingerprint :: "string option"
  xc_generation :: "string option"
  xc_phases :: "phase_diag list"
  xc_warnings :: "rec_warning list"

definition fresh_context :: rec_context where
  "fresh_context =
     \<lparr>xc_snapshot = None, xc_profile = None, xc_fingerprint = None, xc_generation = None, xc_phases = [],
      xc_warnings = []\<rparr>"

text \<open>What ends a request early: a classified failure, the cancellation, or an exception that nothing catches.\<close>

datatype rec_stop = Classified string string | Cancelled | Escapes string

type_synonym 'a rec_step = "rec_context \<Rightarrow> (rec_stop, 'a) result \<times> rec_context"

definition rec_return :: "'a \<Rightarrow> 'a rec_step" where "rec_return a c = (Inr a, c)"
definition rec_stop_with :: "rec_stop \<Rightarrow> 'a rec_step" where "rec_stop_with e c = (Inl e, c)"
definition rec_bind :: "'a rec_step \<Rightarrow> ('a \<Rightarrow> 'b rec_step) \<Rightarrow> 'b rec_step" where
  "rec_bind m f c = (case m c of (Inl e, c') \<Rightarrow> (Inl e, c') | (Inr a, c') \<Rightarrow> f a c')"
definition rec_modify :: "(rec_context \<Rightarrow> rec_context) \<Rightarrow> unit rec_step" where "rec_modify f c = (Inr (), f c)"
definition rec_get :: "(rec_context \<Rightarrow> 'a) \<Rightarrow> 'a rec_step" where "rec_get f c = (Inr (f c), c)"

definition rec_record :: "string \<Rightarrow> int option \<Rightarrow> string option \<Rightarrow> unit rec_step" where
  "rec_record phase attempt err =
     rec_modify (\<lambda>c. c\<lparr>xc_phases := xc_phases c @ [\<lparr>ph_phase = phase, ph_attempt = attempt, ph_error = err\<rparr>]\<rparr>)"

definition guarded :: "string \<Rightarrow> string \<Rightarrow> int option \<Rightarrow> (nat \<Rightarrow> (port_error, 'a) result) \<Rightarrow> 'a rec_step" where
  "guarded phase code attempt port =
     rec_bind (rec_get (\<lambda>c. port (length (xc_phases c)))) (\<lambda>answer.
       case answer of
         Inr a \<Rightarrow> rec_bind (rec_record phase attempt None) (\<lambda>_. rec_return a)
       | Inl P_cancelled \<Rightarrow> rec_bind (rec_record phase attempt (Some ''cancelled'')) (\<lambda>_. rec_stop_with Cancelled)
       | Inl _ \<Rightarrow> rec_bind (rec_record phase attempt (Some code)) (\<lambda>_. rec_stop_with (Classified code phase)))"

definition rec_warn :: "string \<Rightarrow> string \<Rightarrow> rec_warning" where
  "rec_warn code message = \<lparr>rw_code = code, rw_message = message, rw_severity = ''warning''\<rparr>"

section \<open>Error responses (core/validation.py, core/service.py)\<close>

definition no_understanding :: understanding where
  "no_understanding =
     \<lparr>qu_interests = [], qu_universities = [], qu_cities = [], qu_units = [], qu_degree = JNull,
      qu_requirement = JNull, qu_missing = [], qu_unclear = True, qu_confidence = 0\<rparr>"

definition no_query_diag :: query_diag where
  "no_query_diag =
     \<lparr>qd_length = 0, qd_language = None, qd_filters = None, qd_recall = 0, qd_filtered = 0, qd_returned = 0,
      qd_steps = 0\<rparr>"

definition error_response ::
    "snapshot option \<Rightarrow> ranking_profile option \<Rightarrow> string option \<Rightarrow> rec_warning \<Rightarrow> string option \<Rightarrow>
     phase_diag list \<Rightarrow> rec_warning list \<Rightarrow> response" where
  "error_response snap p fingerprint warning generation phases prior =
     \<lparr>rs_build = (case snap of None \<Rightarrow> ''unavailable'' | Some s \<Rightarrow> sn_build s),
      rs_profile = (case p of Some q \<Rightarrow> rp_version q
        | None \<Rightarrow> (case snap of None \<Rightarrow> ''unavailable'' | Some s \<Rightarrow> sn_profile s)),
      rs_fingerprint = str_or fingerprint (case snap of None \<Rightarrow> ''unavailable'' | Some s \<Rightarrow> sn_fingerprint s),
      rs_taxonomy = Option.bind snap sn_taxonomy, rs_understanding = no_understanding, rs_query = no_query_diag,
      rs_results = [], rs_followups = [], rs_warnings = prior @ [warning], rs_generation = generation,
      rs_phases = phases\<rparr>"

definition match_levels :: "string list" where
  "match_levels = [''excellent'', ''strong'', ''possible'', ''weak'']"

definition usable :: "string \<Rightarrow> bool" where "usable v = (v \<noteq> [] \<and> v \<noteq> ''unavailable'')"

text \<open>\<open>validate\<close> raises no \<open>ValueError\<close>.\<close>

definition valid_response :: "response \<Rightarrow> bool" where
  "valid_response r =
     ((\<forall>w \<in> set (rs_warnings r). rw_code w \<noteq> []) \<and>
      (if \<exists>w \<in> set (rs_warnings r). rw_severity w = ''error'' then rs_results r = []
       else usable (rs_build r) \<and> usable (rs_profile r) \<and> usable (rs_fingerprint r) \<and>
            (\<forall>k \<in> set (rs_results r). cd_level k \<in> set match_levels)))"

definition checked :: "response \<Rightarrow> response rec_step" where
  "checked r = (if valid_response r then rec_return r else rec_stop_with (Escapes ''ValueError''))"

definition fail_with :: "bool \<Rightarrow> ranking_profile option \<Rightarrow> string option \<Rightarrow> rec_warning list \<Rightarrow> rec_warning \<Rightarrow> response rec_step" where
  "fail_with check p fingerprint prior warning =
     rec_bind (rec_get (\<lambda>c. error_response (xc_snapshot c) p fingerprint warning (xc_generation c) (xc_phases c)
                              (xc_warnings c @ prior)))
       (\<lambda>r. if check then checked r else rec_return r)"

section \<open>Admission (core/service.py)\<close>

record rec_settings =
  st_query_max :: nat
  st_limit_max :: int
  st_oversample_max :: int
  st_timeout :: string

text \<open>The attribute types are those of the annotations, so only the checks on values are left.\<close>

definition validate_request :: "rank_env \<Rightarrow> rec_settings \<Rightarrow> rec_request \<Rightarrow> string option" where
  "validate_request env st rq =
     (let fl = rr_filters rq; r = te_repr (rk_text env)
      in if py_strip (rr_query rq) = [] then Some ''query_text must be a non-empty string''
         else if st_query_max st < py_len (rr_query rq)
         then Some (''query_text exceeds '' @ nat_str (st_query_max st) @ '' chars'')
         else if rr_limit rq < 1 \<or> st_limit_max st < rr_limit rq
         then Some (''limit must be in [1, '' @ int_str (st_limit_max st) @ '']'')
         else if rr_oversample rq < 1 \<or> st_oversample_max st < rr_oversample rq
         then Some (''oversample must be in [1, '' @ int_str (st_oversample_max st) @ '']'')
         else if rr_mode rq \<noteq> ''explainable_precision''
         then Some (''ranking_mode '' @ r (rr_mode rq) @ '' not supported'')
         else if rr_review rq \<notin> {''exclude'', ''include_downranked''}
         then Some (''invalid review_policy: '' @ r (rr_review rq))
         else if rr_diagnostics rq \<notin> {''none'', ''summary'', ''debug''}
         then Some (''invalid diagnostics_level: '' @ r (rr_diagnostics rq))
         else if fl_master fl \<notin> {''any'', ''confirmed''} then Some ''invalid master_eligibility''
         else if fl_phd fl \<notin> {''any'', ''confirmed''} then Some ''invalid phd_eligibility''
         else if fl_topic_mode fl \<notin> {''soft'', ''hard''} then Some ''invalid topic_filter_mode''
         else if fl_topic_mode fl = ''hard'' \<and> fl_topics fl = []
         then Some ''topic_filter_mode=hard requires non-empty topic_ids''
         else map_option (\<lambda>(name, vs). ''filters.'' @ name @ '' contains empty/non-string value'')
                (find (\<lambda>(name, vs). [] \<in> set vs)
                   [(''university_ids'', fl_universities fl), (''city_names'', fl_cities fl), (''org_unit_ids'', fl_units fl),
                    (''title_families'', fl_titles fl), (''topic_ids'', fl_topics fl)]))"

section \<open>The context of a conversation (core/conversation.py)\<close>

definition dedup :: "'a list \<Rightarrow> 'a list" where
  "dedup xs = fold (\<lambda>x out. if x \<in> set out then out else out @ [x]) xs []"

definition known_intent :: "string option \<Rightarrow> bool" where
  "known_intent i = (case i of None \<Rightarrow> False | Some s \<Rightarrow> s \<in> set all_intents)"

definition context_issue :: "rank_env \<Rightarrow> bool \<Rightarrow> conversation \<Rightarrow> (string \<times> string) option" where
  "context_issue env resolved cx =
     (let src = cx_source cx; intent = cx_intent cx; conf = cx_confidence cx; r = te_repr (rk_text env);
          bad = (\<lambda>m. Some (''invalid_intent'', m)); state = (\<lambda>m. Some (''invalid_conversation_state'', m))
      in if src \<notin> {None, Some ''explicit'', Some ''implicit''} then bad (''bad intent_source: '' @ r (the src))
         else if intent \<noteq> None \<and> \<not> known_intent intent then bad (''bad intent: '' @ r (the intent))
         else if src = Some ''explicit'' \<and> intent = None then bad ''explicit requires intent''
         else if src = Some ''explicit'' \<and> conf \<noteq> None then bad ''explicit must not carry confidence''
         else if src = Some ''implicit'' \<and> \<not> resolved \<and> (intent \<noteq> None \<or> conf \<noteq> None)
         then bad ''input implicit must be unclassified''
         else if src = Some ''implicit'' \<and> resolved \<and> \<not> known_intent intent
         then bad ''resolved implicit needs whitelist intent''
         else if src = Some ''implicit'' \<and> resolved \<and> (case conf of None \<Rightarrow> True | Some q \<Rightarrow> q < 0 \<or> 1 < q)
         then bad ''resolved implicit confidence out of [0,1]''
         else if src = None \<and> (intent \<noteq> None \<or> conf \<noteq> None) then bad ''None source must not carry intent/confidence''
         else if (cx_session cx = None) \<noteq> (cx_turn cx = None) then state ''session_id and turn_id must co-occur''
         else if (cx_main cx = None) \<noteq> (cx_source_turn cx = None)
         then state ''main_session_id and source_turn_id must co-occur''
         else None)"

definition validate_context :: "rank_env \<Rightarrow> bool \<Rightarrow> conversation \<Rightarrow> (string \<times> string, conversation) result" where
  "validate_context env resolved cx =
     (case context_issue env resolved cx of
        Some e \<Rightarrow> Inl e
      | None \<Rightarrow> Inr (cx\<lparr>cx_source := (if cx_source cx = None \<and> \<not> resolved then Some ''implicit'' else cx_source cx),
                        cx_prior := dedup (cx_prior cx)\<rparr>))"

section \<open>Query understanding (core/query\_understanding.py)\<close>

text \<open>
  The environment of the service: the rules of the safety guard, \<open>str.split\<close> and \<open>float\<close> of a string, and the
  rendering of a score with two digits.
\<close>

record rec_env =
  rv_rank :: rank_env
  rv_rules :: grounded_rules
  rv_words :: "string \<Rightarrow> string list"
  rv_float :: "string \<Rightarrow> rat option"
  rv_two :: "rat \<Rightarrow> string"
  rv_cjk :: "string \<Rightarrow> bool"

definition understanding_fallback :: "rec_env \<Rightarrow> string \<Rightarrow> understanding" where
  "understanding_fallback env query =
     (let words = filter (\<lambda>t. t \<noteq> []) (rv_words env query)
      in no_understanding\<lparr>qu_interests := map JStr (if words = [] then [query] else words)\<rparr>)"

text \<open>\<open>tuple(value or ())\<close> and \<open>float(value or 0.0)\<close>; \<open>None\<close> is their \<open>TypeError\<close> or \<open>ValueError\<close>.\<close>

definition as_items :: "json \<Rightarrow> json list option" where
  "as_items v =
     (if \<not> truthy v then Some []
      else case v of JList vs \<Rightarrow> Some vs | JDict d \<Rightarrow> Some (map (\<lambda>(k, x). JStr k) d)
           | JStr s \<Rightarrow> Some (map JStr (code_points s)) | _ \<Rightarrow> None)"

definition as_number :: "rec_env \<Rightarrow> json \<Rightarrow> rat option" where
  "as_number env v =
     (if \<not> truthy v then Some 0
      else case v of JInt i \<Rightarrow> Some (of_int i) | JFloat q \<Rightarrow> Some q | JBool b \<Rightarrow> Some (of_bool b)
           | JStr s \<Rightarrow> rv_float env s | _ \<Rightarrow> None)"

definition field :: "metadata \<Rightarrow> string \<Rightarrow> json" where
  "field d k = (case dict_get d k of None \<Rightarrow> JNull | Some v \<Rightarrow> v)"

definition coerce_understanding :: "rec_env \<Rightarrow> json \<Rightarrow> understanding option" where
  "coerce_understanding env out =
     (case out of
        JDict d \<Rightarrow>
          if dict_get d ''needs_clarification'' = None \<or> dict_get d ''confidence'' = None then None
          else (case (as_items (field d ''research_interests''), as_items (field d ''preferred_universities''),
                      as_items (field d ''preferred_cities''), as_items (field d ''preferred_org_units''),
                      as_items (field d ''missing_information''), as_number env (field d ''confidence'')) of
                  (Some interests, Some universities, Some cities, Some units, Some missing, Some confidence) \<Rightarrow>
                    Some \<lparr>qu_interests = interests, qu_universities = universities, qu_cities = cities, qu_units = units,
                          qu_degree = field d ''degree_goal'',
                          qu_requirement = field d ''mentor_eligibility_requirement'', qu_missing = missing,
                          qu_unclear = truthy (field d ''needs_clarification''), qu_confidence = confidence\<rparr>
                | _ \<Rightarrow> None)
      | _ \<Rightarrow> None)"

definition blocking_codes :: "string list" where
  "blocking_codes = [''generation_unavailable'', ''schema_validation_failed'', ''json_parse_failed'']"

definition understand_query :: "rec_env \<Rightarrow> string \<Rightarrow> json \<times> string list \<Rightarrow> understanding" where
  "understand_query env query answer =
     (case answer of (out, codes) \<Rightarrow>
        if set codes \<inter> set blocking_codes \<noteq> {} then understanding_fallback env query
        else case coerce_understanding env out of None \<Rightarrow> understanding_fallback env query | Some qu \<Rightarrow> qu)"

text \<open>Terms whose strings are read: a falsy value is skipped, any other value that is no string has no \<open>strip\<close>.\<close>

definition term_text :: "json \<Rightarrow> string option" where
  "term_text v = (case v of JStr s \<Rightarrow> Some s | _ \<Rightarrow> if truthy v then None else Some [])"

definition term_texts :: "json list \<Rightarrow> string list rec_step" where
  "term_texts vs =
     (if None \<in> set (map term_text vs) then rec_stop_with (Escapes ''AttributeError'')
      else rec_return (List.map_filter term_text vs))"

section \<open>The recall loop (core/recall.py)\<close>

record recall_state =
  rl_facts :: "(string, prof_fact) dict"
  rl_hydrated :: "string list"
  rl_survivors :: "vector_hit list"
  rl_diag :: filter_diagnostics
  rl_raw :: nat
  rl_steps :: nat

definition fresh_recall :: recall_state where
  "fresh_recall =
     \<lparr>rl_facts = [], rl_hydrated = [], rl_survivors = [],
      rl_diag = \<lparr>fd_excluded = 0, fd_review = 0, fd_hard = 0, fd_degraded = False\<rparr>, rl_raw = 0, rl_steps = 0\<rparr>"

definition first_hits :: "vector_hit list \<Rightarrow> vector_hit list" where
  "first_hits hs = fold (\<lambda>h out. if vh_entity h \<in> vh_entity ` set out then out else out @ [h]) hs []"

definition dict_update :: "('k, 'v) dict \<Rightarrow> ('k, 'v) dict \<Rightarrow> ('k, 'v) dict" where
  "dict_update new d = fold (\<lambda>(k, v). dict_set k v) new d"

record recall_input =
  rq_env :: rec_env
  rq_ports :: ports
  rq_filters :: rec_filters
  rq_degraded :: bool
  rq_excluded :: "string list"
  rq_review :: string
  rq_limit :: int

definition hydrate_new :: "ports \<Rightarrow> int \<Rightarrow> string list \<Rightarrow> recall_state \<Rightarrow> recall_state rec_step" where
  "hydrate_new ports step new s =
     (if new = [] then rec_return s
      else rec_bind (guarded ''candidate_hydrate'' ''hydrate_unavailable'' (Some step) (\<lambda>n. pt_hydrate ports n new))
             (\<lambda>facts. rec_return (s\<lparr>rl_hydrated := rl_hydrated s @ new, rl_facts := dict_update facts (rl_facts s)\<rparr>)))"

definition recall_step :: "recall_input \<Rightarrow> int \<Rightarrow> recall_state \<Rightarrow> recall_state rec_step" where
  "recall_step x step s =
     rec_bind (guarded ''vector_recall'' ''vector_unavailable'' (Some step) (\<lambda>n. pt_recall (rq_ports x) n (rq_filters x) step))
       (\<lambda>hs.
        let pref = payload_prefilter (rv_rank (rq_env x)) (rq_filters x) (rq_degraded x) (first_hits hs);
            new = filter (\<lambda>e. e \<notin> set (rl_hydrated s)) (map vh_entity pref)
        in rec_bind (hydrate_new (rq_ports x) step new s) (\<lambda>s'.
             let (kept, diag) = final_filter (rq_filters x) (rq_degraded x) (rq_excluded x) (rq_review x) (rl_facts s') pref
             in rec_return (s'\<lparr>rl_survivors := kept, rl_diag := diag, rl_raw := length hs, rl_steps := Suc (rl_steps s)\<rparr>)))"

fun recall_steps :: "recall_input \<Rightarrow> int list \<Rightarrow> recall_state \<Rightarrow> recall_state rec_step" where
  "recall_steps x [] s = rec_return s"
| "recall_steps x (step # steps) s =
     rec_bind (recall_step x step s) (\<lambda>s'.
       if rq_limit x \<le> int (length (rl_survivors s')) then rec_return s' else recall_steps x steps s')"

definition recall_loop :: "recall_input \<Rightarrow> ranking_profile \<Rightarrow> int \<Rightarrow> int \<Rightarrow> recall_state rec_step" where
  "recall_loop x p oversample most = recall_steps x (compute_oversample_steps oversample p most) fresh_recall"

section \<open>Details (core/detail\_fetch.py)\<close>

definition unavailable_details :: "port_error \<Rightarrow> string" where
  "unavailable_details err = ''details_unavailable:'' @ error_name err"

definition record_each :: "string list \<Rightarrow> int \<Rightarrow> port_error \<Rightarrow> unit rec_step" where
  "record_each es attempt err =
     rec_modify (\<lambda>c. c\<lparr>xc_phases := xc_phases c @
       map (\<lambda>e. \<lparr>ph_phase = ''details:'' @ e, ph_attempt = Some attempt, ph_error = Some (unavailable_details err)\<rparr>) es\<rparr>)"

definition fetch_one_attempt ::
    "ports \<Rightarrow> bool \<Rightarrow> string \<Rightarrow> int \<Rightarrow> (prof_detail option \<times> bool) option rec_step" where
  "fetch_one_attempt ports contacts e attempt =
     rec_bind (rec_get (\<lambda>c. pt_detail ports (length (xc_phases c)) e contacts)) (\<lambda>answer.
       let rec = rec_record ''details'' (Some attempt)
       in case answer of
            Inr d \<Rightarrow> rec_bind (rec None) (\<lambda>_. rec_return (Some (Some d, False)))
          | Inl P_missing \<Rightarrow> rec_bind (rec None) (\<lambda>_. rec_return (Some (None, False)))
          | Inl P_cancelled \<Rightarrow> rec_bind (rec (Some ''cancelled'')) (\<lambda>_. rec_stop_with Cancelled)
          | Inl err \<Rightarrow>
              if attempt = 1 \<and> retryable err
              then rec_bind (rec (Some ''details_retry'')) (\<lambda>_. rec_return None)
              else rec_bind (rec (Some ''details_unavailable'')) (\<lambda>_.
                   rec_bind (record_each [e] attempt err) (\<lambda>_. rec_return (Some (None, True)))))"

definition fetch_one :: "ports \<Rightarrow> bool \<Rightarrow> string \<Rightarrow> (prof_detail option \<times> bool) rec_step" where
  "fetch_one ports contacts e =
     rec_bind (fetch_one_attempt ports contacts e 1) (\<lambda>r.
       case r of Some x \<Rightarrow> rec_return x
       | None \<Rightarrow> rec_bind (fetch_one_attempt ports contacts e 2) (\<lambda>r. rec_return (case r of Some x \<Rightarrow> x | None \<Rightarrow> (None, True))))"

type_synonym fetched = "(string, prof_detail option) dict \<times> string list"

fun fetch_each :: "ports \<Rightarrow> bool \<Rightarrow> string list \<Rightarrow> fetched \<Rightarrow> fetched rec_step" where
  "fetch_each ports contacts [] acc = rec_return acc"
| "fetch_each ports contacts (e # es) acc =
     rec_bind (fetch_one ports contacts e) (\<lambda>(d, bad).
       fetch_each ports contacts es (dict_set e d (fst acc), if bad then snd acc @ [e] else snd acc))"

definition fetch_batch_attempt ::
    "(nat \<Rightarrow> string list \<Rightarrow> bool \<Rightarrow> (port_error, (string, prof_detail option) dict) result) \<Rightarrow> bool \<Rightarrow> string list \<Rightarrow> int \<Rightarrow>
     fetched option rec_step" where
  "fetch_batch_attempt port contacts es attempt =
     rec_bind (rec_get (\<lambda>c. port (length (xc_phases c)) es contacts)) (\<lambda>answer.
       let rec = rec_record ''details_batch'' (Some attempt)
       in case answer of
            Inr ds \<Rightarrow> rec_bind (rec None) (\<lambda>_.
              rec_return (Some (fold (\<lambda>e. dict_set e (Option.bind (dict_get ds e) (\<lambda>d. d))) es [], [])))
          | Inl P_missing \<Rightarrow> rec_bind (rec None) (\<lambda>_. rec_return (Some (fold (\<lambda>e. dict_set e None) es [], [])))
          | Inl P_cancelled \<Rightarrow> rec_bind (rec (Some ''cancelled'')) (\<lambda>_. rec_stop_with Cancelled)
          | Inl err \<Rightarrow>
              if attempt = 1 \<and> retryable err
              then rec_bind (rec (Some ''details_retry'')) (\<lambda>_. rec_return None)
              else rec_bind (rec (Some (unavailable_details err))) (\<lambda>_.
                   rec_bind (record_each es attempt err) (\<lambda>_. rec_return (Some (fold (\<lambda>e. dict_set e None) es [], es)))))"

definition fetch_details :: "ports \<Rightarrow> bool \<Rightarrow> string list \<Rightarrow> fetched rec_step" where
  "fetch_details ports contacts es =
     (case pt_details ports of
        None \<Rightarrow> fetch_each ports contacts es ([], [])
      | Some port \<Rightarrow>
          rec_bind (fetch_batch_attempt port contacts es 1) (\<lambda>r.
            case r of Some x \<Rightarrow> rec_return x
            | None \<Rightarrow> rec_bind (fetch_batch_attempt port contacts es 2) (\<lambda>r.
                rec_return (case r of Some x \<Rightarrow> x | None \<Rightarrow> (fold (\<lambda>e. dict_set e None) es [], es)))))"

section \<open>Explanations and cards (core/explanation.py, core/cards.py)\<close>

definition text_no_detail :: string where
  "text_no_detail =
     [CHR 0xE7, CHR 0xBB, CHR 0xBC, CHR 0xE5, CHR 0x90, CHR 0x88, CHR 0xE5, CHR 0x8C, CHR 0xB9, CHR 0xE9, CHR 0x85,
     CHR 0x8D, CHR 0xE4, CHR 0xBF, CHR 0xA1, CHR 0xE5, CHR 0x8F, CHR 0xB7, CHR 0xE8, CHR 0xBE, CHR 0x83, CHR 0xE9,
     CHR 0xAB, CHR 0x98, CHR 0xEF, CHR 0xBC, CHR 0x9B, CHR 0xE5, CHR 0xBD, CHR 0x93, CHR 0xE5, CHR 0x89, CHR 0x8D,
     CHR 0xE7, CHR 0xBC, CHR 0xBA, CHR 0xE5, CHR 0xB0, CHR 0x91, CHR 0xE5, CHR 0x8F, CHR 0xAF, CHR 0xE5, CHR 0x9B,
     CHR 0x9E, CHR 0xE6, CHR 0xBA, CHR 0xAF, CHR 0xE8, CHR 0xAF, CHR 0xA6, CHR 0xE6, CHR 0x83, CHR 0x85, CHR 0xE8,
     CHR 0xAF, CHR 0x81, CHR 0xE6, CHR 0x8D, CHR 0xAE]"

definition text_no_direction :: string where
  "text_no_direction =
     [CHR 0xE6, CHR 0x9C, CHR 0xAA, CHR 0xE6, CHR 0x89, CHR 0xBE, CHR 0xE5, CHR 0x88, CHR 0xB0, CHR 0xE4, CHR 0xB8,
     CHR 0x8E, CHR 0xE6, CHR 0x9F, CHR 0xA5, CHR 0xE8, CHR 0xAF, CHR 0xA2, CHR 0xE6, CHR 0x96, CHR 0xB9, CHR 0xE5,
     CHR 0x90, CHR 0x91, CHR 0xE7, CHR 0x9B, CHR 0xB4, CHR 0xE6, CHR 0x8E, CHR 0xA5, CHR 0xE5, CHR 0xAF, CHR 0xB9,
     CHR 0xE5, CHR 0xBA, CHR 0x94, CHR 0xE7, CHR 0x9A, CHR 0x84, CHR 0xE7, CHR 0xA0, CHR 0x94, CHR 0xE7, CHR 0xA9,
     CHR 0xB6, CHR 0xE8, CHR 0xAF, CHR 0x81, CHR 0xE6, CHR 0x8D, CHR 0xAE, CHR 0xEF, CHR 0xBC, CHR 0x8C, CHR 0xE4,
     CHR 0xBB, CHR 0x85, CHR 0xE4, CHR 0xBD, CHR 0x9C, CHR 0xE4, CHR 0xB8, CHR 0xBA, CHR 0xE8, CHR 0xAF, CHR 0xAD,
     CHR 0xE4, CHR 0xB9, CHR 0x89, CHR 0xE8, CHR 0xBF, CHR 0x91, CHR 0xE9, CHR 0x82, CHR 0xBB, CHR 0xE5, CHR 0x8F,
     CHR 0x82, CHR 0xE8, CHR 0x80, CHR 0x83]"

definition text_topics :: string where
  "text_topics =
     [CHR 0xE7, CHR 0xA0, CHR 0x94, CHR 0xE7, CHR 0xA9, CHR 0xB6, CHR 0xE6, CHR 0x96, CHR 0xB9, CHR 0xE5, CHR 0x90,
     CHR 0x91, CHR 0xE5, CHR 0x8C, CHR 0xB9, CHR 0xE9, CHR 0x85, CHR 0x8D, CHR 0x3A, CHR 0x20]"

definition text_statement :: string where
  "text_statement =
     [CHR 0xE7, CHR 0xA0, CHR 0x94, CHR 0xE7, CHR 0xA9, CHR 0xB6, CHR 0xE9, CHR 0x99, CHR 0x88, CHR 0xE8, CHR 0xBF,
     CHR 0xB0, CHR 0xE5, CHR 0x91, CHR 0xBD, CHR 0xE4, CHR 0xB8, CHR 0xAD, CHR 0x3A, CHR 0x20]"

definition text_summary :: string where
  "text_summary =
     [CHR 0xE7, CHR 0xA0, CHR 0x94, CHR 0xE7, CHR 0xA9, CHR 0xB6, CHR 0xE6, CHR 0x91, CHR 0x98, CHR 0xE8, CHR 0xA6,
     CHR 0x81, CHR 0xE5, CHR 0x91, CHR 0xBD, CHR 0xE4, CHR 0xB8, CHR 0xAD, CHR 0x3A, CHR 0x20]"

definition text_publication :: string where
  "text_publication =
     [CHR 0xE4, CHR 0xBB, CHR 0xA3, CHR 0xE8, CHR 0xA1, CHR 0xA8, CHR 0xE6, CHR 0x88, CHR 0x90, CHR 0xE6, CHR 0x9E,
     CHR 0x9C, CHR 0xE5, CHR 0x91, CHR 0xBD, CHR 0xE4, CHR 0xB8, CHR 0xAD, CHR 0x3A, CHR 0x20]"

definition text_semantic :: string where
  "text_semantic =
     [CHR 0xE8, CHR 0xAF, CHR 0xAD, CHR 0xE4, CHR 0xB9, CHR 0x89, CHR 0xE5, CHR 0x8F, CHR 0xAC, CHR 0xE5, CHR 0x9B,
     CHR 0x9E, CHR 0xE5, CHR 0x8C, CHR 0xB9, CHR 0xE9, CHR 0x85, CHR 0x8D, CHR 0xEF, CHR 0xBC, CHR 0x8C, CHR 0xE6,
     CHR 0x9C, CHR 0xAA, CHR 0xE6, CHR 0x89, CHR 0xBE, CHR 0xE5, CHR 0x88, CHR 0xB0, CHR 0xE7, CHR 0xB2, CHR 0xBE,
     CHR 0xE7, CHR 0xA1, CHR 0xAE, CHR 0xE6, CHR 0x96, CHR 0xB9, CHR 0xE5, CHR 0x90, CHR 0x91, CHR 0xE8, CHR 0xAF,
     CHR 0x81, CHR 0xE6, CHR 0x8D, CHR 0xAE, CHR 0x20, CHR 0x28, CHR 0x73, CHR 0x63, CHR 0x6F, CHR 0x72, CHR 0x65,
     CHR 0x3D]"

definition text_missing :: string where
  "text_missing =
     [CHR 0xE8, CHR 0xA1, CHR 0xA5, CHR 0xE5, CHR 0x85, CHR 0x85, CHR 0xE4, CHR 0xBF, CHR 0xA1, CHR 0xE6, CHR 0x81,
     CHR 0xAF, CHR 0x3A, CHR 0x20]"

definition text_school :: string where
  "text_school =
     [CHR 0xE8, CHR 0xA1, CHR 0xA5, CHR 0xE5, CHR 0x85, CHR 0x85, CHR 0xE5, CHR 0xAD, CHR 0xA6, CHR 0xE6, CHR 0xA0,
     CHR 0xA1, CHR 0xE5, CHR 0x81, CHR 0x8F, CHR 0xE5, CHR 0xA5, CHR 0xBD]"

definition text_degree :: string where
  "text_degree =
     [CHR 0xE6, CHR 0x98, CHR 0x8E, CHR 0xE7, CHR 0xA1, CHR 0xAE, CHR 0xE5, CHR 0x8D, CHR 0x87, CHR 0xE5, CHR 0xAD,
     CHR 0xA6, CHR 0xE9, CHR 0x98, CHR 0xB6, CHR 0xE6, CHR 0xAE, CHR 0xB5]"

record explanation =
  xl_reasons :: "string list"
  xl_refs :: "source_ref list"
  xl_topics :: "string list"
  xl_statements :: "string list"
  xl_publications :: "string list"
  xl_weak :: bool

definition no_detail_explanation :: explanation where
  "no_detail_explanation =
     \<lparr>xl_reasons = [text_no_detail], xl_refs = [], xl_topics = [], xl_statements = [], xl_publications = [],
      xl_weak = True\<rparr>"

definition url_ref :: "string \<Rightarrow> source_ref" where
  "url_ref url =
     new_source_ref \<lparr>rf_doc_path = url, rf_heading_path = [], rf_chunk_hash = [], rf_quote = url,
                     rf_official_url = None, rf_last_verified = None\<rparr>"

definition reasons_of :: "rec_env \<Rightarrow> bool \<Rightarrow> rank_entry \<Rightarrow> string list \<Rightarrow> string list \<Rightarrow> string option \<Rightarrow> string list \<Rightarrow> string list" where
  "reasons_of env unsupported k topics statements summary publications =
     (let r1 = (if unsupported then [text_no_direction]
                else if topics \<noteq> [] then [text_topics @ join_with '', '' (take 3 topics)] else []);
          r2 = r1 @ (if \<not> unsupported \<and> statements \<noteq> [] then [text_statement @ take_chars 60 (hd statements)] else []);
          r3 = r2 @ (if \<not> unsupported \<and> summary \<noteq> None \<and> r2 = [] then [text_summary @ take_chars 60 (the summary)] else []);
          r4 = r3 @ (if \<not> unsupported \<and> publications \<noteq> [] then [text_publication @ take_chars 60 (hd publications)] else [])
      in if r4 = [] then [text_semantic @ rv_two env (ke_score k) @ '')''] else r4)"

definition build_explanation ::
    "rec_env \<Rightarrow> rank_entry \<Rightarrow> prof_fact option \<Rightarrow> prof_detail option \<Rightarrow> string list \<Rightarrow> explanation" where
  "build_explanation env k fo detail query =
     (case detail of
        None \<Rightarrow> no_detail_explanation
      | Some d \<Rightarrow>
          (let low = rank_lower (rv_rank env);
               terms = map low (filter (\<lambda>t. t \<noteq> []) query);
               named = (\<lambda>s. \<exists>t \<in> set terms. py_in t (low s));
               topics = filter named (pd_topics d);
               statements = filter named (pd_statements d);
               publications = filter named (pd_publications d);
               summary = (case Option.bind fo pf_summary of None \<Rightarrow> None | Some s \<Rightarrow> if s \<noteq> [] \<and> named s then Some s else None);
               unsupported = (terms \<noteq> [] \<and> co_direction (ke_components k) \<le> 0);
               refs = (if pd_refs d \<noteq> [] then pd_refs d else map url_ref (take 5 (pd_sources d)))
           in \<lparr>xl_reasons = reasons_of env unsupported k topics statements summary publications, xl_refs = refs,
               xl_topics = topics, xl_statements = statements, xl_publications = publications,
               xl_weak = (unsupported \<or> refs = [])\<rparr>))"

definition card_actions :: "string list" where
  "card_actions = [''detail'', ''match'', ''email'', ''compare'', ''favorite'', ''follow_up'']"

text \<open>A field of the fact, else of the detail, else the default.\<close>

definition pick :: "('f \<Rightarrow> 'v) \<Rightarrow> ('d \<Rightarrow> 'v) \<Rightarrow> 'v \<Rightarrow> 'f option \<Rightarrow> 'd option \<Rightarrow> 'v" where
  "pick f g dflt fo detail = (case fo of Some x \<Rightarrow> f x | None \<Rightarrow> (case detail of Some d \<Rightarrow> g d | None \<Rightarrow> dflt))"

definition assemble_card :: "rank_entry \<Rightarrow> prof_fact option \<Rightarrow> prof_detail option \<Rightarrow> explanation \<Rightarrow> card" where
  "assemble_card k fo detail x =
     (let bare = (xl_topics x = [] \<and> xl_statements x = []);
          topics = (case detail of Some d \<Rightarrow> if bare then take 3 (pd_topics d) else xl_topics x | None \<Rightarrow> xl_topics x);
          statements = (case detail of Some d \<Rightarrow> if bare \<and> topics = [] then take 3 (pd_statements d) else xl_statements x
                        | None \<Rightarrow> xl_statements x)
      in \<lparr>cd_entity = ke_entity k, cd_name = pick pf_name pd_name (ke_entity k) fo detail,
          cd_university = pick pf_university pd_university [] fo detail, cd_units = pick pf_units pd_units [] fo detail,
          cd_title = pick pf_title pd_title [] fo detail, cd_family = pick pf_family pd_family ''professor'' fo detail,
          cd_master = pick pf_master pd_master ''unknown'' fo detail, cd_phd = pick pf_phd pd_phd ''unknown'' fo detail,
          cd_role = pick pf_role pd_role ''included'' fo detail, cd_url = pick pf_url pd_url None fo detail,
          cd_summary = Option.bind fo pf_summary, cd_level = ke_level k, cd_reasons = xl_reasons x,
          cd_score = ke_score k, cd_components = ke_components k, cd_topics = topics, cd_statements = statements,
          cd_publications = xl_publications x, cd_refs = xl_refs x,
          cd_risks = (case fo of Some f \<Rightarrow> if pf_role f = ''review'' then [''role_status_review''] else [] | None \<Rightarrow> []),
          cd_actions = card_actions\<rparr>)"

section \<open>The pinned pipeline (core/service.py)\<close>

record service =
  sv_env :: rec_env
  sv_settings :: rec_settings
  sv_org_units :: "string \<Rightarrow> bool"

definition read_profile :: "ports \<Rightarrow> nat \<Rightarrow> (port_error, ranking_profile) result" where
  "read_profile ports n =
     res_bind (pt_ranking ports n) (\<lambda>p. if profile_valid p then Inr p else Inl (P_broken ''ValueError''))"

definition searching :: "route \<Rightarrow> bool" where
  "searching ro = (ro_intent ro \<in> {''new_search'', ''refine_direction''})"

definition preferred_cities :: "rec_env \<Rightarrow> understanding \<Rightarrow> string list" where
  "preferred_cities env qu = normalize_city_names (map (\<lambda>v. str_or (payload_text (rv_rank env) v) []) (qu_cities qu))"

definition effective_filters :: "rec_env \<Rightarrow> rec_request \<Rightarrow> understanding \<Rightarrow> route \<Rightarrow> rec_filters" where
  "effective_filters env rq qu ro =
     (let fl = rr_filters rq; cities = normalize_city_names (fl_cities fl)
      in fl\<lparr>fl_cities := (if searching ro \<and> cities = [] \<and> qu_cities qu \<noteq> [] then preferred_cities env qu else cities)\<rparr>)"

definition relaxed_filters :: "rec_request \<Rightarrow> understanding \<Rightarrow> route \<Rightarrow> rec_filters \<Rightarrow> rec_filters option" where
  "relaxed_filters rq qu ro fl =
     (if searching ro \<and> fl_cities (rr_filters rq) = [] \<and> qu_cities qu \<noteq> [] \<and> fl_cities fl \<noteq> []
      then Some (fl\<lparr>fl_cities := []\<rparr>) else None)"

definition ascii_alpha :: "char \<Rightarrow> bool" where
  "ascii_alpha ch = (let n = (of_char ch :: nat) in 65 \<le> n \<and> n \<le> 90 \<or> 97 \<le> n \<and> n \<le> 122)"

definition language_summary :: "rec_env \<Rightarrow> string \<Rightarrow> string" where
  "language_summary env text =
     (if rv_cjk env text then (if list_ex ascii_alpha text then ''mixed'' else ''zh'') else ''en'')"

definition list_repr :: "rec_env \<Rightarrow> string list \<Rightarrow> string" where
  "list_repr env vs = ''['' @ join_with '', '' (map (te_repr (rk_text (rv_rank env))) vs) @ '']''"

definition filter_summary :: "rec_env \<Rightarrow> rec_filters \<Rightarrow> string" where
  "filter_summary env fl =
     (let parts = (\<lambda>name vs. if vs = [] then [] else [name @ ''='' @ list_repr env vs]);
          all = parts ''university_ids'' (fl_universities fl) @ parts ''org_unit_ids'' (fl_units fl) @
                parts ''city_names'' (fl_cities fl) @
                (if fl_master fl = ''confirmed'' then [''master=confirmed''] else []) @
                (if fl_phd fl = ''confirmed'' then [''phd=confirmed''] else [])
      in if all = [] then ''none'' else join_with '', '' all)"

definition is_text :: "json \<Rightarrow> bool" where
  "is_text v = (case v of JStr s \<Rightarrow> True | _ \<Rightarrow> False)"

definition suggested_followups :: "understanding \<Rightarrow> string list rec_step" where
  "suggested_followups qu =
     (let named = take 2 (qu_missing qu);
          rest = (if qu_universities qu = [] then [text_school] else []) @ (if truthy (qu_degree qu) then [] else [text_degree])
      in if \<not> list_all is_text named then rec_stop_with (Escapes ''TypeError'')
         else rec_return (take 3 ((if qu_missing qu = [] then []
                                   else [text_missing @ join_with '', '' (List.map_filter term_text named)]) @ rest)))"

text \<open>The topics of the anchor of a same-field request; \<open>None\<close> when it is not available.\<close>

definition anchor_topics :: "rec_request \<Rightarrow> prof_fact option \<Rightarrow> string list option" where
  "anchor_topics rq fo =
     (case fo of
        None \<Rightarrow> None
      | Some f \<Rightarrow>
          if pf_role f = ''excluded'' \<or> pf_role f = ''review'' \<and> rr_review rq \<noteq> ''include_downranked'' \<or> pf_topic_ids f = []
          then None else Some (pf_topic_ids f))"

record candidates =
  ca_survivors :: "vector_hit list"
  ca_facts :: "(string, prof_fact) dict"
  ca_relaxed :: "string list"
  ca_degraded :: bool
  ca_recall :: nat
  ca_steps :: nat

definition gather_candidates ::
    "recall_input \<Rightarrow> ranking_profile \<Rightarrow> rec_request \<Rightarrow> int \<Rightarrow> rec_filters option \<Rightarrow> candidates rec_step" where
  "gather_candidates x p rq most relaxed =
     rec_bind (recall_loop x p (rr_oversample rq) most) (\<lambda>s.
       let strict = \<lparr>ca_survivors = rl_survivors s, ca_facts = rl_facts s, ca_relaxed = [],
                     ca_degraded = fd_degraded (rl_diag s), ca_recall = rl_raw s, ca_steps = rl_steps s\<rparr>
       in case relaxed of
            None \<Rightarrow> rec_return strict
          | Some fl \<Rightarrow>
              if rr_limit rq \<le> int (length (rl_survivors s)) then rec_return strict
              else rec_bind (recall_loop (x\<lparr>rq_filters := fl\<rparr>) p (rr_oversample rq) most) (\<lambda>t.
                let extras = filter (\<lambda>h. vh_entity h \<notin> vh_entity ` set (rl_survivors s)) (rl_survivors t)
                in rec_return (strict\<lparr>ca_survivors := rl_survivors s @ extras, ca_facts := dict_update (rl_facts t) (rl_facts s),
                     ca_relaxed := map vh_entity extras,
                     ca_degraded := (fd_degraded (rl_diag s) \<or> fd_degraded (rl_diag t)),
                     ca_recall := max (rl_raw s) (rl_raw t), ca_steps := rl_steps s + rl_steps t\<rparr>)))"

definition relax_card :: "string list \<Rightarrow> card \<Rightarrow> card" where
  "relax_card relaxed k =
     (if cd_entity k \<in> set relaxed then k\<lparr>cd_risks := dedup (cd_risks k @ [''location_relaxed''])\<rparr> else k)"

definition strict_first :: "string list \<Rightarrow> rank_entry list \<Rightarrow> rank_entry list" where
  "strict_first relaxed ks =
     filter (\<lambda>k. ke_entity k \<notin> set relaxed) ks @ filter (\<lambda>k. ke_entity k \<in> set relaxed) ks"

definition result_cards :: "rec_env \<Rightarrow> rank_input \<Rightarrow> string list \<Rightarrow> rank_entry list \<Rightarrow> (card \<times> bool) list" where
  "result_cards env ri relaxed ks =
     map (\<lambda>k. let fo = fact_of ri (ke_entity k); d = detail_of ri (ke_entity k);
                  xl = build_explanation env k fo d (ri_terms ri)
              in (relax_card relaxed (assemble_card k fo d xl), xl_weak xl)) ks"

definition result_warnings ::
    "candidates \<Rightarrow> rec_filters \<Rightarrow> int \<Rightarrow> nat \<Rightarrow> bool \<Rightarrow> nat \<Rightarrow> rec_warning list" where
  "result_warnings ca fl limit returned weak failures =
     (if ca_degraded ca \<and> fl_units fl \<noteq> []
      then [rec_warn ''org_unit_filter_unavailable'' ''org_unit hard filter degraded (coverage unavailable)''] else []) @
     (if ca_relaxed ca \<noteq> []
      then [rec_warn ''preference_relaxed'' ''preferred location filters were relaxed to fill results''] else []) @
     (if weak then [rec_warn ''weak_explanation'' ''one or more results lack traceable evidence''] else []) @
     (if int returned < limit
      then [rec_warn ''no_candidates_after_filters'' (''returned '' @ nat_str returned @ '' < limit '' @ int_str limit)] else []) @
     (if failures \<noteq> 0
      then [rec_warn ''details_unavailable'' (nat_str failures @ '' detail(s) unavailable; degraded'')] else [])"

definition answer_candidates ::
    "service \<Rightarrow> ports \<Rightarrow> rec_request \<Rightarrow> bool \<Rightarrow> snapshot \<Rightarrow> string \<Rightarrow> ranking_profile \<Rightarrow> understanding \<Rightarrow> string list \<Rightarrow>
     rec_filters \<Rightarrow> candidates \<Rightarrow> response rec_step" where
  "answer_candidates sv ports rq contacts snap generation p qu anchors fl ca =
     (let env = sv_env sv;
          window = map vh_entity (take (nat (rp_window p)) (ca_survivors ca));
          diag = \<lparr>qd_length = py_len (rr_query rq), qd_language = Some (language_summary env (rr_query rq)),
                  qd_filters = Some (filter_summary env fl), qd_recall = ca_recall ca,
                  qd_filtered = length (ca_survivors ca), qd_returned = 0, qd_steps = ca_steps ca\<rparr>
      in rec_bind (fetch_details ports contacts window) (\<lambda>(details, failed).
         rec_bind (term_texts (qu_interests qu)) (\<lambda>terms.
         let ri = \<lparr>ri_facts = ca_facts ca, ri_details = details, ri_semantic = normalize_rrf (ca_survivors ca),
                   ri_student = rr_student rq, ri_profile = p, ri_terms = terms, ri_anchor = anchors\<rparr>
         in case rerank (rv_rank env) ri window of
              Inl e \<Rightarrow> rec_stop_with (Escapes ''ValueError'')
            | Inr ranked \<Rightarrow>
                (let top = take (nat (rr_limit rq)) (strict_first (ca_relaxed ca) ranked);
                     cards = result_cards env ri (ca_relaxed ca) top;
                     failures = length (filter (\<lambda>e. e \<in> set failed) window)
                 in rec_bind (suggested_followups qu) (\<lambda>followups.
                    rec_bind (rec_get (\<lambda>c.
                      \<lparr>rs_build = sn_build snap, rs_profile = rp_version p, rs_fingerprint = str_or (xc_fingerprint c) [],
                       rs_taxonomy = sn_taxonomy snap, rs_understanding = qu,
                       rs_query = diag\<lparr>qd_returned := length cards\<rparr>, rs_results = map fst cards,
                       rs_followups = followups,
                       rs_warnings = xc_warnings c @
                         result_warnings ca fl (rr_limit rq) (length cards) (list_ex snd cards) failures,
                       rs_generation = Some generation, rs_phases = xc_phases c\<rparr>)) checked)))))"

definition no_candidates ::
    "service \<Rightarrow> rec_request \<Rightarrow> ranking_profile \<Rightarrow> string \<Rightarrow> rec_filters \<Rightarrow> candidates \<Rightarrow> response rec_step" where
  "no_candidates sv rq p fingerprint fl ca =
     rec_bind (fail_with False (Some p) (Some fingerprint) []
                 (rec_warn ''no_candidates_after_filters'' ''no candidates after filters''))
       (\<lambda>r. checked (r\<lparr>rs_query :=
          \<lparr>qd_length = py_len (rr_query rq), qd_language = Some (language_summary (sv_env sv) (rr_query rq)),
           qd_filters = Some (filter_summary (sv_env sv) fl), qd_recall = ca_recall ca, qd_filtered = 0,
           qd_returned = 0, qd_steps = ca_steps ca\<rparr>\<rparr>))"

text \<open>\<open>ranked\<close> is what follows once the anchor is settled: embedding, recall, ranking, answer.\<close>

definition search_and_rank ::
    "service \<Rightarrow> ports \<Rightarrow> rec_request \<Rightarrow> bool \<Rightarrow> snapshot \<Rightarrow> string \<Rightarrow> ranking_profile \<Rightarrow> understanding \<Rightarrow> route \<Rightarrow> string list \<Rightarrow>
     response rec_step" where
  "search_and_rank sv ports rq contacts snap generation p qu ro anchors =
     rec_bind (guarded ''embedding'' ''embedding_unavailable'' None (\<lambda>n. pt_embed ports n (rr_query rq))) (\<lambda>fingerprint.
     rec_bind (rec_modify (\<lambda>c. c\<lparr>xc_fingerprint := Some fingerprint\<rparr>)) (\<lambda>_.
       if fingerprint \<noteq> sn_fingerprint snap
       then fail_with False (Some p) (Some fingerprint) []
              (terminal_issue ''embedding_fingerprint_mismatch'' ''embedding fingerprint != snapshot'')
       else
         (let fl = effective_filters (sv_env sv) rq qu ro;
              x = \<lparr>rq_env = sv_env sv, rq_ports = ports, rq_filters = fl, rq_degraded = \<not> sv_org_units sv (sn_build snap),
                   rq_excluded = ro_exclude ro, rq_review = rr_review rq, rq_limit = rr_limit rq\<rparr>
          in rec_bind (gather_candidates x p rq (st_oversample_max (sv_settings sv)) (relaxed_filters rq qu ro fl)) (\<lambda>ca.
             if ca_survivors ca = [] then no_candidates sv rq p fingerprint fl ca
             else answer_candidates sv ports rq contacts snap generation p qu anchors fl ca))))"

definition recommend_pinned ::
    "service \<Rightarrow> ports \<Rightarrow> rec_request \<Rightarrow> viewer \<Rightarrow> snapshot \<Rightarrow> string \<Rightarrow> response rec_step" where
  "recommend_pinned sv ports rq vw snap generation =
     (let env = sv_env sv; ro = resolve_recommend_route (rv_rank env) rq; contacts = (rr_contacts rq \<and> vw_contacts vw)
      in rec_bind (rec_modify (\<lambda>c. c\<lparr>xc_snapshot := Some snap, xc_warnings := xc_warnings c @ ro_warnings ro\<rparr>)) (\<lambda>_.
         if ro_detail ro
         then fail_with True None None []
                (terminal_issue ''invalid_conversation_state'' ''detail_followup must go through ConversationDispatcher'')
         else if ro_terminal ro \<noteq> []
         then fail_with True None None (tl (ro_terminal ro)) (hd (ro_terminal ro))
         else
           rec_bind (guarded ''ranking_profile'' ''ranking_profile_unavailable'' None (read_profile ports)) (\<lambda>p.
           rec_bind (rec_modify (\<lambda>c. c\<lparr>xc_profile := Some p\<rparr>)) (\<lambda>_.
           rec_bind (guarded ''query_understanding'' ''llm_unavailable'' None (pt_understand ports)) (\<lambda>answer.
           let qu = understand_query env (rr_query rq) answer
           in if qu_unclear qu
              then fail_with True (Some p) (Some (sn_fingerprint snap)) []
                     (rec_warn ''needs_clarification'' ''query needs clarification; recall skipped'')
              else if ro_intent ro = ''same_field'' \<and> truthy_str (ro_anchor ro)
              then rec_bind (guarded ''anchor_hydrate'' ''hydrate_unavailable'' None
                               (\<lambda>n. pt_hydrate ports n [the (ro_anchor ro)])) (\<lambda>found.
                case anchor_topics rq (dict_get found (the (ro_anchor ro))) of
                  None \<Rightarrow> fail_with True (Some p) (Some (sn_fingerprint snap)) []
                            (terminal_issue ''anchor_not_in_active_build'' ''anchor is not available in the ACTIVE build'')
                | Some topics \<Rightarrow>
                    search_and_rank sv ports rq contacts snap generation p qu
                      (ro\<lparr>ro_exclude := dedup (ro_exclude ro @ [the (ro_anchor ro)])\<rparr>) topics)
              else search_and_rank sv ports rq contacts snap generation p qu ro [])))))"

definition recommend_with_pins :: "service \<Rightarrow> ports \<Rightarrow> rec_request \<Rightarrow> viewer \<Rightarrow> response rec_step" where
  "recommend_with_pins sv ports rq vw =
     rec_bind (guarded ''snapshot'' ''active_build_unavailable'' None (pt_snapshot ports)) (\<lambda>found.
       case found of
         None \<Rightarrow> fail_with False None None [] (terminal_issue ''active_build_unavailable'' ''no ACTIVE build'')
       | Some snap \<Rightarrow>
           rec_bind (rec_modify (\<lambda>c. c\<lparr>xc_snapshot := Some snap\<rparr>)) (\<lambda>_.
           rec_bind (guarded ''generation_profile'' ''generation_unavailable'' None (pt_generation ports)) (\<lambda>generation.
           rec_bind (rec_modify (\<lambda>c. c\<lparr>xc_generation := Some generation\<rparr>)) (\<lambda>_.
             recommend_pinned sv ports rq vw snap generation))))"

section \<open>The service (core/service.py)\<close>

definition early_error :: "rec_warning \<Rightarrow> (string, response) result" where
  "early_error w = fst (map_prod (map_sum (\<lambda>_. ''ValueError'') (\<lambda>r. r)) (\<lambda>c. c)
     (checked (error_response None None None w None [] []) fresh_context))"

definition close_run :: "service \<Rightarrow> (rec_stop, response) result \<times> rec_context \<Rightarrow> (string, response) result" where
  "close_run sv run =
     (case run of
        (Inr r, c) \<Rightarrow> Inr r
      | (Inl (Escapes e), c) \<Rightarrow> Inl e
      | (Inl Cancelled, c) \<Rightarrow>
          Inr (error_response (xc_snapshot c) (xc_profile c) (xc_fingerprint c)
                 (terminal_issue ''request_timeout'' (''recommend exceeded '' @ st_timeout (sv_settings sv) @ ''s''))
                 (xc_generation c) (xc_phases c) (xc_warnings c))
      | (Inl (Classified code phase), c) \<Rightarrow>
          Inr (error_response (xc_snapshot c) (xc_profile c) (xc_fingerprint c)
                 (terminal_issue code (phase @ '' failed'')) (xc_generation c) (xc_phases c) (xc_warnings c)))"

text \<open>The refusal of the safety guard; its errors are those of a rule file without the domain or a message.\<close>

definition refusal_of :: "service \<Rightarrow> rec_request \<Rightarrow> (string, string option) result" where
  "refusal_of sv rq =
     (case inspect_input (rk_text (rv_rank (sv_env sv))) (rv_rules (sv_env sv)) ''recommend'' (Some ''recommendation'')
             (Some ''mentor'') (JStr []) (JDict [(''query_text'', JStr (rr_query rq))]) of
        Inl (Value_error m) \<Rightarrow> Inl ''ValueError''
      | Inl (Key_error m) \<Rightarrow> Inl ''KeyError''
      | Inr None \<Rightarrow> Inr None
      | Inr (Some g) \<Rightarrow> (case gx_warnings g of [] \<Rightarrow> Inl ''IndexError'' | w # _ \<Rightarrow> Inr (Some (gw_message w))))"

definition admit_context :: "service \<Rightarrow> rec_request \<Rightarrow> (rec_warning, rec_request) result" where
  "admit_context sv rq =
     (case rr_context rq of
        None \<Rightarrow> Inr rq
      | Some cx \<Rightarrow>
          (case validate_context (rv_rank (sv_env sv)) True cx of
             Inl (code, m) \<Rightarrow> Inl (terminal_issue code m)
           | Inr cx' \<Rightarrow>
               if cx_intent cx' = Some ''detail_followup''
               then Inl (terminal_issue ''invalid_conversation_state'' ''detail_followup must go through ConversationDispatcher'')
               else Inr (rq\<lparr>rr_context := Some cx'\<rparr>)))"

definition recommend :: "service \<Rightarrow> ports \<Rightarrow> rec_request \<Rightarrow> viewer \<Rightarrow> (string, response) result" where
  "recommend sv ports rq vw =
     (case validate_request (rv_rank (sv_env sv)) (sv_settings sv) rq of
        Some m \<Rightarrow> early_error (terminal_issue ''invalid_request'' m)
      | None \<Rightarrow>
          res_bind (refusal_of sv rq) (\<lambda>refused.
            case refused of
              Some m \<Rightarrow> early_error (terminal_issue ''content_policy_refusal'' m)
            | None \<Rightarrow>
                if rr_contacts rq \<and> \<not> vw_contacts vw
                then early_error (terminal_issue ''unauthorized_contact'' ''include_contacts requested without permission'')
                else if rr_review rq = ''include_downranked'' \<and> \<not> vw_review vw
                then early_error (terminal_issue ''unauthorized_review'' ''include_downranked requested without permission'')
                else case admit_context sv rq of
                       Inl w \<Rightarrow> early_error w
                     | Inr rq' \<Rightarrow> close_run sv (recommend_with_pins sv ports rq' vw fresh_context)))"

end
