(* ===== verification/Dext_Answers.thy ===== *)
theory Dext_Answers
  imports Dext_Recommend
begin

text \<open>
  What a recommendation promises (\<open>Dext_Recommend\<close>). A Hoare logic for the steps of the pipeline carries two
  facts at once: the candidates stay those the filters admit, and nothing but a classified failure ends a request
  when the model names its terms as strings.
\<close>

section \<open>A Hoare logic for the pipeline\<close>

text \<open>\<open>u\<close> tells whether an exception that nothing catches is ruled out.\<close>

definition ends_ok :: "bool \<Rightarrow> rec_stop \<Rightarrow> bool" where
  "ends_ok u e = (case e of Classified code ph \<Rightarrow> code \<noteq> [] | Cancelled \<Rightarrow> True | Escapes x \<Rightarrow> \<not> u)"

definition rec_hoare :: "bool \<Rightarrow> (rec_context \<Rightarrow> bool) \<Rightarrow> 'a rec_step \<Rightarrow> ('a \<Rightarrow> rec_context \<Rightarrow> bool) \<Rightarrow> bool" where
  "rec_hoare u P m Q =
     (\<forall>c. P c \<longrightarrow> (case m c of (Inr a, c') \<Rightarrow> Q a c' | (Inl e, c') \<Rightarrow> ends_ok u e \<and> xc_warnings c' = []))"

type_synonym pin = "snapshot option \<times> string option"

definition pinned :: "pin \<Rightarrow> rec_context \<Rightarrow> bool" where
  "pinned pin c = (xc_warnings c = [] \<and> (xc_snapshot c, xc_fingerprint c) = pin)"

definition runs :: "bool \<Rightarrow> pin \<Rightarrow> 'a rec_step \<Rightarrow> ('a \<Rightarrow> bool) \<Rightarrow> bool" where
  "runs u fp m B = rec_hoare u (pinned fp) m (\<lambda>a c. B a \<and> pinned fp c)"

lemma pinned_phases [simp]: "pinned fp (c\<lparr>xc_phases := ps\<rparr>) = pinned fp c"
  by (simp add: pinned_def)

lemma rec_hoareI:
  assumes "\<And>c a c'. P c \<Longrightarrow> m c = (Inr a, c') \<Longrightarrow> Q a c'"
    and "\<And>c e c'. P c \<Longrightarrow> m c = (Inl e, c') \<Longrightarrow> ends_ok u e \<and> xc_warnings c' = []"
  shows "rec_hoare u P m Q"
  using assms by (simp add: rec_hoare_def split: prod.split sum.split)

lemma rec_hoareD:
  assumes "rec_hoare u P m Q" and "P c"
  shows "m c = (Inr a, c') \<Longrightarrow> Q a c'" and "m c = (Inl e, c') \<Longrightarrow> ends_ok u e \<and> xc_warnings c' = []"
  using assms by (simp_all add: rec_hoare_def split: prod.split_asm sum.split_asm)

lemma hoare_bind:
  assumes m: "rec_hoare u P m R" and f: "\<And>a. rec_hoare u (R a) (f a) Q"
  shows "rec_hoare u P (rec_bind m f) Q"
proof (rule rec_hoareI)
  fix c b c'
  assume c: "P c" and run: "rec_bind m f c = (Inr b, c')"
  then obtain a c1 where a: "m c = (Inr a, c1)" "f a c1 = (Inr b, c')"
    by (simp add: rec_bind_def split: prod.split_asm sum.split_asm)
  show "Q b c'" by (rule rec_hoareD(1) [OF f rec_hoareD(1) [OF m c a(1)] a(2)])
next
  fix c e c'
  assume c: "P c" and run: "rec_bind m f c = (Inl e, c')"
  then consider "m c = (Inl e, c')" | a c1 where "m c = (Inr a, c1)" "f a c1 = (Inl e, c')"
    by (simp add: rec_bind_def split: prod.split_asm sum.split_asm)
  then show "ends_ok u e \<and> xc_warnings c' = []"
  proof cases
    case 1 then show ?thesis by (rule rec_hoareD(2) [OF m c])
  next
    case 2 then show ?thesis by (metis rec_hoareD [OF m c] rec_hoareD(2) [OF f])
  qed
qed

lemma hoare_mono: "rec_hoare u P m B \<Longrightarrow> (\<And>a c. B a c \<Longrightarrow> Q a c) \<Longrightarrow> rec_hoare u P m Q"
  by (rule rec_hoareI) (blast dest: rec_hoareD)+

lemma hoare_then:
  assumes "runs u fp m B" and "\<And>a. B a \<Longrightarrow> rec_hoare u (pinned fp) (f a) Q"
  shows "rec_hoare u (pinned fp) (rec_bind m f) Q"
  by (rule hoare_bind [OF assms(1) [unfolded runs_def]]) (use assms(2) in \<open>auto simp: rec_hoare_def\<close>)

lemma runs_then:
  assumes "runs u fp m B" and "\<And>a. B a \<Longrightarrow> runs u fp (f a) Q"
  shows "runs u fp (rec_bind m f) Q"
  unfolding runs_def [of _ _ "rec_bind m f"]
  by (rule hoare_then [OF assms(1)]) (rule assms(2) [unfolded runs_def])

lemma hoare_post: "runs u fp m B \<Longrightarrow> rec_hoare u (pinned fp) m (\<lambda>a c. B a)"
  unfolding runs_def by (erule hoare_mono) simp

lemma runs_mono: "runs u fp m B \<Longrightarrow> (\<And>a. B a \<Longrightarrow> Q a) \<Longrightarrow> runs u fp m Q"
  unfolding runs_def by (erule hoare_mono) simp

lemma hoare_modify: "(\<And>c. P c \<Longrightarrow> Q (f c)) \<Longrightarrow> rec_hoare u Q m R \<Longrightarrow> rec_hoare u P (rec_bind (rec_modify f) (\<lambda>_. m)) R"
  by (simp add: rec_hoare_def rec_bind_def rec_modify_def)

lemma runs_return: "Q a \<Longrightarrow> runs u fp (rec_return a) Q"
  by (simp add: runs_def rec_hoare_def rec_return_def)

lemma runs_stop: "ends_ok u e \<Longrightarrow> runs u fp (rec_stop_with e) Q"
  by (simp add: runs_def rec_hoare_def rec_stop_with_def pinned_def)

lemma runs_get: "(\<And>c. pinned fp c \<Longrightarrow> Q (f c)) \<Longrightarrow> runs u fp (rec_get f) Q"
  by (simp add: runs_def rec_hoare_def rec_get_def)

lemma runs_record: "runs u fp (rec_record phase attempt err) (\<lambda>_. True)"
  by (simp add: runs_def rec_hoare_def rec_record_def rec_modify_def)

lemma runs_record_each: "runs u fp (record_each es attempt err) (\<lambda>_. True)"
  by (simp add: runs_def rec_hoare_def record_each_def rec_modify_def)

lemma runs_guarded: "code \<noteq> [] \<Longrightarrow> runs u fp (guarded phase code attempt port) (\<lambda>a. \<exists>n. port n = Inr a)"
  unfolding guarded_def
proof (rule runs_then [of _ _ _ "\<lambda>a. \<exists>n. port n = a"])
  show "runs u fp (rec_get (\<lambda>c. port (length (xc_phases c)))) (\<lambda>a. \<exists>n. port n = a)" by (rule runs_get) blast
  fix a :: "(port_error, 'a) result"
  assume "\<exists>n. port n = a" and "code \<noteq> []"
  then show "runs u fp (case a of
      Inr a \<Rightarrow> rec_bind (rec_record phase attempt None) (\<lambda>_. rec_return a)
    | Inl P_cancelled \<Rightarrow> rec_bind (rec_record phase attempt (Some ''cancelled'')) (\<lambda>_. rec_stop_with Cancelled)
    | Inl _ \<Rightarrow> rec_bind (rec_record phase attempt (Some code)) (\<lambda>_. rec_stop_with (Classified code phase)))
      (\<lambda>a. \<exists>n. port n = Inr a)"
    by (cases a) (auto intro!: runs_then [OF runs_record] runs_return runs_stop simp: ends_ok_def split: port_error.split)
qed

section \<open>The recall keeps what the filters admit\<close>

definition known :: "(string \<Rightarrow> prof_fact option) \<Rightarrow> (string, prof_fact) dict \<Rightarrow> bool" where
  "known truth facts = (\<forall>(e, f) \<in> set facts. truth e = Some f)"

definition admitted :: "recall_input \<Rightarrow> (string, prof_fact) dict \<Rightarrow> vector_hit \<Rightarrow> bool" where
  "admitted x facts h =
     (judge_fact (rq_filters x) (rq_degraded x) (rq_excluded x) (rq_review x) (vh_entity h)
        (dict_get facts (vh_entity h)) = Keep)"

definition recall_ok :: "(string \<Rightarrow> prof_fact option) \<Rightarrow> recall_input \<Rightarrow> recall_state \<Rightarrow> bool" where
  "recall_ok truth x s =
     (known truth (rl_facts s) \<and> distinct (map vh_entity (rl_survivors s)) \<and>
      (\<forall>h \<in> set (rl_survivors s). admitted x (rl_facts s) h))"

lemma known_get: "known truth d \<Longrightarrow> dict_get d e = Some f \<Longrightarrow> truth e = Some f"
  by (auto simp: known_def dict_get_def dest: map_of_SomeD)

lemma known_set: "known truth d \<Longrightarrow> truth k = Some v \<Longrightarrow> known truth (dict_set k v d)"
  by (auto simp: known_def dict_set_def split: if_splits)

lemma known_update: "known truth new \<Longrightarrow> known truth d \<Longrightarrow> known truth (dict_update new d)"
proof (induction new arbitrary: d)
  case (Cons p new)
  obtain k v where p: "p = (k, v)" by (cases p)
  have "known truth new" "known truth (dict_set k v d)"
    using Cons.prems known_set [of truth d k v] by (simp_all add: known_def p)
  from Cons.IH [OF this] show ?case by (simp add: p dict_update_def)
qed (simp add: dict_update_def)

lemma dict_update_keeps: "dict_get d e \<noteq> None \<Longrightarrow> dict_get (dict_update new d) e \<noteq> None"
  unfolding dict_update_def by (induction new arbitrary: d) (auto simp: dict_get_set)

lemma admitted_known: "admitted x facts h \<Longrightarrow> dict_get facts (vh_entity h) \<noteq> None"
  by (cases "dict_get facts (vh_entity h)") (simp_all add: admitted_def judge_fact_def)

lemma dict_update_new: "dict_get new e \<noteq> None \<Longrightarrow> dict_get (dict_update new d) e \<noteq> None"
proof (induction new arbitrary: d)
  case (Cons p new)
  obtain k v where p: "p = (k, v)" by (cases p)
  have "dict_get (dict_update new (dict_set k v d)) e \<noteq> None"
    using Cons dict_update_keeps [of "dict_set k v d" e new]
    by (cases "k = e") (simp_all add: dict_get_set p, simp add: dict_get_def)
  then show ?case by (simp add: p dict_update_def)
qed (simp add: dict_get_def)

lemma admitted_transfer:
  assumes "admitted x d h" and "known truth d" and "known truth d'" and "dict_get d' (vh_entity h) \<noteq> None"
  shows "admitted x d' h"
proof -
  obtain f where f: "dict_get d (vh_entity h) = Some f" using admitted_known [OF assms(1)] by blast
  obtain g where g: "dict_get d' (vh_entity h) = Some g" using assms(4) by blast
  have "f = g" using known_get [OF assms(2) f] known_get [OF assms(3) g] by simp
  with f g assms(1) show ?thesis by (simp add: admitted_def)
qed

lemma first_hits_distinct: "distinct (map vh_entity (first_hits hs))"
proof -
  have "distinct (map vh_entity (fold (\<lambda>h out. if vh_entity h \<in> vh_entity ` set out then out else out @ [h]) hs out))"
    if "distinct (map vh_entity out)" for out :: "vector_hit list"
    using that by (induction hs arbitrary: out) auto
  then show ?thesis by (simp add: first_hits_def)
qed

lemma final_filter_kept:
  "fst (final_filter (rq_filters x) (rq_degraded x) (rq_excluded x) (rq_review x) facts hs) = filter (admitted x facts) hs"
  by (simp add: final_filter_def admitted_def [abs_def] Let_def)

definition pinned_facts :: "ports \<Rightarrow> (string \<Rightarrow> prof_fact option) \<Rightarrow> bool" where
  "pinned_facts ports truth = (\<forall>n es facts. pt_hydrate ports n es = Inr facts \<longrightarrow> known truth facts)"

lemma runs_hydrate_new:
  assumes "pinned_facts ports truth" and "known truth (rl_facts s)"
  shows "runs u fp (hydrate_new ports step new s) (\<lambda>s'. known truth (rl_facts s'))"
proof (cases "new = []")
  case True
  then show ?thesis using assms(2) by (simp add: hydrate_new_def runs_return)
next
  case False
  then show ?thesis using assms unfolding hydrate_new_def
    by (auto simp: pinned_facts_def intro!: runs_then [OF runs_guarded] runs_return known_update)
qed

lemma runs_recall_step:
  assumes "pinned_facts (rq_ports x) truth" and "known truth (rl_facts s)"
  shows "runs u fp (recall_step x step s) (recall_ok truth x)"
  unfolding recall_step_def Let_def
proof (intro runs_then [OF runs_guarded] runs_then [OF runs_hydrate_new [OF assms]], simp_all, goal_cases)
  case (1 hs s')
  let ?pref = "payload_prefilter (rv_rank (rq_env x)) (rq_filters x) (rq_degraded x) (first_hits hs)"
  have "distinct (map vh_entity ?pref)"
    using first_hits_distinct by (simp add: payload_prefilter_def distinct_map_filter)
  then show ?case using 1
    by (auto intro!: runs_return simp: recall_ok_def case_prod_unfold final_filter_kept distinct_map_filter)
qed

lemma runs_recall_steps:
  assumes "pinned_facts (rq_ports x) truth"
  shows "recall_ok truth x s \<Longrightarrow> runs u fp (recall_steps x steps s) (recall_ok truth x)"
proof (induction steps arbitrary: s)
  case (Cons step steps)
  then have "known truth (rl_facts s)" by (simp add: recall_ok_def)
  then show ?case
    by (auto intro!: runs_then [OF runs_recall_step [OF assms]] runs_return Cons.IH)
qed (simp add: runs_return)

lemma runs_recall_loop:
  "pinned_facts (rq_ports x) truth \<Longrightarrow> runs u fp (recall_loop x p oversample most) (recall_ok truth x)"
  unfolding recall_loop_def by (rule runs_recall_steps) (simp_all add: recall_ok_def fresh_recall_def known_def)

section \<open>The candidates\<close>

definition open_cities :: "rec_filters \<Rightarrow> rec_filters" where "open_cities fl = fl\<lparr>fl_cities := []\<rparr>"

definition candidates_ok :: "(string \<Rightarrow> prof_fact option) \<Rightarrow> recall_input \<Rightarrow> bool \<Rightarrow> candidates \<Rightarrow> bool" where
  "candidates_ok truth x relaxing ca =
     (known truth (ca_facts ca) \<and> distinct (map vh_entity (ca_survivors ca)) \<and>
      (ca_relaxed ca \<noteq> [] \<longrightarrow> relaxing) \<and>
      (\<forall>h \<in> set (ca_survivors ca).
         admitted (if vh_entity h \<in> set (ca_relaxed ca) then x\<lparr>rq_filters := open_cities (rq_filters x)\<rparr> else x)
           (ca_facts ca) h))"

lemma runs_gather:
  assumes facts: "pinned_facts (rq_ports x) truth" and rel: "\<And>fl. relaxed = Some fl \<Longrightarrow> fl = open_cities (rq_filters x)"
  shows "runs u fp (gather_candidates x p rq most relaxed) (candidates_ok truth x (relaxed \<noteq> None))"
  unfolding gather_candidates_def Let_def
proof (rule runs_then [OF runs_recall_loop [OF facts]], goal_cases)
  case (1 s)
  let ?y = "x\<lparr>rq_filters := open_cities (rq_filters x)\<rparr>"
  have facts': "pinned_facts (rq_ports ?y) truth" using facts by simp
  have strict: "candidates_ok truth x b \<lparr>ca_survivors = rl_survivors s, ca_facts = rl_facts s, ca_relaxed = [],
      ca_degraded = dg, ca_recall = n, ca_steps = m\<rparr>" for b dg n m
    using 1 by (simp add: candidates_ok_def recall_ok_def)
  have both: "candidates_ok truth x True
      \<lparr>ca_survivors = rl_survivors s @ filter (\<lambda>h. vh_entity h \<notin> vh_entity ` set (rl_survivors s)) (rl_survivors t),
       ca_facts = dict_update (rl_facts t) (rl_facts s),
       ca_relaxed = map vh_entity (filter (\<lambda>h. vh_entity h \<notin> vh_entity ` set (rl_survivors s)) (rl_survivors t)),
       ca_degraded = dg, ca_recall = n, ca_steps = m\<rparr>" if t: "recall_ok truth ?y t" for t dg n m
  proof -
    let ?facts = "dict_update (rl_facts t) (rl_facts s)"
    have known: "known truth (rl_facts s)" "known truth (rl_facts t)" "known truth ?facts"
      using 1 t known_update by (auto simp: recall_ok_def)
    have "admitted x ?facts h" if "h \<in> set (rl_survivors s)" for h
    proof -
      have a: "admitted x (rl_facts s) h" using that 1 by (simp add: recall_ok_def)
      show ?thesis by (rule admitted_transfer [OF a known(1,3) dict_update_keeps [OF admitted_known [OF a]]])
    qed
    moreover have "admitted ?y ?facts h" if "h \<in> set (rl_survivors t)" for h
    proof -
      have a: "admitted ?y (rl_facts t) h" using that t by (simp add: recall_ok_def)
      show ?thesis by (rule admitted_transfer [OF a known(2,3) dict_update_new [OF admitted_known [OF a]]])
    qed
    moreover have "vh_entity h \<in> vh_entity ` set (rl_survivors s)" if "g \<in> set (rl_survivors s)" "vh_entity g = vh_entity h" for g h
      using that by (metis imageI)
    ultimately show ?thesis using 1 t known
      by (auto simp: candidates_ok_def recall_ok_def distinct_map_filter)
  qed
  show ?case
    using rel by (cases relaxed) (auto intro!: runs_return strict both runs_then [OF runs_recall_loop [OF facts']])
qed

section \<open>The answer\<close>

lemma runs_details: "runs u fp (fetch_details ports contacts es) (\<lambda>_. True)"
proof -
  have one: "runs u fp (fetch_one_attempt ports contacts e k) (\<lambda>_. True)" for e k
    unfolding fetch_one_attempt_def Let_def
    by (rule runs_then [OF runs_get [where Q = "\<lambda>_. True"]])
       (auto intro!: runs_then [OF runs_record] runs_then [OF runs_record_each] runs_return runs_stop
          simp: ends_ok_def split: sum.split port_error.split)
  have batch: "runs u fp (fetch_batch_attempt port contacts es k) (\<lambda>_. True)" for port k
    unfolding fetch_batch_attempt_def Let_def
    by (rule runs_then [OF runs_get [where Q = "\<lambda>_. True"]])
       (auto intro!: runs_then [OF runs_record] runs_then [OF runs_record_each] runs_return runs_stop
          simp: ends_ok_def split: sum.split port_error.split)
  have "runs u fp (fetch_one ports contacts e) (\<lambda>_. True)" for e
    unfolding fetch_one_def by (auto intro!: runs_then [OF one] runs_return split: option.split)
  then have "runs u fp (fetch_each ports contacts es acc) (\<lambda>_. True)" for acc
    by (induction es arbitrary: acc) (auto intro!: runs_then runs_return)
  then show ?thesis unfolding fetch_details_def
    by (auto intro!: runs_then [OF batch] runs_return split: option.split)
qed

definition texts_only :: "understanding \<Rightarrow> bool" where
  "texts_only qu =
     (None \<notin> set (map term_text (qu_interests qu)) \<and> list_all is_text (take 2 (qu_missing qu)))"

lemma runs_term_texts: "(u \<Longrightarrow> texts_only qu) \<Longrightarrow> runs u fp (term_texts (qu_interests qu)) (\<lambda>_. True)"
  unfolding term_texts_def by (auto intro!: runs_return runs_stop simp: texts_only_def ends_ok_def)

lemma runs_followups: "(u \<Longrightarrow> texts_only qu) \<Longrightarrow> runs u fp (suggested_followups qu) (\<lambda>_. True)"
  unfolding suggested_followups_def Let_def
  by (auto intro!: runs_return runs_stop simp: texts_only_def ends_ok_def)

lemma runs_checked: "B r \<Longrightarrow> (u \<Longrightarrow> valid_response r) \<Longrightarrow> runs u fp (checked r) (\<lambda>r. B r \<and> (u \<longrightarrow> valid_response r))"
  unfolding checked_def by (auto intro!: runs_return runs_stop simp: ends_ok_def)

lemma result_warnings_mild:
  "w \<in> set (result_warnings ca fl limit n weak failures) \<Longrightarrow> rw_code w \<noteq> [] \<and> rw_severity w = ''warning''"
  by (auto simp: result_warnings_def rec_warn_def split: if_splits)

lemma strict_first_set [simp]: "set (strict_first relaxed ks) = set ks"
  by (auto simp: strict_first_def)

lemma strict_first_distinct: "distinct (map ke_entity ks) \<Longrightarrow> distinct (map ke_entity (strict_first relaxed ks))"
  by (auto simp: strict_first_def distinct_map_filter)

lemma relax_card_select [simp]:
  "cd_entity (relax_card relaxed k) = cd_entity k" "cd_role (relax_card relaxed k) = cd_role k"
  "cd_name (relax_card relaxed k) = cd_name k" "cd_level (relax_card relaxed k) = cd_level k"
  by (simp_all add: relax_card_def)

lemma dedup_set: "set (dedup xs) = set xs"
proof -
  have "set (fold (\<lambda>x out. if x \<in> set out then out else out @ [x]) xs out) = set out \<union> set xs" for out
    by (induction xs arbitrary: out) auto
  then show ?thesis by (simp add: dedup_def)
qed

lemma relax_card_flag: "cd_entity k \<in> set relaxed \<Longrightarrow> ''location_relaxed'' \<in> set (cd_risks (relax_card relaxed k))"
  by (simp add: relax_card_def dedup_set)

lemma assemble_card_select [simp]:
  "cd_entity (assemble_card k fo d xl) = ke_entity k" "cd_level (assemble_card k fo d xl) = ke_level k"
  "fo = Some f \<Longrightarrow> cd_role (assemble_card k fo d xl) = pf_role f"
  "fo = Some f \<Longrightarrow> cd_name (assemble_card k fo d xl) = pf_name f"
  by (simp_all add: assemble_card_def Let_def pick_def)

lemma result_cards_entities: "map (cd_entity \<circ> fst) (result_cards env ri relaxed ks) = map ke_entity ks"
  by (simp add: result_cards_def Let_def)

lemma result_cards_from:
  assumes "k \<in> set (map fst (result_cards env ri relaxed ks))"
  obtains kk where "kk \<in> set ks" "cd_entity k = ke_entity kk" "cd_level k = ke_level kk"
    "\<And>f. fact_of ri (ke_entity kk) = Some f \<Longrightarrow> cd_role k = pf_role f \<and> cd_name k = pf_name f"
    "ke_entity kk \<in> set relaxed \<Longrightarrow> ''location_relaxed'' \<in> set (cd_risks k)"
  using assms by (auto simp: result_cards_def Let_def relax_card_flag)

text \<open>The card of a professor whom the filters admit; \<open>b\<close> allows that the preferred cities were given up.\<close>

definition card_ok :: "(string \<Rightarrow> prof_fact option) \<Rightarrow> recall_input \<Rightarrow> bool \<Rightarrow> card \<Rightarrow> bool" where
  "card_ok truth x b k =
     (\<exists>f. truth (cd_entity k) = Some f \<and> cd_role k = pf_role f \<and> cd_name k = pf_name f \<and>
        (\<exists>fl. (fl = rq_filters x \<or> b \<and> ''location_relaxed'' \<in> set (cd_risks k) \<and> fl = open_cities (rq_filters x)) \<and>
           judge_fact fl (rq_degraded x) (rq_excluded x) (rq_review x) (cd_entity k) (Some f) = Keep))"

lemma cards_ok:
  assumes ca: "candidates_ok truth x b ca" and ri: "ri_facts ri = ca_facts ca"
    and ks: "ke_entity ` set ks \<subseteq> vh_entity ` set (ca_survivors ca)"
    and k: "k \<in> set (map fst (result_cards env ri (ca_relaxed ca) ks))"
  shows "card_ok truth x b k"
  using k
proof (rule result_cards_from)
  fix kk
  assume kk: "kk \<in> set ks" "cd_entity k = ke_entity kk"
    "\<And>f. fact_of ri (ke_entity kk) = Some f \<Longrightarrow> cd_role k = pf_role f \<and> cd_name k = pf_name f"
    "ke_entity kk \<in> set (ca_relaxed ca) \<Longrightarrow> ''location_relaxed'' \<in> set (cd_risks k)"
  let ?e = "ke_entity kk"
  obtain h where h: "h \<in> set (ca_survivors ca)" "vh_entity h = ?e" using ks kk(1) by (metis imageE imageI subsetD)
  let ?y = "if ?e \<in> set (ca_relaxed ca) then x\<lparr>rq_filters := open_cities (rq_filters x)\<rparr> else x"
  have all: "\<forall>h \<in> set (ca_survivors ca). admitted
      (if vh_entity h \<in> set (ca_relaxed ca) then x\<lparr>rq_filters := open_cities (rq_filters x)\<rparr> else x) (ca_facts ca) h"
    using ca unfolding candidates_ok_def by (elim conjE)
  have adm: "admitted ?y (ca_facts ca) h"  using all h(1) by (metis h(2))
  obtain f where f: "dict_get (ca_facts ca) ?e = Some f" using admitted_known [OF adm] h(2) by auto
  have "truth ?e = Some f" using ca f unfolding candidates_ok_def by (blast intro: known_get)
  moreover have "cd_role k = pf_role f \<and> cd_name k = pf_name f" by (rule kk(3)) (simp add: fact_of_def ri f)
  moreover have "ca_relaxed ca \<noteq> [] \<Longrightarrow> b" using ca by (simp add: candidates_ok_def)
  moreover have "?e \<in> set (ca_relaxed ca) \<Longrightarrow> ca_relaxed ca \<noteq> []" by auto
  ultimately have "\<exists>fl. (fl = rq_filters x \<or> b \<and> ''location_relaxed'' \<in> set (cd_risks k) \<and> fl = open_cities (rq_filters x)) \<and>
      judge_fact fl (rq_degraded x) (rq_excluded x) (rq_review x) ?e (Some f) = Keep"
    using adm kk(4) unfolding admitted_def h(2) f by (cases "?e \<in> set (ca_relaxed ca)") (simp_all, blast+)
  with \<open>truth ?e = Some f\<close> \<open>cd_role k = pf_role f \<and> cd_name k = pf_name f\<close> show ?thesis
    unfolding card_ok_def kk(2) by blast
qed

text \<open>What an answer to a request holds.\<close>

definition answer_ok :: "(string \<Rightarrow> prof_fact option) \<Rightarrow> recall_input \<Rightarrow> bool \<Rightarrow> rec_request \<Rightarrow> snapshot \<Rightarrow> response \<Rightarrow> bool" where
  "answer_ok truth x b rq snap r =
     (rs_build r = sn_build snap \<and> length (rs_results r) \<le> nat (rr_limit rq) \<and>
      distinct (map cd_entity (rs_results r)) \<and> (\<forall>k \<in> set (rs_results r). card_ok truth x b k))"

lemma match_level_known: "match_level q thr \<in> set match_levels"
  by (simp add: match_level_def match_levels_def)

lemma runs_answer:
  assumes ca: "candidates_ok truth x b ca" and p: "profile_valid p"
    and u: "u \<Longrightarrow> texts_only qu \<and> usable (sn_build snap) \<and> usable (rp_version p) \<and> usable fp"
  shows "runs u (sn, Some fp) (answer_candidates sv ports rq contacts snap generation p qu anchors fl ca)
           (\<lambda>r. answer_ok truth x b rq snap r \<and> (u \<longrightarrow> valid_response r))"
proof -
  let ?w = "map vh_entity (take (nat (rp_window p)) (ca_survivors ca))"
  have tq: "u \<Longrightarrow> texts_only qu" using u by blast
  have cards: "length cards \<le> nat (rr_limit rq) \<and> distinct (map (cd_entity \<circ> fst) cards) \<and>
      (\<forall>k \<in> set (map fst cards). card_ok truth x b k \<and> cd_level k \<in> set match_levels)"
    if out: "rerank (rv_rank (sv_env sv)) ri ?w = Inr ranked" and ri: "ri_facts ri = ca_facts ca" "ri_profile ri = p"
      and cards: "cards = result_cards (sv_env sv) ri (ca_relaxed ca)
        (take (nat (rr_limit rq)) (strict_first (ca_relaxed ca) ranked))" for ri ranked cards
  proof -
    let ?top = "take (nat (rr_limit rq)) (strict_first (ca_relaxed ca) ranked)"
    have ranked: "ranked = sort_key (tie_break_key (rp_tie_break (ri_profile ri))) (rank_entries (rv_rank (sv_env sv)) ri ?w)"
      using out rerank_valid [of ri] p ri(2) by simp
    then have perm: "mset (map ke_entity ranked) = mset ?w"
      using rank_entries_entities [of "rv_rank (sv_env sv)" ri ?w] by (metis mset_map mset_sort)
    have "distinct ?w" using ca by (simp add: candidates_ok_def distinct_take flip: take_map)
    then have dist: "distinct (map ke_entity ?top)"
      using strict_first_distinct [of ranked "ca_relaxed ca"] mset_eq_imp_distinct_iff [OF perm]
      by (simp add: distinct_take flip: take_map)
    have top: "set ?top \<subseteq> set ranked" using set_take_subset [of _ "strict_first (ca_relaxed ca) ranked"] by simp
    have "ke_entity ` set ranked = set ?w" using perm by (metis set_map set_mset_mset)
    moreover have "set ?w \<subseteq> vh_entity ` set (ca_survivors ca)" by (simp add: image_mono set_take_subset)
    ultimately have sub: "ke_entity ` set ?top \<subseteq> vh_entity ` set (ca_survivors ca)"
      using image_mono [OF top] by (metis order_trans)
    have levels: "ke_level kk \<in> set match_levels" if "kk \<in> set ?top" for kk
      using that top rank_entries_range [of kk] match_level_known by (metis ranked set_sort subsetD)
    have "cd_level k \<in> set match_levels" if "k \<in> set (map fst cards)" for k
      using that unfolding cards by (rule result_cards_from) (use levels in simp)
    moreover have "card_ok truth x b k" if "k \<in> set (map fst cards)" for k
      using that unfolding cards by (rule cards_ok [OF ca ri(1) sub])
    moreover have "map (cd_entity \<circ> fst) cards = map ke_entity ?top" unfolding cards by (rule result_cards_entities)
    moreover have "length cards \<le> nat (rr_limit rq)" unfolding cards by (simp add: result_cards_def)
    ultimately show ?thesis using dist by simp
  qed
  have finish: "runs u (sn, Some fp) (rec_bind (suggested_followups qu) (\<lambda>fs. rec_bind (rec_get (resp fs)) checked))
      (\<lambda>r. answer_ok truth x b rq snap r \<and> (u \<longrightarrow> valid_response r))"
    if "\<And>fs c. pinned (sn, Some fp) c \<Longrightarrow> answer_ok truth x b rq snap (resp fs c) \<and> (u \<longrightarrow> valid_response (resp fs c))" for resp
    using that by (intro runs_then [OF runs_followups [OF tq]] runs_then [OF runs_get]) (auto intro: runs_checked)
  show ?thesis
    unfolding answer_candidates_def Let_def
  proof (rule runs_then [OF runs_details], clarify, rule runs_then [OF runs_term_texts [OF tq]], assumption, goal_cases)
    case (1 details failed terms)
    let ?ri = "\<lparr>ri_facts = ca_facts ca, ri_details = details, ri_semantic = normalize_rrf (ca_survivors ca),
      ri_student = rr_student rq, ri_profile = p, ri_terms = terms, ri_anchor = anchors\<rparr>"
    let ?ranked = "sort_key (tie_break_key (rp_tie_break p)) (rank_entries (rv_rank (sv_env sv)) ?ri ?w)"
    have out: "rerank (rv_rank (sv_env sv)) ?ri ?w = Inr ?ranked" using rerank_valid [of ?ri] p by simp
    have cs: "length cards \<le> nat (rr_limit rq)" "distinct (map (cd_entity \<circ> fst) cards)"
        "\<forall>k \<in> set (map fst cards). card_ok truth x b k" "\<forall>k \<in> set (map fst cards). cd_level k \<in> set match_levels"
      if "cards = result_cards (sv_env sv) ?ri (ca_relaxed ca) (take (nat (rr_limit rq)) (strict_first (ca_relaxed ca) ?ranked))"
      for cards using cards [OF out _ _ that] by auto
    show ?case
      unfolding out sum.case
    proof (rule finish, goal_cases)
      case (1 fs c)
      then have c: "xc_warnings c = []" "xc_fingerprint c = Some fp" by (simp_all add: pinned_def)
      have fp: "u \<Longrightarrow> str_or (Some fp) [] = fp" using u by (simp add: usable_def str_or_def)
      show ?case
        using cs [OF refl] u fp unfolding c answer_ok_def valid_response_def
        by (auto dest: result_warnings_mild)
    qed
  qed
qed

section \<open>The pipeline\<close>

text \<open>Results an earlier turn has shown already, and the anchor of a same-field request.\<close>

definition forbidden :: "rec_request \<Rightarrow> string set" where
  "forbidden rq =
     (case rr_context rq of
        None \<Rightarrow> {}
      | Some cx \<Rightarrow>
          if cx_intent cx = Some ''more_mentors'' then set (cx_prior cx)
          else if cx_intent cx = Some ''same_field'' then set_option (cx_anchor cx) else {})"

text \<open>A result that satisfies what the student asked for.\<close>

definition eligible :: "service \<Rightarrow> (string \<Rightarrow> prof_fact option) \<Rightarrow> rec_request \<Rightarrow> string \<Rightarrow> card \<Rightarrow> bool" where
  "eligible sv truth rq build k =
     (cd_entity k \<notin> forbidden rq \<and>
      (\<exists>f. truth (cd_entity k) = Some f \<and> cd_role k = pf_role f \<and> cd_name k = pf_name f \<and>
         pf_role f \<noteq> ''excluded'' \<and> (pf_role f = ''review'' \<longrightarrow> rr_review rq = ''include_downranked'') \<and>
         authority_one (pf_university_id f) (fl_universities (rr_filters rq)) \<and>
         fact_city_match f (normalize_city_names (fl_cities (rr_filters rq))) \<and>
         (sv_org_units sv build \<longrightarrow> authority_any (pf_unit_ids f) (fl_units (rr_filters rq))) \<and>
         authority_one (Some (pf_family f)) (fl_titles (rr_filters rq)) \<and>
         (fl_master (rr_filters rq) = ''confirmed'' \<longrightarrow> pf_master f = ''confirmed'') \<and>
         (fl_phd (rr_filters rq) = ''confirmed'' \<longrightarrow> pf_phd f = ''confirmed'') \<and>
         (fl_topic_mode (rr_filters rq) = ''hard'' \<longrightarrow> authority_any (pf_topic_ids f) (fl_topics (rr_filters rq)))))"

definition reply :: "bool \<Rightarrow> (string \<Rightarrow> prof_fact option) \<Rightarrow> service \<Rightarrow> rec_request \<Rightarrow> response \<Rightarrow> bool" where
  "reply u truth sv rq r =
     ((u \<longrightarrow> valid_response r) \<and> length (rs_results r) \<le> nat (rr_limit rq) \<and>
      distinct (map cd_entity (rs_results r)) \<and> (\<forall>k \<in> set (rs_results r). eligible sv truth rq (rs_build r) k))"

lemma reply_empty: "rs_results r = [] \<Longrightarrow> (u \<Longrightarrow> valid_response r) \<Longrightarrow> reply u truth sv rq r"
  by (simp add: reply_def)

lemma judge_Keep:
  "judge_fact fl dg ex rv e (Some f) = Keep \<longleftrightarrow>
   pf_role f \<noteq> ''excluded'' \<and> (pf_role f = ''review'' \<longrightarrow> rv = ''include_downranked'') \<and> fact_passes fl dg ex e f"
  by (simp add: judge_fact_def)

definition recall_request :: "service \<Rightarrow> ports \<Rightarrow> rec_request \<Rightarrow> snapshot \<Rightarrow> understanding \<Rightarrow> route \<Rightarrow> recall_input" where
  "recall_request sv ports rq snap qu ro =
     \<lparr>rq_env = sv_env sv, rq_ports = ports, rq_filters = effective_filters (sv_env sv) rq qu ro,
      rq_degraded = \<not> sv_org_units sv (sn_build snap), rq_excluded = ro_exclude ro, rq_review = rr_review rq,
      rq_limit = rr_limit rq\<rparr>"

lemma fact_city_match_none: "fact_city_match f []"
  by (simp add: fact_city_match_def)

lemma effective_filters_select [simp]:
  "fl_universities (effective_filters env rq qu ro) = fl_universities (rr_filters rq)"
  "fl_units (effective_filters env rq qu ro) = fl_units (rr_filters rq)"
  "fl_titles (effective_filters env rq qu ro) = fl_titles (rr_filters rq)"
  "fl_master (effective_filters env rq qu ro) = fl_master (rr_filters rq)"
  "fl_phd (effective_filters env rq qu ro) = fl_phd (rr_filters rq)"
  "fl_topics (effective_filters env rq qu ro) = fl_topics (rr_filters rq)"
  "fl_topic_mode (effective_filters env rq qu ro) = fl_topic_mode (rr_filters rq)"
  by (simp_all add: effective_filters_def Let_def)

lemma open_cities_select [simp]:
  "fl_universities (open_cities fl) = fl_universities fl" "fl_units (open_cities fl) = fl_units fl"
  "fl_titles (open_cities fl) = fl_titles fl" "fl_master (open_cities fl) = fl_master fl"
  "fl_phd (open_cities fl) = fl_phd fl" "fl_topics (open_cities fl) = fl_topics fl"
  "fl_topic_mode (open_cities fl) = fl_topic_mode fl" "fl_cities (open_cities fl) = []"
  by (simp_all add: open_cities_def)

lemma card_eligible:
  assumes k: "card_ok truth (recall_request sv ports rq snap qu ro)
      (relaxed_filters rq qu ro (effective_filters (sv_env sv) rq qu ro) \<noteq> None) k"
    and ex: "forbidden rq \<subseteq> set (ro_exclude ro)"
  shows "eligible sv truth rq (sn_build snap) k"
proof -
  let ?fl = "effective_filters (sv_env sv) rq qu ro"
  obtain f fl where f: "truth (cd_entity k) = Some f" "cd_role k = pf_role f" "cd_name k = pf_name f"
    and fl: "fl = ?fl \<or> relaxed_filters rq qu ro ?fl \<noteq> None \<and> fl = open_cities ?fl"
    and keep: "judge_fact fl (\<not> sv_org_units sv (sn_build snap)) (ro_exclude ro) (rr_review rq) (cd_entity k) (Some f) = Keep"
    using k unfolding card_ok_def recall_request_def by auto
  have same: "fl_universities fl = fl_universities (rr_filters rq)" "fl_units fl = fl_units (rr_filters rq)"
    "fl_titles fl = fl_titles (rr_filters rq)" "fl_master fl = fl_master (rr_filters rq)"
    "fl_phd fl = fl_phd (rr_filters rq)" "fl_topics fl = fl_topics (rr_filters rq)"
    "fl_topic_mode fl = fl_topic_mode (rr_filters rq)"
    using fl by auto
  have "fl_cities fl = normalize_city_names (fl_cities (rr_filters rq)) \<or> normalize_city_names (fl_cities (rr_filters rq)) = []"
    using fl by (auto simp: effective_filters_def relaxed_filters_def Let_def normalize_city_names_def split: if_splits)
  then have "fact_city_match f (fl_cities fl) \<Longrightarrow> fact_city_match f (normalize_city_names (fl_cities (rr_filters rq)))"
    using fact_city_match_none by metis
  with f keep ex show ?thesis
    unfolding eligible_def judge_Keep fact_passes_def same by blast
qed

lemma runs_fail_error:
  assumes "rw_severity w = ''error''" and "rw_code w \<noteq> []" and "\<forall>v \<in> set prior. rw_code v \<noteq> []"
  shows "runs u fp (fail_with check p f prior w) (reply u truth sv rq)"
  unfolding fail_with_def
proof (rule runs_then [of _ _ _ "\<lambda>r. rs_results r = [] \<and> valid_response r"])
  show "runs u fp (rec_get (\<lambda>c. error_response (xc_snapshot c) p f w (xc_generation c) (xc_phases c) (xc_warnings c @ prior)))
      (\<lambda>r. rs_results r = [] \<and> valid_response r)"
    by (rule runs_get) (use assms in \<open>auto simp: error_response_def valid_response_def pinned_def\<close>)
qed (auto simp: checked_def intro!: runs_return reply_empty)

text \<open>An answer without results and without an error names the snapshot, the profile and the fingerprint.\<close>

lemma runs_fail_warning:
  assumes "rw_code w \<noteq> []" and "f = Some (sn_fingerprint snap)"
    and u: "u \<Longrightarrow> usable (sn_build snap) \<and> usable (sn_fingerprint snap) \<and> usable (rp_version p)"
  shows "runs u (Some snap, fp) (fail_with check (Some p) f [] w) (\<lambda>r. rs_results r = [] \<and> (u \<longrightarrow> valid_response r))"
  unfolding fail_with_def
proof (rule runs_then [of _ _ _ "\<lambda>r. rs_results r = [] \<and> (u \<longrightarrow> valid_response r)"])
  show "runs u (Some snap, fp)
      (rec_get (\<lambda>c. error_response (xc_snapshot c) (Some p) f w (xc_generation c) (xc_phases c) (xc_warnings c @ [])))
      (\<lambda>r. rs_results r = [] \<and> (u \<longrightarrow> valid_response r))"
    by (rule runs_get)
       (use assms in \<open>auto simp: error_response_def valid_response_def pinned_def str_or_def usable_def split: if_splits\<close>)
qed (auto simp: runs_return intro: runs_checked)

lemma runs_no_candidates:
  assumes u: "u \<Longrightarrow> usable (sn_build snap) \<and> usable (sn_fingerprint snap) \<and> usable (rp_version p)"
  shows "runs u (Some snap, fp) (no_candidates sv rq p (sn_fingerprint snap) fl ca) (reply u truth sv rq')"
  unfolding no_candidates_def
proof (rule runs_then)
  show "runs u (Some snap, fp) (fail_with False (Some p) (Some (sn_fingerprint snap)) []
      (rec_warn ''no_candidates_after_filters'' ''no candidates after filters''))
      (\<lambda>r. rs_results r = [] \<and> (u \<longrightarrow> valid_response r))"
    by (rule runs_fail_warning [OF _ refl u]) (simp_all add: rec_warn_def)
  fix r
  assume r: "rs_results r = [] \<and> (u \<longrightarrow> valid_response r)"
  have "runs u (Some snap, fp) (checked (r\<lparr>rs_query := q\<rparr>)) (\<lambda>r. rs_results r = [] \<and> (u \<longrightarrow> valid_response r))" for q
    by (rule runs_checked) (use r in \<open>simp_all add: valid_response_def\<close>)
  then show "runs u (Some snap, fp) (checked (r\<lparr>rs_query := q\<rparr>)) (reply u truth sv rq')" for q
    by (rule runs_mono) (simp add: reply_empty)
qed

lemma runs_ranked:
  assumes facts: "pinned_facts ports truth" and p: "profile_valid p" and ex: "forbidden rq \<subseteq> set (ro_exclude ro)"
    and u: "u \<Longrightarrow> texts_only qu \<and> usable (sn_build snap) \<and> usable (sn_fingerprint snap) \<and> usable (rp_version p)"
    and fl: "fl = effective_filters (sv_env sv) rq qu ro"
  shows "runs u (Some snap, Some (sn_fingerprint snap))
      (rec_bind (gather_candidates (recall_request sv ports rq snap qu ro) p rq most (relaxed_filters rq qu ro fl)) (\<lambda>ca.
         if ca_survivors ca = [] then no_candidates sv rq p (sn_fingerprint snap) fl ca
         else answer_candidates sv ports rq contacts snap generation p qu anchors fl ca))
      (reply u truth sv rq)"
proof (rule runs_then [OF runs_gather])
  let ?x = "recall_request sv ports rq snap qu ro"
  show "pinned_facts (rq_ports ?x) truth" using facts by (simp add: recall_request_def)
  show "relaxed_filters rq qu ro fl = Some g \<Longrightarrow> g = open_cities (rq_filters ?x)" for g
    by (auto simp: relaxed_filters_def open_cities_def recall_request_def fl split: if_splits)
  fix ca
  assume ca: "candidates_ok truth ?x (relaxed_filters rq qu ro fl \<noteq> None) ca"
  have "answer_ok truth ?x (relaxed_filters rq qu ro fl \<noteq> None) rq snap r \<and> (u \<longrightarrow> valid_response r) \<Longrightarrow>
      reply u truth sv rq r" for r
    by (auto simp: answer_ok_def reply_def fl simp del: not_None_eq intro: card_eligible [OF _ ex])
  moreover have "runs u (Some snap, Some (sn_fingerprint snap))
      (answer_candidates sv ports rq contacts snap generation p qu anchors fl ca)
      (\<lambda>r. answer_ok truth ?x (relaxed_filters rq qu ro fl \<noteq> None) rq snap r \<and> (u \<longrightarrow> valid_response r))"
    by (rule runs_answer [OF ca p]) (use u in blast)
  ultimately show "runs u (Some snap, Some (sn_fingerprint snap))
      (if ca_survivors ca = [] then no_candidates sv rq p (sn_fingerprint snap) fl ca
       else answer_candidates sv ports rq contacts snap generation p qu anchors fl ca) (reply u truth sv rq)"
    using u by (auto intro: runs_no_candidates runs_mono)
qed

definition settles :: "bool \<Rightarrow> pin \<Rightarrow> 'a rec_step \<Rightarrow> ('a \<Rightarrow> bool) \<Rightarrow> bool" where
  "settles u pin m B = rec_hoare u (pinned pin) m (\<lambda>a c. B a)"

lemma settles_runs: "runs u pin m B \<Longrightarrow> settles u pin m B"
  unfolding settles_def by (rule hoare_post)

lemma settles_then: "runs u pin m B \<Longrightarrow> (\<And>a. B a \<Longrightarrow> settles u pin (f a) Q) \<Longrightarrow> settles u pin (rec_bind m f) Q"
  unfolding settles_def by (rule hoare_then)

lemma settles_modify:
  "(\<And>c. pinned pin c \<Longrightarrow> pinned pin' (f c)) \<Longrightarrow> settles u pin' m Q \<Longrightarrow> settles u pin (rec_bind (rec_modify f) (\<lambda>_. m)) Q"
  unfolding settles_def by (rule hoare_modify)

lemma settles_search:
  assumes facts: "pinned_facts ports truth" and p: "profile_valid p" and ex: "forbidden rq \<subseteq> set (ro_exclude ro)"
    and u: "u \<Longrightarrow> texts_only qu \<and> usable (sn_build snap) \<and> usable (sn_fingerprint snap) \<and> usable (rp_version p)"
  shows "settles u (Some snap, fp) (search_and_rank sv ports rq contacts snap generation p qu ro anchors) (reply u truth sv rq)"
  unfolding search_and_rank_def
proof (rule settles_then [OF runs_guarded], simp, goal_cases)
  case (1 fingerprint)
  show ?case
  proof (rule settles_modify [where pin' = "(Some snap, Some fingerprint)"], simp add: pinned_def, goal_cases)
    case 1
    then show ?case
      using runs_ranked [OF facts p ex u refl]
      by (auto intro!: settles_runs runs_fail_error simp: terminal_issue_def Let_def recall_request_def)
  qed
qed

lemma route_warnings:
  "ro_warnings (resolve_recommend_route env rq) = []"
  "w \<in> set (ro_terminal (resolve_recommend_route env rq)) \<Longrightarrow> rw_severity w = ''error'' \<and> rw_code w \<noteq> []"
  by (auto simp: resolve_recommend_route_def Let_def plain_route_def terminal_issue_def split: if_splits)

definition same_field :: "route \<Rightarrow> bool" where
  "same_field ro = (ro_intent ro = ''same_field'' \<and> truthy_str (ro_anchor ro))"

lemma route_excludes:
  assumes "ro_terminal (resolve_recommend_route env rq) = []"
  shows "forbidden rq \<subseteq> set (ro_exclude (resolve_recommend_route env rq)) \<union>
           (if same_field (resolve_recommend_route env rq) then {the (ro_anchor (resolve_recommend_route env rq))} else {})"
proof (cases "rr_context rq")
  case None
  then show ?thesis by (simp add: forbidden_def)
next
  case (Some cx)
  consider "cx_intent cx = Some ''more_mentors''" | "cx_intent cx = Some ''same_field''"
    | "cx_intent cx \<noteq> Some ''more_mentors''" "cx_intent cx \<noteq> Some ''same_field''" by blast
  then show ?thesis
  proof cases
    case 1
    then show ?thesis
      by (auto simp: resolve_recommend_route_def Some forbidden_def str_or_def all_intents_def plain_route_def Let_def)
  next
    case 2
    then show ?thesis using assms
      by (cases "truthy_str (cx_anchor cx)")
         (auto simp: resolve_recommend_route_def Some forbidden_def str_or_def all_intents_def plain_route_def same_field_def Let_def)
  next
    case 3
    then show ?thesis by (simp add: forbidden_def Some)
  qed
qed

text \<open>The ports keep the documented formats: named snapshots and profiles, terms that are strings.\<close>

definition sound_ports :: "service \<Rightarrow> ports \<Rightarrow> rec_request \<Rightarrow> bool" where
  "sound_ports sv ports rq =
     ((\<forall>n snap. pt_snapshot ports n = Inr (Some snap) \<longrightarrow> usable (sn_build snap) \<and> usable (sn_fingerprint snap)) \<and>
      (\<forall>n p. pt_ranking ports n = Inr p \<longrightarrow> rp_version p \<noteq> ''unavailable'') \<and>
      (\<forall>n a. pt_understand ports n = Inr a \<longrightarrow> texts_only (understand_query (sv_env sv) (rr_query rq) a)))"

lemma read_profile_valid: "read_profile ports n = Inr p \<Longrightarrow> profile_valid p \<and> pt_ranking ports n = Inr p"
  by (auto simp: read_profile_def res_bind_eq_Inr split: if_splits)

lemma sound_portsD:
  assumes "sound_ports sv ports rq" and "pt_ranking ports n = Inr p" and "profile_valid p" and "pt_understand ports m = Inr a"
  shows "texts_only (understand_query (sv_env sv) (rr_query rq) a) \<and> usable (rp_version p)"
proof -
  have "rp_version p \<noteq> []" using assms(3) unfolding profile_valid_def by blast
  then show ?thesis using assms(1,2,4) unfolding sound_ports_def usable_def by blast
qed

lemma settles_searched:
  assumes facts: "pinned_facts ports truth" and p: "profile_valid p"
    and u: "u \<Longrightarrow> texts_only qu \<and> usable (sn_build snap) \<and> usable (sn_fingerprint snap) \<and> usable (rp_version p)"
    and go: "ro_terminal ro = []" and ro: "ro = resolve_recommend_route (rv_rank (sv_env sv)) rq"
  shows "settles u (Some snap, fp)
     (if qu_unclear qu
      then fail_with True (Some p) (Some (sn_fingerprint snap)) []
             (rec_warn ''needs_clarification'' ''query needs clarification; recall skipped'')
      else if ro_intent ro = ''same_field'' \<and> truthy_str (ro_anchor ro)
      then rec_bind (guarded ''anchor_hydrate'' ''hydrate_unavailable'' None
                       (\<lambda>n. pt_hydrate ports n [the (ro_anchor ro)])) (\<lambda>found.
        case anchor_topics rq (dict_get found (the (ro_anchor ro))) of
          None \<Rightarrow> fail_with True (Some p) (Some (sn_fingerprint snap)) []
                    (terminal_issue ''anchor_not_in_active_build'' ''anchor is not available in the ACTIVE build'')
        | Some topics \<Rightarrow>
            search_and_rank sv ports rq contacts snap generation p qu
              (ro\<lparr>ro_exclude := dedup (ro_exclude ro @ [the (ro_anchor ro)])\<rparr>) topics)
      else search_and_rank sv ports rq contacts snap generation p qu ro [])
     (reply u truth sv rq)"
proof -
  have clarify: "runs u (Some snap, fp) (fail_with True (Some p) (Some (sn_fingerprint snap)) []
      (rec_warn ''needs_clarification'' ''query needs clarification; recall skipped'')) (reply u truth sv rq)"
    by (rule runs_mono [OF runs_fail_warning [OF _ refl]]) (use u in \<open>simp_all add: rec_warn_def reply_empty\<close>)
  have anchored: "settles u (Some snap, fp) (search_and_rank sv ports rq contacts snap generation p qu
      (ro\<lparr>ro_exclude := dedup (ro_exclude ro @ [the (ro_anchor ro)])\<rparr>) topics) (reply u truth sv rq)"
    if "same_field ro" for topics
    by (rule settles_search [OF facts p _ u]) (use route_excludes [OF go [unfolded ro]] that in \<open>auto simp: ro dedup_set\<close>)
  have plain: "settles u (Some snap, fp) (search_and_rank sv ports rq contacts snap generation p qu ro []) (reply u truth sv rq)"
    if "\<not> same_field ro"
    by (rule settles_search [OF facts p _ u]) (use route_excludes [OF go [unfolded ro]] that in \<open>auto simp: ro\<close>)
  show ?thesis
    using anchored plain
    by (auto simp: same_field_def intro!: settles_runs [OF clarify] settles_then [OF runs_guarded] settles_runs [OF runs_fail_error]
        simp: terminal_issue_def split: option.split)
qed

lemma settles_pinned:
  assumes facts: "pinned_facts ports truth"
    and u: "u \<Longrightarrow> sound_ports sv ports rq \<and> usable (sn_build snap) \<and> usable (sn_fingerprint snap)"
  shows "settles u (sn, fp) (recommend_pinned sv ports rq vw snap generation) (reply u truth sv rq)"
  unfolding recommend_pinned_def Let_def
proof (rule settles_modify [where pin' = "(Some snap, fp)"], simp add: pinned_def route_warnings, goal_cases)
  case 1
  let ?ro = "resolve_recommend_route (rv_rank (sv_env sv)) rq"
  consider "ro_detail ?ro" | "\<not> ro_detail ?ro" "ro_terminal ?ro \<noteq> []" | "\<not> ro_detail ?ro" "ro_terminal ?ro = []" by blast
  then show ?case
  proof cases
    case 1
    then show ?thesis by (simp add: settles_runs runs_fail_error terminal_issue_def)
  next
    case 2
    then have "runs u (Some snap, fp) (fail_with True None None (tl (ro_terminal ?ro)) (hd (ro_terminal ?ro)))
        (reply u truth sv rq)"
      using route_warnings(2) [OF hd_in_set [OF 2(2)]] route_warnings(2) [OF list.set_sel(2) [OF 2(2)]]
      by (intro runs_fail_error) blast+
    with 2 show ?thesis by (simp add: settles_runs)
  next
    case 3
    show ?thesis
      unfolding if_not_P [OF 3(1)] if_not_P [OF iffD2 [OF not_not 3(2)]]
    proof (rule settles_then [OF runs_guarded], simp, elim exE, goal_cases)
      case (1 p n)
      note p = read_profile_valid [OF 1]
      show ?case
      proof (rule settles_modify [where pin' = "(Some snap, fp)"], simp add: pinned_def,
          rule settles_then [OF runs_guarded], simp, elim exE, goal_cases)
        case (1 answer m)
        then show ?case
          using u p sound_portsD [of sv ports rq n p m answer] by (intro settles_searched [OF facts _ _ 3(2) refl]) simp_all
      qed
    qed
  qed
qed

section \<open>What a recommendation promises\<close>

lemma settles_with_pins:
  assumes facts: "pinned_facts ports truth" and u: "u \<Longrightarrow> sound_ports sv ports rq"
  shows "settles u (None, None) (recommend_with_pins sv ports rq vw) (reply u truth sv rq)"
  unfolding recommend_with_pins_def
proof (rule settles_then [OF runs_guarded], simp, elim exE, goal_cases)
  case (1 found n)
  show ?case
  proof (cases found)
    case None
    then show ?thesis by (simp add: settles_runs runs_fail_error terminal_issue_def)
  next
    case (Some snap)
    have "settles u (Some snap, None) (recommend_pinned sv ports rq vw snap generation) (reply u truth sv rq)" for generation
      by (rule settles_pinned [OF facts]) (use u 1 Some in \<open>auto simp: sound_ports_def\<close>)
    then show ?thesis unfolding Some option.case
      by (intro settles_modify [where pin' = "(Some snap, None)"] settles_then [OF runs_guarded]) (simp_all add: pinned_def)
  qed
qed

lemma early_error_answers:
  "rw_severity w = ''error'' \<Longrightarrow> rw_code w \<noteq> [] \<Longrightarrow> \<exists>r. early_error w = Inr r \<and> valid_response r \<and> rs_results r = []"
  by (auto simp: early_error_def checked_def rec_return_def error_response_def valid_response_def)

lemma close_run_reply:
  assumes "settles u (None, None) m (reply u truth sv rq)"
  shows "(\<exists>r. close_run sv' (m fresh_context) = Inr r \<and> reply u truth sv rq r) \<or>
         (\<not> u \<and> (\<exists>e. close_run sv' (m fresh_context) = Inl e))"
proof -
  have "pinned (None, None) fresh_context" by (simp add: pinned_def fresh_context_def)
  note ended = rec_hoareD [OF assms [unfolded settles_def] this]
  obtain res c where run: "m fresh_context = (res, c)" by (cases "m fresh_context")
  show ?thesis
  proof (cases res)
    case (Inr r)
    then show ?thesis using ended(1) [of r c] by (simp add: run close_run_def)
  next
    case (Inl e)
    then have "ends_ok u e" "xc_warnings c = []" using ended(2) [of e c] run by auto
    then show ?thesis
      by (cases e) (auto simp: run Inl close_run_def ends_ok_def error_response_def terminal_issue_def valid_response_def
          intro!: reply_empty)
  qed
qed

lemma validate_context_keeps:
  "validate_context env resolved cx = Inr cx' \<Longrightarrow>
   cx_intent cx' = cx_intent cx \<and> cx_anchor cx' = cx_anchor cx \<and> set (cx_prior cx') = set (cx_prior cx)"
  by (auto simp: validate_context_def dedup_set split: option.splits)

lemma validate_context_code: "validate_context env resolved cx = Inl (code, m) \<Longrightarrow> code \<noteq> []"
  by (auto simp: validate_context_def context_issue_def Let_def split: option.splits if_splits)

lemma admit_context_same:
  assumes "admit_context sv rq = Inr rq'"
  shows "rr_query rq' = rr_query rq \<and> rr_limit rq' = rr_limit rq \<and> rr_filters rq' = rr_filters rq \<and>
         rr_review rq' = rr_review rq \<and> forbidden rq' = forbidden rq"
  using assms validate_context_keeps
  by (auto simp: admit_context_def forbidden_def split: option.splits sum.splits if_splits)

lemma admit_context_error: "admit_context sv rq = Inl w \<Longrightarrow> rw_severity w = ''error'' \<and> rw_code w \<noteq> []"
  using validate_context_code
  by (auto simp: admit_context_def terminal_issue_def split: option.splits sum.splits if_splits)

lemma reply_same:
  assumes "admit_context sv' rq = Inr rq'"
  shows "reply u truth sv rq' r = reply u truth sv rq r"
  using admit_context_same [OF assms] by (simp add: reply_def eligible_def)

lemma recommend_reply:
  assumes facts: "pinned_facts ports truth" and u: "u \<Longrightarrow> sound_ports sv ports rq" and refused: "refusal_of sv rq = Inr refused"
  shows "(\<exists>r. recommend sv ports rq vw = Inr r \<and> reply u truth sv rq r \<and>
            (rs_results r = [] \<or> rr_review rq \<noteq> ''include_downranked'' \<or> vw_review vw)) \<or>
         (\<not> u \<and> (\<exists>e. recommend sv ports rq vw = Inl e))"
proof -
  have early: "\<exists>r. early_error w = Inr r \<and> reply u truth sv rq r \<and> rs_results r = []"
    if "rw_severity w = ''error''" "rw_code w \<noteq> []" for w
    using early_error_answers [OF that] reply_empty by metis
  have late: "(\<exists>r. close_run sv (recommend_with_pins sv ports rq' vw fresh_context) = Inr r \<and> reply u truth sv rq r) \<or>
      (\<not> u \<and> (\<exists>e. close_run sv (recommend_with_pins sv ports rq' vw fresh_context) = Inl e))"
    if ad: "admit_context sv rq = Inr rq'" for rq'
    using close_run_reply [OF settles_with_pins [OF facts, of u sv rq' vw], of sv] u admit_context_same [OF ad]
    by (simp add: reply_same [OF ad] sound_ports_def)
  let ?res = "recommend sv ports rq vw"
  have stop: ?thesis if "?res = early_error w" "rw_severity w = ''error''" "rw_code w \<noteq> []" for w
    using early [OF that(2,3)] that(1) by auto
  show ?thesis
  proof (cases "validate_request (rv_rank (sv_env sv)) (sv_settings sv) rq")
    case (Some m)
    then show ?thesis by (intro stop) (simp_all add: recommend_def, simp_all add: terminal_issue_def)
  next
    case None
    note go = recommend_def None refused option.case res_bind_Inr
    consider m where "refused = Some m" | "refused = None" "rr_contacts rq" "\<not> vw_contacts vw"
      | "refused = None" "\<not> (rr_contacts rq \<and> \<not> vw_contacts vw)" "rr_review rq = ''include_downranked''" "\<not> vw_review vw"
      | "refused = None" "\<not> (rr_contacts rq \<and> \<not> vw_contacts vw)" "rr_review rq \<noteq> ''include_downranked'' \<or> vw_review vw"
      by (cases refused) blast+
    then show ?thesis
    proof cases
      case 1 then show ?thesis by (intro stop) (simp_all add: go, simp_all add: terminal_issue_def)
    next
      case 2 then show ?thesis by (intro stop) (simp_all add: go, simp_all add: terminal_issue_def)
    next
      case 3
      then have "?res = early_error (terminal_issue ''unauthorized_review'' ''include_downranked requested without permission'')"
        by (auto simp: go)
      then show ?thesis by (rule stop) (simp_all add: terminal_issue_def)
    next
      case 4
      have run: "?res = (case admit_context sv rq of Inl w \<Rightarrow> early_error w
          | Inr rq' \<Rightarrow> close_run sv (recommend_with_pins sv ports rq' vw fresh_context))"
        using 4 by (auto simp: go)
      show ?thesis
      proof (cases "admit_context sv rq")
        case (Inl w)
        then show ?thesis using admit_context_error [OF Inl] by (intro stop [of w]) (simp_all add: run)
      next
        case (Inr rq')
        then show ?thesis using late [OF Inr] 4(3) by (auto simp: run)
      qed
    qed
  qed
qed



section \<open>An example\<close>

definition demo_service :: service where
  "demo_service =
     \<lparr>sv_env = \<lparr>rv_rank = demo_rank_env, rv_rules = demo_rules, rv_words = (\<lambda>s. [s]), rv_float = (\<lambda>s. None),
        rv_two = (\<lambda>q. ''0''), rv_cjk = (\<lambda>s. False)\<rparr>,
      sv_settings = \<lparr>st_query_max = 100, st_limit_max = 20, st_oversample_max = 100, st_timeout = ''30''\<rparr>,
      sv_org_units = (\<lambda>b. True)\<rparr>"

definition demo_truth :: "string \<Rightarrow> prof_fact option" where
  "demo_truth e =
     (if e = ''a'' then Some (demo_fact ''a'' (Some ''Graph theory''))
      else if e = ''b'' then Some ((demo_fact ''b'' None)\<lparr>pf_role := ''excluded''\<rparr>) else None)"

definition demo_hit :: "string \<Rightarrow> rat \<Rightarrow> vector_hit" where
  "demo_hit e q = \<lparr>vh_entity = e, vh_score = q, vh_payload = []\<rparr>"

definition demo_ports :: "json \<Rightarrow> ports" where
  "demo_ports interest =
     \<lparr>pt_snapshot = (\<lambda>n. Inr (Some \<lparr>sn_build = ''b1'', sn_fingerprint = ''fp'', sn_taxonomy = None, sn_profile = ''v1''\<rparr>)),
      pt_generation = (\<lambda>n. Inr ''g1''), pt_ranking = (\<lambda>n. Inr demo_profile),
      pt_understand = (\<lambda>n. Inr (JDict [(''research_interests'', JList [interest]), (''needs_clarification'', JBool False),
        (''confidence'', JFloat 1)], [])),
      pt_hydrate = (\<lambda>n es. Inr (List.map_filter (\<lambda>e. map_option (Pair e) (demo_truth e)) es)),
      pt_embed = (\<lambda>n q. Inr ''fp''), pt_recall = (\<lambda>n fl step. Inr [demo_hit ''b'' 1, demo_hit ''a'' (1 / 2), demo_hit ''a'' 0]),
      pt_details = None, pt_detail = (\<lambda>n e contacts. Inl (P_transient ''TimeoutError''))\<rparr>"

definition demo_request :: rec_request where
  "demo_request =
     \<lparr>rr_query = ''graphs'', rr_student = None,
      rr_filters = \<lparr>fl_universities = [''u1''], fl_cities = [], fl_units = [], fl_titles = [], fl_master = ''confirmed'',
        fl_phd = ''any'', fl_topics = [], fl_topic_mode = ''soft''\<rparr>,
      rr_context = None, rr_limit = 5, rr_oversample = 50, rr_mode = ''explainable_precision'', rr_review = ''exclude'',
      rr_contacts = False, rr_diagnostics = ''none''\<rparr>"

definition demo_viewer :: viewer where
  "demo_viewer = \<lparr>vw_contacts = False, vw_review = False, vw_diagnostics = False\<rparr>"

lemma demo_refusal: "refusal_of demo_service demo_request = Inr None"
  by code_simp

lemma demo_facts: "pinned_facts (demo_ports interest) demo_truth"
  by (auto simp: pinned_facts_def known_def demo_ports_def List.map_filter_def)

lemma demo_sound: "sound_ports demo_service (demo_ports (JStr ''graph'')) demo_request"
proof -
  have "usable ''b1''" "usable ''fp''" "rp_version demo_profile \<noteq> ''unavailable''"
    "texts_only (understand_query (sv_env demo_service) (rr_query demo_request)
       (JDict [(''research_interests'', JList [JStr ''graph'']), (''needs_clarification'', JBool False),
        (''confidence'', JFloat 1)], []))"
    by code_simp+
  then show ?thesis by (simp add: sound_ports_def demo_ports_def demo_service_def)
qed

text \<open>The run of the example, phase by phase.\<close>

definition demo_snap :: snapshot where
  "demo_snap = \<lparr>sn_build = ''b1'', sn_fingerprint = ''fp'', sn_taxonomy = None, sn_profile = ''v1''\<rparr>"

definition demo_qu :: understanding where
  "demo_qu = no_understanding\<lparr>qu_interests := [JStr ''graph''], qu_unclear := False, qu_confidence := 1\<rparr>"

definition demo_candidates :: candidates where
  "demo_candidates =
     \<lparr>ca_survivors = [demo_hit ''a'' (1 / 2)],
      ca_facts = [(''b'', (demo_fact ''b'' None)\<lparr>pf_role := ''excluded''\<rparr>), (''a'', demo_fact ''a'' (Some ''Graph theory''))],
      ca_relaxed = [], ca_degraded = False, ca_recall = 3, ca_steps = 2\<rparr>"

definition demo_context :: "string list \<Rightarrow> rec_context" where
  "demo_context phases =
     \<lparr>xc_snapshot = Some demo_snap, xc_profile = Some demo_profile, xc_fingerprint = Some ''fp'', xc_generation = Some ''g1'',
      xc_phases = map (\<lambda>ph. \<lparr>ph_phase = ph, ph_attempt = None, ph_error = None\<rparr>) phases, xc_warnings = []\<rparr>"

definition demo_phases :: "string list" where
  "demo_phases = [''snapshot'', ''generation_profile'', ''ranking_profile'', ''query_understanding'', ''embedding'']"

lemma rec_bind_run: "m c = (Inr a, c') \<Longrightarrow> rec_bind m f c = f a c'"
  by (simp add: rec_bind_def)

lemma guarded_run:
  "port (length (xc_phases c)) = Inr a \<Longrightarrow>
   guarded ph code att port c =
     (Inr a, c\<lparr>xc_phases := xc_phases c @ [\<lparr>ph_phase = ph, ph_attempt = att, ph_error = None\<rparr>]\<rparr>)"
  by (simp add: guarded_def rec_bind_def rec_get_def rec_record_def rec_modify_def rec_return_def)

lemma rec_modify_run: "rec_bind (rec_modify g) (\<lambda>_. m) c = m (g c)"
  by (simp add: rec_bind_def rec_modify_def)

lemma demo_gather:
  "case gather_candidates (recall_request demo_service (demo_ports (JStr ''graph'')) demo_request demo_snap demo_qu (plain_route ''new_search''))
     demo_profile demo_request 100 None (demo_context demo_phases) of
     (Inl e, c) \<Rightarrow> False | (Inr ca, c) \<Rightarrow> ca = demo_candidates \<and> pinned (Some demo_snap, Some ''fp'') c"
  by code_simp

lemma demo_parts:
  "validate_request (rv_rank (sv_env demo_service)) (sv_settings demo_service) demo_request = None"
  "understand_query (sv_env demo_service) ''graphs''
     (JDict [(''research_interests'', JList [JStr ''graph'']), (''needs_clarification'', JBool False), (''confidence'', JFloat 1)], []) =
   demo_qu"
  "relaxed_filters demo_request demo_qu (plain_route ''new_search'')
     (effective_filters (sv_env demo_service) demo_request demo_qu (plain_route ''new_search'')) = None"
  "None \<notin> term_text ` set (qu_interests demo_qu)" "List.map_filter term_text (qu_interests demo_qu) = [''graph'']"
  "list_all is_text (take 2 (qu_missing demo_qu))" "texts_only demo_qu"
  "resolve_recommend_route (rv_rank (sv_env demo_service)) demo_request = plain_route ''new_search''"
  "usable ''b1''" "usable ''fp''" "usable (rp_version demo_profile)"
  by code_simp+

lemma demo_details:
  "\<exists>c'. fetch_details (demo_ports interest) False [''a''] c = (Inr ([(''a'', None)], [''a'']), c')"
  by (simp add: fetch_details_def demo_ports_def fetch_one_def fetch_one_attempt_def rec_bind_def rec_get_def rec_record_def
      rec_modify_def rec_return_def retryable_def record_each_def dict_set_def)

lemma demo_candidates_ok:
  "candidates_ok demo_truth
     (recall_request demo_service (demo_ports (JStr ''graph'')) demo_request demo_snap demo_qu (plain_route ''new_search''))
     b demo_candidates"
proof -
  have "known demo_truth (ca_facts demo_candidates)" by (simp add: known_def demo_candidates_def demo_truth_def)
  moreover have "list_all (admitted (recall_request demo_service (demo_ports (JStr ''graph'')) demo_request demo_snap demo_qu
      (plain_route ''new_search'')) (ca_facts demo_candidates)) (ca_survivors demo_candidates)" by code_simp
  ultimately show ?thesis by (simp add: candidates_ok_def demo_candidates_def)
qed

lemma demo_followups: "suggested_followups demo_qu c = (Inr [text_school, text_degree], c)"
  by (simp add: suggested_followups_def demo_qu_def no_understanding_def rec_return_def truthy_def)

lemma demo_answer:
  assumes "pinned (Some demo_snap, Some ''fp'') c"
  shows "\<exists>r c'. answer_candidates demo_service (demo_ports (JStr ''graph'')) demo_request False demo_snap ''g1'' demo_profile
     demo_qu [] fl demo_candidates c = (Inr r, c') \<and> map cd_entity (rs_results r) = [''a'']"
proof -
  let ?x = "recall_request demo_service (demo_ports (JStr ''graph'')) demo_request demo_snap demo_qu (plain_route ''new_search'')"
  let ?run = "answer_candidates demo_service (demo_ports (JStr ''graph'')) demo_request False demo_snap ''g1'' demo_profile
     demo_qu [] fl demo_candidates"
  obtain c' where details: "fetch_details (demo_ports (JStr ''graph'')) False [''a''] c = (Inr ([(''a'', None)], [''a'']), c')"
    using demo_details by blast
  let ?ri = "\<lparr>ri_facts = ca_facts demo_candidates, ri_details = [(''a'', None)],
    ri_semantic = normalize_rrf (ca_survivors demo_candidates), ri_student = rr_student demo_request, ri_profile = demo_profile,
    ri_terms = [''graph''], ri_anchor = []\<rparr>"
  let ?ranked = "sort_key (tie_break_key (rp_tie_break demo_profile)) (rank_entries (rv_rank (sv_env demo_service)) ?ri [''a''])"
  have window: "map vh_entity (take (nat (rp_window demo_profile)) (ca_survivors demo_candidates)) = [''a'']" by code_simp
  have ranked: "rerank (rv_rank (sv_env demo_service)) ?ri [''a''] = Inr ?ranked"
    using rerank_valid [of ?ri "rv_rank (sv_env demo_service)" "[''a'']"] demo_profile_valid by simp
  have one: "map ke_entity ?ranked = [''a'']"
    using rank_entries_entities [of "rv_rank (sv_env demo_service)" ?ri "[''a'']"] by (auto simp: map_eq_Cons_conv)
  have terms: "term_texts (qu_interests demo_qu) c' = (Inr [''graph''], c')" for c'
    by (simp add: term_texts_def demo_parts rec_return_def)
  have shown: "map (cd_entity \<circ> fst) (result_cards (sv_env demo_service) ?ri (ca_relaxed demo_candidates)
      (take (nat (rr_limit demo_request)) (strict_first (ca_relaxed demo_candidates) ?ranked))) = [''a'']"
    using one by (simp add: result_cards_entities strict_first_def demo_candidates_def demo_request_def flip: take_map)
  have "\<exists>r c''. ?run c = checked r c'' \<and> map cd_entity (rs_results r) = [''a'']"
    unfolding answer_candidates_def Let_def window
    by (simp add: rec_bind_def details terms ranked demo_followups rec_get_def, intro exI conjI, rule refl) (use shown in simp)
  then obtain r c'' where run: "?run c = checked r c''" and cards: "map cd_entity (rs_results r) = [''a'']"
    by (elim exE conjE)
  have sound: "runs True (Some demo_snap, Some ''fp'') ?run
      (\<lambda>r. answer_ok demo_truth ?x False demo_request demo_snap r \<and> (True \<longrightarrow> valid_response r))"
    by (rule runs_answer [OF demo_candidates_ok demo_profile_valid]) (simp add: demo_parts, simp add: demo_snap_def demo_parts)
  have "valid_response r"
  proof (rule ccontr)
    assume "\<not> valid_response r"
    then have "?run c = (Inl (Escapes ''ValueError''), c'')" by (simp add: run checked_def rec_stop_with_def)
    from rec_hoareD(2) [OF sound [unfolded runs_def] assms this] show False by (simp add: ends_ok_def)
  qed
  then show ?thesis using cards by (auto simp: run checked_def rec_return_def)
qed

lemma demo_search:
  "\<exists>r c'. search_and_rank demo_service (demo_ports (JStr ''graph'')) demo_request False demo_snap ''g1'' demo_profile demo_qu
     (plain_route ''new_search'') []
     ((demo_context (butlast demo_phases))\<lparr>xc_fingerprint := None\<rparr>) = (Inr r, c') \<and> map cd_entity (rs_results r) = [''a'']"
proof -
  let ?c = "(demo_context (butlast demo_phases))\<lparr>xc_fingerprint := None\<rparr>"
  let ?x = "recall_request demo_service (demo_ports (JStr ''graph'')) demo_request demo_snap demo_qu (plain_route ''new_search'')"
  let ?fl = "effective_filters (sv_env demo_service) demo_request demo_qu (plain_route ''new_search'')"
  obtain c1 where gather: "gather_candidates ?x demo_profile demo_request 100 None (demo_context demo_phases) =
      (Inr demo_candidates, c1)" "pinned (Some demo_snap, Some ''fp'') c1"
    using demo_gather
    by (cases "gather_candidates ?x demo_profile demo_request 100 None (demo_context demo_phases)") (auto split: sum.splits)
  have embed: "guarded ''embedding'' ''embedding_unavailable'' None (\<lambda>n. pt_embed (demo_ports (JStr ''graph'')) n (rr_query demo_request)) ?c =
      (Inr ''fp'', ?c\<lparr>xc_phases := xc_phases (demo_context demo_phases)\<rparr>)"
    by (simp add: guarded_run demo_ports_def demo_context_def demo_phases_def)
  from demo_answer [OF gather(2), of ?fl] gather(1)
  have "\<exists>r c'. rec_bind (gather_candidates ?x demo_profile demo_request 100 None) (\<lambda>ca.
      if ca_survivors ca = [] then no_candidates demo_service demo_request demo_profile ''fp'' ?fl ca
      else answer_candidates demo_service (demo_ports (JStr ''graph'')) demo_request False demo_snap ''g1'' demo_profile
        demo_qu [] ?fl ca) (demo_context demo_phases) = (Inr r, c') \<and> map cd_entity (rs_results r) = [''a'']"
    by (simp add: rec_bind_def, simp add: demo_candidates_def)
  moreover have "?c\<lparr>xc_phases := xc_phases (demo_context demo_phases), xc_fingerprint := Some ''fp''\<rparr> = demo_context demo_phases"
    by (simp add: demo_context_def)
  moreover have "st_oversample_max (sv_settings demo_service) = 100" "sn_fingerprint demo_snap = ''fp''"
    by (simp_all add: demo_service_def demo_snap_def)
  ultimately show ?thesis
    unfolding search_and_rank_def rec_bind_run [of "guarded ''embedding'' ''embedding_unavailable'' None port" for port, OF embed]
      rec_modify_run
    by (simp add: Let_def recall_request_def demo_parts)
qed

lemma demo_port_answers:
  "pt_snapshot (demo_ports interest) n = Inr (Some demo_snap)" "pt_generation (demo_ports interest) n = Inr ''g1''"
  "read_profile (demo_ports interest) n = Inr demo_profile"
  by (simp_all add: demo_ports_def demo_snap_def read_profile_def demo_profile_valid)

lemma demo_run:
  "\<exists>r. recommend demo_service (demo_ports (JStr ''graph'')) demo_request demo_viewer = Inr r \<and> map cd_entity (rs_results r) = [''a'']"
proof -
  let ?ports = "demo_ports (JStr ''graph'')" and ?c = "(demo_context (butlast demo_phases))\<lparr>xc_fingerprint := None\<rparr>"
  let ?heard = "(JDict [(''research_interests'', JList [JStr ''graph'']), (''needs_clarification'', JBool False),
    (''confidence'', JFloat 1)], [])"
  have heard: "pt_understand ?ports n = Inr ?heard" for n by (simp add: demo_ports_def)
  have route: "\<not> ro_detail (plain_route ''new_search'')" "ro_terminal (plain_route ''new_search'') = []"
    "ro_intent (plain_route ''new_search'') \<noteq> ''same_field''" "ro_warnings (plain_route ''new_search'') = []" "\<not> qu_unclear demo_qu"
    "rr_query demo_request = ''graphs''" "\<not> rr_contacts demo_request" "rr_review demo_request = ''exclude''" "rr_context demo_request = None"
    by (simp_all add: plain_route_def demo_qu_def demo_request_def)
  have "recommend_with_pins demo_service ?ports demo_request demo_viewer fresh_context =
      search_and_rank demo_service ?ports demo_request False demo_snap ''g1'' demo_profile demo_qu (plain_route ''new_search'') [] ?c"
    by (simp add: recommend_with_pins_def recommend_pinned_def rec_bind_def guarded_run [OF demo_port_answers(1)]
        guarded_run [OF demo_port_answers(2)] guarded_run [OF demo_port_answers(3)] guarded_run [OF heard] rec_modify_def Let_def
        demo_parts route, simp add: fresh_context_def demo_context_def demo_phases_def)
  then show ?thesis
    using demo_search demo_refusal
    by (auto simp: recommend_def demo_parts close_run_def admit_context_def route)
qed



text \<open>
  \<open>coerce_understanding\<close> keeps the entries of the model's lists as they are. An interest that is no string passes it
  and ends the request outside every handler: \<open>rerank\<close> calls \<open>strip\<close> on it.
\<close>

lemma number_as_interest_escapes:
  "recommend demo_service (demo_ports (JInt 3)) demo_request demo_viewer = Inl ''AttributeError''"
  by code_simp

end
