(* ===== verification/Spec2Isabelle.thy ===== *)
theory Spec2Isabelle
  imports Dext_Engine Dext_Plan_Http Dext_Curation Dext_Answers
begin

text \<open>
  A verification library for dext, a crawler that builds a catalogue of university professors with
  a human-operated browser and a language model, and for the services that answer students from
  what was collected. All paths below are under \<open>src/src/\<close>.

  \<^bold>\<open>Parts of the program and their theories.\<close>

  \<^item> \<open>Dext_Prelude\<close>: results (\<open>res_bind\<close>, \<open>res_fold\<close>), Python strings, dicts and JSON values, and
    the list, map and table lemmas the components share. \<open>Dext_Types\<close>: the enumerations and
    value types of \<open>dext/storage/models.py\<close>, \<open>types.py\<close>, \<open>config.py\<close>, \<open>exclusions.py\<close>.
  \<^item> \<open>Dext_Url\<close>: \<open>dext/page/urls.py\<close> and \<open>dext/url_policy.py\<close>, URL normalisation, the same-site
    test and the fetch allowlist.
  \<^item> \<open>Dext_Bridge\<close>: \<open>dext/bridge\<close>. The queue of fetch jobs, the heartbeats of the frontend, the
    decision slot, mojibake repair and \<open>HumanFetcherBridge\<close>. Its coroutines are a transition
    system; conservation of jobs, finality of results and the exact time-out are proved by
    induction over its steps.
  \<^item> \<open>Dext_Store\<close>: \<open>dext/storage/writer.py\<close>, the tables as lists of rows and every writer command
    as a store transformer with its constraint errors, and the crash recovery of
    \<open>lifecycle.py\<close>. \<open>Dext_Dedup\<close>: \<open>dedup.py\<close>, the merging of professor records, and the
    reachable stores.
  \<^item> \<open>Dext_Page\<close>, \<open>Dext_Llm\<close>, \<open>Dext_Retry\<close>, \<open>Dext_Seeds\<close>: page snapshots and pagination
    (\<open>dext/page\<close>), the parsing of the model's replies (\<open>dext/llm\<close>), failure classification and
    back-off, seed loading.
  \<^item> \<open>Dext_World\<close>, \<open>Dext_Handlers\<close>, \<open>Dext_Engine\<close>: \<open>dext/engine\<close>. The state a crawl works on, the
    page handlers, the driver, the two worker pools, the closing of a run and its summary. A turn of the
    driver or of a worker is atomic up to its awaits; \<open>engine_step\<close> lets the turns interleave in
    any order.
  \<^item> \<open>Dext_Grounded\<close>: \<open>dext_grounded\<close>. Facts, claims, the rule file, citation validation,
    trimming, the safety guard and the generation pipeline.
  \<^item> \<open>Dext_Plan\<close>, \<open>Dext_Plan_Generate\<close>: \<open>dext_competition/planning\<close> and \<open>contracts/plan.py\<close>, the
    scheduling of preparation plans and their generation.
  \<^item> \<open>Dext_Assistant\<close>: \<open>dext_competition/assistant\<close> and \<open>contracts/assistant.py\<close>, change cards.
  \<^item> \<open>Dext_Plan_Repo\<close>: \<open>dext_competition/repositories/plans.py\<close>, the owner-scoped state.
    \<open>Dext_Plan_Http\<close>: the plan endpoints of \<open>dext_competition/http\<close>, which compose the three.

  \<^bold>\<open>How they interact.\<close> The driver claims nodes of the store, asks the bridge for pages (or the page
  cache), classifies failures and queues tasks; the decision workers run the handlers, which parse
  the model's decision and add nodes; the extraction workers parse records and save them through the
  deduplication. The assistant runs on the grounded pipeline; the endpoints run the generator,
  the assistant and the repositories.

  \<^bold>\<open>Conventions.\<close> A string is the list of its UTF-8 bytes. Floats are rationals, dates are day
  numbers, dicts are association lists in insertion order, SQL tables are lists of rows in id
  order. An exception is the left value of a result; an operation that may fail after changing its
  state returns the state and the result. Code outside the repository is an argument: the HTML
  parser, the URL library's IDNA step, regular expressions, Unicode case folding and normalisation,
  SHA-256, UUIDs, the clock, the model's answers, the request validation of pydantic and the
  rounded float quotient of the phase lengths. Loops are structurally recursive or come with a
  measure; nothing is bounded by fuel. The messages of bucket errors in \<open>Dext_Grounded\<close> are
  abbreviated.

  \<^bold>\<open>Interfaces.\<close> The locale \<open>owner_scoped\<close> of \<open>Dext_Plan_Repo\<close> is the contract of owner-scoped
  state, with noninterference proved from it once; it is interpreted on the plan repository and on
  the endpoints. The other locales stand in the theories of the components that provide them.

  \<^bold>\<open>What is proved.\<close> For the crawler: the store invariants hold in every interleaving and after
  every crash; a run claims each node once and within its attempts; the facet budget bounds a
  college; handlers and extraction tasks settle their node; saving is idempotent and never
  overwrites; the query codec round-trips. For the answers: fact claims cite only known references,
  contacts are removed. For the plans: scheduling fails exactly when it must, generation is
  total and keeps every contract whatever the model returns, cards that pass are applicable and
  grounded, the repository refines two finite maps, writes replay, revisions grow, tenants do not
  influence each other. Where the code departs from its documentation or its intent, the
  departure is a theorem: a page with several teachers yields one professor, a failed fetch is
  never fetched again, a raising handler ends its worker, completed tasks are not protected,
  overlapping schedules pass, a deletion during the await leaves history behind, an unhashable key
  escapes, and three gaps of the grounded guard.

  \<^bold>\<open>Not modelled.\<close> The bridge's HTTP server, the model client and prompts, the command lines and file
  handling are I/O. The graph catalog (\<open>dext_graph\<close>), the recommendation service
  (\<open>dext_recommend\<close>), the competition catalog, index, ranking and question answering are planned
  next, in that order; the monitor and the application shell only assemble or display other parts.
\<close>

end
